(* ===== verification/Prelude.thy ===== *)
theory Prelude
  imports Main "HOL-Library.Word"
begin

text \<open>
  Shared vocabulary of the DeepShield development: machine words, NTSTATUS codes, flag
  macros, byte strings and flat memory, and the generic lemmas about them that the
  component theories use.  Collections:
  \<^item> \<open>ds_defs\<close>: definitions that component proofs unfold together;
  \<^item> \<open>ds_wrap\<close>: arithmetic of indices that wrap once around a buffer.
\<close>

unbundle bit_operations_syntax

type_synonym u8 = "8 word"
type_synonym u16 = "16 word"
type_synonym u32 = "32 word"
type_synonym u64 = "64 word"

named_theorems ds_defs
named_theorems ds_wrap

section \<open>NTSTATUS\<close>

text \<open>
  NTSTATUS values are 32-bit integers; \<open>NT_SUCCESS\<close> tests the sign, so success and
  informational codes pass and warnings and errors fail.  The numbers are those of the
  Windows headers.
\<close>

type_synonym ntstatus = u32

definition NT_SUCCESS :: "ntstatus \<Rightarrow> bool" where
  "NT_SUCCESS s = (0 \<le> sint s)"

abbreviation STATUS_SUCCESS :: ntstatus where "STATUS_SUCCESS \<equiv> 0"
abbreviation STATUS_TIMEOUT :: ntstatus where "STATUS_TIMEOUT \<equiv> 0x102"
abbreviation STATUS_PENDING :: ntstatus where "STATUS_PENDING \<equiv> 0x103"
abbreviation STATUS_BUFFER_OVERFLOW :: ntstatus where "STATUS_BUFFER_OVERFLOW \<equiv> 0x80000005"
abbreviation STATUS_UNSUCCESSFUL :: ntstatus where "STATUS_UNSUCCESSFUL \<equiv> 0xC0000001"
abbreviation STATUS_INFO_LENGTH_MISMATCH :: ntstatus where
  "STATUS_INFO_LENGTH_MISMATCH \<equiv> 0xC0000004"
abbreviation STATUS_INVALID_PARAMETER :: ntstatus where "STATUS_INVALID_PARAMETER \<equiv> 0xC000000D"
abbreviation STATUS_INVALID_DEVICE_REQUEST :: ntstatus where
  "STATUS_INVALID_DEVICE_REQUEST \<equiv> 0xC0000010"
abbreviation STATUS_NO_MEMORY :: ntstatus where "STATUS_NO_MEMORY \<equiv> 0xC0000017"
abbreviation STATUS_BUFFER_TOO_SMALL :: ntstatus where "STATUS_BUFFER_TOO_SMALL \<equiv> 0xC0000023"
abbreviation STATUS_DELETE_PENDING :: ntstatus where "STATUS_DELETE_PENDING \<equiv> 0xC0000056"
abbreviation STATUS_NONE_MAPPED :: ntstatus where "STATUS_NONE_MAPPED \<equiv> 0xC0000073"
abbreviation STATUS_INSUFFICIENT_RESOURCES :: ntstatus where
  "STATUS_INSUFFICIENT_RESOURCES \<equiv> 0xC000009A"
abbreviation STATUS_NOT_SUPPORTED :: ntstatus where "STATUS_NOT_SUPPORTED \<equiv> 0xC00000BB"
abbreviation STATUS_INTERNAL_ERROR :: ntstatus where "STATUS_INTERNAL_ERROR \<equiv> 0xC00000E5"
abbreviation STATUS_NOT_FOUND :: ntstatus where "STATUS_NOT_FOUND \<equiv> 0xC0000225"
abbreviation STATUS_OBJECTID_EXISTS :: ntstatus where "STATUS_OBJECTID_EXISTS \<equiv> 0xC000022B"

lemma NT_SUCCESS_codes [simp]:
  "NT_SUCCESS 0" "NT_SUCCESS 0x102" "NT_SUCCESS 0x103"
  "\<not> NT_SUCCESS 0x80000005" "\<not> NT_SUCCESS 0xC0000001" "\<not> NT_SUCCESS 0xC0000004"
  "\<not> NT_SUCCESS 0xC000000D" "\<not> NT_SUCCESS 0xC0000010" "\<not> NT_SUCCESS 0xC0000017"
  "\<not> NT_SUCCESS 0xC0000023" "\<not> NT_SUCCESS 0xC0000056" "\<not> NT_SUCCESS 0xC0000073"
  "\<not> NT_SUCCESS 0xC000009A" "\<not> NT_SUCCESS 0xC00000BB" "\<not> NT_SUCCESS 0xC00000E5"
  "\<not> NT_SUCCESS 0xC0000225" "\<not> NT_SUCCESS 0xC000022B"
  by (simp_all add: NT_SUCCESS_def)

lemma NT_SUCCESS_not_zero: "\<not> NT_SUCCESS s \<Longrightarrow> s \<noteq> 0"
  by (auto simp: NT_SUCCESS_def)

section \<open>Flag macros\<close>

definition FlagOn :: "u32 \<Rightarrow> u32 \<Rightarrow> bool" where
  "FlagOn f m = (f AND m \<noteq> 0)"

definition SetFlag :: "u32 \<Rightarrow> u32 \<Rightarrow> u32" where
  "SetFlag f m = f OR m"

definition ClearFlag :: "u32 \<Rightarrow> u32 \<Rightarrow> u32" where
  "ClearFlag f m = f AND NOT m"

lemma FlagOn_SetFlag_same [simp]: "m \<noteq> 0 \<Longrightarrow> FlagOn (SetFlag f m) m"
  by (simp add: FlagOn_def SetFlag_def bit.conj_disj_distrib2 word_bw_same)

lemma FlagOn_ClearFlag_same [simp]: "\<not> FlagOn (ClearFlag f m) m"
  by (simp add: FlagOn_def ClearFlag_def and.assoc)

lemma FlagOn_SetFlag_other [simp]: "n AND m = 0 \<Longrightarrow> FlagOn (SetFlag f n) m = FlagOn f m"
  by (simp add: FlagOn_def SetFlag_def bit.conj_disj_distrib2)

lemma FlagOn_ClearFlag_other [simp]:
  assumes "n AND m = 0" shows "FlagOn (ClearFlag f n) m = FlagOn f m"
proof -
  have "(f AND NOT n) AND m = f AND m"
    using assms by (simp add: bit_eq_iff bit_simps) blast
  then show ?thesis by (simp add: FlagOn_def ClearFlag_def)
qed

lemma FlagOn_zero [simp]: "\<not> FlagOn 0 m"
  by (simp add: FlagOn_def)

section \<open>Byte memory\<close>

type_synonym memory = "nat \<Rightarrow> u8"

text \<open>\<open>RtlCopyMemory\<close> from a private buffer into memory, and the reverse.\<close>

definition copy_to :: "memory \<Rightarrow> nat \<Rightarrow> u8 list \<Rightarrow> memory" where
  "copy_to m a bs = (\<lambda>x. if a \<le> x \<and> x < a + length bs then bs ! (x - a) else m x)"

definition copy_from :: "memory \<Rightarrow> nat \<Rightarrow> nat \<Rightarrow> u8 list" where
  "copy_from m a n = map (\<lambda>i. m (a + i)) [0..<n]"

lemma length_copy_from [simp]: "length (copy_from m a n) = n"
  by (simp add: copy_from_def)

lemma nth_copy_from [simp]: "i < n \<Longrightarrow> copy_from m a n ! i = m (a + i)"
  by (simp add: copy_from_def)

lemma copy_from_copy_to [simp]: "copy_from (copy_to m a bs) a (length bs) = bs"
  by (rule nth_equalityI) (auto simp: copy_to_def)

lemma copy_to_Nil [simp]: "copy_to m a [] = m"
  by (rule ext) (auto simp: copy_to_def)

section \<open>Indices that wrap once\<close>

text \<open>The index of the byte \<open>i\<close> places after \<open>p\<close> in a buffer of \<open>n\<close> bytes.\<close>

definition wrap :: "nat \<Rightarrow> nat \<Rightarrow> nat" where
  [ds_wrap]: "wrap n i = (if i < n then i else i - n)"

lemma wrap_mod: "i < 2 * n \<Longrightarrow> wrap n i = i mod n"
  by (auto simp: wrap_def not_less mod_if)

section \<open>Little-endian words\<close>

text \<open>A 32- or 64-bit field in memory is stored least significant byte first.\<close>

definition le32 :: "u32 \<Rightarrow> u8 list" where
  "le32 w = map (\<lambda>i. ucast (drop_bit (8 * i) w)) [0..<4]"

definition le64 :: "u64 \<Rightarrow> u8 list" where
  "le64 w = map (\<lambda>i. ucast (drop_bit (8 * i) w)) [0..<8]"

fun of_le :: "u8 list \<Rightarrow> 'a::len word" where
  "of_le [] = 0"
| "of_le (b # bs) = ucast b OR push_bit 8 (of_le bs)"

lemma length_le32 [simp]: "length (le32 w) = 4" by (simp add: le32_def)
lemma length_le64 [simp]: "length (le64 w) = 8" by (simp add: le64_def)

lemma upt_4: "[0..<4] = [0, 1, 2, 3::nat]" by (simp add: upt_rec)
lemma upt_8: "[0..<8] = [0, 1, 2, 3, 4, 5, 6, 7::nat]" by (simp add: upt_rec)

lemma bit_of_le:
  "bit (of_le bs :: 'a::len word) n =
     (n < LENGTH('a) \<and> n < 8 * length bs \<and> bit (bs ! (n div 8)) (n mod 8))"
proof (induction bs arbitrary: n)
  case Nil then show ?case by simp
next
  case (Cons b bs)
  show ?case
  proof (cases "n < 8")
    case True
    then show ?thesis by (auto simp: bit_simps)
  next
    case False
    then obtain k where k: "n = k + 8" by (metis add.commute le_iff_add not_less)
    then have "n div 8 = Suc (k div 8)" "n mod 8 = k mod 8" by simp_all
    note k = k this
    have "bit (of_le (b # bs) :: 'a word) n =
            (n < LENGTH('a) \<and> bit (of_le bs :: 'a word) k)"
      using False k by (auto simp: bit_simps dest: bit_imp_le_length)
    then show ?thesis unfolding Cons.IH using k by (auto simp del: div_add_self2)
  qed
qed

lemma of_le_le32 [simp]: "of_le (le32 w) = w"
proof (rule bit_word_eqI)
  fix n assume n: "n < LENGTH(32)"
  then have "8 * (n div 8) + n mod 8 = n" "n mod 8 < 8" "n div 8 < 4" by auto
  then have "bit (of_le (le32 w) :: u32) n = (n < 32 \<and> bit w n)"
    by (simp only: bit_of_le length_le32) (simp add: le32_def bit_simps)
  with n show "bit (of_le (le32 w) :: u32) n = bit w n" by simp
qed

lemma of_le_le64 [simp]: "of_le (le64 w) = w"
proof (rule bit_word_eqI)
  fix n assume n: "n < LENGTH(64)"
  then have "8 * (n div 8) + n mod 8 = n" "n mod 8 < 8" "n div 8 < 8" by auto
  then have "bit (of_le (le64 w) :: u64) n = (n < 64 \<and> bit w n)"
    by (simp only: bit_of_le length_le64) (simp add: le64_def bit_simps)
  with n show "bit (of_le (le64 w) :: u64) n = bit w n" by simp
qed

end
