(* ===== verification/Heap.thy ===== *)
theory Heap
  imports Prelude
begin

text \<open>
  The heap of \<open>src/mem.c\<close>: one region cut into blocks that are linked twice, physically
  (in the order of their addresses) and virtually (the free list and the used list).
  Blocks are named by the offset of their data, as in the code; \<open>hp_block h X\<close> is
  \<open>*BLOCK(X)\<close>, the header in the 24 bytes before \<open>X\<close>, and \<open>hp_data\<close> the bytes the blocks
  hand out.  \<open>UINT32\<close> quantities are naturals; where the code's arithmetic can exceed
  the width the definitions reduce it modulo \<open>2^32\<close>.

  The second half gives the heap its meaning: the physical blocks tile the region, and the
  two lists are the free and the used blocks; every operation keeps this, allocation hands
  out a block of the size asked for, and freeing merges neighbours.
\<close>

section \<open>Data\<close>

definition HEAP_BLOCK_FREE :: u32 where "HEAP_BLOCK_FREE = 0"
definition HEAP_BLOCK_USED :: u32 where "HEAP_BLOCK_USED = 1"

record heap_block =
  hb_state :: u32
  hb_size :: nat
  hb_pprev :: nat
  hb_pnext :: nat
  hb_vprev :: nat
  hb_vnext :: nat

type_synonym blocks = "nat \<Rightarrow> heap_block"

record heap =
  hp_lock :: bool
  hp_memory :: nat
  hp_size :: nat
  hp_freeList :: nat
  hp_usedList :: nat
  hp_block :: blocks
  hp_data :: "nat \<Rightarrow> u8"

definition START :: nat where "START = 24"
definition MINIMAL_FREE_BLOCK_SIZE :: nat where "MINIMAL_FREE_BLOCK_SIZE = 16"

abbreviation upd :: "blocks \<Rightarrow> nat \<Rightarrow> (heap_block \<Rightarrow> heap_block) \<Rightarrow> blocks" where
  "upd B x f \<equiv> B(x := f (B x))"

section \<open>The linked lists\<close>

text \<open>Both routines return the blocks and the new head.\<close>

definition HeappBlockUnlink :: "blocks \<Rightarrow> nat \<Rightarrow> nat \<Rightarrow> blocks \<times> nat" where
  "HeappBlockUnlink B head address =
     (let B1 = (if hb_vnext (B address) \<noteq> 0
                then upd B (hb_vnext (B address)) (hb_vprev_update (\<lambda>_. hb_vprev (B address))) else B);
          B2 = (if hb_vprev (B1 address) \<noteq> 0
                then upd B1 (hb_vprev (B1 address)) (hb_vnext_update (\<lambda>_. hb_vnext (B1 address))) else B1)
      in (B2, if head = address then hb_vnext (B2 address) else head))"

definition HeappBlockLink :: "blocks \<Rightarrow> nat \<Rightarrow> nat \<Rightarrow> blocks \<times> nat" where
  "HeappBlockLink B head address =
     (let B1 = upd B address (\<lambda>b. b\<lparr>hb_vnext := head, hb_vprev := 0\<rparr>);
          B2 = (if head \<noteq> 0 then upd B1 head (hb_vprev_update (\<lambda>_. address)) else B1)
      in (B2, address))"

definition HeappBlockZero :: "blocks \<Rightarrow> nat \<Rightarrow> blocks" where
  "HeappBlockZero B address =
     B(address := \<lparr>hb_state = 0, hb_size = 0, hb_pprev = 0, hb_pnext = 0, hb_vprev = 0, hb_vnext = 0\<rparr>)"

definition unlink_free :: "heap \<Rightarrow> nat \<Rightarrow> heap" where
  "unlink_free h address =
     (let (B, hd) = HeappBlockUnlink (hp_block h) (hp_freeList h) address
      in h\<lparr>hp_block := B, hp_freeList := hd\<rparr>)"

definition unlink_used :: "heap \<Rightarrow> nat \<Rightarrow> heap" where
  "unlink_used h address =
     (let (B, hd) = HeappBlockUnlink (hp_block h) (hp_usedList h) address
      in h\<lparr>hp_block := B, hp_usedList := hd\<rparr>)"

definition link_free :: "heap \<Rightarrow> nat \<Rightarrow> heap" where
  "link_free h address =
     (let (B, hd) = HeappBlockLink (hp_block h) (hp_freeList h) address
      in h\<lparr>hp_block := B, hp_freeList := hd\<rparr>)"

definition link_used :: "heap \<Rightarrow> nat \<Rightarrow> heap" where
  "link_used h address =
     (let (B, hd) = HeappBlockLink (hp_block h) (hp_usedList h) address
      in h\<lparr>hp_block := B, hp_usedList := hd\<rparr>)"

definition set_block :: "heap \<Rightarrow> nat \<Rightarrow> (heap_block \<Rightarrow> heap_block) \<Rightarrow> heap" where
  "set_block h x f = h\<lparr>hp_block := upd (hp_block h) x f\<rparr>"

section \<open>Splitting, aligning and freeing\<close>

definition HeappSplit :: "heap \<Rightarrow> nat \<Rightarrow> nat \<Rightarrow> heap" where
  "HeappSplit h address nbytes =
     (let h1 =
        (if nbytes + 24 + MINIMAL_FREE_BLOCK_SIZE \<le> hb_size (hp_block h address) then
           let newBlock = address + nbytes + 24;
               b = hp_block h address;
               g = set_block h newBlock (\<lambda>n. n\<lparr>hb_state := HEAP_BLOCK_FREE,
                     hb_size := hb_size b - nbytes - 24, hb_pprev := address, hb_pnext := hb_pnext b\<rparr>);
               g = link_free g newBlock;
               g = (if hb_pnext (hp_block g address) \<noteq> 0
                    then set_block g (hb_pnext (hp_block g address)) (hb_pprev_update (\<lambda>_. newBlock)) else g);
               g = set_block g address (hb_pnext_update (\<lambda>_. newBlock))
           in set_block g address (hb_size_update (\<lambda>_. nbytes))
         else h);
          h2 = unlink_free h1 address;
          h3 = set_block h2 address (hb_state_update (\<lambda>_. HEAP_BLOCK_USED))
      in link_used h3 address)"

definition HeappAlign :: "heap \<Rightarrow> nat \<Rightarrow> nat \<Rightarrow> heap" where
  "HeappAlign h address aligned =
     (let gap = aligned - address;
          b = hp_block h address
      in if 24 + MINIMAL_FREE_BLOCK_SIZE \<le> gap then
           let g = set_block h aligned (\<lambda>n. n\<lparr>hb_state := HEAP_BLOCK_FREE, hb_size := hb_size b - gap,
                     hb_pprev := address, hb_pnext := hb_pnext b\<rparr>);
               g = link_free g aligned;
               g = (if hb_pnext (hp_block g address) \<noteq> 0
                    then set_block g (hb_pnext (hp_block g address)) (hb_pprev_update (\<lambda>_. aligned)) else g);
               g = set_block g address (hb_pnext_update (\<lambda>_. aligned))
           in set_block g address (hb_size_update (\<lambda>_. gap - 24))
         else
           let g = (if hb_pnext b \<noteq> 0 then set_block h (hb_pnext b) (hb_pprev_update (\<lambda>_. aligned)) else h);
               g = set_block g (hb_pprev (hp_block g address)) (hb_pnext_update (\<lambda>_. aligned));
               g = unlink_free g address;
               tmp = hp_block g address;
               g = set_block g aligned (\<lambda>_. tmp);
               g = set_block g (hb_pprev (hp_block g aligned)) (\<lambda>p. p\<lparr>hb_size := hb_size p + gap\<rparr>);
               g = set_block g aligned (\<lambda>n. n\<lparr>hb_size := hb_size n - gap\<rparr>)
           in link_free g aligned)"

text \<open>
  The four cases of \<open>HeappFree\<close> are tested one after the other on the state the previous
  ones left.
\<close>

definition free_uuu :: "heap \<Rightarrow> nat \<Rightarrow> nat \<Rightarrow> nat \<Rightarrow> heap" where
  "free_uuu h prev current nxt =
     (if (prev = 0 \<or> hb_state (hp_block h prev) = HEAP_BLOCK_USED) \<and>
         (nxt = 0 \<or> hb_state (hp_block h nxt) = HEAP_BLOCK_USED)
      then link_free (set_block h current (hb_state_update (\<lambda>_. HEAP_BLOCK_FREE))) current
      else h)"

definition free_uuf :: "heap \<Rightarrow> nat \<Rightarrow> nat \<Rightarrow> nat \<Rightarrow> bool \<Rightarrow> heap" where
  "free_uuf h prev current nxt secure =
     (if (prev = 0 \<or> hb_state (hp_block h prev) = HEAP_BLOCK_USED) \<and>
         (nxt \<noteq> 0 \<and> hb_state (hp_block h nxt) = HEAP_BLOCK_FREE)
      then
        let g = unlink_free h nxt;
            g = set_block g current (\<lambda>b. b\<lparr>hb_size := hb_size b + (24 + hb_size (hp_block g nxt))\<rparr>);
            g = set_block g current (hb_pnext_update (\<lambda>_. hb_pnext (hp_block g nxt)));
            g = (if hb_pnext (hp_block g nxt) \<noteq> 0
                 then set_block g (hb_pnext (hp_block g nxt)) (hb_pprev_update (\<lambda>_. current)) else g);
            g = (if secure then g\<lparr>hp_block := HeappBlockZero (hp_block g) nxt\<rparr> else g);
            g = set_block g current (hb_state_update (\<lambda>_. HEAP_BLOCK_FREE))
        in link_free g current
      else h)"

definition free_fuu :: "heap \<Rightarrow> nat \<Rightarrow> nat \<Rightarrow> nat \<Rightarrow> bool \<Rightarrow> heap" where
  "free_fuu h prev current nxt secure =
     (if (prev \<noteq> 0 \<and> hb_state (hp_block h prev) = HEAP_BLOCK_FREE) \<and>
         (nxt = 0 \<or> hb_state (hp_block h nxt) = HEAP_BLOCK_USED)
      then
        let g = set_block h prev (\<lambda>b. b\<lparr>hb_size := hb_size b + (24 + hb_size (hp_block h current))\<rparr>);
            g = set_block g prev (hb_pnext_update (\<lambda>_. nxt));
            g = (if nxt \<noteq> 0 then set_block g nxt (hb_pprev_update (\<lambda>_. prev)) else g)
        in if secure then g\<lparr>hp_block := HeappBlockZero (hp_block g) current\<rparr> else g
      else h)"

definition free_fuf :: "heap \<Rightarrow> nat \<Rightarrow> nat \<Rightarrow> nat \<Rightarrow> bool \<Rightarrow> heap" where
  "free_fuf h prev current nxt secure =
     (if (prev \<noteq> 0 \<and> hb_state (hp_block h prev) = HEAP_BLOCK_FREE) \<and>
         (nxt \<noteq> 0 \<and> hb_state (hp_block h nxt) = HEAP_BLOCK_FREE)
      then
        let g = unlink_free h nxt;
            g = set_block g prev (\<lambda>b. b\<lparr>hb_size := hb_size b +
                  (24 + hb_size (hp_block g current) + 24 + hb_size (hp_block g nxt))\<rparr>);
            g = set_block g prev (hb_pnext_update (\<lambda>_. hb_pnext (hp_block g nxt)));
            g = (if hb_pnext (hp_block g nxt) \<noteq> 0
                 then set_block g (hb_pnext (hp_block g nxt)) (hb_pprev_update (\<lambda>_. prev)) else g)
        in if secure then g\<lparr>hp_block := HeappBlockZero (HeappBlockZero (hp_block g) current) nxt\<rparr> else g
      else h)"

definition zero_data :: "heap \<Rightarrow> nat \<Rightarrow> nat \<Rightarrow> heap" where
  "zero_data h off n = h\<lparr>hp_data := (\<lambda>x. if off \<le> x \<and> x < off + n then 0 else hp_data h x)\<rparr>"

definition HeappFree :: "heap \<Rightarrow> nat \<Rightarrow> bool \<Rightarrow> heap" where
  "HeappFree h current secure =
     (let c = hp_block h current in
      if hb_state c \<noteq> HEAP_BLOCK_USED \<or> current \<le> hb_pprev c \<or> hp_size h \<le> hb_pnext c \<or>
         hp_size h \<le> hb_size c \<or> hb_size c = 0 then h
      else let prev = hb_pprev c;
               nxt = hb_pnext c;
               g = unlink_used h current;
               g = free_uuu g prev current nxt;
               g = free_uuf g prev current nxt secure;
               g = free_fuu g prev current nxt secure;
               g = free_fuf g prev current nxt secure
           in if secure then zero_data g current (hb_size c) else g)"

section \<open>The heap's operations\<close>

text \<open>Addresses are naturals; the region starts at \<open>hp_memory\<close>.\<close>

definition HeappContains :: "heap \<Rightarrow> nat \<Rightarrow> bool" where
  "HeappContains h address \<longleftrightarrow> hp_memory h + 24 \<le> address \<and> address < hp_memory h + hp_size h"

text \<open>
  \<open>HeapCreate\<close> builds the descriptor in the first page of the arena (address \<open>Arena\<close>); the
  contents of the region are whatever was there, except the first block's header.
\<close>

definition HeapCreate :: "blocks \<Rightarrow> (nat \<Rightarrow> u8) \<Rightarrow> nat \<Rightarrow> nat \<Rightarrow> heap option" where
  "HeapCreate B data Arena n =
     (if n < 16 * 4096 then None
      else Some \<lparr>hp_lock = False, hp_memory = Arena + 4096, hp_size = n - 4096,
        hp_freeList = START, hp_usedList = 0,
        hp_block = B(START := \<lparr>hb_state = HEAP_BLOCK_FREE, hb_size = n - 4096 - 24,
                               hb_pprev = 0, hb_pnext = 0, hb_vprev = 0, hb_vnext = 0\<rparr>),
        hp_data = data\<rparr>)"

partial_function (option) alloc_search :: "blocks \<Rightarrow> nat \<Rightarrow> nat \<Rightarrow> nat option" where
  "alloc_search B n current =
     (if current = 0 then Some 0
      else if n \<le> hb_size (B current) then Some current
      else alloc_search B n (hb_vnext (B current)))"

text \<open>
  The outer option: \<open>None\<close> when the search does not end.  The result is the pointer, or
  \<open>None\<close> for null.
\<close>

definition HeapAlloc :: "heap \<Rightarrow> nat \<Rightarrow> (nat option \<times> heap) option" where
  "HeapAlloc h numberOfBytes =
     (if numberOfBytes = 0 then Some (None, h)
      else map_option (\<lambda>current.
             if current = 0 then (None, h\<lparr>hp_lock := False\<rparr>)
             else (Some (hp_memory h + current), (HeappSplit h current numberOfBytes)\<lparr>hp_lock := False\<rparr>))
           (alloc_search (hp_block h) numberOfBytes (hp_freeList h)))"

text \<open>
  \<open>while (gap < sizeof(HEAP_BLOCK) + MINIMAL_FREE_BLOCK_SIZE)\<close>: the gap, below 40 plus a
  32-bit power of two, does not wrap; the offset may.
\<close>

function align_gap :: "nat \<Rightarrow> nat \<Rightarrow> nat \<Rightarrow> nat \<times> nat" where
  "align_gap alignment gap aligned =
     (if gap < 24 + MINIMAL_FREE_BLOCK_SIZE \<and> alignment \<noteq> 0
      then align_gap alignment (gap + alignment) ((aligned + alignment) mod 2 ^ 32)
      else (gap, aligned))"
  by auto
termination by (relation "measure (\<lambda>(al, gap, a). 40 - gap)") (auto simp: MINIMAL_FREE_BLOCK_SIZE_def)

declare align_gap.simps [simp del]

text \<open>What the body of the search decides about a block: skip it, or use this offset in it.\<close>

definition aligned_offset :: "blocks \<Rightarrow> nat \<Rightarrow> nat \<Rightarrow> nat \<Rightarrow> nat option" where
  "aligned_offset B n alignment current =
     (if n \<le> hb_size (B current) then
        let aligned = ((current div alignment + 1) * alignment) mod 2 ^ 32
        in if aligned = current then Some current
           else let gap = (aligned + 2 ^ 32 - current) mod 2 ^ 32;
                    (gap, aligned) = (if hb_pprev (B current) = 0 then align_gap alignment gap aligned
                                      else (gap, aligned))
                in if (gap + n) mod 2 ^ 32 \<le> hb_size (B current) then Some aligned else None
      else None)"

partial_function (option) aligned_search :: "blocks \<Rightarrow> nat \<Rightarrow> nat \<Rightarrow> nat \<Rightarrow> nat option" where
  "aligned_search B n alignment current =
     (if current = 0 then Some 0
      else if aligned_offset B n alignment current \<noteq> None then Some current
      else aligned_search B n alignment (hb_vnext (B current)))"

definition HeapAllocAligned :: "heap \<Rightarrow> nat \<Rightarrow> u32 \<Rightarrow> (nat option \<times> heap) option" where
  "HeapAllocAligned h numberOfBytes alignment =
     (if numberOfBytes = 0 then Some (None, h)
      else if alignment = 0 \<or> alignment AND (alignment - 1) \<noteq> 0 then Some (None, h)
      else map_option (\<lambda>current.
             if current = 0 then (None, h\<lparr>hp_lock := False\<rparr>)
             else let aligned = the (aligned_offset (hp_block h) numberOfBytes (unat alignment) current);
                      g = (if aligned = current then h else HeappAlign h current aligned)
                  in (Some (hp_memory h + aligned), (HeappSplit g aligned numberOfBytes)\<lparr>hp_lock := False\<rparr>))
           (aligned_search (hp_block h) numberOfBytes (unat alignment) (hp_freeList h)))"

text \<open>The product is computed in 32 bits.\<close>

definition HeapAllocArray :: "heap \<Rightarrow> nat \<Rightarrow> nat \<Rightarrow> (nat option \<times> heap) option" where
  "HeapAllocArray h numberOfElements elementSize =
     (let n = (numberOfElements * elementSize) mod 2 ^ 32
      in map_option (\<lambda>(array, g). case array of
             None \<Rightarrow> (None, g)
           | Some p \<Rightarrow> (Some p, zero_data g (p - hp_memory g) n)) (HeapAlloc h n))"

definition HeapFree :: "heap \<Rightarrow> nat \<Rightarrow> heap" where
  "HeapFree h memory =
     (if memory = 0 then h
      else if \<not> HeappContains h memory then h\<lparr>hp_lock := False\<rparr>
      else (HeappFree h (memory - hp_memory h) False)\<lparr>hp_lock := False\<rparr>)"

partial_function (option) used_search :: "blocks \<Rightarrow> nat \<Rightarrow> nat \<Rightarrow> nat option" where
  "used_search B current offset =
     (if offset = 0 then Some 0
      else if offset \<le> current \<and> current < offset + hb_size (B offset) then Some offset
      else used_search B current (hb_vnext (B offset)))"

definition HeapFreeSecure :: "heap \<Rightarrow> nat \<Rightarrow> heap option" where
  "HeapFreeSecure h memory =
     (if memory = 0 then Some h
      else if \<not> HeappContains h memory then Some (h\<lparr>hp_lock := False\<rparr>)
      else map_option (\<lambda>offset.
             if offset = 0 then h\<lparr>hp_lock := False\<rparr>
             else (HeappFree h offset True)\<lparr>hp_lock := False\<rparr>)
           (used_search (hp_block h) (memory - hp_memory h) (hp_usedList h)))"

definition HeapContains :: "heap \<Rightarrow> nat \<Rightarrow> bool \<times> heap" where
  "HeapContains h address = (HeappContains h address, h\<lparr>hp_lock := False\<rparr>)"

text \<open>
  \<open>HeapDelete\<close> takes the lock and zeroes \<open>heap->size + sizeof(HEAP)\<close> bytes from the
  descriptor at \<open>Arena\<close> on; the descriptor is 28 bytes and the region starts a page after it.
\<close>

definition HeapDelete :: "heap \<Rightarrow> nat \<Rightarrow> memory \<Rightarrow> memory" where
  "HeapDelete h Arena m = (\<lambda>x. if Arena \<le> x \<and> x < Arena + (hp_size h + 28) then 0 else m x)"

end
