(* ===== verification/Heap_Links.thy ===== *)
theory Heap_Links
  imports Heap
begin

text \<open>
  The two kinds of links between the heap's blocks, as predicates: \<open>vlist\<close> for the virtual
  lists with what linking and unlinking do to them, and \<open>seg\<close> for runs of physically
  adjacent blocks with what splitting, merging and shifting blocks do to them.
\<close>

section \<open>Virtual lists\<close>

fun vlist :: "blocks \<Rightarrow> nat \<Rightarrow> nat list \<Rightarrow> nat \<Rightarrow> bool" where
  "vlist B p [] h0 = (h0 = 0)"
| "vlist B p (x # xs) h0 = (h0 = x \<and> x \<noteq> 0 \<and> hb_vprev (B x) = p \<and> vlist B x xs (hb_vnext (B x)))"

lemma vlist_hd: "vlist B p xs h0 \<Longrightarrow> h0 = (case xs of [] \<Rightarrow> 0 | x # _ \<Rightarrow> x)"
  by (cases xs) auto

lemma vlist_cong:
  "(\<And>x. x \<in> set xs \<Longrightarrow> hb_vprev (B' x) = hb_vprev (B x) \<and> hb_vnext (B' x) = hb_vnext (B x)) \<Longrightarrow>
     vlist B' p xs h0 = vlist B p xs h0"
  by (induction xs arbitrary: p h0) auto

lemma vlist_nonzero: "vlist B p xs h0 \<Longrightarrow> x \<in> set xs \<Longrightarrow> x \<noteq> 0"
  by (induction xs arbitrary: p h0) auto

text \<open>What an operation on virtual links leaves alone.\<close>

definition same_phys :: "blocks \<Rightarrow> blocks \<Rightarrow> bool" where
  "same_phys B B' \<longleftrightarrow> (\<forall>x. hb_state (B' x) = hb_state (B x) \<and> hb_size (B' x) = hb_size (B x) \<and>
     hb_pprev (B' x) = hb_pprev (B x) \<and> hb_pnext (B' x) = hb_pnext (B x))"

definition same_virt :: "nat set \<Rightarrow> blocks \<Rightarrow> blocks \<Rightarrow> bool" where
  "same_virt X B B' \<longleftrightarrow> (\<forall>x \<in> X. hb_vprev (B' x) = hb_vprev (B x) \<and> hb_vnext (B' x) = hb_vnext (B x))"

lemma vlist_same: "same_virt X B B' \<Longrightarrow> set xs \<subseteq> X \<Longrightarrow> vlist B' p xs h0 = vlist B p xs h0"
  by (rule vlist_cong) (auto simp: same_virt_def)

lemma link_vlist:
  assumes l: "HeappBlockLink B h0 a = (B', h1)" and v: "vlist B 0 xs h0" and a: "a \<noteq> 0" "a \<notin> set xs"
    and d: "distinct xs"
  shows "vlist B' 0 (a # xs) h1" "same_phys B B'" "same_virt (- insert a (set xs)) B B'"
proof -
  have h0: "h0 = (case xs of [] \<Rightarrow> 0 | x # _ \<Rightarrow> x)" using vlist_hd [OF v] .
  have "vlist B' 0 (a # xs) h1 \<and> same_phys B B' \<and> same_virt (- insert a (set xs)) B B'"
  proof (cases xs)
    case Nil
    then show ?thesis
      using l h0 a by (auto simp: HeappBlockLink_def Let_def same_phys_def same_virt_def)
  next
    case (Cons x ys)
    then have x: "h0 = x" "x \<noteq> 0" "x \<noteq> a" using h0 v a by auto
    have B': "h1 = a" "B' = upd (upd B a (\<lambda>b. b\<lparr>hb_vnext := x, hb_vprev := 0\<rparr>)) x (hb_vprev_update (\<lambda>_. a))"
      using l x by (auto simp: HeappBlockLink_def Let_def)
    have "z \<noteq> x \<and> z \<noteq> a" if "z \<in> set ys" for z using that a d Cons by auto
    then have "vlist B' x ys (hb_vnext (B x)) = vlist B x ys (hb_vnext (B x))"
      by (intro vlist_cong) (simp add: B')
    then have "vlist B' x ys (hb_vnext (B x))" using v Cons by simp
    then have "vlist B' 0 (a # xs) h1" using Cons x a by (simp add: B')
    then show ?thesis using Cons by (auto simp: B' same_phys_def same_virt_def)
  qed
  then show "vlist B' 0 (a # xs) h1" "same_phys B B'" "same_virt (- insert a (set xs)) B B'" by simp_all
qed

lemma vlist_split:
  "vlist B p (xs @ a # ys) h0 \<Longrightarrow> hb_vprev (B a) = last (p # xs) \<and> vlist B a ys (hb_vnext (B a)) \<and> a \<noteq> 0"
proof (induction xs arbitrary: p h0)
  case (Cons x xs)
  then have "vlist B x (xs @ a # ys) (hb_vnext (B x))" by simp
  from Cons.IH [OF this] show ?case by simp
qed simp

lemma vlist_unlink:
  assumes "vlist B p (xs @ a # ys) h0" "distinct (xs @ a # ys)" "p \<notin> set (xs @ a # ys)"
    and nx: "\<And>x. x \<in> set xs \<Longrightarrow> hb_vnext (B' x) = (if x = last (p # xs) then hb_vnext (B a) else hb_vnext (B x))"
    and "\<And>y. y \<in> set ys \<Longrightarrow> hb_vnext (B' y) = hb_vnext (B y)"
    and "\<And>x. x \<in> set (xs @ ys) \<Longrightarrow>
      hb_vprev (B' x) = (if x = hb_vnext (B a) then hb_vprev (B a) else hb_vprev (B x))"
  shows "vlist B' p (xs @ ys) (if h0 = a then hb_vnext (B a) else h0)"
  using assms
proof (induction xs arbitrary: p h0)
  case Nil
  have v: "vlist B a ys (hb_vnext (B a))" "hb_vprev (B a) = p" "h0 = a" using Nil.prems(1) by simp_all
  show ?case
  proof (cases ys)
    case Nil then show ?thesis using v by simp
  next
    case (Cons y zs)
    then have y: "hb_vnext (B a) = y" "y \<noteq> 0" "vlist B y zs (hb_vnext (B y))" using v(1) by auto
    have "hb_vprev (B' z) = hb_vprev (B z) \<and> hb_vnext (B' z) = hb_vnext (B z)" if "z \<in> set zs" for z
      using Nil.prems(2) Nil.prems(5) [of z] Nil.prems(6) [of z] Cons y(1) that by auto
    then have "vlist B' y zs (hb_vnext (B y)) = vlist B y zs (hb_vnext (B y))" by (rule vlist_cong)
    moreover have "hb_vprev (B' y) = p" "hb_vnext (B' y) = hb_vnext (B y)"
      using Nil.prems(5) [of y] Nil.prems(6) [of y] Cons y(1) v(2) by simp_all
    ultimately show ?thesis using v(3) y Cons by simp
  qed
next
  case (Cons x xs)
  have v: "h0 = x" "x \<noteq> 0" "hb_vprev (B x) = p" "vlist B x (xs @ a # ys) (hb_vnext (B x))"
    using Cons.prems(1) by simp_all
  have na: "hb_vnext (B a) = (case ys of [] \<Rightarrow> 0 | y # _ \<Rightarrow> y)"
    using vlist_split [OF Cons.prems(1)] vlist_hd by blast
  have x: "x \<noteq> a" "x \<notin> set ys" "x \<noteq> hb_vnext (B a)"
    using Cons.prems(2) v(2) by (auto simp: na split: list.splits)
  have px: "hb_vprev (B' x) = p" using Cons.prems(6) [of x] v(3) x by simp
  have "vlist B' x (xs @ ys) (if hb_vnext (B x) = a then hb_vnext (B a) else hb_vnext (B x))"
  proof (rule Cons.IH [OF v(4)])
    show "distinct (xs @ a # ys)" "x \<notin> set (xs @ a # ys)" using Cons.prems(2) by auto
    show "hb_vnext (B' z) = (if z = last (x # xs) then hb_vnext (B a) else hb_vnext (B z))"
      if "z \<in> set xs" for z using Cons.prems(4) [of z] that by simp
    show "hb_vnext (B' y) = hb_vnext (B y)" if "y \<in> set ys" for y using Cons.prems(5) that .
    show "hb_vprev (B' z) = (if z = hb_vnext (B a) then hb_vprev (B a) else hb_vprev (B z))"
      if "z \<in> set (xs @ ys)" for z using Cons.prems(6) [of z] that by simp
  qed
  moreover have "hb_vnext (B' x) = (if hb_vnext (B x) = a then hb_vnext (B a) else hb_vnext (B x))"
  proof (cases xs)
    case Nil
    then show ?thesis using Cons.prems(4) [of x] v(4) by simp
  next
    case C: (Cons z zs)
    then have "hb_vnext (B x) = z" "z \<noteq> a" using v(4) Cons.prems(2) by auto
    moreover have "x \<noteq> last (p # x # xs)"
    proof -
      have "last (p # x # xs) \<in> set xs" using C by simp
      then show ?thesis using Cons.prems(2) by auto
    qed
    ultimately show ?thesis using Cons.prems(4) [of x] by simp
  qed
  ultimately show ?case using v(1,2) x px by simp
qed

lemma unlink_vlist:
  assumes u: "HeappBlockUnlink B h0 a = (B', h1)" and v: "vlist B 0 (xs @ a # ys) h0"
    and d: "distinct (xs @ a # ys)"
  shows "vlist B' 0 (xs @ ys) h1" "same_phys B B'" "same_virt (- set (xs @ ys)) B B'"
proof -
  define n p where "n = hb_vnext (B a)" and "p = hb_vprev (B a)"
  have S: "p = last (0 # xs)" "vlist B a ys n" "a \<noteq> 0" using vlist_split [OF v] by (auto simp: n_def p_def)
  have mem: "x \<noteq> 0" if "x \<in> set (xs @ a # ys)" for x
    using vlist_nonzero [OF v that] .
  have n: "n = 0 \<or> n \<in> set ys" using vlist_hd [OF S(2)] by (cases ys) auto
  have p: "p = 0 \<or> p \<in> set xs" using S(1) by (cases xs) auto
  have ne: "n \<noteq> a" "p \<noteq> a" "p = n \<Longrightarrow> p = 0" using n p d S(3) by auto
  have B': "B' = (let B1 = (if n \<noteq> 0 then upd B n (hb_vprev_update (\<lambda>_. p)) else B) in
      if p \<noteq> 0 then upd B1 p (hb_vnext_update (\<lambda>_. n)) else B1)"
    and h1: "h1 = (if h0 = a then n else h0)"
    using u ne unfolding n_def p_def by (auto simp: HeappBlockUnlink_def Let_def split: if_splits)
  have F: "hb_vnext (B' x) = (if x = p \<and> p \<noteq> 0 then n else hb_vnext (B x))"
    "hb_vprev (B' x) = (if x = n \<and> n \<noteq> 0 then p else hb_vprev (B x))" for x
    using ne by (auto simp: B' Let_def)
  show "same_phys B B'" by (auto simp: same_phys_def B' Let_def)
  show "same_virt (- set (xs @ ys)) B B'" using n p by (auto simp: same_virt_def F)
  show "vlist B' 0 (xs @ ys) h1"
    unfolding h1 n_def
  proof (rule vlist_unlink [OF v d])
    show "0 \<notin> set (xs @ a # ys)" using mem by blast
    show "hb_vnext (B' x) = (if x = last (0 # xs) then hb_vnext (B a) else hb_vnext (B x))"
      if "x \<in> set xs" for x using mem [of x] that by (simp only: F S(1) [symmetric] n_def [symmetric]) auto
    show "hb_vnext (B' y) = hb_vnext (B y)" if "y \<in> set ys" for y
      using that p d by (auto simp: F)
    show "hb_vprev (B' x) = (if x = hb_vnext (B a) then hb_vprev (B a) else hb_vprev (B x))"
      if "x \<in> set (xs @ ys)" for x using mem [of x] that by (auto simp: F n_def p_def)
  qed
qed

section \<open>The lists of a heap\<close>

text \<open>\<open>fl\<close> is the free list and \<open>ul\<close> the used list of \<open>h\<close>.\<close>

definition virt :: "heap \<Rightarrow> nat list \<Rightarrow> nat list \<Rightarrow> bool" where
  "virt h fl ul \<longleftrightarrow> vlist (hp_block h) 0 fl (hp_freeList h) \<and> vlist (hp_block h) 0 ul (hp_usedList h) \<and>
     distinct (fl @ ul)"

lemma set_block_sel [simp]:
  "hp_block (set_block h x f) = upd (hp_block h) x f"
  "hp_size (set_block h x f) = hp_size h" "hp_memory (set_block h x f) = hp_memory h"
  "hp_freeList (set_block h x f) = hp_freeList h" "hp_usedList (set_block h x f) = hp_usedList h"
  "hp_data (set_block h x f) = hp_data h"
  by (simp_all add: set_block_def)

lemma HeappBlockLink_phys [simp]:
  "hb_state (fst (HeappBlockLink B h0 a) x) = hb_state (B x)"
  "hb_size (fst (HeappBlockLink B h0 a) x) = hb_size (B x)"
  "hb_pprev (fst (HeappBlockLink B h0 a) x) = hb_pprev (B x)"
  "hb_pnext (fst (HeappBlockLink B h0 a) x) = hb_pnext (B x)"
  by (simp_all add: HeappBlockLink_def Let_def)

lemma HeappBlockUnlink_phys [simp]:
  "hb_state (fst (HeappBlockUnlink B h0 a) x) = hb_state (B x)"
  "hb_size (fst (HeappBlockUnlink B h0 a) x) = hb_size (B x)"
  "hb_pprev (fst (HeappBlockUnlink B h0 a) x) = hb_pprev (B x)"
  "hb_pnext (fst (HeappBlockUnlink B h0 a) x) = hb_pnext (B x)"
  by (simp_all add: HeappBlockUnlink_def Let_def)

lemmas list_op_defs = link_free_def link_used_def unlink_free_def unlink_used_def

lemma link_free_sel [simp]:
  "hb_state (hp_block (link_free h a) x) = hb_state (hp_block h x)"
  "hb_size (hp_block (link_free h a) x) = hb_size (hp_block h x)"
  "hb_pprev (hp_block (link_free h a) x) = hb_pprev (hp_block h x)"
  "hb_pnext (hp_block (link_free h a) x) = hb_pnext (hp_block h x)"
  "hp_size (link_free h a) = hp_size h" "hp_memory (link_free h a) = hp_memory h"
  "hp_data (link_free h a) = hp_data h"
  by (simp_all add: list_op_defs split_def Let_def)

lemma link_used_sel [simp]:
  "hb_state (hp_block (link_used h a) x) = hb_state (hp_block h x)"
  "hb_size (hp_block (link_used h a) x) = hb_size (hp_block h x)"
  "hb_pprev (hp_block (link_used h a) x) = hb_pprev (hp_block h x)"
  "hb_pnext (hp_block (link_used h a) x) = hb_pnext (hp_block h x)"
  "hp_size (link_used h a) = hp_size h" "hp_memory (link_used h a) = hp_memory h"
  "hp_data (link_used h a) = hp_data h"
  by (simp_all add: list_op_defs split_def Let_def)

lemma unlink_free_sel [simp]:
  "hb_state (hp_block (unlink_free h a) x) = hb_state (hp_block h x)"
  "hb_size (hp_block (unlink_free h a) x) = hb_size (hp_block h x)"
  "hb_pprev (hp_block (unlink_free h a) x) = hb_pprev (hp_block h x)"
  "hb_pnext (hp_block (unlink_free h a) x) = hb_pnext (hp_block h x)"
  "hp_size (unlink_free h a) = hp_size h" "hp_memory (unlink_free h a) = hp_memory h"
  "hp_data (unlink_free h a) = hp_data h"
  by (simp_all add: list_op_defs split_def Let_def)

lemma unlink_used_sel [simp]:
  "hb_state (hp_block (unlink_used h a) x) = hb_state (hp_block h x)"
  "hb_size (hp_block (unlink_used h a) x) = hb_size (hp_block h x)"
  "hb_pprev (hp_block (unlink_used h a) x) = hb_pprev (hp_block h x)"
  "hb_pnext (hp_block (unlink_used h a) x) = hb_pnext (hp_block h x)"
  "hp_size (unlink_used h a) = hp_size h" "hp_memory (unlink_used h a) = hp_memory h"
  "hp_data (unlink_used h a) = hp_data h"
  by (simp_all add: list_op_defs split_def Let_def)

lemma virt_set_block:
  "virt h fl ul \<Longrightarrow> (x \<in> set fl \<union> set ul \<Longrightarrow> hb_vprev (f (hp_block h x)) = hb_vprev (hp_block h x) \<and>
     hb_vnext (f (hp_block h x)) = hb_vnext (hp_block h x)) \<Longrightarrow> virt (set_block h x f) fl ul"
proof -
  assume v: "virt h fl ul" and f: "x \<in> set fl \<union> set ul \<Longrightarrow> hb_vprev (f (hp_block h x)) = hb_vprev (hp_block h x) \<and>
     hb_vnext (f (hp_block h x)) = hb_vnext (hp_block h x)"
  have "vlist (upd (hp_block h) x f) 0 xs h0 = vlist (hp_block h) 0 xs h0"
    if "set xs \<subseteq> set fl \<union> set ul" for xs h0
    using f that by (intro vlist_cong) auto
  then show ?thesis using v by (simp add: virt_def)
qed

lemma virt_link_free:
  assumes v: "virt h fl ul" and a: "a \<noteq> 0" "a \<notin> set fl" "a \<notin> set ul"
  shows "virt (link_free h a) (a # fl) ul"
proof -
  obtain B h1 where l: "HeappBlockLink (hp_block h) (hp_freeList h) a = (B, h1)" by fastforce
  have v1: "vlist (hp_block h) 0 fl (hp_freeList h)" "distinct fl" using v by (simp_all add: virt_def)
  note L = link_vlist [OF l v1(1) a(1) a(2) v1(2)]
  have "vlist B 0 (a # fl) h1" "same_virt (- insert a (set fl)) (hp_block h) B"
    using L(1,3) .
  moreover have "set ul \<subseteq> - insert a (set fl)" using v a by (auto simp: virt_def)
  ultimately show ?thesis
    using v a vlist_same [of "- insert a (set fl)" "hp_block h" B ul] by (simp add: virt_def link_free_def l)
qed

lemma virt_link_used:
  assumes v: "virt h fl ul" and a: "a \<noteq> 0" "a \<notin> set fl" "a \<notin> set ul"
  shows "virt (link_used h a) fl (a # ul)"
proof -
  obtain B h1 where l: "HeappBlockLink (hp_block h) (hp_usedList h) a = (B, h1)" by fastforce
  have v1: "vlist (hp_block h) 0 ul (hp_usedList h)" "distinct ul" using v by (simp_all add: virt_def)
  note L = link_vlist [OF l v1(1) a(1) a(3) v1(2)]
  have "vlist B 0 (a # ul) h1" "same_virt (- insert a (set ul)) (hp_block h) B"
    using L(1,3) .
  moreover have "set fl \<subseteq> - insert a (set ul)" using v a by (auto simp: virt_def)
  ultimately show ?thesis
    using v a vlist_same [of "- insert a (set ul)" "hp_block h" B fl] by (simp add: virt_def link_used_def l)
qed

lemma virt_unlink_free:
  assumes v: "virt h fl ul" and a: "a \<in> set fl"
  shows "virt (unlink_free h a) (remove1 a fl) ul"
proof -
  obtain xs ys where fl: "fl = xs @ a # ys" using a by (meson split_list)
  obtain B h1 where l: "HeappBlockUnlink (hp_block h) (hp_freeList h) a = (B, h1)" by fastforce
  have d: "distinct (xs @ a # ys)" "vlist (hp_block h) 0 (xs @ a # ys) (hp_freeList h)"
    using v by (auto simp: virt_def fl)
  note U = unlink_vlist [OF l d(2,1)]
  have "set ul \<subseteq> - set (xs @ ys)" using v by (auto simp: virt_def fl)
  then have "vlist B 0 ul (hp_usedList h)"
    using v vlist_same [OF U(3), of ul] by (simp add: virt_def)
  moreover have r: "remove1 a fl = xs @ ys" using d(1) by (simp add: fl remove1_append)
  moreover have "distinct ((xs @ ys) @ ul)" using v by (auto simp: virt_def fl)
  ultimately show ?thesis unfolding r using U(1) by (simp add: virt_def unlink_free_def l)
qed

lemma virt_unlink_used:
  assumes v: "virt h fl ul" and a: "a \<in> set ul"
  shows "virt (unlink_used h a) fl (remove1 a ul)"
proof -
  obtain xs ys where ul: "ul = xs @ a # ys" using a by (meson split_list)
  obtain B h1 where l: "HeappBlockUnlink (hp_block h) (hp_usedList h) a = (B, h1)" by fastforce
  have d: "distinct (xs @ a # ys)" "vlist (hp_block h) 0 (xs @ a # ys) (hp_usedList h)"
    using v by (auto simp: virt_def ul)
  note U = unlink_vlist [OF l d(2,1)]
  have "set fl \<subseteq> - set (xs @ ys)" using v by (auto simp: virt_def ul)
  then have "vlist B 0 fl (hp_freeList h)"
    using v vlist_same [OF U(3), of fl] by (simp add: virt_def)
  moreover have r: "remove1 a ul = xs @ ys" using d(1) by (simp add: ul remove1_append)
  moreover have "distinct (fl @ xs @ ys)" using v by (auto simp: virt_def ul)
  ultimately show ?thesis unfolding r using U(1) by (simp add: virt_def unlink_used_def l)
qed

section \<open>Physical segments\<close>

definition pnx :: "nat \<Rightarrow> nat \<Rightarrow> nat" where
  "pnx N y = (if y = N then 0 else y + 24)"

text \<open>
  \<open>seg N B p xs q e\<close>: the blocks \<open>xs\<close> lie side by side from offset \<open>q\<close> on, each linked to its
  neighbours in a region of \<open>N\<close> bytes; \<open>p\<close> is the block before the first, and \<open>e\<close> is
  where the block after the last begins.
\<close>

fun seg :: "nat \<Rightarrow> blocks \<Rightarrow> nat \<Rightarrow> nat list \<Rightarrow> nat \<Rightarrow> nat \<Rightarrow> bool" where
  "seg N B p [] q e = (q = e)"
| "seg N B p (x # xs) q e = (q = x \<and> hb_pprev (B x) = p \<and> 0 < hb_size (B x) \<and>
     hb_pnext (B x) = pnx N (x + hb_size (B x)) \<and> seg N B x xs (x + hb_size (B x) + 24) e)"

lemma seg_append:
  "seg N B p (xs @ ys) q e \<longleftrightarrow> (\<exists>m. seg N B p xs q m \<and> seg N B (last (p # xs)) ys m e)"
  by (induction xs arbitrary: p q) auto

lemma seg_le: "seg N B p xs q e \<Longrightarrow> q \<le> e"
  by (induction xs arbitrary: p q) fastforce+

lemma seg_mem:
  "seg N B p xs q e \<Longrightarrow> x \<in> set xs \<Longrightarrow> q \<le> x \<and> 0 < hb_size (B x) \<and> x + hb_size (B x) + 24 \<le> e"
proof (induction xs arbitrary: p q)
  case (Cons y ys)
  then have y: "q = y" "0 < hb_size (B y)" "seg N B y ys (y + hb_size (B y) + 24) e" by simp_all
  show ?case
  proof (cases "x = y")
    case True then show ?thesis using y seg_le [OF y(3)] by simp
  next
    case False
    then show ?thesis using Cons.IH [OF y(3)] Cons.prems(2) y by simp
  qed
qed simp

lemma seg_distinct: "seg N B p xs q e \<Longrightarrow> distinct xs"
proof (induction xs arbitrary: p q)
  case (Cons y ys)
  then have "seg N B y ys (y + hb_size (B y) + 24) e" by simp
  then show ?case using Cons.IH seg_mem by fastforce
qed simp

text \<open>Changing the links of a segment: only the predecessor of its first block.\<close>

lemma seg_retarget:
  assumes "seg N B p xs q e"
    "\<And>x. x \<in> set xs \<Longrightarrow> hb_size (B' x) = hb_size (B x) \<and> hb_pnext (B' x) = hb_pnext (B x) \<and>
       hb_pprev (B' x) = (if x = q then p' else hb_pprev (B x))"
  shows "seg N B' p' xs q e"
  using assms
proof (induction xs arbitrary: p p' q)
  case (Cons y ys)
  have y: "q = y" "hb_pprev (B y) = p" "0 < hb_size (B y)" "hb_pnext (B y) = pnx N (y + hb_size (B y))"
    "seg N B y ys (y + hb_size (B y) + 24) e" using Cons.prems(1) by simp_all
  have "hb_size (B' x) = hb_size (B x) \<and> hb_pnext (B' x) = hb_pnext (B x) \<and>
       hb_pprev (B' x) = (if x = y + hb_size (B y) + 24 then y else hb_pprev (B x))" if x: "x \<in> set ys" for x
  proof -
    have ge: "y + hb_size (B y) + 24 \<le> x" using seg_mem [OF y(5) x] by simp
    have "hb_pprev (B x) = y" if "x = y + hb_size (B y) + 24"
      using y(5) x that seg_mem [of N B _ "tl ys" _ e x] by (cases ys) auto
    then show ?thesis using Cons.prems(2) [of x] x y(1) ge by auto
  qed
  from Cons.IH [OF y(5) this] show ?case using Cons.prems(2) [of y] y by simp
qed simp

lemma seg_same:
  "seg N B p xs q e \<Longrightarrow>
     (\<And>x. x \<in> set xs \<Longrightarrow> hb_size (B' x) = hb_size (B x) \<and> hb_pnext (B' x) = hb_pnext (B x) \<and>
        hb_pprev (B' x) = hb_pprev (B x)) \<Longrightarrow> seg N B' p xs q e"
  by (induction xs arbitrary: p q) auto

text \<open>In the whole region a block has no successor exactly when it is the last one.\<close>

lemma seg_pnext:
  assumes "seg N B p (as @ x # bs) q (N + 24)"
  shows "hb_pnext (B x) = (case bs of [] \<Rightarrow> 0 | b # _ \<Rightarrow> b)" "bs = [] \<longleftrightarrow> x + hb_size (B x) = N"
proof -
  obtain m where m: "seg N B (last (p # as)) (x # bs) m (N + 24)" using assms by (auto simp: seg_append)
  then have b: "hb_pnext (B x) = pnx N (x + hb_size (B x))" "seg N B x bs (x + hb_size (B x) + 24) (N + 24)"
    by simp_all
  show "bs = [] \<longleftrightarrow> x + hb_size (B x) = N"
  proof (cases bs)
    case Nil then show ?thesis using b(2) by simp
  next
    case (Cons c cs) then show ?thesis using seg_mem [OF b(2), of c] by simp
  qed
  then show "hb_pnext (B x) = (case bs of [] \<Rightarrow> 0 | b # _ \<Rightarrow> b)"
    using b by (cases bs) (auto simp: pnx_def)
qed

end
