(* ===== verification/Heap_Inv.thy ===== *)
theory Heap_Inv
  imports Heap_Links
begin

text \<open>
  The heap's invariant and what the operations on blocks do to it: \<open>heap_rep h ps fl ul\<close>
  says that the blocks \<open>ps\<close> tile the region in this order, that \<open>fl\<close> and \<open>ul\<close> are the free
  and the used list, and that no two free blocks are neighbours.
\<close>

section \<open>Segments under the block operations\<close>

lemma seg_insert:
  assumes s: "seg N B p (as @ x # bs) q (N + 24)"
    and sz: "hb_size (B x) = n + 24 + m" "0 < n" "0 < m" and y: "y = x + n + 24"
    and x: "hb_size (B' x) = n" "hb_pnext (B' x) = y" "hb_pprev (B' x) = hb_pprev (B x)"
    and yb: "hb_size (B' y) = m" "hb_pprev (B' y) = x" "hb_pnext (B' y) = hb_pnext (B x)"
    and as: "\<And>z. z \<in> set as \<Longrightarrow> hb_size (B' z) = hb_size (B z) \<and> hb_pnext (B' z) = hb_pnext (B z) \<and>
      hb_pprev (B' z) = hb_pprev (B z)"
    and bs: "\<And>z. z \<in> set bs \<Longrightarrow> hb_size (B' z) = hb_size (B z) \<and> hb_pnext (B' z) = hb_pnext (B z) \<and>
      hb_pprev (B' z) = (if z = x + hb_size (B x) + 24 then y else hb_pprev (B z))"
  shows "seg N B' p (as @ x # y # bs) q (N + 24)"
proof -
  obtain m0 where m0: "seg N B p as q m0" "seg N B (last (p # as)) (x # bs) m0 (N + 24)"
    using s by (auto simp: seg_append)
  then have X: "m0 = x" "hb_pprev (B x) = last (p # as)" "hb_pnext (B x) = pnx N (x + hb_size (B x))"
    "seg N B x bs (x + hb_size (B x) + 24) (N + 24)" by simp_all
  have "seg N B' p as q x" using seg_same [OF m0(1)] as X(1) by blast
  moreover have "seg N B' y bs (x + hb_size (B x) + 24) (N + 24)" using seg_retarget [OF X(4)] bs by blast
  moreover have "x + n \<noteq> N" using seg_le [OF X(4)] sz by simp
  ultimately show ?thesis
    using X(2,3) x yb sz y by (simp only: seg_append) (force simp: pnx_def add.commute add.left_commute)
qed

lemma seg_merge:
  assumes s: "seg N B p (as @ x # y # bs) q (N + 24)"
    and x: "hb_size (B' x) = hb_size (B x) + 24 + hb_size (B y)" "hb_pnext (B' x) = hb_pnext (B y)"
      "hb_pprev (B' x) = hb_pprev (B x)"
    and as: "\<And>z. z \<in> set as \<Longrightarrow> hb_size (B' z) = hb_size (B z) \<and> hb_pnext (B' z) = hb_pnext (B z) \<and>
      hb_pprev (B' z) = hb_pprev (B z)"
    and bs: "\<And>z. z \<in> set bs \<Longrightarrow> hb_size (B' z) = hb_size (B z) \<and> hb_pnext (B' z) = hb_pnext (B z) \<and>
      hb_pprev (B' z) = (if z = y + hb_size (B y) + 24 then x else hb_pprev (B z))"
  shows "seg N B' p (as @ x # bs) q (N + 24)"
proof -
  obtain m0 where m0: "seg N B p as q m0" "seg N B (last (p # as)) (x # y # bs) m0 (N + 24)"
    using s by (auto simp: seg_append)
  then have X: "m0 = x" "hb_pprev (B x) = last (p # as)" "y = x + hb_size (B x) + 24"
    "hb_pnext (B y) = pnx N (y + hb_size (B y))" "0 < hb_size (B x)"
    "seg N B y bs (y + hb_size (B y) + 24) (N + 24)" by simp_all
  have "seg N B' p as q x" using seg_same [OF m0(1)] as X(1) by blast
  moreover have "seg N B' x bs (y + hb_size (B y) + 24) (N + 24)" using seg_retarget [OF X(6)] bs by blast
  moreover have "y + hb_size (B y) = x + hb_size (B' x)" using X(3) x(1) by simp
  ultimately show ?thesis
    using X(2,4,5) x(2,3) by (simp only: seg_append) (force simp: x(1))
qed

lemma seg_shift:
  assumes s: "seg N B p (as @ w # x # bs) q (N + 24)"
    and a: "a = x + gap" "gap < hb_size (B x)"
    and w: "hb_size (B' w) = hb_size (B w) + gap" "hb_pnext (B' w) = a" "hb_pprev (B' w) = hb_pprev (B w)"
    and ab: "hb_size (B' a) = hb_size (B x) - gap" "hb_pprev (B' a) = w" "hb_pnext (B' a) = hb_pnext (B x)"
    and as: "\<And>z. z \<in> set as \<Longrightarrow> hb_size (B' z) = hb_size (B z) \<and> hb_pnext (B' z) = hb_pnext (B z) \<and>
      hb_pprev (B' z) = hb_pprev (B z)"
    and bs: "\<And>z. z \<in> set bs \<Longrightarrow> hb_size (B' z) = hb_size (B z) \<and> hb_pnext (B' z) = hb_pnext (B z) \<and>
      hb_pprev (B' z) = (if z = x + hb_size (B x) + 24 then a else hb_pprev (B z))"
  shows "seg N B' p (as @ w # a # bs) q (N + 24)"
proof -
  obtain m0 where m0: "seg N B p as q m0" "seg N B (last (p # as)) (w # x # bs) m0 (N + 24)"
    using s by (auto simp: seg_append)
  then have X: "m0 = w" "hb_pprev (B w) = last (p # as)" "x = w + hb_size (B w) + 24"
    "hb_pnext (B x) = pnx N (x + hb_size (B x))" "0 < hb_size (B w)"
    "seg N B x bs (x + hb_size (B x) + 24) (N + 24)" by simp_all
  have "seg N B' p as q w" using seg_same [OF m0(1)] as X(1) by blast
  moreover have "seg N B' a bs (a + hb_size (B' a) + 24) (N + 24)"
    using seg_retarget [OF X(6)] bs a ab(1) by simp
  moreover have "a + hb_size (B' a) = x + hb_size (B x)" "0 < hb_size (B' a)" using a ab(1) by simp_all
  moreover have "a = w + hb_size (B' w) + 24" using X(3) a(1) w(1) by simp
  moreover have "w + hb_size (B' w) \<noteq> N" using seg_le [OF X(6)] X(3) a w(1) by simp
  ultimately show ?thesis
    using X(2,4,5) w(2,3) ab(2,3) by (simp only: seg_append) (force simp: pnx_def w(1))
qed

text \<open>Distinct blocks of a segment do not overlap.\<close>

lemma seg_apart:
  assumes s: "seg N B p xs q e" and m: "x \<in> set xs" "y \<in> set xs" "x \<noteq> y"
  shows "x + hb_size (B x) + 24 \<le> y \<or> y + hb_size (B y) + 24 \<le> x"
proof -
  obtain as bs where xs: "xs = as @ x # bs" using m(1) by (meson split_list)
  then obtain m0 where S: "seg N B p as q m0" "seg N B (last (p # as)) (x # bs) m0 e"
    using s by (auto simp: seg_append)
  then have X: "m0 = x" "seg N B x bs (x + hb_size (B x) + 24) e" by simp_all
  show ?thesis using seg_mem [OF S(1)] seg_mem [OF X(2)] m(2,3) xs X(1) by auto
qed

section \<open>The invariant\<close>

abbreviation is_free :: "blocks \<Rightarrow> nat \<Rightarrow> bool" where
  "is_free B x \<equiv> hb_state (B x) = HEAP_BLOCK_FREE"

fun coalesced :: "blocks \<Rightarrow> nat list \<Rightarrow> bool" where
  "coalesced B [] = True"
| "coalesced B [x] = True"
| "coalesced B (x # y # zs) = (\<not> (is_free B x \<and> is_free B y) \<and> coalesced B (y # zs))"

lemma coalesced_append:
  "coalesced B (as @ x # bs) \<longleftrightarrow> coalesced B as \<and> coalesced B bs \<and>
     (is_free B x \<longrightarrow> (as = [] \<or> \<not> is_free B (last as)) \<and> (bs = [] \<or> \<not> is_free B (hd bs)))"
  by (induction B as rule: coalesced.induct; cases bs) auto

lemma coalesced_parts: "coalesced B (xs @ ys) \<Longrightarrow> coalesced B xs \<and> coalesced B ys"
proof (cases ys)
  case (Cons y zs)
  assume c: "coalesced B (xs @ ys)"
  then have "coalesced B ([] @ y # zs)" by (simp only: Cons coalesced_append) auto
  then show ?thesis using c by (simp add: Cons coalesced_append)
qed simp

lemma coalesced_same:
  "(\<And>x. x \<in> set xs \<Longrightarrow> hb_state (B' x) = hb_state (B x)) \<Longrightarrow> coalesced B' xs = coalesced B xs"
  by (induction B xs rule: coalesced.induct) auto

lemma coalesced_keep:
  assumes "coalesced B xs" "\<And>x. x \<in> set xs \<Longrightarrow> hb_state (B' x) = hb_state (B x)"
  shows "coalesced B' xs"
  using assms(1) coalesced_same [of xs B' B, OF assms(2)] by blast

definition heap_lay :: "heap \<Rightarrow> nat list \<Rightarrow> nat list \<Rightarrow> nat list \<Rightarrow> bool" where
  "heap_lay h ps fl ul \<longleftrightarrow>
     seg (hp_size h) (hp_block h) 0 ps 24 (hp_size h + 24) \<and> virt h fl ul \<and>
     set fl = {x \<in> set ps. hb_state (hp_block h x) = HEAP_BLOCK_FREE} \<and>
     set ul = {x \<in> set ps. hb_state (hp_block h x) = HEAP_BLOCK_USED} \<and>
     set ps = set fl \<union> set ul"

definition heap_rep :: "heap \<Rightarrow> nat list \<Rightarrow> nat list \<Rightarrow> nat list \<Rightarrow> bool" where
  "heap_rep h ps fl ul \<longleftrightarrow> heap_lay h ps fl ul \<and> coalesced (hp_block h) ps"

lemma states_differ [simp]: "HEAP_BLOCK_FREE \<noteq> HEAP_BLOCK_USED" "HEAP_BLOCK_USED \<noteq> HEAP_BLOCK_FREE"
  by (simp_all add: HEAP_BLOCK_FREE_def HEAP_BLOCK_USED_def)

lemma heap_layD:
  assumes "heap_lay h ps fl ul"
  shows "seg (hp_size h) (hp_block h) 0 ps 24 (hp_size h + 24)" "virt h fl ul"
    "x \<in> set fl \<longleftrightarrow> x \<in> set ps \<and> hb_state (hp_block h x) = HEAP_BLOCK_FREE"
    "x \<in> set ul \<longleftrightarrow> x \<in> set ps \<and> hb_state (hp_block h x) = HEAP_BLOCK_USED"
    "x \<in> set ps \<Longrightarrow> hb_state (hp_block h x) = HEAP_BLOCK_FREE \<or> hb_state (hp_block h x) = HEAP_BLOCK_USED"
    "distinct ps"
  using assms seg_distinct unfolding heap_lay_def by blast+

lemma heap_rep_lay: "heap_rep h ps fl ul \<Longrightarrow> heap_lay h ps fl ul"
  by (simp add: heap_rep_def)

lemma heap_repD:
  assumes "heap_rep h ps fl ul"
  shows "seg (hp_size h) (hp_block h) 0 ps 24 (hp_size h + 24)" "virt h fl ul"
    "x \<in> set fl \<longleftrightarrow> x \<in> set ps \<and> hb_state (hp_block h x) = HEAP_BLOCK_FREE"
    "x \<in> set ul \<longleftrightarrow> x \<in> set ps \<and> hb_state (hp_block h x) = HEAP_BLOCK_USED"
    "x \<in> set ps \<Longrightarrow> hb_state (hp_block h x) = HEAP_BLOCK_FREE \<or> hb_state (hp_block h x) = HEAP_BLOCK_USED"
    "coalesced (hp_block h) ps" "distinct ps"
  using heap_layD [OF heap_rep_lay [OF assms]] assms unfolding heap_rep_def by blast+

lemma heap_layI:
  assumes "seg (hp_size h) (hp_block h) 0 ps 24 (hp_size h + 24)" "virt h fl ul"
    "\<And>x. x \<in> set fl \<longleftrightarrow> x \<in> set ps \<and> hb_state (hp_block h x) = HEAP_BLOCK_FREE"
    "\<And>x. x \<in> set ul \<longleftrightarrow> x \<in> set ps \<and> hb_state (hp_block h x) = HEAP_BLOCK_USED"
    "\<And>x. x \<in> set ps \<Longrightarrow> hb_state (hp_block h x) = HEAP_BLOCK_FREE \<or> hb_state (hp_block h x) = HEAP_BLOCK_USED"
  shows "heap_lay h ps fl ul"
  unfolding heap_lay_def using assms by blast

lemma heap_repI:
  assumes "seg (hp_size h) (hp_block h) 0 ps 24 (hp_size h + 24)" "virt h fl ul"
    "\<And>x. x \<in> set fl \<longleftrightarrow> x \<in> set ps \<and> hb_state (hp_block h x) = HEAP_BLOCK_FREE"
    "\<And>x. x \<in> set ul \<longleftrightarrow> x \<in> set ps \<and> hb_state (hp_block h x) = HEAP_BLOCK_USED"
    "\<And>x. x \<in> set ps \<Longrightarrow> hb_state (hp_block h x) = HEAP_BLOCK_FREE \<or> hb_state (hp_block h x) = HEAP_BLOCK_USED"
    "coalesced (hp_block h) ps"
  shows "heap_rep h ps fl ul"
  unfolding heap_rep_def using heap_layI [OF assms(1-5)] assms(6) by blast

lemma heap_rep_lock: "heap_rep (h\<lparr>hp_lock := l\<rparr>) ps fl ul = heap_rep h ps fl ul"
  by (simp add: heap_rep_def heap_lay_def virt_def)

lemma heap_rep_data: "heap_rep (h\<lparr>hp_data := d\<rparr>) ps fl ul = heap_rep h ps fl ul"
  by (simp add: heap_rep_def heap_lay_def virt_def)

lemma lay_bounds:
  assumes "heap_lay h ps fl ul" "x \<in> set ps"
  shows "24 \<le> x" "0 < hb_size (hp_block h x)" "x + hb_size (hp_block h x) \<le> hp_size h"
  using seg_mem [OF heap_layD(1) [OF assms(1)] assms(2)] by simp_all

lemmas block_bounds = lay_bounds [OF heap_rep_lay]

text \<open>The new heap is one free block.\<close>

lemma HeapCreate_rep:
  assumes "HeapCreate B data arena n = Some h"
  shows "heap_rep h [24] [24] []" "hb_size (hp_block h 24) = hp_size h - 24" "hp_size h = n - 4096"
    "hp_memory h = arena + 4096"
  using assms
  by (auto simp: HeapCreate_def heap_rep_def heap_lay_def virt_def START_def pnx_def split: if_splits)

section \<open>Splitting\<close>

lemma HeappSplit_sel [simp]:
  "hp_size (HeappSplit h x n) = hp_size h" "hp_memory (HeappSplit h x n) = hp_memory h"
  "hp_data (HeappSplit h x n) = hp_data h"
  by (simp_all add: HeappSplit_def Let_def)

definition splits :: "heap \<Rightarrow> nat \<Rightarrow> nat \<Rightarrow> bool" where
  "splits h x n \<longleftrightarrow> n + 24 + MINIMAL_FREE_BLOCK_SIZE \<le> hb_size (hp_block h x)"

lemma HeappSplit_fields:
  fixes h x n defines "y \<equiv> x + n + 24" and "b \<equiv> hp_block h x"
  assumes s: "splits h x n"
  shows "hb_state (hp_block (HeappSplit h x n) z) =
      (if z = x then HEAP_BLOCK_USED else if z = y then HEAP_BLOCK_FREE else hb_state (hp_block h z))"
    "hb_size (hp_block (HeappSplit h x n) z) =
      (if z = x then n else if z = y then hb_size b - n - 24 else hb_size (hp_block h z))"
    "hb_pnext (hp_block (HeappSplit h x n) z) =
      (if z = x then y else if z = y then hb_pnext b else hb_pnext (hp_block h z))"
    "hb_pprev (hp_block (HeappSplit h x n) z) =
      (if hb_pnext b \<noteq> 0 \<and> z = hb_pnext b then y else if z = y then x else hb_pprev (hp_block h z))"
  using s by (auto simp: HeappSplit_def Let_def splits_def b_def y_def)

lemma HeappSplit_fields_whole:
  assumes s: "\<not> splits h x n"
  shows "hb_state (hp_block (HeappSplit h x n) z) = (if z = x then HEAP_BLOCK_USED else hb_state (hp_block h z))"
    "hb_size (hp_block (HeappSplit h x n) z) = hb_size (hp_block h z)"
    "hb_pnext (hp_block (HeappSplit h x n) z) = hb_pnext (hp_block h z)"
    "hb_pprev (hp_block (HeappSplit h x n) z) = hb_pprev (hp_block h z)"
  using s by (auto simp: HeappSplit_def Let_def splits_def)

lemma virt_move_to_used:
  assumes v: "virt h fl ul" and x: "x \<in> set fl" "x \<noteq> 0"
  shows "virt (link_used (set_block (unlink_free h x) x (hb_state_update f)) x) (remove1 x fl) (x # ul)"
proof -
  have "x \<notin> set (remove1 x fl)" "x \<notin> set ul" using v x by (auto simp: virt_def)
  then show ?thesis
    by (intro virt_link_used virt_set_block virt_unlink_free v x) simp_all
qed

lemma HeappSplit_virt:
  assumes v: "virt h fl ul" and x: "x \<in> set fl" "x \<noteq> 0"
    and fresh: "splits h x n \<Longrightarrow> x + n + 24 \<notin> set fl \<union> set ul"
  shows "virt (HeappSplit h x n) (remove1 x (if splits h x n then (x + n + 24) # fl else fl)) (x # ul)"
proof (cases "splits h x n")
  case False
  then show ?thesis
    using virt_move_to_used [OF v x] by (simp add: HeappSplit_def Let_def splits_def)
next
  case True
  define y where "y = x + n + 24"
  define g1 where "g1 = link_free (set_block h y (\<lambda>b. b\<lparr>hb_state := HEAP_BLOCK_FREE,
      hb_size := hb_size (hp_block h x) - n - 24, hb_pprev := x, hb_pnext := hb_pnext (hp_block h x)\<rparr>)) y"
  define g2 where "g2 = (if hb_pnext (hp_block g1 x) \<noteq> 0
      then set_block g1 (hb_pnext (hp_block g1 x)) (hb_pprev_update (\<lambda>_. y)) else g1)"
  define g3 where "g3 = set_block (set_block g2 x (hb_pnext_update (\<lambda>_. y))) x (hb_size_update (\<lambda>_. n))"
  have "virt g1 (y # fl) ul"
    unfolding g1_def using fresh True by (intro virt_link_free virt_set_block v) (auto simp: y_def)
  then have "virt g2 (y # fl) ul" by (auto simp: g2_def intro!: virt_set_block)
  then have "virt g3 (y # fl) ul" by (auto simp: g3_def intro!: virt_set_block)
  moreover have "HeappSplit h x n = link_used (set_block (unlink_free g3 x) x (hb_state_update (\<lambda>_. HEAP_BLOCK_USED))) x"
    using True by (simp add: HeappSplit_def Let_def splits_def g1_def g2_def g3_def y_def)
  ultimately show ?thesis
    using virt_move_to_used [of g3 "y # fl" ul x] x True by (simp add: y_def)
qed

text \<open>
  The block list after a split, and what the split does to the blocks: \<open>x\<close> is used and has
  the size asked for or is taken whole, the rest stay what they are.
\<close>

lemma split_fresh:
  assumes rep: "heap_lay h (as @ x # bs) fl ul" and s: "splits h x n"
  shows "x + n + 24 \<notin> set (as @ x # bs)"
proof
  assume y: "x + n + 24 \<in> set (as @ x # bs)"
  have "x + hb_size (hp_block h x) + 24 \<le> x + n + 24 \<or> x + n + 24 + hb_size (hp_block h (x + n + 24)) + 24 \<le> x"
    using seg_apart [OF heap_layD(1) [OF rep], of x "x + n + 24"] y by simp
  then show False using s by (simp add: splits_def)
qed

lemma HeappSplit_lay:
  assumes rep: "heap_lay h (as @ x # bs) fl ul" and x: "is_free (hp_block h) x"
    and n: "0 < n" "n \<le> hb_size (hp_block h x)"
  shows "heap_lay (HeappSplit h x n) (as @ x # (if splits h x n then (x + n + 24) # bs else bs))
      (remove1 x (if splits h x n then (x + n + 24) # fl else fl)) (x # ul)"
proof -
  let ?N = "hp_size h" and ?B = "hp_block h" and ?h = "HeappSplit h x n"
  note R = heap_layD [OF rep]
  have xin: "x \<in> set fl" "x \<noteq> 0" using R(3) x lay_bounds(1) [OF rep, of x] by simp_all
  have d: "x \<notin> set as" "x \<notin> set bs" using R(6) by simp_all
  show ?thesis
  proof (cases "splits h x n")
    case True
    define y where "y = x + n + 24"
    have y: "y \<notin> set as" "y \<notin> set bs" "y \<noteq> x" using split_fresh [OF rep True] by (auto simp: y_def)
    note F = HeappSplit_fields [OF True, folded y_def]
    have nx: "hb_pnext (?B x) = (case bs of [] \<Rightarrow> 0 | b # _ \<Rightarrow> b)" "bs = [] \<longleftrightarrow> x + hb_size (?B x) = ?N"
      "hb_pnext (?B x) = pnx ?N (x + hb_size (?B x))"
      using seg_pnext [OF R(1)] R(1) by (auto simp: seg_append)
    have na: "z \<noteq> hb_pnext (?B x)" if "z \<in> set (as @ [x])" for z
      using that R(6) lay_bounds(1) [OF rep, of z] by (auto simp: nx(1) split: list.splits)
    have nb: "hb_pnext (?B x) \<noteq> 0 \<and> z = hb_pnext (?B x) \<longleftrightarrow> z = x + hb_size (?B x) + 24" if "z \<in> set bs" for z
      using that nx(2) lay_bounds(1) [OF rep, of z] by (auto simp: nx(3) pnx_def)
    have sg: "seg ?N (hp_block ?h) 0 (as @ x # y # bs) 24 (?N + 24)"
    proof (rule seg_insert [OF R(1), where n = n and m = "hb_size (?B x) - n - 24"])
      show "hb_pprev (hp_block ?h y) = x" "hb_pprev (hp_block ?h x) = hb_pprev (?B x)"
        using y na [of x] nx(1) by (auto simp: F split: list.splits)
      show "hb_size (hp_block ?h z) = hb_size (?B z) \<and> hb_pnext (hp_block ?h z) = hb_pnext (?B z) \<and>
        hb_pprev (hp_block ?h z) = hb_pprev (?B z)" if "z \<in> set as" for z
        using that d y na [of z] by (auto simp: F)
      show "hb_size (hp_block ?h z) = hb_size (?B z) \<and> hb_pnext (hp_block ?h z) = hb_pnext (?B z) \<and>
        hb_pprev (hp_block ?h z) = (if z = x + hb_size (?B x) + 24 then y else hb_pprev (?B z))"
        if "z \<in> set bs" for z
        using that d y unfolding F nb [OF that] by auto
    qed (use True n y in \<open>auto simp: F splits_def MINIMAL_FREE_BLOCK_SIZE_def y_def\<close>)
    have "virt ?h (remove1 x (y # fl)) (x # ul)"
      using HeappSplit_virt [OF R(2) xin, of n] y R(3,4) True by (auto simp: y_def)
    then have "heap_lay ?h (as @ x # y # bs) (remove1 x (y # fl)) (x # ul)"
      using sg R(2,3,4,5) d y x by (intro heap_layI) (auto simp: F virt_def)
    then show ?thesis using True by (simp add: y_def)
  next
    case False
    note F = HeappSplit_fields_whole [OF False]
    have sg: "seg ?N (hp_block ?h) 0 (as @ x # bs) 24 (?N + 24)"
      using seg_same [OF R(1)] F by simp
    have "virt ?h (remove1 x fl) (x # ul)" using HeappSplit_virt [OF R(2) xin, of n] False by simp
    then have "heap_lay ?h (as @ x # bs) (remove1 x fl) (x # ul)"
      using sg R(2,3,4,5) d x by (intro heap_layI) (auto simp: F virt_def)
    then show ?thesis using False by simp
  qed
qed

lemma HeappSplit_other:
  assumes rep: "heap_lay h (as @ x # bs) fl ul" and z: "z \<in> set (as @ x # bs)" "z \<noteq> x"
  shows "hb_state (hp_block (HeappSplit h x n) z) = hb_state (hp_block h z)"
    "hb_size (hp_block (HeappSplit h x n) z) = hb_size (hp_block h z)"
proof -
  have "splits h x n \<Longrightarrow> z \<noteq> x + n + 24" using split_fresh [OF rep] z by blast
  then show "hb_state (hp_block (HeappSplit h x n) z) = hb_state (hp_block h z)"
    "hb_size (hp_block (HeappSplit h x n) z) = hb_size (hp_block h z)"
    using z(2) by (cases "splits h x n"; simp add: HeappSplit_fields HeappSplit_fields_whole)+
qed

text \<open>The block that was cut or taken, and that no two free blocks meet when none did around it.\<close>

lemma HeappSplit_coalesced:
  assumes rep: "heap_lay h (as @ x # bs) fl ul"
    and c: "coalesced (hp_block h) as" "coalesced (hp_block h) bs" "bs = [] \<or> \<not> is_free (hp_block h) (hd bs)"
  shows "coalesced (hp_block (HeappSplit h x n)) (as @ x # (if splits h x n then (x + n + 24) # bs else bs))"
proof -
  let ?B = "hp_block (HeappSplit h x n)"
  have d: "x \<notin> set as" "x \<notin> set bs" using heap_layD(6) [OF rep] by simp_all
  have st: "hb_state (?B z) = hb_state (hp_block h z)" if "z \<in> set as \<union> set bs" for z
    using that d by (intro HeappSplit_other(1) [OF rep]) auto
  have "coalesced ?B as" using st by (intro coalesced_keep [OF c(1)]) simp
  moreover have "coalesced ?B bs" using st by (intro coalesced_keep [OF c(2)]) simp
  moreover have "\<not> is_free ?B x"
    by (cases "splits h x n") (simp_all add: HeappSplit_fields HeappSplit_fields_whole)
  moreover have "bs = [] \<or> \<not> is_free ?B (hd bs)" using c(3) st [of "hd bs"] by (cases bs) auto
  ultimately show ?thesis by (cases bs) (auto simp: coalesced_append)
qed

lemma HeappSplit_rep:
  assumes rep: "heap_rep h (as @ x # bs) fl ul" and x: "is_free (hp_block h) x"
    and n: "0 < n" "n \<le> hb_size (hp_block h x)"
  shows "heap_rep (HeappSplit h x n) (as @ x # (if splits h x n then (x + n + 24) # bs else bs))
      (remove1 x (if splits h x n then (x + n + 24) # fl else fl)) (x # ul)"
  unfolding heap_rep_def
proof
  note lay = heap_rep_lay [OF rep]
  show "heap_lay (HeappSplit h x n) (as @ x # (if splits h x n then (x + n + 24) # bs else bs))
      (remove1 x (if splits h x n then (x + n + 24) # fl else fl)) (x # ul)"
    by (rule HeappSplit_lay [OF lay x n])
  have "coalesced (hp_block h) as" "coalesced (hp_block h) bs" "bs = [] \<or> \<not> is_free (hp_block h) (hd bs)"
    using heap_repD(6) [OF rep] x by (simp_all add: coalesced_append)
  then show "coalesced (hp_block (HeappSplit h x n)) (as @ x # (if splits h x n then (x + n + 24) # bs else bs))"
    by (rule HeappSplit_coalesced [OF lay])
qed

section \<open>Freeing\<close>

text \<open>The neighbours of a block as its links give them.\<close>

lemma neighbours:
  assumes rep: "heap_rep h (as @ x # bs) fl ul"
  shows "hb_pprev (hp_block h x) = last (0 # as)"
    "hb_pnext (hp_block h x) = (case bs of [] \<Rightarrow> 0 | b # _ \<Rightarrow> b)"
    "hb_pprev (hp_block h x) < x" "hb_pnext (hp_block h x) < hp_size h"
    "hb_size (hp_block h x) < hp_size h"
proof -
  note S = heap_repD(1) [OF rep]
  obtain m where "seg (hp_size h) (hp_block h) 0 as 24 m" "seg (hp_size h) (hp_block h) (last (0 # as)) (x # bs) m (hp_size h + 24)"
    using S by (auto simp: seg_append)
  then have X: "hb_pprev (hp_block h x) = last (0 # as)" "seg (hp_size h) (hp_block h) 0 as 24 x" by simp_all
  have b: "24 \<le> z \<and> 0 < hb_size (hp_block h z) \<and> z + hb_size (hp_block h z) \<le> hp_size h"
    if "z \<in> set (as @ x # bs)" for z using block_bounds [OF rep that] by simp
  show "hb_pprev (hp_block h x) = last (0 # as)" by (rule X)
  show "hb_pnext (hp_block h x) = (case bs of [] \<Rightarrow> 0 | b # _ \<Rightarrow> b)" using seg_pnext(1) [OF S] .
  then show "hb_pnext (hp_block h x) < hp_size h" using b [of x] b [of "hd bs"] by (cases bs) auto
  show "hb_pprev (hp_block h x) < x"
    using X(1) seg_mem [OF X(2), of "last as"] b [of x] by (cases as) auto
  show "hb_size (hp_block h x) < hp_size h" using b [of x] by simp
qed

definition zero_block :: heap_block where
  "zero_block = \<lparr>hb_state = 0, hb_size = 0, hb_pprev = 0, hb_pnext = 0, hb_vprev = 0, hb_vnext = 0\<rparr>"

lemma HeappBlockZero_set: "h\<lparr>hp_block := HeappBlockZero (hp_block h) x\<rparr> = set_block h x (\<lambda>_. zero_block)"
  by (simp add: HeappBlockZero_def set_block_def zero_block_def)

lemma HeappBlockZero2_set:
  "h\<lparr>hp_block := HeappBlockZero (HeappBlockZero (hp_block h) x) y\<rparr> =
     set_block (set_block h x (\<lambda>_. zero_block)) y (\<lambda>_. zero_block)"
  by (simp add: HeappBlockZero_def set_block_def zero_block_def)

lemma zero_block_sel [simp]: "hb_state zero_block = HEAP_BLOCK_FREE" "hb_size zero_block = 0"
  by (simp_all add: zero_block_def HEAP_BLOCK_FREE_def)

text \<open>What a merge of \<open>w\<close> with the block after it stores: its new size and successor.\<close>

definition absorb :: "heap \<Rightarrow> nat \<Rightarrow> nat \<Rightarrow> nat \<Rightarrow> heap" where
  "absorb h w sz nxt =
     (let g = set_block (set_block h w (\<lambda>b. b\<lparr>hb_size := hb_size b + sz\<rparr>)) w (hb_pnext_update (\<lambda>_. nxt))
      in if nxt \<noteq> 0 then set_block g nxt (hb_pprev_update (\<lambda>_. w)) else g)"

definition scrub :: "heap \<Rightarrow> nat \<Rightarrow> bool \<Rightarrow> heap" where
  "scrub h x secure = (if secure then set_block h x (\<lambda>_. zero_block) else h)"

lemma absorb_sel [simp]:
  "hb_state (hp_block (absorb h w sz n) z) = hb_state (hp_block h z)"
  "hb_size (hp_block (absorb h w sz n) z) = (if z = w then hb_size (hp_block h w) + sz else hb_size (hp_block h z))"
  "hb_pnext (hp_block (absorb h w sz n) z) = (if z = w then n else hb_pnext (hp_block h z))"
  "hb_pprev (hp_block (absorb h w sz n) z) = (if n \<noteq> 0 \<and> z = n then w else hb_pprev (hp_block h z))"
  "hp_size (absorb h w sz n) = hp_size h" "hp_memory (absorb h w sz n) = hp_memory h"
  "hp_data (absorb h w sz n) = hp_data h"
  by (auto simp: absorb_def Let_def)

lemma scrub_sel [simp]:
  "hp_block (scrub h x secure) z = (if secure \<and> z = x then zero_block else hp_block h z)"
  "hp_size (scrub h x secure) = hp_size h" "hp_memory (scrub h x secure) = hp_memory h"
  "hp_data (scrub h x secure) = hp_data h"
  by (auto simp: scrub_def)

lemma virt_absorb: "virt h fl ul \<Longrightarrow> virt (absorb h w sz n) fl ul"
  by (auto simp: absorb_def Let_def intro!: virt_set_block)

lemma virt_scrub: "virt h fl ul \<Longrightarrow> x \<notin> set fl \<Longrightarrow> x \<notin> set ul \<Longrightarrow> virt (scrub h x secure) fl ul"
  by (auto simp: scrub_def intro!: virt_set_block)

text \<open>\<open>HeappFree\<close> on a used block, by the states of its neighbours.\<close>

definition neighbours_free :: "heap \<Rightarrow> nat list \<Rightarrow> nat list \<Rightarrow> bool \<times> bool" where
  "neighbours_free h as bs =
     (as \<noteq> [] \<and> is_free (hp_block h) (last as), bs \<noteq> [] \<and> is_free (hp_block h) (hd bs))"

text \<open>A case whose test fails leaves the heap alone.\<close>

lemma free_skip:
  "\<not> (nxt \<noteq> 0 \<and> is_free (hp_block h) nxt) \<Longrightarrow> free_uuf h prev x nxt secure = h"
  "prev \<noteq> 0 \<and> is_free (hp_block h) prev \<Longrightarrow> free_uuf h prev x nxt secure = h"
  "prev \<noteq> 0 \<and> is_free (hp_block h) prev \<Longrightarrow> free_uuu h prev x nxt = h"
  "nxt \<noteq> 0 \<and> is_free (hp_block h) nxt \<Longrightarrow> free_uuu h prev x nxt = h"
  "\<not> (prev \<noteq> 0 \<and> is_free (hp_block h) prev) \<Longrightarrow> free_fuu h prev x nxt secure = h"
  "nxt \<noteq> 0 \<and> is_free (hp_block h) nxt \<Longrightarrow> free_fuu h prev x nxt secure = h"
  "\<not> (prev \<noteq> 0 \<and> is_free (hp_block h) prev) \<Longrightarrow> free_fuf h prev x nxt secure = h"
  "\<not> (nxt \<noteq> 0 \<and> is_free (hp_block h) nxt) \<Longrightarrow> free_fuf h prev x nxt secure = h"
  by (auto simp: free_uuu_def free_uuf_def free_fuu_def free_fuf_def)

lemma HeappFree_cases:
  assumes rep: "heap_rep h (as @ x # bs) fl ul" and u: "hb_state (hp_block h x) = HEAP_BLOCK_USED"
  defines "g \<equiv> unlink_used h x" and "w \<equiv> last as" and "y \<equiv> hd bs" and "B \<equiv> hp_block h"
  shows "HeappFree h x secure =
    (let g' = (case neighbours_free h as bs of
        (False, False) \<Rightarrow> link_free (set_block g x (hb_state_update (\<lambda>_. HEAP_BLOCK_FREE))) x
      | (False, True) \<Rightarrow> link_free (set_block (scrub (absorb (unlink_free g y) x
            (24 + hb_size (B y)) (hb_pnext (B y))) y secure) x (hb_state_update (\<lambda>_. HEAP_BLOCK_FREE))) x
      | (True, False) \<Rightarrow> scrub (absorb g w (24 + hb_size (B x)) (hb_pnext (B x))) x secure
      | (True, True) \<Rightarrow> scrub (scrub (absorb (unlink_free g y) w
            (24 + hb_size (B x) + 24 + hb_size (B y)) (hb_pnext (B y))) x secure) y secure)
     in if secure then zero_data g' x (hb_size (B x)) else g')"
proof -
  note nb = neighbours [OF rep] and R = heap_repD [OF rep]
  have pos: "0 < hb_size (B x)" "24 \<le> x" using block_bounds [OF rep, of x] by (simp_all add: B_def)
  have w: "last (0 # as) = 0 \<longleftrightarrow> as = []" "as \<noteq> [] \<Longrightarrow> last (0 # as) = w \<and> w \<noteq> 0 \<and> w \<noteq> x \<and> w \<in> set as"
    using block_bounds(1) [OF rep, of "last as"] R(7) last_in_set [of as] by (auto simp: w_def)
  have y: "(case bs of [] \<Rightarrow> 0 | b # _ \<Rightarrow> b) = 0 \<longleftrightarrow> bs = []"
    "bs \<noteq> [] \<Longrightarrow> (case bs of [] \<Rightarrow> 0 | b # _ \<Rightarrow> b) = y \<and> y \<noteq> 0 \<and> y \<noteq> x \<and> y \<in> set bs"
    using block_bounds(1) [OF rep, of "hd bs"] R(7) by (cases bs; auto simp: y_def)+
  have wy: "w \<noteq> y" if "as \<noteq> []" "bs \<noteq> []" using w(2) y(2) R(7) that by auto
  have st: "hb_state (B z) = HEAP_BLOCK_USED \<longleftrightarrow> \<not> is_free B z" if "z \<in> set as \<union> set bs" for z
    using R(5) [of z] that by (auto simp: B_def)
  have guard: "\<not> (hb_state (B x) \<noteq> HEAP_BLOCK_USED \<or> x \<le> hb_pprev (B x) \<or> hp_size h \<le> hb_pnext (B x) \<or>
      hp_size h \<le> hb_size (B x) \<or> hb_size (B x) = 0)"
    using nb(3,4,5) pos u by (simp add: B_def)
  define P where "P = hb_pprev (B x)"
  define Q where "Q = hb_pnext (B x)"
  define pf where "pf \<longleftrightarrow> P \<noteq> 0 \<and> is_free B P"
  define qf where "qf \<longleftrightarrow> Q \<noteq> 0 \<and> is_free B Q"
  have PQ: "P \<noteq> x" "Q \<noteq> x" "P \<noteq> 0 \<Longrightarrow> P = w" "Q \<noteq> 0 \<Longrightarrow> Q = y"
    using nb(1,2) w y pos by (auto simp: P_def Q_def B_def)
  have used: "(P = 0 \<or> hb_state (B P) = HEAP_BLOCK_USED) \<longleftrightarrow> \<not> pf"
    "(Q = 0 \<or> hb_state (B Q) = HEAP_BLOCK_USED) \<longleftrightarrow> \<not> qf"
    using st w y nb(1,2) PQ by (auto simp: pf_def qf_def P_def Q_def B_def)
  have nf: "neighbours_free h as bs = (pf, qf)"
    using w y nb(1,2) PQ by (auto simp: neighbours_free_def pf_def qf_def P_def Q_def B_def w_def y_def)
  have body: "HeappFree h x secure = (let g' = free_fuf (free_fuu (free_uuf (free_uuu g P x Q) P x Q secure) P x Q secure) P x Q secure
      in if secure then zero_data g' x (hb_size (B x)) else g')"
    using guard by (simp add: HeappFree_def Let_def B_def g_def P_def Q_def)
  have gst: "hb_state (hp_block g z) = hb_state (B z)" "hb_size (hp_block g z) = hb_size (B z)"
    "hb_pnext (hp_block g z) = hb_pnext (B z)" for z by (simp_all add: g_def B_def)
  have gf: "P \<noteq> 0 \<and> is_free (hp_block g) P \<longleftrightarrow> pf" "Q \<noteq> 0 \<and> is_free (hp_block g) Q \<longleftrightarrow> qf"
    "(P = 0 \<or> hb_state (hp_block g P) = HEAP_BLOCK_USED) \<longleftrightarrow> \<not> pf"
    "(Q = 0 \<or> hb_state (hp_block g Q) = HEAP_BLOCK_USED) \<longleftrightarrow> \<not> qf"
    using used by (simp_all add: gst pf_def qf_def)
  consider "\<not> pf" "\<not> qf" | "\<not> pf" qf | pf "\<not> qf" | pf qf by blast
  then show ?thesis
  proof cases
    case 1
    define g1 where "g1 = link_free (set_block g x (hb_state_update (\<lambda>_. HEAP_BLOCK_FREE))) x"
    have g1: "free_uuu g P x Q = g1" using 1 gf by (simp add: free_uuu_def g1_def)
    have "hb_state (hp_block g1 P) = hb_state (B P)" "hb_state (hp_block g1 Q) = hb_state (B Q)"
      using PQ(1,2) by (simp_all add: g1_def gst)
    then have "free_uuf g1 P x Q secure = g1" "free_fuu g1 P x Q secure = g1" "free_fuf g1 P x Q secure = g1"
      using 1 unfolding pf_def qf_def by (simp_all add: free_skip)
    then show ?thesis unfolding body nf g1 using 1 by (simp add: g1_def [symmetric] Let_def)
  next
    case 2
    define g2 where "g2 = link_free (set_block (scrub (absorb (unlink_free g y) x
            (24 + hb_size (B y)) (hb_pnext (B y))) y secure) x (hb_state_update (\<lambda>_. HEAP_BLOCK_FREE))) x"
    have Qy: "Q = y" "y \<noteq> 0" using 2 PQ(4) by (auto simp: qf_def)
    have u0: "free_uuu g P x Q = g" using 2 gf by (intro free_skip(4)) simp
    have u1: "free_uuf g P x Q secure = g2"
      using 2 gf PQ(2) Qy
      by (simp add: free_uuf_def Let_def absorb_def scrub_def HeappBlockZero_set g2_def gst)
    have "hb_state (hp_block g2 P) = hb_state (B P) \<or> P = y" using PQ(1) by (simp add: g2_def gst)
    moreover have "P = 0 \<or> P \<noteq> y"
      using wy w(1) y(1) nb(1,2) PQ(3) Qy by (auto simp: P_def Q_def B_def)
    ultimately have "P = 0 \<or> hb_state (hp_block g2 P) = HEAP_BLOCK_USED"
      using 2 used(1) by auto
    then have "\<not> (P \<noteq> 0 \<and> is_free (hp_block g2) P)" by auto
    then have "free_fuu g2 P x Q secure = g2" "free_fuf g2 P x Q secure = g2"
      by (simp_all add: free_skip)
    with u0 u1 show ?thesis unfolding body nf using 2 by (simp add: g2_def [symmetric] Let_def)
  next
    case 3
    define g3 where "g3 = scrub (absorb g w (24 + hb_size (B x)) (hb_pnext (B x))) x secure"
    have Pw: "P = w" "w \<noteq> 0" using 3 PQ(3) by (auto simp: pf_def)
    have "free_uuu g P x Q = g" "free_uuf g P x Q secure = g" using 3 gf by (simp_all add: free_skip)
    moreover have "free_fuu g P x Q secure = g3"
      using 3 gf PQ(1) Pw
      by (simp add: free_fuu_def Let_def absorb_def scrub_def HeappBlockZero_set g3_def gst Q_def [symmetric])
    moreover have "hb_state (hp_block g3 Q) = hb_state (B Q)" using PQ(2) by (simp add: g3_def gst)
    then have "free_fuf g3 P x Q secure = g3" using 3 by (intro free_skip(8)) (simp add: qf_def)
    ultimately show ?thesis unfolding body nf using 3 by (simp add: g3_def [symmetric] Let_def)
  next
    case 4
    have Pw: "P = w" "w \<noteq> 0" "w \<noteq> x" using 4 PQ(1,3) by (auto simp: pf_def)
    have Qy: "Q = y" "y \<noteq> 0" "y \<noteq> x" using 4 PQ(2,4) by (auto simp: qf_def)
    have ne: "w \<noteq> y" using wy w(1) y(1) nb(1,2) Pw Qy by (auto simp: P_def Q_def B_def)
    have "free_uuu g P x Q = g" "free_uuf g P x Q secure = g" "free_fuu g P x Q secure = g"
      using 4 gf by (simp_all add: free_skip)
    moreover have "free_fuf g P x Q secure = scrub (scrub (absorb (unlink_free g y) w
            (24 + hb_size (B x) + 24 + hb_size (B y)) (hb_pnext (B y))) x secure) y secure"
      using 4 gf Pw Qy ne
      by (simp add: free_fuf_def Let_def absorb_def scrub_def HeappBlockZero2_set gst)
    ultimately show ?thesis unfolding body nf using 4 by (simp add: Let_def)
  qed
qed

text \<open>The successor of a block, and who points back to it.\<close>

lemma next_is_next:
  assumes rep: "heap_rep h (as @ x # bs) fl ul" and z: "z \<in> set (as @ x # bs)"
  shows "hb_pnext (hp_block h x) \<noteq> 0 \<and> z = hb_pnext (hp_block h x) \<longleftrightarrow>
    z \<in> set bs \<and> z = x + hb_size (hp_block h x) + 24"
proof -
  note S = heap_repD(1) [OF rep] and nb = neighbours(2) [OF rep] and d = heap_repD(7) [OF rep]
  have "hb_pnext (hp_block h x) = pnx (hp_size h) (x + hb_size (hp_block h x))"
    "bs = [] \<longleftrightarrow> x + hb_size (hp_block h x) = hp_size h"
    using S seg_pnext(2) [OF S] by (auto simp: seg_append)
  then show ?thesis
    using nb z d block_bounds(1,3) [OF rep z] block_bounds(1) [OF rep, of "hd bs"]
    by (cases bs) (auto simp: pnx_def)
qed

lemma rep_set_lists:
  assumes "heap_rep h ps fl ul"
  shows "set fl \<subseteq> set ps" "set ul \<subseteq> set ps" "set fl \<inter> set ul = {}" "distinct fl" "distinct ul"
  using heap_repD(2,3,4) [OF assms] by (auto simp: virt_def)

text \<open>Neither neighbour is free.\<close>

lemma free_rep_FF:
  assumes rep: "heap_rep h (as @ x # bs) fl ul" and u: "hb_state (hp_block h x) = HEAP_BLOCK_USED"
    and nf: "neighbours_free h as bs = (False, False)"
  defines "h' \<equiv> link_free (set_block (unlink_used h x) x (hb_state_update (\<lambda>_. HEAP_BLOCK_FREE))) x"
  shows "heap_rep h' (as @ x # bs) (x # fl) (remove1 x ul)"
proof -
  note R = heap_repD [OF rep] and L = rep_set_lists [OF rep]
  have x: "x \<in> set ul" "x \<noteq> 0" "x \<notin> set fl" "x \<notin> set as" "x \<notin> set bs"
    using R(3,4,7) u block_bounds(1) [OF rep, of x] by auto
  have st: "hb_state (hp_block h' z) = (if z = x then HEAP_BLOCK_FREE else hb_state (hp_block h z))" for z
    by (simp add: h'_def)
  have ends: "as \<noteq> [] \<Longrightarrow> last as \<noteq> x" "bs \<noteq> [] \<Longrightarrow> hd bs \<noteq> x" using x(4,5) by auto
  have V: "virt h' (x # fl) (remove1 x ul)"
    unfolding h'_def using x L(5) by (intro virt_link_free virt_set_block virt_unlink_used R(2)) auto
  have S: "seg (hp_size h') (hp_block h') 0 (as @ x # bs) 24 (hp_size h' + 24)"
    using seg_same [OF R(1), of "hp_block h'"] by (simp add: h'_def)
  have c: "coalesced (hp_block h) as" "coalesced (hp_block h) bs"
    using R(6) by (simp_all add: coalesced_append)
  have "coalesced (hp_block h') as" using x(4) by (intro coalesced_keep [OF c(1)]) (auto simp: st)
  moreover have "coalesced (hp_block h') bs" using x(5) by (intro coalesced_keep [OF c(2)]) (auto simp: st)
  ultimately have C: "coalesced (hp_block h') (as @ x # bs)"
    using nf ends by (auto simp: coalesced_append neighbours_free_def st)
  have 1: "z \<in> set (x # fl) \<longleftrightarrow> z \<in> set (as @ x # bs) \<and> is_free (hp_block h') z" for z
    using R(3) [of z] by (simp add: st)
  have 2: "z \<in> set (remove1 x ul) \<longleftrightarrow> z \<in> set (as @ x # bs) \<and> hb_state (hp_block h' z) = HEAP_BLOCK_USED" for z
    using R(4) [of z] L(5) by (simp add: st set_remove1_eq)
  have 3: "is_free (hp_block h') z \<or> hb_state (hp_block h' z) = HEAP_BLOCK_USED" if "z \<in> set (as @ x # bs)" for z
    using R(5) [OF that] by (simp add: st)
  show ?thesis by (rule heap_repI [OF S V 1 2 3 C])
qed

text \<open>The next block is free and is swallowed.\<close>

lemma free_rep_FT:
  fixes secure :: bool
  assumes rep: "heap_rep h (as @ x # y # cs) fl ul" and u: "hb_state (hp_block h x) = HEAP_BLOCK_USED"
    and nf: "neighbours_free h as (y # cs) = (False, True)"
  defines "h' \<equiv> link_free (set_block (scrub (absorb (unlink_free (unlink_used h x) y) x
      (24 + hb_size (hp_block h y)) (hb_pnext (hp_block h y))) y secure) x (hb_state_update (\<lambda>_. HEAP_BLOCK_FREE))) x"
  shows "heap_rep h' (as @ x # cs) (x # remove1 y fl) (remove1 x ul)"
proof -
  note R = heap_repD [OF rep] and L = rep_set_lists [OF rep]
  have yf: "is_free (hp_block h) y" using nf by (simp add: neighbours_free_def)
  have d: "x \<notin> set as" "x \<notin> set cs" "y \<notin> set as" "y \<notin> set cs" "x \<noteq> y" using R(7) by auto
  have x: "x \<in> set ul" "x \<noteq> 0" "x \<notin> set fl" "y \<in> set fl" "y \<notin> set ul"
    using R(3,4) u yf block_bounds(1) [OF rep, of x] by auto
  have st: "hb_state (hp_block h' z) = (if z = x then HEAP_BLOCK_FREE else hb_state (hp_block h z))"
    if "z \<noteq> y" for z using that by (simp add: h'_def)
  have F: "hb_size (hp_block h' z) = (if z = x then hb_size (hp_block h x) + 24 + hb_size (hp_block h y) else hb_size (hp_block h z))"
    "hb_pnext (hp_block h' z) = (if z = x then hb_pnext (hp_block h y) else hb_pnext (hp_block h z))"
    "hb_pprev (hp_block h' z) = (if hb_pnext (hp_block h y) \<noteq> 0 \<and> z = hb_pnext (hp_block h y) then x else hb_pprev (hp_block h z))"
    if "z \<noteq> y" for z using that d(5) by (auto simp: h'_def)
  have nn: "hb_pnext (hp_block h y) \<noteq> 0 \<and> z = hb_pnext (hp_block h y) \<longleftrightarrow>
      z \<in> set cs \<and> z = y + hb_size (hp_block h y) + 24" if "z \<in> set (as @ x # y # cs)" for z
    using next_is_next [of h "as @ [x]" y cs fl ul z] rep that by simp
  have V: "virt h' (x # remove1 y fl) (remove1 x ul)"
    unfolding h'_def using x d(5) L(4,5)
    by (intro virt_link_free virt_set_block virt_scrub virt_absorb virt_unlink_free virt_unlink_used R(2))
      (auto simp: set_remove1_eq)
  have S: "seg (hp_size h) (hp_block h') 0 (as @ x # cs) 24 (hp_size h + 24)"
  proof (rule seg_merge [OF R(1)])
    show "hb_size (hp_block h' x) = hb_size (hp_block h x) + 24 + hb_size (hp_block h y)"
      "hb_pnext (hp_block h' x) = hb_pnext (hp_block h y)" using d(5) by (simp_all add: F)
    show "hb_pprev (hp_block h' x) = hb_pprev (hp_block h x)" using d(2,5) nn [of x] by (auto simp: F)
    show "hb_size (hp_block h' z) = hb_size (hp_block h z) \<and> hb_pnext (hp_block h' z) = hb_pnext (hp_block h z) \<and>
      hb_pprev (hp_block h' z) = hb_pprev (hp_block h z)" if "z \<in> set as" for z
    proof -
      have "z \<noteq> x" "z \<noteq> y" "z \<notin> set cs" using that R(7) by auto
      then show ?thesis using nn [of z] that by (auto simp: F)
    qed
    show "hb_size (hp_block h' z) = hb_size (hp_block h z) \<and> hb_pnext (hp_block h' z) = hb_pnext (hp_block h z) \<and>
      hb_pprev (hp_block h' z) = (if z = y + hb_size (hp_block h y) + 24 then x else hb_pprev (hp_block h z))"
      if "z \<in> set cs" for z
    proof -
      have "z \<noteq> x" "z \<noteq> y" using that d by auto
      then show ?thesis using nn [of z] that by (auto simp: F)
    qed
  qed
  have N: "hp_size h' = hp_size h" by (simp add: h'_def)
  have c: "coalesced (hp_block h) as" "coalesced (hp_block h) cs"
    using coalesced_parts [OF R(6)] coalesced_parts [of "hp_block h" "[x, y]" cs] by simp_all
  have st2: "hb_state (hp_block h' z) = hb_state (hp_block h z)" if "z \<in> set as \<union> set cs" for z
  proof -
    have "z \<noteq> y" "z \<noteq> x" using d that by auto
    then show ?thesis using st by simp
  qed
  have "coalesced (hp_block h') as" using st2 by (intro coalesced_keep [OF c(1)]) simp
  moreover have "coalesced (hp_block h') cs" using st2 by (intro coalesced_keep [OF c(2)]) simp
  ultimately have C: "coalesced (hp_block h') (as @ x # cs)"
    using coalesced_parts [OF R(6)] coalesced_parts [of "hp_block h" "[x]" "y # cs"] yf nf
      st2 [of "last as"] st2 [of "hd cs"]
    by (cases cs) (auto simp: coalesced_append neighbours_free_def)
  have 1: "z \<in> set (x # remove1 y fl) \<longleftrightarrow> z \<in> set (as @ x # cs) \<and> is_free (hp_block h') z" for z
    using R(3) [of z] L(4) d st [of z] by (cases "z = y") (auto simp: set_remove1_eq)
  have 2: "z \<in> set (remove1 x ul) \<longleftrightarrow> z \<in> set (as @ x # cs) \<and> hb_state (hp_block h' z) = HEAP_BLOCK_USED" for z
    using R(4) [of z] L(5) x(5) d st [of z] by (cases "z = y") (auto simp: set_remove1_eq)
  have 3: "is_free (hp_block h') z \<or> hb_state (hp_block h' z) = HEAP_BLOCK_USED" if "z \<in> set (as @ x # cs)" for z
    using R(5) [of z] st [of z] d that by (cases "z = y") simp_all
  show ?thesis by (rule heap_repI [OF _ V 1 2 3 C]) (use S in \<open>simp only: N\<close>)
qed

text \<open>The previous block is free and swallows this one.\<close>

lemma free_rep_TF:
  fixes secure :: bool
  assumes rep: "heap_rep h (as @ w # x # bs) fl ul" and u: "hb_state (hp_block h x) = HEAP_BLOCK_USED"
    and nf: "neighbours_free h (as @ [w]) bs = (True, False)"
  defines "h' \<equiv> scrub (absorb (unlink_used h x) w (24 + hb_size (hp_block h x)) (hb_pnext (hp_block h x))) x secure"
  shows "heap_rep h' (as @ w # bs) fl (remove1 x ul)"
proof -
  note R = heap_repD [OF rep] and L = rep_set_lists [OF rep]
  have wf: "is_free (hp_block h) w" and bf: "bs = [] \<or> \<not> is_free (hp_block h) (hd bs)"
    using nf by (auto simp: neighbours_free_def)
  have d: "x \<notin> set as" "x \<notin> set bs" "w \<notin> set as" "w \<notin> set bs" "w \<noteq> x" using R(7) by auto
  have x: "x \<in> set ul" "x \<notin> set fl" using R(3,4) u by auto
  have st: "hb_state (hp_block h' z) = hb_state (hp_block h z)" if "z \<noteq> x" for z
    using that by (simp add: h'_def)
  have F: "hb_size (hp_block h' z) = (if z = w then hb_size (hp_block h w) + 24 + hb_size (hp_block h x) else hb_size (hp_block h z))"
    "hb_pnext (hp_block h' z) = (if z = w then hb_pnext (hp_block h x) else hb_pnext (hp_block h z))"
    "hb_pprev (hp_block h' z) = (if hb_pnext (hp_block h x) \<noteq> 0 \<and> z = hb_pnext (hp_block h x) then w else hb_pprev (hp_block h z))"
    if "z \<noteq> x" for z using that d(5) by (auto simp: h'_def)
  have nn: "hb_pnext (hp_block h x) \<noteq> 0 \<and> z = hb_pnext (hp_block h x) \<longleftrightarrow>
      z \<in> set bs \<and> z = x + hb_size (hp_block h x) + 24" if "z \<in> set (as @ w # x # bs)" for z
    using next_is_next [of h "as @ [w]" x bs fl ul z] rep that by simp
  have V: "virt h' fl (remove1 x ul)"
    unfolding h'_def using x L(5)
    by (intro virt_scrub virt_absorb virt_unlink_used R(2)) (auto simp: set_remove1_eq)
  have S: "seg (hp_size h) (hp_block h') 0 (as @ w # bs) 24 (hp_size h + 24)"
  proof (rule seg_merge [OF R(1)])
    show "hb_size (hp_block h' w) = hb_size (hp_block h w) + 24 + hb_size (hp_block h x)"
      "hb_pnext (hp_block h' w) = hb_pnext (hp_block h x)" using d(5) by (simp_all add: F)
    show "hb_pprev (hp_block h' w) = hb_pprev (hp_block h w)" using d(4,5) nn [of w] by (auto simp: F)
    show "hb_size (hp_block h' z) = hb_size (hp_block h z) \<and> hb_pnext (hp_block h' z) = hb_pnext (hp_block h z) \<and>
      hb_pprev (hp_block h' z) = hb_pprev (hp_block h z)" if "z \<in> set as" for z
    proof -
      have "z \<noteq> x" "z \<noteq> w" "z \<notin> set bs" using that R(7) by auto
      then show ?thesis using nn [of z] that by (auto simp: F)
    qed
    show "hb_size (hp_block h' z) = hb_size (hp_block h z) \<and> hb_pnext (hp_block h' z) = hb_pnext (hp_block h z) \<and>
      hb_pprev (hp_block h' z) = (if z = x + hb_size (hp_block h x) + 24 then w else hb_pprev (hp_block h z))"
      if "z \<in> set bs" for z
    proof -
      have "z \<noteq> x" "z \<noteq> w" using that d by auto
      then show ?thesis using nn [of z] that by (auto simp: F)
    qed
  qed
  have N: "hp_size h' = hp_size h" by (simp add: h'_def)
  have c: "coalesced (hp_block h) (as @ [w])" "coalesced (hp_block h) bs"
    using coalesced_parts [of "hp_block h" "as @ [w]" "x # bs"] coalesced_parts [of "hp_block h" "as @ [w, x]" bs] R(6)
    by simp_all
  have st2: "hb_state (hp_block h' z) = hb_state (hp_block h z)" if "z \<in> set (as @ w # bs)" for z
    using d that by (intro st) auto
  have "coalesced (hp_block h') (as @ [w])" using st2 by (intro coalesced_keep [OF c(1)]) auto
  moreover have "coalesced (hp_block h') bs" using st2 by (intro coalesced_keep [OF c(2)]) auto
  ultimately have C: "coalesced (hp_block h') (as @ w # bs)"
    using bf st2 [of "hd bs"] by (cases bs) (auto simp: coalesced_append)
  have 1: "z \<in> set fl \<longleftrightarrow> z \<in> set (as @ w # bs) \<and> is_free (hp_block h') z" for z
    using R(3) [of z] x d u st [of z] by (cases "z = x") auto
  have 2: "z \<in> set (remove1 x ul) \<longleftrightarrow> z \<in> set (as @ w # bs) \<and> hb_state (hp_block h' z) = HEAP_BLOCK_USED" for z
    using R(4) [of z] L(5) d st [of z] by (cases "z = x") (auto simp: set_remove1_eq)
  have 3: "is_free (hp_block h') z \<or> hb_state (hp_block h' z) = HEAP_BLOCK_USED" if "z \<in> set (as @ w # bs)" for z
    using R(5) [of z] st2 [OF that] that by auto
  show ?thesis by (rule heap_repI [OF _ V 1 2 3 C]) (use S in \<open>simp only: N\<close>)
qed

text \<open>Both neighbours are free: the three become one.\<close>

lemma free_rep_TT:
  fixes secure :: bool
  assumes rep: "heap_rep h (as @ w # x # y # cs) fl ul" and u: "hb_state (hp_block h x) = HEAP_BLOCK_USED"
    and nf: "neighbours_free h (as @ [w]) (y # cs) = (True, True)"
  defines "h' \<equiv> scrub (scrub (absorb (unlink_free (unlink_used h x) y) w
      (24 + hb_size (hp_block h x) + 24 + hb_size (hp_block h y)) (hb_pnext (hp_block h y))) x secure) y secure"
  shows "heap_rep h' (as @ w # cs) (remove1 y fl) (remove1 x ul)"
proof -
  let ?B = "hp_block h"
  note R = heap_repD [OF rep] and L = rep_set_lists [OF rep]
  have wf: "is_free ?B w" and yf: "is_free ?B y" using nf by (auto simp: neighbours_free_def)
  have d: "x \<notin> set as" "x \<notin> set cs" "w \<notin> set as" "w \<notin> set cs" "w \<noteq> x" "y \<notin> set as" "y \<notin> set cs" "y \<noteq> x" "y \<noteq> w"
    using R(7) by auto
  have x: "x \<in> set ul" "x \<notin> set fl" "y \<in> set fl" "y \<notin> set ul" using R(3,4) u yf by auto
  have st: "hb_state (hp_block h' z) = hb_state (?B z)" if "z \<noteq> x" "z \<noteq> y" for z
    using that by (simp add: h'_def)
  have F: "hb_size (hp_block h' z) = (if z = w then hb_size (?B w) + (24 + hb_size (?B x) + 24 + hb_size (?B y)) else hb_size (?B z))"
    "hb_pnext (hp_block h' z) = (if z = w then hb_pnext (?B y) else hb_pnext (?B z))"
    "hb_pprev (hp_block h' z) = (if hb_pnext (?B y) \<noteq> 0 \<and> z = hb_pnext (?B y) then w else hb_pprev (?B z))"
    if "z \<noteq> x" "z \<noteq> y" for z using that d(5,9) by (auto simp: h'_def)
  have nn: "hb_pnext (?B y) \<noteq> 0 \<and> z = hb_pnext (?B y) \<longleftrightarrow> z \<in> set cs \<and> z = y + hb_size (?B y) + 24"
    if "z \<in> set (as @ w # x # y # cs)" for z
    using next_is_next [of h "as @ [w, x]" y cs fl ul z] rep that by simp
  have yx: "y = x + hb_size (?B x) + 24" using R(1) by (auto simp: seg_append)
  have V: "virt h' (remove1 y fl) (remove1 x ul)"
    unfolding h'_def using x L(4,5)
    by (intro virt_scrub virt_absorb virt_unlink_free virt_unlink_used R(2)) (auto simp: set_remove1_eq)
  define B1 where "B1 = upd (upd ?B w (\<lambda>b. b\<lparr>hb_size := hb_size b + 24 + hb_size (?B x), hb_pnext := hb_pnext (?B x)\<rparr>))
      y (hb_pprev_update (\<lambda>_. w))"
  have "seg (hp_size h) B1 0 (as @ w # y # cs) 24 (hp_size h + 24)"
  proof (rule seg_merge [OF R(1)])
    show "hb_size (B1 w) = hb_size (?B w) + 24 + hb_size (?B x)" "hb_pnext (B1 w) = hb_pnext (?B x)"
      "hb_pprev (B1 w) = hb_pprev (?B w)" using d(9) by (simp_all add: B1_def)
    show "hb_size (B1 z) = hb_size (?B z) \<and> hb_pnext (B1 z) = hb_pnext (?B z) \<and> hb_pprev (B1 z) = hb_pprev (?B z)"
      if "z \<in> set as" for z using that d by (auto simp: B1_def)
    show "hb_size (B1 z) = hb_size (?B z) \<and> hb_pnext (B1 z) = hb_pnext (?B z) \<and>
      hb_pprev (B1 z) = (if z = x + hb_size (?B x) + 24 then w else hb_pprev (?B z))" if "z \<in> set (y # cs)" for z
      using that d yx by (auto simp: B1_def)
  qed
  then have S: "seg (hp_size h) (hp_block h') 0 (as @ w # cs) 24 (hp_size h + 24)"
  proof (rule seg_merge)
    show "hb_size (hp_block h' w) = hb_size (B1 w) + 24 + hb_size (B1 y)" "hb_pnext (hp_block h' w) = hb_pnext (B1 y)"
      using d(5,9) by (simp_all add: F B1_def)
    show "hb_pprev (hp_block h' w) = hb_pprev (B1 w)" using d(4,5,9) nn [of w] by (auto simp: F B1_def)
    show "hb_size (hp_block h' z) = hb_size (B1 z) \<and> hb_pnext (hp_block h' z) = hb_pnext (B1 z) \<and>
      hb_pprev (hp_block h' z) = hb_pprev (B1 z)" if "z \<in> set as" for z
    proof -
      have "z \<noteq> x" "z \<noteq> w" "z \<noteq> y" "z \<notin> set cs" using that R(7) by auto
      then show ?thesis using nn [of z] that by (auto simp: F B1_def)
    qed
    show "hb_size (hp_block h' z) = hb_size (B1 z) \<and> hb_pnext (hp_block h' z) = hb_pnext (B1 z) \<and>
      hb_pprev (hp_block h' z) = (if z = y + hb_size (B1 y) + 24 then w else hb_pprev (B1 z))"
      if "z \<in> set cs" for z
    proof -
      have "z \<noteq> x" "z \<noteq> w" "z \<noteq> y" using that d by auto
      then show ?thesis using nn [of z] that d(9) by (auto simp: F B1_def)
    qed
  qed
  have N: "hp_size h' = hp_size h" by (simp add: h'_def)
  have c: "coalesced ?B (as @ [w])" "coalesced ?B cs" "coalesced ?B (y # cs)"
    using coalesced_parts [of ?B "as @ [w]" "x # y # cs"] coalesced_parts [of ?B "as @ [w, x, y]" cs]
      coalesced_parts [of ?B "as @ [w, x]" "y # cs"] R(6) by simp_all
  have st2: "hb_state (hp_block h' z) = hb_state (?B z)" if "z \<in> set (as @ w # cs)" for z
    using d that by (intro st) auto
  have "coalesced (hp_block h') (as @ [w])" using st2 by (intro coalesced_keep [OF c(1)]) auto
  moreover have "coalesced (hp_block h') cs" using st2 by (intro coalesced_keep [OF c(2)]) auto
  ultimately have C: "coalesced (hp_block h') (as @ w # cs)"
    using c(3) yf st2 [of "hd cs"] by (cases cs) (auto simp: coalesced_append)
  have 1: "z \<in> set (remove1 y fl) \<longleftrightarrow> z \<in> set (as @ w # cs) \<and> is_free (hp_block h') z" for z
    using R(3) [of z] x d u st [of z] L(4) by (cases "z = x \<or> z = y") (auto simp: set_remove1_eq)
  have 2: "z \<in> set (remove1 x ul) \<longleftrightarrow> z \<in> set (as @ w # cs) \<and> hb_state (hp_block h' z) = HEAP_BLOCK_USED" for z
    using R(4) [of z] L(5) d x(4) st [of z] by (cases "z = x \<or> z = y") (auto simp: set_remove1_eq)
  have 3: "is_free (hp_block h') z \<or> hb_state (hp_block h' z) = HEAP_BLOCK_USED" if "z \<in> set (as @ w # cs)" for z
    using R(5) [of z] st2 [OF that] that by auto
  show ?thesis by (rule heap_repI [OF _ V 1 2 3 C]) (use S in \<open>simp only: N\<close>)
qed

end
