(* ===== verification/Heap_Alloc.thy ===== *)
theory Heap_Alloc
  imports Heap_Inv
begin

text \<open>
  The heap's interface: what allocation, aligned allocation, array allocation and the two
  ways to free do to a well-formed heap, and runs of clients that free only what they got.
\<close>

section \<open>Freeing a used block\<close>

lemma zero_data_rep [simp]:
  "heap_rep (zero_data h x n) ps fl ul = heap_rep h ps fl ul"
  "hp_block (zero_data h x n) = hp_block h" "hp_size (zero_data h x n) = hp_size h"
  "hp_memory (zero_data h x n) = hp_memory h"
  by (simp_all add: zero_data_def heap_rep_data)

text \<open>
  The used list loses exactly the freed block, every other used block keeps its place and
  size, and secure freeing zeroes the block's bytes and no others.
\<close>

lemma HeappFree_rep:
  assumes rep: "heap_rep h ps fl ul" and x: "x \<in> set ul"
  shows "\<exists>ps' fl'. heap_rep (HeappFree h x secure) ps' fl' (remove1 x ul)"
    "z \<in> set (remove1 x ul) \<Longrightarrow> hb_size (hp_block (HeappFree h x secure) z) = hb_size (hp_block h z)"
    "hp_size (HeappFree h x secure) = hp_size h" "hp_memory (HeappFree h x secure) = hp_memory h"
    "hp_data (HeappFree h x secure) = (\<lambda>i. if secure \<and> x \<le> i \<and> i < x + hb_size (hp_block h x) then 0 else hp_data h i)"
proof -
  note R = heap_repD [OF rep]
  have xu: "x \<in> set ps" "hb_state (hp_block h x) = HEAP_BLOCK_USED" using R(4) x by auto
  then obtain as bs where ps: "ps = as @ x # bs" by (meson split_list)
  note rep' = rep [unfolded ps] and c = HeappFree_cases [OF rep [unfolded ps] xu(2), of secure]
  obtain pf qf where nf: "neighbours_free h as bs = (pf, qf)" by fastforce
  have w: "as = butlast as @ [last as]" if pf using that nf by (simp add: neighbours_free_def)
  have y: "bs = hd bs # tl bs" if qf using that nf by (simp add: neighbours_free_def)
  have wf: "is_free (hp_block h) (last as)" "last as \<in> set as" if pf using that nf by (auto simp: neighbours_free_def)
  have yf: "is_free (hp_block h) (hd bs)" if qf using that nf by (auto simp: neighbours_free_def)
  have fin: "(\<exists>ps' fl'. heap_rep (HeappFree h x secure) ps' fl' (remove1 x ul)) \<and>
    (z \<in> set (remove1 x ul) \<longrightarrow> hb_size (hp_block (HeappFree h x secure) z) = hb_size (hp_block h z)) \<and>
    hp_size (HeappFree h x secure) = hp_size h \<and> hp_memory (HeappFree h x secure) = hp_memory h \<and>
    hp_data (HeappFree h x secure) = (\<lambda>i. if secure \<and> x \<le> i \<and> i < x + hb_size (hp_block h x) then 0 else hp_data h i)"
    if e: "HeappFree h x secure = (if secure then zero_data g' x (hb_size (hp_block h x)) else g')"
      and r: "\<exists>ps' fl'. heap_rep g' ps' fl' (remove1 x ul)"
      and s: "\<And>z. \<not> is_free (hp_block h) z \<Longrightarrow> z \<noteq> x \<Longrightarrow> hb_size (hp_block g' z) = hb_size (hp_block h z)"
      and "hp_size g' = hp_size h" "hp_memory g' = hp_memory h" "hp_data g' = hp_data h" for g'
  proof -
    have "hb_size (hp_block g' z) = hb_size (hp_block h z)" if "z \<in> set (remove1 x ul)"
    proof -
      have "z \<in> set ul" "z \<noteq> x" using that rep_set_lists(5) [OF rep] by auto
      then show ?thesis using s [of z] R(4) [of z] by simp
    qed
    then show ?thesis using e r that(4-6) by (auto simp: zero_data_def fun_eq_iff heap_rep_data)
  qed
  have "(\<exists>ps' fl'. heap_rep (HeappFree h x secure) ps' fl' (remove1 x ul)) \<and>
    (z \<in> set (remove1 x ul) \<longrightarrow> hb_size (hp_block (HeappFree h x secure) z) = hb_size (hp_block h z)) \<and>
    hp_size (HeappFree h x secure) = hp_size h \<and> hp_memory (HeappFree h x secure) = hp_memory h \<and>
    hp_data (HeappFree h x secure) = (\<lambda>i. if secure \<and> x \<le> i \<and> i < x + hb_size (hp_block h x) then 0 else hp_data h i)"
  proof (cases pf; cases qf)
    assume "pf" "qf"
    then have n: "neighbours_free h as bs = (True, True)" using nf by simp
    have rw: "heap_rep h (butlast as @ last as # x # hd bs # tl bs) fl ul"
      using rep' w [OF \<open>pf\<close>] y [OF \<open>qf\<close>] by (metis append_Cons append_Nil append_assoc)
    have nw: "neighbours_free h (butlast as @ [last as]) (hd bs # tl bs) = (True, True)"
      using n w [OF \<open>pf\<close>] y [OF \<open>qf\<close>] by simp
    show ?thesis
    proof (rule fin [OF c [unfolded n Let_def prod.case bool.case]], goal_cases)
      case 1 show ?case using free_rep_TT [OF rw xu(2) nw] by blast
    next
      case (2 z) then show ?case using wf [OF \<open>pf\<close>] yf [OF \<open>qf\<close>] by auto
    qed simp_all
  next
    assume "pf" "\<not> qf"
    then have n: "neighbours_free h as bs = (True, False)" using nf by simp
    have rw: "heap_rep h (butlast as @ last as # x # bs) fl ul"
      using rep' w [OF \<open>pf\<close>] by (metis append_Cons append_Nil append_assoc)
    have nw: "neighbours_free h (butlast as @ [last as]) bs = (True, False)" using n w [OF \<open>pf\<close>] by simp
    show ?thesis
    proof (rule fin [OF c [unfolded n Let_def prod.case bool.case]], goal_cases)
      case 1 show ?case using free_rep_TF [OF rw xu(2) nw] by blast
    next
      case (2 z) then show ?case using wf [OF \<open>pf\<close>] by auto
    qed simp_all
  next
    assume "\<not> pf" "qf"
    then have n: "neighbours_free h as bs = (False, True)" using nf by simp
    have rw: "heap_rep h (as @ x # hd bs # tl bs) fl ul" using rep' y [OF \<open>qf\<close>] by simp
    have nw: "neighbours_free h as (hd bs # tl bs) = (False, True)" using n y [OF \<open>qf\<close>] by simp
    show ?thesis
    proof (rule fin [OF c [unfolded n Let_def prod.case bool.case]], goal_cases)
      case 1 show ?case using free_rep_FT [OF rw xu(2) nw] by blast
    next
      case (2 z) then show ?case using yf [OF \<open>qf\<close>] by auto
    qed simp_all
  next
    assume "\<not> pf" "\<not> qf"
    then have n: "neighbours_free h as bs = (False, False)" using nf by simp
    show ?thesis
    proof (rule fin [OF c [unfolded n Let_def prod.case bool.case]], goal_cases)
      case 1 show ?case using free_rep_FF [OF rep' xu(2) n] by blast
    qed simp_all
  qed
  then show "\<exists>ps' fl'. heap_rep (HeappFree h x secure) ps' fl' (remove1 x ul)"
    "z \<in> set (remove1 x ul) \<Longrightarrow> hb_size (hp_block (HeappFree h x secure) z) = hb_size (hp_block h z)"
    "hp_size (HeappFree h x secure) = hp_size h" "hp_memory (HeappFree h x secure) = hp_memory h"
    "hp_data (HeappFree h x secure) = (\<lambda>i. if secure \<and> x \<le> i \<and> i < x + hb_size (hp_block h x) then 0 else hp_data h i)"
    by blast+
qed

section \<open>Searching the lists\<close>

lemma alloc_search_find:
  "vlist B p xs h0 \<Longrightarrow> alloc_search B n h0 = Some (case find (\<lambda>x. n \<le> hb_size (B x)) xs of None \<Rightarrow> 0 | Some x \<Rightarrow> x)"
proof (induction xs arbitrary: p h0)
  case Nil then show ?case by (simp add: alloc_search.simps)
next
  case (Cons x xs)
  then have v: "h0 = x" "x \<noteq> 0" "vlist B x xs (hb_vnext (B x))" by simp_all
  show ?case using Cons.IH [OF v(3)] v(1,2) by (subst alloc_search.simps) simp
qed

lemma aligned_search_find:
  "vlist B p xs h0 \<Longrightarrow> aligned_search B n al h0 =
     Some (case find (\<lambda>x. aligned_offset B n al x \<noteq> None) xs of None \<Rightarrow> 0 | Some x \<Rightarrow> x)"
proof (induction xs arbitrary: p h0)
  case Nil then show ?case by (simp add: aligned_search.simps)
next
  case (Cons x xs)
  then have v: "h0 = x" "x \<noteq> 0" "vlist B x xs (hb_vnext (B x))" by simp_all
  show ?case using Cons.IH [OF v(3)] v(1,2) by (subst aligned_search.simps) simp
qed

lemma used_search_find:
  "vlist B p xs h0 \<Longrightarrow> used_search B c h0 =
     Some (case find (\<lambda>x. x \<le> c \<and> c < x + hb_size (B x)) xs of None \<Rightarrow> 0 | Some x \<Rightarrow> x)"
proof (induction xs arbitrary: p h0)
  case Nil then show ?case by (simp add: used_search.simps)
next
  case (Cons x xs)
  then have v: "h0 = x" "x \<noteq> 0" "vlist B x xs (hb_vnext (B x))" by simp_all
  show ?case using Cons.IH [OF v(3)] v(1,2) by (subst used_search.simps) simp
qed

section \<open>Allocation\<close>

text \<open>
  \<open>grown h h' ul\<close>: the blocks \<open>ul\<close> keep at least their sizes, the bytes and the region
  stay.
\<close>

definition grown :: "heap \<Rightarrow> heap \<Rightarrow> nat list \<Rightarrow> bool" where
  "grown h h' ul \<longleftrightarrow> (\<forall>z \<in> set ul. hb_size (hp_block h z) \<le> hb_size (hp_block h' z)) \<and>
     hp_data h' = hp_data h \<and> hp_size h' = hp_size h \<and> hp_memory h' = hp_memory h"

lemma HeappSplit_size:
  assumes "n \<le> hb_size (hp_block h x)"
  shows "n \<le> hb_size (hp_block (HeappSplit h x n) x)" "hb_size (hp_block (HeappSplit h x n) x) < n + 40"
  using assms by (cases "splits h x n";
    auto simp: HeappSplit_fields HeappSplit_fields_whole splits_def MINIMAL_FREE_BLOCK_SIZE_def)+

lemma HeapAlloc_rep:
  assumes rep: "heap_rep h ps fl ul" and n: "0 < n"
  shows "\<exists>r h'. HeapAlloc h n = Some (r, h') \<and>
    (case r of
       None \<Rightarrow> heap_rep h' ps fl ul \<and> hp_block h' = hp_block h \<and> (\<forall>x \<in> set fl. hb_size (hp_block h x) < n)
     | Some p \<Rightarrow> \<exists>x ps' fl'. p = hp_memory h + x \<and> x \<in> set fl \<and> heap_rep h' ps' fl' (x # ul) \<and>
         n \<le> hb_size (hp_block h' x) \<and> hb_size (hp_block h' x) < n + 40 \<and>
         (\<forall>z \<in> set ul. hb_size (hp_block h' z) = hb_size (hp_block h z))) \<and> grown h h' ul"
proof -
  note R = heap_repD [OF rep]
  have v: "vlist (hp_block h) 0 fl (hp_freeList h)" using R(2) by (simp add: virt_def)
  note S = alloc_search_find [OF v, of n]
  show ?thesis
  proof (cases "find (\<lambda>x. n \<le> hb_size (hp_block h x)) fl")
    case None
    then have "\<forall>x \<in> set fl. hb_size (hp_block h x) < n" by (auto simp: find_None_iff)
    then show ?thesis using S None n rep by (simp add: HeapAlloc_def heap_rep_lock grown_def)
  next
    case (Some x)
    then have x: "x \<in> set fl" "n \<le> hb_size (hp_block h x)" by (auto simp: find_Some_iff)
    then have xp: "x \<in> set ps" "is_free (hp_block h) x" "x \<noteq> 0"
      using R(3) block_bounds(1) [OF rep, of x] by auto
    then obtain as bs where ps: "ps = as @ x # bs" by (meson split_list)
    let ?h = "(HeappSplit h x n)\<lparr>hp_lock := False\<rparr>"
    have "HeapAlloc h n = Some (Some (hp_memory h + x), ?h)"
      using S Some n xp(3) by (simp add: HeapAlloc_def)
    moreover have "\<exists>ps' fl'. heap_rep ?h ps' fl' (x # ul)"
      using HeappSplit_rep [OF rep [unfolded ps] xp(2) n x(2)] by (auto simp: heap_rep_lock)
    moreover have "hb_size (hp_block ?h z) = hb_size (hp_block h z)" if "z \<in> set ul" for z
    proof -
      have "z \<in> set ps" "z \<noteq> x" using R(4) [of z] that xp(2) by auto
      then show ?thesis using HeappSplit_other(2) [OF heap_rep_lay [OF rep, unfolded ps], of z] ps by simp
    qed
    ultimately show ?thesis using HeappSplit_size [OF x(2)] x(1) by (auto simp: grown_def)
  qed
qed

section \<open>Aligned allocation\<close>

lemma align_gap_spec:
  "alignment \<noteq> 0 \<Longrightarrow> gap < 40 + alignment \<Longrightarrow> gap \<le> aligned \<Longrightarrow> aligned - gap + 40 + alignment < 2 ^ 32 \<Longrightarrow>
     \<exists>k. align_gap alignment gap aligned = (gap + k * alignment, aligned + k * alignment) \<and>
       40 \<le> gap + k * alignment \<and> gap + k * alignment < 40 + alignment"
proof (induction alignment gap aligned rule: align_gap.induct)
  case (1 alignment gap aligned)
  show ?case
  proof (cases "gap < 40")
    case True
    have m: "(aligned + alignment) mod 2 ^ 32 = aligned + alignment" using 1(3-5) True by simp
    have "gap < 24 + MINIMAL_FREE_BLOCK_SIZE \<and> alignment \<noteq> 0" using True 1(2) by (simp add: MINIMAL_FREE_BLOCK_SIZE_def)
    from 1(1) [OF this, unfolded m] obtain k where k:
      "align_gap alignment (gap + alignment) (aligned + alignment) =
         (gap + alignment + k * alignment, aligned + alignment + k * alignment)"
      "40 \<le> gap + alignment + k * alignment" "gap + alignment + k * alignment < 40 + alignment"
      using 1(2-5) True by fastforce
    have "align_gap alignment gap aligned = align_gap alignment (gap + alignment) (aligned + alignment)"
      using True 1(2) m by (subst align_gap.simps) (simp add: MINIMAL_FREE_BLOCK_SIZE_def)
    then show ?thesis using k by (intro exI [of _ "Suc k"]) (simp add: algebra_simps)
  next
    case False
    then show ?thesis
      using 1(3) by (intro exI [of _ 0]) (subst align_gap.simps, simp add: MINIMAL_FREE_BLOCK_SIZE_def)
  qed
qed

text \<open>
  The offset chosen in a block is a multiple of the alignment strictly beyond the block's
  own offset, even when that one is aligned, and leaves room for the request.
\<close>

lemma aligned_offset_spec:
  assumes o: "aligned_offset B n al x = Some a" and al: "0 < al" "al \<le> 4096"
    and x: "x + hb_size (B x) < 2 ^ 31"
  shows "x < a" "al dvd a" "a - x + n \<le> hb_size (B x)" "hb_pprev (B x) = 0 \<Longrightarrow> 40 \<le> a - x"
proof -
  define c where "c = (x div al + 1) * al"
  have "x < c" using al(1) by (metis c_def add.commute dividend_less_times_div mult.commute mult_Suc_right Suc_eq_plus1)
  moreover have "c \<le> x + al" using div_times_less_eq_dividend [of x al] by (simp add: c_def)
  ultimately have c: "x < c" "c \<le> x + al" "al dvd c" by (auto simp: c_def)
  have n: "n \<le> hb_size (B x)" using o by (auto simp: aligned_offset_def split: if_splits)
  have m: "c mod 2 ^ 32 = c" "(c + 2 ^ 32 - x) mod 2 ^ 32 = c - x"
    using c al(2) x by (auto simp: mod_if)
  define g where "g = (if hb_pprev (B x) = 0 then align_gap al (c - x) c else (c - x, c))"
  have "\<exists>k. g = (c - x + k * al, c + k * al) \<and> (hb_pprev (B x) = 0 \<longrightarrow> 40 \<le> c - x + k * al) \<and>
      c - x + k * al < 40 + al"
  proof (cases "hb_pprev (B x) = 0")
    case True
    have "c - x < 40 + al" "c - (c - x) + 40 + al < 2 ^ 32" using c al x by auto
    from align_gap_spec [OF _ this(1) _ this(2)] True al(1) show ?thesis by (simp add: g_def) 
  next
    case False
    then show ?thesis using c by (intro exI [of _ 0]) (simp add: g_def)
  qed
  then obtain k where "g = (c - x + k * al, c + k * al) \<and> (hb_pprev (B x) = 0 \<longrightarrow> 40 \<le> c - x + k * al) \<and>
      c - x + k * al < 40 + al" ..
  then have k: "g = (c - x + k * al, c + k * al)" "hb_pprev (B x) = 0 \<longrightarrow> 40 \<le> c - x + k * al"
    "c - x + k * al < 40 + al" by simp_all
  have "aligned_offset B n al x =
      (if c = x then Some x else case g of (gap, aligned) \<Rightarrow> if (gap + n) mod 2 ^ 32 \<le> hb_size (B x) then Some aligned else None)"
    unfolding aligned_offset_def c_def [symmetric] Let_def m g_def [symmetric] using n by simp
  then have a: "a = c + k * al" "(c - x + k * al + n) mod 2 ^ 32 \<le> hb_size (B x)"
    using k(1) o c(1) by (auto split: if_splits)
  show "x < a" "al dvd a" using a(1) c by simp_all
  show "hb_pprev (B x) = 0 \<Longrightarrow> 40 \<le> a - x" using k(2) a(1) c(1) by simp
  have "(c - x + k * al + n) mod 2 ^ 32 = c - x + k * al + n" using k(3) n al(2) x by simp
  then show "a - x + n \<le> hb_size (B x)" using a c(1) by simp
qed

section \<open>Aligning a block\<close>

lemma HeappAlign_sel [simp]:
  "hp_size (HeappAlign h x a) = hp_size h" "hp_memory (HeappAlign h x a) = hp_memory h"
  "hp_data (HeappAlign h x a) = hp_data h"
  by (simp_all add: HeappAlign_def Let_def)

lemma within_block_fresh:
  assumes lay: "heap_lay h (as @ x # bs) fl ul" and a: "x < a" "a < x + hb_size (hp_block h x) + 24"
  shows "a \<notin> set (as @ x # bs)"
proof
  assume "a \<in> set (as @ x # bs)"
  then show False
    using seg_apart [OF heap_layD(1) [OF lay], of x a] a by simp
qed

text \<open>A gap of at least 40 bytes becomes a free block of its own.\<close>

lemma HeappAlign_big:
  assumes lay: "heap_lay h (as @ x # bs) fl ul" and x: "is_free (hp_block h) x"
    and a: "x + 40 \<le> a" "a - x < hb_size (hp_block h x)"
  shows "heap_lay (HeappAlign h x a) (as @ x # a # bs) (a # fl) ul"
    "hb_size (hp_block (HeappAlign h x a) a) = hb_size (hp_block h x) - (a - x)"
    "is_free (hp_block (HeappAlign h x a)) a"
    "z \<in> set (as @ x # bs) \<Longrightarrow> hb_state (hp_block (HeappAlign h x a) z) = hb_state (hp_block h z)"
    "z \<in> set (as @ bs) \<Longrightarrow> hb_size (hp_block (HeappAlign h x a) z) = hb_size (hp_block h z)"
proof -
  let ?B = "hp_block h" and ?h = "HeappAlign h x a" and ?N = "hp_size h"
  note R = heap_layD [OF lay]
  have fresh: "a \<notin> set (as @ x # bs)" using within_block_fresh [OF lay, of a] a by simp
  then have ax: "a \<noteq> x" "a \<notin> set fl" "a \<notin> set ul" using R(3,4) by auto
  define g where "g = link_free (set_block h a (\<lambda>n. n\<lparr>hb_state := HEAP_BLOCK_FREE, hb_size := hb_size (?B x) - (a - x),
      hb_pprev := x, hb_pnext := hb_pnext (?B x)\<rparr>)) a"
  have "24 + MINIMAL_FREE_BLOCK_SIZE \<le> a - x" using a(1) by (simp add: MINIMAL_FREE_BLOCK_SIZE_def)
  then have eq: "?h = set_block (set_block (if hb_pnext (?B x) \<noteq> 0
      then set_block g (hb_pnext (?B x)) (hb_pprev_update (\<lambda>_. a)) else g) x (hb_pnext_update (\<lambda>_. a))) x
      (hb_size_update (\<lambda>_. a - x - 24))"
    using ax(1) by (simp add: HeappAlign_def Let_def g_def)
  have F: "hb_state (hp_block ?h z) = (if z = a then HEAP_BLOCK_FREE else hb_state (?B z))"
    "hb_size (hp_block ?h z) = (if z = x then a - x - 24 else if z = a then hb_size (?B x) - (a - x) else hb_size (?B z))"
    "hb_pnext (hp_block ?h z) = (if z = x then a else if z = a then hb_pnext (?B x) else hb_pnext (?B z))"
    "hb_pprev (hp_block ?h z) = (if hb_pnext (?B x) \<noteq> 0 \<and> z = hb_pnext (?B x) then a else if z = a then x else hb_pprev (?B z))"
    for z using ax(1) by (auto simp: eq g_def)
  show "hb_size (hp_block ?h a) = hb_size (?B x) - (a - x)" "is_free (hp_block ?h) a"
    using ax(1) by (simp_all add: F)
  show st: "hb_state (hp_block ?h z) = hb_state (?B z)" if "z \<in> set (as @ x # bs)" for z
    using that fresh by (auto simp: F)
  show "hb_size (hp_block ?h z) = hb_size (?B z)" if "z \<in> set (as @ bs)"
    using that fresh R(6) by (auto simp: F)
  have "virt g (a # fl) ul" unfolding g_def using ax a(1) by (intro virt_link_free virt_set_block R(2)) auto
  then have V: "virt ?h (a # fl) ul"
    by (auto simp: eq intro!: virt_set_block)
  have nx: "hb_pnext (?B x) = (case bs of [] \<Rightarrow> 0 | b # _ \<Rightarrow> b)" "bs = [] \<longleftrightarrow> x + hb_size (?B x) = ?N"
    "hb_pnext (?B x) = pnx ?N (x + hb_size (?B x))"
    using seg_pnext [OF R(1)] R(1) by (auto simp: seg_append)
  have na: "z \<noteq> hb_pnext (?B x)" if "z \<in> set (as @ [x])" for z
    using that R(6) lay_bounds(1) [OF lay, of z] by (auto simp: nx(1) split: list.splits)
  have nb: "hb_pnext (?B x) \<noteq> 0 \<and> z = hb_pnext (?B x) \<longleftrightarrow> z = x + hb_size (?B x) + 24" if "z \<in> set bs" for z
    using that nx(2) lay_bounds(1) [OF lay, of z] by (auto simp: nx(3) pnx_def)
  have S: "seg ?N (hp_block ?h) 0 (as @ x # a # bs) 24 (?N + 24)"
  proof (rule seg_insert [OF R(1), where n = "a - x - 24" and m = "hb_size (?B x) - (a - x)"])
    show "hb_pprev (hp_block ?h a) = x" "hb_pprev (hp_block ?h x) = hb_pprev (?B x)"
      using fresh na [of x] nx(1) ax(1) by (auto simp: F split: list.splits)
    show "hb_size (hp_block ?h z) = hb_size (?B z) \<and> hb_pnext (hp_block ?h z) = hb_pnext (?B z) \<and>
      hb_pprev (hp_block ?h z) = hb_pprev (?B z)" if "z \<in> set as" for z
      using that R(6) fresh na [of z] by (auto simp: F)
    show "hb_size (hp_block ?h z) = hb_size (?B z) \<and> hb_pnext (hp_block ?h z) = hb_pnext (?B z) \<and>
      hb_pprev (hp_block ?h z) = (if z = x + hb_size (?B x) + 24 then a else hb_pprev (?B z))" if "z \<in> set bs" for z
      using that R(6) fresh unfolding F nb [OF that] by auto
  qed (use a ax in \<open>auto simp: F\<close>)
  show "heap_lay ?h (as @ x # a # bs) (a # fl) ul"
  proof (rule heap_layI)
    show "seg (hp_size ?h) (hp_block ?h) 0 (as @ x # a # bs) 24 (hp_size ?h + 24)" using S by simp
    show "virt ?h (a # fl) ul" by (rule V)
    show "z \<in> set (a # fl) \<longleftrightarrow> z \<in> set (as @ x # a # bs) \<and> is_free (hp_block ?h) z" for z
      using R(3) [of z] by (auto simp: F)
    show "z \<in> set ul \<longleftrightarrow> z \<in> set (as @ x # a # bs) \<and> hb_state (hp_block ?h z) = HEAP_BLOCK_USED" for z
      using R(4) [of z] ax(3) by (auto simp: F)
    show "is_free (hp_block ?h) z \<or> hb_state (hp_block ?h z) = HEAP_BLOCK_USED" if "z \<in> set (as @ x # a # bs)" for z
      using R(5) [of z] that by (auto simp: F)
  qed
qed

text \<open>A smaller gap is given to the block before, and the free block moves up.\<close>

lemma HeappAlign_small:
  assumes lay: "heap_lay h (as @ w # x # bs) fl ul" and x: "is_free (hp_block h) x"
    and a: "x < a" "a < x + 40" "a - x < hb_size (hp_block h x)"
  shows "heap_lay (HeappAlign h x a) (as @ w # a # bs) (a # remove1 x fl) ul"
    "hb_size (hp_block (HeappAlign h x a) a) = hb_size (hp_block h x) - (a - x)"
    "is_free (hp_block (HeappAlign h x a)) a"
    "z \<in> set (as @ w # bs) \<Longrightarrow> hb_state (hp_block (HeappAlign h x a) z) = hb_state (hp_block h z)"
    "z \<in> set (as @ w # bs) \<Longrightarrow> hb_size (hp_block h z) \<le> hb_size (hp_block (HeappAlign h x a) z)"
proof -
  let ?B = "hp_block h" and ?h = "HeappAlign h x a" and ?N = "hp_size h"
  define gap where "gap = a - x"
  have gap: "a = x + gap" "gap < hb_size (?B x)" using a by (simp_all add: gap_def)
  have lay1: "heap_lay h ((as @ [w]) @ x # bs) fl ul" using lay by simp
  note R = heap_layD [OF lay]
  have fresh: "a \<notin> set (as @ w # x # bs)" using within_block_fresh [OF lay1, of a] a by simp
  have d: "w \<notin> set as" "x \<notin> set as" "w \<noteq> x" "w \<notin> set bs" "x \<notin> set bs" using R(6) by auto
  have ax: "a \<noteq> x" "a \<noteq> w" "a \<notin> set fl" "a \<notin> set ul" using fresh R(3,4) by auto
  have xf: "x \<in> set fl" using R(3) x by simp
  have pw: "hb_pprev (?B x) = w" using R(1) by (simp add: seg_append) 
  have nx: "hb_pnext (?B x) = (case bs of [] \<Rightarrow> 0 | b # _ \<Rightarrow> b)" "bs = [] \<longleftrightarrow> x + hb_size (?B x) = ?N"
    "hb_pnext (?B x) = pnx ?N (x + hb_size (?B x))"
    using seg_pnext [OF heap_layD(1) [OF lay1]] R(1) by (auto simp: seg_append)
  have nb: "hb_pnext (?B x) \<noteq> 0 \<and> z = hb_pnext (?B x) \<longleftrightarrow> z \<in> set bs \<and> z = x + hb_size (?B x) + 24"
    if "z \<in> set (as @ w # x # bs)" for z
    using that nx lay_bounds(1) [OF lay, of z] R(6) by (cases bs) (auto simp: pnx_def)
  have nne: "hb_pnext (?B x) \<noteq> a" "hb_pnext (?B x) \<noteq> x" "hb_pnext (?B x) \<noteq> w"
    using nx(1) fresh d lay_bounds(1) [OF lay, of x] lay_bounds(1) [OF lay, of w] a(1) by (auto split: list.splits)
  define g1 where "g1 = (if hb_pnext (?B x) \<noteq> 0 then set_block h (hb_pnext (?B x)) (hb_pprev_update (\<lambda>_. a)) else h)"
  define g2 where "g2 = unlink_free (set_block g1 w (hb_pnext_update (\<lambda>_. a))) x"
  define g3 where "g3 = set_block (set_block (set_block g2 a (\<lambda>_. hp_block g2 x)) w (\<lambda>p. p\<lparr>hb_size := hb_size p + gap\<rparr>))
      a (\<lambda>n. n\<lparr>hb_size := hb_size n - gap\<rparr>)"
  have g1x: "hb_pprev (hp_block g1 x) = w" using pw nne by (simp add: g1_def)
  have g2x: "hb_pprev (hp_block g2 x) = w" using g1x d by (simp add: g2_def)
  have small: "\<not> 24 + MINIMAL_FREE_BLOCK_SIZE \<le> gap" using a(1,2) by (simp add: MINIMAL_FREE_BLOCK_SIZE_def gap_def)
  have eq: "?h = link_free g3 a"
    unfolding HeappAlign_def Let_def gap_def [symmetric] if_not_P [OF small] g1_def [symmetric] g1x
      g2_def [symmetric]
    using g2x ax by (simp add: g3_def)
  have F: "hb_state (hp_block ?h z) = (if z = a then HEAP_BLOCK_FREE else hb_state (?B z))"
    "hb_size (hp_block ?h z) = (if z = a then hb_size (?B x) - gap else if z = w then hb_size (?B w) + gap else hb_size (?B z))"
    "hb_pnext (hp_block ?h z) = (if z = a then hb_pnext (?B x) else if z = w then a else hb_pnext (?B z))"
    "hb_pprev (hp_block ?h z) = (if z = a then w else if hb_pnext (?B x) \<noteq> 0 \<and> z = hb_pnext (?B x) then a else hb_pprev (?B z))"
    for z using ax d(3) nne pw x by (auto simp: eq g3_def g2_def g1_def)
  show "hb_size (hp_block ?h a) = hb_size (?B x) - (a - x)" "is_free (hp_block ?h) a"
    by (simp_all add: F gap_def)
  show "hb_state (hp_block ?h z) = hb_state (?B z)" if "z \<in> set (as @ w # bs)" using that fresh by (auto simp: F)
  show "hb_size (?B z) \<le> hb_size (hp_block ?h z)" if "z \<in> set (as @ w # bs)" using that fresh by (auto simp: F)
  have dfl: "distinct fl" using R(2) by (simp add: virt_def)
  have "virt g1 fl ul" unfolding g1_def using R(2) by (auto intro!: virt_set_block)
  then have "virt g2 (remove1 x fl) ul"
    unfolding g2_def by (intro virt_unlink_free virt_set_block xf) simp_all
  moreover have "a \<notin> set (remove1 x fl)" using ax(3) by (meson notin_set_remove1)
  ultimately have "virt g3 (remove1 x fl) ul" unfolding g3_def using ax by (intro virt_set_block) simp_all
  then have V: "virt ?h (a # remove1 x fl) ul"
    unfolding eq using ax a(1) \<open>a \<notin> set (remove1 x fl)\<close> by (intro virt_link_free) simp_all
  have S: "seg ?N (hp_block ?h) 0 (as @ w # a # bs) 24 (?N + 24)"
  proof (rule seg_shift [OF R(1) gap])
    show "hb_size (hp_block ?h w) = hb_size (?B w) + gap" "hb_pnext (hp_block ?h w) = a"
      "hb_pprev (hp_block ?h w) = hb_pprev (?B w)" "hb_size (hp_block ?h a) = hb_size (?B x) - gap"
      "hb_pprev (hp_block ?h a) = w" "hb_pnext (hp_block ?h a) = hb_pnext (?B x)"
      using ax(2) nne by (auto simp: F)
    show "hb_size (hp_block ?h z) = hb_size (?B z) \<and> hb_pnext (hp_block ?h z) = hb_pnext (?B z) \<and>
      hb_pprev (hp_block ?h z) = hb_pprev (?B z)" if "z \<in> set as" for z
    proof -
      have "z \<noteq> a" "z \<noteq> w" "z \<notin> set bs" using that R(6) fresh by auto
      then show ?thesis using nb [of z] that by (auto simp: F)
    qed
    show "hb_size (hp_block ?h z) = hb_size (?B z) \<and> hb_pnext (hp_block ?h z) = hb_pnext (?B z) \<and>
      hb_pprev (hp_block ?h z) = (if z = x + hb_size (?B x) + 24 then a else hb_pprev (?B z))" if "z \<in> set bs" for z
    proof -
      have "z \<noteq> a" "z \<noteq> w" using that d fresh by auto
      then show ?thesis using nb [of z] that by (auto simp: F)
    qed
  qed
  show "heap_lay ?h (as @ w # a # bs) (a # remove1 x fl) ul"
  proof (rule heap_layI)
    show "seg (hp_size ?h) (hp_block ?h) 0 (as @ w # a # bs) 24 (hp_size ?h + 24)" using S by simp
    show "virt ?h (a # remove1 x fl) ul" by (rule V)
    show "z \<in> set (a # remove1 x fl) \<longleftrightarrow> z \<in> set (as @ w # a # bs) \<and> is_free (hp_block ?h) z" for z
      using R(3) [of z] dfl d by (auto simp: F set_remove1_eq)
    show "z \<in> set ul \<longleftrightarrow> z \<in> set (as @ w # a # bs) \<and> hb_state (hp_block ?h z) = HEAP_BLOCK_USED" for z
      using R(4) [of z] ax(4) x by (auto simp: F)
    show "is_free (hp_block ?h) z \<or> hb_state (hp_block ?h z) = HEAP_BLOCK_USED" if "z \<in> set (as @ w # a # bs)" for z
      using R(5) [of z] that by (auto simp: F)
  qed
qed

text \<open>Aligning and splitting together keep the invariant.\<close>

lemma align_split_rep:
  assumes rep: "heap_rep h ps fl ul" and x: "x \<in> set fl"
    and a: "x < a" "a - x + n \<le> hb_size (hp_block h x)" "hb_pprev (hp_block h x) = 0 \<Longrightarrow> 40 \<le> a - x"
    and n: "0 < n"
  shows "\<exists>ps' fl'. heap_rep (HeappSplit (HeappAlign h x a) a n) ps' fl' (a # ul)"
    "n \<le> hb_size (hp_block (HeappSplit (HeappAlign h x a) a n) a)"
    "z \<in> set ul \<Longrightarrow> hb_size (hp_block h z) \<le> hb_size (hp_block (HeappSplit (HeappAlign h x a) a n) z)"
proof -
  let ?A = "HeappAlign h x a"
  let ?H = "HeappSplit ?A a n"
  note R = heap_repD [OF rep] and lay = heap_rep_lay [OF rep]
  have xp: "x \<in> set ps" "is_free (hp_block h) x" using R(3) x by auto
  then obtain as bs where ps: "ps = as @ x # bs" by (meson split_list)
  have c: "coalesced (hp_block h) as" "coalesced (hp_block h) bs" "bs = [] \<or> \<not> is_free (hp_block h) (hd bs)"
    "as = [] \<or> \<not> is_free (hp_block h) (last as)"
    using R(6) xp(2) by (simp_all add: ps coalesced_append)
  have ul: "z \<in> set (as @ bs)" "\<not> is_free (hp_block h) z" if "z \<in> set ul" for z
    using R(4) [of z] that xp(2) by (auto simp: ps)
  have fin: "(\<exists>ps' fl'. heap_rep ?H ps' fl' (a # ul)) \<and> n \<le> hb_size (hp_block ?H a) \<and>
      (\<forall>z \<in> set ul. hb_size (hp_block h z) \<le> hb_size (hp_block ?H z))"
    if L: "heap_lay ?A (as' @ a # bs) fl' ul" and s: "hb_size (hp_block ?A a) = hb_size (hp_block h x) - (a - x)"
      "is_free (hp_block ?A) a" and k: "coalesced (hp_block ?A) as'" "coalesced (hp_block ?A) bs"
      "bs = [] \<or> \<not> is_free (hp_block ?A) (hd bs)"
      and g: "\<And>z. z \<in> set ul \<Longrightarrow> hb_size (hp_block h z) \<le> hb_size (hp_block ?A z)" for as' fl'
  proof -
    have na: "n \<le> hb_size (hp_block ?A a)" using a(2) s(1) by simp
    note H = HeappSplit_lay [OF L s(2) n na] HeappSplit_coalesced [OF L k]
    have "\<exists>ps' fl'. heap_rep ?H ps' fl' (a # ul)" unfolding heap_rep_def using H by blast
    moreover have "hb_size (hp_block h z) \<le> hb_size (hp_block ?H z)" if z: "z \<in> set ul" for z
    proof -
      have "z \<in> set (as' @ a # bs)" "z \<noteq> a" using heap_layD(4) [OF L, of z] z s(2) by auto
      then show ?thesis using HeappSplit_other(2) [OF L, of z] g [OF z] by simp
    qed
    ultimately show ?thesis using HeappSplit_size(1) [OF na] by blast
  qed
  have "(\<exists>ps' fl'. heap_rep ?H ps' fl' (a # ul)) \<and> n \<le> hb_size (hp_block ?H a) \<and>
      (\<forall>z \<in> set ul. hb_size (hp_block h z) \<le> hb_size (hp_block ?H z))"
  proof (cases "x + 40 \<le> a")
    case True
    note B = HeappAlign_big [OF lay [unfolded ps] xp(2) True]
    have sz: "a - x < hb_size (hp_block h x)" using a(2) n by simp
    note B = B [OF sz]
    have L: "heap_lay ?A ((as @ [x]) @ a # bs) (a # fl) ul" using B(1) by simp
    have st: "hb_state (hp_block ?A z) = hb_state (hp_block h z)" if "z \<in> set (as @ x # bs)" for z using B(4) [OF that] .
    have "coalesced (hp_block h) (as @ [x])" using c by (simp add: coalesced_append)
    then have k1: "coalesced (hp_block ?A) (as @ [x])" by (rule coalesced_keep) (use st in auto)
    have k2: "coalesced (hp_block ?A) bs" by (rule coalesced_keep [OF c(2)]) (use st in auto)
    have k3: "bs = [] \<or> \<not> is_free (hp_block ?A) (hd bs)" using c(3) st [of "hd bs"] by (cases bs) auto
    show ?thesis
      by (rule fin [OF L B(2,3) k1 k2 k3]) (use ul B(5) in auto)
  next
    case False
    have "hb_pprev (hp_block h x) \<noteq> 0"
    proof
      assume "hb_pprev (hp_block h x) = 0"
      from a(3) [OF this] show False using False by simp
    qed
    then have "as \<noteq> []" using neighbours(1) [OF rep [unfolded ps]] by auto
    then obtain as' w where as: "as = as' @ [w]" by (metis rev_exhaust)
    have lay': "heap_lay h (as' @ w # x # bs) fl ul" using lay by (simp add: ps as)
    have sz: "a < x + 40" "a - x < hb_size (hp_block h x)" using False a(2) n by simp_all
    note B = HeappAlign_small [OF lay' xp(2) a(1) sz]
    have L: "heap_lay ?A ((as' @ [w]) @ a # bs) (a # remove1 x fl) ul" using B(1) by simp
    have st: "hb_state (hp_block ?A z) = hb_state (hp_block h z)" if "z \<in> set (as' @ w # bs)" for z using B(4) [OF that] .
    have k1: "coalesced (hp_block ?A) (as' @ [w])" by (rule coalesced_keep [OF c(1) [unfolded as]]) (use st in auto)
    have k2: "coalesced (hp_block ?A) bs" by (rule coalesced_keep [OF c(2)]) (use st in auto)
    have k3: "bs = [] \<or> \<not> is_free (hp_block ?A) (hd bs)" using c(3) st [of "hd bs"] by (cases bs) auto
    show ?thesis
      by (rule fin [OF L B(2,3) k1 k2 k3]) (use ul B(5) in \<open>auto simp: as\<close>)
  qed
  then show "\<exists>ps' fl'. heap_rep ?H ps' fl' (a # ul)" "n \<le> hb_size (hp_block ?H a)"
    "z \<in> set ul \<Longrightarrow> hb_size (hp_block h z) \<le> hb_size (hp_block ?H z)" by blast+
qed

end
