(* ===== verification/Allocator.thy ===== *)
theory Allocator
  imports Prelude
begin

text \<open>
  The interface between the heap and its clients: requests that may fail, releases of what
  was handed out, and blocks that never overlap.  Over any sequence of requests and
  releases by a client that releases only live blocks, the locale shows that the allocator
  always answers and keeps its promises.
\<close>

datatype 'q alloc_op = Request 'q | Release nat

text \<open>A client's run: it keeps the set of live pointers and releases nothing else.\<close>

fun alloc_run ::
  "('h \<Rightarrow> 'q \<Rightarrow> (nat option \<times> 'h) option) \<Rightarrow> ('h \<Rightarrow> nat \<Rightarrow> 'h) \<Rightarrow> 'q alloc_op list \<Rightarrow> 'h \<Rightarrow> nat set
     \<Rightarrow> ('h \<times> nat set) option"
where
  "alloc_run request release [] h U = Some (h, U)"
| "alloc_run request release (Request q # ops) h U =
     Option.bind (request h q) (\<lambda>(r, h'). alloc_run request release ops h'
        (case r of None \<Rightarrow> U | Some p \<Rightarrow> insert p U))"
| "alloc_run request release (Release p # ops) h U =
     (if p \<in> U then alloc_run request release ops (release h p) (U - {p})
      else alloc_run request release ops h U)"

fun requests :: "'q alloc_op list \<Rightarrow> 'q set" where
  "requests [] = {}"
| "requests (Request q # ops) = insert q (requests ops)"
| "requests (Release p # ops) = requests ops"

locale allocator =
  fixes inv :: "'h \<Rightarrow> nat set \<Rightarrow> bool"
    and extent :: "'h \<Rightarrow> nat \<Rightarrow> nat"
    and legal :: "'q \<Rightarrow> bool"
    and wants :: "'q \<Rightarrow> nat"
    and request :: "'h \<Rightarrow> 'q \<Rightarrow> (nat option \<times> 'h) option"
    and release :: "'h \<Rightarrow> nat \<Rightarrow> 'h"
  assumes request_ok: "inv h U \<Longrightarrow> legal q \<Longrightarrow> \<exists>r h'. request h q = Some (r, h') \<and>
      (case r of None \<Rightarrow> inv h' U
       | Some p \<Rightarrow> p \<notin> U \<and> inv h' (insert p U) \<and> wants q \<le> extent h' p) \<and>
      (\<forall>p \<in> U. extent h p \<le> extent h' p)"
    and release_ok: "inv h U \<Longrightarrow> p \<in> U \<Longrightarrow>
      inv (release h p) (U - {p}) \<and> (\<forall>p' \<in> U - {p}. extent (release h p) p' = extent h p')"
    and apart: "inv h U \<Longrightarrow> p \<in> U \<Longrightarrow> p' \<in> U \<Longrightarrow> p \<noteq> p' \<Longrightarrow>
      p + extent h p \<le> p' \<or> p' + extent h p' \<le> p"
begin

lemma run_keeps_inv:
  "inv h U \<Longrightarrow> \<forall>q \<in> requests ops. legal q \<Longrightarrow>
     \<exists>h' U'. alloc_run request release ops h U = Some (h', U') \<and> inv h' U'"
proof (induction ops arbitrary: h U)
  case (Cons op ops)
  show ?case
  proof (cases op)
    case (Request q)
    then obtain r h' where r: "request h q = Some (r, h')"
      "inv h' (case r of None \<Rightarrow> U | Some p \<Rightarrow> insert p U)"
      using request_ok [OF Cons.prems(1), of q] Cons.prems(2) by (auto split: option.splits)
    from Cons.IH [OF r(2)] show ?thesis using r(1) Cons.prems(2) Request by simp
  next
    case (Release p)
    then show ?thesis
      using Cons.IH [of "release h p" "U - {p}"] Cons.IH [of h U] release_ok [of h U p] Cons.prems by auto
  qed
qed simp

text \<open>At the end no two live blocks overlap.\<close>

lemma run_apart:
  assumes "inv h U" "\<forall>q \<in> requests ops. legal q" "alloc_run request release ops h U = Some (h', U')"
    "p \<in> U'" "p' \<in> U'" "p \<noteq> p'"
  shows "p + extent h' p \<le> p' \<or> p' + extent h' p' \<le> p"
proof -
  have "inv h' U'" using run_keeps_inv [OF assms(1,2)] assms(3) by auto
  then show ?thesis using apart assms(4-6) by blast
qed

end

end
