(* ===== verification/Heap_Props.thy ===== *)
theory Heap_Props
  imports Heap_Alloc Allocator
begin

text \<open>
  The heap's promises: the operations of \<open>src/mem.c\<close> as an implementation of the
  allocator interface, and the properties of the heap, with the two places where it does
  not protect its clients: array sizes that wrap around and blocks freed twice.
\<close>

section \<open>The heap as an allocator\<close>

text \<open>\<open>U\<close> are the pointers that the client holds.\<close>

definition heap_inv :: "heap \<Rightarrow> nat set \<Rightarrow> bool" where
  "heap_inv h U \<longleftrightarrow> (\<exists>ps fl ul. heap_rep h ps fl ul \<and> U = (\<lambda>x. hp_memory h + x) ` set ul) \<and>
     hp_size h < 2 ^ 31"

definition extent :: "heap \<Rightarrow> nat \<Rightarrow> nat" where
  "extent h p = hb_size (hp_block h (p - hp_memory h))"

datatype heap_req = Plain nat | Aligned nat u32

fun heap_legal :: "heap_req \<Rightarrow> bool" where
  "heap_legal (Plain n) = True"
| "heap_legal (Aligned n al) = (unat al \<le> 4096)"

fun heap_wants :: "heap_req \<Rightarrow> nat" where
  "heap_wants (Plain n) = n"
| "heap_wants (Aligned n al) = n"

fun heap_request :: "heap \<Rightarrow> heap_req \<Rightarrow> (nat option \<times> heap) option" where
  "heap_request h (Plain n) = HeapAlloc h n"
| "heap_request h (Aligned n al) = HeapAllocAligned h n al"

lemma heap_invE:
  assumes "heap_inv h U"
  obtains ps fl ul where "heap_rep h ps fl ul" "U = (\<lambda>x. hp_memory h + x) ` set ul" "hp_size h < 2 ^ 31"
  using assms by (auto simp: heap_inv_def)

lemma heap_invI:
  "heap_rep h ps fl ul \<Longrightarrow> U = (\<lambda>x. hp_memory h + x) ` set ul \<Longrightarrow> hp_size h < 2 ^ 31 \<Longrightarrow> heap_inv h U"
  by (auto simp: heap_inv_def)

lemma extent_offset [simp]: "extent h (hp_memory h + x) = hb_size (hp_block h x)"
  by (simp add: extent_def)

text \<open>
  What one request does: it fails and leaves the heap's blocks alone, or it hands out a new
  block of at least the size asked for; live blocks never shrink, and no byte changes.
\<close>

definition request_result :: "heap \<Rightarrow> nat set \<Rightarrow> nat \<Rightarrow> (nat option \<times> heap) \<Rightarrow> bool" where
  "request_result h U n res \<longleftrightarrow> (case res of (r, h') \<Rightarrow>
     (case r of None \<Rightarrow> heap_inv h' U \<and> hp_block h' = hp_block h
      | Some p \<Rightarrow> p \<notin> U \<and> heap_inv h' (insert p U) \<and> n \<le> extent h' p \<and>
          hp_memory h + 24 \<le> p \<and> p + extent h' p \<le> hp_memory h + hp_size h) \<and>
     (\<forall>p \<in> U. extent h p \<le> extent h' p) \<and>
     hp_data h' = hp_data h \<and> hp_size h' = hp_size h \<and> hp_memory h' = hp_memory h)"

lemma request_result_same: "heap_inv h U \<Longrightarrow> request_result h U n (None, h)"
  by (simp add: request_result_def)

lemma alloc_heap_inv:
  assumes i: "heap_inv h U"
  shows "\<exists>r h'. HeapAlloc h n = Some (r, h') \<and> request_result h U n (r, h')"
proof (cases "n = 0")
  case True
  then show ?thesis using request_result_same [OF i] by (simp add: HeapAlloc_def)
next
  case False
  from i obtain ps fl ul where rep: "heap_rep h ps fl ul" and U: "U = (\<lambda>x. hp_memory h + x) ` set ul"
    and sz: "hp_size h < 2 ^ 31" by (rule heap_invE)
  obtain r h' where A: "HeapAlloc h n = Some (r, h')" "grown h h' ul"
    "case r of
       None \<Rightarrow> heap_rep h' ps fl ul \<and> hp_block h' = hp_block h \<and> (\<forall>x \<in> set fl. hb_size (hp_block h x) < n)
     | Some p \<Rightarrow> \<exists>x ps' fl'. p = hp_memory h + x \<and> x \<in> set fl \<and> heap_rep h' ps' fl' (x # ul) \<and>
         n \<le> hb_size (hp_block h' x) \<and> hb_size (hp_block h' x) < n + 40 \<and>
         (\<forall>z \<in> set ul. hb_size (hp_block h' z) = hb_size (hp_block h z))"
    using HeapAlloc_rep [OF rep, of n] False by auto
  have g: "hp_memory h' = hp_memory h" "hp_size h' = hp_size h" "hp_data h' = hp_data h"
    "\<forall>p \<in> U. extent h p \<le> extent h' p"
    using A(2) by (auto simp: grown_def U extent_def)
  have "request_result h U n (r, h')"
  proof (cases r)
    case None
    then show ?thesis using A(3) g sz U heap_invI [of h' ps fl ul U] by (simp add: request_result_def)
  next
    case (Some p)
    with A(3) obtain x ps' fl' where x: "p = hp_memory h + x" "x \<in> set fl" "heap_rep h' ps' fl' (x # ul)"
      "n \<le> hb_size (hp_block h' x)" by auto
    have "p \<notin> U" using x(1,2) rep_set_lists(3) [OF rep] by (auto simp: U)
    moreover have "heap_inv h' (insert p U)" using heap_invI [OF x(3)] x(1) g(1,2) sz by (simp add: U)
    moreover have "x \<in> set ps'" using heap_repD(4) [OF x(3), of x] by simp
    ultimately show ?thesis using Some g x block_bounds [OF x(3)] by (simp add: request_result_def extent_def)
  qed
  then show ?thesis using A(1) by blast
qed

text \<open>
  An aligned request: the offset handed out is a multiple of the alignment and is never the
  offset of a block that was free before, so the code's branch for \<open>aligned == current\<close> is
  dead.
\<close>

lemma aligned_heap_inv:
  assumes i: "heap_inv h U" and al: "unat al \<le> 4096"
  shows "\<exists>r h'. HeapAllocAligned h n al = Some (r, h') \<and> request_result h U n (r, h') \<and>
    (case r of None \<Rightarrow> True | Some p \<Rightarrow> unat al dvd p - hp_memory h)"
proof (cases "n = 0 \<or> al = 0 \<or> al AND (al - 1) \<noteq> 0")
  case True
  then show ?thesis using request_result_same [OF i] by (auto simp: HeapAllocAligned_def)
next
  case False
  then have ok: "0 < n" "al \<noteq> 0" "al AND (al - 1) = 0" "0 < unat al" by (auto simp: unat_gt_0)
  from i obtain ps fl ul where rep: "heap_rep h ps fl ul" and U: "U = (\<lambda>x. hp_memory h + x) ` set ul"
    and sz: "hp_size h < 2 ^ 31" by (rule heap_invE)
  have v: "vlist (hp_block h) 0 fl (hp_freeList h)" using heap_repD(2) [OF rep] by (simp add: virt_def)
  note S = aligned_search_find [OF v, of n "unat al"]
  show ?thesis
  proof (cases "find (\<lambda>x. aligned_offset (hp_block h) n (unat al) x \<noteq> None) fl")
    case None
    let ?h = "h\<lparr>hp_lock := False\<rparr>"
    have "HeapAllocAligned h n al = Some (None, ?h)" using S None ok by (simp add: HeapAllocAligned_def)
    moreover have "heap_inv ?h U" by (rule heap_invI [of ?h ps fl ul]) (use rep U sz in \<open>simp_all add: heap_rep_lock\<close>)
    ultimately show ?thesis by (simp add: request_result_def extent_def)
  next
    case (Some x)
    then obtain a where x: "x \<in> set fl" "aligned_offset (hp_block h) n (unat al) x = Some a"
      by (auto simp: find_Some_iff)
    then have xp: "x \<in> set ps" "x \<noteq> 0" using heap_repD(3) [OF rep] block_bounds(1) [OF rep, of x] by auto
    have "x + hb_size (hp_block h x) < 2 ^ 31" using block_bounds(3) [OF rep xp(1)] sz by simp
    note a = aligned_offset_spec [OF x(2) ok(4) al this]
    let ?g = "HeappSplit (HeappAlign h x a) a n"
    let ?h = "?g\<lparr>hp_lock := False\<rparr>"
    note H = align_split_rep [OF rep x(1) a(1,3,4) ok(1)]
    have r: "HeapAllocAligned h n al = Some (Some (hp_memory h + a), ?h)"
      using S Some x(2) xp(2) ok a(1) by (simp add: HeapAllocAligned_def)
    obtain ps' fl' where rep': "heap_rep ?h ps' fl' (a # ul)" using H(1) by (auto simp: heap_rep_lock)
    have "a \<notin> set ul" using rep_set_lists(5) [OF rep'] by simp
    then have "hp_memory h + a \<notin> U" by (auto simp: U)
    moreover have "heap_inv ?h (insert (hp_memory h + a) U)" using heap_invI [OF rep'] sz by (simp add: U)
    moreover have "a \<in> set ps'" using heap_repD(4) [OF rep', of a] by simp
    ultimately have "request_result h U n (Some (hp_memory h + a), ?h)"
      using H(2,3) block_bounds [OF rep', of a] by (auto simp: request_result_def extent_def U)
    then show ?thesis using r a(2) by auto
  qed
qed

lemma heap_request_inv:
  assumes "heap_inv h U" "heap_legal q"
  shows "\<exists>r h'. heap_request h q = Some (r, h') \<and> request_result h U (heap_wants q) (r, h')"
proof (cases q)
  case (Plain n) then show ?thesis using alloc_heap_inv [OF assms(1)] by simp
next
  case (Aligned n al) then show ?thesis using aligned_heap_inv [OF assms(1), of al n] assms(2) by auto
qed

text \<open>Releasing a live block: both ways free the same block, the secure one zeroes it.\<close>

lemma rep_offset:
  assumes "heap_rep h ps fl ul" "x \<in> set ul"
  shows "HeappContains h (hp_memory h + x)" "hp_memory h + x \<noteq> 0" "24 \<le> x" "x \<noteq> 0"
    "x + hb_size (hp_block h x) \<le> hp_size h" "0 < hb_size (hp_block h x)"
proof -
  have "x \<in> set ps" using heap_repD(4) [OF assms(1)] assms(2) by auto
  note b = block_bounds [OF assms(1) this]
  show "HeappContains h (hp_memory h + x)" "hp_memory h + x \<noteq> 0" "24 \<le> x" "x \<noteq> 0"
    "x + hb_size (hp_block h x) \<le> hp_size h" "0 < hb_size (hp_block h x)"
    using b by (auto simp: HeappContains_def)
qed

lemma heapp_free_inv:
  assumes i: "heap_inv h U" and p: "p \<in> U" and g: "g = (HeappFree h (p - hp_memory h) secure)\<lparr>hp_lock := False\<rparr>"
  shows "heap_inv g (U - {p})" "\<forall>p' \<in> U - {p}. extent g p' = extent h p'"
    "hp_memory g = hp_memory h" "hp_size g = hp_size h"
    "hp_data g = (\<lambda>i. if secure \<and> p \<le> hp_memory h + i \<and> hp_memory h + i < p + extent h p then 0 else hp_data h i)"
proof -
  from i obtain ps fl ul where rep: "heap_rep h ps fl ul" and U: "U = (\<lambda>x. hp_memory h + x) ` set ul"
    and sz: "hp_size h < 2 ^ 31" by (rule heap_invE)
  from p U obtain x where x: "x \<in> set ul" "p = hp_memory h + x" by auto
  note F = HeappFree_rep [OF rep x(1), where secure = secure]
  have gx: "g = (HeappFree h x secure)\<lparr>hp_lock := False\<rparr>" using g x(2) by simp
  obtain ps' fl' where rep': "heap_rep g ps' fl' (remove1 x ul)" using F(1) by (auto simp: gx heap_rep_lock)
  show m: "hp_memory g = hp_memory h" "hp_size g = hp_size h" using F(3,4) by (simp_all add: gx)
  have U': "U - {p} = (\<lambda>x. hp_memory h + x) ` set (remove1 x ul)"
    using rep_set_lists(5) [OF rep] by (auto simp: U x(2))
  show "heap_inv g (U - {p})" by (rule heap_invI [OF rep']) (use U' m sz in simp_all)
  show "\<forall>p' \<in> U - {p}. extent g p' = extent h p'" unfolding U'
    using F(2) m by (auto simp: extent_def gx simp del: set_remove1_eq)
  show "hp_data g = (\<lambda>i. if secure \<and> p \<le> hp_memory h + i \<and> hp_memory h + i < p + extent h p then 0 else hp_data h i)"
    using F(5) by (simp add: gx x(2) extent_def fun_eq_iff)
qed

lemma HeapFree_live:
  assumes "heap_inv h U" "p \<in> U"
  shows "HeapFree h p = (HeappFree h (p - hp_memory h) False)\<lparr>hp_lock := False\<rparr>"
proof -
  from assms obtain ps fl ul x where "heap_rep h ps fl ul" "x \<in> set ul" "p = hp_memory h + x"
    by (auto simp: heap_inv_def)
  then show ?thesis using rep_offset(1,2) [of h ps fl ul x] by (auto simp: HeapFree_def)
qed

lemma heap_apart:
  assumes i: "heap_inv h U" and p: "p \<in> U" "p' \<in> U" "p \<noteq> p'"
  shows "p + extent h p \<le> p' \<or> p' + extent h p' \<le> p"
proof -
  from i obtain ps fl ul where rep: "heap_rep h ps fl ul" and U: "U = (\<lambda>x. hp_memory h + x) ` set ul"
    by (rule heap_invE)
  from p U obtain x y where x: "x \<in> set ul" "p = hp_memory h + x" "y \<in> set ul" "p' = hp_memory h + y" "x \<noteq> y"
    by auto
  have "x \<in> set ps" "y \<in> set ps" using heap_repD(4) [OF rep] x by auto
  from seg_apart [OF heap_repD(1) [OF rep] this x(5)] show ?thesis by (auto simp: x(2,4))
qed

interpretation hp: allocator heap_inv extent heap_legal heap_wants heap_request HeapFree
proof (unfold_locales, goal_cases)
  case (1 h U q)
  from heap_request_inv [OF this] obtain r h' where
    "heap_request h q = Some (r, h')" "request_result h U (heap_wants q) (r, h')" by blast
  then show ?case by (intro exI [of _ r] exI [of _ h']) (auto simp: request_result_def split: option.splits)
next
  case (2 h U p)
  then show ?case using heapp_free_inv [OF 2 HeapFree_live [OF 2]] by simp
next
  case (3 h U p p')
  then show ?case by (rule heap_apart)
qed

lemma HeapCreate_inv:
  assumes "HeapCreate B data arena n = Some h" "n < 2 ^ 31"
  shows "heap_inv h {}"
  using HeapCreate_rep [OF assms(1)] assms(2) by (intro heap_invI) auto

lemma heap_inv_inside:
  assumes "heap_inv h U" "p \<in> U"
  shows "hp_memory h + 24 \<le> p" "p + extent h p \<le> hp_memory h + hp_size h" "0 < extent h p"
  using assms rep_offset by (auto simp: heap_inv_def)

section \<open>Properties\<close>

text \<open>
  C15: Whatever a client requests (plain or aligned up to a page) and releases, starting
  from a new heap, every operation returns, the heap stays well formed, and at the end the
  live blocks lie inside the region and do not overlap.\<close>
theorem heap_run_safe:
  assumes "HeapCreate B data arena n = Some h" "n < 2 ^ 31" "\<forall>q \<in> requests ops. heap_legal q"
  shows "\<exists>h' U. alloc_run heap_request HeapFree ops h {} = Some (h', U) \<and> heap_inv h' U \<and>
    (\<forall>p \<in> U. hp_memory h' + 24 \<le> p \<and> 0 < extent h' p \<and> p + extent h' p \<le> hp_memory h' + hp_size h') \<and>
    (\<forall>p \<in> U. \<forall>p' \<in> U. p \<noteq> p' \<longrightarrow> p + extent h' p \<le> p' \<or> p' + extent h' p' \<le> p)"
proof -
  note i = HeapCreate_inv [OF assms(1,2)]
  from hp.run_keeps_inv [OF i assms(3)] obtain h' U where
    r: "alloc_run heap_request HeapFree ops h {} = Some (h', U)" "heap_inv h' U" by blast
  then show ?thesis using heap_inv_inside [OF r(2)] hp.run_apart [OF i assms(3) r(1)] by blast
qed

definition example_heap :: heap where
  "example_heap = the (HeapCreate (\<lambda>_. \<lparr>hb_state = 0, hb_size = 0, hb_pprev = 0, hb_pnext = 0,
     hb_vprev = 0, hb_vnext = 0\<rparr>) (\<lambda>_. 0) 8192 65536)"

lemma example_heap_create:
  "HeapCreate (\<lambda>_. \<lparr>hb_state = 0, hb_size = 0, hb_pprev = 0, hb_pnext = 0, hb_vprev = 0, hb_vnext = 0\<rparr>)
     (\<lambda>_. 0) 8192 65536 = Some example_heap"
  by (simp add: example_heap_def HeapCreate_def)

lemma example_heap_inv: "heap_inv example_heap {}"
  by (rule HeapCreate_inv [OF example_heap_create]) simp

theorem heap_run_safe_witness:
  "\<exists>h' U. alloc_run heap_request HeapFree [Request (Plain 100), Request (Aligned 64 256), Release 12312]
     example_heap {} = Some (h', U) \<and> heap_inv h' U \<and>
    (\<forall>p \<in> U. hp_memory h' + 24 \<le> p \<and> 0 < extent h' p \<and> p + extent h' p \<le> hp_memory h' + hp_size h') \<and>
    (\<forall>p \<in> U. \<forall>p' \<in> U. p \<noteq> p' \<longrightarrow> p + extent h' p \<le> p' \<or> p' + extent h' p' \<le> p)"
  by (rule heap_run_safe [OF example_heap_create]) simp_all

text \<open>
  \<open>HeapAlloc\<close> on a well-formed heap returns; it hands out a new block that holds the
  bytes asked for and wastes less than a header and a minimal block, or it fails because no
  free block is large enough; no live block and no byte of data changes.\<close>
theorem heap_alloc_correct:
  assumes "heap_inv h U" "0 < n"
  shows "\<exists>r h'. HeapAlloc h n = Some (r, h') \<and> hp_data h' = hp_data h \<and>
    (case r of
       None \<Rightarrow> heap_inv h' U \<and> (\<forall>ps fl ul. heap_rep h ps fl ul \<longrightarrow> (\<forall>x \<in> set fl. hb_size (hp_block h x) < n))
     | Some p \<Rightarrow> p \<notin> U \<and> heap_inv h' (insert p U) \<and> n \<le> extent h' p \<and> extent h' p < n + 40) \<and>
    (\<forall>p \<in> U. extent h' p = extent h p)"
proof -
  from assms(1) obtain ps fl ul where rep: "heap_rep h ps fl ul" and U: "U = (\<lambda>x. hp_memory h + x) ` set ul"
    by (rule heap_invE)
  note rep_any = HeapAlloc_rep [OF _ assms(2)]
  from alloc_heap_inv [OF assms(1), of n] obtain r h' where
    r: "HeapAlloc h n = Some (r, h')" "request_result h U n (r, h')" by blast
  have none: "\<forall>x \<in> set fl. hb_size (hp_block h x) < n" if "heap_rep h ps fl ul" "r = None" for ps fl ul
    using rep_any [OF that(1)] r(1) that(2) by auto
  have some: "extent h' p < n + 40 \<and> (\<forall>p \<in> U. extent h' p = extent h p)" if "r = Some p" for p
    using rep_any [OF rep] r that by (auto simp: U extent_def grown_def)
  have "\<forall>p \<in> U. extent h' p = extent h p" if "r = None"
    using r(2) that by (simp add: request_result_def extent_def)
  then show ?thesis
    by (intro exI [of _ r] exI [of _ h'])
      (use r none some in \<open>auto simp: request_result_def split: option.splits\<close>)
qed

theorem heap_alloc_correct_witness:
  "\<exists>r h'. HeapAlloc example_heap 100 = Some (r, h') \<and> hp_data h' = hp_data example_heap \<and>
    (case r of
       None \<Rightarrow> heap_inv h' {} \<and> (\<forall>ps fl ul. heap_rep example_heap ps fl ul \<longrightarrow>
                 (\<forall>x \<in> set fl. hb_size (hp_block example_heap x) < 100))
     | Some p \<Rightarrow> p \<notin> {} \<and> heap_inv h' (insert p {}) \<and> 100 \<le> extent h' p \<and> extent h' p < 100 + 40) \<and>
    (\<forall>p \<in> {}. extent h' p = extent example_heap p)"
  by (rule heap_alloc_correct [OF example_heap_inv]) simp

text \<open>
  \<open>HeapAllocAligned\<close> with an alignment up to a page refuses an alignment that is
  not a power of two, and otherwise hands out a new block whose offset is a multiple of the
  alignment; live blocks do not shrink and keep their contents.\<close>
theorem heap_alloc_aligned_correct:
  assumes "heap_inv h U" "unat al \<le> 4096"
  shows "\<exists>r h'. HeapAllocAligned h n al = Some (r, h') \<and> hp_data h' = hp_data h \<and>
    (n = 0 \<or> al = 0 \<or> al AND (al - 1) \<noteq> 0 \<longrightarrow> r = None \<and> h' = h) \<and>
    (case r of None \<Rightarrow> heap_inv h' U
     | Some p \<Rightarrow> p \<notin> U \<and> heap_inv h' (insert p U) \<and> n \<le> extent h' p \<and> unat al dvd p - hp_memory h) \<and>
    (\<forall>p \<in> U. extent h p \<le> extent h' p)"
proof -
  from aligned_heap_inv [OF assms, of n] obtain r h' where r: "HeapAllocAligned h n al = Some (r, h')"
    "request_result h U n (r, h')" "case r of None \<Rightarrow> True | Some p \<Rightarrow> unat al dvd p - hp_memory h" by blast
  have "n = 0 \<or> al = 0 \<or> al AND (al - 1) \<noteq> 0 \<longrightarrow> r = None \<and> h' = h"
    using r(1) by (auto simp: HeapAllocAligned_def split: if_splits)
  with r show ?thesis
    by (intro exI [of _ r] exI [of _ h']) (auto simp: request_result_def split: option.splits)
qed

theorem heap_alloc_aligned_correct_witness:
  "\<exists>r h'. HeapAllocAligned example_heap 64 256 = Some (r, h') \<and> hp_data h' = hp_data example_heap \<and>
    ((64::nat) = 0 \<or> (256::u32) = 0 \<or> 256 AND (256 - 1 :: u32) \<noteq> 0 \<longrightarrow> r = None \<and> h' = example_heap) \<and>
    (case r of None \<Rightarrow> heap_inv h' {}
     | Some p \<Rightarrow> p \<notin> {} \<and> heap_inv h' (insert p {}) \<and> 64 \<le> extent h' p \<and>
         unat (256::u32) dvd p - hp_memory example_heap) \<and>
    (\<forall>p \<in> {}. extent example_heap p \<le> extent h' p)"
  by (rule heap_alloc_aligned_correct [OF example_heap_inv]) simp

text \<open>
  \<open>HeapFreeSecure\<close>, given any address inside a live block, frees that block, zeroes
  exactly its bytes, and leaves the other live blocks as they are.\<close>
theorem heap_free_secure_correct:
  assumes i: "heap_inv h U" and p: "p \<in> U" "p \<le> a" "a < p + extent h p"
  shows "\<exists>g. HeapFreeSecure h a = Some g \<and> heap_inv g (U - {p}) \<and>
    (\<forall>p' \<in> U - {p}. extent g p' = extent h p') \<and>
    hp_data g = (\<lambda>i. if p \<le> hp_memory h + i \<and> hp_memory h + i < p + extent h p then 0 else hp_data h i)"
proof -
  from i obtain ps fl ul where rep: "heap_rep h ps fl ul" and U: "U = (\<lambda>x. hp_memory h + x) ` set ul"
    by (rule heap_invE)
  from p U obtain x where x: "x \<in> set ul" "p = hp_memory h + x" by auto
  note o = rep_offset [OF rep x(1)]
  define c where "c = a - hp_memory h"
  have c: "a = hp_memory h + c" "x \<le> c" "c < x + hb_size (hp_block h x)" using p x(2) by (simp_all add: c_def)
  have v: "vlist (hp_block h) 0 ul (hp_usedList h)" using heap_repD(2) [OF rep] by (simp add: virt_def)
  let ?P = "\<lambda>z. z \<le> c \<and> c < z + hb_size (hp_block h z)"
  have "find ?P ul = Some x"
  proof (cases "find ?P ul")
    case None
    then show ?thesis using x(1) c by (auto simp: find_None_iff)
  next
    case (Some y)
    then have y: "y \<in> set ul" "y \<le> c" "c < y + hb_size (hp_block h y)" by (auto simp: find_Some_iff)
    have "x \<in> set ps" "y \<in> set ps" using heap_repD(4) [OF rep] x(1) y(1) by auto
    from seg_apart [OF heap_repD(1) [OF rep] this] have "x = y" using c y by fastforce
    then show ?thesis using Some by simp
  qed
  then have s: "used_search (hp_block h) c (hp_usedList h) = Some x" using used_search_find [OF v, of c] by simp
  have a: "HeappContains h a" "a \<noteq> 0" using o(1-5) c by (auto simp: HeappContains_def)
  let ?g = "(HeappFree h (p - hp_memory h) True)\<lparr>hp_lock := False\<rparr>"
  have "HeapFreeSecure h a = Some ?g" using a s o(4) by (simp add: HeapFreeSecure_def c_def x(2))
  then show ?thesis using heapp_free_inv [OF i p(1) refl, of True] by auto
qed

definition example_live :: heap where
  "example_live = snd (the (HeapAlloc example_heap 100))"

lemma example_live_alloc: "HeapAlloc example_heap 100 = Some (Some 12312, example_live)"
  by (simp add: example_live_def example_heap_def HeapCreate_def HeapAlloc_def alloc_search.simps START_def)

lemma example_live_inv: "heap_inv example_live {12312}" "100 \<le> extent example_live 12312"
  using alloc_heap_inv [OF example_heap_inv, of 100] by (auto simp: example_live_alloc request_result_def)

theorem heap_free_secure_correct_witness:
  "\<exists>g. HeapFreeSecure example_live 12350 = Some g \<and> heap_inv g ({12312} - {12312}) \<and>
    (\<forall>p' \<in> {12312} - {12312}. extent g p' = extent example_live p') \<and>
    hp_data g = (\<lambda>i. if 12312 \<le> hp_memory example_live + i \<and>
        hp_memory example_live + i < 12312 + extent example_live 12312 then 0 else hp_data example_live i)"
  by (rule heap_free_secure_correct [OF example_live_inv(1)]) (use example_live_inv(2) in simp_all)

lemma all_free_single: "coalesced B ps \<Longrightarrow> \<forall>x \<in> set ps. is_free B x \<Longrightarrow> ps = [] \<or> (\<exists>x. ps = [x])"
  by (induction B ps rule: coalesced.induct) auto

lemma heap_whole_alloc:
  assumes "heap_inv h {}" "0 < n" "n + 24 \<le> hp_size h"
  shows "\<exists>h'. HeapAlloc h n = Some (Some (hp_memory h + 24), h')"
proof -
  from assms(1) obtain ps fl ul where rep: "heap_rep h ps fl ul" and U: "{} = (\<lambda>x. hp_memory h + x) ` set ul"
    by (rule heap_invE)
  note R = heap_repD [OF rep]
  have "\<forall>x \<in> set ps. is_free (hp_block h) x" using R(4,5) U by auto
  from all_free_single [OF R(6) this] R(1) assms(2,3) obtain x where ps: "ps = [x]" by auto
  then have x: "ps = [24]" "hb_size (hp_block h 24) + 24 = hp_size h" using R(1) by auto
  have "set fl = {24}" using R(3) \<open>\<forall>x \<in> set ps. is_free (hp_block h) x\<close> x(1) by auto
  then have "fl = [24]" using rep_set_lists(4) [OF rep]
    by (metis distinct_singleton remdups_id_iff_distinct set_remdups empty_set list.simps(15) distinct.simps(2) list.exhaust list.set_intros(1) list.set_intros(2) set_ConsD singletonD)
  with R(2) have v: "vlist (hp_block h) 0 [24] (hp_freeList h)" by (simp add: virt_def)
  show ?thesis using alloc_search_find [OF v, of n] assms(2,3) x(2) by (simp add: HeapAlloc_def)
qed

text \<open>Neither the region nor its place changes.\<close>

lemma alloc_run_region:
  "heap_inv h U \<Longrightarrow> \<forall>q \<in> requests ops. heap_legal q \<Longrightarrow>
     alloc_run heap_request HeapFree ops h U = Some (h', U') \<Longrightarrow>
     heap_inv h' U' \<and> hp_memory h' = hp_memory h \<and> hp_size h' = hp_size h"
proof (induction ops arbitrary: h U)
  case (Cons op ops)
  show ?case
  proof (cases op)
    case (Request q)
    then obtain r g where r: "heap_request h q = Some (r, g)" "request_result h U (heap_wants q) (r, g)"
      using heap_request_inv [OF Cons.prems(1), of q] Cons.prems(2) by auto
    then have "heap_inv g (case r of None \<Rightarrow> U | Some p \<Rightarrow> insert p U)" "hp_memory g = hp_memory h" "hp_size g = hp_size h"
      by (auto simp: request_result_def split: option.splits)
    then show ?thesis using Cons.IH [of g] Cons.prems(2,3) r(1) Request by simp
  next
    case (Release p)
    show ?thesis
    proof (cases "p \<in> U")
      case True
      note F = heapp_free_inv [OF Cons.prems(1) True HeapFree_live [OF Cons.prems(1) True]]
      show ?thesis using Cons.IH [OF F(1)] F(3,4) Cons.prems(2,3) Release True by simp
    next
      case False
      then show ?thesis using Cons.IH [OF Cons.prems(1)] Cons.prems(2,3) Release by simp
    qed
  qed
qed simp

text \<open>
  C35: However a heap was used, once everything is released it is one free block again:
  a request for all of it succeeds, at the start of the region.\<close>
theorem heap_empty_recovers:
  assumes "HeapCreate B data arena n = Some h" "n < 2 ^ 31" "\<forall>q \<in> requests ops. heap_legal q"
    and run: "alloc_run heap_request HeapFree ops h {} = Some (h', {})" and k: "0 < k" "k + 4096 + 24 \<le> n"
  shows "\<exists>g. HeapAlloc h' k = Some (Some (arena + 4096 + 24), g)"
proof -
  note c = HeapCreate_rep [OF assms(1)]
  have "heap_inv h' {}" "hp_memory h' = arena + 4096" "hp_size h' = n - 4096"
    using alloc_run_region [OF HeapCreate_inv [OF assms(1,2)] assms(3) run] c(3,4) by simp_all
  then show ?thesis using heap_whole_alloc [of h' k] k by simp
qed

lemma example_run:
  "alloc_run heap_request HeapFree [Request (Plain 100), Release 12312] example_heap {} =
     Some (HeapFree example_live 12312, {})"
  by (simp add: example_live_alloc)

theorem heap_empty_recovers_witness:
  "\<exists>g. HeapAlloc (HeapFree example_live 12312) 61416 = Some (Some (8192 + 4096 + 24), g)"
  by (rule heap_empty_recovers [OF example_heap_create _ _ example_run]) simp_all

text \<open>
  \<open>HeapAllocArray\<close> multiplies in 32 bits: when the product wraps around to a small
  positive number, the array it hands out is smaller than its elements need.\<close>
theorem array_product_wraps:
  assumes "heap_inv h {}" "0 < k" "k + 24 \<le> hp_size h" "count * esize = k + 2 ^ 32"
  shows "\<exists>p g. HeapAllocArray h count esize = Some (Some p, g) \<and> extent g p < k + 40 \<and> k + 40 < count * esize"
proof -
  from assms(1) obtain ps fl ul where rep: "heap_rep h ps fl ul" and sz: "hp_size h < 2 ^ 31"
    and U: "{} = (\<lambda>x. hp_memory h + x) ` set ul" by (rule heap_invE)
  have m: "(count * esize) mod 2 ^ 32 = k" using assms(3,4) sz by simp
  from heap_whole_alloc [OF assms(1-3)] obtain h' where
    a: "HeapAlloc h k = Some (Some (hp_memory h + 24), h')" by blast
  from HeapAlloc_rep [OF rep assms(2)] a have "hb_size (hp_block h' 24) < k + 40" "hp_memory h' = hp_memory h"
    by (auto simp: grown_def)
  then show ?thesis using a assms(3,4) sz
    by (intro exI) (auto simp: HeapAllocArray_def m Let_def extent_def)
qed

theorem array_product_wraps_witness:
  "\<exists>p g. HeapAllocArray example_heap 1073741834 4 = Some (Some p, g) \<and> extent g p < 40 + 40 \<and>
     40 + 40 < (1073741834::nat) * 4"
  by (rule array_product_wraps [OF example_heap_inv]) (simp_all add: example_heap_def HeapCreate_def)

text \<open>
  The second \<open>HeapFree\<close> of a block that the first one merged into its free predecessor: the
  block's own header still says used.
\<close>

lemma HeappFree_merge_prev:
  fixes h x defines "w \<equiv> hb_pprev (hp_block h x)" and "y \<equiv> hb_pnext (hp_block h x)"
  assumes x: "hb_state (hp_block h x) = HEAP_BLOCK_USED" "w < x" "y < hp_size h" "0 < hb_size (hp_block h x)"
      "hb_size (hp_block h x) < hp_size h"
    and w: "w \<noteq> 0" "is_free (hp_block h) w" and y: "y \<noteq> 0" "hb_state (hp_block h y) = HEAP_BLOCK_USED" "y \<noteq> x"
  shows "hb_size (hp_block (HeappFree h x False) w) = hb_size (hp_block h w) + 24 + hb_size (hp_block h x)"
    "hb_state (hp_block (HeappFree h x False) z) = hb_state (hp_block h z)"
    "z \<noteq> w \<Longrightarrow> hb_size (hp_block (HeappFree h x False) z) = hb_size (hp_block h z)"
    "hb_pprev (hp_block (HeappFree h x False) x) = w" "hb_pnext (hp_block (HeappFree h x False) x) = y"
    "hp_size (HeappFree h x False) = hp_size h" "hp_memory (HeappFree h x False) = hp_memory h"
proof -
  have d: "w \<noteq> x" "y \<noteq> w" using x(2) w(2) y(2) by auto
  have f: "HeappFree h x False =
     (let g = set_block (unlink_used h x) w (\<lambda>b. b\<lparr>hb_size := hb_size b + (24 + hb_size (hp_block (unlink_used h x) x))\<rparr>);
          g = set_block g w (hb_pnext_update (\<lambda>_. y))
      in set_block g y (hb_pprev_update (\<lambda>_. w)))"
    using x w y d by (simp add: HeappFree_def Let_def free_uuu_def free_uuf_def free_fuu_def free_fuf_def
        w_def [symmetric] y_def [symmetric])
  show "hb_size (hp_block (HeappFree h x False) w) = hb_size (hp_block h w) + 24 + hb_size (hp_block h x)"
    "hb_state (hp_block (HeappFree h x False) z) = hb_state (hp_block h z)"
    "z \<noteq> w \<Longrightarrow> hb_size (hp_block (HeappFree h x False) z) = hb_size (hp_block h z)"
    "hb_pprev (hp_block (HeappFree h x False) x) = w" "hb_pnext (hp_block (HeappFree h x False) x) = y"
    "hp_size (HeappFree h x False) = hp_size h" "hp_memory (HeappFree h x False) = hp_memory h"
    unfolding f using d y(3) by (simp_all add: Let_def w_def y_def)
qed

text \<open>
  Freeing a block twice is not noticed when its predecessor is free and its
  successor \<open>y\<close> is live: the free block grows a second time and now covers the header and
  the first bytes of \<open>y\<close>, which the next allocation can hand out again.\<close>
theorem double_free_overlaps:
  assumes rep: "heap_rep h (as @ w # x # y # bs) fl ul" and st: "w \<in> set fl" "x \<in> set ul" "y \<in> set ul"
  shows "let g = HeapFree (HeapFree h (hp_memory h + x)) (hp_memory h + x)
    in is_free (hp_block g) w \<and> hb_state (hp_block g y) = HEAP_BLOCK_USED \<and>
       w + hb_size (hp_block g w) = y + hb_size (hp_block h x)"
proof -
  note R = heap_repD [OF rep] and o = rep_offset [OF rep st(2)] and oy = rep_offset [OF rep st(3)]
  obtain m where "seg (hp_size h) (hp_block h) (last (0 # as)) (w # x # y # bs) m (hp_size h + 24)"
    using R(1) by (auto simp: seg_append)
  then have S: "x = w + hb_size (hp_block h w) + 24" "y = x + hb_size (hp_block h x) + 24"
    "hb_pprev (hp_block h x) = w" "hb_pnext (hp_block h x) = pnx (hp_size h) (x + hb_size (hp_block h x))" by auto
  have s: "is_free (hp_block h) w" "hb_state (hp_block h x) = HEAP_BLOCK_USED" "hb_state (hp_block h y) = HEAP_BLOCK_USED"
    "w \<noteq> 0"
    using R(3,4) st block_bounds(1) [OF rep, of w] by auto
  have n: "hb_pnext (hp_block h x) = y" using S oy by (auto simp: pnx_def)
  let ?k = "HeappFree h x False"
  note F = HeappFree_merge_prev [of h x, unfolded S(3) n]
  have k: "hb_state (hp_block h x) = HEAP_BLOCK_USED" "w < x" "y < hp_size h" "0 < hb_size (hp_block h x)"
    "hb_size (hp_block h x) < hp_size h" "w \<noteq> 0" "is_free (hp_block h) w" "y \<noteq> 0"
    "hb_state (hp_block h y) = HEAP_BLOCK_USED" "y \<noteq> x"
    using s S o oy by auto
  note F = F [OF k]
  let ?u = "?k\<lparr>hp_lock := False\<rparr>"
  have f: "HeapFree h (hp_memory h + x) = ?u" using o(1,4) by (auto simp: HeapFree_def)
  have "HeapFree ?u (hp_memory h + x) = (HeappFree ?u x False)\<lparr>hp_lock := False\<rparr>"
    using o(1,4) F(6,7) by (auto simp: HeapFree_def HeappContains_def)
  then have e: "HeapFree (HeapFree h (hp_memory h + x)) (hp_memory h + x) = (HeappFree ?u x False)\<lparr>hp_lock := False\<rparr>"
    using f by simp
  have xw: "x \<noteq> w" using k(2) by simp
  have ku: "hb_state (hp_block ?u x) = HEAP_BLOCK_USED" "w < x" "y < hp_size ?u" "0 < hb_size (hp_block ?u x)"
    "hb_size (hp_block ?u x) < hp_size ?u" "w \<noteq> 0" "is_free (hp_block ?u) w" "y \<noteq> 0"
    "hb_state (hp_block ?u y) = HEAP_BLOCK_USED" "y \<noteq> x"
    using k F(2,6) F(3) [OF xw] by simp_all
  have pu: "hb_pprev (hp_block ?u x) = w" "hb_pnext (hp_block ?u x) = y" using F(4,5) by simp_all
  note G = HeappFree_merge_prev [of ?u x, unfolded pu, OF ku]
  have "is_free (hp_block (HeappFree ?u x False)) w" "hb_state (hp_block (HeappFree ?u x False) y) = HEAP_BLOCK_USED"
    using G(2) ku by simp_all
  moreover have "hb_size (hp_block (HeappFree ?u x False) w) = hb_size (hp_block h w) + 2 * (24 + hb_size (hp_block h x))"
    using G(1) F(1) F(3) [OF xw] by simp
  ultimately show ?thesis unfolding e using S(1,2) by (simp add: Let_def)
qed

text \<open>A heap of three blocks of 16 bytes: free, used, used.\<close>

definition example_three :: heap where
  "example_three = \<lparr>hp_lock = False, hp_memory = 4096, hp_size = 120, hp_freeList = 24, hp_usedList = 64,
     hp_block = (\<lambda>x. if x = 24 then \<lparr>hb_state = 0, hb_size = 16, hb_pprev = 0, hb_pnext = 64, hb_vprev = 0, hb_vnext = 0\<rparr>
       else if x = 64 then \<lparr>hb_state = 1, hb_size = 16, hb_pprev = 24, hb_pnext = 104, hb_vprev = 0, hb_vnext = 104\<rparr>
       else \<lparr>hb_state = 1, hb_size = 16, hb_pprev = 64, hb_pnext = 0, hb_vprev = 64, hb_vnext = 0\<rparr>),
     hp_data = (\<lambda>_. 0)\<rparr>"

lemma example_three_rep: "heap_rep example_three ([] @ 24 # 64 # 104 # []) [24] [64, 104]"
  by (auto simp: example_three_def heap_rep_def heap_lay_def virt_def pnx_def HEAP_BLOCK_FREE_def HEAP_BLOCK_USED_def)

theorem double_free_overlaps_witness:
  "let g = HeapFree (HeapFree example_three (hp_memory example_three + 64)) (hp_memory example_three + 64)
    in is_free (hp_block g) 24 \<and> hb_state (hp_block g 104) = HEAP_BLOCK_USED \<and>
       24 + hb_size (hp_block g 24) = 104 + hb_size (hp_block example_three 64)"
  by (rule double_free_overlaps [OF example_three_rep]) simp_all

end
