(* ===== verification/Arena.thy ===== *)
theory Arena
  imports Heap_Props
begin

text \<open>
  The memory arena of \<open>src/mem.c\<close> and the driver's allocator on top of it: locked physical
  pages described by an MDL and mapped at one virtual range, the translation between the
  two, and the \<open>Mem*\<close> routines, which serve the global heap inside the arena.
  Addresses are 64-bit words; the kernel's answers are arguments.
\<close>

section \<open>The arena\<close>

record mdl =
  mdl_pfns :: "u64 list"
  mdl_ByteCount :: nat
  mdl_VirtualAddress :: u64

record memory_arena =
  ar_NumberOfPages :: nat
  ar_Mdl :: "mdl option"
  ar_BaseAddress :: u64

definition zero_arena :: memory_arena where
  "zero_arena = \<lparr>ar_NumberOfPages = 0, ar_Mdl = None, ar_BaseAddress = 0\<rparr>"

text \<open>What the kernel is asked for, in order.\<close>

datatype arena_event = AllocatePages | MapPages | UnmapPages | FreePages | FreeMdl

text \<open>
  \<open>pages\<close> is \<open>MmAllocatePagesForMdlEx\<close>, \<open>base\<close> the result of
  \<open>MmMapLockedPagesSpecifyCache\<close> (0 is null) and \<open>protect\<close> that of
  \<open>MmProtectMdlSystemAddress\<close>.
\<close>

definition BYTES_TO_PAGES :: "nat \<Rightarrow> nat" where
  "BYTES_TO_PAGES n = n div 4096 + (if n mod 4096 \<noteq> 0 then 1 else 0)"

definition ArenaDone :: "memory_arena \<Rightarrow> memory_arena \<times> arena_event list" where
  "ArenaDone Arena =
     (zero_arena,
      (if ar_BaseAddress Arena \<noteq> 0 then [UnmapPages] else []) @
      (if ar_Mdl Arena \<noteq> None then [FreePages, FreeMdl] else []))"

definition ArenaInit ::
  "(nat \<Rightarrow> mdl option) \<Rightarrow> u64 \<Rightarrow> ntstatus \<Rightarrow> nat \<Rightarrow> ntstatus \<times> memory_arena \<times> arena_event list" where
  "ArenaInit pages base protect NumberOfBytes =
     (let n = BYTES_TO_PAGES NumberOfBytes;
          RequestBytes = (n * 4096) mod 2 ^ 32;
          mdl = pages RequestBytes;
          a = zero_arena\<lparr>ar_NumberOfPages := n, ar_Mdl := mdl\<rparr>;
          got = (if mdl = None then [] else [AllocatePages]);
          fail = (\<lambda>Status a ev. (Status, fst (ArenaDone a), ev @ snd (ArenaDone a)))
      in case mdl of
           None \<Rightarrow> fail STATUS_NO_MEMORY a got
         | Some m \<Rightarrow>
             if mdl_ByteCount m \<noteq> RequestBytes then fail STATUS_NO_MEMORY a got
             else let a = a\<lparr>ar_BaseAddress := base\<rparr>
                  in if base = 0 then fail STATUS_NO_MEMORY a got
                     else if \<not> NT_SUCCESS protect then fail protect a (got @ [MapPages])
                     else (protect, a, got @ [MapPages]))"

text \<open>\<open>NumberOfPages * PAGE_SIZE\<close> is computed in 32 bits.\<close>

definition ArenaVirtualToPhysical :: "memory_arena \<Rightarrow> u64 \<Rightarrow> u64 option" where
  "ArenaVirtualToPhysical Arena BaseAddress =
     (let start = ar_BaseAddress Arena;
          fin = start + word_of_nat ((ar_NumberOfPages Arena * 4096) mod 2 ^ 32)
      in if start \<le> BaseAddress \<and> BaseAddress < fin
         then (case ar_Mdl Arena of
                 None \<Rightarrow> None
               | Some m \<Rightarrow>
                   let index = unat (drop_bit 12 (BaseAddress - start))
                   in if index < length (mdl_pfns m)
                      then Some (push_bit 12 (mdl_pfns m ! index) + (BaseAddress AND 0xFFF)) else None)
         else Some 0)"

definition ADDRESS_AND_SIZE_TO_SPAN_PAGES :: "u64 \<Rightarrow> nat \<Rightarrow> nat" where
  "ADDRESS_AND_SIZE_TO_SPAN_PAGES va n = (unat (va AND 0xFFF) + n + 4095) div 4096"

text \<open>The loop over the page frames from index \<open>i\<close> on; \<open>None\<close> is a read beyond the array.\<close>

fun pfn_search :: "u64 list \<Rightarrow> u64 \<Rightarrow> nat \<Rightarrow> nat \<Rightarrow> nat option option" where
  "pfn_search pfns target 0 i = Some None"
| "pfn_search pfns target (Suc k) i =
     (if length pfns \<le> i then None
      else if target = pfns ! i then Some (Some i) else pfn_search pfns target k (i + 1))"

definition ArenaPhysicalToVirtual :: "memory_arena \<Rightarrow> u64 \<Rightarrow> u64 option" where
  "ArenaPhysicalToVirtual Arena physicalAddress =
     (case ar_Mdl Arena of
        None \<Rightarrow> None
      | Some m \<Rightarrow>
          let entries = ADDRESS_AND_SIZE_TO_SPAN_PAGES (mdl_VirtualAddress m) (mdl_ByteCount m)
          in map_option (\<lambda>r. case r of
                 None \<Rightarrow> 0
               | Some i \<Rightarrow> (ar_BaseAddress Arena + word_of_nat ((i * 4096) mod 2 ^ 32)) + (physicalAddress AND 0xFFF))
             (pfn_search (mdl_pfns m) (drop_bit 12 physicalAddress) entries 0))"

section \<open>The global heap\<close>

record mem_state =
  gMemoryArena :: memory_arena
  gHeap :: "heap option"

text \<open>\<open>B\<close> and \<open>data\<close> are what the fresh pages hold.\<close>

definition MemInit ::
  "(nat \<Rightarrow> mdl option) \<Rightarrow> u64 \<Rightarrow> ntstatus \<Rightarrow> blocks \<Rightarrow> (nat \<Rightarrow> u8) \<Rightarrow> mem_state \<Rightarrow> nat
     \<Rightarrow> ntstatus \<times> mem_state \<times> arena_event list" where
  "MemInit pages base protect B data s numberOfBytes =
     (let (Status, a, ev) = ArenaInit pages base protect numberOfBytes
      in if \<not> NT_SUCCESS Status then (Status, s\<lparr>gMemoryArena := a\<rparr>, ev)
         else let h = HeapCreate B data (unat (ar_BaseAddress a)) ((ar_NumberOfPages a * 4096) mod 2 ^ 32)
              in if h = None
                 then (STATUS_NO_MEMORY, \<lparr>gMemoryArena = fst (ArenaDone a), gHeap = None\<rparr>, ev @ snd (ArenaDone a))
                 else (Status, \<lparr>gMemoryArena = a, gHeap = h\<rparr>, ev))"

text \<open>The pointer \<open>gHeap\<close> is not reset; \<open>None\<close> when there is no heap to delete.\<close>

definition MemDone :: "mem_state \<Rightarrow> memory \<Rightarrow> (mem_state \<times> memory \<times> arena_event list) option" where
  "MemDone s m = map_option (\<lambda>h.
     (s\<lparr>gMemoryArena := fst (ArenaDone (gMemoryArena s))\<rparr>,
      HeapDelete h (unat (ar_BaseAddress (gMemoryArena s))) m, snd (ArenaDone (gMemoryArena s)))) (gHeap s)"

definition MemAlloc :: "mem_state \<Rightarrow> nat \<Rightarrow> (nat option \<times> mem_state) option" where
  "MemAlloc s n = Option.bind (gHeap s) (\<lambda>h. map_option (\<lambda>(r, g). (r, s\<lparr>gHeap := Some g\<rparr>)) (HeapAlloc h n))"

definition MemAllocAligned :: "mem_state \<Rightarrow> nat \<Rightarrow> u32 \<Rightarrow> (nat option \<times> mem_state) option" where
  "MemAllocAligned s n al =
     Option.bind (gHeap s) (\<lambda>h. map_option (\<lambda>(r, g). (r, s\<lparr>gHeap := Some g\<rparr>)) (HeapAllocAligned h n al))"

definition MemAllocArray :: "mem_state \<Rightarrow> nat \<Rightarrow> nat \<Rightarrow> (nat option \<times> mem_state) option" where
  "MemAllocArray s k n =
     Option.bind (gHeap s) (\<lambda>h. map_option (\<lambda>(r, g). (r, s\<lparr>gHeap := Some g\<rparr>)) (HeapAllocArray h k n))"

definition MemFree :: "mem_state \<Rightarrow> nat \<Rightarrow> mem_state option" where
  "MemFree s p = map_option (\<lambda>h. s\<lparr>gHeap := Some (HeapFree h p)\<rparr>) (gHeap s)"

definition MemFreeSecure :: "mem_state \<Rightarrow> nat \<Rightarrow> mem_state option" where
  "MemFreeSecure s p = Option.bind (gHeap s) (\<lambda>h. map_option (\<lambda>g. s\<lparr>gHeap := Some g\<rparr>) (HeapFreeSecure h p))"

definition MemVirtualToPhysical :: "mem_state \<Rightarrow> u64 \<Rightarrow> u64 option" where
  "MemVirtualToPhysical s = ArenaVirtualToPhysical (gMemoryArena s)"

definition MemPhysicalToVirtual :: "mem_state \<Rightarrow> u64 \<Rightarrow> u64 option" where
  "MemPhysicalToVirtual s = ArenaPhysicalToVirtual (gMemoryArena s)"

section \<open>Translation\<close>

text \<open>
  The documented shape of the pages: the mapping is page aligned and does not wrap, and the
  MDL lists one distinct frame below 256 TB per page.
\<close>

definition pages_ok :: "mdl \<Rightarrow> u64 \<Rightarrow> nat \<Rightarrow> bool" where
  "pages_ok m base n \<longleftrightarrow> mdl_VirtualAddress m AND 0xFFF = 0 \<and> mdl_ByteCount m = n * 4096 \<and>
     length (mdl_pfns m) = n \<and> distinct (mdl_pfns m) \<and>
     (\<forall>f \<in> set (mdl_pfns m). 0 < f \<and> f < 2 ^ 36) \<and> 4096 dvd unat base \<and> unat base + n * 4096 < 2 ^ 64"

lemma pfn_search_hit:
  "distinct pfns \<Longrightarrow> length pfns = i + k \<Longrightarrow> i \<le> j \<Longrightarrow> j < length pfns \<Longrightarrow>
     pfn_search pfns (pfns ! j) k i = Some (Some j)"
proof (induction k arbitrary: i)
  case (Suc k)
  show ?case
  proof (cases "i = j")
    case False
    then have "pfns ! j \<noteq> pfns ! i" using Suc.prems by (simp add: nth_eq_iff_index_eq)
    then show ?thesis using Suc.IH [of "i + 1"] Suc.prems False by simp
  qed (use Suc.prems in simp)
qed simp

lemma unat_page_offset: "unat (x AND 0xFFF :: u64) = unat x mod 4096"
proof -
  have "x AND 0xFFF = take_bit 12 x" by (simp add: take_bit_eq_mask mask_eq_exp_minus_1)
  then show ?thesis by (simp add: take_bit_eq_mod unat_mod)
qed

lemma unat_drop_page: "unat (drop_bit 12 x :: u64) = unat x div 4096"
  by (simp add: drop_bit_eq_div unat_div)

lemma unat_push_page: "f < 2 ^ 36 \<Longrightarrow> unat (push_bit 12 f :: u64) = unat f * 4096"
  by (simp add: push_bit_eq_mult unat_word_ariths word_less_nat_alt)

lemma BYTES_TO_PAGES_le: "n < 2 ^ 30 \<Longrightarrow> BYTES_TO_PAGES n \<le> 2 ^ 18"
  using div_le_mono [of n "2 ^ 30 - 1" 4096] by (simp add: BYTES_TO_PAGES_def)

lemma translate:
  assumes m: "ar_Mdl A = Some m" "pages_ok m (ar_BaseAddress A) (ar_NumberOfPages A)"
    and n: "ar_NumberOfPages A * 4096 < 2 ^ 32"
    and a: "unat (ar_BaseAddress A) \<le> unat a" "unat a < unat (ar_BaseAddress A) + ar_NumberOfPages A * 4096"
  shows "\<exists>p. ArenaVirtualToPhysical A a = Some p \<and> p \<noteq> 0 \<and> p AND 0xFFF = a AND 0xFFF \<and>
    unat p div 4096 = unat (mdl_pfns m ! ((unat a - unat (ar_BaseAddress A)) div 4096)) \<and>
    ArenaPhysicalToVirtual A p = Some a"
proof -
  let ?b = "ar_BaseAddress A" and ?n = "ar_NumberOfPages A"
  have k: "mdl_VirtualAddress m AND 0xFFF = 0" "mdl_ByteCount m = ?n * 4096" "length (mdl_pfns m) = ?n"
    "distinct (mdl_pfns m)" "unat ?b mod 4096 = 0" "unat ?b + ?n * 4096 < 2 ^ 64"
    and fr: "\<And>i. i < ?n \<Longrightarrow> 0 < mdl_pfns m ! i \<and> mdl_pfns m ! i < 2 ^ 36"
    using m(2) by (auto simp: pages_ok_def)
  define i where "i = (unat a - unat ?b) div 4096"
  have i: "i < ?n" using a by (simp add: i_def)
  have fin: "unat (?b + word_of_nat ((?n * 4096) mod 2 ^ 32)) = unat ?b + ?n * 4096"
    using n k(6) by (simp add: unat_word_ariths unat_of_nat)
  have sub: "unat (a - ?b) = unat a - unat ?b" using a(1) by (simp add: unat_sub word_le_nat_alt)
  let ?f = "mdl_pfns m ! i"
  define p where "p = push_bit 12 ?f + (a AND 0xFFF)"
  have f: "0 < unat ?f" "unat ?f < 2 ^ 36" "?f < 2 ^ 36"
    using fr [OF i] by (simp_all add: word_less_nat_alt)
  have up: "unat p = unat ?f * 4096 + unat a mod 4096"
    using unat_push_page [OF f(3)] f(2) by (simp add: p_def unat_word_ariths unat_page_offset)
  have v: "ArenaVirtualToPhysical A a = Some p"
    using a m(1) i k(3) fin sub
    by (simp add: ArenaVirtualToPhysical_def Let_def word_le_nat_alt word_less_nat_alt unat_drop_page p_def i_def)
  have pd: "unat p div 4096 = unat ?f" "unat p mod 4096 = unat a mod 4096" using up by simp_all
  have dp: "drop_bit 12 p = ?f" using pd(1) by (simp add: word_unat_eq_iff unat_drop_page)
  have po: "p AND 0xFFF = a AND 0xFFF" using pd(2) by (simp add: word_unat_eq_iff unat_page_offset)
  have e: "ADDRESS_AND_SIZE_TO_SPAN_PAGES (mdl_VirtualAddress m) (mdl_ByteCount m) = ?n"
    using k(1,2) by (simp add: ADDRESS_AND_SIZE_TO_SPAN_PAGES_def)
  have s: "pfn_search (mdl_pfns m) ?f ?n 0 = Some (Some i)"
    using pfn_search_hit [of "mdl_pfns m" 0 ?n i] k(3,4) i by simp
  have "unat ?b + i * 4096 + unat a mod 4096 = unat a"
  proof -
    obtain q r where "unat ?b = 4096 * q" "unat a = unat ?b + r"
      using k(5) a(1) by (metis dvd_def mod_0_imp_dvd le_iff_add)
    then have "(unat a - unat ?b) mod 4096 = unat a mod 4096" by simp
    then show ?thesis
      unfolding i_def using a(1) div_mult_mod_eq [of "unat a - unat ?b" 4096] by linarith
  qed
  then have "?b + word_of_nat ((i * 4096) mod 2 ^ 32) + (p AND 0xFFF) = a"
    using i n k(6) a(2) po by (simp add: word_unat_eq_iff unat_word_ariths unat_of_nat unat_page_offset)
  then have "ArenaPhysicalToVirtual A p = Some a"
    using m(1) e s dp by (simp add: ArenaPhysicalToVirtual_def Let_def)
  moreover have "p \<noteq> 0" using up f(1) by auto
  ultimately show ?thesis using v po pd(1) by (auto simp: i_def)
qed

definition example_pages :: "nat \<Rightarrow> mdl option" where
  "example_pages k = (if k = 65536 then Some \<lparr>mdl_pfns = [5, 6, 7, 8, 9, 10, 11, 12, 13, 14, 15, 16, 17, 18, 19, 90],
     mdl_ByteCount = 65536, mdl_VirtualAddress = 0\<rparr> else None)"

definition example_mem :: mem_state where
  "example_mem = \<lparr>gMemoryArena = zero_arena, gHeap = None\<rparr>"

abbreviation zero_headers :: blocks where
  "zero_headers \<equiv> \<lambda>_. \<lparr>hb_state = 0, hb_size = 0, hb_pprev = 0, hb_pnext = 0, hb_vprev = 0, hb_vnext = 0\<rparr>"

lemma example_pages_ok: "example_pages k = Some m \<Longrightarrow> mdl_ByteCount m = k \<Longrightarrow> pages_ok m 0x100000 (k div 4096)"
  by (auto simp: example_pages_def pages_ok_def split: if_splits)

definition example_state :: mem_state where
  "example_state = fst (snd (MemInit example_pages 0x100000 0 zero_headers (\<lambda>_. 0) example_mem 65536))"

lemma example_mem_init:
  "MemInit example_pages 0x100000 0 zero_headers (\<lambda>_. 0) example_mem 65536 =
     (0, example_state, [AllocatePages, MapPages])"
  by (simp add: example_state_def MemInit_def ArenaInit_def example_pages_def example_mem_def BYTES_TO_PAGES_def
      Let_def zero_arena_def HeapCreate_def)

section \<open>Properties\<close>

text \<open>
  Once \<open>MemInit\<close> has succeeded, every address inside the arena, so every pointer that
  the driver's allocator hands out, has a physical address with the same page offset in the
  frame of its page, and \<open>MemPhysicalToVirtual\<close> leads back to it.\<close>
theorem mem_translation_roundtrip:
  assumes "MemInit pages base protect B data s n = (Status, s', ev)" "NT_SUCCESS Status"
    and "\<And>k m. pages k = Some m \<Longrightarrow> mdl_ByteCount m = k \<Longrightarrow> pages_ok m base (k div 4096)"
    and "n < 2 ^ 30" "unat base \<le> unat a" "unat a < unat base + BYTES_TO_PAGES n * 4096"
  shows "\<exists>p. MemVirtualToPhysical s' a = Some p \<and> p \<noteq> 0 \<and> p AND 0xFFF = a AND 0xFFF \<and>
    MemPhysicalToVirtual s' p = Some a"
proof -
  let ?A = "gMemoryArena s'"
  have b: "BYTES_TO_PAGES n * 4096 < 2 ^ 32" using BYTES_TO_PAGES_le [OF assms(4)] by simp
  obtain m where m: "ar_Mdl ?A = Some m" "ar_BaseAddress ?A = base" "ar_NumberOfPages ?A = BYTES_TO_PAGES n"
    "pages (BYTES_TO_PAGES n * 4096) = Some m" "mdl_ByteCount m = BYTES_TO_PAGES n * 4096"
    using assms(1,2) b
    by (auto simp: MemInit_def ArenaInit_def Let_def zero_arena_def split: option.splits if_splits prod.splits)
  have "pages_ok m base (BYTES_TO_PAGES n)" using assms(3) [OF m(4,5)] by simp
  with translate [of ?A m a] m b assms(5,6) show ?thesis
    by (auto simp: MemVirtualToPhysical_def MemPhysicalToVirtual_def)
qed

theorem mem_translation_roundtrip_witness:
  "\<exists>p. MemVirtualToPhysical example_state 0x10F123 = Some p \<and> p \<noteq> 0 \<and> p AND 0xFFF = 0x10F123 AND 0xFFF \<and>
    MemPhysicalToVirtual example_state p = Some 0x10F123"
  by (rule mem_translation_roundtrip [OF example_mem_init _ example_pages_ok]) (simp_all add: BYTES_TO_PAGES_def)

text \<open>
  Starting the allocator is all or nothing: on success it holds one locked, mapped
  range and a well-formed heap that fills it, and on every failure each page, mapping and
  MDL it took has been given back and no heap is left.\<close>
theorem mem_init_all_or_nothing:
  assumes "gHeap s = None" "n < 2 ^ 30" "unat base + n < 2 ^ 64"
  shows "case MemInit pages base protect B data s n of (Status, s', ev) \<Rightarrow>
    (if NT_SUCCESS Status
     then ev = [AllocatePages, MapPages] \<and> (\<exists>h. gHeap s' = Some h \<and> heap_inv h {} \<and>
       hp_memory h = unat base + 4096 \<and> hp_size h = BYTES_TO_PAGES n * 4096 - 4096)
     else gHeap s' = None \<and> gMemoryArena s' = zero_arena \<and>
       ev \<in> {[], [AllocatePages, FreePages, FreeMdl], [AllocatePages, MapPages, UnmapPages, FreePages, FreeMdl]})"
proof -
  have b: "BYTES_TO_PAGES n * 4096 < 2 ^ 31" using BYTES_TO_PAGES_le [OF assms(2)] by simp
  show ?thesis
  proof (cases "MemInit pages base protect B data s n")
    case (fields Status s' ev)
    show ?thesis
    proof (cases "NT_SUCCESS Status")
      case True
      then obtain h where h: "gHeap s' = Some h" "HeapCreate B data (unat base) (BYTES_TO_PAGES n * 4096) = Some h"
        "ev = [AllocatePages, MapPages]"
        using fields b
        by (auto simp: MemInit_def ArenaInit_def Let_def zero_arena_def split: option.splits if_splits prod.splits)
      then show ?thesis using True fields HeapCreate_inv [OF h(2) b] HeapCreate_rep [OF h(2)] by simp
    next
      case False
      then show ?thesis using fields assms(1)
        by (auto simp: MemInit_def ArenaInit_def ArenaDone_def Let_def zero_arena_def split: option.splits if_splits prod.splits)
    qed
  qed
qed

theorem mem_init_all_or_nothing_witness:
  "case MemInit example_pages 0x100000 0 zero_headers (\<lambda>_. 0) example_mem 65536 of (Status, s', ev) \<Rightarrow>
    (if NT_SUCCESS Status
     then ev = [AllocatePages, MapPages] \<and> (\<exists>h. gHeap s' = Some h \<and> heap_inv h {} \<and>
       hp_memory h = unat (0x100000 :: u64) + 4096 \<and> hp_size h = BYTES_TO_PAGES 65536 * 4096 - 4096)
     else gHeap s' = None \<and> gMemoryArena s' = zero_arena \<and>
       ev \<in> {[], [AllocatePages, FreePages, FreeMdl], [AllocatePages, MapPages, UnmapPages, FreePages, FreeMdl]})"
  by (rule mem_init_all_or_nothing) (simp_all add: example_mem_def)

end
