(* ===== verification/Transition.thy ===== *)
theory Transition
  imports Prelude
begin

text \<open>
  Step relations, their reachable states, and the two interfaces under which the
  concurrent components are verified: an inductive invariant, and a simulation by a more
  abstract system.  The last section holds what every spin lock shares: a lock word and
  the threads that are between acquiring and releasing it.
\<close>

inductive reach :: "('s \<Rightarrow> bool) \<Rightarrow> ('s \<Rightarrow> 's \<Rightarrow> bool) \<Rightarrow> 's \<Rightarrow> bool" for init step where
  reach_init: "init s \<Longrightarrow> reach init step s"
| reach_step: "reach init step s \<Longrightarrow> step s s' \<Longrightarrow> reach init step s'"

locale invariant_system =
  fixes init :: "'s \<Rightarrow> bool" and step :: "'s \<Rightarrow> 's \<Rightarrow> bool" and inv :: "'s \<Rightarrow> bool"
  assumes init_inv: "init s \<Longrightarrow> inv s"
    and step_inv: "inv s \<Longrightarrow> step s s' \<Longrightarrow> inv s'"
begin

lemma reach_inv: "reach init step s \<Longrightarrow> inv s"
  by (induction rule: reach.induct) (auto intro: init_inv step_inv)

end

text \<open>Every step is either invisible or a step of the abstract system.\<close>

locale simulation = invariant_system init step inv
  for init :: "'s \<Rightarrow> bool" and step :: "'s \<Rightarrow> 's \<Rightarrow> bool" and inv :: "'s \<Rightarrow> bool" +
  fixes ainit :: "'a \<Rightarrow> bool" and astep :: "'a \<Rightarrow> 'a \<Rightarrow> bool" and absf :: "'s \<Rightarrow> 'a"
  assumes init_abs: "init s \<Longrightarrow> ainit (absf s)"
    and step_abs: "inv s \<Longrightarrow> step s s' \<Longrightarrow> absf s' = absf s \<or> astep (absf s) (absf s')"
begin

lemma reach_abs: "reach init step s \<Longrightarrow> reach ainit astep (absf s)"
proof (induction rule: reach.induct)
  case (reach_init s)
  then show ?case by (simp add: init_abs reach.reach_init)
next
  case (reach_step s s')
  then show ?case using step_abs [OF reach_inv] reach.reach_step by fastforce
qed

end

section \<open>Lock words\<close>

text \<open>The word is 0 and nobody is inside, or it is 1 and exactly one thread is.\<close>

definition lock_inv :: "'a::len word \<Rightarrow> (nat \<Rightarrow> bool) \<Rightarrow> bool" where
  "lock_inv l inside \<longleftrightarrow> (l = 0 \<and> (\<forall>t. \<not> inside t)) \<or> (l = 1 \<and> (\<exists>t. \<forall>u. inside u \<longleftrightarrow> u = t))"

lemma lock_inv_01: "lock_inv l inside \<Longrightarrow> l = 0 \<or> l = 1"
  by (auto simp: lock_inv_def)

lemma lock_inv_none: "lock_inv 0 (\<lambda>t. False)"
  by (simp add: lock_inv_def)

lemma lock_inv_taken: "lock_inv l inside \<Longrightarrow> inside t \<Longrightarrow> l = 1 \<and> (\<forall>u. inside u \<longleftrightarrow> u = t)"
  by (auto simp: lock_inv_def)

lemma lock_inv_free: "lock_inv 0 inside \<longleftrightarrow> (\<forall>t. \<not> inside t)"
  by (auto simp: lock_inv_def)

lemma lock_inv_acquire: "lock_inv 0 inside \<Longrightarrow> lock_inv 1 (inside(t := True))"
  by (auto simp: lock_inv_def)

lemma lock_inv_release: "lock_inv l inside \<Longrightarrow> inside t \<Longrightarrow> lock_inv 0 (inside(t := False))"
  by (auto simp: lock_inv_def)

lemma lock_inv_same: "lock_inv l inside \<Longrightarrow> inside t = b \<Longrightarrow> lock_inv l (inside(t := b))"
  by (auto simp: lock_inv_def)

text \<open>Two threads are never inside at once.\<close>

lemma lock_inv_excl: "lock_inv l inside \<Longrightarrow> inside t \<Longrightarrow> inside u \<Longrightarrow> t = u"
  by (auto simp: lock_inv_def)

end
