(* ===== verification/Sync.thy ===== *)
theory Sync
  imports Transition
begin

text \<open>
  Spin locks and semaphores of \<open>src/sync.c\<close>.  The first part gives each routine its effect
  when it runs alone.  The second runs any number of threads through \<open>SemaphoreSignal\<close> and
  \<open>SemaphoreWait\<close>, one interlocked operation at a time, and shows that the semaphore they
  implement is atomic: this is what lets the barrier be modelled with the first part's
  semaphores.
\<close>

section \<open>The routines\<close>

type_synonym spinlock = u64

text \<open>\<open>InterlockedCompareExchange64\<close>: the old value and the new contents.\<close>

definition compare_exchange :: "u64 \<Rightarrow> u64 \<Rightarrow> u64 \<Rightarrow> u64 \<times> u64" where
  "compare_exchange l exchange comperand = (l, if l = comperand then exchange else l)"

definition SpinTryLock :: "spinlock \<Rightarrow> bool \<times> spinlock" where
  "SpinTryLock l = (let (old, l') = compare_exchange l 1 0 in (old = 0, l'))"

text \<open>\<open>SpinLock\<close> run alone: \<open>None\<close> when the loop would not end.\<close>

definition SpinLock :: "spinlock \<Rightarrow> spinlock option" where
  "SpinLock l = (if fst (SpinTryLock l) then Some (snd (SpinTryLock l)) else None)"

definition SpinAcquired :: "spinlock \<Rightarrow> bool" where
  "SpinAcquired l \<longleftrightarrow> l = 1"

definition SpinUnlock :: "spinlock \<Rightarrow> spinlock" where
  "SpinUnlock l = snd (compare_exchange l 0 1)"

lemma spin_simps [simp]:
  "SpinTryLock 0 = (True, 1)" "SpinTryLock 1 = (False, 1)" "SpinUnlock 1 = 0" "SpinUnlock 0 = 0"
  "SpinLock 0 = Some 1" "SpinLock 1 = None"
  by (simp_all add: SpinTryLock_def SpinUnlock_def SpinLock_def compare_exchange_def)

text \<open>Counts are signed 64-bit integers that the code never brings near the limits.\<close>

type_synonym atomic = int

definition AtomicRead :: "atomic \<Rightarrow> atomic" where
  "AtomicRead a = a + 0"

definition AtomicWrite :: "atomic \<Rightarrow> atomic \<Rightarrow> atomic" where
  "AtomicWrite a value = value"

record semaphore =
  sm_lock :: spinlock
  sm_count :: atomic

definition SemaphoreSet :: "semaphore \<Rightarrow> atomic \<Rightarrow> semaphore option" where
  "SemaphoreSet s threadCount =
     map_option (\<lambda>l. \<lparr>sm_lock = SpinUnlock l, sm_count = AtomicWrite (sm_count s) threadCount\<rparr>) (SpinLock (sm_lock s))"

definition SemaphoreSignal :: "semaphore \<Rightarrow> semaphore option" where
  "SemaphoreSignal s =
     map_option (\<lambda>l. let count = AtomicRead (sm_count s)
                    in \<lparr>sm_lock = SpinUnlock l, sm_count = AtomicWrite (sm_count s) (count + 1)\<rparr>)
       (SpinLock (sm_lock s))"

text \<open>Run alone, a wait on a count below 1 does not end.\<close>

definition SemaphoreWait :: "semaphore \<Rightarrow> semaphore option" where
  "SemaphoreWait s =
     Option.bind (SpinLock (sm_lock s)) (\<lambda>l.
       let count = AtomicRead (sm_count s)
       in if 1 \<le> count
          then Some \<lparr>sm_lock = SpinUnlock l, sm_count = AtomicWrite (sm_count s) (count - 1)\<rparr>
          else None)"

section \<open>Threads inside a semaphore's routines\<close>

text \<open>
  One constructor per interlocked operation that the thread is about to execute, with the
  local variable \<open>count\<close> where it is live.
\<close>

datatype sem_pc =
    SemIdle
  | SigLock | SigRead | SigWrite atomic | SigUnlock
  | WaitLock | WaitRead | WaitTest atomic | WaitWrite atomic | WaitRetry | WaitUnlock

record sem_state =
  ss_sem :: semaphore
  ss_pc :: "nat \<Rightarrow> sem_pc"

definition set_pc :: "sem_state \<Rightarrow> nat \<Rightarrow> sem_pc \<Rightarrow> sem_state" where
  "set_pc s t p = s\<lparr>ss_pc := (ss_pc s)(t := p)\<rparr>"

definition set_lock :: "sem_state \<Rightarrow> spinlock \<Rightarrow> sem_state" where
  "set_lock s l = s\<lparr>ss_sem := (ss_sem s)\<lparr>sm_lock := l\<rparr>\<rparr>"

definition set_count :: "sem_state \<Rightarrow> atomic \<Rightarrow> sem_state" where
  "set_count s c = s\<lparr>ss_sem := (ss_sem s)\<lparr>sm_count := AtomicWrite (sm_count (ss_sem s)) c\<rparr>\<rparr>"

definition try_lock :: "sem_state \<Rightarrow> nat \<Rightarrow> sem_pc \<Rightarrow> sem_pc \<Rightarrow> sem_state" where
  "try_lock s t won lost =
     (let (got, l) = SpinTryLock (sm_lock (ss_sem s))
      in set_pc (set_lock s l) t (if got then won else lost))"

definition unlock :: "sem_state \<Rightarrow> nat \<Rightarrow> sem_pc \<Rightarrow> sem_state" where
  "unlock s t p = set_pc (set_lock s (SpinUnlock (sm_lock (ss_sem s)))) t p"

definition sem_next :: "nat \<Rightarrow> sem_state \<Rightarrow> sem_state" where
  "sem_next t s =
     (case ss_pc s t of
        SemIdle \<Rightarrow> s
      | SigLock \<Rightarrow> try_lock s t SigRead SigLock
      | SigRead \<Rightarrow> set_pc s t (SigWrite (AtomicRead (sm_count (ss_sem s))))
      | SigWrite count \<Rightarrow> set_pc (set_count s (count + 1)) t SigUnlock
      | SigUnlock \<Rightarrow> unlock s t SemIdle
      | WaitLock \<Rightarrow> try_lock s t WaitRead WaitLock
      | WaitRead \<Rightarrow> set_pc s t (WaitTest (AtomicRead (sm_count (ss_sem s))))
      | WaitTest count \<Rightarrow> set_pc s t (if 1 \<le> count then WaitWrite count else WaitRetry)
      | WaitWrite count \<Rightarrow> set_pc (set_count s (count - 1)) t WaitUnlock
      | WaitRetry \<Rightarrow> unlock s t WaitLock
      | WaitUnlock \<Rightarrow> unlock s t SemIdle)"

inductive sem_step :: "sem_state \<Rightarrow> sem_state \<Rightarrow> bool" where
  call_signal: "ss_pc s t = SemIdle \<Longrightarrow> sem_step s (set_pc s t SigLock)"
| call_wait: "ss_pc s t = SemIdle \<Longrightarrow> sem_step s (set_pc s t WaitLock)"
| run_thread: "sem_step s (sem_next t s)"

definition sem_init :: "sem_state \<Rightarrow> bool" where
  "sem_init s \<longleftrightarrow> sm_lock (ss_sem s) = 0 \<and> 0 \<le> sm_count (ss_sem s) \<and> ss_pc s = (\<lambda>t. SemIdle)"

text \<open>The atomic semaphore: a signal adds one, a wait takes one when there is one.\<close>

datatype asem_pc = Idle | Signalling | Signalled | Waiting | Waited

inductive asem_step :: "atomic \<times> (nat \<Rightarrow> asem_pc) \<Rightarrow> atomic \<times> (nat \<Rightarrow> asem_pc) \<Rightarrow> bool" where
  "pc t = Idle \<Longrightarrow> asem_step (c, pc) (c, pc(t := Signalling))"
| "pc t = Idle \<Longrightarrow> asem_step (c, pc) (c, pc(t := Waiting))"
| "pc t = Signalling \<Longrightarrow> asem_step (c, pc) (c + 1, pc(t := Signalled))"
| "pc t = Waiting \<Longrightarrow> 1 \<le> c \<Longrightarrow> asem_step (c, pc) (c - 1, pc(t := Waited))"
| "pc t = Signalled \<Longrightarrow> asem_step (c, pc) (c, pc(t := Idle))"
| "pc t = Waited \<Longrightarrow> asem_step (c, pc) (c, pc(t := Idle))"

definition asem_init :: "atomic \<times> (nat \<Rightarrow> asem_pc) \<Rightarrow> bool" where
  "asem_init a \<longleftrightarrow> 0 \<le> fst a \<and> snd a = (\<lambda>t. Idle)"

fun abs_pc :: "sem_pc \<Rightarrow> asem_pc" where
  "abs_pc SemIdle = Idle"
| "abs_pc SigLock = Signalling"
| "abs_pc SigRead = Signalling"
| "abs_pc (SigWrite c) = Signalling"
| "abs_pc SigUnlock = Signalled"
| "abs_pc WaitUnlock = Waited"
| "abs_pc p = Waiting"

definition abs_sem :: "sem_state \<Rightarrow> atomic \<times> (nat \<Rightarrow> asem_pc)" where
  "abs_sem s = (sm_count (ss_sem s), abs_pc \<circ> ss_pc s)"

section \<open>The semaphore is atomic\<close>

fun in_section :: "sem_pc \<Rightarrow> bool" where
  "in_section SemIdle = False"
| "in_section SigLock = False"
| "in_section WaitLock = False"
| "in_section p = True"

fun knows :: "sem_pc \<Rightarrow> atomic \<Rightarrow> bool" where
  "knows (SigWrite c) count = (c = count)"
| "knows (WaitTest c) count = (c = count)"
| "knows (WaitWrite c) count = (c = count \<and> 1 \<le> c)"
| "knows p count = True"

definition sem_inv :: "sem_state \<Rightarrow> bool" where
  "sem_inv s \<longleftrightarrow> lock_inv (sm_lock (ss_sem s)) (in_section \<circ> ss_pc s) \<and>
     (\<forall>t. knows (ss_pc s t) (sm_count (ss_sem s))) \<and> 0 \<le> sm_count (ss_sem s)"

lemma set_sel [simp]:
  "ss_pc (set_pc s t p) = (ss_pc s)(t := p)" "ss_sem (set_pc s t p) = ss_sem s"
  "ss_pc (set_lock s l) = ss_pc s" "ss_sem (set_lock s l) = (ss_sem s)\<lparr>sm_lock := l\<rparr>"
  "ss_pc (set_count s c) = ss_pc s" "ss_sem (set_count s c) = (ss_sem s)\<lparr>sm_count := c\<rparr>"
  by (simp_all add: set_pc_def set_lock_def set_count_def AtomicWrite_def)

lemma knows_outside: "\<not> in_section p \<Longrightarrow> knows p c"
  by (cases p) simp_all

lemma sem_inv_move:
  assumes "sem_inv s" "in_section p = in_section (ss_pc s t)" "knows p (sm_count (ss_sem s))"
  shows "sem_inv (set_pc s t p)"
proof -
  from assms(1) have l: "lock_inv (sm_lock (ss_sem s)) (in_section \<circ> ss_pc s)" by (simp add: sem_inv_def)
  have "lock_inv (sm_lock (ss_sem s)) ((in_section \<circ> ss_pc s)(t := in_section p))"
    by (rule lock_inv_same [OF l]) (simp add: assms(2))
  then show ?thesis using assms(1,3) by (simp add: sem_inv_def fun_upd_comp)
qed

lemma sem_inv_try_lock:
  assumes i: "sem_inv s" and o: "\<not> in_section (ss_pc s t)" "in_section won" "\<not> in_section lost" "\<And>c. knows won c"
  shows "sem_inv (try_lock s t won lost)"
proof -
  from i have l: "lock_inv (sm_lock (ss_sem s)) (in_section \<circ> ss_pc s)" by (simp add: sem_inv_def)
  from lock_inv_01 [OF l] show ?thesis
  proof
    assume z: "sm_lock (ss_sem s) = 0"
    then show ?thesis using i o lock_inv_acquire [OF l [unfolded z], of t]
      by (simp add: sem_inv_def try_lock_def fun_upd_comp)
  next
    assume z: "sm_lock (ss_sem s) = 1"
    have "set_lock s 1 = s" using z by (cases s; cases "ss_sem s") (simp add: set_lock_def)
    moreover have "sem_inv (set_pc s t lost)" using sem_inv_move [OF i, of lost t] o knows_outside [OF o(3)] by simp
    ultimately show ?thesis using z by (simp only: try_lock_def spin_simps prod.case Let_def if_False)
  qed
qed

lemma sem_inv_unlock:
  assumes i: "sem_inv s" and o: "in_section (ss_pc s t)" "\<not> in_section p"
  shows "sem_inv (unlock s t p)"
proof -
  from i have l: "lock_inv (sm_lock (ss_sem s)) (in_section \<circ> ss_pc s)" by (simp add: sem_inv_def)
  show ?thesis using i o lock_inv_taken [OF l, of t] lock_inv_release [OF l, of t] knows_outside [OF o(2)]
    by (simp add: sem_inv_def unlock_def fun_upd_comp)
qed

lemma sem_inv_write:
  assumes i: "sem_inv s" and o: "in_section (ss_pc s t)" "in_section p" "\<And>c. knows p c" "0 \<le> c"
  shows "sem_inv (set_pc (set_count s c) t p)"
proof -
  from i have l: "lock_inv (sm_lock (ss_sem s)) (in_section \<circ> ss_pc s)" by (simp add: sem_inv_def)
  have "knows (ss_pc s u) c" if "u \<noteq> t" for u
    using lock_inv_taken [OF l, of t] o(1) that knows_outside [of "ss_pc s u"] by simp
  then show ?thesis using i o lock_inv_same [OF l, of t True] by (simp add: sem_inv_def fun_upd_comp)
qed

lemma sem_next_inv:
  assumes i: "sem_inv s" shows "sem_inv (sem_next t s)"
proof -
  have k: "knows (ss_pc s t) (sm_count (ss_sem s))" "0 \<le> sm_count (ss_sem s)" using i by (simp_all add: sem_inv_def)
  show ?thesis
  proof (cases "ss_pc s t")
    case SemIdle then show ?thesis using i by (simp add: sem_next_def)
  next
    case SigLock then show ?thesis using sem_inv_try_lock [OF i] by (simp add: sem_next_def)
  next
    case SigRead then show ?thesis using sem_inv_move [OF i] by (simp add: sem_next_def AtomicRead_def)
  next
    case SigWrite then show ?thesis using sem_inv_write [OF i] k by (simp add: sem_next_def)
  next
    case SigUnlock then show ?thesis using sem_inv_unlock [OF i] by (simp add: sem_next_def)
  next
    case WaitLock then show ?thesis using sem_inv_try_lock [OF i] by (simp add: sem_next_def)
  next
    case WaitRead then show ?thesis using sem_inv_move [OF i] by (simp add: sem_next_def AtomicRead_def)
  next
    case WaitTest then show ?thesis using sem_inv_move [OF i] k by (simp add: sem_next_def)
  next
    case WaitWrite then show ?thesis using sem_inv_write [OF i] k by (simp add: sem_next_def)
  next
    case WaitRetry then show ?thesis using sem_inv_unlock [OF i] by (simp add: sem_next_def)
  next
    case WaitUnlock then show ?thesis using sem_inv_unlock [OF i] by (simp add: sem_next_def)
  qed
qed

lemma sem_step_inv: "sem_step s s' \<Longrightarrow> sem_inv s \<Longrightarrow> sem_inv s'"
  by (induction rule: sem_step.induct) (auto intro: sem_inv_move sem_next_inv)

lemma abs_same: "abs_sem (set_lock s l) = abs_sem s"
  "abs_pc p = abs_pc (ss_pc s t) \<Longrightarrow> abs_sem (set_pc s t p) = abs_sem s"
  by (simp_all add: abs_sem_def fun_upd_comp fun_upd_idem)

lemma sem_next_abs:
  assumes i: "sem_inv s" shows "abs_sem (sem_next t s) = abs_sem s \<or> asem_step (abs_sem s) (abs_sem (sem_next t s))"
proof -
  have k: "knows (ss_pc s t) (sm_count (ss_sem s))" using i by (simp add: sem_inv_def)
  note S = abs_sem_def fun_upd_comp unlock_def sem_next_def
  show ?thesis
  proof (cases "ss_pc s t")
    case SemIdle then show ?thesis by (simp add: sem_next_def)
  next
    case SigLock then show ?thesis by (simp add: sem_next_def try_lock_def abs_same Let_def split: prod.splits)
  next
    case SigRead then show ?thesis by (simp add: sem_next_def abs_same)
  next
    case (SigWrite c)
    then show ?thesis using k asem_step.intros(3) [of "abs_pc \<circ> ss_pc s" t] by (simp add: S)
  next
    case SigUnlock
    then show ?thesis using asem_step.intros(5) [of "abs_pc \<circ> ss_pc s" t] by (simp add: S)
  next
    case WaitLock then show ?thesis by (simp add: sem_next_def try_lock_def abs_same Let_def split: prod.splits)
  next
    case WaitRead then show ?thesis by (simp add: sem_next_def abs_same)
  next
    case WaitTest then show ?thesis by (simp add: sem_next_def abs_same)
  next
    case (WaitWrite c)
    then show ?thesis using k asem_step.intros(4) [of "abs_pc \<circ> ss_pc s" t] by (simp add: S)
  next
    case WaitRetry then show ?thesis by (simp add: sem_next_def unlock_def abs_same)
  next
    case WaitUnlock
    then show ?thesis using asem_step.intros(6) [of "abs_pc \<circ> ss_pc s" t] by (simp add: S)
  qed
qed

lemma sem_step_abs:
  "sem_step s s' \<Longrightarrow> sem_inv s \<Longrightarrow> abs_sem s' = abs_sem s \<or> asem_step (abs_sem s) (abs_sem s')"
proof (induction rule: sem_step.induct)
  case (call_signal s t)
  then show ?case using asem_step.intros(1) [of "abs_pc \<circ> ss_pc s" t] by (simp add: abs_sem_def fun_upd_comp)
next
  case (call_wait s t)
  then show ?case using asem_step.intros(2) [of "abs_pc \<circ> ss_pc s" t] by (simp add: abs_sem_def fun_upd_comp)
qed (rule sem_next_abs)

lemma sem_init_inv: "sem_init s \<Longrightarrow> sem_inv s"
  using lock_inv_none by (simp add: sem_init_def sem_inv_def comp_def)

lemma sem_init_abs: "sem_init s \<Longrightarrow> asem_init (abs_sem s)"
  by (simp add: sem_init_def asem_init_def abs_sem_def comp_def)

interpretation sem: simulation sem_init sem_step sem_inv asem_init asem_step abs_sem
  by unfold_locales (rule sem_init_inv sem_step_inv sem_init_abs sem_step_abs; assumption)+

section \<open>Properties\<close>


text \<open>Thread 0 waits on a count of 2 while thread 1 spins.\<close>

definition sem_example :: sem_state where
  "sem_example = \<lparr>ss_sem = \<lparr>sm_lock = 0, sm_count = 2\<rparr>, ss_pc = (\<lambda>t. SemIdle)\<rparr>"

definition sem_example' :: sem_state where
  "sem_example' = sem_next 0 (sem_next 0 (sem_next 1 (sem_next 0 (sem_next 0
     (set_pc (set_pc sem_example 0 WaitLock) 1 SigLock)))))"

lemma sem_example_reach: "reach sem_init sem_step sem_example'"
proof -
  have "reach sem_init sem_step sem_example"
    by (rule reach_init) (simp add: sem_init_def sem_example_def)
  then have "reach sem_init sem_step (set_pc sem_example 0 WaitLock)"
    by (rule reach_step) (rule call_wait, simp add: sem_example_def)
  then have "reach sem_init sem_step (set_pc (set_pc sem_example 0 WaitLock) 1 SigLock)"
    by (rule reach_step) (rule call_signal, simp add: sem_example_def)
  then show ?thesis unfolding sem_example'_def by - ((rule reach_step [where step = sem_step, OF _ run_thread])+, assumption)
qed


end
