(* ===== verification/Barrier.thy ===== *)
theory Barrier
  imports Sync
begin

text \<open>
  The reusable thread barrier of \<open>src/sync.c\<close>: a counter under a spin lock and two
  turnstiles.  Threads run \<open>BarrierEnter\<close> and \<open>BarrierExit\<close> in turn; a step is one call of
  a primitive, the turnstiles being the atomic semaphores of theory Sync, or the counter's
  read, write and test, which the lock protects.
\<close>

section \<open>The routines\<close>

record barrier =
  br_maxThreads :: atomic
  br_lock :: spinlock
  br_count :: atomic
  br_turnstile1 :: semaphore
  br_turnstile2 :: semaphore

definition BarrierSet :: "barrier \<Rightarrow> atomic \<Rightarrow> barrier option" where
  "BarrierSet b threadCount =
     Option.bind (SpinLock (br_lock b)) (\<lambda>l.
     Option.bind (SemaphoreSet (br_turnstile1 b) 0) (\<lambda>t1.
     Option.bind (SemaphoreSet (br_turnstile2 b) 1) (\<lambda>t2.
       Some \<lparr>br_maxThreads = AtomicWrite (br_maxThreads b) threadCount, br_lock = SpinUnlock l,
             br_count = AtomicWrite (br_count b) 0, br_turnstile1 = t1, br_turnstile2 = t2\<rparr>)))"

text \<open>What a thread is about to do, in the order of the source.\<close>

datatype bar_pc =
    Outside
  | EnterLock | EnterCount | EnterWait2 | EnterSignal1 | EnterUnlock | EnterWait1 | EnterPass1
  | Inside
  | ExitLock | ExitCount | ExitWait1 | ExitSignal2 | ExitUnlock | ExitWait2 | ExitPass2

record bar_state =
  bs_bar :: barrier
  bs_pc :: "nat \<Rightarrow> bar_pc"

definition goto :: "bar_state \<Rightarrow> nat \<Rightarrow> barrier \<Rightarrow> bar_pc \<Rightarrow> bar_state" where
  "goto s t b p = \<lparr>bs_bar = b, bs_pc = (bs_pc s)(t := p)\<rparr>"

text \<open>\<open>None\<close> when the thread has to wait.\<close>

definition BarrierEnter :: "nat \<Rightarrow> bar_state \<Rightarrow> bar_state option" where
  "BarrierEnter t s =
     (let b = bs_bar s in
      case bs_pc s t of
        Outside \<Rightarrow> Some (goto s t b EnterLock)
      | EnterLock \<Rightarrow> map_option (\<lambda>l. goto s t (b\<lparr>br_lock := l\<rparr>) EnterCount) (SpinLock (br_lock b))
      | EnterCount \<Rightarrow>
          let count = AtomicRead (br_count b) + 1
          in Some (goto s t (b\<lparr>br_count := AtomicWrite (br_count b) count\<rparr>)
               (if count = AtomicRead (br_maxThreads b) then EnterWait2 else EnterUnlock))
      | EnterWait2 \<Rightarrow> map_option (\<lambda>m. goto s t (b\<lparr>br_turnstile2 := m\<rparr>) EnterSignal1) (SemaphoreWait (br_turnstile2 b))
      | EnterSignal1 \<Rightarrow> map_option (\<lambda>m. goto s t (b\<lparr>br_turnstile1 := m\<rparr>) EnterUnlock) (SemaphoreSignal (br_turnstile1 b))
      | EnterUnlock \<Rightarrow> Some (goto s t (b\<lparr>br_lock := SpinUnlock (br_lock b)\<rparr>) EnterWait1)
      | EnterWait1 \<Rightarrow> map_option (\<lambda>m. goto s t (b\<lparr>br_turnstile1 := m\<rparr>) EnterPass1) (SemaphoreWait (br_turnstile1 b))
      | EnterPass1 \<Rightarrow> map_option (\<lambda>m. goto s t (b\<lparr>br_turnstile1 := m\<rparr>) Inside) (SemaphoreSignal (br_turnstile1 b))
      | _ \<Rightarrow> None)"

definition BarrierExit :: "nat \<Rightarrow> bar_state \<Rightarrow> bar_state option" where
  "BarrierExit t s =
     (let b = bs_bar s in
      case bs_pc s t of
        Inside \<Rightarrow> Some (goto s t b ExitLock)
      | ExitLock \<Rightarrow> map_option (\<lambda>l. goto s t (b\<lparr>br_lock := l\<rparr>) ExitCount) (SpinLock (br_lock b))
      | ExitCount \<Rightarrow>
          let count = AtomicRead (br_count b) - 1
          in Some (goto s t (b\<lparr>br_count := AtomicWrite (br_count b) count\<rparr>)
               (if count = 0 then ExitWait1 else ExitUnlock))
      | ExitWait1 \<Rightarrow> map_option (\<lambda>m. goto s t (b\<lparr>br_turnstile1 := m\<rparr>) ExitSignal2) (SemaphoreWait (br_turnstile1 b))
      | ExitSignal2 \<Rightarrow> map_option (\<lambda>m. goto s t (b\<lparr>br_turnstile2 := m\<rparr>) ExitUnlock) (SemaphoreSignal (br_turnstile2 b))
      | ExitUnlock \<Rightarrow> Some (goto s t (b\<lparr>br_lock := SpinUnlock (br_lock b)\<rparr>) ExitWait2)
      | ExitWait2 \<Rightarrow> map_option (\<lambda>m. goto s t (b\<lparr>br_turnstile2 := m\<rparr>) ExitPass2) (SemaphoreWait (br_turnstile2 b))
      | ExitPass2 \<Rightarrow> map_option (\<lambda>m. goto s t (b\<lparr>br_turnstile2 := m\<rparr>) Outside) (SemaphoreSignal (br_turnstile2 b))
      | _ \<Rightarrow> None)"

inductive bar_step :: "nat \<Rightarrow> bar_state \<Rightarrow> bar_state \<Rightarrow> bool" for n where
  enter: "t < n \<Longrightarrow> BarrierEnter t s = Some s' \<Longrightarrow> bar_step n s s'"
| exit: "t < n \<Longrightarrow> BarrierExit t s = Some s' \<Longrightarrow> bar_step n s s'"

text \<open>The driver's barriers are zeroed and set to the number of threads that use them.\<close>

definition zero_barrier :: barrier where
  "zero_barrier = \<lparr>br_maxThreads = 0, br_lock = 0, br_count = 0,
     br_turnstile1 = \<lparr>sm_lock = 0, sm_count = 0\<rparr>, br_turnstile2 = \<lparr>sm_lock = 0, sm_count = 0\<rparr>\<rparr>"

definition bar_init :: "nat \<Rightarrow> bar_state \<Rightarrow> bool" where
  "bar_init n s \<longleftrightarrow> 0 < n \<and> BarrierSet zero_barrier (int n) = Some (bs_bar s) \<and> bs_pc s = (\<lambda>t. Outside)"

section \<open>The invariant\<close>

text \<open>Threads that the counter counts, and threads that hold the lock.\<close>

fun counted :: "bar_pc \<Rightarrow> bool" where
  "counted EnterWait2 = True" | "counted EnterSignal1 = True" | "counted EnterUnlock = True"
| "counted EnterWait1 = True" | "counted EnterPass1 = True" | "counted Inside = True"
| "counted ExitLock = True" | "counted ExitCount = True" | "counted _ = False"

fun locking :: "bar_pc \<Rightarrow> bool" where
  "locking EnterCount = True" | "locking EnterWait2 = True" | "locking EnterSignal1 = True"
| "locking EnterUnlock = True" | "locking ExitCount = True" | "locking ExitWait1 = True"
| "locking ExitSignal2 = True" | "locking ExitUnlock = True" | "locking _ = False"

text \<open>
  There is one token: it lies in a turnstile or is carried by a thread between its wait
  and its signal.  \<open>going_in\<close> tells whether the second turnstile is the open one.
\<close>

datatype token = In1 | In2 | With nat

fun carrying :: "bar_pc \<Rightarrow> bool" where
  "carrying EnterSignal1 = True" | "carrying EnterPass1 = True"
| "carrying ExitSignal2 = True" | "carrying ExitPass2 = True" | "carrying _ = False"

fun fits :: "bool \<Rightarrow> bar_pc \<Rightarrow> bool" where
  "fits ph Outside = ph" | "fits ph EnterLock = ph" | "fits ph EnterCount = ph"
| "fits ph EnterWait2 = ph" | "fits ph EnterSignal1 = ph" | "fits ph ExitPass2 = ph"
| "fits ph EnterPass1 = (\<not> ph)" | "fits ph Inside = (\<not> ph)" | "fits ph ExitLock = (\<not> ph)"
| "fits ph ExitCount = (\<not> ph)" | "fits ph ExitWait1 = (\<not> ph)" | "fits ph ExitSignal2 = (\<not> ph)"
| "fits ph EnterUnlock = True" | "fits ph EnterWait1 = True"
| "fits ph ExitUnlock = True" | "fits ph ExitWait2 = True"

text \<open>The last thread to arrive, and the last one to leave.\<close>

fun lastin :: "bar_pc \<Rightarrow> bool" where
  "lastin EnterWait2 = True" | "lastin EnterSignal1 = True" | "lastin _ = False"

fun lastout :: "bar_pc \<Rightarrow> bool" where
  "lastout ExitWait1 = True" | "lastout ExitSignal2 = True" | "lastout _ = False"

definition number :: "nat \<Rightarrow> (nat \<Rightarrow> bar_pc) \<Rightarrow> nat" where
  "number n pc = card {t \<in> {..<n}. counted (pc t)}"

definition bar_rep :: "nat \<Rightarrow> token \<Rightarrow> bool \<Rightarrow> bar_state \<Rightarrow> bool" where
  "bar_rep n k ph s \<longleftrightarrow>
     br_maxThreads (bs_bar s) = int n \<and> br_count (bs_bar s) = int (number n (bs_pc s)) \<and>
     br_turnstile1 (bs_bar s) = \<lparr>sm_lock = 0, sm_count = (if k = In1 then 1 else 0)\<rparr> \<and>
     br_turnstile2 (bs_bar s) = \<lparr>sm_lock = 0, sm_count = (if k = In2 then 1 else 0)\<rparr> \<and>
     lock_inv (br_lock (bs_bar s)) (locking \<circ> bs_pc s) \<and>
     (\<forall>t. carrying (bs_pc s t) \<longleftrightarrow> k = With t) \<and> (k = In1 \<longrightarrow> \<not> ph) \<and> (k = In2 \<longrightarrow> ph) \<and>
     (\<forall>t<n. fits ph (bs_pc s t)) \<and> (\<forall>t\<ge>n. bs_pc s t = Outside) \<and>
     ((\<exists>t. lastin (bs_pc s t)) \<longleftrightarrow> ph \<and> number n (bs_pc s) = n) \<and>
     ((\<exists>t. lastout (bs_pc s t)) \<longleftrightarrow> \<not> ph \<and> number n (bs_pc s) = 0)"

definition bar_inv :: "nat \<Rightarrow> bar_state \<Rightarrow> bool" where
  "bar_inv n s \<longleftrightarrow> (\<exists>k ph. bar_rep n k ph s)"

section \<open>Every step keeps it\<close>

lemma number_upd:
  assumes "t < n"
  shows "number n (pc(t := p)) + (if counted (pc t) then 1 else 0) = number n pc + (if counted p then 1 else 0)"
proof -
  let ?R = "{u \<in> {..<n}. u \<noteq> t \<and> counted (pc u)}"
  have "{u \<in> {..<n}. counted ((pc(t := q)) u)} = (if counted q then insert t ?R else ?R)" for q
    using assms by auto
  then have e: "number n (pc(t := q)) = card ?R + (if counted q then 1 else 0)" for q
    by (simp add: number_def)
  show ?thesis using e [of p] e [of "pc t"] by simp
qed

lemma number_same: "t < n \<Longrightarrow> counted p = counted (pc t) \<Longrightarrow> number n (pc(t := p)) = number n pc"
  using number_upd [of t n pc p] by auto

lemma number_all: "number n pc = n \<Longrightarrow> t < n \<Longrightarrow> counted (pc t)"
  using card_subset_eq [of "{..<n}" "{t \<in> {..<n}. counted (pc t)}"] by (auto simp: number_def)

lemma number_none: "number n pc = 0 \<Longrightarrow> t < n \<Longrightarrow> \<not> counted (pc t)"
  by (auto simp: number_def)

lemma last_locking: "lastin p \<Longrightarrow> locking p" "lastout p \<Longrightarrow> locking p"
  by (cases p; simp)+

lemma goto_sel [simp]: "bs_bar (goto s t b p) = b" "bs_pc (goto s t b p) = (bs_pc s)(t := p)"
  by (simp_all add: goto_def)

lemma ex_upd_same: "P p = P (f t) \<Longrightarrow> (\<exists>u. P ((f(t := p)) u)) \<longleftrightarrow> (\<exists>u. P (f u))"
  by auto

lemma ex_upd_only: "(\<And>u. u \<noteq> t \<Longrightarrow> \<not> P (f u)) \<Longrightarrow> (\<exists>u. P ((f(t := p)) u)) \<longleftrightarrow> P p"
  by auto

lemma bar_repD:
  assumes "bar_rep n k ph s"
  shows "br_maxThreads (bs_bar s) = int n" "br_count (bs_bar s) = int (number n (bs_pc s))"
    "br_turnstile1 (bs_bar s) = \<lparr>sm_lock = 0, sm_count = (if k = In1 then 1 else 0)\<rparr>"
    "br_turnstile2 (bs_bar s) = \<lparr>sm_lock = 0, sm_count = (if k = In2 then 1 else 0)\<rparr>"
    "lock_inv (br_lock (bs_bar s)) (locking \<circ> bs_pc s)"
    "carrying (bs_pc s t) \<longleftrightarrow> k = With t" "k = In1 \<Longrightarrow> \<not> ph" "k = In2 \<Longrightarrow> ph"
    "t < n \<Longrightarrow> fits ph (bs_pc s t)" "n \<le> t \<Longrightarrow> bs_pc s t = Outside"
    "(\<exists>t. lastin (bs_pc s t)) \<longleftrightarrow> ph \<and> number n (bs_pc s) = n"
    "(\<exists>t. lastout (bs_pc s t)) \<longleftrightarrow> \<not> ph \<and> number n (bs_pc s) = 0"
  using assms unfolding bar_rep_def by blast+

text \<open>A step that neither moves the counter nor opens the other turnstile.\<close>

lemma bar_rep_move:
  assumes rep: "bar_rep n k ph s" and t: "t < n"
    and p: "counted p = counted (bs_pc s t)" "fits ph p" "lastin p = lastin (bs_pc s t)" "lastout p = lastout (bs_pc s t)"
    and b: "br_maxThreads b = br_maxThreads (bs_bar s)" "br_count b = br_count (bs_bar s)"
      "br_turnstile1 b = \<lparr>sm_lock = 0, sm_count = (if k' = In1 then 1 else 0)\<rparr>"
      "br_turnstile2 b = \<lparr>sm_lock = 0, sm_count = (if k' = In2 then 1 else 0)\<rparr>"
      "lock_inv (br_lock b) ((locking \<circ> bs_pc s)(t := locking p))"
    and k: "carrying p \<longleftrightarrow> k' = With t" "\<And>u. u \<noteq> t \<Longrightarrow> (k' = With u) = (k = With u)"
      "k' = In1 \<Longrightarrow> \<not> ph" "k' = In2 \<Longrightarrow> ph"
  shows "bar_rep n k' ph (goto s t b p)"
proof -
  note R = bar_repD [OF rep]
  have n: "number n ((bs_pc s)(t := p)) = number n (bs_pc s)" using number_same [OF t, of p "bs_pc s"] p(1) by simp
  have "\<forall>u. carrying (((bs_pc s)(t := p)) u) \<longleftrightarrow> k' = With u" using R(6) k(1,2) by simp
  moreover have "\<forall>u<n. fits ph (((bs_pc s)(t := p)) u)" using R(9) p(2) by simp
  moreover have "\<forall>u\<ge>n. ((bs_pc s)(t := p)) u = Outside" using R(10) t by auto
  ultimately show ?thesis
    unfolding bar_rep_def goto_sel n ex_upd_same [where f = "bs_pc s" and P = lastin, OF p(3)] ex_upd_same [where f = "bs_pc s" and P = lastout, OF p(4)]
    using R(1,2,11,12) b k(3,4) by (simp add: fun_upd_comp)
qed

text \<open>A step of the thread that holds the lock, which may do both.\<close>

lemma bar_rep_locked:
  assumes rep: "bar_rep n k ph s" and t: "t < n" "locking (bs_pc s t)" "locking p"
    and b: "br_maxThreads b = br_maxThreads (bs_bar s)" "br_count b = int (number n ((bs_pc s)(t := p)))"
      "br_turnstile1 b = \<lparr>sm_lock = 0, sm_count = (if k' = In1 then 1 else 0)\<rparr>"
      "br_turnstile2 b = \<lparr>sm_lock = 0, sm_count = (if k' = In2 then 1 else 0)\<rparr>"
      "br_lock b = br_lock (bs_bar s)"
    and k: "carrying p \<longleftrightarrow> k' = With t" "\<And>u. u \<noteq> t \<Longrightarrow> (k' = With u) = (k = With u)"
      "k' = In1 \<Longrightarrow> \<not> ph'" "k' = In2 \<Longrightarrow> ph'"
    and f: "fits ph' p" "\<And>u. u < n \<Longrightarrow> u \<noteq> t \<Longrightarrow> fits ph' (bs_pc s u)"
    and l: "lastin p \<longleftrightarrow> ph' \<and> number n ((bs_pc s)(t := p)) = n" "lastout p \<longleftrightarrow> \<not> ph' \<and> number n ((bs_pc s)(t := p)) = 0"
  shows "bar_rep n k' ph' (goto s t b p)"
proof -
  note R = bar_repD [OF rep]
  have alone: "\<not> locking (bs_pc s u)" if "u \<noteq> t" for u using lock_inv_taken [OF R(5), of t] t(2) that by simp
  have li: "(\<exists>u. lastin (((bs_pc s)(t := p)) u)) \<longleftrightarrow> lastin p" "(\<exists>u. lastout (((bs_pc s)(t := p)) u)) \<longleftrightarrow> lastout p"
    using ex_upd_only [of t lastin "bs_pc s" p] ex_upd_only [of t lastout "bs_pc s" p] alone last_locking by blast+
  have "lock_inv (br_lock b) ((locking \<circ> bs_pc s)(t := locking p))"
    unfolding b(5) by (rule lock_inv_same [OF R(5)]) (simp add: t)
  moreover have "\<forall>u. carrying (((bs_pc s)(t := p)) u) \<longleftrightarrow> k' = With u" using R(6) k(1,2) by simp
  moreover have "\<forall>u<n. fits ph' (((bs_pc s)(t := p)) u)" using f by simp
  moreover have "\<forall>u\<ge>n. ((bs_pc s)(t := p)) u = Outside" using R(10) t by auto
  ultimately show ?thesis
    unfolding bar_rep_def goto_sel li using R(1) b k(3,4) l by (simp add: fun_upd_comp)
qed

lemma sem_ops [simp]:
  "SemaphoreWait \<lparr>sm_lock = 0, sm_count = c\<rparr> = (if 1 \<le> c then Some \<lparr>sm_lock = 0, sm_count = c - 1\<rparr> else None)"
  "SemaphoreSignal \<lparr>sm_lock = 0, sm_count = c\<rparr> = Some \<lparr>sm_lock = 0, sm_count = c + 1\<rparr>"
  by (simp_all add: SemaphoreWait_def SemaphoreSignal_def AtomicRead_def AtomicWrite_def)

lemma SpinLock_Some: "lock_inv l f \<Longrightarrow> SpinLock l = Some l' \<Longrightarrow> l = 0 \<and> l' = 1"
  using lock_inv_01 [of l f] by auto

lemma bar_lock:
  assumes rep: "bar_rep n k ph s" and "SpinLock (br_lock (bs_bar s)) = Some l'" "locking p"
  shows "lock_inv l' ((locking \<circ> bs_pc s)(t := locking p))"
  using bar_repD(5) [OF rep] SpinLock_Some [OF bar_repD(5) [OF rep] assms(2)] assms(3)
    lock_inv_acquire [of "locking \<circ> bs_pc s" t] by simp

lemma bar_unlock:
  assumes rep: "bar_rep n k ph s" and "locking (bs_pc s t)" "\<not> locking p"
  shows "lock_inv (SpinUnlock (br_lock (bs_bar s))) ((locking \<circ> bs_pc s)(t := locking p))"
  using lock_inv_taken [OF bar_repD(5) [OF rep], of t] lock_inv_release [OF bar_repD(5) [OF rep], of t] assms(2,3)
  by simp

lemma bar_keep:
  assumes rep: "bar_rep n k ph s" and "locking p = locking (bs_pc s t)"
  shows "lock_inv (br_lock (bs_bar s)) ((locking \<circ> bs_pc s)(t := locking p))"
  using lock_inv_same [OF bar_repD(5) [OF rep], of t] assms(2) by simp

lemma enter_inv:
  assumes rep: "bar_rep n k ph s" and t: "t < n" and e: "BarrierEnter t s = Some s'"
  shows "bar_inv n s'"
proof -
  note R = bar_repD [OF rep]
  have c: "carrying (bs_pc s t) \<longleftrightarrow> k = With t" and f: "fits ph (bs_pc s t)" using R(6,9) t by auto
  show ?thesis
  proof (cases "bs_pc s t")
    case Outside
    then have "s' = goto s t (bs_bar s) EnterLock" using e by (simp add: BarrierEnter_def Let_def)
    moreover have "bar_rep n k ph (goto s t (bs_bar s) EnterLock)"
      by (rule bar_rep_move [OF rep t]) (use Outside R(1-4,7,8) c f bar_keep [OF rep, of EnterLock t] in auto)
    ultimately show ?thesis by (auto simp: bar_inv_def)
  next
    case EnterLock
    then obtain l where l: "SpinLock (br_lock (bs_bar s)) = Some l" "s' = goto s t ((bs_bar s)\<lparr>br_lock := l\<rparr>) EnterCount"
      using e by (auto simp: BarrierEnter_def Let_def)
    have "bar_rep n k ph s'" unfolding l(2)
      by (rule bar_rep_move [OF rep t]) (use EnterLock R(1-4,7,8) c f bar_lock [OF rep l(1), of EnterCount t] in auto)
    then show ?thesis by (auto simp: bar_inv_def)
  next
    case EnterCount
    let ?p = "if int (number n (bs_pc s)) + 1 = int n then EnterWait2 else EnterUnlock"
    let ?b = "(bs_bar s)\<lparr>br_count := int (number n (bs_pc s)) + 1\<rparr>"
    have s': "s' = goto s t ?b ?p" using EnterCount e R(1,2) by (auto simp: BarrierEnter_def AtomicRead_def AtomicWrite_def Let_def)
    have m: "number n ((bs_pc s)(t := ?p)) = number n (bs_pc s) + 1"
      using number_upd [OF t, of "bs_pc s" ?p] EnterCount by auto
    have "bar_rep n k ph s'" unfolding s'
      by (rule bar_rep_locked [OF rep t]) (use EnterCount R(1-4,7-9) c f m in auto)
    then show ?thesis by (auto simp: bar_inv_def)
  next
    case EnterWait2
    then have k: "k = In2" "s' = goto s t ((bs_bar s)\<lparr>br_turnstile2 := \<lparr>sm_lock = 0, sm_count = 0\<rparr>\<rparr>) EnterSignal1"
      using e R(4) by (auto simp: BarrierEnter_def split: if_splits)
    have "bar_rep n (With t) ph s'" unfolding k(2)
      by (rule bar_rep_move [OF rep t]) (use EnterWait2 k(1) R(1-4) f bar_keep [OF rep, of EnterSignal1 t] in auto)
    then show ?thesis by (auto simp: bar_inv_def)
  next
    case EnterSignal1
    then have k: "k = With t" "ph" using c f by auto
    then have s': "s' = goto s t ((bs_bar s)\<lparr>br_turnstile1 := \<lparr>sm_lock = 0, sm_count = 1\<rparr>\<rparr>) EnterUnlock"
      using e R(3) EnterSignal1 by (auto simp: BarrierEnter_def)
    have all: "number n (bs_pc s) = n" using R(11) EnterSignal1 k(2) by (metis lastin.simps(2))
    have m: "number n ((bs_pc s)(t := EnterUnlock)) = n" using number_same [OF t, of EnterUnlock "bs_pc s"] EnterSignal1 all by simp
    have o: "fits False (bs_pc s u)" if "u < n" "u \<noteq> t" for u
    proof -
      have "\<not> locking (bs_pc s u)" using lock_inv_taken [OF R(5), of t] EnterSignal1 that by simp
      then show ?thesis using number_all [OF all that(1)] R(9) [OF that(1)] k(2) by (cases "bs_pc s u") auto
    qed
    have "bar_rep n In1 False s'" unfolding s'
      by (rule bar_rep_locked [OF rep t]) (use EnterSignal1 R(1-4) k o m t all in auto)
    then show ?thesis by (auto simp: bar_inv_def)
  next
    case EnterUnlock
    then have s': "s' = goto s t ((bs_bar s)\<lparr>br_lock := SpinUnlock (br_lock (bs_bar s))\<rparr>) EnterWait1"
      using e by (simp add: BarrierEnter_def Let_def)
    have "bar_rep n k ph s'" unfolding s'
      by (rule bar_rep_move [OF rep t]) (use EnterUnlock R(1-4,7,8) c f bar_unlock [OF rep, of t EnterWait1] in auto)
    then show ?thesis by (auto simp: bar_inv_def)
  next
    case EnterWait1
    then have k: "k = In1" "s' = goto s t ((bs_bar s)\<lparr>br_turnstile1 := \<lparr>sm_lock = 0, sm_count = 0\<rparr>\<rparr>) EnterPass1"
      using e R(3) by (auto simp: BarrierEnter_def split: if_splits)
    have "bar_rep n (With t) ph s'" unfolding k(2)
      by (rule bar_rep_move [OF rep t]) (use EnterWait1 k(1) R(1-4,7) f bar_keep [OF rep, of EnterPass1 t] in auto)
    then show ?thesis by (auto simp: bar_inv_def)
  next
    case EnterPass1
    then have k: "k = With t" using c by auto
    then have s': "s' = goto s t ((bs_bar s)\<lparr>br_turnstile1 := \<lparr>sm_lock = 0, sm_count = 1\<rparr>\<rparr>) Inside"
      using e R(3) EnterPass1 by (auto simp: BarrierEnter_def)
    have "bar_rep n In1 ph s'" unfolding s'
      by (rule bar_rep_move [OF rep t]) (use EnterPass1 R(1-4) k f bar_keep [OF rep, of Inside t] in auto)
    then show ?thesis by (auto simp: bar_inv_def)
  qed (use e in \<open>simp_all add: BarrierEnter_def\<close>)
qed

lemma exit_inv:
  assumes rep: "bar_rep n k ph s" and t: "t < n" and e: "BarrierExit t s = Some s'"
  shows "bar_inv n s'"
proof -
  note R = bar_repD [OF rep]
  have c: "carrying (bs_pc s t) \<longleftrightarrow> k = With t" and f: "fits ph (bs_pc s t)" using R(6,9) t by auto
  show ?thesis
  proof (cases "bs_pc s t")
    case Inside
    then have s': "s' = goto s t (bs_bar s) ExitLock" using e by (simp add: BarrierExit_def Let_def)
    have "bar_rep n k ph s'" unfolding s'
      by (rule bar_rep_move [OF rep t]) (use Inside R(1-4,7,8) c f bar_keep [OF rep, of ExitLock t] in auto)
    then show ?thesis by (auto simp: bar_inv_def)
  next
    case ExitLock
    then obtain l where l: "SpinLock (br_lock (bs_bar s)) = Some l" "s' = goto s t ((bs_bar s)\<lparr>br_lock := l\<rparr>) ExitCount"
      using e by (auto simp: BarrierExit_def Let_def)
    have "bar_rep n k ph s'" unfolding l(2)
      by (rule bar_rep_move [OF rep t]) (use ExitLock R(1-4,7,8) c f bar_lock [OF rep l(1), of ExitCount t] in auto)
    then show ?thesis by (auto simp: bar_inv_def)
  next
    case ExitCount
    let ?p = "if int (number n (bs_pc s)) - 1 = 0 then ExitWait1 else ExitUnlock"
    let ?b = "(bs_bar s)\<lparr>br_count := int (number n (bs_pc s)) - 1\<rparr>"
    have s': "s' = goto s t ?b ?p" using ExitCount e R(1,2) by (auto simp: BarrierExit_def AtomicRead_def AtomicWrite_def Let_def)
    have m: "number n ((bs_pc s)(t := ?p)) + 1 = number n (bs_pc s)"
      using number_upd [OF t, of "bs_pc s" ?p] ExitCount by auto
    have "bar_rep n k ph s'" unfolding s'
      by (rule bar_rep_locked [OF rep t]) (use ExitCount R(1-4,7-9) c f m in auto)
    then show ?thesis by (auto simp: bar_inv_def)
  next
    case ExitWait1
    then have k: "k = In1" "s' = goto s t ((bs_bar s)\<lparr>br_turnstile1 := \<lparr>sm_lock = 0, sm_count = 0\<rparr>\<rparr>) ExitSignal2"
      using e R(3) by (auto simp: BarrierExit_def split: if_splits)
    have "bar_rep n (With t) ph s'" unfolding k(2)
      by (rule bar_rep_move [OF rep t]) (use ExitWait1 k(1) R(1-4) f bar_keep [OF rep, of ExitSignal2 t] in auto)
    then show ?thesis by (auto simp: bar_inv_def)
  next
    case ExitSignal2
    then have k: "k = With t" "\<not> ph" using c f by auto
    then have s': "s' = goto s t ((bs_bar s)\<lparr>br_turnstile2 := \<lparr>sm_lock = 0, sm_count = 1\<rparr>\<rparr>) ExitUnlock"
      using e R(4) ExitSignal2 by (auto simp: BarrierExit_def)
    have all: "number n (bs_pc s) = 0" using R(12) ExitSignal2 k(2) by (metis lastout.simps(2))
    have m: "number n ((bs_pc s)(t := ExitUnlock)) = 0" using number_same [OF t, of ExitUnlock "bs_pc s"] ExitSignal2 all by simp
    have o: "fits True (bs_pc s u)" if "u < n" "u \<noteq> t" for u
    proof -
      have "\<not> locking (bs_pc s u)" using lock_inv_taken [OF R(5), of t] ExitSignal2 that by simp
      then show ?thesis using number_none [OF all that(1)] R(9) [OF that(1)] k(2) by (cases "bs_pc s u") auto
    qed
    have "bar_rep n In2 True s'" unfolding s'
      by (rule bar_rep_locked [OF rep t]) (use ExitSignal2 R(1-4) k o m t all in auto)
    then show ?thesis by (auto simp: bar_inv_def)
  next
    case ExitUnlock
    then have s': "s' = goto s t ((bs_bar s)\<lparr>br_lock := SpinUnlock (br_lock (bs_bar s))\<rparr>) ExitWait2"
      using e by (simp add: BarrierExit_def Let_def)
    have "bar_rep n k ph s'" unfolding s'
      by (rule bar_rep_move [OF rep t]) (use ExitUnlock R(1-4,7,8) c f bar_unlock [OF rep, of t ExitWait2] in auto)
    then show ?thesis by (auto simp: bar_inv_def)
  next
    case ExitWait2
    then have k: "k = In2" "s' = goto s t ((bs_bar s)\<lparr>br_turnstile2 := \<lparr>sm_lock = 0, sm_count = 0\<rparr>\<rparr>) ExitPass2"
      using e R(4) by (auto simp: BarrierExit_def split: if_splits)
    have "bar_rep n (With t) ph s'" unfolding k(2)
      by (rule bar_rep_move [OF rep t]) (use ExitWait2 k(1) R(1-4,8) f bar_keep [OF rep, of ExitPass2 t] in auto)
    then show ?thesis by (auto simp: bar_inv_def)
  next
    case ExitPass2
    then have k: "k = With t" using c by auto
    then have s': "s' = goto s t ((bs_bar s)\<lparr>br_turnstile2 := \<lparr>sm_lock = 0, sm_count = 1\<rparr>\<rparr>) Outside"
      using e R(4) ExitPass2 by (auto simp: BarrierExit_def)
    have "bar_rep n In2 ph s'" unfolding s'
      by (rule bar_rep_move [OF rep t]) (use ExitPass2 R(1-4) k f bar_keep [OF rep, of Outside t] in auto)
    then show ?thesis by (auto simp: bar_inv_def)
  qed (use e in \<open>simp_all add: BarrierExit_def\<close>)
qed

lemma bar_init_inv: "bar_init n s \<Longrightarrow> bar_inv n s"
proof -
  assume i: "bar_init n s"
  then have b: "bs_bar s = \<lparr>br_maxThreads = int n, br_lock = 0, br_count = 0,
      br_turnstile1 = \<lparr>sm_lock = 0, sm_count = 0\<rparr>, br_turnstile2 = \<lparr>sm_lock = 0, sm_count = 1\<rparr>\<rparr>"
    by (simp add: bar_init_def BarrierSet_def zero_barrier_def SemaphoreSet_def AtomicWrite_def)
  have "number n (bs_pc s) = 0" using i by (simp add: bar_init_def number_def)
  then have "bar_rep n In2 True s"
    using i b lock_inv_none by (simp add: bar_rep_def bar_init_def comp_def)
  then show ?thesis by (auto simp: bar_inv_def)
qed

lemma bar_step_inv: "bar_step n s s' \<Longrightarrow> bar_inv n s \<Longrightarrow> bar_inv n s'"
proof (induction rule: bar_step.induct)
  case (enter t s s') then show ?case using enter_inv [of n _ _ s t s'] unfolding bar_inv_def [of n s] by blast
next
  case (exit t s s') then show ?case using exit_inv [of n _ _ s t s'] unfolding bar_inv_def [of n s] by blast
qed

interpretation bar: invariant_system "bar_init n" "bar_step n" "bar_inv n" for n
  by unfold_locales (rule bar_init_inv bar_step_inv; assumption)+

section \<open>Progress\<close>

text \<open>Some thread of the barrier can always take a step, so it never blocks for good.\<close>

lemma bar_progress:
  assumes i: "bar_inv n s" and n: "0 < n"
  shows "\<exists>t<n. BarrierEnter t s \<noteq> None \<or> BarrierExit t s \<noteq> None"
proof -
  from i obtain k ph where rep: "bar_rep n k ph s" by (auto simp: bar_inv_def)
  note R = bar_repD [OF rep]
  have small: "t < n" if "bs_pc s t \<noteq> Outside" for t using R(10) [of t] that by (meson not_le)
  consider (carried) t where "k = With t" | (locked) t where "locking (bs_pc s t)" "\<forall>t. k \<noteq> With t"
    | (free) "\<forall>t. \<not> locking (bs_pc s t)" "\<forall>t. k \<noteq> With t" by blast
  then show ?thesis
  proof cases
    case carried
    then have c: "carrying (bs_pc s t)" using R(6) by simp
    have "BarrierEnter t s \<noteq> None \<or> BarrierExit t s \<noteq> None"
      using c R(3,4) by (cases "bs_pc s t") (auto simp: BarrierEnter_def BarrierExit_def Let_def)
    moreover have "t < n" by (rule small) (use c in auto)
    ultimately show ?thesis by blast
  next
    case locked
    then have t: "t < n" by (intro small) auto
    have k: "k = (if ph then In2 else In1)" using R(7,8) locked(2) by (cases k) auto
    have "BarrierEnter t s \<noteq> None \<or> BarrierExit t s \<noteq> None"
      using locked(1) R(3,4) R(9) [OF t] k by (cases "bs_pc s t") (auto simp: BarrierEnter_def BarrierExit_def Let_def)
    then show ?thesis using t by blast
  next
    case free
    have k: "k = (if ph then In2 else In1)" using R(7,8) free(2) by (cases k) auto
    have l: "br_lock (bs_bar s) = 0" using R(5) free(1) by (auto simp: lock_inv_def)
    have nl: "\<not> (\<exists>t. lastin (bs_pc s t))" "\<not> (\<exists>t. lastout (bs_pc s t))" using free(1) last_locking by blast+
    show ?thesis
    proof (rule ccontr)
      assume no: "\<not> (\<exists>t<n. BarrierEnter t s \<noteq> None \<or> BarrierExit t s \<noteq> None)"
      have st: "bs_pc s t = (if ph then EnterWait1 else ExitWait2)" if "t < n" for t
        using no that free R(6) [of t] R(3,4) k l R(9) [OF that]
        by (cases "bs_pc s t"; cases ph) (auto simp: BarrierEnter_def BarrierExit_def Let_def)
      then have "{t \<in> {..<n}. counted (bs_pc s t)} = (if ph then {..<n} else {})" by auto
      then have "number n (bs_pc s) = (if ph then n else 0)" by (simp add: number_def)
      then show False using R(11,12) nl by (cases ph) auto
    qed
  qed
qed

section \<open>Properties\<close>


definition bar_example :: bar_state where
  "bar_example = \<lparr>bs_bar = the (BarrierSet zero_barrier 2), bs_pc = (\<lambda>t. Outside)\<rparr>"

text \<open>A thread's next \<open>k\<close> steps.\<close>

fun run_enter :: "nat \<Rightarrow> nat \<Rightarrow> bar_state \<Rightarrow> bar_state" where
  "run_enter 0 t s = s"
| "run_enter (Suc k) t s = (case BarrierEnter t s of None \<Rightarrow> s | Some s' \<Rightarrow> run_enter k t s')"

lemma run_enter_reach:
  "reach (bar_init n) (bar_step n) s \<Longrightarrow> t < n \<Longrightarrow> reach (bar_init n) (bar_step n) (run_enter k t s)"
proof (induction k arbitrary: s)
  case (Suc k)
  then show ?case using reach_step [OF Suc.prems(1), OF bar_step.enter [OF Suc.prems(2)]]
    by (auto split: option.splits)
qed simp

lemma bar_example_reach: "reach (bar_init 2) (bar_step 2) (run_enter 9 1 (run_enter 9 0 bar_example))"
  by (intro run_enter_reach reach_init)
    (simp_all add: bar_init_def bar_example_def BarrierSet_def zero_barrier_def SemaphoreSet_def)


text \<open>
  The barrier never deadlocks: whatever the interleaving so far, some thread can take
  its next step.\<close>
theorem barrier_never_deadlocks:
  assumes "reach (bar_init n) (bar_step n) s"
  shows "\<exists>s'. bar_step n s s'"
proof -
  have "0 < n" using assms by (induction rule: reach.induct) (simp_all add: bar_init_def)
  from bar_progress [OF bar.reach_inv [OF assms] this] show ?thesis
    by (auto intro: bar_step.intros)
qed

theorem barrier_never_deadlocks_witness:
  "\<exists>s'. bar_step 2 (run_enter 9 1 (run_enter 9 0 bar_example)) s'"
  by (rule barrier_never_deadlocks [OF bar_example_reach])

end
