(* ===== verification/Ds_Lock.thy ===== *)
theory Ds_Lock
  imports Transition
begin

text \<open>
  The driver's spin locks of \<open>src/spinlock.c\<close>: a processor raises its IRQL, spins on bit 0,
  and keeps its old IRQL in the lock while it holds it.  Any number of processors use one
  lock; every access to the lock is a step.  What has to hold is mutual exclusion and that
  each processor gets its own IRQL back, although the place it is kept in is shared.
\<close>

section \<open>The lock\<close>

definition HIGH_LEVEL :: nat where "HIGH_LEVEL = 15"
definition PASSIVE_LEVEL :: nat where "PASSIVE_LEVEL = 0"

record ds_spin_lock =
  sl_Lock :: u32
  sl_OldIrql :: nat
  sl_Owner :: "nat option"

definition DsInitializeSpinLock :: ds_spin_lock where
  "DsInitializeSpinLock = \<lparr>sl_Lock = 0, sl_OldIrql = PASSIVE_LEVEL, sl_Owner = None\<rparr>"

text \<open>\<open>InterlockedBitTestAndSet\<close> on bit 0: whether it was set, and the new word.\<close>

definition bit_test_and_set :: "u32 \<Rightarrow> bool \<times> u32" where
  "bit_test_and_set l = (bit l 0, l OR 1)"

definition DspReleaseSpinLock :: "u32 \<Rightarrow> u32" where
  "DspReleaseSpinLock l = l AND 0"

definition DsTestSpinLock :: "ds_spin_lock \<Rightarrow> bool" where
  "DsTestSpinLock l \<longleftrightarrow> sl_Lock l = 0"

text \<open>
  The next access of a processor; the number is its local variable \<open>OldIrql\<close>.  \<open>Try\<close> stands
  for \<open>DsTryToAcquireSpinLock\<close>, which stores the owner before the IRQL.
\<close>

datatype lock_pc =
    Away
  | AcqSet nat | AcqPoll nat | AcqStoreIrql nat | AcqStoreOwner
  | TryTest nat | TrySet nat | TryStoreOwner nat | TryStoreIrql nat | TryLower nat
  | Holding
  | RelOwner nat | RelIrql nat | RelUnlock nat | RelLower nat

record lock_state =
  ls_lock :: ds_spin_lock
  ls_pc :: "nat \<Rightarrow> lock_pc"
  ls_irql :: "nat \<Rightarrow> nat"
  ls_entry :: "nat \<Rightarrow> nat"

definition lgo :: "lock_state \<Rightarrow> nat \<Rightarrow> lock_pc \<Rightarrow> lock_state" where
  "lgo s t p = s\<lparr>ls_pc := (ls_pc s)(t := p)\<rparr>"

definition lset :: "lock_state \<Rightarrow> ds_spin_lock \<Rightarrow> lock_state" where
  "lset s l = s\<lparr>ls_lock := l\<rparr>"

text \<open>\<open>ls_entry\<close> remembers, for the statements only, the IRQL at which the call was made.\<close>

definition call :: "lock_state \<Rightarrow> nat \<Rightarrow> (nat \<Rightarrow> lock_pc) \<Rightarrow> lock_state" where
  "call s t p = s\<lparr>ls_pc := (ls_pc s)(t := p (ls_irql s t)), ls_irql := (ls_irql s)(t := HIGH_LEVEL),
     ls_entry := (ls_entry s)(t := ls_irql s t)\<rparr>"

definition lower :: "lock_state \<Rightarrow> nat \<Rightarrow> nat \<Rightarrow> lock_state" where
  "lower s t irql = s\<lparr>ls_pc := (ls_pc s)(t := Away), ls_irql := (ls_irql s)(t := irql)\<rparr>"

text \<open>\<open>DspAcquireSpinLock\<close> and the rest of \<open>DsAcquireSpinLock\<close>.\<close>

definition DsAcquireSpinLock :: "nat \<Rightarrow> lock_state \<Rightarrow> lock_state" where
  "DsAcquireSpinLock t s =
     (let l = ls_lock s in
      case ls_pc s t of
        AcqSet old \<Rightarrow>
          let (was, w) = bit_test_and_set (sl_Lock l)
          in lgo (lset s (l\<lparr>sl_Lock := w\<rparr>)) t (if was then AcqPoll old else AcqStoreIrql old)
      | AcqPoll old \<Rightarrow> lgo s t (if sl_Lock l \<noteq> 0 then AcqPoll old else AcqSet old)
      | AcqStoreIrql old \<Rightarrow> lgo (lset s (l\<lparr>sl_OldIrql := old\<rparr>)) t AcqStoreOwner
      | AcqStoreOwner \<Rightarrow> lgo (lset s (l\<lparr>sl_Owner := Some t\<rparr>)) t Holding
      | _ \<Rightarrow> s)"

definition DsTryToAcquireSpinLock :: "nat \<Rightarrow> lock_state \<Rightarrow> lock_state" where
  "DsTryToAcquireSpinLock t s =
     (let l = ls_lock s in
      case ls_pc s t of
        TryTest old \<Rightarrow> lgo s t (if sl_Lock l = 0 then TrySet old else TryLower old)
      | TrySet old \<Rightarrow>
          let (was, w) = bit_test_and_set (sl_Lock l)
          in lgo (lset s (l\<lparr>sl_Lock := w\<rparr>)) t (if was then TryLower old else TryStoreOwner old)
      | TryStoreOwner old \<Rightarrow> lgo (lset s (l\<lparr>sl_Owner := Some t\<rparr>)) t (TryStoreIrql old)
      | TryStoreIrql old \<Rightarrow> lgo (lset s (l\<lparr>sl_OldIrql := old\<rparr>)) t Holding
      | TryLower old \<Rightarrow> lower s t old
      | _ \<Rightarrow> s)"

text \<open>The first step of a release reads the IRQL out of the lock.\<close>

definition DsReleaseSpinLock :: "nat \<Rightarrow> lock_state \<Rightarrow> lock_state" where
  "DsReleaseSpinLock t s =
     (let l = ls_lock s in
      case ls_pc s t of
        Holding \<Rightarrow> lgo s t (RelOwner (sl_OldIrql l))
      | RelOwner old \<Rightarrow> lgo (lset s (l\<lparr>sl_Owner := None\<rparr>)) t (RelIrql old)
      | RelIrql old \<Rightarrow> lgo (lset s (l\<lparr>sl_OldIrql := PASSIVE_LEVEL\<rparr>)) t (RelUnlock old)
      | RelUnlock old \<Rightarrow> lgo (lset s (l\<lparr>sl_Lock := DspReleaseSpinLock (sl_Lock l)\<rparr>)) t (RelLower old)
      | RelLower old \<Rightarrow> lower s t old
      | _ \<Rightarrow> s)"

inductive lock_step :: "lock_state \<Rightarrow> lock_state \<Rightarrow> bool" where
  acquire_call: "ls_pc s t = Away \<Longrightarrow> lock_step s (call s t AcqSet)"
| try_call: "ls_pc s t = Away \<Longrightarrow> lock_step s (call s t TryTest)"
| irql_change: "ls_pc s t = Away \<Longrightarrow> lock_step s (s\<lparr>ls_irql := (ls_irql s)(t := i)\<rparr>)"
| acquire_run: "lock_step s (DsAcquireSpinLock t s)"
| try_run: "lock_step s (DsTryToAcquireSpinLock t s)"
| release_run: "lock_step s (DsReleaseSpinLock t s)"

definition lock_init :: "lock_state \<Rightarrow> bool" where
  "lock_init s \<longleftrightarrow> ls_lock s = DsInitializeSpinLock \<and> ls_pc s = (\<lambda>t. Away)"

section \<open>The invariant\<close>

fun owning :: "lock_pc \<Rightarrow> bool" where
  "owning (AcqStoreIrql old) = True" | "owning AcqStoreOwner = True"
| "owning (TryStoreOwner old) = True" | "owning (TryStoreIrql old) = True"
| "owning Holding = True" | "owning (RelOwner old) = True" | "owning (RelIrql old) = True"
| "owning (RelUnlock old) = True" | "owning _ = False"

text \<open>What processor \<open>t\<close>, called at IRQL \<open>e\<close>, knows about the lock.\<close>

fun keeps :: "nat \<Rightarrow> nat \<Rightarrow> ds_spin_lock \<Rightarrow> lock_pc \<Rightarrow> bool" where
  "keeps t e l Away = True"
| "keeps t e l (AcqSet old) = (old = e)" | "keeps t e l (AcqPoll old) = (old = e)"
| "keeps t e l (AcqStoreIrql old) = (old = e)" | "keeps t e l AcqStoreOwner = (sl_OldIrql l = e)"
| "keeps t e l (TryTest old) = (old = e)" | "keeps t e l (TrySet old) = (old = e)"
| "keeps t e l (TryStoreOwner old) = (old = e)"
| "keeps t e l (TryStoreIrql old) = (old = e \<and> sl_Owner l = Some t)"
| "keeps t e l (TryLower old) = (old = e)"
| "keeps t e l Holding = (sl_OldIrql l = e \<and> sl_Owner l = Some t)"
| "keeps t e l (RelOwner old) = (old = e)" | "keeps t e l (RelIrql old) = (old = e)"
| "keeps t e l (RelUnlock old) = (old = e)" | "keeps t e l (RelLower old) = (old = e)"

definition ds_lock_inv :: "lock_state \<Rightarrow> bool" where
  "ds_lock_inv s \<longleftrightarrow> lock_inv (sl_Lock (ls_lock s)) (owning \<circ> ls_pc s) \<and>
     (\<forall>t. keeps t (ls_entry s t) (ls_lock s) (ls_pc s t)) \<and>
     (\<forall>t. ls_pc s t = Away \<or> ls_irql s t = HIGH_LEVEL)"

lemma keeps_outside: "\<not> owning p \<Longrightarrow> keeps t e l p = keeps t e l' p"
  by (cases p) simp_all

lemma lgo_sel [simp]:
  "ls_pc (lgo s t p) = (ls_pc s)(t := p)" "ls_lock (lgo s t p) = ls_lock s" "ls_irql (lgo s t p) = ls_irql s"
  "ls_entry (lgo s t p) = ls_entry s" "ls_pc (lset s l) = ls_pc s" "ls_lock (lset s l) = l"
  "ls_irql (lset s l) = ls_irql s" "ls_entry (lset s l) = ls_entry s"
  by (simp_all add: lgo_def lset_def)

lemma ds_lock_invD:
  assumes "ds_lock_inv s"
  shows "lock_inv (sl_Lock (ls_lock s)) (owning \<circ> ls_pc s)" "keeps t (ls_entry s t) (ls_lock s) (ls_pc s t)"
    "ls_pc s t \<noteq> Away \<Longrightarrow> ls_irql s t = HIGH_LEVEL"
  using assms unfolding ds_lock_inv_def by blast+

text \<open>Steps that only look.\<close>

lemma ds_move:
  assumes i: "ds_lock_inv s" and p: "ls_pc s t \<noteq> Away" "owning p = owning (ls_pc s t)"
    "keeps t (ls_entry s t) (ls_lock s) p"
  shows "ds_lock_inv (lgo s t p)"
proof -
  note D = ds_lock_invD [OF i]
  have "lock_inv (sl_Lock (ls_lock s)) ((owning \<circ> ls_pc s)(t := owning p))"
    by (rule lock_inv_same [OF D(1)]) (simp add: p)
  then show ?thesis using D(2,3) p by (auto simp: ds_lock_inv_def fun_upd_comp)
qed

text \<open>Steps of the owner that write the lock's fields.\<close>

lemma ds_write:
  assumes i: "ds_lock_inv s" and p: "owning (ls_pc s t)" "owning p" "keeps t (ls_entry s t) l p"
    and l: "sl_Lock l = sl_Lock (ls_lock s)"
  shows "ds_lock_inv (lgo (lset s l) t p)"
proof -
  note D = ds_lock_invD [OF i]
  have "keeps u (ls_entry s u) l (ls_pc s u)" if "u \<noteq> t" for u
  proof -
    have "\<not> owning (ls_pc s u)" using lock_inv_taken [OF D(1), of t] p(1) that by simp
    then show ?thesis using D(2) [of u] keeps_outside by blast
  qed
  moreover have "lock_inv (sl_Lock l) ((owning \<circ> ls_pc s)(t := owning p))"
    unfolding l by (rule lock_inv_same [OF D(1)]) (simp add: p)
  moreover have "ls_pc s t \<noteq> Away" using p(1) by auto
  ultimately show ?thesis using D(3) p by (auto simp: ds_lock_inv_def fun_upd_comp)
qed

lemma ds_set:
  assumes i: "ds_lock_inv s" and p: "ls_pc s t \<noteq> Away" "\<not> owning (ls_pc s t)" "owning won" "\<not> owning lost"
    "\<And>l. keeps t (ls_entry s t) l won" "\<And>l. keeps t (ls_entry s t) l lost"
    and b: "bit_test_and_set (sl_Lock (ls_lock s)) = (was, w)"
  shows "ds_lock_inv (lgo (lset s ((ls_lock s)\<lparr>sl_Lock := w\<rparr>)) t (if was then lost else won))"
proof -
  note D = ds_lock_invD [OF i]
  from lock_inv_01 [OF D(1)] show ?thesis
  proof
    assume z: "sl_Lock (ls_lock s) = 0"
    then have w: "was = False" "w = 1" using b by (auto simp: bit_test_and_set_def)
    have "keeps u (ls_entry s u) ((ls_lock s)\<lparr>sl_Lock := 1\<rparr>) (ls_pc s u)" for u
      using D(2) [of u] keeps_outside [of "ls_pc s u"] D(1) z by (auto simp: lock_inv_free)
    then show ?thesis using w z p D(3) lock_inv_acquire [of "owning \<circ> ls_pc s" t] D(1)
      by (auto simp: ds_lock_inv_def fun_upd_comp)
  next
    assume z: "sl_Lock (ls_lock s) = 1"
    then have w: "was = True" "w = 1" using b by (auto simp: bit_test_and_set_def)
    have "lset s ((ls_lock s)\<lparr>sl_Lock := w\<rparr>) = s" using z w by (cases s; cases "ls_lock s") (simp add: lset_def)
    then show ?thesis using ds_move [OF i p(1), of lost] p w(1) by simp
  qed
qed

lemma ds_release:
  assumes i: "ds_lock_inv s" and p: "ls_pc s t = RelUnlock old"
  shows "ds_lock_inv (lgo (lset s ((ls_lock s)\<lparr>sl_Lock := 0\<rparr>)) t (RelLower old))"
proof -
  note D = ds_lock_invD [OF i]
  have "keeps u (ls_entry s u) ((ls_lock s)\<lparr>sl_Lock := 0\<rparr>) (ls_pc s u)" if "u \<noteq> t" for u
  proof -
    have "\<not> owning (ls_pc s u)" using lock_inv_taken [OF D(1), of t] p that by simp
    then show ?thesis using D(2) [of u] keeps_outside by blast
  qed
  then show ?thesis using lock_inv_release [OF D(1), of t] D(2) [of t] D(3) p
    by (auto simp: ds_lock_inv_def fun_upd_comp)
qed

lemma ds_lower:
  assumes i: "ds_lock_inv s" and p: "ls_pc s t \<noteq> Away" "\<not> owning (ls_pc s t)"
  shows "ds_lock_inv (lower s t old)"
proof -
  note D = ds_lock_invD [OF i]
  have "lock_inv (sl_Lock (ls_lock s)) ((owning \<circ> ls_pc s)(t := False))"
    by (rule lock_inv_same [OF D(1)]) (simp add: p)
  then show ?thesis using D(2,3) by (auto simp: ds_lock_inv_def lower_def fun_upd_comp)
qed

lemma ds_call:
  assumes i: "ds_lock_inv s" and p: "ls_pc s t = Away" "\<not> owning (c (ls_irql s t))"
    "keeps t (ls_irql s t) (ls_lock s) (c (ls_irql s t))"
  shows "ds_lock_inv (call s t c)"
proof -
  note D = ds_lock_invD [OF i]
  have "lock_inv (sl_Lock (ls_lock s)) ((owning \<circ> ls_pc s)(t := False))"
    by (rule lock_inv_same [OF D(1)]) (simp add: p)
  then show ?thesis using D(2,3) p by (auto simp: ds_lock_inv_def call_def fun_upd_comp)
qed

lemma acquire_run_inv:
  assumes i: "ds_lock_inv s" shows "ds_lock_inv (DsAcquireSpinLock t s)"
proof -
  note k = ds_lock_invD(2) [OF i, of t]
  obtain was w where b: "bit_test_and_set (sl_Lock (ls_lock s)) = (was, w)" by fastforce
  show ?thesis
  proof (cases "ls_pc s t")
    case (AcqSet old)
    then show ?thesis using ds_set [OF i _ _ _ _ _ _ b, of t "AcqStoreIrql old" "AcqPoll old"] k b
      by (cases was) (simp_all add: DsAcquireSpinLock_def)
  next
    case (AcqPoll old)
    then show ?thesis using ds_move [OF i, of t] k by (simp add: DsAcquireSpinLock_def Let_def)
  next
    case (AcqStoreIrql old)
    then show ?thesis using ds_write [OF i, of t] k by (simp add: DsAcquireSpinLock_def Let_def)
  next
    case AcqStoreOwner
    then show ?thesis using ds_write [OF i, of t] k by (simp add: DsAcquireSpinLock_def Let_def)
  qed (use i in \<open>simp_all add: DsAcquireSpinLock_def\<close>)
qed

lemma try_run_inv:
  assumes i: "ds_lock_inv s" shows "ds_lock_inv (DsTryToAcquireSpinLock t s)"
proof -
  note k = ds_lock_invD(2) [OF i, of t]
  obtain was w where b: "bit_test_and_set (sl_Lock (ls_lock s)) = (was, w)" by fastforce
  show ?thesis
  proof (cases "ls_pc s t")
    case (TryTest old)
    then show ?thesis using ds_move [OF i, of t] k by (simp add: DsTryToAcquireSpinLock_def Let_def)
  next
    case (TrySet old)
    then show ?thesis using ds_set [OF i _ _ _ _ _ _ b, of t "TryStoreOwner old" "TryLower old"] k b
      by (cases was) (simp_all add: DsTryToAcquireSpinLock_def)
  next
    case (TryStoreOwner old)
    then show ?thesis using ds_write [OF i, of t] k by (simp add: DsTryToAcquireSpinLock_def Let_def)
  next
    case (TryStoreIrql old)
    then show ?thesis using ds_write [OF i, of t] k by (simp add: DsTryToAcquireSpinLock_def Let_def)
  next
    case (TryLower old)
    then show ?thesis using ds_lower [OF i, of t] by (simp add: DsTryToAcquireSpinLock_def)
  qed (use i in \<open>simp_all add: DsTryToAcquireSpinLock_def\<close>)
qed

lemma release_run_inv:
  assumes i: "ds_lock_inv s" shows "ds_lock_inv (DsReleaseSpinLock t s)"
proof -
  note k = ds_lock_invD(2) [OF i, of t]
  show ?thesis
  proof (cases "ls_pc s t")
    case Holding
    then show ?thesis using ds_move [OF i, of t] k by (simp add: DsReleaseSpinLock_def)
  next
    case (RelOwner old)
    then show ?thesis using ds_write [OF i, of t] k by (simp add: DsReleaseSpinLock_def Let_def)
  next
    case (RelIrql old)
    then show ?thesis using ds_write [OF i, of t] k by (simp add: DsReleaseSpinLock_def Let_def)
  next
    case (RelUnlock old)
    then show ?thesis using ds_release [OF i, of t] by (simp add: DsReleaseSpinLock_def Let_def DspReleaseSpinLock_def)
  next
    case (RelLower old)
    then show ?thesis using ds_lower [OF i, of t] by (simp add: DsReleaseSpinLock_def)
  qed (use i in \<open>simp_all add: DsReleaseSpinLock_def\<close>)
qed

lemma lock_step_inv: "lock_step s s' \<Longrightarrow> ds_lock_inv s \<Longrightarrow> ds_lock_inv s'"
proof (induction rule: lock_step.induct)
  case (irql_change s t i)
  then show ?case by (auto simp: ds_lock_inv_def)
qed (auto intro: ds_call acquire_run_inv try_run_inv release_run_inv)

lemma lock_init_inv: "lock_init s \<Longrightarrow> ds_lock_inv s"
  using lock_inv_none by (simp add: lock_init_def ds_lock_inv_def DsInitializeSpinLock_def comp_def)

interpretation dsl: invariant_system lock_init lock_step ds_lock_inv
  by unfold_locales (rule lock_init_inv lock_step_inv; assumption)+

section \<open>Property\<close>

text \<open>
  C39: At most one processor holds the lock, it is the recorded owner, every processor runs
  at \<open>HIGH_LEVEL\<close> from its call to its return, and when it returns from the release (or from a
  failed attempt) its IRQL is the one at which it made the call.\<close>
theorem ds_lock_restores_irql:
  assumes "reach lock_init lock_step s"
  shows "(ls_pc s t = Holding \<longrightarrow> ls_pc s u = Holding \<longrightarrow> t = u) \<and>
    (ls_pc s t = Holding \<longrightarrow> sl_Owner (ls_lock s) = Some t) \<and>
    (ls_pc s t \<noteq> Away \<longrightarrow> ls_irql s t = HIGH_LEVEL) \<and>
    (ls_pc s t = RelLower old \<longrightarrow> ls_irql (DsReleaseSpinLock t s) t = ls_entry s t) \<and>
    (ls_pc s t = TryLower old \<longrightarrow> ls_irql (DsTryToAcquireSpinLock t s) t = ls_entry s t)"
proof (intro conjI impI)
  note i = dsl.reach_inv [OF assms]
  note D = ds_lock_invD [OF i] and k = ds_lock_invD(2) [OF i, of t]
  show "ls_pc s t = Holding \<Longrightarrow> ls_pc s u = Holding \<Longrightarrow> t = u"
    using lock_inv_excl [OF D(1), of t u] by simp
  show "ls_pc s t = Holding \<Longrightarrow> sl_Owner (ls_lock s) = Some t" using k by simp
  show "ls_pc s t \<noteq> Away \<Longrightarrow> ls_irql s t = HIGH_LEVEL" by (rule D(3))
  show "ls_pc s t = RelLower old \<Longrightarrow> ls_irql (DsReleaseSpinLock t s) t = ls_entry s t"
    using k by (simp add: DsReleaseSpinLock_def lower_def)
  show "ls_pc s t = TryLower old \<Longrightarrow> ls_irql (DsTryToAcquireSpinLock t s) t = ls_entry s t"
    using k by (simp add: DsTryToAcquireSpinLock_def lower_def)
qed

text \<open>Processor 3, at IRQL 2, takes and releases the lock; processor 5 tries in between.\<close>

definition lock_example :: lock_state where
  "lock_example = \<lparr>ls_lock = DsInitializeSpinLock, ls_pc = (\<lambda>t. Away), ls_irql = (\<lambda>t. 2), ls_entry = (\<lambda>t. 0)\<rparr>"

lemma acquire_reach: "reach lock_init lock_step s \<Longrightarrow> reach lock_init lock_step (DsAcquireSpinLock t s)"
  and try_reach: "reach lock_init lock_step s \<Longrightarrow> reach lock_init lock_step (DsTryToAcquireSpinLock t s)"
  and release_reach: "reach lock_init lock_step s \<Longrightarrow> reach lock_init lock_step (DsReleaseSpinLock t s)"
  by (erule reach_step, rule lock_step.intros)+

definition lock_example_held :: lock_state where
  "lock_example_held = DsAcquireSpinLock 3 (DsAcquireSpinLock 3 (DsAcquireSpinLock 3 (call lock_example 3 AcqSet)))"

lemma lock_example_held_eq: "lock_example_held =
  \<lparr>ls_lock = \<lparr>sl_Lock = 1, sl_OldIrql = 2, sl_Owner = Some 3\<rparr>, ls_pc = (\<lambda>t. Away)(3 := Holding),
   ls_irql = (\<lambda>t. 2)(3 := HIGH_LEVEL), ls_entry = (\<lambda>t. 0)(3 := 2)\<rparr>"
  by (simp add: lock_example_held_def lock_example_def call_def DsAcquireSpinLock_def Let_def
      DsInitializeSpinLock_def bit_test_and_set_def lgo_def lset_def)

definition lock_example' :: lock_state where
  "lock_example' = DsReleaseSpinLock 3 (DsReleaseSpinLock 3 (DsReleaseSpinLock 3 (DsReleaseSpinLock 3
     (DsTryToAcquireSpinLock 5 (call lock_example_held 5 TryTest)))))"

lemma lock_example_pcs: "ls_pc lock_example' 3 = RelLower 2" "ls_pc lock_example' 5 = TryLower 2"
  by (simp_all add: lock_example'_def lock_example_held_eq DsReleaseSpinLock_def DsTryToAcquireSpinLock_def
      call_def lgo_def lset_def)

lemma lock_example_reach: "reach lock_init lock_step lock_example'"
proof -
  have "reach lock_init lock_step lock_example" by (rule reach_init) (simp add: lock_init_def lock_example_def)
  then have "reach lock_init lock_step (call lock_example 3 AcqSet)"
    by (rule reach_step) (rule acquire_call, simp add: lock_example_def)
  then have a: "reach lock_init lock_step lock_example_held"
    unfolding lock_example_held_def by (intro acquire_reach)
  have "reach lock_init lock_step (call lock_example_held 5 TryTest)"
    by (rule reach_step [OF a]) (rule try_call, simp add: lock_example_held_eq)
  then show ?thesis unfolding lock_example'_def by (intro release_reach try_reach)
qed

theorem ds_lock_restores_irql_witness:
  "ls_irql (DsReleaseSpinLock 3 lock_example') 3 = ls_entry lock_example' 3 \<and>
   ls_irql (DsTryToAcquireSpinLock 5 lock_example') 5 = ls_entry lock_example' 5"
  using ds_lock_restores_irql [OF lock_example_reach, of 3 3 2]
    ds_lock_restores_irql [OF lock_example_reach, of 5 5 2] lock_example_pcs by blast

end
