(* ===== verification/Smp.thy ===== *)
theory Smp
  imports Transition
begin

text \<open>
  Running a function on every processor (\<open>smp.c\<close>): the deferred routine that each processor
  executes, the routine that queues it and waits for the others, and the count of active
  processors.  \<open>SmpRunPerProcessor\<close> is a system of atomic steps in which the processors
  interleave freely; it is shown to return only when every callback has returned, with the
  effect of running the callbacks one after the other in some order and with an error
  exactly when one of them failed.
\<close>

section \<open>Processors\<close>

text \<open>The static \<open>BitCount\<close> caches the first answer; \<open>map\<close> is \<open>KeQueryActiveProcessors\<close>.\<close>

definition SmpActiveProcessorCount :: "u64 \<Rightarrow> nat \<Rightarrow> nat \<times> nat" where
  "SmpActiveProcessorCount ActiveMap BitCount =
     (if BitCount = 0
      then let n = length (filter (\<lambda>Shift. ActiveMap AND push_bit Shift 1 \<noteq> 0) [0..<64]) in (n, n)
      else (BitCount, BitCount))"

lemma SmpActiveProcessorCount_map:
  "SmpActiveProcessorCount ActiveMap 0 = (card {i. bit ActiveMap i}, card {i. bit ActiveMap i})"
proof -
  have "{i. bit ActiveMap i} = set (filter (\<lambda>i. ActiveMap AND push_bit i 1 \<noteq> 0) [0..<64])"
    by (auto simp: and_exp_eq_0_iff_not_bit push_bit_of_1 dest: bit_imp_le_length)
  moreover have "distinct (filter (\<lambda>i. ActiveMap AND push_bit i 1 \<noteq> 0) [0..<64])" by simp
  ultimately have "card {i. bit ActiveMap i} = length (filter (\<lambda>i. ActiveMap AND push_bit i 1 \<noteq> 0) [0..<64])"
    by (metis distinct_card)
  then show ?thesis by (simp add: SmpActiveProcessorCount_def Let_def)
qed

section \<open>The steps\<close>

text \<open>Where a processor is in \<open>DpcRoutine\<close>; the status is that its callback returned.\<close>

datatype dpc_pc = DpcNone | DpcQueued | DpcError ntstatus | DpcCount | DpcDone

text \<open>
  Where the caller is in \<open>SmpRunPerProcessor\<close>: queueing for processor \<open>i\<close>, in its own call of
  \<open>DpcRoutine\<close>, polling, or returned.
\<close>

datatype main_pc = MainQueue nat | MainSelf | MainWait | MainDone

text \<open>
  \<open>sp_sync\<close> and \<open>sp_error\<close> are the fields of \<open>PROCESSOR_INFO\<close>; \<open>sp_world\<close> is what the callbacks
  work on.  \<open>sp_log\<close> records, for the statements only, the callbacks that have returned, in
  order, with their statuses.
\<close>

record 'w smp_state =
  sp_sync :: nat
  sp_error :: ntstatus
  sp_main :: main_pc
  sp_dpc :: "nat \<Rightarrow> dpc_pc"
  sp_world :: 'w
  sp_log :: "(nat \<times> ntstatus) list"

definition set_dpc :: "'w smp_state \<Rightarrow> nat \<Rightarrow> dpc_pc \<Rightarrow> 'w smp_state" where
  "set_dpc s t p = s\<lparr>sp_dpc := (sp_dpc s)(t := p)\<rparr>"

text \<open>One step of \<open>DpcRoutine\<close> on processor \<open>t\<close>; a callback is one step.\<close>

definition DpcRoutine :: "(nat \<Rightarrow> 'w \<Rightarrow> ntstatus \<times> 'w) \<Rightarrow> nat \<Rightarrow> 'w smp_state \<Rightarrow> 'w smp_state" where
  "DpcRoutine callback t s =
     (case sp_dpc s t of
        DpcQueued \<Rightarrow>
          let (Status, w) = callback t (sp_world s)
          in set_dpc (s\<lparr>sp_world := w, sp_log := sp_log s @ [(t, Status)]\<rparr>) t
               (if Status \<noteq> STATUS_SUCCESS then DpcError Status else DpcCount)
      | DpcError Status \<Rightarrow>
          set_dpc (s\<lparr>sp_error := (if sp_error s = STATUS_SUCCESS then Status else sp_error s)\<rparr>) t DpcCount
      | DpcCount \<Rightarrow> set_dpc (s\<lparr>sp_sync := sp_sync s + 1\<rparr>) t DpcDone
      | _ \<Rightarrow> s)"

text \<open>
  One step of the caller, on processor \<open>self\<close> of \<open>n\<close>.  The polling is
  \<open>InterlockedCompareExchange\<close>: the counter is cleared when it is \<open>n\<close>, and the loop ends when
  it was 0.
\<close>

definition SmpRunPerProcessor :: "nat \<Rightarrow> nat \<Rightarrow> 'w smp_state \<Rightarrow> 'w smp_state" where
  "SmpRunPerProcessor n self s =
     (case sp_main s of
        MainQueue i \<Rightarrow>
          if i < n then (if i \<noteq> self then set_dpc s i DpcQueued else s)\<lparr>sp_main := MainQueue (i + 1)\<rparr>
          else (set_dpc s self DpcQueued)\<lparr>sp_main := MainSelf\<rparr>
      | MainSelf \<Rightarrow> if sp_dpc s self = DpcDone then s\<lparr>sp_main := MainWait\<rparr> else s
      | MainWait \<Rightarrow>
          s\<lparr>sp_sync := (if sp_sync s = n then 0 else sp_sync s),
            sp_main := (if sp_sync s = 0 then MainDone else MainWait)\<rparr>
      | MainDone \<Rightarrow> s)"

inductive smp_step :: "(nat \<Rightarrow> 'w \<Rightarrow> ntstatus \<times> 'w) \<Rightarrow> nat \<Rightarrow> nat \<Rightarrow> 'w smp_state \<Rightarrow> 'w smp_state \<Rightarrow> bool"
  for callback n self where
  run_main: "smp_step callback n self s (SmpRunPerProcessor n self s)"
| run_dpc: "t < n \<Longrightarrow> smp_step callback n self s (DpcRoutine callback t s)"

definition smp_init :: "nat \<Rightarrow> nat \<Rightarrow> 'w \<Rightarrow> 'w smp_state \<Rightarrow> bool" where
  "smp_init n self w s \<longleftrightarrow> 1 < n \<and> self < n \<and> sp_sync s = 0 \<and> sp_error s = STATUS_SUCCESS \<and>
     sp_main s = MainQueue 0 \<and> sp_dpc s = (\<lambda>_. DpcNone) \<and> sp_world s = w \<and> sp_log s = []"

text \<open>
  The reference: the callbacks one after the other in a given order.  A single processor
  runs its only callback this way.
\<close>

fun run_in_order :: "(nat \<Rightarrow> 'w \<Rightarrow> ntstatus \<times> 'w) \<Rightarrow> nat list \<Rightarrow> 'w \<Rightarrow> (nat \<times> ntstatus) list \<times> 'w" where
  "run_in_order callback [] w = ([], w)"
| "run_in_order callback (t # ts) w =
     (let (Status, w) = callback t w; (log, w) = run_in_order callback ts w in ((t, Status) # log, w))"

lemma run_in_order_snoc:
  "run_in_order callback (ts @ [t]) w =
     (let (log, w) = run_in_order callback ts w; (Status, w) = callback t w in (log @ [(t, Status)], w))"
  by (induction ts arbitrary: w) (simp_all add: split_def Let_def)

text \<open>Callbacks that only touch their own processor do not depend on the order.\<close>

lemma run_in_order_local:
  assumes "distinct order"
  shows "run_in_order (\<lambda>t w. let (st, c) = f t (w t) in (st, w(t := c))) order w =
    (map (\<lambda>t. (t, fst (f t (w t)))) order, \<lambda>t. if t \<in> set order then snd (f t (w t)) else w t)"
  using assms
proof (induction order arbitrary: w)
  case (Cons t ts)
  have "map (\<lambda>u. (u, fst (f u ((w(t := c)) u)))) ts = map (\<lambda>u. (u, fst (f u (w u)))) ts" for c
    using Cons.prems by (auto intro!: map_cong)
  then show ?case using Cons by (auto simp: split_def Let_def)
qed auto

section \<open>The invariant\<close>

definition returned :: "dpc_pc \<Rightarrow> bool" where
  "returned p \<longleftrightarrow> p \<noteq> DpcNone \<and> p \<noteq> DpcQueued"

definition finished :: "nat \<Rightarrow> 'w smp_state \<Rightarrow> nat" where
  "finished n s = card {t \<in> {..<n}. sp_dpc s t = DpcDone}"

definition smp_inv :: "(nat \<Rightarrow> 'w \<Rightarrow> ntstatus \<times> 'w) \<Rightarrow> nat \<Rightarrow> nat \<Rightarrow> 'w \<Rightarrow> 'w smp_state \<Rightarrow> bool" where
  "smp_inv callback n self w s \<longleftrightarrow> self < n \<and>
     run_in_order callback (map fst (sp_log s)) w = (sp_log s, sp_world s) \<and>
     distinct (map fst (sp_log s)) \<and>
     fst ` set (sp_log s) = {t \<in> {..<n}. returned (sp_dpc s t)} \<and>
     (\<forall>t st. sp_dpc s t = DpcError st \<longrightarrow> (t, st) \<in> set (sp_log s) \<and> st \<noteq> STATUS_SUCCESS) \<and>
     (sp_error s = STATUS_SUCCESS \<longrightarrow>
        (\<forall>(t, st) \<in> set (sp_log s). st = STATUS_SUCCESS \<or> sp_dpc s t = DpcError st)) \<and>
     (sp_error s \<noteq> STATUS_SUCCESS \<longrightarrow> sp_error s \<in> snd ` set (sp_log s)) \<and>
     (\<forall>i. sp_main s = MainQueue i \<longrightarrow> i \<le> n \<and> sp_dpc s self = DpcNone \<and> (\<forall>t\<ge>i. sp_dpc s t = DpcNone)) \<and>
     (sp_main s \<in> {MainWait, MainDone} \<longrightarrow> sp_dpc s self = DpcDone) \<and>
     (sp_sync s = finished n s \<and> sp_main s \<noteq> MainDone \<or>
      sp_sync s = 0 \<and> finished n s = n \<and> sp_main s \<in> {MainWait, MainDone})"

lemma set_dpc_sel [simp]:
  "sp_sync (set_dpc s t p) = sp_sync s" "sp_error (set_dpc s t p) = sp_error s"
  "sp_main (set_dpc s t p) = sp_main s" "sp_dpc (set_dpc s t p) = (sp_dpc s)(t := p)"
  "sp_world (set_dpc s t p) = sp_world s" "sp_log (set_dpc s t p) = sp_log s"
  by (simp_all add: set_dpc_def)

lemma returned_simps [simp]:
  "\<not> returned DpcNone" "\<not> returned DpcQueued" "returned (DpcError st)" "returned DpcCount" "returned DpcDone"
  by (simp_all add: returned_def)

lemma finished_upd:
  assumes "t < n" "sp_dpc s' = (sp_dpc s)(t := p)"
  shows "finished n s' + (if sp_dpc s t = DpcDone then 1 else 0) = finished n s + (if p = DpcDone then 1 else 0)"
proof -
  let ?R = "{u \<in> {..<n}. u \<noteq> t \<and> sp_dpc s u = DpcDone}"
  have "{u \<in> {..<n}. ((sp_dpc s)(t := q)) u = DpcDone} = (if q = DpcDone then insert t ?R else ?R)" for q
    using assms(1) by auto
  then have e: "card {u \<in> {..<n}. ((sp_dpc s)(t := q)) u = DpcDone} = card ?R + (if q = DpcDone then 1 else 0)" for q
    by simp
  show ?thesis using e [of p] e [of "sp_dpc s t"] assms(2) by (simp add: finished_def)
qed

lemma finished_all: "finished n s = n \<Longrightarrow> t < n \<Longrightarrow> sp_dpc s t = DpcDone"
  using card_subset_eq [of "{..<n}" "{t \<in> {..<n}. sp_dpc s t = DpcDone}"] by (auto simp: finished_def)

lemma smp_invD:
  assumes "smp_inv callback n self w s"
  shows "self < n" "run_in_order callback (map fst (sp_log s)) w = (sp_log s, sp_world s)"
    "distinct (map fst (sp_log s))" "fst ` set (sp_log s) = {t \<in> {..<n}. returned (sp_dpc s t)}"
    "sp_dpc s t = DpcError st \<Longrightarrow> (t, st) \<in> set (sp_log s)" "sp_dpc s t = DpcError st \<Longrightarrow> st \<noteq> STATUS_SUCCESS"
    "sp_error s = STATUS_SUCCESS \<Longrightarrow> (t, st) \<in> set (sp_log s) \<Longrightarrow> st = STATUS_SUCCESS \<or> sp_dpc s t = DpcError st"
    "sp_error s \<noteq> STATUS_SUCCESS \<Longrightarrow> sp_error s \<in> snd ` set (sp_log s)"
    "sp_main s = MainQueue i \<Longrightarrow> i \<le> n" "sp_main s = MainQueue i \<Longrightarrow> sp_dpc s self = DpcNone"
    "sp_main s = MainQueue i \<Longrightarrow> i \<le> t \<Longrightarrow> sp_dpc s t = DpcNone"
    "sp_main s \<in> {MainWait, MainDone} \<Longrightarrow> sp_dpc s self = DpcDone"
    "sp_sync s = finished n s \<and> sp_main s \<noteq> MainDone \<or>
     sp_sync s = 0 \<and> finished n s = n \<and> sp_main s \<in> {MainWait, MainDone}"
  using assms unfolding smp_inv_def by blast+

lemma smp_invI:
  assumes "self < n" "run_in_order callback (map fst (sp_log s)) w = (sp_log s, sp_world s)"
    "distinct (map fst (sp_log s))" "fst ` set (sp_log s) = {t \<in> {..<n}. returned (sp_dpc s t)}"
    "\<And>t st. sp_dpc s t = DpcError st \<Longrightarrow> (t, st) \<in> set (sp_log s) \<and> st \<noteq> STATUS_SUCCESS"
    "\<And>t st. sp_error s = STATUS_SUCCESS \<Longrightarrow> (t, st) \<in> set (sp_log s) \<Longrightarrow> st = STATUS_SUCCESS \<or> sp_dpc s t = DpcError st"
    "sp_error s \<noteq> STATUS_SUCCESS \<Longrightarrow> sp_error s \<in> snd ` set (sp_log s)"
    "\<And>i. sp_main s = MainQueue i \<Longrightarrow> i \<le> n \<and> sp_dpc s self = DpcNone \<and> (\<forall>t\<ge>i. sp_dpc s t = DpcNone)"
    "sp_main s \<in> {MainWait, MainDone} \<Longrightarrow> sp_dpc s self = DpcDone"
    "sp_sync s = finished n s \<and> sp_main s \<noteq> MainDone \<or>
     sp_sync s = 0 \<and> finished n s = n \<and> sp_main s \<in> {MainWait, MainDone}"
  shows "smp_inv callback n self w s"
  using assms unfolding smp_inv_def by blast

text \<open>Once everything is finished no processor runs the routine again.\<close>

lemma running_sync:
  assumes "smp_inv callback n self w s" "t < n" "sp_dpc s t \<noteq> DpcDone"
  shows "sp_sync s = finished n s" "sp_main s \<noteq> MainDone"
  using smp_invD(13) [OF assms(1)] finished_all [OF _ assms(2)] assms(3) by blast+

lemma dpc_queued_inv:
  assumes inv: "smp_inv callback n self w s" and t: "t < n" and q: "sp_dpc s t = DpcQueued"
  shows "smp_inv callback n self w (DpcRoutine callback t s)"
proof -
  obtain Status w' where c: "callback t (sp_world s) = (Status, w')" by fastforce
  define p where "p = (if Status \<noteq> STATUS_SUCCESS then DpcError Status else DpcCount)"
  define s' where "s' = set_dpc (s\<lparr>sp_world := w', sp_log := sp_log s @ [(t, Status)]\<rparr>) t p"
  have e: "DpcRoutine callback t s = s'"
    by (simp add: DpcRoutine_def q c s'_def p_def)
  have sel: "sp_log s' = sp_log s @ [(t, Status)]" "sp_world s' = w'" "sp_dpc s' = (sp_dpc s)(t := p)"
    "sp_error s' = sp_error s" "sp_sync s' = sp_sync s" "sp_main s' = sp_main s"
    by (simp_all add: s'_def)
  have p: "returned p" "p \<noteq> DpcDone" "p = DpcError st \<longleftrightarrow> st = Status \<and> Status \<noteq> STATUS_SUCCESS" for st
    by (auto simp: p_def)
  note D = smp_invD [OF inv]
  have new: "t \<notin> fst ` set (sp_log s)" using D(4) q by simp
  have fin: "finished n s' = finished n s" using finished_upd [OF t sel(3)] q p(2) by simp
  have self: "sp_main s \<in> {MainWait, MainDone} \<Longrightarrow> t \<noteq> self" using D(12) q by auto
  show ?thesis unfolding e
  proof (rule smp_invI)
    show "run_in_order callback (map fst (sp_log s')) w = (sp_log s', sp_world s')"
      by (simp add: sel run_in_order_snoc D(2) c)
    show "distinct (map fst (sp_log s'))" using D(3) new by (simp add: sel)
    show "fst ` set (sp_log s') = {u \<in> {..<n}. returned (sp_dpc s' u)}" using D(4) t p(1) by (auto simp: sel)
    show "(u, st) \<in> set (sp_log s') \<and> st \<noteq> STATUS_SUCCESS" if "sp_dpc s' u = DpcError st" for u st
      using that D(5,6) p(3) by (cases "u = t") (simp_all add: sel)
    show "st = STATUS_SUCCESS \<or> sp_dpc s' u = DpcError st"
      if "sp_error s' = STATUS_SUCCESS" "(u, st) \<in> set (sp_log s')" for u st
      using that D(7) [of u st] new p(3) by (force simp: sel)
    show "sp_error s' \<in> snd ` set (sp_log s')" if "sp_error s' \<noteq> STATUS_SUCCESS"
      using that D(8) by (simp add: sel)
    show "i \<le> n \<and> sp_dpc s' self = DpcNone \<and> (\<forall>u\<ge>i. sp_dpc s' u = DpcNone)" if "sp_main s' = MainQueue i" for i
      using that D(9,10,11) q by (auto simp: sel)
    show "sp_dpc s' self = DpcDone" if "sp_main s' \<in> {MainWait, MainDone}"
      using that D(12) self by (simp add: sel)
    show "sp_sync s' = finished n s' \<and> sp_main s' \<noteq> MainDone \<or>
      sp_sync s' = 0 \<and> finished n s' = n \<and> sp_main s' \<in> {MainWait, MainDone}"
      using D(13) by (simp add: sel fin)
  qed (rule D(1))
qed

lemma dpc_error_inv:
  assumes inv: "smp_inv callback n self w s" and t: "t < n" and q: "sp_dpc s t = DpcError Status"
  shows "smp_inv callback n self w (DpcRoutine callback t s)"
proof -
  note D = smp_invD [OF inv]
  define s' where "s' = DpcRoutine callback t s"
  have sel: "sp_log s' = sp_log s" "sp_world s' = sp_world s" "sp_dpc s' = (sp_dpc s)(t := DpcCount)"
    "sp_error s' = (if sp_error s = STATUS_SUCCESS then Status else sp_error s)" "sp_sync s' = sp_sync s"
    "sp_main s' = sp_main s"
    by (simp_all add: s'_def DpcRoutine_def q)
  have m: "(t, Status) \<in> set (sp_log s)" "Status \<noteq> STATUS_SUCCESS" using D(5,6) [OF q] by simp_all
  have fin: "finished n s' = finished n s" using finished_upd [OF t sel(3)] q by simp
  have self: "sp_main s \<in> {MainWait, MainDone} \<Longrightarrow> t \<noteq> self" using D(12) q by auto
  show ?thesis unfolding s'_def [symmetric]
  proof (rule smp_invI)
    show "fst ` set (sp_log s') = {u \<in> {..<n}. returned (sp_dpc s' u)}" using D(4) t q by (auto simp: sel)
    show "(u, st) \<in> set (sp_log s') \<and> st \<noteq> STATUS_SUCCESS" if "sp_dpc s' u = DpcError st" for u st
      using that D(5,6) by (cases "u = t") (simp_all add: sel)
    show "st = STATUS_SUCCESS \<or> sp_dpc s' u = DpcError st"
      if "sp_error s' = STATUS_SUCCESS" "(u, st) \<in> set (sp_log s')" for u st
      using that m(2) by (simp add: sel split: if_splits)
    show "sp_error s' \<in> snd ` set (sp_log s')" if "sp_error s' \<noteq> STATUS_SUCCESS"
      using that D(8) m(1) by (force simp: sel)
    show "i \<le> n \<and> sp_dpc s' self = DpcNone \<and> (\<forall>u\<ge>i. sp_dpc s' u = DpcNone)" if "sp_main s' = MainQueue i" for i
      using that D(9,10,11) q by (auto simp: sel)
    show "sp_dpc s' self = DpcDone" if "sp_main s' \<in> {MainWait, MainDone}"
      using that D(12) self by (simp add: sel)
    show "sp_sync s' = finished n s' \<and> sp_main s' \<noteq> MainDone \<or>
      sp_sync s' = 0 \<and> finished n s' = n \<and> sp_main s' \<in> {MainWait, MainDone}"
      using D(13) by (simp add: sel fin)
  qed (simp_all add: sel D)
qed

lemma dpc_count_inv:
  assumes inv: "smp_inv callback n self w s" and t: "t < n" and q: "sp_dpc s t = DpcCount"
  shows "smp_inv callback n self w (DpcRoutine callback t s)"
proof -
  note D = smp_invD [OF inv] and r = running_sync [OF inv t]
  define s' where "s' = DpcRoutine callback t s"
  have sel: "sp_log s' = sp_log s" "sp_world s' = sp_world s" "sp_dpc s' = (sp_dpc s)(t := DpcDone)"
    "sp_error s' = sp_error s" "sp_sync s' = sp_sync s + 1" "sp_main s' = sp_main s"
    by (simp_all add: s'_def DpcRoutine_def q)
  have fin: "finished n s' = finished n s + 1" using finished_upd [OF t sel(3)] q by simp
  show ?thesis unfolding s'_def [symmetric]
  proof (rule smp_invI)
    show "fst ` set (sp_log s') = {u \<in> {..<n}. returned (sp_dpc s' u)}" using D(4) t q by (auto simp: sel)
    show "(u, st) \<in> set (sp_log s') \<and> st \<noteq> STATUS_SUCCESS" if "sp_dpc s' u = DpcError st" for u st
      using that D(5,6) by (cases "u = t") (simp_all add: sel)
    show "st = STATUS_SUCCESS \<or> sp_dpc s' u = DpcError st"
      if "sp_error s' = STATUS_SUCCESS" "(u, st) \<in> set (sp_log s')" for u st
      using that D(7) [of u st] q by (auto simp: sel)
    show "i \<le> n \<and> sp_dpc s' self = DpcNone \<and> (\<forall>u\<ge>i. sp_dpc s' u = DpcNone)" if "sp_main s' = MainQueue i" for i
      using that D(9,10,11) q by (auto simp: sel)
    show "sp_sync s' = finished n s' \<and> sp_main s' \<noteq> MainDone \<or>
      sp_sync s' = 0 \<and> finished n s' = n \<and> sp_main s' \<in> {MainWait, MainDone}"
      using r q by (simp add: sel fin)
  qed (use D(8,12) in \<open>simp_all add: sel D\<close>)
qed

lemma main_queue_inv:
  assumes inv: "smp_inv callback n self w s" and m: "sp_main s = MainQueue i"
  shows "smp_inv callback n self w (SmpRunPerProcessor n self s)"
proof -
  note D = smp_invD [OF inv]
  define s' where "s' = SmpRunPerProcessor n self s"
  define t where "t = (if i < n then i else self)"
  define p where "p = (if i < n \<and> i = self then DpcNone else DpcQueued)"
  have t: "t < n" "sp_dpc s t = DpcNone" using D(1,10,11) m by (auto simp: t_def)
  have sel: "sp_log s' = sp_log s" "sp_world s' = sp_world s" "sp_error s' = sp_error s" "sp_sync s' = sp_sync s"
    "sp_dpc s' = (sp_dpc s)(t := p)" "sp_main s' = (if i < n then MainQueue (i + 1) else MainSelf)"
    using t m by (auto simp: s'_def SmpRunPerProcessor_def t_def p_def)
  have p: "p \<noteq> DpcDone" "\<not> returned p" "p \<noteq> DpcError st" for st by (simp_all add: p_def)
  have fin: "finished n s' = finished n s" using finished_upd [OF t(1) sel(5)] t(2) p(1) by simp
  show ?thesis unfolding s'_def [symmetric]
  proof (rule smp_invI)
    show "fst ` set (sp_log s') = {u \<in> {..<n}. returned (sp_dpc s' u)}" using D(4) t p by (auto simp: sel)
    show "(u, st) \<in> set (sp_log s') \<and> st \<noteq> STATUS_SUCCESS" if "sp_dpc s' u = DpcError st" for u st
      using that D(5,6) p by (cases "u = t") (simp_all add: sel)
    show "st = STATUS_SUCCESS \<or> sp_dpc s' u = DpcError st"
      if "sp_error s' = STATUS_SUCCESS" "(u, st) \<in> set (sp_log s')" for u st
      using that D(7) [of u st] t by (auto simp: sel)
    show "j \<le> n \<and> sp_dpc s' self = DpcNone \<and> (\<forall>u\<ge>j. sp_dpc s' u = DpcNone)" if "sp_main s' = MainQueue j" for j
      using that D(9,10,11) m by (auto simp: sel t_def p_def split: if_splits)
    show "sp_dpc s' self = DpcDone" if "sp_main s' \<in> {MainWait, MainDone}"
      using that by (simp add: sel split: if_splits)
    show "sp_sync s' = finished n s' \<and> sp_main s' \<noteq> MainDone \<or>
      sp_sync s' = 0 \<and> finished n s' = n \<and> sp_main s' \<in> {MainWait, MainDone}"
      using D(13) m by (auto simp: sel fin)
  qed (use D(8) in \<open>simp_all add: sel D\<close>)
qed

lemma main_wait_inv:
  assumes inv: "smp_inv callback n self w s" and m: "sp_main s \<in> {MainSelf, MainWait, MainDone}"
  shows "smp_inv callback n self w (SmpRunPerProcessor n self s)"
proof -
  note D = smp_invD [OF inv]
  define s' where "s' = SmpRunPerProcessor n self s"
  have sel: "sp_log s' = sp_log s" "sp_world s' = sp_world s" "sp_error s' = sp_error s" "sp_dpc s' = sp_dpc s"
    "sp_sync s' = (if sp_main s = MainWait \<and> sp_sync s = n then 0 else sp_sync s)"
    "sp_main s' = (if sp_main s = MainSelf \<and> sp_dpc s self = DpcDone then MainWait
                   else if sp_main s = MainWait \<and> sp_sync s = 0 then MainDone else sp_main s)"
    using m by (auto simp: s'_def SmpRunPerProcessor_def)
  have fin: "finished n s' = finished n s" by (simp add: finished_def sel)
  have self: "sp_dpc s self = DpcDone" if "sp_main s = MainWait" using D(12) that by simp
  then have pos: "0 < finished n s" if "sp_main s = MainWait"
    using that D(1) by (auto simp: finished_def card_gt_0_iff)
  show ?thesis unfolding s'_def [symmetric]
  proof (rule smp_invI)
    show "j \<le> n \<and> sp_dpc s' self = DpcNone \<and> (\<forall>u\<ge>j. sp_dpc s' u = DpcNone)" if "sp_main s' = MainQueue j" for j
      using that m by (auto simp: sel split: if_splits)
    show "sp_dpc s' self = DpcDone" if "sp_main s' \<in> {MainWait, MainDone}"
      using that D(12) m by (auto simp: sel split: if_splits)
    show "sp_sync s' = finished n s' \<and> sp_main s' \<noteq> MainDone \<or>
      sp_sync s' = 0 \<and> finished n s' = n \<and> sp_main s' \<in> {MainWait, MainDone}"
      using D(13) m pos by (auto simp: sel fin)
  qed (use D(7,8) in \<open>simp_all add: sel D\<close>)
qed

lemma smp_step_inv:
  assumes inv: "smp_inv callback n self w s" and "smp_step callback n self s s'"
  shows "smp_inv callback n self w s'"
  using assms(2)
proof cases
  case run_main
  then show ?thesis using main_queue_inv [OF inv] main_wait_inv [OF inv] by (cases "sp_main s") simp_all
next
  case (run_dpc t)
  then show ?thesis using inv dpc_queued_inv [OF inv] dpc_error_inv [OF inv] dpc_count_inv [OF inv]
    by (cases "sp_dpc s t") (simp_all add: DpcRoutine_def)
qed

lemma smp_init_inv: "smp_init n self w s \<Longrightarrow> smp_inv callback n self w s"
  by (simp add: smp_init_def smp_inv_def finished_def)

interpretation smp: invariant_system "smp_init n self w" "smp_step callback n self" "smp_inv callback n self w"
  for callback :: "nat \<Rightarrow> 'w \<Rightarrow> ntstatus \<times> 'w" and n self w
  by unfold_locales (rule smp_init_inv smp_step_inv; assumption)+

section \<open>Progress\<close>

text \<open>Every processor the caller has passed has its routine queued.\<close>

definition queued_inv :: "nat \<Rightarrow> nat \<Rightarrow> 'w smp_state \<Rightarrow> bool" where
  "queued_inv n self s \<longleftrightarrow>
     (case sp_main s of
        MainQueue i \<Rightarrow> \<forall>t<i. t \<noteq> self \<longrightarrow> sp_dpc s t \<noteq> DpcNone
      | _ \<Rightarrow> \<forall>t<n. sp_dpc s t \<noteq> DpcNone)"

lemma dpc_keeps: "sp_main (DpcRoutine callback t s) = sp_main s"
  "sp_dpc (DpcRoutine callback t s) u = DpcNone \<longleftrightarrow> sp_dpc s u = DpcNone"
  by (auto simp: DpcRoutine_def Let_def split: dpc_pc.splits prod.splits)

lemma queued_step:
  assumes "smp_step callback n self s s'" "queued_inv n self s"
  shows "queued_inv n self s'"
  using assms(1)
proof cases
  case run_main
  then show ?thesis using assms(2)
    by (auto simp: queued_inv_def SmpRunPerProcessor_def less_Suc_eq split: main_pc.splits)
next
  case (run_dpc t)
  then show ?thesis using assms(2) by (simp add: queued_inv_def dpc_keeps split: main_pc.splits)
qed

lemma queued_init: "smp_init n self w s \<Longrightarrow> queued_inv n self s"
  by (simp add: smp_init_def queued_inv_def)

interpretation smpq: invariant_system "smp_init n self w" "smp_step callback n self" "queued_inv n self"
  for callback :: "nat \<Rightarrow> 'w \<Rightarrow> ntstatus \<times> 'w" and n self w
  by unfold_locales (rule queued_init queued_step; assumption)+

fun dpc_left :: "dpc_pc \<Rightarrow> nat" where
  "dpc_left DpcNone = 4"
| "dpc_left DpcQueued = 3"
| "dpc_left (DpcError st) = 2"
| "dpc_left DpcCount = 1"
| "dpc_left DpcDone = 0"

definition work_left :: "nat \<Rightarrow> 'w smp_state \<Rightarrow> nat" where
  "work_left n s = (\<Sum>t<n. dpc_left (sp_dpc s t)) +
     (case sp_main s of MainQueue i \<Rightarrow> 4 + n - i | MainSelf \<Rightarrow> 3
      | MainWait \<Rightarrow> if sp_sync s = 0 then 1 else 2 | MainDone \<Rightarrow> 0)"

lemma dpc_moves:
  "sp_dpc s t \<notin> {DpcNone, DpcDone} \<Longrightarrow>
     \<exists>p. sp_dpc (DpcRoutine callback t s) = (sp_dpc s)(t := p) \<and> dpc_left p < dpc_left (sp_dpc s t)"
proof (cases "sp_dpc s t")
  case DpcQueued
  obtain Status w where "callback t (sp_world s) = (Status, w)" by fastforce
  then show ?thesis using DpcQueued by (auto simp: DpcRoutine_def)
qed (auto simp: DpcRoutine_def)

lemma sum_dpc_upd:
  "t < (n::nat) \<Longrightarrow> (\<Sum>u<n. dpc_left ((f(t := p)) u)) + dpc_left (f t) = (\<Sum>u<n. dpc_left (f u)) + dpc_left p"
proof -
  assume t: "t < n"
  have "(\<Sum>u<n. dpc_left ((f(t := q)) u)) = dpc_left q + (\<Sum>u \<in> {..<n} - {t}. dpc_left (f u))" for q
    using t by (subst sum.remove [of "{..<n}" t]) (auto intro!: sum.cong)
  from this [of p] this [of "f t"] show ?thesis by simp
qed

text \<open>Until the caller has returned, some step leaves less to do.\<close>

lemma smp_progress:
  assumes inv: "smp_inv callback n self w s" and q: "queued_inv n self s" and m: "sp_main s \<noteq> MainDone"
  shows "\<exists>s'. smp_step callback n self s s' \<and> work_left n s' < work_left n s"
proof (cases "\<exists>t<n. sp_dpc s t \<notin> {DpcNone, DpcDone}")
  case True
  then obtain t where t: "t < n" "sp_dpc s t \<notin> {DpcNone, DpcDone}" by blast
  let ?s = "DpcRoutine callback t s"
  obtain p where p: "sp_dpc ?s = (sp_dpc s)(t := p)" "dpc_left p < dpc_left (sp_dpc s t)"
    using t(2) dpc_moves [of s t] by blast
  have "sp_sync s \<noteq> 0" if "sp_main s = MainWait"
  proof -
    have "finished n s \<noteq> n" using t finished_all by fastforce
    moreover have "finished n s \<noteq> 0" using smp_invD(1,12) [OF inv] that by (auto simp: finished_def)
    ultimately show ?thesis using smp_invD(13) [OF inv] by auto
  qed
  moreover have "sp_sync s \<le> sp_sync ?s"
    by (auto simp: DpcRoutine_def Let_def split: dpc_pc.splits prod.splits)
  ultimately have "work_left n ?s < work_left n s"
    using sum_dpc_upd [OF t(1), of "sp_dpc s" p] p
    by (auto simp: work_left_def dpc_keeps split: main_pc.splits)
  then show ?thesis using smp_step.run_dpc [OF t(1)] by blast
next
  case False
  then have f: "sp_dpc s t = DpcNone \<or> sp_dpc s t = DpcDone" if "t < n" for t using that by blast
  let ?s = "SmpRunPerProcessor n self s"
  note D = smp_invD [OF inv]
  have "work_left n ?s < work_left n s"
  proof (cases "sp_main s")
    case (MainQueue i)
    show ?thesis
    proof (cases "i < n")
      case True
      then show ?thesis using MainQueue D(11) [OF MainQueue, of i] sum_dpc_upd [OF True, of "sp_dpc s" DpcQueued]
        by (auto simp: SmpRunPerProcessor_def work_left_def)
    next
      case False
      then show ?thesis using MainQueue D(9,10) [OF MainQueue] sum_dpc_upd [OF D(1), of "sp_dpc s" DpcQueued]
        by (auto simp: SmpRunPerProcessor_def work_left_def)
    qed
  next
    case MainSelf
    then show ?thesis using f [OF D(1)] q D(1) by (auto simp: SmpRunPerProcessor_def work_left_def queued_inv_def)
  next
    case MainWait
    have "{t \<in> {..<n}. sp_dpc s t = DpcDone} = {..<n}" using q f MainWait by (auto simp: queued_inv_def)
    then have "finished n s = n" by (simp add: finished_def)
    then show ?thesis using D(13) MainWait D(1) by (auto simp: SmpRunPerProcessor_def work_left_def)
  qed (use m in simp)
  then show ?thesis using smp_step.run_main by blast
qed

lemma smp_can_return:
  assumes "smp_inv callback n self w s" "queued_inv n self s"
  shows "\<exists>s'. (smp_step callback n self)\<^sup>*\<^sup>* s s' \<and> sp_main s' = MainDone"
  using assms
proof (induction "work_left n s" arbitrary: s rule: less_induct)
  case less
  show ?case
  proof (cases "sp_main s = MainDone")
    case True then show ?thesis by blast
  next
    case False
    from smp_progress [OF less.prems False] obtain s' where
      s': "smp_step callback n self s s'" "work_left n s' < work_left n s" by blast
    from less.hyps [OF s'(2) smp_step_inv [OF less.prems(1) s'(1)] queued_step [OF s'(1) less.prems(2)]] s'(1)
    show ?thesis by (meson converse_rtranclp_into_rtranclp)
  qed
qed

section \<open>What a call returns\<close>

text \<open>
  The contract its callers rely on: the callbacks ran once on every processor, in some
  order, and the status is success when all of them succeeded and otherwise that of one that
  failed.  It covers the single processor, where the callback is simply called.
\<close>

definition smp_returns :: "(nat \<Rightarrow> 'w \<Rightarrow> ntstatus \<times> 'w) \<Rightarrow> nat \<Rightarrow> 'w \<Rightarrow> ntstatus \<Rightarrow> 'w \<Rightarrow> bool" where
  "smp_returns callback n w Status w' \<longleftrightarrow>
     (\<exists>order log. distinct order \<and> set order = {..<n} \<and> run_in_order callback order w = (log, w') \<and>
        (if \<forall>st \<in> snd ` set log. st = STATUS_SUCCESS then Status = STATUS_SUCCESS
         else Status \<noteq> STATUS_SUCCESS \<and> Status \<in> snd ` set log))"

lemma smp_returns_single: "callback 0 w = (Status, w') \<Longrightarrow> smp_returns callback 1 w Status w'"
  unfolding smp_returns_def by (intro exI [of _ "[0]"] exI [of _ "[(0, Status)]"]) auto

lemma smp_returns_local:
  assumes "smp_returns (\<lambda>t w. let (st, c) = f t (w t) in (st, w(t := c))) n w Status w'"
  shows "Status = STATUS_SUCCESS \<longleftrightarrow> (\<forall>t<n. fst (f t (w t)) = STATUS_SUCCESS)"
    "w' = (\<lambda>t. if t < n then snd (f t (w t)) else w t)"
    "Status \<noteq> STATUS_SUCCESS \<Longrightarrow> \<exists>t<n. Status = fst (f t (w t))"
proof -
  from assms obtain order log where o: "distinct order" "set order = {..<n}"
    "run_in_order (\<lambda>t w. let (st, c) = f t (w t) in (st, w(t := c))) order w = (log, w')"
    and st: "if \<forall>st \<in> snd ` set log. st = STATUS_SUCCESS then Status = STATUS_SUCCESS
         else Status \<noteq> STATUS_SUCCESS \<and> Status \<in> snd ` set log"
    unfolding smp_returns_def by blast
  from o(3) [unfolded run_in_order_local [OF o(1)]] have l: "log = map (\<lambda>t. (t, fst (f t (w t)))) order"
    and w: "w' = (\<lambda>t. if t \<in> set order then snd (f t (w t)) else w t)"
    by simp_all
  have "snd ` set log = (\<lambda>t. fst (f t (w t))) ` {..<n}" using o(2) by (auto simp: l image_image)
  with st show "Status = STATUS_SUCCESS \<longleftrightarrow> (\<forall>t<n. fst (f t (w t)) = STATUS_SUCCESS)"
    "Status \<noteq> STATUS_SUCCESS \<Longrightarrow> \<exists>t<n. Status = fst (f t (w t))" by (auto split: if_splits)
  show "w' = (\<lambda>t. if t < n then snd (f t (w t)) else w t)" using w o(2) by simp
qed


text \<open>Three processors add up their numbers; the callback fails on the last one.\<close>

definition smp_example_callback :: "nat \<Rightarrow> nat \<Rightarrow> ntstatus \<times> nat" where
  "smp_example_callback t w = (if t = 2 then STATUS_UNSUCCESSFUL else STATUS_SUCCESS, w + t)"

definition smp_example :: "nat smp_state" where
  "smp_example = \<lparr>sp_sync = 0, sp_error = STATUS_SUCCESS, sp_main = MainQueue 0, sp_dpc = (\<lambda>_. DpcNone),
     sp_world = 0, sp_log = []\<rparr>"

text \<open>A run: \<open>None\<close> is a step of the caller, \<open>Some t\<close> one of processor \<open>t\<close>.\<close>

fun smp_run :: "nat option list \<Rightarrow> nat smp_state \<Rightarrow> nat smp_state" where
  "smp_run [] s = s"
| "smp_run (None # xs) s = smp_run xs (SmpRunPerProcessor 3 1 s)"
| "smp_run (Some t # xs) s = smp_run xs (DpcRoutine smp_example_callback t s)"

lemma smp_run_reach:
  "reach (smp_init 3 1 0) (smp_step smp_example_callback 3 1) s \<Longrightarrow> \<forall>t. Some t \<in> set xs \<longrightarrow> t < 3 \<Longrightarrow>
     reach (smp_init 3 1 0) (smp_step smp_example_callback 3 1) (smp_run xs s)"
proof (induction xs s rule: smp_run.induct)
  case (2 xs s)
  show ?case using "2.IH" [OF reach_step [OF "2.prems"(1) run_main]] "2.prems"(2) by simp
next
  case (3 t xs s)
  show ?case using "3.IH" [OF reach_step [OF "3.prems"(1) run_dpc]] "3.prems"(2) by simp
qed simp

lemma smp_example_reach:
  "\<forall>t. Some t \<in> set xs \<longrightarrow> t < 3 \<Longrightarrow> reach (smp_init 3 1 0) (smp_step smp_example_callback 3 1) (smp_run xs smp_example)"
  by (rule smp_run_reach [OF reach_init]) (simp_all add: smp_init_def smp_example_def)

definition smp_example_schedule :: "nat option list" where
  "smp_example_schedule = [None, None, None, Some 2, None, Some 1, Some 0, Some 2, Some 2, Some 1, None, None,
     Some 0, None, None]"


text \<open>
  \<open>SmpRunPerProcessor\<close> never gets stuck: from every state the processors can come to,
  whatever the interleaving so far, some continuation lets it return.\<close>
theorem smp_always_returns:
  assumes "reach (smp_init n self w) (smp_step callback n self) s"
  shows "\<exists>s'. (smp_step callback n self)\<^sup>*\<^sup>* s s' \<and> sp_main s' = MainDone"
  by (rule smp_can_return [OF smp.reach_inv smpq.reach_inv]) (rule assms)+

theorem smp_always_returns_witness:
  "\<exists>s'. (smp_step smp_example_callback 3 1)\<^sup>*\<^sup>* (smp_run [None, None, None, Some 2, None] smp_example) s' \<and>
     sp_main s' = MainDone"
  by (rule smp_always_returns [OF smp_example_reach]) simp

end
