(* ===== verification/Vmcs_Fields.thy ===== *)
theory Vmcs_Fields
  imports Prelude
begin

text \<open>
  The encodings of the VMCS fields the driver uses (\<open>vmx.h\<close>).  A field is a 32-bit number
  made of its width, its type and its index; \<open>vmx_fields\<close> unfolds the names to numbers, on
  which the simplifier decides equality.
\<close>

named_theorems vmx_fields

definition TYPE_CONTROL :: u32 where [vmx_fields]: "TYPE_CONTROL = 0"
definition TYPE_EXIT_INFORMATION :: u32 where [vmx_fields]: "TYPE_EXIT_INFORMATION = 1"
definition TYPE_GUEST :: u32 where [vmx_fields]: "TYPE_GUEST = 2"
definition TYPE_HOST :: u32 where [vmx_fields]: "TYPE_HOST = 3"

definition WIDTH_16 :: u32 where [vmx_fields]: "WIDTH_16 = 0"
definition WIDTH_32 :: u32 where [vmx_fields]: "WIDTH_32 = 2"
definition WIDTH_64 :: u32 where [vmx_fields]: "WIDTH_64 = 1"
definition WIDTH_PLATFORM :: u32 where [vmx_fields]: "WIDTH_PLATFORM = 3"

definition VMCS_FIELD :: "u32 \<Rightarrow> u32 \<Rightarrow> u32 \<Rightarrow> u32" where [vmx_fields]:
  "VMCS_FIELD type width index = push_bit 13 width OR push_bit 10 type OR push_bit 1 index"

definition VMCS_FIELD_TYPE :: "u32 \<Rightarrow> u32" where [vmx_fields]:
  "VMCS_FIELD_TYPE field = drop_bit 10 (field AND push_bit 10 3)"

definition VMCS_FIELD_WIDTH :: "u32 \<Rightarrow> u32" where [vmx_fields]:
  "VMCS_FIELD_WIDTH field = drop_bit 13 (field AND push_bit 13 3)"

section \<open>Guest state\<close>

definition GUEST_CR0 :: u32 where [vmx_fields]: "GUEST_CR0 = VMCS_FIELD TYPE_GUEST WIDTH_PLATFORM 0"
definition GUEST_CR3 :: u32 where [vmx_fields]: "GUEST_CR3 = VMCS_FIELD TYPE_GUEST WIDTH_PLATFORM 1"
definition GUEST_CR4 :: u32 where [vmx_fields]: "GUEST_CR4 = VMCS_FIELD TYPE_GUEST WIDTH_PLATFORM 2"
definition GUEST_DR7 :: u32 where [vmx_fields]: "GUEST_DR7 = VMCS_FIELD TYPE_GUEST WIDTH_PLATFORM 13"
definition GUEST_RSP :: u32 where [vmx_fields]: "GUEST_RSP = VMCS_FIELD TYPE_GUEST WIDTH_PLATFORM 14"
definition GUEST_RIP :: u32 where [vmx_fields]: "GUEST_RIP = VMCS_FIELD TYPE_GUEST WIDTH_PLATFORM 15"
definition GUEST_RFLAGS :: u32 where [vmx_fields]: "GUEST_RFLAGS = VMCS_FIELD TYPE_GUEST WIDTH_PLATFORM 16"
definition GUEST_CS_SELECTOR :: u32 where [vmx_fields]: "GUEST_CS_SELECTOR = VMCS_FIELD TYPE_GUEST WIDTH_16 1"
definition GUEST_CS_BASE :: u32 where [vmx_fields]: "GUEST_CS_BASE = VMCS_FIELD TYPE_GUEST WIDTH_PLATFORM 4"
definition GUEST_CS_LIMIT :: u32 where [vmx_fields]: "GUEST_CS_LIMIT = VMCS_FIELD TYPE_GUEST WIDTH_32 1"
definition GUEST_CS_ACCESS_RIGHTS :: u32 where [vmx_fields]: "GUEST_CS_ACCESS_RIGHTS = VMCS_FIELD TYPE_GUEST WIDTH_32 11"
definition GUEST_SS_SELECTOR :: u32 where [vmx_fields]: "GUEST_SS_SELECTOR = VMCS_FIELD TYPE_GUEST WIDTH_16 2"
definition GUEST_SS_BASE :: u32 where [vmx_fields]: "GUEST_SS_BASE = VMCS_FIELD TYPE_GUEST WIDTH_PLATFORM 5"
definition GUEST_SS_LIMIT :: u32 where [vmx_fields]: "GUEST_SS_LIMIT = VMCS_FIELD TYPE_GUEST WIDTH_32 2"
definition GUEST_SS_ACCESS_RIGHTS :: u32 where [vmx_fields]: "GUEST_SS_ACCESS_RIGHTS = VMCS_FIELD TYPE_GUEST WIDTH_32 12"
definition GUEST_DS_SELECTOR :: u32 where [vmx_fields]: "GUEST_DS_SELECTOR = VMCS_FIELD TYPE_GUEST WIDTH_16 3"
definition GUEST_DS_BASE :: u32 where [vmx_fields]: "GUEST_DS_BASE = VMCS_FIELD TYPE_GUEST WIDTH_PLATFORM 6"
definition GUEST_DS_LIMIT :: u32 where [vmx_fields]: "GUEST_DS_LIMIT = VMCS_FIELD TYPE_GUEST WIDTH_32 3"
definition GUEST_DS_ACCESS_RIGHTS :: u32 where [vmx_fields]: "GUEST_DS_ACCESS_RIGHTS = VMCS_FIELD TYPE_GUEST WIDTH_32 13"
definition GUEST_ES_SELECTOR :: u32 where [vmx_fields]: "GUEST_ES_SELECTOR = VMCS_FIELD TYPE_GUEST WIDTH_16 0"
definition GUEST_ES_BASE :: u32 where [vmx_fields]: "GUEST_ES_BASE = VMCS_FIELD TYPE_GUEST WIDTH_PLATFORM 3"
definition GUEST_ES_LIMIT :: u32 where [vmx_fields]: "GUEST_ES_LIMIT = VMCS_FIELD TYPE_GUEST WIDTH_32 0"
definition GUEST_ES_ACCESS_RIGHTS :: u32 where [vmx_fields]: "GUEST_ES_ACCESS_RIGHTS = VMCS_FIELD TYPE_GUEST WIDTH_32 10"
definition GUEST_FS_SELECTOR :: u32 where [vmx_fields]: "GUEST_FS_SELECTOR = VMCS_FIELD TYPE_GUEST WIDTH_16 4"
definition GUEST_FS_BASE :: u32 where [vmx_fields]: "GUEST_FS_BASE = VMCS_FIELD TYPE_GUEST WIDTH_PLATFORM 7"
definition GUEST_FS_LIMIT :: u32 where [vmx_fields]: "GUEST_FS_LIMIT = VMCS_FIELD TYPE_GUEST WIDTH_32 4"
definition GUEST_FS_ACCESS_RIGHTS :: u32 where [vmx_fields]: "GUEST_FS_ACCESS_RIGHTS = VMCS_FIELD TYPE_GUEST WIDTH_32 14"
definition GUEST_GS_SELECTOR :: u32 where [vmx_fields]: "GUEST_GS_SELECTOR = VMCS_FIELD TYPE_GUEST WIDTH_16 5"
definition GUEST_GS_BASE :: u32 where [vmx_fields]: "GUEST_GS_BASE = VMCS_FIELD TYPE_GUEST WIDTH_PLATFORM 8"
definition GUEST_GS_LIMIT :: u32 where [vmx_fields]: "GUEST_GS_LIMIT = VMCS_FIELD TYPE_GUEST WIDTH_32 5"
definition GUEST_GS_ACCESS_RIGHTS :: u32 where [vmx_fields]: "GUEST_GS_ACCESS_RIGHTS = VMCS_FIELD TYPE_GUEST WIDTH_32 15"
definition GUEST_LDTR_SELECTOR :: u32 where [vmx_fields]: "GUEST_LDTR_SELECTOR = VMCS_FIELD TYPE_GUEST WIDTH_16 6"
definition GUEST_LDTR_BASE :: u32 where [vmx_fields]: "GUEST_LDTR_BASE = VMCS_FIELD TYPE_GUEST WIDTH_PLATFORM 9"
definition GUEST_LDTR_LIMIT :: u32 where [vmx_fields]: "GUEST_LDTR_LIMIT = VMCS_FIELD TYPE_GUEST WIDTH_32 6"
definition GUEST_LDTR_ACCESS_RIGHTS :: u32 where [vmx_fields]: "GUEST_LDTR_ACCESS_RIGHTS = VMCS_FIELD TYPE_GUEST WIDTH_32 16"
definition GUEST_TR_SELECTOR :: u32 where [vmx_fields]: "GUEST_TR_SELECTOR = VMCS_FIELD TYPE_GUEST WIDTH_16 7"
definition GUEST_TR_BASE :: u32 where [vmx_fields]: "GUEST_TR_BASE = VMCS_FIELD TYPE_GUEST WIDTH_PLATFORM 10"
definition GUEST_TR_LIMIT :: u32 where [vmx_fields]: "GUEST_TR_LIMIT = VMCS_FIELD TYPE_GUEST WIDTH_32 7"
definition GUEST_TR_ACCESS_RIGHTS :: u32 where [vmx_fields]: "GUEST_TR_ACCESS_RIGHTS = VMCS_FIELD TYPE_GUEST WIDTH_32 17"
definition GUEST_GDTR_BASE :: u32 where [vmx_fields]: "GUEST_GDTR_BASE = VMCS_FIELD TYPE_GUEST WIDTH_PLATFORM 11"
definition GUEST_GDTR_LIMIT :: u32 where [vmx_fields]: "GUEST_GDTR_LIMIT = VMCS_FIELD TYPE_GUEST WIDTH_32 8"
definition GUEST_IDTR_BASE :: u32 where [vmx_fields]: "GUEST_IDTR_BASE = VMCS_FIELD TYPE_GUEST WIDTH_PLATFORM 12"
definition GUEST_IDTR_LIMIT :: u32 where [vmx_fields]: "GUEST_IDTR_LIMIT = VMCS_FIELD TYPE_GUEST WIDTH_32 9"
definition GUEST_IA32_DEBUGCTL :: u32 where [vmx_fields]: "GUEST_IA32_DEBUGCTL = VMCS_FIELD TYPE_GUEST WIDTH_64 1"
definition GUEST_IA32_SYSENTER_CS :: u32 where [vmx_fields]: "GUEST_IA32_SYSENTER_CS = VMCS_FIELD TYPE_GUEST WIDTH_32 21"
definition GUEST_IA32_SYSENTER_ESP :: u32 where [vmx_fields]: "GUEST_IA32_SYSENTER_ESP = VMCS_FIELD TYPE_GUEST WIDTH_PLATFORM 18"
definition GUEST_IA32_SYSENTER_EIP :: u32 where [vmx_fields]: "GUEST_IA32_SYSENTER_EIP = VMCS_FIELD TYPE_GUEST WIDTH_PLATFORM 19"
definition GUEST_SMBASE :: u32 where [vmx_fields]: "GUEST_SMBASE = VMCS_FIELD TYPE_GUEST WIDTH_32 20"
definition GUEST_ACTIVITY_STATE :: u32 where [vmx_fields]: "GUEST_ACTIVITY_STATE = VMCS_FIELD TYPE_GUEST WIDTH_32 19"
definition GUEST_INTERRUPTIBILITY_STATE :: u32 where [vmx_fields]: "GUEST_INTERRUPTIBILITY_STATE = VMCS_FIELD TYPE_GUEST WIDTH_32 18"
definition GUEST_PENDING_DEBUG_EXCEPTIONS :: u32 where [vmx_fields]: "GUEST_PENDING_DEBUG_EXCEPTIONS = VMCS_FIELD TYPE_GUEST WIDTH_PLATFORM 17"
definition VMCS_LINK_POINTER :: u32 where [vmx_fields]: "VMCS_LINK_POINTER = VMCS_FIELD TYPE_GUEST WIDTH_64 0"

section \<open>Host state\<close>

definition HOST_CR0 :: u32 where [vmx_fields]: "HOST_CR0 = VMCS_FIELD TYPE_HOST WIDTH_PLATFORM 0"
definition HOST_CR3 :: u32 where [vmx_fields]: "HOST_CR3 = VMCS_FIELD TYPE_HOST WIDTH_PLATFORM 1"
definition HOST_CR4 :: u32 where [vmx_fields]: "HOST_CR4 = VMCS_FIELD TYPE_HOST WIDTH_PLATFORM 2"
definition HOST_RSP :: u32 where [vmx_fields]: "HOST_RSP = VMCS_FIELD TYPE_HOST WIDTH_PLATFORM 10"
definition HOST_RIP :: u32 where [vmx_fields]: "HOST_RIP = VMCS_FIELD TYPE_HOST WIDTH_PLATFORM 11"
definition HOST_CS_SELECTOR :: u32 where [vmx_fields]: "HOST_CS_SELECTOR = VMCS_FIELD TYPE_HOST WIDTH_16 1"
definition HOST_SS_SELECTOR :: u32 where [vmx_fields]: "HOST_SS_SELECTOR = VMCS_FIELD TYPE_HOST WIDTH_16 2"
definition HOST_DS_SELECTOR :: u32 where [vmx_fields]: "HOST_DS_SELECTOR = VMCS_FIELD TYPE_HOST WIDTH_16 3"
definition HOST_ES_SELECTOR :: u32 where [vmx_fields]: "HOST_ES_SELECTOR = VMCS_FIELD TYPE_HOST WIDTH_16 0"
definition HOST_FS_SELECTOR :: u32 where [vmx_fields]: "HOST_FS_SELECTOR = VMCS_FIELD TYPE_HOST WIDTH_16 4"
definition HOST_FS_BASE :: u32 where [vmx_fields]: "HOST_FS_BASE = VMCS_FIELD TYPE_HOST WIDTH_PLATFORM 3"
definition HOST_GS_SELECTOR :: u32 where [vmx_fields]: "HOST_GS_SELECTOR = VMCS_FIELD TYPE_HOST WIDTH_16 5"
definition HOST_GS_BASE :: u32 where [vmx_fields]: "HOST_GS_BASE = VMCS_FIELD TYPE_HOST WIDTH_PLATFORM 4"
definition HOST_TR_SELECTOR :: u32 where [vmx_fields]: "HOST_TR_SELECTOR = VMCS_FIELD TYPE_HOST WIDTH_16 6"
definition HOST_TR_BASE :: u32 where [vmx_fields]: "HOST_TR_BASE = VMCS_FIELD TYPE_HOST WIDTH_PLATFORM 5"
definition HOST_GDTR_BASE :: u32 where [vmx_fields]: "HOST_GDTR_BASE = VMCS_FIELD TYPE_HOST WIDTH_PLATFORM 6"
definition HOST_IDTR_BASE :: u32 where [vmx_fields]: "HOST_IDTR_BASE = VMCS_FIELD TYPE_HOST WIDTH_PLATFORM 7"
definition HOST_IA32_SYSENTER_CS :: u32 where [vmx_fields]: "HOST_IA32_SYSENTER_CS = VMCS_FIELD TYPE_HOST WIDTH_32 0"
definition HOST_IA32_SYSENTER_ESP :: u32 where [vmx_fields]: "HOST_IA32_SYSENTER_ESP = VMCS_FIELD TYPE_HOST WIDTH_PLATFORM 8"
definition HOST_IA32_SYSENTER_EIP :: u32 where [vmx_fields]: "HOST_IA32_SYSENTER_EIP = VMCS_FIELD TYPE_HOST WIDTH_PLATFORM 9"

section \<open>Controls\<close>

definition VM_EXEC_CONTROLS_PIN_BASED :: u32 where [vmx_fields]: "VM_EXEC_CONTROLS_PIN_BASED = VMCS_FIELD TYPE_CONTROL WIDTH_32 0"
definition VM_EXEC_CONTROLS_PROC_PRIMARY :: u32 where [vmx_fields]: "VM_EXEC_CONTROLS_PROC_PRIMARY = VMCS_FIELD TYPE_CONTROL WIDTH_32 1"
definition VM_EXEC_CONTROLS_PROC_SECONDARY :: u32 where [vmx_fields]: "VM_EXEC_CONTROLS_PROC_SECONDARY = VMCS_FIELD TYPE_CONTROL WIDTH_32 15"
definition EXCEPTION_BITMAP :: u32 where [vmx_fields]: "EXCEPTION_BITMAP = VMCS_FIELD TYPE_CONTROL WIDTH_32 2"
definition CR4_GUEST_HOST_MASK :: u32 where [vmx_fields]: "CR4_GUEST_HOST_MASK = VMCS_FIELD TYPE_CONTROL WIDTH_PLATFORM 1"
definition CR4_READ_SHADOW :: u32 where [vmx_fields]: "CR4_READ_SHADOW = VMCS_FIELD TYPE_CONTROL WIDTH_PLATFORM 3"
definition CR3_TARGET_COUNT :: u32 where [vmx_fields]: "CR3_TARGET_COUNT = VMCS_FIELD TYPE_CONTROL WIDTH_32 5"
definition CR3_TARGET_0 :: u32 where [vmx_fields]: "CR3_TARGET_0 = VMCS_FIELD TYPE_CONTROL WIDTH_PLATFORM 4"
definition CR3_TARGET_1 :: u32 where [vmx_fields]: "CR3_TARGET_1 = VMCS_FIELD TYPE_CONTROL WIDTH_PLATFORM 5"
definition CR3_TARGET_2 :: u32 where [vmx_fields]: "CR3_TARGET_2 = VMCS_FIELD TYPE_CONTROL WIDTH_PLATFORM 6"
definition CR3_TARGET_3 :: u32 where [vmx_fields]: "CR3_TARGET_3 = VMCS_FIELD TYPE_CONTROL WIDTH_PLATFORM 7"
definition MSR_BITMAP_ADDRESS :: u32 where [vmx_fields]: "MSR_BITMAP_ADDRESS = VMCS_FIELD TYPE_CONTROL WIDTH_64 2"
definition EXECUTIVE_VMCS_POINTER :: u32 where [vmx_fields]: "EXECUTIVE_VMCS_POINTER = VMCS_FIELD TYPE_CONTROL WIDTH_64 6"
definition XSS_EXITING_BITMAP :: u32 where [vmx_fields]: "XSS_EXITING_BITMAP = VMCS_FIELD TYPE_CONTROL WIDTH_64 22"
definition VM_EXIT_CONTROLS :: u32 where [vmx_fields]: "VM_EXIT_CONTROLS = VMCS_FIELD TYPE_CONTROL WIDTH_32 6"
definition VM_EXIT_MSR_STORE_COUNT :: u32 where [vmx_fields]: "VM_EXIT_MSR_STORE_COUNT = VMCS_FIELD TYPE_CONTROL WIDTH_32 7"
definition VM_EXIT_MSR_LOAD_COUNT :: u32 where [vmx_fields]: "VM_EXIT_MSR_LOAD_COUNT = VMCS_FIELD TYPE_CONTROL WIDTH_32 8"
definition VM_ENTRY_CONTROLS :: u32 where [vmx_fields]: "VM_ENTRY_CONTROLS = VMCS_FIELD TYPE_CONTROL WIDTH_32 9"
definition VM_ENTRY_MSR_LOAD_COUNT :: u32 where [vmx_fields]: "VM_ENTRY_MSR_LOAD_COUNT = VMCS_FIELD TYPE_CONTROL WIDTH_32 10"
definition VM_ENTRY_INTERRUPTION_INFORMATION :: u32 where [vmx_fields]: "VM_ENTRY_INTERRUPTION_INFORMATION = VMCS_FIELD TYPE_CONTROL WIDTH_32 11"
definition VM_ENTRY_EXCEPTION_ERRORCODE :: u32 where [vmx_fields]: "VM_ENTRY_EXCEPTION_ERRORCODE = VMCS_FIELD TYPE_CONTROL WIDTH_32 12"
definition VM_ENTRY_INSTRUCTION_LENGTH :: u32 where [vmx_fields]: "VM_ENTRY_INSTRUCTION_LENGTH = VMCS_FIELD TYPE_CONTROL WIDTH_32 13"

section \<open>Exit information\<close>

definition EXIT_REASON :: u32 where [vmx_fields]: "EXIT_REASON = VMCS_FIELD TYPE_EXIT_INFORMATION WIDTH_32 1"
definition EXIT_QUALIFICATION :: u32 where [vmx_fields]: "EXIT_QUALIFICATION = VMCS_FIELD TYPE_EXIT_INFORMATION WIDTH_PLATFORM 0"
definition GUEST_LINEAR_ADDRESS :: u32 where [vmx_fields]: "GUEST_LINEAR_ADDRESS = VMCS_FIELD TYPE_EXIT_INFORMATION WIDTH_PLATFORM 5"
definition GUEST_PHYSICAL_ADDRESS :: u32 where [vmx_fields]: "GUEST_PHYSICAL_ADDRESS = VMCS_FIELD TYPE_EXIT_INFORMATION WIDTH_64 0"
definition EXIT_INTERRUPTION_INFORMATION :: u32 where [vmx_fields]: "EXIT_INTERRUPTION_INFORMATION = VMCS_FIELD TYPE_EXIT_INFORMATION WIDTH_32 2"
definition EXIT_INTERRUPTION_ERRORCODE :: u32 where [vmx_fields]: "EXIT_INTERRUPTION_ERRORCODE = VMCS_FIELD TYPE_EXIT_INFORMATION WIDTH_32 3"
definition IDT_VECTORING_INFORMATION :: u32 where [vmx_fields]: "IDT_VECTORING_INFORMATION = VMCS_FIELD TYPE_EXIT_INFORMATION WIDTH_32 4"
definition IDT_VECTORING_ERRORCODE :: u32 where [vmx_fields]: "IDT_VECTORING_ERRORCODE = VMCS_FIELD TYPE_EXIT_INFORMATION WIDTH_32 5"
definition EXIT_INSTRUCTION_LENGTH :: u32 where [vmx_fields]: "EXIT_INSTRUCTION_LENGTH = VMCS_FIELD TYPE_EXIT_INFORMATION WIDTH_32 6"
definition EXIT_INSTRUCTION_INFORMATION :: u32 where [vmx_fields]: "EXIT_INSTRUCTION_INFORMATION = VMCS_FIELD TYPE_EXIT_INFORMATION WIDTH_32 7"
definition IO_RCX :: u32 where [vmx_fields]: "IO_RCX = VMCS_FIELD TYPE_EXIT_INFORMATION WIDTH_PLATFORM 1"
definition IO_RSI :: u32 where [vmx_fields]: "IO_RSI = VMCS_FIELD TYPE_EXIT_INFORMATION WIDTH_PLATFORM 2"
definition IO_RDI :: u32 where [vmx_fields]: "IO_RDI = VMCS_FIELD TYPE_EXIT_INFORMATION WIDTH_PLATFORM 3"
definition IO_RIP :: u32 where [vmx_fields]: "IO_RIP = VMCS_FIELD TYPE_EXIT_INFORMATION WIDTH_PLATFORM 4"
definition VM_INSTRUCTION_ERROR :: u32 where [vmx_fields]: "VM_INSTRUCTION_ERROR = VMCS_FIELD TYPE_EXIT_INFORMATION WIDTH_32 0"

section \<open>Values\<close>

text \<open>The encodings as numbers; the simplifier decides with them which of two names are the same field.\<close>

lemma vmx_values_1:
  "GUEST_CR0 = 0x6800" "GUEST_CR3 = 0x6802" "GUEST_CR4 = 0x6804" "GUEST_DR7 = 0x681A" "GUEST_RSP = 0x681C"
  "GUEST_RIP = 0x681E" "GUEST_RFLAGS = 0x6820" "GUEST_CS_SELECTOR = 0x802" "GUEST_CS_BASE = 0x6808"
  "GUEST_CS_LIMIT = 0x4802" "GUEST_CS_ACCESS_RIGHTS = 0x4816" "GUEST_SS_SELECTOR = 0x804" "GUEST_SS_BASE = 0x680A"
  "GUEST_SS_LIMIT = 0x4804" "GUEST_SS_ACCESS_RIGHTS = 0x4818" "GUEST_DS_SELECTOR = 0x806" "GUEST_DS_BASE = 0x680C"
  "GUEST_DS_LIMIT = 0x4806" "GUEST_DS_ACCESS_RIGHTS = 0x481A" "GUEST_ES_SELECTOR = 0x800" "GUEST_ES_BASE = 0x6806"
  "GUEST_ES_LIMIT = 0x4800" "GUEST_ES_ACCESS_RIGHTS = 0x4814" "GUEST_FS_SELECTOR = 0x808" "GUEST_FS_BASE = 0x680E"
  "GUEST_FS_LIMIT = 0x4808" "GUEST_FS_ACCESS_RIGHTS = 0x481C" "GUEST_GS_SELECTOR = 0x80A"
  by (simp_all add: vmx_fields)

lemma vmx_values_2:
  "GUEST_GS_BASE = 0x6810" "GUEST_GS_LIMIT = 0x480A" "GUEST_GS_ACCESS_RIGHTS = 0x481E" "GUEST_LDTR_SELECTOR = 0x80C"
  "GUEST_LDTR_BASE = 0x6812" "GUEST_LDTR_LIMIT = 0x480C" "GUEST_LDTR_ACCESS_RIGHTS = 0x4820"
  "GUEST_TR_SELECTOR = 0x80E" "GUEST_TR_BASE = 0x6814" "GUEST_TR_LIMIT = 0x480E" "GUEST_TR_ACCESS_RIGHTS = 0x4822"
  "GUEST_GDTR_BASE = 0x6816" "GUEST_GDTR_LIMIT = 0x4810" "GUEST_IDTR_BASE = 0x6818" "GUEST_IDTR_LIMIT = 0x4812"
  "GUEST_IA32_DEBUGCTL = 0x2802" "GUEST_IA32_SYSENTER_CS = 0x482A" "GUEST_IA32_SYSENTER_ESP = 0x6824"
  "GUEST_IA32_SYSENTER_EIP = 0x6826" "GUEST_SMBASE = 0x4828" "GUEST_ACTIVITY_STATE = 0x4826"
  "GUEST_INTERRUPTIBILITY_STATE = 0x4824" "GUEST_PENDING_DEBUG_EXCEPTIONS = 0x6822" "VMCS_LINK_POINTER = 0x2800"
  "HOST_CR0 = 0x6C00" "HOST_CR3 = 0x6C02" "HOST_CR4 = 0x6C04" "HOST_RSP = 0x6C14"
  by (simp_all add: vmx_fields)

lemma vmx_values_3:
  "HOST_RIP = 0x6C16" "HOST_CS_SELECTOR = 0xC02" "HOST_SS_SELECTOR = 0xC04" "HOST_DS_SELECTOR = 0xC06"
  "HOST_ES_SELECTOR = 0xC00" "HOST_FS_SELECTOR = 0xC08" "HOST_FS_BASE = 0x6C06" "HOST_GS_SELECTOR = 0xC0A"
  "HOST_GS_BASE = 0x6C08" "HOST_TR_SELECTOR = 0xC0C" "HOST_TR_BASE = 0x6C0A" "HOST_GDTR_BASE = 0x6C0C"
  "HOST_IDTR_BASE = 0x6C0E" "HOST_IA32_SYSENTER_CS = 0x4C00" "HOST_IA32_SYSENTER_ESP = 0x6C10"
  "HOST_IA32_SYSENTER_EIP = 0x6C12" "VM_EXEC_CONTROLS_PIN_BASED = 0x4000" "VM_EXEC_CONTROLS_PROC_PRIMARY = 0x4002"
  "VM_EXEC_CONTROLS_PROC_SECONDARY = 0x401E" "EXCEPTION_BITMAP = 0x4004" "CR4_GUEST_HOST_MASK = 0x6002"
  "CR4_READ_SHADOW = 0x6006" "CR3_TARGET_COUNT = 0x400A" "CR3_TARGET_0 = 0x6008" "CR3_TARGET_1 = 0x600A"
  "CR3_TARGET_2 = 0x600C" "CR3_TARGET_3 = 0x600E" "MSR_BITMAP_ADDRESS = 0x2004"
  by (simp_all add: vmx_fields)

lemma vmx_values_4:
  "EXECUTIVE_VMCS_POINTER = 0x200C" "XSS_EXITING_BITMAP = 0x202C" "VM_EXIT_CONTROLS = 0x400C"
  "VM_EXIT_MSR_STORE_COUNT = 0x400E" "VM_EXIT_MSR_LOAD_COUNT = 0x4010" "VM_ENTRY_CONTROLS = 0x4012"
  "VM_ENTRY_MSR_LOAD_COUNT = 0x4014" "VM_ENTRY_INTERRUPTION_INFORMATION = 0x4016"
  "VM_ENTRY_EXCEPTION_ERRORCODE = 0x4018" "VM_ENTRY_INSTRUCTION_LENGTH = 0x401A" "EXIT_REASON = 0x4402"
  "EXIT_QUALIFICATION = 0x6400" "GUEST_LINEAR_ADDRESS = 0x640A" "GUEST_PHYSICAL_ADDRESS = 0x2400"
  "EXIT_INTERRUPTION_INFORMATION = 0x4404" "EXIT_INTERRUPTION_ERRORCODE = 0x4406" "IDT_VECTORING_INFORMATION = 0x4408"
  "IDT_VECTORING_ERRORCODE = 0x440A" "EXIT_INSTRUCTION_LENGTH = 0x440C" "EXIT_INSTRUCTION_INFORMATION = 0x440E"
  "IO_RCX = 0x6402" "IO_RSI = 0x6404" "IO_RDI = 0x6406" "IO_RIP = 0x6408" "VM_INSTRUCTION_ERROR = 0x4400"
  by (simp_all add: vmx_fields)

lemmas vmx_values = vmx_values_1 vmx_values_2 vmx_values_3 vmx_values_4

section \<open>Widths\<close>

lemma width_platform_fields [simp]:
  "VMCS_FIELD_WIDTH GUEST_CR0 = WIDTH_PLATFORM" "VMCS_FIELD_WIDTH GUEST_CR3 = WIDTH_PLATFORM" "VMCS_FIELD_WIDTH GUEST_CR4 = WIDTH_PLATFORM"
  "VMCS_FIELD_WIDTH GUEST_DR7 = WIDTH_PLATFORM" "VMCS_FIELD_WIDTH GUEST_RSP = WIDTH_PLATFORM" "VMCS_FIELD_WIDTH GUEST_RIP = WIDTH_PLATFORM"
  "VMCS_FIELD_WIDTH GUEST_RFLAGS = WIDTH_PLATFORM" "VMCS_FIELD_WIDTH GUEST_CS_BASE = WIDTH_PLATFORM"
  "VMCS_FIELD_WIDTH GUEST_SS_BASE = WIDTH_PLATFORM" "VMCS_FIELD_WIDTH GUEST_DS_BASE = WIDTH_PLATFORM"
  "VMCS_FIELD_WIDTH GUEST_ES_BASE = WIDTH_PLATFORM" "VMCS_FIELD_WIDTH GUEST_FS_BASE = WIDTH_PLATFORM"
  "VMCS_FIELD_WIDTH GUEST_GS_BASE = WIDTH_PLATFORM" "VMCS_FIELD_WIDTH GUEST_LDTR_BASE = WIDTH_PLATFORM"
  "VMCS_FIELD_WIDTH GUEST_TR_BASE = WIDTH_PLATFORM" "VMCS_FIELD_WIDTH GUEST_GDTR_BASE = WIDTH_PLATFORM"
  "VMCS_FIELD_WIDTH GUEST_IDTR_BASE = WIDTH_PLATFORM" "VMCS_FIELD_WIDTH GUEST_IA32_SYSENTER_ESP = WIDTH_PLATFORM"
  "VMCS_FIELD_WIDTH GUEST_IA32_SYSENTER_EIP = WIDTH_PLATFORM" "VMCS_FIELD_WIDTH GUEST_PENDING_DEBUG_EXCEPTIONS = WIDTH_PLATFORM"
  "VMCS_FIELD_WIDTH HOST_CR0 = WIDTH_PLATFORM" "VMCS_FIELD_WIDTH HOST_CR3 = WIDTH_PLATFORM" "VMCS_FIELD_WIDTH HOST_CR4 = WIDTH_PLATFORM"
  "VMCS_FIELD_WIDTH HOST_RSP = WIDTH_PLATFORM" "VMCS_FIELD_WIDTH HOST_RIP = WIDTH_PLATFORM" "VMCS_FIELD_WIDTH HOST_FS_BASE = WIDTH_PLATFORM"
  "VMCS_FIELD_WIDTH HOST_GS_BASE = WIDTH_PLATFORM" "VMCS_FIELD_WIDTH HOST_TR_BASE = WIDTH_PLATFORM"
  "VMCS_FIELD_WIDTH HOST_GDTR_BASE = WIDTH_PLATFORM" "VMCS_FIELD_WIDTH HOST_IDTR_BASE = WIDTH_PLATFORM"
  "VMCS_FIELD_WIDTH HOST_IA32_SYSENTER_ESP = WIDTH_PLATFORM" "VMCS_FIELD_WIDTH HOST_IA32_SYSENTER_EIP = WIDTH_PLATFORM"
  "VMCS_FIELD_WIDTH CR4_GUEST_HOST_MASK = WIDTH_PLATFORM" "VMCS_FIELD_WIDTH CR4_READ_SHADOW = WIDTH_PLATFORM"
  "VMCS_FIELD_WIDTH CR3_TARGET_0 = WIDTH_PLATFORM" "VMCS_FIELD_WIDTH CR3_TARGET_1 = WIDTH_PLATFORM" "VMCS_FIELD_WIDTH CR3_TARGET_2 = WIDTH_PLATFORM"
  "VMCS_FIELD_WIDTH CR3_TARGET_3 = WIDTH_PLATFORM" "VMCS_FIELD_WIDTH EXIT_QUALIFICATION = WIDTH_PLATFORM"
  "VMCS_FIELD_WIDTH GUEST_LINEAR_ADDRESS = WIDTH_PLATFORM" "VMCS_FIELD_WIDTH IO_RCX = WIDTH_PLATFORM" "VMCS_FIELD_WIDTH IO_RSI = WIDTH_PLATFORM"
  "VMCS_FIELD_WIDTH IO_RDI = WIDTH_PLATFORM" "VMCS_FIELD_WIDTH IO_RIP = WIDTH_PLATFORM"
  by (simp_all add: vmx_fields)

lemma width_16_fields [simp]:
  "VMCS_FIELD_WIDTH GUEST_CS_SELECTOR = WIDTH_16" "VMCS_FIELD_WIDTH GUEST_SS_SELECTOR = WIDTH_16" "VMCS_FIELD_WIDTH GUEST_DS_SELECTOR = WIDTH_16"
  "VMCS_FIELD_WIDTH GUEST_ES_SELECTOR = WIDTH_16" "VMCS_FIELD_WIDTH GUEST_FS_SELECTOR = WIDTH_16" "VMCS_FIELD_WIDTH GUEST_GS_SELECTOR = WIDTH_16"
  "VMCS_FIELD_WIDTH GUEST_LDTR_SELECTOR = WIDTH_16" "VMCS_FIELD_WIDTH GUEST_TR_SELECTOR = WIDTH_16" "VMCS_FIELD_WIDTH HOST_CS_SELECTOR = WIDTH_16"
  "VMCS_FIELD_WIDTH HOST_SS_SELECTOR = WIDTH_16" "VMCS_FIELD_WIDTH HOST_DS_SELECTOR = WIDTH_16" "VMCS_FIELD_WIDTH HOST_ES_SELECTOR = WIDTH_16"
  "VMCS_FIELD_WIDTH HOST_FS_SELECTOR = WIDTH_16" "VMCS_FIELD_WIDTH HOST_GS_SELECTOR = WIDTH_16" "VMCS_FIELD_WIDTH HOST_TR_SELECTOR = WIDTH_16"
  by (simp_all add: vmx_fields)

lemma width_32_fields [simp]:
  "VMCS_FIELD_WIDTH GUEST_CS_LIMIT = WIDTH_32" "VMCS_FIELD_WIDTH GUEST_CS_ACCESS_RIGHTS = WIDTH_32" "VMCS_FIELD_WIDTH GUEST_SS_LIMIT = WIDTH_32"
  "VMCS_FIELD_WIDTH GUEST_SS_ACCESS_RIGHTS = WIDTH_32" "VMCS_FIELD_WIDTH GUEST_DS_LIMIT = WIDTH_32"
  "VMCS_FIELD_WIDTH GUEST_DS_ACCESS_RIGHTS = WIDTH_32" "VMCS_FIELD_WIDTH GUEST_ES_LIMIT = WIDTH_32"
  "VMCS_FIELD_WIDTH GUEST_ES_ACCESS_RIGHTS = WIDTH_32" "VMCS_FIELD_WIDTH GUEST_FS_LIMIT = WIDTH_32"
  "VMCS_FIELD_WIDTH GUEST_FS_ACCESS_RIGHTS = WIDTH_32" "VMCS_FIELD_WIDTH GUEST_GS_LIMIT = WIDTH_32"
  "VMCS_FIELD_WIDTH GUEST_GS_ACCESS_RIGHTS = WIDTH_32" "VMCS_FIELD_WIDTH GUEST_LDTR_LIMIT = WIDTH_32"
  "VMCS_FIELD_WIDTH GUEST_LDTR_ACCESS_RIGHTS = WIDTH_32" "VMCS_FIELD_WIDTH GUEST_TR_LIMIT = WIDTH_32"
  "VMCS_FIELD_WIDTH GUEST_TR_ACCESS_RIGHTS = WIDTH_32" "VMCS_FIELD_WIDTH GUEST_GDTR_LIMIT = WIDTH_32" "VMCS_FIELD_WIDTH GUEST_IDTR_LIMIT = WIDTH_32"
  "VMCS_FIELD_WIDTH GUEST_IA32_SYSENTER_CS = WIDTH_32" "VMCS_FIELD_WIDTH GUEST_SMBASE = WIDTH_32" "VMCS_FIELD_WIDTH GUEST_ACTIVITY_STATE = WIDTH_32"
  "VMCS_FIELD_WIDTH GUEST_INTERRUPTIBILITY_STATE = WIDTH_32" "VMCS_FIELD_WIDTH HOST_IA32_SYSENTER_CS = WIDTH_32"
  "VMCS_FIELD_WIDTH VM_EXEC_CONTROLS_PIN_BASED = WIDTH_32" "VMCS_FIELD_WIDTH VM_EXEC_CONTROLS_PROC_PRIMARY = WIDTH_32"
  "VMCS_FIELD_WIDTH VM_EXEC_CONTROLS_PROC_SECONDARY = WIDTH_32" "VMCS_FIELD_WIDTH EXCEPTION_BITMAP = WIDTH_32"
  "VMCS_FIELD_WIDTH CR3_TARGET_COUNT = WIDTH_32" "VMCS_FIELD_WIDTH VM_EXIT_CONTROLS = WIDTH_32" "VMCS_FIELD_WIDTH VM_EXIT_MSR_STORE_COUNT = WIDTH_32"
  "VMCS_FIELD_WIDTH VM_EXIT_MSR_LOAD_COUNT = WIDTH_32" "VMCS_FIELD_WIDTH VM_ENTRY_CONTROLS = WIDTH_32"
  "VMCS_FIELD_WIDTH VM_ENTRY_MSR_LOAD_COUNT = WIDTH_32" "VMCS_FIELD_WIDTH VM_ENTRY_INTERRUPTION_INFORMATION = WIDTH_32"
  "VMCS_FIELD_WIDTH VM_ENTRY_EXCEPTION_ERRORCODE = WIDTH_32" "VMCS_FIELD_WIDTH VM_ENTRY_INSTRUCTION_LENGTH = WIDTH_32"
  "VMCS_FIELD_WIDTH EXIT_REASON = WIDTH_32" "VMCS_FIELD_WIDTH EXIT_INTERRUPTION_INFORMATION = WIDTH_32"
  "VMCS_FIELD_WIDTH EXIT_INTERRUPTION_ERRORCODE = WIDTH_32" "VMCS_FIELD_WIDTH IDT_VECTORING_INFORMATION = WIDTH_32"
  "VMCS_FIELD_WIDTH IDT_VECTORING_ERRORCODE = WIDTH_32" "VMCS_FIELD_WIDTH EXIT_INSTRUCTION_LENGTH = WIDTH_32"
  "VMCS_FIELD_WIDTH EXIT_INSTRUCTION_INFORMATION = WIDTH_32" "VMCS_FIELD_WIDTH VM_INSTRUCTION_ERROR = WIDTH_32"
  by (simp_all add: vmx_fields)

lemma width_64_fields [simp]:
  "VMCS_FIELD_WIDTH GUEST_IA32_DEBUGCTL = WIDTH_64" "VMCS_FIELD_WIDTH VMCS_LINK_POINTER = WIDTH_64" "VMCS_FIELD_WIDTH MSR_BITMAP_ADDRESS = WIDTH_64"
  "VMCS_FIELD_WIDTH EXECUTIVE_VMCS_POINTER = WIDTH_64" "VMCS_FIELD_WIDTH XSS_EXITING_BITMAP = WIDTH_64"
  "VMCS_FIELD_WIDTH GUEST_PHYSICAL_ADDRESS = WIDTH_64"
  by (simp_all add: vmx_fields)

lemma widths_differ [simp]:
  "WIDTH_16 \<noteq> WIDTH_32" "WIDTH_16 \<noteq> WIDTH_64" "WIDTH_16 \<noteq> WIDTH_PLATFORM"
  "WIDTH_32 \<noteq> WIDTH_16" "WIDTH_32 \<noteq> WIDTH_64" "WIDTH_32 \<noteq> WIDTH_PLATFORM"
  "WIDTH_64 \<noteq> WIDTH_16" "WIDTH_64 \<noteq> WIDTH_32" "WIDTH_64 \<noteq> WIDTH_PLATFORM"
  "WIDTH_PLATFORM \<noteq> WIDTH_16" "WIDTH_PLATFORM \<noteq> WIDTH_32" "WIDTH_PLATFORM \<noteq> WIDTH_64"
  by (simp_all add: vmx_fields)

end
