(* ===== verification/Vmx.thy ===== *)
theory Vmx
  imports Smp Vmcs_Fields
begin

text \<open>
  Access to the virtual machine control structure (\<open>vmx.c\<close>): the width-checked reads and
  writes, the capability registers and the normalisation of control fields, the verification
  of every processor, and the injection of events.
\<close>

section \<open>The processor\<close>

text \<open>
  The current VMCS maps a field encoding to its value; \<open>None\<close> is a component the processor
  does not support, on which \<open>VMREAD\<close> and \<open>VMWRITE\<close> fail.  The results of \<open>CPUID\<close> are
  \<open>(EAX, EBX, ECX, EDX)\<close> for a leaf and a subleaf; \<open>__cpuid\<close> uses subleaf 0.
\<close>

record cpu =
  cpu_vmcs :: "u32 \<Rightarrow> u64 option"
  cpu_msr :: "u32 \<Rightarrow> u64"
  cpu_id :: "u32 \<Rightarrow> u32 \<Rightarrow> u32 \<times> u32 \<times> u32 \<times> u32"
  cpu_cr0 :: u64
  cpu_cr3 :: u64
  cpu_cr4 :: u64
  cpu_dr7 :: u64

definition AsmVmxRead :: "'c cpu_scheme \<Rightarrow> u32 \<Rightarrow> u64 option" where
  "AsmVmxRead c field = cpu_vmcs c field"

definition AsmVmxWrite :: "'c cpu_scheme \<Rightarrow> u32 \<Rightarrow> u64 \<Rightarrow> bool \<times> 'c cpu_scheme" where
  "AsmVmxWrite c field v =
     (if cpu_vmcs c field = None then (False, c)
      else (True, c\<lparr>cpu_vmcs := (cpu_vmcs c)(field \<mapsto> v)\<rparr>))"

definition LOW32 :: "u64 \<Rightarrow> u32" where "LOW32 v = ucast v"
definition HIGH32 :: "u64 \<Rightarrow> u32" where "HIGH32 v = ucast (drop_bit 32 v)"

definition cpuid_ebx :: "'c cpu_scheme \<Rightarrow> u32 \<Rightarrow> u32" where
  "cpuid_ebx c leaf = (case cpu_id c leaf 0 of (a, b, c, d) \<Rightarrow> b)"
definition cpuid_ecx :: "'c cpu_scheme \<Rightarrow> u32 \<Rightarrow> u32" where
  "cpuid_ecx c leaf = (case cpu_id c leaf 0 of (a, b, c, d) \<Rightarrow> c)"
definition cpuid_edx :: "'c cpu_scheme \<Rightarrow> u32 \<Rightarrow> u32" where
  "cpuid_edx c leaf = (case cpu_id c leaf 0 of (a, b, c, d) \<Rightarrow> d)"

section \<open>Capabilities\<close>

abbreviation STATUS_VMX_NOT_SUPPORTED :: ntstatus where "STATUS_VMX_NOT_SUPPORTED \<equiv> 0xEB1E001E"
abbreviation STATUS_VMX_BIOS_DISABLED :: ntstatus where "STATUS_VMX_BIOS_DISABLED \<equiv> 0xEB1E001F"
abbreviation STATUS_VMX_DIFFERENT_CONFIG_ACROSS_PROCESSORS :: ntstatus where
  "STATUS_VMX_DIFFERENT_CONFIG_ACROSS_PROCESSORS \<equiv> 0xEB1E0020"

definition IA32_FEATURE_CONTROL :: u32 where "IA32_FEATURE_CONTROL = 0x3A"
definition IA32_FC_LOCK :: u64 where "IA32_FC_LOCK = 1"
definition IA32_FC_ENABLE_VMXON_OUTSMX :: u64 where "IA32_FC_ENABLE_VMXON_OUTSMX = push_bit 2 1"
definition IA32_VMX_BASIC :: u32 where "IA32_VMX_BASIC = 0x480"
definition IA32_VMX_PIN_CTLS :: u32 where "IA32_VMX_PIN_CTLS = 0x481"
definition IA32_VMX_PROC_PRIMARY_CTLS :: u32 where "IA32_VMX_PROC_PRIMARY_CTLS = 0x482"
definition IA32_VMX_EXIT_CTLS :: u32 where "IA32_VMX_EXIT_CTLS = 0x483"
definition IA32_VMX_ENTRY_CTLS :: u32 where "IA32_VMX_ENTRY_CTLS = 0x484"
definition IA32_VMX_MISC :: u32 where "IA32_VMX_MISC = 0x485"
definition IA32_VMX_PROC_SECONDARY_CTLS :: u32 where "IA32_VMX_PROC_SECONDARY_CTLS = 0x48B"
definition IA32_VMX_EPT_VPID_CAP :: u32 where "IA32_VMX_EPT_VPID_CAP = 0x48C"

definition CPUID_FEATURE_INFORMATION :: u32 where "CPUID_FEATURE_INFORMATION = 1"
definition CPUID_EXTENDED_FEATURE_FLAGS :: u32 where "CPUID_EXTENDED_FEATURE_FLAGS = 7"
definition CPUID_EXTENDED_PROCESSOR_SIGNATURE :: u32 where "CPUID_EXTENDED_PROCESSOR_SIGNATURE = 0x80000001"
definition CPUID_LEAF_1H_ECX_VMX :: u32 where "CPUID_LEAF_1H_ECX_VMX = push_bit 5 1"
definition CPUID_LEAF_1H_ECX_XSAVE :: u32 where "CPUID_LEAF_1H_ECX_XSAVE = push_bit 26 1"
definition CPUID_LEAF_1H_ECX_OSXSAVE :: u32 where "CPUID_LEAF_1H_ECX_OSXSAVE = push_bit 27 1"
definition CPUID_EXT_LEAF_1H_EDX_RDTSCP :: u32 where "CPUID_EXT_LEAF_1H_EDX_RDTSCP = push_bit 27 1"
definition CPUID_LEAF_7H_0H_EBX_INVPCID :: u32 where "CPUID_LEAF_7H_0H_EBX_INVPCID = push_bit 10 1"
definition CR4_OSXSAVE :: u64 where "CR4_OSXSAVE = push_bit 18 1"

text \<open>
  The register that holds the settings of a control: the "true" one when
  \<open>VmxControlDefaultClear\<close> (bit 55 of \<open>IA32_VMX_BASIC\<close>) is set.
\<close>

definition control_msr :: "(u32 \<Rightarrow> u64) \<Rightarrow> u32 \<Rightarrow> u32" where
  "control_msr msr VmxMsr =
     (if bit (msr IA32_VMX_BASIC) 55 \<and> VmxMsr \<noteq> IA32_VMX_PROC_SECONDARY_CTLS then VmxMsr + 0xC else VmxMsr)"

definition control_allowed :: "(u32 \<Rightarrow> u64) \<Rightarrow> u32 \<Rightarrow> u32" where
  "control_allowed msr VmxMsr =
     (let caps = msr (control_msr msr VmxMsr); def0 = LOW32 caps; def1 = HIGH32 caps; ctrl = - 1
      in (ctrl AND def1) OR def0)"

definition control_msrs :: "u32 set" where
  "control_msrs = {IA32_VMX_PROC_SECONDARY_CTLS, IA32_VMX_PIN_CTLS, IA32_VMX_PROC_PRIMARY_CTLS,
     IA32_VMX_EXIT_CTLS, IA32_VMX_ENTRY_CTLS}"

text \<open>The call for the primary controls (bit 31 is \<open>SecondaryControl\<close>) is unfolded.\<close>

definition VmxAllowed :: "(u32 \<Rightarrow> u64) \<Rightarrow> u32 \<Rightarrow> u32" where
  "VmxAllowed msr VmxMsr =
     (if VmxMsr = IA32_VMX_PROC_SECONDARY_CTLS \<and> \<not> bit (control_allowed msr IA32_VMX_PROC_PRIMARY_CTLS) 31 then 0
      else if VmxMsr \<in> control_msrs then control_allowed msr VmxMsr
      else 0)"

text \<open>Bits 1 and 5 of the secondary controls are \<open>EnableEpt\<close> and \<open>EnableVpid\<close>.\<close>

definition VmxCapability :: "(u32 \<Rightarrow> u64) \<Rightarrow> u32 \<Rightarrow> u64" where
  "VmxCapability msr Capability =
     (if Capability = IA32_VMX_BASIC \<or> Capability = IA32_VMX_MISC then msr Capability
      else if Capability = IA32_VMX_EPT_VPID_CAP \<and> bit (VmxAllowed msr IA32_VMX_PROC_PRIMARY_CTLS) 31 \<and>
              (bit (VmxAllowed msr IA32_VMX_PROC_SECONDARY_CTLS) 1 \<or>
               bit (VmxAllowed msr IA32_VMX_PROC_SECONDARY_CTLS) 5) then msr Capability
      else 0)"

section \<open>Verifying the processors\<close>

record vmx_verify_info =
  vi_RevisionId :: u32
  vi_PinCtls :: u32
  vi_ProcPrimaryCtls :: u32
  vi_ProcSecondaryCtls :: u32
  vi_ExitCtls :: u32
  vi_EntryCtls :: u32

definition VmxpVerifyFeatureControl :: "cpu \<Rightarrow> ntstatus \<times> cpu" where
  "VmxpVerifyFeatureControl c =
     (let RequiredFeature = IA32_FC_LOCK OR IA32_FC_ENABLE_VMXON_OUTSMX;
          FeatureControl = cpu_msr c IA32_FEATURE_CONTROL
      in if cpuid_ecx c CPUID_FEATURE_INFORMATION AND CPUID_LEAF_1H_ECX_VMX = 0 then (STATUS_VMX_NOT_SUPPORTED, c)
         else if FeatureControl AND IA32_FC_LOCK = 0
         then (STATUS_SUCCESS,
               c\<lparr>cpu_msr := (cpu_msr c)(IA32_FEATURE_CONTROL := FeatureControl OR RequiredFeature)\<rparr>)
         else if FeatureControl AND IA32_FC_ENABLE_VMXON_OUTSMX = 0 then (STATUS_VMX_BIOS_DISABLED, c)
         else (STATUS_SUCCESS, c))"

text \<open>\<open>RevisionId\<close> is bits 0 to 30 of \<open>IA32_VMX_BASIC\<close>.\<close>

definition revision_id :: "(u32 \<Rightarrow> u64) \<Rightarrow> u32" where
  "revision_id msr = LOW32 (msr IA32_VMX_BASIC) AND 0x7FFFFFFF"

definition VmxpVerifyCapabilities :: "vmx_verify_info \<Rightarrow> (u32 \<Rightarrow> u64) \<Rightarrow> ntstatus" where
  "VmxpVerifyCapabilities VerifyInfo msr =
     (if vi_RevisionId VerifyInfo \<noteq> revision_id msr then STATUS_VMX_DIFFERENT_CONFIG_ACROSS_PROCESSORS
      else if vi_PinCtls VerifyInfo \<noteq> VmxAllowed msr IA32_VMX_PIN_CTLS then STATUS_VMX_DIFFERENT_CONFIG_ACROSS_PROCESSORS
      else if vi_ProcPrimaryCtls VerifyInfo \<noteq> VmxAllowed msr IA32_VMX_PROC_PRIMARY_CTLS
      then STATUS_VMX_DIFFERENT_CONFIG_ACROSS_PROCESSORS
      else if vi_ProcSecondaryCtls VerifyInfo \<noteq> VmxAllowed msr IA32_VMX_PROC_SECONDARY_CTLS
      then STATUS_VMX_DIFFERENT_CONFIG_ACROSS_PROCESSORS
      else if vi_ExitCtls VerifyInfo \<noteq> VmxAllowed msr IA32_VMX_EXIT_CTLS then STATUS_VMX_DIFFERENT_CONFIG_ACROSS_PROCESSORS
      else if vi_EntryCtls VerifyInfo \<noteq> VmxAllowed msr IA32_VMX_ENTRY_CTLS then STATUS_VMX_DIFFERENT_CONFIG_ACROSS_PROCESSORS
      else if vi_EntryCtls VerifyInfo \<noteq> VmxAllowed msr IA32_VMX_ENTRY_CTLS then STATUS_VMX_DIFFERENT_CONFIG_ACROSS_PROCESSORS
      else STATUS_SUCCESS)"

definition VmxpVerifySupportPerCpu :: "vmx_verify_info \<Rightarrow> cpu \<Rightarrow> ntstatus \<times> cpu" where
  "VmxpVerifySupportPerCpu VerifyInfo c =
     (let (Status, c) = VmxpVerifyFeatureControl c
      in if \<not> NT_SUCCESS Status then (Status, c)
         else (VmxpVerifyCapabilities VerifyInfo (cpu_msr c), c))"

text \<open>What the first processor, on which the check is started, prepares for the others.\<close>

definition verify_info :: "(u32 \<Rightarrow> u64) \<Rightarrow> vmx_verify_info" where
  "verify_info msr =
     \<lparr>vi_RevisionId = revision_id msr, vi_PinCtls = VmxAllowed msr IA32_VMX_PIN_CTLS,
      vi_ProcPrimaryCtls = VmxAllowed msr IA32_VMX_PROC_PRIMARY_CTLS,
      vi_ProcSecondaryCtls = VmxAllowed msr IA32_VMX_PROC_SECONDARY_CTLS,
      vi_ExitCtls = VmxAllowed msr IA32_VMX_EXIT_CTLS, vi_EntryCtls = VmxAllowed msr IA32_VMX_ENTRY_CTLS\<rparr>"

text \<open>A relation, as the processors run in any order.\<close>

definition VmxVerifySupport :: "nat \<Rightarrow> nat \<Rightarrow> (nat \<Rightarrow> cpu) \<Rightarrow> ntstatus \<Rightarrow> (nat \<Rightarrow> cpu) \<Rightarrow> bool" where
  "VmxVerifySupport n self w Status w' \<longleftrightarrow>
     (let VerifyInfo = verify_info (cpu_msr (w self))
      in smp_returns (\<lambda>t w. let (st, c) = VmxpVerifySupportPerCpu VerifyInfo (w t) in (st, w(t := c))) n w Status w')"

section \<open>Reading and writing fields\<close>

text \<open>A read of another width, and one the processor refuses, yields 0.\<close>

definition VmRead16 :: "'c cpu_scheme \<Rightarrow> u32 \<Rightarrow> u16" where
  "VmRead16 c field =
     (if VMCS_FIELD_WIDTH field \<noteq> WIDTH_16 then 0
      else case AsmVmxRead c field of None \<Rightarrow> 0 | Some data \<Rightarrow> ucast data)"

definition VmRead32 :: "'c cpu_scheme \<Rightarrow> u32 \<Rightarrow> u32" where
  "VmRead32 c field =
     (if VMCS_FIELD_WIDTH field \<noteq> WIDTH_32 then 0
      else case AsmVmxRead c field of None \<Rightarrow> 0 | Some data \<Rightarrow> ucast data)"

definition VmRead64 :: "'c cpu_scheme \<Rightarrow> u32 \<Rightarrow> u64" where
  "VmRead64 c field =
     (if VMCS_FIELD_WIDTH field \<noteq> WIDTH_64 then 0
      else case AsmVmxRead c field of None \<Rightarrow> 0 | Some data \<Rightarrow> data)"

definition VmReadN :: "'c cpu_scheme \<Rightarrow> u32 \<Rightarrow> u64" where
  "VmReadN c field =
     (if VMCS_FIELD_WIDTH field \<noteq> WIDTH_PLATFORM then 0
      else case AsmVmxRead c field of None \<Rightarrow> 0 | Some data \<Rightarrow> data)"

definition VmWrite16 :: "'c cpu_scheme \<Rightarrow> u32 \<Rightarrow> u16 \<Rightarrow> bool \<times> 'c cpu_scheme" where
  "VmWrite16 c field data =
     (if VMCS_FIELD_WIDTH field \<noteq> WIDTH_16 then (False, c) else AsmVmxWrite c field (ucast data))"

text \<open>The capability register of a control field.\<close>

definition field_control :: "u32 \<Rightarrow> u32 option" where
  "field_control field =
     (if field = VM_EXEC_CONTROLS_PIN_BASED then Some IA32_VMX_PIN_CTLS
      else if field = VM_EXEC_CONTROLS_PROC_PRIMARY then Some IA32_VMX_PROC_PRIMARY_CTLS
      else if field = VM_EXEC_CONTROLS_PROC_SECONDARY then Some IA32_VMX_PROC_SECONDARY_CTLS
      else if field = VM_EXIT_CONTROLS then Some IA32_VMX_EXIT_CTLS
      else if field = VM_ENTRY_CONTROLS then Some IA32_VMX_ENTRY_CTLS
      else None)"

definition VmxpNormalizeControls :: "(u32 \<Rightarrow> u64) \<Rightarrow> u32 \<Rightarrow> u32 \<Rightarrow> u32" where
  "VmxpNormalizeControls msr field data =
     (case field_control field of
        None \<Rightarrow> data
      | Some VmxMsr \<Rightarrow>
          if VmxMsr = IA32_VMX_PROC_SECONDARY_CTLS \<and> \<not> bit (VmxAllowed msr IA32_VMX_PROC_PRIMARY_CTLS) 31 then data
          else let caps = msr (control_msr msr VmxMsr); def0 = LOW32 caps; def1 = HIGH32 caps
               in (data AND def1) OR def0)"

definition VmWrite32 :: "'c cpu_scheme \<Rightarrow> u32 \<Rightarrow> u32 \<Rightarrow> bool \<times> 'c cpu_scheme" where
  "VmWrite32 c field data =
     (if VMCS_FIELD_WIDTH field \<noteq> WIDTH_32 then (False, c)
      else AsmVmxWrite c field (ucast (VmxpNormalizeControls (cpu_msr c) field data)))"

definition VmWrite64 :: "'c cpu_scheme \<Rightarrow> u32 \<Rightarrow> u64 \<Rightarrow> bool \<times> 'c cpu_scheme" where
  "VmWrite64 c field data =
     (if VMCS_FIELD_WIDTH field \<noteq> WIDTH_64 then (False, c) else AsmVmxWrite c field data)"

definition VmWriteN :: "'c cpu_scheme \<Rightarrow> u32 \<Rightarrow> u64 \<Rightarrow> bool \<times> 'c cpu_scheme" where
  "VmWriteN c field data =
     (if VMCS_FIELD_WIDTH field \<noteq> WIDTH_PLATFORM then (False, c) else AsmVmxWrite c field data)"

text \<open>Most callers ignore whether a write succeeded; they use these.\<close>

definition write16 :: "u32 \<Rightarrow> u16 \<Rightarrow> 'c cpu_scheme \<Rightarrow> 'c cpu_scheme" where "write16 f v c = snd (VmWrite16 c f v)"
definition write32 :: "u32 \<Rightarrow> u32 \<Rightarrow> 'c cpu_scheme \<Rightarrow> 'c cpu_scheme" where "write32 f v c = snd (VmWrite32 c f v)"
definition write64 :: "u32 \<Rightarrow> u64 \<Rightarrow> 'c cpu_scheme \<Rightarrow> 'c cpu_scheme" where "write64 f v c = snd (VmWrite64 c f v)"
definition writeN :: "u32 \<Rightarrow> u64 \<Rightarrow> 'c cpu_scheme \<Rightarrow> 'c cpu_scheme" where "writeN f v c = snd (VmWriteN c f v)"

section \<open>Injecting events\<close>

definition INTERRUPT_HARDWARE_EXCEPTION :: u32 where "INTERRUPT_HARDWARE_EXCEPTION = 3"
definition INTERRUPT_SOFTWARE_INTERRUPT :: u32 where "INTERRUPT_SOFTWARE_INTERRUPT = 4"
definition INTERRUPT_PRIVILIGED_EXCEPTION :: u32 where "INTERRUPT_PRIVILIGED_EXCEPTION = 5"
definition INTERRUPT_SOFTWARE_EXCEPTION :: u32 where "INTERRUPT_SOFTWARE_EXCEPTION = 6"
definition EXCEPTION_ERROR_CODE_VALID :: u32 where "EXCEPTION_ERROR_CODE_VALID = 8"
definition VMX_INT_INFO_VALID :: u32 where "VMX_INT_INFO_VALID = push_bit 31 1"
definition VECTOR_DEBUG_EXCEPTION :: u32 where "VECTOR_DEBUG_EXCEPTION = 1"
definition VECTOR_INVALID_OPCODE_EXCEPTION :: u32 where "VECTOR_INVALID_OPCODE_EXCEPTION = 6"
definition VECTOR_GENERAL_PROTECTION_EXCEPTION :: u32 where "VECTOR_GENERAL_PROTECTION_EXCEPTION = 13"

definition ExceptionType :: "u32 list" where
  "ExceptionType =
     (let hw = INTERRUPT_HARDWARE_EXCEPTION; er = INTERRUPT_HARDWARE_EXCEPTION OR EXCEPTION_ERROR_CODE_VALID
      in [hw, hw, hw, hw, hw, hw, hw, hw, er, hw, er, er, er, er, er, hw,
          hw, er, hw, hw, hw, hw, hw, hw, hw, hw, hw, hw, hw, hw, hw, hw])"

text \<open>#DF, #TS, #NP, #SS, #GP, #PF and #AC.\<close>

definition IsErrorCodeRequired :: "u32 \<Rightarrow> bool" where
  "IsErrorCodeRequired Vector \<longleftrightarrow> Vector \<in> {8, 10, 11, 12, VECTOR_GENERAL_PROTECTION_EXCEPTION, 14, 17}"

text \<open>The fields of \<open>VMX_EXIT_INTERRUPT_INFO\<close>.\<close>

definition info_vector :: "u32 \<Rightarrow> u32" where "info_vector i = i AND 0xFF"
definition info_type :: "u32 \<Rightarrow> u32" where "info_type i = drop_bit 8 i AND 7"
definition info_error_code :: "u32 \<Rightarrow> bool" where "info_error_code i = bit i 11"
definition info_valid :: "u32 \<Rightarrow> bool" where "info_valid i = bit i 31"

definition interrupt_info :: "u32 \<Rightarrow> u32 \<Rightarrow> bool \<Rightarrow> u32" where
  "interrupt_info vector type error =
     push_bit 31 1 OR push_bit 11 (if error then 1 else 0) OR push_bit 8 (type AND 7) OR (vector AND 0xFF)"

text \<open>\<open>None\<close> when the vector lies outside the table of 32 entries.\<close>

definition VmInjectHardwareException :: "'c cpu_scheme \<Rightarrow> u32 \<Rightarrow> 'c cpu_scheme option" where
  "VmInjectHardwareException c InterruptInfo =
     (let Vector = info_vector InterruptInfo;
          c = (if info_error_code InterruptInfo
               then write32 VM_ENTRY_EXCEPTION_ERRORCODE (VmRead32 c EXIT_INTERRUPTION_ERRORCODE) c else c)
      in if 32 \<le> unat Vector then None
         else Some (write32 VM_ENTRY_INSTRUCTION_LENGTH 0
                (write32 VM_ENTRY_INTERRUPTION_INFORMATION
                  (VMX_INT_INFO_VALID OR push_bit 8 (ExceptionType ! unat Vector) OR Vector) c)))"

definition VmInjectUdException :: "'c cpu_scheme \<Rightarrow> 'c cpu_scheme option" where
  "VmInjectUdException c =
     VmInjectHardwareException c (interrupt_info VECTOR_INVALID_OPCODE_EXCEPTION INTERRUPT_HARDWARE_EXCEPTION False)"

definition VmInjectGpException :: "'c cpu_scheme \<Rightarrow> u32 \<Rightarrow> 'c cpu_scheme" where
  "VmInjectGpException c ErrorCode =
     (let Vector = VECTOR_GENERAL_PROTECTION_EXCEPTION;
          c = write32 VM_ENTRY_EXCEPTION_ERRORCODE ErrorCode c;
          c = write32 VM_ENTRY_INTERRUPTION_INFORMATION
                (VMX_INT_INFO_VALID OR push_bit 8 (ExceptionType ! unat Vector) OR Vector) c
      in write32 VM_ENTRY_INSTRUCTION_LENGTH 0 c)"

text \<open>
  \<open>InterruptControl\<close> is a local union of which four fields are assigned: bits 12 to 30 keep
  what was on the stack.
\<close>

definition VmInjectInterruptOrException :: "u32 \<Rightarrow> 'c cpu_scheme \<Rightarrow> u32 \<Rightarrow> 'c cpu_scheme" where
  "VmInjectInterruptOrException Stack c InterruptInfo =
     (let InterruptType = info_type InterruptInfo;
          InterruptControl = (Stack AND 0x7FFFF000) OR (InterruptInfo AND 0x80000FFF);
          c = (if info_error_code InterruptInfo
               then write32 VM_ENTRY_EXCEPTION_ERRORCODE (VmRead32 c EXIT_INTERRUPTION_ERRORCODE) c else c);
          c = write32 VM_ENTRY_INTERRUPTION_INFORMATION InterruptControl c
      in if InterruptType = INTERRUPT_SOFTWARE_INTERRUPT \<or> InterruptType = INTERRUPT_PRIVILIGED_EXCEPTION \<or>
            InterruptType = INTERRUPT_SOFTWARE_EXCEPTION
         then write32 VM_ENTRY_INSTRUCTION_LENGTH (VmRead32 c EXIT_INSTRUCTION_LENGTH) c
         else write32 VM_ENTRY_INSTRUCTION_LENGTH 0 c)"

section \<open>Processor features\<close>

definition IsRdtscpSupported :: "'c cpu_scheme \<Rightarrow> bool" where
  "IsRdtscpSupported c \<longleftrightarrow> cpuid_edx c CPUID_EXTENDED_PROCESSOR_SIGNATURE AND CPUID_EXT_LEAF_1H_EDX_RDTSCP \<noteq> 0"

definition IsInvpcidSupported :: "'c cpu_scheme \<Rightarrow> bool" where
  "IsInvpcidSupported c \<longleftrightarrow> cpuid_ebx c CPUID_EXTENDED_FEATURE_FLAGS AND CPUID_LEAF_7H_0H_EBX_INVPCID \<noteq> 0"

definition IsXStateSupported :: "'c cpu_scheme \<Rightarrow> bool" where
  "IsXStateSupported c \<longleftrightarrow> cpuid_ecx c CPUID_FEATURE_INFORMATION AND CPUID_LEAF_1H_ECX_XSAVE \<noteq> 0 \<and>
     cpuid_ecx c CPUID_FEATURE_INFORMATION AND CPUID_LEAF_1H_ECX_OSXSAVE \<noteq> 0"

definition IsXStateEnabled :: "'c cpu_scheme \<Rightarrow> bool" where
  "IsXStateEnabled c \<longleftrightarrow> VmReadN c GUEST_CR4 AND CR4_OSXSAVE \<noteq> 0"

section \<open>Reads after writes\<close>

definition supported :: "'c cpu_scheme \<Rightarrow> u32 \<Rightarrow> bool" where
  "supported c field \<longleftrightarrow> cpu_vmcs c field \<noteq> None"

named_theorems vmx_write

lemmas [vmx_write] = write16_def write32_def write64_def writeN_def VmWrite16_def VmWrite32_def VmWrite64_def
  VmWriteN_def AsmVmxWrite_def

lemmas vmx_read = VmRead16_def VmRead32_def VmRead64_def VmReadN_def AsmVmxRead_def

lemma write_other [simp]:
  "cpu_msr (write16 f h c) = cpu_msr c" "cpu_msr (write32 f d c) = cpu_msr c" "cpu_msr (write64 f q c) = cpu_msr c"
  "cpu_msr (writeN f q c) = cpu_msr c" "cpu_id (write16 f h c) = cpu_id c" "cpu_id (write32 f d c) = cpu_id c"
  "cpu_id (write64 f q c) = cpu_id c" "cpu_id (writeN f q c) = cpu_id c"
  "cpu_cr4 (write16 f h c) = cpu_cr4 c" "cpu_cr4 (write32 f d c) = cpu_cr4 c" "cpu_cr4 (write64 f q c) = cpu_cr4 c"
  "cpu_cr4 (writeN f q c) = cpu_cr4 c" "cpu_cr3 (write16 f h c) = cpu_cr3 c" "cpu_cr3 (write32 f d c) = cpu_cr3 c"
  "cpu_cr3 (write64 f q c) = cpu_cr3 c" "cpu_cr3 (writeN f q c) = cpu_cr3 c"
  by (simp_all add: vmx_write)

lemma write_more [simp]:
  "cpu.more (write16 f h c) = cpu.more c" "cpu.more (write32 f d c) = cpu.more c"
  "cpu.more (write64 f q c) = cpu.more c" "cpu.more (writeN f q c) = cpu.more c"
  by (simp_all add: vmx_write)

lemma write_supported [simp]:
  "supported (write16 f h c) g = supported c g" "supported (write32 f d c) g = supported c g"
  "supported (write64 f q c) g = supported c g" "supported (writeN f q c) g = supported c g"
  by (auto simp: vmx_write supported_def)

lemma vmcs_write:
  "cpu_vmcs (write16 f h c) g = (if g = f \<and> supported c f \<and> VMCS_FIELD_WIDTH f = WIDTH_16 then Some (ucast h) else cpu_vmcs c g)"
  "cpu_vmcs (write32 f d c) g = (if g = f \<and> supported c f \<and> VMCS_FIELD_WIDTH f = WIDTH_32
     then Some (ucast (VmxpNormalizeControls (cpu_msr c) f d)) else cpu_vmcs c g)"
  "cpu_vmcs (write64 f q c) g = (if g = f \<and> supported c f \<and> VMCS_FIELD_WIDTH f = WIDTH_64 then Some q else cpu_vmcs c g)"
  "cpu_vmcs (writeN f q c) g = (if g = f \<and> supported c f \<and> VMCS_FIELD_WIDTH f = WIDTH_PLATFORM then Some q else cpu_vmcs c g)"
  by (auto simp: vmx_write supported_def)

lemma ucast_back: "(ucast (ucast (d :: u32) :: u64) :: u32) = d"
  by (rule bit_word_eqI) (simp add: bit_simps)

lemma read_write_other [simp]:
  "VmRead32 (writeN f q c) g = VmRead32 c g" "VmRead32 (write64 f q c) g = VmRead32 c g"
  "VmRead32 (write16 f h c) g = VmRead32 c g"
  "VmReadN (write32 f d c) g = VmReadN c g" "VmReadN (write64 f q c) g = VmReadN c g"
  "VmReadN (write16 f h c) g = VmReadN c g"
  by (auto simp: vmx_read vmcs_write)

lemma readN_writeN [simp]:
  "VmReadN (writeN f q c) g = (if g = f \<and> supported c f \<and> VMCS_FIELD_WIDTH f = WIDTH_PLATFORM then q else VmReadN c g)"
  by (auto simp: vmx_read vmcs_write)

lemma read32_write32 [simp]:
  "VmRead32 (write32 f d c) g = (if g = f \<and> supported c f \<and> VMCS_FIELD_WIDTH f = WIDTH_32
     then VmxpNormalizeControls (cpu_msr c) f d else VmRead32 c g)"
  by (auto simp: vmx_read vmcs_write ucast_back)

lemma normalize_plain [simp]: "field_control f = None \<Longrightarrow> VmxpNormalizeControls msr f d = d"
  by (simp add: VmxpNormalizeControls_def)

lemma field_control_entry [simp]:
  "field_control VM_ENTRY_EXCEPTION_ERRORCODE = None" "field_control VM_ENTRY_INTERRUPTION_INFORMATION = None"
  "field_control VM_ENTRY_INSTRUCTION_LENGTH = None" "field_control EXCEPTION_BITMAP = None"
  by (simp_all add: field_control_def vmx_fields)

lemma entry_fields_differ [simp]:
  "VM_ENTRY_EXCEPTION_ERRORCODE \<noteq> VM_ENTRY_INTERRUPTION_INFORMATION"
  "VM_ENTRY_EXCEPTION_ERRORCODE \<noteq> VM_ENTRY_INSTRUCTION_LENGTH"
  "VM_ENTRY_INTERRUPTION_INFORMATION \<noteq> VM_ENTRY_EXCEPTION_ERRORCODE"
  "VM_ENTRY_INTERRUPTION_INFORMATION \<noteq> VM_ENTRY_INSTRUCTION_LENGTH"
  "VM_ENTRY_INSTRUCTION_LENGTH \<noteq> VM_ENTRY_EXCEPTION_ERRORCODE"
  "VM_ENTRY_INSTRUCTION_LENGTH \<noteq> VM_ENTRY_INTERRUPTION_INFORMATION"
  "EXIT_INTERRUPTION_ERRORCODE \<noteq> VM_ENTRY_EXCEPTION_ERRORCODE"
  by (simp_all add: vmx_fields)

section \<open>Lemmas on capabilities\<close>

lemmas vmx_msrs = IA32_FEATURE_CONTROL_def IA32_VMX_BASIC_def IA32_VMX_PIN_CTLS_def IA32_VMX_PROC_PRIMARY_CTLS_def
  IA32_VMX_EXIT_CTLS_def IA32_VMX_ENTRY_CTLS_def IA32_VMX_PROC_SECONDARY_CTLS_def

lemma control_msr_not_feature:
  "VmxMsr \<in> control_msrs \<Longrightarrow> control_msr msr VmxMsr \<noteq> IA32_FEATURE_CONTROL \<and> IA32_VMX_BASIC \<noteq> IA32_FEATURE_CONTROL"
  by (auto simp: control_msrs_def control_msr_def vmx_msrs)

lemma VmxAllowed_feature [simp]:
  "VmxAllowed (msr(IA32_FEATURE_CONTROL := v)) VmxMsr = VmxAllowed msr VmxMsr"
proof -
  have b: "(msr(IA32_FEATURE_CONTROL := v)) IA32_VMX_BASIC = msr IA32_VMX_BASIC" by (simp add: vmx_msrs)
  have "control_allowed (msr(IA32_FEATURE_CONTROL := v)) m = control_allowed msr m" if "m \<in> control_msrs" for m
    using control_msr_not_feature [OF that, of msr] b by (simp add: control_allowed_def control_msr_def)
  then show ?thesis unfolding VmxAllowed_def by (auto simp: control_msrs_def)
qed

lemma revision_feature [simp]: "revision_id (msr(IA32_FEATURE_CONTROL := v)) = revision_id msr"
  by (simp add: revision_id_def vmx_msrs)

lemma VmxpVerifyCapabilities_iff:
  "VmxpVerifyCapabilities i msr = (if i = verify_info msr then STATUS_SUCCESS else STATUS_VMX_DIFFERENT_CONFIG_ACROSS_PROCESSORS)"
proof -
  have "i = verify_info msr \<longleftrightarrow> vi_RevisionId i = revision_id msr \<and> vi_PinCtls i = VmxAllowed msr IA32_VMX_PIN_CTLS \<and>
    vi_ProcPrimaryCtls i = VmxAllowed msr IA32_VMX_PROC_PRIMARY_CTLS \<and>
    vi_ProcSecondaryCtls i = VmxAllowed msr IA32_VMX_PROC_SECONDARY_CTLS \<and>
    vi_ExitCtls i = VmxAllowed msr IA32_VMX_EXIT_CTLS \<and> vi_EntryCtls i = VmxAllowed msr IA32_VMX_ENTRY_CTLS"
    by (cases i) (simp add: verify_info_def)
  then show ?thesis by (simp add: VmxpVerifyCapabilities_def)
qed

lemma verify_info_feature [simp]: "verify_info (msr(IA32_FEATURE_CONTROL := v)) = verify_info msr"
  by (simp add: verify_info_def)

text \<open>What the check asks of a processor, and what it leaves in its registers.\<close>

definition vmx_usable :: "cpu \<Rightarrow> bool" where
  "vmx_usable c \<longleftrightarrow> bit (cpuid_ecx c CPUID_FEATURE_INFORMATION) 5 \<and>
     (bit (cpu_msr c IA32_FEATURE_CONTROL) 0 \<longrightarrow> bit (cpu_msr c IA32_FEATURE_CONTROL) 2)"

definition feature_locked :: "cpu \<Rightarrow> cpu" where
  "feature_locked c =
     (if bit (cpuid_ecx c CPUID_FEATURE_INFORMATION) 5 \<and> \<not> bit (cpu_msr c IA32_FEATURE_CONTROL) 0
      then c\<lparr>cpu_msr := (cpu_msr c)(IA32_FEATURE_CONTROL := cpu_msr c IA32_FEATURE_CONTROL OR 5)\<rparr> else c)"

lemma and_bit_iff: "(x :: 'a::len word) AND push_bit n 1 = 0 \<longleftrightarrow> \<not> bit x n"
  by (simp add: push_bit_of_1 and_exp_eq_0_iff_not_bit)

lemma VmxpVerifySupportPerCpu_eq:
  "VmxpVerifySupportPerCpu i c =
     (if \<not> bit (cpuid_ecx c CPUID_FEATURE_INFORMATION) 5 then STATUS_VMX_NOT_SUPPORTED
      else if bit (cpu_msr c IA32_FEATURE_CONTROL) 0 \<and> \<not> bit (cpu_msr c IA32_FEATURE_CONTROL) 2 then STATUS_VMX_BIOS_DISABLED
      else if i = verify_info (cpu_msr c) then STATUS_SUCCESS
      else STATUS_VMX_DIFFERENT_CONFIG_ACROSS_PROCESSORS, feature_locked c)"
proof -
  have f: "\<not> NT_SUCCESS STATUS_VMX_NOT_SUPPORTED" "\<not> NT_SUCCESS STATUS_VMX_BIOS_DISABLED"
    by (simp_all add: NT_SUCCESS_def)
  have b: "x AND IA32_FC_LOCK = 0 \<longleftrightarrow> \<not> bit x 0" "x AND IA32_FC_ENABLE_VMXON_OUTSMX = 0 \<longleftrightarrow> \<not> bit x 2" for x
    using and_bit_iff [of x 0] and_bit_iff [of x 2] by (simp_all add: IA32_FC_LOCK_def IA32_FC_ENABLE_VMXON_OUTSMX_def)
  have v: "x AND CPUID_LEAF_1H_ECX_VMX = 0 \<longleftrightarrow> \<not> bit x 5" for x
    using and_bit_iff [of x 5] by (simp only: CPUID_LEAF_1H_ECX_VMX_def)
  have r: "IA32_FC_LOCK OR IA32_FC_ENABLE_VMXON_OUTSMX = 5"
    by (simp add: IA32_FC_LOCK_def IA32_FC_ENABLE_VMXON_OUTSMX_def)
  show ?thesis
    by (simp add: VmxpVerifySupportPerCpu_def VmxpVerifyFeatureControl_def feature_locked_def r b f v
        VmxpVerifyCapabilities_iff Let_def)
qed

section \<open>Properties\<close>

text \<open>
  \<open>VmxVerifySupport\<close> succeeds exactly when every processor supports VMX with the
  feature control register either unlocked or enabled outside SMX, and has the revision and
  control capabilities of the processor it was called on; it locks and enables the register
  wherever the firmware had left it open, and changes nothing else.\<close>
theorem vmx_verify_support_correct:
  assumes "VmxVerifySupport n self w Status w'"
  shows "(Status = STATUS_SUCCESS \<longleftrightarrow>
      (\<forall>t<n. vmx_usable (w t) \<and> verify_info (cpu_msr (w t)) = verify_info (cpu_msr (w self)))) \<and>
    w' = (\<lambda>t. if t < n then feature_locked (w t) else w t) \<and>
    (Status \<noteq> STATUS_SUCCESS \<longrightarrow> Status \<in> {STATUS_VMX_NOT_SUPPORTED, STATUS_VMX_BIOS_DISABLED,
       STATUS_VMX_DIFFERENT_CONFIG_ACROSS_PROCESSORS})"
proof -
  let ?f = "\<lambda>t :: nat. VmxpVerifySupportPerCpu (verify_info (cpu_msr (w self)))"
  note L = smp_returns_local [where f = ?f, OF assms [unfolded VmxVerifySupport_def Let_def [of "verify_info _"]]]
  have "fst (?f t (w t)) = STATUS_SUCCESS \<longleftrightarrow>
      vmx_usable (w t) \<and> verify_info (cpu_msr (w t)) = verify_info (cpu_msr (w self))" for t
    by (auto simp: VmxpVerifySupportPerCpu_eq vmx_usable_def)
  moreover have "fst (?f t (w t)) \<in> {STATUS_SUCCESS, STATUS_VMX_NOT_SUPPORTED, STATUS_VMX_BIOS_DISABLED,
      STATUS_VMX_DIFFERENT_CONFIG_ACROSS_PROCESSORS}" for t
    by (simp add: VmxpVerifySupportPerCpu_eq)
  moreover have "snd (?f t (w t)) = feature_locked (w t)" for t by (simp add: VmxpVerifySupportPerCpu_eq)
  ultimately show ?thesis using L by auto
qed

definition example_cpu :: cpu where
  "example_cpu = \<lparr>cpu_vmcs = (\<lambda>_. Some 0), cpu_msr = (\<lambda>_. 0)(IA32_VMX_BASIC := 0x005A040000000004,
     0x481 := 0x0000007F00000016, 0x482 := 0xFFF9FFFE0401E172, 0x48B := 0x00155CFF00000000),
     cpu_id = (\<lambda>_ _. (0, 0, 0x20, 0)), cpu_cr0 = 0x80050031, cpu_cr3 = 0x1AD000, cpu_cr4 = 0x1506F8, cpu_dr7 = 0x400\<rparr>"

theorem vmx_verify_support_correct_witness:
  "\<exists>w'. VmxVerifySupport 2 0 (\<lambda>t. example_cpu) STATUS_SUCCESS w' \<and> cpu_msr (w' 1) IA32_FEATURE_CONTROL = 5"
proof -
  let ?f = "\<lambda>t :: nat. VmxpVerifySupportPerCpu (verify_info (cpu_msr example_cpu))"
  let ?w = "\<lambda>t. if t \<in> {0, 1} then feature_locked example_cpu else example_cpu"
  have u: "vmx_usable example_cpu" "cpu_msr (feature_locked example_cpu) IA32_FEATURE_CONTROL = 5"
    by (simp_all add: vmx_usable_def feature_locked_def example_cpu_def cpuid_ecx_def vmx_msrs)
  have e: "?f t example_cpu = (STATUS_SUCCESS, feature_locked example_cpu)" for t
    using u(1) by (auto simp: VmxpVerifySupportPerCpu_eq vmx_usable_def)
  have "run_in_order (\<lambda>t w. let (st, c) = ?f t (w t) in (st, w(t := c))) [0, 1] (\<lambda>t. example_cpu) =
      ([(0, STATUS_SUCCESS), (1, STATUS_SUCCESS)], ?w)"
    by (subst run_in_order_local) (auto simp: e)
  note R = this
  have "VmxVerifySupport 2 0 (\<lambda>t. example_cpu) STATUS_SUCCESS ?w"
    unfolding VmxVerifySupport_def smp_returns_def Let_def [of "verify_info _"]
  proof (intro exI conjI)
    show "run_in_order (\<lambda>t w. let (st, c) = ?f t (w t) in (st, w(t := c))) [0, 1] (\<lambda>t. example_cpu) =
      ([(0, STATUS_SUCCESS), (1, STATUS_SUCCESS)], ?w)" by (rule R)
  qed auto
  moreover have "?w 1 = feature_locked example_cpu"
    using vmx_verify_support_correct [OF calculation] by simp
  ultimately show ?thesis using u(2) by (intro exI [of _ ?w]) simp
qed

text \<open>
  C28: What \<open>VmWrite32\<close> stores in a control field obeys the processor's capabilities: no bit
  that must be 0 is set and no bit that must be 1 is clear; every other bit is the caller's,
  so that a value that already complies is stored unchanged.\<close>
theorem control_write_allowed:
  assumes "field_control field = Some VmxMsr" "supported c field"
    and "VmxMsr = IA32_VMX_PROC_SECONDARY_CTLS \<Longrightarrow> bit (VmxAllowed (cpu_msr c) IA32_VMX_PROC_PRIMARY_CTLS) 31"
    and "caps = cpu_msr c (control_msr (cpu_msr c) VmxMsr)" "LOW32 caps AND NOT (HIGH32 caps) = 0"
    and "v = VmRead32 (write32 field data c) field"
  shows "v AND NOT (HIGH32 caps) = 0 \<and> LOW32 caps AND NOT v = 0 \<and>
    (\<forall>n. bit (HIGH32 caps) n \<and> \<not> bit (LOW32 caps) n \<longrightarrow> bit v n = bit data n) \<and>
    (data AND NOT (HIGH32 caps) = 0 \<and> LOW32 caps AND NOT data = 0 \<longrightarrow> v = data)"
proof -
  have w: "VMCS_FIELD_WIDTH field = WIDTH_32" using assms(1) by (auto simp: field_control_def split: if_splits)
  have v: "v = (data AND HIGH32 caps) OR LOW32 caps"
    using assms(2,3) w by (auto simp: assms(6) VmxpNormalizeControls_def assms(1,4) Let_def)
  have s: "x AND NOT y = 0 \<longleftrightarrow> (\<forall>n. bit x n \<longrightarrow> bit y n)" for x y :: u32
    using bit_imp_le_length [of x] by (auto simp: bit_eq_iff bit_simps)
  have l: "\<And>n. bit (LOW32 caps) n \<Longrightarrow> bit (HIGH32 caps) n" using assms(5) by (simp add: s)
  show ?thesis unfolding s v bit_eq_iff [of "_ OR _" data]
    using l by (auto simp: bit_simps)
qed

theorem control_write_allowed_witness:
  "VmRead32 (write32 VM_EXEC_CONTROLS_PROC_PRIMARY 0xFFFFFFFF example_cpu) VM_EXEC_CONTROLS_PROC_PRIMARY AND 0x60001 = 0"
proof -
  let ?c = "0xFFF9FFFE0401E172 :: u64"
  have e: "control_msr (cpu_msr example_cpu) IA32_VMX_PROC_PRIMARY_CTLS = 0x482"
    "HIGH32 ?c = 0xFFF9FFFE" "LOW32 ?c = 0x0401E172" "cpu_msr example_cpu 0x482 = ?c"
    by (simp_all add: control_msr_def example_cpu_def vmx_msrs HIGH32_def LOW32_def)
  have "VmRead32 (write32 VM_EXEC_CONTROLS_PROC_PRIMARY 0xFFFFFFFF example_cpu) VM_EXEC_CONTROLS_PROC_PRIMARY AND
      NOT (HIGH32 ?c) = 0"
    by (rule control_write_allowed [where VmxMsr = IA32_VMX_PROC_PRIMARY_CTLS and caps = ?c and c = example_cpu
          and field = VM_EXEC_CONTROLS_PROC_PRIMARY and data = "0xFFFFFFFF", THEN conjunct1])
      (simp_all only: e, simp_all add: field_control_def vmx_fields supported_def vmx_msrs example_cpu_def)
  moreover have "NOT (HIGH32 ?c) = 0x60001" unfolding e(2) by simp
  ultimately show ?thesis by (simp only:)
qed

text \<open>
  C40: An exception injected with \<open>VmInjectHardwareException\<close> is one the processor accepts:
  valid, a hardware exception with the vector of the exit, delivering an error code exactly
  for the vectors that have one, with reserved bits clear; the error code is that of the exit.\<close>
theorem injected_exception_valid:
  assumes "unat (info_vector i) < 32" "info_error_code i = IsErrorCodeRequired (info_vector i)"
    and "\<And>f. f \<in> {VM_ENTRY_EXCEPTION_ERRORCODE, VM_ENTRY_INTERRUPTION_INFORMATION, VM_ENTRY_INSTRUCTION_LENGTH} \<Longrightarrow> supported c f"
  shows "\<exists>c'. VmInjectHardwareException c i = Some c' \<and>
    VmRead32 c' VM_ENTRY_INTERRUPTION_INFORMATION =
      interrupt_info (info_vector i) INTERRUPT_HARDWARE_EXCEPTION (IsErrorCodeRequired (info_vector i)) \<and>
    VmRead32 c' VM_ENTRY_INSTRUCTION_LENGTH = 0 \<and>
    (IsErrorCodeRequired (info_vector i) \<longrightarrow>
       VmRead32 c' VM_ENTRY_EXCEPTION_ERRORCODE = VmRead32 c EXIT_INTERRUPTION_ERRORCODE)"
proof -
  have "\<forall>k \<in> set [0..<32]. VMX_INT_INFO_VALID OR push_bit 8 (ExceptionType ! k) OR of_nat k =
      interrupt_info (of_nat k) INTERRUPT_HARDWARE_EXCEPTION (IsErrorCodeRequired (of_nat k))"
    by (simp add: upt_rec ExceptionType_def interrupt_info_def IsErrorCodeRequired_def
        INTERRUPT_HARDWARE_EXCEPTION_def EXCEPTION_ERROR_CODE_VALID_def VMX_INT_INFO_VALID_def
        VECTOR_GENERAL_PROTECTION_EXCEPTION_def)
  then have "VMX_INT_INFO_VALID OR push_bit 8 (ExceptionType ! k) OR of_nat k =
      interrupt_info (of_nat k) INTERRUPT_HARDWARE_EXCEPTION (IsErrorCodeRequired (of_nat k))" if "k < 32" for k
    using that by simp
  from this [OF assms(1)] have
    "VMX_INT_INFO_VALID OR push_bit 8 (ExceptionType ! unat (info_vector i)) OR info_vector i =
      interrupt_info (info_vector i) INTERRUPT_HARDWARE_EXCEPTION (IsErrorCodeRequired (info_vector i))" by simp
  moreover have "supported c VM_ENTRY_EXCEPTION_ERRORCODE" "supported c VM_ENTRY_INTERRUPTION_INFORMATION"
    "supported c VM_ENTRY_INSTRUCTION_LENGTH" using assms(3) by simp_all
  ultimately show ?thesis using assms(1,2) by (simp add: VmInjectHardwareException_def not_le Let_def)
qed

theorem injected_exception_valid_witness:
  "\<exists>c'. VmInjectHardwareException example_cpu 0x80000B0D = Some c' \<and>
     VmRead32 c' VM_ENTRY_INTERRUPTION_INFORMATION = 0x80000B0D"
  using injected_exception_valid [of "0x80000B0D" example_cpu]
  by (auto simp: info_vector_def info_error_code_def IsErrorCodeRequired_def VECTOR_GENERAL_PROTECTION_EXCEPTION_def
      supported_def example_cpu_def interrupt_info_def INTERRUPT_HARDWARE_EXCEPTION_def)

text \<open>An event reflected with \<open>VmInjectInterruptOrException\<close> carries whatever the stack held.\<close>

lemma reflected_event_keeps_stack_bits:
  assumes "supported c VM_ENTRY_INTERRUPTION_INFORMATION"
  shows "VmRead32 (VmInjectInterruptOrException Stack c i) VM_ENTRY_INTERRUPTION_INFORMATION AND 0x7FFFF000 = Stack AND 0x7FFFF000"
proof -
  have "((Stack AND 0x7FFFF000) OR (i AND 0x80000FFF)) AND 0x7FFFF000 = Stack AND (0x7FFFF000 :: u32)"
    by (simp add: bit.conj_disj_distrib2 and.assoc)
  then show ?thesis using assms by (simp add: VmInjectInterruptOrException_def Let_def)
qed

end
