(* ===== verification/Vmcs_Init.thy ===== *)
theory Vmcs_Init
  imports Vmx
begin

text \<open>
  The capabilities of the processor and the values they force on controls and control
  registers (\<open>vmcsinit.c\<close>): \<open>VmInitializeVmState\<close> reads the capability registers once, and
  the \<open>VmMakeCompliant\<close> functions apply what it found.
\<close>

section \<open>The state\<close>

text \<open>\<open>VMX_CAPABILITIES\<close>: the raw registers.\<close>

record vmx_capabilities =
  vc_Basic :: u64
  vc_PinBasedControls :: u64
  vc_ProcessorControls :: u64
  vc_ProcessorControls2 :: u64
  vc_ExitControl :: u64
  vc_EntryControls :: u64
  vc_MiscellaneousData :: u64
  vc_Cr0Maybe0 :: u64
  vc_Cr0Maybe1 :: u64
  vc_Cr4Maybe0 :: u64
  vc_Cr4Maybe1 :: u64
  vc_EptVpidCapabilities :: u64
  vc_VmFuncControls :: u64

record vmx_constrains =
  vk_PinBasedControlsMaybe1 :: u32
  vk_PinBasedControlsMaybe0 :: u32
  vk_ProcessorControlsMaybe1 :: u32
  vk_ProcessorControlsMaybe0 :: u32
  vk_ProcessorControls2Maybe1 :: u32
  vk_ProcessorControls2Maybe0 :: u32
  vk_ExitControlMaybe1 :: u32
  vk_ExitControlMaybe0 :: u32
  vk_EntryControlsMaybe1 :: u32
  vk_EntryControlsMaybe0 :: u32
  vk_Cr0Maybe1 :: u64
  vk_Cr0Maybe0 :: u64
  vk_Cr4Maybe1 :: u64
  vk_Cr4Maybe0 :: u64
  vk_NumberOfCr3TargetValues :: u32
  vk_MaxMsrListsSizeInBytes :: u32
  vk_VmxTimerLength :: u32
  vk_VmcsRevision :: u32
  vk_MsegRevisionId :: u32
  vk_VmEntryInHaltStateSupported :: bool
  vk_VmEntryInShutdownStateSupported :: bool
  vk_VmEntryInWaitForSipiStateSupported :: bool
  vk_ProcessorBasedExecCtrl2Supported :: bool
  vk_EptSupported :: bool
  vk_UnrestrictedGuestSupported :: bool
  vk_VpidSupported :: bool
  vk_VmfuncSupported :: bool
  vk_EptpSwitchingSupported :: bool
  vk_VeSupported :: bool
  vk_EptVpidCapabilities :: u64

record vmx_fixed =
  vf_PinControlFixed1 :: u32
  vf_PinControlFixed0 :: u32
  vf_ProcessorControlsFixed1 :: u32
  vf_ProcessorControlsFixed0 :: u32
  vf_ProcessorControls2Fixed1 :: u32
  vf_ProcessorControls2Fixed0 :: u32
  vf_ExitControlFixed1 :: u32
  vf_ExitControlFixed0 :: u32
  vf_EntryControlFixed1 :: u32
  vf_EntryControlFixed0 :: u32
  vf_Cr0Fixed1 :: u64
  vf_Cr0Fixed0 :: u64
  vf_Cr4Fixed1 :: u64
  vf_Cr4Fixed0 :: u64

record vmx_state =
  vs_Capabilities :: vmx_capabilities
  vs_Constraints :: vmx_constrains
  vs_Fixed :: vmx_fixed

definition IA32_VMX_CR0_FIXED0 :: u32 where "IA32_VMX_CR0_FIXED0 = 0x486"
definition IA32_VMX_CR0_FIXED1 :: u32 where "IA32_VMX_CR0_FIXED1 = 0x487"
definition IA32_VMX_CR4_FIXED0 :: u32 where "IA32_VMX_CR4_FIXED0 = 0x488"
definition IA32_VMX_CR4_FIXED1 :: u32 where "IA32_VMX_CR4_FIXED1 = 0x489"
definition IA32_VMX_VMFUNC_CTRL :: u32 where "IA32_VMX_VMFUNC_CTRL = 0x491"
definition MASK_PE_PG_OFF_UNRESTRICTED_GUEST :: u64 where
  "MASK_PE_PG_OFF_UNRESTRICTED_GUEST = 0xFFFFFFFF7FFFFFFE"

section \<open>Reading the capabilities\<close>

text \<open>
  \<open>Maybe0\<close> and \<open>Maybe1\<close> of a control are the lower and upper half of its register.
  \<open>SecondaryControl\<close> is bit 31 of the primary controls; of the secondary ones \<open>EnableEpt\<close>
  is bit 1, \<open>EnableVpid\<close> 5, \<open>UnrestrictedGuest\<close> 7, \<open>EnableVmFunctions\<close> 13 and \<open>EptVe\<close> 18.
\<close>

definition vm_capabilities :: "(u32 \<Rightarrow> u64) \<Rightarrow> vmx_capabilities" where
  "vm_capabilities msr =
     (let secondary = bit (HIGH32 (msr IA32_VMX_PROC_PRIMARY_CTLS)) 31;
          c2 = HIGH32 (msr IA32_VMX_PROC_SECONDARY_CTLS)
      in \<lparr>vc_Basic = msr IA32_VMX_BASIC,
          vc_PinBasedControls = msr IA32_VMX_PIN_CTLS,
          vc_ProcessorControls = msr IA32_VMX_PROC_PRIMARY_CTLS,
          vc_ProcessorControls2 = (if secondary then msr IA32_VMX_PROC_SECONDARY_CTLS else 0),
          vc_ExitControl = msr IA32_VMX_EXIT_CTLS,
          vc_EntryControls = msr IA32_VMX_ENTRY_CTLS,
          vc_MiscellaneousData = msr IA32_VMX_MISC,
          vc_Cr0Maybe0 = msr IA32_VMX_CR0_FIXED0,
          vc_Cr0Maybe1 = msr IA32_VMX_CR0_FIXED1,
          vc_Cr4Maybe0 = msr IA32_VMX_CR4_FIXED0,
          vc_Cr4Maybe1 = msr IA32_VMX_CR4_FIXED1,
          vc_EptVpidCapabilities = (if secondary \<and> (bit c2 1 \<or> bit c2 5) then msr IA32_VMX_EPT_VPID_CAP else 0),
          vc_VmFuncControls = (if secondary \<and> bit c2 13 then msr IA32_VMX_VMFUNC_CTRL else 0)\<rparr>)"

text \<open>The fields of \<open>IA32_VMX_MISC\<close> are read from the raw value.\<close>

definition vm_constraints :: "vmx_capabilities \<Rightarrow> vmx_constrains" where
  "vm_constraints C =
     (let misc = vc_MiscellaneousData C;
          secondary = bit (HIGH32 (vc_ProcessorControls C)) 31;
          c2 = HIGH32 (vc_ProcessorControls2 C)
      in \<lparr>vk_PinBasedControlsMaybe1 = HIGH32 (vc_PinBasedControls C),
          vk_PinBasedControlsMaybe0 = LOW32 (vc_PinBasedControls C),
          vk_ProcessorControlsMaybe1 = HIGH32 (vc_ProcessorControls C),
          vk_ProcessorControlsMaybe0 = LOW32 (vc_ProcessorControls C),
          vk_ProcessorControls2Maybe1 = HIGH32 (vc_ProcessorControls2 C),
          vk_ProcessorControls2Maybe0 = LOW32 (vc_ProcessorControls2 C),
          vk_ExitControlMaybe1 = HIGH32 (vc_ExitControl C),
          vk_ExitControlMaybe0 = LOW32 (vc_ExitControl C),
          vk_EntryControlsMaybe1 = HIGH32 (vc_EntryControls C),
          vk_EntryControlsMaybe0 = LOW32 (vc_EntryControls C),
          vk_Cr0Maybe1 = vc_Cr0Maybe1 C,
          vk_Cr0Maybe0 = vc_Cr0Maybe0 C,
          vk_Cr4Maybe1 = vc_Cr4Maybe1 C,
          vk_Cr4Maybe0 = vc_Cr4Maybe0 C,
          vk_NumberOfCr3TargetValues = ucast (take_bit 9 (drop_bit 16 misc)),
          vk_MaxMsrListsSizeInBytes = (ucast (take_bit 3 (drop_bit 25 misc)) + 1) * 512,
          vk_VmxTimerLength = ucast (take_bit 5 misc),
          vk_VmcsRevision = LOW32 (vc_Basic C) AND 0x7FFFFFFF,
          vk_MsegRevisionId = HIGH32 misc,
          vk_VmEntryInHaltStateSupported = bit misc 6,
          vk_VmEntryInShutdownStateSupported = bit misc 7,
          vk_VmEntryInWaitForSipiStateSupported = bit misc 8,
          vk_ProcessorBasedExecCtrl2Supported = secondary,
          vk_EptSupported = (secondary \<and> bit c2 1),
          vk_UnrestrictedGuestSupported = (secondary \<and> bit c2 7),
          vk_VpidSupported = (secondary \<and> bit c2 5),
          vk_VmfuncSupported = (secondary \<and> bit c2 13),
          vk_EptpSwitchingSupported = (secondary \<and> bit c2 13 \<and> bit (vc_VmFuncControls C) 0),
          vk_VeSupported = (secondary \<and> bit c2 18),
          vk_EptVpidCapabilities = vc_EptVpidCapabilities C\<rparr>)"

definition vm_fixed :: "vmx_constrains \<Rightarrow> vmx_fixed" where
  "vm_fixed K =
     \<lparr>vf_PinControlFixed1 = vk_PinBasedControlsMaybe0 K AND vk_PinBasedControlsMaybe1 K,
      vf_PinControlFixed0 = vk_PinBasedControlsMaybe0 K OR vk_PinBasedControlsMaybe1 K,
      vf_ProcessorControlsFixed1 = vk_ProcessorControlsMaybe0 K AND vk_ProcessorControlsMaybe1 K,
      vf_ProcessorControlsFixed0 = vk_ProcessorControlsMaybe0 K OR vk_ProcessorControlsMaybe1 K,
      vf_ProcessorControls2Fixed1 = vk_ProcessorControls2Maybe0 K AND vk_ProcessorControls2Maybe1 K,
      vf_ProcessorControls2Fixed0 = vk_ProcessorControls2Maybe0 K OR vk_ProcessorControls2Maybe1 K,
      vf_ExitControlFixed1 = vk_ExitControlMaybe0 K AND vk_ExitControlMaybe1 K,
      vf_ExitControlFixed0 = vk_ExitControlMaybe0 K OR vk_ExitControlMaybe1 K,
      vf_EntryControlFixed1 = vk_EntryControlsMaybe0 K AND vk_EntryControlsMaybe1 K,
      vf_EntryControlFixed0 = vk_EntryControlsMaybe0 K OR vk_EntryControlsMaybe1 K,
      vf_Cr0Fixed1 =
        (let f = vk_Cr0Maybe0 K AND vk_Cr0Maybe1 K
         in if vk_UnrestrictedGuestSupported K then f AND MASK_PE_PG_OFF_UNRESTRICTED_GUEST else f),
      vf_Cr0Fixed0 = vk_Cr0Maybe0 K OR vk_Cr0Maybe1 K,
      vf_Cr4Fixed1 = vk_Cr4Maybe0 K AND vk_Cr4Maybe1 K,
      vf_Cr4Fixed0 = vk_Cr4Maybe0 K OR vk_Cr4Maybe1 K\<rparr>"

definition VmInitializeVmState :: "(u32 \<Rightarrow> u64) \<Rightarrow> vmx_state" where
  "VmInitializeVmState msr =
     (let C = vm_capabilities msr; K = vm_constraints C
      in \<lparr>vs_Capabilities = C, vs_Constraints = K, vs_Fixed = vm_fixed K\<rparr>)"

text \<open>Of \<open>VMX_MSR_BASIC\<close>: the revision, the size of a region and the width of its address.\<close>

definition VMCS_REVISION :: "vmx_state \<Rightarrow> u32" where
  "VMCS_REVISION V = LOW32 (vc_Basic (vs_Capabilities V)) AND 0x7FFFFFFF"

definition VMCS_REGION_SIZE :: "vmx_state \<Rightarrow> u32" where
  "VMCS_REGION_SIZE V = ucast (take_bit 13 (drop_bit 32 (vc_Basic (vs_Capabilities V))))"

definition GetVmcsMemoryType :: "vmx_state \<Rightarrow> u32" where
  "GetVmcsMemoryType V =
     (let t = take_bit 4 (drop_bit 50 (vc_Basic (vs_Capabilities V)))
      in if t = 0 then 1 else if t = 6 then 2 else 0)"

section \<open>Compliant values\<close>

definition VmMakeCompliantPinBasedCtrl :: "vmx_state \<Rightarrow> u32 \<Rightarrow> u32" where
  "VmMakeCompliantPinBasedCtrl V v = (v AND vf_PinControlFixed0 (vs_Fixed V)) OR vf_PinControlFixed1 (vs_Fixed V)"

definition VmMakeCompliantProcessorCtrl :: "vmx_state \<Rightarrow> u32 \<Rightarrow> u32" where
  "VmMakeCompliantProcessorCtrl V v =
     (v AND vf_ProcessorControlsFixed0 (vs_Fixed V)) OR vf_ProcessorControlsFixed1 (vs_Fixed V)"

definition VmMakeCompliantProcessorCtrl2 :: "vmx_state \<Rightarrow> u32 \<Rightarrow> u32" where
  "VmMakeCompliantProcessorCtrl2 V v =
     (v AND vf_ProcessorControls2Fixed0 (vs_Fixed V)) OR vf_ProcessorControls2Fixed1 (vs_Fixed V)"

definition VmMakeCompliantExitCtrl :: "vmx_state \<Rightarrow> u32 \<Rightarrow> u32" where
  "VmMakeCompliantExitCtrl V v = (v AND vf_ExitControlFixed0 (vs_Fixed V)) OR vf_ExitControlFixed1 (vs_Fixed V)"

definition VmMakeCompliantEntryCtrl :: "vmx_state \<Rightarrow> u32 \<Rightarrow> u32" where
  "VmMakeCompliantEntryCtrl V v = (v AND vf_EntryControlFixed0 (vs_Fixed V)) OR vf_EntryControlFixed1 (vs_Fixed V)"

definition VmMakeCompliantCr0 :: "vmx_state \<Rightarrow> u64 \<Rightarrow> u64" where
  "VmMakeCompliantCr0 V v = (v AND vf_Cr0Fixed0 (vs_Fixed V)) OR vf_Cr0Fixed1 (vs_Fixed V)"

definition VmMakeCompliantCr4 :: "vmx_state \<Rightarrow> u64 \<Rightarrow> u64" where
  "VmMakeCompliantCr4 V v = (v AND vf_Cr4Fixed0 (vs_Fixed V)) OR vf_Cr4Fixed1 (vs_Fixed V)"

definition VmGetGuestVisibleCr4 :: "'c cpu_scheme \<Rightarrow> u64 \<Rightarrow> u64" where
  "VmGetGuestVisibleCr4 c Cr4Value =
     (let Mask = VmReadN c CR4_GUEST_HOST_MASK; Shadow = VmReadN c CR4_READ_SHADOW
      in (Cr4Value AND NOT Mask) OR (Shadow AND Mask))"

section \<open>What compliance means\<close>

text \<open>
  The processor documents of a register or control that a bit allowed to be 0 only where
  \<open>Maybe0\<close> is 0 and to be 1 only where \<open>Maybe1\<close> is 1, and that \<open>Maybe0\<close> lies below \<open>Maybe1\<close>.
\<close>

definition fixed_pair :: "'a::len word \<Rightarrow> 'a word \<Rightarrow> bool" where
  "fixed_pair m0 m1 \<longleftrightarrow> m0 AND NOT m1 = 0"

definition conforms :: "'a::len word \<Rightarrow> 'a word \<Rightarrow> 'a word \<Rightarrow> bool" where
  "conforms m0 m1 v \<longleftrightarrow> m0 AND NOT v = 0 \<and> v AND NOT m1 = 0"

lemma and_not_zero_iff: "(a :: 'a::len word) AND NOT b = 0 \<longleftrightarrow> (\<forall>i. bit a i \<longrightarrow> bit b i)"
proof
  assume "a AND NOT b = 0"
  then have "\<not> bit (a AND NOT b) i" for i by simp
  then show "\<forall>i. bit a i \<longrightarrow> bit b i" by (auto simp: bit_simps dest: bit_imp_le_length)
next
  assume "\<forall>i. bit a i \<longrightarrow> bit b i"
  then show "a AND NOT b = 0" by (intro bit_word_eqI) (simp add: bit_simps)
qed

lemma compliant_bits:
  assumes "fixed_pair m0 m1"
  shows "bit ((v AND (m0 OR m1)) OR (m0 AND m1)) i \<longleftrightarrow> (if bit m0 i then True else if bit m1 i then bit v i else False)"
  using assms by (auto simp: fixed_pair_def and_not_zero_iff bit_simps)

lemma compliant_conforms:
  assumes "fixed_pair m0 m1"
  shows "conforms m0 m1 ((v AND (m0 OR m1)) OR (m0 AND m1))"
  unfolding conforms_def and_not_zero_iff compliant_bits [OF assms]
  using assms by (simp add: fixed_pair_def and_not_zero_iff)

lemma compliant_id:
  assumes "fixed_pair m0 m1" "conforms m0 m1 v"
  shows "(v AND (m0 OR m1)) OR (m0 AND m1) = v"
  by (rule bit_word_eqI, subst compliant_bits [OF assms(1)]) (use assms(2) in \<open>auto simp: conforms_def and_not_zero_iff\<close>)

lemma compliant_normal:
  assumes "fixed_pair m0 m1"
  shows "(v AND (m0 OR m1)) OR (m0 AND m1) = (v AND m1) OR m0"
  by (rule bit_word_eqI, subst compliant_bits [OF assms]) (auto simp: bit_simps)

lemma compliant_cr4_eq:
  "VmMakeCompliantCr4 (VmInitializeVmState msr) v =
     (v AND (msr IA32_VMX_CR4_FIXED0 OR msr IA32_VMX_CR4_FIXED1)) OR (msr IA32_VMX_CR4_FIXED0 AND msr IA32_VMX_CR4_FIXED1)"
  by (simp add: VmMakeCompliantCr4_def VmInitializeVmState_def vm_fixed_def vm_constraints_def vm_capabilities_def Let_def)

lemma compliant_cr0_eq:
  "VmMakeCompliantCr0 (VmInitializeVmState msr) v =
     (let m0 = msr IA32_VMX_CR0_FIXED0; m1 = msr IA32_VMX_CR0_FIXED1
      in (v AND (m0 OR m1)) OR
         (if bit (HIGH32 (msr IA32_VMX_PROC_PRIMARY_CTLS)) 31 \<and> bit (HIGH32 (msr IA32_VMX_PROC_SECONDARY_CTLS)) 7
          then (m0 AND m1) AND MASK_PE_PG_OFF_UNRESTRICTED_GUEST else m0 AND m1))"
  by (simp add: VmMakeCompliantCr0_def VmInitializeVmState_def vm_fixed_def vm_constraints_def vm_capabilities_def Let_def)

lemma unrestricted_mask: "MASK_PE_PG_OFF_UNRESTRICTED_GUEST = NOT (set_bit 31 (set_bit 0 0))"
  by (simp add: MASK_PE_PG_OFF_UNRESTRICTED_GUEST_def set_bit_eq_or)

lemma bit_unrestricted_mask: "bit MASK_PE_PG_OFF_UNRESTRICTED_GUEST i \<longleftrightarrow> i < 64 \<and> i \<noteq> 0 \<and> i \<noteq> 31"
  unfolding unrestricted_mask by (auto simp: bit_simps)

text \<open>Whether the processor runs guests without protection or paging.\<close>

definition unrestricted_guest :: "(u32 \<Rightarrow> u64) \<Rightarrow> bool" where
  "unrestricted_guest msr \<longleftrightarrow> bit (HIGH32 (msr IA32_VMX_PROC_PRIMARY_CTLS)) 31 \<and>
     bit (HIGH32 (msr IA32_VMX_PROC_SECONDARY_CTLS)) 7"

lemma compliant_cr4_bits:
  assumes "fixed_pair (msr IA32_VMX_CR4_FIXED0) (msr IA32_VMX_CR4_FIXED1)"
  shows "bit (VmMakeCompliantCr4 (VmInitializeVmState msr) v) i \<longleftrightarrow>
    bit (msr IA32_VMX_CR4_FIXED0) i \<or> bit (msr IA32_VMX_CR4_FIXED1) i \<and> bit v i"
  unfolding compliant_cr4_eq compliant_bits [OF assms] by auto

lemma compliant_cr0_bits:
  assumes "fixed_pair (msr IA32_VMX_CR0_FIXED0) (msr IA32_VMX_CR0_FIXED1)"
  shows "bit (VmMakeCompliantCr0 (VmInitializeVmState msr) v) i \<longleftrightarrow>
    bit (msr IA32_VMX_CR0_FIXED0) i \<and> \<not> (unrestricted_guest msr \<and> i \<in> {0, 31}) \<or>
    bit (msr IA32_VMX_CR0_FIXED1) i \<and> bit v i"
proof -
  have "bit (msr IA32_VMX_CR0_FIXED0) i \<longrightarrow> bit (msr IA32_VMX_CR0_FIXED1) i \<and> i < 64"
    using assms by (auto simp: fixed_pair_def and_not_zero_iff dest: bit_imp_le_length)
  then show ?thesis
    by (auto simp: compliant_cr0_eq Let_def bit_simps bit_unrestricted_mask unrestricted_guest_def)
qed

text \<open>
  The control registers given to the guest obey the processor: a bit fixed to 1 is set,
  a bit fixed to 0 is clear, every other bit is the one asked for, and only on a processor
  with unrestricted guests protection and paging may be off; a value that already obeys is
  not changed.\<close>
theorem compliant_registers:
  assumes "fixed_pair (msr IA32_VMX_CR0_FIXED0) (msr IA32_VMX_CR0_FIXED1)"
    "fixed_pair (msr IA32_VMX_CR4_FIXED0) (msr IA32_VMX_CR4_FIXED1)"
  shows "(\<forall>i. bit (VmMakeCompliantCr4 (VmInitializeVmState msr) v) i \<longleftrightarrow>
      bit (msr IA32_VMX_CR4_FIXED0) i \<or> bit (msr IA32_VMX_CR4_FIXED1) i \<and> bit v i) \<and>
    (\<forall>i. bit (VmMakeCompliantCr0 (VmInitializeVmState msr) v) i \<longleftrightarrow>
      bit (msr IA32_VMX_CR0_FIXED0) i \<and> \<not> (unrestricted_guest msr \<and> i \<in> {0, 31}) \<or>
      bit (msr IA32_VMX_CR0_FIXED1) i \<and> bit v i) \<and>
    (conforms (msr IA32_VMX_CR4_FIXED0) (msr IA32_VMX_CR4_FIXED1) v \<longrightarrow>
      VmMakeCompliantCr4 (VmInitializeVmState msr) v = v)"
proof (intro conjI)
  show "conforms (msr IA32_VMX_CR4_FIXED0) (msr IA32_VMX_CR4_FIXED1) v \<longrightarrow> VmMakeCompliantCr4 (VmInitializeVmState msr) v = v"
    using compliant_id [OF assms(2)] by (simp add: compliant_cr4_eq)
qed (simp_all add: compliant_cr0_bits [OF assms(1)] compliant_cr4_bits [OF assms(2)])

definition example_fixed_msr :: "u32 \<Rightarrow> u64" where
  "example_fixed_msr = (\<lambda>_. 0)(IA32_VMX_CR0_FIXED0 := 0x80000021, IA32_VMX_CR0_FIXED1 := 0xFFFFFFFF,
     IA32_VMX_CR4_FIXED0 := 0x2000, IA32_VMX_CR4_FIXED1 := 0x3727FF)"

theorem compliant_registers_witness:
  "\<not> bit (VmMakeCompliantCr4 (VmInitializeVmState example_fixed_msr) 0x406F8) 30 \<and>
   bit (VmMakeCompliantCr0 (VmInitializeVmState example_fixed_msr) 0) 31"
proof -
  have m: "example_fixed_msr IA32_VMX_CR0_FIXED0 = 0x80000021" "example_fixed_msr IA32_VMX_CR0_FIXED1 = 0xFFFFFFFF"
    "example_fixed_msr IA32_VMX_CR4_FIXED0 = 0x2000" "example_fixed_msr IA32_VMX_CR4_FIXED1 = 0x3727FF"
    "example_fixed_msr IA32_VMX_PROC_PRIMARY_CTLS = 0"
    by (simp_all add: example_fixed_msr_def IA32_VMX_CR0_FIXED0_def IA32_VMX_CR0_FIXED1_def
        IA32_VMX_CR4_FIXED0_def IA32_VMX_CR4_FIXED1_def IA32_VMX_PROC_PRIMARY_CTLS_def)
  have "fixed_pair (example_fixed_msr IA32_VMX_CR0_FIXED0) (example_fixed_msr IA32_VMX_CR0_FIXED1)"
    "fixed_pair (example_fixed_msr IA32_VMX_CR4_FIXED0) (example_fixed_msr IA32_VMX_CR4_FIXED1)"
    by (simp_all add: fixed_pair_def m)
  note c = compliant_registers [OF this, THEN conjunct1] compliant_registers [OF this, THEN conjunct2, THEN conjunct1]
  show ?thesis by (simp add: c m unrestricted_guest_def HIGH32_def)
qed

section \<open>Agreement with the normalisation of control writes\<close>

lemma vm_state_controls:
  "vf_PinControlFixed0 (vs_Fixed (VmInitializeVmState msr)) = LOW32 (msr IA32_VMX_PIN_CTLS) OR HIGH32 (msr IA32_VMX_PIN_CTLS)"
  "vf_PinControlFixed1 (vs_Fixed (VmInitializeVmState msr)) = LOW32 (msr IA32_VMX_PIN_CTLS) AND HIGH32 (msr IA32_VMX_PIN_CTLS)"
  "vf_ExitControlFixed0 (vs_Fixed (VmInitializeVmState msr)) = LOW32 (msr IA32_VMX_EXIT_CTLS) OR HIGH32 (msr IA32_VMX_EXIT_CTLS)"
  "vf_ExitControlFixed1 (vs_Fixed (VmInitializeVmState msr)) = LOW32 (msr IA32_VMX_EXIT_CTLS) AND HIGH32 (msr IA32_VMX_EXIT_CTLS)"
  "vf_EntryControlFixed0 (vs_Fixed (VmInitializeVmState msr)) = LOW32 (msr IA32_VMX_ENTRY_CTLS) OR HIGH32 (msr IA32_VMX_ENTRY_CTLS)"
  "vf_EntryControlFixed1 (vs_Fixed (VmInitializeVmState msr)) = LOW32 (msr IA32_VMX_ENTRY_CTLS) AND HIGH32 (msr IA32_VMX_ENTRY_CTLS)"
  "vf_ProcessorControlsFixed0 (vs_Fixed (VmInitializeVmState msr)) =
     LOW32 (msr IA32_VMX_PROC_PRIMARY_CTLS) OR HIGH32 (msr IA32_VMX_PROC_PRIMARY_CTLS)"
  "vf_ProcessorControlsFixed1 (vs_Fixed (VmInitializeVmState msr)) =
     LOW32 (msr IA32_VMX_PROC_PRIMARY_CTLS) AND HIGH32 (msr IA32_VMX_PROC_PRIMARY_CTLS)"
  by (simp_all add: VmInitializeVmState_def vm_fixed_def vm_constraints_def vm_capabilities_def Let_def)

text \<open>
  On a processor without the "true" capability registers the compliant values of the
  pin-based, primary, exit and entry controls are those \<open>VmWrite32\<close> writes.\<close>
theorem compliant_controls_agree:
  assumes "\<not> bit (msr IA32_VMX_BASIC) 55"
    "\<forall>m \<in> {IA32_VMX_PIN_CTLS, IA32_VMX_PROC_PRIMARY_CTLS, IA32_VMX_EXIT_CTLS, IA32_VMX_ENTRY_CTLS}.
       fixed_pair (LOW32 (msr m)) (HIGH32 (msr m))"
  shows "VmMakeCompliantPinBasedCtrl (VmInitializeVmState msr) v = VmxpNormalizeControls msr VM_EXEC_CONTROLS_PIN_BASED v \<and>
    VmMakeCompliantProcessorCtrl (VmInitializeVmState msr) v = VmxpNormalizeControls msr VM_EXEC_CONTROLS_PROC_PRIMARY v \<and>
    VmMakeCompliantExitCtrl (VmInitializeVmState msr) v = VmxpNormalizeControls msr VM_EXIT_CONTROLS v \<and>
    VmMakeCompliantEntryCtrl (VmInitializeVmState msr) v = VmxpNormalizeControls msr VM_ENTRY_CONTROLS v"
proof -
  have n: "control_msr msr m = m" for m using assms(1) by (simp add: control_msr_def)
  have f: "field_control VM_EXEC_CONTROLS_PIN_BASED = Some IA32_VMX_PIN_CTLS"
    "field_control VM_EXEC_CONTROLS_PROC_PRIMARY = Some IA32_VMX_PROC_PRIMARY_CTLS"
    "field_control VM_EXIT_CONTROLS = Some IA32_VMX_EXIT_CTLS"
    "field_control VM_ENTRY_CONTROLS = Some IA32_VMX_ENTRY_CTLS"
    by (simp_all add: field_control_def vmx_fields)
  have s: "IA32_VMX_PIN_CTLS \<noteq> IA32_VMX_PROC_SECONDARY_CTLS" "IA32_VMX_PROC_PRIMARY_CTLS \<noteq> IA32_VMX_PROC_SECONDARY_CTLS"
    "IA32_VMX_EXIT_CTLS \<noteq> IA32_VMX_PROC_SECONDARY_CTLS" "IA32_VMX_ENTRY_CTLS \<noteq> IA32_VMX_PROC_SECONDARY_CTLS"
    by (simp_all add: vmx_msrs)
  show ?thesis using assms(2)
    by (simp add: VmxpNormalizeControls_def f n s VmMakeCompliantPinBasedCtrl_def VmMakeCompliantProcessorCtrl_def
        VmMakeCompliantExitCtrl_def VmMakeCompliantEntryCtrl_def vm_state_controls compliant_normal Let_def)
qed

theorem compliant_controls_agree_witness:
  "VmMakeCompliantPinBasedCtrl (VmInitializeVmState (\<lambda>_. 0x7F00000016)) 1 =
   VmxpNormalizeControls (\<lambda>_. 0x7F00000016) VM_EXEC_CONTROLS_PIN_BASED 1"
proof -
  have "bit (0x7F00000016 :: u64) 55 \<longleftrightarrow> False" by simp
  moreover have "fixed_pair (LOW32 0x7F00000016) (HIGH32 0x7F00000016)"
    by (simp add: fixed_pair_def LOW32_def HIGH32_def)
  ultimately show ?thesis using compliant_controls_agree [of "\<lambda>_. 0x7F00000016" 1] by simp
qed

end
