(* ===== verification/X86.thy ===== *)
theory X86
  imports Prelude
begin

text \<open>
  Processor tables and registers (\<open>x86.c\<close>): installing, reading and restoring interrupt
  handlers in an interrupt descriptor table, decoding segment descriptors, and the numbered
  access to control and debug registers.
\<close>

section \<open>The interrupt descriptor table\<close>

text \<open>The first eight bytes of an entry as one number, the upper half of the offset, and a reserved word.\<close>

record idt_entry =
  id_raw :: u64
  id_offsetUpper :: u32
  id_reserved :: u32

text \<open>The fields of the first eight bytes: their positions and widths.\<close>

definition field_at :: "nat \<Rightarrow> nat \<Rightarrow> u64 \<Rightarrow> u64" where
  "field_at pos n w = take_bit n (drop_bit pos w)"

definition put_at :: "nat \<Rightarrow> nat \<Rightarrow> u64 \<Rightarrow> u64 \<Rightarrow> u64" where
  "put_at pos n v w = (w AND NOT (push_bit pos (mask n))) OR push_bit pos (take_bit n v)"

text \<open>
  A table is a function of the service number.  \<open>cs\<close> is the code segment selector, and
  \<open>Stack\<close> the reserved word of the local entry, which the code does not set.  The result is
  the previous entry and the new table.
\<close>

definition IdtInstallService :: "(nat \<Rightarrow> idt_entry) \<Rightarrow> u8 \<Rightarrow> u64 \<Rightarrow> u16 \<Rightarrow> u32 \<Rightarrow> idt_entry \<times> (nat \<Rightarrow> idt_entry)" where
  "IdtInstallService idt service handler cs Stack =
     (let old = idt (unat service);
          raw = put_at 0 16 (handler AND 0xFFFF) 0;
          raw = put_at 16 16 (ucast cs) raw;
          raw = put_at 32 3 0 raw;
          raw = put_at 40 5 0x0E raw;
          raw = put_at 45 2 0 raw;
          raw = put_at 47 1 1 raw;
          raw = put_at 48 16 (drop_bit 16 (handler AND 0xFFFF0000)) raw;
          tmp = \<lparr>id_raw = raw, id_offsetUpper = ucast (drop_bit 32 handler), id_reserved = Stack\<rparr>
      in (old, idt(unat service := tmp)))"

definition IdtGetEntryFromServiceNumber :: "(nat \<Rightarrow> idt_entry) \<Rightarrow> u32 \<Rightarrow> idt_entry" where
  "IdtGetEntryFromServiceNumber idt service = idt (unat service)"

definition IdtReadServiceAddressFromEntry :: "idt_entry \<Rightarrow> u64" where
  "IdtReadServiceAddressFromEntry entry =
     (let address = ucast (ucast (push_bit 16 (field_at 48 16 (id_raw entry)) OR field_at 0 16 (id_raw entry)) :: u32)
      in address OR push_bit 32 (ucast (id_offsetUpper entry)))"

definition IdtRestoreEntry :: "(nat \<Rightarrow> idt_entry) \<Rightarrow> u8 \<Rightarrow> idt_entry \<Rightarrow> (nat \<Rightarrow> idt_entry)" where
  "IdtRestoreEntry idt service old = idt(unat service := old)"

section \<open>Segment descriptors\<close>

text \<open>
  The descriptor table at \<open>base\<close> is an array of eight-byte words \<open>gdt\<close>; the index is the
  selector without its privilege level and table bits.  A descriptor in the table of a
  64-bit system segment continues in the next word, which holds the upper half of the base.
\<close>

definition BaseFromSelector :: "(nat \<Rightarrow> u64) \<Rightarrow> u16 \<Rightarrow> u64" where
  "BaseFromSelector gdt Selector =
     (let Index = unat (drop_bit 3 Selector);
          d = gdt Index;
          Base = field_at 16 16 d OR push_bit 16 (field_at 32 8 d) OR push_bit 24 (field_at 56 8 d)
      in if \<not> bit d 44 then Base OR push_bit 32 (take_bit 32 (gdt (Index + 1))) else Base)"

definition ArFromSelector :: "(nat \<Rightarrow> u64) \<Rightarrow> u16 \<Rightarrow> u32" where
  "ArFromSelector gdt Selector =
     (let AccessRights = ucast (drop_bit 40 (gdt (unat (drop_bit 3 Selector))) AND 0x00F0FF)
      in if Selector = 0 then AccessRights OR 0x10000 else AccessRights)"

section \<open>Registers by number\<close>

text \<open>Control and debug registers by number; \<open>readcr\<close> of any other number is 0 and \<open>writecr\<close> does nothing.\<close>

definition readcr :: "(nat \<Rightarrow> u64) \<Rightarrow> nat \<Rightarrow> u64" where
  "readcr cr n = (if n \<in> {0, 3, 4, 8} then cr n else 0)"

definition writecr :: "(nat \<Rightarrow> u64) \<Rightarrow> nat \<Rightarrow> u64 \<Rightarrow> (nat \<Rightarrow> u64)" where
  "writecr cr n value = (if n \<in> {0, 3, 4, 8} then cr(n := value) else cr)"

definition readdr :: "(nat \<Rightarrow> u64) \<Rightarrow> nat \<Rightarrow> u64" where
  "readdr dr n = (if n \<in> {0, 1, 2, 3, 6, 7} then dr n else 0)"

definition writedr :: "(nat \<Rightarrow> u64) \<Rightarrow> nat \<Rightarrow> u64 \<Rightarrow> (nat \<Rightarrow> u64)" where
  "writedr dr n value = (if n \<in> {0, 1, 2, 3, 6, 7} then dr(n := value) else dr)"

section \<open>Property\<close>

lemma bit_put_at: "bit (put_at pos n v w) i \<longleftrightarrow>
    (if pos \<le> i \<and> i < pos + n then i < 64 \<and> bit v (i - pos) else bit w i)"
  by (cases "i < 64") (auto simp: put_at_def bit_simps dest: bit_imp_le_length)

lemma bit_field_at: "bit (field_at pos n w) i \<longleftrightarrow> i < n \<and> bit w (pos + i)"
  by (cases "i < 64") (auto simp: field_at_def bit_simps dest: bit_imp_le_length)

lemma selector_masks: "(0xFFFF :: u64) = mask 16" "(0xFFFF0000 :: u64) = push_bit 16 (mask 16)"
  by (simp_all add: mask_eq_exp_minus_1)

lemma unat_ucast_u8: "unat (ucast (x :: u8) :: u32) = unat x"
proof -
  have "unat x < 2 ^ 8" using unsigned_less [of x] by simp
  then show ?thesis by (simp add: unsigned_ucast_eq take_bit_nat_eq_self)
qed

text \<open>
  The address read from an entry is that of the handler installed in it; installing
  leaves every other entry alone, and restoring the entry it returned undoes it.\<close>
theorem idt_install_roundtrip:
  assumes "IdtInstallService idt service handler cs Stack = (old, idt')"
  shows "IdtReadServiceAddressFromEntry (IdtGetEntryFromServiceNumber idt' (ucast service)) = handler \<and>
    (\<forall>n. n \<noteq> unat service \<longrightarrow> idt' n = idt n) \<and> IdtRestoreEntry idt' service old = idt"
proof (intro conjI)
  have i: "idt' = idt(unat service := idt' (unat service))" "old = idt (unat service)"
    using assms by (auto simp: IdtInstallService_def Let_def)
  show "\<forall>n. n \<noteq> unat service \<longrightarrow> idt' n = idt n" by (subst i(1)) simp
  show "IdtRestoreEntry idt' service old = idt" by (subst i(1)) (simp add: IdtRestoreEntry_def i(2))
  have u: "unat (ucast service :: u32) = unat service" by (rule unat_ucast_u8)
  have r: "bit (id_raw (idt' (unat service))) n \<longleftrightarrow> bit handler n" if "n < 16" for n
    using assms that by (auto simp: IdtInstallService_def Let_def bit_put_at bit_simps selector_masks)
  have r': "bit (id_raw (idt' (unat service))) (48 + n) \<longleftrightarrow> bit handler (16 + n)" if "n < 16" for n
    using assms that by (auto simp: IdtInstallService_def Let_def bit_put_at bit_simps selector_masks)
  have h: "id_offsetUpper (idt' (unat service)) = ucast (drop_bit 32 handler)"
    using assms by (auto simp: IdtInstallService_def Let_def)
  show "IdtReadServiceAddressFromEntry (IdtGetEntryFromServiceNumber idt' (ucast service)) = handler"
  proof (rule bit_word_eqI)
    fix n assume n: "n < LENGTH(64)"
    consider "n < 16" | "16 \<le> n" "n < 32" | "32 \<le> n" "n < 64" using n by fastforce
    then show "bit (IdtReadServiceAddressFromEntry (IdtGetEntryFromServiceNumber idt' (ucast service))) n = bit handler n"
    proof cases
      case 1 then show ?thesis
        using r [of n] by (simp add: IdtReadServiceAddressFromEntry_def IdtGetEntryFromServiceNumber_def u bit_simps bit_field_at)
    next
      case 2
      then have "n - 16 < 16" by arith
      with 2 show ?thesis
        using r' [of "n - 16"] by (simp add: IdtReadServiceAddressFromEntry_def IdtGetEntryFromServiceNumber_def u bit_simps bit_field_at)
    next
      case 3
      then have "n - 32 < 64" "n - 32 < 32" by arith+
      with 3 show ?thesis
        by (simp add: IdtReadServiceAddressFromEntry_def IdtGetEntryFromServiceNumber_def u h bit_simps bit_field_at)
    qed
  qed
qed

theorem idt_install_roundtrip_witness:
  "IdtReadServiceAddressFromEntry
     (snd (IdtInstallService (\<lambda>_. \<lparr>id_raw = 0, id_offsetUpper = 0, id_reserved = 0\<rparr>) 14 0xFFFFF80012345678 0x10 0) 14) =
   0xFFFFF80012345678"
  using idt_install_roundtrip [of "\<lambda>_. \<lparr>id_raw = 0, id_offsetUpper = 0, id_reserved = 0\<rparr>" 14 "0xFFFFF80012345678" "0x10" 0,
      OF prod.collapse [symmetric]]
  by (simp add: IdtGetEntryFromServiceNumber_def)

end
