(* ===== verification/Vmcs.thy ===== *)
theory Vmcs
  imports Vmcs_Init X86
begin

text \<open>
  Setting up the virtual machine control structure (\<open>vmcs.c\<close>): the guest, host, control and
  common fields, the interception of time stamps and the bitmap of model-specific registers.
\<close>

section \<open>The running processor\<close>

datatype segment_reg = SegCs | SegSs | SegDs | SegEs | SegFs | SegGs | SegTr | SegLdtr

record ia32_descriptor =
  dt_Limit :: u16
  dt_Base :: u64

text \<open>
  Next to the registers of \<open>cpu\<close>: the segment selectors, the memory at the base of the
  global descriptor table as eight-byte words, what \<open>LSL\<close> returns for a selector, and the two
  table registers.
\<close>

record host_cpu = cpu +
  hc_sel :: "segment_reg \<Rightarrow> u16"
  hc_gdt :: "nat \<Rightarrow> u64"
  hc_lsl :: "u16 \<Rightarrow> u32"
  hc_gdtr :: ia32_descriptor
  hc_idtr :: ia32_descriptor

definition GetGdtrBase :: "'c host_cpu_scheme \<Rightarrow> u64" where "GetGdtrBase c = dt_Base (hc_gdtr c)"
definition GetGdtrLimit :: "'c host_cpu_scheme \<Rightarrow> u16" where "GetGdtrLimit c = dt_Limit (hc_gdtr c)"
definition GetIdtrBase :: "'c host_cpu_scheme \<Rightarrow> u64" where "GetIdtrBase c = dt_Base (hc_idtr c)"
definition GetIdtrLimit :: "'c host_cpu_scheme \<Rightarrow> u16" where "GetIdtrLimit c = dt_Limit (hc_idtr c)"
definition WriteIdtr :: "'c host_cpu_scheme \<Rightarrow> ia32_descriptor \<Rightarrow> 'c host_cpu_scheme" where
  "WriteIdtr c Idt = c\<lparr>hc_idtr := Idt\<rparr>"

definition IA32_DEBUGCTL :: u32 where "IA32_DEBUGCTL = 0x1D9"
definition IA32_SYSENTER_CS :: u32 where "IA32_SYSENTER_CS = 0x174"
definition IA32_SYSENTER_ESP :: u32 where "IA32_SYSENTER_ESP = 0x175"
definition IA32_SYSENTER_EIP :: u32 where "IA32_SYSENTER_EIP = 0x176"
definition IA32_FS_BASE :: u32 where "IA32_FS_BASE = 0xC0000100"
definition IA32_GS_BASE :: u32 where "IA32_GS_BASE = 0xC0000101"
definition CR4_TSD :: u64 where "CR4_TSD = push_bit 2 1"
definition CR4_VMXE :: u64 where "CR4_VMXE = push_bit 13 1"

section \<open>Sequences of writes\<close>

datatype vm_write = W16 u32 u16 | W32 u32 u32 | W64 u32 u64 | WN u32 u64

fun perform :: "vm_write \<Rightarrow> 'c cpu_scheme \<Rightarrow> 'c cpu_scheme" where
  "perform (W16 f v) c = write16 f v c"
| "perform (W32 f v) c = write32 f v c"
| "perform (W64 f v) c = write64 f v c"
| "perform (WN f v) c = writeN f v c"

definition perform_all :: "vm_write list \<Rightarrow> 'c cpu_scheme \<Rightarrow> 'c cpu_scheme" where
  "perform_all ws c = fold perform ws c"

section \<open>The guest\<close>

record segment_selector =
  ss_Selector :: u16
  ss_Base :: u64
  ss_Limit :: u32
  ss_Attr :: u32

definition read_segment :: "'c host_cpu_scheme \<Rightarrow> segment_reg \<Rightarrow> segment_selector" where
  "read_segment c s =
     \<lparr>ss_Selector = hc_sel c s, ss_Base = BaseFromSelector (hc_gdt c) (hc_sel c s),
      ss_Limit = hc_lsl c (hc_sel c s), ss_Attr = ArFromSelector (hc_gdt c) (hc_sel c s)\<rparr>"

text \<open>The four fields of a segment: selector, base, limit and access rights.\<close>

fun seg_fields :: "segment_reg \<Rightarrow> u32 \<times> u32 \<times> u32 \<times> u32" where
  "seg_fields SegCs = (GUEST_CS_SELECTOR, GUEST_CS_BASE, GUEST_CS_LIMIT, GUEST_CS_ACCESS_RIGHTS)"
| "seg_fields SegSs = (GUEST_SS_SELECTOR, GUEST_SS_BASE, GUEST_SS_LIMIT, GUEST_SS_ACCESS_RIGHTS)"
| "seg_fields SegDs = (GUEST_DS_SELECTOR, GUEST_DS_BASE, GUEST_DS_LIMIT, GUEST_DS_ACCESS_RIGHTS)"
| "seg_fields SegEs = (GUEST_ES_SELECTOR, GUEST_ES_BASE, GUEST_ES_LIMIT, GUEST_ES_ACCESS_RIGHTS)"
| "seg_fields SegFs = (GUEST_FS_SELECTOR, GUEST_FS_BASE, GUEST_FS_LIMIT, GUEST_FS_ACCESS_RIGHTS)"
| "seg_fields SegGs = (GUEST_GS_SELECTOR, GUEST_GS_BASE, GUEST_GS_LIMIT, GUEST_GS_ACCESS_RIGHTS)"
| "seg_fields SegTr = (GUEST_TR_SELECTOR, GUEST_TR_BASE, GUEST_TR_LIMIT, GUEST_TR_ACCESS_RIGHTS)"
| "seg_fields SegLdtr = (GUEST_LDTR_SELECTOR, GUEST_LDTR_BASE, GUEST_LDTR_LIMIT, GUEST_LDTR_ACCESS_RIGHTS)"

definition VM_LOAD_SEGMENT :: "segment_selector \<Rightarrow> segment_reg \<Rightarrow> vm_write list" where
  "VM_LOAD_SEGMENT S s =
     (case seg_fields s of (sel, base, limit, ar) \<Rightarrow>
        [W16 sel (ss_Selector S), WN base (ss_Base S), W32 limit (ss_Limit S), W32 ar (ss_Attr S)])"

text \<open>The writes only depend on registers of the processor, not on the fields being written.\<close>

definition guest_writes :: "vmx_state \<Rightarrow> 'c host_cpu_scheme \<Rightarrow> vm_write list" where
  "guest_writes V c =
     [WN GUEST_CR3 (cpu_cr3 c), WN GUEST_CR0 (VmMakeCompliantCr0 V (cpu_cr0 c)),
      WN GUEST_CR4 (VmMakeCompliantCr4 V (cpu_cr4 c)), WN GUEST_DR7 (cpu_dr7 c)] @
     concat (map (\<lambda>s. VM_LOAD_SEGMENT (read_segment c s) s) [SegCs, SegSs, SegDs, SegEs, SegFs, SegGs, SegTr, SegLdtr]) @
     [WN GUEST_FS_BASE (cpu_msr c IA32_FS_BASE), WN GUEST_GS_BASE (cpu_msr c IA32_GS_BASE),
      WN GUEST_GDTR_BASE (GetGdtrBase c), W32 GUEST_GDTR_LIMIT (ucast (GetGdtrLimit c)),
      WN GUEST_IDTR_BASE (GetIdtrBase c), W32 GUEST_IDTR_LIMIT (ucast (GetIdtrLimit c)),
      W64 GUEST_IA32_DEBUGCTL (cpu_msr c IA32_DEBUGCTL),
      W32 GUEST_IA32_SYSENTER_CS (ucast (cpu_msr c IA32_SYSENTER_CS)),
      WN GUEST_IA32_SYSENTER_ESP (cpu_msr c IA32_SYSENTER_ESP),
      WN GUEST_IA32_SYSENTER_EIP (cpu_msr c IA32_SYSENTER_EIP),
      W64 VMCS_LINK_POINTER 0xFFFFFFFFFFFFFFFF, WN GUEST_PENDING_DEBUG_EXCEPTIONS 0,
      W32 GUEST_INTERRUPTIBILITY_STATE 0, W32 GUEST_ACTIVITY_STATE 0, W32 GUEST_SMBASE 0,
      WN CR4_GUEST_HOST_MASK CR4_VMXE, WN CR4_READ_SHADOW 0]"

definition VmcsSetGuestField :: "vmx_state \<Rightarrow> 'c host_cpu_scheme \<Rightarrow> 'c host_cpu_scheme" where
  "VmcsSetGuestField V c = perform_all (guest_writes V c) c"

section \<open>The host\<close>

definition host_writes :: "u64 \<Rightarrow> 'c host_cpu_scheme \<Rightarrow> vm_write list" where
  "host_writes HostCr3 c =
     [WN HOST_CR3 HostCr3, WN HOST_CR0 (cpu_cr0 c), WN HOST_CR4 (cpu_cr4 c),
      W16 HOST_CS_SELECTOR (hc_sel c SegCs AND 0xFFF8), W16 HOST_SS_SELECTOR (hc_sel c SegSs AND 0xFFF8),
      W16 HOST_DS_SELECTOR (hc_sel c SegDs AND 0xFFF8), W16 HOST_ES_SELECTOR (hc_sel c SegEs AND 0xFFF8),
      W16 HOST_FS_SELECTOR (hc_sel c SegFs AND 0xFFF8), W16 HOST_GS_SELECTOR (hc_sel c SegGs AND 0xFFF8),
      W16 HOST_TR_SELECTOR (hc_sel c SegTr AND 0xFFF8),
      WN HOST_FS_BASE (cpu_msr c IA32_FS_BASE), WN HOST_GS_BASE (cpu_msr c IA32_GS_BASE),
      WN HOST_TR_BASE (BaseFromSelector (hc_gdt c) (hc_sel c SegTr)),
      WN HOST_GDTR_BASE (GetGdtrBase c), WN HOST_IDTR_BASE (GetIdtrBase c),
      W32 HOST_IA32_SYSENTER_CS (ucast (cpu_msr c IA32_SYSENTER_CS)),
      WN HOST_IA32_SYSENTER_ESP (cpu_msr c IA32_SYSENTER_ESP),
      WN HOST_IA32_SYSENTER_EIP (cpu_msr c IA32_SYSENTER_EIP)]"

definition VmcsSetHostField :: "u64 \<Rightarrow> 'c host_cpu_scheme \<Rightarrow> 'c host_cpu_scheme" where
  "VmcsSetHostField HostCr3 c = perform_all (host_writes HostCr3 c) c"

section \<open>The controls\<close>

text \<open>
  \<open>EnableRdtscp\<close> is bit 3 of the secondary controls, \<open>EnableInvpcid\<close> 12 and
  \<open>EnableXsavesXrstors\<close> 20; \<open>SecondaryControl\<close> is bit 31 of the primary ones, \<open>Ia32eHost\<close>
  and \<open>Ia32eGuest\<close> are bit 9.
\<close>

definition control_writes :: "'c cpu_scheme \<Rightarrow> vm_write list" where
  "control_writes c =
     (let Proc2Controls = (if IsXStateSupported c then push_bit 20 1 else 0) OR
            (if IsInvpcidSupported c then push_bit 12 1 else 0) OR (if IsRdtscpSupported c then push_bit 3 1 else 0)
      in (if IsXStateSupported c then [W64 XSS_EXITING_BITMAP 0] else []) @
         [W32 VM_EXEC_CONTROLS_PIN_BASED 0, W32 VM_EXEC_CONTROLS_PROC_PRIMARY (push_bit 31 1),
          W32 VM_EXEC_CONTROLS_PROC_SECONDARY Proc2Controls,
          W32 VM_EXIT_CONTROLS (push_bit 9 1), W32 VM_ENTRY_CONTROLS (push_bit 9 1),
          W32 CR3_TARGET_COUNT 0, WN CR3_TARGET_0 0, WN CR3_TARGET_1 0, WN CR3_TARGET_2 0, WN CR3_TARGET_3 0,
          W32 VM_EXIT_MSR_STORE_COUNT 0, W32 VM_EXIT_MSR_LOAD_COUNT 0, W32 VM_ENTRY_MSR_LOAD_COUNT 0,
          W64 EXECUTIVE_VMCS_POINTER 0])"

definition VmcsSetControlField :: "'c cpu_scheme \<Rightarrow> 'c cpu_scheme" where
  "VmcsSetControlField c = perform_all (control_writes c) c"

section \<open>Where host and guest run\<close>

text \<open>The carry flag is bit 0, the zero flag bit 6; \<open>AsmHvmpExitHandler\<close> is a parameter.\<close>

definition VmcsSetCommonField :: "u64 \<Rightarrow> u64 \<Rightarrow> u64 \<Rightarrow> u64 \<Rightarrow> u64 \<Rightarrow> 'c cpu_scheme \<Rightarrow> 'c cpu_scheme" where
  "VmcsSetCommonField AsmHvmpExitHandler HostRsp Rip Rsp Flags c =
     perform_all
       [WN HOST_RSP HostRsp, WN HOST_RIP AsmHvmpExitHandler, WN GUEST_RSP Rsp, WN GUEST_RIP Rip,
        WN GUEST_RFLAGS (unset_bit 6 (unset_bit 0 Flags))] c"

section \<open>Time stamps\<close>

definition VmSetPrivilegedTimeStamp :: "'c cpu_scheme \<Rightarrow> 'c cpu_scheme" where
  "VmSetPrivilegedTimeStamp c =
     (let CurrentTsd = VmReadN c GUEST_CR4 AND CR4_TSD;
          c = writeN GUEST_CR4 (VmReadN c GUEST_CR4 OR CR4_TSD) c;
          c = writeN CR4_GUEST_HOST_MASK (VmReadN c CR4_GUEST_HOST_MASK OR CR4_TSD) c;
          c = writeN CR4_READ_SHADOW (VmReadN c CR4_READ_SHADOW AND CurrentTsd) c
      in write32 EXCEPTION_BITMAP
           (push_bit (unat VECTOR_INVALID_OPCODE_EXCEPTION) 1 OR push_bit (unat VECTOR_GENERAL_PROTECTION_EXCEPTION) 1) c)"

section \<open>The bitmap of model-specific registers\<close>

text \<open>The bitmap is one page: four arrays of 1024 bytes.\<close>

definition MSR_LOW_LAST :: u32 where "MSR_LOW_LAST = 0x1FFF"
definition MSR_HIGH_FIRST :: u32 where "MSR_HIGH_FIRST = 0xC0000000"
definition MSR_HIGH_LAST :: u32 where "MSR_HIGH_LAST = 0xC0001FFF"
definition MSR_READ_LOW_OFFSET :: nat where "MSR_READ_LOW_OFFSET = 0"
definition MSR_READ_HIGH_OFFSET :: nat where "MSR_READ_HIGH_OFFSET = MSR_READ_LOW_OFFSET + (0x1FFF - 0 + 1) div 8"
definition MSR_WRITE_LOW_OFFSET :: nat where "MSR_WRITE_LOW_OFFSET = MSR_READ_HIGH_OFFSET + (0x1FFF - 0 + 1) div 8"
definition MSR_WRITE_HIGH_OFFSET :: nat where
  "MSR_WRITE_HIGH_OFFSET = MSR_WRITE_LOW_OFFSET + (0xC0001FFF - 0xC0000000 + 1) div 8"

definition WRITE_ACCESS :: nat where "WRITE_ACCESS = 1"
definition READ_ACCESS :: nat where "READ_ACCESS = 2"

definition BITARRAY_SET :: "u8 list \<Rightarrow> nat \<Rightarrow> nat \<Rightarrow> u8 list" where
  "BITARRAY_SET a base n = a[base + n div 8 := a ! (base + n div 8) OR push_bit (n mod 8) 1]"

definition BITARRAY_CLR :: "u8 list \<Rightarrow> nat \<Rightarrow> nat \<Rightarrow> u8 list" where
  "BITARRAY_CLR a base n = a[base + n div 8 := a ! (base + n div 8) AND NOT (push_bit (n mod 8) 1)]"

text \<open>One round of the loop, for one kind of access; \<open>None\<close> when the register is in neither range.\<close>

definition msr_round :: "u8 list \<Rightarrow> u32 \<Rightarrow> nat \<Rightarrow> bool \<Rightarrow> u8 list option" where
  "msr_round MsrBitmap MsrId AccessIdx Set =
     (if MsrId \<le> MSR_LOW_LAST
      then let base = (if AccessIdx = READ_ACCESS then MSR_READ_LOW_OFFSET else MSR_WRITE_LOW_OFFSET)
           in Some ((if Set then BITARRAY_SET else BITARRAY_CLR) MsrBitmap base (unat MsrId))
      else if MSR_HIGH_FIRST \<le> MsrId \<and> MsrId \<le> MSR_HIGH_LAST
      then let base = (if AccessIdx = READ_ACCESS then MSR_READ_HIGH_OFFSET else MSR_WRITE_HIGH_OFFSET)
           in Some ((if Set then BITARRAY_SET else BITARRAY_CLR) MsrBitmap base (unat (MsrId - MSR_HIGH_FIRST)))
      else None)"

text \<open>The two rounds of the loop, in its order; \<open>Access\<close> is a mask of the kinds of access.\<close>

definition VmSetMsrBitsConfig :: "u8 list \<Rightarrow> u32 \<Rightarrow> nat \<Rightarrow> bool \<Rightarrow> ntstatus \<times> u8 list" where
  "VmSetMsrBitsConfig MsrBitmap MsrId Access Set =
     (case (if odd Access then msr_round MsrBitmap MsrId WRITE_ACCESS Set else Some MsrBitmap) of
        None \<Rightarrow> (STATUS_NOT_FOUND, MsrBitmap)
      | Some b1 \<Rightarrow>
          (case (if odd (Access div 2) then msr_round b1 MsrId READ_ACCESS Set else Some b1) of
             None \<Rightarrow> (STATUS_NOT_FOUND, b1)
           | Some b2 \<Rightarrow> (STATUS_SUCCESS, b2)))"

text \<open>\<open>MsrBitmapHpa\<close> is the physical address of the bitmap; \<open>UseMsrBitmap\<close> is bit 28.\<close>

definition VmcsSetGuestMsrExitPolicy :: "u64 \<Rightarrow> u8 list \<Rightarrow> 'c cpu_scheme \<Rightarrow> u8 list \<times> 'c cpu_scheme" where
  "VmcsSetGuestMsrExitPolicy MsrBitmapHpa MsrBitmap c =
     (let b = snd (VmSetMsrBitsConfig MsrBitmap IA32_FS_BASE WRITE_ACCESS True);
          b = snd (VmSetMsrBitsConfig b IA32_FS_BASE READ_ACCESS True);
          c = write64 MSR_BITMAP_ADDRESS MsrBitmapHpa c
      in (b, write32 VM_EXEC_CONTROLS_PROC_PRIMARY (VmRead32 c VM_EXEC_CONTROLS_PROC_PRIMARY OR push_bit 28 1) c))"

section \<open>What a sequence of writes leaves\<close>

fun field_of :: "vm_write \<Rightarrow> u32" where
  "field_of (W16 f v) = f" | "field_of (W32 f v) = f" | "field_of (W64 f v) = f" | "field_of (WN f v) = f"

fun value_of :: "(u32 \<Rightarrow> u64) \<Rightarrow> vm_write \<Rightarrow> u64" where
  "value_of msr (W16 f v) = ucast v"
| "value_of msr (W32 f v) = ucast (VmxpNormalizeControls msr f v)"
| "value_of msr (W64 f v) = v"
| "value_of msr (WN f v) = v"

fun ok_width :: "vm_write \<Rightarrow> bool" where
  "ok_width (W16 f v) \<longleftrightarrow> VMCS_FIELD_WIDTH f = WIDTH_16"
| "ok_width (W32 f v) \<longleftrightarrow> VMCS_FIELD_WIDTH f = WIDTH_32"
| "ok_width (W64 f v) \<longleftrightarrow> VMCS_FIELD_WIDTH f = WIDTH_64"
| "ok_width (WN f v) \<longleftrightarrow> VMCS_FIELD_WIDTH f = WIDTH_PLATFORM"

definition last_write :: "vm_write list \<Rightarrow> u32 \<Rightarrow> vm_write option" where
  "last_write ws f = List.find (\<lambda>w. field_of w = f) (rev ws)"

lemma vmcs_perform:
  "ok_width w \<Longrightarrow> cpu_vmcs (perform w c) f =
     (if f = field_of w \<and> supported c f then Some (value_of (cpu_msr c) w) else cpu_vmcs c f)"
  by (cases w) (auto simp: vmcs_write)

lemma perform_sel [simp]:
  "cpu_msr (perform w c) = cpu_msr c" "cpu_id (perform w c) = cpu_id c" "supported (perform w c) f = supported c f"
  "cpu_cr3 (perform w c) = cpu_cr3 c" "cpu_cr4 (perform w c) = cpu_cr4 c" "cpu.more (perform w c) = cpu.more c"
  by (cases w; simp)+

lemma perform_cr0 [simp]: "cpu_cr0 (perform w c) = cpu_cr0 c" "cpu_dr7 (perform w c) = cpu_dr7 c"
  by (cases w; simp add: vmx_write)+

lemma perform_all_sel [simp]:
  "cpu_msr (perform_all ws c) = cpu_msr c" "cpu_id (perform_all ws c) = cpu_id c"
  "supported (perform_all ws c) f = supported c f" "cpu_cr0 (perform_all ws c) = cpu_cr0 c"
  "cpu_cr3 (perform_all ws c) = cpu_cr3 c" "cpu_cr4 (perform_all ws c) = cpu_cr4 c"
  "cpu_dr7 (perform_all ws c) = cpu_dr7 c" "cpu.more (perform_all ws c) = cpu.more c"
  unfolding perform_all_def by (induction ws arbitrary: c) simp_all

lemma more_sel:
  fixes c c' :: "'c host_cpu_scheme"
  assumes "cpu.more c = cpu.more c'"
  shows "hc_sel c = hc_sel c'" "hc_gdt c = hc_gdt c'" "hc_lsl c = hc_lsl c'" "hc_gdtr c = hc_gdtr c'" "hc_idtr c = hc_idtr c'"
  using assms by (cases c; cases c'; simp)+

lemma find_append: "List.find P (xs @ ys) = (case List.find P xs of None \<Rightarrow> List.find P ys | Some x \<Rightarrow> Some x)"
  by (induction xs) auto

lemma last_write_append: "last_write (as @ bs) f = (case last_write bs f of None \<Rightarrow> last_write as f | Some w \<Rightarrow> Some w)"
  unfolding last_write_def rev_append by (rule find_append)

lemma vmcs_perform_all:
  "list_all ok_width ws \<Longrightarrow> cpu_vmcs (perform_all ws c) f =
     (case last_write ws f of Some w \<Rightarrow> if supported c f then Some (value_of (cpu_msr c) w) else None
      | None \<Rightarrow> cpu_vmcs c f)"
proof (induction ws rule: rev_induct)
  case (snoc w ws)
  then show ?case
    by (auto simp: perform_all_def last_write_def vmcs_perform supported_def
        perform_all_sel [unfolded perform_all_def, simplified] split: option.splits)
qed (simp add: perform_all_def last_write_def)

text \<open>Reading a field after the writes: the value of its last write, or what was there.\<close>

lemma read_perform_all:
  assumes "list_all ok_width ws"
  shows "VmRead16 (perform_all ws c) f = (case last_write ws f of
      Some w \<Rightarrow> if supported c f \<and> VMCS_FIELD_WIDTH f = WIDTH_16 then ucast (value_of (cpu_msr c) w) else 0
    | None \<Rightarrow> VmRead16 c f)"
    "VmRead32 (perform_all ws c) f = (case last_write ws f of
      Some w \<Rightarrow> if supported c f \<and> VMCS_FIELD_WIDTH f = WIDTH_32 then ucast (value_of (cpu_msr c) w) else 0
    | None \<Rightarrow> VmRead32 c f)"
    "VmRead64 (perform_all ws c) f = (case last_write ws f of
      Some w \<Rightarrow> if supported c f \<and> VMCS_FIELD_WIDTH f = WIDTH_64 then value_of (cpu_msr c) w else 0
    | None \<Rightarrow> VmRead64 c f)"
    "VmReadN (perform_all ws c) f = (case last_write ws f of
      Some w \<Rightarrow> if supported c f \<and> VMCS_FIELD_WIDTH f = WIDTH_PLATFORM then value_of (cpu_msr c) w else 0
    | None \<Rightarrow> VmReadN c f)"
  by (auto simp: vmx_read vmcs_perform_all [OF assms] split: option.splits)

lemma guest_writes_width: "list_all ok_width (guest_writes V c)"
  by (simp add: guest_writes_def VM_LOAD_SEGMENT_def)

lemma host_writes_width: "list_all ok_width (host_writes HostCr3 c)"
  by (simp add: host_writes_def)

lemma control_writes_width: "list_all ok_width (control_writes c)"
  by (simp add: control_writes_def Let_def)

lemmas last_guest = last_write_def guest_writes_def VM_LOAD_SEGMENT_def read_segment_def vmx_values

text \<open>The guest area holds the state of the processor \<open>c\<close>; the fourth control register is stated apart.\<close>

definition guest_mirrors :: "vmx_state \<Rightarrow> 'c host_cpu_scheme \<Rightarrow> 'c host_cpu_scheme \<Rightarrow> bool" where
  "guest_mirrors V c c' \<longleftrightarrow>
     VmReadN c' GUEST_CR3 = cpu_cr3 c \<and> VmReadN c' GUEST_CR0 = VmMakeCompliantCr0 V (cpu_cr0 c) \<and>
     VmReadN c' GUEST_DR7 = cpu_dr7 c \<and>
     (\<forall>s. case seg_fields s of (sel, base, limit, ar) \<Rightarrow>
        VmRead16 c' sel = hc_sel c s \<and>
        VmReadN c' base = (if s = SegFs then cpu_msr c IA32_FS_BASE else if s = SegGs then cpu_msr c IA32_GS_BASE
                           else BaseFromSelector (hc_gdt c) (hc_sel c s)) \<and>
        VmRead32 c' limit = hc_lsl c (hc_sel c s) \<and> VmRead32 c' ar = ArFromSelector (hc_gdt c) (hc_sel c s)) \<and>
     VmReadN c' GUEST_GDTR_BASE = GetGdtrBase c \<and> VmRead32 c' GUEST_GDTR_LIMIT = ucast (GetGdtrLimit c) \<and>
     VmReadN c' GUEST_IDTR_BASE = GetIdtrBase c \<and> VmRead32 c' GUEST_IDTR_LIMIT = ucast (GetIdtrLimit c) \<and>
     VmRead64 c' GUEST_IA32_DEBUGCTL = cpu_msr c IA32_DEBUGCTL \<and>
     VmRead32 c' GUEST_IA32_SYSENTER_CS = LOW32 (cpu_msr c IA32_SYSENTER_CS) \<and>
     VmReadN c' GUEST_IA32_SYSENTER_ESP = cpu_msr c IA32_SYSENTER_ESP \<and>
     VmReadN c' GUEST_IA32_SYSENTER_EIP = cpu_msr c IA32_SYSENTER_EIP \<and>
     VmRead64 c' VMCS_LINK_POINTER = - 1 \<and> VmReadN c' GUEST_PENDING_DEBUG_EXCEPTIONS = 0 \<and>
     VmRead32 c' GUEST_INTERRUPTIBILITY_STATE = 0 \<and> VmRead32 c' GUEST_ACTIVITY_STATE = 0"

lemma plain_guest_field [simp]:
  "field_control GUEST_GDTR_LIMIT = None" "field_control GUEST_IDTR_LIMIT = None"
  "field_control GUEST_IA32_SYSENTER_CS = None" "field_control GUEST_INTERRUPTIBILITY_STATE = None"
  "field_control GUEST_ACTIVITY_STATE = None" "field_control HOST_IA32_SYSENTER_CS = None"
  by (simp_all add: field_control_def vmx_values)

lemma plain_seg_field [simp]:
  "seg_fields s = (sel, base, limit, ar) \<Longrightarrow> field_control limit = None \<and> field_control ar = None \<and>
     VMCS_FIELD_WIDTH sel = WIDTH_16 \<and> VMCS_FIELD_WIDTH base = WIDTH_PLATFORM \<and> VMCS_FIELD_WIDTH limit = WIDTH_32 \<and>
     VMCS_FIELD_WIDTH ar = WIDTH_32"
  by (cases s) (auto simp: field_control_def vmx_values VMCS_FIELD_WIDTH_def WIDTH_16_def WIDTH_32_def WIDTH_PLATFORM_def)

lemma ucast_back16: "(ucast (ucast (d :: u16) :: u64) :: u16) = d"
  by (rule bit_word_eqI) (simp add: bit_simps)

lemma last_guest_segment:
  "seg_fields s = (sel, base, limit, ar) \<Longrightarrow>
     last_write (guest_writes V c) sel = Some (W16 sel (hc_sel c s)) \<and>
     last_write (guest_writes V c) base = Some (WN base
       (if s = SegFs then cpu_msr c IA32_FS_BASE else if s = SegGs then cpu_msr c IA32_GS_BASE
        else BaseFromSelector (hc_gdt c) (hc_sel c s))) \<and>
     last_write (guest_writes V c) limit = Some (W32 limit (hc_lsl c (hc_sel c s))) \<and>
     last_write (guest_writes V c) ar = Some (W32 ar (ArFromSelector (hc_gdt c) (hc_sel c s)))"
  by (cases s) (auto simp: last_guest)

lemma last_guest_write:
  "last_write (guest_writes V c) GUEST_CR3 = Some (WN GUEST_CR3 (cpu_cr3 c))"
  "last_write (guest_writes V c) GUEST_CR0 = Some (WN GUEST_CR0 (VmMakeCompliantCr0 V (cpu_cr0 c)))"
  "last_write (guest_writes V c) GUEST_CR4 = Some (WN GUEST_CR4 (VmMakeCompliantCr4 V (cpu_cr4 c)))"
  "last_write (guest_writes V c) GUEST_DR7 = Some (WN GUEST_DR7 (cpu_dr7 c))"
  "last_write (guest_writes V c) GUEST_GDTR_BASE = Some (WN GUEST_GDTR_BASE (GetGdtrBase c))"
  "last_write (guest_writes V c) GUEST_GDTR_LIMIT = Some (W32 GUEST_GDTR_LIMIT (ucast (GetGdtrLimit c)))"
  "last_write (guest_writes V c) GUEST_IDTR_BASE = Some (WN GUEST_IDTR_BASE (GetIdtrBase c))"
  "last_write (guest_writes V c) GUEST_IDTR_LIMIT = Some (W32 GUEST_IDTR_LIMIT (ucast (GetIdtrLimit c)))"
  "last_write (guest_writes V c) GUEST_IA32_DEBUGCTL = Some (W64 GUEST_IA32_DEBUGCTL (cpu_msr c IA32_DEBUGCTL))"
  "last_write (guest_writes V c) GUEST_IA32_SYSENTER_CS =
     Some (W32 GUEST_IA32_SYSENTER_CS (ucast (cpu_msr c IA32_SYSENTER_CS)))"
  "last_write (guest_writes V c) GUEST_IA32_SYSENTER_ESP = Some (WN GUEST_IA32_SYSENTER_ESP (cpu_msr c IA32_SYSENTER_ESP))"
  "last_write (guest_writes V c) GUEST_IA32_SYSENTER_EIP = Some (WN GUEST_IA32_SYSENTER_EIP (cpu_msr c IA32_SYSENTER_EIP))"
  "last_write (guest_writes V c) VMCS_LINK_POINTER = Some (W64 VMCS_LINK_POINTER (- 1))"
  "last_write (guest_writes V c) GUEST_PENDING_DEBUG_EXCEPTIONS = Some (WN GUEST_PENDING_DEBUG_EXCEPTIONS 0)"
  "last_write (guest_writes V c) GUEST_INTERRUPTIBILITY_STATE = Some (W32 GUEST_INTERRUPTIBILITY_STATE 0)"
  "last_write (guest_writes V c) GUEST_ACTIVITY_STATE = Some (W32 GUEST_ACTIVITY_STATE 0)"
  "last_write (guest_writes V c) CR4_GUEST_HOST_MASK = Some (WN CR4_GUEST_HOST_MASK CR4_VMXE)"
  "last_write (guest_writes V c) CR4_READ_SHADOW = Some (WN CR4_READ_SHADOW 0)"
  by (simp_all add: last_guest)

lemma VmcsSetGuestField_mirrors:
  assumes "\<forall>f. supported c f"
  shows "guest_mirrors V c (VmcsSetGuestField V c)"
proof -
  have s: "supported c f" for f using assms by simp
  note r = read_perform_all [OF guest_writes_width]
  have "case seg_fields g of (sel, base, limit, ar) \<Rightarrow>
        VmRead16 (VmcsSetGuestField V c) sel = hc_sel c g \<and>
        VmReadN (VmcsSetGuestField V c) base = (if g = SegFs then cpu_msr c IA32_FS_BASE else if g = SegGs then cpu_msr c IA32_GS_BASE
                           else BaseFromSelector (hc_gdt c) (hc_sel c g)) \<and>
        VmRead32 (VmcsSetGuestField V c) limit = hc_lsl c (hc_sel c g) \<and>
        VmRead32 (VmcsSetGuestField V c) ar = ArFromSelector (hc_gdt c) (hc_sel c g)" for g
  proof -
    obtain sel base limit ar where f: "seg_fields g = (sel, base, limit, ar)" by (cases "seg_fields g") auto
    show ?thesis using last_guest_segment [OF f, of V c] plain_seg_field [OF f]
      by (simp add: f VmcsSetGuestField_def r s ucast_back ucast_back16)
  qed
  then show ?thesis
    unfolding guest_mirrors_def
    by (simp add: VmcsSetGuestField_def r last_guest_write s ucast_back LOW32_def)
qed

text \<open>
  The host area returns to the current processor in the address space \<open>HostCr3\<close>; its
  selectors have neither a privilege level nor a local table, which the processor requires.
\<close>

definition host_returns :: "u64 \<Rightarrow> 'c host_cpu_scheme \<Rightarrow> 'c host_cpu_scheme \<Rightarrow> bool" where
  "host_returns HostCr3 c c' \<longleftrightarrow>
     VmReadN c' HOST_CR3 = HostCr3 \<and> VmReadN c' HOST_CR0 = cpu_cr0 c \<and> VmReadN c' HOST_CR4 = cpu_cr4 c \<and>
     (\<forall>(f, s) \<in> {(HOST_CS_SELECTOR, SegCs), (HOST_SS_SELECTOR, SegSs), (HOST_DS_SELECTOR, SegDs), (HOST_ES_SELECTOR, SegEs),
         (HOST_FS_SELECTOR, SegFs), (HOST_GS_SELECTOR, SegGs), (HOST_TR_SELECTOR, SegTr)}.
        VmRead16 c' f AND 7 = 0 \<and> drop_bit 3 (VmRead16 c' f) = drop_bit 3 (hc_sel c s)) \<and>
     VmReadN c' HOST_FS_BASE = cpu_msr c IA32_FS_BASE \<and> VmReadN c' HOST_GS_BASE = cpu_msr c IA32_GS_BASE \<and>
     VmReadN c' HOST_TR_BASE = BaseFromSelector (hc_gdt c) (hc_sel c SegTr) \<and>
     VmReadN c' HOST_GDTR_BASE = GetGdtrBase c \<and> VmReadN c' HOST_IDTR_BASE = GetIdtrBase c \<and>
     VmRead32 c' HOST_IA32_SYSENTER_CS = LOW32 (cpu_msr c IA32_SYSENTER_CS) \<and>
     VmReadN c' HOST_IA32_SYSENTER_ESP = cpu_msr c IA32_SYSENTER_ESP \<and>
     VmReadN c' HOST_IA32_SYSENTER_EIP = cpu_msr c IA32_SYSENTER_EIP"

lemma last_host_write:
  "last_write (host_writes h c) HOST_CR3 = Some (WN HOST_CR3 h)"
  "last_write (host_writes h c) HOST_CR0 = Some (WN HOST_CR0 (cpu_cr0 c))"
  "last_write (host_writes h c) HOST_CR4 = Some (WN HOST_CR4 (cpu_cr4 c))"
  "last_write (host_writes h c) HOST_CS_SELECTOR = Some (W16 HOST_CS_SELECTOR (hc_sel c SegCs AND 0xFFF8))"
  "last_write (host_writes h c) HOST_SS_SELECTOR = Some (W16 HOST_SS_SELECTOR (hc_sel c SegSs AND 0xFFF8))"
  "last_write (host_writes h c) HOST_DS_SELECTOR = Some (W16 HOST_DS_SELECTOR (hc_sel c SegDs AND 0xFFF8))"
  "last_write (host_writes h c) HOST_ES_SELECTOR = Some (W16 HOST_ES_SELECTOR (hc_sel c SegEs AND 0xFFF8))"
  "last_write (host_writes h c) HOST_FS_SELECTOR = Some (W16 HOST_FS_SELECTOR (hc_sel c SegFs AND 0xFFF8))"
  "last_write (host_writes h c) HOST_GS_SELECTOR = Some (W16 HOST_GS_SELECTOR (hc_sel c SegGs AND 0xFFF8))"
  "last_write (host_writes h c) HOST_TR_SELECTOR = Some (W16 HOST_TR_SELECTOR (hc_sel c SegTr AND 0xFFF8))"
  "last_write (host_writes h c) HOST_FS_BASE = Some (WN HOST_FS_BASE (cpu_msr c IA32_FS_BASE))"
  "last_write (host_writes h c) HOST_GS_BASE = Some (WN HOST_GS_BASE (cpu_msr c IA32_GS_BASE))"
  "last_write (host_writes h c) HOST_TR_BASE = Some (WN HOST_TR_BASE (BaseFromSelector (hc_gdt c) (hc_sel c SegTr)))"
  "last_write (host_writes h c) HOST_GDTR_BASE = Some (WN HOST_GDTR_BASE (GetGdtrBase c))"
  "last_write (host_writes h c) HOST_IDTR_BASE = Some (WN HOST_IDTR_BASE (GetIdtrBase c))"
  "last_write (host_writes h c) HOST_IA32_SYSENTER_CS = Some (W32 HOST_IA32_SYSENTER_CS (ucast (cpu_msr c IA32_SYSENTER_CS)))"
  "last_write (host_writes h c) HOST_IA32_SYSENTER_ESP = Some (WN HOST_IA32_SYSENTER_ESP (cpu_msr c IA32_SYSENTER_ESP))"
  "last_write (host_writes h c) HOST_IA32_SYSENTER_EIP = Some (WN HOST_IA32_SYSENTER_EIP (cpu_msr c IA32_SYSENTER_EIP))"
  by (simp_all add: last_write_def host_writes_def vmx_values)

lemma selector_mask: "(s AND 0xFFF8 :: u16) AND 7 = 0" "drop_bit 3 (s AND 0xFFF8 :: u16) = drop_bit 3 s"
proof -
  have m: "(0xFFF8 :: u16) = NOT (mask 3)" by (simp add: mask_eq_exp_minus_1)
  have m7: "(7 :: u16) = mask 3" by (simp add: mask_eq_exp_minus_1)
  show "(s AND 0xFFF8 :: u16) AND 7 = 0" unfolding m m7 by (rule bit_word_eqI) (simp add: bit_simps)
  show "drop_bit 3 (s AND 0xFFF8 :: u16) = drop_bit 3 s" unfolding m
    by (rule bit_word_eqI) (auto simp: bit_simps dest: bit_imp_le_length)
qed

lemma VmcsSetHostField_returns:
  assumes "\<forall>f. supported c f"
  shows "host_returns HostCr3 c (VmcsSetHostField HostCr3 c)"
proof -
  have s: "supported c f" for f using assms by simp
  show ?thesis
    by (simp add: host_returns_def VmcsSetHostField_def read_perform_all [OF host_writes_width] last_host_write s
        ucast_back ucast_back16 selector_mask selector_mask(2) [simplified] LOW32_def)
qed

section \<open>Controls the processor accepts\<close>

text \<open>The settings of a control field, and whether they apply: the secondary ones may not exist.\<close>

definition control_caps :: "(u32 \<Rightarrow> u64) \<Rightarrow> u32 \<Rightarrow> u64" where
  "control_caps msr VmxMsr = msr (control_msr msr VmxMsr)"

definition control_exists :: "(u32 \<Rightarrow> u64) \<Rightarrow> u32 \<Rightarrow> bool" where
  "control_exists msr VmxMsr \<longleftrightarrow> VmxMsr = IA32_VMX_PROC_SECONDARY_CTLS \<longrightarrow> bit (VmxAllowed msr IA32_VMX_PROC_PRIMARY_CTLS) 31"

lemma normalize_conforms:
  assumes "field_control f = Some m" "control_exists msr m"
    "fixed_pair (LOW32 (control_caps msr m)) (HIGH32 (control_caps msr m))"
  shows "conforms (LOW32 (control_caps msr m)) (HIGH32 (control_caps msr m)) (VmxpNormalizeControls msr f d)"
  using assms compliant_conforms [OF assms(3), of d] compliant_normal [OF assms(3), of d]
  by (auto simp: VmxpNormalizeControls_def control_exists_def control_caps_def Let_def)

definition control_fields :: "u32 set" where
  "control_fields = {VM_EXEC_CONTROLS_PIN_BASED, VM_EXEC_CONTROLS_PROC_PRIMARY, VM_EXEC_CONTROLS_PROC_SECONDARY,
     VM_EXIT_CONTROLS, VM_ENTRY_CONTROLS}"

lemma last_control_write:
  "last_write (control_writes c) VM_EXEC_CONTROLS_PIN_BASED = Some (W32 VM_EXEC_CONTROLS_PIN_BASED 0)"
  "last_write (control_writes c) VM_EXEC_CONTROLS_PROC_PRIMARY = Some (W32 VM_EXEC_CONTROLS_PROC_PRIMARY (push_bit 31 1))"
  "last_write (control_writes c) VM_EXEC_CONTROLS_PROC_SECONDARY = Some (W32 VM_EXEC_CONTROLS_PROC_SECONDARY
     ((if IsXStateSupported c then push_bit 20 1 else 0) OR
      (if IsInvpcidSupported c then push_bit 12 1 else 0) OR (if IsRdtscpSupported c then push_bit 3 1 else 0)))"
  "last_write (control_writes c) VM_EXIT_CONTROLS = Some (W32 VM_EXIT_CONTROLS (push_bit 9 1))"
  "last_write (control_writes c) VM_ENTRY_CONTROLS = Some (W32 VM_ENTRY_CONTROLS (push_bit 9 1))"
  by (simp_all add: last_write_def control_writes_def vmx_values Let_def)

section \<open>Time stamps\<close>

lemma tsd_fields_differ [simp]:
  "GUEST_CR4 \<noteq> CR4_GUEST_HOST_MASK" "GUEST_CR4 \<noteq> CR4_READ_SHADOW" "CR4_GUEST_HOST_MASK \<noteq> GUEST_CR4"
  "CR4_READ_SHADOW \<noteq> GUEST_CR4" "CR4_GUEST_HOST_MASK \<noteq> CR4_READ_SHADOW" "CR4_READ_SHADOW \<noteq> CR4_GUEST_HOST_MASK"
  by (simp_all add: vmx_values)

lemma bit_CR4_TSD: "bit CR4_TSD i \<longleftrightarrow> i = 2"
  unfolding CR4_TSD_def by (subst bit_push_bit_iff) (auto simp: bit_1_iff)

lemma bit_CR4_VMXE: "bit CR4_VMXE i \<longleftrightarrow> i = 13"
  unfolding CR4_VMXE_def by (subst bit_push_bit_iff) (auto simp: bit_1_iff)

lemma privileged_reads:
  assumes "supported c GUEST_CR4" "supported c CR4_GUEST_HOST_MASK" "supported c CR4_READ_SHADOW"
  shows "VmReadN (VmSetPrivilegedTimeStamp c) GUEST_CR4 = VmReadN c GUEST_CR4 OR CR4_TSD"
    "VmReadN (VmSetPrivilegedTimeStamp c) CR4_GUEST_HOST_MASK = VmReadN c CR4_GUEST_HOST_MASK OR CR4_TSD"
    "VmReadN (VmSetPrivilegedTimeStamp c) CR4_READ_SHADOW = VmReadN c CR4_READ_SHADOW AND VmReadN c GUEST_CR4 AND CR4_TSD"
  using assms by (simp_all add: VmSetPrivilegedTimeStamp_def Let_def)

lemma privileged_exceptions:
  "supported c EXCEPTION_BITMAP \<Longrightarrow> VmRead32 (VmSetPrivilegedTimeStamp c) EXCEPTION_BITMAP = 0x2040"
  by (simp add: VmSetPrivilegedTimeStamp_def Let_def VECTOR_INVALID_OPCODE_EXCEPTION_def
      VECTOR_GENERAL_PROTECTION_EXCEPTION_def)

text \<open>
  After the fields of the guest are set and time stamps are made privileged, every
  time stamp read traps to the hypervisor (the bit is set and owned by it, and both exceptions
  are intercepted), while the guest reads back its control register without that bit and
  without the one that enables virtualisation: it does so even if it had itself disabled time
  stamps, since the shadow starts as 0 and is only ever masked.\<close>
theorem privileged_time_stamp:
  assumes "\<forall>f. supported c f"
  shows "let c1 = VmSetPrivilegedTimeStamp (VmcsSetGuestField V c); cr4 = VmMakeCompliantCr4 V (cpu_cr4 c)
    in VmReadN c1 GUEST_CR4 = cr4 OR CR4_TSD \<and> bit (VmReadN c1 CR4_GUEST_HOST_MASK) 2 \<and>
       VmRead32 c1 EXCEPTION_BITMAP = 0x2040 \<and>
       VmGetGuestVisibleCr4 c1 (VmReadN c1 GUEST_CR4) = cr4 AND NOT (CR4_TSD OR CR4_VMXE)"
proof -
  let ?g = "VmcsSetGuestField V c"
  have s: "supported c f" "supported ?g f" for f using assms by (simp_all add: VmcsSetGuestField_def)
  have r: "VmReadN ?g GUEST_CR4 = VmMakeCompliantCr4 V (cpu_cr4 c)" "VmReadN ?g CR4_GUEST_HOST_MASK = CR4_VMXE"
    "VmReadN ?g CR4_READ_SHADOW = 0"
    by (simp_all add: VmcsSetGuestField_def read_perform_all [OF guest_writes_width] last_guest_write s)
  have v: "((x OR CR4_TSD) AND NOT (CR4_VMXE OR CR4_TSD)) OR (0 AND (CR4_VMXE OR CR4_TSD)) = x AND NOT (CR4_TSD OR CR4_VMXE)" for x
    by (rule bit_word_eqI) (auto simp: bit_simps bit_CR4_TSD bit_CR4_VMXE)
  show ?thesis
    unfolding Let_def VmGetGuestVisibleCr4_def privileged_reads [OF s(2) s(2) s(2)] r privileged_exceptions [OF s(2)]
    using v [of "VmMakeCompliantCr4 V (cpu_cr4 c)"] by (simp add: bit_simps bit_CR4_TSD)
qed

definition example_host :: host_cpu where
  "example_host = \<lparr>cpu_vmcs = (\<lambda>_. Some 0), cpu_msr = (\<lambda>_. 0xFFFFFFFF00000000), cpu_id = (\<lambda>_ _. (0, 0, 0, 0)),
     cpu_cr0 = 0x80050033, cpu_cr3 = 0x1AD000, cpu_cr4 = 0x406FC, cpu_dr7 = 0x400,
     hc_sel = (\<lambda>_. 0x10), hc_gdt = (\<lambda>_. 0x00209B0000000000), hc_lsl = (\<lambda>_. 0xFFFFF),
     hc_gdtr = \<lparr>dt_Limit = 0x57, dt_Base = 0xFFFFF80000001000\<rparr>, hc_idtr = \<lparr>dt_Limit = 0xFFF, dt_Base = 0xFFFFF80000002000\<rparr>\<rparr>"

theorem privileged_time_stamp_witness:
  "bit (cpu_cr4 example_host) 2 \<and>
   \<not> bit (let c1 = VmSetPrivilegedTimeStamp (VmcsSetGuestField (VmInitializeVmState (cpu_msr example_host)) example_host)
         in VmGetGuestVisibleCr4 c1 (VmReadN c1 GUEST_CR4)) 2"
proof -
  have "\<forall>f. supported example_host f" by (simp add: example_host_def supported_def)
  from privileged_time_stamp [OF this, of "VmInitializeVmState (cpu_msr example_host)"]
  have "let c1 = VmSetPrivilegedTimeStamp (VmcsSetGuestField (VmInitializeVmState (cpu_msr example_host)) example_host)
    in VmGetGuestVisibleCr4 c1 (VmReadN c1 GUEST_CR4) =
       VmMakeCompliantCr4 (VmInitializeVmState (cpu_msr example_host)) (cpu_cr4 example_host) AND NOT (CR4_TSD OR CR4_VMXE)"
    unfolding Let_def by blast
  then show ?thesis unfolding Let_def by (simp add: bit_simps bit_CR4_TSD) (simp add: example_host_def)
qed

section \<open>The bitmap of model-specific registers\<close>

text \<open>
  How the processor uses the bitmap: the register selects a bit of one of four arrays, for
  reads and writes of the low and of the high range; other registers always exit.
\<close>

definition msr_exits :: "u8 list \<Rightarrow> bool \<Rightarrow> u32 \<Rightarrow> bool" where
  "msr_exits b write reg =
     (if reg \<le> 0x1FFF then bit (b ! ((if write then 2048 else 0) + unat reg div 8)) (unat reg mod 8)
      else if 0xC0000000 \<le> reg \<and> reg \<le> 0xC0001FFF
      then bit (b ! ((if write then 3072 else 1024) + unat (reg - 0xC0000000) div 8)) (unat (reg - 0xC0000000) mod 8)
      else True)"

definition msr_in_range :: "u32 \<Rightarrow> bool" where
  "msr_in_range reg \<longleftrightarrow> reg \<le> 0x1FFF \<or> 0xC0000000 \<le> reg \<and> reg \<le> 0xC0001FFF"

text \<open>A register as the array and the bit that stand for it.\<close>

definition msr_slot :: "bool \<Rightarrow> u32 \<Rightarrow> nat \<times> nat" where
  "msr_slot write reg = (if reg \<le> 0x1FFF then (if write then 2048 else 0, unat reg)
     else (if write then 3072 else 1024, unat (reg - 0xC0000000)))"

definition bitarray_bit :: "u8 list \<Rightarrow> nat \<Rightarrow> nat \<Rightarrow> bool" where
  "bitarray_bit a base n \<longleftrightarrow> bit (a ! (base + n div 8)) (n mod 8)"

lemma bitarray_update:
  assumes "base + n div 8 < List.length a"
  shows "bitarray_bit (BITARRAY_SET a base n) base' m \<longleftrightarrow>
      (if base' + m div 8 = base + n div 8 \<and> m mod 8 = n mod 8 then True else bitarray_bit a base' m)"
    "bitarray_bit (BITARRAY_CLR a base n) base' m \<longleftrightarrow>
      (if base' + m div 8 = base + n div 8 \<and> m mod 8 = n mod 8 then False else bitarray_bit a base' m)"
  using assms by (auto simp: bitarray_bit_def BITARRAY_SET_def BITARRAY_CLR_def nth_list_update bit_simps)

lemma msr_slot_bound:
  assumes "msr_in_range reg"
  shows "fst (msr_slot w reg) \<in> {0, 1024, 2048, 3072}" "snd (msr_slot w reg) < 8192"
proof -
  show "fst (msr_slot w reg) \<in> {0, 1024, 2048, 3072}" by (simp add: msr_slot_def)
  show "snd (msr_slot w reg) < 8192"
  proof (cases "reg \<le> 0x1FFF")
    case True
    then show ?thesis by (simp add: msr_slot_def word_le_nat_alt)
  next
    case False
    then have r: "0xC0000000 \<le> reg" "reg \<le> 0xC0001FFF" using assms by (auto simp: msr_in_range_def)
    then have "unat (reg - 0xC0000000) = unat reg - 0xC0000000" by (simp add: unat_sub)
    then show ?thesis using False r by (simp add: msr_slot_def word_le_nat_alt)
  qed
qed

lemma msr_exits_slot: "msr_in_range reg \<Longrightarrow> msr_exits b w reg = bitarray_bit b (fst (msr_slot w reg)) (snd (msr_slot w reg))"
  by (auto simp: msr_exits_def msr_in_range_def msr_slot_def bitarray_bit_def)

lemma msr_slot_inj:
  assumes "msr_in_range r1" "msr_in_range r2"
    "fst (msr_slot w1 r1) + snd (msr_slot w1 r1) div 8 = fst (msr_slot w2 r2) + snd (msr_slot w2 r2) div 8"
    "snd (msr_slot w1 r1) mod 8 = snd (msr_slot w2 r2) mod 8"
  shows "r1 = r2 \<and> w1 = w2"
proof -
  have d: "snd (msr_slot w1 r1) div 8 < 1024" "snd (msr_slot w2 r2) div 8 < 1024"
    using msr_slot_bound(2) [OF assms(1), of w1] msr_slot_bound(2) [OF assms(2), of w2] by simp_all
  with msr_slot_bound(1) [OF assms(1), of w1] msr_slot_bound(1) [OF assms(2), of w2] assms(3)
  have b: "fst (msr_slot w1 r1) = fst (msr_slot w2 r2)" by auto
  with assms(3) have "snd (msr_slot w1 r1) div 8 = snd (msr_slot w2 r2) div 8" by simp
  then have n: "snd (msr_slot w1 r1) = snd (msr_slot w2 r2)"
    using assms(4) by (metis div_mult_mod_eq)
  have h: "unat r1 = unat r2" if "\<not> r1 \<le> 0x1FFF" "\<not> r2 \<le> 0x1FFF"
  proof -
    have "0xC0000000 \<le> r1" "0xC0000000 \<le> r2" using assms(1,2) that by (auto simp: msr_in_range_def)
    then show ?thesis using n that by (auto simp: msr_slot_def unat_sub word_le_nat_alt)
  qed
  show ?thesis using b n h by (auto simp: msr_slot_def word_unat_eq_iff [of r1 r2] split: if_splits)
qed

lemma msr_round_slot:
  assumes "a = WRITE_ACCESS \<or> a = READ_ACCESS"
  shows "msr_round b reg a S = (if msr_in_range reg
     then Some ((if S then BITARRAY_SET else BITARRAY_CLR) b (fst (msr_slot (a = WRITE_ACCESS) reg)) (snd (msr_slot (a = WRITE_ACCESS) reg)))
     else None)"
  using assms
  by (auto simp: msr_round_def msr_in_range_def msr_slot_def WRITE_ACCESS_def READ_ACCESS_def MSR_LOW_LAST_def
      MSR_HIGH_FIRST_def MSR_HIGH_LAST_def MSR_READ_LOW_OFFSET_def MSR_READ_HIGH_OFFSET_def MSR_WRITE_LOW_OFFSET_def
      MSR_WRITE_HIGH_OFFSET_def)

lemma msr_round_exits:
  assumes "msr_in_range reg" "List.length b = 4096" "a = WRITE_ACCESS \<or> a = READ_ACCESS"
  obtains b' where "msr_round b reg a S = Some b'" "List.length b' = 4096"
    "\<And>w r. msr_in_range r \<Longrightarrow> msr_exits b' w r = (if r = reg \<and> w = (a = WRITE_ACCESS) then S else msr_exits b w r)"
proof -
  let ?w = "a = WRITE_ACCESS"
  let ?b = "(if S then BITARRAY_SET else BITARRAY_CLR) b (fst (msr_slot ?w reg)) (snd (msr_slot ?w reg))"
  have "fst (msr_slot ?w reg) + snd (msr_slot ?w reg) div 8 < 4096"
    using msr_slot_bound [OF assms(1), of ?w] by auto
  then have l: "fst (msr_slot ?w reg) + snd (msr_slot ?w reg) div 8 < List.length b" using assms(2) by simp
  have "msr_exits ?b w r = (if r = reg \<and> w = ?w then S else msr_exits b w r)" if r: "msr_in_range r" for w r
  proof -
    have "(fst (msr_slot w r) + snd (msr_slot w r) div 8 = fst (msr_slot ?w reg) + snd (msr_slot ?w reg) div 8 \<and>
        snd (msr_slot w r) mod 8 = snd (msr_slot ?w reg) mod 8) = (r = reg \<and> w = ?w)"
      using msr_slot_inj [OF r assms(1), of w ?w] by blast
    with bitarray_update [OF l, of "fst (msr_slot w r)" "snd (msr_slot w r)"] show ?thesis
      unfolding msr_exits_slot [OF r] by (cases S) simp_all
  qed
  moreover have "List.length ?b = 4096" using assms(2) by (simp add: BITARRAY_SET_def BITARRAY_CLR_def)
  ultimately show ?thesis using that msr_round_slot [OF assms(3), of b reg S] assms(1) by (cases S) simp_all
qed

text \<open>
  \<open>VmSetMsrBitsConfig\<close> makes exactly the accesses it is asked for exit or not exit, as
  the processor reads the bitmap, and leaves every other register and kind of access alone;
  a register outside both ranges is refused without a change.\<close>
theorem msr_bitmap_exact:
  assumes "List.length b = 4096" "Access \<in> {0, WRITE_ACCESS, READ_ACCESS, WRITE_ACCESS + READ_ACCESS}"
    "VmSetMsrBitsConfig b reg Access S = (Status, b')"
  shows "List.length b' = 4096 \<and>
    (if msr_in_range reg \<or> Access = 0
     then Status = STATUS_SUCCESS \<and> (\<forall>w r. msr_in_range r \<longrightarrow>
       msr_exits b' w r = (if r = reg \<and> (if w then odd Access else odd (Access div 2)) then S else msr_exits b w r))
     else Status = STATUS_NOT_FOUND \<and> b' = b)"
proof (cases "msr_in_range reg")
  case True
  obtain b1 where b1: "(if odd Access then msr_round b reg WRITE_ACCESS S else Some b) = Some b1" "List.length b1 = 4096"
    "\<And>w r. msr_in_range r \<Longrightarrow> msr_exits b1 w r = (if r = reg \<and> w \<and> odd Access then S else msr_exits b w r)"
    using msr_round_exits [where a = WRITE_ACCESS and S = S, OF True assms(1)] assms(1) by - (cases "odd Access"; auto)
  obtain b2 where b2: "(if odd (Access div 2) then msr_round b1 reg READ_ACCESS S else Some b1) = Some b2" "List.length b2 = 4096"
    "\<And>w r. msr_in_range r \<Longrightarrow> msr_exits b2 w r = (if r = reg \<and> \<not> w \<and> odd (Access div 2) then S else msr_exits b1 w r)"
  proof -
    have "(READ_ACCESS = WRITE_ACCESS) = False" by (simp add: READ_ACCESS_def WRITE_ACCESS_def)
    then show ?thesis
      using that msr_round_exits [where a = READ_ACCESS and S = S, OF True b1(2)] b1(2) by - (cases "odd (Access div 2)"; auto)
  qed
  have "Status = STATUS_SUCCESS" "b' = b2" using assms(3) by (simp_all add: VmSetMsrBitsConfig_def b1(1) b2(1))
  then show ?thesis using b2(2,3) b1(3) True by auto
next
  case False
  then have "msr_round b1 reg a S = None" if "a = WRITE_ACCESS \<or> a = READ_ACCESS" for a b1
    using msr_round_slot [OF that, of b1 reg S] by simp
  then show ?thesis using assms False
    by (auto simp: VmSetMsrBitsConfig_def WRITE_ACCESS_def READ_ACCESS_def split: if_splits)
qed

theorem msr_bitmap_exact_witness:
  "let b' = snd (VmSetMsrBitsConfig (replicate 4096 0) IA32_FS_BASE WRITE_ACCESS True)
   in msr_exits b' True IA32_FS_BASE \<and> \<not> msr_exits b' False IA32_FS_BASE \<and> \<not> msr_exits b' True IA32_GS_BASE"
proof -
  let ?r = "VmSetMsrBitsConfig (replicate 4096 0) IA32_FS_BASE WRITE_ACCESS True"
  have d: "IA32_GS_BASE \<noteq> IA32_FS_BASE" "msr_in_range IA32_FS_BASE" "msr_in_range IA32_GS_BASE"
    by (simp_all add: IA32_FS_BASE_def IA32_GS_BASE_def msr_in_range_def)
  have z: "\<not> msr_exits (replicate 4096 0) w r" if "msr_in_range r" for w r
    using msr_slot_bound [OF that, of w] by (auto simp: msr_exits_slot [OF that] bitarray_bit_def)
  have a: "WRITE_ACCESS \<in> {0, WRITE_ACCESS, READ_ACCESS, WRITE_ACCESS + READ_ACCESS}" by simp
  have e: "?r = (fst ?r, snd ?r)" by simp
  from msr_bitmap_exact [OF _ a e] have "msr_exits (snd ?r) w r =
      (if r = IA32_FS_BASE \<and> (if w then odd WRITE_ACCESS else odd (WRITE_ACCESS div 2)) then True
       else msr_exits (replicate 4096 0) w r)" if "msr_in_range r" for w r
    using d that by simp
  then show ?thesis using d z by (simp add: WRITE_ACCESS_def)
qed

end
