(* ===== verification/Mmu.thy ===== *)
theory Mmu
  imports Prelude
begin

text \<open>
  Page tables as \<open>src/mmu.c\<close> and \<open>src/mmu.h\<close> see them in the 64-bit build: the indices of
  an address, the page table entry that maps it in the self-referencing window, and the
  inverse of that map.  Everything is a 64-bit word; the lemmas work bit by bit.
\<close>

section \<open>Indices and entries\<close>

definition PTE_VALID :: u64 where "PTE_VALID = 1"
definition PTE_RW :: u64 where "PTE_RW = push_bit 1 1"
definition PTE_PWT :: u64 where "PTE_PWT = push_bit 3 1"
definition PTE_PCD :: u64 where "PTE_PCD = push_bit 4 1"
definition PTE_ACCESSED :: u64 where "PTE_ACCESSED = push_bit 5 1"
definition PTE_DIRTY :: u64 where "PTE_DIRTY = push_bit 6 1"
definition PDE_PSE :: u64 where "PDE_PSE = push_bit 7 1"
definition PAGE_CACHE_UC :: u64 where "PAGE_CACHE_UC = PTE_PCD OR PTE_PWT"
definition PTE64_PFN_MASK :: u64 where "PTE64_PFN_MASK = 0x000FFFFFFFFFF000"
definition DefaultPte :: u64 where "DefaultPte = PTE_VALID OR PTE_RW OR PTE_DIRTY OR PTE_ACCESSED"
definition ZeroPte :: u64 where "ZeroPte = 0"

definition VA_BITS :: nat where "VA_BITS = 48"
definition VA_BITS_LA57 :: nat where "VA_BITS_LA57 = 57"
definition PZI_SHIFT :: nat where "PZI_SHIFT = 48"
definition PXI_SHIFT :: nat where "PXI_SHIFT = 39"
definition PTI_SHIFT :: nat where "PTI_SHIFT = 12"
definition PTE_SHIFT :: nat where "PTE_SHIFT = 3"
definition VA_MASK :: u64 where "VA_MASK = push_bit VA_BITS 1 - 1"
definition VA_MASK_LA57 :: u64 where "VA_MASK_LA57 = push_bit VA_BITS_LA57 1 - 1"

definition MmuGetPzeIndex :: "u64 \<Rightarrow> u64" where
  "MmuGetPzeIndex va = drop_bit PZI_SHIFT va AND (push_bit 9 1 - 1)"

definition MmuGetPxeIndex :: "u64 \<Rightarrow> u64" where
  "MmuGetPxeIndex va = drop_bit PXI_SHIFT va AND (push_bit 9 1 - 1)"

definition MmupCreatePte :: "u64 \<Rightarrow> u64 \<Rightarrow> u64" where
  "MmupCreatePte PhysicalAddress PteContents = (PhysicalAddress AND PTE64_PFN_MASK) OR PteContents"

definition MmuGetPagingLevels :: nat where "MmuGetPagingLevels = 4"

definition MmuGetPageEntrySize :: nat where "MmuGetPageEntrySize = 8"

definition MmuGetNumberOfPageEntries :: nat where "MmuGetNumberOfPageEntries = 512"

definition MmuGetPmlIndexFromOffset :: "u32 \<Rightarrow> u16" where
  "MmuGetPmlIndexFromOffset offset = ucast (offset div 8)"

definition MmuAddressToPti :: "nat \<Rightarrow> u64 \<Rightarrow> u64" where
  "MmuAddressToPti Level Address = drop_bit (PTI_SHIFT + 9 * (Level - 1)) Address AND 0x1FF"

definition MmuIsUserModeAddress :: "u64 \<Rightarrow> bool" where
  "MmuIsUserModeAddress va \<longleftrightarrow> va \<le> 0x00007FFFFFFFFFFF"

definition MmuIsKernelModeAddress :: "u64 \<Rightarrow> bool" where
  "MmuIsKernelModeAddress va \<longleftrightarrow> 0xFFFF800000000000 \<le> va"

definition MmuIsInvalidAddress :: "u64 \<Rightarrow> bool" where
  "MmuIsInvalidAddress va \<longleftrightarrow> \<not> MmuIsUserModeAddress va \<and> \<not> MmuIsKernelModeAddress va"

section \<open>The window of page table entries\<close>

text \<open>The fields of \<open>gMmu\<close> that the window needs.\<close>

record mmu_globals =
  mm_SelfMapPmlIndex :: u64
  mm_LowerBound :: u64
  mm_UpperBound :: u64
  mm_La57Enabled :: bool
  mm_PteBase :: u64

definition CR4_LA57 :: u64 where "CR4_LA57 = push_bit 12 1"

definition MmuIsLa57Enabled :: "u64 \<Rightarrow> bool" where
  "MmuIsLa57Enabled cr4 \<longleftrightarrow> cr4 AND CR4_LA57 \<noteq> 0"

text \<open>\<open>va_of_pa\<close> is \<open>MmGetVirtualForPhysical\<close>: where the top-level table is mapped.\<close>

definition MmuGetSelfMapPmlIndex :: "(u64 \<Rightarrow> u64) \<Rightarrow> u64 \<Rightarrow> bool \<Rightarrow> u64" where
  "MmuGetSelfMapPmlIndex va_of_pa cr3 La57Enabled =
     (let Cr3 = cr3 AND 0xFFFFFFFFFFFFF000
      in if La57Enabled then MmuGetPzeIndex (va_of_pa Cr3) else MmuGetPxeIndex (va_of_pa Cr3))"

definition MmuAddressToPte :: "mmu_globals \<Rightarrow> u64 \<Rightarrow> u64" where
  "MmuAddressToPte g Address =
     (drop_bit (PTI_SHIFT - 3) Address OR mm_LowerBound g) AND mm_UpperBound g"

text \<open>Arithmetic shifts of the signed address.\<close>

definition MmuPteToAddress :: "u64 \<Rightarrow> u64" where
  "MmuPteToAddress PointerPte = signed_drop_bit 16 (push_bit 25 PointerPte)"

definition MmuInitializeMmuGlobals :: "(u64 \<Rightarrow> u64) \<Rightarrow> u64 \<Rightarrow> u64 \<Rightarrow> mmu_globals" where
  "MmuInitializeMmuGlobals va_of_pa cr3 cr4 =
     (let la57 = MmuIsLa57Enabled cr4;
          i = MmuGetSelfMapPmlIndex va_of_pa cr3 la57;
          lower = (if la57 then push_bit PZI_SHIFT i OR push_bit VA_BITS_LA57 0xFE
                   else push_bit PXI_SHIFT i OR push_bit VA_BITS 0xFFFF);
          upper = (if la57 then (lower + 0x1000000000000 - 1) AND 0xFFFFFFFFFFFFFFF8
                   else (lower + 0x8000000000 - 1) AND 0xFFFFFFFFFFFFFFF8);
          g = \<lparr>mm_SelfMapPmlIndex = i, mm_LowerBound = lower, mm_UpperBound = upper,
               mm_La57Enabled = la57, mm_PteBase = 0\<rparr>
      in g\<lparr>mm_PteBase := MmuAddressToPte g 0\<rparr>)"

text \<open>
  \<open>MmuGetPteBase\<close> finds the window from one known entry; \<open>probe\<close> and \<open>mdl\<close> are the two
  allocations and \<open>PointerPte\<close> is \<open>MmuFindPteForMdl\<close> (0 when it fails).
\<close>

definition MmuGetPteBase :: "mmu_globals \<Rightarrow> u64 \<Rightarrow> bool \<Rightarrow> u64 \<Rightarrow> u64" where
  "MmuGetPteBase g ProbeVa mdl PointerPte =
     (if ProbeVa = 0 then 0
      else if \<not> mdl then 0
      else if PointerPte = 0 then 0
      else let va = ProbeVa AND (if mm_La57Enabled g then VA_MASK_LA57 else VA_MASK)
           in PointerPte - push_bit PTE_SHIFT (drop_bit PTI_SHIFT va))"

definition MmuAddressIsInPagingRange :: "mmu_globals \<Rightarrow> u64 \<Rightarrow> bool" where
  "MmuAddressIsInPagingRange g address \<longleftrightarrow>
     MmuAddressToPte g 0 \<le> address \<and> address \<le> MmuAddressToPte g (- 1)"

section \<open>Lemmas\<close>

named_theorems mmu_defs

lemmas [mmu_defs] = PZI_SHIFT_def PXI_SHIFT_def PTI_SHIFT_def PTE_SHIFT_def VA_BITS_def VA_BITS_LA57_def

lemma const_masks:
  "(0xFFFFFFFFFFFFFFF8 :: u64) = NOT (mask 3)" "(0xFFFF :: u64) = mask 16" "push_bit 57 (0xFE :: u64) = push_bit 58 (mask 6)"
  "(0x1FF :: u64) = mask 9" "(0x8000000000 - 1 :: u64) = mask 39" "(0x1000000000000 - 1 :: u64) = mask 48"
  "(push_bit 9 1 - 1 :: u64) = mask 9" "(0xFFFFFFFFFFFFF000 :: u64) = NOT (mask 12)" "(0xFFF :: u64) = mask 12"
  by (simp_all add: mask_eq_exp_minus_1 word_not_def push_bit_eq_mult)

lemma PFN_MASK_mask: "PTE64_PFN_MASK = push_bit 12 (mask 40)"
  by (simp add: PTE64_PFN_MASK_def mask_eq_exp_minus_1 push_bit_eq_mult)

text \<open>The window's bounds, bit by bit.\<close>

lemma add_mask:
  assumes "\<And>n. n < k \<Longrightarrow> \<not> bit (a :: u64) n"
  shows "a + mask k = a OR mask k"
  by (rule disjunctive_add_eq_or) (auto simp: bit_eq_iff bit_simps assms)

lemma la57_bit: "MmuIsLa57Enabled cr4 \<longleftrightarrow> bit cr4 12"
  by (simp only: MmuIsLa57Enabled_def CR4_LA57_def push_bit_of_1 and_exp_eq_0_iff_not_bit not_not)

lemma window_bounds:
  assumes "g = MmuInitializeMmuGlobals va_of_pa cr3 cr4"
  shows "mm_La57Enabled g \<longleftrightarrow> bit cr4 12"
    "\<not> bit cr4 12 \<Longrightarrow> bit (mm_LowerBound g) n \<longleftrightarrow>
      (39 \<le> n \<and> n < 48 \<and> bit (mm_SelfMapPmlIndex g) (n - 39)) \<or> (48 \<le> n \<and> n < 64)"
    "\<not> bit cr4 12 \<Longrightarrow> bit (mm_UpperBound g) n \<longleftrightarrow>
      (3 \<le> n \<and> n < 39) \<or> (39 \<le> n \<and> n < 48 \<and> bit (mm_SelfMapPmlIndex g) (n - 39)) \<or> (48 \<le> n \<and> n < 64)"
    "bit cr4 12 \<Longrightarrow> bit (mm_LowerBound g) n \<longleftrightarrow>
      (48 \<le> n \<and> n < 57 \<and> bit (mm_SelfMapPmlIndex g) (n - 48)) \<or> (58 \<le> n \<and> n < 64)"
    "bit cr4 12 \<Longrightarrow> bit (mm_UpperBound g) n \<longleftrightarrow>
      (3 \<le> n \<and> n < 48) \<or> (48 \<le> n \<and> n < 57 \<and> bit (mm_SelfMapPmlIndex g) (n - 48)) \<or> (58 \<le> n \<and> n < 64)"
    "mm_PteBase g = MmuAddressToPte g 0" "9 \<le> n \<Longrightarrow> \<not> bit (mm_SelfMapPmlIndex g) n"
proof -
  let ?i = "mm_SelfMapPmlIndex g"
  show la: "mm_La57Enabled g \<longleftrightarrow> bit cr4 12"
    by (simp add: assms MmuInitializeMmuGlobals_def Let_def la57_bit)
  have i: "\<not> bit ?i m" if "9 \<le> m" for m
    using that by (simp add: assms MmuInitializeMmuGlobals_def Let_def MmuGetSelfMapPmlIndex_def MmuGetPzeIndex_def
        MmuGetPxeIndex_def const_masks bit_simps)
  show "9 \<le> n \<Longrightarrow> \<not> bit ?i n" by (rule i)
  show "mm_PteBase g = MmuAddressToPte g 0"
    by (simp add: assms MmuInitializeMmuGlobals_def Let_def MmuAddressToPte_def)
  have l4: "mm_LowerBound g = push_bit 39 ?i OR push_bit 48 (mask 16)"
    and u4: "mm_UpperBound g = (mm_LowerBound g + mask 39) AND NOT (mask 3)" if "\<not> bit cr4 12"
    using that la unfolding const_masks [symmetric]
    by (simp_all add: assms MmuInitializeMmuGlobals_def Let_def mmu_defs algebra_simps)
  have l5: "mm_LowerBound g = push_bit 48 ?i OR push_bit 58 (mask 6)"
    and u5: "mm_UpperBound g = (mm_LowerBound g + mask 48) AND NOT (mask 3)" if "bit cr4 12"
    using that la unfolding const_masks [symmetric]
    by (simp_all add: assms MmuInitializeMmuGlobals_def Let_def mmu_defs algebra_simps)
  show b4: "bit (mm_LowerBound g) n \<longleftrightarrow>
      (39 \<le> n \<and> n < 48 \<and> bit ?i (n - 39)) \<or> (48 \<le> n \<and> n < 64)" if "\<not> bit cr4 12" for n
    using i [of "n - 39"] by (auto simp: l4 [OF that] bit_simps)
  show b5: "bit (mm_LowerBound g) n \<longleftrightarrow>
      (48 \<le> n \<and> n < 57 \<and> bit ?i (n - 48)) \<or> (58 \<le> n \<and> n < 64)" if "bit cr4 12" for n
    using i [of "n - 48"] by (cases "57 \<le> n") (auto simp: l5 [OF that] bit_simps)
  show "bit (mm_UpperBound g) n \<longleftrightarrow>
      (3 \<le> n \<and> n < 39) \<or> (39 \<le> n \<and> n < 48 \<and> bit ?i (n - 39)) \<or> (48 \<le> n \<and> n < 64)" if "\<not> bit cr4 12"
  proof -
    have e: "mm_LowerBound g + mask 39 = mm_LowerBound g OR mask 39"
      by (rule add_mask) (simp add: b4 [OF that])
    show ?thesis unfolding u4 [OF that] e by (cases "n < 39") (auto simp: bit_and_iff bit_or_iff bit_not_iff bit_mask_iff b4 [OF that])
  qed
  show "bit (mm_UpperBound g) n \<longleftrightarrow>
      (3 \<le> n \<and> n < 48) \<or> (48 \<le> n \<and> n < 57 \<and> bit ?i (n - 48)) \<or> (58 \<le> n \<and> n < 64)" if "bit cr4 12"
  proof -
    have e: "mm_LowerBound g + mask 48 = mm_LowerBound g OR mask 48"
      by (rule add_mask) (simp add: b5 [OF that])
    show ?thesis unfolding u5 [OF that] e by (cases "n < 48") (auto simp: bit_and_iff bit_or_iff bit_not_iff bit_mask_iff b5 [OF that])
  qed
qed

lemma word_bits_le: "(\<And>n. bit a n \<Longrightarrow> bit b n) \<Longrightarrow> a \<le> (b :: u64)"
proof -
  assume s: "\<And>n. bit a n \<Longrightarrow> bit b n"
  have "a = b AND a" by (rule bit_eqI) (use s in \<open>auto simp: bit_simps\<close>)
  then have "uint a = uint b AND uint a" by (metis uint_and)
  moreover have "uint b AND uint a \<le> uint b" by (simp add: AND_upper1)
  ultimately show ?thesis by (simp add: word_le_def)
qed

lemma bit_below: "unat (va :: u64) < 2 ^ k \<Longrightarrow> k \<le> n \<Longrightarrow> \<not> bit va n"
proof -
  assume a: "unat va < 2 ^ k" "k \<le> n"
  note a(1)
  also have "2 ^ k \<le> (2 :: nat) ^ n" using a(2) by simp
  finally have "\<not> bit (unat va) n" by (simp add: bit_iff_odd)
  then show ?thesis by (auto simp: bit_unsigned_iff dest: bit_imp_le_length)
qed

lemma canonical_bits:
  assumes "\<not> MmuIsInvalidAddress va" "47 \<le> n" "n < 64"
  shows "bit va n \<longleftrightarrow> bit va 47"
proof (cases "MmuIsUserModeAddress va")
  case True
  then have "unat va < 2 ^ 47" by (simp add: MmuIsUserModeAddress_def word_le_nat_alt)
  then show ?thesis using bit_below [of va 47] assms(2) by simp
next
  case False
  then have k: "0xFFFF800000000000 \<le> va" using assms(1) by (simp add: MmuIsInvalidAddress_def MmuIsKernelModeAddress_def)
  have "unat (- 1 - va) = unat (- 1 :: u64) - unat va" by (rule unat_sub) simp
  moreover have "NOT va = - 1 - va" by (simp add: not_eq_complement)
  ultimately have "unat (NOT va) < 2 ^ 47" using k by (simp add: word_le_nat_alt unsigned_minus_1_eq_mask mask_eq_exp_minus_1)
  then show ?thesis using bit_below [of "NOT va" 47] assms(2,3) by (auto simp: bit_simps)
qed

lemma pte_bits:
  assumes "g = MmuInitializeMmuGlobals va_of_pa cr3 cr4"
  shows "\<not> bit cr4 12 \<Longrightarrow> bit (MmuAddressToPte g va) n \<longleftrightarrow>
      (3 \<le> n \<and> n < 39 \<and> bit va (n + 9)) \<or> (39 \<le> n \<and> n < 48 \<and> bit (mm_SelfMapPmlIndex g) (n - 39)) \<or> (48 \<le> n \<and> n < 64)"
    "bit cr4 12 \<Longrightarrow> bit (MmuAddressToPte g va) n \<longleftrightarrow>
      (3 \<le> n \<and> n < 48 \<and> bit va (n + 9)) \<or> (48 \<le> n \<and> n < 57 \<and> bit (mm_SelfMapPmlIndex g) (n - 48)) \<or> (58 \<le> n \<and> n < 64)"
  using window_bounds(2-5) [OF assms]
  by (auto simp: MmuAddressToPte_def PTI_SHIFT_def bit_simps add.commute)

section \<open>Properties\<close>

text \<open>
  C37: With 4-level paging \<open>MmuAddressToPte\<close> computes, for every address, the entry of its
  page in the self-referencing window: the window's base plus eight times bits 47 to 12 of
  the address.  The base is that of \<open>MmuGetPteBase\<close>, which finds it from one known entry, and
  the result lies in the paging range.\<close>
theorem pte_window_correct:
  assumes "g = MmuInitializeMmuGlobals va_of_pa cr3 cr4" "\<not> bit cr4 12"
  shows "MmuAddressToPte g va = mm_PteBase g + push_bit 3 (drop_bit 12 (va AND VA_MASK)) \<and>
    (va \<noteq> 0 \<longrightarrow> MmuGetPteBase g va True (MmuAddressToPte g va) = mm_PteBase g) \<and>
    MmuAddressIsInPagingRange g (MmuAddressToPte g va)"
proof (intro conjI impI)
  note B = pte_bits(1) [OF assms] and W = window_bounds [OF assms(1)]
  have m: "VA_MASK = mask 48" by (simp add: VA_MASK_def VA_BITS_def push_bit_of_1 mask_eq_exp_minus_1)
  have "mm_PteBase g + push_bit 3 (drop_bit 12 (va AND VA_MASK)) = mm_PteBase g OR push_bit 3 (drop_bit 12 (va AND VA_MASK))"
    by (rule disjunctive_add_eq_or) (auto simp: bit_eq_iff W(6) B m bit_simps)
  also have "\<dots> = MmuAddressToPte g va"
    by (rule bit_eqI) (auto simp: W(6) B m bit_simps add.commute)
  finally show e: "MmuAddressToPte g va = mm_PteBase g + push_bit 3 (drop_bit 12 (va AND VA_MASK))" ..
  have "bit (MmuAddressToPte g va) 63" by (simp add: B)
  then have "MmuAddressToPte g va \<noteq> 0" by auto
  then show "MmuGetPteBase g va True (MmuAddressToPte g va) = mm_PteBase g" if "va \<noteq> 0"
    using that W(1) assms(2) e by (simp add: MmuGetPteBase_def PTE_SHIFT_def PTI_SHIFT_def)
  show "MmuAddressIsInPagingRange g (MmuAddressToPte g va)"
    unfolding MmuAddressIsInPagingRange_def by (intro conjI word_bits_le) (auto simp: B bit_simps)
qed

definition example_globals :: mmu_globals where
  "example_globals = MmuInitializeMmuGlobals (\<lambda>pa. 0xFFFFF6FB7DBED000) 0x1AD000 0x6F8"

theorem pte_window_correct_witness:
  "MmuAddressToPte example_globals 0xFFFFF78000000123 = mm_PteBase example_globals + 0x7BC0000000"
  using pte_window_correct [OF example_globals_def, of "0xFFFFF78000000123"]
  by (simp add: VA_MASK_def VA_BITS_def push_bit_of_1)

text \<open>
  \<open>MmuPteToAddress\<close> leads from the entry back to the page, for every canonical
  address of 4-level paging.\<close>
theorem pte_roundtrip:
  assumes "g = MmuInitializeMmuGlobals va_of_pa cr3 cr4" "\<not> bit cr4 12" "\<not> MmuIsInvalidAddress va"
  shows "MmuPteToAddress (MmuAddressToPte g va) = va AND 0xFFFFFFFFFFFFF000"
proof (rule bit_word_eqI)
  fix n assume n: "n < LENGTH(64)"
  show "bit (MmuPteToAddress (MmuAddressToPte g va)) n = bit (va AND 0xFFFFFFFFFFFFF000) n"
    using n canonical_bits [OF assms(3), of n]
    by (auto simp: MmuPteToAddress_def bit_signed_drop_bit_iff pte_bits(1) [OF assms(1,2)] const_masks bit_simps)
qed

theorem pte_roundtrip_witness:
  "MmuPteToAddress (MmuAddressToPte example_globals 0xFFFFF78000000123) = 0xFFFFF78000000000"
  using pte_roundtrip [OF example_globals_def, of "0xFFFFF78000000123"]
  by (simp add: MmuIsInvalidAddress_def MmuIsKernelModeAddress_def)

text \<open>
  With 5-level paging the window is wrong: the bits above the index come from
  \<open>0xFE << 57\<close>, which leaves bit 57 clear, so the entry computed for any address is not
  canonical when the top-level table is mapped in the kernel's half.\<close>
theorem la57_window_not_canonical:
  assumes "g = MmuInitializeMmuGlobals va_of_pa cr3 cr4" "bit cr4 12" "bit (mm_SelfMapPmlIndex g) 8"
  shows "bit (MmuAddressToPte g va) 56 \<and> \<not> bit (MmuAddressToPte g va) 57 \<and> bit (MmuAddressToPte g va) 63"
  using assms(3) by (simp_all add: pte_bits(2) [OF assms(1,2)])

theorem la57_window_not_canonical_witness:
  "\<not> bit (MmuAddressToPte (MmuInitializeMmuGlobals (\<lambda>pa. 0xFF80000000000000) 0x1AD000 0x16F8) 0) 57"
  by (rule la57_window_not_canonical [OF refl, THEN conjunct2, THEN conjunct1])
    (simp_all add: MmuInitializeMmuGlobals_def Let_def MmuGetSelfMapPmlIndex_def la57_bit MmuGetPzeIndex_def PZI_SHIFT_def)

end
