(* ===== verification/Mmu_Map.thy ===== *)
theory Mmu_Map
  imports Mmu
begin

text \<open>
  The mapping slots of \<open>src/mmu.c\<close>: four pages of address space per processor whose page
  table entries the driver rewrites to look at any physical page, their set-up and
  tear-down, and the walk of another process's page tables through them.
\<close>

section \<open>State\<close>

type_synonym slot = "nat \<times> nat"

definition MAX_MAPPING_SLOTS :: nat where "MAX_MAPPING_SLOTS = 4"
definition MAX_CPU :: nat where "MAX_CPU = 64"

text \<open>An MDL is named by the slot it was allocated for; a null address is 0.\<close>

record mmu_mapping =
  mp_MapInUse :: bool
  mp_BaseVa :: u64
  mp_PointerPte :: u64
  mp_BaseMdl :: "slot option"
  mp_OriginalPte :: u64

definition zero_mapping :: mmu_mapping where
  "zero_mapping = \<lparr>mp_MapInUse = False, mp_BaseVa = 0, mp_PointerPte = 0, mp_BaseMdl = None, mp_OriginalPte = 0\<rparr>"

text \<open>
  \<open>ms_maps\<close> is \<open>gMmu.MmuArray\<close> by processor and slot.  The rest is the machine: page table
  entries by their address, and the MDLs, locked pages and system mappings in existence.
\<close>

record mmu_state =
  ms_g :: mmu_globals
  ms_maps :: "(slot \<Rightarrow> mmu_mapping) option"
  ms_pte :: "u64 \<Rightarrow> u64"
  ms_mdls :: "slot set"
  ms_locked :: "slot set"
  ms_mapped :: "slot set"

text \<open>The kernel's answers for one slot: the MDL, the lock (or an exception), the mapping.\<close>

record slot_env =
  se_mdl :: bool
  se_lock :: bool
  se_va :: u64

section \<open>Set-up and tear-down\<close>

definition MmupWriteMappingPte :: "mmu_state \<Rightarrow> mmu_mapping \<Rightarrow> u64 \<Rightarrow> mmu_state" where
  "MmupWriteMappingPte s m PteContents = s\<lparr>ms_pte := (ms_pte s)(mp_PointerPte m := PteContents)\<rparr>"

text \<open>After an exception the MDL is freed and returned all the same.\<close>

definition MmuAllocateMappingMdl :: "slot_env \<Rightarrow> mmu_state \<Rightarrow> nat \<Rightarrow> nat \<Rightarrow> slot option \<times> mmu_state" where
  "MmuAllocateMappingMdl e s Index Slot =
     (if MAX_CPU < Index then (None, s)
      else if \<not> se_mdl e then (None, s)
      else let MappingMdl = (Index, Slot); s1 = s\<lparr>ms_mdls := insert MappingMdl (ms_mdls s)\<rparr>
           in if se_lock e then (Some MappingMdl, s1\<lparr>ms_locked := insert MappingMdl (ms_locked s)\<rparr>)
              else (Some MappingMdl, s1\<lparr>ms_mdls := ms_mdls s1 - {MappingMdl}\<rparr>))"

definition MmuFreeMappingMdl :: "slot option \<Rightarrow> mmu_state \<Rightarrow> mmu_state" where
  "MmuFreeMappingMdl mdl s =
     s\<lparr>ms_locked := ms_locked s - set_option mdl, ms_mdls := ms_mdls s - set_option mdl\<rparr>"

definition MmuInitializeMapping ::
  "slot_env \<Rightarrow> mmu_state \<Rightarrow> mmu_mapping \<Rightarrow> nat \<Rightarrow> nat \<Rightarrow> ntstatus \<times> mmu_mapping \<times> mmu_state" where
  "MmuInitializeMapping e s m ProcIdx SlotIdx =
     (let (mdl, s) = MmuAllocateMappingMdl e s ProcIdx SlotIdx; m = m\<lparr>mp_BaseMdl := mdl\<rparr>
      in if mdl = None then (STATUS_NO_MEMORY, m, s)
         else let m = m\<lparr>mp_BaseVa := se_va e\<rparr>
              in if se_va e = 0
                 then (STATUS_NO_MEMORY, m\<lparr>mp_BaseMdl := None\<rparr>, MmuFreeMappingMdl mdl s)
                 else let s = s\<lparr>ms_mapped := insert (ProcIdx, SlotIdx) (ms_mapped s)\<rparr>;
                          p = MmuAddressToPte (ms_g s) (se_va e);
                          m = m\<lparr>mp_PointerPte := p, mp_OriginalPte := ms_pte s p\<rparr>
                      in (STATUS_SUCCESS, m\<lparr>mp_MapInUse := False\<rparr>, MmupWriteMappingPte s m ZeroPte))"

definition MmuDeleteMapping :: "mmu_state \<Rightarrow> slot \<Rightarrow> mmu_mapping \<Rightarrow> mmu_state" where
  "MmuDeleteMapping s p m =
     (let s = MmupWriteMappingPte s m (mp_OriginalPte m);
          s = s\<lparr>ms_mapped := ms_mapped s - {p}\<rparr>
      in MmuFreeMappingMdl (mp_BaseMdl m) s)"

definition slots :: "nat \<Rightarrow> slot list" where
  "slots ProcessorCount = List.product [0..<ProcessorCount] [0..<MAX_MAPPING_SLOTS]"

definition set_map :: "mmu_state \<Rightarrow> slot \<Rightarrow> mmu_mapping \<Rightarrow> mmu_state" where
  "set_map s p m = s\<lparr>ms_maps := map_option (\<lambda>f. f(p := m)) (ms_maps s)\<rparr>"

definition get_map :: "mmu_state \<Rightarrow> slot \<Rightarrow> mmu_mapping" where
  "get_map s p = (case ms_maps s of None \<Rightarrow> zero_mapping | Some f \<Rightarrow> f p)"

text \<open>The two nested loops of \<open>MmuInitialize\<close>, left at the first failure.\<close>

fun init_slots :: "(slot \<Rightarrow> slot_env) \<Rightarrow> slot list \<Rightarrow> mmu_state \<Rightarrow> ntstatus \<times> mmu_state" where
  "init_slots env [] s = (STATUS_SUCCESS, s)"
| "init_slots env (p # ps) s =
     (let (Status, m, s') = MmuInitializeMapping (env p) s (get_map s p) (fst p) (snd p);
          s' = set_map s' p m
      in if \<not> NT_SUCCESS Status then (Status, s') else init_slots env ps s')"

fun delete_slots :: "slot list \<Rightarrow> mmu_state \<Rightarrow> mmu_state" where
  "delete_slots [] s = s"
| "delete_slots (p # ps) s =
     delete_slots ps (if mp_BaseVa (get_map s p) \<noteq> 0 then MmuDeleteMapping s p (get_map s p) else s)"

text \<open>\<open>None\<close>: the routine reads through the null \<open>MmuArray\<close>.\<close>

definition MmuFinalize :: "nat \<Rightarrow> mmu_state \<Rightarrow> mmu_state option" where
  "MmuFinalize ProcessorCount s =
     (if ms_maps s = None \<and> 0 < ProcessorCount then None
      else let s = delete_slots (slots ProcessorCount) s
           in Some (s\<lparr>ms_maps := None, ms_g := (ms_g s)\<lparr>mm_LowerBound := 0, mm_UpperBound := 0\<rparr>\<rparr>))"

text \<open>\<open>array\<close> is the answer of \<open>MemAllocArray\<close>; when it fails the status is still success.\<close>

definition MmuInitialize ::
  "(slot \<Rightarrow> slot_env) \<Rightarrow> bool \<Rightarrow> mmu_globals \<Rightarrow> nat \<Rightarrow> mmu_state \<Rightarrow> (ntstatus \<times> mmu_state) option" where
  "MmuInitialize env array globals ProcessorCount s =
     (let s = s\<lparr>ms_g := globals\<rparr>; Status = STATUS_SUCCESS
      in if \<not> array then Some (Status, s\<lparr>ms_maps := None\<rparr>)
         else let (Status, s) = init_slots env (slots ProcessorCount) (s\<lparr>ms_maps := Some (\<lambda>p. zero_mapping)\<rparr>)
              in if NT_SUCCESS Status then Some (Status, s)
                 else map_option (\<lambda>s. (Status, s)) (MmuFinalize ProcessorCount s))"

section \<open>Using the slots\<close>

text \<open>The first slot whose \<open>MapInUse\<close> goes from 0 to 1.\<close>

definition MmuAcquireMapping :: "nat \<Rightarrow> mmu_state \<Rightarrow> slot option \<times> mmu_state" where
  "MmuAcquireMapping cpu s =
     (case find (\<lambda>i. \<not> mp_MapInUse (get_map s (cpu, i))) [0..<MAX_MAPPING_SLOTS] of
        None \<Rightarrow> (None, s)
      | Some i \<Rightarrow> (Some (cpu, i), set_map s (cpu, i) ((get_map s (cpu, i))\<lparr>mp_MapInUse := True\<rparr>)))"

definition MmuGetMappingForVa :: "nat \<Rightarrow> mmu_state \<Rightarrow> u64 \<Rightarrow> slot option" where
  "MmuGetMappingForVa cpu s VirtualAddress =
     map_option (Pair cpu) (find (\<lambda>i. mp_MapInUse (get_map s (cpu, i)) \<and> mp_BaseVa (get_map s (cpu, i)) = VirtualAddress)
       [0..<MAX_MAPPING_SLOTS])"

definition MmuReleaseMapping :: "mmu_state \<Rightarrow> slot \<Rightarrow> mmu_state" where
  "MmuReleaseMapping s p = set_map s p ((get_map s p)\<lparr>mp_MapInUse := False\<rparr>)"

definition MmuMapIoPage :: "nat \<Rightarrow> mmu_state \<Rightarrow> u64 \<Rightarrow> bool \<Rightarrow> u64 option \<times> mmu_state" where
  "MmuMapIoPage cpu s PhysicalPage Uncached =
     (case MmuAcquireMapping cpu s of
        (None, s) \<Rightarrow> (None, s)
      | (Some p, s) \<Rightarrow>
          let TempPte = (if Uncached then DefaultPte OR PAGE_CACHE_UC else DefaultPte);
              s = MmupWriteMappingPte s (get_map s p) (MmupCreatePte PhysicalPage TempPte)
          in (Some (mp_BaseVa (get_map s p)), s))"

definition MmuUnmapIoPage :: "nat \<Rightarrow> mmu_state \<Rightarrow> u64 \<Rightarrow> mmu_state" where
  "MmuUnmapIoPage cpu s VirtualAddress =
     (case MmuGetMappingForVa cpu s VirtualAddress of
        None \<Rightarrow> s
      | Some p \<Rightarrow> MmuReleaseMapping (MmupWriteMappingPte s (get_map s p) ZeroPte) p)"

text \<open>
  A load by the processor through the current page tables: the entry of the page must be
  valid, and the memory \<open>phys\<close> is read at the frame it names.
\<close>

definition load64 :: "(u64 \<Rightarrow> u64) \<Rightarrow> mmu_state \<Rightarrow> u64 \<Rightarrow> u64 option" where
  "load64 phys s va =
     (let pte = ms_pte s (MmuAddressToPte (ms_g s) va)
      in if pte AND PTE_VALID \<noteq> 0 then Some (phys ((pte AND PTE64_PFN_MASK) OR (va AND 0xFFF))) else None)"

definition MmuGetPmlEntry :: "(u64 \<Rightarrow> u64) \<Rightarrow> mmu_state \<Rightarrow> u64 \<Rightarrow> u64 \<Rightarrow> u64 option" where
  "MmuGetPmlEntry phys s Pml Index = load64 phys s (Pml + push_bit 3 Index)"

fun walk_loop :: "(u64 \<Rightarrow> u64) \<Rightarrow> nat \<Rightarrow> u64 \<Rightarrow> nat \<Rightarrow> mmu_state \<Rightarrow> u64 \<Rightarrow> (u64 \<times> mmu_state) option" where
  "walk_loop phys cpu BaseAddress 0 s CurrentPa = Some (0, s)"
| "walk_loop phys cpu BaseAddress (Suc k) s CurrentPa =
     (case MmuMapIoPage cpu s CurrentPa True of
        (None, s) \<Rightarrow> Some (0, s)
      | (Some PageTable, s) \<Rightarrow>
          let PteIndex = MmuAddressToPti (Suc k) BaseAddress
          in case MmuGetPmlEntry phys s PageTable PteIndex of
               None \<Rightarrow> None
             | Some PteEntry \<Rightarrow>
                 let s = MmuUnmapIoPage cpu s PageTable
                 in if PteEntry AND PTE_VALID = 0 then Some (0, s)
                    else if Suc k \<noteq> 1 \<and> PteEntry AND PDE_PSE \<noteq> 0 then Some (0, s)
                    else if Suc k = 1
                         then Some ((PteEntry AND 0xFFFFFFFFFFFFF000) OR (BaseAddress AND 0xFFF), s)
                         else walk_loop phys cpu BaseAddress k s (PteEntry AND 0xFFFFFFFFFFFFF000))"

text \<open>\<open>os_pa\<close> is \<open>MmGetPhysicalAddress\<close>, for the current address space.\<close>

definition MmuGetPhysicalAddress ::
  "(u64 \<Rightarrow> u64) \<Rightarrow> (u64 \<Rightarrow> u64) \<Rightarrow> u64 \<Rightarrow> nat \<Rightarrow> mmu_state \<Rightarrow> u64 \<Rightarrow> u64 \<Rightarrow> (u64 \<times> mmu_state) option" where
  "MmuGetPhysicalAddress phys os_pa cr3 cpu s TargetCr3 BaseAddress =
     (let TargetCr3 = TargetCr3 AND 0xFFFFFFFFFFFFF000;
          CurrentCr3 = cr3 AND 0xFFFFFFFFFFFFF000
      in if TargetCr3 = 0 \<or> TargetCr3 = CurrentCr3 then Some (os_pa BaseAddress, s)
         else walk_loop phys cpu BaseAddress MmuGetPagingLevels s TargetCr3)"

section \<open>Set-up is all or nothing\<close>

lemma map_sel [simp]:
  "get_map (set_map s p m) q = (if q = p \<and> ms_maps s \<noteq> None then m else get_map s q)"
  "ms_maps (set_map s p m) = None \<longleftrightarrow> ms_maps s = None"
  "ms_g (set_map s p m) = ms_g s" "ms_pte (set_map s p m) = ms_pte s" "ms_mdls (set_map s p m) = ms_mdls s"
  "ms_locked (set_map s p m) = ms_locked s" "ms_mapped (set_map s p m) = ms_mapped s"
  by (auto simp: get_map_def set_map_def split: option.splits)

lemma write_sel [simp]:
  "get_map (MmupWriteMappingPte s m v) q = get_map s q" "ms_maps (MmupWriteMappingPte s m v) = ms_maps s"
  "ms_g (MmupWriteMappingPte s m v) = ms_g s"
  "ms_pte (MmupWriteMappingPte s m v) = (ms_pte s)(mp_PointerPte m := v)"
  "ms_mdls (MmupWriteMappingPte s m v) = ms_mdls s" "ms_locked (MmupWriteMappingPte s m v) = ms_locked s"
  "ms_mapped (MmupWriteMappingPte s m v) = ms_mapped s"
  by (simp_all add: MmupWriteMappingPte_def get_map_def)

definition entry_of_slot :: "mmu_globals \<Rightarrow> (slot \<Rightarrow> slot_env) \<Rightarrow> slot \<Rightarrow> u64" where
  "entry_of_slot g env p = MmuAddressToPte g (se_va (env p))"

text \<open>\<open>took g env s0 D s\<close>: relative to \<open>s0\<close>, exactly the slots \<open>D\<close> hold their resources.\<close>

definition took :: "mmu_globals \<Rightarrow> (slot \<Rightarrow> slot_env) \<Rightarrow> mmu_state \<Rightarrow> slot set \<Rightarrow> mmu_state \<Rightarrow> bool" where
  "took g env s0 D s \<longleftrightarrow> ms_g s = g \<and>
     ms_pte s = (\<lambda>a. if a \<in> entry_of_slot g env ` D then 0 else ms_pte s0 a) \<and>
     ms_mdls s = ms_mdls s0 \<union> D \<and> ms_locked s = ms_locked s0 \<union> D \<and> ms_mapped s = ms_mapped s0 \<union> D"

definition filled :: "mmu_globals \<Rightarrow> (slot \<Rightarrow> slot_env) \<Rightarrow> mmu_state \<Rightarrow> slot \<Rightarrow> mmu_mapping" where
  "filled g env s0 p = \<lparr>mp_MapInUse = False, mp_BaseVa = se_va (env p), mp_PointerPte = entry_of_slot g env p,
     mp_BaseMdl = Some p, mp_OriginalPte = ms_pte s0 (entry_of_slot g env p)\<rparr>"

text \<open>The kernel's answers are fit: no lock raises, and no two slots share an entry.\<close>

definition env_ok :: "mmu_globals \<Rightarrow> (slot \<Rightarrow> slot_env) \<Rightarrow> slot set \<Rightarrow> mmu_state \<Rightarrow> bool" where
  "env_ok g env A s0 \<longleftrightarrow> (\<forall>p \<in> A. se_lock (env p) \<and> fst p \<le> MAX_CPU \<and>
     p \<notin> ms_mdls s0 \<and> p \<notin> ms_locked s0 \<and> p \<notin> ms_mapped s0) \<and> inj_on (entry_of_slot g env) A"

lemma init_one:
  assumes ok: "env_ok g env A s0" and D: "D \<subseteq> A" "p \<in> A" "p \<notin> D" and t: "took g env s0 D s"
    and m: "get_map s p = zero_mapping"
    and i: "MmuInitializeMapping (env p) s (get_map s p) (fst p) (snd p) = (st, m', s')"
  shows "ms_maps s' = ms_maps s"
    "(st = STATUS_SUCCESS \<and> m' = filled g env s0 p \<and> se_va (env p) \<noteq> 0 \<and> took g env s0 (insert p D) s') \<or>
     (\<not> NT_SUCCESS st \<and> mp_BaseVa m' = 0 \<and> took g env s0 D s')"
proof -
  have e: "se_lock (env p)" "\<not> MAX_CPU < fst p" "p \<notin> ms_mdls s0" "p \<notin> ms_locked s0" "p \<notin> ms_mapped s0"
    using ok D(2) by (auto simp: env_ok_def)
  have n: "entry_of_slot g env p \<notin> entry_of_slot g env ` D"
    using ok D by (auto simp: env_ok_def inj_on_def)
  note i = i [unfolded m zero_mapping_def]
  show "ms_maps s' = ms_maps s"
    using i by (auto simp: MmuInitializeMapping_def MmuAllocateMappingMdl_def MmuFreeMappingMdl_def Let_def split: if_splits)
  show "(st = STATUS_SUCCESS \<and> m' = filled g env s0 p \<and> se_va (env p) \<noteq> 0 \<and> took g env s0 (insert p D) s') \<or>
     (\<not> NT_SUCCESS st \<and> mp_BaseVa m' = 0 \<and> took g env s0 D s')"
    using i e n t D(3)
    by (auto simp: MmuInitializeMapping_def MmuAllocateMappingMdl_def MmuFreeMappingMdl_def Let_def took_def
        filled_def zero_mapping_def ZeroPte_def entry_of_slot_def fun_eq_iff split: if_splits)
qed

lemma init_slots_took:
  assumes ok: "env_ok g env A s0"
  shows "D \<union> set ps \<subseteq> A \<Longrightarrow> distinct ps \<Longrightarrow> D \<inter> set ps = {} \<Longrightarrow> took g env s0 D s \<Longrightarrow>
    ms_maps s \<noteq> None \<Longrightarrow> (\<forall>p. get_map s p = (if p \<in> D then filled g env s0 p else zero_mapping)) \<Longrightarrow>
    (\<forall>p \<in> D. se_va (env p) \<noteq> 0) \<Longrightarrow>
    init_slots env ps s = (st, s') \<Longrightarrow>
    ms_maps s' \<noteq> None \<and> (\<exists>E. D \<subseteq> E \<and> E \<subseteq> D \<union> set ps \<and> took g env s0 E s' \<and>
      (\<forall>p. mp_BaseVa (get_map s' p) \<noteq> 0 \<longleftrightarrow> p \<in> E) \<and> (\<forall>p \<in> E. get_map s' p = filled g env s0 p) \<and>
      (if NT_SUCCESS st then E = D \<union> set ps else True))"
proof (induction ps arbitrary: D s)
  case Nil
  then show ?case by (intro conjI exI [of _ D]) (auto simp: filled_def zero_mapping_def)
next
  case (Cons p ps)
  obtain st1 m1 s1 where i: "MmuInitializeMapping (env p) s (get_map s p) (fst p) (snd p) = (st1, m1, s1)"
    using prod_cases3 by blast
  have D: "D \<subseteq> A" "p \<in> A" "p \<notin> D" using Cons.prems(1,3) by auto
  have z: "get_map s p = zero_mapping" using spec [OF Cons.prems(6), of p] D(3) by simp
  note I = init_one [OF ok D Cons.prems(4) z i]
  have gm: "get_map s1 = get_map s" using I(1) by (simp add: get_map_def fun_eq_iff)
  have tk: "took g env s0 X (set_map s1 p m1) = took g env s0 X s1" for X by (simp add: took_def)
  from I(2) show ?case
  proof
    assume a: "st1 = STATUS_SUCCESS \<and> m1 = filled g env s0 p \<and> se_va (env p) \<noteq> 0 \<and> took g env s0 (insert p D) s1"
    then have r: "init_slots env ps (set_map s1 p m1) = (st, s')" using Cons.prems(8) i by simp
    have "ms_maps s' \<noteq> None \<and> (\<exists>E. insert p D \<subseteq> E \<and> E \<subseteq> insert p D \<union> set ps \<and> took g env s0 E s' \<and>
      (\<forall>p. mp_BaseVa (get_map s' p) \<noteq> 0 \<longleftrightarrow> p \<in> E) \<and> (\<forall>p \<in> E. get_map s' p = filled g env s0 p) \<and>
      (if NT_SUCCESS st then E = insert p D \<union> set ps else True))"
    proof (rule Cons.IH [OF _ _ _ _ _ _ _ r])
      show "insert p D \<union> set ps \<subseteq> A" "distinct ps" "insert p D \<inter> set ps = {}" using Cons.prems(1-3) by auto
      show "took g env s0 (insert p D) (set_map s1 p m1)" using a tk by simp
      show "ms_maps (set_map s1 p m1) \<noteq> None" using I(1) Cons.prems(5) by simp
      show "\<forall>q. get_map (set_map s1 p m1) q = (if q \<in> insert p D then filled g env s0 q else zero_mapping)"
      proof
        fix q
        have "get_map (set_map s1 p m1) q = (if q = p then m1 else get_map s q)" using gm I(1) Cons.prems(5) by simp
        then show "get_map (set_map s1 p m1) q = (if q \<in> insert p D then filled g env s0 q else zero_mapping)"
          using a spec [OF Cons.prems(6), of q] by (cases "q = p") auto
      qed
      show "\<forall>q \<in> insert p D. se_va (env q) \<noteq> 0" using a Cons.prems(7) by simp
    qed
    then obtain E where E: "insert p D \<subseteq> E" "E \<subseteq> insert p D \<union> set ps" "took g env s0 E s'" "ms_maps s' \<noteq> None"
      "\<forall>p. mp_BaseVa (get_map s' p) \<noteq> 0 \<longleftrightarrow> p \<in> E" "\<forall>p \<in> E. get_map s' p = filled g env s0 p"
      "if NT_SUCCESS st then E = insert p D \<union> set ps else True" by blast
    have u: "insert p D \<union> set ps = D \<union> set (p # ps)" "D \<subseteq> E" using E(1) by auto
    note E' = E [unfolded u(1)]
    show ?thesis by (intro conjI exI [of _ E] E' u(2))
  next
    assume a: "\<not> NT_SUCCESS st1 \<and> mp_BaseVa m1 = 0 \<and> took g env s0 D s1"
    then have r: "st = st1" "s' = set_map s1 p m1" using Cons.prems(8) i by auto
    have g: "get_map s' q = (if q = p then m1 else get_map s q)" for q using r(2) I(1) Cons.prems(5) gm by simp
    have b: "mp_BaseVa (get_map s' q) \<noteq> 0 \<longleftrightarrow> q \<in> D" for q
      using g [of q] a D(3) spec [OF Cons.prems(6), of q] Cons.prems(7) by (simp add: filled_def zero_mapping_def)
    have f: "\<forall>q \<in> D. get_map s' q = filled g env s0 q" using g D(3) Cons.prems(6) by auto
    have "ms_maps s' \<noteq> None" "took g env s0 D s'" using r a I(1) tk Cons.prems(5) by simp_all
    then show ?thesis using b f a r(1) by (intro conjI exI [of _ D]) auto
  qed
qed

lemma delete_sel [simp]:
  "get_map (MmuDeleteMapping s p m) = get_map s" "ms_maps (MmuDeleteMapping s p m) = ms_maps s"
  by (simp_all add: MmuDeleteMapping_def MmuFreeMappingMdl_def Let_def get_map_def fun_eq_iff)

lemma delete_one:
  assumes ok: "env_ok g env A s0" and D: "D \<subseteq> A" "p \<in> D" and t: "took g env s0 D s"
  shows "took g env s0 (D - {p}) (MmuDeleteMapping s p (filled g env s0 p))"
proof -
  have e: "p \<notin> ms_mdls s0" "p \<notin> ms_locked s0" "p \<notin> ms_mapped s0" using ok D by (auto simp: env_ok_def)
  have "inj_on (entry_of_slot g env) D" using ok D(1) by (auto simp: env_ok_def intro: inj_on_subset)
  then have n: "entry_of_slot g env ` (D - {p}) = entry_of_slot g env ` D - {entry_of_slot g env p}"
    using D(2) by (auto simp: inj_on_def)
  show ?thesis
    using t e D(2) by (auto simp: took_def MmuDeleteMapping_def MmuFreeMappingMdl_def Let_def filled_def n fun_eq_iff)
qed

lemma delete_slots_took:
  assumes ok: "env_ok g env A s0" and E: "E \<subseteq> A"
  shows "distinct ps \<Longrightarrow> took g env s0 D s \<Longrightarrow> D \<subseteq> E \<Longrightarrow> set ps \<inter> E \<subseteq> D \<Longrightarrow>
    (\<forall>p. mp_BaseVa (get_map s p) \<noteq> 0 \<longleftrightarrow> p \<in> E) \<Longrightarrow> (\<forall>p \<in> E. get_map s p = filled g env s0 p) \<Longrightarrow>
    took g env s0 (D - set ps) (delete_slots ps s)"
proof (induction ps arbitrary: D s)
  case (Cons p ps)
  show ?case
  proof (cases "p \<in> E")
    case True
    then have p: "p \<in> D" "get_map s p = filled g env s0 p" using Cons.prems(4,6) by auto
    have b: "mp_BaseVa (get_map s p) \<noteq> 0" using spec [OF Cons.prems(5), of p] True by simp
    have t: "took g env s0 (D - {p}) (MmuDeleteMapping s p (get_map s p))"
      using delete_one [OF ok _ p(1) Cons.prems(2)] Cons.prems(3) E p(2) by auto
    have "took g env s0 (D - {p} - set ps) (delete_slots ps (MmuDeleteMapping s p (get_map s p)))"
    proof (rule Cons.IH [OF _ t])
      show "distinct ps" "D - {p} \<subseteq> E" "set ps \<inter> E \<subseteq> D - {p}" using Cons.prems(1,3,4) by auto
      show "\<forall>q. mp_BaseVa (get_map (MmuDeleteMapping s p (get_map s p)) q) \<noteq> 0 \<longleftrightarrow> q \<in> E"
        unfolding delete_sel by (rule Cons.prems(5))
      show "\<forall>q \<in> E. get_map (MmuDeleteMapping s p (get_map s p)) q = filled g env s0 q"
        unfolding delete_sel by (rule Cons.prems(6))
    qed
    moreover have "D - set (p # ps) = D - {p} - set ps" by auto
    ultimately show ?thesis using b by (simp only: delete_slots.simps if_True not_False_eq_True)
  next
    case False
    then have p: "mp_BaseVa (get_map s p) = 0" "p \<notin> D" using spec [OF Cons.prems(5), of p] Cons.prems(3) by auto
    have "took g env s0 (D - set ps) (delete_slots ps s)"
    proof (rule Cons.IH [OF _ Cons.prems(2)])
      show "distinct ps" "D \<subseteq> E" "set ps \<inter> E \<subseteq> D" using Cons.prems(1,3,4) by auto
    qed (fact Cons.prems(5,6))+
    then show ?thesis using p by simp
  qed
qed simp

text \<open>A walk through one slot: map, read, unmap.\<close>

definition slots_ok :: "mmu_state \<Rightarrow> nat \<Rightarrow> bool" where
  "slots_ok s cpu \<longleftrightarrow> (\<exists>va_of_pa cr3 cr4. ms_g s = MmuInitializeMmuGlobals va_of_pa cr3 cr4) \<and> ms_maps s \<noteq> None \<and>
     (\<forall>i<MAX_MAPPING_SLOTS. mp_BaseVa (get_map s (cpu, i)) AND 0xFFF = 0 \<and>
        mp_PointerPte (get_map s (cpu, i)) = MmuAddressToPte (ms_g s) (mp_BaseVa (get_map s (cpu, i))) \<and>
        (\<not> mp_MapInUse (get_map s (cpu, i)) \<longrightarrow> ms_pte s (mp_PointerPte (get_map s (cpu, i))) = 0)) \<and>
     inj_on (\<lambda>i. mp_BaseVa (get_map s (cpu, i))) {..<MAX_MAPPING_SLOTS}"

lemma pte_of_page:
  assumes "g = MmuInitializeMmuGlobals va_of_pa cr3 cr4" "va AND 0xFFF = 0" "off AND NOT 0xFFF = 0"
  shows "MmuAddressToPte g (va + off) = MmuAddressToPte g va" "(va + off) AND 0xFFF = off"
proof -
  have v: "\<not> bit va n" if "n < 12" for n
  proof -
    have "bit (va AND mask 12) n = bit va n" using that by (simp add: bit_and_iff bit_mask_iff)
    moreover have "va AND mask 12 = 0" using assms(2) by (simp only: const_masks)
    ultimately show ?thesis by simp
  qed
  have i: "\<not> bit off n" if "12 \<le> n" for n
  proof -
    have "off AND NOT (mask 12) = 0" using assms(3) by (simp only: const_masks)
    moreover have "bit (off AND NOT (mask 12)) n = bit off n"
      using that by (auto simp: bit_and_iff bit_not_iff bit_mask_iff dest: bit_imp_le_length)
    ultimately show ?thesis by simp
  qed
  have e: "va + off = va OR off"
  proof (rule disjunctive_add_eq_or, rule bit_word_eqI)
    fix n assume "n < LENGTH(64)"
    show "bit (va AND off) n = bit (0::u64) n" using v [of n] i [of n] by (cases "n < 12") (auto simp: bit_simps)
  qed
  have b: "bit (va OR off) (n + 9) = bit va (n + 9)" if "3 \<le> n" for n
    using i [of "n + 9"] that by (auto simp: bit_simps)
  show "MmuAddressToPte g (va + off) = MmuAddressToPte g va"
    unfolding e by (rule bit_eqI; cases "bit cr4 12") (auto simp: pte_bits [OF assms(1)] b)
  show "(va + off) AND 0xFFF = off"
  proof (unfold e const_masks, rule bit_word_eqI)
    fix n assume "n < LENGTH(64)"
    show "bit ((va OR off) AND mask 12) n = bit off n"
      using v [of n] i [of n] by (cases "n < 12") (auto simp: bit_and_iff bit_or_iff bit_mask_iff)
  qed
qed

lemma map_entry_bits:
  "MmupCreatePte pa (if u then DefaultPte OR PAGE_CACHE_UC else DefaultPte) AND PTE_VALID \<noteq> 0"
  "MmupCreatePte pa (if u then DefaultPte OR PAGE_CACHE_UC else DefaultPte) AND PTE64_PFN_MASK = pa AND PTE64_PFN_MASK"
proof -
  have d: "(if u then DefaultPte OR PAGE_CACHE_UC else DefaultPte) = (if u then 0x7B else 0x63)"
    by (simp add: DefaultPte_def PAGE_CACHE_UC_def PTE_VALID_def PTE_RW_def PTE_DIRTY_def PTE_ACCESSED_def PTE_PCD_def PTE_PWT_def)
  have "bit (MmupCreatePte pa (if u then 0x7B else 0x63)) 0" by (simp add: MmupCreatePte_def bit_simps)
  then show "MmupCreatePte pa (if u then DefaultPte OR PAGE_CACHE_UC else DefaultPte) AND PTE_VALID \<noteq> 0"
    unfolding d PTE_VALID_def by (metis and_exp_eq_0_iff_not_bit power_0)
  have z: "(0x7B :: u64) AND PTE64_PFN_MASK = 0" "(0x63 :: u64) AND PTE64_PFN_MASK = 0" by (simp_all add: PTE64_PFN_MASK_def)
  show "MmupCreatePte pa (if u then DefaultPte OR PAGE_CACHE_UC else DefaultPte) AND PTE64_PFN_MASK = pa AND PTE64_PFN_MASK"
    unfolding d MmupCreatePte_def by (cases u) (simp_all add: bit.conj_disj_distrib2 z and.assoc)
qed

lemma pti_range: "MmuAddressToPti k va AND NOT 0x1FF = 0"
  by (rule bit_word_eqI) (auto simp: MmuAddressToPti_def const_masks bit_simps)

lemma find_slot:
  assumes "\<exists>i<n. P i"
  obtains i where "find P [0..<n] = Some i" "i < n" "P i"
proof (cases "find P [0..<n]")
  case None
  then show ?thesis using assms by (auto simp: find_None_iff)
next
  case (Some i)
  then show ?thesis using that [of i] by (auto simp: find_Some_iff)
qed

text \<open>A mapped page reads the physical page at every offset, and unmapping it restores the state.\<close>

lemma map_load_unmap:
  assumes ok: "slots_ok s cpu" and f: "\<exists>i<MAX_MAPPING_SLOTS. \<not> mp_MapInUse (get_map s (cpu, i))"
  shows "\<exists>va s'. MmuMapIoPage cpu s pa u = (Some va, s') \<and> va AND 0xFFF = 0 \<and>
    (\<forall>phys off. off AND NOT 0xFFF = 0 \<longrightarrow> load64 phys s' (va + off) = Some (phys ((pa AND PTE64_PFN_MASK) OR off))) \<and>
    MmuUnmapIoPage cpu s' va = s"
proof -
  obtain j where j: "find (\<lambda>i. \<not> mp_MapInUse (get_map s (cpu, i))) [0..<MAX_MAPPING_SLOTS] = Some j"
    "j < MAX_MAPPING_SLOTS" "\<not> mp_MapInUse (get_map s (cpu, j))" using find_slot [OF f] .
  let ?m = "get_map s (cpu, j)" and ?v = "MmupCreatePte pa (if u then DefaultPte OR PAGE_CACHE_UC else DefaultPte)"
  let ?va = "mp_BaseVa ?m"
  obtain v c3 c4 where g: "ms_g s = MmuInitializeMmuGlobals v c3 c4" and ne: "ms_maps s \<noteq> None"
    using ok by (auto simp: slots_ok_def)
  have m: "?va AND 0xFFF = 0" "mp_PointerPte ?m = MmuAddressToPte (ms_g s) ?va" "ms_pte s (mp_PointerPte ?m) = 0"
    using ok j(2,3) by (auto simp: slots_ok_def)
  define s' where "s' = MmupWriteMappingPte (set_map s (cpu, j) (?m\<lparr>mp_MapInUse := True\<rparr>)) (?m\<lparr>mp_MapInUse := True\<rparr>) ?v"
  have M: "MmuMapIoPage cpu s pa u = (Some ?va, s')"
    using j(1) ne by (simp add: MmuMapIoPage_def MmuAcquireMapping_def Let_def s'_def)
  have p: "ms_pte s' = (ms_pte s)(MmuAddressToPte (ms_g s) ?va := ?v)" "ms_g s' = ms_g s"
    using m(2) by (simp_all add: s'_def)
  have R: "load64 phys s' (?va + off) = Some (phys ((pa AND PTE64_PFN_MASK) OR off))" if "off AND NOT 0xFFF = 0" for phys off
    using pte_of_page [OF g m(1) that] map_entry_bits [of pa u] by (simp add: load64_def Let_def p)
  have get: "get_map s' (cpu, k) = (if k = j then ?m\<lparr>mp_MapInUse := True\<rparr> else get_map s (cpu, k))" for k
    using ne by (simp add: s'_def)
  have "find (\<lambda>k. mp_MapInUse (get_map s' (cpu, k)) \<and> mp_BaseVa (get_map s' (cpu, k)) = ?va) [0..<MAX_MAPPING_SLOTS] = Some j"
  proof (rule find_slot [of MAX_MAPPING_SLOTS "\<lambda>k. mp_MapInUse (get_map s' (cpu, k)) \<and> mp_BaseVa (get_map s' (cpu, k)) = ?va"])
    show "\<exists>k<MAX_MAPPING_SLOTS. mp_MapInUse (get_map s' (cpu, k)) \<and> mp_BaseVa (get_map s' (cpu, k)) = ?va"
      using j(2) by (intro exI [of _ j]) (simp add: get)
  next
    fix k assume k: "find (\<lambda>k. mp_MapInUse (get_map s' (cpu, k)) \<and> mp_BaseVa (get_map s' (cpu, k)) = ?va) [0..<MAX_MAPPING_SLOTS] = Some k"
      "k < MAX_MAPPING_SLOTS" "mp_MapInUse (get_map s' (cpu, k)) \<and> mp_BaseVa (get_map s' (cpu, k)) = ?va"
    then have "mp_BaseVa (get_map s (cpu, k)) = ?va" by (simp add: get split: if_splits)
    then have "k = j" using ok j(2) k(2) by (auto simp: slots_ok_def inj_on_def)
    then show ?thesis using k(1) by simp
  qed
  then have "MmuGetMappingForVa cpu s' ?va = Some (cpu, j)" by (simp add: MmuGetMappingForVa_def)
  then have U: "MmuUnmapIoPage cpu s' ?va =
      set_map (MmupWriteMappingPte s' (get_map s' (cpu, j)) 0) (cpu, j) ((get_map s' (cpu, j))\<lparr>mp_MapInUse := False\<rparr>)"
    by (simp add: MmuUnmapIoPage_def MmuReleaseMapping_def ZeroPte_def)
  obtain F where F: "ms_maps s = Some F" using ne by auto
  have idle: "?m\<lparr>mp_MapInUse := False\<rparr> = ?m" using j(3) by simp
  have Fj: "F (cpu, j) = ?m" using F by (simp add: get_map_def)
  have "MmuUnmapIoPage cpu s' ?va = s"
  proof (rule mmu_state.equality)
    have "ms_maps (MmuUnmapIoPage cpu s' ?va) = Some ((F((cpu, j) := ?m\<lparr>mp_MapInUse := True\<rparr>))((cpu, j) := ?m\<lparr>mp_MapInUse := False\<rparr>))"
      unfolding U get using F by (simp add: set_map_def MmupWriteMappingPte_def s'_def)
    also have "\<dots> = Some (F((cpu, j) := F (cpu, j)))" unfolding idle Fj by (simp only: fun_upd_upd)
    finally show "ms_maps (MmuUnmapIoPage cpu s' ?va) = ms_maps s" by (simp add: F)
    have "ms_pte (MmuUnmapIoPage cpu s' ?va) = (ms_pte s)(mp_PointerPte ?m := 0)" unfolding U get by (simp add: s'_def)
    also have "\<dots> = ms_pte s" using m(3) by (simp add: fun_upd_idem)
    finally show "ms_pte (MmuUnmapIoPage cpu s' ?va) = ms_pte s" .
    show "ms_g (MmuUnmapIoPage cpu s' ?va) = ms_g s" unfolding U by (simp add: s'_def)
    show "ms_mdls (MmuUnmapIoPage cpu s' ?va) = ms_mdls s" unfolding U by (simp add: s'_def)
    show "ms_locked (MmuUnmapIoPage cpu s' ?va) = ms_locked s" unfolding U by (simp add: s'_def)
    show "ms_mapped (MmuUnmapIoPage cpu s' ?va) = ms_mapped s" unfolding U by (simp add: s'_def)
  qed simp
  then show ?thesis using M R m(1) by blast
qed

lemma index_offset: "i AND NOT 0x1FF = 0 \<Longrightarrow> push_bit 3 i AND NOT (0xFFF :: u64) = 0"
proof -
  assume a: "i AND NOT 0x1FF = (0 :: u64)"
  have i: "\<not> bit i n" if "9 \<le> n" for n
  proof -
    have "i AND NOT (mask 9) = 0" using a by (simp only: const_masks)
    moreover have "bit (i AND NOT (mask 9)) n = bit i n"
      using that by (auto simp: bit_and_iff bit_not_iff bit_mask_iff dest: bit_imp_le_length)
    ultimately show ?thesis by simp
  qed
  show "push_bit 3 i AND NOT (0xFFF :: u64) = 0"
    unfolding const_masks
  proof (rule bit_word_eqI)
    fix n assume "n < LENGTH(64)"
    show "bit (push_bit 3 i AND NOT (mask 12)) n = bit (0 :: u64) n"
      using i [of "n - 3"] by (cases "n < 12") (auto simp: bit_simps)
  qed
qed

lemma map_read_unmap:
  assumes "slots_ok s cpu" "\<exists>i<MAX_MAPPING_SLOTS. \<not> mp_MapInUse (get_map s (cpu, i))" "i AND NOT 0x1FF = 0"
  shows "\<exists>va s'. MmuMapIoPage cpu s pa True = (Some va, s') \<and>
    MmuGetPmlEntry phys s' va i = Some (phys ((pa AND PTE64_PFN_MASK) OR push_bit 3 i)) \<and> MmuUnmapIoPage cpu s' va = s"
  using map_load_unmap [OF assms(1,2), of pa True] index_offset [OF assms(3)] unfolding MmuGetPmlEntry_def by blast

section \<open>The walk\<close>

text \<open>
  What the processor's manual calls a walk: the entry of a 4-KB page, reached from the table
  at \<open>table\<close> through valid entries that do not map large pages.
\<close>

inductive page_walk :: "(u64 \<Rightarrow> u64) \<Rightarrow> u64 \<Rightarrow> nat \<Rightarrow> u64 \<Rightarrow> u64 \<Rightarrow> bool" for phys va where
  leaf: "e = phys ((table AND PTE64_PFN_MASK) OR push_bit 3 (MmuAddressToPti 1 va)) \<Longrightarrow> e AND PTE_VALID \<noteq> 0 \<Longrightarrow>
    page_walk phys va 1 table e"
| branch: "e = phys ((table AND PTE64_PFN_MASK) OR push_bit 3 (MmuAddressToPti (Suc (Suc k)) va)) \<Longrightarrow>
    e AND PTE_VALID \<noteq> 0 \<Longrightarrow> e AND PDE_PSE = 0 \<Longrightarrow> page_walk phys va (Suc k) e l \<Longrightarrow>
    page_walk phys va (Suc (Suc k)) table l"

inductive_simps page_walk_1: "page_walk phys va (Suc 0) table l"
inductive_simps page_walk_Suc: "page_walk phys va (Suc (Suc k)) table l"
inductive_simps page_walk_0: "page_walk phys va 0 table l"

lemma frame_again: "(e AND 0xFFFFFFFFFFFFF000) AND PTE64_PFN_MASK = e AND PTE64_PFN_MASK"
  by (simp add: PTE64_PFN_MASK_def and.assoc)

lemma page_walk_frame: "page_walk phys va k (e AND 0xFFFFFFFFFFFFF000) l \<longleftrightarrow> page_walk phys va k e l"
proof -
  consider "k = 0" | "k = Suc 0" | j where "k = Suc (Suc j)" by (metis not0_implies_Suc)
  then show ?thesis by cases (simp_all add: page_walk_0 page_walk_1 page_walk_Suc frame_again)
qed

lemma walk_loop_correct:
  assumes ok: "slots_ok s cpu" "\<exists>i<MAX_MAPPING_SLOTS. \<not> mp_MapInUse (get_map s (cpu, i))"
  shows "\<exists>r. walk_loop phys cpu va k s pa = Some (r, s) \<and>
    (\<forall>e. page_walk phys va k pa e \<longrightarrow> r = (e AND 0xFFFFFFFFFFFFF000) OR (va AND 0xFFF)) \<and>
    ((\<nexists>e. page_walk phys va k pa e) \<longrightarrow> r = 0)"
proof (induction k arbitrary: pa)
  case 0
  then show ?case by (simp add: page_walk_0)
next
  case (Suc k)
  let ?e = "phys ((pa AND PTE64_PFN_MASK) OR push_bit 3 (MmuAddressToPti (Suc k) va))"
  obtain p s' where M: "MmuMapIoPage cpu s pa True = (Some p, s')"
    "MmuGetPmlEntry phys s' p (MmuAddressToPti (Suc k) va) = Some ?e" "MmuUnmapIoPage cpu s' p = s"
    using map_read_unmap [OF ok pti_range] by blast
  have L: "walk_loop phys cpu va (Suc k) s pa =
     (if ?e AND PTE_VALID = 0 then Some (0, s)
      else if Suc k \<noteq> 1 \<and> ?e AND PDE_PSE \<noteq> 0 then Some (0, s)
      else if Suc k = 1 then Some ((?e AND 0xFFFFFFFFFFFFF000) OR (va AND 0xFFF), s)
      else walk_loop phys cpu va k s (?e AND 0xFFFFFFFFFFFFF000))"
    using M by (simp add: Let_def)
  show ?case
  proof (cases k)
    case 0
    then show ?thesis unfolding L by (auto simp: page_walk_1)
  next
    case (Suc j)
    obtain r where "walk_loop phys cpu va k s (?e AND 0xFFFFFFFFFFFFF000) = Some (r, s)"
      "\<forall>e. page_walk phys va k ?e e \<longrightarrow> r = (e AND 0xFFFFFFFFFFFFF000) OR (va AND 0xFFF)"
      "(\<nexists>e. page_walk phys va k ?e e) \<longrightarrow> r = 0"
      using Suc.IH [of "?e AND 0xFFFFFFFFFFFFF000"] by (auto simp: page_walk_frame)
    then show ?thesis unfolding L using Suc by (auto simp: page_walk_Suc)
  qed
qed

section \<open>Properties\<close>

text \<open>
  C19: With a free slot on the processor, \<open>MmuGetPhysicalAddress\<close> in another address space
  terminates and leaves every slot and entry as it was; it finds the page exactly when the
  tables map it with a 4-KB page, and returns the leaf entry's bits 63 to 12 with the page
  offset.  That is the physical address only when the entry's bits 63 to 52 are 0: they are
  not masked off, so a no-execute page gets a wrong address.\<close>
theorem physical_address_walk:
  assumes "slots_ok s cpu" "\<exists>i<MAX_MAPPING_SLOTS. \<not> mp_MapInUse (get_map s (cpu, i))"
    and "TargetCr3 AND 0xFFFFFFFFFFFFF000 \<noteq> 0" "TargetCr3 AND 0xFFFFFFFFFFFFF000 \<noteq> cr3 AND 0xFFFFFFFFFFFFF000"
  shows "\<exists>r. MmuGetPhysicalAddress phys os_pa cr3 cpu s TargetCr3 va = Some (r, s) \<and>
    (\<forall>e. page_walk phys va 4 TargetCr3 e \<longrightarrow>
       r = (e AND 0xFFFFFFFFFFFFF000) OR (va AND 0xFFF) \<and>
       (r = (e AND PTE64_PFN_MASK) OR (va AND 0xFFF) \<longleftrightarrow> e AND 0xFFF0000000000000 = 0)) \<and>
    ((\<nexists>e. page_walk phys va 4 TargetCr3 e) \<longrightarrow> r = 0)"
proof -
  have split: "(e AND 0xFFFFFFFFFFFFF000) OR off = (e AND PTE64_PFN_MASK) OR off \<longleftrightarrow> e AND 0xFFF0000000000000 = 0"
    if off: "off = va AND 0xFFF" for e off :: u64
  proof -
    have h: "(0xFFF0000000000000 :: u64) = push_bit 52 (mask 12)" by (simp add: mask_eq_exp_minus_1)
    have "(e AND 0xFFFFFFFFFFFFF000) OR off = (e AND PTE64_PFN_MASK) OR off \<longleftrightarrow> (\<forall>n. 52 \<le> n \<longrightarrow> \<not> bit e n)"
    proof (unfold off const_masks PFN_MASK_mask, intro iffI allI impI notI)
      fix n assume eq: "e AND NOT (mask 12) OR va AND mask 12 = e AND push_bit 12 (mask 40) OR va AND mask 12"
        and n: "52 \<le> n" "bit e n"
      from n(2) have "n < 64" by (auto dest: bit_imp_le_length)
      with n have "bit (e AND NOT (mask 12) OR va AND mask 12) n" "\<not> bit (e AND push_bit 12 (mask 40) OR va AND mask 12) n"
        by (auto simp: bit_simps)
      with eq show False by simp
    next
      assume h: "\<forall>n. 52 \<le> n \<longrightarrow> \<not> bit e n"
      show "e AND NOT (mask 12) OR va AND mask 12 = e AND push_bit 12 (mask 40) OR va AND mask 12"
      proof (rule bit_word_eqI)
        fix n assume "n < LENGTH(64)"
        show "bit (e AND NOT (mask 12) OR va AND mask 12) n = bit (e AND push_bit 12 (mask 40) OR va AND mask 12) n"
          using spec [OF h, of n] \<open>n < LENGTH(64)\<close> by (cases "52 \<le> n") (auto simp: bit_simps)
      qed
    qed
    also have "\<dots> \<longleftrightarrow> e AND 0xFFF0000000000000 = 0"
    proof (unfold h, intro iffI allI impI notI)
      assume "\<forall>n. 52 \<le> n \<longrightarrow> \<not> bit e n"
      then show "e AND push_bit 52 (mask 12) = 0" by (auto simp: bit_eq_iff bit_simps)
    next
      fix n assume z: "e AND push_bit 52 (mask 12) = 0" and n: "52 \<le> n" "bit e n"
      from n(2) have "n < 64" by (auto dest: bit_imp_le_length)
      with n have "bit (e AND push_bit 52 (mask 12)) n" by (auto simp: bit_simps)
      with z show False by simp
    qed
    finally show ?thesis .
  qed
  obtain r where r: "walk_loop phys cpu va 4 s (TargetCr3 AND 0xFFFFFFFFFFFFF000) = Some (r, s)"
    "\<forall>e. page_walk phys va 4 TargetCr3 e \<longrightarrow> r = (e AND 0xFFFFFFFFFFFFF000) OR (va AND 0xFFF)"
    "(\<nexists>e. page_walk phys va 4 TargetCr3 e) \<longrightarrow> r = 0"
    using walk_loop_correct [OF assms(1,2), of phys va 4 "TargetCr3 AND 0xFFFFFFFFFFFFF000", unfolded page_walk_frame]
    by blast
  have "MmuGetPhysicalAddress phys os_pa cr3 cpu s TargetCr3 va = Some (r, s)"
    using r(1) assms(3,4) by (simp only: MmuGetPhysicalAddress_def Let_def MmuGetPagingLevels_def simp_thms if_False)
  moreover have "\<forall>e. page_walk phys va 4 TargetCr3 e \<longrightarrow>
      r = (e AND 0xFFFFFFFFFFFFF000) OR (va AND 0xFFF) \<and>
      (r = (e AND PTE64_PFN_MASK) OR (va AND 0xFFF) \<longleftrightarrow> e AND 0xFFF0000000000000 = 0)"
  proof (intro allI impI)
    fix e assume "page_walk phys va 4 TargetCr3 e"
    then have e: "r = (e AND 0xFFFFFFFFFFFFF000) OR (va AND 0xFFF)" using r(2) by blast
    show "r = (e AND 0xFFFFFFFFFFFFF000) OR (va AND 0xFFF) \<and>
      (r = (e AND PTE64_PFN_MASK) OR (va AND 0xFFF) \<longleftrightarrow> e AND 0xFFF0000000000000 = 0)"
      unfolding e split [OF refl] by (rule conjI) (rule refl)+
  qed
  ultimately show ?thesis using r(3) by blast
qed

text \<open>
  When no page lock raises, \<open>MmuInitialize\<close> gets all of its slots, each unmapped, or
  fails with every MDL, lock, mapping and page table entry given back; finalizing a
  successful start gives everything back too.\<close>
theorem mmu_init_all_or_nothing:
  assumes "env_ok globals env (set (slots n)) s"
  shows "\<exists>st s'. MmuInitialize env True globals n s = Some (st, s') \<and>
    (let restored = (\<lambda>s'. ms_maps s' = None \<and> ms_pte s' = ms_pte s \<and> ms_mdls s' = ms_mdls s \<and>
           ms_locked s' = ms_locked s \<and> ms_mapped s' = ms_mapped s)
     in if NT_SUCCESS st
        then (\<forall>p \<in> set (slots n). get_map s' p = filled globals env s p \<and> ms_pte s' (entry_of_slot globals env p) = 0) \<and>
             (\<exists>s''. MmuFinalize n s' = Some s'' \<and> restored s'')
        else restored s')"
proof -
  have d: "distinct (slots n)" by (simp add: slots_def distinct_product)
  let ?s = "s\<lparr>ms_g := globals, ms_maps := Some (\<lambda>p. zero_mapping)\<rparr>"
  obtain st s' where r: "init_slots env (slots n) ?s = (st, s')" by fastforce
  have t0: "took globals env s {} ?s" by (simp add: took_def)
  have "ms_maps s' \<noteq> None \<and> (\<exists>E. {} \<subseteq> E \<and> E \<subseteq> {} \<union> set (slots n) \<and> took globals env s E s' \<and>
      (\<forall>p. mp_BaseVa (get_map s' p) \<noteq> 0 \<longleftrightarrow> p \<in> E) \<and> (\<forall>p \<in> E. get_map s' p = filled globals env s p) \<and>
      (if NT_SUCCESS st then E = {} \<union> set (slots n) else True))"
    by (rule init_slots_took [OF assms _ d _ t0 _ _ _ r]) (simp_all add: get_map_def)
  then obtain E where E: "ms_maps s' \<noteq> None" "E \<subseteq> set (slots n)" "took globals env s E s'"
    "\<forall>p. mp_BaseVa (get_map s' p) \<noteq> 0 \<longleftrightarrow> p \<in> E" "\<forall>p \<in> E. get_map s' p = filled globals env s p"
    "NT_SUCCESS st \<Longrightarrow> E = set (slots n)" by (auto split: if_splits)
  have "took globals env s (E - set (slots n)) (delete_slots (slots n) s')"
    by (rule delete_slots_took [OF assms E(2) d E(3)]) (use E(4,5) in simp_all)
  then have t: "took globals env s {} (delete_slots (slots n) s')" using E(2) by (simp add: Diff_eq_empty_iff [THEN iffD2])
  have f: "\<exists>s''. MmuFinalize n s' = Some s'' \<and> ms_maps s'' = None \<and> ms_pte s'' = ms_pte s \<and> ms_mdls s'' = ms_mdls s \<and>
      ms_locked s'' = ms_locked s \<and> ms_mapped s'' = ms_mapped s"
    using t E(1) by (simp add: MmuFinalize_def Let_def took_def)
  show ?thesis
  proof (cases "NT_SUCCESS st")
    case True
    have "ms_pte s' (entry_of_slot globals env p) = 0" if "p \<in> set (slots n)" for p
      using E(3) E(6) [OF True] that by (simp add: took_def)
    then show ?thesis using True r f E(5) E(6) [OF True] by (simp add: MmuInitialize_def Let_def)
  next
    case False
    then show ?thesis using r f by (auto simp: MmuInitialize_def Let_def)
  qed
qed

text \<open>
  When the array of slots cannot be allocated \<open>MmuInitialize\<close> still reports success, and
  the later \<open>MmuFinalize\<close> reads through the null array.\<close>
theorem mmu_init_hides_failure:
  "\<exists>s'. MmuInitialize env False globals n s = Some (STATUS_SUCCESS, s') \<and> ms_maps s' = None \<and>
     MmuFinalize (Suc k) s' = None"
  by (simp add: MmuInitialize_def MmuFinalize_def)

text \<open>One processor, a table that maps one page with no-execute set.\<close>

definition example_env :: "slot \<Rightarrow> slot_env" where
  "example_env p = \<lparr>se_mdl = True, se_lock = True, se_va = 0xFFFFF80000010000 + push_bit 12 (word_of_nat (snd p))\<rparr>"

definition example_mmu :: mmu_state where
  "example_mmu = \<lparr>ms_g = example_globals, ms_maps = None, ms_pte = (\<lambda>a. 7), ms_mdls = {}, ms_locked = {}, ms_mapped = {}\<rparr>"

lemma slots_1: "slots 1 = [(0, 0), (0, 1), (0, 2), (0, 3)]"
  by (simp add: slots_def MAX_MAPPING_SLOTS_def upt_rec)

lemma example_globals_eq: "example_globals = \<lparr>mm_SelfMapPmlIndex = 0x1ED, mm_LowerBound = 0xFFFFF68000000000,
    mm_UpperBound = 0xFFFFF6FFFFFFFFF8, mm_La57Enabled = False, mm_PteBase = 0xFFFFF68000000000\<rparr>"
  by (simp add: example_globals_def MmuInitializeMmuGlobals_def Let_def la57_bit MmuGetSelfMapPmlIndex_def
      MmuGetPxeIndex_def MmuAddressToPte_def mmu_defs)

lemma example_env_ok: "env_ok example_globals example_env (set (slots 1)) example_mmu"
  unfolding slots_1 example_globals_eq
  by (simp add: env_ok_def example_env_def example_mmu_def MAX_CPU_def entry_of_slot_def MmuAddressToPte_def PTI_SHIFT_def)

theorem mmu_init_all_or_nothing_witness:
  "\<exists>st s'. MmuInitialize example_env True example_globals 1 example_mmu = Some (st, s') \<and>
    (NT_SUCCESS st \<longrightarrow> (\<exists>s''. MmuFinalize 1 s' = Some s'' \<and> ms_pte s'' = ms_pte example_mmu))"
  using mmu_init_all_or_nothing [OF example_env_ok] by (auto simp: Let_def split: if_splits)

definition example_slots :: mmu_state where
  "example_slots = example_mmu\<lparr>ms_pte := (\<lambda>a. 0), ms_maps := Some (\<lambda>p. \<lparr>mp_MapInUse = False,
     mp_BaseVa = se_va (example_env p), mp_PointerPte = entry_of_slot example_globals example_env p,
     mp_BaseMdl = Some p, mp_OriginalPte = 0\<rparr>)\<rparr>"

lemma example_slots_ok: "slots_ok example_slots 0"
proof -
  have "{..<MAX_MAPPING_SLOTS} = {0, 1, 2, 3}" by (auto simp: MAX_MAPPING_SLOTS_def)
  then have q: "(\<forall>i<MAX_MAPPING_SLOTS. P i) \<longleftrightarrow> P 0 \<and> P 1 \<and> P 2 \<and> P 3" for P
    by (metis lessThan_iff insert_iff emptyE)
  have "ms_g example_slots = MmuInitializeMmuGlobals (\<lambda>pa. 0xFFFFF6FB7DBED000) 0x1AD000 0x6F8"
    by (simp add: example_slots_def example_mmu_def example_globals_def)
  moreover have "inj_on (\<lambda>i. mp_BaseVa (get_map example_slots (0, i))) {..<MAX_MAPPING_SLOTS}"
    unfolding \<open>{..<MAX_MAPPING_SLOTS} = {0, 1, 2, 3}\<close>
    by (simp add: example_slots_def get_map_def example_env_def)
  ultimately show ?thesis unfolding slots_ok_def q
    by (auto simp: example_slots_def example_mmu_def get_map_def example_env_def entry_of_slot_def)
qed

text \<open>Every entry of every table names frame 9, valid, with no-execute set.\<close>

definition example_phys :: "u64 \<Rightarrow> u64" where
  "example_phys a = 0x8000000000009001"

lemma example_walk: "page_walk example_phys 0x7FF612345678 4 0x5000 0x8000000000009001"
proof -
  have "page_walk example_phys 0x7FF612345678 (Suc (Suc (Suc (Suc 0)))) 0x5000 0x8000000000009001"
    unfolding page_walk_Suc page_walk_1 by (simp add: example_phys_def PTE_VALID_def PDE_PSE_def)
  then show ?thesis by (simp add: numeral_eq_Suc)
qed

theorem physical_address_walk_witness:
  "MmuGetPhysicalAddress example_phys (\<lambda>va. 0) 0x3000 0 example_slots 0x5000 0x7FF612345678 =
     Some (0x8000000000009678, example_slots)"
proof -
  have "\<exists>i<MAX_MAPPING_SLOTS. \<not> mp_MapInUse (get_map example_slots (0, i))"
    by (rule exI [of _ 0]) (simp add: example_slots_def get_map_def MAX_MAPPING_SLOTS_def)
  from physical_address_walk [OF example_slots_ok this, of "0x5000" "0x3000" example_phys "\<lambda>va. 0" "0x7FF612345678"]
  show ?thesis using example_walk by auto
qed

end
