(* ===== verification/Slot_List.thy ===== *)
theory Slot_List
  imports Prelude
begin

text \<open>
  The interface between an index list and its clients: a list of numbered slots with a
  head, a successor of a slot, a count and the removal of the head.  The locale proves once
  that a client's search loop terminates with the right answer and that its drain loop
  terminates with every datum removed, in order.
\<close>

locale slot_list =
  fixes rep :: "'t \<Rightarrow> (nat \<times> 'a) list \<Rightarrow> bool"
    and head :: "'t \<Rightarrow> 'a option"
    and nxt :: "'t \<Rightarrow> nat \<Rightarrow> 'a option"
    and count :: "'t \<Rightarrow> nat"
    and pop :: "'t \<Rightarrow> 'a option \<times> 't"
  assumes head_ok: "rep t cs \<Longrightarrow> head t = (case cs of [] \<Rightarrow> None | c # _ \<Rightarrow> Some (snd c))"
    and nxt_ok: "rep t (as @ (i, d) # bs) \<Longrightarrow>
      nxt t i = (case bs of [] \<Rightarrow> None | b # _ \<Rightarrow> Some (snd b))"
    and count_ok: "rep t cs \<Longrightarrow> count t = length cs"
    and pop_ok: "rep t (c # cs) \<Longrightarrow> fst (pop t) = Some (snd c) \<and> rep (snd (pop t)) cs"
begin

text \<open>
  A search: \<open>look d\<close> reads the datum \<open>d\<close> and tells whether it is the one sought and
  the slot it believes to be in; \<open>None\<close> is a fault.
\<close>

lemma search_from:
  assumes walk: "\<And>cur. walk cur = (case cur of None \<Rightarrow> Some False | Some d \<Rightarrow>
      (case look d of None \<Rightarrow> None | Some (hit, i) \<Rightarrow> if hit then Some True else walk (nxt t i)))"
    and rep: "rep t (as @ bs)"
    and look: "\<And>i d. (i, d) \<in> set bs \<Longrightarrow> look d = Some (hit d, i)"
  shows "walk (case bs of [] \<Rightarrow> None | b # _ \<Rightarrow> Some (snd b)) = Some (\<exists>b \<in> set bs. hit (snd b))"
  using rep look
proof (induction bs arbitrary: as)
  case Nil
  then show ?case by (subst walk) simp
next
  case (Cons b bs)
  obtain i d where b: "b = (i, d)" by (cases b)
  have n: "nxt t i = (case bs of [] \<Rightarrow> None | b # _ \<Rightarrow> Some (snd b))"
    using nxt_ok Cons.prems(1) b by simp
  have IH: "walk (nxt t i) = Some (\<exists>b \<in> set bs. hit (snd b))"
    unfolding n using Cons.IH [of "as @ [b]"] Cons.prems by simp
  have "look d = Some (hit d, i)" using Cons.prems(2) b by simp
  then show ?case using IH by (subst walk) (simp add: b)
qed

lemmas search = search_from [where as = Nil, simplified]

text \<open>A drain: the head is popped and handed to \<open>free\<close> until the count is zero.\<close>

lemma drain:
  assumes loop: "\<And>t s. loop t s = (if count t = 0 then Some (t, s)
      else loop (snd (pop t)) (case fst (pop t) of None \<Rightarrow> s | Some d \<Rightarrow> free d s))"
    and rep: "rep t cs"
  shows "\<exists>t'. rep t' [] \<and> loop t s = Some (t', fold free (map snd cs) s)"
  using rep
proof (induction cs arbitrary: t s)
  case Nil
  then show ?case using count_ok [of t "[]"] by (auto simp: loop [of t s])
next
  case (Cons c cs)
  note p = pop_ok [OF Cons.prems]
  obtain t' where "rep t' []"
    "loop (snd (pop t)) (free (snd c) s) = Some (t', fold free (map snd cs) (free (snd c) s))"
    using Cons.IH [of "snd (pop t)" "free (snd c) s"] p by blast
  moreover have "count t \<noteq> 0" using count_ok [OF Cons.prems] by simp
  ultimately show ?case using p by (auto simp: loop [of t s])
qed

end

end
