(* ===== verification/Idx_List.thy ===== *)
theory Idx_List
  imports Slot_List
begin

text \<open>
  The index list of \<open>src/idxlist.c\<close>: a doubly linked list threaded through an array by
  indices, with slot 0 as the sentinel and the unused slots on a free list.  The theory
  gives every operation of the file, the representation invariant that relates the links
  to a list of active slots, and what each operation does to that list.

  \<open>ULONG32\<close> indices are naturals; the one addition that can exceed the width, the size
  of an extended table, is reduced modulo \<open>2^32\<close>.  A \<open>PVOID\<close> is an \<open>'a option\<close>, with
  \<open>None\<close> the null pointer.
\<close>

record 'a idx_node =
  Fidx :: nat
  Bidx :: nat
  Data :: "'a option"

text \<open>
  \<open>NodeList\<close> is \<open>None\<close> while it points to the shared \<open>EmptyList\<close>.
\<close>

record 'a idx_table =
  it_Size :: nat
  it_NodeList :: "'a idx_node list option"
  it_NodeFreeList :: nat
  it_NodeCount :: nat

definition EmptyList :: "'a idx_node list" where
  "EmptyList = [\<lparr>Fidx = 0, Bidx = 0, Data = None\<rparr>]"

definition node_list :: "'a idx_table \<Rightarrow> 'a idx_node list" where
  "node_list t = (case it_NodeList t of None \<Rightarrow> EmptyList | Some nl \<Rightarrow> nl)"

definition InitializeIdxList :: "'a idx_table \<Rightarrow> 'a idx_table" where
  "InitializeIdxList t = t\<lparr>it_Size := 0, it_NodeList := None, it_NodeFreeList := 0,
     it_NodeCount := 0\<rparr>"

text \<open>The second component: whether the node array went back to the pool.\<close>

definition DestroyIdxList :: "'a idx_table \<Rightarrow> 'a idx_table \<times> bool" where
  "DestroyIdxList t =
     (let (t1, freed) = (if it_NodeList t \<noteq> None then (t\<lparr>it_NodeList := None\<rparr>, True) else (t, False))
      in (t1\<lparr>it_Size := 0, it_NodeFreeList := 0, it_NodeCount := 0\<rparr>, freed))"

definition GetSizeIdxList :: "'a idx_table \<Rightarrow> nat" where
  "GetSizeIdxList t = it_Size t"

definition GetNodeCountIdxList :: "'a idx_table \<Rightarrow> nat" where
  "GetNodeCountIdxList t = it_NodeCount t"

definition LookupNodeIdxList :: "'a idx_table \<Rightarrow> nat \<Rightarrow> 'a option" where
  "LookupNodeIdxList t Idx = (if Idx < it_Size t then Data (node_list t ! Idx) else None)"

definition GetHeadNodeIdxList :: "'a idx_table \<Rightarrow> 'a option" where
  "GetHeadNodeIdxList t =
     (if it_Size t \<noteq> 0 then Data (node_list t ! Fidx (node_list t ! 0)) else None)"

definition GetNextNodeIdxList :: "'a idx_table \<Rightarrow> nat \<Rightarrow> 'a option" where
  "GetNextNodeIdxList t Idx =
     (if Idx < it_Size t then Data (node_list t ! Fidx (node_list t ! Idx)) else None)"

text \<open>A page of 4096 bytes holds 256 nodes of 16 bytes.\<close>

definition NODES_PER_PAGE :: nat where "NODES_PER_PAGE = 4096 div 16"

text \<open>\<open>while ((Idx--) > Table->Size)\<close>: threads the new slots onto the free list.\<close>

fun extend_loop :: "nat \<Rightarrow> nat \<Rightarrow> 'a idx_node list \<Rightarrow> nat \<Rightarrow> 'a idx_node list \<times> nat" where
  "extend_loop 0 lo nl fr = (nl, fr)"
| "extend_loop (Suc Idx) lo nl fr =
     (if lo < Suc Idx
      then extend_loop Idx lo (nl[Idx := (nl ! Idx)\<lparr>Data := None, Fidx := fr\<rparr>]) Idx
      else (nl, fr))"

text \<open>
  \<open>pool n\<close> is the result of allocating \<open>n\<close> nodes: uninitialised nodes or nothing.
\<close>

definition ExtendIdxList ::
  "(nat \<Rightarrow> 'a idx_node list option) \<Rightarrow> 'a idx_table \<Rightarrow> bool \<times> 'a idx_table" where
  "ExtendIdxList pool t =
     (let Size = (it_Size t + NODES_PER_PAGE) mod 2 ^ 32
      in case pool Size of
           None \<Rightarrow> (False, t)
         | Some new \<Rightarrow>
             let (nl, fr) = extend_loop Size (it_Size t) new (it_NodeFreeList t);
                 (nl', fr') =
                   (case it_NodeList t of
                      Some old \<Rightarrow> (take (it_Size t) old @ drop (it_Size t) nl, fr)
                    | None \<Rightarrow> (nl[0 := (nl ! 0)\<lparr>Fidx := 0, Bidx := 0\<rparr>], 1))
             in (True, t\<lparr>it_NodeList := Some nl', it_NodeFreeList := fr', it_Size := Size\<rparr>))"

text \<open>The insertion proper, on a table whose free list is not empty.\<close>

definition link_head :: "'a idx_table \<Rightarrow> 'a \<Rightarrow> nat \<times> 'a idx_table" where
  "link_head t d =
     (let nl = node_list t;
          Idx = it_NodeFreeList t;
          free = Fidx (nl ! Idx);
          old = Fidx (nl ! 0);
          nl1 = nl[Idx := (nl ! Idx)\<lparr>Data := Some d, Fidx := old\<rparr>];
          nl2 = nl1[0 := (nl1 ! 0)\<lparr>Fidx := Idx\<rparr>];
          nl3 = nl2[Idx := (nl2 ! Idx)\<lparr>Bidx := 0\<rparr>];
          nxt = Fidx (nl3 ! Idx);
          nl4 = nl3[nxt := (nl3 ! nxt)\<lparr>Bidx := Idx\<rparr>]
      in (Idx, t\<lparr>it_NodeList := Some nl4, it_NodeFreeList := free,
                it_NodeCount := it_NodeCount t + 1\<rparr>))"

definition InsertHeadIdxList ::
  "(nat \<Rightarrow> 'a idx_node list option) \<Rightarrow> 'a idx_table \<Rightarrow> 'a \<Rightarrow> nat \<times> 'a idx_table" where
  "InsertHeadIdxList pool t d =
     (if it_NodeFreeList t = 0
      then let (ok, t1) = ExtendIdxList pool t in if \<not> ok then (0, t) else link_head t1 d
      else link_head t d)"

definition RemoveNodeIdxList :: "'a idx_table \<Rightarrow> nat \<Rightarrow> 'a option \<times> 'a idx_table" where
  "RemoveNodeIdxList t Idx =
     (if it_Size t \<le> Idx \<or> Idx = 0 then (None, t)
      else let nl = node_list t; Node = nl ! Idx
           in if Data Node = None then (None, t)
              else let nl1 = nl[Fidx Node := (nl ! Fidx Node)\<lparr>Bidx := Bidx Node\<rparr>];
                       b = Bidx (nl1 ! Idx);
                       nl2 = nl1[b := (nl1 ! b)\<lparr>Fidx := Fidx (nl1 ! Idx)\<rparr>];
                       nl3 = nl2[Idx := (nl2 ! Idx)\<lparr>Data := None, Fidx := it_NodeFreeList t\<rparr>]
                   in (Data Node, t\<lparr>it_NodeList := Some nl3, it_NodeFreeList := Idx,
                                    it_NodeCount := it_NodeCount t - 1\<rparr>))"

definition RemoveHeadIdxList :: "'a idx_table \<Rightarrow> 'a option \<times> 'a idx_table" where
  "RemoveHeadIdxList t = RemoveNodeIdxList t (Fidx (node_list t ! 0))"

section \<open>The representation invariant\<close>

text \<open>
  \<open>fpath nl i xs\<close>: following \<open>Fidx\<close> from index \<open>i\<close> visits exactly \<open>xs\<close> and reaches 0;
  \<open>bpath nl p xs\<close>: the \<open>Bidx\<close> links lead from the end (the sentinel's) back to \<open>p\<close>.
\<close>

fun fpath :: "'a idx_node list \<Rightarrow> nat \<Rightarrow> nat list \<Rightarrow> bool" where
  "fpath nl i [] = (i = 0)"
| "fpath nl i (x # xs) = (i = x \<and> x \<noteq> 0 \<and> fpath nl (Fidx (nl ! x)) xs)"

fun bpath :: "'a idx_node list \<Rightarrow> nat \<Rightarrow> nat list \<Rightarrow> bool" where
  "bpath nl p [] = (Bidx (nl ! 0) = p)"
| "bpath nl p (x # xs) = (Bidx (nl ! x) = p \<and> bpath nl x xs)"

definition idx_rep :: "'a idx_table \<Rightarrow> nat list \<Rightarrow> nat list \<Rightarrow> bool" where
  "idx_rep t act free \<longleftrightarrow>
     (let nl = node_list t in
      fpath nl (Fidx (nl ! 0)) act \<and> bpath nl 0 act \<and> fpath nl (it_NodeFreeList t) free \<and>
      distinct (act @ free) \<and> (\<forall>i. i \<in> set (act @ free) \<longleftrightarrow> 0 < i \<and> i < it_Size t) \<and>
      (\<forall>i \<in> set act. Data (nl ! i) \<noteq> None) \<and> (\<forall>i \<in> set free. Data (nl ! i) = None) \<and>
      Data (nl ! 0) = None \<and> it_NodeCount t = length act \<and>
      (case it_NodeList t of None \<Rightarrow> it_Size t = 0 | Some l \<Rightarrow> length l = it_Size t \<and> 0 < it_Size t))"

lemma idx_repI:
  assumes "it_NodeList t = Some nl" "length nl = it_Size t" "0 < it_Size t"
    "fpath nl (Fidx (nl ! 0)) act" "bpath nl 0 act" "fpath nl (it_NodeFreeList t) free"
    "distinct (act @ free)" "\<forall>i. i \<in> set (act @ free) \<longleftrightarrow> 0 < i \<and> i < it_Size t"
    "\<forall>i \<in> set act. Data (nl ! i) \<noteq> None" "\<forall>i \<in> set free. Data (nl ! i) = None"
    "Data (nl ! 0) = None" "it_NodeCount t = length act"
  shows "idx_rep t act free"
  using assms by (simp add: idx_rep_def node_list_def)

lemma idx_repD:
  assumes "idx_rep t act free"
  shows "fpath (node_list t) (Fidx (node_list t ! 0)) act" "bpath (node_list t) 0 act"
    "fpath (node_list t) (it_NodeFreeList t) free" "distinct (act @ free)"
    "\<forall>x. x \<in> set (act @ free) \<longleftrightarrow> 0 < x \<and> x < it_Size t"
    "\<forall>x \<in> set act. Data (node_list t ! x) \<noteq> None" "\<forall>x \<in> set free. Data (node_list t ! x) = None"
    "Data (node_list t ! 0) = None" "it_NodeCount t = length act"
  using assms unfolding idx_rep_def Let_def by blast+

text \<open>The abstract value: the active slots in list order with their data.\<close>

definition idx_contents :: "'a idx_table \<Rightarrow> nat list \<Rightarrow> (nat \<times> 'a) list" where
  "idx_contents t act = map (\<lambda>i. (i, the (Data (node_list t ! i)))) act"

lemma idx_contents_cong:
  "(\<And>i. i \<in> set act \<Longrightarrow> Data (node_list t' ! i) = Data (node_list t ! i)) \<Longrightarrow>
     idx_contents t' act = idx_contents t act"
  by (simp add: idx_contents_def)

lemma fpath_cong:
  "(\<And>x. x \<in> set xs \<Longrightarrow> Fidx (nl' ! x) = Fidx (nl ! x)) \<Longrightarrow> fpath nl' i xs = fpath nl i xs"
  by (induction xs arbitrary: i) auto

lemma fpath_zero: "fpath nl 0 xs \<longleftrightarrow> xs = []"
  by (cases xs) auto

lemma fpath_append:
  "fpath nl i (xs @ x # ys) \<Longrightarrow> fpath nl x (x # ys) \<and> fpath nl (Fidx (nl ! x)) ys"
  by (induction xs arbitrary: i) auto

lemma bpath_cong:
  "(\<And>x. x \<in> set xs \<Longrightarrow> Bidx (nl' ! x) = Bidx (nl ! x)) \<Longrightarrow> Bidx (nl' ! 0) = Bidx (nl ! 0) \<Longrightarrow>
     bpath nl' p xs = bpath nl p xs"
  by (induction xs arbitrary: p) auto

lemma idx_rep_initialize: "idx_rep (InitializeIdxList t) [] []"
  by (simp add: idx_rep_def InitializeIdxList_def node_list_def EmptyList_def)

lemma idx_rep_destroy: "idx_rep (fst (DestroyIdxList t)) [] []"
  by (cases "it_NodeList t")
    (simp_all add: idx_rep_def DestroyIdxList_def node_list_def EmptyList_def)

section \<open>Extending the table\<close>

lemma extend_loop_spec:
  "extend_loop n lo nl fr = (nl', fr') \<Longrightarrow> n \<le> length nl \<Longrightarrow>
     length nl' = length nl \<and> fr' = (if lo < n then lo else fr) \<and>
     (\<forall>i < length nl. if lo \<le> i \<and> i < n
        then Data (nl' ! i) = None \<and> Fidx (nl' ! i) = (if Suc i = n then fr else Suc i)
        else nl' ! i = nl ! i)"
proof (induction n arbitrary: nl fr)
  case 0
  then show ?case by simp
next
  case (Suc n)
  show ?case
  proof (cases "lo < Suc n")
    case False
    then show ?thesis using Suc.prems by auto
  next
    case True
    let ?nl = "nl[n := (nl ! n)\<lparr>Data := None, Fidx := fr\<rparr>]"
    have "extend_loop n lo ?nl n = (nl', fr')" using Suc.prems True by simp
    from Suc.IH [OF this] Suc.prems(2)
    have IH: "length nl' = length nl" "fr' = (if lo < n then lo else n)"
      "\<forall>i < length nl. if lo \<le> i \<and> i < n
         then Data (nl' ! i) = None \<and> Fidx (nl' ! i) = (if Suc i = n then n else Suc i)
         else nl' ! i = ?nl ! i" by auto
    have "if lo \<le> i \<and> i < Suc n
        then Data (nl' ! i) = None \<and> Fidx (nl' ! i) = (if Suc i = Suc n then fr else Suc i)
        else nl' ! i = nl ! i" if i: "i < length nl" for i
      using IH(3) [rule_format, OF i] True i by (cases "i = n") (auto split: if_splits)
    then show ?thesis using IH True by auto
  qed
qed

lemma fpath_upt:
  "0 < i \<Longrightarrow> i < n \<Longrightarrow> (\<And>j. i \<le> j \<Longrightarrow> j < n \<Longrightarrow> Fidx (nl ! j) = (if Suc j = n then 0 else Suc j)) \<Longrightarrow>
     fpath nl i [i..<n]"
proof (induction "n - i" arbitrary: i)
  case 0 then show ?case by simp
next
  case (Suc k)
  show ?case
  proof (cases "Suc i = n")
    case True
    with Suc show ?thesis by (simp add: upt_rec)
  next
    case False
    with Suc have "fpath nl (Suc i) [Suc i..<n]" by (intro Suc.hyps(1)) auto
    with Suc.prems False show ?thesis by (simp add: upt_rec [of i])
  qed
qed

definition pool_ok :: "(nat \<Rightarrow> 'a idx_node list option) \<Rightarrow> bool" where
  "pool_ok pool \<longleftrightarrow> (\<forall>n nl. pool n = Some nl \<longrightarrow> length nl = n)"

lemma ExtendIdxList_fails: "ExtendIdxList pool t = (False, t') \<Longrightarrow> t' = t"
  by (auto simp: ExtendIdxList_def Let_def split: option.splits prod.splits)

lemma ExtendIdxList_rep:
  assumes rep: "idx_rep t act []" and pool: "pool_ok pool"
    and small: "it_Size t + NODES_PER_PAGE < 2 ^ 32"
    and e: "ExtendIdxList pool t = (True, t')"
  shows "\<exists>free. free \<noteq> [] \<and> idx_rep t' act free" "idx_contents t' act = idx_contents t act"
    "it_NodeCount t' = it_NodeCount t"
proof -
  define S where "S = it_Size t + NODES_PER_PAGE"
  have S: "(it_Size t + NODES_PER_PAGE) mod 2 ^ 32 = S" "it_Size t < S" "1 < S"
    using small by (auto simp: S_def NODES_PER_PAGE_def)
  obtain new where new: "pool S = Some new" "length new = S"
    using e pool S by (auto simp: ExtendIdxList_def pool_ok_def Let_def split: option.splits)
  obtain nl fr where l: "extend_loop S (it_Size t) new (it_NodeFreeList t) = (nl, fr)" by fastforce
  note L = extend_loop_spec [OF l, unfolded new(2), simplified, THEN conjunct1]
    extend_loop_spec [OF l, unfolded new(2), simplified, THEN conjunct2, THEN conjunct1]
    extend_loop_spec [OF l, unfolded new(2), simplified, THEN conjunct2, THEN conjunct2, rule_format]
  have fr0: "it_NodeFreeList t = 0" using rep by (simp add: idx_rep_def Let_def)
  have new_part: "Data (nl ! i) = None \<and> Fidx (nl ! i) = (if Suc i = S then 0 else Suc i)"
    if "it_Size t \<le> i" "i < S" for i using L(3) [of i] that fr0 by simp
  have "(\<exists>free. free \<noteq> [] \<and> idx_rep t' act free) \<and> idx_contents t' act = idx_contents t act \<and>
    it_NodeCount t' = it_NodeCount t"
  proof (cases "it_NodeList t")
    case None
    then have z: "it_Size t = 0" "act = []" "it_NodeCount t = 0"
      using rep by (auto simp: idx_rep_def Let_def node_list_def EmptyList_def fpath_zero)
    let ?nl = "nl[0 := (nl ! 0)\<lparr>Fidx := 0, Bidx := 0\<rparr>]"
    have t': "t' = t\<lparr>it_NodeList := Some ?nl, it_NodeFreeList := 1, it_Size := S\<rparr>"
      using e new l S(1) None by (simp add: ExtendIdxList_def)
    have "fpath ?nl 1 [1..<S]"
      using new_part S z by (intro fpath_upt) auto
    moreover have D: "Data (nl ! i) = None" if "i < S" for i
      using new_part [of i] z that by simp
    moreover have "Data (?nl ! 0) = None" using D [of 0] S(3) L(1) by simp
    ultimately have "idx_rep t' [] [1..<S]"
      using S(2,3) z L(1) by (auto simp: idx_rep_def t' node_list_def)
    moreover have "[1..<S] \<noteq> []" using S by simp
    ultimately have "\<exists>free. free \<noteq> [] \<and> idx_rep t' act free" using z(2) by blast
    then show ?thesis using z t' by (simp add: idx_contents_def)
  next
    case (Some old)
    let ?nl = "take (it_Size t) old @ drop (it_Size t) nl"
    have t': "t' = t\<lparr>it_NodeList := Some ?nl, it_NodeFreeList := fr, it_Size := S\<rparr>"
      using e new l S(1) Some by (simp add: ExtendIdxList_def)
    have len: "length old = it_Size t" "0 < it_Size t" using rep Some by (simp_all add: idx_rep_def Let_def)
    have lo: "?nl ! i = old ! i" if "i < it_Size t" for i using that len by (simp add: nth_append)
    have hi: "?nl ! i = nl ! i" if "it_Size t \<le> i" "i < S" for i using that len L(1) by (simp add: nth_append)
    have R: "fpath old (Fidx (old ! 0)) act" "bpath old 0 act" "distinct act"
      "\<forall>i. i \<in> set act \<longleftrightarrow> 0 < i \<and> i < it_Size t" "\<forall>i \<in> set act. Data (old ! i) \<noteq> None"
      "Data (old ! 0) = None" "it_NodeCount t = length act"
      using rep Some by (simp_all add: idx_rep_def Let_def node_list_def)
    define nl2 where "nl2 = ?nl"
    have fr: "fr = it_Size t" using L(2) S(2) by simp
    have act: "i < it_Size t" if "i \<in> set act" for i using R(4) that by blast
    have old2: "nl2 ! i = old ! i" if "i < it_Size t" for i using lo that by (simp add: nl2_def)
    have new2: "nl2 ! i = nl ! i" if "it_Size t \<le> i" "i < S" for i using hi that by (simp add: nl2_def)
    have t2: "it_NodeList t' = Some nl2" "it_NodeFreeList t' = it_Size t" "it_Size t' = S"
      "it_NodeCount t' = length act" by (simp_all add: t' nl2_def fr R(7))
    have "idx_rep t' act [it_Size t..<S]"
    proof (rule idx_repI [where nl = nl2], rule t2(1), unfold t2)
      show "length nl2 = S" using len L(1) S(2) by (simp add: nl2_def)
      show "0 < S" using S(2) by simp
      show "fpath nl2 (Fidx (nl2 ! 0)) act"
        using R(1) fpath_cong [of act nl2 old] act by (simp add: old2 len(2))
      show "bpath nl2 0 act"
        using R(2) bpath_cong [of act nl2 old] act by (simp add: old2 len(2))
      show "fpath nl2 (it_Size t) [it_Size t..<S]"
        using new_part S(2) len(2) by (intro fpath_upt) (simp_all add: new2)
      show "distinct (act @ [it_Size t..<S])" using R(3) act by (auto dest: act)
      show "\<forall>i. i \<in> set (act @ [it_Size t..<S]) \<longleftrightarrow> 0 < i \<and> i < S"
      proof
        fix i show "i \<in> set (act @ [it_Size t..<S]) \<longleftrightarrow> 0 < i \<and> i < S"
          using R(4) [rule_format, of i] S(2) len(2) by (simp; linarith)
      qed
      show "\<forall>i \<in> set act. Data (nl2 ! i) \<noteq> None" using R(5) act by (simp add: old2)
      show "\<forall>i \<in> set [it_Size t..<S]. Data (nl2 ! i) = None"
        using new_part by (simp add: new2)
      show "Data (nl2 ! 0) = None" using R(6) by (simp add: old2 len(2))
    qed (rule refl)
    moreover have "idx_contents t' act = idx_contents t act"
      using act by (intro idx_contents_cong) (simp add: node_list_def t2(1) Some old2)
    moreover have "[it_Size t..<S] \<noteq> []" using S(2) by simp
    moreover have "it_NodeCount t' = it_NodeCount t" using t' by simp
    ultimately show ?thesis by blast
  qed
  then show "\<exists>free. free \<noteq> [] \<and> idx_rep t' act free" "idx_contents t' act = idx_contents t act"
    "it_NodeCount t' = it_NodeCount t" by simp_all
qed

section \<open>Insertion and removal\<close>

lemma idx_rep_lengths:
  assumes "idx_rep t act free" "act @ free \<noteq> []"
  shows "length (node_list t) = it_Size t" "0 < it_Size t"
    "it_NodeList t = Some (node_list t)"
proof -
  obtain x where "x \<in> set (act @ free)" using assms(2) last_in_set by blast
  then have "x < it_Size t" using assms(1) by (auto simp: idx_rep_def Let_def)
  then show "length (node_list t) = it_Size t" "0 < it_Size t" "it_NodeList t = Some (node_list t)"
    using assms(1) by (auto simp: idx_rep_def Let_def node_list_def split: option.splits)
qed

lemma fpath_hd: "fpath nl i xs \<Longrightarrow> i = (case xs of [] \<Rightarrow> 0 | x # _ \<Rightarrow> x)"
  by (cases xs) auto

lemma link_head_rep:
  assumes rep: "idx_rep t act (i # free)" and l: "link_head t d = (i', t')"
  shows "i' = i" "idx_rep t' (i # act) free"
    "idx_contents t' (i # act) = (i, d) # idx_contents t act" "it_Size t' = it_Size t"
proof -
  let ?nl = "node_list t" and ?old = "Fidx (node_list t ! 0)"
  note len = idx_rep_lengths [OF rep, simplified]
  have R: "fpath ?nl ?old act" "bpath ?nl 0 act" "fpath ?nl (Fidx (?nl ! i)) free"
    "it_NodeFreeList t = i" "distinct (act @ i # free)"
    "\<forall>x. x \<in> set (act @ i # free) \<longleftrightarrow> 0 < x \<and> x < it_Size t"
    "\<forall>x \<in> set act. Data (?nl ! x) \<noteq> None" "\<forall>x \<in> set free. Data (?nl ! x) = None"
    "Data (?nl ! 0) = None" "it_NodeCount t = length act"
    using rep by (auto simp: idx_rep_def Let_def)
  have i: "0 < i" "i < it_Size t" "i \<notin> set act" "i \<notin> set free" using R(5,6) by auto
  have old: "?old < it_Size t" "?old \<noteq> i"
    using fpath_hd [OF R(1)] R(6) i len(2) by (auto split: list.splits)
  define nl where "nl = (let nl1 = ?nl[i := (?nl ! i)\<lparr>Data := Some d, Fidx := ?old\<rparr>];
          nl2 = nl1[0 := (nl1 ! 0)\<lparr>Fidx := i\<rparr>];
          nl3 = nl2[i := (nl2 ! i)\<lparr>Bidx := 0\<rparr>]
      in nl3[?old := (nl3 ! ?old)\<lparr>Bidx := i\<rparr>])"
  have eq: "i' = i" "t' = t\<lparr>it_NodeList := Some nl, it_NodeFreeList := Fidx (?nl ! i),
      it_NodeCount := it_NodeCount t + 1\<rparr>"
    using l i len by (auto simp: link_head_def Let_def R(4) nl_def)
  have F: "Fidx (nl ! x) = (if x = i then ?old else if x = 0 then i else Fidx (?nl ! x))"
    and D: "Data (nl ! x) = (if x = i then Some d else Data (?nl ! x))"
    and B: "Bidx (nl ! x) = (if x = ?old then i else if x = i then 0 else Bidx (?nl ! x))"
    if "x < it_Size t" for x
    using that i old len by (simp_all add: nl_def Let_def nth_list_update)
  have in_act: "x < it_Size t" "x \<noteq> 0" "x \<noteq> i" if "x \<in> set act" for x using that R(6) i by auto
  have in_free: "x < it_Size t" "x \<noteq> 0" "x \<noteq> i" if "x \<in> set free" for x using that R(6) i by auto
  have "fpath nl ?old act" using R(1) fpath_cong [of act nl ?nl] F in_act by simp
  then have 1: "fpath nl (Fidx (nl ! 0)) (i # act)" using F i len by simp
  have "bpath nl i act"
  proof (cases act)
    case Nil then show ?thesis using B [of 0] R(1) len by simp
  next
    case (Cons a as)
    then have "?old = a" "a \<notin> set as" using R(1,5) by auto
    moreover have "bpath nl a as"
      using R(2) Cons bpath_cong [of as nl ?nl a] B in_act len(2) \<open>?old = a\<close> \<open>a \<notin> set as\<close> i
      by (metis bpath.simps(2) list.set_intros(1,2) not_gr_zero)
    ultimately show ?thesis using Cons B in_act by simp
  qed
  then have 2: "bpath nl 0 (i # act)" using B [of i] i old by simp
  have 3: "fpath nl (Fidx (?nl ! i)) free" using R(3) fpath_cong [of free nl ?nl] F in_free by simp
  have 4: "\<forall>x \<in> set (i # act). Data (nl ! x) \<noteq> None" "\<forall>x \<in> set free. Data (nl ! x) = None"
    "Data (nl ! 0) = None" using R(7-9) D in_act in_free i len by auto
  have 5: "length nl = it_Size t" using len by (simp add: nl_def Let_def)
  have 6: "distinct ((i # act) @ free)" "\<forall>x. x \<in> set ((i # act) @ free) \<longleftrightarrow> 0 < x \<and> x < it_Size t"
    using R(5) R(6) by auto
  show "i' = i" by (rule eq)
  show "it_Size t' = it_Size t" using eq by simp
  show "idx_rep t' (i # act) free"
  proof (rule idx_repI [where nl = nl])
    show "fpath nl (it_NodeFreeList t') free" using 3 by (simp add: eq(2))
    show "\<forall>x. x \<in> set ((i # act) @ free) \<longleftrightarrow> 0 < x \<and> x < it_Size t'"
      using 6(2) by (simp add: eq(2))
  qed (use 1 2 4 5 6(1) R(10) len(2) in \<open>simp_all add: eq(2)\<close>)
  have "idx_contents t' act = idx_contents t act"
    using D in_act by (intro idx_contents_cong) (simp add: eq(2) node_list_def)
  moreover have "Data (node_list t' ! i) = Some d" using D [of i] i by (simp add: eq(2) node_list_def)
  ultimately show "idx_contents t' (i # act) = (i, d) # idx_contents t act"
    by (simp add: idx_contents_def)
qed

lemma fpath_unlink:
  "fpath nl (Fidx (nl ! q)) (xs @ i # ys) \<Longrightarrow> distinct (q # xs @ i # ys) \<Longrightarrow>
     (\<And>x. x \<in> set (q # xs @ ys) \<Longrightarrow>
        Fidx (nl' ! x) = (if x = last (q # xs) then Fidx (nl ! i) else Fidx (nl ! x))) \<Longrightarrow>
     fpath nl' (Fidx (nl' ! q)) (xs @ ys)"
proof (induction xs arbitrary: q)
  case Nil
  then have "fpath nl (Fidx (nl ! i)) ys" by simp
  moreover have "Fidx (nl' ! x) = Fidx (nl ! x)" if "x \<in> set ys" for x
    using Nil.prems(2) Nil.prems(3) [of x] that by auto
  ultimately have "fpath nl' (Fidx (nl ! i)) ys" using fpath_cong [of ys nl' nl] by blast
  then show ?case using Nil.prems(3) [of q] by simp
next
  case (Cons a xs)
  have "last (a # xs) \<in> set (a # xs)" by (rule last_in_set) simp
  then have q: "q \<noteq> last (a # xs)" using Cons.prems(2) by auto
  have "fpath nl' (Fidx (nl' ! a)) (xs @ ys)"
    using Cons.prems by (intro Cons.IH) (auto split: if_splits)
  moreover have "Fidx (nl' ! q) = a" "a \<noteq> 0"
    using Cons.prems(1) Cons.prems(3) [of q] q by (simp_all split: if_splits)
  ultimately show ?case by simp
qed

lemma bpath_pred: "bpath nl q (xs @ i # ys) \<Longrightarrow> Bidx (nl ! i) = last (q # xs) \<and> bpath nl i ys"
  by (induction xs arbitrary: q) auto

lemma bpath_unlink:
  "bpath nl q (xs @ i # ys) \<Longrightarrow> distinct (0 # xs @ i # ys) \<Longrightarrow>
     (\<And>x. x \<in> set (0 # xs @ ys) \<Longrightarrow>
        Bidx (nl' ! x) = (if x = (case ys of [] \<Rightarrow> 0 | y # _ \<Rightarrow> y) then last (q # xs) else Bidx (nl ! x))) \<Longrightarrow>
     bpath nl' q (xs @ ys)"
proof (induction xs arbitrary: q)
  case Nil
  show ?case
  proof (cases ys)
    case Nil then show ?thesis using Nil.prems(3) [of 0] by simp
  next
    case (Cons y zs)
    have "bpath nl y zs" using Nil.prems(1) Cons by simp
    moreover have "Bidx (nl' ! x) = Bidx (nl ! x)" if "x \<in> insert 0 (set zs)" for x
      using Nil.prems(2) Nil.prems(3) [of x] Cons that by auto
    ultimately have "bpath nl' y zs" using bpath_cong [of zs nl' nl y] by simp
    then show ?thesis using Nil.prems(3) [of y] Cons by simp
  qed
next
  case (Cons a xs)
  have a: "a \<noteq> (case ys of [] \<Rightarrow> 0 | y # _ \<Rightarrow> y)" using Cons.prems(2) by (cases ys) auto
  have "bpath nl' a (xs @ ys)"
  proof (rule Cons.IH)
    show "bpath nl a (xs @ i # ys)" "distinct (0 # xs @ i # ys)" using Cons.prems(1,2) by simp_all
    fix x assume "x \<in> set (0 # xs @ ys)"
    then have "x \<in> set (0 # (a # xs) @ ys)" by auto
    from Cons.prems(3) [OF this]
    show "Bidx (nl' ! x) = (if x = (case ys of [] \<Rightarrow> 0 | y # _ \<Rightarrow> y) then last (a # xs) else Bidx (nl ! x))"
      by (simp only: last.simps(1) list.distinct if_False last_ConsR not_False_eq_True)
  qed
  then show ?case using Cons.prems(1) Cons.prems(3) [of a] a by simp
qed

lemma RemoveNodeIdxList_rep:
  assumes rep: "idx_rep t (xs @ i # ys) free" and r: "RemoveNodeIdxList t i = (d, t')"
  shows "d = Data (node_list t ! i)" "d \<noteq> None" "idx_rep t' (xs @ ys) (i # free)"
    "idx_contents t' (xs @ ys) = idx_contents t (xs @ ys)" "it_Size t' = it_Size t"
proof -
  let ?nl = "node_list t"
  note len = idx_rep_lengths [OF rep, simplified]
  note R = idx_repD [OF rep]
  define n p where "n = (case ys of [] \<Rightarrow> 0 | y # _ \<Rightarrow> y)" and "p = last (0 # xs)"
  have mem: "0 < x" "x < it_Size t" if "x \<in> set (xs @ i # ys @ free)" for x
    using R(5) [rule_format, of x] that by auto
  have i: "0 < i" "i < it_Size t" "Data (?nl ! i) \<noteq> None" using mem [of i] R(6) by auto
  have ne: "x \<noteq> i" if "x \<in> set xs \<union> set ys \<union> set free" for x using R(4) that by auto
  have n: "Fidx (?nl ! i) = n" "n < it_Size t" "n \<noteq> i"
    using fpath_append [OF R(1)] fpath_hd [of ?nl "Fidx (?nl ! i)" ys] mem ne i len(2)
    by (auto simp: n_def split: list.splits)
  have "p = 0 \<or> p \<in> set xs" using last_in_set [of xs] by (auto simp: p_def)
  then have p: "Bidx (?nl ! i) = p" "p < it_Size t" "p \<noteq> i"
    using bpath_pred [OF R(2)] mem ne i len(2) by (auto simp: p_def)
  define nl where "nl = (let nl1 = ?nl[n := (?nl ! n)\<lparr>Bidx := p\<rparr>];
       nl2 = nl1[p := (nl1 ! p)\<lparr>Fidx := n\<rparr>]
    in nl2[i := (nl2 ! i)\<lparr>Data := None, Fidx := it_NodeFreeList t\<rparr>])"
  have eq: "d = Data (?nl ! i)" "t' = t\<lparr>it_NodeList := Some nl, it_NodeFreeList := i,
      it_NodeCount := it_NodeCount t - 1\<rparr>"
    using r i n p by (auto simp: RemoveNodeIdxList_def Let_def nl_def)
  have F: "Fidx (nl ! x) = (if x = i then it_NodeFreeList t else if x = p then n else Fidx (?nl ! x))"
    and D: "Data (nl ! x) = (if x = i then None else Data (?nl ! x))"
    and B: "Bidx (nl ! x) = (if x = n then p else Bidx (?nl ! x))"
    if "x < it_Size t" for x
    using that i n p len by (simp_all add: nl_def Let_def nth_list_update)
  have t': "it_NodeList t' = Some nl" "it_NodeFreeList t' = i" "it_Size t' = it_Size t"
    "it_NodeCount t' = length (xs @ ys)" using R(9) by (simp_all add: eq(2))
  show "d = Data (?nl ! i)" "d \<noteq> None" "it_Size t' = it_Size t" using eq(1) i(3) t'(3) by simp_all
  have dist: "distinct (0 # xs @ i # ys)" using R(4) mem(1) by auto
  have xin: "x < it_Size t" "x \<noteq> i" if "x \<in> set (0 # xs @ ys)" for x
    using that mem ne i(1) len(2) by auto
  show "idx_rep t' (xs @ ys) (i # free)"
  proof (rule idx_repI [where nl = nl], rule t'(1), unfold t')
    show "length nl = it_Size t" using len by (simp add: nl_def Let_def)
    show "0 < it_Size t" using len by simp
    show "fpath nl (Fidx (nl ! 0)) (xs @ ys)"
    proof (rule fpath_unlink [OF R(1) dist])
      fix x assume "x \<in> set (0 # xs @ ys)"
      from F [OF xin(1) [OF this]] xin(2) [OF this]
      show "Fidx (nl ! x) = (if x = last (0 # xs) then Fidx (?nl ! i) else Fidx (?nl ! x))"
        by (simp only: p_def n(1) if_False)
    qed
    show "bpath nl 0 (xs @ ys)"
    proof (rule bpath_unlink [OF R(2) dist])
      fix x assume "x \<in> set (0 # xs @ ys)"
      from B [OF xin(1) [OF this]]
      show "Bidx (nl ! x) = (if x = (case ys of [] \<Rightarrow> 0 | y # _ \<Rightarrow> y) then last (0 # xs) else Bidx (?nl ! x))"
        by (simp only: p_def n_def)
    qed
    show "fpath nl i (i # free)"
    proof -
      have "x \<noteq> p" "x \<noteq> i" "x < it_Size t" if "x \<in> set free" for x
        using R(4) mem [of x] that \<open>p = 0 \<or> p \<in> set xs\<close> by auto
      then have "fpath nl (it_NodeFreeList t) free"
        using R(3) fpath_cong [of free nl ?nl] by (simp add: F)
      then show ?thesis using F [OF i(2)] i(1) by simp
    qed
    show "distinct ((xs @ ys) @ i # free)" using R(4) by auto
    show "\<forall>x. x \<in> set ((xs @ ys) @ i # free) \<longleftrightarrow> 0 < x \<and> x < it_Size t"
      using R(5) by simp
    show "\<forall>x \<in> set (xs @ ys). Data (nl ! x) \<noteq> None" using R(6) D mem ne by auto
    show "\<forall>x \<in> set (i # free). Data (nl ! x) = None" using R(7) D mem i by auto
    show "Data (nl ! 0) = None" using R(8) D [of 0] i len(2) by simp
  qed (rule refl)
  show "idx_contents t' (xs @ ys) = idx_contents t (xs @ ys)"
    using xin D by (intro idx_contents_cong) (simp add: node_list_def t'(1))
qed

section \<open>The table as a list of slots\<close>

text \<open>
  \<open>idx_list t cs\<close>: the table is well formed and its active slots, from the head on,
  hold \<open>cs\<close>.
\<close>

definition idx_list :: "'a idx_table \<Rightarrow> (nat \<times> 'a) list \<Rightarrow> bool" where
  "idx_list t cs \<longleftrightarrow> (\<exists>free. idx_rep t (map fst cs) free \<and> idx_contents t (map fst cs) = cs)"

lemma idx_listI: "idx_rep t act free \<Longrightarrow> idx_list t (idx_contents t act)"
  by (auto simp: idx_list_def idx_contents_def o_def)

lemma idx_contents_append: "idx_contents t (xs @ ys) = idx_contents t xs @ idx_contents t ys"
  by (simp add: idx_contents_def)

lemma idx_contents_Cons: "idx_contents t (i # xs) = (i, the (Data (node_list t ! i))) # idx_contents t xs"
  by (simp add: idx_contents_def)

lemma idx_list_initialize: "idx_list (InitializeIdxList t) []"
  using idx_listI [OF idx_rep_initialize] by (simp add: idx_contents_def)

lemma idx_list_destroy: "idx_list (fst (DestroyIdxList t)) []"
  using idx_listI [OF idx_rep_destroy] by (simp add: idx_contents_def)

lemma idx_list_count: "idx_list t cs \<Longrightarrow> it_NodeCount t = length cs"
  by (metis idx_list_def idx_repD(9) length_map)

lemma idx_list_slots:
  assumes "idx_list t cs"
  shows "distinct (map fst cs)" "(i, d) \<in> set cs \<Longrightarrow> 0 < i \<and> i < it_Size t"
proof -
  obtain free where "idx_rep t (map fst cs) free" using assms by (auto simp: idx_list_def)
  note R = idx_repD [OF this]
  show "distinct (map fst cs)" using R(4) by simp
  show "0 < i \<and> i < it_Size t" if "(i, d) \<in> set cs"
    using R(5) [rule_format, of i] that by force
qed

lemma idx_contents_data:
  assumes "idx_contents t (map fst cs) = cs" "(i, d) \<in> set cs" "Data (node_list t ! i) \<noteq> None"
  shows "Data (node_list t ! i) = Some d"
proof -
  have "(i, d) \<in> set (map (\<lambda>i. (i, the (Data (node_list t ! i)))) (map fst cs))"
    using assms(1,2) by (simp only: idx_contents_def)
  then show ?thesis using assms(3) by auto
qed

lemma idx_list_lookup:
  assumes "idx_list t cs" shows "LookupNodeIdxList t i = (if i < it_Size t then map_of cs i else None)"
proof -
  obtain free where rep: "idx_rep t (map fst cs) free" and c: "idx_contents t (map fst cs) = cs"
    using assms by (auto simp: idx_list_def)
  note R = idx_repD [OF rep]
  show ?thesis
  proof (cases "i \<in> fst ` set cs")
    case True
    then obtain d where d: "(i, d) \<in> set cs" by auto
    then have "Data (node_list t ! i) = Some d"
      using idx_contents_data [OF c d] R(6) by force
    moreover have "map_of cs i = Some d"
      using d idx_list_slots(1) [OF assms] by (simp add: map_of_eq_Some_iff)
    ultimately show ?thesis by (simp add: LookupNodeIdxList_def)
  next
    case False
    then have "map_of cs i = None" by (simp add: map_of_eq_None_iff)
    moreover have "Data (node_list t ! i) = None" if "i < it_Size t"
      using R(5) [rule_format, of i] R(7,8) False that by (cases "i = 0") auto
    ultimately show ?thesis by (simp add: LookupNodeIdxList_def)
  qed
qed

lemma idx_list_insert:
  assumes t: "idx_list t cs" and pool: "pool_ok pool"
    and small: "it_Size t + NODES_PER_PAGE < 2 ^ 32"
    and ins: "InsertHeadIdxList pool t d = (i, t')"
  shows "i = 0 \<and> t' = t \<or> 0 < i \<and> LookupNodeIdxList t i = None \<and> idx_list t' ((i, d) # cs)"
proof -
  obtain free where rep: "idx_rep t (map fst cs) free" and c: "idx_contents t (map fst cs) = cs"
    using t by (auto simp: idx_list_def)
  have link: "0 < i \<and> idx_list t' ((i, d) # cs) \<and> i \<notin> fst ` set cs"
    if "idx_rep u (map fst cs) (f # fs)" "idx_contents u (map fst cs) = cs" "link_head u d = (i, t')"
    for u f fs
  proof -
    note L = link_head_rep [OF that(1,3)]
    have "0 < f" "f \<notin> set (map fst cs)" using idx_repD(4,5) [OF that(1)] by auto
    moreover have "idx_list t' ((f, d) # cs)" using idx_listI [OF L(2)] L(3) that(2) by simp
    ultimately show ?thesis using L(1) by simp
  qed
  have new: "LookupNodeIdxList t i = None" if "i \<notin> fst ` set cs"
    using idx_list_lookup [OF t, of i] that by (simp add: map_of_eq_None_iff)
  show ?thesis
  proof (cases "it_NodeFreeList t = 0")
    case False
    then obtain f fs where "free = f # fs" using idx_repD(3) [OF rep] by (cases free) auto
    moreover have "link_head t d = (i, t')" using ins False by (simp add: InsertHeadIdxList_def)
    ultimately show ?thesis using link [of t f fs] rep c new by simp
  next
    case True
    obtain ok u where e: "ExtendIdxList pool t = (ok, u)" by fastforce
    show ?thesis
    proof (cases ok)
      case False
      then show ?thesis using ins True e by (simp add: InsertHeadIdxList_def)
    next
      case ok: True
      have "idx_rep t (map fst cs) []" using rep True fpath_zero idx_repD(3) [OF rep] by metis
      note E = ExtendIdxList_rep [OF this pool small e [unfolded ok [THEN eqTrueI]]]
      obtain f fs where "idx_rep u (map fst cs) (f # fs)" using E(1) by (metis neq_Nil_conv)
      moreover have "link_head u d = (i, t')" using ins True e ok by (simp add: InsertHeadIdxList_def)
      ultimately show ?thesis using link [of u f fs] E(2) c new by simp
    qed
  qed
qed

lemma idx_list_remove:
  assumes t: "idx_list t (as @ (i, d) # bs)" and r: "RemoveNodeIdxList t i = (x, t')"
  shows "x = Some d" "idx_list t' (as @ bs)" "it_Size t' = it_Size t"
proof -
  let ?cs = "as @ (i, d) # bs"
  obtain free where rep: "idx_rep t (map fst as @ i # map fst bs) free"
    and c: "idx_contents t (map fst ?cs) = ?cs" using t by (auto simp: idx_list_def)
  note R = RemoveNodeIdxList_rep [OF rep r]
  show "x = Some d" using idx_contents_data [OF c, of i d] R(1,2) by simp
  show "it_Size t' = it_Size t" by (rule R(5))
  have "idx_contents t (map fst as @ map fst bs) = as @ bs"
    using c by (simp add: idx_contents_append idx_contents_Cons) (simp add: idx_contents_def append_eq_append_conv)
  then show "idx_list t' (as @ bs)" using idx_listI [OF R(3)] R(4) by simp
qed

lemma idx_list_head_index:
  "idx_list t cs \<Longrightarrow> Fidx (node_list t ! 0) = (case cs of [] \<Rightarrow> 0 | c # _ \<Rightarrow> fst c)"
proof -
  assume "idx_list t cs"
  then obtain free where "idx_rep t (map fst cs) free" by (auto simp: idx_list_def)
  from fpath_hd [OF idx_repD(1) [OF this]] show ?thesis by (cases cs) auto
qed

lemma idx_list_remove_head:
  assumes t: "idx_list t cs" and r: "RemoveHeadIdxList t = (x, t')"
  shows "x = (case cs of [] \<Rightarrow> None | c # _ \<Rightarrow> Some (snd c))" "idx_list t' (tl cs)"
proof -
  have "x = (case cs of [] \<Rightarrow> None | c # _ \<Rightarrow> Some (snd c)) \<and> idx_list t' (tl cs)"
  proof (cases cs)
    case Nil
    then show ?thesis
      using r t idx_list_head_index [OF t] by (simp add: RemoveHeadIdxList_def RemoveNodeIdxList_def)
  next
    case (Cons c bs)
    obtain i d where c: "c = (i, d)" by (cases c)
    have "RemoveNodeIdxList t i = (x, t')"
      using r unfolding RemoveHeadIdxList_def idx_list_head_index [OF t] Cons c by simp
    from idx_list_remove(1,2) [OF _ this, of "[]" d bs] t
    show ?thesis unfolding Cons c by simp
  qed
  then show "x = (case cs of [] \<Rightarrow> None | c # _ \<Rightarrow> Some (snd c))" "idx_list t' (tl cs)" by simp_all
qed

lemma idx_list_next:
  assumes t: "idx_list t (as @ (i, d) # bs)"
  shows "GetNextNodeIdxList t i = (case bs of [] \<Rightarrow> None | b # _ \<Rightarrow> Some (snd b))"
proof -
  let ?cs = "as @ (i, d) # bs"
  obtain free where rep: "idx_rep t (map fst ?cs) free"
    and c: "idx_contents t (map fst ?cs) = ?cs" using t by (auto simp: idx_list_def)
  note R = idx_repD [OF rep]
  have "fpath (node_list t) (Fidx (node_list t ! i)) (map fst bs)"
    using fpath_append [of "node_list t" _ "map fst as" i] R(1) by simp
  then have f: "Fidx (node_list t ! i) = (case bs of [] \<Rightarrow> 0 | b # _ \<Rightarrow> fst b)"
    using fpath_hd [of "node_list t" _ "map fst bs"] by (cases bs) auto
  have i: "i < it_Size t" using idx_list_slots(2) [OF t] by auto
  show ?thesis
  proof (cases bs)
    case Nil
    then show ?thesis using f i R(8) by (simp add: GetNextNodeIdxList_def)
  next
    case (Cons b bs')
    then have "Data (node_list t ! fst b) = Some (snd b)"
      using idx_contents_data [OF c, of "fst b" "snd b"] R(6) by simp
    then show ?thesis using f i Cons by (simp add: GetNextNodeIdxList_def)
  qed
qed

lemma idx_list_head:
  assumes t: "idx_list t cs"
  shows "GetHeadNodeIdxList t = (case cs of [] \<Rightarrow> None | c # _ \<Rightarrow> Some (snd c))"
proof -
  obtain free where rep: "idx_rep t (map fst cs) free"
    and c: "idx_contents t (map fst cs) = cs" using t by (auto simp: idx_list_def)
  note R = idx_repD [OF rep]
  show ?thesis
  proof (cases cs)
    case Nil
    then show ?thesis using idx_list_head_index [OF t] R(8) by (simp add: GetHeadNodeIdxList_def)
  next
    case (Cons b bs')
    then have "Data (node_list t ! fst b) = Some (snd b)"
      using idx_contents_data [OF c, of "fst b" "snd b"] R(6) by simp
    moreover have "0 < it_Size t" using idx_list_slots(2) [OF t, of "fst b" "snd b"] Cons by simp
    ultimately show ?thesis using idx_list_head_index [OF t] Cons by (simp add: GetHeadNodeIdxList_def)
  qed
qed

text \<open>The index list provides the interface its clients walk and drain.\<close>

interpretation idx: slot_list idx_list GetHeadNodeIdxList GetNextNodeIdxList GetNodeCountIdxList
  RemoveHeadIdxList
proof (unfold_locales, goal_cases)
  case (1 t cs) then show ?case by (rule idx_list_head)
next
  case (2 t as i d bs) then show ?case by (rule idx_list_next)
next
  case (3 t cs) then show ?case by (simp add: GetNodeCountIdxList_def idx_list_count)
next
  case (4 t c cs) then show ?case
    using idx_list_remove_head [OF 4 prod.collapse [symmetric]] by simp
qed

section \<open>Properties\<close>

definition idx_example :: "nat idx_table" where
  "idx_example = InitializeIdxList
     \<lparr>it_Size = 7, it_NodeList = None, it_NodeFreeList = 7, it_NodeCount = 7\<rparr>"

definition pool_example :: "nat \<Rightarrow> nat idx_node list option" where
  "pool_example n = Some (replicate n \<lparr>Fidx = 9, Bidx = 9, Data = Some 9\<rparr>)"

lemma pool_example_ok: "pool_ok pool_example"
  by (simp add: pool_ok_def pool_example_def)

lemma idx_example_list: "idx_list idx_example []" "it_Size idx_example = 0"
  by (simp add: idx_example_def idx_list_initialize) (simp add: idx_example_def InitializeIdxList_def)

lemma idx_example_insert:
  "\<exists>i. idx_list (snd (InsertHeadIdxList pool_example idx_example 5)) [(i, 5)]"
proof -
  let ?r = "InsertHeadIdxList pool_example idx_example 5"
  have "snd ?r \<noteq> idx_example"
    by (simp add: InsertHeadIdxList_def idx_example_def InitializeIdxList_def ExtendIdxList_def
        pool_example_def link_head_def Let_def split: prod.splits)
  moreover have "it_Size idx_example + NODES_PER_PAGE < 2 ^ 32"
    by (simp add: idx_example_list(2) NODES_PER_PAGE_def)
  ultimately show ?thesis
    using idx_list_insert [OF idx_example_list(1) pool_example_ok _ prod.collapse [symmetric], of 5]
    by blast
qed

text \<open>
  \<open>InsertHeadIdxList\<close> either finds no memory, returns 0 and leaves the table alone, or
  returns a nonzero index that was not in use, and the table is then the old list with the
  new datum in front, every link and the free list consistent, also when the array had to
  be extended.
\<close>

theorem insert_head_correct:
  assumes "idx_list t cs" "pool_ok pool" "it_Size t + NODES_PER_PAGE < 2 ^ 32"
    "InsertHeadIdxList pool t d = (i, t')"
  shows "i = 0 \<and> t' = t \<or>
    0 < i \<and> LookupNodeIdxList t i = None \<and> idx_list t' ((i, d) # cs) \<and> it_NodeCount t' = length cs + 1"
  using idx_list_insert [OF assms] idx_list_count by fastforce

theorem insert_head_correct_witness:
  "\<exists>i. idx_list (snd (InsertHeadIdxList pool_example idx_example 5)) [(i, 5)]"
proof -
  let ?r = "InsertHeadIdxList pool_example idx_example 5"
  have "snd ?r \<noteq> idx_example"
    by (simp add: InsertHeadIdxList_def idx_example_def InitializeIdxList_def ExtendIdxList_def
        pool_example_def link_head_def Let_def split: prod.splits)
  moreover have "it_Size idx_example + NODES_PER_PAGE < 2 ^ 32"
    by (simp add: idx_example_list(2) NODES_PER_PAGE_def)
  ultimately show ?thesis
    using insert_head_correct [OF idx_example_list(1) pool_example_ok _ prod.collapse [symmetric], of 5]
    by blast
qed

text \<open>
  Removing an active slot returns its datum and takes exactly that slot out of the
  list, whatever its position; the rest keeps its order and its indices.
\<close>

theorem remove_node_correct:
  assumes "idx_list t (as @ (i, d) # bs)" "RemoveNodeIdxList t i = (r, t')"
  shows "r = Some d \<and> idx_list t' (as @ bs) \<and> LookupNodeIdxList t' i = None"
proof -
  note R = idx_list_remove [OF assms]
  have "map_of (as @ bs) i = None"
    using idx_list_slots(1) [OF assms(1)] by (auto simp: map_of_eq_None_iff)
  then show ?thesis using R idx_list_lookup [OF R(2)] by simp
qed

theorem remove_node_correct_witness:
  "\<exists>i t'. RemoveNodeIdxList (snd (InsertHeadIdxList pool_example idx_example 5)) i = (Some 5, t') \<and>
     idx_list t' []"
proof -
  obtain i where "idx_list (snd (InsertHeadIdxList pool_example idx_example 5)) ([] @ (i, 5) # [])"
    using idx_example_insert by auto
  from remove_node_correct [OF this prod.collapse [symmetric]] show ?thesis
    by (metis append_Nil prod.collapse)
qed

end
