(* ===== verification/Exclusion.thy ===== *)
theory Exclusion
  imports Idx_List
begin

text \<open>
  The per-process list of excluded threads of \<open>src/process.c\<close>: an index list whose data
  are pointers to \<open>PM_EXCLUSION_ENTRY\<close> blocks, each of which records the slot it is in.
  Searching follows head and next through the blocks' own slot numbers, so it is correct
  only while every block knows its slot: that is the invariant here.
\<close>

type_synonym pointer = nat
type_synonym thread = nat

record exclusion_entry =
  ee_Thread :: thread
  ee_UniqueId :: nat

record exclusion_table =
  ex_Lock :: bool
  ex_Table :: "pointer idx_table"

text \<open>
  What the routines share: the live \<open>PM_EXCLUSION_ENTRY\<close> blocks of the pool, and the
  references the driver holds on kernel thread objects.
\<close>

record pm_objects =
  po_entries :: "pointer \<Rightarrow> exclusion_entry option"
  po_refs :: "thread \<Rightarrow> nat"

definition PmInitializeThreadExclusionList :: "exclusion_table \<Rightarrow> exclusion_table" where
  "PmInitializeThreadExclusionList List =
     List\<lparr>ex_Lock := False, ex_Table := InitializeIdxList (ex_Table List)\<rparr>"

partial_function (option) cleanup_loop ::
  "pointer idx_table \<Rightarrow> (pointer \<Rightarrow> exclusion_entry option)
     \<Rightarrow> (pointer idx_table \<times> (pointer \<Rightarrow> exclusion_entry option)) option" where
  "cleanup_loop t E =
     (if GetNodeCountIdxList t = 0 then Some (t, E)
      else cleanup_loop (snd (RemoveHeadIdxList t))
             (case fst (RemoveHeadIdxList t) of None \<Rightarrow> E | Some p \<Rightarrow> E(p := None)))"

definition PmCleanupThreadExclusionList ::
  "pm_objects \<Rightarrow> exclusion_table \<Rightarrow> (ntstatus \<times> pm_objects \<times> exclusion_table) option" where
  "PmCleanupThreadExclusionList s List =
     map_option (\<lambda>(t, E). (STATUS_SUCCESS, s\<lparr>po_entries := E\<rparr>, List\<lparr>ex_Lock := False, ex_Table := t\<rparr>))
       (cleanup_loop (ex_Table List) (po_entries s))"

definition PmDestroyThreadExclusionList ::
  "pm_objects \<Rightarrow> exclusion_table \<Rightarrow> (pm_objects \<times> exclusion_table) option" where
  "PmDestroyThreadExclusionList s List =
     map_option (\<lambda>(st, s', l). (s', l\<lparr>ex_Table := fst (DestroyIdxList (ex_Table l))\<rparr>))
       (PmCleanupThreadExclusionList s List)"

text \<open>
  \<open>alloc\<close> is the pool's answer with the uninitialised block, \<open>lookup\<close> is
  \<open>PsLookupThreadByThreadId\<close>, which references the thread it returns, and \<open>pool\<close> serves
  the index list.
\<close>

definition PmExcludeThread ::
  "(pointer \<times> exclusion_entry) option \<Rightarrow> (u32 \<Rightarrow> ntstatus \<times> thread)
     \<Rightarrow> (nat \<Rightarrow> pointer idx_node list option) \<Rightarrow> pm_objects \<Rightarrow> exclusion_table \<Rightarrow> u64
     \<Rightarrow> ntstatus \<times> pm_objects \<times> exclusion_table" where
  "PmExcludeThread alloc lookup pool s List ThreadId =
     (case alloc of
        None \<Rightarrow> (STATUS_NO_MEMORY, s, List)
      | Some (p, block) \<Rightarrow>
          let (Status, Thread) = lookup (ucast ThreadId)
          in if \<not> NT_SUCCESS Status then (Status, s, List)
             else let refs = (po_refs s)(Thread := po_refs s Thread + 1);
                      (i, t) = InsertHeadIdxList pool (ex_Table List) p;
                      entry = block\<lparr>ee_Thread := Thread, ee_UniqueId := i\<rparr>
                  in if i = 0
                     then (STATUS_NO_MEMORY, s\<lparr>po_refs := refs\<rparr>, List\<lparr>ex_Lock := False, ex_Table := t\<rparr>)
                     else (Status, s\<lparr>po_refs := refs, po_entries := (po_entries s)(p \<mapsto> entry)\<rparr>,
                           List\<lparr>ex_Lock := False, ex_Table := t\<rparr>))"

text \<open>Reading a block that is not live is a fault, \<open>None\<close>.\<close>

partial_function (option) exclusion_walk ::
  "(pointer \<Rightarrow> exclusion_entry option) \<Rightarrow> pointer idx_table \<Rightarrow> thread \<Rightarrow> pointer option \<Rightarrow> bool option"
where
  "exclusion_walk E t Thread CurrentEntry =
     (if CurrentEntry = None then Some False
      else Option.bind (E (the CurrentEntry))
        (\<lambda>e. if ee_Thread e = Thread then Some True
             else exclusion_walk E t Thread (GetNextNodeIdxList t (ee_UniqueId e))))"

definition PmIsThreadExcluded :: "pm_objects \<Rightarrow> exclusion_table \<Rightarrow> thread \<Rightarrow> bool option" where
  "PmIsThreadExcluded s List Thread =
     exclusion_walk (po_entries s) (ex_Table List) Thread (GetHeadNodeIdxList (ex_Table List))"

section \<open>The list of excluded threads\<close>

text \<open>
  \<open>exclusion_list s l cs\<close>: the list is well formed and its slots hold, from the head on,
  the live blocks \<open>cs\<close> (slot and pointer), each of which knows its slot.
\<close>

definition exclusion_list :: "pm_objects \<Rightarrow> exclusion_table \<Rightarrow> (nat \<times> pointer) list \<Rightarrow> bool" where
  "exclusion_list s l cs \<longleftrightarrow> idx_list (ex_Table l) cs \<and> distinct (map snd cs) \<and>
     (\<forall>(i, p) \<in> set cs. \<exists>e. po_entries s p = Some e \<and> ee_UniqueId e = i)"

definition excluded :: "pm_objects \<Rightarrow> (nat \<times> pointer) list \<Rightarrow> thread list" where
  "excluded s cs = map (\<lambda>c. ee_Thread (the (po_entries s (snd c)))) cs"

lemma exclusion_list_initialize: "exclusion_list s (PmInitializeThreadExclusionList l) []"
  by (simp add: exclusion_list_def PmInitializeThreadExclusionList_def idx_list_initialize)

lemma is_thread_excluded:
  assumes l: "exclusion_list s l cs"
  shows "PmIsThreadExcluded s l th = Some (th \<in> set (excluded s cs))"
proof -
  define look where "look p = map_option (\<lambda>e. (ee_Thread e = th, ee_UniqueId e)) (po_entries s p)" for p
  have "exclusion_walk (po_entries s) (ex_Table l) th (case cs of [] \<Rightarrow> None | b # _ \<Rightarrow> Some (snd b)) =
      Some (\<exists>b \<in> set cs. ee_Thread (the (po_entries s (snd b))) = th)"
  proof (rule idx.search [where look = look])
    show "idx_list (ex_Table l) cs" using l by (simp add: exclusion_list_def)
    show "look d = Some (ee_Thread (the (po_entries s d)) = th, i)" if "(i, d) \<in> set cs" for i d
      using l that by (fastforce simp: exclusion_list_def look_def)
    show "exclusion_walk (po_entries s) (ex_Table l) th cur = (case cur of None \<Rightarrow> Some False | Some d \<Rightarrow>
        (case look d of None \<Rightarrow> None | Some (hit, i) \<Rightarrow> if hit then Some True else
           exclusion_walk (po_entries s) (ex_Table l) th (GetNextNodeIdxList (ex_Table l) i)))" for cur
      by (subst exclusion_walk.simps) (auto simp: look_def split: option.splits bind_split)
  qed
  moreover have "GetHeadNodeIdxList (ex_Table l) = (case cs of [] \<Rightarrow> None | b # _ \<Rightarrow> Some (snd b))"
    using l by (intro idx.head_ok) (simp add: exclusion_list_def)
  ultimately show ?thesis by (auto simp: PmIsThreadExcluded_def excluded_def)
qed

lemma fold_free: "fold (\<lambda>p E. E(p := None)) ps E = (\<lambda>p. if p \<in> set ps then None else E p)"
  by (induction ps arbitrary: E) auto

lemma cleanup_exclusion:
  assumes l: "exclusion_list s l cs"
  shows "\<exists>l'. exclusion_list s l' [] \<and> PmCleanupThreadExclusionList s l =
    Some (STATUS_SUCCESS, s\<lparr>po_entries := (\<lambda>p. if p \<in> snd ` set cs then None else po_entries s p)\<rparr>, l')"
proof -
  have "idx_list (ex_Table l) cs" using l by (simp add: exclusion_list_def)
  from idx.drain [of cleanup_loop "\<lambda>p E. E(p := None)", OF cleanup_loop.simps this, of "po_entries s"]
  obtain t' where t': "idx_list t' []"
    "cleanup_loop (ex_Table l) (po_entries s) = Some (t', fold (\<lambda>p E. E(p := None)) (map snd cs) (po_entries s))"
    by blast
  then show ?thesis
    by (intro exI [of _ "l\<lparr>ex_Lock := False, ex_Table := t'\<rparr>"])
      (simp add: PmCleanupThreadExclusionList_def exclusion_list_def fold_free)
qed

lemma destroy_exclusion:
  assumes l: "exclusion_list s l cs"
  shows "\<exists>l'. exclusion_list s l' [] \<and> PmDestroyThreadExclusionList s l =
    Some (s\<lparr>po_entries := (\<lambda>p. if p \<in> snd ` set cs then None else po_entries s p)\<rparr>, l')"
proof -
  obtain l1 where l1: "PmCleanupThreadExclusionList s l = Some (STATUS_SUCCESS,
      s\<lparr>po_entries := (\<lambda>p. if p \<in> snd ` set cs then None else po_entries s p)\<rparr>, l1)"
    using cleanup_exclusion [OF l] by blast
  show ?thesis
    by (intro exI [of _ "l1\<lparr>ex_Table := fst (DestroyIdxList (ex_Table l1))\<rparr>"])
      (simp add: PmDestroyThreadExclusionList_def l1 exclusion_list_def idx_list_destroy)
qed

text \<open>
  What an exclusion does: on success the thread is in front of the list; on failure the
  list is what it was, but the reference on the thread may have been taken.
\<close>

lemma exclude_thread:
  assumes l: "exclusion_list s l cs" and fresh: "po_entries s p = None"
    and pool: "pool_ok pool" "it_Size (ex_Table l) + NODES_PER_PAGE < 2 ^ 32"
    and lk: "lookup (ucast ThreadId) = (st, th)" "NT_SUCCESS st"
    and x: "PmExcludeThread (Some (p, block)) lookup pool s l ThreadId = (st', s', l')"
  shows "po_refs s' = (po_refs s)(th := po_refs s th + 1)"
    "NT_SUCCESS st' \<Longrightarrow> \<exists>i. exclusion_list s' l' ((i, p) # cs) \<and>
       excluded s' ((i, p) # cs) = th # excluded s cs"
    "\<not> NT_SUCCESS st' \<Longrightarrow> st' = STATUS_NO_MEMORY \<and> exclusion_list s' l' cs \<and> excluded s' cs = excluded s cs"
proof -
  obtain i t where ins: "InsertHeadIdxList pool (ex_Table l) p = (i, t)" by fastforce
  have il: "idx_list (ex_Table l) cs" using l by (simp add: exclusion_list_def)
  have live: "snd c \<noteq> p" if "c \<in> set cs" for c using l fresh that by (fastforce simp: exclusion_list_def)
  note I = idx_list_insert [OF il pool ins]
  show "po_refs s' = (po_refs s)(th := po_refs s th + 1)"
    using x lk ins by (auto simp: PmExcludeThread_def Let_def split: if_splits)
  show "\<exists>i. exclusion_list s' l' ((i, p) # cs) \<and> excluded s' ((i, p) # cs) = th # excluded s cs"
    if ok: "NT_SUCCESS st'"
  proof -
    have i: "i \<noteq> 0" "s' = s\<lparr>po_refs := (po_refs s)(th := po_refs s th + 1),
        po_entries := (po_entries s)(p \<mapsto> block\<lparr>ee_Thread := th, ee_UniqueId := i\<rparr>)\<rparr>"
      "l' = l\<lparr>ex_Lock := False, ex_Table := t\<rparr>"
      using x lk ins ok by (auto simp: PmExcludeThread_def Let_def split: if_splits)
    have "idx_list t ((i, p) # cs)" using I i(1) by simp
    moreover have "distinct (p # map snd cs)"
      using l live by (auto simp: exclusion_list_def)
    moreover have "excluded s' cs = excluded s cs"
      unfolding excluded_def using live by (simp add: i(2))
    ultimately show ?thesis using l live i by (fastforce simp: exclusion_list_def excluded_def)
  qed
  show "st' = STATUS_NO_MEMORY \<and> exclusion_list s' l' cs \<and> excluded s' cs = excluded s cs"
    if "\<not> NT_SUCCESS st'"
    using x lk ins I that l
    by (auto simp: PmExcludeThread_def Let_def exclusion_list_def excluded_def split: if_splits)
qed

section \<open>Properties\<close>

definition excl_example :: exclusion_table where
  "excl_example = PmInitializeThreadExclusionList \<lparr>ex_Lock = True, ex_Table = idx_example\<rparr>"

definition objs_example :: pm_objects where
  "objs_example = \<lparr>po_entries = (\<lambda>_. None), po_refs = (\<lambda>_. 0)\<rparr>"

lemma excl_example_list: "exclusion_list objs_example excl_example []"
  by (simp add: excl_example_def exclusion_list_initialize)

lemma excl_example_size: "it_Size (ex_Table excl_example) = 0"
  by (simp add: excl_example_def PmInitializeThreadExclusionList_def InitializeIdxList_def)

lemma excl_example_success:
  "\<exists>s' l'. PmExcludeThread (Some (64, \<lparr>ee_Thread = 0, ee_UniqueId = 0\<rparr>)) (\<lambda>_. (0, 7))
     pool_example objs_example excl_example 5 = (0, s', l')"
  by (simp add: PmExcludeThread_def Let_def excl_example_def PmInitializeThreadExclusionList_def
      InsertHeadIdxList_def idx_example_def InitializeIdxList_def ExtendIdxList_def
      pool_example_def link_head_def split: prod.splits)

text \<open>
  The search of \<open>PmIsThreadExcluded\<close> terminates without touching a dead block and
  answers whether the thread is among the excluded ones.
\<close>

theorem is_thread_excluded_correct:
  assumes "exclusion_list s l cs"
  shows "PmIsThreadExcluded s l th = Some (th \<in> set (excluded s cs))"
  using assms by (rule is_thread_excluded)

theorem is_thread_excluded_correct_witness:
  "PmIsThreadExcluded objs_example excl_example 3 = Some False"
  using is_thread_excluded_correct [OF excl_example_list] by (simp add: excluded_def)

text \<open>
  A thread excluded by \<open>PmExcludeThread\<close> is found by \<open>PmIsThreadExcluded\<close>, and every
  thread excluded before still is, no other is added; when there is no memory for the slot
  the answers do not change.
\<close>

theorem exclude_then_query:
  assumes "exclusion_list s l cs" "po_entries s p = None" "pool_ok pool"
    "it_Size (ex_Table l) + NODES_PER_PAGE < 2 ^ 32"
    "lookup (ucast ThreadId) = (st, th)" "NT_SUCCESS st"
    "PmExcludeThread (Some (p, block)) lookup pool s l ThreadId = (st', s', l')"
  shows "PmIsThreadExcluded s' l' q =
    Some ((NT_SUCCESS st' \<and> q = th) \<or> PmIsThreadExcluded s l q = Some True)"
proof (cases "NT_SUCCESS st'")
  case True
  from exclude_thread(2) [OF assms True] obtain i where
    "exclusion_list s' l' ((i, p) # cs)" "excluded s' ((i, p) # cs) = th # excluded s cs" by blast
  then show ?thesis using is_thread_excluded [OF assms(1)] is_thread_excluded True by simp
next
  case False
  from exclude_thread(3) [OF assms False] have "PmIsThreadExcluded s' l' q = PmIsThreadExcluded s l q"
    using is_thread_excluded [OF assms(1), of q] is_thread_excluded [of s' l' cs q] by simp
  then show ?thesis using False is_thread_excluded [OF assms(1), of q] by simp
qed

theorem exclude_then_query_witness:
  "\<exists>s' l'. PmExcludeThread (Some (64, \<lparr>ee_Thread = 0, ee_UniqueId = 0\<rparr>)) (\<lambda>_. (0, 7))
     pool_example objs_example excl_example 5 = (0, s', l') \<and> PmIsThreadExcluded s' l' 7 = Some True"
proof -
  obtain s' l' where x: "PmExcludeThread (Some (64, \<lparr>ee_Thread = 0, ee_UniqueId = 0\<rparr>)) (\<lambda>_. (0, 7))
     pool_example objs_example excl_example 5 = (0, s', l')"
    using excl_example_success by blast
  have "PmIsThreadExcluded s' l' 7 = Some True"
    using exclude_then_query [OF excl_example_list _ pool_example_ok _ _ _ x, of 0 7 7]
    by (simp add: objs_example_def excl_example_size NODES_PER_PAGE_def)
  with x show ?thesis by blast
qed

text \<open>
  Excluding a thread and destroying the list afterwards frees every block and returns,
  but the reference that \<open>PsLookupThreadByThreadId\<close> took on the thread is never given
  back, whether the exclusion succeeded or not.
\<close>

theorem exclusion_leaks_thread_reference:
  assumes "exclusion_list s l cs" "po_entries s p = None" "pool_ok pool"
    "it_Size (ex_Table l) + NODES_PER_PAGE < 2 ^ 32"
    "lookup (ucast ThreadId) = (st, th)" "NT_SUCCESS st"
    "PmExcludeThread (Some (p, block)) lookup pool s l ThreadId = (st', s', l')"
  shows "\<exists>s'' l''. PmDestroyThreadExclusionList s' l' = Some (s'', l'') \<and> exclusion_list s'' l'' [] \<and>
    po_entries s'' p = None \<and> (\<forall>c \<in> set cs. po_entries s'' (snd c) = None) \<and>
    po_refs s'' th = po_refs s th + 1"
proof -
  note X = exclude_thread [OF assms]
  have refs: "po_refs s' th = po_refs s th + 1" using X(1) by simp
  have "\<exists>cs'. exclusion_list s' l' cs' \<and> set cs \<subseteq> set cs' \<and> (p \<in> snd ` set cs' \<or> po_entries s' p = None)"
  proof (cases "NT_SUCCESS st'")
    case True
    then show ?thesis using X(2) by fastforce
  next
    case False
    then have "po_entries s' p = None"
      using assms(2,5,6,7) by (auto simp: PmExcludeThread_def Let_def split: if_splits prod.splits)
    then show ?thesis using X(3) False by blast
  qed
  then obtain cs' where cs': "exclusion_list s' l' cs'" "set cs \<subseteq> set cs'"
    "p \<in> snd ` set cs' \<or> po_entries s' p = None" by blast
  let ?s = "s'\<lparr>po_entries := (\<lambda>p. if p \<in> snd ` set cs' then None else po_entries s' p)\<rparr>"
  from destroy_exclusion [OF cs'(1)] obtain l'' where
    d: "exclusion_list s' l'' []" "PmDestroyThreadExclusionList s' l' = Some (?s, l'')" by blast
  have "exclusion_list ?s l'' []" using d(1) by (simp add: exclusion_list_def)
  moreover have "po_entries ?s p = None" "\<forall>c \<in> set cs. po_entries ?s (snd c) = None"
    using cs'(2,3) by auto
  moreover have "po_refs ?s th = po_refs s th + 1" using refs by simp
  ultimately show ?thesis using d(2) by blast
qed

theorem exclusion_leaks_thread_reference_witness:
  "\<exists>s' l' s'' l''. PmExcludeThread (Some (64, \<lparr>ee_Thread = 0, ee_UniqueId = 0\<rparr>)) (\<lambda>_. (0, 7))
     pool_example objs_example excl_example 5 = (0, s', l') \<and>
     PmDestroyThreadExclusionList s' l' = Some (s'', l'') \<and> po_refs s'' 7 = 1"
proof -
  obtain s' l' where x: "PmExcludeThread (Some (64, \<lparr>ee_Thread = 0, ee_UniqueId = 0\<rparr>)) (\<lambda>_. (0, 7))
     pool_example objs_example excl_example 5 = (0, s', l')"
    using excl_example_success by blast
  from exclusion_leaks_thread_reference [OF excl_example_list _ pool_example_ok _ _ _ x, of 0 7]
  have "\<exists>s'' l''. PmDestroyThreadExclusionList s' l' = Some (s'', l'') \<and> po_refs s'' 7 = 1"
    by (auto simp: objs_example_def excl_example_size NODES_PER_PAGE_def)
  with x show ?thesis by blast
qed

end
