(* ===== verification/Image_Name.thy ===== *)
theory Image_Name
  imports Prelude
begin

text \<open>
  The helpers of \<open>src/process.c\<close> that query the kernel about a process: its image name, the
  hash and the file part of that name, its SID and the integrity level of its token.  Each
  call into the kernel is an argument that gives its result; references, handles and pool
  blocks a helper takes and gives back are events of a trace, so that leaks are visible.
\<close>

type_synonym wchar = u16

datatype kernel_event =
    ReferenceProcess | DereferenceProcess
  | ReferenceToken | DereferenceToken
  | OpenHandle | CloseHandle
  | AllocPool string | FreePool string

section \<open>The image name\<close>

text \<open>
  \<open>lookup\<close>, \<open>locate\<close> and \<open>copy\<close> are the results of \<open>PsLookupProcessByProcessId\<close>,
  \<open>SeLocateProcessImageName\<close> and \<open>RtlUnicodeStringCbCopyN\<close>; \<open>alloc\<close> is the pool's answer.
\<close>

definition PmAllocateProcessImageName ::
  "ntstatus \<Rightarrow> ntstatus \<times> wchar list \<Rightarrow> nat option \<Rightarrow> ntstatus
     \<Rightarrow> ntstatus \<times> (nat \<times> wchar list) option \<times> kernel_event list" where
  "PmAllocateProcessImageName lookup locate alloc copy =
     (if \<not> NT_SUCCESS lookup then (lookup, None, [])
      else let (Status, ImageFileName) = locate
           in if \<not> NT_SUCCESS Status then (Status, None, [ReferenceProcess, DereferenceProcess])
              else case alloc of
                     None \<Rightarrow> (STATUS_NO_MEMORY, None,
                        [ReferenceProcess, AllocPool ''image'', FreePool ''image'', DereferenceProcess])
                   | Some p \<Rightarrow> (copy, Some (p, ImageFileName),
                        [ReferenceProcess, AllocPool ''image'', AllocPool ''DsPn'',
                         FreePool ''image'', DereferenceProcess]))"

text \<open>
  The build for systems before Vista asks for the name through a handle: once with no buffer for
  the length, and again for the name.  \<open>probe\<close> and \<open>info\<close> are the results of the two calls of
  \<open>ZwQueryInformationProcess\<close>, \<open>MaximumLength\<close> is \<open>None\<close> when the name is not asked for; the
  results are the status, the length that is required, and the name.
\<close>

definition PmQueryProcessImageName ::
  "ntstatus \<times> u32 \<Rightarrow> bool \<Rightarrow> ntstatus \<times> wchar list \<Rightarrow> ntstatus \<Rightarrow> u16 option
     \<Rightarrow> ntstatus \<times> u32 option \<times> wchar list option \<times> kernel_event list" where
  "PmQueryProcessImageName probe alloc info copy MaximumLength =
     (let (Status, ReturnedLength) = probe
      in if Status \<noteq> STATUS_INFO_LENGTH_MISMATCH then (Status, None, None, [])
         else let BufferLength = ReturnedLength - 16
              in if (case MaximumLength of None \<Rightarrow> True | Some m \<Rightarrow> ucast m < BufferLength)
                 then (STATUS_BUFFER_OVERFLOW, Some BufferLength, None, [])
                 else if \<not> alloc then (STATUS_NO_MEMORY, None, None, [])
                 else let done = [AllocPool ''query'', FreePool ''query'']
                      in if NT_SUCCESS (fst info) then (copy, None, Some (snd info), done)
                         else (fst info, None, None, done))"

text \<open>The name of the block tells it from the copy, whose tag in the pool is the same.\<close>

definition PmAllocateProcessImageNameXp ::
  "ntstatus \<Rightarrow> ntstatus \<Rightarrow> ntstatus \<times> u32 \<Rightarrow> nat option
     \<Rightarrow> ntstatus \<times> u32 \<Rightarrow> bool \<Rightarrow> ntstatus \<times> wchar list \<Rightarrow> ntstatus
     \<Rightarrow> ntstatus \<times> (nat \<times> wchar list) option \<times> kernel_event list" where
  "PmAllocateProcessImageNameXp lookup open_process probe1 alloc probe2 alloc2 info copy =
     (if \<not> NT_SUCCESS lookup then (lookup, None, [])
      else if \<not> NT_SUCCESS open_process then (open_process, None, [ReferenceProcess, DereferenceProcess])
      else case PmQueryProcessImageName probe1 alloc2 info copy None of
        (Status, RequiredLength, _, ev) \<Rightarrow>
          let ev = [ReferenceProcess, OpenHandle] @ ev
          in if Status \<noteq> STATUS_BUFFER_OVERFLOW then (Status, None, ev)
             else case alloc of
               None \<Rightarrow> (STATUS_NO_MEMORY, None, ev @ [CloseHandle, DereferenceProcess])
             | Some p \<Rightarrow>
                 case PmQueryProcessImageName probe2 alloc2 info copy (Some (ucast (case RequiredLength of None \<Rightarrow> 0 | Some n \<Rightarrow> n))) of
                   (Status, _, name, ev2) \<Rightarrow>
                     let ev = ev @ [AllocPool ''DsPn''] @ ev2
                     in if NT_SUCCESS Status then (Status, Some (p, case name of None \<Rightarrow> [] | Some n \<Rightarrow> n), ev @ [CloseHandle, DereferenceProcess])
                        else (Status, None, ev @ [FreePool ''DsPn'', CloseHandle, DereferenceProcess]))"

text \<open>
  \<open>PmParseProcessImageName\<close> walks back from the end of the string, counting bytes until it
  meets a separator.  \<open>FileName++\<close> yields the old pointer, so the result starts at the
  separator.  The result is a suffix's start index and its length in bytes.
\<close>

definition OBJ_NAME_PATH_SEPARATOR :: wchar where "OBJ_NAME_PATH_SEPARATOR = 92"

fun parse_loop :: "wchar list \<Rightarrow> nat \<Rightarrow> nat \<Rightarrow> (nat \<times> nat) option" where
  "parse_loop Buffer 0 ProcessNameLength = None"
| "parse_loop Buffer (Suc FileName) ProcessNameLength =
     (if Buffer ! FileName = OBJ_NAME_PATH_SEPARATOR then Some (FileName, ProcessNameLength)
      else parse_loop Buffer FileName (ProcessNameLength + 2))"

definition PmParseProcessImageName :: "wchar list \<Rightarrow> ntstatus \<times> wchar list option" where
  "PmParseProcessImageName ProcessName =
     (case parse_loop ProcessName (length ProcessName) 0 of
        None \<Rightarrow> (STATUS_NOT_FOUND, None)
      | Some (start, bytes) \<Rightarrow> (STATUS_SUCCESS, Some (take (bytes div 2) (drop start ProcessName))))"

text \<open>The C library's \<open>tolower\<close> in the C locale.\<close>

definition tolower :: "wchar \<Rightarrow> u32" where
  "tolower c = (if 65 \<le> c \<and> c \<le> 90 then ucast c + 32 else ucast c)"

definition PmGetImageNameHash :: "wchar list \<Rightarrow> u32" where
  "PmGetImageNameHash ImageName =
     fold (\<lambda>c Hash. tolower c + push_bit 6 Hash + push_bit 16 Hash - Hash) ImageName 0"

section \<open>The SID and the integrity level\<close>

text \<open>
  \<open>sid\<close> tells whether the output pointer is not null.  \<open>open_token\<close>, \<open>query\<close>, \<open>alloc\<close>,
  \<open>user\<close> and \<open>convert\<close> are the results of the calls in the order they are made.
\<close>

definition PmGetProcessSid ::
  "bool \<Rightarrow> ntstatus \<Rightarrow> ntstatus \<Rightarrow> ntstatus \<Rightarrow> bool \<Rightarrow> ntstatus \<Rightarrow> ntstatus \<times> wchar list
     \<Rightarrow> ntstatus \<times> wchar list option \<times> kernel_event list" where
  "PmGetProcessSid sid lookup open_token query alloc user convert =
     (if \<not> sid then (STATUS_INVALID_PARAMETER, None, [])
      else if \<not> NT_SUCCESS lookup then (lookup, None, [])
      else if \<not> NT_SUCCESS open_token then (open_token, None, [ReferenceProcess, ReferenceToken])
      else let taken = [ReferenceProcess, ReferenceToken, OpenHandle, DereferenceToken]
           in if query \<noteq> STATUS_BUFFER_TOO_SMALL then (query, None, taken @ [CloseHandle])
              else if \<not> alloc then (STATUS_NO_MEMORY, None, taken @ [CloseHandle])
              else let done = taken @ [AllocPool ''DsTu'', CloseHandle, FreePool ''DsTu'']
                   in if \<not> NT_SUCCESS user then (user, None, done)
                      else if \<not> NT_SUCCESS (fst convert) then (fst convert, None, done)
                      else (fst convert, Some (snd convert), done))"

text \<open>\<open>query\<close> and \<open>info\<close> are the two calls of \<open>ZwQueryInformationToken\<close>.\<close>

definition PmQueryTokenInformation ::
  "ntstatus \<Rightarrow> bool \<Rightarrow> ntstatus \<times> 'a \<Rightarrow> ntstatus \<times> 'a option \<times> kernel_event list" where
  "PmQueryTokenInformation query alloc info =
     (if query \<noteq> STATUS_BUFFER_TOO_SMALL then (query, None, [])
      else if \<not> alloc then (query, None, [])
      else if NT_SUCCESS (fst info) then (fst info, Some (snd info), [AllocPool ''DsTi''])
      else (fst info, None, [AllocPool ''DsTi'', FreePool ''DsTi'']))"

datatype MANDATORY_LEVEL =
    MandatoryLevelUntrusted | MandatoryLevelLow | MandatoryLevelMedium
  | MandatoryLevelHigh | MandatoryLevelSystem | MandatoryLevelSecureProcess

text \<open>The label's last sub-authority is the integrity level's RID.\<close>

definition PmGetTokenMandarotyLevel ::
  "ntstatus \<Rightarrow> bool \<Rightarrow> ntstatus \<times> u32 list
     \<Rightarrow> ntstatus \<times> (MANDATORY_LEVEL \<times> string) option \<times> kernel_event list" where
  "PmGetTokenMandarotyLevel query alloc info =
     (case PmQueryTokenInformation query alloc info of
        (Status, None, ev) \<Rightarrow> (Status, None, ev)
      | (Status, Some subs, ev) \<Rightarrow>
          let IntegrityLevel = subs ! (length subs - 1);
              ev' = ev @ [FreePool ''DsTi'']
          in if IntegrityLevel = 0 then
               (Status, Some (MandatoryLevelUntrusted, ''UntrustedLevel''), ev')
             else if IntegrityLevel = 0x1000 then
               (Status, Some (MandatoryLevelLow, ''LowLevel''), ev')
             else if IntegrityLevel = 0x2000 then
               (Status, Some (MandatoryLevelMedium, ''MediumLevel''), ev')
             else if IntegrityLevel = 0x3000 then
               (Status, Some (MandatoryLevelHigh, ''HighLevel''), ev')
             else if IntegrityLevel = 0x4000 then
               (Status, Some (MandatoryLevelSystem, ''SystemLevel''), ev')
             else if IntegrityLevel = 0x5000 then
               (Status, Some (MandatoryLevelSecureProcess, ''ProtectedLevel''), ev')
             else (STATUS_UNSUCCESSFUL, None, ev'))"

section \<open>Lemmas\<close>

definition count_events :: "kernel_event \<Rightarrow> kernel_event list \<Rightarrow> nat" where
  "count_events e ev = length (filter ((=) e) ev)"

lemma count_events_simps [simp]:
  "count_events e [] = 0"
  "count_events e (x # xs) = (if e = x then 1 else 0) + count_events e xs"
  "count_events e (xs @ ys) = count_events e xs + count_events e ys"
  by (simp_all add: count_events_def)

lemma hash_step:
  fixes h :: u32 shows "c + push_bit 6 h + push_bit 16 h - h = c + 65599 * h"
  by (simp add: push_bit_eq_mult algebra_simps)

lemma parse_loop_spec:
  "parse_loop xs n k = (if OBJ_NAME_PATH_SEPARATOR \<in> set (take n xs)
     then Some (n - 1 - length (takeWhile (\<lambda>c. c \<noteq> OBJ_NAME_PATH_SEPARATOR) (rev (take n xs))),
                k + 2 * length (takeWhile (\<lambda>c. c \<noteq> OBJ_NAME_PATH_SEPARATOR) (rev (take n xs))))
     else None)" if "n \<le> length xs"
  using that by (induction n arbitrary: k) (auto simp: take_Suc_conv_app_nth)

lemma parse_path:
  assumes "OBJ_NAME_PATH_SEPARATOR \<notin> set name"
  shows "PmParseProcessImageName (dir @ OBJ_NAME_PATH_SEPARATOR # name) =
    (STATUS_SUCCESS, Some (take (length name) (OBJ_NAME_PATH_SEPARATOR # name)))"
proof -
  let ?s = OBJ_NAME_PATH_SEPARATOR
  have "takeWhile (\<lambda>c. c \<noteq> ?s) (rev name @ [?s] @ rev dir) = rev name"
    using assms by (simp add: takeWhile_append)
  then show ?thesis
    using parse_loop_spec [of "length (dir @ ?s # name)" "dir @ ?s # name" 0]
    by (simp add: PmParseProcessImageName_def)
qed

section \<open>Properties\<close>

text \<open>
  On a path \<open>dir\name\<close> the file name that \<open>PmParseProcessImageName\<close> returns starts with
  the separator and lacks the last character of the name; only for a path without a
  separator does it report that there is none.
\<close>

theorem parse_image_name_shifted:
  "(OBJ_NAME_PATH_SEPARATOR \<notin> set name \<longrightarrow>
     PmParseProcessImageName (dir @ OBJ_NAME_PATH_SEPARATOR # name) =
       (STATUS_SUCCESS, Some (if name = [] then [] else OBJ_NAME_PATH_SEPARATOR # butlast name))) \<and>
   (OBJ_NAME_PATH_SEPARATOR \<notin> set name \<longrightarrow> PmParseProcessImageName name = (STATUS_NOT_FOUND, None))"
proof (intro conjI impI)
  assume n: "OBJ_NAME_PATH_SEPARATOR \<notin> set name"
  have "take (length name) (OBJ_NAME_PATH_SEPARATOR # name) =
      (if name = [] then [] else OBJ_NAME_PATH_SEPARATOR # butlast name)"
    by (cases name rule: rev_cases) simp_all
  then show "PmParseProcessImageName (dir @ OBJ_NAME_PATH_SEPARATOR # name) =
       (STATUS_SUCCESS, Some (if name = [] then [] else OBJ_NAME_PATH_SEPARATOR # butlast name))"
    using parse_path [OF n] by simp
  show "PmParseProcessImageName name = (STATUS_NOT_FOUND, None)"
    using n parse_loop_spec [of "length name" name 0] by (simp add: PmParseProcessImageName_def)
qed

theorem parse_image_name_shifted_witness:
  "PmParseProcessImageName [67, 92, 97, 98, 99] = (STATUS_SUCCESS, Some [92, 97, 98])"
  using parse_image_name_shifted [of "[97, 98, 99]" "[67]"] by (simp add: OBJ_NAME_PATH_SEPARATOR_def)

text \<open>
  The shift-and-add hash of an image name is the polynomial in 65599 of its lower-case
  characters, modulo \<open>2^32\<close>, so names that differ only in ASCII case have the same hash.
\<close>

theorem image_name_hash:
  "PmGetImageNameHash (xs @ [c]) = tolower c + 65599 * PmGetImageNameHash xs \<and>
   PmGetImageNameHash xs = foldr (\<lambda>d h. tolower d + 65599 * h) (rev xs) 0 \<and>
   (map tolower xs = map tolower ys \<longrightarrow> PmGetImageNameHash xs = PmGetImageNameHash ys)"
proof -
  have f: "PmGetImageNameHash zs = fold (\<lambda>d h. d + 65599 * h) (map tolower zs) 0" for zs
    by (simp only: PmGetImageNameHash_def hash_step fold_map comp_def)
  have "PmGetImageNameHash xs = PmGetImageNameHash ys" if "map tolower xs = map tolower ys"
    by (simp only: f that)
  with f show ?thesis by (simp add: foldr_conv_fold fold_map comp_def)
qed

theorem image_name_hash_witness:
  "PmGetImageNameHash [65, 98] = PmGetImageNameHash [97, 66]"
proof -
  have "map tolower [65, 98] = map tolower [97, 66]" by (simp add: tolower_def)
  then show ?thesis using image_name_hash [of "[65, 98]" 0 "[97, 66]"] by blast
qed

text \<open>
  \<open>PmGetProcessSid\<close> never gives back the reference on the process that it takes, and
  leaks the token too when the token cannot be opened; every handle it opens and every
  block it allocates is released on every path.
\<close>

theorem process_sid_leaks:
  "PmGetProcessSid sid lookup open_token query alloc user convert = (st, r, ev) \<Longrightarrow>
     (sid \<and> NT_SUCCESS lookup \<longleftrightarrow> count_events ReferenceProcess ev = 1) \<and>
     count_events DereferenceProcess ev = 0 \<and>
     (count_events ReferenceToken ev = count_events DereferenceToken ev \<longleftrightarrow>
        \<not> (sid \<and> NT_SUCCESS lookup \<and> \<not> NT_SUCCESS open_token)) \<and>
     count_events OpenHandle ev = count_events CloseHandle ev \<and>
     count_events (AllocPool p) ev = count_events (FreePool p) ev"
  by (auto simp: PmGetProcessSid_def Let_def split: if_splits)

theorem process_sid_leaks_witness:
  "count_events DereferenceProcess (snd (snd (PmGetProcessSid True 0 0 STATUS_BUFFER_TOO_SMALL True 0 (0, [83])))) = 0"
  using process_sid_leaks [of True 0 0 STATUS_BUFFER_TOO_SMALL True 0 "(0, [83])"]
  by (metis prod.collapse)

lemma first_query:
  "PmQueryProcessImageName probe alloc info copy None =
     (if fst probe = STATUS_INFO_LENGTH_MISMATCH then (STATUS_BUFFER_OVERFLOW, Some (snd probe - 16), None, [])
      else (fst probe, None, None, []))"
  by (simp add: PmQueryProcessImageName_def split_beta Let_def)

lemma second_query:
  assumes "PmQueryProcessImageName probe alloc info copy (Some m) = (Status, r, name, ev)"
  shows "ev = [] \<or> ev = [AllocPool ''query'', FreePool ''query'']"
    "NT_SUCCESS Status \<Longrightarrow> fst probe = STATUS_INFO_LENGTH_MISMATCH \<Longrightarrow>
       name = Some (snd info) \<and> Status = copy \<and> unat (snd probe - 16) \<le> unat m"
    "fst probe \<noteq> STATUS_INFO_LENGTH_MISMATCH \<Longrightarrow> name = None"
proof -
  have u: "\<not> (ucast m :: u32) < B \<longleftrightarrow> unat B \<le> unat m" for B :: u32
    by (simp add: not_less word_le_nat_alt unsigned_ucast_eq unsigned_take_bit_eq take_bit_nat_eq_self order_less_le_trans [OF unsigned_less])
  show "ev = [] \<or> ev = [AllocPool ''query'', FreePool ''query'']"
    using assms by (auto simp: PmQueryProcessImageName_def Let_def split_beta split: if_splits)
  show "name = Some (snd info) \<and> Status = copy \<and> unat (snd probe - 16) \<le> unat m"
    if "NT_SUCCESS Status" "fst probe = STATUS_INFO_LENGTH_MISMATCH"
    using assms that by (simp add: PmQueryProcessImageName_def Let_def split_beta u [symmetric] split: if_splits)
  show "name = None" if "fst probe \<noteq> STATUS_INFO_LENGTH_MISMATCH"
    using assms that by (simp add: PmQueryProcessImageName_def Let_def split_beta)
qed

text \<open>
  Before Vista, a name that is returned with success is the caller's block and nothing else is kept.
  A failure gives back everything, unless the very first query is answered with
  another status than one that tells the length: then the reference and the handle are lost.  A name
  that grows between the two queries, or whose length does not fit 16 bits, is refused; a second
  query that succeeds without a buffer gives an empty name.
\<close>

theorem process_image_name_xp:
  assumes "PmAllocateProcessImageNameXp lookup open_process probe1 alloc probe2 alloc2 info copy = (Status, Name, ev)"
    and "fst probe1 \<noteq> STATUS_BUFFER_OVERFLOW"
  shows "(count_events ReferenceProcess ev = count_events DereferenceProcess ev \<longleftrightarrow>
        \<not> (NT_SUCCESS lookup \<and> NT_SUCCESS open_process \<and> fst probe1 \<noteq> STATUS_INFO_LENGTH_MISMATCH)) \<and>
     (count_events OpenHandle ev = count_events CloseHandle ev \<longleftrightarrow>
        count_events ReferenceProcess ev = count_events DereferenceProcess ev) \<and>
     count_events (AllocPool ''query'') ev = count_events (FreePool ''query'') ev \<and>
     (case Name of
        None \<Rightarrow> count_events (AllocPool ''DsPn'') ev = count_events (FreePool ''DsPn'') ev
      | Some (p, name) \<Rightarrow> NT_SUCCESS Status \<and> alloc = Some p \<and>
          count_events (AllocPool ''DsPn'') ev = 1 \<and> count_events (FreePool ''DsPn'') ev = 0 \<and>
          (if fst probe2 \<noteq> STATUS_INFO_LENGTH_MISMATCH then name = []
           else name = snd info \<and> Status = copy \<and> unat (snd probe2 - 16) \<le> unat (snd probe1 - 16) mod 2 ^ 16))"
proof (cases "NT_SUCCESS lookup \<and> NT_SUCCESS open_process \<and> fst probe1 = STATUS_INFO_LENGTH_MISMATCH \<and> alloc \<noteq> None")
  case False
  then show ?thesis using assms
    by (auto simp: PmAllocateProcessImageNameXp_def first_query split: if_splits)
next
  case True
  then obtain p where p: "alloc = Some p" by blast
  let ?m = "ucast (snd probe1 - 16) :: u16"
  obtain St r name ev2 where q: "PmQueryProcessImageName probe2 alloc2 info copy (Some ?m) = (St, r, name, ev2)"
    by (metis prod_cases4)
  have c: "count_events e ev2 = 0 \<or> e = AllocPool ''query'' \<or> e = FreePool ''query''"
    "count_events (AllocPool ''query'') ev2 = count_events (FreePool ''query'') ev2" for e
    using second_query(1) [OF q] by (auto split: if_splits)
  have m: "unat ?m = unat (snd probe1 - 16) mod 2 ^ 16"
    by (simp add: unsigned_ucast_eq unsigned_take_bit_eq take_bit_eq_mod)
  have r: "Status = St" "Name = (if NT_SUCCESS St then Some (p, case name of None \<Rightarrow> [] | Some n \<Rightarrow> n) else None)"
    "ev = [ReferenceProcess, OpenHandle, AllocPool ''DsPn''] @ ev2 @ (if NT_SUCCESS St then [] else [FreePool ''DsPn'']) @ [CloseHandle, DereferenceProcess]"
    using assms(1) True p q by (simp_all add: PmAllocateProcessImageNameXp_def first_query Let_def split: if_splits)
  have "count_events ReferenceProcess ev = 1" "count_events DereferenceProcess ev = 1" "count_events OpenHandle ev = 1"
    "count_events CloseHandle ev = 1" "count_events (AllocPool ''DsPn'') ev = 1"
    "count_events (FreePool ''DsPn'') ev = (if NT_SUCCESS St then 0 else 1)"
    "count_events (AllocPool ''query'') ev = count_events (FreePool ''query'') ev"
    using c(1) [of ReferenceProcess] c(1) [of DereferenceProcess] c(1) [of OpenHandle] c(1) [of CloseHandle]
      c(1) [of "AllocPool ''DsPn''"] c(1) [of "FreePool ''DsPn''"] c(2) by (simp_all add: r(3))
  then show ?thesis using True p r(1,2) second_query(2,3) [OF q] m by (cases "fst probe2 = STATUS_INFO_LENGTH_MISMATCH") auto
qed

theorem process_image_name_xp_witness:
  "PmAllocateProcessImageNameXp 0 0 (0xC0000022, 0) (Some 5) (0, 0) True (0, []) 0 = (0xC0000022, None, [ReferenceProcess, OpenHandle]) \<and>
   count_events OpenHandle (snd (snd (PmAllocateProcessImageNameXp 0 0 (0xC0000022, 0) (Some 5) (0, 0) True (0, []) 0))) \<noteq>
   count_events CloseHandle (snd (snd (PmAllocateProcessImageNameXp 0 0 (0xC0000022, 0) (Some 5) (0, 0) True (0, []) 0)))"
proof -
  have e: "PmAllocateProcessImageNameXp 0 0 (0xC0000022, 0) (Some 5) (0, 0) True (0, []) 0 = (0xC0000022, None, [ReferenceProcess, OpenHandle])"
    by (simp add: PmAllocateProcessImageNameXp_def first_query)
  show ?thesis using process_image_name_xp [OF e] by (simp add: e)
qed

end
