(* ===== verification/Process.thy ===== *)
theory Process
  imports Exclusion Image_Name
begin

text \<open>
  The process monitor of \<open>src/process.c\<close>: the table of processes with their excluded
  threads, the callbacks that keep it up to date, the queries over it, and the monitor's
  start and stop.  The run-time library's generic table is taken at its documented
  behaviour: the elements in the order of the comparison routine, at most one per key.
\<close>

section \<open>Entries and the table\<close>

definition TRUST_LEVEL_NONE :: u32 where "TRUST_LEVEL_NONE = 1"
definition TRUST_LEVEL_EXEMPTED :: u32 where "TRUST_LEVEL_EXEMPTED = 2"
definition TRUST_LEVEL_FORCEFUL :: u32 where "TRUST_LEVEL_FORCEFUL = 0x10000"
definition TRUST_LEVEL_MASSIVE :: u32 where
  "TRUST_LEVEL_MASSIVE = TRUST_LEVEL_FORCEFUL OR TRUST_LEVEL_EXEMPTED"

text \<open>
  \<open>pe_Path\<close> is the path's buffer (the pool block it lies in) and its text; the other
  fields are those of \<open>DS_PROCESS_ENTRY\<close>.
\<close>

record process_entry =
  pe_Time :: u64
  pe_ParentProcessId :: u64
  pe_ProcessId :: u64
  pe_Sid :: "wchar list"
  pe_ThreadList :: exclusion_table
  pe_Path :: "pointer \<times> wchar list"
  pe_TrustLevel :: u32
  pe_Flags :: u32
  pe_Hash :: u32

definition zero_exclusions :: exclusion_table where
  "zero_exclusions = \<lparr>ex_Lock = False,
     ex_Table = \<lparr>it_Size = 0, it_NodeList = None, it_NodeFreeList = 0, it_NodeCount = 0\<rparr>\<rparr>"

definition zero_entry :: process_entry where
  "zero_entry = \<lparr>pe_Time = 0, pe_ParentProcessId = 0, pe_ProcessId = 0, pe_Sid = [],
     pe_ThreadList = zero_exclusions, pe_Path = (0, []), pe_TrustLevel = 0, pe_Flags = 0, pe_Hash = 0\<rparr>"

datatype compare_result = GenericLessThan | GenericGreaterThan | GenericEqual

definition PmCompareNode :: "process_entry \<Rightarrow> process_entry \<Rightarrow> compare_result" where
  "PmCompareNode Lhs Rhs =
     (if pe_ProcessId Lhs > pe_ProcessId Rhs then GenericGreaterThan
      else if pe_ProcessId Lhs < pe_ProcessId Rhs then GenericLessThan
      else GenericEqual)"

text \<open>The generic table, over the comparison routine.\<close>

fun rtl_lookup :: "('e \<Rightarrow> 'e \<Rightarrow> compare_result) \<Rightarrow> 'e list \<Rightarrow> 'e \<Rightarrow> 'e option" where
  "rtl_lookup cmp [] k = None"
| "rtl_lookup cmp (e # es) k = (if cmp k e = GenericEqual then Some e else rtl_lookup cmp es k)"

fun rtl_insert :: "('e \<Rightarrow> 'e \<Rightarrow> compare_result) \<Rightarrow> 'e \<Rightarrow> 'e list \<Rightarrow> 'e list" where
  "rtl_insert cmp k [] = [k]"
| "rtl_insert cmp k (e # es) = (if cmp k e = GenericLessThan then k # e # es else e # rtl_insert cmp k es)"

fun rtl_delete :: "('e \<Rightarrow> 'e \<Rightarrow> compare_result) \<Rightarrow> 'e \<Rightarrow> 'e list \<Rightarrow> bool \<times> 'e list" where
  "rtl_delete cmp k [] = (False, [])"
| "rtl_delete cmp k (e # es) =
     (if cmp k e = GenericEqual then (True, es)
      else let (d, es') = rtl_delete cmp k es in (d, e # es'))"

section \<open>The monitor's state\<close>

text \<open>
  \<open>pm_blocks\<close> are the live pool blocks of image names and of the entries that the creation
  callback builds; \<open>pm_notify\<close> and \<open>pm_lookaside\<close> tell whether the notify routine is
  registered and the lookaside list exists.
\<close>

record pm_state =
  gProcessTree :: "process_entry list option"
  pm_lock :: bool
  pm_objs :: pm_objects
  pm_blocks :: "pointer set"
  pm_notify :: bool
  pm_lookaside :: bool

definition PmInitializeProcessTable :: "bool \<Rightarrow> process_entry list option" where
  "PmInitializeProcessTable alloc = (if alloc then Some [] else None)"

definition PmLookupProcessEntryById :: "pm_state \<Rightarrow> u64 \<Rightarrow> process_entry option" where
  "PmLookupProcessEntryById s ProcessId =
     rtl_lookup PmCompareNode (the (gProcessTree s)) (zero_entry\<lparr>pe_ProcessId := ProcessId\<rparr>)"

text \<open>\<open>node\<close> tells whether \<open>PmAllocateNode\<close> finds memory.  None is a fault of the cleanup.\<close>

definition PmCreateProcessEntry ::
  "bool \<Rightarrow> pm_state \<Rightarrow> process_entry \<Rightarrow> (ntstatus \<times> pm_state \<times> process_entry) option" where
  "PmCreateProcessEntry node s ProcessEntry =
     (let e = ProcessEntry\<lparr>pe_ThreadList := PmInitializeThreadExclusionList (pe_ThreadList ProcessEntry)\<rparr>;
          tree = the (gProcessTree s);
          (Status, s') =
            (case rtl_lookup PmCompareNode tree e of
               Some old \<Rightarrow> (STATUS_OBJECTID_EXISTS, s)
             | None \<Rightarrow>
                 if node then (STATUS_SUCCESS, s\<lparr>gProcessTree := Some (rtl_insert PmCompareNode e tree)\<rparr>)
                 else (STATUS_INTERNAL_ERROR, s))
      in if \<not> NT_SUCCESS Status
         then map_option (\<lambda>(o', l). (Status, s'\<lparr>pm_objs := o'\<rparr>, e\<lparr>pe_ThreadList := l\<rparr>))
                (PmDestroyThreadExclusionList (pm_objs s') (pe_ThreadList e))
         else Some (Status, s', e))"

definition PmDeleteProcessEntry :: "pm_state \<Rightarrow> process_entry \<Rightarrow> (ntstatus \<times> pm_state) option" where
  "PmDeleteProcessEntry s ProcessEntry =
     map_option (\<lambda>(o', l).
         let (Deleted, tree) = rtl_delete PmCompareNode ProcessEntry (the (gProcessTree s))
         in (if Deleted then STATUS_SUCCESS else STATUS_NOT_FOUND,
             s\<lparr>pm_objs := o', gProcessTree := Some tree\<rparr>))
       (PmDestroyThreadExclusionList (pm_objs s) (pe_ThreadList ProcessEntry))"

partial_function (option) PmClearProcessTable :: "pm_state \<Rightarrow> pm_state option" where
  "PmClearProcessTable s =
     (if gProcessTree s = Some [] then Some s
      else Option.bind (PmDeleteProcessEntry s (hd (the (gProcessTree s))))
             (\<lambda>r. PmClearProcessTable (snd r)))"

definition PmDeleteProcessTable :: "pm_state \<Rightarrow> pm_state option" where
  "PmDeleteProcessTable s = PmClearProcessTable s"

definition PmGetClientTrustLevel :: "pm_state \<Rightarrow> u64 \<Rightarrow> thread \<Rightarrow> (u32 \<times> pm_state) option" where
  "PmGetClientTrustLevel s CurrentProcessId CurrentThread =
     (case PmLookupProcessEntryById s CurrentProcessId of
        None \<Rightarrow> Some (TRUST_LEVEL_NONE, s\<lparr>pm_lock := False\<rparr>)
      | Some ProcessEntry \<Rightarrow>
          map_option (\<lambda>IsExcluded. (if IsExcluded then TRUST_LEVEL_MASSIVE else TRUST_LEVEL_NONE,
                                    s\<lparr>pm_lock := False\<rparr>))
            (PmIsThreadExcluded (pm_objs s) (pe_ThreadList ProcessEntry) CurrentThread))"

section \<open>Enumeration\<close>

fun enum_table :: "(process_entry \<Rightarrow> 's \<Rightarrow> ntstatus \<times> 's) \<Rightarrow> process_entry list \<Rightarrow> ntstatus \<Rightarrow> 's \<Rightarrow> ntstatus \<times> 's"
where
  "enum_table routine [] Status out = (Status, out)"
| "enum_table routine (e # es) Status out =
     (let (Status', out') = routine e out in enum_table routine es Status' out')"

definition PmEnumerateEntryProcessTable ::
  "(process_entry \<Rightarrow> 's \<Rightarrow> ntstatus \<times> 's) \<Rightarrow> process_entry list \<Rightarrow> 's \<Rightarrow> ntstatus \<times> 's" where
  "PmEnumerateEntryProcessTable EnumerationRoutine Table out =
     enum_table EnumerationRoutine Table STATUS_SUCCESS out"

text \<open>The output is the caller's array of process ids and its optional byte count.\<close>

definition PmGetExemptedProcessListCallback ::
  "nat \<Rightarrow> process_entry \<Rightarrow> u32 list \<times> nat option \<Rightarrow> ntstatus \<times> u32 list \<times> nat option" where
  "PmGetExemptedProcessListCallback BufferSize ProcessEntry out =
     (let (ProcessIdList, BytesReturned) = out;
          ProcessCount = 0;
          (Status, list, count) =
            (if FlagOn (pe_TrustLevel ProcessEntry) TRUST_LEVEL_EXEMPTED then
               (if (ProcessCount + 1) * 4 \<le> BufferSize
                then (STATUS_SUCCESS, ProcessIdList[ProcessCount := ucast (pe_ProcessId ProcessEntry)], ProcessCount + 1)
                else (STATUS_BUFFER_TOO_SMALL, ProcessIdList, ProcessCount + 1))
             else (STATUS_SUCCESS, ProcessIdList, ProcessCount))
      in (Status, list, map_option (\<lambda>_. count * 4) BytesReturned))"

definition PmGetExemptedProcessList ::
  "process_entry list \<Rightarrow> nat \<Rightarrow> u32 list \<times> nat option \<Rightarrow> ntstatus \<times> u32 list \<times> nat option" where
  "PmGetExemptedProcessList Table BufferSize out =
     PmEnumerateEntryProcessTable (PmGetExemptedProcessListCallback BufferSize) Table out"

section \<open>Callbacks\<close>

text \<open>
  The kernel's answers during a creation: the image name, the block for the entry, the
  time, the SID and whether a table node can be allocated.
\<close>

record creation_env =
  ce_name :: "ntstatus \<times> (pointer \<times> wchar list) option"
  ce_entry :: "pointer option"
  ce_time :: u64
  ce_sid :: "ntstatus \<times> wchar list"
  ce_node :: bool

definition DsProcessCreationCallback ::
  "creation_env \<Rightarrow> pm_state \<Rightarrow> u64 \<Rightarrow> u64 \<Rightarrow> pm_state option" where
  "DsProcessCreationCallback env s ParentId ProcessId =
     (let (Status, name) = ce_name env;
          s1 = (case name of None \<Rightarrow> s | Some (p, _) \<Rightarrow> s\<lparr>pm_blocks := insert p (pm_blocks s)\<rparr>);
          free_name = (\<lambda>s. case name of None \<Rightarrow> s | Some (p, _) \<Rightarrow> s\<lparr>pm_blocks := pm_blocks s - {p}\<rparr>)
      in if \<not> NT_SUCCESS Status then Some (free_name s1)
         else case ce_entry env of
                None \<Rightarrow> Some s1
              | Some q \<Rightarrow>
                  let s2 = s1\<lparr>pm_blocks := insert q (pm_blocks s1)\<rparr>;
                      finish = (\<lambda>s. (free_name s)\<lparr>pm_blocks := pm_blocks (free_name s) - {q}\<rparr>);
                      e = zero_entry\<lparr>pe_Path := (q, snd (the name)), pe_Time := ce_time env,
                            pe_ParentProcessId := ParentId, pe_ProcessId := ProcessId\<rparr>
                  in if \<not> NT_SUCCESS (fst (ce_sid env)) then Some (finish s2)
                     else map_option (\<lambda>(st, s3, _). finish (s3\<lparr>pm_lock := False\<rparr>))
                            (PmCreateProcessEntry (ce_node env) s2
                               (e\<lparr>pe_Sid := take 191 (snd (ce_sid env))\<rparr>)))"

definition DsProcessDeletionCallback :: "pm_state \<Rightarrow> u64 \<Rightarrow> pm_state option" where
  "DsProcessDeletionCallback s ProcessId =
     (case PmLookupProcessEntryById s ProcessId of
        None \<Rightarrow> Some (s\<lparr>pm_lock := False\<rparr>)
      | Some ProcessEntry \<Rightarrow>
          map_option (\<lambda>(st, s'). s'\<lparr>pm_lock := False\<rparr>) (PmDeleteProcessEntry s ProcessEntry))"

definition DsProcessNotifyCallback ::
  "creation_env \<Rightarrow> pm_state \<Rightarrow> u64 \<Rightarrow> u64 \<Rightarrow> bool \<Rightarrow> pm_state option" where
  "DsProcessNotifyCallback env s ParentId ProcessId Create =
     (if Create then DsProcessCreationCallback env s ParentId ProcessId
      else DsProcessDeletionCallback s ProcessId)"

section \<open>Enumerating the running processes\<close>

text \<open>
  The snapshot that the system call fills in: records at byte offsets, each with the
  distance to the next one, 0 in the last.
\<close>

record process_info =
  pi_NextEntryOffset :: nat
  pi_UniqueProcessId :: u64
  pi_InheritedFromUniqueProcessId :: u64

definition SeNotifyProcess ::
  "(u64 \<Rightarrow> creation_env) \<Rightarrow> process_info \<Rightarrow> pm_state \<Rightarrow> (ntstatus \<times> pm_state) option" where
  "SeNotifyProcess env ProcessInfo s =
     map_option (\<lambda>s'. (STATUS_SUCCESS, s'))
       (DsProcessCreationCallback (env (pi_UniqueProcessId ProcessInfo)) s
          (pi_InheritedFromUniqueProcessId ProcessInfo) (pi_UniqueProcessId ProcessInfo))"

partial_function (option) enum_loop ::
  "(process_info \<Rightarrow> 's \<Rightarrow> (ntstatus \<times> 's) option) \<Rightarrow> (nat \<Rightarrow> process_info) \<Rightarrow> nat \<Rightarrow> ntstatus \<Rightarrow> 's
     \<Rightarrow> (ntstatus \<times> 's) option" where
  "enum_loop callback buf off Status ctx =
     Option.bind
       (if pi_UniqueProcessId (buf off) \<noteq> 0 \<and> pi_UniqueProcessId (buf off) \<noteq> 4
        then callback (buf off) ctx else Some (Status, ctx))
       (\<lambda>r. if \<not> NT_SUCCESS (fst r) then Some r
            else if pi_NextEntryOffset (buf (off + pi_NextEntryOffset (buf off))) = 0 then Some r
            else enum_loop callback buf (off + pi_NextEntryOffset (buf off)) (fst r) (snd r))"

text \<open>
  The query is repeated with the size the system call asks for while it reports a length
  mismatch; \<open>alloc\<close> and \<open>query\<close> depend on the size.
\<close>

partial_function (option) query_loop ::
  "(nat \<Rightarrow> bool) \<Rightarrow> (nat \<Rightarrow> ntstatus \<times> nat \<times> (nat \<Rightarrow> process_info)) \<Rightarrow> nat
     \<Rightarrow> (ntstatus \<times> (nat \<Rightarrow> process_info) option) option" where
  "query_loop alloc query BufferSize =
     (if \<not> alloc BufferSize then Some (STATUS_INSUFFICIENT_RESOURCES, None)
      else if fst (query BufferSize) = STATUS_INFO_LENGTH_MISMATCH
      then query_loop alloc query (fst (snd (query BufferSize)))
      else if NT_SUCCESS (fst (query BufferSize))
      then Some (fst (query BufferSize), Some (snd (snd (query BufferSize))))
      else Some (fst (query BufferSize), None))"

definition PmEnumerareProcesses ::
  "(nat \<Rightarrow> bool) \<Rightarrow> (nat \<Rightarrow> ntstatus \<times> nat \<times> (nat \<Rightarrow> process_info))
     \<Rightarrow> (process_info \<Rightarrow> 's \<Rightarrow> (ntstatus \<times> 's) option) \<Rightarrow> 's \<Rightarrow> (ntstatus \<times> 's) option" where
  "PmEnumerareProcesses alloc query callback ctx =
     Option.bind (query_loop alloc query 0x4000)
       (\<lambda>(Status, b). case b of None \<Rightarrow> Some (Status, ctx)
                      | Some buf \<Rightarrow> enum_loop callback buf 0 Status ctx)"

section \<open>Start and stop\<close>

definition PmInitializeProcessMonitor ::
  "bool \<Rightarrow> ntstatus \<Rightarrow> (nat \<Rightarrow> bool) \<Rightarrow> (nat \<Rightarrow> ntstatus \<times> nat \<times> (nat \<Rightarrow> process_info))
     \<Rightarrow> (u64 \<Rightarrow> creation_env) \<Rightarrow> pm_state \<Rightarrow> (ntstatus \<times> pm_state) option" where
  "PmInitializeProcessMonitor table register alloc query env s =
     (let s1 = s\<lparr>pm_lock := False, pm_lookaside := True, gProcessTree := PmInitializeProcessTable table\<rparr>;
          fail = (\<lambda>Status CreateNotifyStarted s.
             let stop = (\<lambda>s. s\<lparr>pm_notify := (if CreateNotifyStarted then False else pm_notify s),
                               pm_lookaside := False\<rparr>)
             in case gProcessTree s of
                  None \<Rightarrow> Some (Status, stop s)
                | Some _ \<Rightarrow> map_option (\<lambda>s'. (Status, stop (s'\<lparr>gProcessTree := None\<rparr>))) (PmDeleteProcessTable s))
      in if gProcessTree s1 = None then fail STATUS_NO_MEMORY False s1
         else if \<not> NT_SUCCESS register then fail register False s1
         else Option.bind (PmEnumerareProcesses alloc query (SeNotifyProcess env) (s1\<lparr>pm_notify := True\<rparr>))
                (\<lambda>(Status, s2). if \<not> NT_SUCCESS Status then fail Status True s2 else Some (Status, s2)))"

definition PmFinalizeProcessMonitor :: "pm_state \<Rightarrow> pm_state option" where
  "PmFinalizeProcessMonitor s =
     map_option (\<lambda>s'. s'\<lparr>gProcessTree := None, pm_lock := False, pm_lookaside := False\<rparr>)
       (PmDeleteProcessTable (s\<lparr>pm_notify := False\<rparr>))"

section \<open>The table as a map\<close>

definition table_wf :: "process_entry list \<Rightarrow> bool" where
  "table_wf es \<longleftrightarrow> sorted_wrt (\<lambda>a b. pe_ProcessId a < pe_ProcessId b) es"

definition entry_of :: "process_entry list \<Rightarrow> u64 \<Rightarrow> process_entry option" where
  "entry_of es pid = find (\<lambda>e. pe_ProcessId e = pid) es"

lemma PmCompareNode_iff:
  "PmCompareNode a b = GenericEqual \<longleftrightarrow> pe_ProcessId a = pe_ProcessId b"
  "PmCompareNode a b = GenericLessThan \<longleftrightarrow> pe_ProcessId a < pe_ProcessId b"
  by (auto simp: PmCompareNode_def)

lemma rtl_lookup_entry: "rtl_lookup PmCompareNode es k = entry_of es (pe_ProcessId k)"
  by (induction es) (auto simp: entry_of_def PmCompareNode_iff)

lemma lookup_entry: "PmLookupProcessEntryById s pid = entry_of (the (gProcessTree s)) pid"
  by (simp add: PmLookupProcessEntryById_def rtl_lookup_entry)

lemma entry_of_None: "entry_of es pid = None \<longleftrightarrow> (\<forall>e \<in> set es. pe_ProcessId e \<noteq> pid)"
  by (auto simp: entry_of_def find_None_iff)

lemma entry_of_SomeD: "entry_of es pid = Some e \<Longrightarrow> e \<in> set es \<and> pe_ProcessId e = pid"
  by (auto simp: entry_of_def find_Some_iff)

lemma entry_of_mem: "table_wf es \<Longrightarrow> e \<in> set es \<Longrightarrow> entry_of es (pe_ProcessId e) = Some e"
  by (induction es) (auto simp: table_wf_def entry_of_def)

lemma set_rtl_insert [simp]: "set (rtl_insert cmp k es) = insert k (set es)"
  by (induction es) auto

lemma table_wf_insert:
  "table_wf es \<Longrightarrow> entry_of es (pe_ProcessId k) = None \<Longrightarrow> table_wf (rtl_insert PmCompareNode k es)"
proof (induction es)
  case (Cons e es)
  have n: "pe_ProcessId e \<noteq> pe_ProcessId k" "entry_of es (pe_ProcessId k) = None"
    using Cons.prems(2) by (auto simp: entry_of_None)
  show ?case
  proof (cases "pe_ProcessId k < pe_ProcessId e")
    case True
    then show ?thesis using Cons.prems(1) by (fastforce simp: table_wf_def PmCompareNode_iff)
  next
    case False
    then have "pe_ProcessId e < pe_ProcessId k" using n(1) by simp
    then show ?thesis using Cons n False by (auto simp: table_wf_def PmCompareNode_iff)
  qed
qed (simp add: table_wf_def)

lemma entry_of_insert:
  "table_wf es \<Longrightarrow> entry_of es (pe_ProcessId k) = None \<Longrightarrow>
     entry_of (rtl_insert PmCompareNode k es) = (entry_of es)(pe_ProcessId k \<mapsto> k)"
  by (induction es) (auto simp: entry_of_def PmCompareNode_iff table_wf_def fun_eq_iff)

lemma rtl_delete_entry:
  "table_wf es \<Longrightarrow> e \<in> set es \<Longrightarrow>
     rtl_delete PmCompareNode e es = (True, filter (\<lambda>x. pe_ProcessId x \<noteq> pe_ProcessId e) es)"
proof (induction es)
  case (Cons x es)
  show ?case
  proof (cases "pe_ProcessId x = pe_ProcessId e")
    case True
    have "filter (\<lambda>x. pe_ProcessId x \<noteq> pe_ProcessId e) es = es"
      using Cons.prems(1) True by (intro filter_True) (auto simp: table_wf_def)
    then show ?thesis using True by (simp add: PmCompareNode_iff)
  next
    case False
    then show ?thesis using Cons by (auto simp: PmCompareNode_iff table_wf_def)
  qed
qed simp

lemma table_wf_filter: "table_wf es \<Longrightarrow> table_wf (filter P es)"
  by (simp add: table_wf_def sorted_wrt_filter)

lemma entry_of_filter:
  "entry_of (filter (\<lambda>x. pe_ProcessId x \<noteq> pid) es) = (entry_of es)(pid := None)"
  by (induction es) (auto simp: entry_of_def fun_eq_iff)

text \<open>
  The monitor's invariant: the table is in order, the exclusion list of the process
  \<open>pid\<close> is well formed and holds the blocks \<open>B pid\<close>, and no block is in two lists.
\<close>

definition monitor_inv :: "pm_state \<Rightarrow> (u64 \<Rightarrow> (nat \<times> pointer) list) \<Rightarrow> bool" where
  "monitor_inv s B \<longleftrightarrow> (\<exists>es. gProcessTree s = Some es \<and> table_wf es \<and>
     (\<forall>e \<in> set es. exclusion_list (pm_objs s) (pe_ThreadList e) (B (pe_ProcessId e))) \<and>
     (\<forall>e \<in> set es. \<forall>e' \<in> set es. pe_ProcessId e \<noteq> pe_ProcessId e' \<longrightarrow>
        snd ` set (B (pe_ProcessId e)) \<inter> snd ` set (B (pe_ProcessId e')) = {}))"

lemma monitor_invD:
  assumes inv: "monitor_inv s B" and es: "gProcessTree s = Some es"
  shows "table_wf es"
    "e \<in> set es \<Longrightarrow> exclusion_list (pm_objs s) (pe_ThreadList e) (B (pe_ProcessId e))"
    "e \<in> set es \<Longrightarrow> e' \<in> set es \<Longrightarrow> pe_ProcessId e \<noteq> pe_ProcessId e' \<Longrightarrow>
        snd ` set (B (pe_ProcessId e)) \<inter> snd ` set (B (pe_ProcessId e')) = {}"
  using inv es unfolding monitor_inv_def by simp_all

lemma monitor_inv_tree: "monitor_inv s B \<Longrightarrow> \<exists>es. gProcessTree s = Some es"
  by (auto simp: monitor_inv_def)

lemma exclusion_list_other:
  "exclusion_list s l cs \<Longrightarrow> snd ` set cs \<inter> P = {} \<Longrightarrow>
     exclusion_list (s\<lparr>po_entries := (\<lambda>p. if p \<in> P then None else po_entries s p)\<rparr>) l cs"
  by (fastforce simp: exclusion_list_def)

definition free_blocks :: "pm_objects \<Rightarrow> pointer set \<Rightarrow> pm_objects" where
  "free_blocks s P = s\<lparr>po_entries := (\<lambda>p. if p \<in> P then None else po_entries s p)\<rparr>"

definition without_entry :: "pm_state \<Rightarrow> (u64 \<Rightarrow> (nat \<times> pointer) list) \<Rightarrow> u64 \<Rightarrow> pm_state" where
  "without_entry s B pid = s\<lparr>pm_objs := free_blocks (pm_objs s) (snd ` set (B pid)),
     gProcessTree := Some (filter (\<lambda>x. pe_ProcessId x \<noteq> pid) (the (gProcessTree s)))\<rparr>"

lemma delete_entry:
  assumes inv: "monitor_inv s B" and e: "e \<in> set (the (gProcessTree s))"
  shows "PmDeleteProcessEntry s e = Some (STATUS_SUCCESS, without_entry s B (pe_ProcessId e))"
    and "monitor_inv (without_entry s B (pe_ProcessId e)) B"
proof -
  from monitor_inv_tree [OF inv] obtain es where t: "gProcessTree s = Some es" ..
  note es = t monitor_invD [OF inv t]
  have e: "e \<in> set es" using e es(1) by simp
  show "PmDeleteProcessEntry s e = Some (STATUS_SUCCESS, without_entry s B (pe_ProcessId e))"
    using destroy_exclusion [OF es(3) [OF e]] rtl_delete_entry [OF es(2) e] es(1)
    by (auto simp: PmDeleteProcessEntry_def free_blocks_def without_entry_def)
  show "monitor_inv (without_entry s B (pe_ProcessId e)) B"
    unfolding monitor_inv_def without_entry_def free_blocks_def
  proof (intro exI conjI ballI impI)
    show "table_wf (filter (\<lambda>x. pe_ProcessId x \<noteq> pe_ProcessId e) es)"
      using es(2) by (rule table_wf_filter)
    fix x assume "x \<in> set (filter (\<lambda>x. pe_ProcessId x \<noteq> pe_ProcessId e) es)"
    then have x: "x \<in> set es" "pe_ProcessId x \<noteq> pe_ProcessId e" by simp_all
    from exclusion_list_other [OF es(3) [OF x(1)] es(4) [OF x(1) e x(2)]]
    show "exclusion_list (pm_objs (s\<lparr>pm_objs := (pm_objs s)\<lparr>po_entries :=
        \<lambda>p. if p \<in> snd ` set (B (pe_ProcessId e)) then None else po_entries (pm_objs s) p\<rparr>,
        gProcessTree := Some (filter (\<lambda>x. pe_ProcessId x \<noteq> pe_ProcessId e) (the (gProcessTree s)))\<rparr>))
      (pe_ThreadList x) (B (pe_ProcessId x))" by simp
    fix y assume "y \<in> set (filter (\<lambda>x. pe_ProcessId x \<noteq> pe_ProcessId e) es)"
      "pe_ProcessId x \<noteq> pe_ProcessId y"
    then show "snd ` set (B (pe_ProcessId x)) \<inter> snd ` set (B (pe_ProcessId y)) = {}"
      using es(4) [OF x(1)] by simp
  qed (simp add: es(1))
qed

lemma clear_table:
  assumes "monitor_inv s B"
  shows "PmClearProcessTable s = Some (s\<lparr>gProcessTree := Some [],
    pm_objs := free_blocks (pm_objs s) (\<Union>e \<in> set (the (gProcessTree s)). snd ` set (B (pe_ProcessId e)))\<rparr>)"
  using assms
proof (induction "the (gProcessTree s)" arbitrary: s)
  case Nil
  then have "gProcessTree s = Some []" by (auto simp: monitor_inv_def)
  then show ?case by (simp add: PmClearProcessTable.simps free_blocks_def)
next
  case (Cons e es)
  then have t: "gProcessTree s = Some (e # es)" "table_wf (e # es)" by (auto simp: monitor_inv_def)
  note D = delete_entry [OF Cons.prems, of e]
  have f: "filter (\<lambda>x. pe_ProcessId x \<noteq> pe_ProcessId e) (e # es) = es"
    using t(2) by (auto simp: table_wf_def filter_id_conv)
  define s1 where "s1 = without_entry s B (pe_ProcessId e)"
  have s1: "s1 = s\<lparr>pm_objs := free_blocks (pm_objs s) (snd ` set (B (pe_ProcessId e))), gProcessTree := Some es\<rparr>"
    using t(1) f by (simp add: s1_def without_entry_def)
  have d: "PmDeleteProcessEntry s e = Some (STATUS_SUCCESS, s1)" "monitor_inv s1 B"
    using D t(1) by (simp_all add: s1_def)
  then have "PmClearProcessTable s = PmClearProcessTable s1"
    using t(1) by (subst PmClearProcessTable.simps) simp
  also have "\<dots> = Some (s1\<lparr>gProcessTree := Some [], pm_objs := free_blocks (pm_objs s1)
      (\<Union>e \<in> set es. snd ` set (B (pe_ProcessId e)))\<rparr>)"
    using Cons.hyps(1) [of s1] d(2) by (simp add: s1)
  also have "\<dots> = Some (s\<lparr>gProcessTree := Some [], pm_objs := free_blocks (pm_objs s)
      (\<Union>e \<in> set (e # es). snd ` set (B (pe_ProcessId e)))\<rparr>)"
    by (auto simp: free_blocks_def s1 fun_eq_iff)
  finally show ?case using t(1) by simp
qed

section \<open>The callbacks on the table\<close>

definition tracked :: "pm_state \<Rightarrow> u64 set" where
  "tracked s = pe_ProcessId ` set (the (gProcessTree s))"

lemma tracked_lookup: "pid \<in> tracked s \<longleftrightarrow> PmLookupProcessEntryById s pid \<noteq> None"
  by (auto simp: tracked_def lookup_entry entry_of_None)

lemma destroy_empty:
  "\<exists>l'. PmDestroyThreadExclusionList s (PmInitializeThreadExclusionList l) = Some (s, l')"
  using destroy_exclusion [OF exclusion_list_initialize [of s l]] by auto

text \<open>The entry is added exactly when there is none for the process and a node can be had.\<close>

lemma create_entry:
  assumes inv: "monitor_inv s B" and pid: "pe_ProcessId e = pid"
  shows "\<exists>st s' e'. PmCreateProcessEntry node s e = Some (st, s', e') \<and>
    (let new = (node \<and> pid \<notin> tracked s) in
       monitor_inv s' (if new then B(pid := []) else B) \<and>
       PmLookupProcessEntryById s' = (if new then (PmLookupProcessEntryById s)(pid \<mapsto> e') else PmLookupProcessEntryById s) \<and>
       pe_ParentProcessId e' = pe_ParentProcessId e \<and>
       (NT_SUCCESS st \<longleftrightarrow> new) \<and> pm_blocks s' = pm_blocks s \<and> pm_notify s' = pm_notify s)"
proof -
  from monitor_inv_tree [OF inv] obtain es where t: "gProcessTree s = Some es" ..
  note I = monitor_invD [OF inv t]
  define e1 where "e1 = e\<lparr>pe_ThreadList := PmInitializeThreadExclusionList (pe_ThreadList e)\<rparr>"
  have pid1: "pe_ProcessId e1 = pid" using pid by (simp add: e1_def)
  have par: "pe_ParentProcessId e1 = pe_ParentProcessId e" by (simp add: e1_def)
  obtain l' where l': "PmDestroyThreadExclusionList (pm_objs s) (pe_ThreadList e1) = Some (pm_objs s, l')"
    using destroy_empty by (auto simp: e1_def)
  have look: "rtl_lookup PmCompareNode es e1 = entry_of es pid" by (simp add: rtl_lookup_entry pid1)
  have tr: "pid \<notin> tracked s \<longleftrightarrow> entry_of es pid = None" by (simp add: tracked_lookup lookup_entry t)
  consider (old) "entry_of es pid \<noteq> None" | (nomem) "entry_of es pid = None" "\<not> node"
    | (new) "entry_of es pid = None" node by blast
  then show ?thesis
  proof cases
    case old
    then show ?thesis
      using l' look tr t inv par
      by (auto simp: PmCreateProcessEntry_def Let_def e1_def [symmetric])
  next
    case nomem
    then show ?thesis
      using l' look tr t inv par
      by (auto simp: PmCreateProcessEntry_def Let_def e1_def [symmetric])
  next
    case new
    let ?s = "s\<lparr>gProcessTree := Some (rtl_insert PmCompareNode e1 es)\<rparr>"
    have "PmCreateProcessEntry node s e = Some (STATUS_SUCCESS, ?s, e1)"
      using new look t by (simp add: PmCreateProcessEntry_def Let_def e1_def [symmetric])
    moreover have "monitor_inv ?s (B(pid := []))"
      unfolding monitor_inv_def
    proof (intro exI conjI ballI impI)
      show "table_wf (rtl_insert PmCompareNode e1 es)"
        using table_wf_insert I(1) new(1) pid1 by simp
      have ne: "pe_ProcessId x \<noteq> pid" if "x \<in> set es" for x using that new(1) by (simp add: entry_of_None)
      fix x assume "x \<in> set (rtl_insert PmCompareNode e1 es)"
      then have x: "x = e1 \<or> x \<in> set es" by simp
      then show "exclusion_list (pm_objs ?s) (pe_ThreadList x) ((B(pid := [])) (pe_ProcessId x))"
        using I(2) ne pid1 by (auto simp: e1_def exclusion_list_initialize)
      fix y assume "y \<in> set (rtl_insert PmCompareNode e1 es)" "pe_ProcessId x \<noteq> pe_ProcessId y"
      with x show "snd ` set ((B(pid := [])) (pe_ProcessId x)) \<inter> snd ` set ((B(pid := [])) (pe_ProcessId y)) = {}"
        using I(3) [of x y] ne pid1 by auto
    qed simp
    moreover have "PmLookupProcessEntryById ?s = (PmLookupProcessEntryById s)(pid \<mapsto> e1)"
      using entry_of_insert [OF I(1), of e1] new(1) pid1 by (simp add: fun_eq_iff lookup_entry t)
    ultimately show ?thesis using new tr by (simp add: e1_def)
  qed
qed

definition creation_ok :: "creation_env \<Rightarrow> bool" where
  "creation_ok env \<longleftrightarrow> NT_SUCCESS (fst (ce_name env)) \<and> ce_entry env \<noteq> None \<and>
     NT_SUCCESS (fst (ce_sid env)) \<and> ce_node env"

lemma monitor_inv_cong:
  "gProcessTree s' = gProcessTree s \<Longrightarrow> pm_objs s' = pm_objs s \<Longrightarrow> monitor_inv s' B = monitor_inv s B"
  by (simp add: monitor_inv_def)

lemma lookup_cong: "gProcessTree s' = gProcessTree s \<Longrightarrow> PmLookupProcessEntryById s' = PmLookupProcessEntryById s"
  by (simp add: fun_eq_iff lookup_entry)

lemma creation_fails:
  assumes "\<not> (NT_SUCCESS (fst (ce_name env)) \<and> ce_entry env \<noteq> None \<and> NT_SUCCESS (fst (ce_sid env)))"
  shows "\<exists>s'. DsProcessCreationCallback env s parent pid = Some s' \<and>
    gProcessTree s' = gProcessTree s \<and> pm_objs s' = pm_objs s"
  using assms
  by (auto simp: DsProcessCreationCallback_def Let_def split: prod.splits option.splits)

lemma creation_callback:
  assumes inv: "monitor_inv s B"
  shows "\<exists>s' B'. DsProcessCreationCallback env s parent pid = Some s' \<and> monitor_inv s' B' \<and>
    (if creation_ok env \<and> pid \<notin> tracked s
     then \<exists>e. PmLookupProcessEntryById s' = (PmLookupProcessEntryById s)(pid \<mapsto> e) \<and>
            pe_ParentProcessId e = parent \<and> B' = B(pid := [])
     else PmLookupProcessEntryById s' = PmLookupProcessEntryById s \<and> B' = B)"
proof (cases "NT_SUCCESS (fst (ce_name env)) \<and> ce_entry env \<noteq> None \<and> NT_SUCCESS (fst (ce_sid env))")
  case False
  then obtain s' where s': "DsProcessCreationCallback env s parent pid = Some s'"
    "gProcessTree s' = gProcessTree s" "pm_objs s' = pm_objs s" using creation_fails by blast
  then have "monitor_inv s' B" using inv monitor_inv_cong by metis
  moreover have "\<not> creation_ok env" using False by (auto simp: creation_ok_def)
  ultimately show ?thesis using s'(1) lookup_cong [OF s'(2)] by auto
next
  case True
  obtain st name where n: "ce_name env = (st, name)" by fastforce
  obtain q where q: "ce_entry env = Some q" using True by auto
  define e where "e = zero_entry\<lparr>pe_Path := (q, snd (the name)), pe_Time := ce_time env,
    pe_ParentProcessId := parent, pe_ProcessId := pid, pe_Sid := take 191 (snd (ce_sid env))\<rparr>"
  define s1 where "s1 = (case name of None \<Rightarrow> s | Some (p, _) \<Rightarrow> s\<lparr>pm_blocks := insert p (pm_blocks s)\<rparr>)"
  define s2 where "s2 = s1\<lparr>pm_blocks := insert q (pm_blocks s1)\<rparr>"
  have s2: "gProcessTree s2 = gProcessTree s" "pm_objs s2 = pm_objs s"
    by (auto simp: s2_def s1_def split: option.splits)
  have inv2: "monitor_inv s2 B" using inv monitor_inv_cong [OF s2] by simp
  have tr: "tracked s2 = tracked s" by (simp add: tracked_def s2)
  have e: "pe_ProcessId e = pid" "pe_ParentProcessId e = parent" by (simp_all add: e_def)
  obtain st' s3 e' where c: "PmCreateProcessEntry (ce_node env) s2 e = Some (st', s3, e')"
    "monitor_inv s3 (if ce_node env \<and> pid \<notin> tracked s then B(pid := []) else B)"
    "PmLookupProcessEntryById s3 = (if ce_node env \<and> pid \<notin> tracked s
       then (PmLookupProcessEntryById s)(pid \<mapsto> e') else PmLookupProcessEntryById s)"
    "pe_ParentProcessId e' = parent"
    using create_entry [OF inv2 e(1), of "ce_node env"]
    unfolding lookup_cong [OF s2(1)] tr Let_def e(2) by blast
  have "PmCreateProcessEntry (ce_node env) s2 (zero_entry\<lparr>pe_Path := (q, snd (the name)),
      pe_Time := ce_time env, pe_ParentProcessId := parent, pe_ProcessId := pid\<rparr>
      \<lparr>pe_Sid := take 191 (snd (ce_sid env))\<rparr>) = Some (st', s3, e')"
    using c(1) by (simp add: e_def)
  then have "\<exists>s'. DsProcessCreationCallback env s parent pid = Some s' \<and>
      gProcessTree s' = gProcessTree s3 \<and> pm_objs s' = pm_objs s3"
    using True n q
    by (auto simp: DsProcessCreationCallback_def Let_def s2_def s1_def split: option.splits)
  then obtain s' where s': "DsProcessCreationCallback env s parent pid = Some s'"
    "gProcessTree s' = gProcessTree s3" "pm_objs s' = pm_objs s3" by blast
  have ok: "creation_ok env \<longleftrightarrow> ce_node env" using True by (simp add: creation_ok_def)
  show ?thesis
  proof (cases "ce_node env \<and> pid \<notin> tracked s")
    case True
    then have "monitor_inv s' (B(pid := []))"
      "PmLookupProcessEntryById s' = (PmLookupProcessEntryById s)(pid \<mapsto> e')"
      using c(2,3) monitor_inv_cong [OF s'(2,3)] lookup_cong [OF s'(2)] by simp_all
    then show ?thesis using s'(1) True ok c(4) by auto
  next
    case False
    then have "monitor_inv s' B" "PmLookupProcessEntryById s' = PmLookupProcessEntryById s"
      using c(2,3) monitor_inv_cong [OF s'(2,3)] lookup_cong [OF s'(2)] by (simp_all only: if_False)
    then show ?thesis using s'(1) False ok by auto
  qed
qed

lemma deletion_callback:
  assumes inv: "monitor_inv s B"
  shows "\<exists>s'. DsProcessDeletionCallback s pid = Some s' \<and> monitor_inv s' B \<and>
    PmLookupProcessEntryById s' = (PmLookupProcessEntryById s)(pid := None) \<and>
    (pid \<in> tracked s \<longrightarrow> (\<forall>c \<in> set (B pid). po_entries (pm_objs s') (snd c) = None))"
proof -
  from monitor_inv_tree [OF inv] obtain es where t: "gProcessTree s = Some es" ..
  show ?thesis
  proof (cases "PmLookupProcessEntryById s pid")
    case None
    then show ?thesis
      using inv lookup_cong [of "s\<lparr>pm_lock := False\<rparr>" s] monitor_inv_cong [of "s\<lparr>pm_lock := False\<rparr>" s]
      by (auto simp: DsProcessDeletionCallback_def tracked_lookup fun_upd_idem)
  next
    case (Some e)
    then have e: "e \<in> set es" "pe_ProcessId e = pid"
      using entry_of_SomeD [of es pid e] by (simp_all add: lookup_entry t)
    let ?s = "(without_entry s B pid)\<lparr>pm_lock := False\<rparr>"
    note D = delete_entry [OF inv, of e, unfolded e(2)]
    have "DsProcessDeletionCallback s pid = Some ?s"
      using Some D(1) e(1) t by (simp add: DsProcessDeletionCallback_def)
    moreover have "monitor_inv ?s B" using D(2) e(1) t monitor_inv_cong [of ?s "without_entry s B pid"] by simp
    moreover have "PmLookupProcessEntryById ?s = (PmLookupProcessEntryById s)(pid := None)"
      by (simp add: fun_eq_iff lookup_entry without_entry_def entry_of_filter t)
    moreover have "\<forall>c \<in> set (B pid). po_entries (pm_objs ?s) (snd c) = None"
      by (auto simp: without_entry_def free_blocks_def)
    ultimately show ?thesis by blast
  qed
qed

section \<open>Runs of notifications\<close>

type_synonym notification = "creation_env \<times> u64 \<times> u64 \<times> bool"

fun notify_run :: "notification list \<Rightarrow> pm_state \<Rightarrow> pm_state option" where
  "notify_run [] s = Some s"
| "notify_run ((env, parent, pid, create) # ns) s =
     Option.bind (DsProcessNotifyCallback env s parent pid create) (notify_run ns)"

fun track :: "notification list \<Rightarrow> u64 set \<Rightarrow> u64 set" where
  "track [] T = T"
| "track ((env, parent, pid, create) # ns) T =
     track ns (if create then (if creation_ok env then insert pid T else T) else T - {pid})"

lemma tracked_eq: "tracked s = {pid. PmLookupProcessEntryById s pid \<noteq> None}"
  using tracked_lookup by blast

lemma notify_callback:
  assumes "monitor_inv s B"
  shows "\<exists>s' B'. DsProcessNotifyCallback env s parent pid create = Some s' \<and> monitor_inv s' B' \<and>
    tracked s' = (if create then (if creation_ok env then insert pid (tracked s) else tracked s)
                  else tracked s - {pid})"
proof (cases create)
  case True
  obtain s' B' where c: "DsProcessCreationCallback env s parent pid = Some s'" "monitor_inv s' B'"
    "if creation_ok env \<and> pid \<notin> tracked s
     then \<exists>e. PmLookupProcessEntryById s' = (PmLookupProcessEntryById s)(pid \<mapsto> e) \<and>
            pe_ParentProcessId e = parent \<and> B' = B(pid := [])
     else PmLookupProcessEntryById s' = PmLookupProcessEntryById s \<and> B' = B"
    using creation_callback [OF assms] by blast
  then have "tracked s' = (if creation_ok env then insert pid (tracked s) else tracked s)"
    by (auto simp: tracked_eq split: if_splits)
  then show ?thesis using c(1,2) True by (auto simp: DsProcessNotifyCallback_def)
next
  case False
  then show ?thesis
    using deletion_callback [OF assms, of pid] by (auto simp: DsProcessNotifyCallback_def tracked_eq)
qed

lemma notify_run_tracks:
  "monitor_inv s B \<Longrightarrow> \<exists>s' B'. notify_run ns s = Some s' \<and> monitor_inv s' B' \<and> tracked s' = track ns (tracked s)"
proof (induction ns s arbitrary: B rule: notify_run.induct)
  case (2 env parent pid create ns s)
  obtain s1 B1 where s1: "DsProcessNotifyCallback env s parent pid create = Some s1" "monitor_inv s1 B1"
    "tracked s1 = (if create then (if creation_ok env then insert pid (tracked s) else tracked s)
                   else tracked s - {pid})"
    using notify_callback [OF 2(2)] by blast
  from 2(1) [OF this(1,2)] show ?case using s1 by simp
qed auto

section \<open>Enumeration lemmas\<close>

text \<open>The records of a snapshot, from an offset on, follow each other up to the last.\<close>

fun snapshot :: "(nat \<Rightarrow> process_info) \<Rightarrow> nat \<Rightarrow> process_info list \<Rightarrow> bool" where
  "snapshot buf off [] = False"
| "snapshot buf off [p] = (buf off = p \<and> pi_NextEntryOffset p = 0)"
| "snapshot buf off (p # q # ps) =
     (buf off = p \<and> pi_NextEntryOffset p \<noteq> 0 \<and> snapshot buf (off + pi_NextEntryOffset p) (q # ps))"

text \<open>The processes other than idle and system are handed to the callback until it fails.\<close>

fun visit :: "(process_info \<Rightarrow> 's \<Rightarrow> (ntstatus \<times> 's) option) \<Rightarrow> process_info list \<Rightarrow> ntstatus \<Rightarrow> 's \<Rightarrow> (ntstatus \<times> 's) option"
where
  "visit callback [] Status ctx = Some (Status, ctx)"
| "visit callback (p # ps) Status ctx =
     (if pi_UniqueProcessId p \<noteq> 0 \<and> pi_UniqueProcessId p \<noteq> 4
      then Option.bind (callback p ctx)
             (\<lambda>r. if NT_SUCCESS (fst r) then visit callback ps (fst r) (snd r) else Some r)
      else visit callback ps Status ctx)"

lemma enum_loop_visit:
  "snapshot buf off ps \<Longrightarrow> NT_SUCCESS st \<Longrightarrow>
     enum_loop callback buf off st ctx = visit callback (if length ps = 1 then ps else butlast ps) st ctx"
proof (induction buf off ps arbitrary: st ctx rule: snapshot.induct)
  case (2 buf off p)
  then show ?case by (subst enum_loop.simps) (auto split: bind_split)
next
  case (3 buf off p q ps)
  show ?case
  proof (cases ps)
    case Nil
    then show ?thesis using 3(2,3) by (subst enum_loop.simps) (auto split: bind_split)
  next
    case (Cons r rs)
    have IH: "enum_loop callback buf (off + pi_NextEntryOffset p) st ctx =
        visit callback (butlast (q # ps)) st ctx" if "NT_SUCCESS st" for st ctx
      using 3(1) [of st ctx] 3(2) that Cons by simp
    then show ?thesis
      using 3(2,3) Cons by (subst enum_loop.simps) (auto split: bind_split)
  qed
qed simp

lemma exempted_callback:
  "4 \<le> n \<Longrightarrow> PmGetExemptedProcessListCallback n e (list, Some k) =
     (if FlagOn (pe_TrustLevel e) TRUST_LEVEL_EXEMPTED
      then (STATUS_SUCCESS, list[0 := ucast (pe_ProcessId e)], Some 4)
      else (STATUS_SUCCESS, list, Some 0))"
  by (simp add: PmGetExemptedProcessListCallback_def)

lemma exempted_list:
  "enum_table (PmGetExemptedProcessListCallback n) es st (list, Some k) = (st', list', bytes) \<Longrightarrow>
     4 \<le> n \<Longrightarrow>
     (let X = filter (\<lambda>e. FlagOn (pe_TrustLevel e) TRUST_LEVEL_EXEMPTED) es in
       list' = (if X = [] then list else list[0 := ucast (pe_ProcessId (last X))]) \<and>
       bytes = Some (if es = [] then k
                     else if FlagOn (pe_TrustLevel (last es)) TRUST_LEVEL_EXEMPTED then 4 else 0))"
proof (induction es arbitrary: st list k)
  case (Cons e es)
  show ?case
  proof (cases "FlagOn (pe_TrustLevel e) TRUST_LEVEL_EXEMPTED")
    case True
    then show ?thesis
      using Cons.IH [of STATUS_SUCCESS "list[0 := ucast (pe_ProcessId e)]" 4] Cons.prems
      by (simp add: exempted_callback Let_def)
  next
    case False
    then show ?thesis
      using Cons.IH [of STATUS_SUCCESS list 0] Cons.prems by (simp add: exempted_callback Let_def)
  qed
qed simp

section \<open>Properties\<close>

definition mon_example :: pm_state where
  "mon_example = \<lparr>gProcessTree = Some [], pm_lock = False, pm_objs = objs_example, pm_blocks = {},
     pm_notify = True, pm_lookaside = True\<rparr>"

definition env_example :: creation_env where
  "env_example = \<lparr>ce_name = (0, Some (100, [92, 97])), ce_entry = Some 200, ce_time = 5,
     ce_sid = (0, [83]), ce_node = True\<rparr>"

lemma mon_example_inv: "monitor_inv mon_example (\<lambda>_. [])"
  by (simp add: monitor_inv_def mon_example_def table_wf_def)

lemma mon_example_lookup: "PmLookupProcessEntryById mon_example pid = None"
  by (simp add: lookup_entry mon_example_def entry_of_def)

lemma mon_example_tracked: "tracked mon_example = {}"
  by (simp add: tracked_def mon_example_def)

text \<open>
  C14: over every sequence of create and delete notifications the monitor neither faults nor
  loops, keeps its table ordered with well-formed, disjoint exclusion lists, and tracks
  exactly the processes whose last notification was a creation for which the kernel's
  answers sufficed.
\<close>

theorem process_table_tracks_notifications:
  assumes "monitor_inv s B"
  shows "\<exists>s' B'. notify_run ns s = Some s' \<and> monitor_inv s' B' \<and> tracked s' = track ns (tracked s)"
  using assms by (rule notify_run_tracks)

theorem process_table_tracks_notifications_witness:
  "\<exists>s'. notify_run [(env_example, 4, 8, True), (env_example, 8, 12, True), (env_example, 0, 8, False)]
     mon_example = Some s' \<and> tracked s' = {12}"
  using process_table_tracks_notifications [OF mon_example_inv,
    of "[(env_example, 4, 8, True), (env_example, 8, 12, True), (env_example, 0, 8, False)]"]
  by (auto simp: mon_example_tracked creation_ok_def env_example_def)

text \<open>
  A process deletion takes out exactly that process, whatever its exclusion list, and
  frees every block of the list.
\<close>

theorem process_deletion_correct:
  assumes "monitor_inv s B"
  shows "\<exists>s'. DsProcessDeletionCallback s pid = Some s' \<and> monitor_inv s' B \<and>
    PmLookupProcessEntryById s' = (PmLookupProcessEntryById s)(pid := None) \<and>
    (pid \<in> tracked s \<longrightarrow> (\<forall>c \<in> set (B pid). po_entries (pm_objs s') (snd c) = None))"
  using assms by (rule deletion_callback)

theorem process_deletion_correct_witness:
  "\<exists>s'. DsProcessDeletionCallback mon_example 8 = Some s' \<and> tracked s' = {}"
  using process_deletion_correct [OF mon_example_inv, of 8]
  by (auto simp: tracked_eq mon_example_lookup)

lemma client_trust:
  assumes "monitor_inv s B"
  shows "\<exists>s'. PmGetClientTrustLevel s pid th = Some
    (if pid \<in> tracked s \<and> th \<in> set (excluded (pm_objs s) (B pid))
     then TRUST_LEVEL_MASSIVE else TRUST_LEVEL_NONE, s')"
proof (cases "PmLookupProcessEntryById s pid")
  case None
  then show ?thesis by (simp add: PmGetClientTrustLevel_def tracked_lookup)
next
  case (Some e)
  from monitor_inv_tree [OF assms] obtain es where t: "gProcessTree s = Some es" ..
  with Some have e: "e \<in> set es" "pe_ProcessId e = pid"
    using entry_of_SomeD [of es pid e] by (simp_all add: lookup_entry)
  show ?thesis
    using is_thread_excluded [OF monitor_invD(2) [OF assms t e(1)], of th] Some e(2)
    by (simp add: PmGetClientTrustLevel_def tracked_lookup)
qed

text \<open>
  A client is trusted exactly when its process is tracked and its thread is on that
  process's exclusion list; otherwise its level is none.
\<close>

theorem client_trust_level:
  assumes "monitor_inv s B"
  shows "\<exists>s'. PmGetClientTrustLevel s pid th = Some
    (if pid \<in> tracked s \<and> th \<in> set (excluded (pm_objs s) (B pid))
     then TRUST_LEVEL_MASSIVE else TRUST_LEVEL_NONE, s')"
  by (rule client_trust [OF assms])

theorem client_trust_level_witness:
  "\<exists>s'. PmGetClientTrustLevel mon_example 8 3 = Some (TRUST_LEVEL_NONE, s')"
  using client_trust_level [OF mon_example_inv, of 8 3] by (simp add: mon_example_tracked)

text \<open>
  Stopping the monitor terminates, unregisters the callback, empties the table and
  frees every exclusion block of every process.
\<close>

theorem finalize_frees_everything:
  assumes "monitor_inv s B"
  shows "\<exists>s'. PmFinalizeProcessMonitor s = Some s' \<and> gProcessTree s' = None \<and> \<not> pm_notify s' \<and>
    (\<forall>pid \<in> tracked s. \<forall>c \<in> set (B pid). po_entries (pm_objs s') (snd c) = None)"
proof -
  have "monitor_inv (s\<lparr>pm_notify := False\<rparr>) B" using assms by (simp add: monitor_inv_def)
  from clear_table [OF this] show ?thesis
    by (auto simp: PmFinalizeProcessMonitor_def PmDeleteProcessTable_def free_blocks_def tracked_def)
qed

theorem finalize_frees_everything_witness:
  "\<exists>s'. PmFinalizeProcessMonitor mon_example = Some s' \<and> gProcessTree s' = None"
  using finalize_frees_everything [OF mon_example_inv] by blast

text \<open>
  \<open>PmEnumerareProcesses\<close> hands the callback every process of the snapshot except the
  last one (when there are at least two), because it tests the distance after advancing.
\<close>

theorem enumeration_skips_last:
  assumes "alloc 0x4000" "query 0x4000 = (STATUS_SUCCESS, n, buf)" "snapshot buf 0 ps"
  shows "PmEnumerareProcesses alloc query callback ctx =
    visit callback (if length ps = 1 then ps else butlast ps) STATUS_SUCCESS ctx"
  using enum_loop_visit [OF assms(3), of STATUS_SUCCESS callback ctx] assms(1,2)
  by (simp add: PmEnumerareProcesses_def query_loop.simps)

definition snapshot_example :: "nat \<Rightarrow> process_info" where
  "snapshot_example off = (if off = 0 then \<lparr>pi_NextEntryOffset = 256, pi_UniqueProcessId = 8,
       pi_InheritedFromUniqueProcessId = 4\<rparr>
     else \<lparr>pi_NextEntryOffset = 0, pi_UniqueProcessId = 12, pi_InheritedFromUniqueProcessId = 8\<rparr>)"

theorem enumeration_skips_last_witness:
  "PmEnumerareProcesses (\<lambda>_. True) (\<lambda>_. (0, 512, snapshot_example))
     (\<lambda>p ids. Some (0, pi_UniqueProcessId p # ids)) [] = Some (0, [8])"
  using enumeration_skips_last [of "\<lambda>_. True" "\<lambda>_. (0, 512, snapshot_example)" 512 snapshot_example
      "[snapshot_example 0, snapshot_example 256]" "\<lambda>p ids. Some (0, pi_UniqueProcessId p # ids)" "[]"]
  by (simp add: snapshot_example_def)

text \<open>
  The list of exempted processes never holds more than one process: each exempted
  process overwrites the first slot, and the byte count is that of the table's last
  entry alone, so it can be 0 although a process was written, and 4 although many are exempt.
\<close>

theorem exempted_list_keeps_one:
  assumes "PmGetExemptedProcessList es n (list, Some k) = (st, list', bytes)" "4 \<le> n"
  shows "(let X = filter (\<lambda>e. FlagOn (pe_TrustLevel e) TRUST_LEVEL_EXEMPTED) es in
       list' = (if X = [] then list else list[0 := ucast (pe_ProcessId (last X))]) \<and>
       bytes = Some (if es = [] then k
                     else if FlagOn (pe_TrustLevel (last es)) TRUST_LEVEL_EXEMPTED then 4 else 0))"
  using assms exempted_list by (simp add: PmGetExemptedProcessList_def PmEnumerateEntryProcessTable_def)

definition exempt_example :: "process_entry list" where
  "exempt_example = [zero_entry\<lparr>pe_ProcessId := 8, pe_TrustLevel := 2\<rparr>,
     zero_entry\<lparr>pe_ProcessId := 12, pe_TrustLevel := 2\<rparr>, zero_entry\<lparr>pe_ProcessId := 16\<rparr>]"

theorem exempted_list_keeps_one_witness:
  "\<exists>st. PmGetExemptedProcessList exempt_example 8 ([0, 0], Some 7) = (st, [12, 0], Some 0)"
proof -
  obtain st l b where e: "PmGetExemptedProcessList exempt_example 8 ([0, 0], Some 7) = (st, l, b)"
    by (metis prod_cases3)
  from exempted_list_keeps_one [OF this] have "l = [12, 0] \<and> b = Some 0"
    by (simp add: exempt_example_def FlagOn_def TRUST_LEVEL_EXEMPTED_def zero_entry_def Let_def)
  with e show ?thesis by blast
qed

text \<open>
  A creation callback gives back every pool block it takes, except that it returns
  without freeing the image name when there is no memory for the entry.
\<close>

theorem creation_leaks_image_name:
  assumes "DsProcessCreationCallback env s parent pid = Some s'" "ce_name env = (st, name)"
    "fst ` set_option name \<inter> pm_blocks s = {}" "set_option (ce_entry env) \<inter> pm_blocks s = {}"
  shows "pm_blocks s' = pm_blocks s \<union>
    (if NT_SUCCESS st \<and> ce_entry env = None then fst ` set_option name else {})"
proof -
  have keep: "pm_blocks s3 = pm_blocks s2" if "PmCreateProcessEntry node s2 e = Some (st, s3, e')"
    for node s2 e st s3 e'
    using that by (auto simp: PmCreateProcessEntry_def Let_def split: option.splits if_splits)
  show ?thesis
    using assms
    by (auto simp: DsProcessCreationCallback_def Let_def dest!: keep split: option.splits if_splits)
qed

theorem creation_leaks_image_name_witness:
  "\<exists>s'. DsProcessCreationCallback (env_example\<lparr>ce_entry := None\<rparr>) mon_example 4 8 = Some s' \<and>
     pm_blocks s' = {100}"
proof -
  have "\<exists>s'. DsProcessCreationCallback (env_example\<lparr>ce_entry := None\<rparr>) mon_example 4 8 = Some s'"
    by (simp add: DsProcessCreationCallback_def env_example_def)
  then obtain s' where c: "DsProcessCreationCallback (env_example\<lparr>ce_entry := None\<rparr>) mon_example 4 8 = Some s'" ..
  from creation_leaks_image_name [OF c] have "pm_blocks s' = {100}"
    by (simp add: env_example_def mon_example_def)
  with c show ?thesis by blast
qed

end
