(* ===== verification/Byte_Fifo.thy ===== *)
theory Byte_Fifo
  imports Prelude
begin

text \<open>
  The interface between the ring buffer and the mailbox: a bounded queue of bytes with a
  put that appends when it leaves a byte free and loses everything when it does not,
  and a get that takes a prefix.  The lemmas of the locale lift it to a queue of records
  of one fixed size, which is how the mailbox uses it.
\<close>

locale byte_fifo =
  fixes inv :: "'q \<Rightarrow> bool"
    and content :: "'q \<Rightarrow> u8 list"
    and avail :: "'q \<Rightarrow> nat"
    and cap :: "'q \<Rightarrow> nat"
    and put :: "'q \<Rightarrow> u8 list \<Rightarrow> ntstatus \<times> 'q"
    and get :: "'q \<Rightarrow> nat \<Rightarrow> ntstatus \<times> 'q \<times> u8 list"
  assumes avail_cap: "inv q \<Longrightarrow> avail q + length (content q) = cap q"
    and put_ok: "inv q \<Longrightarrow> fst (put q d) = STATUS_SUCCESS \<and> inv (snd (put q d))
      \<and> cap (snd (put q d)) = cap q"
    and put_fits: "inv q \<Longrightarrow> length d < avail q \<Longrightarrow>
      content (snd (put q d)) = content q @ d"
    and put_full: "inv q \<Longrightarrow> avail q \<le> length d \<Longrightarrow> content (snd (put q d)) = []"
    and get_ok: "inv q \<Longrightarrow> get q n = (st, q', bs) \<Longrightarrow>
      st = STATUS_SUCCESS \<and> inv q' \<and> bs = take n (content q) \<and>
      content q' = drop n (content q) \<and> cap q' = cap q"
begin

text \<open>The queue holds exactly the records \<open>rs\<close>, each of \<open>l\<close> bytes.\<close>

definition holds :: "nat \<Rightarrow> 'q \<Rightarrow> u8 list list \<Rightarrow> bool" where
  "holds l q rs \<longleftrightarrow> inv q \<and> (\<forall>r \<in> set rs. length r = l) \<and> content q = concat rs"

lemma length_concat_same: "\<forall>r \<in> set rs. length r = l \<Longrightarrow> length (concat rs) = length rs * l"
  by (induction rs) auto

lemma holds_length: "holds l q rs \<Longrightarrow> length (content q) = length rs * l"
  by (simp add: holds_def length_concat_same)

lemma holds_avail: "holds l q rs \<Longrightarrow> avail q + length rs * l = cap q"
  using avail_cap [of q] holds_length [of l q rs] by (simp add: holds_def)

lemma holds_post:
  assumes "holds l q rs" "length r = l" "(length rs + 1) * l < cap q"
  shows "holds l (snd (put q r)) (rs @ [r])"
proof -
  have "length r < avail q" using holds_avail [OF assms(1)] assms(2,3) by (simp add: algebra_simps)
  then show ?thesis
    using assms(1,2) put_ok [of q r] put_fits [of q r] by (auto simp: holds_def)
qed

lemma holds_post_full:
  assumes "holds l q rs" "length r = l" "cap q \<le> (length rs + 1) * l"
  shows "holds l (snd (put q r)) []"
proof -
  have "avail q \<le> length r" using holds_avail [OF assms(1)] assms(2,3) by (simp add: algebra_simps)
  then show ?thesis
    using assms(1) put_ok [of q r] put_full [of q r] by (auto simp: holds_def)
qed

lemma holds_get:
  assumes "holds l q (r # rs)" "get q l = (st, q', bs)"
  shows "st = STATUS_SUCCESS" "bs = r" "holds l q' rs" "cap q' = cap q"
  using get_ok [of q l st q' bs] assms by (auto simp: holds_def)

end

end
