(* ===== verification/Ring_Buffer.thy ===== *)
theory Ring_Buffer
  imports Byte_Fifo
begin

text \<open>
  The byte ring buffer of \<open>src/ringbuf.c\<close>.  The state is \<open>RING_BUFFER\<close> together with
  the memory its pointers point into; pointers are addresses.  The spin lock field records
  whether the lock is held: each routine is one critical section.  \<open>ring_contents\<close>
  abstracts a buffer to the list of bytes a reader would get, and every operation is
  proved to implement a list operation on it.
\<close>

record ring_buffer =
  rb_Size :: nat
  rb_Lock :: bool
  rb_Base :: nat
  rb_End :: nat
  rb_Head :: nat
  rb_Tail :: nat
  rb_mem :: memory

definition RB_AVAILABLE_BYTES :: "nat \<Rightarrow> nat \<Rightarrow> nat \<Rightarrow> nat" where
  [ds_defs]: "RB_AVAILABLE_BYTES h t b = (if h \<le> t then b - (t - h) else h - t)"

definition RtlRingBufferInitialize :: "ring_buffer \<Rightarrow> nat \<Rightarrow> nat \<Rightarrow> ring_buffer" where
  "RtlRingBufferInitialize RingBuffer Buffer BufferSize =
     RingBuffer\<lparr>rb_Size := BufferSize, rb_Base := Buffer, rb_End := Buffer + BufferSize,
       rb_Head := Buffer, rb_Tail := Buffer, rb_Lock := False\<rparr>"

text \<open>Returns \<open>WriteSize\<close> and \<open>ReadSize\<close>.\<close>

definition RtlRingBufferGetAvailBytes :: "ring_buffer \<Rightarrow> nat \<times> nat" where
  [ds_defs]: "RtlRingBufferGetAvailBytes RingBuffer =
     (let WriteSize = RB_AVAILABLE_BYTES (rb_Head RingBuffer) (rb_Tail RingBuffer)
                        (rb_Size RingBuffer)
      in (WriteSize, rb_Size RingBuffer - WriteSize))"

definition RtlRingBufferWrite :: "ring_buffer \<Rightarrow> u8 list \<Rightarrow> ntstatus \<times> ring_buffer" where
  "RtlRingBufferWrite RingBuffer Data =
     (if rb_End RingBuffer \<le> rb_Tail RingBuffer then (STATUS_INTERNAL_ERROR, RingBuffer)
      else
        let DataSize = length Data;
            rb = RingBuffer\<lparr>rb_Lock := True\<rparr>;
            AvailToWrite = fst (RtlRingBufferGetAvailBytes rb);
            BytesToCopy = (if AvailToWrite \<le> DataSize then AvailToWrite else DataSize);
            rb' =
              (if BytesToCopy = 0 then rb
               else if rb_End rb < rb_Tail rb + BytesToCopy then
                 let SpaceToEnd = rb_End rb - rb_Tail rb;
                     m1 = copy_to (rb_mem rb) (rb_Tail rb) (take SpaceToEnd Data);
                     Rest = BytesToCopy - SpaceToEnd;
                     m2 = copy_to m1 (rb_Base rb) (take Rest (drop SpaceToEnd Data))
                 in rb\<lparr>rb_mem := m2, rb_Tail := rb_Base rb + Rest\<rparr>
               else
                 let m1 = copy_to (rb_mem rb) (rb_Tail rb) (take BytesToCopy Data);
                     t = rb_Tail rb + BytesToCopy
                 in rb\<lparr>rb_mem := m1, rb_Tail := (if t = rb_End rb then rb_Base rb else t)\<rparr>)
        in (STATUS_SUCCESS, rb'\<lparr>rb_Lock := False\<rparr>))"

text \<open>
  Returns the status, the new buffer and the bytes copied to the caller's \<open>Data\<close>; their
  number is \<open>*BytesCopied\<close>.
\<close>

definition RtlRingBufferRead :: "ring_buffer \<Rightarrow> nat \<Rightarrow> ntstatus \<times> ring_buffer \<times> u8 list" where
  "RtlRingBufferRead RingBuffer DataSize =
     (if rb_End RingBuffer \<le> rb_Head RingBuffer then (STATUS_INTERNAL_ERROR, RingBuffer, [])
      else
        let rb = RingBuffer\<lparr>rb_Lock := True\<rparr>;
            AvailToRead = snd (RtlRingBufferGetAvailBytes rb)
        in if AvailToRead = 0 then (STATUS_SUCCESS, rb\<lparr>rb_Lock := False\<rparr>, [])
           else
             let Size = (if AvailToRead < DataSize then AvailToRead else DataSize)
             in if rb_End rb < rb_Head rb + Size then
                  let DataToEnd = rb_End rb - rb_Head rb;
                      Rest = Size - DataToEnd
                  in (STATUS_SUCCESS,
                      rb\<lparr>rb_Head := rb_Base rb + Rest, rb_Lock := False\<rparr>,
                      copy_from (rb_mem rb) (rb_Head rb) DataToEnd
                        @ copy_from (rb_mem rb) (rb_Base rb) Rest)
                else
                  let h = rb_Head rb + Size
                  in (STATUS_SUCCESS,
                      rb\<lparr>rb_Head := (if h = rb_End rb then rb_Base rb else h), rb_Lock := False\<rparr>,
                      copy_from (rb_mem rb) (rb_Head rb) Size))"

section \<open>Slices of a ring\<close>

text \<open>The \<open>n\<close> bytes from offset \<open>p\<close> of the ring of \<open>N\<close> bytes at address \<open>B\<close>.\<close>

definition ring_slice :: "memory \<Rightarrow> nat \<Rightarrow> nat \<Rightarrow> nat \<Rightarrow> nat \<Rightarrow> u8 list" where
  "ring_slice m B N p n = map (\<lambda>i. m (B + wrap N (p + i))) [0..<n]"

lemma length_ring_slice [simp]: "length (ring_slice m B N p n) = n"
  by (simp add: ring_slice_def)

lemma nth_ring_slice [simp]: "i < n \<Longrightarrow> ring_slice m B N p n ! i = m (B + wrap N (p + i))"
  by (simp add: ring_slice_def)

lemma ring_slice_take: "k \<le> n \<Longrightarrow> take k (ring_slice m B N p n) = ring_slice m B N p k"
  by (simp add: ring_slice_def take_map)

lemma ring_slice_drop:
  assumes "p < N" "k \<le> n" "n \<le> N"
  shows "drop k (ring_slice m B N p n) = ring_slice m B N (wrap N (p + k)) (n - k)"
proof (rule nth_equalityI)
  fix i assume "i < length (drop k (ring_slice m B N p n))"
  then have i: "k + i < n" "i < n - k" by simp_all
  have "wrap N (p + (k + i)) = wrap N (wrap N (p + k) + i)"
    using assms i(1) unfolding wrap_def by (simp add: add.assoc)
  with i show "drop k (ring_slice m B N p n) ! i =
      ring_slice m B N (wrap N (p + k)) (n - k) ! i"
    by simp
qed simp

lemma ring_slice_append:
  assumes "p < N" "n + k \<le> N"
  shows "ring_slice m B N p (n + k) =
           ring_slice m B N p n @ ring_slice m B N (wrap N (p + n)) k"
  using ring_slice_take [of n "n + k" m B N p] ring_slice_drop [OF assms(1) _ assms(2), of n m B]
    append_take_drop_id [of n "ring_slice m B N p (n + k)"] by simp

lemma copy_from_slice: "p + n \<le> N \<Longrightarrow> copy_from m (B + p) n = ring_slice m B N p n"
  by (rule nth_equalityI) (simp_all add: wrap_def add.assoc)

lemma copy_from_slice_wrap:
  assumes "p < N" "N \<le> p + n" "n \<le> N"
  shows "copy_from m (B + p) (N - p) @ copy_from m B (n - (N - p)) = ring_slice m B N p n"
proof -
  have "copy_from m B (n - (N - p)) = ring_slice m B N 0 (n - (N - p))"
    using copy_from_slice [of 0 "n - (N - p)" N m B] assms by simp
  moreover have "copy_from m (B + p) (N - p) = ring_slice m B N p (N - p)"
    using assms by (intro copy_from_slice) simp
  moreover have "ring_slice m B N p ((N - p) + (n - (N - p))) =
      ring_slice m B N p (N - p) @ ring_slice m B N (wrap N (p + (N - p))) (n - (N - p))"
    using assms by (intro ring_slice_append) auto
  ultimately show ?thesis using assms by (simp add: wrap_def)
qed

text \<open>Storing \<open>D\<close> at offset \<open>t\<close>: that slice then reads \<open>D\<close>, slices away from it are kept.\<close>

definition ring_store :: "memory \<Rightarrow> nat \<Rightarrow> nat \<Rightarrow> nat \<Rightarrow> u8 list \<Rightarrow> memory" where
  "ring_store m B N t D =
     copy_to (copy_to m (B + t) (take (N - t) D)) B (drop (N - t) D)"

lemma ring_store_new:
  assumes "t < N" "length D \<le> N"
  shows "ring_slice (ring_store m B N t D) B N t (length D) = D"
proof (rule nth_equalityI)
  fix i assume "i < length (ring_slice (ring_store m B N t D) B N t (length D))"
  then have i: "i < length D" by simp
  show "ring_slice (ring_store m B N t D) B N t (length D) ! i = D ! i"
  proof (cases "t + i < N")
    case True
    then have "\<not> t + i < length D - (N - t)" using assms by linarith
    with True i show ?thesis by (auto simp: ring_store_def copy_to_def wrap_def)
  next
    case False
    then have "t + i - N < length D - (N - t)" "N - t + (t + i - N) = i" using assms i by linarith+
    with False i show ?thesis by (auto simp: ring_store_def copy_to_def wrap_def)
  qed
qed simp

lemma ring_store_old:
  assumes "h < N" "t = wrap N (h + n)" "n + length D \<le> N"
  shows "ring_slice (ring_store m B N t D) B N h n = ring_slice m B N h n"
proof (rule nth_equalityI)
  fix i assume "i < length (ring_slice (ring_store m B N t D) B N h n)"
  then have i: "i < n" by simp
  let ?w = "wrap N (h + i)"
  have "\<not> (t \<le> ?w \<and> ?w < t + min (length D) (N - t))" "\<not> ?w < length D - (N - t)"
    using assms i unfolding wrap_def by (auto split: if_splits)
  then have "ring_store m B N t D (B + ?w) = m (B + ?w)"
    by (auto simp: ring_store_def copy_to_def)
  with i show "ring_slice (ring_store m B N t D) B N h n ! i = ring_slice m B N h n ! i"
    by simp
qed simp

section \<open>Well-formed buffers and their contents\<close>

definition ring_wf :: "ring_buffer \<Rightarrow> bool" where
  "ring_wf rb \<longleftrightarrow> rb_End rb = rb_Base rb + rb_Size rb \<and>
     rb_Base rb \<le> rb_Head rb \<and> rb_Head rb < rb_End rb \<and>
     rb_Base rb \<le> rb_Tail rb \<and> rb_Tail rb < rb_End rb \<and> \<not> rb_Lock rb"

definition ring_used :: "ring_buffer \<Rightarrow> nat" where
  "ring_used rb = snd (RtlRingBufferGetAvailBytes rb)"

definition ring_free :: "ring_buffer \<Rightarrow> nat" where
  "ring_free rb = fst (RtlRingBufferGetAvailBytes rb)"

definition ring_contents :: "ring_buffer \<Rightarrow> u8 list" where
  "ring_contents rb =
     ring_slice (rb_mem rb) (rb_Base rb) (rb_Size rb) (rb_Head rb - rb_Base rb) (ring_used rb)"

lemma length_ring_contents [simp]: "length (ring_contents rb) = ring_used rb"
  by (simp add: ring_contents_def)

lemma ring_free_off:
  assumes "rb_Head rb = rb_Base rb + h" "rb_Tail rb = rb_Base rb + t"
  shows "ring_free rb = (if h \<le> t then rb_Size rb - (t - h) else h - t)"
  using assms by (simp add: ring_free_def ds_defs Let_def)

lemma ring_used_off:
  assumes "rb_Head rb = rb_Base rb + h" "rb_Tail rb = rb_Base rb + t"
    "h < rb_Size rb" "t < rb_Size rb"
  shows "ring_used rb = (if h \<le> t then t - h else rb_Size rb - (h - t))"
proof -
  have "ring_used rb = rb_Size rb - ring_free rb"
    by (simp add: ring_used_def ring_free_def RtlRingBufferGetAvailBytes_def Let_def)
  then show ?thesis using assms(3,4) unfolding ring_free_off [OF assms(1,2)] by auto
qed

text \<open>Offsets instead of pointers: the shape every proof below works with.\<close>

lemma ring_wfE:
  assumes "ring_wf rb"
  obtains h t where "rb_Head rb = rb_Base rb + h" "rb_Tail rb = rb_Base rb + t"
    "rb_End rb = rb_Base rb + rb_Size rb" "h < rb_Size rb" "t < rb_Size rb" "\<not> rb_Lock rb"
    "ring_used rb = (if h \<le> t then t - h else rb_Size rb - (h - t))"
    "ring_free rb = rb_Size rb - ring_used rb" "ring_used rb < rb_Size rb"
proof -
  from assms have E: "rb_End rb = rb_Base rb + rb_Size rb" and l: "\<not> rb_Lock rb"
    by (simp_all add: ring_wf_def)
  from assms obtain h t where H: "rb_Head rb = rb_Base rb + h" and T: "rb_Tail rb = rb_Base rb + t"
    by (auto simp: ring_wf_def le_iff_add)
  from assms H T E have h: "h < rb_Size rb" and t: "t < rb_Size rb" by (simp_all add: ring_wf_def)
  note u' = ring_used_off [OF H T h t]
  have f': "ring_free rb = rb_Size rb - ring_used rb"
    unfolding u' ring_free_off [OF H T] using h t by auto
  have less: "ring_used rb < rb_Size rb" unfolding u' using h t by auto
  from that [OF H T E h t l u' f' less] show thesis .
qed

lemma ring_used_less: "ring_wf rb \<Longrightarrow> ring_used rb < rb_Size rb"
  by (elim ring_wfE)

lemma ring_free_used: "ring_wf rb \<Longrightarrow> ring_free rb + ring_used rb = rb_Size rb"
proof -
  assume wf: "ring_wf rb"
  from wf have "ring_free rb = rb_Size rb - ring_used rb" by (elim ring_wfE)
  moreover from wf have "ring_used rb < rb_Size rb" by (elim ring_wfE)
  ultimately show ?thesis by simp
qed

lemma ring_free_pos: "ring_wf rb \<Longrightarrow> 0 < ring_free rb"
  using ring_free_used [of rb] ring_used_less [of rb] by simp

lemma ring_initialize:
  "0 < n \<Longrightarrow> ring_wf (RtlRingBufferInitialize rb a n) \<and>
     ring_contents (RtlRingBufferInitialize rb a n) = [] \<and>
     ring_free (RtlRingBufferInitialize rb a n) = n"
  by (simp add: ring_wf_def RtlRingBufferInitialize_def ring_contents_def ring_used_def
      ring_free_def ring_slice_def ds_defs)

text \<open>The lock does not influence what is available.\<close>

lemma GetAvailBytes_lock [simp]:
  "RtlRingBufferGetAvailBytes (rb\<lparr>rb_Lock := l\<rparr>) = (ring_free rb, ring_used rb)"
  by (simp add: ring_free_def ring_used_def RtlRingBufferGetAvailBytes_def)

section \<open>Reading\<close>

lemma RtlRingBufferRead_alt:
  assumes "ring_wf rb"
  shows "RtlRingBufferRead rb n =
    (let k = min n (ring_used rb); h = rb_Head rb - rb_Base rb
     in (STATUS_SUCCESS, rb\<lparr>rb_Head := rb_Base rb + wrap (rb_Size rb) (h + k)\<rparr>,
         ring_slice (rb_mem rb) (rb_Base rb) (rb_Size rb) h k))"
  using assms
proof (rule ring_wfE)
  fix h t
  assume H: "rb_Head rb = rb_Base rb + h" and E: "rb_End rb = rb_Base rb + rb_Size rb"
    and h: "h < rb_Size rb" and lk: "\<not> rb_Lock rb" and u: "ring_used rb < rb_Size rb"
  define k where "k = min n (ring_used rb)"
  have unl: "rb\<lparr>rb_Lock := False\<rparr> = rb" "\<And>x. rb\<lparr>rb_Head := x, rb_Lock := False\<rparr> = rb\<lparr>rb_Head := x\<rparr>"
    using lk by (cases rb, simp)+
  have size: "(if ring_used rb < n then ring_used rb else n) = k" by (simp add: k_def min_def)
  have k: "k \<le> ring_used rb" "k < rb_Size rb" using u by (simp_all add: k_def)
  note eq = RtlRingBufferRead_def Let_def GetAvailBytes_lock snd_conv size k_def [symmetric]
  consider "ring_used rb = 0" | "ring_used rb \<noteq> 0" "rb_Size rb < h + k"
    | "ring_used rb \<noteq> 0" "h + k \<le> rb_Size rb" by linarith
  then show ?thesis
  proof cases
    case 1
    with k have "k = 0" by simp
    with 1 show ?thesis unfolding eq using h by (simp add: H E unl wrap_def ring_slice_def)
  next
    case 2
    have "copy_from (rb_mem rb) (rb_Base rb + h) (rb_Size rb - h)
        @ copy_from (rb_mem rb) (rb_Base rb) (k - (rb_Size rb - h))
        = ring_slice (rb_mem rb) (rb_Base rb) (rb_Size rb) h k"
      using 2 h k by (intro copy_from_slice_wrap) auto
    moreover have "wrap (rb_Size rb) (h + k) = k - (rb_Size rb - h)"
      using 2 h unfolding wrap_def by simp
    ultimately show ?thesis unfolding eq using h 2 by (simp add: H E unl)
  next
    case 3
    have "copy_from (rb_mem rb) (rb_Base rb + h) k
        = ring_slice (rb_mem rb) (rb_Base rb) (rb_Size rb) h k"
      using 3 by (intro copy_from_slice)
    moreover have "wrap (rb_Size rb) (h + k) = (if h + k = rb_Size rb then 0 else h + k)"
      using 3 unfolding wrap_def by simp
    ultimately show ?thesis unfolding eq using h 3 by (simp add: H E unl add.assoc)
  qed
qed

lemma ring_read:
  assumes wf: "ring_wf rb" and r: "RtlRingBufferRead rb n = (st, rb', bs)"
  shows "st = STATUS_SUCCESS" "ring_wf rb'" "bs = take n (ring_contents rb)"
    "ring_contents rb' = drop n (ring_contents rb)" "rb_Size rb' = rb_Size rb"
proof -
  from wf obtain h t where H: "rb_Head rb = rb_Base rb + h" "rb_Tail rb = rb_Base rb + t"
    and E: "rb_End rb = rb_Base rb + rb_Size rb" and h: "h < rb_Size rb" "t < rb_Size rb"
    and lk: "\<not> rb_Lock rb" and u: "ring_used rb < rb_Size rb"
    and ud: "ring_used rb = (if h \<le> t then t - h else rb_Size rb - (h - t))"
    by (rule ring_wfE)
  let ?N = "rb_Size rb" and ?k = "min n (ring_used rb)"
  have st: "st = STATUS_SUCCESS"
    and rb': "rb' = rb\<lparr>rb_Head := rb_Base rb + wrap ?N (h + ?k)\<rparr>"
    and bs: "bs = ring_slice (rb_mem rb) (rb_Base rb) ?N h ?k"
    using r [unfolded RtlRingBufferRead_alt [OF wf]] H by (simp_all add: Let_def)
  have w: "wrap ?N (h + ?k) < ?N" using h u unfolding wrap_def by auto
  show wf': "ring_wf rb'" using rb' w E H h lk by (simp add: ring_wf_def)
  have "\<And>k. k \<le> ring_used rb \<Longrightarrow>
      (if wrap ?N (h + k) \<le> t then t - wrap ?N (h + k) else ?N - (wrap ?N (h + k) - t))
        = ring_used rb - k"
    using h u unfolding ud wrap_def by (auto split: if_splits)
  then have off: "(if wrap ?N (h + ?k) \<le> t then t - wrap ?N (h + ?k)
      else ?N - (wrap ?N (h + ?k) - t)) = ring_used rb - ?k" by simp
  have "rb_Head rb' = rb_Base rb' + wrap ?N (h + ?k)" "rb_Tail rb' = rb_Base rb' + t"
    "wrap ?N (h + ?k) < rb_Size rb'" "t < rb_Size rb'" and N: "rb_Size rb' = ?N"
    using rb' H w h by simp_all
  from ring_used_off [OF this(1-4)] have used': "ring_used rb' = ring_used rb - ?k"
    unfolding N off .
  show "bs = take n (ring_contents rb)"
  proof (cases "n \<le> ring_used rb")
    case True
    with bs H show ?thesis by (simp add: ring_contents_def ring_slice_take min_absorb1)
  next
    case False
    with bs H show ?thesis by (simp add: ring_contents_def min_absorb2)
  qed
  have "drop ?k (ring_contents rb) = ring_contents rb'"
    unfolding ring_contents_def used' using rb' H h u by (simp add: ring_slice_drop)
  moreover have "drop n (ring_contents rb) = drop ?k (ring_contents rb)"
    by (cases "n \<le> ring_used rb") (simp_all add: min_def)
  ultimately show "ring_contents rb' = drop n (ring_contents rb)" by simp
qed (use r [unfolded RtlRingBufferRead_alt [OF wf]] in \<open>auto simp: Let_def\<close>)

section \<open>Writing\<close>

lemma RtlRingBufferWrite_alt:
  assumes "ring_wf rb"
  shows "RtlRingBufferWrite rb D =
    (let k = min (length D) (ring_free rb); t = rb_Tail rb - rb_Base rb
     in (STATUS_SUCCESS,
         rb\<lparr>rb_mem := ring_store (rb_mem rb) (rb_Base rb) (rb_Size rb) t (take k D),
            rb_Tail := rb_Base rb + wrap (rb_Size rb) (t + k)\<rparr>))"
  using assms
proof (rule ring_wfE)
  fix h t
  assume T: "rb_Tail rb = rb_Base rb + t" and E: "rb_End rb = rb_Base rb + rb_Size rb"
    and t: "t < rb_Size rb" and lk: "\<not> rb_Lock rb"
  define k where "k = min (length D) (ring_free rb)"
  have unl: "rb\<lparr>rb_Lock := False\<rparr> = rb"
    "\<And>m x. rb\<lparr>rb_Lock := False, rb_Tail := x, rb_mem := m\<rparr> = rb\<lparr>rb_Tail := x, rb_mem := m\<rparr>"
    using lk by (cases rb, simp)+
  have size: "(if ring_free rb \<le> length D then ring_free rb else length D) = k"
    by (simp add: k_def min_def)
  have k: "k \<le> length D" "k \<le> rb_Size rb"
    using ring_free_used [OF assms] by (simp_all add: k_def)
  have sz: "rb_Size rb \<noteq> 0" using t by simp
  note eq = RtlRingBufferWrite_def Let_def GetAvailBytes_lock fst_conv size k_def [symmetric]
  consider "k = 0" | "k \<noteq> 0" "rb_Size rb < t + k" | "k \<noteq> 0" "t + k \<le> rb_Size rb" by linarith
  then show ?thesis
  proof cases
    case 1
    then show ?thesis unfolding eq using t T E lk
      by (cases rb) (simp add: wrap_def ring_store_def)
  next
    case 2
    have "rb_Size rb - t \<le> k" using 2 by simp
    then have "take (rb_Size rb - t) (take k D) = take (rb_Size rb - t) D"
      "drop (rb_Size rb - t) (take k D) = take (k - (rb_Size rb - t)) (drop (rb_Size rb - t) D)"
      using 2 by (simp_all add: min_absorb1 drop_take)
    moreover have "wrap (rb_Size rb) (t + k) = k - (rb_Size rb - t)"
      using 2 t unfolding wrap_def by simp
    ultimately show ?thesis unfolding eq ring_store_def using t T E lk 2
      by (cases rb) simp
  next
    case 3
    have "take (rb_Size rb - t) (take k D) = take k D" "drop (rb_Size rb - t) (take k D) = []"
      using 3 by simp_all
    moreover have "wrap (rb_Size rb) (t + k) = (if t + k = rb_Size rb then 0 else t + k)"
      using 3 unfolding wrap_def by simp
    ultimately show ?thesis unfolding eq ring_store_def using t T E lk 3
      by (cases rb) (simp add: add.assoc)
  qed
qed

lemma ring_write_wf:
  assumes wf: "ring_wf rb" and w: "RtlRingBufferWrite rb D = (st, rb')"
  shows "st = STATUS_SUCCESS" "ring_wf rb'" "rb_Size rb' = rb_Size rb"
    "rb_Base rb' = rb_Base rb" "rb_Head rb' = rb_Head rb"
proof -
  show "ring_wf rb'"
    using wf
  proof (rule ring_wfE)
    fix h t
    assume t: "rb_Tail rb = rb_Base rb + t" "t < rb_Size rb"
    have "min (length D) (ring_free rb) \<le> rb_Size rb" using ring_free_used [OF wf] by simp
    then have "wrap (rb_Size rb) (t + min (length D) (ring_free rb)) < rb_Size rb"
      using t unfolding wrap_def by auto
    then show ?thesis using w [unfolded RtlRingBufferWrite_alt [OF wf]] wf t
      by (auto simp: Let_def ring_wf_def)
  qed
qed (use w [unfolded RtlRingBufferWrite_alt [OF wf]] in \<open>auto simp: Let_def\<close>)

lemma wrap_off:
  assumes "h < N" "t < (N::nat)" "u = (if h \<le> t then t - h else N - (h - t))"
  shows "t = wrap N (h + u)" "k \<le> N - u \<Longrightarrow>
    (if h \<le> wrap N (t + k) then wrap N (t + k) - h else N - (h - wrap N (t + k)))
      = (if u + k = N then 0 else u + k)"
  using assms unfolding wrap_def by auto

text \<open>
  A write that leaves at least one byte free appends; a write that needs all the free
  space or more fills the buffer to the last byte, and a full buffer has \<open>Head = Tail\<close>,
  which reads as empty.
\<close>

lemma ring_write_used:
  assumes wf: "ring_wf rb" and w: "RtlRingBufferWrite rb D = (st, rb')"
  shows "ring_used rb' = (if length D < ring_free rb then ring_used rb + length D else 0)"
  using wf
proof (rule ring_wfE)
  fix h t
  let ?N = "rb_Size rb" and ?k = "min (length D) (ring_free rb)"
  assume H: "rb_Head rb = rb_Base rb + h" and T: "rb_Tail rb = rb_Base rb + t"
    and h: "h < ?N" and t: "t < ?N"
    and u: "ring_used rb = (if h \<le> t then t - h else ?N - (h - t))"
    and f: "ring_free rb = ?N - ring_used rb" and less: "ring_used rb < ?N"
  have rb': "rb' = rb\<lparr>rb_mem := rb_mem rb', rb_Tail := rb_Base rb + wrap ?N (t + ?k)\<rparr>"
    using w [unfolded RtlRingBufferWrite_alt [OF wf]] T by (auto simp: Let_def)
  then have N: "rb_Size rb' = ?N" by (metis ring_write_wf(3) [OF wf w])
  have wl: "wrap ?N (t + ?k) < ?N" using t f unfolding wrap_def by auto
  have "rb_Head rb' = rb_Base rb' + h" "rb_Tail rb' = rb_Base rb' + wrap ?N (t + ?k)"
    "h < rb_Size rb'" "wrap ?N (t + ?k) < rb_Size rb'"
    using H h wl N ring_write_wf(4,5) [OF wf w] by (simp, subst rb', simp, simp_all)
  from ring_used_off [OF this] have "ring_used rb' = (if ring_used rb + ?k = ?N then 0 else ring_used rb + ?k)"
    unfolding N using wrap_off(2) [OF h t u, of ?k] f by simp
  then show ?thesis using f less by auto
qed

lemma ring_write_fits:
  assumes wf: "ring_wf rb" and w: "RtlRingBufferWrite rb D = (st, rb')"
    and fits: "length D < ring_free rb"
  shows "ring_contents rb' = ring_contents rb @ D" "ring_free rb' = ring_free rb - length D"
proof -
  let ?N = "rb_Size rb"
  from wf obtain h t where H: "rb_Head rb = rb_Base rb + h" and T: "rb_Tail rb = rb_Base rb + t"
    and h: "h < ?N" and t: "t < ?N"
    and u: "ring_used rb = (if h \<le> t then t - h else ?N - (h - t))"
    and f: "ring_free rb = ?N - ring_used rb" and less: "ring_used rb < ?N"
    by (rule ring_wfE)
  let ?m = "ring_store (rb_mem rb) (rb_Base rb) ?N t D"
  have m: "rb_mem rb' = ?m"
    using w [unfolded RtlRingBufferWrite_alt [OF wf]] T fits by (auto simp: Let_def min_def)
  note W = ring_write_wf [OF wf w]
  have used: "ring_used rb' = ring_used rb + length D"
    using ring_write_used [OF wf w] fits by simp
  have D: "ring_used rb + length D \<le> ?N" using fits f by simp
  note t' = wrap_off(1) [OF h t u]
  have "ring_contents rb' = ring_slice ?m (rb_Base rb) ?N h (ring_used rb + length D)"
    unfolding ring_contents_def m used W(3,4,5) H by simp
  also have "\<dots> = ring_slice ?m (rb_Base rb) ?N h (ring_used rb)
      @ ring_slice ?m (rb_Base rb) ?N t (length D)"
    using ring_slice_append [OF h D] t' by simp
  also have "\<dots> = ring_contents rb @ D"
    using ring_store_old [OF h t' D] ring_store_new [OF t] D H by (simp add: ring_contents_def)
  finally show "ring_contents rb' = ring_contents rb @ D" .
  show "ring_free rb' = ring_free rb - length D"
    using used f ring_free_used [OF W(2)] W(3) by simp
qed

lemma ring_write_full:
  assumes "ring_wf rb" "RtlRingBufferWrite rb D = (st, rb')" "ring_free rb \<le> length D"
  shows "ring_contents rb' = []"
  using ring_write_used [OF assms(1,2)] assms(3)
  by (simp add: ring_contents_def ring_slice_def)

section \<open>The ring buffer is a byte queue\<close>

interpretation rbq: byte_fifo ring_wf ring_contents ring_free rb_Size
  RtlRingBufferWrite RtlRingBufferRead
proof unfold_locales
  fix q d n st q' bs
  assume q: "ring_wf q"
  show "ring_free q + length (ring_contents q) = rb_Size q"
    using ring_free_used [OF q] by simp
  obtain s w where w: "RtlRingBufferWrite q d = (s, w)" by fastforce
  show "fst (RtlRingBufferWrite q d) = STATUS_SUCCESS \<and> ring_wf (snd (RtlRingBufferWrite q d))
      \<and> rb_Size (snd (RtlRingBufferWrite q d)) = rb_Size q"
    using ring_write_wf [OF q w] w by simp
  show "length d < ring_free q \<Longrightarrow>
      ring_contents (snd (RtlRingBufferWrite q d)) = ring_contents q @ d"
    using ring_write_fits [OF q w] w by simp
  show "ring_free q \<le> length d \<Longrightarrow> ring_contents (snd (RtlRingBufferWrite q d)) = []"
    using ring_write_full [OF q w] w by simp
  assume "RtlRingBufferRead q n = (st, q', bs)"
  from ring_read [OF q this]
  show "st = STATUS_SUCCESS \<and> ring_wf q' \<and> bs = take n (ring_contents q) \<and>
      ring_contents q' = drop n (ring_contents q) \<and> rb_Size q' = rb_Size q" by simp
qed

section \<open>Runs of the ring buffer\<close>

text \<open>
  The specification: a queue of bytes with room for \<open>cap\<close>, which a write that does not
  leave a byte free empties.
\<close>

datatype ring_op = Write "u8 list" | Read nat

fun spec_step :: "nat \<Rightarrow> u8 list \<Rightarrow> ring_op \<Rightarrow> u8 list \<times> u8 list" where
  "spec_step cap q (Write d) = ((if length q + length d < cap then q @ d else []), [])"
| "spec_step cap q (Read n) = (drop n q, take n q)"

fun spec_run :: "nat \<Rightarrow> u8 list \<Rightarrow> ring_op list \<Rightarrow> u8 list \<times> u8 list list" where
  "spec_run cap q [] = (q, [])"
| "spec_run cap q (x # xs) =
     (let (q1, o1) = spec_step cap q x; (q2, os) = spec_run cap q1 xs in (q2, o1 # os))"

fun ring_step :: "ring_buffer \<Rightarrow> ring_op \<Rightarrow> ring_buffer \<times> u8 list" where
  "ring_step rb (Write d) = (snd (RtlRingBufferWrite rb d), [])"
| "ring_step rb (Read n) = snd (RtlRingBufferRead rb n)"

fun ring_run :: "ring_buffer \<Rightarrow> ring_op list \<Rightarrow> ring_buffer \<times> u8 list list" where
  "ring_run rb [] = (rb, [])"
| "ring_run rb (x # xs) =
     (let (r1, o1) = ring_step rb x; (r2, os) = ring_run r1 xs in (r2, o1 # os))"

lemma ring_step_refines:
  assumes wf: "ring_wf rb" and s: "ring_step rb x = (rb', out)"
  shows "ring_wf rb'" "rb_Size rb' = rb_Size rb"
    "spec_step (rb_Size rb) (ring_contents rb) x = (ring_contents rb', out)"
proof -
  have "ring_wf rb' \<and> rb_Size rb' = rb_Size rb \<and>
    spec_step (rb_Size rb) (ring_contents rb) x = (ring_contents rb', out)"
  proof (cases x)
    case (Write d)
    with s have rb': "rb' = snd (RtlRingBufferWrite rb d)" "out = []" by simp_all
    have "length d < ring_free rb \<longleftrightarrow> ring_used rb + length d < rb_Size rb"
      using ring_free_used [OF wf] by auto
    then show ?thesis
      using rb' Write rbq.put_ok [OF wf, of d] rbq.put_fits [OF wf, of d] rbq.put_full [OF wf, of d]
      by auto
  next
    case (Read n)
    with s obtain st where "RtlRingBufferRead rb n = (st, rb', out)" by (metis prod.collapse ring_step.simps(2))
    from ring_read [OF wf this] Read show ?thesis by simp
  qed
  then show "ring_wf rb'" "rb_Size rb' = rb_Size rb"
    "spec_step (rb_Size rb) (ring_contents rb) x = (ring_contents rb', out)" by simp_all
qed

lemma ring_run_refines:
  "ring_wf rb \<Longrightarrow> ring_run rb xs = (rb', outs) \<Longrightarrow>
     ring_wf rb' \<and> spec_run (rb_Size rb) (ring_contents rb) xs = (ring_contents rb', outs)"
proof (induction xs arbitrary: rb outs)
  case Nil
  then show ?case by simp
next
  case (Cons x xs)
  obtain r1 o1 where s: "ring_step rb x = (r1, o1)" by fastforce
  with Cons.prems obtain os where "ring_run r1 xs = (rb', os)" "outs = o1 # os"
    by (auto simp: Let_def split: prod.splits)
  with Cons.IH [of r1 os] ring_step_refines [OF Cons.prems(1) s] show ?case by simp
qed

section \<open>Properties\<close>

definition ring_example :: ring_buffer where
  "ring_example = RtlRingBufferInitialize
     \<lparr>rb_Size = 0, rb_Lock = True, rb_Base = 0, rb_End = 0, rb_Head = 0, rb_Tail = 0,
      rb_mem = (\<lambda>_. 0)\<rparr> 4096 4"

lemma ring_example_wf: "ring_wf ring_example" "rb_Size ring_example = 4"
    "ring_contents ring_example = []"
proof -
  show "ring_wf ring_example" "ring_contents ring_example = []"
    unfolding ring_example_def by (simp_all only: ring_initialize zero_less_numeral)
  show "rb_Size ring_example = 4"
    by (simp add: ring_example_def RtlRingBufferInitialize_def)
qed

text \<open>
  \<open>RtlRingBufferWrite\<close> on a well-formed buffer always reports success, releases
  the lock and keeps the buffer well formed; when at least one byte stays free the unread
  contents become the old contents followed by the data, and otherwise every unread byte is
  lost, although the caller is told the write succeeded.
\<close>

theorem ring_write_correct:
  assumes "ring_wf rb" "RtlRingBufferWrite rb D = (st, rb')"
  shows "st = STATUS_SUCCESS \<and> ring_wf rb' \<and>
    ring_contents rb' = (if length D < ring_free rb then ring_contents rb @ D else [])"
  using ring_write_wf [OF assms] ring_write_fits [OF assms] ring_write_full [OF assms] by simp

theorem ring_write_correct_witness:
  "ring_contents (snd (RtlRingBufferWrite ring_example [1, 2, 3])) = [1, 2, 3] \<and>
   ring_contents (snd (RtlRingBufferWrite ring_example [1, 2, 3, 4])) = []"
proof -
  have "ring_free ring_example = 4"
    using ring_free_used [OF ring_example_wf(1)] ring_example_wf by (metis add.right_neutral length_ring_contents list.size(3))
  then show ?thesis
    using ring_write_correct [OF ring_example_wf(1) prod.collapse [symmetric], of "[1, 2, 3]"]
      ring_write_correct [OF ring_example_wf(1) prod.collapse [symmetric], of "[1, 2, 3, 4]"]
      ring_example_wf by simp
qed

text \<open>
  C36: the ring buffer refines the specification queue over every sequence of writes and
  reads: each read returns the same bytes as the queue (in order, wrapping around the end
  of the memory included) and the buffer's contents are the queue's.
\<close>

theorem ring_buffer_refines_queue:
  assumes "ring_wf rb" "ring_run rb xs = (rb', outs)"
  shows "ring_wf rb' \<and> spec_run (rb_Size rb) (ring_contents rb) xs = (ring_contents rb', outs)"
  using assms by (rule ring_run_refines)

theorem ring_buffer_refines_queue_witness:
  "snd (ring_run ring_example [Write [1, 2, 3], Read 2, Write [4, 5], Read 9]) =
     [[], [1, 2], [], [3, 4, 5]]"
proof -
  let ?xs = "[Write [1, 2, 3], Read 2, Write [4, 5], Read 9]"
  have "snd (ring_run ring_example ?xs) = snd (spec_run 4 [] ?xs)"
    using ring_buffer_refines_queue [OF ring_example_wf(1) prod.collapse [symmetric], of ?xs]
      ring_example_wf by (metis snd_conv)
  also have "\<dots> = [[], [1, 2], [], [3, 4, 5]]" by simp
  finally show ?thesis .
qed

end
