(* ===== verification/Mailbox.thy ===== *)
theory Mailbox
  imports Ring_Buffer
begin

text \<open>
  The mailbox of \<open>src/mailbox.c\<close> between root mode and the driver: records of a fixed
  size in a ring buffer, and the life cycle of its worker thread.  A
  \<open>MAILBOX_RECORD\<close> is written and read as bytes, so its x64 layout (1056 bytes with
  padding) is spelled out.  Calls into the kernel (pool allocation, thread creation, string
  formatting) are arguments.
\<close>

section \<open>Records and their layout\<close>

definition MAILBOX_BUFFER_SIZE :: nat where "MAILBOX_BUFFER_SIZE = 1024"
definition MAILBOX_POOL_DEFAULT_SIZE :: nat where "MAILBOX_POOL_DEFAULT_SIZE = 1024 * 256"

text \<open>The enumeration \<open>MAILBOX_TYPE\<close>.\<close>

definition MailboxEmpty :: u32 where "MailboxEmpty = 0"
definition MailboxTrace :: u32 where "MailboxTrace = 1"
definition MailboxNotification :: u32 where "MailboxNotification = 2"

text \<open>
  The union of the header overlays \<open>Trace.Area\<close> and \<open>Notification.Reserved\<close>
  (\<open>mr_u0\<close>); \<open>mr_u1\<close> is \<open>Trace.Level\<close>.
\<close>

record mailbox_record =
  mr_Flags :: u32
  mr_pad0 :: "u8 list"
  mr_Size :: u64
  mr_Type :: u32
  mr_u0 :: u32
  mr_u1 :: u32
  mr_pad1 :: "u8 list"
  mr_Data :: "u8 list"

definition sizeof_MAILBOX_RECORD :: nat where
  "sizeof_MAILBOX_RECORD = 32 + MAILBOX_BUFFER_SIZE"

definition record_ok :: "mailbox_record \<Rightarrow> bool" where
  "record_ok r \<longleftrightarrow> length (mr_pad0 r) = 4 \<and> length (mr_pad1 r) = 4 \<and>
     length (mr_Data r) = MAILBOX_BUFFER_SIZE"

definition record_bytes :: "mailbox_record \<Rightarrow> u8 list" where
  "record_bytes r = le32 (mr_Flags r) @ mr_pad0 r @ le64 (mr_Size r) @ le32 (mr_Type r)
     @ le32 (mr_u0 r) @ le32 (mr_u1 r) @ mr_pad1 r @ mr_Data r"

definition slice :: "nat \<Rightarrow> nat \<Rightarrow> 'a list \<Rightarrow> 'a list" where
  "slice off n xs = take n (drop off xs)"

definition record_of_bytes :: "u8 list \<Rightarrow> mailbox_record" where
  "record_of_bytes bs = \<lparr>mr_Flags = of_le (slice 0 4 bs), mr_pad0 = slice 4 4 bs,
     mr_Size = of_le (slice 8 8 bs), mr_Type = of_le (slice 16 4 bs),
     mr_u0 = of_le (slice 20 4 bs), mr_u1 = of_le (slice 24 4 bs),
     mr_pad1 = slice 28 4 bs, mr_Data = slice 32 MAILBOX_BUFFER_SIZE bs\<rparr>"

lemma length_record_bytes: "record_ok r \<Longrightarrow> length (record_bytes r) = sizeof_MAILBOX_RECORD"
  by (simp add: record_ok_def record_bytes_def sizeof_MAILBOX_RECORD_def)

lemma record_of_bytes_append:
  "record_ok r \<Longrightarrow> record_of_bytes (record_bytes r @ xs) = r"
  by (simp add: record_of_bytes_def record_bytes_def slice_def record_ok_def)

lemma record_of_bytes_inverse: "record_ok r \<Longrightarrow> record_of_bytes (record_bytes r) = r"
  using record_of_bytes_append [of r "[]"] by simp

section \<open>The mailbox\<close>

record mailbox =
  mb_PoolBuffer :: "nat option"
  mb_RingBuffer :: ring_buffer
  mb_Thread :: "nat option"
  mb_ShutdownEvent :: bool
  mb_QueueSemaphore :: nat

text \<open>
  Kernel calls a routine makes, in order.
\<close>

datatype mailbox_effect =
    CreateThread
  | CloseThreadHandle
  | WaitForThread nat
  | DereferenceThread nat
  | FreePool "nat option"

definition RtlMailboxStopWorker :: "mailbox \<Rightarrow> mailbox \<times> mailbox_effect list" where
  "RtlMailboxStopWorker Mailbox =
     (let mb = Mailbox\<lparr>mb_ShutdownEvent := True\<rparr>
      in case mb_Thread mb of
           None \<Rightarrow> (mb, [])
         | Some t \<Rightarrow> (mb\<lparr>mb_Thread := None\<rparr>, [WaitForThread t, DereferenceThread t]))"

text \<open>
  \<open>create\<close> is the status of \<open>PsCreateSystemThread\<close>, \<open>reference\<close> the status of
  \<open>ObReferenceObjectByHandle\<close> and the object it returns.
\<close>

definition RtlMailboxStartWorker ::
  "ntstatus \<Rightarrow> ntstatus \<times> nat \<Rightarrow> mailbox \<Rightarrow> ntstatus \<times> mailbox \<times> mailbox_effect list" where
  "RtlMailboxStartWorker create reference Mailbox =
     (let mb = Mailbox\<lparr>mb_QueueSemaphore := 0, mb_ShutdownEvent := False\<rparr>
      in if NT_SUCCESS create then
           (if NT_SUCCESS (fst reference) then
              (fst reference, mb\<lparr>mb_Thread := Some (snd reference)\<rparr>,
               [CreateThread, CloseThreadHandle])
            else
              let (mb', fx) = RtlMailboxStopWorker mb
              in (fst reference, mb', CreateThread # fx))
         else (create, mb, [CreateThread]))"

definition RtlMailboxDestroy :: "mailbox \<Rightarrow> mailbox \<times> mailbox_effect list" where
  "RtlMailboxDestroy Mailbox =
     (let (mb, fx) = RtlMailboxStopWorker Mailbox
      in (mb, fx @ [FreePool (mb_PoolBuffer mb)]))"

text \<open>\<open>pool\<close> is the result of the pool allocation, \<open>mem\<close> the memory it lies in.\<close>

definition RtlMailboxInitialize ::
  "nat option \<Rightarrow> memory \<Rightarrow> ntstatus \<Rightarrow> ntstatus \<times> nat \<Rightarrow> nat
     \<Rightarrow> ntstatus \<times> mailbox \<times> mailbox_effect list" where
  "RtlMailboxInitialize pool mem create reference PoolSize =
     (let zero = \<lparr>mb_PoolBuffer = None,
                  mb_RingBuffer = \<lparr>rb_Size = 0, rb_Lock = False, rb_Base = 0, rb_End = 0,
                    rb_Head = 0, rb_Tail = 0, rb_mem = mem\<rparr>,
                  mb_Thread = None, mb_ShutdownEvent = False, mb_QueueSemaphore = 0\<rparr>
      in case pool of
           None \<Rightarrow> (STATUS_INSUFFICIENT_RESOURCES, zero, [])
         | Some p \<Rightarrow>
             let mb = zero\<lparr>mb_PoolBuffer := Some p, mb_RingBuffer :=
                        RtlRingBufferInitialize (mb_RingBuffer zero) p PoolSize\<rparr>;
                 (st, mb', fx) = RtlMailboxStartWorker create reference mb
             in if NT_SUCCESS st then (st, mb', fx)
                else let (mb'', fx') = RtlMailboxDestroy mb' in (st, mb'', fx @ fx'))"

definition RtlIsMailboxEmpty :: "mailbox \<Rightarrow> bool" where
  "RtlIsMailboxEmpty Mailbox =
     (snd (RtlRingBufferGetAvailBytes (mb_RingBuffer Mailbox)) < sizeof_MAILBOX_RECORD)"

definition put_record :: "mailbox \<Rightarrow> mailbox_record \<Rightarrow> ntstatus \<times> mailbox" where
  "put_record Mailbox Entry =
     (let (st, rb) = RtlRingBufferWrite (mb_RingBuffer Mailbox) (record_bytes Entry)
      in (st, Mailbox\<lparr>mb_RingBuffer := rb\<rparr>))"

text \<open>
  \<open>Stack\<close> is the uninitialised \<open>MAILBOX_RECORD\<close> on the stack: fields the code does
  not assign keep its values.  \<open>vprintf\<close> is \<open>RtlStringCbVPrintfA\<close> on the data
  area and \<open>cblength\<close> is \<open>RtlStringCbLengthA\<close>; \<open>None\<close> is the null message.
\<close>

definition RtlPostMailboxTrace ::
  "(string \<Rightarrow> ntstatus \<times> u8 list) \<Rightarrow> (u8 list \<Rightarrow> ntstatus \<times> u64) \<Rightarrow> mailbox_record
     \<Rightarrow> mailbox \<Rightarrow> u32 \<Rightarrow> u32 \<Rightarrow> string option \<Rightarrow> ntstatus \<times> mailbox" where
  "RtlPostMailboxTrace vprintf cblength Stack Mailbox Level Area TraceMessage =
     (let (st, data, len) =
            (case TraceMessage of
               None \<Rightarrow> (STATUS_INVALID_PARAMETER, mr_Data Stack, 0)
             | Some m \<Rightarrow>
                 let (st1, d) = vprintf m
                 in if NT_SUCCESS st1 then let (st2, l) = cblength d in (st2, d, l)
                    else (st1, d, 0))
      in if \<not> NT_SUCCESS st then (st, Mailbox)
         else put_record Mailbox
                (Stack\<lparr>mr_Data := data, mr_Type := MailboxTrace, mr_Size := len,
                       mr_u1 := Level, mr_u0 := Area\<rparr>))"

definition RtlPostMailboxNotification ::
  "mailbox_record \<Rightarrow> mailbox \<Rightarrow> u8 list \<Rightarrow> nat \<Rightarrow> ntstatus \<times> mailbox" where
  "RtlPostMailboxNotification Stack Mailbox Notification Length =
     (let Entry = Stack\<lparr>mr_Type := MailboxNotification, mr_Size := of_nat Length, mr_u0 := 0\<rparr>
      in if MAILBOX_BUFFER_SIZE < Length then (STATUS_BUFFER_OVERFLOW, Mailbox)
         else put_record Mailbox
                (Entry\<lparr>mr_Data := take Length Notification @ drop Length (mr_Data Entry)\<rparr>))"

text \<open>
  A read of fewer bytes than a record would leave the rest of \<open>MailboxEntry\<close> as it was.
\<close>

definition RtlRetrieveMailboxData ::
  "mailbox \<Rightarrow> mailbox_record \<Rightarrow> ntstatus \<times> mailbox \<times> mailbox_record" where
  "RtlRetrieveMailboxData Mailbox MailboxEntry =
     (let Entry = MailboxEntry\<lparr>mr_Type := MailboxEmpty\<rparr>;
          (st, rb, bs) = RtlRingBufferRead (mb_RingBuffer Mailbox) sizeof_MAILBOX_RECORD
      in (st, Mailbox\<lparr>mb_RingBuffer := rb\<rparr>,
          record_of_bytes (bs @ drop (length bs) (record_bytes Entry))))"

section \<open>The mailbox as a queue of records\<close>

definition mailbox_queue :: "mailbox \<Rightarrow> mailbox_record list \<Rightarrow> bool" where
  "mailbox_queue mb rs \<longleftrightarrow> list_all record_ok rs \<and>
     rbq.holds sizeof_MAILBOX_RECORD (mb_RingBuffer mb) (map record_bytes rs)"

definition mailbox_capacity :: "mailbox \<Rightarrow> nat" where
  "mailbox_capacity mb = (rb_Size (mb_RingBuffer mb) - 1) div sizeof_MAILBOX_RECORD"

lemma sizeof_pos [simp]: "0 < sizeof_MAILBOX_RECORD"
  by (simp add: sizeof_MAILBOX_RECORD_def)

lemma mailbox_queue_wf: "mailbox_queue mb rs \<Longrightarrow> ring_wf (mb_RingBuffer mb)"
  by (simp add: mailbox_queue_def rbq.holds_def)

lemma mailbox_queue_nonempty: "mailbox_queue mb rs \<Longrightarrow> 0 < rb_Size (mb_RingBuffer mb)"
  using mailbox_queue_wf [of mb rs] ring_used_less [of "mb_RingBuffer mb"] by simp

lemma capacity_iff:
  assumes "0 < n" "0 < (l::nat)" shows "k < (n - 1) div l \<longleftrightarrow> (k + 1) * l < n"
proof -
  have "k < (n - 1) div l \<longleftrightarrow> Suc k \<le> (n - 1) div l" by auto
  also have "\<dots> \<longleftrightarrow> Suc k * l \<le> n - 1" using assms(2) by (rule less_eq_div_iff_mult_less_eq)
  finally show ?thesis using assms(1) by auto
qed

lemma put_record_queue:
  assumes q: "mailbox_queue mb rs" and r: "record_ok r" and p: "put_record mb r = (st, mb')"
  shows "st = STATUS_SUCCESS" "mailbox_capacity mb' = mailbox_capacity mb"
    "mailbox_queue mb' (if length rs < mailbox_capacity mb then rs @ [r] else [])"
proof -
  let ?q = "mb_RingBuffer mb" and ?l = sizeof_MAILBOX_RECORD
  have h: "rbq.holds ?l ?q (map record_bytes rs)" and ok: "list_all record_ok rs"
    using q by (simp_all add: mailbox_queue_def)
  have mb': "mb' = mb\<lparr>mb_RingBuffer := snd (RtlRingBufferWrite ?q (record_bytes r))\<rparr>"
    and st: "st = fst (RtlRingBufferWrite ?q (record_bytes r))"
    using p by (auto simp: put_record_def split: prod.splits)
  note w = rbq.put_ok [OF mailbox_queue_wf [OF q], of "record_bytes r"]
  show "st = STATUS_SUCCESS" using w st by simp
  show "mailbox_capacity mb' = mailbox_capacity mb" using w mb' by (simp add: mailbox_capacity_def)
  have cap: "length rs < mailbox_capacity mb \<longleftrightarrow> (length rs + 1) * ?l < rb_Size ?q"
    unfolding mailbox_capacity_def using mailbox_queue_nonempty [OF q] by (intro capacity_iff) auto
  show "mailbox_queue mb' (if length rs < mailbox_capacity mb then rs @ [r] else [])"
    using rbq.holds_post [OF h length_record_bytes [OF r]]
      rbq.holds_post_full [OF h length_record_bytes [OF r]] ok r cap mb'
    by (auto simp: mailbox_queue_def)
qed

lemma retrieve_queue:
  assumes q: "mailbox_queue mb (r # rs)" and g: "RtlRetrieveMailboxData mb e = (st, mb', r')"
  shows "st = STATUS_SUCCESS" "r' = r" "mailbox_queue mb' rs"
    "mailbox_capacity mb' = mailbox_capacity mb"
proof -
  let ?q = "mb_RingBuffer mb" and ?l = sizeof_MAILBOX_RECORD
  obtain s rb bs where rd: "RtlRingBufferRead ?q ?l = (s, rb, bs)" by (metis prod_cases3)
  from q have "rbq.holds ?l ?q (record_bytes r # map record_bytes rs)" and r: "record_ok r"
    by (simp_all add: mailbox_queue_def)
  note G = rbq.holds_get [OF this(1) rd]
  have eq: "st = s" "mb' = mb\<lparr>mb_RingBuffer := rb\<rparr>"
    "r' = record_of_bytes (bs @ drop (length bs) (record_bytes (e\<lparr>mr_Type := MailboxEmpty\<rparr>)))"
    using g rd by (simp_all add: RtlRetrieveMailboxData_def Let_def)
  show "st = STATUS_SUCCESS" using eq G by simp
  show "mailbox_capacity mb' = mailbox_capacity mb" using eq G by (simp add: mailbox_capacity_def)
  show "mailbox_queue mb' rs" using eq G q by (simp add: mailbox_queue_def)
  show "r' = r" using eq G r by (simp add: record_of_bytes_append)
qed

lemma empty_iff_queue: "mailbox_queue mb rs \<Longrightarrow> RtlIsMailboxEmpty mb \<longleftrightarrow> rs = []"
proof -
  assume q: "mailbox_queue mb rs"
  then have "length (ring_contents (mb_RingBuffer mb)) = length rs * sizeof_MAILBOX_RECORD"
    using rbq.holds_length [of sizeof_MAILBOX_RECORD "mb_RingBuffer mb" "map record_bytes rs"]
    by (simp add: mailbox_queue_def)
  then have "ring_used (mb_RingBuffer mb) = length rs * sizeof_MAILBOX_RECORD" by simp
  then show ?thesis by (cases rs) (simp_all add: RtlIsMailboxEmpty_def ring_used_def)
qed

lemma RtlMailboxInitialize_queue:
  assumes "RtlMailboxInitialize (Some p) mem create ref n = (st, mb, fx)" "NT_SUCCESS st" "0 < n"
  shows "mailbox_queue mb []" "mailbox_capacity mb = (n - 1) div sizeof_MAILBOX_RECORD"
proof -
  define zero where "zero = \<lparr>rb_Size = 0, rb_Lock = False, rb_Base = 0, rb_End = 0,
    rb_Head = 0, rb_Tail = 0, rb_mem = mem\<rparr>"
  have "mb_RingBuffer mb = RtlRingBufferInitialize zero p n"
    using assms(1,2)
    by (auto simp: RtlMailboxInitialize_def RtlMailboxStartWorker_def zero_def Let_def
        split: if_splits prod.splits)
  then show "mailbox_queue mb []" "mailbox_capacity mb = (n - 1) div sizeof_MAILBOX_RECORD"
    using ring_initialize [OF assms(3)]
    by (simp_all add: mailbox_queue_def rbq.holds_def mailbox_capacity_def RtlRingBufferInitialize_def)
qed

section \<open>Runs of the mailbox\<close>

datatype mailbox_op = Post mailbox_record | Retrieve

text \<open>
  The specification: a queue of records of bounded length; a post to a full queue empties
  it, and a retrieve from the empty queue finds nothing.
\<close>

fun mspec_step :: "nat \<Rightarrow> mailbox_record list \<Rightarrow> mailbox_op \<Rightarrow> mailbox_record list \<times> mailbox_record option"
where
  "mspec_step cap q (Post r) = ((if length q < cap then q @ [r] else []), None)"
| "mspec_step cap q Retrieve = (case q of [] \<Rightarrow> ([], None) | r # rs \<Rightarrow> (rs, Some r))"

fun mbox_step :: "mailbox \<Rightarrow> mailbox_op \<Rightarrow> mailbox \<times> mailbox_record option" where
  "mbox_step mb (Post r) = (snd (put_record mb r), None)"
| "mbox_step mb Retrieve =
     (if RtlIsMailboxEmpty mb then (mb, None)
      else let (st, mb', r) = RtlRetrieveMailboxData mb
                 \<lparr>mr_Flags = 0, mr_pad0 = [], mr_Size = 0, mr_Type = 0, mr_u0 = 0, mr_u1 = 0,
                  mr_pad1 = [], mr_Data = []\<rparr>
           in (mb', Some r))"

fun mspec_run where
  "mspec_run cap q [] = (q, [])"
| "mspec_run cap q (x # xs) =
     (let (q1, r) = mspec_step cap q x; (q2, rs) = mspec_run cap q1 xs in (q2, r # rs))"

fun mbox_run where
  "mbox_run mb [] = (mb, [])"
| "mbox_run mb (x # xs) =
     (let (m1, r) = mbox_step mb x; (m2, rs) = mbox_run m1 xs in (m2, r # rs))"

definition op_ok :: "mailbox_op \<Rightarrow> bool" where
  "op_ok x = (case x of Post r \<Rightarrow> record_ok r | Retrieve \<Rightarrow> True)"

lemma mbox_step_refines:
  assumes q: "mailbox_queue mb rs" and ok: "op_ok x" and s: "mbox_step mb x = (mb', out)"
  shows "mailbox_capacity mb' = mailbox_capacity mb \<and>
    (\<exists>rs'. mailbox_queue mb' rs' \<and> mspec_step (mailbox_capacity mb) rs x = (rs', out))"
proof (cases x)
  case (Post r)
  with s obtain st where "put_record mb r = (st, mb')" by (metis fst_conv mbox_step.simps(1) prod.collapse)
  from put_record_queue [OF q _ this] ok Post s show ?thesis by (simp add: op_ok_def)
next
  case Retrieve
  show ?thesis
  proof (cases rs)
    case Nil
    with empty_iff_queue [OF q] s q Retrieve show ?thesis by auto
  next
    case (Cons r rs')
    with q have q': "mailbox_queue mb (r # rs')" by simp
    obtain st m r2 where g: "RtlRetrieveMailboxData mb
        \<lparr>mr_Flags = 0, mr_pad0 = [], mr_Size = 0, mr_Type = 0, mr_u0 = 0, mr_u1 = 0,
         mr_pad1 = [], mr_Data = []\<rparr> = (st, m, r2)" by (metis prod_cases3)
    from retrieve_queue [OF q' g] g empty_iff_queue [OF q] Cons s Retrieve show ?thesis by simp
  qed
qed

lemma mbox_run_refines:
  "mailbox_queue mb rs \<Longrightarrow> list_all op_ok xs \<Longrightarrow> mbox_run mb xs = (mb', outs) \<Longrightarrow>
     (\<exists>rs'. mailbox_queue mb' rs' \<and> mspec_run (mailbox_capacity mb) rs xs = (rs', outs))"
proof (induction xs arbitrary: mb rs outs)
  case Nil
  then show ?case by auto
next
  case (Cons x xs)
  obtain m1 r where s: "mbox_step mb x = (m1, r)" by fastforce
  with Cons.prems obtain os where "mbox_run m1 xs = (mb', os)" "outs = r # os"
    by (auto simp: Let_def split: prod.splits)
  with Cons.IH [of m1 _ os] mbox_step_refines [OF Cons.prems(1) _ s] Cons.prems(2)
  show ?case by fastforce
qed

lemma mbox_posts:
  "mailbox_queue mb rs \<Longrightarrow> list_all record_ok xs \<Longrightarrow> length rs + length xs \<le> mailbox_capacity mb \<Longrightarrow>
     mailbox_queue (fst (mbox_run mb (map Post xs))) (rs @ xs) \<and>
     mailbox_capacity (fst (mbox_run mb (map Post xs))) = mailbox_capacity mb"
proof (induction xs arbitrary: mb rs)
  case Nil
  then show ?case by simp
next
  case (Cons x xs)
  obtain st m where p: "put_record mb x = (st, m)" by fastforce
  with put_record_queue [OF Cons.prems(1) _ p] Cons.prems Cons.IH [of m "rs @ [x]"]
  show ?case by (simp add: Let_def split_beta)
qed

section \<open>Properties\<close>

definition record_example :: mailbox_record where
  "record_example = \<lparr>mr_Flags = 7, mr_pad0 = [0, 0, 0, 0], mr_Size = 3, mr_Type = 1, mr_u0 = 5,
     mr_u1 = 4, mr_pad1 = [9, 9, 9, 9], mr_Data = replicate 1024 0x41\<rparr>"

definition mailbox_example :: mailbox where
  "mailbox_example = fst (snd (RtlMailboxInitialize (Some 4096) (\<lambda>_. 0) STATUS_SUCCESS
     (STATUS_SUCCESS, 99) MAILBOX_POOL_DEFAULT_SIZE))"

lemma record_example_ok: "record_ok record_example"
  by (simp add: record_example_def record_ok_def MAILBOX_BUFFER_SIZE_def)

lemma mailbox_example_queue:
  "mailbox_queue mailbox_example []" "mailbox_capacity mailbox_example = 248"
proof -
  obtain st mb fx where i: "RtlMailboxInitialize (Some 4096) (\<lambda>_. 0) STATUS_SUCCESS
      (STATUS_SUCCESS, 99) MAILBOX_POOL_DEFAULT_SIZE = (st, mb, fx)" by (metis prod_cases3)
  then have "NT_SUCCESS st"
    by (auto simp: RtlMailboxInitialize_def RtlMailboxStartWorker_def Let_def)
  from RtlMailboxInitialize_queue [OF i this] i
  show "mailbox_queue mailbox_example []" "mailbox_capacity mailbox_example = 248"
    by (simp_all add: mailbox_example_def MAILBOX_POOL_DEFAULT_SIZE_def
        sizeof_MAILBOX_RECORD_def MAILBOX_BUFFER_SIZE_def)
qed

text \<open>
  C16: the mailbox refines a bounded queue of records: for every sequence of posts and
  retrieves, each retrieve returns the record (all header fields and data bytes) that was
  posted first and not yet retrieved, and a post beyond the capacity drops the queue.
\<close>

theorem mailbox_refines_record_queue:
  assumes "mailbox_queue mb rs" "list_all op_ok xs" "mbox_run mb xs = (mb', outs)"
  shows "\<exists>rs'. mailbox_queue mb' rs' \<and> mspec_run (mailbox_capacity mb) rs xs = (rs', outs)"
  using assms by (rule mbox_run_refines)

theorem mailbox_refines_record_queue_witness:
  "snd (mbox_run mailbox_example [Post record_example, Retrieve, Retrieve]) =
     [None, Some record_example, None]"
proof -
  let ?xs = "[Post record_example, Retrieve, Retrieve]"
  have "list_all op_ok ?xs" by (simp add: op_ok_def record_example_ok)
  from mailbox_refines_record_queue [OF mailbox_example_queue(1) this prod.collapse [symmetric]]
  have "snd (mbox_run mailbox_example ?xs) = snd (mspec_run 248 [] ?xs)"
    unfolding mailbox_example_queue(2) by (metis snd_conv)
  also have "\<dots> = [None, Some record_example, None]" by simp
  finally show ?thesis .
qed

text \<open>
  A mailbox of the default pool size holds 248 records; a run of 249 posts without a
  retrieve leaves the mailbox empty: the last post fills the ring to its last byte and
  every pending record, the new one included, is lost, while the post reports success.
\<close>

theorem mailbox_overflow_loses_all:
  assumes "mailbox_queue mb []" "mailbox_capacity mb = 248"
    "list_all record_ok xs" "length xs = 248" "record_ok r"
  shows "mailbox_queue (fst (mbox_run mb (map Post xs))) xs \<and>
    fst (put_record (fst (mbox_run mb (map Post xs))) r) = STATUS_SUCCESS \<and>
    RtlIsMailboxEmpty (snd (put_record (fst (mbox_run mb (map Post xs))) r))"
proof -
  let ?m = "fst (mbox_run mb (map Post xs))"
  have q: "mailbox_queue ?m xs" "mailbox_capacity ?m = 248"
    using mbox_posts [OF assms(1,3)] assms(2,4) by simp_all
  obtain st m where p: "put_record ?m r = (st, m)" by fastforce
  from put_record_queue [OF q(1) assms(5) p] q assms(4) empty_iff_queue [of m "[]"] p
  show ?thesis by simp
qed

theorem mailbox_overflow_loses_all_witness:
  "RtlIsMailboxEmpty (snd (put_record
     (fst (mbox_run mailbox_example (map Post (replicate 248 record_example)))) record_example))"
  using mailbox_overflow_loses_all
    [OF mailbox_example_queue, of "replicate 248 record_example" record_example]
  by (simp add: record_example_ok list_all_iff)

text \<open>
  Posting a notification keeps it intact: when the notification fits the data area and
  the queue is not full, the last record of the queue has the notification type, the
  notification's length and its bytes; one that does not fit is refused and changes nothing.
\<close>

theorem post_notification_correct:
  assumes "mailbox_queue mb rs" "record_ok Stack" "length rs < mailbox_capacity mb"
    "length N = Len"
  shows "if Len \<le> MAILBOX_BUFFER_SIZE then
      \<exists>mb' r. RtlPostMailboxNotification Stack mb N Len = (STATUS_SUCCESS, mb') \<and>
        mailbox_queue mb' (rs @ [r]) \<and> mr_Type r = MailboxNotification \<and>
        mr_Size r = of_nat Len \<and> take Len (mr_Data r) = N
    else RtlPostMailboxNotification Stack mb N Len = (STATUS_BUFFER_OVERFLOW, mb)"
proof (cases "Len \<le> MAILBOX_BUFFER_SIZE")
  case True
  define r where "r = Stack\<lparr>mr_Type := MailboxNotification, mr_Size := of_nat Len, mr_u0 := 0,
    mr_Data := take Len N @ drop Len (mr_Data Stack)\<rparr>"
  have ok: "record_ok r" using assms(2,4) True by (simp add: record_ok_def r_def)
  obtain st mb' where p: "put_record mb r = (st, mb')" by fastforce
  have "RtlPostMailboxNotification Stack mb N Len = (st, mb')"
    using p True by (simp add: RtlPostMailboxNotification_def r_def)
  with True put_record_queue [OF assms(1) ok p] assms(3,4) show ?thesis
    by (auto simp: r_def intro!: exI [of _ r])
qed (simp add: RtlPostMailboxNotification_def)

theorem post_notification_correct_witness:
  "\<exists>mb' r. RtlPostMailboxNotification record_example mailbox_example [1, 2, 3] 3 =
      (STATUS_SUCCESS, mb') \<and> mailbox_queue mb' [r] \<and> take 3 (mr_Data r) = [1, 2, 3]"
  using post_notification_correct
    [OF mailbox_example_queue(1) record_example_ok, of "[1, 2, 3]" 3]
  by (auto simp: mailbox_example_queue MAILBOX_BUFFER_SIZE_def)

end
