(* ===== verification/Hv_State.thy ===== *)
theory Hv_State
  imports Vmcs Mmu_Map Process Mailbox
begin

text \<open>
  The state a virtual machine exit works on (\<open>hvm.h\<close>, \<open>context.h\<close>, \<open>tsc.h\<close>): the processor
  with its current control structure, the guest's registers, the parts of the virtual
  processor the handlers change, and the components they call into.
\<close>

section \<open>Guest registers\<close>

text \<open>
  The sixteen general registers as the array \<open>LookupGpr\<close> makes of the first fields of
  \<open>GP_REGISTERS\<close>, in their order there.  The floating-point part is not touched by this code.
\<close>

record gp_registers =
  gr :: "nat \<Rightarrow> u64"
  gr_Rip :: u64
  gr_Rflags :: u64

abbreviation (input) RAX :: nat where "RAX \<equiv> 0"
abbreviation (input) RCX :: nat where "RCX \<equiv> Suc 0"
abbreviation (input) RDX :: nat where "RDX \<equiv> 2"
abbreviation (input) RBX :: nat where "RBX \<equiv> 3"
abbreviation (input) RSP :: nat where "RSP \<equiv> 4"
abbreviation (input) RSI :: nat where "RSI \<equiv> 6"
abbreviation (input) RDI :: nat where "RDI \<equiv> 7"

definition set_gr :: "nat \<Rightarrow> u64 \<Rightarrow> gp_registers \<Rightarrow> gp_registers" where
  "set_gr n v R = R\<lparr>gr := (gr R)(n := v)\<rparr>"

lemma set_gr_sel [simp]:
  "gr (set_gr n v R) m = (if m = n then v else gr R m)" "gr_Rip (set_gr n v R) = gr_Rip R"
  "gr_Rflags (set_gr n v R) = gr_Rflags R"
  by (simp_all add: set_gr_def)

section \<open>Logged exits\<close>

record exit_info =
  ei_exitReason :: u32
  ei_exitQualification :: u64
  ei_guestLinearAddress :: u64
  ei_guestPhysicalAddress :: u64
  ei_exitInterruptionInformation :: u32
  ei_exitInterruptionErrorCode :: u32
  ei_idtVectoringInformation :: u32
  ei_idtVectoringErrorCode :: u32
  ei_exitInstructionLength :: u32
  ei_exitInstructionInformation :: u32
  ei_ioRcx :: u64
  ei_ioRsi :: u64
  ei_ioRdi :: u64
  ei_ioRip :: u64
  ei_vmInstructionError :: u64

record hvm_event =
  ev_info :: exit_info
  ev_Registers :: gp_registers

definition MAX_NUMBER_OF_LOGGED_EXIT_EVENTS :: nat where "MAX_NUMBER_OF_LOGGED_EXIT_EVENTS = 16"

record hvm_logged_events =
  le_Count :: u64
  le_Queue :: "hvm_event list"

section \<open>Time stamp events\<close>

record tsc_hit =
  th_Address :: u64
  th_TimeStamp :: u64
  th_Count :: u64

record tsc_entry =
  te_Before :: tsc_hit
  te_After :: tsc_hit
  te_Skips :: u32
  te_Difference :: u64
  te_TscHash :: u64

definition zero_hit :: tsc_hit where "zero_hit = \<lparr>th_Address = 0, th_TimeStamp = 0, th_Count = 0\<rparr>"

definition zero_tsc_entry :: tsc_entry where
  "zero_tsc_entry = \<lparr>te_Before = zero_hit, te_After = zero_hit, te_Skips = 0, te_Difference = 0, te_TscHash = 0\<rparr>"

definition MAX_TSC_HITS :: nat where "MAX_TSC_HITS = 100"

text \<open>
  What the driver reads of an instruction \<open>libudis86\<close> has decoded: whether it is invalid, its
  length and three operands.  A notification is the message that reports a pair of hits.
\<close>

datatype ud_type = UD_NONE | UD_OP_MEM | UD_OP_JIMM | UD_OP_OTHER

record ud_operand =
  uo_type :: ud_type
  uo_size :: nat
  uo_uqword :: u64

record ud_insn =
  ui_invalid :: bool
  ui_op0 :: ud_operand
  ui_op1 :: ud_operand
  ui_op2 :: ud_operand
  ui_len :: nat

record ds_notification =
  dn_ControlFlags :: u32
  dn_MessageType :: u32
  dn_ProcessId :: u64
  dn_ThreadId :: u64
  dn_Type :: u32
  dn_Tsc :: tsc_entry
  dn_Code :: "u8 list"
  dn_CodeSize :: u64
  dn_Flags :: u32

section \<open>Virtual processors\<close>

text \<open>The fields of \<open>HOST_SAVED_STATE\<close> that are ever assigned.\<close>

record host_saved_state =
  hs_Cr0 :: u64
  hs_Cr4 :: u64
  hs_Cs :: u16
  hs_Ss :: u16
  hs_Ds :: u16
  hs_Es :: u16
  hs_Fs :: u16
  hs_FsBase :: u64
  hs_Gs :: u16
  hs_GsBase :: u64
  hs_Tr :: u16
  hs_TrBase :: u64
  hs_Gdt :: ia32_descriptor
  hs_Idt :: ia32_descriptor
  hs_SysenterCs :: u32
  hs_SysenterEsp :: u64
  hs_SysenterEip :: u64

definition zero_descriptor :: ia32_descriptor where "zero_descriptor = \<lparr>dt_Limit = 0, dt_Base = 0\<rparr>"

definition zero_host_state :: host_saved_state where
  "zero_host_state = \<lparr>hs_Cr0 = 0, hs_Cr4 = 0, hs_Cs = 0, hs_Ss = 0, hs_Ds = 0, hs_Es = 0, hs_Fs = 0, hs_FsBase = 0,
     hs_Gs = 0, hs_GsBase = 0, hs_Tr = 0, hs_TrBase = 0, hs_Gdt = zero_descriptor, hs_Idt = zero_descriptor,
     hs_SysenterCs = 0, hs_SysenterEsp = 0, hs_SysenterEip = 0\<rparr>"

text \<open>
  \<open>HVM_VCPU\<close> without the guest registers and the logged events, which are parts of the state
  below, and the callbacks, of which there is one each.  Pointers into the heap are \<open>nat\<close> or null.
\<close>

record hvm_vcpu =
  vc_Index :: nat
  vc_HostState :: host_saved_state
  vc_VmxOnHva :: "nat option"
  vc_VmxOnHpa :: u64
  vc_VmcsHva :: "nat option"
  vc_VmcsHpa :: u64
  vc_Stack :: "nat option"
  vc_Rsp :: u64
  vc_Context :: "nat option"
  vc_Launched :: bool

definition zero_vcpu :: hvm_vcpu where
  "zero_vcpu = \<lparr>vc_Index = 0, vc_HostState = zero_host_state, vc_VmxOnHva = None, vc_VmxOnHpa = 0, vc_VmcsHva = None,
     vc_VmcsHpa = 0, vc_Stack = None, vc_Rsp = 0, vc_Context = None, vc_Launched = False\<rparr>"

section \<open>The state\<close>

text \<open>Instructions and kernel calls with an effect outside the model, in order.\<close>

datatype hw_op =
    OpWbinvd
  | OpInvVpid u32
  | OpOut nat u16 u32
  | OpInString nat u16 u64 u32
  | OpOutString nat u16 u64 u32
  | OpWriteFs u16
  | OpVmxOn u64
  | OpVmClear u64
  | OpVmPtrLoad u64
  | OpVmLaunch
  | OpVmxOff
  | OpInterrupts bool
  | OpIret u64 u64 u64 u64 u64
  | OpBugCheck u32

text \<open>
  The virtual processor, its guest registers, its logged events, the time stamp hits of its
  context, and the global \<open>gVmState\<close>.  \<open>hv_mmu\<close>, \<open>hv_pm\<close> and \<open>hv_mailbox\<close> are the
  states of the page mapper, the process monitor and \<open>gSecureMailbox\<close>.
\<close>

record hv_state = host_cpu +
  hv_regs :: gp_registers
  hv_vm :: vmx_state
  hv_vcpu :: hvm_vcpu
  hv_events :: hvm_logged_events
  hv_tsc :: "tsc_entry list"
  hv_xcr0 :: u64
  hv_mmu :: mmu_state
  hv_pm :: pm_state
  hv_mailbox :: mailbox
  hv_ops :: "hw_op list"

text \<open>
  What the handlers ask of the rest of the world: how messages are formatted, what was on the
  stack, the identifiers of the current process and thread, physical memory, the kernel's
  address translation, the number of the processor, the input ports, the decoder (the
  instruction at a place of a buffer, \<open>None\<close> at its end), the layout of a notification in
  memory, and the bytes of its code buffer that are not assigned.
\<close>

record hv_env =
  he_vprintf :: "string \<Rightarrow> u64 list \<Rightarrow> ntstatus \<times> u8 list"
  he_cblength :: "u8 list \<Rightarrow> ntstatus \<times> u64"
  he_record :: mailbox_record
  he_stack :: u32
  he_pid :: u64
  he_tid :: u64
  he_thread :: thread
  he_phys :: "u64 \<Rightarrow> u64"
  he_os_pa :: "u64 \<Rightarrow> u64"
  he_cpu :: nat
  he_in :: "nat \<Rightarrow> u16 \<Rightarrow> u32"
  he_disasm :: "u8 list \<Rightarrow> nat \<Rightarrow> ud_insn option"
  he_layout :: "ds_notification \<Rightarrow> u8 list"
  he_code :: "u8 list"

definition post_trace :: "hv_env \<Rightarrow> u32 \<Rightarrow> u32 \<Rightarrow> string \<Rightarrow> u64 list \<Rightarrow> hv_state \<Rightarrow> hv_state" where
  "post_trace e Level Area Message Args s =
     s\<lparr>hv_mailbox := snd (RtlPostMailboxTrace (\<lambda>m. he_vprintf e m Args) (he_cblength e) (he_record e)
         (hv_mailbox s) Level Area (Some Message))\<rparr>"

definition do_op :: "hw_op \<Rightarrow> hv_state \<Rightarrow> hv_state" where
  "do_op x s = s\<lparr>hv_ops := hv_ops s @ [x]\<rparr>"

definition set_reg :: "nat \<Rightarrow> u64 \<Rightarrow> hv_state \<Rightarrow> hv_state" where
  "set_reg n v s = s\<lparr>hv_regs := set_gr n v (hv_regs s)\<rparr>"

definition reg :: "hv_state \<Rightarrow> nat \<Rightarrow> u64" where "reg s n = gr (hv_regs s) n"

text \<open>A processor set up as the driver leaves it, with a guest that has not touched the fourth control register.\<close>

definition example_vmcs :: "u32 \<Rightarrow> u64 option" where
  "example_vmcs = (\<lambda>_. Some 0)(GUEST_CR4 \<mapsto> 0x26FC, CR4_GUEST_HOST_MASK \<mapsto> 0x2004, CR4_READ_SHADOW \<mapsto> 0,
     GUEST_RIP \<mapsto> 0x1000, EXIT_INSTRUCTION_LENGTH \<mapsto> 3, GUEST_RFLAGS \<mapsto> 2)"

definition example_hv :: hv_state where
  "example_hv = \<lparr>cpu_vmcs = example_vmcs, cpu_msr = example_fixed_msr, cpu_id = (\<lambda>_ _. (0, 0, 0xC000000, 0)),
     cpu_cr0 = 0x80050033, cpu_cr3 = 0x1AD000, cpu_cr4 = 0x426F8, cpu_dr7 = 0x400,
     hc_sel = (\<lambda>_. 0x10), hc_gdt = (\<lambda>_. 0x00209B0000000000), hc_lsl = (\<lambda>_. 0xFFFFF),
     hc_gdtr = \<lparr>dt_Limit = 0x57, dt_Base = 0xFFFFF80000001000\<rparr>, hc_idtr = \<lparr>dt_Limit = 0xFFF, dt_Base = 0xFFFFF80000002000\<rparr>,
     hv_regs = \<lparr>gr = (\<lambda>_. 0), gr_Rip = 0x1000, gr_Rflags = 2\<rparr>, hv_vm = VmInitializeVmState example_fixed_msr,
     hv_vcpu = zero_vcpu\<lparr>vc_Launched := True\<rparr>, hv_events = \<lparr>le_Count = 0, le_Queue = []\<rparr>, hv_tsc = replicate MAX_TSC_HITS zero_tsc_entry,
     hv_xcr0 = 1, hv_mmu = example_slots, hv_pm = mon_example, hv_mailbox = mailbox_example, hv_ops = []\<rparr>"

definition example_hv_env :: hv_env where
  "example_hv_env = \<lparr>he_vprintf = (\<lambda>_ _. (STATUS_SUCCESS, replicate MAILBOX_BUFFER_SIZE 0)), he_cblength = (\<lambda>_. (STATUS_SUCCESS, 0)),
     he_record = record_example, he_stack = 0, he_pid = 8, he_tid = 12, he_thread = 3, he_phys = example_phys,
     he_os_pa = (\<lambda>a. a), he_cpu = 0, he_in = (\<lambda>_ _. 0),
     he_disasm = (\<lambda>_ _. None), he_layout = (\<lambda>_. replicate 384 0), he_code = replicate 255 0\<rparr>"

lemma example_hv_sel [simp]:
  "supported example_hv f" "reg example_hv n = 0" "cpu_msr example_hv = example_fixed_msr"
  "hv_vm example_hv = VmInitializeVmState example_fixed_msr" "hv_pm example_hv = mon_example"
  by (simp_all add: example_hv_def example_vmcs_def supported_def reg_def)

lemma example_hv_reads [simp]:
  "VmReadN example_hv GUEST_CR4 = 0x26FC" "VmReadN example_hv CR4_GUEST_HOST_MASK = 0x2004"
  "VmReadN example_hv CR4_READ_SHADOW = 0" "VmRead32 example_hv EXIT_INSTRUCTION_LENGTH = 3"
  by (simp_all add: example_hv_def example_vmcs_def vmx_read vmx_values VMCS_FIELD_WIDTH_def WIDTH_PLATFORM_def WIDTH_32_def)

lemma example_fixed_sel:
  "fixed_pair (example_fixed_msr IA32_VMX_CR4_FIXED0) (example_fixed_msr IA32_VMX_CR4_FIXED1)"
  "bit (example_fixed_msr IA32_VMX_CR4_FIXED1) 2" "\<not> bit (example_fixed_msr IA32_VMX_CR4_FIXED1) 30"
  by (simp_all add: example_fixed_msr_def fixed_pair_def IA32_VMX_CR4_FIXED0_def IA32_VMX_CR4_FIXED1_def)

section \<open>Reads of an updated state\<close>

lemma set_reg_sel [simp]:
  "reg (set_reg n v s) m = (if m = n then v else reg s m)" "gr_Rip (hv_regs (set_reg n v s)) = gr_Rip (hv_regs s)"
  "gr_Rflags (hv_regs (set_reg n v s)) = gr_Rflags (hv_regs s)" "cpu_vmcs (set_reg n v s) = cpu_vmcs s"
  "cpu_msr (set_reg n v s) = cpu_msr s" "cpu_id (set_reg n v s) = cpu_id s" "cpu_cr4 (set_reg n v s) = cpu_cr4 s"
  "cpu_cr3 (set_reg n v s) = cpu_cr3 s"
  "hv_vm (set_reg n v s) = hv_vm s" "hv_tsc (set_reg n v s) = hv_tsc s" "hv_mmu (set_reg n v s) = hv_mmu s"
  "hv_pm (set_reg n v s) = hv_pm s" "hv_mailbox (set_reg n v s) = hv_mailbox s" "hv_ops (set_reg n v s) = hv_ops s"
  "hv_xcr0 (set_reg n v s) = hv_xcr0 s" "hv_events (set_reg n v s) = hv_events s" "hv_vcpu (set_reg n v s) = hv_vcpu s"
  by (simp_all add: set_reg_def reg_def)

lemma write_hv [simp]:
  fixes s :: hv_state
  shows "hv_regs (writeN f q s) = hv_regs s" "hv_regs (write32 f d s) = hv_regs s"
    "hv_vm (writeN f q s) = hv_vm s" "hv_vm (write32 f d s) = hv_vm s"
    "hv_vcpu (writeN f q s) = hv_vcpu s" "hv_vcpu (write32 f d s) = hv_vcpu s"
    "hv_events (writeN f q s) = hv_events s" "hv_events (write32 f d s) = hv_events s"
    "hv_tsc (writeN f q s) = hv_tsc s" "hv_tsc (write32 f d s) = hv_tsc s"
    "hv_xcr0 (writeN f q s) = hv_xcr0 s" "hv_xcr0 (write32 f d s) = hv_xcr0 s"
    "hv_mmu (writeN f q s) = hv_mmu s" "hv_mmu (write32 f d s) = hv_mmu s"
    "hv_pm (writeN f q s) = hv_pm s" "hv_pm (write32 f d s) = hv_pm s"
    "hv_mailbox (writeN f q s) = hv_mailbox s" "hv_mailbox (write32 f d s) = hv_mailbox s"
    "hv_ops (writeN f q s) = hv_ops s" "hv_ops (write32 f d s) = hv_ops s"
    "reg (writeN f q s) = reg s" "reg (write32 f d s) = reg s"
  by (simp_all add: vmx_write reg_def fun_eq_iff)

lemma read_set_reg [simp]:
  "VmReadN (set_reg n v s) f = VmReadN s f" "VmRead32 (set_reg n v s) f = VmRead32 s f"
  "supported (set_reg n v s) f = supported s f"
  by (simp_all add: vmx_read supported_def)

lemma post_trace_sel [simp]:
  "cpu_vmcs (post_trace e l a m x s) = cpu_vmcs s" "cpu_msr (post_trace e l a m x s) = cpu_msr s"
  "cpu_id (post_trace e l a m x s) = cpu_id s" "cpu_cr4 (post_trace e l a m x s) = cpu_cr4 s"
  "hv_regs (post_trace e l a m x s) = hv_regs s" "hv_vm (post_trace e l a m x s) = hv_vm s"
  "hv_tsc (post_trace e l a m x s) = hv_tsc s" "hv_mmu (post_trace e l a m x s) = hv_mmu s"
  "hv_pm (post_trace e l a m x s) = hv_pm s" "hv_ops (post_trace e l a m x s) = hv_ops s"
  "hv_xcr0 (post_trace e l a m x s) = hv_xcr0 s" "reg (post_trace e l a m x s) = reg s"
  "hv_events (post_trace e l a m x s) = hv_events s"
  by (simp_all add: post_trace_def reg_def fun_eq_iff)

lemma read_post_trace [simp]:
  "VmReadN (post_trace e l a m x s) f = VmReadN s f" "VmRead32 (post_trace e l a m x s) f = VmRead32 s f"
  "supported (post_trace e l a m x s) f = supported s f"
  by (simp_all add: vmx_read supported_def)

lemma do_op_sel [simp]:
  "cpu_vmcs (do_op x s) = cpu_vmcs s" "hv_regs (do_op x s) = hv_regs s" "reg (do_op x s) = reg s"
  "hv_ops (do_op x s) = hv_ops s @ [x]" "hv_vm (do_op x s) = hv_vm s" "hv_tsc (do_op x s) = hv_tsc s"
  "VmReadN (do_op x s) f = VmReadN s f" "VmRead32 (do_op x s) f = VmRead32 s f" "supported (do_op x s) f = supported s f"
  by (simp_all add: do_op_def reg_def fun_eq_iff vmx_read supported_def)

lemma read_update [simp]:
  "VmReadN (s\<lparr>hv_regs := r\<rparr>) f = VmReadN s f" "VmRead32 (s\<lparr>hv_regs := r\<rparr>) f = VmRead32 s f"
  "supported (s\<lparr>hv_regs := r\<rparr>) f = supported s f"
  "VmReadN (s\<lparr>hv_vcpu := v\<rparr>) f = VmReadN s f" "VmRead32 (s\<lparr>hv_vcpu := v\<rparr>) f = VmRead32 s f"
  "supported (s\<lparr>hv_vcpu := v\<rparr>) f = supported s f"
  "VmReadN (s\<lparr>hv_pm := p\<rparr>) f = VmReadN s f" "VmRead32 (s\<lparr>hv_pm := p\<rparr>) f = VmRead32 s f"
  "supported (s\<lparr>hv_pm := p\<rparr>) f = supported s f"
  "VmReadN (s\<lparr>hv_tsc := t\<rparr>) f = VmReadN s f" "VmRead32 (s\<lparr>hv_tsc := t\<rparr>) f = VmRead32 s f"
  "supported (s\<lparr>hv_tsc := t\<rparr>) f = supported s f"
  "VmReadN (s\<lparr>hv_mmu := m\<rparr>) f = VmReadN s f" "VmRead32 (s\<lparr>hv_mmu := m\<rparr>) f = VmRead32 s f"
  "supported (s\<lparr>hv_mmu := m\<rparr>) f = supported s f"
  "VmReadN (s\<lparr>hv_mailbox := b\<rparr>) f = VmReadN s f" "VmRead32 (s\<lparr>hv_mailbox := b\<rparr>) f = VmRead32 s f"
  "supported (s\<lparr>hv_mailbox := b\<rparr>) f = supported s f"
  by (simp_all add: vmx_read supported_def)

end
