(* ===== verification/Instr.thy ===== *)
theory Instr
  imports Hv_State
begin

text \<open>
  Emulation of the instructions that exit (\<open>instr.c\<close>): control registers, \<open>CPUID\<close>, \<open>XSETBV\<close>,
  model-specific registers, ports, and stepping over the instruction.
\<close>

section \<open>Qualifications\<close>

text \<open>Of a control register access: number, kind of access and general register.\<close>

definition cr_Number :: "u64 \<Rightarrow> nat" where "cr_Number q = unat (take_bit 4 q)"
definition cr_AccessType :: "u64 \<Rightarrow> nat" where "cr_AccessType q = unat (take_bit 2 (drop_bit 4 q))"
definition cr_MoveGp :: "u64 \<Rightarrow> nat" where "cr_MoveGp q = unat (take_bit 4 (drop_bit 8 q))"

definition CR_ACCESS_TYPE_MOV_TO_CR :: nat where "CR_ACCESS_TYPE_MOV_TO_CR = 0"
definition CR_ACCESS_TYPE_MOV_FROM_CR :: nat where "CR_ACCESS_TYPE_MOV_FROM_CR = 1"

text \<open>Of a port access: \<open>Size\<close>, \<open>Direction\<close>, \<open>StringInstruction\<close>, \<open>Rep\<close> and \<open>PortNum\<close>.\<close>

definition io_Size :: "u64 \<Rightarrow> nat" where "io_Size q = unat (take_bit 3 q)"
definition io_Direction :: "u64 \<Rightarrow> bool" where "io_Direction q = bit q 3"
definition io_StringInstruction :: "u64 \<Rightarrow> bool" where "io_StringInstruction q = bit q 4"
definition io_Rep :: "u64 \<Rightarrow> bool" where "io_Rep q = bit q 5"
definition io_PortNum :: "u64 \<Rightarrow> u16" where "io_PortNum q = ucast (drop_bit 16 q)"

text \<open>The address of a register is its place in \<open>GP_REGISTERS\<close>.\<close>

definition LookupGpr :: "nat \<Rightarrow> nat" where "LookupGpr gpr = gpr"

section \<open>Stepping over an instruction\<close>

definition IsSingleStep :: "gp_registers \<Rightarrow> bool" where "IsSingleStep R \<longleftrightarrow> bit (gr_Rflags R) 8"

definition InjectInt1 :: "hv_state \<Rightarrow> hv_state" where
  "InjectInt1 s =
     write32 VM_ENTRY_INTERRUPTION_INFORMATION (interrupt_info VECTOR_DEBUG_EXCEPTION INTERRUPT_HARDWARE_EXCEPTION False)
       (s\<lparr>hv_regs := (hv_regs s)\<lparr>gr_Rflags := unset_bit 8 (gr_Rflags (hv_regs s))\<rparr>\<rparr>)"

definition InstrRipAdvance :: "hv_state \<Rightarrow> hv_state" where
  "InstrRipAdvance s =
     (let InstructionLength = VmRead32 s EXIT_INSTRUCTION_LENGTH;
          s = s\<lparr>hv_regs := (hv_regs s)\<lparr>gr_Rip := gr_Rip (hv_regs s) + ucast InstructionLength\<rparr>\<rparr>
      in if IsSingleStep (hv_regs s) then InjectInt1 s else s)"

section \<open>Caches and extended state\<close>

definition InstrInvdEmulate :: "hv_state \<Rightarrow> hv_state" where "InstrInvdEmulate s = do_op OpWbinvd s"

text \<open>\<open>INV_ALL_CONTEXTS\<close> is 2.\<close>

definition InstrInvVpidEmulate :: "hv_state \<Rightarrow> hv_state" where "InstrInvVpidEmulate s = do_op (OpInvVpid 2) s"

definition XFEATURE_ENABLED_X87 :: u64 where "XFEATURE_ENABLED_X87 = 0x01"
definition XFEATURE_ENABLED_SSE :: u64 where "XFEATURE_ENABLED_SSE = 0x02"
definition XFEATURE_ENABLED_AVX :: u64 where "XFEATURE_ENABLED_AVX = 0x04"
definition XFEATURE_ENABLED_BNDREGS :: u64 where "XFEATURE_ENABLED_BNDREGS = 0x08"
definition XFEATURE_ENABLED_BNDCSR :: u64 where "XFEATURE_ENABLED_BNDCSR = 0x10"
definition XFEATURE_AVX :: u64 where
  "XFEATURE_AVX = XFEATURE_ENABLED_X87 OR XFEATURE_ENABLED_SSE OR XFEATURE_ENABLED_AVX"
definition XFEATURE_AVX512 :: u64 where "XFEATURE_AVX512 = 0x20 OR 0x40 OR 0x80"

text \<open>Whether the handler refuses a value of the extended control register.\<close>

definition xcr0_refused :: "u64 \<Rightarrow> bool" where
  "xcr0_refused v \<longleftrightarrow>
     v AND XFEATURE_ENABLED_X87 \<noteq> 0 \<or>
     v AND XFEATURE_ENABLED_AVX \<noteq> 0 \<and> v AND XFEATURE_AVX \<noteq> XFEATURE_AVX \<or>
     v AND XFEATURE_AVX512 \<noteq> 0 \<and> v AND (XFEATURE_AVX512 OR XFEATURE_AVX) \<noteq> XFEATURE_AVX512 OR XFEATURE_AVX \<or>
     v AND XFEATURE_ENABLED_BNDREGS \<noteq> v AND XFEATURE_ENABLED_BNDCSR"

text \<open>\<open>None\<close> only if the vector of an injected exception lay outside its table.\<close>

definition InstrXsetbvEmulate :: "hv_state \<Rightarrow> (bool \<times> hv_state) option" where
  "InstrXsetbvEmulate s =
     (if reg s RCX \<noteq> 0 then Some (False, VmInjectGpException s 0)
      else if \<not> IsXStateEnabled s then map_option (Pair False) (VmInjectUdException s)
      else let Xcr0Value = push_bit 32 (reg s RDX) OR (reg s RAX AND 0xFFFFFFFF)
           in if xcr0_refused Xcr0Value then Some (False, VmInjectGpException s 0)
              else Some (True, s\<lparr>hv_xcr0 := Xcr0Value\<rparr>))"

section \<open>Identification and model-specific registers\<close>

text \<open>The four results are \<open>INT32\<close>, so their conversion to \<open>UINTN\<close> extends the sign.\<close>

definition InstrCpuidEmulate :: "hv_state \<Rightarrow> hv_state" where
  "InstrCpuidEmulate s =
     (case cpu_id s (ucast (reg s RAX)) (ucast (reg s RCX)) of (a, b, c, d) \<Rightarrow>
        set_reg RDX (scast d) (set_reg RCX (scast c) (set_reg RBX (scast b) (set_reg RAX (scast a) s))))"

definition InstrMsrReadEmulate :: "hv_state \<Rightarrow> hv_state" where
  "InstrMsrReadEmulate s =
     (let Value = cpu_msr s (LOW32 (reg s RCX))
      in set_reg RDX (ucast (HIGH32 Value)) (set_reg RAX (ucast (LOW32 Value)) s))"

definition InstrMsrWriteEmulate :: "hv_state \<Rightarrow> hv_state" where
  "InstrMsrWriteEmulate s =
     (let Value = push_bit 32 (ucast (LOW32 (reg s RDX))) OR ucast (LOW32 (reg s RAX))
      in s\<lparr>cpu_msr := (cpu_msr s)(LOW32 (reg s RCX) := Value)\<rparr>)"

section \<open>Control registers\<close>

definition InstrCr4Emulate :: "u64 \<Rightarrow> hv_state \<Rightarrow> hv_state" where
  "InstrCr4Emulate Qualification s =
     (let Gp = LookupGpr (cr_MoveGp Qualification);
          AccessType = cr_AccessType Qualification
      in if AccessType = CR_ACCESS_TYPE_MOV_TO_CR
         then let OperandTsd = reg s Gp AND CR4_TSD;
                  s = s\<lparr>hv_vcpu := (hv_vcpu s)\<lparr>vc_HostState := (vc_HostState (hv_vcpu s))\<lparr>hs_Cr4 := reg s Gp\<rparr>\<rparr>\<rparr>;
                  Cr4 = VmMakeCompliantCr4 (hv_vm s) (VmGetGuestVisibleCr4 s (reg s Gp));
                  QuantumTsd = VmReadN s GUEST_CR4 AND CR4_TSD;
                  s = writeN GUEST_CR4 (Cr4 OR QuantumTsd) s;
                  s = (if bit Cr4 18
                       then if IsXStateSupported s then writeN HOST_CR4 (cpu_cr4 s OR CR4_OSXSAVE) s else s
                       else writeN HOST_CR4 (cpu_cr4 s AND NOT CR4_OSXSAVE) s)
              in writeN CR4_READ_SHADOW ((VmReadN s CR4_READ_SHADOW AND NOT CR4_TSD) OR OperandTsd) s
         else if AccessType = CR_ACCESS_TYPE_MOV_FROM_CR then set_reg Gp (VmReadN s GUEST_CR4) s
         else s)"

definition InstrCr3Emulate :: "u64 \<Rightarrow> hv_state \<Rightarrow> hv_state" where
  "InstrCr3Emulate Qualification s =
     (let AccessType = cr_AccessType Qualification;
          Gp = LookupGpr (cr_MoveGp Qualification)
      in if AccessType = CR_ACCESS_TYPE_MOV_TO_CR then writeN GUEST_CR3 (reg s Gp) s
         else if AccessType = CR_ACCESS_TYPE_MOV_FROM_CR then set_reg Gp (VmReadN s GUEST_CR3) s
         else s)"

section \<open>Ports\<close>

text \<open>
  The sizes the code tests for are numbers of bytes.  A string instruction moves as many units
  as \<open>RCX\<close> says when it is repeated, else one.
\<close>

definition InstrIoEmulate :: "hv_env \<Rightarrow> u64 \<Rightarrow> hv_state \<Rightarrow> hv_state" where
  "InstrIoEmulate e Io s =
     (let Size = io_Size Io; Port = io_PortNum Io;
          Count = (if io_Rep Io then ucast (reg s RCX) else 1)
      in if Size \<noteq> 1 \<and> Size \<noteq> 2 \<and> Size \<noteq> 4 then s
         else if io_Direction Io
         then if io_StringInstruction Io then do_op (OpInString Size Port (reg s RDI) Count) s
              else set_reg RAX ((reg s RAX AND NOT (mask (8 * Size))) OR take_bit (8 * Size) (ucast (he_in e Size Port))) s
         else if io_StringInstruction Io then do_op (OpOutString Size Port (reg s RSI) Count) s
         else do_op (OpOut Size Port (take_bit (8 * Size) (ucast (reg s RAX)))) s)"

section \<open>Stepping is correct\<close>

lemma rip_advance_sel [simp]:
  "gr_Rip (hv_regs (InstrRipAdvance s)) = gr_Rip (hv_regs s) + ucast (VmRead32 s EXIT_INSTRUCTION_LENGTH)"
  "reg (InstrRipAdvance s) = reg s" "cpu_msr (InstrRipAdvance s) = cpu_msr s" "hv_vm (InstrRipAdvance s) = hv_vm s"
  "hv_tsc (InstrRipAdvance s) = hv_tsc s" "hv_mmu (InstrRipAdvance s) = hv_mmu s" "hv_ops (InstrRipAdvance s) = hv_ops s"
  "hv_events (InstrRipAdvance s) = hv_events s" "hv_pm (InstrRipAdvance s) = hv_pm s" "hv_mailbox (InstrRipAdvance s) = hv_mailbox s"
  "VmReadN (InstrRipAdvance s) f = VmReadN s f" "supported (InstrRipAdvance s) f = supported s f"
  by (simp_all add: InstrRipAdvance_def InjectInt1_def Let_def reg_def fun_eq_iff)

lemma rip_advance_flags:
  "gr_Rflags (hv_regs (InstrRipAdvance s)) = unset_bit 8 (gr_Rflags (hv_regs s))"
proof (cases "bit (gr_Rflags (hv_regs s)) 8")
  case True
  then show ?thesis by (simp add: InstrRipAdvance_def InjectInt1_def IsSingleStep_def Let_def)
next
  case False
  then have "unset_bit 8 (gr_Rflags (hv_regs s)) = gr_Rflags (hv_regs s)"
    by (intro bit_word_eqI) (auto simp: bit_simps)
  with False show ?thesis by (simp add: InstrRipAdvance_def IsSingleStep_def Let_def)
qed

lemma rip_advance_event:
  assumes "supported s VM_ENTRY_INTERRUPTION_INFORMATION"
  shows "VmRead32 (InstrRipAdvance s) f =
    (if bit (gr_Rflags (hv_regs s)) 8 \<and> f = VM_ENTRY_INTERRUPTION_INFORMATION then 0x80000301 else VmRead32 s f)"
  using assms
  by (simp add: InstrRipAdvance_def InjectInt1_def IsSingleStep_def Let_def interrupt_info_def
      VECTOR_DEBUG_EXCEPTION_def INTERRUPT_HARDWARE_EXCEPTION_def)

text \<open>
  Stepping over an instruction moves the instruction pointer by its length; a guest that
  single-steps gets a debug exception queued, valid and without an error code, and its trap
  flag cleared, and nothing else of the control structure changes.\<close>
theorem rip_advance_correct:
  assumes "supported s VM_ENTRY_INTERRUPTION_INFORMATION"
  shows "gr_Rip (hv_regs (InstrRipAdvance s)) = gr_Rip (hv_regs s) + ucast (VmRead32 s EXIT_INSTRUCTION_LENGTH) \<and>
    (\<forall>i. bit (gr_Rflags (hv_regs (InstrRipAdvance s))) i \<longleftrightarrow> i \<noteq> 8 \<and> bit (gr_Rflags (hv_regs s)) i) \<and>
    (let i = VmRead32 (InstrRipAdvance s) VM_ENTRY_INTERRUPTION_INFORMATION
     in if bit (gr_Rflags (hv_regs s)) 8
        then info_valid i \<and> \<not> info_error_code i \<and> info_type i = INTERRUPT_HARDWARE_EXCEPTION \<and> info_vector i = VECTOR_DEBUG_EXCEPTION
        else i = VmRead32 s VM_ENTRY_INTERRUPTION_INFORMATION) \<and>
    (\<forall>f. f \<noteq> VM_ENTRY_INTERRUPTION_INFORMATION \<longrightarrow> VmRead32 (InstrRipAdvance s) f = VmRead32 s f) \<and>
    (\<forall>f. VmReadN (InstrRipAdvance s) f = VmReadN s f)"
  using assms
  by (auto simp: rip_advance_event rip_advance_flags Let_def bit_simps info_valid_def info_error_code_def info_type_def
      info_vector_def INTERRUPT_HARDWARE_EXCEPTION_def VECTOR_DEBUG_EXCEPTION_def dest: bit_imp_le_length)

theorem rip_advance_correct_witness:
  "gr_Rip (hv_regs (InstrRipAdvance example_hv)) = 0x1003"
  using rip_advance_correct [of example_hv] by (simp add: example_hv_def [THEN arg_cong [where f = hv_regs]])

section \<open>The fourth control register\<close>

lemma host_cr4_differs [simp]: "HOST_CR4 \<noteq> GUEST_CR4" "HOST_CR4 \<noteq> CR4_READ_SHADOW" "HOST_CR4 \<noteq> CR4_GUEST_HOST_MASK"
  "GUEST_CR4 \<noteq> HOST_CR4" "CR4_READ_SHADOW \<noteq> HOST_CR4" "CR4_GUEST_HOST_MASK \<noteq> HOST_CR4"
  by (simp_all add: vmx_values)

lemma cr4_emulate_reads:
  assumes "\<forall>f. supported s f" "cr_AccessType q = CR_ACCESS_TYPE_MOV_TO_CR"
  shows "VmReadN (InstrCr4Emulate q s) GUEST_CR4 =
      VmMakeCompliantCr4 (hv_vm s) (VmGetGuestVisibleCr4 s (reg s (LookupGpr (cr_MoveGp q)))) OR
      (VmReadN s GUEST_CR4 AND CR4_TSD)"
    "VmReadN (InstrCr4Emulate q s) CR4_READ_SHADOW =
      (VmReadN s CR4_READ_SHADOW AND NOT CR4_TSD) OR (reg s (LookupGpr (cr_MoveGp q)) AND CR4_TSD)"
    "VmReadN (InstrCr4Emulate q s) CR4_GUEST_HOST_MASK = VmReadN s CR4_GUEST_HOST_MASK"
  using assms by (simp_all add: InstrCr4Emulate_def Let_def VmGetGuestVisibleCr4_def reg_def)

text \<open>
  C3: A guest's write to the fourth control register leaves a value the processor accepts,
  never lets the guest drop the interception of time stamps, and gives the guest back what it
  wrote: the time stamp bit as written, the virtualisation bit as before, every other bit as
  written unless the processor fixes it.\<close>
theorem cr4_write_emulated:
  assumes "\<forall>f. supported s f" "hv_vm s = VmInitializeVmState (cpu_msr s)"
    "fixed_pair (cpu_msr s IA32_VMX_CR4_FIXED0) (cpu_msr s IA32_VMX_CR4_FIXED1)" "bit (cpu_msr s IA32_VMX_CR4_FIXED1) 2"
    "VmReadN s CR4_GUEST_HOST_MASK = CR4_VMXE OR CR4_TSD" "cr_AccessType q = CR_ACCESS_TYPE_MOV_TO_CR"
  shows "let s' = InstrCr4Emulate q s; v = reg s (LookupGpr (cr_MoveGp q));
             m0 = cpu_msr s IA32_VMX_CR4_FIXED0; m1 = cpu_msr s IA32_VMX_CR4_FIXED1
    in conforms m0 m1 (VmReadN s' GUEST_CR4) \<and>
       (bit (VmReadN s GUEST_CR4) 2 \<longrightarrow> bit (VmReadN s' GUEST_CR4) 2) \<and>
       (\<forall>i. bit (VmGetGuestVisibleCr4 s' (VmReadN s' GUEST_CR4)) i \<longleftrightarrow>
         (if i = 2 then bit v 2 else if i = 13 then bit (VmReadN s CR4_READ_SHADOW) 13
          else bit m0 i \<or> bit m1 i \<and> bit v i))"
proof -
  let ?v = "reg s (LookupGpr (cr_MoveGp q))" and ?sh = "VmReadN s CR4_READ_SHADOW"
  let ?m0 = "cpu_msr s IA32_VMX_CR4_FIXED0" and ?m1 = "cpu_msr s IA32_VMX_CR4_FIXED1"
  let ?c = "VmMakeCompliantCr4 (hv_vm s) (VmGetGuestVisibleCr4 s ?v)"
  have vis: "bit (VmGetGuestVisibleCr4 s ?v) i \<longleftrightarrow> (if i = 2 \<or> i = 13 then bit ?sh i else bit ?v i)" for i
    using assms(5) by (auto simp: VmGetGuestVisibleCr4_def Let_def bit_simps bit_CR4_TSD bit_CR4_VMXE dest: bit_imp_le_length)
  have c: "bit ?c i \<longleftrightarrow> bit ?m0 i \<or> bit ?m1 i \<and> (if i = 2 \<or> i = 13 then bit ?sh i else bit ?v i)" for i
    using compliant_cr4_bits [OF assms(3), of "VmGetGuestVisibleCr4 s ?v" i] assms(2) vis by simp
  note r = cr4_emulate_reads [OF assms(1) assms(6)]
  have m: "bit ?m0 i \<longrightarrow> bit ?m1 i" for i using assms(3) by (simp add: fixed_pair_def and_not_zero_iff)
  have g: "bit (VmReadN (InstrCr4Emulate q s) GUEST_CR4) i \<longleftrightarrow> bit ?c i \<or> i = 2 \<and> bit (VmReadN s GUEST_CR4) i" for i
    unfolding r by (auto simp: bit_simps bit_CR4_TSD)
  have "conforms ?m0 ?m1 (VmReadN (InstrCr4Emulate q s) GUEST_CR4)"
    unfolding conforms_def and_not_zero_iff g using c m assms(4) by auto
  moreover have "bit (VmGetGuestVisibleCr4 (InstrCr4Emulate q s) (VmReadN (InstrCr4Emulate q s) GUEST_CR4)) i \<longleftrightarrow>
      (if i = 2 then bit ?v 2 else if i = 13 then bit ?sh 13 else bit ?m0 i \<or> bit ?m1 i \<and> bit ?v i)" for i
    unfolding VmGetGuestVisibleCr4_def Let_def r(2,3) assms(5)
    by (auto simp: bit_simps bit_CR4_TSD bit_CR4_VMXE g c dest: bit_imp_le_length)
  ultimately show ?thesis using g [of 2] by (simp add: Let_def)
qed

theorem cr4_write_emulated_witness:
  "bit (VmReadN (InstrCr4Emulate 0x104 (set_reg RCX 0x6FC example_hv)) GUEST_CR4) 2 \<and>
   \<not> bit (VmReadN (InstrCr4Emulate 0x104 (set_reg RCX 0x6F8 example_hv)) GUEST_CR4) 30"
proof -
  let ?s = "\<lambda>v. set_reg RCX v example_hv"
  have h: "\<forall>f. supported (?s v) f" "hv_vm (?s v) = VmInitializeVmState (cpu_msr (?s v))"
    "fixed_pair (cpu_msr (?s v) IA32_VMX_CR4_FIXED0) (cpu_msr (?s v) IA32_VMX_CR4_FIXED1)"
    "bit (cpu_msr (?s v) IA32_VMX_CR4_FIXED1) 2" "VmReadN (?s v) CR4_GUEST_HOST_MASK = CR4_VMXE OR CR4_TSD"
    "bit (VmReadN (?s v) GUEST_CR4) 2" "\<not> bit (cpu_msr (?s v) IA32_VMX_CR4_FIXED1) 30" for v
    by (simp_all add: example_fixed_sel CR4_VMXE_def CR4_TSD_def)
  have a: "cr_AccessType 0x104 = CR_ACCESS_TYPE_MOV_TO_CR"
    by (simp add: cr_AccessType_def CR_ACCESS_TYPE_MOV_TO_CR_def take_bit_eq_mask mask_eq_exp_minus_1)
  from cr4_write_emulated [OF h(1-5) a, of "0x6FC"] cr4_write_emulated [OF h(1-5) a, of "0x6F8"]
    h(6) [of "0x6FC"] h(7) [of "0x6F8"]
  show ?thesis unfolding Let_def conforms_def and_not_zero_iff by blast
qed

section \<open>Extended control register\<close>

lemma xcr0_x87: "xcr0_refused v" if "bit v 0"
proof -
  have "bit (v AND XFEATURE_ENABLED_X87) 0" using that by (simp add: XFEATURE_ENABLED_X87_def bit_simps)
  then have "v AND XFEATURE_ENABLED_X87 \<noteq> 0" by (metis bit_0_eq bot_apply bot_bool_def)
  then show ?thesis by (simp add: xcr0_refused_def)
qed

text \<open>
  The processor requires the x87 bit of the register to be set.\<close>

definition xcr0_valid :: "u64 \<Rightarrow> bool" where "xcr0_valid v \<longleftrightarrow> bit v 0"

text \<open>
  \<open>InstrXsetbvEmulate\<close> answers every value the processor would accept with a general
  protection fault and never lets the extended control register change to it.\<close>
theorem xsetbv_refuses_valid:
  assumes "reg s RCX = 0" "IsXStateEnabled s" "xcr0_valid (push_bit 32 (reg s RDX) OR (reg s RAX AND 0xFFFFFFFF))"
  shows "InstrXsetbvEmulate s = Some (False, VmInjectGpException s 0)"
  using assms xcr0_x87 by (simp add: InstrXsetbvEmulate_def Let_def xcr0_valid_def)

theorem xsetbv_refuses_valid_witness:
  "InstrXsetbvEmulate (set_reg RAX 7 (writeN GUEST_CR4 0x426FC example_hv)) =
   Some (False, VmInjectGpException (set_reg RAX 7 (writeN GUEST_CR4 0x426FC example_hv)) 0)"
proof (rule xsetbv_refuses_valid)
  show "IsXStateEnabled (set_reg RAX 7 (writeN GUEST_CR4 0x426FC example_hv))"
    by (simp add: IsXStateEnabled_def CR4_OSXSAVE_def)
  show "xcr0_valid (push_bit 32 (reg (set_reg RAX 7 (writeN GUEST_CR4 0x426FC example_hv)) RDX) OR
      (reg (set_reg RAX 7 (writeN GUEST_CR4 0x426FC example_hv)) RAX AND 0xFFFFFFFF))"
    by (simp add: xcr0_valid_def bit_simps)
qed simp

section \<open>Identification\<close>

text \<open>
  A result with bit 31 set reaches the guest with the upper half of the register all ones,
  where the processor clears it.\<close>

lemma cpuid_extends_sign:
  assumes "cpu_id s (ucast (reg s RAX)) (ucast (reg s RCX)) = (a, b, c, d)" "bit a 31"
  shows "reg (InstrCpuidEmulate s) RAX = 0xFFFFFFFF00000000 OR ucast a"
proof -
  have m: "(0xFFFFFFFF00000000 :: u64) = NOT (mask 32)" by (simp add: mask_eq_exp_minus_1)
  have "scast a = (0xFFFFFFFF00000000 :: u64) OR ucast a" unfolding m
  proof (rule bit_word_eqI)
    fix n assume "n < LENGTH(64)"
    moreover have "n < 31 \<or> n = 31 \<or> 32 \<le> n" by arith
    ultimately show "bit (scast a :: u64) n = bit (NOT (mask 32) OR ucast a :: u64) n"
      using assms(2) by (auto simp: bit_simps bit_signed_iff min_def dest: bit_imp_le_length)
  qed
  then show ?thesis using assms(1) by (simp add: InstrCpuidEmulate_def)
qed

end
