(* ===== verification/Hvm_Root.thy ===== *)
theory Hvm_Root
  imports Instr
begin

text \<open>
  The exits every virtual processor handles alike (\<open>hvm_root.c\<close>): the quantum of time stamp
  interception, the base of the FS segment, and the virtualisation instructions.
\<close>

section \<open>Exit reasons\<close>

definition EXIT_REASON_SOFTWARE_INTERRUPT_EXCEPTION_NMI :: u32 where "EXIT_REASON_SOFTWARE_INTERRUPT_EXCEPTION_NMI = 0"
definition EXIT_REASON_TRIPLE_FAULT :: u32 where "EXIT_REASON_TRIPLE_FAULT = 2"
definition EXIT_REASON_INIT :: u32 where "EXIT_REASON_INIT = 3"
definition EXIT_REASON_SIPI :: u32 where "EXIT_REASON_SIPI = 4"
definition EXIT_REASON_CPUID :: u32 where "EXIT_REASON_CPUID = 10"
definition EXIT_REASON_INVD :: u32 where "EXIT_REASON_INVD = 13"
definition EXIT_REASON_VMCALL :: u32 where "EXIT_REASON_VMCALL = 18"
definition EXIT_REASON_VMCLEAR :: u32 where "EXIT_REASON_VMCLEAR = 19"
definition EXIT_REASON_VMLAUNCH :: u32 where "EXIT_REASON_VMLAUNCH = 20"
definition EXIT_REASON_VMPTRLD :: u32 where "EXIT_REASON_VMPTRLD = 21"
definition EXIT_REASON_VMPTRST :: u32 where "EXIT_REASON_VMPTRST = 22"
definition EXIT_REASON_VMREAD :: u32 where "EXIT_REASON_VMREAD = 23"
definition EXIT_REASON_VMRESUME :: u32 where "EXIT_REASON_VMRESUME = 24"
definition EXIT_REASON_VMWRITE :: u32 where "EXIT_REASON_VMWRITE = 25"
definition EXIT_REASON_VMXOFF :: u32 where "EXIT_REASON_VMXOFF = 26"
definition EXIT_REASON_VMXON :: u32 where "EXIT_REASON_VMXON = 27"
definition EXIT_REASON_CR_ACCESS :: u32 where "EXIT_REASON_CR_ACCESS = 28"
definition EXIT_REASON_MSR_READ :: u32 where "EXIT_REASON_MSR_READ = 31"
definition EXIT_REASON_MSR_WRITE :: u32 where "EXIT_REASON_MSR_WRITE = 32"
definition EXIT_REASON_INVEPT :: u32 where "EXIT_REASON_INVEPT = 50"
definition EXIT_REASON_INVVPID :: u32 where "EXIT_REASON_INVVPID = 53"
definition EXIT_REASON_XSETBV :: u32 where "EXIT_REASON_XSETBV = 55"

lemmas exit_reasons = EXIT_REASON_SOFTWARE_INTERRUPT_EXCEPTION_NMI_def EXIT_REASON_TRIPLE_FAULT_def EXIT_REASON_INIT_def
  EXIT_REASON_SIPI_def EXIT_REASON_CPUID_def EXIT_REASON_INVD_def EXIT_REASON_VMCALL_def EXIT_REASON_VMCLEAR_def
  EXIT_REASON_VMLAUNCH_def EXIT_REASON_VMPTRLD_def EXIT_REASON_VMPTRST_def EXIT_REASON_VMREAD_def EXIT_REASON_VMRESUME_def
  EXIT_REASON_VMWRITE_def EXIT_REASON_VMXOFF_def EXIT_REASON_VMXON_def EXIT_REASON_CR_ACCESS_def EXIT_REASON_MSR_READ_def
  EXIT_REASON_MSR_WRITE_def EXIT_REASON_INVEPT_def EXIT_REASON_INVVPID_def EXIT_REASON_XSETBV_def

text \<open>The levels of a trace are those of the Windows headers; \<open>Area\<close> names the part of the driver.\<close>

definition TRACE_LEVEL_WARNING :: u32 where "TRACE_LEVEL_WARNING = 3"
definition TRACE_LEVEL_INFORMATION :: u32 where "TRACE_LEVEL_INFORMATION = 4"
definition TRACE_LEVEL_VERBOSE :: u32 where "TRACE_LEVEL_VERBOSE = 5"

definition TRACE_IOA_ROOT :: u32 where "TRACE_IOA_ROOT = 0x80"
definition TRACE_MSR_ROOT :: u32 where "TRACE_MSR_ROOT = 0x200"

section \<open>The quantum\<close>

definition HvmTrimTsdForQuantum :: "hv_env \<Rightarrow> bool \<Rightarrow> hv_state \<Rightarrow> hv_state" where
  "HvmTrimTsdForQuantum e EnableTsd s =
     (let Cr4 = VmReadN s GUEST_CR4;
          ExpiredTsd = Cr4 AND CR4_TSD
      in if EnableTsd \<and> ExpiredTsd \<noteq> 0 \<or> \<not> EnableTsd \<and> ExpiredTsd = 0 then s
         else let Cr4 = VmMakeCompliantCr4 (hv_vm s) Cr4;
                  Cr4 = Cr4 XOR CR4_TSD;
                  s = post_trace e TRACE_LEVEL_INFORMATION TRACE_MSR_ROOT (''New CR4 set (Cid = %4d.%4d, Cr4 = 0x%I64X)'' @ [CHR 0x0A]) [he_pid e, he_tid e, Cr4] s
              in writeN GUEST_CR4 Cr4 s)"

definition DsGetRequestorTrustLevel :: u32 where "DsGetRequestorTrustLevel = TRUST_LEVEL_MASSIVE"

section \<open>The base of the FS segment\<close>

definition HvmMsrHandlerRegistered :: "hv_state \<Rightarrow> bool" where
  "HvmMsrHandlerRegistered s \<longleftrightarrow> LOW32 (reg s RCX) = IA32_FS_BASE"

definition HvmHandleMsrReadFsBase :: "hv_state \<Rightarrow> hv_state" where
  "HvmHandleMsrReadFsBase s =
     (let Value = VmReadN s GUEST_FS_BASE
      in set_reg RDX (ucast (HIGH32 Value)) (set_reg RAX (ucast (LOW32 Value)) s))"

text \<open>\<open>None\<close> when the search of the exclusion list does not end, which \<open>is_thread_excluded\<close> rules out.\<close>

definition HvmHandleMsrWriteFsBase :: "hv_env \<Rightarrow> hv_state \<Rightarrow> hv_state option" where
  "HvmHandleMsrWriteFsBase e s =
     (let Value = push_bit 32 (ucast (LOW32 (reg s RDX))) OR ucast (LOW32 (reg s RAX));
          s = writeN GUEST_FS_BASE Value s;
          s = post_trace e TRACE_LEVEL_VERBOSE TRACE_MSR_ROOT (''Writing MSR_FS_BASE (Cid = %4d.%4d, Teb = 0x%I64X)'' @ [CHR 0x0A]) [he_pid e, he_tid e, Value] s
      in case PmGetClientTrustLevel (hv_pm s) (he_pid e) (he_thread e) of
           None \<Rightarrow> None
         | Some (level, pm) \<Rightarrow>
             Some (HvmTrimTsdForQuantum e (\<not> FlagOn level TRUST_LEVEL_EXEMPTED) (s\<lparr>hv_pm := pm\<rparr>)))"

section \<open>The common handler\<close>

definition vmx_instruction_exits :: "u32 list" where
  "vmx_instruction_exits = [EXIT_REASON_VMXON, EXIT_REASON_VMXOFF, EXIT_REASON_VMCLEAR, EXIT_REASON_VMRESUME,
     EXIT_REASON_VMLAUNCH, EXIT_REASON_VMPTRLD, EXIT_REASON_VMPTRST, EXIT_REASON_VMREAD, EXIT_REASON_VMWRITE,
     EXIT_REASON_INVEPT, EXIT_REASON_INVVPID]"

text \<open>The resume flag is bit 16.\<close>

definition HvmVcpuCommonExitsHandler :: "hv_env \<Rightarrow> u32 \<Rightarrow> hv_state \<Rightarrow> (bool \<times> hv_state) option" where
  "HvmVcpuCommonExitsHandler e ExitReason s =
     (if ExitReason = EXIT_REASON_INVD then Some (True, InstrRipAdvance (InstrInvdEmulate s))
      else if ExitReason = EXIT_REASON_XSETBV
      then map_option (\<lambda>(ok, s). (True, if ok then InstrRipAdvance s else s)) (InstrXsetbvEmulate s)
      else if ExitReason \<in> set vmx_instruction_exits
      then map_option (\<lambda>s.
             let flags = set_bit 16 (gr_Rflags (hv_regs s));
                 s = s\<lparr>hv_regs := (hv_regs s)\<lparr>gr_Rflags := flags\<rparr>\<rparr>
             in (True, writeN GUEST_RFLAGS flags s)) (VmInjectUdException s)
      else if ExitReason = EXIT_REASON_MSR_READ
      then Some (True, InstrRipAdvance
             (if HvmMsrHandlerRegistered s then HvmHandleMsrReadFsBase s else InstrMsrReadEmulate s))
      else if ExitReason = EXIT_REASON_MSR_WRITE
      then map_option (\<lambda>s. (True, InstrRipAdvance s))
             (if HvmMsrHandlerRegistered s then HvmHandleMsrWriteFsBase e s else Some (InstrMsrWriteEmulate s))
      else Some (False, s))"

section \<open>Interception follows trust\<close>

lemma massive_exempted: "FlagOn TRUST_LEVEL_MASSIVE TRUST_LEVEL_EXEMPTED" "\<not> FlagOn TRUST_LEVEL_NONE TRUST_LEVEL_EXEMPTED"
  by (simp_all add: FlagOn_def TRUST_LEVEL_MASSIVE_def TRUST_LEVEL_EXEMPTED_def TRUST_LEVEL_NONE_def TRUST_LEVEL_FORCEFUL_def)

lemma cr4_tsd_bit: "x AND CR4_TSD = 0 \<longleftrightarrow> \<not> bit x 2"
proof -
  have "x AND CR4_TSD = (if bit x 2 then CR4_TSD else 0)"
    by (rule bit_word_eqI) (auto simp: bit_simps bit_CR4_TSD)
  then show ?thesis by (simp add: CR4_TSD_def)
qed

lemma trim_tsd:
  assumes "supported s GUEST_CR4" "hv_vm s = VmInitializeVmState (cpu_msr s)"
    "fixed_pair (cpu_msr s IA32_VMX_CR4_FIXED0) (cpu_msr s IA32_VMX_CR4_FIXED1)"
    "conforms (cpu_msr s IA32_VMX_CR4_FIXED0) (cpu_msr s IA32_VMX_CR4_FIXED1) (VmReadN s GUEST_CR4)"
  shows "VmReadN (HvmTrimTsdForQuantum e EnableTsd s) GUEST_CR4 =
    (if EnableTsd then VmReadN s GUEST_CR4 OR CR4_TSD else VmReadN s GUEST_CR4 AND NOT CR4_TSD)"
proof -
  have c: "VmMakeCompliantCr4 (hv_vm s) (VmReadN s GUEST_CR4) = VmReadN s GUEST_CR4"
    using compliant_id [OF assms(3,4)] by (simp add: assms(2) compliant_cr4_eq)
  have x: "(if EnableTsd \<and> bit x 2 \<or> \<not> EnableTsd \<and> \<not> bit x 2 then x else x XOR CR4_TSD) =
      (if EnableTsd then x OR CR4_TSD else x AND NOT CR4_TSD)" for x
    by (rule bit_word_eqI) (auto simp: bit_simps bit_CR4_TSD)
  show ?thesis using assms(1) x [of "VmReadN s GUEST_CR4"]
    by (auto simp: HvmTrimTsdForQuantum_def Let_def cr4_tsd_bit c split: if_splits)
qed

lemma trim_tsd_sel [simp]:
  "hv_regs (HvmTrimTsdForQuantum e b s) = hv_regs s" "reg (HvmTrimTsdForQuantum e b s) = reg s"
  "cpu_msr (HvmTrimTsdForQuantum e b s) = cpu_msr s" "hv_vm (HvmTrimTsdForQuantum e b s) = hv_vm s"
  "hv_tsc (HvmTrimTsdForQuantum e b s) = hv_tsc s" "hv_mmu (HvmTrimTsdForQuantum e b s) = hv_mmu s"
  "hv_pm (HvmTrimTsdForQuantum e b s) = hv_pm s" "supported (HvmTrimTsdForQuantum e b s) f = supported s f"
  "f \<noteq> GUEST_CR4 \<Longrightarrow> VmReadN (HvmTrimTsdForQuantum e b s) f = VmReadN s f"
  "VmRead32 (HvmTrimTsdForQuantum e b s) f = VmRead32 s f"
  by (simp_all add: HvmTrimTsdForQuantum_def Let_def)

lemma fs_base_differs [simp]: "GUEST_FS_BASE \<noteq> GUEST_CR4" "GUEST_CR4 \<noteq> GUEST_FS_BASE"
  by (simp_all add: vmx_values)

text \<open>
  C2: A guest's write of the FS base goes into the control structure, and from then on time
  stamps are intercepted exactly if the current thread is not one its tracked process has
  excluded; no other bit of the control register changes.\<close>
theorem fs_base_write_sets_quantum:
  assumes "\<forall>f. supported s f" "hv_vm s = VmInitializeVmState (cpu_msr s)"
    "fixed_pair (cpu_msr s IA32_VMX_CR4_FIXED0) (cpu_msr s IA32_VMX_CR4_FIXED1)"
    "conforms (cpu_msr s IA32_VMX_CR4_FIXED0) (cpu_msr s IA32_VMX_CR4_FIXED1) (VmReadN s GUEST_CR4)"
    "monitor_inv (hv_pm s) B" "LOW32 (reg s RCX) = IA32_FS_BASE"
  shows "\<exists>s'. HvmVcpuCommonExitsHandler e EXIT_REASON_MSR_WRITE s = Some (True, s') \<and>
    VmReadN s' GUEST_FS_BASE = push_bit 32 (ucast (LOW32 (reg s RDX))) OR ucast (LOW32 (reg s RAX)) \<and>
    (\<forall>i. bit (VmReadN s' GUEST_CR4) i \<longleftrightarrow>
      (if i = 2 then \<not> (he_pid e \<in> tracked (hv_pm s) \<and> he_thread e \<in> set (excluded (pm_objs (hv_pm s)) (B (he_pid e))))
       else bit (VmReadN s GUEST_CR4) i)) \<and>
    gr_Rip (hv_regs s') = gr_Rip (hv_regs s) + ucast (VmRead32 s EXIT_INSTRUCTION_LENGTH)"
proof -
  let ?x = "he_pid e \<in> tracked (hv_pm s) \<and> he_thread e \<in> set (excluded (pm_objs (hv_pm s)) (B (he_pid e)))"
  let ?v = "push_bit 32 (ucast (LOW32 (reg s RDX))) OR ucast (LOW32 (reg s RAX))"
  obtain pm where pm: "PmGetClientTrustLevel (hv_pm s) (he_pid e) (he_thread e) =
      Some (if ?x then TRUST_LEVEL_MASSIVE else TRUST_LEVEL_NONE, pm)"
    using client_trust [OF assms(5)] by blast
  define t where "t = (post_trace e TRACE_LEVEL_VERBOSE TRACE_MSR_ROOT (''Writing MSR_FS_BASE (Cid = %4d.%4d, Teb = 0x%I64X)'' @ [CHR 0x0A]) [he_pid e, he_tid e, ?v]
      (writeN GUEST_FS_BASE ?v s))\<lparr>hv_pm := pm\<rparr>"
  have T: "VmReadN t GUEST_CR4 = VmReadN s GUEST_CR4" "cpu_msr t = cpu_msr s" "hv_vm t = hv_vm s"
    "supported t g" "VmReadN t GUEST_FS_BASE = ?v" "hv_regs t = hv_regs s" "VmRead32 t g = VmRead32 s g" for g
    using assms(1) by (simp_all add: t_def)
  have f: "FlagOn (if ?x then TRUST_LEVEL_MASSIVE else TRUST_LEVEL_NONE) TRUST_LEVEL_EXEMPTED = ?x"
    using massive_exempted by simp
  have w: "HvmHandleMsrWriteFsBase e s = Some (HvmTrimTsdForQuantum e (\<not> ?x) t)"
    unfolding HvmHandleMsrWriteFsBase_def Let_def post_trace_sel write_hv pm option.case prod.case f t_def [symmetric] ..
  have c: "VmReadN (HvmTrimTsdForQuantum e (\<not> ?x) t) GUEST_CR4 =
      (if \<not> ?x then VmReadN s GUEST_CR4 OR CR4_TSD else VmReadN s GUEST_CR4 AND NOT CR4_TSD)"
    by (rule trim_tsd [of t e "\<not> ?x", unfolded T, OF _ assms(2-4)]) (rule T(4))
  have h: "HvmVcpuCommonExitsHandler e EXIT_REASON_MSR_WRITE s =
      Some (True, InstrRipAdvance (HvmTrimTsdForQuantum e (\<not> ?x) t))"
    using assms(6) by (simp add: HvmVcpuCommonExitsHandler_def exit_reasons vmx_instruction_exits_def HvmMsrHandlerRegistered_def w
        del: de_Morgan_conj)
  have b: "bit (if \<not> ?x then VmReadN s GUEST_CR4 OR CR4_TSD else VmReadN s GUEST_CR4 AND NOT CR4_TSD) i \<longleftrightarrow>
      (if i = 2 then \<not> ?x else bit (VmReadN s GUEST_CR4) i)" for i
    by (cases ?x) (auto simp: bit_simps bit_CR4_TSD dest: bit_imp_le_length)
  show ?thesis
    by (intro exI conjI allI, rule h) (simp_all only: rip_advance_sel trim_tsd_sel fs_base_differs not_False_eq_True c b T)
qed

theorem fs_base_write_sets_quantum_witness:
  "\<exists>s'. HvmVcpuCommonExitsHandler example_hv_env EXIT_REASON_MSR_WRITE (set_reg RCX 0xC0000100 (set_reg RAX 0x7000 example_hv)) =
     Some (True, s') \<and> VmReadN s' GUEST_FS_BASE = 0x7000 \<and> bit (VmReadN s' GUEST_CR4) 2"
proof -
  let ?s = "set_reg RCX 0xC0000100 (set_reg RAX 0x7000 example_hv)"
  have "conforms (cpu_msr ?s IA32_VMX_CR4_FIXED0) (cpu_msr ?s IA32_VMX_CR4_FIXED1) (VmReadN ?s GUEST_CR4)"
    by (simp add: conforms_def example_fixed_msr_def IA32_VMX_CR4_FIXED0_def IA32_VMX_CR4_FIXED1_def)
  moreover have "LOW32 (reg ?s RCX) = IA32_FS_BASE" by (simp add: LOW32_def IA32_FS_BASE_def)
  ultimately obtain s' where r: "HvmVcpuCommonExitsHandler example_hv_env EXIT_REASON_MSR_WRITE ?s = Some (True, s')"
    "VmReadN s' GUEST_FS_BASE = push_bit 32 (ucast (LOW32 (reg ?s RDX))) OR ucast (LOW32 (reg ?s RAX))"
    "bit (VmReadN s' GUEST_CR4) 2 \<longleftrightarrow> \<not> (he_pid example_hv_env \<in> tracked (hv_pm ?s) \<and>
       he_thread example_hv_env \<in> set (excluded (pm_objs (hv_pm ?s)) []))"
    using fs_base_write_sets_quantum [of ?s "\<lambda>_. []" example_hv_env] mon_example_inv by (auto simp: example_fixed_sel)
  moreover have "bit (VmReadN s' GUEST_CR4) 2" using r(3) by (simp add: mon_example_tracked)
  ultimately show ?thesis by (auto simp: LOW32_def)
qed

end
