(* ===== verification/Tsc.thy ===== *)
theory Tsc
  imports Hvm_Root
begin

text \<open>
  Detection of timing attacks (\<open>tsc.c\<close>): pairs of time stamp reads close to each other, their
  statistics, the decision whether a pair is an attack, and the emulation of the reads.
\<close>

section \<open>Distances\<close>

text \<open>
  \<open>abs((int) x)\<close>: the low 32 bits as a signed number, whose absolute value stays negative
  for the least one.
\<close>

definition abs_int :: "u64 \<Rightarrow> int" where
  "abs_int x = (let n = sint (ucast x :: u32) in if n = - (2 ^ 31) then n else \<bar>n\<bar>)"

definition SIBLING_DISTANCE_LIMIT :: nat where "SIBLING_DISTANCE_LIMIT = 0xFF"

definition ARE_VAS_WITHIN_SIBLING_RANGE :: "u64 \<Rightarrow> u64 \<Rightarrow> bool" where
  "ARE_VAS_WITHIN_SIBLING_RANGE source target \<longleftrightarrow> abs_int (source - target) < int SIBLING_DISTANCE_LIMIT"

definition IS_ORPHAN_SIBLING :: "tsc_entry \<Rightarrow> bool" where
  "IS_ORPHAN_SIBLING E \<longleftrightarrow> th_Address (te_After E) = 0 \<or> th_Address (te_Before E) = 0"

definition TdClearSibling :: "tsc_entry \<Rightarrow> tsc_entry" where "TdClearSibling Entry = zero_tsc_entry"

definition TdIsFreeSlot :: "tsc_entry \<Rightarrow> bool" where "TdIsFreeSlot Entry \<longleftrightarrow> th_Address (te_Before Entry) = 0"

section \<open>The table of pairs\<close>

text \<open>
  The loop over the slots: the first free one, or else the oldest orphan and the oldest pair.
  The oldest is the first with the least time stamp.
\<close>

definition older :: "tsc_entry list \<Rightarrow> nat \<Rightarrow> nat option \<Rightarrow> nat option" where
  "older Head i Oldest =
     (let o1 = (case Oldest of None \<Rightarrow> i | Some j \<Rightarrow> j)
      in if th_TimeStamp (te_Before (Head ! i)) < th_TimeStamp (te_Before (Head ! o1)) then Some i else Some o1)"

fun slot_loop :: "tsc_entry list \<Rightarrow> nat list \<Rightarrow> nat option \<Rightarrow> nat option \<Rightarrow> nat + nat option \<times> nat option" where
  "slot_loop Head [] OrphanOldest SiblingOldest = Inr (OrphanOldest, SiblingOldest)"
| "slot_loop Head (i # is) OrphanOldest SiblingOldest =
     (if TdIsFreeSlot (Head ! i) then Inl i
      else if \<not> IS_ORPHAN_SIBLING (Head ! i) then slot_loop Head is OrphanOldest (older Head i SiblingOldest)
      else slot_loop Head is (older Head i OrphanOldest) SiblingOldest)"

text \<open>The index of the slot and the table; \<open>None\<close> would be the null \<open>SiblingOldest\<close>.\<close>

definition TdGetSiblingSlot :: "tsc_entry list \<Rightarrow> (nat \<times> tsc_entry list) option" where
  "TdGetSiblingSlot Head =
     (case slot_loop Head [0..<MAX_TSC_HITS] None None of
        Inl i \<Rightarrow> Some (i, Head)
      | Inr (Some i, _) \<Rightarrow> Some (i, Head[i := TdClearSibling (Head ! i)])
      | Inr (None, Some i) \<Rightarrow> Some (i, Head[i := TdClearSibling (Head ! i)])
      | Inr (None, None) \<Rightarrow> None)"

definition TdFindSibling :: "tsc_entry list \<Rightarrow> u64 \<Rightarrow> u64 \<Rightarrow> nat option" where
  "TdFindSibling Head TscHash OffensiveAddress =
     List.find (\<lambda>i. let Entry = Head ! i
        in TscHash = te_TscHash Entry \<and>
           ARE_VAS_WITHIN_SIBLING_RANGE (th_Address (te_Before Entry)) OffensiveAddress \<and>
           (th_Address (te_Before Entry) = OffensiveAddress \<or> th_Address (te_After Entry) = OffensiveAddress \<or>
            th_Address (te_After Entry) = 0)) [0..<MAX_TSC_HITS]"

definition TdHitIncrement :: "tsc_hit \<Rightarrow> u64 \<Rightarrow> tsc_hit" where
  "TdHitIncrement Hit TimeStamp = Hit\<lparr>th_Count := th_Count Hit + 1, th_TimeStamp := TimeStamp\<rparr>"

text \<open>Which of the two hits is updated: \<open>None\<close> is the failed assertion, a null \<open>Hit\<close>.\<close>

definition choose_hit :: "tsc_entry \<Rightarrow> u64 \<Rightarrow> (tsc_entry \<times> bool) option" where
  "choose_hit Sibling OffensiveAddress =
     (if th_Address (te_Before Sibling) = OffensiveAddress then Some (Sibling, True)
      else if th_Address (te_After Sibling) = OffensiveAddress then Some (Sibling, False)
      else if th_Address (te_After Sibling) = 0
      then if OffensiveAddress < th_Address (te_Before Sibling)
           then Some (Sibling\<lparr>te_After := te_Before Sibling,
                   te_Before := \<lparr>th_Address = OffensiveAddress, th_TimeStamp = 0, th_Count = 0\<rparr>\<rparr>, True)
           else Some (Sibling\<lparr>te_After := (te_After Sibling)\<lparr>th_Address := OffensiveAddress\<rparr>\<rparr>, False)
      else None)"

definition update_difference :: "tsc_entry \<Rightarrow> u64 \<Rightarrow> tsc_entry" where
  "update_difference Sibling TimeStamp =
     (let Difference = word_of_int (abs_int (TimeStamp - th_TimeStamp (te_Before Sibling)))
      in if te_Difference Sibling = 0 then Sibling\<lparr>te_Difference := Difference\<rparr>
         else let CurrentDifference = word_of_int (abs_int (Difference - te_Difference Sibling));
                  DifferenceThreshold = te_Difference Sibling * 3 div 2
              in if te_Difference Sibling < Difference \<and> DifferenceThreshold < CurrentDifference
                 then Sibling\<lparr>te_Skips := te_Skips Sibling + 1\<rparr>
                 else Sibling\<lparr>te_Difference := (te_Difference Sibling + Difference) div 2\<rparr>)"

definition TdUpdateSibling :: "tsc_entry \<Rightarrow> u64 \<Rightarrow> u64 \<Rightarrow> tsc_entry option" where
  "TdUpdateSibling Sibling OffensiveAddress TimeStamp =
     map_option (\<lambda>(S, before).
       let Hit = (if before then te_Before S else te_After S);
           S = (if th_Address Hit = th_Address (te_After S) then update_difference S TimeStamp else S)
       in if before then S\<lparr>te_Before := TdHitIncrement (te_Before S) TimeStamp\<rparr>
          else S\<lparr>te_After := TdHitIncrement (te_After S) TimeStamp\<rparr>) (choose_hit Sibling OffensiveAddress)"

definition TdCreateSibling :: "tsc_entry list \<Rightarrow> u64 \<Rightarrow> u64 \<Rightarrow> u64 \<Rightarrow> (nat \<times> tsc_entry list) option" where
  "TdCreateSibling Head OffensiveAddress TscHash TimeStamp =
     map_option (\<lambda>(i, Head).
       let Sibling = Head ! i
       in (i, Head[i := Sibling\<lparr>te_TscHash := TscHash,
             te_Before := \<lparr>th_Address = OffensiveAddress, th_TimeStamp = TimeStamp, th_Count = 1\<rparr>\<rparr>]))
       (TdGetSiblingSlot Head)"

section \<open>Candidates\<close>

definition set_entry :: "nat \<Rightarrow> tsc_entry \<Rightarrow> hv_state \<Rightarrow> hv_state" where
  "set_entry i E s = s\<lparr>hv_tsc := (hv_tsc s)[i := E]\<rparr>"

definition TdDiscontinueSiblingAssesment :: "hv_env \<Rightarrow> nat \<Rightarrow> hv_state \<Rightarrow> hv_state" where
  "TdDiscontinueSiblingAssesment e i s =
     (let s = HvmTrimTsdForQuantum e False s in set_entry i (TdClearSibling (hv_tsc s ! i)) s)"

definition count_ok :: "tsc_entry \<Rightarrow> bool" where "count_ok E \<longleftrightarrow> 255 < th_Count (te_Before E)"

definition sync_ok :: "tsc_entry \<Rightarrow> bool" where
  "sync_ok E \<longleftrightarrow> abs_int (th_Count (te_Before E) - th_Count (te_After E)) < 2"

definition skips_ok :: "tsc_entry \<Rightarrow> bool" where
  "skips_ok E \<longleftrightarrow> ucast (te_Skips E) < max (th_Count (te_Before E) div 20) 1"

definition TdIsTimingCandidate :: "hv_env \<Rightarrow> nat \<Rightarrow> hv_state \<Rightarrow> bool \<times> hv_state" where
  "TdIsTimingCandidate e i s =
     (let Sibling = hv_tsc s ! i
      in if te_Difference Sibling = 0 then (False, s)
         else if IS_ORPHAN_SIBLING Sibling then (False, s)
         else if 0x50000 < te_Difference Sibling then (False, TdDiscontinueSiblingAssesment e i s)
         else let IsTimingCandidate = sync_ok Sibling \<and> skips_ok Sibling \<and> count_ok Sibling
              in (IsTimingCandidate,
                  if \<not> IsTimingCandidate \<and> count_ok Sibling then TdDiscontinueSiblingAssesment e i s else s))"

section \<open>Reading the code between the two reads\<close>

definition PAGE_ALIGN :: "u64 \<Rightarrow> u64" where "PAGE_ALIGN a = a AND 0xFFFFFFFFFFFFF000"
definition BYTE_OFFSET :: "u64 \<Rightarrow> u64" where "BYTE_OFFSET a = a AND 0xFFF"

definition TdUnmapAddress :: "hv_env \<Rightarrow> u64 \<Rightarrow> hv_state \<Rightarrow> hv_state" where
  "TdUnmapAddress e Address s = s\<lparr>hv_mmu := MmuUnmapIoPage (he_cpu e) (hv_mmu s) (PAGE_ALIGN Address)\<rparr>"

text \<open>The outer \<open>None\<close> is a page fault of the walk; the inner one the null pointer returned.\<close>

definition TdMapAddress :: "hv_env \<Rightarrow> u64 \<Rightarrow> u64 \<Rightarrow> hv_state \<Rightarrow> (u64 option \<times> hv_state) option" where
  "TdMapAddress e Cr3 Address s =
     (case MmuGetPhysicalAddress (he_phys e) (he_os_pa e) (cpu_cr3 s) (he_cpu e) (hv_mmu s) Cr3 (PAGE_ALIGN Address) of
        None \<Rightarrow> None
      | Some (CodePa, m) \<Rightarrow>
          let s = s\<lparr>hv_mmu := m\<rparr>
          in if CodePa = 0 then Some (None, s)
             else case MmuMapIoPage (he_cpu e) (hv_mmu s) CodePa False of
                    (None, m) \<Rightarrow> Some (None, s\<lparr>hv_mmu := m\<rparr>)
                  | (Some CodePage, m) \<Rightarrow> Some (Some (CodePage + BYTE_OFFSET Address), s\<lparr>hv_mmu := m\<rparr>))"

text \<open>One byte, and several, through the current page tables.\<close>

definition load8 :: "hv_env \<Rightarrow> hv_state \<Rightarrow> u64 \<Rightarrow> u8 option" where
  "load8 e s va = map_option ucast (load64 (he_phys e) (hv_mmu s) va)"

fun load_bytes :: "hv_env \<Rightarrow> hv_state \<Rightarrow> u64 \<Rightarrow> nat \<Rightarrow> u8 list option" where
  "load_bytes e s va 0 = Some []"
| "load_bytes e s va (Suc n) =
     (case load8 e s va of None \<Rightarrow> None | Some b \<Rightarrow> map_option (Cons b) (load_bytes e s (va + 1) n))"

text \<open>\<open>RtlCopyMemory\<close> to the start of a buffer: \<open>None\<close> is a page fault or a write past its end.\<close>

definition copy_code :: "u8 list \<Rightarrow> hv_env \<Rightarrow> hv_state \<Rightarrow> u64 \<Rightarrow> nat \<Rightarrow> u8 list option" where
  "copy_code Code e s va n =
     (if List.length Code < n then None else map_option (\<lambda>bs. bs @ drop n Code) (load_bytes e s va n))"

definition TdCopySiblingMemory ::
  "hv_env \<Rightarrow> tsc_entry \<Rightarrow> u8 list \<Rightarrow> hv_state \<Rightarrow> ((u8 list \<times> u64) option \<times> hv_state) option" where
  "TdCopySiblingMemory e Sibling Code s =
     (let Cr3 = VmReadN s GUEST_CR3;
          B = th_Address (te_Before Sibling); A = th_Address (te_After Sibling);
          IsSamePage = (PAGE_ALIGN B = PAGE_ALIGN A);
          Distance = A - B
      in case TdMapAddress e Cr3 B s of
           None \<Rightarrow> None
         | Some (None, s) \<Rightarrow> Some (None, s)
         | Some (Some StartAddress, s) \<Rightarrow>
             if IsSamePage
             then case copy_code Code e s StartAddress (unat Distance) of
                    None \<Rightarrow> None
                  | Some Code \<Rightarrow> Some (Some (Code, Distance), TdUnmapAddress e StartAddress s)
             else case TdMapAddress e Cr3 A s of
                    None \<Rightarrow> None
                  | Some (None, s) \<Rightarrow> Some (None, TdUnmapAddress e StartAddress s)
                  | Some (Some EndAddress, s) \<Rightarrow>
                      case copy_code Code e s StartAddress (unat (Distance - BYTE_OFFSET EndAddress)) of
                        None \<Rightarrow> None
                      | Some Code \<Rightarrow>
                          case copy_code Code e s (PAGE_ALIGN EndAddress) (unat (BYTE_OFFSET EndAddress)) of
                            None \<Rightarrow> None
                          | Some Code \<Rightarrow>
                              Some (Some (Code, Distance), TdUnmapAddress e EndAddress (TdUnmapAddress e StartAddress s)))"

section \<open>Analysing it\<close>

definition TD_MEMORY_REFERENCES :: u32 where "TD_MEMORY_REFERENCES = 1"
definition TD_INSTRUCTIONS_INVALID :: u32 where "TD_INSTRUCTIONS_INVALID = 2"

text \<open>How far a jump forward skips, if the instruction is one.\<close>

definition TdDisFollowForwardJump :: "ud_insn \<Rightarrow> nat option" where
  "TdDisFollowForwardJump Dis =
     (let Operand = ui_op0 Dis
      in if uo_type Operand = UD_OP_JIMM \<and> 0 < uo_size Operand \<and> 0 < uo_uqword Operand
         then Some (unat (uo_uqword Operand)) else None)"

definition TdDisAnalyzeMemoryReadReferences :: "ud_insn \<Rightarrow> u32 \<Rightarrow> u32" where
  "TdDisAnalyzeMemoryReadReferences Dis Flags =
     (if uo_type (ui_op0 Dis) \<noteq> UD_OP_MEM \<and> (uo_type (ui_op1 Dis) = UD_OP_MEM \<or> uo_type (ui_op2 Dis) = UD_OP_MEM)
      then SetFlag Flags TD_MEMORY_REFERENCES else Flags)"

definition TdDisAnalyzeInvalidInstructions :: "ud_insn \<Rightarrow> u32 \<Rightarrow> bool \<times> u32" where
  "TdDisAnalyzeInvalidInstructions Dis Flags =
     (if ui_invalid Dis then (True, SetFlag Flags TD_INSTRUCTIONS_INVALID) else (False, Flags))"

text \<open>
  The loop over the instructions of \<open>Code\<close> from \<open>pos\<close> on.  The decoder never returns an empty
  instruction; one would end the loop here.
\<close>

function analyze_loop :: "(nat \<Rightarrow> ud_insn option) \<Rightarrow> nat \<Rightarrow> nat \<Rightarrow> u32 \<Rightarrow> u32" where
  "analyze_loop decode Size pos Flags =
     (if Size \<le> pos then Flags
      else case decode pos of
        None \<Rightarrow> Flags
      | Some Dis \<Rightarrow>
          if ui_len Dis = 0 then Flags
          else case TdDisFollowForwardJump Dis of
            Some n \<Rightarrow> analyze_loop decode Size (pos + ui_len Dis + n) Flags
          | None \<Rightarrow>
              let Flags = TdDisAnalyzeMemoryReadReferences Dis Flags;
                  (invalid, Flags) = TdDisAnalyzeInvalidInstructions Dis Flags
              in if invalid then Flags else analyze_loop decode Size (pos + ui_len Dis) Flags)"
  by pat_completeness auto
termination by (relation "measure (\<lambda>(decode, Size, pos, Flags). Size - pos)") auto

declare analyze_loop.simps [simp del]

definition TdAnalyzeDissasembledInstructions :: "hv_env \<Rightarrow> u8 list \<Rightarrow> nat \<Rightarrow> u32 \<Rightarrow> u32" where
  "TdAnalyzeDissasembledInstructions e Code Size Flags = analyze_loop (he_disasm e (take Size Code)) Size 0 Flags"

record tsc_report =
  tr_ProcessId :: u64
  tr_ThreadId :: u64
  tr_Tsc :: nat
  tr_Code :: "u8 list"
  tr_CodeSize :: u64
  tr_Flags :: u32

definition TdIsTimingAttack :: "hv_env \<Rightarrow> tsc_report \<Rightarrow> hv_state \<Rightarrow> (bool \<times> tsc_report \<times> hv_state) option" where
  "TdIsTimingAttack e Report s =
     (case TdCopySiblingMemory e (hv_tsc s ! tr_Tsc Report) (tr_Code Report) s of
        None \<Rightarrow> None
      | Some (None, s) \<Rightarrow> Some (False, Report, s)
      | Some (Some (Code, CodeSize), s) \<Rightarrow>
          let Flags = TdAnalyzeDissasembledInstructions e Code (unat CodeSize) (tr_Flags Report);
              Report = Report\<lparr>tr_Code := Code, tr_CodeSize := CodeSize, tr_Flags := Flags\<rparr>
          in Some (\<not> FlagOn Flags TD_INSTRUCTIONS_INVALID \<and> FlagOn Flags TD_MEMORY_REFERENCES, Report, s))"

section \<open>Notifications\<close>

definition TimerAbuse :: u32 where "TimerAbuse = 1"
definition TimerFalsePositive :: u32 where "TimerFalsePositive = 2"
definition NotificationMessage :: u32 where "NotificationMessage = 2"

definition tsc_notification :: "hv_env \<Rightarrow> u32 \<Rightarrow> tsc_report \<Rightarrow> hv_state \<Rightarrow> ds_notification" where
  "tsc_notification e Type Report s =
     \<lparr>dn_ControlFlags = 0, dn_MessageType = NotificationMessage, dn_ProcessId = tr_ProcessId Report,
      dn_ThreadId = tr_ThreadId Report, dn_Type = Type, dn_Tsc = hv_tsc s ! tr_Tsc Report,
      dn_Code = take (unat (tr_CodeSize Report)) (tr_Code Report) @ drop (unat (tr_CodeSize Report)) (he_code e),
      dn_CodeSize = tr_CodeSize Report, dn_Flags = tr_Flags Report\<rparr>"

definition TdMessageNotify :: "hv_env \<Rightarrow> u32 \<Rightarrow> tsc_report \<Rightarrow> hv_state \<Rightarrow> ntstatus \<times> hv_state" where
  "TdMessageNotify e Type Report s =
     (let bytes = he_layout e (tsc_notification e Type Report s);
          (Status, mb) = RtlPostMailboxNotification (he_record e) (hv_mailbox s) bytes (List.length bytes)
      in (Status, s\<lparr>hv_mailbox := mb\<rparr>))"

definition notify_or_warn :: "hv_env \<Rightarrow> u32 \<Rightarrow> tsc_report \<Rightarrow> hv_state \<Rightarrow> hv_state" where
  "notify_or_warn e Type Report s =
     (let (Status, s) = TdMessageNotify e Type Report s
      in if NT_SUCCESS Status then s
         else post_trace e TRACE_LEVEL_WARNING TRACE_IOA_ROOT (''Unable to notify Timing attack (ProcessId = %p, ThreadId = %p)'' @ [CHR 0x0A])
                [tr_ProcessId Report, tr_ThreadId Report] s)"

definition TdTimingFalsePositiveNotify :: "hv_env \<Rightarrow> tsc_report \<Rightarrow> hv_state \<Rightarrow> hv_state" where
  "TdTimingFalsePositiveNotify e Report s = notify_or_warn e TimerFalsePositive Report s"

definition TdTimingAttackNotify :: "hv_env \<Rightarrow> tsc_report \<Rightarrow> hv_state \<Rightarrow> hv_state" where
  "TdTimingAttackNotify e Report s = notify_or_warn e TimerAbuse Report s"

section \<open>A time stamp read\<close>

text \<open>\<open>TSC_HASH_BITS_HIGH\<close> is half the width of a register.\<close>

definition tsc_hash :: "hv_env \<Rightarrow> u64" where "tsc_hash e = push_bit 32 (he_pid e) OR he_tid e"

definition record_hit :: "hv_env \<Rightarrow> u64 \<Rightarrow> u64 \<Rightarrow> tsc_entry list \<Rightarrow> (nat \<times> tsc_entry list) option" where
  "record_hit e OffensiveAddress TimeStamp Head =
     (case TdFindSibling Head (tsc_hash e) OffensiveAddress of
        Some i \<Rightarrow> map_option (\<lambda>E. (i, Head[i := E])) (TdUpdateSibling (Head ! i) OffensiveAddress TimeStamp)
      | None \<Rightarrow> TdCreateSibling Head OffensiveAddress (tsc_hash e) TimeStamp)"

definition TdProcessTscEvent :: "hv_env \<Rightarrow> u64 \<Rightarrow> u64 \<Rightarrow> hv_state \<Rightarrow> (bool \<times> hv_state) option" where
  "TdProcessTscEvent e OffensiveAddress TimeStamp s =
     (case record_hit e OffensiveAddress TimeStamp (hv_tsc s) of
        None \<Rightarrow> None
      | Some (i, Head) \<Rightarrow>
          case TdIsTimingCandidate e i (s\<lparr>hv_tsc := Head\<rparr>) of
            (False, s) \<Rightarrow> Some (False, s)
          | (True, s) \<Rightarrow>
              case TdIsTimingAttack e \<lparr>tr_ProcessId = he_pid e, tr_ThreadId = he_tid e, tr_Tsc = i,
                  tr_Code = replicate SIBLING_DISTANCE_LIMIT 0, tr_CodeSize = 0, tr_Flags = 0\<rparr> s of
                None \<Rightarrow> None
              | Some (IsTimingAttack, Report, s) \<Rightarrow>
                  let s = (if IsTimingAttack
                           then TdTimingAttackNotify e Report
                             (post_trace e TRACE_LEVEL_INFORMATION TRACE_IOA_ROOT (''Timing Attack Found (ProcessId = %p)'' @ [CHR 0x0A]) [he_pid e] s)
                           else TdTimingFalsePositiveNotify e Report
                             (post_trace e TRACE_LEVEL_INFORMATION TRACE_IOA_ROOT (''Timing Candidate Excluded (ProcessId = %p, ThreadId = %p)'' @ [CHR 0x0A])
                               [he_pid e, he_tid e] (HvmTrimTsdForQuantum e False s)))
                  in Some (IsTimingAttack, set_entry i (TdClearSibling (hv_tsc s ! i)) s))"

section \<open>Emulation\<close>

definition IA32_TSC :: u32 where "IA32_TSC = 0x10"
definition IA32_TSC_AUX :: u32 where "IA32_TSC_AUX = 0xC0000103"

definition VmRdtscEmulate :: "hv_env \<Rightarrow> hv_state \<Rightarrow> hv_state option" where
  "VmRdtscEmulate e s =
     (let TimeStamp = cpu_msr s IA32_TSC;
          s = set_reg RAX (ucast (LOW32 TimeStamp)) (set_reg RDX (ucast (HIGH32 TimeStamp)) s)
      in map_option (\<lambda>(attack, s). InstrRipAdvance s) (TdProcessTscEvent e (gr_Rip (hv_regs s)) TimeStamp s))"

definition VmRdtscpEmulate :: "hv_env \<Rightarrow> hv_state \<Rightarrow> hv_state option" where
  "VmRdtscpEmulate e s =
     (let Processor = cpu_msr s IA32_TSC_AUX;
          TimeStamp = cpu_msr s IA32_TSC;
          s = set_reg RCX (ucast (LOW32 Processor))
                (set_reg RAX (ucast (LOW32 TimeStamp)) (set_reg RDX (ucast (HIGH32 TimeStamp)) s))
      in map_option (\<lambda>(attack, s). InstrRipAdvance s) (TdProcessTscEvent e (gr_Rip (hv_regs s)) TimeStamp s))"

text \<open>The stub that would end the process, copied to the page of the instruction.\<close>

definition TerminateProcessStub :: "u8 list" where
  "TerminateProcessStub = [0x48, 0xC7, 0xC1, 0xFF, 0xFF, 0xFF, 0xFF, 0x4C, 0x8B, 0xD1, 0xB8, 0x2C, 0, 0, 0, 0x0F, 0x05]"

definition InjectTerminateProcess :: "u8 list \<Rightarrow> hv_state \<Rightarrow> u8 list \<times> hv_state" where
  "InjectTerminateProcess Mapping s =
     (TerminateProcessStub @ drop (List.length TerminateProcessStub) Mapping,
      s\<lparr>hv_regs := (hv_regs s)\<lparr>gr_Rip := PAGE_ALIGN (gr_Rip (hv_regs s))\<rparr>\<rparr>)"

definition EnableUserTimeStamp :: "'c cpu_scheme \<Rightarrow> 'c cpu_scheme" where
  "EnableUserTimeStamp c = c\<lparr>cpu_cr4 := cpu_cr4 c AND NOT CR4_TSD\<rparr>"

definition DisableUserTimeStamp :: "'c cpu_scheme \<Rightarrow> 'c cpu_scheme" where
  "DisableUserTimeStamp c = c\<lparr>cpu_cr4 := cpu_cr4 c OR CR4_TSD\<rparr>"

end
