(* ===== verification/Tsc_Props.thy ===== *)
theory Tsc_Props
  imports Tsc
begin

text \<open>
  Properties of the detection of timing attacks: which slot is recycled, what the table holds
  after any sequence of events, and what a detection takes.
\<close>

section \<open>Choosing a slot\<close>

text \<open>\<open>o\<close> is the first of the elements of \<open>xs\<close> with property \<open>P\<close> and the least value, if any.\<close>

definition oldest :: "(nat \<Rightarrow> u64) \<Rightarrow> (nat \<Rightarrow> bool) \<Rightarrow> nat set \<Rightarrow> nat option \<Rightarrow> bool" where
  "oldest f P X j \<longleftrightarrow> (case j of None \<Rightarrow> \<forall>k \<in> X. \<not> P k | Some i \<Rightarrow> i \<in> X \<and> P i \<and> (\<forall>k \<in> X. P k \<longrightarrow> f i \<le> f k))"

definition slot_time :: "tsc_entry list \<Rightarrow> nat \<Rightarrow> u64" where
  "slot_time Head i = th_TimeStamp (te_Before (Head ! i))"

lemma oldest_skip: "oldest f P X j \<Longrightarrow> \<not> P i \<Longrightarrow> oldest f P (insert i X) j"
  by (auto simp: oldest_def split: option.splits)

lemma oldest_older:
  assumes "oldest (slot_time Head) P X j" "P i"
  shows "oldest (slot_time Head) P (insert i X) (older Head i j)"
  using assms by (fastforce simp: oldest_def older_def slot_time_def Let_def split: option.splits)

lemma slot_loop_result:
  assumes "oldest (slot_time Head) (\<lambda>i. IS_ORPHAN_SIBLING (Head ! i)) X O1"
    "oldest (slot_time Head) (\<lambda>i. \<not> IS_ORPHAN_SIBLING (Head ! i)) X S1"
  shows "case slot_loop Head js O1 S1 of
      Inl i \<Rightarrow> \<exists>a b. js = a @ i # b \<and> TdIsFreeSlot (Head ! i) \<and> (\<forall>j \<in> set a. \<not> TdIsFreeSlot (Head ! j))
    | Inr (O2, S2) \<Rightarrow> (\<forall>j \<in> set js. \<not> TdIsFreeSlot (Head ! j)) \<and>
        oldest (slot_time Head) (\<lambda>i. IS_ORPHAN_SIBLING (Head ! i)) (X \<union> set js) O2 \<and>
        oldest (slot_time Head) (\<lambda>i. \<not> IS_ORPHAN_SIBLING (Head ! i)) (X \<union> set js) S2"
  using assms
proof (induction js arbitrary: X O1 S1)
  case (Cons i js)
  show ?case
  proof (cases "TdIsFreeSlot (Head ! i)")
    case True
    then show ?thesis by (simp add: exI [of _ "[]"])
  next
    case f: False
    let ?O = "if IS_ORPHAN_SIBLING (Head ! i) then older Head i O1 else O1"
    let ?S = "if IS_ORPHAN_SIBLING (Head ! i) then S1 else older Head i S1"
    have "oldest (slot_time Head) (\<lambda>i. IS_ORPHAN_SIBLING (Head ! i)) (insert i X) ?O"
      "oldest (slot_time Head) (\<lambda>i. \<not> IS_ORPHAN_SIBLING (Head ! i)) (insert i X) ?S"
      using Cons.prems oldest_older [where i = i and P = "\<lambda>i. IS_ORPHAN_SIBLING (Head ! i)"]
        oldest_older [where i = i and P = "\<lambda>i. \<not> IS_ORPHAN_SIBLING (Head ! i)"] oldest_skip by auto
    note IH = Cons.IH [OF this]
    have s: "slot_loop Head (i # js) O1 S1 = slot_loop Head js ?O ?S" using f by simp
    show ?thesis
    proof (cases "slot_loop Head js ?O ?S")
      case (Inl k)
      with IH obtain a b where "js = a @ k # b" "TdIsFreeSlot (Head ! k)" "\<forall>j \<in> set a. \<not> TdIsFreeSlot (Head ! j)" by auto
      then show ?thesis unfolding s Inl using f by (simp, intro exI [of _ "i # a"] exI [of _ b]) simp
    next
      case (Inr r)
      then show ?thesis using IH f unfolding s by (cases r) simp
    qed
  qed
qed simp

lemma oldest_empty: "oldest f P {} None"
  by (simp add: oldest_def)

lemma get_slot:
  obtains i Head' where "TdGetSiblingSlot Head = Some (i, Head')" "i < MAX_TSC_HITS"
    "if \<exists>j<MAX_TSC_HITS. TdIsFreeSlot (Head ! j)
     then TdIsFreeSlot (Head ! i) \<and> (\<forall>j<i. \<not> TdIsFreeSlot (Head ! j)) \<and> Head' = Head
     else Head' = Head[i := zero_tsc_entry] \<and>
       (if \<exists>j<MAX_TSC_HITS. IS_ORPHAN_SIBLING (Head ! j)
        then IS_ORPHAN_SIBLING (Head ! i) \<and>
             (\<forall>j<MAX_TSC_HITS. IS_ORPHAN_SIBLING (Head ! j) \<longrightarrow> slot_time Head i \<le> slot_time Head j)
        else \<forall>j<MAX_TSC_HITS. slot_time Head i \<le> slot_time Head j)"
proof -
  note L = slot_loop_result [where js = "[0..<MAX_TSC_HITS]", OF oldest_empty oldest_empty, of Head]
  show ?thesis
  proof (cases "slot_loop Head [0..<MAX_TSC_HITS] None None")
    case (Inl i)
    with L obtain a b where ab: "[0..<MAX_TSC_HITS] = a @ i # b" "TdIsFreeSlot (Head ! i)"
      "\<forall>j \<in> set a. \<not> TdIsFreeSlot (Head ! j)" by auto
    have l: "List.length a < List.length [0..<MAX_TSC_HITS]" unfolding ab by simp
    have "[0..<MAX_TSC_HITS] ! List.length a = i" unfolding ab by simp
    then have i: "i = List.length a" using l by simp
    have "a = take (List.length a) [0..<MAX_TSC_HITS]" unfolding ab by simp
    also have "\<dots> = [0..<i]" using l i by simp
    finally have "set a = {..<i}" by auto
    then have no: "\<forall>j<i. \<not> TdIsFreeSlot (Head ! j)" using ab(3) by simp
    have m: "i < MAX_TSC_HITS" using l i by simp
    then have "\<exists>j<MAX_TSC_HITS. TdIsFreeSlot (Head ! j)" using ab(2) by blast
    then show ?thesis using no m ab(2) Inl by (intro that [of i Head]) (simp_all add: TdGetSiblingSlot_def)
  next
    case (Inr r)
    obtain O2 S2 where r: "r = (O2, S2)" by (cases r)
    with Inr L have f: "\<forall>j<MAX_TSC_HITS. \<not> TdIsFreeSlot (Head ! j)"
      "oldest (slot_time Head) (\<lambda>i. IS_ORPHAN_SIBLING (Head ! i)) {0..<MAX_TSC_HITS} O2"
      "oldest (slot_time Head) (\<lambda>i. \<not> IS_ORPHAN_SIBLING (Head ! i)) {0..<MAX_TSC_HITS} S2" by auto
    show ?thesis
    proof (cases O2)
      case (Some i)
      then show ?thesis using f Inr r
        by (intro that [of i "Head[i := zero_tsc_entry]"]) (auto simp: TdGetSiblingSlot_def oldest_def TdClearSibling_def)
    next
      case None
      have "0 < MAX_TSC_HITS" by (simp add: MAX_TSC_HITS_def)
      with f None obtain i where i: "S2 = Some i" by (cases S2) (auto simp: oldest_def)
      then show ?thesis using f Inr r None
        by (intro that [of i "Head[i := zero_tsc_entry]"]) (auto simp: TdGetSiblingSlot_def oldest_def TdClearSibling_def)
    qed
  qed
qed

text \<open>
  A slot is always found: the first free one; when none is free the orphan hit with the
  oldest time stamp, and only when every slot holds a pair the oldest pair, is cleared.\<close>
theorem sibling_slot_correct:
  "\<exists>i Head'. TdGetSiblingSlot Head = Some (i, Head') \<and> i < MAX_TSC_HITS \<and>
    (if \<exists>j<MAX_TSC_HITS. TdIsFreeSlot (Head ! j)
     then TdIsFreeSlot (Head ! i) \<and> (\<forall>j<i. \<not> TdIsFreeSlot (Head ! j)) \<and> Head' = Head
     else Head' = Head[i := zero_tsc_entry] \<and>
       (if \<exists>j<MAX_TSC_HITS. IS_ORPHAN_SIBLING (Head ! j)
        then IS_ORPHAN_SIBLING (Head ! i) \<and>
             (\<forall>j<MAX_TSC_HITS. IS_ORPHAN_SIBLING (Head ! j) \<longrightarrow> slot_time Head i \<le> slot_time Head j)
        else \<forall>j<MAX_TSC_HITS. slot_time Head i \<le> slot_time Head j))"
  by (rule get_slot [of Head]) blast

theorem sibling_slot_correct_witness:
  "\<exists>Head'. TdGetSiblingSlot (replicate MAX_TSC_HITS zero_tsc_entry) = Some (0, Head')"
proof -
  let ?H = "replicate MAX_TSC_HITS zero_tsc_entry"
  have f: "TdIsFreeSlot (?H ! j)" if "j < MAX_TSC_HITS" for j
    using that by (simp add: TdIsFreeSlot_def zero_tsc_entry_def zero_hit_def)
  have p: "0 < MAX_TSC_HITS" by (simp add: MAX_TSC_HITS_def)
  obtain i Head' where i: "TdGetSiblingSlot ?H = Some (i, Head')" "i < MAX_TSC_HITS" "\<forall>j<i. \<not> TdIsFreeSlot (?H ! j)"
    using sibling_slot_correct [of ?H] f [OF p] p by (metis (no_types, lifting))
  then have "i = 0" using f [OF p] by (cases i) auto
  then show ?thesis using i(1) by blast
qed

section \<open>The table after an event\<close>

lemma find_sibling:
  assumes "TdFindSibling Head h off = Some i"
  shows "i < MAX_TSC_HITS" "ARE_VAS_WITHIN_SIBLING_RANGE (th_Address (te_Before (Head ! i))) off"
    "th_Address (te_Before (Head ! i)) = off \<or> th_Address (te_After (Head ! i)) = off \<or> th_Address (te_After (Head ! i)) = 0"
    "te_TscHash (Head ! i) = h"
  using assms by (auto simp: TdFindSibling_def find_Some_iff Let_def)

lemma update_sibling_total:
  "th_Address (te_Before E) = off \<or> th_Address (te_After E) = off \<or> th_Address (te_After E) = 0 \<Longrightarrow>
     \<exists>E'. TdUpdateSibling E off ts = Some E'"
  by (auto simp: TdUpdateSibling_def choose_hit_def)

text \<open>Recording a hit never fails an assertion, whatever the table holds.\<close>

lemma record_hit_total: "\<exists>i Head'. record_hit e off ts Head = Some (i, Head')"
proof (cases "TdFindSibling Head (tsc_hash e) off")
  case None
  obtain i Head' where "TdGetSiblingSlot Head = Some (i, Head')" by (rule get_slot)
  then show ?thesis using None by (simp add: record_hit_def TdCreateSibling_def)
next
  case (Some i)
  then show ?thesis using update_sibling_total [OF find_sibling(3) [OF Some]] by (auto simp: record_hit_def)
qed

definition new_sibling :: "u64 \<Rightarrow> u64 \<Rightarrow> u64 \<Rightarrow> tsc_entry" where
  "new_sibling off h ts = zero_tsc_entry\<lparr>te_TscHash := h,
     te_Before := \<lparr>th_Address = off, th_TimeStamp = ts, th_Count = 1\<rparr>\<rparr>"

text \<open>
  What holds of every slot is carried over an event if updating a slot near the address and
  creating a new one establish it.
\<close>

lemma record_hit_keeps:
  assumes hit: "record_hit e off ts Head = Some (i, Head')" and len: "List.length Head = MAX_TSC_HITS"
    and all: "\<forall>E \<in> set Head. P E" and free: "\<And>E. P E \<Longrightarrow> TdIsFreeSlot E \<Longrightarrow> E = zero_tsc_entry"
    and mono: "\<And>E. P E \<Longrightarrow> Q E"
    and upd: "\<And>E E'. P E \<Longrightarrow> te_TscHash E = tsc_hash e \<Longrightarrow> ARE_VAS_WITHIN_SIBLING_RANGE (th_Address (te_Before E)) off \<Longrightarrow>
      TdUpdateSibling E off ts = Some E' \<Longrightarrow> Q E'"
    and new: "Q (new_sibling off (tsc_hash e) ts)"
  shows "i < MAX_TSC_HITS \<and> List.length Head' = MAX_TSC_HITS \<and> (\<forall>E \<in> set Head'. Q E)"
proof -
  have keep: "\<forall>E \<in> set (Head[i := X]). Q E" if "Q X" for i X
    using that all mono set_update_subset_insert [of Head i X] by auto
  show ?thesis
  proof (cases "TdFindSibling Head (tsc_hash e) off")
    case None
    obtain j Head1 where g: "TdGetSiblingSlot Head = Some (j, Head1)" "j < MAX_TSC_HITS"
      "if \<exists>j<MAX_TSC_HITS. TdIsFreeSlot (Head ! j)
       then TdIsFreeSlot (Head ! j) \<and> (\<forall>k<j. \<not> TdIsFreeSlot (Head ! k)) \<and> Head1 = Head
       else Head1 = Head[j := zero_tsc_entry] \<and>
         (if \<exists>k<MAX_TSC_HITS. IS_ORPHAN_SIBLING (Head ! k)
          then IS_ORPHAN_SIBLING (Head ! j) \<and>
               (\<forall>k<MAX_TSC_HITS. IS_ORPHAN_SIBLING (Head ! k) \<longrightarrow> slot_time Head j \<le> slot_time Head k)
          else \<forall>k<MAX_TSC_HITS. slot_time Head j \<le> slot_time Head k)"
      by (rule get_slot [of Head])
    have "Head = Head[j := Head ! j]" by simp
    with g(3) have y: "\<exists>Y. Head1 = Head[j := Y]" by (metis (no_types))
    have z: "Head1 ! j = zero_tsc_entry"
      using g(2,3) len all free [of "Head ! j"] by (auto split: if_splits)
    with y have "Head' = Head[j := new_sibling off (tsc_hash e) ts]" "i = j"
      using hit None g(1) by (auto simp: record_hit_def TdCreateSibling_def new_sibling_def Let_def)
    then show ?thesis using keep [OF new] g(2) len by simp
  next
    case (Some j)
    obtain E' where E: "TdUpdateSibling (Head ! j) off ts = Some E'"
      using update_sibling_total [OF find_sibling(3) [OF Some]] by blast
    then have h: "Head' = Head[j := E']" "i = j" using hit Some by (auto simp: record_hit_def)
    have "P (Head ! j)" using all find_sibling(1) [OF Some] len by simp
    from upd [OF this find_sibling(4) [OF Some] find_sibling(2) [OF Some] E] show ?thesis
      using keep find_sibling(1) [OF Some] len h by simp
  qed
qed

lemma update_difference_sel [simp]:
  "te_Before (update_difference E ts) = te_Before E" "te_After (update_difference E ts) = te_After E"
  by (simp_all add: update_difference_def Let_def)

text \<open>A slot after \<open>n\<close> events: a free one is zero, and no count exceeds the number of events.\<close>

definition slot_inv :: "nat \<Rightarrow> tsc_entry \<Rightarrow> bool" where
  "slot_inv n E \<longleftrightarrow> (TdIsFreeSlot E \<longrightarrow> E = zero_tsc_entry) \<and>
     unat (th_Count (te_Before E)) \<le> n \<and> unat (th_Count (te_After E)) \<le> n"

lemma unat_suc_le: "unat (c :: u64) \<le> n \<Longrightarrow> unat (c + 1) \<le> Suc n"
  using mod_less_eq_dividend [of "unat c + 1" "2 ^ 64"] by (simp add: unat_word_ariths)

text \<open>An update in terms of the chosen hit: only its count and time stamp and the statistics change.\<close>

lemma update_sibling_hits:
  assumes "TdUpdateSibling E off ts = Some E'"
  obtains S b where "choose_hit E off = Some (S, b)"
    "te_Before E' = (if b then TdHitIncrement (te_Before S) ts else te_Before S)"
    "te_After E' = (if b then te_After S else TdHitIncrement (te_After S) ts)"
proof -
  obtain S b where S: "choose_hit E off = Some (S, b)" using assms by (auto simp: TdUpdateSibling_def)
  show ?thesis
  proof (rule that [OF S])
    show "te_Before E' = (if b then TdHitIncrement (te_Before S) ts else te_Before S)"
      "te_After E' = (if b then te_After S else TdHitIncrement (te_After S) ts)"
      using assms S by (auto simp: TdUpdateSibling_def Let_def)
  qed
qed

lemma slot_inv_update:
  assumes "slot_inv n E" "te_TscHash E \<noteq> 0" "TdUpdateSibling E off ts = Some E'" "off \<noteq> 0"
  shows "slot_inv (Suc n) E'"
proof -
  have f: "th_Address (te_Before E) \<noteq> 0" using assms(1,2) by (auto simp: slot_inv_def TdIsFreeSlot_def zero_tsc_entry_def)
  have c: "unat (th_Count (te_Before E)) \<le> n" "unat (th_Count (te_After E)) \<le> n" using assms(1) by (simp_all add: slot_inv_def)
  obtain S b where S: "choose_hit E off = Some (S, b)"
    "te_Before E' = (if b then TdHitIncrement (te_Before S) ts else te_Before S)"
    "te_After E' = (if b then te_After S else TdHitIncrement (te_After S) ts)"
    using update_sibling_hits [OF assms(3)] .
  have s: "th_Address (te_Before S) \<noteq> 0" "unat (th_Count (te_Before S)) \<le> n" "unat (th_Count (te_After S)) \<le> n"
    using S(1) f c assms(4) by (auto simp: choose_hit_def split: if_splits)
  then show ?thesis using unat_suc_le [OF s(2)] unat_suc_le [OF s(3)]
    by (simp add: slot_inv_def TdIsFreeSlot_def TdHitIncrement_def S(2,3))
qed

lemma slot_inv_mono: "slot_inv n E \<Longrightarrow> slot_inv (Suc n) E"
  by (auto simp: slot_inv_def)

lemma slot_inv_new: "off \<noteq> 0 \<Longrightarrow> slot_inv (Suc n) (new_sibling off h ts)"
  by (simp add: slot_inv_def TdIsFreeSlot_def new_sibling_def zero_tsc_entry_def zero_hit_def)

lemma slot_inv_zero: "slot_inv n zero_tsc_entry"
  by (simp add: slot_inv_def zero_tsc_entry_def zero_hit_def)

definition table_inv :: "nat \<Rightarrow> tsc_entry list \<Rightarrow> bool" where
  "table_inv n Head \<longleftrightarrow> List.length Head = MAX_TSC_HITS \<and> (\<forall>E \<in> set Head. slot_inv n E)"

lemma record_hit_inv:
  assumes "record_hit e off ts Head = Some (i, Head')" "table_inv n Head" "off \<noteq> 0" "tsc_hash e \<noteq> 0"
  shows "i < MAX_TSC_HITS" "table_inv (Suc n) Head'"
proof -
  have "i < MAX_TSC_HITS \<and> List.length Head' = MAX_TSC_HITS \<and> (\<forall>E \<in> set Head'. slot_inv (Suc n) E)"
  proof (rule record_hit_keeps [OF assms(1), where P = "slot_inv n"])
    show "slot_inv (Suc n) E'" if "slot_inv n E" "te_TscHash E = tsc_hash e" "TdUpdateSibling E off ts = Some E'" for E E'
      using slot_inv_update [OF that(1) _ that(3) assms(3)] that(2) assms(4) by simp
  qed (use assms(2) slot_inv_mono slot_inv_new [OF assms(3)] in \<open>auto simp: table_inv_def slot_inv_def\<close>)
  then show "i < MAX_TSC_HITS" "table_inv (Suc n) Head'" by (simp_all add: table_inv_def)
qed

section \<open>A whole event\<close>

lemma candidate:
  assumes "TdIsTimingCandidate e i s = (b, s')"
  shows "hv_tsc s' = hv_tsc s \<or> hv_tsc s' = (hv_tsc s)[i := zero_tsc_entry]"
    "b \<Longrightarrow> s' = s \<and> 0 < te_Difference (hv_tsc s ! i) \<and> te_Difference (hv_tsc s ! i) \<le> 0x50000 \<and>
       \<not> IS_ORPHAN_SIBLING (hv_tsc s ! i) \<and> sync_ok (hv_tsc s ! i) \<and> skips_ok (hv_tsc s ! i) \<and> count_ok (hv_tsc s ! i)"
  using assms
  by (auto simp: TdIsTimingCandidate_def TdDiscontinueSiblingAssesment_def set_entry_def TdClearSibling_def Let_def
      word_gt_0 not_less split: if_splits)

lemma map_address_tsc: "TdMapAddress e c a s = Some (p, s') \<Longrightarrow> hv_tsc s' = hv_tsc s"
  by (auto simp: TdMapAddress_def Let_def split: option.splits prod.splits if_splits)

lemma copy_memory_tsc: "TdCopySiblingMemory e E Code s = Some (r, s') \<Longrightarrow> hv_tsc s' = hv_tsc s"
  by (auto simp: TdCopySiblingMemory_def TdUnmapAddress_def Let_def
      dest!: map_address_tsc split: option.splits prod.splits if_splits)

lemma timing_attack_tsc:
  assumes "TdIsTimingAttack e R s = Some (b, R', s')"
  shows "hv_tsc s' = hv_tsc s"
  using assms by (auto simp: TdIsTimingAttack_def Let_def dest: copy_memory_tsc split: option.splits prod.splits)

lemma notify_tsc [simp]:
  "hv_tsc (TdTimingAttackNotify e R s) = hv_tsc s" "hv_tsc (TdTimingFalsePositiveNotify e R s) = hv_tsc s"
  by (simp_all add: TdTimingAttackNotify_def TdTimingFalsePositiveNotify_def notify_or_warn_def TdMessageNotify_def
      Let_def split: prod.split)

lemma process_event_table:
  assumes "TdProcessTscEvent e off ts s = Some (b, s')"
  obtains i Head where "record_hit e off ts (hv_tsc s) = Some (i, Head)"
    "hv_tsc s' = Head \<or> hv_tsc s' = Head[i := zero_tsc_entry]"
proof -
  obtain i Head where h: "record_hit e off ts (hv_tsc s) = Some (i, Head)" using record_hit_total by blast
  obtain c s1 where c: "TdIsTimingCandidate e i (s\<lparr>hv_tsc := Head\<rparr>) = (c, s1)" by fastforce
  show ?thesis
  proof (rule that [OF h], cases c)
    case False
    then show "hv_tsc s' = Head \<or> hv_tsc s' = Head[i := zero_tsc_entry]"
      using assms candidate(1) [OF c] by (simp add: TdProcessTscEvent_def h c)
  next
    case True
    then have s1: "hv_tsc s1 = Head" using candidate(2) [OF c] by simp
    then show "hv_tsc s' = Head \<or> hv_tsc s' = Head[i := zero_tsc_entry]"
      using assms True
      by (auto simp: TdProcessTscEvent_def h c set_entry_def TdClearSibling_def Let_def
          dest!: timing_attack_tsc split: option.splits prod.splits if_splits)
  qed
qed

lemma process_event_quiet:
  assumes "table_inv n (hv_tsc s)" "n < 255" "off \<noteq> 0" "tsc_hash e \<noteq> 0"
  obtains s' where "TdProcessTscEvent e off ts s = Some (False, s')" "table_inv (Suc n) (hv_tsc s')"
proof -
  obtain i Head where h: "record_hit e off ts (hv_tsc s) = Some (i, Head)" using record_hit_total by blast
  note I = record_hit_inv [OF h assms(1,3,4)]
  obtain c s1 where c: "TdIsTimingCandidate e i (s\<lparr>hv_tsc := Head\<rparr>) = (c, s1)" by fastforce
  have "slot_inv (Suc n) (Head ! i)" using I by (auto simp: table_inv_def)
  then have "\<not> count_ok (Head ! i)" using assms(2) by (auto simp: slot_inv_def count_ok_def word_less_nat_alt)
  then have "\<not> c" using candidate(2) [OF c] by auto
  moreover have "table_inv (Suc n) (hv_tsc s1)"
    using candidate(1) [OF c] I(2) slot_inv_zero set_update_subset_insert [of Head i zero_tsc_entry]
    by (auto simp: table_inv_def)
  ultimately show ?thesis using that by (simp add: TdProcessTscEvent_def h c)
qed

text \<open>A sequence of reads: who reads, where and when; the answers and the final state.\<close>

fun tsc_events :: "(hv_env \<times> u64 \<times> u64) list \<Rightarrow> hv_state \<Rightarrow> (bool list \<times> hv_state) option" where
  "tsc_events [] s = Some ([], s)"
| "tsc_events ((e, off, ts) # es) s =
     (case TdProcessTscEvent e off ts s of
        None \<Rightarrow> None
      | Some (b, s) \<Rightarrow> map_option (\<lambda>(bs, s). (b # bs, s)) (tsc_events es s))"

definition events_ok :: "(hv_env \<times> u64 \<times> u64) list \<Rightarrow> bool" where
  "events_ok es \<longleftrightarrow> (\<forall>(e, off, ts) \<in> set es. off \<noteq> 0 \<and> tsc_hash e \<noteq> 0)"

lemma quiet_events:
  "table_inv n (hv_tsc s) \<Longrightarrow> events_ok es \<Longrightarrow> n + List.length es \<le> 255 \<Longrightarrow>
     \<exists>s'. tsc_events es s = Some (replicate (List.length es) False, s') \<and> table_inv (n + List.length es) (hv_tsc s')"
proof (induction es s arbitrary: n rule: tsc_events.induct)
  case (2 e off ts es s)
  have "off \<noteq> 0" "tsc_hash e \<noteq> 0" "events_ok es" "n < 255" using "2.prems"(2,3) by (auto simp: events_ok_def)
  then obtain s1 where s1: "TdProcessTscEvent e off ts s = Some (False, s1)" "table_inv (Suc n) (hv_tsc s1)"
    using process_event_quiet [OF "2.prems"(1)] by blast
  obtain s' where "tsc_events es s1 = Some (replicate (List.length es) False, s')" "table_inv (Suc n + List.length es) (hv_tsc s')"
    using "2.IH" [OF s1(1) refl s1(2) \<open>events_ok es\<close>] "2.prems"(3) by auto
  then show ?case using s1(1) by simp
qed simp

lemma zero_table_inv: "table_inv 0 (replicate MAX_TSC_HITS zero_tsc_entry)"
  using slot_inv_zero by (simp add: table_inv_def)

text \<open>
  C21: No sequence of fewer than 256 time stamp reads is reported as an attack, whatever
  processes and addresses it comes from, and handling it always terminates normally: the
  assertions about the table hold and no code is read.\<close>
theorem no_report_below_256:
  assumes "hv_tsc s = replicate MAX_TSC_HITS zero_tsc_entry" "events_ok es" "List.length es < 256"
  shows "\<exists>s'. tsc_events es s = Some (replicate (List.length es) False, s')"
  using quiet_events [of 0 s es] zero_table_inv assms by auto

theorem no_report_below_256_witness:
  "\<exists>s'. tsc_events (replicate 200 (example_hv_env, 0x401000, 7)) example_hv = Some (replicate 200 False, s')"
proof -
  have "hv_tsc example_hv = replicate MAX_TSC_HITS zero_tsc_entry" by (simp add: example_hv_def)
  moreover have "events_ok (replicate 200 (example_hv_env, 0x401000, 7))"
    by (auto simp: events_ok_def tsc_hash_def example_hv_env_def)
  ultimately show ?thesis using no_report_below_256 [of example_hv "replicate 200 (example_hv_env, 0x401000, 7)"] by simp
qed

section \<open>How far apart the reads of a pair are\<close>

text \<open>For addresses below 2 GB the distance of \<open>abs\<close> is the distance.\<close>

lemma abs_int_small:
  assumes "a < 0x80000000" "b < 0x80000000"
  shows "abs_int (a - b) = \<bar>int (unat a) - int (unat b)\<bar>"
proof -
  let ?d = "int (unat a) - int (unat b)"
  have "unat a < 2147483648" "unat b < 2147483648" using assms by (simp_all add: word_less_nat_alt)
  then have "- 2147483648 < ?d" "?d < 2147483648" by linarith+
  then have r: "- (2 ^ 31) < ?d" "?d < 2 ^ 31" by simp_all
  have "a - b = word_of_int ?d" by (simp add: of_int_diff)
  moreover have "(ucast (word_of_int k :: u64) :: u32) = word_of_int k" for k
    by (rule bit_word_eqI) (simp add: bit_unsigned_iff bit_word_of_int_iff)
  ultimately have "(ucast (a - b) :: u32) = word_of_int ?d" by (simp only:)
  then have "sint (ucast (a - b) :: u32) = signed_take_bit 31 ?d"
    by (simp only: signed_of_int len_num1 len_bit0 diff_Suc_1) simp
  also have "\<dots> = ?d" using r by (intro signed_take_bit_int_eq_self) auto
  finally have "sint (ucast (a - b) :: u32) = ?d" .
  moreover have "?d \<noteq> - (2 ^ 31)" using r(1) by simp
  ultimately show ?thesis unfolding abs_int_def by simp
qed

definition near_slot :: "tsc_entry \<Rightarrow> bool" where
  "near_slot E \<longleftrightarrow> (TdIsFreeSlot E \<longrightarrow> E = zero_tsc_entry) \<and> th_Address (te_Before E) < 0x80000000 \<and>
     (let B = unat (th_Address (te_Before E)); A = unat (th_Address (te_After E)) in A = 0 \<or> B < A \<and> A - B < SIBLING_DISTANCE_LIMIT)"

lemma near_slot_update:
  assumes "near_slot E" "te_TscHash E \<noteq> 0" "TdUpdateSibling E off ts = Some E'" "off \<noteq> 0" "off < 0x80000000"
    "ARE_VAS_WITHIN_SIBLING_RANGE (th_Address (te_Before E)) off"
  shows "near_slot E'"
proof -
  let ?B = "th_Address (te_Before E)" and ?A = "th_Address (te_After E)"
  have B: "?B \<noteq> 0" "?B < 0x80000000"
    using assms(1,2) by (auto simp: near_slot_def TdIsFreeSlot_def zero_tsc_entry_def)
  have "\<bar>int (unat ?B) - int (unat off)\<bar> < int SIBLING_DISTANCE_LIMIT"
    using assms(6) abs_int_small [OF B(2) assms(5)] by (simp only: ARE_VAS_WITHIN_SIBLING_RANGE_def)
  then have d: "unat ?B - unat off < SIBLING_DISTANCE_LIMIT" "unat off - unat ?B < SIBLING_DISTANCE_LIMIT" by linarith+
  obtain S b where S: "choose_hit E off = Some (S, b)"
    "te_Before E' = (if b then TdHitIncrement (te_Before S) ts else te_Before S)"
    "te_After E' = (if b then te_After S else TdHitIncrement (te_After S) ts)"
    using update_sibling_hits [OF assms(3)] .
  have a: "th_Address (te_Before E') = th_Address (te_Before S)" "th_Address (te_After E') = th_Address (te_After S)"
    by (simp_all add: S(2,3) TdHitIncrement_def)
  have AB: "unat ?A = 0 \<or> unat ?B < unat ?A \<and> unat ?A - unat ?B < SIBLING_DISTANCE_LIMIT"
    using assms(1) by (simp add: near_slot_def Let_def)
  show ?thesis
  proof (cases "off = ?B \<or> off = ?A \<or> ?A \<noteq> 0")
    case True
    then have "th_Address (te_Before S) = ?B" "th_Address (te_After S) = ?A"
      using S(1) by (auto simp: choose_hit_def split: if_splits)
    then show ?thesis unfolding near_slot_def Let_def TdIsFreeSlot_def a using B AB by simp
  next
    case False
    then have h: "off \<noteq> ?B" "?A = 0" by auto
    show ?thesis
    proof (cases "off < ?B")
      case True
      then have "th_Address (te_Before S) = off" "th_Address (te_After S) = ?B"
        using S(1) h assms(4) by (auto simp: choose_hit_def split: if_splits)
      then show ?thesis unfolding near_slot_def Let_def TdIsFreeSlot_def a
        using True d assms(4,5) by (auto simp: word_less_nat_alt)
    next
      case False
      then have "th_Address (te_Before S) = ?B" "th_Address (te_After S) = off"
        using S(1) h assms(4) by (auto simp: choose_hit_def split: if_splits)
      moreover have "unat ?B < unat off" using False h(1) by (simp add: word_less_nat_alt word_unat_eq_iff)
      ultimately show ?thesis unfolding near_slot_def Let_def TdIsFreeSlot_def a
        using d B by (auto simp: word_less_nat_alt)
    qed
  qed
qed

definition near_table :: "tsc_entry list \<Rightarrow> bool" where
  "near_table Head \<longleftrightarrow> List.length Head = MAX_TSC_HITS \<and> (\<forall>E \<in> set Head. near_slot E)"

lemma near_zero: "near_slot zero_tsc_entry"
  by (simp add: near_slot_def zero_tsc_entry_def zero_hit_def)

lemma record_hit_near:
  assumes "record_hit e off ts Head = Some (i, Head')" "near_table Head" "off \<noteq> 0" "off < 0x80000000" "tsc_hash e \<noteq> 0"
  shows "near_table Head'"
proof -
  have "i < MAX_TSC_HITS \<and> List.length Head' = MAX_TSC_HITS \<and> (\<forall>E \<in> set Head'. near_slot E)"
  proof (rule record_hit_keeps [OF assms(1), where P = near_slot])
    show "near_slot E'" if "near_slot E" "te_TscHash E = tsc_hash e"
      "ARE_VAS_WITHIN_SIBLING_RANGE (th_Address (te_Before E)) off" "TdUpdateSibling E off ts = Some E'" for E E'
      using near_slot_update [OF that(1) _ that(4) assms(3,4) that(3)] that(2) assms(5) by simp
    show "near_slot (new_sibling off (tsc_hash e) ts)"
      using assms(3,4) by (simp add: near_slot_def TdIsFreeSlot_def new_sibling_def zero_tsc_entry_def zero_hit_def)
  qed (use assms(2) in \<open>auto simp: near_table_def near_slot_def\<close>)
  then show ?thesis by (simp add: near_table_def)
qed

lemma process_event_near:
  assumes "TdProcessTscEvent e off ts s = Some (b, s')" "near_table (hv_tsc s)" "off \<noteq> 0" "off < 0x80000000" "tsc_hash e \<noteq> 0"
  shows "near_table (hv_tsc s')"
proof -
  obtain i Head where h: "record_hit e off ts (hv_tsc s) = Some (i, Head)" "hv_tsc s' = Head \<or> hv_tsc s' = Head[i := zero_tsc_entry]"
    using process_event_table [OF assms(1)] .
  have n: "near_table Head" using record_hit_near [OF h(1) assms(2-5)] .
  then have "near_table (Head[i := zero_tsc_entry])"
    using near_zero set_update_subset_insert [of Head i zero_tsc_entry] by (auto simp: near_table_def)
  then show ?thesis using h(2) n by auto
qed

lemma events_near:
  "tsc_events es s = Some (bs, s') \<Longrightarrow> near_table (hv_tsc s) \<Longrightarrow> events_ok es \<Longrightarrow>
     \<forall>(e, off, ts) \<in> set es. off < 0x80000000 \<Longrightarrow> near_table (hv_tsc s')"
proof (induction es s arbitrary: bs rule: tsc_events.induct)
  case (2 e off ts es s)
  from "2.prems"(1) obtain b s1 bs1 where s1: "TdProcessTscEvent e off ts s = Some (b, s1)" "tsc_events es s1 = Some (bs1, s')"
    by (auto split: option.splits)
  have "near_table (hv_tsc s1)"
    by (rule process_event_near [OF s1(1) "2.prems"(2)]) (use "2.prems"(3,4) in \<open>auto simp: events_ok_def\<close>)
  then show ?case using "2.IH" [OF s1(1) refl s1(2)] "2.prems"(3,4) by (auto simp: events_ok_def)
qed simp

text \<open>The first two reads of a process on an empty table.\<close>

lemma zero_slot: "i < MAX_TSC_HITS \<Longrightarrow> replicate MAX_TSC_HITS zero_tsc_entry ! i = zero_tsc_entry"
  by simp

lemma slots_from_0: "[0..<MAX_TSC_HITS] = 0 # [1..<MAX_TSC_HITS]"
  using upt_conv_Cons [of 0 MAX_TSC_HITS] by (simp add: MAX_TSC_HITS_def)

lemma new_sibling_sel [simp]:
  "te_Difference (new_sibling off h ts) = 0" "te_TscHash (new_sibling off h ts) = h" "te_After (new_sibling off h ts) = zero_hit"
  "te_Before (new_sibling off h ts) = \<lparr>th_Address = off, th_TimeStamp = ts, th_Count = 1\<rparr>"
  by (simp_all add: new_sibling_def zero_tsc_entry_def)

lemma first_hit:
  assumes "tsc_hash e \<noteq> 0"
  shows "record_hit e off ts (replicate MAX_TSC_HITS zero_tsc_entry) =
    Some (0, (replicate MAX_TSC_HITS zero_tsc_entry)[0 := new_sibling off (tsc_hash e) ts])"
proof -
  have "TdFindSibling (replicate MAX_TSC_HITS zero_tsc_entry) (tsc_hash e) off = None"
    using assms zero_slot by (auto simp: TdFindSibling_def find_None_iff Let_def zero_tsc_entry_def)
  moreover have z: "replicate MAX_TSC_HITS zero_tsc_entry ! 0 = zero_tsc_entry" by (rule zero_slot) (simp add: MAX_TSC_HITS_def)
  moreover have "TdIsFreeSlot zero_tsc_entry" by (simp add: TdIsFreeSlot_def zero_tsc_entry_def zero_hit_def)
  ultimately show ?thesis
    by (simp add: record_hit_def TdCreateSibling_def TdGetSiblingSlot_def slots_from_0 new_sibling_def Let_def)
qed

lemma second_hit:
  assumes "List.length Head = MAX_TSC_HITS" "ARE_VAS_WITHIN_SIBLING_RANGE off off'" "off < off'"
  obtains E where "record_hit e off' ts' (Head[0 := new_sibling off (tsc_hash e) ts]) = Some (0, Head[0 := E])"
    "th_Address (te_Before E) = off" "th_Address (te_After E) = off'"
    "th_Count (te_Before E) = 1" "te_Difference E = word_of_int (abs_int (ts' - ts))"
proof -
  let ?N = "new_sibling off (tsc_hash e) ts" let ?H = "Head[0 := ?N]"
  have n: "?H ! 0 = ?N" "0 < MAX_TSC_HITS" using assms(1) by (simp_all add: MAX_TSC_HITS_def)
  have f: "TdFindSibling ?H (tsc_hash e) off' = Some 0"
    using assms(2) by (simp add: TdFindSibling_def slots_from_0 n zero_hit_def)
  obtain E where E: "TdUpdateSibling ?N off' ts' = Some E"
    using update_sibling_total [of ?N off'] by (auto simp: zero_hit_def)
  have c: "choose_hit ?N off' = Some (?N\<lparr>te_After := zero_hit\<lparr>th_Address := off'\<rparr>\<rparr>, False)"
    using assms(3) by (auto simp: choose_hit_def) (auto simp: zero_hit_def)
  have a: "te_Difference (update_difference (?N\<lparr>te_After := h\<rparr>) ts') = word_of_int (abs_int (ts' - ts))" for h
    by (simp add: update_difference_def)
  have "th_Address (te_Before E) = off" "th_Address (te_After E) = off'" "th_Count (te_Before E) = 1"
    "te_Difference E = word_of_int (abs_int (ts' - ts))"
    using E by (auto simp: TdUpdateSibling_def c TdHitIncrement_def Let_def a)
  moreover have "record_hit e off' ts' ?H = Some (0, Head[0 := E])" using f E n by (simp add: record_hit_def)
  ultimately show ?thesis using that by blast
qed

text \<open>
  C33: As long as the intercepted reads lie below 2 GB, every pair in the table has its first
  address below its second, and the code between them is shorter than the buffer it is
  copied to.\<close>
theorem pairs_fit_the_buffer:
  assumes "hv_tsc s = replicate MAX_TSC_HITS zero_tsc_entry" "events_ok es" "\<forall>(e, off, ts) \<in> set es. off < 0x80000000"
    "tsc_events es s = Some (bs, s')" "E \<in> set (hv_tsc s')" "\<not> IS_ORPHAN_SIBLING E"
  shows "th_Address (te_Before E) < th_Address (te_After E) \<and>
    unat (th_Address (te_After E) - th_Address (te_Before E)) < SIBLING_DISTANCE_LIMIT"
proof -
  have "near_table (hv_tsc s)" using near_zero by (simp add: assms(1) near_table_def)
  then have "near_slot E" using events_near [OF assms(4)] assms(2,3,5) by (auto simp: near_table_def)
  then have "unat (th_Address (te_Before E)) < unat (th_Address (te_After E))"
    "unat (th_Address (te_After E)) - unat (th_Address (te_Before E)) < SIBLING_DISTANCE_LIMIT"
    using assms(6) by (auto simp: near_slot_def IS_ORPHAN_SIBLING_def Let_def unat_eq_0)
  then show ?thesis by (simp add: word_less_nat_alt unat_sub word_le_nat_alt)
qed

theorem pairs_fit_the_buffer_witness:
  "\<exists>s' E. tsc_events [(example_hv_env, 0x401000, 7), (example_hv_env, 0x401010, 9)] example_hv = Some ([False, False], s') \<and>
     E \<in> set (hv_tsc s') \<and> \<not> IS_ORPHAN_SIBLING E \<and> th_Address (te_Before E) < th_Address (te_After E)"
proof -
  let ?es = "[(example_hv_env, 0x401000 :: u64, 7 :: u64), (example_hv_env, 0x401010, 9)]"
  let ?Z = "replicate MAX_TSC_HITS zero_tsc_entry"
  have z: "hv_tsc example_hv = ?Z" by (simp add: example_hv_def)
  have h: "tsc_hash example_hv_env \<noteq> 0" by (simp add: tsc_hash_def example_hv_env_def)
  have ok: "events_ok ?es" using h by (simp add: events_ok_def)
  have t0: "table_inv 0 (hv_tsc example_hv)" using zero_table_inv z by simp
  obtain s1 where s1: "TdProcessTscEvent example_hv_env 0x401000 7 example_hv = Some (False, s1)" "table_inv 1 (hv_tsc s1)"
    using process_event_quiet [OF t0, of "0x401000" example_hv_env 7] h by auto
  let ?N = "new_sibling 0x401000 (tsc_hash example_hv_env) 7"
  have l: "(0 :: nat) < MAX_TSC_HITS" by (simp add: MAX_TSC_HITS_def)
  have H1: "hv_tsc s1 = ?Z[0 := ?N]"
    using s1(1) l by (auto simp: TdProcessTscEvent_def z first_hit [OF h] TdIsTimingCandidate_def)
  obtain s2 where s2: "TdProcessTscEvent example_hv_env 0x401010 9 s1 = Some (False, s2)"
    using process_event_quiet [OF s1(2), of "0x401010" example_hv_env 9] h by auto
  have r: "ARE_VAS_WITHIN_SIBLING_RANGE 0x401000 0x401010"
    using abs_int_small [of "0x401000" "0x401010"] by (simp add: ARE_VAS_WITHIN_SIBLING_RANGE_def SIBLING_DISTANCE_LIMIT_def)
  obtain E where E: "record_hit example_hv_env 0x401010 9 (hv_tsc s1) = Some (0, ?Z[0 := E])"
    "th_Address (te_Before E) = 0x401000" "th_Address (te_After E) = 0x401010" "th_Count (te_Before E) = 1"
    "te_Difference E = word_of_int (abs_int (9 - 7))"
    using second_hit [OF _ r, of ?Z example_hv_env 9 7] unfolding H1 by auto
  have d: "te_Difference E = 2" unfolding E(5) using abs_int_small [of 9 7] by simp
  have e0: "?Z[0 := E] ! 0 = E" using l by simp
  have "hv_tsc s2 = ?Z[0 := E]"
    using s2 l d E(2-4)
    by (auto simp: TdProcessTscEvent_def E(1) TdIsTimingCandidate_def e0 count_ok_def Let_def split: prod.splits if_splits)
  then have m: "E \<in> set (hv_tsc s2)" using l by (simp add: set_update_memI)
  have run: "tsc_events ?es example_hv = Some ([False, False], s2)" using s1(1) s2 by simp
  have o: "\<not> IS_ORPHAN_SIBLING E" using E(2,3) by (simp add: IS_ORPHAN_SIBLING_def)
  have "th_Address (te_Before E) < th_Address (te_After E)"
    using pairs_fit_the_buffer [OF z ok _ run m o] by simp
  then show ?thesis using run m o by blast
qed

section \<open>Reads far apart\<close>

lemma copy_too_long:
  assumes "255 < unat n" "List.length Code = 255"
  shows "copy_code Code e s va (unat n) = None"
  using assms by (simp add: copy_code_def)

text \<open>
  The distance of two reads is tested in 32 bits.  Two reads 4 GB apart become a pair, and
  once their pages can be mapped, copying the code between them writes beyond the buffer of
  255 bytes on the host's stack.\<close>
theorem distant_reads_overflow:
  assumes "off < 0x7FFF00000000" "tsc_hash e \<noteq> 0"
  shows "\<exists>Head E Head'. record_hit e off ts (replicate MAX_TSC_HITS zero_tsc_entry) = Some (0, Head) \<and>
    record_hit e (off + 0x100000000) ts' Head = Some (0, Head') \<and> Head' ! 0 = E \<and>
    th_Address (te_Before E) = off \<and> th_Address (te_After E) = off + 0x100000000 \<and>
    (\<forall>s p s1 q s2. TdMapAddress e (VmReadN s GUEST_CR3) off s = Some (Some p, s1) \<longrightarrow>
       TdMapAddress e (VmReadN s GUEST_CR3) (off + 0x100000000) s1 = Some (Some q, s2) \<longrightarrow>
       TdCopySiblingMemory e E (replicate SIBLING_DISTANCE_LIMIT 0) s = None)"
proof -
  let ?Z = "replicate MAX_TSC_HITS zero_tsc_entry"
  have l: "(0 :: nat) < MAX_TSC_HITS" by (simp add: MAX_TSC_HITS_def)
  have u: "unat (off + 0x100000000) = unat off + 0x100000000"
    using assms(1) by (simp add: word_less_nat_alt unat_word_ariths)
  have r: "ARE_VAS_WITHIN_SIBLING_RANGE off (off + 0x100000000)"
    by (simp add: ARE_VAS_WITHIN_SIBLING_RANGE_def abs_int_def SIBLING_DISTANCE_LIMIT_def)
  have lt: "off < off + 0x100000000" by (simp add: word_less_nat_alt u)
  obtain E where E: "record_hit e (off + 0x100000000) ts' (?Z[0 := new_sibling off (tsc_hash e) ts]) = Some (0, ?Z[0 := E])"
    "th_Address (te_Before E) = off" "th_Address (te_After E) = off + 0x100000000"
    using second_hit [OF _ r lt, of ?Z e ts' ts] by auto
  have "TdCopySiblingMemory e E (replicate SIBLING_DISTANCE_LIMIT 0) s = None"
    if m: "TdMapAddress e (VmReadN s GUEST_CR3) off s = Some (Some p, s1)"
      "TdMapAddress e (VmReadN s GUEST_CR3) (off + 0x100000000) s1 = Some (Some q, s2)" for s p s1 q s2
  proof -
    have "BYTE_OFFSET q \<le> 0xFFF" by (simp add: BYTE_OFFSET_def word_and_le1)
    then have "255 < unat (0x100000000 - BYTE_OFFSET q)"
      by (simp add: unat_sub word_le_nat_alt)
    then have c: "copy_code (replicate SIBLING_DISTANCE_LIMIT 0) e t p (unat (0x100000000 - BYTE_OFFSET q)) = None" for t
      by (rule copy_too_long) (simp add: SIBLING_DISTANCE_LIMIT_def)
    have d: "copy_code (replicate SIBLING_DISTANCE_LIMIT 0) e t p (unat (0x100000000 :: u64)) = None" for t
      by (rule copy_too_long) (simp_all add: SIBLING_DISTANCE_LIMIT_def)
    show ?thesis using c d by (simp add: TdCopySiblingMemory_def Let_def E(2,3) m)
  qed
  then show ?thesis using first_hit [OF assms(2)] E l by (intro exI conjI) auto
qed

theorem distant_reads_overflow_witness:
  "\<exists>E. th_Address (te_After E) = 0x100401000 \<and> TdCopySiblingMemory example_hv_env E (replicate SIBLING_DISTANCE_LIMIT 0) example_hv = None"
proof -
  have h: "tsc_hash example_hv_env \<noteq> 0" by (simp add: tsc_hash_def example_hv_env_def)
  have g: "VmReadN example_hv GUEST_CR3 = 0"
    by (simp add: example_hv_def example_vmcs_def vmx_read vmx_values VMCS_FIELD_WIDTH_def WIDTH_PLATFORM_def WIDTH_32_def)
  have "\<exists>p s1 q s2. TdMapAddress example_hv_env 0 0x401000 example_hv = Some (Some p, s1) \<and>
      TdMapAddress example_hv_env 0 0x100401000 s1 = Some (Some q, s2)"
    by (simp add: TdMapAddress_def MmuGetPhysicalAddress_def example_hv_env_def example_hv_def PAGE_ALIGN_def
        MmuMapIoPage_def MmuAcquireMapping_def MAX_MAPPING_SLOTS_def upt_rec example_slots_def example_mmu_def get_map_def
        set_map_def MmupWriteMappingPte_def Let_def)
  then obtain p s1 q s2 where m: "TdMapAddress example_hv_env (VmReadN example_hv GUEST_CR3) 0x401000 example_hv = Some (Some p, s1)"
    "TdMapAddress example_hv_env (VmReadN example_hv GUEST_CR3) (0x401000 + 0x100000000) s1 = Some (Some q, s2)"
    by (auto simp: g)
  obtain E where "th_Address (te_After E) = 0x401000 + 0x100000000"
    "\<forall>s p s1 q s2. TdMapAddress example_hv_env (VmReadN s GUEST_CR3) 0x401000 s = Some (Some p, s1) \<longrightarrow>
       TdMapAddress example_hv_env (VmReadN s GUEST_CR3) (0x401000 + 0x100000000) s1 = Some (Some q, s2) \<longrightarrow>
       TdCopySiblingMemory example_hv_env E (replicate SIBLING_DISTANCE_LIMIT 0) s = None"
    using distant_reads_overflow [OF _ h, of "0x401000" 7 9] by auto
  then show ?thesis using m by (intro exI [of _ E] conjI) (simp, blast)
qed

end
