(* ===== verification/Exits.thy ===== *)
theory Exits
  imports Tsc Arena
begin

text \<open>
  The handler of the exits (\<open>exits.c\<close>): control registers, identification, the intercepted time
  stamp instructions, which it finds by reading the guest's code through the page mapper, and
  the dispatch on the reason of the exit.
\<close>

section \<open>Control registers\<close>

datatype ia32_control_registers = IA32_CTRL_CR0 | IA32_CTRL_CR2 | IA32_CTRL_CR3 | IA32_CTRL_CR4 | IA32_CTRL_CR8 | UNSUPPORTED_CR

definition LookupCr :: "ia32_control_registers list" where
  "LookupCr = [IA32_CTRL_CR0, UNSUPPORTED_CR, UNSUPPORTED_CR, IA32_CTRL_CR3, IA32_CTRL_CR4, UNSUPPORTED_CR, UNSUPPORTED_CR,
     UNSUPPORTED_CR, IA32_CTRL_CR8]"

text \<open>\<open>None\<close>: the number lies outside the table.\<close>

definition CrAccessHandler :: "hv_state \<Rightarrow> hv_state option" where
  "CrAccessHandler s =
     (let Qualification = VmReadN s EXIT_QUALIFICATION
      in if List.length LookupCr \<le> cr_Number Qualification then None
         else Some (InstrRipAdvance
           (case LookupCr ! cr_Number Qualification of
              IA32_CTRL_CR4 \<Rightarrow> InstrCr4Emulate Qualification s
            | IA32_CTRL_CR3 \<Rightarrow> InstrCr3Emulate Qualification s
            | _ \<Rightarrow> s)))"

section \<open>Identification\<close>

definition CPUID_VMM_VENDOR_SIGNATURE :: u32 where "CPUID_VMM_VENDOR_SIGNATURE = 0x40000000"
definition CPUID_VMM_INTERFACE_SIGNATURE :: u32 where "CPUID_VMM_INTERFACE_SIGNATURE = 0x40000001"
definition CPUID_LEAF_1H_ECX_HYPERVISOR_BIT :: u64 where "CPUID_LEAF_1H_ECX_HYPERVISOR_BIT = push_bit 31 1"

text \<open>The constants of four characters have the first in their most significant byte.\<close>

definition CpuidEmulate :: "hv_state \<Rightarrow> hv_state" where
  "CpuidEmulate s =
     (let Function = ucast (reg s RAX AND 0xFFFFFFFF)
      in if Function = CPUID_VMM_VENDOR_SIGNATURE
         then set_reg RAX 0x40000001 (set_reg RDX 0x4C796E78 (set_reg RCX 0x48656564 (set_reg RBX 0x42797465 s)))
         else if Function = CPUID_VMM_INTERFACE_SIGNATURE then set_reg RAX 0x3123784C s
         else let s = InstrCpuidEmulate s;
                  s = (if Function = CPUID_FEATURE_INFORMATION
                       then set_reg RCX (reg s RCX OR CPUID_LEAF_1H_ECX_HYPERVISOR_BIT) s else s)
              in InstrRipAdvance s)"

section \<open>Reading the guest's instruction\<close>

definition TSC_INS_LENGHT :: nat where "TSC_INS_LENGHT = 2"
definition TSCP_INS_LENGHT :: nat where "TSCP_INS_LENGHT = 3"
definition LAST_BYTE_IN_PAGE :: u64 where "LAST_BYTE_IN_PAGE = 4096 - 1"

text \<open>
  The bytes of the instruction are those of \<open>Opcode\<close> below \<open>Length\<close>; the rest of the buffer is
  never read.  \<open>None\<close> is a page fault on the mapped page.
\<close>

definition finish_read :: "u8 list \<Rightarrow> ntstatus \<times> u8 list" where
  "finish_read Opcode = (if TSC_INS_LENGHT \<le> List.length Opcode then STATUS_SUCCESS else STATUS_NO_MEMORY, Opcode)"

definition unmap_page :: "hv_env \<Rightarrow> u64 \<Rightarrow> hv_state \<Rightarrow> hv_state" where
  "unmap_page e CodePage s = s\<lparr>hv_mmu := MmuUnmapIoPage (he_cpu e) (hv_mmu s) CodePage\<rparr>"

text \<open>The translation of an address and the mapping of its page, \<open>None\<close> inside when either fails.\<close>

definition map_code :: "hv_env \<Rightarrow> u64 \<Rightarrow> u64 \<Rightarrow> hv_state \<Rightarrow> (u64 option \<times> hv_state) option" where
  "map_code e Cr3 va s =
     (case MmuGetPhysicalAddress (he_phys e) (he_os_pa e) (cpu_cr3 s) (he_cpu e) (hv_mmu s) Cr3 va of
        None \<Rightarrow> None
      | Some (CodePa, m) \<Rightarrow>
          if CodePa = 0 then Some (None, s\<lparr>hv_mmu := m\<rparr>)
          else let (CodePage, m) = MmuMapIoPage (he_cpu e) m CodePa False in Some (CodePage, s\<lparr>hv_mmu := m\<rparr>))"

text \<open>The bytes at some offsets of a mapped page.\<close>

definition code_bytes :: "hv_env \<Rightarrow> hv_state \<Rightarrow> u64 \<Rightarrow> u64 list \<Rightarrow> u8 list option" where
  "code_bytes e s CodePage offsets = those (map (\<lambda>i. load8 e s (CodePage + i)) offsets)"

definition VmReadGuestInstruction :: "hv_env \<Rightarrow> u64 \<Rightarrow> u64 \<Rightarrow> hv_state \<Rightarrow> ((ntstatus \<times> u8 list) \<times> hv_state) option" where
  "VmReadGuestInstruction e Cr3 RemoteVa s =
     (let PageCount = ADDRESS_AND_SIZE_TO_SPAN_PAGES RemoteVa TSCP_INS_LENGHT;
          ByteOffset = BYTE_OFFSET RemoteVa
      in case map_code e Cr3 RemoteVa s of
           None \<Rightarrow> None
         | Some (None, s) \<Rightarrow> Some (finish_read [], s)
         | Some (Some CodePage, s) \<Rightarrow>
             if PageCount = 1
             then map_option (\<lambda>Opcode. (finish_read Opcode, unmap_page e CodePage s))
                    (code_bytes e s CodePage [ByteOffset, ByteOffset + 1, ByteOffset + 2])
             else case code_bytes e s CodePage (ByteOffset # (if ByteOffset \<noteq> LAST_BYTE_IN_PAGE then [ByteOffset + 1] else [])) of
                    None \<Rightarrow> None
                  | Some Opcode \<Rightarrow>
                      let s = unmap_page e CodePage s
                      in case map_code e Cr3 (RemoteVa + of_nat TSCP_INS_LENGHT) s of
                           None \<Rightarrow> None
                         | Some (None, s) \<Rightarrow> Some (finish_read Opcode, s)
                         | Some (Some CodePage, s) \<Rightarrow>
                             map_option (\<lambda>Opcode2. (finish_read (Opcode @ Opcode2), unmap_page e CodePage s))
                               (code_bytes e s CodePage
                                 ((if ByteOffset = LAST_BYTE_IN_PAGE then [0] else []) @ [(ByteOffset + 2) mod 4096])))"

definition IS_RDTSC_INSTRUCTION :: "u8 list \<Rightarrow> bool" where
  "IS_RDTSC_INSTRUCTION Opcode \<longleftrightarrow> TSC_INS_LENGHT \<le> List.length Opcode \<and> Opcode ! 0 = 0x0F \<and> Opcode ! 1 = 0x31"

definition IS_RDTSCP_INSTRUCTION :: "u8 list \<Rightarrow> bool" where
  "IS_RDTSCP_INSTRUCTION Opcode \<longleftrightarrow>
     List.length Opcode = TSCP_INS_LENGHT \<and> Opcode ! 0 = 0x0F \<and> Opcode ! 1 = 0x01 \<and> Opcode ! 2 = 0xF9"

section \<open>The handlers\<close>

definition HW_EXCEPTION_UD_OR_GP :: "u32 \<Rightarrow> bool" where
  "HW_EXCEPTION_UD_OR_GP i \<longleftrightarrow> info_type i = INTERRUPT_HARDWARE_EXCEPTION \<and>
     (info_vector i = VECTOR_INVALID_OPCODE_EXCEPTION \<or> info_vector i = VECTOR_GENERAL_PROTECTION_EXCEPTION)"

definition DsHvmExceptionHandler :: "hv_env \<Rightarrow> hv_state \<Rightarrow> (bool \<times> hv_state) option" where
  "DsHvmExceptionHandler e s =
     (let Cr3 = VmReadN s GUEST_CR3
      in if \<not> MmuIsUserModeAddress (gr_Rip (hv_regs s)) then Some (False, s)
         else case VmReadGuestInstruction e Cr3 (gr_Rip (hv_regs s)) s of
                None \<Rightarrow> None
              | Some ((Status, Instruction), s) \<Rightarrow>
                  if NT_SUCCESS Status \<and> IS_RDTSC_INSTRUCTION Instruction then map_option (Pair True) (VmRdtscEmulate e s)
                  else if NT_SUCCESS Status \<and> IS_RDTSCP_INSTRUCTION Instruction
                  then map_option (Pair True) (VmRdtscpEmulate e s)
                  else Some (False, s))"

definition common_exits :: "u32 list" where
  "common_exits = [EXIT_REASON_INVD, EXIT_REASON_XSETBV] @ vmx_instruction_exits @ [EXIT_REASON_MSR_READ, EXIT_REASON_MSR_WRITE]"

definition DsHvmExitHandler :: "hv_env \<Rightarrow> u32 \<Rightarrow> hv_state \<Rightarrow> hv_state option" where
  "DsHvmExitHandler e ExitReason s =
     (if ExitReason \<in> set common_exits then map_option snd (HvmVcpuCommonExitsHandler e ExitReason s)
      else if ExitReason = EXIT_REASON_SOFTWARE_INTERRUPT_EXCEPTION_NMI
      then let InterruptInfo = VmRead32 s EXIT_INTERRUPTION_INFORMATION
           in if HW_EXCEPTION_UD_OR_GP InterruptInfo
              then case DsHvmExceptionHandler e s of
                     None \<Rightarrow> None
                   | Some (True, s) \<Rightarrow> Some s
                   | Some (False, s) \<Rightarrow> VmInjectHardwareException s InterruptInfo
              else Some (VmInjectInterruptOrException (he_stack e) s InterruptInfo)
      else if ExitReason = EXIT_REASON_CR_ACCESS then CrAccessHandler s
      else if ExitReason = EXIT_REASON_CPUID then Some (CpuidEmulate s)
      else if ExitReason = EXIT_REASON_INIT \<or> ExitReason = EXIT_REASON_SIPI \<or> ExitReason = EXIT_REASON_TRIPLE_FAULT then Some s
      else Some (do_op (OpBugCheck ExitReason) s))"

end
