(* ===== verification/Exits_Props.thy ===== *)
theory Exits_Props
  imports Exits
begin

text \<open>
  What the exit handler does for the guest: intercepted time stamp instructions are recognised
  by their bytes in the guest's memory, virtualisation instructions are refused, and the
  reasons nobody handles stop the machine.
\<close>

section \<open>Addresses within a page\<close>

lemma page_split:
  assumes "P AND 0xFFF = 0" "off AND NOT 0xFFF = (0 :: u64)"
  shows "PAGE_ALIGN (P + off) = P" "BYTE_OFFSET (P + off) = off"
proof -
  have p: "\<not> bit P n" if "n < 12" for n
  proof -
    have "bit (P AND mask 12) n = bit P n" using that by (simp add: bit_and_iff bit_mask_iff)
    moreover have "P AND mask 12 = 0" using assms(1) by (simp only: const_masks)
    ultimately show ?thesis by simp
  qed
  have o: "\<not> bit off n" if "12 \<le> n" for n
  proof -
    have "off AND NOT (mask 12) = 0" using assms(2) by (simp only: const_masks)
    moreover have "bit (off AND NOT (mask 12)) n = bit off n"
      using that by (auto simp: bit_and_iff bit_not_iff bit_mask_iff dest: bit_imp_le_length)
    ultimately show ?thesis by simp
  qed
  have e: "P + off = P OR off"
  proof (rule disjunctive_add_eq_or, rule bit_word_eqI)
    fix n assume "n < LENGTH(64)"
    show "bit (P AND off) n = bit (0::u64) n" using p [of n] o [of n] by (cases "n < 12") (auto simp: bit_simps)
  qed
  show "PAGE_ALIGN (P + off) = P"
  proof (unfold e PAGE_ALIGN_def const_masks, rule bit_word_eqI)
    fix n assume "n < LENGTH(64)"
    show "bit ((P OR off) AND NOT (mask 12)) n = bit P n"
      using p [of n] o [of n] \<open>n < LENGTH(64)\<close> by (cases "n < 12") (auto simp: bit_and_iff bit_or_iff bit_not_iff bit_mask_iff)
  qed
  show "BYTE_OFFSET (P + off) = off"
  proof (unfold e BYTE_OFFSET_def const_masks, rule bit_word_eqI)
    fix n assume "n < LENGTH(64)"
    show "bit ((P OR off) AND mask 12) n = bit off n"
      using p [of n] o [of n] by (cases "n < 12") (auto simp: bit_and_iff bit_or_iff bit_mask_iff)
  qed
qed

lemma page_parts: "PAGE_ALIGN a AND 0xFFF = 0" "BYTE_OFFSET a AND NOT 0xFFF = 0" "PAGE_ALIGN a + BYTE_OFFSET a = a"
proof -
  show "PAGE_ALIGN a AND 0xFFF = 0" "BYTE_OFFSET a AND NOT 0xFFF = 0"
    unfolding PAGE_ALIGN_def BYTE_OFFSET_def const_masks by (auto intro!: bit_word_eqI simp: bit_simps)
  have "PAGE_ALIGN a + BYTE_OFFSET a = PAGE_ALIGN a OR BYTE_OFFSET a"
    unfolding PAGE_ALIGN_def BYTE_OFFSET_def const_masks
    by (rule disjunctive_add_eq_or, rule bit_word_eqI) (auto simp: bit_simps)
  also have "\<dots> = a" unfolding PAGE_ALIGN_def BYTE_OFFSET_def const_masks by (rule bit_word_eqI) (auto simp: bit_simps)
  finally show "PAGE_ALIGN a + BYTE_OFFSET a = a" .
qed

text \<open>A page has 4096 offsets, and the next page follows the last.\<close>

lemma small_offset: "off < 4096 \<Longrightarrow> off AND NOT 0xFFF = (0 :: u64)"
  unfolding const_masks
proof (rule bit_word_eqI)
  fix n assume "off < (4096 :: u64)" "n < LENGTH(64)"
  then have "unat off < 2 ^ 12" by (simp add: word_less_nat_alt)
  then show "bit (off AND NOT (mask 12)) n = bit (0 :: u64) n"
    using bit_below [of off 12 n] by (cases "n < 12") (auto simp: bit_simps)
qed

lemma offset_small: "BYTE_OFFSET a < 4096"
  using word_and_le1 [of a "0xFFF"] by (simp add: BYTE_OFFSET_def word_le_nat_alt word_less_nat_alt)

lemma next_page: "P AND 0xFFF = 0 \<Longrightarrow> (P + 4096) AND 0xFFF = (0 :: u64)"
proof -
  assume a: "P AND 0xFFF = 0"
  have m: "unat (take_bit 12 x) = unat x mod 4096" for x :: u64
    by (subst unsigned_take_bit_eq) (simp add: take_bit_eq_mod)
  have "take_bit 12 P = 0" using a by (simp only: const_masks take_bit_eq_mask)
  then have "unat P mod 4096 = 0" using m [of P] by simp
  moreover have "unat (P + 4096) mod 4096 = (unat P + 4096) mod 4096"
    using mod_mod_cancel [of 4096 "2 ^ 64" "unat P + 4096"] by (simp add: unat_word_ariths)
  ultimately have "unat (take_bit 12 (P + 4096)) = 0" using m [of "P + 4096"] by simp
  then have "take_bit 12 (P + 4096) = 0" by (simp only: unat_eq_0)
  then show ?thesis by (simp only: const_masks take_bit_eq_mask)
qed

section \<open>The byte at a guest address\<close>

lemma same_page_pti: "PAGE_ALIGN a = PAGE_ALIGN b \<Longrightarrow> MmuAddressToPti k a = MmuAddressToPti k b"
proof -
  assume "PAGE_ALIGN a = PAGE_ALIGN b"
  then have m: "a AND NOT (mask 12) = b AND NOT (mask 12)" unfolding PAGE_ALIGN_def const_masks .
  have h: "bit a n = bit b n" if "12 \<le> n" for n
  proof (cases "n < 64")
    case True
    then show ?thesis using that arg_cong [OF m, of "\<lambda>x. bit x n"] by (simp add: bit_and_iff bit_not_iff bit_mask_iff)
  qed (auto dest: bit_imp_le_length)
  show ?thesis unfolding MmuAddressToPti_def PTI_SHIFT_def
  proof (rule bit_word_eqI)
    fix n
    show "bit (drop_bit (12 + 9 * (k - 1)) a AND 0x1FF) n = bit (drop_bit (12 + 9 * (k - 1)) b AND 0x1FF) n"
      using h [of "12 + 9 * (k - 1) + n"] by (simp add: bit_and_iff bit_drop_bit_eq)
  qed
qed

lemma same_page_walk:
  assumes "PAGE_ALIGN a = PAGE_ALIGN b"
  shows "page_walk phys a k t l \<longleftrightarrow> page_walk phys b k t l"
  by (induction k arbitrary: t rule: induct_nat_012)
    (simp_all add: page_walk_0 page_walk_1 page_walk_Suc same_page_pti [OF assms])

lemma walk_unique: "page_walk phys a k t l \<Longrightarrow> page_walk phys a k t l' \<Longrightarrow> l = l'"
  by (induction k arbitrary: t rule: induct_nat_012) (auto simp: page_walk_0 page_walk_1 page_walk_Suc)

text \<open>The page of an address is mapped, elsewhere than at frame 0, by an entry; the byte at it.\<close>

definition code_page :: "hv_env \<Rightarrow> u64 \<Rightarrow> u64 \<Rightarrow> u64 \<Rightarrow> bool" where
  "code_page e Cr3 va l \<longleftrightarrow> page_walk (he_phys e) va 4 Cr3 l \<and> l AND 0xFFFFFFFFFFFFF000 \<noteq> 0"

definition guest_byte :: "hv_env \<Rightarrow> u64 \<Rightarrow> u64 \<Rightarrow> u8 \<Rightarrow> bool" where
  "guest_byte e Cr3 va b \<longleftrightarrow>
     (\<exists>l. code_page e Cr3 va l \<and> b = ucast (he_phys e ((l AND PTE64_PFN_MASK) OR BYTE_OFFSET va)))"

lemma guest_byte_in_page:
  assumes "guest_byte e Cr3 (P + off) b" "P AND 0xFFF = 0" "off AND NOT 0xFFF = 0" "code_page e Cr3 va l" "PAGE_ALIGN va = P"
  shows "b = ucast (he_phys e ((l AND PTE64_PFN_MASK) OR off))"
proof -
  have "PAGE_ALIGN (P + off) = PAGE_ALIGN va" using page_split(1) [OF assms(2,3)] assms(5) by simp
  note w = same_page_walk [OF this]
  obtain l' where l': "page_walk (he_phys e) (P + off) 4 Cr3 l'"
    "b = ucast (he_phys e ((l' AND PTE64_PFN_MASK) OR BYTE_OFFSET (P + off)))"
    using assms(1) by (auto simp: guest_byte_def code_page_def)
  have "l' = l" using l'(1) assms(4) w walk_unique by (auto simp: code_page_def)
  then show ?thesis using l'(2) by (simp only: page_split(2) [OF assms(2,3)])
qed

text \<open>The processor has the page mapper's slots, one of them free, and is in another address space.\<close>

definition can_read :: "hv_env \<Rightarrow> u64 \<Rightarrow> hv_state \<Rightarrow> bool" where
  "can_read e Cr3 s \<longleftrightarrow> slots_ok (hv_mmu s) (he_cpu e) \<and>
     (\<exists>i<MAX_MAPPING_SLOTS. \<not> mp_MapInUse (get_map (hv_mmu s) (he_cpu e, i))) \<and>
     Cr3 AND 0xFFFFFFFFFFFFF000 \<noteq> 0 \<and> Cr3 AND 0xFFFFFFFFFFFFF000 \<noteq> cpu_cr3 s AND 0xFFFFFFFFFFFFF000"

text \<open>The mapped page shows the frame of the entry.\<close>

definition shows_page :: "hv_env \<Rightarrow> hv_state \<Rightarrow> u64 \<Rightarrow> u64 \<Rightarrow> bool" where
  "shows_page e s CodePage l \<longleftrightarrow> (\<forall>off. off AND NOT 0xFFF = 0 \<longrightarrow>
     load8 e s (CodePage + off) = Some (ucast (he_phys e ((l AND PTE64_PFN_MASK) OR off))))"

lemma map_code_ok:
  assumes r: "can_read e Cr3 s" and l: "code_page e Cr3 va l"
  obtains CodePage s' where "map_code e Cr3 va s = Some (Some CodePage, s')"
    "shows_page e s' CodePage l"
    "unmap_page e CodePage s' = s"
proof -
  let ?r = "(l AND 0xFFFFFFFFFFFFF000) OR (va AND 0xFFF)"
  have w: "walk_loop (he_phys e) (he_cpu e) va 4 (hv_mmu s) (Cr3 AND 0xFFFFFFFFFFFFF000) = Some (?r, hv_mmu s)"
    using walk_loop_correct [of "hv_mmu s" "he_cpu e" "he_phys e" va 4 "Cr3 AND 0xFFFFFFFFFFFFF000", unfolded page_walk_frame]
      r l by (auto simp: can_read_def code_page_def)
  then have p: "MmuGetPhysicalAddress (he_phys e) (he_os_pa e) (cpu_cr3 s) (he_cpu e) (hv_mmu s) Cr3 va = Some (?r, hv_mmu s)"
    using r by (simp only: can_read_def MmuGetPhysicalAddress_def Let_def MmuGetPagingLevels_def simp_thms if_False)
  have "?r AND 0xFFFFFFFFFFFFF000 = l AND 0xFFFFFFFFFFFFF000" by (simp add: bit.conj_disj_distrib2 and.assoc)
  then have nz: "?r \<noteq> 0" using l by (auto simp: code_page_def)
  have f: "?r AND PTE64_PFN_MASK = l AND PTE64_PFN_MASK" by (simp add: PTE64_PFN_MASK_def bit.conj_disj_distrib2 and.assoc)
  obtain CodePage m where m: "MmuMapIoPage (he_cpu e) (hv_mmu s) ?r False = (Some CodePage, m)"
    "\<forall>phys off. off AND NOT 0xFFF = 0 \<longrightarrow> load64 phys m (CodePage + off) = Some (phys ((l AND PTE64_PFN_MASK) OR off))"
    "MmuUnmapIoPage (he_cpu e) m CodePage = hv_mmu s"
    using map_load_unmap [of "hv_mmu s" "he_cpu e" ?r False, unfolded f] r by (auto simp: can_read_def)
  show ?thesis
  proof (rule that)
    show "map_code e Cr3 va s = Some (Some CodePage, s\<lparr>hv_mmu := m\<rparr>)"
      using nz by (simp add: map_code_def p m(1))
    show "shows_page e (s\<lparr>hv_mmu := m\<rparr>) CodePage l" using m(2) by (simp add: load8_def shows_page_def)
    show "unmap_page e CodePage (s\<lparr>hv_mmu := m\<rparr>) = s" using m(3) by (simp add: unmap_page_def)
  qed
qed

lemma code_page_same:
  assumes "PAGE_ALIGN a = PAGE_ALIGN b"
  shows "code_page e Cr3 a l \<longleftrightarrow> code_page e Cr3 b l"
  by (simp only: code_page_def same_page_walk [OF assms])

lemma code_bytes_Cons:
  "code_bytes e s CodePage (off # offs) =
     (case load8 e s (CodePage + off) of None \<Rightarrow> None | Some b \<Rightarrow> map_option (Cons b) (code_bytes e s CodePage offs))"
  by (simp add: code_bytes_def split: option.split)

lemma code_bytes_ok:
  assumes "shows_page e s CodePage l"
    "list_all2 (\<lambda>off b. off < 4096 \<and> guest_byte e Cr3 (P + off) b) offs bs" "P AND 0xFFF = 0" "code_page e Cr3 va l" "PAGE_ALIGN va = P"
  shows "code_bytes e s CodePage offs = Some bs"
  using assms(2)
proof (induction rule: list_all2_induct)
  case (Cons off offs b bs)
  then have o: "off < 4096" "guest_byte e Cr3 (P + off) b" by simp_all
  have "load8 e s (CodePage + off) = Some b"
    using assms(1) small_offset [OF o(1)] guest_byte_in_page [OF o(2) assms(3) small_offset [OF o(1)] assms(4,5)]
    by (simp only: shows_page_def)
  then show ?case by (simp only: code_bytes_Cons Cons.IH option.case option.map)
qed (simp add: code_bytes_def)

lemma read_instruction:
  assumes r: "can_read e Cr3 s" and b: "guest_byte e Cr3 R b0" "guest_byte e Cr3 (R + 1) b1" "guest_byte e Cr3 (R + 2) b2"
  shows "VmReadGuestInstruction e Cr3 R s = Some ((STATUS_SUCCESS, [b0, b1, b2]), s)"
proof -
  define P off where "P = PAGE_ALIGN R" and "off = BYTE_OFFSET R"
  have R: "R = P + off" and P: "P AND 0xFFF = 0" using page_parts [of R] by (simp_all add: P_def off_def)
  have o: "off < 4096" using offset_small by (simp add: off_def)
  have np: "(P + 4096) AND 0xFFF = 0" using next_page [OF P] .
  have pa: "PAGE_ALIGN (P + x) = P" "PAGE_ALIGN (P + 4096 + x) = P + 4096" if "x < 4096" for x
    using page_split(1) [OF P small_offset [OF that]] page_split(1) [OF np small_offset [OF that]] by simp_all
  have cnt: "ADDRESS_AND_SIZE_TO_SPAN_PAGES R 3 = (unat off + 3 + 4095) div 4096"
    by (simp add: ADDRESS_AND_SIZE_TO_SPAN_PAGES_def off_def BYTE_OFFSET_def)
  obtain l where l: "code_page e Cr3 R l" using b(1) by (auto simp: guest_byte_def)
  obtain C s' where C: "map_code e Cr3 R s = Some (Some C, s')"
    "shows_page e s' C l"
    "unmap_page e C s' = s" using map_code_ok [OF r l] by blast
  note first = code_bytes_ok [OF C(2) _ P l P_def [symmetric]]
  have fin: "finish_read [b0, b1, b2] = (STATUS_SUCCESS, [b0, b1, b2])" by (simp add: finish_read_def TSC_INS_LENGHT_def)
  consider "off < 4094" | "off = 4094" | "off = 4095"
    using o by (auto simp: word_less_nat_alt word_unat_eq_iff) linarith
  then show ?thesis
  proof cases
    case 1
    then have u: "unat (off + 1) = unat off + 1" "unat (off + 2) = unat off + 2"
      by (simp_all add: word_less_nat_alt unat_word_ariths)
    then have "off + 1 < 4096" "off + 2 < 4096" using 1 by (simp_all add: word_less_nat_alt)
    moreover have "P + off = R" "P + (off + 1) = R + 1" "P + (off + 2) = R + 2" by (simp_all add: R)
    ultimately have "list_all2 (\<lambda>off b. off < 4096 \<and> guest_byte e Cr3 (P + off) b) [off, off + 1, off + 2] [b0, b1, b2]"
      using b o by (simp only: list_all2_Cons list.rel_inject(1) simp_thms)
    then have "code_bytes e s' C [off, off + 1, off + 2] = Some [b0, b1, b2]" by (rule first)
    moreover have "(unat off + 3 + 4095) div 4096 = 1" using 1 by (simp add: word_less_nat_alt)
    ultimately show ?thesis
      using C(1,3) by (simp add: VmReadGuestInstruction_def Let_def cnt off_def [symmetric] fin TSCP_INS_LENGHT_def)
  next
    case 2
    have R1: "R + 1 = P + 4095" "R + 2 = P + 4096 + 0" "R + 3 = P + 4096 + 1" by (simp_all add: R 2 add.assoc)
    obtain l2 where l2: "code_page e Cr3 (R + 2) l2" using b(3) by (auto simp: guest_byte_def)
    have l3: "code_page e Cr3 (R + 3) l2" using l2 code_page_same [of "R + 2" "R + 3"] pa(2) [of 0] pa(2) [of 1] R1 by simp
    obtain D t where D: "map_code e Cr3 (R + 3) s = Some (Some D, t)"
      "shows_page e t D l2"
      "unmap_page e D t = s" using map_code_ok [OF r l3] by blast
    have "code_bytes e s' C [4094, 4095] = Some [b0, b1]"
    proof (rule first)
      have "P + 4094 = R" "P + 4095 = R + 1" "(4094 :: u64) < 4096" "(4095 :: u64) < 4096" by (simp_all add: R 2 R1)
      then show "list_all2 (\<lambda>off b. off < 4096 \<and> guest_byte e Cr3 (P + off) b) [4094, 4095] [b0, b1]"
        using b by (simp only: list_all2_Cons list.rel_inject(1) simp_thms)
    qed
    moreover have "code_bytes e t D [0] = Some [b2]"
    proof (rule code_bytes_ok [OF D(2) _ np l2])
      show "PAGE_ALIGN (R + 2) = P + 4096" unfolding R1 by (rule pa(2)) simp
      have "P + 4096 + 0 = R + 2" "(0 :: u64) < 4096" by (simp_all only: R1) simp
      then show "list_all2 (\<lambda>off b. off < 4096 \<and> guest_byte e Cr3 (P + 4096 + off) b) [0] [b2]"
        using b by (simp only: list_all2_Cons list.rel_inject(1) simp_thms)
    qed
    ultimately show ?thesis
      using C(1,3) D(1,3)
      by (simp add: VmReadGuestInstruction_def Let_def cnt off_def [symmetric] fin 2 LAST_BYTE_IN_PAGE_def TSCP_INS_LENGHT_def)
  next
    case 3
    have R1: "R + 1 = P + 4096 + 0" "R + 2 = P + 4096 + 1" "R + 3 = P + 4096 + 2" by (simp_all add: R 3 add.assoc)
    obtain l2 where l2: "code_page e Cr3 (R + 2) l2" using b(3) by (auto simp: guest_byte_def)
    have l3: "code_page e Cr3 (R + 3) l2" using l2 code_page_same [of "R + 2" "R + 3"] pa(2) [of 1] pa(2) [of 2] R1 by simp
    obtain D t where D: "map_code e Cr3 (R + 3) s = Some (Some D, t)"
      "shows_page e t D l2"
      "unmap_page e D t = s" using map_code_ok [OF r l3] by blast
    have "code_bytes e s' C [4095] = Some [b0]"
    proof (rule first)
      have "P + 4095 = R" "(4095 :: u64) < 4096" by (simp_all add: R 3)
      then show "list_all2 (\<lambda>off b. off < 4096 \<and> guest_byte e Cr3 (P + off) b) [4095] [b0]"
        using b by (simp only: list_all2_Cons list.rel_inject(1) simp_thms)
    qed
    moreover have "code_bytes e t D [0, 1] = Some [b1, b2]"
    proof (rule code_bytes_ok [OF D(2) _ np l2])
      show "PAGE_ALIGN (R + 2) = P + 4096" unfolding R1 by (rule pa(2)) simp
      have "P + 4096 + 0 = R + 1" "P + 4096 + 1 = R + 2" "(0 :: u64) < 4096" "(1 :: u64) < 4096" by (simp_all only: R1) simp_all
      then show "list_all2 (\<lambda>off b. off < 4096 \<and> guest_byte e Cr3 (P + 4096 + off) b) [0, 1] [b1, b2]"
        using b by (simp only: list_all2_Cons list.rel_inject(1) simp_thms)
    qed
    ultimately show ?thesis
      using C(1,3) D(1,3)
      by (simp add: VmReadGuestInstruction_def Let_def cnt off_def [symmetric] fin 3 LAST_BYTE_IN_PAGE_def TSCP_INS_LENGHT_def)
  qed
qed

text \<open>
  C1: At an invalid opcode or protection fault of user code in another address space, the
  handler reads the three bytes at the instruction pointer through the guest's page tables,
  across a page boundary too, and takes the instruction for a time stamp read exactly if it
  is one; the page mapper is left as it was, and any other instruction gets its fault back.\<close>
theorem time_stamp_instruction_recognised:
  assumes "MmuIsUserModeAddress (gr_Rip (hv_regs s))" "can_read e (VmReadN s GUEST_CR3) s"
    "guest_byte e (VmReadN s GUEST_CR3) (gr_Rip (hv_regs s)) b0" "guest_byte e (VmReadN s GUEST_CR3) (gr_Rip (hv_regs s) + 1) b1"
    "guest_byte e (VmReadN s GUEST_CR3) (gr_Rip (hv_regs s) + 2) b2"
  shows "DsHvmExceptionHandler e s =
    (if b0 = 0x0F \<and> b1 = 0x31 then map_option (Pair True) (VmRdtscEmulate e s)
     else if b0 = 0x0F \<and> b1 = 0x01 \<and> b2 = 0xF9 then map_option (Pair True) (VmRdtscpEmulate e s)
     else Some (False, s))"
  using assms(1) read_instruction [OF assms(2-5)]
  by (simp add: DsHvmExceptionHandler_def Let_def IS_RDTSC_INSTRUCTION_def IS_RDTSCP_INSTRUCTION_def TSC_INS_LENGHT_def
      TSCP_INS_LENGHT_def)

text \<open>A guest in the address space of \<open>example_phys\<close> whose memory holds nothing but the byte 1.\<close>

definition reading_hv :: hv_state where "reading_hv = writeN GUEST_CR3 0x5000 example_hv"

lemma reading_hv_sel:
  "VmReadN reading_hv GUEST_CR3 = 0x5000" "gr_Rip (hv_regs reading_hv) = 0x1000" "hv_mmu reading_hv = example_slots"
  "cpu_cr3 reading_hv = 0x1AD000"
  by (simp_all add: reading_hv_def, simp_all add: example_hv_def vmx_write AsmVmxWrite_def)

lemma example_pages: "page_walk example_phys va 4 t 0x8000000000009001"
proof -
  have "page_walk example_phys va (Suc (Suc (Suc (Suc 0)))) t 0x8000000000009001"
    unfolding page_walk_Suc page_walk_1 by (simp add: example_phys_def PTE_VALID_def PDE_PSE_def)
  then show ?thesis by (simp add: numeral_eq_Suc)
qed

theorem time_stamp_instruction_recognised_witness:
  "DsHvmExceptionHandler example_hv_env reading_hv = Some (False, reading_hv)"
proof -
  have f: "\<exists>i<MAX_MAPPING_SLOTS. \<not> mp_MapInUse (get_map example_slots (0, i))"
    by (rule exI [of _ 0]) (simp add: example_slots_def get_map_def MAX_MAPPING_SLOTS_def)
  have b: "guest_byte example_hv_env 0x5000 va 1" for va
    unfolding guest_byte_def code_page_def using example_pages [of va "0x5000"]
    by (intro exI [of _ "0x8000000000009001"]) (simp add: example_hv_env_def example_phys_def)
  have r: "can_read example_hv_env 0x5000 reading_hv"
    using f example_slots_ok by (simp add: can_read_def reading_hv_sel example_hv_env_def)
  show ?thesis
    using time_stamp_instruction_recognised [of reading_hv example_hv_env 1 1 1, unfolded reading_hv_sel] r b
    by (simp add: MmuIsUserModeAddress_def)
qed

section \<open>Virtualisation instructions\<close>

lemma inject_ud:
  assumes "\<forall>f. supported s f"
  obtains s' where "VmInjectUdException s = Some s'" "VmRead32 s' VM_ENTRY_INTERRUPTION_INFORMATION = 0x80000306"
    "cpu.more s' = cpu.more s" "\<forall>f. supported s' f"
proof -
  have "info_vector (interrupt_info VECTOR_INVALID_OPCODE_EXCEPTION INTERRUPT_HARDWARE_EXCEPTION False) = 6"
    "\<not> info_error_code (interrupt_info VECTOR_INVALID_OPCODE_EXCEPTION INTERRUPT_HARDWARE_EXCEPTION False)"
    by (simp_all add: interrupt_info_def VECTOR_INVALID_OPCODE_EXCEPTION_def INTERRUPT_HARDWARE_EXCEPTION_def info_vector_def info_error_code_def)
  moreover have "VMX_INT_INFO_VALID OR push_bit 8 (ExceptionType ! 6) OR 6 = (0x80000306 :: u32)"
    by (simp add: VMX_INT_INFO_VALID_def ExceptionType_def INTERRUPT_HARDWARE_EXCEPTION_def EXCEPTION_ERROR_CODE_VALID_def Let_def)
  ultimately show ?thesis using assms
    by (intro that [of "write32 VM_ENTRY_INSTRUCTION_LENGTH 0 (write32 VM_ENTRY_INTERRUPTION_INFORMATION 0x80000306 s)"])
      (simp_all add: VmInjectUdException_def VmInjectHardwareException_def Let_def)
qed

lemma exits_sorted:
  assumes "r \<in> set vmx_instruction_exits"
  shows "r \<in> set common_exits" "r \<noteq> EXIT_REASON_INVD" "r \<noteq> EXIT_REASON_XSETBV"
  using assms by (auto simp: common_exits_def vmx_instruction_exits_def exit_reasons)



section \<open>Identification\<close>

text \<open>
  The hypervisor's own leaf of \<open>CPUID\<close> cannot be read: the handler does not step over the
  instruction, the guest executes it again with the answer as its argument, and what it gets
  in the end is the processor's answer to the characters \<open>1#xL\<close>.\<close>
theorem cpuid_signature_lost:
  assumes "ucast (reg s RAX) = CPUID_VMM_VENDOR_SIGNATURE" "cpu_id s 0x3123784C 0x48656564 = (a, b, c, d)"
  shows "\<exists>s1 s2 s3. DsHvmExitHandler e EXIT_REASON_CPUID s = Some s1 \<and> DsHvmExitHandler e EXIT_REASON_CPUID s1 = Some s2 \<and>
    DsHvmExitHandler e EXIT_REASON_CPUID s2 = Some s3 \<and>
    gr_Rip (hv_regs s1) = gr_Rip (hv_regs s) \<and> gr_Rip (hv_regs s2) = gr_Rip (hv_regs s) \<and>
    gr_Rip (hv_regs s3) = gr_Rip (hv_regs s) + ucast (VmRead32 s EXIT_INSTRUCTION_LENGTH) \<and>
    reg s3 RAX = scast a \<and> reg s3 RBX = scast b \<and> reg s3 RCX = scast c \<and> reg s3 RDX = scast d"
proof -
  have k: "(0xFFFFFFFF :: u64) = mask 32" by (simp add: mask_eq_exp_minus_1)
  have m: "ucast (x AND 0xFFFFFFFF :: u64) = (ucast x :: u32)" for x
    unfolding k by (rule bit_word_eqI) (simp add: bit_simps)
  have h: "DsHvmExitHandler e EXIT_REASON_CPUID t = Some (CpuidEmulate t)" for t
    by (simp add: DsHvmExitHandler_def common_exits_def vmx_instruction_exits_def exit_reasons)
  define s1 where "s1 = set_reg RAX 0x40000001 (set_reg RDX 0x4C796E78 (set_reg RCX 0x48656564 (set_reg RBX 0x42797465 s)))"
  define s2 where "s2 = set_reg RAX 0x3123784C s1"
  have 1: "CpuidEmulate s = s1" using assms(1) by (simp add: CpuidEmulate_def m s1_def)
  have 2: "CpuidEmulate s1 = s2"
    by (simp add: CpuidEmulate_def m s1_def s2_def CPUID_VMM_VENDOR_SIGNATURE_def CPUID_VMM_INTERFACE_SIGNATURE_def)
  have r: "reg s2 RAX = 0x3123784C" "reg s2 RCX = 0x48656564" "cpu_id s2 = cpu_id s" by (simp_all add: s2_def s1_def)
  have i: "VmRead32 s2 EXIT_INSTRUCTION_LENGTH = VmRead32 s EXIT_INSTRUCTION_LENGTH" "gr_Rip (hv_regs s2) = gr_Rip (hv_regs s)"
    by (simp_all add: s2_def s1_def)
  have 3: "CpuidEmulate s2 = InstrRipAdvance (InstrCpuidEmulate s2)"
    by (simp add: CpuidEmulate_def m r CPUID_VMM_VENDOR_SIGNATURE_def CPUID_VMM_INTERFACE_SIGNATURE_def CPUID_FEATURE_INFORMATION_def)
  have "gr_Rip (hv_regs s1) = gr_Rip (hv_regs s)" by (simp add: s1_def)
  then show ?thesis using 1 2 3 r i assms(2) by (simp add: h InstrCpuidEmulate_def)
qed

theorem cpuid_signature_lost_witness:
  "\<exists>s1 s2 s3. DsHvmExitHandler example_hv_env EXIT_REASON_CPUID (set_reg RAX 0x40000000 example_hv) = Some s1 \<and>
     DsHvmExitHandler example_hv_env EXIT_REASON_CPUID s1 = Some s2 \<and>
     DsHvmExitHandler example_hv_env EXIT_REASON_CPUID s2 = Some s3 \<and> reg s3 RCX = 0xC000000"
proof -
  have "cpu_id (set_reg RAX 0x40000000 example_hv) 0x3123784C 0x48656564 = (0, 0, 0xC000000, 0)"
    by (simp add: example_hv_def [THEN arg_cong [where f = cpu_id]])
  from cpuid_signature_lost [OF _ this, of example_hv_env] show ?thesis
    by (fastforce simp: CPUID_VMM_VENDOR_SIGNATURE_def)
qed

end
