(* ===== verification/Hvm_Launch.thy ===== *)
theory Hvm_Launch
  imports Exits
begin

text \<open>
  Entering and leaving the hypervisor on one processor (\<open>hvm_launch.c\<close>, \<open>hvm_a.asm\<close>,
  \<open>DsHvmSetupVmcs\<close>): saving the host's state, switching virtualisation on, filling in the control
  structure, launching the guest, undoing a launch that fails, and the way back.
\<close>

section \<open>The processor's instructions\<close>

text \<open>
  What the processor answers: whether \<open>VMXON\<close>, \<open>VMCLEAR\<close> and \<open>VMPTRLD\<close> succeed on an address, the
  fields of the control structure it finds there, and how an attempt to enter the guest ends.
  \<open>ve_exit_handler\<close> and \<open>ve_code\<close> are the addresses of \<open>AsmHvmpExitHandler\<close> and \<open>vmlaunchReturn\<close>.
\<close>

datatype vm_entry = EntryOk | FailValid | FailInvalid

record vmx_env =
  ve_on :: "u64 \<Rightarrow> bool"
  ve_clear :: "u64 \<Rightarrow> bool"
  ve_load :: "u64 \<Rightarrow> bool"
  ve_region :: "u64 \<Rightarrow> u32 \<Rightarrow> u64 option"
  ve_entry :: "hv_state \<Rightarrow> vm_entry"
  ve_exit_handler :: u64
  ve_code :: u64

text \<open>The mode the executed instructions have left the processor in, with its current structure.\<close>

datatype vmx_mode = VmxOff | VmxRoot "u64 option" | VmxGuest u64

fun vmx_after :: "vmx_mode \<Rightarrow> hw_op \<Rightarrow> vmx_mode" where
  "vmx_after m (OpVmxOn p) = VmxRoot None"
| "vmx_after m OpVmxOff = VmxOff"
| "vmx_after (VmxRoot cur) (OpVmClear p) = VmxRoot (if cur = Some p then None else cur)"
| "vmx_after (VmxRoot cur) (OpVmPtrLoad p) = VmxRoot (Some p)"
| "vmx_after (VmxRoot (Some p)) OpVmLaunch = VmxGuest p"
| "vmx_after m x = m"

definition vmx_mode :: "hv_state \<Rightarrow> vmx_mode" where
  "vmx_mode s = foldl vmx_after VmxOff (hv_ops s)"

definition no_vmcs :: "u32 \<Rightarrow> u64 option" where "no_vmcs = (\<lambda>_. None)"

text \<open>The first component is whether the instruction succeeded; one that fails has no effect.\<close>

definition AsmVmxOn :: "vmx_env \<Rightarrow> u64 \<Rightarrow> hv_state \<Rightarrow> bool \<times> hv_state" where
  "AsmVmxOn e p s = (if ve_on e p then (True, (do_op (OpVmxOn p) s)\<lparr>cpu_vmcs := no_vmcs\<rparr>) else (False, s))"

definition AsmVmxClear :: "vmx_env \<Rightarrow> u64 \<Rightarrow> hv_state \<Rightarrow> bool \<times> hv_state" where
  "AsmVmxClear e p s =
     (if ve_clear e p
      then (True, (do_op (OpVmClear p) s)\<lparr>cpu_vmcs := (case vmx_mode s of
              VmxRoot (Some q) \<Rightarrow> if p = q then no_vmcs else cpu_vmcs s
            | _ \<Rightarrow> cpu_vmcs s)\<rparr>)
      else (False, s))"

definition AsmVmxPtrLoad :: "vmx_env \<Rightarrow> u64 \<Rightarrow> hv_state \<Rightarrow> bool \<times> hv_state" where
  "AsmVmxPtrLoad e p s =
     (if ve_load e p then (True, (do_op (OpVmPtrLoad p) s)\<lparr>cpu_vmcs := ve_region e p\<rparr>) else (False, s))"

definition AsmVmxOff :: "hv_state \<Rightarrow> hv_state" where
  "AsmVmxOff s = (do_op OpVmxOff s)\<lparr>cpu_vmcs := no_vmcs\<rparr>"

text \<open>The interrupt flag is bit 9.\<close>

definition set_flags :: "u64 \<Rightarrow> hv_state \<Rightarrow> hv_state" where
  "set_flags f s = s\<lparr>hv_regs := (hv_regs s)\<lparr>gr_Rflags := f\<rparr>\<rparr>"

definition AsmDisableInterrupts :: "hv_state \<Rightarrow> hv_state" where
  "AsmDisableInterrupts s = set_flags (unset_bit 9 (gr_Rflags (hv_regs s))) (do_op (OpInterrupts False) s)"

definition AsmEnableInterrupts :: "hv_state \<Rightarrow> hv_state" where
  "AsmEnableInterrupts s = set_flags (set_bit 9 (gr_Rflags (hv_regs s))) (do_op (OpInterrupts True) s)"

definition write_msr :: "u32 \<Rightarrow> u64 \<Rightarrow> 'c cpu_scheme \<Rightarrow> 'c cpu_scheme" where
  "write_msr r v c = c\<lparr>cpu_msr := (cpu_msr c)(r := v)\<rparr>"

definition write_sel :: "segment_reg \<Rightarrow> u16 \<Rightarrow> 'c host_cpu_scheme \<Rightarrow> 'c host_cpu_scheme" where
  "write_sel r v c = c\<lparr>hc_sel := (hc_sel c)(r := v)\<rparr>"

section \<open>The host's state\<close>

definition HvmpSaveHostState :: "'c host_cpu_scheme \<Rightarrow> host_saved_state" where
  "HvmpSaveHostState c =
     \<lparr>hs_Cr0 = cpu_cr0 c, hs_Cr4 = cpu_cr4 c, hs_Cs = hc_sel c SegCs, hs_Ss = hc_sel c SegSs, hs_Ds = hc_sel c SegDs,
      hs_Es = hc_sel c SegEs, hs_Fs = hc_sel c SegFs, hs_FsBase = cpu_msr c IA32_FS_BASE, hs_Gs = hc_sel c SegGs,
      hs_GsBase = cpu_msr c IA32_GS_BASE, hs_Tr = hc_sel c SegTr, hs_TrBase = BaseFromSelector (hc_gdt c) (hc_sel c SegTr),
      hs_Gdt = hc_gdtr c, hs_Idt = \<lparr>dt_Limit = GetIdtrLimit c, dt_Base = GetIdtrBase c\<rparr>,
      hs_SysenterCs = ucast (cpu_msr c IA32_SYSENTER_CS), hs_SysenterEsp = cpu_msr c IA32_SYSENTER_ESP,
      hs_SysenterEip = cpu_msr c IA32_SYSENTER_EIP\<rparr>"

definition RestoreHostCr4Vmxe :: "bool \<Rightarrow> 'c cpu_scheme \<Rightarrow> 'c cpu_scheme" where
  "RestoreHostCr4Vmxe Enable c =
     c\<lparr>cpu_cr4 := (if Enable then cpu_cr4 c OR CR4_VMXE else cpu_cr4 c AND NOT CR4_VMXE)\<rparr>"

definition VmxpEnable :: "vmx_env \<Rightarrow> u64 \<Rightarrow> hv_state \<Rightarrow> ntstatus \<times> hv_state" where
  "VmxpEnable e VmxOn s =
     (case AsmVmxOn e VmxOn (RestoreHostCr4Vmxe True s) of
        (ok, s) \<Rightarrow> if ok then (STATUS_SUCCESS, s) else (STATUS_UNSUCCESSFUL, RestoreHostCr4Vmxe False s))"

text \<open>The result of \<open>VMCLEAR\<close> is only asserted.\<close>

definition VmxpDisable :: "vmx_env \<Rightarrow> u64 \<Rightarrow> hv_state \<Rightarrow> hv_state" where
  "VmxpDisable e Vmcs s = RestoreHostCr4Vmxe False (AsmVmxOff (snd (AsmVmxClear e Vmcs s)))"

section \<open>Entering\<close>

text \<open>
  The context all processors share: the directory of the system process and the page of the
  bitmap of model-specific registers, with its physical address.
\<close>

record hvm_context =
  hx_SystemCr3 :: u64
  hx_MsrBitmap :: "u8 list"
  hx_MsrBitmapHpa :: u64

definition DsHvmSetupVmcs :: "hvm_context \<Rightarrow> hv_state \<Rightarrow> hvm_context \<times> hv_state" where
  "DsHvmSetupVmcs ctx s =
     (let s = VmSetPrivilegedTimeStamp s;
          (b, s) = VmcsSetGuestMsrExitPolicy (hx_MsrBitmapHpa ctx) (hx_MsrBitmap ctx) s
      in (ctx\<lparr>hx_MsrBitmap := b\<rparr>, s))"

definition set_launched :: "bool \<Rightarrow> hv_state \<Rightarrow> hv_state" where
  "set_launched b s = s\<lparr>hv_vcpu := (hv_vcpu s)\<lparr>vc_Launched := b\<rparr>\<rparr>"

text \<open>The fields of the structure just loaded, the callback's included.\<close>

definition set_fields ::
  "vmx_env \<Rightarrow> u64 \<Rightarrow> u64 \<Rightarrow> u64 \<Rightarrow> hvm_context \<Rightarrow> hv_state \<Rightarrow> hvm_context \<times> hv_state" where
  "set_fields e Code Stack Flags HvmContext s =
     (let s = VmcsSetHostField (hx_SystemCr3 HvmContext) s;
          s = VmcsSetControlField s;
          s = VmcsSetGuestField (hv_vm s) s;
          (HvmContext, s) = DsHvmSetupVmcs HvmContext s;
          s = VmcsSetCommonField (ve_exit_handler e) (vc_Rsp (hv_vcpu s)) Code Stack Flags s
      in (HvmContext, set_launched True s))"

text \<open>\<open>Status\<close> is still that of \<open>VmxpEnable\<close> when \<open>VMCLEAR\<close> or \<open>VMPTRLD\<close> fails.\<close>

definition HvmpEnterRoot ::
  "vmx_env \<Rightarrow> u64 \<Rightarrow> u64 \<Rightarrow> u64 \<Rightarrow> hvm_context \<Rightarrow> hv_state \<Rightarrow> ntstatus \<times> hvm_context \<times> hv_state" where
  "HvmpEnterRoot e Code Stack Flags HvmContext s =
     (let s = s\<lparr>hv_vcpu := (hv_vcpu s)\<lparr>vc_HostState := HvmpSaveHostState s\<rparr>\<rparr>;
          Hpa = vc_VmcsHpa (hv_vcpu s);
          (Status, s) = VmxpEnable e (vc_VmxOnHpa (hv_vcpu s)) s
      in if \<not> NT_SUCCESS Status then (Status, HvmContext, s)
         else let (HvmContext, s) =
                (case AsmVmxClear e Hpa s of
                   (False, s) \<Rightarrow> (HvmContext, s)
                 | (True, s) \<Rightarrow>
                     (case AsmVmxPtrLoad e Hpa s of
                        (False, s) \<Rightarrow> (HvmContext, s)
                      | (True, s) \<Rightarrow> set_fields e Code Stack Flags HvmContext s))
              in (Status, HvmContext, if NT_SUCCESS Status then s else VmxpDisable e Hpa s))"

definition VMX_STATUS :: "u32 \<Rightarrow> ntstatus" where "VMX_STATUS X = 0xEB1E0000 OR (X AND 0xFFFF)"

definition HvmpFailure :: "bool \<Rightarrow> 'c cpu_scheme \<Rightarrow> ntstatus" where
  "HvmpFailure valid c = (if valid then VMX_STATUS (VmRead32 c VM_INSTRUCTION_ERROR) else STATUS_UNSUCCESSFUL)"

definition HvmpStartFailure :: "vmx_env \<Rightarrow> bool \<Rightarrow> hv_state \<Rightarrow> ntstatus \<times> hv_state" where
  "HvmpStartFailure e valid s =
     (let s = set_launched False s;
          Status = HvmpFailure valid s
      in (Status, VmxpDisable e (vc_VmcsHpa (hv_vcpu s)) s))"

text \<open>
  The five registers \<open>AsmHvmLaunch\<close> pushes are where the guest finds its stack.  After a
  successful entry the same code goes on as the guest.
\<close>

definition AsmHvmLaunch :: "vmx_env \<Rightarrow> hvm_context \<Rightarrow> hv_state \<Rightarrow> ntstatus \<times> hvm_context \<times> hv_state" where
  "AsmHvmLaunch e ctx s =
     (let (Status, ctx, s) = HvmpEnterRoot e (ve_code e) (reg s RSP - 40) (gr_Rflags (hv_regs s)) ctx s
      in if Status \<noteq> 0 then (Status, ctx, s)
         else case ve_entry e s of
                EntryOk \<Rightarrow> (0, ctx, do_op OpVmLaunch s)
              | FailValid \<Rightarrow> (let (Status, s) = HvmpStartFailure e True s in (Status, ctx, s))
              | FailInvalid \<Rightarrow> (let (Status, s) = HvmpStartFailure e False s in (Status, ctx, s)))"

definition HvmpStartVcpu :: "vmx_env \<Rightarrow> hvm_context \<Rightarrow> hv_state \<Rightarrow> ntstatus \<times> hvm_context \<times> hv_state" where
  "HvmpStartVcpu e ctx s =
     (let (Status, ctx, s) = AsmHvmLaunch e ctx (AsmDisableInterrupts s)
      in (Status, ctx, AsmEnableInterrupts s))"

section \<open>Leaving\<close>

text \<open>The 64-bit build: the stack and GS selectors are not written.\<close>

definition HvmpRestoreHostState :: "hv_state \<Rightarrow> hv_state" where
  "HvmpRestoreHostState s =
     (let H = vc_HostState (hv_vcpu s);
          s = write_sel SegFs (hs_Fs H) (write_sel SegEs (hs_Es H) (write_sel SegDs (hs_Ds H) s));
          s = s\<lparr>hc_gdtr := hs_Gdt H, hc_idtr := hs_Idt H\<rparr>;
          s = write_msr IA32_FS_BASE (VmReadN s GUEST_FS_BASE) s;
          s = write_msr IA32_GS_BASE (VmReadN s GUEST_GS_BASE) s;
          s = s\<lparr>cpu_cr0 := VmReadN s GUEST_CR0\<rparr>;
          s = s\<lparr>cpu_cr4 := VmReadN s GUEST_CR4 AND NOT CR4_TSD\<rparr>
      in s\<lparr>cpu_cr3 := VmReadN s GUEST_CR3\<rparr>)"

text \<open>The frame is what the \<open>IRETQ\<close> of \<open>AsmHvmpStop\<close> returns through; the registers are those given.\<close>

definition HvmpStop :: "vmx_env \<Rightarrow> hv_state \<Rightarrow> hv_state" where
  "HvmpStop e s =
     (let R = hv_regs s; H = vc_HostState (hv_vcpu s);
          s = HvmpRestoreHostState s;
          s = VmxpDisable e (vc_VmcsHpa (hv_vcpu s)) s
      in do_op (OpIret (gr_Rip R) (ucast (hs_Cs H)) (gr_Rflags R) (gr R RSP) (ucast (hs_Ss H))) s)"

end
