(* ===== verification/Hvm_Exits.thy ===== *)
theory Hvm_Exits
  imports Hvm_Launch
begin

text \<open>
  The entry point of every exit (\<open>hvm_exits.c\<close>): the log of the last exits, the internal service
  a guest reaches through \<open>VMCALL\<close>, and the hand-over to the handler of the exits.
\<close>

section \<open>The log\<close>

definition HvmpExitEventLogVmcsInfo :: "'c cpu_scheme \<Rightarrow> exit_info" where
  "HvmpExitEventLogVmcsInfo c =
     \<lparr>ei_exitReason = VmRead32 c EXIT_REASON, ei_exitQualification = VmReadN c EXIT_QUALIFICATION,
      ei_guestLinearAddress = VmReadN c GUEST_LINEAR_ADDRESS, ei_guestPhysicalAddress = VmRead64 c GUEST_PHYSICAL_ADDRESS,
      ei_exitInterruptionInformation = VmRead32 c EXIT_INTERRUPTION_INFORMATION,
      ei_exitInterruptionErrorCode = VmRead32 c EXIT_INTERRUPTION_ERRORCODE,
      ei_idtVectoringInformation = VmRead32 c IDT_VECTORING_INFORMATION,
      ei_idtVectoringErrorCode = VmRead32 c IDT_VECTORING_ERRORCODE,
      ei_exitInstructionLength = VmRead32 c EXIT_INSTRUCTION_LENGTH,
      ei_exitInstructionInformation = VmRead32 c EXIT_INSTRUCTION_INFORMATION,
      ei_ioRcx = VmReadN c IO_RCX, ei_ioRsi = VmReadN c IO_RSI, ei_ioRdi = VmReadN c IO_RDI, ei_ioRip = VmReadN c IO_RIP,
      ei_vmInstructionError = VmReadN c VM_INSTRUCTION_ERROR\<rparr>"

definition log_event :: "hvm_event \<Rightarrow> hvm_logged_events \<Rightarrow> hvm_logged_events" where
  "log_event E L = \<lparr>le_Count = le_Count L + 1,
     le_Queue = (le_Queue L)[unat (le_Count L mod of_nat MAX_NUMBER_OF_LOGGED_EXIT_EVENTS) := E]\<rparr>"

definition HvmpExitEventLog :: "hv_state \<Rightarrow> hv_state" where
  "HvmpExitEventLog s =
     s\<lparr>hv_events := log_event \<lparr>ev_info = HvmpExitEventLogVmcsInfo s, ev_Registers = hv_regs s\<rparr> (hv_events s)\<rparr>"

section \<open>Services\<close>

definition HVM_CALL_MAGIC :: u64 where "HVM_CALL_MAGIC = 0xCAFEBABE"
definition HVM_INTERNAL_SERVICE_STOP :: u64 where "HVM_INTERNAL_SERVICE_STOP = 0"

text \<open>
  How an exit ends: the guest goes on, the processor has left virtualisation (control does not
  come back from \<open>HvmpStop\<close>), or the system has stopped.
\<close>

datatype exit_end = Resumed hv_state | Stopped hv_state | BugChecked hv_state

text \<open>The carry flag is bit 0.\<close>

definition HvmHandleService :: "vmx_env \<Rightarrow> hv_state \<Rightarrow> exit_end" where
  "HvmHandleService e s =
     (let service = reg s RCX;
          s = InstrRipAdvance s
      in if service = HVM_INTERNAL_SERVICE_STOP
         then Stopped (HvmpStop e (set_reg RAX (ucast STATUS_SUCCESS) s))
         else Resumed (let s = set_reg RAX (ucast STATUS_UNSUCCESSFUL) s in set_flags (set_bit 0 (gr_Rflags (hv_regs s))) s))"

section \<open>The entry point\<close>

definition bug_checked :: "hv_state \<Rightarrow> bool" where
  "bug_checked s \<longleftrightarrow> list_ex (\<lambda>x. case x of OpBugCheck _ \<Rightarrow> True | _ \<Rightarrow> False) (hv_ops s)"

definition read_guest_registers :: "hv_state \<Rightarrow> hv_state" where
  "read_guest_registers s =
     (let s = set_reg RSP (VmReadN s GUEST_RSP) s
      in s\<lparr>hv_regs := (hv_regs s)\<lparr>gr_Rip := VmReadN s GUEST_RIP, gr_Rflags := VmReadN s GUEST_RFLAGS\<rparr>\<rparr>)"

definition write_guest_registers :: "hv_state \<Rightarrow> hv_state" where
  "write_guest_registers s =
     (let R = hv_regs s
      in writeN GUEST_RFLAGS (gr_Rflags R) (writeN GUEST_RIP (gr_Rip R) (writeN GUEST_RSP (gr R RSP) s)))"

text \<open>The reason is the low half of its field.  \<open>None\<close> is a fault of the hypervisor itself.\<close>

definition HvmpExitHandler :: "vmx_env \<Rightarrow> hv_env \<Rightarrow> hv_state \<Rightarrow> exit_end option" where
  "HvmpExitHandler e w s =
     (let Reason = VmRead32 s EXIT_REASON AND 0xFFFF;
          s = HvmpExitEventLog (read_guest_registers s)
      in if Reason = EXIT_REASON_VMCALL \<and> reg s RAX = HVM_CALL_MAGIC
         then Some (case HvmHandleService e s of Resumed s \<Rightarrow> Resumed (write_guest_registers s) | r \<Rightarrow> r)
         else map_option (\<lambda>s. if bug_checked s then BugChecked s else Resumed (write_guest_registers s))
                (DsHvmExitHandler w Reason s))"

end
