(* ===== verification/Launch_Props.thy ===== *)
theory Launch_Props
  imports Hvm_Exits
begin

text \<open>
  What entering and leaving do: a launch either runs the guest on a control structure that mirrors
  the processor or leaves virtualisation off, and the stop service gives the processor back the
  state it had.
\<close>

section \<open>Modes\<close>

lemma vmx_mode_do_op [simp]: "vmx_mode (do_op x s) = vmx_after (vmx_mode s) x"
  by (simp add: vmx_mode_def)

lemma vmx_mode_cong: "hv_ops s = hv_ops s' \<Longrightarrow> vmx_mode s = vmx_mode s'"
  by (simp add: vmx_mode_def)

lemma hv_more:
  fixes s s' :: hv_state
  assumes "cpu.more s = cpu.more s'"
  shows "hv_regs s = hv_regs s'" "hv_vm s = hv_vm s'" "hv_vcpu s = hv_vcpu s'" "hv_ops s = hv_ops s'"
    "hv_events s = hv_events s'" "vmx_mode s = vmx_mode s'" "reg s = reg s'"
  using assms by (cases s; cases s'; simp add: vmx_mode_def reg_def fun_eq_iff)+

lemma do_op_cpu [simp]:
  "cpu_cr0 (do_op x s) = cpu_cr0 s" "cpu_cr3 (do_op x s) = cpu_cr3 s" "cpu_cr4 (do_op x s) = cpu_cr4 s"
  "cpu_msr (do_op x s) = cpu_msr s" "cpu_dr7 (do_op x s) = cpu_dr7 s" "cpu_id (do_op x s) = cpu_id s"
  "hc_sel (do_op x s) = hc_sel s" "hc_gdtr (do_op x s) = hc_gdtr s" "hc_idtr (do_op x s) = hc_idtr s"
  "hc_gdt (do_op x s) = hc_gdt s" "hc_lsl (do_op x s) = hc_lsl s" "hv_vcpu (do_op x s) = hv_vcpu s"
  "hv_events (do_op x s) = hv_events s"
  by (simp_all add: do_op_def)

text \<open>The registers a launch must leave alone.\<close>

definition same_cpu :: "hv_state \<Rightarrow> hv_state \<Rightarrow> bool" where
  "same_cpu s s' \<longleftrightarrow> cpu_cr0 s' = cpu_cr0 s \<and> cpu_cr3 s' = cpu_cr3 s \<and> cpu_dr7 s' = cpu_dr7 s \<and> cpu_msr s' = cpu_msr s \<and>
     cpu_id s' = cpu_id s \<and> hc_sel s' = hc_sel s \<and> hc_gdt s' = hc_gdt s \<and> hc_lsl s' = hc_lsl s \<and> hc_gdtr s' = hc_gdtr s \<and>
     hc_idtr s' = hc_idtr s \<and> hv_vm s' = hv_vm s \<and> hv_regs s' = hv_regs s"

lemma same_cpu_trans: "same_cpu s t \<Longrightarrow> same_cpu t u \<Longrightarrow> same_cpu s u"
  by (simp add: same_cpu_def)

lemma same_cpu_perform_all: "same_cpu s (perform_all ws s)"
  using hv_more [of "perform_all ws s" s] more_sel [of "perform_all ws s" s] by (simp add: same_cpu_def)

lemma VmSetPrivilegedTimeStamp_sel [simp]:
  "cpu_cr0 (VmSetPrivilegedTimeStamp c) = cpu_cr0 c" "cpu_cr3 (VmSetPrivilegedTimeStamp c) = cpu_cr3 c"
  "cpu_cr4 (VmSetPrivilegedTimeStamp c) = cpu_cr4 c" "cpu_dr7 (VmSetPrivilegedTimeStamp c) = cpu_dr7 c"
  "cpu_msr (VmSetPrivilegedTimeStamp c) = cpu_msr c" "cpu_id (VmSetPrivilegedTimeStamp c) = cpu_id c"
  "cpu.more (VmSetPrivilegedTimeStamp c) = cpu.more c" "supported (VmSetPrivilegedTimeStamp c) f = supported c f"
  by (simp_all add: VmSetPrivilegedTimeStamp_def Let_def) (simp_all add: vmx_write)

section \<open>The control structure\<close>

text \<open>The fields written after those of host and guest.\<close>

definition late_fields :: "u32 set" where
  "late_fields = {GUEST_CR4, CR4_GUEST_HOST_MASK, CR4_READ_SHADOW, EXCEPTION_BITMAP, MSR_BITMAP_ADDRESS,
     VM_EXEC_CONTROLS_PROC_PRIMARY, HOST_RSP, HOST_RIP, GUEST_RSP, GUEST_RIP, GUEST_RFLAGS}"

lemma read_same:
  "cpu_vmcs c f = cpu_vmcs c' f \<Longrightarrow>
     VmRead16 c f = VmRead16 c' f \<and> VmRead32 c f = VmRead32 c' f \<and> VmRead64 c f = VmRead64 c' f \<and> VmReadN c f = VmReadN c' f"
  by (simp add: vmx_read)

lemma guest_seg_late: "seg_fields s = (sel, base, limit, ar) \<Longrightarrow> {sel, base, limit, ar} \<inter> late_fields = {}"
  by (cases s) (auto simp: late_fields_def vmx_values)

lemma guest_mirrors_keep:
  assumes "guest_mirrors V c c'" "\<forall>f. f \<notin> late_fields \<longrightarrow> cpu_vmcs c'' f = cpu_vmcs c' f"
  shows "guest_mirrors V c c''"
proof -
  have r: "VmRead16 c'' f = VmRead16 c' f" "VmRead32 c'' f = VmRead32 c' f" "VmRead64 c'' f = VmRead64 c' f"
    "VmReadN c'' f = VmReadN c' f" if "f \<notin> late_fields" for f
    using read_same [of c'' f c'] assms(2) that by blast+
  have g: "GUEST_CR3 \<notin> late_fields" "GUEST_CR0 \<notin> late_fields" "GUEST_DR7 \<notin> late_fields" "GUEST_GDTR_BASE \<notin> late_fields"
    "GUEST_GDTR_LIMIT \<notin> late_fields" "GUEST_IDTR_BASE \<notin> late_fields" "GUEST_IDTR_LIMIT \<notin> late_fields"
    "GUEST_IA32_DEBUGCTL \<notin> late_fields" "GUEST_IA32_SYSENTER_CS \<notin> late_fields" "GUEST_IA32_SYSENTER_ESP \<notin> late_fields"
    "GUEST_IA32_SYSENTER_EIP \<notin> late_fields" "VMCS_LINK_POINTER \<notin> late_fields" "GUEST_PENDING_DEBUG_EXCEPTIONS \<notin> late_fields"
    "GUEST_INTERRUPTIBILITY_STATE \<notin> late_fields" "GUEST_ACTIVITY_STATE \<notin> late_fields"
    by (simp_all add: late_fields_def vmx_values)
  have "case seg_fields s of (sel, base, limit, ar) \<Rightarrow>
        VmRead16 c'' sel = hc_sel c s \<and>
        VmReadN c'' base = (if s = SegFs then cpu_msr c IA32_FS_BASE else if s = SegGs then cpu_msr c IA32_GS_BASE
                           else BaseFromSelector (hc_gdt c) (hc_sel c s)) \<and>
        VmRead32 c'' limit = hc_lsl c (hc_sel c s) \<and> VmRead32 c'' ar = ArFromSelector (hc_gdt c) (hc_sel c s)" for s
  proof -
    obtain sel base limit ar where f: "seg_fields s = (sel, base, limit, ar)" by (cases "seg_fields s") auto
    have "case seg_fields s of (sel, base, limit, ar) \<Rightarrow>
        VmRead16 c' sel = hc_sel c s \<and>
        VmReadN c' base = (if s = SegFs then cpu_msr c IA32_FS_BASE else if s = SegGs then cpu_msr c IA32_GS_BASE
                           else BaseFromSelector (hc_gdt c) (hc_sel c s)) \<and>
        VmRead32 c' limit = hc_lsl c (hc_sel c s) \<and> VmRead32 c' ar = ArFromSelector (hc_gdt c) (hc_sel c s)"
      using assms(1) unfolding guest_mirrors_def by (elim conjE) (erule spec)
    moreover have "sel \<notin> late_fields" "base \<notin> late_fields" "limit \<notin> late_fields" "ar \<notin> late_fields"
      using guest_seg_late [OF f] by auto
    ultimately show ?thesis by (simp add: f r)
  qed
  then show ?thesis using assms(1) unfolding guest_mirrors_def by (simp add: r g)
qed

lemma host_returns_keep:
  assumes "host_returns h c c'" "\<forall>f. 0x6C12 < f \<or> f AND 0xC00 \<noteq> 0xC00 \<or> cpu_vmcs c'' f = cpu_vmcs c' f"
  shows "host_returns h c c''"
proof -
  have r: "VmRead16 c'' f = VmRead16 c' f" "VmRead32 c'' f = VmRead32 c' f" "VmReadN c'' f = VmReadN c' f"
    if "f \<le> 0x6C12" "f AND 0xC00 = 0xC00" for f
    using read_same [of c'' f c'] assms(2) that by (metis not_less)+
  show ?thesis using assms(1) unfolding host_returns_def by (simp add: r vmx_values)
qed

lemma perform_all_other:
  "list_all ok_width ws \<Longrightarrow> \<forall>w\<in>set ws. field_of w \<noteq> f \<Longrightarrow> cpu_vmcs (perform_all ws c) f = cpu_vmcs c f"
  by (simp add: vmcs_perform_all last_write_def find_None_iff [THEN iffD2])

lemma guest_writes_area: "f AND 0xC00 = 0xC00 \<Longrightarrow> \<forall>w \<in> set (guest_writes V c). field_of w \<noteq> f"
  by (auto simp: guest_writes_def VM_LOAD_SEGMENT_def vmx_values)

lemma control_writes_area: "f AND 0xC00 = 0xC00 \<Longrightarrow> \<forall>w \<in> set (control_writes c). field_of w \<noteq> f"
  by (auto simp: control_writes_def vmx_values Let_def split: if_splits)

lemma vmcs_late:
  "f \<notin> late_fields \<Longrightarrow> cpu_vmcs (VmSetPrivilegedTimeStamp c) f = cpu_vmcs c f"
  "f \<notin> late_fields \<Longrightarrow> cpu_vmcs (snd (VmcsSetGuestMsrExitPolicy a b c)) f = cpu_vmcs c f"
  "f \<notin> late_fields \<Longrightarrow> cpu_vmcs (VmcsSetCommonField h r Code Stack Flags c) f = cpu_vmcs c f"
  by (simp_all add: late_fields_def VmSetPrivilegedTimeStamp_def VmcsSetGuestMsrExitPolicy_def VmcsSetCommonField_def
      perform_all_def vmcs_write Let_def)

text \<open>The bits of \<open>late_fields\<close> the guest and the processor depend on.\<close>

definition entry_fields :: "vmx_env \<Rightarrow> hvm_context \<Rightarrow> u64 \<Rightarrow> u64 \<Rightarrow> u64 \<Rightarrow> hv_state \<Rightarrow> bool" where
  "entry_fields e ctx Code Stack Flags s \<longleftrightarrow>
     VmReadN s HOST_RSP = vc_Rsp (hv_vcpu s) \<and> VmReadN s HOST_RIP = ve_exit_handler e \<and>
     VmReadN s GUEST_RSP = Stack \<and> VmReadN s GUEST_RIP = Code \<and> VmReadN s GUEST_RFLAGS = unset_bit 6 (unset_bit 0 Flags) \<and>
     VmReadN s GUEST_CR4 = VmMakeCompliantCr4 (hv_vm s) (cpu_cr4 s) OR CR4_TSD \<and>
     VmReadN s CR4_GUEST_HOST_MASK = CR4_VMXE OR CR4_TSD \<and> VmReadN s CR4_READ_SHADOW = 0 \<and>
     VmRead32 s EXCEPTION_BITMAP = 0x2040 \<and> VmRead64 s MSR_BITMAP_ADDRESS = hx_MsrBitmapHpa ctx"

lemma late_differ:
  "distinct [HOST_RSP, HOST_RIP, GUEST_RSP, GUEST_RIP, GUEST_RFLAGS, GUEST_CR4, CR4_GUEST_HOST_MASK, CR4_READ_SHADOW]"
  "distinct [CR4_READ_SHADOW, CR4_GUEST_HOST_MASK, GUEST_CR4, GUEST_RFLAGS, GUEST_RIP, GUEST_RSP, HOST_RIP, HOST_RSP]"
  "EXCEPTION_BITMAP \<noteq> VM_EXEC_CONTROLS_PROC_PRIMARY" "MSR_BITMAP_ADDRESS \<noteq> VM_EXEC_CONTROLS_PROC_PRIMARY"
  by (simp_all add: vmx_values)

lemma late_field_reads:
  assumes "\<forall>f. supported c f"
  shows "VmReadN (VmcsSetCommonField h r Code Stack Flags c) HOST_RSP = r"
    "VmReadN (VmcsSetCommonField h r Code Stack Flags c) HOST_RIP = h"
    "VmReadN (VmcsSetCommonField h r Code Stack Flags c) GUEST_RSP = Stack"
    "VmReadN (VmcsSetCommonField h r Code Stack Flags c) GUEST_RIP = Code"
    "VmReadN (VmcsSetCommonField h r Code Stack Flags c) GUEST_RFLAGS = unset_bit 6 (unset_bit 0 Flags)"
    "VmReadN (VmcsSetCommonField h r Code Stack Flags c) GUEST_CR4 = VmReadN c GUEST_CR4"
    "VmReadN (VmcsSetCommonField h r Code Stack Flags c) CR4_GUEST_HOST_MASK = VmReadN c CR4_GUEST_HOST_MASK"
    "VmReadN (VmcsSetCommonField h r Code Stack Flags c) CR4_READ_SHADOW = VmReadN c CR4_READ_SHADOW"
    "VmRead32 (VmcsSetCommonField h r Code Stack Flags c) f = VmRead32 c f"
    "VmRead64 (VmcsSetCommonField h r Code Stack Flags c) f = VmRead64 c f"
  using assms late_differ by (simp_all add: VmcsSetCommonField_def perform_all_def) (simp add: vmx_read vmcs_write)

lemma policy_reads:
  "VmReadN (snd (VmcsSetGuestMsrExitPolicy a b c)) f = VmReadN c f"
  "VmRead32 (snd (VmcsSetGuestMsrExitPolicy a b c)) EXCEPTION_BITMAP = VmRead32 c EXCEPTION_BITMAP"
  "supported c MSR_BITMAP_ADDRESS \<Longrightarrow> VmRead64 (snd (VmcsSetGuestMsrExitPolicy a b c)) MSR_BITMAP_ADDRESS = a"
  using late_differ(3,4) by (simp_all add: VmcsSetGuestMsrExitPolicy_def Let_def) (simp add: vmx_read vmcs_write)

lemma policy_sel [simp]:
  "cpu_cr0 (snd (VmcsSetGuestMsrExitPolicy a b c)) = cpu_cr0 c" "cpu_cr3 (snd (VmcsSetGuestMsrExitPolicy a b c)) = cpu_cr3 c"
  "cpu_cr4 (snd (VmcsSetGuestMsrExitPolicy a b c)) = cpu_cr4 c" "cpu_dr7 (snd (VmcsSetGuestMsrExitPolicy a b c)) = cpu_dr7 c"
  "cpu_msr (snd (VmcsSetGuestMsrExitPolicy a b c)) = cpu_msr c" "cpu_id (snd (VmcsSetGuestMsrExitPolicy a b c)) = cpu_id c"
  "cpu.more (snd (VmcsSetGuestMsrExitPolicy a b c)) = cpu.more c"
  "supported (snd (VmcsSetGuestMsrExitPolicy a b c)) f = supported c f"
  by (simp_all add: VmcsSetGuestMsrExitPolicy_def Let_def) (simp_all add: vmx_write)

lemma guest_fields_cr4:
  assumes "\<forall>f. supported c f"
  shows "VmReadN (VmcsSetGuestField V c) GUEST_CR4 = VmMakeCompliantCr4 V (cpu_cr4 c)"
    "VmReadN (VmcsSetGuestField V c) CR4_GUEST_HOST_MASK = CR4_VMXE" "VmReadN (VmcsSetGuestField V c) CR4_READ_SHADOW = 0"
  using assms by (simp_all add: VmcsSetGuestField_def read_perform_all [OF guest_writes_width] last_guest_write)

lemma mirrors_same_cpu: "same_cpu s c \<Longrightarrow> guest_mirrors V c c' = guest_mirrors V s c'"
proof -
  assume "same_cpu s c"
  then have q: "cpu_cr0 c = cpu_cr0 s" "cpu_cr3 c = cpu_cr3 s" "cpu_dr7 c = cpu_dr7 s" "cpu_msr c = cpu_msr s"
    "hc_sel c = hc_sel s" "hc_gdt c = hc_gdt s" "hc_lsl c = hc_lsl s" "hc_gdtr c = hc_gdtr s" "hc_idtr c = hc_idtr s"
    by (simp_all add: same_cpu_def)
  show ?thesis unfolding guest_mirrors_def GetGdtrBase_def GetGdtrLimit_def GetIdtrBase_def GetIdtrLimit_def q ..
qed

lemma set_fields:
  assumes "\<forall>f. supported s f" "set_fields e Code Stack Flags ctx s = (ctx', s')"
  shows "same_cpu s s'" "cpu_cr4 s' = cpu_cr4 s" "hv_ops s' = hv_ops s" "hv_vcpu s' = (hv_vcpu s)\<lparr>vc_Launched := True\<rparr>"
    "\<forall>f. supported s' f" "host_returns (hx_SystemCr3 ctx) s s'" "guest_mirrors (hv_vm s) s s'"
    "entry_fields e ctx Code Stack Flags s'"
    "ctx' = ctx\<lparr>hx_MsrBitmap := fst (VmcsSetGuestMsrExitPolicy (hx_MsrBitmapHpa ctx) (hx_MsrBitmap ctx) s)\<rparr>"
proof -
  define c1 where "c1 = VmcsSetHostField (hx_SystemCr3 ctx) s"
  define c2 where "c2 = VmcsSetControlField c1"
  define c3 where "c3 = VmcsSetGuestField (hv_vm s) c2"
  define c4 where "c4 = VmSetPrivilegedTimeStamp c3"
  define c5 where "c5 = snd (VmcsSetGuestMsrExitPolicy (hx_MsrBitmapHpa ctx) (hx_MsrBitmap ctx) c4)"
  define c6 where "c6 = VmcsSetCommonField (ve_exit_handler e) (vc_Rsp (hv_vcpu s)) Code Stack Flags c5"
  have m: "cpu.more c1 = cpu.more s" "cpu.more c2 = cpu.more s" "cpu.more c3 = cpu.more s" "cpu.more c4 = cpu.more s"
    "cpu.more c5 = cpu.more s" "cpu.more c6 = cpu.more s"
    by (simp_all add: c1_def c2_def c3_def c4_def c5_def c6_def VmcsSetHostField_def VmcsSetControlField_def
        VmcsSetGuestField_def VmcsSetCommonField_def)
  note h = m [THEN hv_more(1)] m [THEN hv_more(2)] m [THEN hv_more(3)] m [THEN hv_more(4)]
  have b: "fst (VmcsSetGuestMsrExitPolicy p q c) = fst (VmcsSetGuestMsrExitPolicy p q d)" for p q and c d :: hv_state
    by (simp add: VmcsSetGuestMsrExitPolicy_def Let_def)
  have e: "s' = set_launched True c6" "ctx' = ctx\<lparr>hx_MsrBitmap := fst (VmcsSetGuestMsrExitPolicy (hx_MsrBitmapHpa ctx) (hx_MsrBitmap ctx) c4)\<rparr>"
    using assms(2) h
    by (simp_all add: set_fields_def DsHvmSetupVmcs_def Let_def split_def c1_def c2_def c3_def c4_def c5_def c6_def)
  show "ctx' = ctx\<lparr>hx_MsrBitmap := fst (VmcsSetGuestMsrExitPolicy (hx_MsrBitmapHpa ctx) (hx_MsrBitmap ctx) s)\<rparr>"
    using e(2) b [of _ _ c4 s] by simp
  have v: "cpu_vmcs s' = cpu_vmcs c6" by (simp add: e(1) set_launched_def)
  have su: "supported c1 f" "supported c2 f" "supported c3 f" "supported c4 f" "supported c5 f" "supported c6 f" for f
    using assms(1) by (simp_all add: c1_def c2_def c3_def c4_def c5_def c6_def VmcsSetHostField_def VmcsSetControlField_def
        VmcsSetGuestField_def VmcsSetCommonField_def)
  show "\<forall>f. supported s' f" using su(6) v by (simp add: supported_def)
  have same: "same_cpu s c1" "same_cpu s c2" "same_cpu s c3" "same_cpu s c6" "cpu_cr4 c1 = cpu_cr4 s" "cpu_cr4 c2 = cpu_cr4 s"
    "cpu_cr4 c6 = cpu_cr4 s"
    using h m [THEN more_sel(1)] m [THEN more_sel(2)] m [THEN more_sel(3)] m [THEN more_sel(4)] m [THEN more_sel(5)]
    by (simp_all add: same_cpu_def)
      (simp_all add: c1_def c2_def c3_def c4_def c5_def c6_def VmcsSetHostField_def VmcsSetControlField_def
        VmcsSetGuestField_def VmcsSetCommonField_def)
  show "same_cpu s s'" "cpu_cr4 s' = cpu_cr4 s" "hv_ops s' = hv_ops s" "hv_vcpu s' = (hv_vcpu s)\<lparr>vc_Launched := True\<rparr>"
    using same(4,7) h by (simp_all add: e(1) set_launched_def same_cpu_def)
  have l: "cpu_vmcs s' f = cpu_vmcs c3 f" if "f \<notin> late_fields" for f
    using that by (simp add: v c6_def c5_def c4_def vmcs_late)
  show "guest_mirrors (hv_vm s) s s'"
  proof (rule guest_mirrors_keep)
    show "guest_mirrors (hv_vm s) s c3"
      using VmcsSetGuestField_mirrors [of c2 "hv_vm s"] su(2) same(2)
      by (simp add: c3_def mirrors_same_cpu)
  qed (use l in simp)
  show "host_returns (hx_SystemCr3 ctx) s s'"
  proof (rule host_returns_keep)
    show "host_returns (hx_SystemCr3 ctx) s c1" using VmcsSetHostField_returns assms(1) by (simp add: c1_def)
    have "cpu_vmcs s' f = cpu_vmcs c1 f" if "f \<le> 0x6C12" "f AND 0xC00 = 0xC00" for f
    proof -
      have "f \<notin> late_fields" using that by (auto simp: late_fields_def vmx_values)
      moreover have "cpu_vmcs c2 f = cpu_vmcs c1 f" "cpu_vmcs c3 f = cpu_vmcs c2 f"
        unfolding c2_def c3_def VmcsSetControlField_def VmcsSetGuestField_def
        by (intro perform_all_other control_writes_width guest_writes_width control_writes_area guest_writes_area that)+
      ultimately show ?thesis using l by simp
    qed
    then show "\<forall>f. 0x6C12 < f \<or> f AND 0xC00 \<noteq> 0xC00 \<or> cpu_vmcs s' f = cpu_vmcs c1 f"
      by (metis not_less)
  qed
  have r: "VmReadN s' f = VmReadN c6 f" "VmRead32 s' f = VmRead32 c6 f" "VmRead64 s' f = VmRead64 c6 f" for f
    using v by (simp_all add: vmx_read)
  have "hv_vcpu s' = (hv_vcpu s)\<lparr>vc_Launched := True\<rparr>" "hv_vm s' = hv_vm s" "cpu_cr4 s' = cpu_cr4 s"
    using same(4,7) h by (simp_all add: e(1) set_launched_def same_cpu_def)
  moreover have "VmReadN c4 GUEST_CR4 = VmMakeCompliantCr4 (hv_vm s) (cpu_cr4 s) OR CR4_TSD" "VmReadN c4 CR4_GUEST_HOST_MASK = CR4_VMXE OR CR4_TSD"
    "VmReadN c4 CR4_READ_SHADOW = 0" "VmRead32 c4 EXCEPTION_BITMAP = 0x2040"
    using su privileged_reads [of c3] privileged_exceptions [of c3] guest_fields_cr4 [of c2 "hv_vm s"] same(6)
    by (simp_all add: c4_def c3_def [symmetric])
  ultimately show "entry_fields e ctx Code Stack Flags s'"
    using su by (simp add: entry_fields_def r c6_def late_field_reads) (simp add: c5_def policy_reads)
qed

section \<open>A launch\<close>

lemma VmxpDisable_sel:
  "vmx_mode (VmxpDisable e p s) = VmxOff" "cpu_cr4 (VmxpDisable e p s) = cpu_cr4 s AND NOT CR4_VMXE"
  "same_cpu s (VmxpDisable e p s)" "hv_vcpu (VmxpDisable e p s) = hv_vcpu s"
proof -
  have m: "vmx_mode (t\<lparr>cpu_vmcs := v\<rparr>) = vmx_mode t" "vmx_mode (t\<lparr>cpu_cr4 := q\<rparr>) = vmx_mode t" for t v q
    by (simp_all add: vmx_mode_def)
  show "vmx_mode (VmxpDisable e p s) = VmxOff" "cpu_cr4 (VmxpDisable e p s) = cpu_cr4 s AND NOT CR4_VMXE"
    "same_cpu s (VmxpDisable e p s)" "hv_vcpu (VmxpDisable e p s) = hv_vcpu s"
    by (simp_all add: VmxpDisable_def RestoreHostCr4Vmxe_def AsmVmxOff_def AsmVmxClear_def same_cpu_def m)
qed

lemma cr4_vmxe_off: "\<not> bit x 13 \<Longrightarrow> x AND NOT CR4_VMXE = x" "(x OR CR4_VMXE) AND NOT CR4_VMXE = x AND NOT CR4_VMXE"
proof -
  show "(x OR CR4_VMXE) AND NOT CR4_VMXE = x AND NOT CR4_VMXE"
    by (rule bit_word_eqI) (auto simp: bit_simps bit_CR4_VMXE)
  assume "\<not> bit x 13"
  then show "x AND NOT CR4_VMXE = x" by (intro bit_word_eqI) (auto simp: bit_simps bit_CR4_VMXE)
qed

lemma returns_same_cpu: "same_cpu s c \<Longrightarrow> cpu_cr4 c = cpu_cr4 s \<Longrightarrow> host_returns h c c' = host_returns h s c'"
proof -
  assume "same_cpu s c" "cpu_cr4 c = cpu_cr4 s"
  then have q: "cpu_cr0 c = cpu_cr0 s" "cpu_cr4 c = cpu_cr4 s" "cpu_msr c = cpu_msr s"
    "hc_sel c = hc_sel s" "hc_gdt c = hc_gdt s" "hc_gdtr c = hc_gdtr s" "hc_idtr c = hc_idtr s"
    by (simp_all add: same_cpu_def)
  show ?thesis unfolding host_returns_def GetGdtrBase_def GetIdtrBase_def q ..
qed

text \<open>Entering root operation: refused without a trace, or in it with or without a control structure.\<close>

lemma enter_root:
  assumes "HvmpEnterRoot e Code Stack Flags ctx s = (Status, ctx', s')" "vmx_mode s = VmxOff" "\<not> bit (cpu_cr4 s) 13"
    "\<forall>f. ve_region e (vc_VmcsHpa (hv_vcpu s)) f \<noteq> None" "\<not> vc_Launched (hv_vcpu s)"
  shows "same_cpu s s' \<and> vc_VmcsHpa (hv_vcpu s') = vc_VmcsHpa (hv_vcpu s) \<and>
     vc_HostState (hv_vcpu s') = HvmpSaveHostState s \<and> vc_Rsp (hv_vcpu s') = vc_Rsp (hv_vcpu s) \<and>
    (if \<not> ve_on e (vc_VmxOnHpa (hv_vcpu s))
     then Status = STATUS_UNSUCCESSFUL \<and> vmx_mode s' = VmxOff \<and> cpu_cr4 s' = cpu_cr4 s \<and> \<not> vc_Launched (hv_vcpu s')
     else Status = STATUS_SUCCESS \<and> cpu_cr4 s' = cpu_cr4 s OR CR4_VMXE \<and>
      (if ve_clear e (vc_VmcsHpa (hv_vcpu s)) \<and> ve_load e (vc_VmcsHpa (hv_vcpu s))
       then vmx_mode s' = VmxRoot (Some (vc_VmcsHpa (hv_vcpu s))) \<and> vc_Launched (hv_vcpu s') \<and> (\<forall>f. supported s' f) \<and>
         host_returns (hx_SystemCr3 ctx) s' s' \<and> guest_mirrors (hv_vm s) s' s' \<and> entry_fields e ctx Code Stack Flags s' \<and>
         ctx' = ctx\<lparr>hx_MsrBitmap := fst (VmcsSetGuestMsrExitPolicy (hx_MsrBitmapHpa ctx) (hx_MsrBitmap ctx) s)\<rparr>
       else vmx_mode s' = VmxRoot None))"
proof -
  let ?p = "vc_VmcsHpa (hv_vcpu s)" and ?b = "VmcsSetGuestMsrExitPolicy (hx_MsrBitmapHpa ctx) (hx_MsrBitmap ctx)"
  define s1 where "s1 = RestoreHostCr4Vmxe True (s\<lparr>hv_vcpu := (hv_vcpu s)\<lparr>vc_HostState := HvmpSaveHostState s\<rparr>\<rparr>)"
  define s2 where "s2 = (do_op (OpVmxOn (vc_VmxOnHpa (hv_vcpu s))) s1)\<lparr>cpu_vmcs := no_vmcs\<rparr>"
  define s3 where "s3 = (do_op (OpVmClear ?p) s2)\<lparr>cpu_vmcs := no_vmcs\<rparr>"
  define s4 where "s4 = (do_op (OpVmPtrLoad ?p) s3)\<lparr>cpu_vmcs := ve_region e ?p\<rparr>"
  have m: "vmx_mode (t\<lparr>cpu_vmcs := v\<rparr>) = vmx_mode t" for t v by (simp add: vmx_mode_def)
  have v: "hv_vcpu s1 = (hv_vcpu s)\<lparr>vc_HostState := HvmpSaveHostState s\<rparr>" "hv_vcpu s2 = hv_vcpu s1" "hv_vcpu s3 = hv_vcpu s1"
    "hv_vcpu s4 = hv_vcpu s1"
    by (simp_all add: s1_def s2_def s3_def s4_def RestoreHostCr4Vmxe_def)
  have q: "same_cpu s s1" "same_cpu s s2" "same_cpu s s3" "same_cpu s s4" "cpu_cr4 s1 = cpu_cr4 s OR CR4_VMXE"
    "cpu_cr4 s2 = cpu_cr4 s OR CR4_VMXE" "cpu_cr4 s3 = cpu_cr4 s OR CR4_VMXE" "cpu_cr4 s4 = cpu_cr4 s OR CR4_VMXE"
    by (simp_all add: s1_def s2_def s3_def s4_def RestoreHostCr4Vmxe_def same_cpu_def)
  have o: "vmx_mode s1 = VmxOff" "vmx_mode s2 = VmxRoot None" "vmx_mode s3 = VmxRoot None" "vmx_mode s4 = VmxRoot (Some ?p)"
    using assms(2) by (simp_all add: s1_def s2_def s3_def s4_def RestoreHostCr4Vmxe_def m) (simp_all add: vmx_mode_def)
  have on: "VmxpEnable e (vc_VmxOnHpa (hv_vcpu s)) (s\<lparr>hv_vcpu := (hv_vcpu s)\<lparr>vc_HostState := HvmpSaveHostState s\<rparr>\<rparr>) =
      (if ve_on e (vc_VmxOnHpa (hv_vcpu s)) then (STATUS_SUCCESS, s2) else (STATUS_UNSUCCESSFUL, RestoreHostCr4Vmxe False s1))"
    by (simp add: VmxpEnable_def AsmVmxOn_def s1_def s2_def)
  have cl: "AsmVmxClear e ?p s2 = (if ve_clear e ?p then (True, s3) else (False, s2))"
    using o(2) by (simp add: AsmVmxClear_def s3_def) (simp add: s2_def)
  have ld: "AsmVmxPtrLoad e ?p s3 = (if ve_load e ?p then (True, s4) else (False, s3))"
    by (simp add: AsmVmxPtrLoad_def s4_def)
  let ?on = "ve_on e (vc_VmxOnHpa (hv_vcpu s))" and ?ld = "ve_clear e ?p \<and> ve_load e ?p"
  consider (refused) "Status = STATUS_UNSUCCESSFUL" "s' = RestoreHostCr4Vmxe False s1" "\<not> ?on"
    | (none) "Status = STATUS_SUCCESS" "s' = s2 \<or> s' = s3" "?on" "\<not> ?ld"
    | (ok) "Status = STATUS_SUCCESS" "set_fields e Code Stack Flags ctx s4 = (ctx', s')" "?on" "?ld"
    using assms(1) by (auto simp: HvmpEnterRoot_def Let_def on cl ld split: if_splits prod.splits)
  then show ?thesis
  proof cases
    case refused
    then show ?thesis using o(1) v(1) q(1) assms(3,5) cr4_vmxe_off
      by (simp add: RestoreHostCr4Vmxe_def same_cpu_def q(5)) (simp add: vmx_mode_def)
  next
    case none
    then show ?thesis using o v q by auto
  next
    case ok
    have "\<forall>f. supported s4 f" using assms(4) by (simp add: s4_def supported_def)
    note f = set_fields [OF this ok(2)]
    have c: "same_cpu s s'" "cpu_cr4 s' = cpu_cr4 s OR CR4_VMXE" using same_cpu_trans [OF q(4) f(1)] f(2) q(8) by simp_all
    have "hv_vm s4 = hv_vm s" using q(4) by (simp add: same_cpu_def)
    moreover have "host_returns (hx_SystemCr3 ctx) s' s'" "guest_mirrors (hv_vm s4) s' s'"
      using f(6,7) returns_same_cpu [OF f(1,2)] mirrors_same_cpu [OF f(1)] by simp_all
    moreover have "fst (?b s4) = fst (?b s)" by (simp add: VmcsSetGuestMsrExitPolicy_def Let_def)
    moreover have "vmx_mode s' = VmxRoot (Some ?p)" using f(3) o(4) vmx_mode_cong by metis
    ultimately show ?thesis using ok(1,3,4) f(4,5,8,9) c v by simp
  qed
qed

lemma VMX_STATUS_fails: "\<not> NT_SUCCESS (VMX_STATUS x)"
  using bit_last_iff [of "VMX_STATUS x"] by (simp add: NT_SUCCESS_def VMX_STATUS_def bit_simps)

lemma do_op_views [simp]:
  "same_cpu s (do_op x t) = same_cpu s t" "host_returns h (do_op x s) (do_op x s) = host_returns h s s"
  "guest_mirrors V (do_op x s) (do_op x s) = guest_mirrors V s s" "entry_fields e ctx c r f (do_op x s) = entry_fields e ctx c r f s"
proof -
  have r: "VmRead16 (do_op x s) f = VmRead16 s f" "VmRead64 (do_op x s) f = VmRead64 s f" for f by (simp_all add: vmx_read)
  have g: "GetGdtrBase (do_op x s) = GetGdtrBase s" "GetIdtrBase (do_op x s) = GetIdtrBase s"
    "GetGdtrLimit (do_op x s) = GetGdtrLimit s" "GetIdtrLimit (do_op x s) = GetIdtrLimit s"
    by (simp_all add: GetGdtrBase_def GetIdtrBase_def GetGdtrLimit_def GetIdtrLimit_def)
  show "same_cpu s (do_op x t) = same_cpu s t" by (simp add: same_cpu_def)
  show "host_returns h (do_op x s) (do_op x s) = host_returns h s s"
    unfolding host_returns_def r do_op_sel do_op_cpu g ..
  show "guest_mirrors V (do_op x s) (do_op x s) = guest_mirrors V s s"
    unfolding guest_mirrors_def r do_op_sel do_op_cpu g ..
  show "entry_fields e ctx c r f (do_op x s) = entry_fields e ctx c r f s"
    unfolding entry_fields_def r do_op_sel do_op_cpu ..
qed

lemma start_failure:
  "HvmpStartFailure e b s = (Status, s') \<Longrightarrow> \<not> NT_SUCCESS Status \<and> same_cpu s s' \<and> vmx_mode s' = VmxOff \<and>
     cpu_cr4 s' = cpu_cr4 s AND NOT CR4_VMXE \<and> \<not> vc_Launched (hv_vcpu s')"
  using VmxpDisable_sel [where e = e and p = "vc_VmcsHpa (hv_vcpu s)" and s = "set_launched False s"]
  by (auto simp: HvmpStartFailure_def HvmpFailure_def Let_def set_launched_def same_cpu_def VMX_STATUS_fails split: if_splits)

text \<open>The fields that the stop service reads, and what a launch saves for it.\<close>

lemma launch_result:
  assumes "\<forall>t. vmx_mode t = VmxRoot None \<longrightarrow> ve_entry e t = FailInvalid"
    "AsmHvmLaunch e ctx s = (Status, ctx', s')" "vmx_mode s = VmxOff" "\<not> bit (cpu_cr4 s) 13"
    "\<forall>f. ve_region e (vc_VmcsHpa (hv_vcpu s)) f \<noteq> None" "\<not> vc_Launched (hv_vcpu s)"
  shows "same_cpu s s' \<and>
    (if Status = STATUS_SUCCESS
     then ve_on e (vc_VmxOnHpa (hv_vcpu s)) \<and> ve_clear e (vc_VmcsHpa (hv_vcpu s)) \<and> ve_load e (vc_VmcsHpa (hv_vcpu s)) \<and>
       vmx_mode s' = VmxGuest (vc_VmcsHpa (hv_vcpu s)) \<and> vc_Launched (hv_vcpu s') \<and> cpu_cr4 s' = cpu_cr4 s OR CR4_VMXE \<and>
       host_returns (hx_SystemCr3 ctx) s' s' \<and> guest_mirrors (hv_vm s) s' s' \<and>
       entry_fields e ctx (ve_code e) (reg s RSP - 40) (gr_Rflags (hv_regs s)) s'
     else \<not> NT_SUCCESS Status \<and> vmx_mode s' = VmxOff \<and> cpu_cr4 s' = cpu_cr4 s \<and> \<not> vc_Launched (hv_vcpu s')) \<and> (Status = STATUS_SUCCESS \<longrightarrow> vc_HostState (hv_vcpu s') = HvmpSaveHostState s) \<and>
     (ve_on e (vc_VmxOnHpa (hv_vcpu s)) \<and> ve_clear e (vc_VmcsHpa (hv_vcpu s)) \<and> ve_load e (vc_VmcsHpa (hv_vcpu s)) \<and>
        (\<forall>t p. vmx_mode t = VmxRoot (Some p) \<longrightarrow> ve_entry e t = EntryOk) \<longrightarrow> Status = STATUS_SUCCESS)"
proof -
  obtain St c1 s1 where r: "HvmpEnterRoot e (ve_code e) (reg s RSP - 40) (gr_Rflags (hv_regs s)) ctx s = (St, c1, s1)"
    by (metis prod_cases3)
  note E = enter_root [OF r assms(3-6)]
  have vm: "hv_vm s1 = hv_vm s" using E by (simp add: same_cpu_def)
  have fail: ?thesis if "HvmpStartFailure e b s1 = (Status, s')" "cpu_cr4 s1 = cpu_cr4 s OR CR4_VMXE" "ve_entry e s1 \<noteq> EntryOk" for b
  proof -
    have "Status \<noteq> STATUS_SUCCESS" using start_failure [OF that(1)] by auto
    moreover have "\<not> (ve_on e (vc_VmxOnHpa (hv_vcpu s)) \<and> ve_clear e (vc_VmcsHpa (hv_vcpu s)) \<and> ve_load e (vc_VmcsHpa (hv_vcpu s)) \<and>
        (\<forall>t p. vmx_mode t = VmxRoot (Some p) \<longrightarrow> ve_entry e t = EntryOk))"
    proof
      assume a: "ve_on e (vc_VmxOnHpa (hv_vcpu s)) \<and> ve_clear e (vc_VmcsHpa (hv_vcpu s)) \<and> ve_load e (vc_VmcsHpa (hv_vcpu s)) \<and>
        (\<forall>t p. vmx_mode t = VmxRoot (Some p) \<longrightarrow> ve_entry e t = EntryOk)"
      then have "vmx_mode s1 = VmxRoot (Some (vc_VmcsHpa (hv_vcpu s)))" using E by simp
      then show False using a that(3) by blast
    qed
    ultimately show ?thesis
      using start_failure [OF that(1)] that(2) same_cpu_trans [of s s1 s'] E cr4_vmxe_off(1) [OF assms(4)] cr4_vmxe_off(2) by simp
  qed
  show ?thesis
  proof (cases "St = STATUS_SUCCESS")
    case False
    then show ?thesis using assms(2) E by (auto simp: AsmHvmLaunch_def r split: if_splits)
  next
    case True
    then have c: "cpu_cr4 s1 = cpu_cr4 s OR CR4_VMXE" using E by (simp split: if_splits)
    show ?thesis
    proof (cases "ve_entry e s1")
      case EntryOk
      have s': "s' = do_op OpVmLaunch s1" "Status = STATUS_SUCCESS" using assms(2) True EntryOk by (simp_all add: AsmHvmLaunch_def r)
      have "vmx_mode s1 \<noteq> VmxRoot None" using assms(1) EntryOk by auto
      then have "ve_on e (vc_VmxOnHpa (hv_vcpu s)) \<and> ve_clear e (vc_VmcsHpa (hv_vcpu s)) \<and> ve_load e (vc_VmcsHpa (hv_vcpu s))"
        using E True by (simp split: if_splits)
      then show ?thesis using E True by (simp add: s')
    next
      case FailValid
      then have "HvmpStartFailure e True s1 = (Status, s')" using assms(2) True by (simp add: AsmHvmLaunch_def r split: prod.splits)
      then show ?thesis by (rule fail [OF _ c]) (simp add: FailValid)
    next
      case FailInvalid
      then have "HvmpStartFailure e False s1 = (Status, s')" using assms(2) True by (simp add: AsmHvmLaunch_def r split: prod.splits)
      then show ?thesis by (rule fail [OF _ c]) (simp add: FailInvalid)
    qed
  qed
qed

text \<open>
  C4: A launch is all or nothing.  When \<open>AsmHvmLaunch\<close> returns success, the processor runs
  the guest on the control structure of its virtual processor; that structure returns to the
  processor as it was, in the address space of the system, the guest's area mirrors it, the
  guest goes on after the launch instruction on the same stack, and time stamps are
  intercepted.  When any instruction on the way fails, virtualisation is off, the control
  registers are as before and the virtual processor does not count as launched; this covers
  the failures of \<open>VMCLEAR\<close> and \<open>VMPTRLD\<close> that \<open>HvmpEnterRoot\<close> reports as success.  The
  processor is assumed to refuse an entry without a control structure.\<close>
theorem launch_all_or_nothing:
  assumes "\<forall>t. vmx_mode t = VmxRoot None \<longrightarrow> ve_entry e t = FailInvalid"
    "AsmHvmLaunch e ctx s = (Status, ctx', s')" "vmx_mode s = VmxOff" "\<not> bit (cpu_cr4 s) 13"
    "\<forall>f. ve_region e (vc_VmcsHpa (hv_vcpu s)) f \<noteq> None" "\<not> vc_Launched (hv_vcpu s)"
  shows "same_cpu s s' \<and>
    (if Status = STATUS_SUCCESS
     then ve_on e (vc_VmxOnHpa (hv_vcpu s)) \<and> ve_clear e (vc_VmcsHpa (hv_vcpu s)) \<and> ve_load e (vc_VmcsHpa (hv_vcpu s)) \<and>
       vmx_mode s' = VmxGuest (vc_VmcsHpa (hv_vcpu s)) \<and> vc_Launched (hv_vcpu s') \<and> cpu_cr4 s' = cpu_cr4 s OR CR4_VMXE \<and>
       host_returns (hx_SystemCr3 ctx) s' s' \<and> guest_mirrors (hv_vm s) s' s' \<and>
       entry_fields e ctx (ve_code e) (reg s RSP - 40) (gr_Rflags (hv_regs s)) s'
     else \<not> NT_SUCCESS Status \<and> vmx_mode s' = VmxOff \<and> cpu_cr4 s' = cpu_cr4 s \<and> \<not> vc_Launched (hv_vcpu s'))"
  using launch_result [OF assms] by blast

definition example_vmx_env :: "bool \<Rightarrow> vmx_env" where
  "example_vmx_env ok = \<lparr>ve_on = (\<lambda>_. True), ve_clear = (\<lambda>_. True), ve_load = (\<lambda>_. ok), ve_region = (\<lambda>_ _. Some 0),
     ve_entry = (\<lambda>t. case vmx_mode t of VmxRoot (Some p) \<Rightarrow> EntryOk | _ \<Rightarrow> FailInvalid),
     ve_exit_handler = 0xFFFFF80000010000, ve_code = 0xFFFFF80000010100\<rparr>"

definition example_off :: hv_state where
  "example_off = example_hv\<lparr>cpu_cr4 := 0x406F8,
     hv_vcpu := zero_vcpu\<lparr>vc_VmxOnHpa := 0x10000, vc_VmcsHpa := 0x11000, vc_Rsp := 0xFFFFF80000022FC0\<rparr>\<rparr>"

definition example_context :: hvm_context where
  "example_context = \<lparr>hx_SystemCr3 = 0x1AD000, hx_MsrBitmap = replicate 4096 0, hx_MsrBitmapHpa = 0x12000\<rparr>"

lemma example_vmx_laws:
  "\<forall>t. vmx_mode t = VmxRoot None \<longrightarrow> ve_entry (example_vmx_env ok) t = FailInvalid"
  "\<forall>t p. vmx_mode t = VmxRoot (Some p) \<longrightarrow> ve_entry (example_vmx_env ok) t = EntryOk"
  "\<forall>f. ve_region (example_vmx_env ok) p f \<noteq> None" "ve_on (example_vmx_env ok) p" "ve_clear (example_vmx_env ok) p"
  "ve_load (example_vmx_env ok) p = ok"
  by (simp_all add: example_vmx_env_def)

lemma example_off_laws:
  "vmx_mode example_off = VmxOff" "\<not> bit (cpu_cr4 example_off) 13" "\<not> bit (cpu_cr4 example_off) 2"
  "\<not> vc_Launched (hv_vcpu example_off)" "vc_VmcsHpa (hv_vcpu example_off) = 0x11000"
  by (simp_all add: example_off_def zero_vcpu_def vmx_mode_def) (simp add: example_hv_def)

theorem launch_all_or_nothing_witness:
  "(\<exists>ctx' s'. AsmHvmLaunch (example_vmx_env True) example_context example_off = (STATUS_SUCCESS, ctx', s') \<and>
     vmx_mode s' = VmxGuest 0x11000) \<and>
   (\<exists>Status ctx' s'. AsmHvmLaunch (example_vmx_env False) example_context example_off = (Status, ctx', s') \<and>
     Status \<noteq> STATUS_SUCCESS \<and> vmx_mode s' = VmxOff \<and> cpu_cr4 s' = 0x406F8)"
proof -
  obtain St ctx' s' where r: "AsmHvmLaunch (example_vmx_env True) example_context example_off = (St, ctx', s')"
    by (metis prod_cases3)
  obtain Sf ctx2 s2 where f: "AsmHvmLaunch (example_vmx_env False) example_context example_off = (Sf, ctx2, s2)"
    by (metis prod_cases3)
  note o = example_off_laws(1,2) example_vmx_laws(3) example_off_laws(4)
  have "St = STATUS_SUCCESS"
    using launch_result [OF example_vmx_laws(1) r o] example_vmx_laws(2,4-6) by simp
  moreover have "vmx_mode s' = VmxGuest 0x11000"
    using launch_all_or_nothing [OF example_vmx_laws(1) r o] calculation example_off_laws(5) by simp
  moreover have "Sf \<noteq> STATUS_SUCCESS \<and> vmx_mode s2 = VmxOff \<and> cpu_cr4 s2 = cpu_cr4 example_off"
    using launch_all_or_nothing [OF example_vmx_laws(1) f o] example_vmx_laws(6) [of False] by (simp split: if_splits)
  moreover have "cpu_cr4 example_off = 0x406F8" by (simp add: example_off_def)
  ultimately show ?thesis using r f by auto
qed

section \<open>Stopping\<close>

lemma read_base_update [simp]:
  "VmReadN (s\<lparr>cpu_cr0 := v\<rparr>) f = VmReadN s f" "VmReadN (s\<lparr>cpu_cr4 := v\<rparr>) f = VmReadN s f" "VmReadN (write_msr r v s) f = VmReadN s f"
  "VmReadN (write_sel g x t) f = VmReadN t f"
  by (simp_all add: vmx_read write_msr_def write_sel_def)

lemma restore_host:
  fixes s :: hv_state
  defines "t \<equiv> HvmpRestoreHostState s" and "H \<equiv> vc_HostState (hv_vcpu s)"
  shows "cpu_cr0 t = VmReadN s GUEST_CR0" "cpu_cr3 t = VmReadN s GUEST_CR3" "cpu_cr4 t = VmReadN s GUEST_CR4 AND NOT CR4_TSD"
    "cpu_msr t IA32_FS_BASE = VmReadN s GUEST_FS_BASE" "cpu_msr t IA32_GS_BASE = VmReadN s GUEST_GS_BASE"
    "hc_sel t = (hc_sel s)(SegDs := hs_Ds H, SegEs := hs_Es H, SegFs := hs_Fs H)" "hc_gdtr t = hs_Gdt H" "hc_idtr t = hs_Idt H"
    "hv_vcpu t = hv_vcpu s" "hv_regs t = hv_regs s" "hv_ops t = hv_ops s"
proof -
  have d: "IA32_FS_BASE \<noteq> IA32_GS_BASE" "IA32_GS_BASE \<noteq> IA32_FS_BASE" by (simp_all add: IA32_FS_BASE_def IA32_GS_BASE_def)
  have g: "VmReadN (s\<lparr>hc_gdtr := x, hc_idtr := y\<rparr>) f = VmReadN s f" for s :: hv_state and x y f by (simp add: vmx_read)
  show "cpu_cr0 t = VmReadN s GUEST_CR0" "cpu_cr3 t = VmReadN s GUEST_CR3" "cpu_cr4 t = VmReadN s GUEST_CR4 AND NOT CR4_TSD"
    "cpu_msr t IA32_FS_BASE = VmReadN s GUEST_FS_BASE" "cpu_msr t IA32_GS_BASE = VmReadN s GUEST_GS_BASE"
    using d by (simp_all add: t_def HvmpRestoreHostState_def Let_def g) (simp_all add: write_msr_def write_sel_def)
  show "hc_sel t = (hc_sel s)(SegDs := hs_Ds H, SegEs := hs_Es H, SegFs := hs_Fs H)" "hc_gdtr t = hs_Gdt H" "hc_idtr t = hs_Idt H"
    "hv_vcpu t = hv_vcpu s" "hv_regs t = hv_regs s" "hv_ops t = hv_ops s"
    by (simp_all add: t_def H_def HvmpRestoreHostState_def Let_def write_msr_def write_sel_def)
qed

text \<open>The state the processor has after the stop service, seen from the exit that asked for it.\<close>

definition stopped_as :: "hv_state \<Rightarrow> hv_state \<Rightarrow> bool" where
  "stopped_as s t \<longleftrightarrow> (let H = vc_HostState (hv_vcpu s) in
     vmx_mode t = VmxOff \<and> cpu_cr0 t = VmReadN s GUEST_CR0 \<and> cpu_cr3 t = VmReadN s GUEST_CR3 \<and>
     cpu_cr4 t = VmReadN s GUEST_CR4 AND NOT (CR4_TSD OR CR4_VMXE) \<and>
     cpu_msr t IA32_FS_BASE = VmReadN s GUEST_FS_BASE \<and> cpu_msr t IA32_GS_BASE = VmReadN s GUEST_GS_BASE \<and>
     hc_gdtr t = hs_Gdt H \<and> hc_idtr t = hs_Idt H \<and> hc_sel t SegDs = hs_Ds H \<and> hc_sel t SegEs = hs_Es H \<and>
     hc_sel t SegFs = hs_Fs H)"

definition stop_call :: "hv_state \<Rightarrow> bool" where
  "stop_call s \<longleftrightarrow> VmRead32 s EXIT_REASON AND 0xFFFF = EXIT_REASON_VMCALL \<and> reg s RAX = HVM_CALL_MAGIC \<and>
     reg s RCX = HVM_INTERNAL_SERVICE_STOP"

lemma read_guest_sel [simp]:
  "VmReadN (read_guest_registers s) f = VmReadN s f" "VmRead32 (read_guest_registers s) f = VmRead32 s f"
  "VmReadN (HvmpExitEventLog s) f = VmReadN s f" "VmRead32 (HvmpExitEventLog s) f = VmRead32 s f"
  "reg (read_guest_registers s) n = (if n = RSP then VmReadN s GUEST_RSP else reg s n)" "reg (HvmpExitEventLog s) = reg s"
  "gr_Rip (hv_regs (read_guest_registers s)) = VmReadN s GUEST_RIP"
  "gr_Rflags (hv_regs (read_guest_registers s)) = VmReadN s GUEST_RFLAGS" "hv_regs (HvmpExitEventLog s) = hv_regs s"
  "hv_vcpu (read_guest_registers s) = hv_vcpu s" "hv_vcpu (HvmpExitEventLog s) = hv_vcpu s"
  "hv_ops (read_guest_registers s) = hv_ops s" "hv_ops (HvmpExitEventLog s) = hv_ops s"
  "supported (read_guest_registers s) f = supported s f" "supported (HvmpExitEventLog s) f = supported s f"
  by (simp_all add: read_guest_registers_def HvmpExitEventLog_def Let_def vmx_read supported_def reg_def set_reg_def set_gr_def fun_eq_iff)

lemma rip_advance_vcpu [simp]: "hv_vcpu (InstrRipAdvance s) = hv_vcpu s"
  by (simp add: InstrRipAdvance_def InjectInt1_def Let_def)

lemma stop_result:
  assumes "stop_call s"
  obtains t where "HvmpExitHandler e w s = Some (Stopped t)" "stopped_as s t"
    "last (hv_ops t) = OpIret (VmReadN s GUEST_RIP + ucast (VmRead32 s EXIT_INSTRUCTION_LENGTH))
       (ucast (hs_Cs (vc_HostState (hv_vcpu s)))) (unset_bit 8 (VmReadN s GUEST_RFLAGS)) (VmReadN s GUEST_RSP)
       (ucast (hs_Ss (vc_HostState (hv_vcpu s))))"
    "\<forall>n. reg t n = (if n = RAX then 0 else if n = RSP then VmReadN s GUEST_RSP else reg s n)" "vmx_mode t = VmxOff"
proof -
  define u where "u = InstrRipAdvance (HvmpExitEventLog (read_guest_registers s))"
  define v where "v = HvmpRestoreHostState (set_reg RAX (ucast STATUS_SUCCESS) u)"
  let ?d = "VmxpDisable e (vc_VmcsHpa (hv_vcpu v)) v"
  have H: "HvmpExitHandler e w s = Some (Stopped (HvmpStop e (set_reg RAX (ucast STATUS_SUCCESS) u)))"
    using assms by (simp add: stop_call_def HvmpExitHandler_def HvmHandleService_def Let_def u_def)
  note R = restore_host [of "set_reg RAX (ucast STATUS_SUCCESS) u", folded v_def]
  have V: "hv_vcpu u = hv_vcpu s" by (simp add: u_def)
  have D: "vmx_mode ?d = VmxOff" "cpu_cr4 ?d = cpu_cr4 v AND NOT CR4_VMXE" "same_cpu v ?d"
    by (rule VmxpDisable_sel)+
  obtain f where S: "HvmpStop e (set_reg RAX (ucast STATUS_SUCCESS) u) = do_op f ?d"
    "f = OpIret (gr_Rip (hv_regs u)) (ucast (hs_Cs (vc_HostState (hv_vcpu u)))) (gr_Rflags (hv_regs u)) (reg u RSP)
       (ucast (hs_Ss (vc_HostState (hv_vcpu u))))"
    using R(9) by (simp add: HvmpStop_def Let_def v_def set_reg_def set_gr_def reg_def)
  have m: "vmx_mode (do_op f ?d) = VmxOff" using D(1) by (simp add: S(2))
  have "stopped_as s (do_op f ?d)"
    using D R m by (simp add: stopped_as_def Let_def same_cpu_def V ac_simps bit.conj_disj_distrib)
      (simp add: u_def ac_simps)
  moreover have "reg (do_op f ?d) n = (if n = RAX then 0 else if n = RSP then VmReadN s GUEST_RSP else reg s n)" for n
  proof -
    have "hv_regs ?d = hv_regs (set_reg RAX (ucast STATUS_SUCCESS) u)" using D(3) R(10) by (simp add: same_cpu_def)
    then have "reg ?d n = reg (set_reg RAX (ucast STATUS_SUCCESS) u) n" by (simp add: reg_def)
    then show ?thesis by (simp add: u_def)
  qed
  ultimately show ?thesis using that [OF H [unfolded S(1)]] m V S(2)
    by (simp add: u_def rip_advance_flags)
qed

lemma mirrors_bases:
  assumes "guest_mirrors V c c'"
  shows "VmReadN c' GUEST_FS_BASE = cpu_msr c IA32_FS_BASE" "VmReadN c' GUEST_GS_BASE = cpu_msr c IA32_GS_BASE"
proof -
  note seg = assms [unfolded guest_mirrors_def, THEN conjunct2, THEN conjunct2, THEN conjunct2, THEN conjunct1, THEN spec]
  show "VmReadN c' GUEST_FS_BASE = cpu_msr c IA32_FS_BASE" "VmReadN c' GUEST_GS_BASE = cpu_msr c IA32_GS_BASE"
    using seg [of SegFs] seg [of SegGs] by simp_all
qed


lemma example_msr_values:
  "example_fixed_msr IA32_VMX_CR0_FIXED0 = 0x80000021" "example_fixed_msr IA32_VMX_CR0_FIXED1 = 0xFFFFFFFF"
  "example_fixed_msr IA32_VMX_CR4_FIXED0 = 0x2000" "example_fixed_msr IA32_VMX_CR4_FIXED1 = 0x3727FF"
  "example_fixed_msr IA32_VMX_PROC_PRIMARY_CTLS = 0"
  by (simp_all add: example_fixed_msr_def IA32_VMX_CR0_FIXED0_def IA32_VMX_CR0_FIXED1_def
      IA32_VMX_CR4_FIXED0_def IA32_VMX_CR4_FIXED1_def IA32_VMX_PROC_PRIMARY_CTLS_def)

definition stop_request :: "hv_state \<Rightarrow> hv_state" where
  "stop_request s = set_reg RAX HVM_CALL_MAGIC (set_reg RCX HVM_INTERNAL_SERVICE_STOP
     (s\<lparr>cpu_vmcs := (cpu_vmcs s)(EXIT_REASON \<mapsto> 18)\<rparr>))"


end
