(* ===== verification/Hvm_Run.thy ===== *)
theory Hvm_Run
  imports Launch_Props
begin

text \<open>
  Starting and stopping the hypervisor on all processors (\<open>HvmStart\<close>, \<open>HvmStop\<close> of
  \<open>hvm_launch.c\<close>), the services a guest reaches through \<open>VMCALL\<close>, and the log of exits.
\<close>

section \<open>Callbacks with shared and private state\<close>

text \<open>
  Each processor's callback changes its own component of \<open>w\<close> and the shared \<open>x\<close>: what it
  establishes of its component, from any shared state that satisfies \<open>I\<close>, holds at the end.
\<close>

definition per_cpu :: "(nat \<Rightarrow> 'x \<Rightarrow> 'c \<Rightarrow> ntstatus \<times> 'x \<times> 'c) \<Rightarrow> nat \<Rightarrow> 'x \<times> (nat \<Rightarrow> 'c) \<Rightarrow> ntstatus \<times> 'x \<times> (nat \<Rightarrow> 'c)" where
  "per_cpu f t W = (let (st, x, c) = f t (fst W) (snd W t) in (st, x, (snd W)(t := c)))"

lemma run_in_order_shared:
  assumes "run_in_order (per_cpu f) order (x, w) = (log, x', w')" "distinct order" "I x" "\<forall>t\<in>set order. w t = w0 t"
    "\<forall>t x st x' c. t \<in> set order \<longrightarrow> I x \<longrightarrow> f t x (w0 t) = (st, x', c) \<longrightarrow> I x' \<and> P t st c"
  shows "I x' \<and> map fst log = order \<and> (\<forall>(t, st) \<in> set log. P t st (w' t)) \<and> (\<forall>t. t \<notin> set order \<longrightarrow> w' t = w t)"
  using assms
proof (induction order arbitrary: x w log)
  case (Cons t ts)
  obtain st x1 c where f: "f t x (w t) = (st, x1, c)" by (metis prod_cases3)
  have r1: "per_cpu f t (x, w) = (st, x1, w(t := c))" using f by (simp add: per_cpu_def)
  obtain log1 where r: "run_in_order (per_cpu f) ts (x1, w(t := c)) = (log1, x', w')" "log = (t, st) # log1"
    using Cons.prems(1) by (cases "run_in_order (per_cpu f) ts (x1, w(t := c))") (simp add: r1)
  have "t \<in> set (t # ts)" "w t = w0 t" using Cons.prems(4) by simp_all
  then have p: "I x1" "P t st c" using Cons.prems(3,5) f by (metis, metis)
  have q: "distinct ts" "t \<notin> set ts" "\<forall>u\<in>set ts. (w(t := c)) u = w0 u"
    "\<forall>u x st x' c. u \<in> set ts \<longrightarrow> I x \<longrightarrow> f u x (w0 u) = (st, x', c) \<longrightarrow> I x' \<and> P u st c"
    using Cons.prems(2,4,5) by (simp, simp, simp, meson list.set_intros(2))
  have "I x' \<and> map fst log1 = ts \<and> (\<forall>(t, st) \<in> set log1. P t st (w' t)) \<and> (\<forall>u. u \<notin> set ts \<longrightarrow> w' u = (w(t := c)) u)"
    by (rule Cons.IH [OF r(1) q(1) p(1) q(3,4)])
  moreover from this have "w' t = c" using q(2) by simp
  ultimately show ?case using p(2) r(2) by simp
qed simp

lemma smp_returns_shared:
  assumes "smp_returns (per_cpu f) n (x, w) Status (x', w')" "I x"
    "\<forall>t x st x' c. t < n \<longrightarrow> I x \<longrightarrow> f t x (w t) = (st, x', c) \<longrightarrow> I x' \<and> P t st c"
  shows "I x'" "\<forall>t<n. \<exists>st. P t st (w' t)" "Status = STATUS_SUCCESS \<Longrightarrow> \<forall>t<n. P t STATUS_SUCCESS (w' t)"
    "Status \<noteq> STATUS_SUCCESS \<Longrightarrow> \<exists>t<n. P t Status (w' t)" "\<forall>t. \<not> t < n \<longrightarrow> w' t = w t"
proof -
  obtain order log where o: "distinct order" "set order = {..<n}" "run_in_order (per_cpu f) order (x, w) = (log, x', w')"
    and st: "if \<forall>st \<in> snd ` set log. st = STATUS_SUCCESS then Status = STATUS_SUCCESS
         else Status \<noteq> STATUS_SUCCESS \<and> Status \<in> snd ` set log"
    using assms(1) by (auto simp: smp_returns_def)
  have R: "I x' \<and> map fst log = order \<and> (\<forall>(t, st) \<in> set log. P t st (w' t)) \<and> (\<forall>t. t \<notin> set order \<longrightarrow> w' t = w t)"
    by (rule run_in_order_shared [where I = I and P = P and ?w0.0 = w, OF o(3,1) assms(2)]) (use assms(3) o(2) in auto)
  then show "I x'" "\<forall>t. \<not> t < n \<longrightarrow> w' t = w t" using o(2) by simp_all
  have a: "P t st (w' t)" if "(t, st) \<in> set log" for t st using R that by blast
  have m: "fst ` set log = {..<n}" using R o(2) by (metis list.set_map)
  have l: "\<exists>st. (t, st) \<in> set log" if "t < n" for t
  proof -
    have "t \<in> fst ` set log" using that m by simp
    then show ?thesis by force
  qed
  show "\<forall>t<n. \<exists>st. P t st (w' t)" using l a by blast
  show "\<forall>t<n. P t STATUS_SUCCESS (w' t)" if s: "Status = STATUS_SUCCESS"
  proof (intro allI impI)
    fix t assume "t < n"
    then obtain u where u: "(t, u) \<in> set log" using l by blast
    then have "u \<in> snd ` set log" by force
    then have "u = STATUS_SUCCESS" using st s by (metis (full_types))
    then show "P t STATUS_SUCCESS (w' t)" using a [OF u] by simp
  qed
  show "\<exists>t<n. P t Status (w' t)" if s: "Status \<noteq> STATUS_SUCCESS"
  proof -
    have "Status \<in> snd ` set log" using st s by (metis (full_types))
    then obtain t where t: "(t, Status) \<in> set log" by force
    then have "t \<in> fst ` set log" by force
    then have "t < n" using m by simp
    then show ?thesis using a [OF t] by blast
  qed
qed

section \<open>Stopping from the guest\<close>

text \<open>
  \<open>vmcall\<close> is the processor's exit on \<open>VMCALL\<close>: the state its handler finds.  \<open>None\<close> when the
  system has stopped.
\<close>

definition AsmHvmHyperCall ::
  "(hv_state \<Rightarrow> hv_state) \<Rightarrow> vmx_env \<Rightarrow> hv_env \<Rightarrow> u64 \<Rightarrow> u64 \<Rightarrow> hv_state \<Rightarrow> (ntstatus \<times> hv_state) option" where
  "AsmHvmHyperCall vmcall e w service data s =
     (case HvmpExitHandler e w (vmcall (set_reg RAX HVM_CALL_MAGIC (set_reg RCX service (set_reg RDX data s)))) of
        Some (Stopped t) \<Rightarrow> Some (ucast (reg t RAX), t)
      | Some (Resumed t) \<Rightarrow> Some (ucast (reg t RAX), t)
      | _ \<Rightarrow> None)"

definition HvmpStopVcpu :: "(hv_state \<Rightarrow> hv_state) \<Rightarrow> vmx_env \<Rightarrow> hv_env \<Rightarrow> hv_state \<Rightarrow> (ntstatus \<times> hv_state) option" where
  "HvmpStopVcpu vmcall e w s = AsmHvmHyperCall vmcall e w HVM_INTERNAL_SERVICE_STOP 0 s"

section \<open>All processors\<close>

text \<open>\<open>hm_Launched\<close> is the flag of the \<open>HVM\<close>; every processor has its own state.\<close>

record hvm =
  hm_Launched :: bool
  hm_context :: hvm_context
  hm_cpus :: "nat \<Rightarrow> hv_state"

definition HvmStart :: "(nat \<Rightarrow> vmx_env) \<Rightarrow> nat \<Rightarrow> hvm \<Rightarrow> ntstatus \<Rightarrow> hvm \<Rightarrow> bool" where
  "HvmStart e n Hvm Status Hvm' \<longleftrightarrow>
     (if hm_Launched Hvm then Status = STATUS_UNSUCCESSFUL \<and> Hvm' = Hvm
      else \<exists>ctx cpus. smp_returns (per_cpu (\<lambda>VcpuId. HvmpStartVcpu (e VcpuId))) n (hm_context Hvm, hm_cpus Hvm) Status (ctx, cpus) \<and>
        Hvm' = \<lparr>hm_Launched = NT_SUCCESS Status, hm_context = ctx, hm_cpus = cpus\<rparr>)"

text \<open>No processor may fault, or the system stops.\<close>

definition HvmStop ::
  "(nat \<Rightarrow> hv_state \<Rightarrow> hv_state) \<Rightarrow> (nat \<Rightarrow> vmx_env) \<Rightarrow> (nat \<Rightarrow> hv_env) \<Rightarrow> nat \<Rightarrow> hvm \<Rightarrow> ntstatus \<Rightarrow> hvm \<Rightarrow> bool" where
  "HvmStop vmcall e w n Hvm Status Hvm' \<longleftrightarrow>
     (if \<not> hm_Launched Hvm then Status = STATUS_UNSUCCESSFUL \<and> Hvm' = Hvm
      else (\<forall>t<n. HvmpStopVcpu (vmcall t) (e t) (w t) (hm_cpus Hvm t) \<noteq> None) \<and>
        (\<exists>cpus. smp_returns (\<lambda>t cpus. let (st, c) = the (HvmpStopVcpu (vmcall t) (e t) (w t) (cpus t)) in (st, cpus(t := c)))
           n (hm_cpus Hvm) Status cpus \<and>
         Hvm' = Hvm\<lparr>hm_Launched := \<not> NT_SUCCESS Status, hm_cpus := cpus\<rparr>))"

section \<open>Starting\<close>

text \<open>The processor refuses an entry without a control structure, and finds every field in the one it loads.\<close>

definition vmx_laws :: "vmx_env \<Rightarrow> bool" where
  "vmx_laws e \<longleftrightarrow> (\<forall>t. vmx_mode t = VmxRoot None \<longrightarrow> ve_entry e t = FailInvalid) \<and> (\<forall>p f. ve_region e p f \<noteq> None)"

definition ready :: "hv_state \<Rightarrow> bool" where
  "ready s \<longleftrightarrow> vmx_mode s = VmxOff \<and> \<not> bit (cpu_cr4 s) 13 \<and> \<not> vc_Launched (hv_vcpu s)"

definition running :: "hv_state \<Rightarrow> bool" where
  "running s \<longleftrightarrow> (\<exists>p. vmx_mode s = VmxGuest p) \<and> vc_Launched (hv_vcpu s)"

lemma interrupts_sel [simp]:
  "vmx_mode (AsmDisableInterrupts s) = vmx_mode s" "vmx_mode (AsmEnableInterrupts s) = vmx_mode s"
  "hv_vcpu (AsmDisableInterrupts s) = hv_vcpu s" "hv_vcpu (AsmEnableInterrupts s) = hv_vcpu s"
  "cpu_cr4 (AsmDisableInterrupts s) = cpu_cr4 s" "cpu_cr4 (AsmEnableInterrupts s) = cpu_cr4 s"
proof -
  have m: "vmx_mode (set_flags f s) = vmx_mode s" for f s by (simp add: vmx_mode_def set_flags_def)
  have o: "vmx_after v (OpInterrupts b) = v" for v b by (cases v) (auto split: option.splits)
  show "vmx_mode (AsmDisableInterrupts s) = vmx_mode s" "vmx_mode (AsmEnableInterrupts s) = vmx_mode s"
    by (simp_all add: AsmDisableInterrupts_def AsmEnableInterrupts_def m o)
  show "hv_vcpu (AsmDisableInterrupts s) = hv_vcpu s" "hv_vcpu (AsmEnableInterrupts s) = hv_vcpu s"
    "cpu_cr4 (AsmDisableInterrupts s) = cpu_cr4 s" "cpu_cr4 (AsmEnableInterrupts s) = cpu_cr4 s"
    by (simp_all add: AsmDisableInterrupts_def AsmEnableInterrupts_def set_flags_def)
qed

text \<open>What starting one processor comes to.\<close>

definition capable :: "vmx_env \<Rightarrow> hv_state \<Rightarrow> bool" where
  "capable e s \<longleftrightarrow> ve_on e (vc_VmxOnHpa (hv_vcpu s)) \<and> ve_clear e (vc_VmcsHpa (hv_vcpu s)) \<and> ve_load e (vc_VmcsHpa (hv_vcpu s)) \<and>
     (\<forall>t p. vmx_mode t = VmxRoot (Some p) \<longrightarrow> ve_entry e t = EntryOk)"

definition started :: "vmx_env \<Rightarrow> hv_state \<Rightarrow> ntstatus \<Rightarrow> hv_state \<Rightarrow> bool" where
  "started e s Status s' \<longleftrightarrow>
     (if Status = STATUS_SUCCESS then running s' \<and> cpu_cr4 s' = cpu_cr4 s OR CR4_VMXE \<and> ve_load e (vc_VmcsHpa (hv_vcpu s))
      else \<not> NT_SUCCESS Status \<and> ready s' \<and> cpu_cr4 s' = cpu_cr4 s) \<and> (capable e s \<longrightarrow> Status = STATUS_SUCCESS)"

lemma start_vcpu:
  assumes "vmx_laws e" "ready s" "HvmpStartVcpu e ctx s = (Status, ctx', s')"
  shows "started e s Status s'"
proof -
  obtain u where u: "AsmHvmLaunch e ctx (AsmDisableInterrupts s) = (Status, ctx', u)" "s' = AsmEnableInterrupts u"
    using assms(3) by (auto simp: HvmpStartVcpu_def split: prod.splits)
  have l: "\<forall>t. vmx_mode t = VmxRoot None \<longrightarrow> ve_entry e t = FailInvalid"
    "vmx_mode (AsmDisableInterrupts s) = VmxOff" "\<not> bit (cpu_cr4 (AsmDisableInterrupts s)) 13"
    "\<forall>f. ve_region e (vc_VmcsHpa (hv_vcpu (AsmDisableInterrupts s))) f \<noteq> None"
    "\<not> vc_Launched (hv_vcpu (AsmDisableInterrupts s))"
    using assms(1,2) by (simp_all add: vmx_laws_def ready_def)
  show ?thesis using launch_result [OF l(1) u(1) l(2-5)] assms(2)
    by (auto simp: started_def running_def ready_def capable_def u(2) split: if_splits)
qed

lemma start_all:
  assumes "HvmStart e n Hvm Status Hvm'" "\<not> hm_Launched Hvm" "\<forall>t<n. vmx_laws (e t) \<and> ready (hm_cpus Hvm t)"
  shows "hm_Launched Hvm' = NT_SUCCESS Status" "\<forall>t<n. \<exists>st. started (e t) (hm_cpus Hvm t) st (hm_cpus Hvm' t)"
    "Status = STATUS_SUCCESS \<Longrightarrow> \<forall>t<n. started (e t) (hm_cpus Hvm t) STATUS_SUCCESS (hm_cpus Hvm' t)"
    "Status \<noteq> STATUS_SUCCESS \<Longrightarrow> \<exists>t<n. started (e t) (hm_cpus Hvm t) Status (hm_cpus Hvm' t)"
proof -
  obtain ctx cpus where r: "smp_returns (per_cpu (\<lambda>t. HvmpStartVcpu (e t))) n (hm_context Hvm, hm_cpus Hvm) Status (ctx, cpus)"
    and H: "Hvm' = \<lparr>hm_Launched = NT_SUCCESS Status, hm_context = ctx, hm_cpus = cpus\<rparr>"
    using assms(1,2) by (auto simp: HvmStart_def)
  have s: "\<forall>t x st x' c. t < n \<longrightarrow> True \<longrightarrow> HvmpStartVcpu (e t) x (hm_cpus Hvm t) = (st, x', c) \<longrightarrow>
      True \<and> started (e t) (hm_cpus Hvm t) st c"
    using start_vcpu assms(3) by blast
  note R = smp_returns_shared [where I = "\<lambda>_. True" and P = "\<lambda>t. started (e t) (hm_cpus Hvm t)", OF r TrueI s]
  show "hm_Launched Hvm' = NT_SUCCESS Status" by (simp add: H)
  show "\<forall>t<n. \<exists>st. started (e t) (hm_cpus Hvm t) st (hm_cpus Hvm' t)"
    "Status = STATUS_SUCCESS \<Longrightarrow> \<forall>t<n. started (e t) (hm_cpus Hvm t) STATUS_SUCCESS (hm_cpus Hvm' t)"
    "Status \<noteq> STATUS_SUCCESS \<Longrightarrow> \<exists>t<n. started (e t) (hm_cpus Hvm t) Status (hm_cpus Hvm' t)"
    using R(2-4) by (simp_all add: H)
qed


text \<open>
  A failed start is not undone.  Where one processor cannot be started, those that can be
  started are left running their guests, and as the hypervisor does not count as launched,
  \<open>HvmStop\<close> refuses to stop them.\<close>
theorem failed_start_not_undone:
  assumes "HvmStart e n Hvm Status Hvm1" "\<not> hm_Launched Hvm" "\<forall>t<n. vmx_laws (e t) \<and> ready (hm_cpus Hvm t)"
    "\<exists>t<n. \<not> ve_load (e t) (vc_VmcsHpa (hv_vcpu (hm_cpus Hvm t)))" "HvmStop vmcall e w n Hvm1 Status2 Hvm2"
  shows "Status \<noteq> STATUS_SUCCESS \<and> Status2 = STATUS_UNSUCCESSFUL \<and>
    (\<forall>t<n. capable (e t) (hm_cpus Hvm t) \<longrightarrow> running (hm_cpus Hvm2 t))"
proof -
  note R = start_all [OF assms(1-3)]
  have f: "Status \<noteq> STATUS_SUCCESS" using R(3) assms(4) by (auto simp: started_def)
  then have "\<not> hm_Launched Hvm1" using R(1,4) by (auto simp: started_def)
  then have "Status2 = STATUS_UNSUCCESSFUL" "Hvm2 = Hvm1" using assms(5) by (simp_all add: HvmStop_def)
  then show ?thesis using f R(2) by (auto simp: started_def)
qed

section \<open>Stopping\<close>

text \<open>What \<open>VMCALL\<close> does to a running guest: the registers stay and the exit says why it happened.\<close>

definition vmcall_laws :: "(hv_state \<Rightarrow> hv_state) \<Rightarrow> bool" where
  "vmcall_laws vmcall \<longleftrightarrow> (\<forall>s. VmRead32 (vmcall s) EXIT_REASON AND 0xFFFF = EXIT_REASON_VMCALL \<and> reg (vmcall s) = reg s)"

lemma stop_vcpu:
  assumes "vmcall_laws vmcall"
  shows "\<exists>t. HvmpStopVcpu vmcall e w s = Some (STATUS_SUCCESS, t) \<and> vmx_mode t = VmxOff"
proof -
  let ?s = "vmcall (set_reg RAX HVM_CALL_MAGIC (set_reg RCX HVM_INTERNAL_SERVICE_STOP (set_reg RDX 0 s)))"
  have "stop_call ?s" using assms by (simp add: stop_call_def vmcall_laws_def)
  from stop_result [OF this, of e w] obtain t where t: "HvmpExitHandler e w ?s = Some (Stopped t)"
    "\<forall>n. reg t n = (if n = RAX then 0 else if n = RSP then VmReadN ?s GUEST_RSP else reg ?s n)" "vmx_mode t = VmxOff"
    by blast
  then show ?thesis by (simp add: HvmpStopVcpu_def AsmHvmHyperCall_def)
qed

lemma run_in_order_total: "\<exists>log w'. run_in_order callback order w = (log, w') \<and> map fst log = order"
proof (induction order arbitrary: w)
  case (Cons t ts)
  then show ?case by (auto simp: split_def Let_def) (metis fst_conv snd_conv)
qed simp

lemma smp_returns_exists: "\<exists>Status w'. smp_returns callback n w Status w'"
proof -
  obtain log w' where "run_in_order callback [0..<n] w = (log, w')" using run_in_order_total [of callback "[0..<n]" w] by blast
  moreover have "\<exists>Status. if \<forall>st \<in> snd ` set log. st = STATUS_SUCCESS then Status = STATUS_SUCCESS
         else Status \<noteq> STATUS_SUCCESS \<and> Status \<in> snd ` set log" by auto
  ultimately show ?thesis unfolding smp_returns_def by (metis atLeast_upt distinct_upt)
qed

lemma stop_all:
  assumes "hm_Launched Hvm" "\<forall>t<n. vmcall_laws (vmcall t)"
  shows "HvmStop vmcall e w n Hvm Status Hvm' \<longleftrightarrow> Status = STATUS_SUCCESS \<and>
    Hvm' = Hvm\<lparr>hm_Launched := False,
      hm_cpus := (\<lambda>t. if t < n then snd (the (HvmpStopVcpu (vmcall t) (e t) (w t) (hm_cpus Hvm t))) else hm_cpus Hvm t)\<rparr>"
    (is "?l Status Hvm' \<longleftrightarrow> ?r Status Hvm'")
proof -
  define f where "f t c = the (HvmpStopVcpu (vmcall t) (e t) (w t) c)" for t c
  have f: "fst (f t c) = STATUS_SUCCESS" "HvmpStopVcpu (vmcall t) (e t) (w t) c \<noteq> None" if "t < n" for t c
  proof -
    have "vmcall_laws (vmcall t)" using assms(2) that by simp
    from stop_vcpu [OF this, of "e t" "w t" c] obtain u where
      "HvmpStopVcpu (vmcall t) (e t) (w t) c = Some (STATUS_SUCCESS, u)" by blast
    then show "fst (f t c) = STATUS_SUCCESS" "HvmpStopVcpu (vmcall t) (e t) (w t) c \<noteq> None" by (simp_all add: f_def)
  qed
  let ?c = "\<lambda>t cpus. let (st, c) = f t (cpus t) in (st, cpus(t := c))"
  have r: "?l St H \<longleftrightarrow> (\<exists>cpus. smp_returns ?c n (hm_cpus Hvm) St cpus \<and>
         H = Hvm\<lparr>hm_Launched := \<not> NT_SUCCESS St, hm_cpus := cpus\<rparr>)" for St H
    using f(2) assms(1) unfolding HvmStop_def f_def by simp
  have one: "?l St H \<Longrightarrow> ?r St H" for St H
  proof -
    assume "?l St H"
    from this [unfolded r] obtain cpus where c: "smp_returns ?c n (hm_cpus Hvm) St cpus"
      "H = Hvm\<lparr>hm_Launched := \<not> NT_SUCCESS St, hm_cpus := cpus\<rparr>" by blast
    show "?r St H" unfolding f_def [symmetric] using smp_returns_local(1,2) [OF c(1)] f(1) c(2) by simp
  qed
  have "\<exists>St H. ?l St H" using smp_returns_exists [of ?c n "hm_cpus Hvm"] unfolding r by blast
  then obtain St H where x: "?l St H" by blast
  show ?thesis
  proof
    assume "?r Status Hvm'"
    then have "Status = St" "Hvm' = H" using one [OF x] by simp_all
    then show "?l Status Hvm'" using x by simp
  qed (rule one)
qed


section \<open>The services of a guest\<close>

lemma reg_set_flags [simp]: "reg (set_flags f s) n = reg s n" "gr_Rflags (hv_regs (set_flags f s)) = f"
  "gr_Rip (hv_regs (set_flags f s)) = gr_Rip (hv_regs s)" "supported (set_flags f s) g = supported s g"
  "VmReadN (set_flags f s) g = VmReadN s g"
  by (simp_all add: set_flags_def reg_def)


lemma vmcall_dispatch: "DsHvmExitHandler w EXIT_REASON_VMCALL s = Some (do_op (OpBugCheck EXIT_REASON_VMCALL) s)"
  by (simp add: DsHvmExitHandler_def common_exits_def vmx_instruction_exits_def exit_reasons)

text \<open>
  What a guest's \<open>VMCALL\<close> does, whatever its privilege and its state: with the magic
  number and the service 0 it switches the hypervisor off on its processor, with the magic
  number and another service it gets an error and goes on behind the instruction, and
  without the magic number it stops the whole system.\<close>
theorem vmcall_service:
  assumes "VmRead32 s EXIT_REASON AND 0xFFFF = EXIT_REASON_VMCALL" "\<forall>f. supported s f"
  shows "if reg s RAX \<noteq> HVM_CALL_MAGIC
    then \<exists>t. HvmpExitHandler e w s = Some (BugChecked t) \<and> last (hv_ops t) = OpBugCheck EXIT_REASON_VMCALL
    else if reg s RCX = HVM_INTERNAL_SERVICE_STOP
    then \<exists>t. HvmpExitHandler e w s = Some (Stopped t) \<and> vmx_mode t = VmxOff
    else \<exists>t. HvmpExitHandler e w s = Some (Resumed t) \<and> ucast (reg t RAX) = STATUS_UNSUCCESSFUL \<and>
      VmReadN t GUEST_RIP = VmReadN s GUEST_RIP + ucast (VmRead32 s EXIT_INSTRUCTION_LENGTH) \<and>
      bit (VmReadN t GUEST_RFLAGS) 0"
proof (cases "reg s RAX = HVM_CALL_MAGIC")
  case False
  let ?u = "do_op (OpBugCheck EXIT_REASON_VMCALL) (HvmpExitEventLog (read_guest_registers s))"
  have "HvmpExitHandler e w s = Some (BugChecked ?u)"
    using assms False by (simp add: HvmpExitHandler_def Let_def vmcall_dispatch bug_checked_def)
  then show ?thesis using False by auto
next
  case magic: True
  show ?thesis
  proof (cases "reg s RCX = HVM_INTERNAL_SERVICE_STOP")
    case True
    then have "stop_call s" using magic assms by (simp add: stop_call_def)
    from stop_result [OF this, of e w] show ?thesis using magic True by auto
  next
    case False
    have d: "GUEST_RFLAGS \<noteq> GUEST_RIP" "GUEST_RIP \<noteq> GUEST_RFLAGS" "GUEST_RIP \<noteq> GUEST_RSP" "GUEST_RFLAGS \<noteq> GUEST_RSP"
      by (simp_all add: vmx_values)
    show ?thesis using assms magic False d
      by (simp add: HvmpExitHandler_def HvmHandleService_def Let_def write_guest_registers_def bit_simps
          HVM_CALL_MAGIC_def)
  qed
qed

section \<open>The log of exits\<close>

lemma log_event_sel:
  assumes "List.length (le_Queue L) = 16"
  shows "List.length (le_Queue (log_event E L)) = 16" "le_Count (log_event E L) = le_Count L + 1"
    "le_Queue (log_event E L) = (le_Queue L)[unat (le_Count L) mod 16 := E]"
  using assms by (simp_all add: log_event_def MAX_NUMBER_OF_LOGGED_EXIT_EVENTS_def unat_mod)

lemma log_events:
  assumes "List.length (le_Queue L) = 16"
  shows "List.length (le_Queue (fold log_event Es L)) = 16 \<and>
    le_Count (fold log_event Es L) = le_Count L + of_nat (List.length Es) \<and>
    (\<forall>k < List.length Es. List.length Es \<le> k + 16 \<longrightarrow>
       le_Queue (fold log_event Es L) ! ((unat (le_Count L) + k) mod 16) = Es ! k)"
proof (induction Es rule: rev_induct)
  case (snoc E Es)
  let ?L = "fold log_event Es L" and ?n = "List.length Es"
  have c: "unat (le_Count ?L) mod 16 = (unat (le_Count L) + ?n) mod 16"
  proof -
    have "unat (le_Count ?L) = (unat (le_Count L) + ?n) mod 2 ^ 64"
      using snoc by (simp add: unat_word_ariths unat_of_nat mod_simps)
    then show ?thesis by (simp add: mod_mod_cancel)
  qed
  have l: "List.length (le_Queue ?L) = 16" using snoc by simp
  have "le_Queue (log_event E ?L) ! ((unat (le_Count L) + k) mod 16) = (Es @ [E]) ! k"
    if k: "k < ?n + 1" "?n + 1 \<le> k + 16" for k
  proof (cases "k = ?n")
    case True
    then show ?thesis using l c by (simp add: log_event_sel)
  next
    case False
    then have k': "k < ?n" "?n \<le> k + 16" using k by simp_all
    have m: "(a + k) mod 16 \<noteq> (a + ?n) mod 16" for a :: nat
    proof
      assume "(a + k) mod 16 = (a + ?n) mod 16"
      then have "16 dvd (a + ?n) - (a + k)" using k' by (simp only: mod_eq_dvd_iff_nat [symmetric] add_le_cancel_left less_imp_le)
      then have "16 dvd ?n - k" by simp
      then show False using k' k(2) by (auto dest: dvd_imp_le)
    qed
    have "le_Queue ?L ! ((unat (le_Count L) + k) mod 16) = Es ! k" using snoc k' by blast
    then show ?thesis using k'(1) by (simp add: log_event_sel(3) [OF l] c nth_append nth_list_update_neq [OF m [THEN not_sym]])
  qed
  then show ?case using snoc log_event_sel [OF l, of E] by simp
qed (use assms in simp)

text \<open>
  The log always holds the last sixteen exits, each in the slot of its number, however
  many there have been, also when the counter wraps around.\<close>
theorem exit_log_keeps_last:
  assumes "List.length (le_Queue L) = 16" "k < List.length Es" "List.length Es \<le> k + 16"
  shows "le_Queue (fold log_event Es L) ! ((unat (le_Count L) + k) mod 16) = Es ! k"
  using log_events [OF assms(1), of Es] assms(2,3) by blast

section \<open>Examples\<close>

text \<open>Two processors; the second loads its structure only if \<open>ok\<close>.\<close>

definition example_hvm :: hvm where
  "example_hvm = \<lparr>hm_Launched = False, hm_context = example_context, hm_cpus = (\<lambda>_. example_off)\<rparr>"

definition example_envs :: "bool \<Rightarrow> nat \<Rightarrow> vmx_env" where
  "example_envs ok t = example_vmx_env (t = 0 \<or> ok)"

definition example_vmcall :: "hv_state \<Rightarrow> hv_state" where
  "example_vmcall s = s\<lparr>cpu_vmcs := (cpu_vmcs s)(EXIT_REASON \<mapsto> 18)\<rparr>"

lemma example_hvm_sel:
  "\<not> hm_Launched example_hvm" "\<forall>t<n. vmx_laws (example_envs ok t) \<and> ready (hm_cpus example_hvm t)"
  "hm_cpus example_hvm t = example_off"
  using example_off_laws example_vmx_laws by (simp_all add: example_hvm_def example_envs_def vmx_laws_def ready_def)

lemma example_capable: "capable (example_envs ok t) example_off \<longleftrightarrow> t = 0 \<or> ok"
  using example_vmx_laws(2,4,5,6) by (simp add: capable_def example_envs_def)

lemma example_vmcall_laws: "vmcall_laws example_vmcall"
  by (simp add: vmcall_laws_def example_vmcall_def vmx_read EXIT_REASON_VMCALL_def reg_def fun_eq_iff)

lemma example_start_exists: "\<exists>Status Hvm'. HvmStart e n example_hvm Status Hvm'"
  using smp_returns_exists [of "per_cpu (\<lambda>t. HvmpStartVcpu (e t))" n "(hm_context example_hvm, hm_cpus example_hvm)"]
    example_hvm_sel(1) by (simp add: HvmStart_def)


theorem failed_start_not_undone_witness:
  "\<exists>Status Hvm1 Hvm2. HvmStart (example_envs False) 2 example_hvm Status Hvm1 \<and> Status \<noteq> STATUS_SUCCESS \<and>
     HvmStop (\<lambda>_. example_vmcall) (example_envs False) (\<lambda>_. example_hv_env) 2 Hvm1 STATUS_UNSUCCESSFUL Hvm2 \<and>
     running (hm_cpus Hvm2 0)"
proof -
  obtain Status Hvm1 where r: "HvmStart (example_envs False) 2 example_hvm Status Hvm1" using example_start_exists by blast
  have f: "\<exists>t<2. \<not> ve_load (example_envs False t) (vc_VmcsHpa (hv_vcpu (hm_cpus example_hvm t)))"
    by (intro exI [of _ 1]) (simp add: example_envs_def example_vmx_laws(6))
  have "Status \<noteq> STATUS_SUCCESS"
    using start_all(3) [OF r example_hvm_sel(1,2)] f by (auto simp: started_def)
  then have "\<not> hm_Launched Hvm1" using start_all(1,4) [OF r example_hvm_sel(1,2)] by (auto simp: started_def)
  then have s: "HvmStop (\<lambda>_. example_vmcall) (example_envs False) (\<lambda>_. example_hv_env) 2 Hvm1 STATUS_UNSUCCESSFUL Hvm1"
    by (simp add: HvmStop_def)
  show ?thesis
    using failed_start_not_undone [OF r example_hvm_sel(1,2) f s] r s by (auto simp: example_hvm_sel(3) example_capable)
qed


theorem vmcall_service_witness:
  "\<exists>t. HvmpExitHandler (example_vmx_env True) example_hv_env (example_vmcall example_hv) = Some (BugChecked t)"
proof -
  have "VmRead32 (example_vmcall example_hv) EXIT_REASON AND 0xFFFF = EXIT_REASON_VMCALL"
    by (simp add: example_vmcall_def vmx_read EXIT_REASON_VMCALL_def)
  moreover have "\<forall>f. supported (example_vmcall example_hv) f"
    by (simp add: example_vmcall_def example_hv_def example_vmcs_def supported_def)
  moreover have "reg (example_vmcall example_hv) RAX \<noteq> HVM_CALL_MAGIC"
    by (simp add: example_vmcall_def example_hv_def reg_def HVM_CALL_MAGIC_def)
  ultimately show ?thesis
    using vmcall_service [of "example_vmcall example_hv" "example_vmx_env True" example_hv_env] by auto
qed

theorem exit_log_keeps_last_witness:
  "le_Queue (fold log_event (replicate 20 E) \<lparr>le_Count = 0xFFFFFFFFFFFFFFFF, le_Queue = replicate 16 E'\<rparr>) ! 3 = E"
  using exit_log_keeps_last [of "\<lparr>le_Count = 0xFFFFFFFFFFFFFFFF, le_Queue = replicate 16 E'\<rparr>" 4 "replicate 20 E"]
  by simp

end
