(* ===== verification/Heap_Room.thy ===== *)
theory Heap_Room
  imports Heap_Props
begin

text \<open>
  When a request to the heap of \<open>mem.c\<close> must succeed: as long as one free block is large enough,
  and by how much a request can shrink that block.
\<close>

definition room :: "heap \<Rightarrow> nat \<Rightarrow> bool" where
  "room h S \<longleftrightarrow> (\<exists>ps fl ul x. heap_lay h ps fl ul \<and> x \<in> set fl \<and> S \<le> hb_size (hp_block h x))"

lemma roomI: "heap_lay h ps fl ul \<Longrightarrow> x \<in> set ps \<Longrightarrow> is_free (hp_block h) x \<Longrightarrow> S \<le> hb_size (hp_block h x) \<Longrightarrow> room h S"
  using heap_layD(3) by (fastforce simp: room_def)

lemma room_less: "room h S \<Longrightarrow> S' \<le> S \<Longrightarrow> room h S'"
  unfolding room_def by (meson order_trans)

lemma room_lock [simp]: "room (h\<lparr>hp_lock := l\<rparr>) S = room h S"
  by (simp add: room_def heap_lay_def virt_def)

lemma room_data [simp]: "room (h\<lparr>hp_data := d\<rparr>) S = room h S"
  by (simp add: room_def heap_lay_def virt_def)

lemma vlist_unique: "vlist B p xs h0 \<Longrightarrow> vlist B p ys h0 \<Longrightarrow> xs = ys"
proof (induction xs arbitrary: p h0 ys)
  case Nil then show ?case by (cases ys) simp_all
next
  case (Cons x xs) then show ?case by (cases ys) auto
qed

lemma room_block:
  assumes "heap_rep h ps fl ul" "room h S"
  obtains b where "b \<in> set fl" "S \<le> hb_size (hp_block h b)"
proof -
  obtain ps' fl' ul' b where b: "heap_lay h ps' fl' ul'" "b \<in> set fl'" "S \<le> hb_size (hp_block h b)"
    using assms(2) by (auto simp: room_def)
  have "fl' = fl" using heap_layD(2) [OF b(1)] heap_repD(2) [OF assms(1)] vlist_unique [of "hp_block h" 0 fl' "hp_freeList h" fl]
    by (simp add: virt_def)
  then show thesis using b that by simp
qed

section \<open>What splitting and aligning leave\<close>

lemma split_room:
  assumes lay: "heap_lay h (as @ x # bs) fl ul" and x: "is_free (hp_block h) x" and n: "0 < n" "n \<le> hb_size (hp_block h x)"
  shows "z \<in> set (as @ bs) \<Longrightarrow> is_free (hp_block h) z \<Longrightarrow> S \<le> hb_size (hp_block h z) \<Longrightarrow> room (HeappSplit h x n) S"
    "n + 40 \<le> hb_size (hp_block h x) \<Longrightarrow> room (HeappSplit h x n) (hb_size (hp_block h x) - n - 24)"
proof -
  note L = HeappSplit_lay [OF lay x n]
  show "room (HeappSplit h x n) S" if z: "z \<in> set (as @ bs)" "is_free (hp_block h) z" "S \<le> hb_size (hp_block h z)"
  proof (rule roomI [OF L, of z])
    have zx: "z \<in> set (as @ x # bs)" "z \<noteq> x" using z(1) heap_layD(6) [OF lay] by auto
    note O = HeappSplit_other [OF lay zx, of n]
    show "z \<in> set (as @ x # (if splits h x n then (x + n + 24) # bs else bs))" using z(1) by auto
    show "is_free (hp_block (HeappSplit h x n)) z" "S \<le> hb_size (hp_block (HeappSplit h x n) z)" using O z(2,3) by simp_all
  qed
  show "room (HeappSplit h x n) (hb_size (hp_block h x) - n - 24)" if "n + 40 \<le> hb_size (hp_block h x)"
  proof (rule roomI [OF L, of "x + n + 24"])
    have s: "splits h x n" using that by (simp add: splits_def MINIMAL_FREE_BLOCK_SIZE_def)
    show "x + n + 24 \<in> set (as @ x # (if splits h x n then (x + n + 24) # bs else bs))" using s by simp
    show "is_free (hp_block (HeappSplit h x n)) (x + n + 24)" "hb_size (hp_block h x) - n - 24 \<le> hb_size (hp_block (HeappSplit h x n) (x + n + 24))"
      by (simp_all add: HeappSplit_fields [OF s])
  qed
qed

lemma align_split_room:
  assumes rep: "heap_rep h ps fl ul" and x: "x \<in> set fl"
    and a: "x < a" "a - x + n \<le> hb_size (hp_block h x)" "hb_pprev (hp_block h x) = 0 \<Longrightarrow> 40 \<le> a - x" and n: "0 < n"
  shows "z \<in> set fl \<Longrightarrow> z \<noteq> x \<Longrightarrow> S \<le> hb_size (hp_block h z) \<Longrightarrow> room (HeappSplit (HeappAlign h x a) a n) S"
    "a - x + n + 40 \<le> hb_size (hp_block h x) \<Longrightarrow> room (HeappSplit (HeappAlign h x a) a n) (hb_size (hp_block h x) - (a - x) - n - 24)"
proof -
  let ?A = "HeappAlign h x a"
  let ?H = "HeappSplit ?A a n"
  note R = heap_repD [OF rep] and lay = heap_rep_lay [OF rep]
  have xp: "x \<in> set ps" "is_free (hp_block h) x" using R(3) x by auto
  then obtain as bs where ps: "ps = as @ x # bs" by (meson split_list)
  have sz: "a - x < hb_size (hp_block h x)" using a(2) n by simp
  have "\<exists>as'. set as \<subseteq> set as' \<and> (\<exists>fl'. heap_lay ?A (as' @ a # bs) fl' ul) \<and>
      hb_size (hp_block ?A a) = hb_size (hp_block h x) - (a - x) \<and> is_free (hp_block ?A) a \<and>
      (\<forall>z \<in> set (as @ bs). hb_state (hp_block ?A z) = hb_state (hp_block h z) \<and> hb_size (hp_block h z) \<le> hb_size (hp_block ?A z))"
  proof (cases "x + 40 \<le> a")
    case True
    note B = HeappAlign_big [OF lay [unfolded ps] xp(2) True sz]
    have "heap_lay ?A ((as @ [x]) @ a # bs) (a # fl) ul" using B(1) by simp
    then show ?thesis using B(2-5) by (intro exI [of _ "as @ [x]"]) auto
  next
    case False
    have "hb_pprev (hp_block h x) \<noteq> 0" using a(3) False by force
    then have "as \<noteq> []" using neighbours(1) [OF rep [unfolded ps]] by auto
    then obtain as' w where as: "as = as' @ [w]" by (metis rev_exhaust)
    have lay': "heap_lay h (as' @ w # x # bs) fl ul" using lay by (simp add: ps as)
    have "a < x + 40" using False by simp
    note B = HeappAlign_small [OF lay' xp(2) a(1) this sz]
    have "heap_lay ?A (as @ a # bs) (a # remove1 x fl) ul" using B(1) by (simp add: as)
    then show ?thesis using B(2-5) by (intro exI [of _ as]) (auto simp: as)
  qed
  then obtain as' fl' where A: "set as \<subseteq> set as'" "heap_lay ?A (as' @ a # bs) fl' ul"
    "hb_size (hp_block ?A a) = hb_size (hp_block h x) - (a - x)" "is_free (hp_block ?A) a"
    "\<forall>z \<in> set (as @ bs). hb_state (hp_block ?A z) = hb_state (hp_block h z) \<and> hb_size (hp_block h z) \<le> hb_size (hp_block ?A z)"
    by blast
  have na: "n \<le> hb_size (hp_block ?A a)" using a(2) A(3) by simp
  note S = split_room [OF A(2,4) n na]
  show "room ?H S" if z: "z \<in> set fl" "z \<noteq> x" "S \<le> hb_size (hp_block h z)"
  proof (rule S(1) [of z])
    have zs: "z \<in> set (as @ bs)" "is_free (hp_block h) z" using R(3) [of z] z by (auto simp: ps)
    then show "z \<in> set (as' @ bs)" "is_free (hp_block ?A) z" "S \<le> hb_size (hp_block ?A z)"
      using A(1,5) z(3) by (auto intro: order_trans)
  qed
  show "room ?H (hb_size (hp_block h x) - (a - x) - n - 24)" if "a - x + n + 40 \<le> hb_size (hp_block h x)"
    using S(2) that A(3) by simp
qed

section \<open>Requests that succeed\<close>

lemma find_mem: "find P xs = Some x \<Longrightarrow> x \<in> set xs \<and> P x"
  by (auto simp: find_Some_iff)

lemma aligned_offset_exists:
  assumes "0 < al" "al \<le> 4096" "x + hb_size (B x) < 2 ^ 31" "n + al + 40 \<le> hb_size (B x)"
  shows "\<exists>a. aligned_offset B n al x = Some a \<and> a - x < al + 40"
proof -
  define c where "c = (x div al + 1) * al"
  have "x < c" using assms(1) by (metis c_def add.commute dividend_less_times_div mult.commute mult_Suc_right Suc_eq_plus1)
  moreover have "c \<le> x + al" using div_times_less_eq_dividend [of x al] by (simp add: c_def)
  ultimately have c: "x < c" "c \<le> x + al" by auto
  have m: "c mod 2 ^ 32 = c" "(c + 2 ^ 32 - x) mod 2 ^ 32 = c - x" using c assms(2,3) by (auto simp: mod_if)
  define g where "g = (if hb_pprev (B x) = 0 then align_gap al (c - x) c else (c - x, c))"
  have "\<exists>k. g = (c - x + k * al, c + k * al) \<and> c - x + k * al < 40 + al"
  proof (cases "hb_pprev (B x) = 0")
    case True
    have "c - x < 40 + al" "c - (c - x) + 40 + al < 2 ^ 32" using c assms(2,3) by auto
    from align_gap_spec [OF _ this(1) _ this(2)] True assms(1) show ?thesis by (auto simp: g_def)
  next
    case False
    then show ?thesis using c by (intro exI [of _ 0]) (simp add: g_def)
  qed
  then obtain k where k: "g = (c - x + k * al, c + k * al)" "c - x + k * al < 40 + al" by blast
  have "(c - x + k * al + n) mod 2 ^ 32 \<le> hb_size (B x)" using k(2) assms(3,4) by simp
  then have "aligned_offset B n al x = Some (c + k * al)"
    unfolding aligned_offset_def c_def [symmetric] Let_def m g_def [symmetric] using k(1) assms(4) c(1) by simp
  then show ?thesis using k(2) c(1) by auto
qed

lemma alloc_room:
  assumes "heap_inv h U" "room h S" "0 < n" "n + 40 \<le> S" "HeapAlloc h n = Some (r, h')"
  shows "r \<noteq> None \<and> room h' (S - (n + 24))"
proof -
  from assms(1) obtain ps fl ul where rep: "heap_rep h ps fl ul" by (rule heap_invE)
  obtain b where b: "b \<in> set fl" "S \<le> hb_size (hp_block h b)" by (rule room_block [OF rep assms(2)])
  have v: "vlist (hp_block h) 0 fl (hp_freeList h)" using heap_repD(2) [OF rep] by (simp add: virt_def)
  note F = alloc_search_find [OF v, of n]
  obtain x where f: "find (\<lambda>x. n \<le> hb_size (hp_block h x)) fl = Some x" "x \<in> set fl" "n \<le> hb_size (hp_block h x)"
  proof (cases "find (\<lambda>x. n \<le> hb_size (hp_block h x)) fl")
    case None
    then show ?thesis using b assms(4) by (auto simp: find_None_iff)
  next
    case (Some x)
    show ?thesis by (rule that [OF Some]) (use find_mem [OF Some] in simp_all)
  qed
  then have xp: "x \<in> set ps" "is_free (hp_block h) x" "x \<noteq> 0" using heap_repD(3) [OF rep] block_bounds(1) [OF rep, of x] by auto
  then obtain as bs where ps: "ps = as @ x # bs" by (meson split_list)
  have h': "r = Some (hp_memory h + x)" "h' = (HeappSplit h x n)\<lparr>hp_lock := False\<rparr>"
    using F f(1) assms(3,5) xp(3) by (simp_all add: HeapAlloc_def)
  note R = split_room [OF heap_rep_lay [OF rep, unfolded ps] xp(2) assms(3) f(3)]
  have "room (HeappSplit h x n) (S - (n + 24))"
  proof (cases "b = x")
    case True
    then show ?thesis using R(2) b(2) assms(4) by (auto intro: room_less)
  next
    case False
    then have "b \<in> set (as @ bs)" "is_free (hp_block h) b" using heap_repD(3) [OF rep, of b] b(1) by (auto simp: ps)
    then show ?thesis using R(1) [of b] b(2) by simp
  qed
  then show ?thesis by (simp add: h')
qed

lemma aligned_room:
  assumes "heap_inv h U" "room h S" "0 < n" "al \<noteq> 0" "al AND (al - 1) = 0" "unat al \<le> 4096" "n + unat al + 80 \<le> S"
    "HeapAllocAligned h n al = Some (r, h')"
  shows "r \<noteq> None \<and> room h' (S - (n + unat al + 64))"
proof -
  from assms(1) obtain ps fl ul where rep: "heap_rep h ps fl ul" and sz: "hp_size h < 2 ^ 31" by (rule heap_invE)
  obtain b where b: "b \<in> set fl" "S \<le> hb_size (hp_block h b)" by (rule room_block [OF rep assms(2)])
  have al: "0 < unat al" using assms(4) by (simp add: unat_gt_0)
  have fits: "x + hb_size (hp_block h x) < 2 ^ 31" "x \<noteq> 0" if "x \<in> set fl" for x
    using block_bounds(1,3) [OF rep, of x] heap_repD(3) [OF rep, of x] that sz by auto
  have ob: "\<exists>a. aligned_offset (hp_block h) n (unat al) b = Some a \<and> a - b < unat al + 40"
    by (rule aligned_offset_exists [where B = "hp_block h" and x = b, OF al assms(6) fits(1) [OF b(1)]]) (use b(2) assms(7) in simp)
  have v: "vlist (hp_block h) 0 fl (hp_freeList h)" using heap_repD(2) [OF rep] by (simp add: virt_def)
  note F = aligned_search_find [OF v, of n "unat al"]
  obtain x a where f: "find (\<lambda>x. aligned_offset (hp_block h) n (unat al) x \<noteq> None) fl = Some x" "x \<in> set fl"
    "aligned_offset (hp_block h) n (unat al) x = Some a"
  proof (cases "find (\<lambda>x. aligned_offset (hp_block h) n (unat al) x \<noteq> None) fl")
    case None
    then show ?thesis using b(1) ob by (auto simp: find_None_iff)
  next
    case (Some x)
    then obtain a where "aligned_offset (hp_block h) n (unat al) x = Some a" using find_mem [OF Some] by auto
    then show ?thesis using that [OF Some] find_mem [OF Some] by blast
  qed
  note A = aligned_offset_spec [OF f(3) al assms(6) fits(1) [OF f(2)]]
  have h': "r = Some (hp_memory h + a)" "h' = (HeappSplit (HeappAlign h x a) a n)\<lparr>hp_lock := False\<rparr>"
    using F f(1,3) assms(3-5,8) fits(2) [OF f(2)] A(1) by (simp_all add: HeapAllocAligned_def)
  note R = align_split_room [OF rep f(2) A(1,3) _ assms(3)]
  have "room (HeappSplit (HeappAlign h x a) a n) (S - (n + unat al + 64))"
  proof (cases "b = x")
    case True
    then have "a - x < unat al + 40" using ob f(3) by auto
    then have q: "a - x + n + 40 \<le> hb_size (hp_block h x)" "S - (n + unat al + 64) \<le> hb_size (hp_block h x) - (a - x) - n - 24"
      using b(2) [unfolded True] assms(7) by linarith+
    show ?thesis by (rule room_less [OF R(2) [OF A(4) q(1)] q(2)])
  next
    case False
    show ?thesis by (rule room_less [OF R(1) [OF A(4) b(1) False b(2)] diff_le_self])
  qed
  then show ?thesis by (simp add: h')
qed

text \<open>What a request takes from the largest block at most.\<close>

fun req_cost :: "heap_req \<Rightarrow> nat" where
  "req_cost (Plain n) = n + 40"
| "req_cost (Aligned n al) = n + unat al + 80"

fun req_proper :: "heap_req \<Rightarrow> bool" where
  "req_proper (Plain n) = (0 < n)"
| "req_proper (Aligned n al) = (0 < n \<and> al \<noteq> 0 \<and> al AND (al - 1) = 0 \<and> unat al \<le> 4096)"

lemma request_room:
  assumes "heap_inv h U" "room h S" "req_proper q" "req_cost q \<le> S" "heap_request h q = Some (r, h')"
  shows "r \<noteq> None" "room h' (S - req_cost q)"
proof -
  have "r \<noteq> None \<and> room h' (S - req_cost q)"
  proof (cases q)
    case (Plain n)
    then show ?thesis using alloc_room [OF assms(1,2), of n r h'] assms(3-5) by (auto intro: room_less)
  next
    case (Aligned n al)
    then show ?thesis using aligned_room [OF assms(1,2), of n al r h'] assms(3-5) by (auto intro: room_less)
  qed
  then show "r \<noteq> None" "room h' (S - req_cost q)" by simp_all
qed

lemma create_room:
  assumes "HeapCreate B data arena n = Some h"
  shows "room h (n - 4096 - 24)"
proof -
  note C = HeapCreate_rep [OF assms]
  have "is_free (hp_block h) 24" using heap_repD(3) [OF C(1), of 24] by simp
  then show ?thesis using roomI [OF heap_rep_lay [OF C(1)], of 24] C(2,3) by simp
qed

section \<open>Runs of requests\<close>

text \<open>
  An allocator that knows how large its largest block still is: \<open>spare h S\<close> promises \<open>S\<close> bytes of
  it, and a request takes at most its cost.  A client whose requests cost no more together than is
  spare gets them all.
\<close>

locale roomy_allocator = allocator +
  fixes spare :: "'h \<Rightarrow> nat \<Rightarrow> bool" and cost :: "'q \<Rightarrow> nat" and proper :: "'q \<Rightarrow> bool"
  assumes proper_legal: "proper q \<Longrightarrow> legal q"
    and request_spare: "inv h U \<Longrightarrow> spare h S \<Longrightarrow> proper q \<Longrightarrow> cost q \<le> S \<Longrightarrow> request h q = Some (r, h') \<Longrightarrow>
      r \<noteq> None \<and> spare h' (S - cost q)"
begin

lemma request_gets:
  assumes "inv h U" "spare h S" "proper q" "cost q \<le> S"
  obtains p h' where "request h q = Some (Some p, h')" "p \<notin> U" "inv h' (insert p U)" "wants q \<le> extent h' p" "spare h' (S - cost q)"
proof -
  obtain r h' where r: "request h q = Some (r, h')" "case r of None \<Rightarrow> inv h' U
      | Some p \<Rightarrow> p \<notin> U \<and> inv h' (insert p U) \<and> wants q \<le> extent h' p"
    using request_ok [OF assms(1) proper_legal [OF assms(3)]] by blast
  note S = request_spare [OF assms r(1)]
  then obtain p where "r = Some p" by blast
  then show thesis using that r S by simp
qed

lemma requests_succeed:
  "inv h U \<Longrightarrow> spare h S \<Longrightarrow> \<forall>q \<in> set qs. proper q \<Longrightarrow> sum_list (map cost qs) \<le> S \<Longrightarrow>
     \<exists>h' ps. alloc_run request release (map Request qs) h U = Some (h', U \<union> set ps) \<and> List.length ps = List.length qs \<and>
       distinct ps \<and> set ps \<inter> U = {} \<and> inv h' (U \<union> set ps) \<and> spare h' (S - sum_list (map cost qs))"
proof (induction qs arbitrary: h U S)
  case Nil
  then show ?case by (intro exI [of _ h] exI [of _ "[]"]) simp
next
  case (Cons q qs)
  have q: "proper q" "cost q \<le> S" using Cons.prems(3,4) by simp_all
  obtain p h1 where p: "request h q = Some (Some p, h1)" "p \<notin> U" "inv h1 (insert p U)" "spare h1 (S - cost q)"
    by (rule request_gets [OF Cons.prems(1,2) q])
  have "sum_list (map cost qs) \<le> S - cost q" using Cons.prems(4) by simp
  from Cons.IH [OF p(3,4) _ this] Cons.prems(3) obtain h' ps where
    I: "alloc_run request release (map Request qs) h1 (insert p U) = Some (h', insert p U \<union> set ps)" "List.length ps = List.length qs"
      "distinct ps" "set ps \<inter> insert p U = {}" "inv h' (insert p U \<union> set ps)" "spare h' (S - cost q - sum_list (map cost qs))" by auto
  then show ?case using p(1,2) by (intro exI [of _ h'] exI [of _ "p # ps"]) (auto simp: diff_diff_eq)
qed

end

interpretation hpr: roomy_allocator heap_inv extent heap_legal heap_wants heap_request HeapFree room req_cost req_proper
proof (unfold_locales, goal_cases)
  case (1 q) then show ?case by (cases q) simp_all
next
  case (2 h U S q r h') then show ?case using request_room by blast
qed

text \<open>
  C32: Requests succeed: from a heap with a free block of \<open>S\<close> bytes, every request of a sequence is
  answered with a block of its own, as long as the sizes, with what headers and alignments can
  cost, add up to at most \<open>S\<close>.
\<close>

theorem heap_requests_succeed:
  assumes "heap_inv h U" "room h S" "\<forall>q \<in> set qs. req_proper q" "sum_list (map req_cost qs) \<le> S"
  shows "\<exists>h' ps. alloc_run heap_request HeapFree (map Request qs) h U = Some (h', U \<union> set ps) \<and> List.length ps = List.length qs \<and>
    distinct ps \<and> set ps \<inter> U = {} \<and> heap_inv h' (U \<union> set ps) \<and> room h' (S - sum_list (map req_cost qs))"
  by (rule hpr.requests_succeed [OF assms])

theorem heap_requests_succeed_witness:
  "\<exists>h' p q. alloc_run heap_request HeapFree [Request (Plain 4000), Request (Aligned 4096 4096)] example_heap {} = Some (h', {p, q}) \<and>
     p \<noteq> q \<and> room h' 40000"
proof -
  have r: "room example_heap 61416" using create_room [OF example_heap_create] by simp
  let ?qs = "[Plain 4000, Aligned 4096 4096]"
  have q: "\<forall>q \<in> set ?qs. req_proper q" "sum_list (map req_cost ?qs) \<le> 61416" by simp_all
  obtain h' ps where R: "alloc_run heap_request HeapFree (map Request ?qs) example_heap {} = Some (h', {} \<union> set ps)" "List.length ps = 2" "distinct ps"
    "room h' (61416 - sum_list (map req_cost ?qs))"
    using heap_requests_succeed [OF example_heap_inv r q] by auto
  then obtain p p' where "ps = [p, p']" by (cases ps; cases "tl ps") auto
  then show ?thesis using R room_less [OF R(4), of 40000] by (intro exI [of _ h'] exI [of _ p] exI [of _ p']) auto
qed

end
