(* ===== verification/Hvm_Create.thy ===== *)
theory Hvm_Create
  imports Hvm_Run "HOL-Library.Monad_Syntax"
begin

text \<open>
  The structures of the hypervisor: \<open>hvm_create.c\<close>, \<open>hvm_config.c\<close>, \<open>context.c\<close> and the life
  cycle in \<open>dshvm.c\<close>, over the driver's allocator.  Blocks the processor reads (the VMXON and
  control structure regions, the stacks, the bitmap) are bytes of the heap; structures only the
  driver reads are records kept beside it.
\<close>

section \<open>Bytes of the heap\<close>

definition mem_write :: "nat \<Rightarrow> u8 list \<Rightarrow> mem_state \<Rightarrow> mem_state" where
  "mem_write p bs m = m\<lparr>gHeap := map_option (\<lambda>h. h\<lparr>hp_data :=
     (\<lambda>i. if p \<le> hp_memory h + i \<and> hp_memory h + i < p + List.length bs then bs ! (hp_memory h + i - p) else hp_data h i)\<rparr>) (gHeap m)\<rparr>"

definition mem_byte :: "mem_state \<Rightarrow> nat \<Rightarrow> u8" where
  "mem_byte m a = (case gHeap m of None \<Rightarrow> 0 | Some h \<Rightarrow> hp_data h (a - hp_memory h))"

definition mem_bytes :: "mem_state \<Rightarrow> nat \<Rightarrow> nat \<Rightarrow> u8 list" where
  "mem_bytes m p n = map (\<lambda>i. mem_byte m (p + i)) [0..<n]"

section \<open>Parameters\<close>

text \<open>
  The sizes of the structures are the compiler's, the physical addresses the kernel's;
  \<open>ce_count\<close> is \<open>SmpActiveProcessorCount\<close>, and \<open>ce_vm\<close> the global \<open>gVmState\<close>.
\<close>

record create_env =
  ce_pa :: "nat \<Rightarrow> u64"
  ce_count :: nat
  ce_vm :: vmx_state
  ce_system_cr3 :: u64
  ce_sizeof_vcpu :: nat
  ce_sizeof_hvm :: nat
  ce_sizeof_hvm_context :: nat
  ce_sizeof_vcpu_context :: nat
  ce_sizeof_tsc_entry :: nat

section \<open>The parts of a virtual processor\<close>

text \<open>\<open>None\<close> is an allocator that does not return.\<close>

definition HvmInitializeVmxOn :: "create_env \<Rightarrow> hvm_vcpu \<Rightarrow> mem_state \<Rightarrow> (ntstatus \<times> hvm_vcpu \<times> mem_state) option" where
  "HvmInitializeVmxOn e Vcpu m = do {
     (r, m) \<leftarrow> MemAllocAligned m 4096 4096;
     let Vcpu = Vcpu\<lparr>vc_VmxOnHva := r\<rparr>;
     case r of
       None \<Rightarrow> Some (STATUS_NO_MEMORY, Vcpu, m)
     | Some p \<Rightarrow> Some (STATUS_SUCCESS, Vcpu\<lparr>vc_VmxOnHpa := ce_pa e p\<rparr>, mem_write p (le32 (VMCS_REVISION (ce_vm e))) m)}"

text \<open>The revision without its top bit, the shadow bit clear, and the abort indicator.\<close>

definition VmcsAllocateRegion :: "u32 \<Rightarrow> u32 \<Rightarrow> mem_state \<Rightarrow> (nat option \<times> mem_state) option" where
  "VmcsAllocateRegion Revision RegionSize m = do {
     (r, m) \<leftarrow> MemAllocAligned m (unat RegionSize) 4096;
     case r of
       None \<Rightarrow> Some (None, m)
     | Some p \<Rightarrow> Some (Some p, mem_write (p + 4) (le32 0) (mem_write p (le32 (Revision AND 0x7FFFFFFF)) m))}"

definition HvmInitializeVmcs :: "create_env \<Rightarrow> hvm_vcpu \<Rightarrow> mem_state \<Rightarrow> (ntstatus \<times> hvm_vcpu \<times> mem_state) option" where
  "HvmInitializeVmcs e Vcpu m = do {
     (r, m) \<leftarrow> VmcsAllocateRegion (VMCS_REVISION (ce_vm e)) (VMCS_REGION_SIZE (ce_vm e)) m;
     let Vcpu = Vcpu\<lparr>vc_VmcsHva := r\<rparr>;
     case r of
       None \<Rightarrow> Some (STATUS_NO_MEMORY, Vcpu, m)
     | Some p \<Rightarrow> Some (STATUS_SUCCESS, Vcpu\<lparr>vc_VmcsHpa := ce_pa e p\<rparr>, m)}"

text \<open>\<open>self\<close> is the address of the virtual processor; on failure \<open>Stack\<close> is not assigned.\<close>

definition HvmInitializeStack :: "nat \<Rightarrow> u32 \<Rightarrow> hvm_vcpu \<Rightarrow> mem_state \<Rightarrow> (ntstatus \<times> hvm_vcpu \<times> mem_state) option" where
  "HvmInitializeStack self StackSize Vcpu m = do {
     (r, m) \<leftarrow> MemAllocAligned m (unat StackSize) 4096;
     case r of
       None \<Rightarrow> Some (STATUS_NO_MEMORY, Vcpu, m)
     | Some p \<Rightarrow> Some (STATUS_SUCCESS, Vcpu\<lparr>vc_Stack := Some p\<rparr>,
         mem_write (p + unat (StackSize - 8)) (le64 (of_nat self)) m)}"

text \<open>One round of the loop in \<open>HvmInitializePerCpu\<close>.\<close>

definition init_vcpu :: "create_env \<Rightarrow> u32 \<Rightarrow> nat \<Rightarrow> nat \<Rightarrow> hvm_vcpu \<Rightarrow> mem_state \<Rightarrow> (ntstatus \<times> hvm_vcpu \<times> mem_state) option" where
  "init_vcpu e StackPages self CpuIdx Vcpu m = do {
     let Vcpu = Vcpu\<lparr>vc_Index := CpuIdx, vc_Launched := False\<rparr>;
     (Status, Vcpu, m) \<leftarrow> HvmInitializeVmxOn e Vcpu m;
     if \<not> NT_SUCCESS Status then Some (Status, Vcpu, m) else do {
     (Status, Vcpu, m) \<leftarrow> HvmInitializeVmcs e Vcpu m;
     if \<not> NT_SUCCESS Status then Some (Status, Vcpu, m) else do {
     let StackSize = StackPages * 4096;
     (Status, Vcpu, m) \<leftarrow> HvmInitializeStack self StackSize Vcpu m;
     if \<not> NT_SUCCESS Status then Some (Status, Vcpu, m)
     else Some (Status, Vcpu\<lparr>vc_Rsp := of_nat (the (vc_Stack Vcpu)) + ucast StackSize - 0x40\<rparr>, m)}}}"

section \<open>All virtual processors\<close>

text \<open>\<open>HVM\<close> with its address, and with the contents of the array it points to.\<close>

record hvm_struct =
  hs_self :: nat
  hs_VcpuArray :: "nat option"
  hs_Vcpus :: "hvm_vcpu list"
  hs_HvmContext :: "nat option"
  hs_VmState :: "vmx_state option"
  hs_Launched :: bool

definition vcpu_at :: "create_env \<Rightarrow> nat \<Rightarrow> nat \<Rightarrow> nat" where
  "vcpu_at e VcpuArray CpuIdx = VcpuArray + CpuIdx * ce_sizeof_vcpu e"

text \<open>The loop, from processor \<open>i\<close> on with \<open>k\<close> processors to go.\<close>

fun init_vcpus :: "create_env \<Rightarrow> u32 \<Rightarrow> nat \<Rightarrow> nat \<Rightarrow> nat \<Rightarrow> hvm_vcpu list \<Rightarrow> mem_state \<Rightarrow> (ntstatus \<times> hvm_vcpu list \<times> mem_state) option" where
  "init_vcpus e StackPages A i 0 Vcpus m = Some (STATUS_SUCCESS, Vcpus, m)"
| "init_vcpus e StackPages A i (Suc k) Vcpus m = do {
     (Status, Vcpu, m) \<leftarrow> init_vcpu e StackPages (vcpu_at e A i) i (Vcpus ! i) m;
     if \<not> NT_SUCCESS Status then Some (Status, Vcpus[i := Vcpu], m)
     else init_vcpus e StackPages A (i + 1) k (Vcpus[i := Vcpu]) m}"

definition free_if :: "nat option \<Rightarrow> mem_state \<Rightarrow> mem_state option" where
  "free_if p m = (case p of None \<Rightarrow> Some m | Some p \<Rightarrow> MemFree m p)"

fun delete_vcpus :: "hvm_vcpu list \<Rightarrow> mem_state \<Rightarrow> mem_state option" where
  "delete_vcpus [] m = Some m"
| "delete_vcpus (Vcpu # Vcpus) m = do {
     m \<leftarrow> free_if (vc_Stack Vcpu) m;
     m \<leftarrow> free_if (vc_VmcsHva Vcpu) m;
     m \<leftarrow> free_if (vc_VmxOnHva Vcpu) m;
     delete_vcpus Vcpus m}"

definition HvmDeletePerCpu :: "hvm_struct \<Rightarrow> mem_state \<Rightarrow> mem_state option" where
  "HvmDeletePerCpu Hvm m =
     (case hs_VcpuArray Hvm of
        None \<Rightarrow> Some m
      | Some A \<Rightarrow> do { m \<leftarrow> delete_vcpus (hs_Vcpus Hvm) m; MemFree m A })"

text \<open>The request is computed in 32 bits; the loop runs over all processors all the same.\<close>

definition HvmInitializePerCpu :: "create_env \<Rightarrow> u32 \<Rightarrow> hvm_struct \<Rightarrow> mem_state \<Rightarrow> (ntstatus \<times> hvm_struct \<times> mem_state) option" where
  "HvmInitializePerCpu e StackPages Hvm m = do {
     let RequestSize = (ce_count e * ce_sizeof_vcpu e) mod 2 ^ 32;
     (r, m) \<leftarrow> MemAllocAligned m RequestSize 16;
     let Hvm = Hvm\<lparr>hs_VcpuArray := r\<rparr>;
     case r of
       None \<Rightarrow> Some (STATUS_NO_MEMORY, Hvm, m)
     | Some A \<Rightarrow> do {
         (Status, Vcpus, m) \<leftarrow> init_vcpus e StackPages A 0 (ce_count e) (replicate (ce_count e) zero_vcpu) m;
         let Hvm = Hvm\<lparr>hs_Vcpus := Vcpus\<rparr>;
         if NT_SUCCESS Status then Some (Status, Hvm, m)
         else do { m \<leftarrow> HvmDeletePerCpu Hvm m; Some (Status, Hvm, m) }}}"

text \<open>\<open>Verify\<close> is what \<open>VmxVerifySupport\<close> returned.\<close>

definition HvmInitialize ::
  "create_env \<Rightarrow> ntstatus \<Rightarrow> u32 \<Rightarrow> mem_state \<Rightarrow> (ntstatus \<times> hvm_struct option \<times> mem_state) option" where
  "HvmInitialize e Verify StackPages m =
     (if \<not> NT_SUCCESS Verify then Some (STATUS_NOT_SUPPORTED, None, m)
      else do {
        (r, m) \<leftarrow> MemAlloc m (ce_sizeof_hvm e);
        case r of
          None \<Rightarrow> Some (STATUS_NO_MEMORY, None, m)
        | Some p \<Rightarrow> do {
            let Hvm = \<lparr>hs_self = p, hs_VcpuArray = None, hs_Vcpus = [], hs_HvmContext = None, hs_VmState = None, hs_Launched = False\<rparr>;
            (Status, Hvm, m) \<leftarrow> HvmInitializePerCpu e StackPages Hvm m;
            if NT_SUCCESS Status then Some (Status, Some (Hvm\<lparr>hs_VmState := Some (ce_vm e)\<rparr>), m)
            else do { m \<leftarrow> MemFree m p; Some (Status, None, m) }}})"

definition HvmFinalize :: "hvm_struct \<Rightarrow> mem_state \<Rightarrow> mem_state option" where
  "HvmFinalize Hvm m = do { m \<leftarrow> HvmDeletePerCpu Hvm m; MemFree m (hs_self Hvm) }"

definition HvmSetHvmContext :: "nat \<Rightarrow> hvm_struct \<Rightarrow> hvm_struct" where
  "HvmSetHvmContext Context Hvm = Hvm\<lparr>hs_HvmContext := Some Context\<rparr>"

definition HvmSetVcpuContext :: "nat \<Rightarrow> nat \<Rightarrow> hvm_struct \<Rightarrow> hvm_struct" where
  "HvmSetVcpuContext VcpuId Context Hvm =
     Hvm\<lparr>hs_Vcpus := (hs_Vcpus Hvm)[VcpuId := (hs_Vcpus Hvm ! VcpuId)\<lparr>vc_Context := Some Context\<rparr>]\<rparr>"

section \<open>The driver's contexts\<close>

text \<open>\<open>HVM_CONTEXT\<close> and \<open>VCPU_CONTEXT\<close>.\<close>

record hvm_context_struct =
  hcs_SystemCr3 :: u64
  hcs_MsrBitmap :: "nat option"

record vcpu_context =
  vx_TscHits :: "nat option"
  vx_TscOffset :: u64

definition zero_vcpu_context :: vcpu_context where "zero_vcpu_context = \<lparr>vx_TscHits = None, vx_TscOffset = 0\<rparr>"

definition InitializeHvmContext :: "create_env \<Rightarrow> mem_state \<Rightarrow> (bool \<times> hvm_context_struct \<times> mem_state) option" where
  "InitializeHvmContext e m = do {
     (r, m) \<leftarrow> MemAllocAligned m 4096 4096;
     let HvmContext = \<lparr>hcs_SystemCr3 = ce_system_cr3 e, hcs_MsrBitmap = r\<rparr>;
     case r of
       None \<Rightarrow> Some (False, HvmContext, m)
     | Some p \<Rightarrow> Some (True, HvmContext, mem_write p (replicate 4096 0) m)}"

definition ResetHvmContext :: "hvm_context_struct \<Rightarrow> mem_state \<Rightarrow> (hvm_context_struct \<times> mem_state) option" where
  "ResetHvmContext HvmContext m = do {
     m \<leftarrow> free_if (hcs_MsrBitmap HvmContext) m;
     Some (\<lparr>hcs_SystemCr3 = 0, hcs_MsrBitmap = None\<rparr>, m)}"

text \<open>The hits are zeroed as a block; the table they make up is \<open>hv_tsc\<close> of the processor.\<close>

definition InitializeVcpuContext :: "create_env \<Rightarrow> mem_state \<Rightarrow> (bool \<times> vcpu_context \<times> mem_state) option" where
  "InitializeVcpuContext e m = do {
     (r, m) \<leftarrow> MemAlloc m ((ce_sizeof_tsc_entry e * MAX_TSC_HITS) mod 2 ^ 32);
     let VcpuContext = \<lparr>vx_TscHits = r, vx_TscOffset = 0\<rparr>;
     case r of
       None \<Rightarrow> Some (False, VcpuContext, m)
     | Some p \<Rightarrow> Some (True, VcpuContext, mem_write p (replicate (ce_sizeof_tsc_entry e * MAX_TSC_HITS) 0) m)}"

definition ResetVcpuContext :: "vcpu_context \<Rightarrow> mem_state \<Rightarrow> (vcpu_context \<times> mem_state) option" where
  "ResetVcpuContext VcpuContext m = do {
     m \<leftarrow> free_if (vx_TscHits VcpuContext) m;
     Some (zero_vcpu_context, m)}"

section \<open>The driver's globals\<close>

record ds_globals =
  ds_mem :: "mem_state option"
  gHvm :: "hvm_struct option"
  gHvmContext :: "(nat \<times> hvm_context_struct) option"
  gVcpuContexts :: "(nat \<times> (nat \<Rightarrow> vcpu_context)) option"

text \<open>
  The callbacks that run on every processor; each uses its own context and the shared heap,
  whose lock makes every call of it one step.  \<open>None\<close> is a heap that does not return.
\<close>

definition InitVcpuContextPerCpu ::
  "create_env \<Rightarrow> nat \<Rightarrow> mem_state option \<Rightarrow> vcpu_context \<Rightarrow> ntstatus \<times> mem_state option \<times> vcpu_context" where
  "InitVcpuContextPerCpu e VcpuId m Context =
     (case Option.bind m (InitializeVcpuContext e) of
        None \<Rightarrow> (STATUS_UNSUCCESSFUL, None, Context)
      | Some (ok, Context, m) \<Rightarrow> (if ok then STATUS_SUCCESS else STATUS_UNSUCCESSFUL, Some m, Context))"

definition ResetVcpuContextPerCpu ::
  "nat \<Rightarrow> mem_state option \<Rightarrow> vcpu_context \<Rightarrow> ntstatus \<times> mem_state option \<times> vcpu_context" where
  "ResetVcpuContextPerCpu VcpuId m Context =
     (case Option.bind m (ResetVcpuContext Context) of
        None \<Rightarrow> (STATUS_UNSUCCESSFUL, None, Context)
      | Some (Context, m) \<Rightarrow> (STATUS_SUCCESS, Some m, Context))"

definition delete_hvm_context :: "ds_globals \<Rightarrow> ds_globals" where
  "delete_hvm_context g =
     (case gHvmContext g of
        None \<Rightarrow> g
      | Some (p, HvmContext) \<Rightarrow> g\<lparr>gHvmContext := None, ds_mem :=
          do { m \<leftarrow> ds_mem g; (HvmContext, m) \<leftarrow> ResetHvmContext HvmContext m; MemFree m p }\<rparr>)"

definition DsDeleteHvmContexts :: "create_env \<Rightarrow> ds_globals \<Rightarrow> ds_globals \<Rightarrow> bool" where
  "DsDeleteHvmContexts e g g' \<longleftrightarrow>
     (case gVcpuContexts g of
        None \<Rightarrow> g' = delete_hvm_context g
      | Some (p, Contexts) \<Rightarrow> \<exists>Status m Contexts'.
          smp_returns (per_cpu ResetVcpuContextPerCpu) (ce_count e) (ds_mem g, Contexts) Status (m, Contexts') \<and>
          g' = delete_hvm_context (g\<lparr>gVcpuContexts := None, ds_mem := Option.bind m (\<lambda>m. MemFree m p)\<rparr>))"

text \<open>
  The array of contexts is zeroed by \<open>MemAllocArray\<close>.  \<open>Hvm\<close> has its contexts set as far as
  the routine gets.
\<close>

fun set_vcpu_contexts :: "create_env \<Rightarrow> nat \<Rightarrow> nat \<Rightarrow> nat \<Rightarrow> hvm_struct \<Rightarrow> hvm_struct" where
  "set_vcpu_contexts e A i 0 Hvm = Hvm"
| "set_vcpu_contexts e A i (Suc k) Hvm =
     set_vcpu_contexts e A (i + 1) k (HvmSetVcpuContext i (A + i * ce_sizeof_vcpu_context e) Hvm)"

definition init_vcpu_contexts :: "create_env \<Rightarrow> hvm_struct \<Rightarrow> ds_globals \<Rightarrow> bool \<Rightarrow> hvm_struct \<Rightarrow> ds_globals \<Rightarrow> bool" where
  "init_vcpu_contexts e Hvm g ok Hvm' g' \<longleftrightarrow>
     (case Option.bind (ds_mem g) (\<lambda>m. MemAllocArray m (ce_count e) (ce_sizeof_vcpu_context e)) of
        None \<Rightarrow> \<not> ok \<and> Hvm' = Hvm \<and> g' = g\<lparr>ds_mem := None\<rparr>
      | Some (None, m) \<Rightarrow> \<not> ok \<and> Hvm' = Hvm \<and> g' = g\<lparr>ds_mem := Some m, gVcpuContexts := None\<rparr>
      | Some (Some p, m) \<Rightarrow> \<exists>Status m' Contexts.
          smp_returns (per_cpu (InitVcpuContextPerCpu e)) (ce_count e) (Some m, \<lambda>_. zero_vcpu_context) Status (m', Contexts) \<and>
          g' = g\<lparr>ds_mem := m', gVcpuContexts := Some (p, Contexts)\<rparr> \<and>
          ok = NT_SUCCESS Status \<and> Hvm' = (if ok then set_vcpu_contexts e p 0 (ce_count e) Hvm else Hvm))"

definition DsInitializeHvmContexts :: "create_env \<Rightarrow> hvm_struct \<Rightarrow> ds_globals \<Rightarrow> ntstatus \<Rightarrow> hvm_struct \<Rightarrow> ds_globals \<Rightarrow> bool" where
  "DsInitializeHvmContexts e Hvm g Status Hvm' g' \<longleftrightarrow>
     (case Option.bind (ds_mem g) (\<lambda>m. MemAlloc m (ce_sizeof_hvm_context e)) of
        None \<Rightarrow> Status = STATUS_UNSUCCESSFUL \<and> Hvm' = Hvm \<and> g' = g\<lparr>ds_mem := None\<rparr>
      | Some (None, m) \<Rightarrow> Status = STATUS_UNSUCCESSFUL \<and> Hvm' = Hvm \<and>
          DsDeleteHvmContexts e (g\<lparr>ds_mem := Some m, gHvmContext := None\<rparr>) g'
      | Some (Some p, m) \<Rightarrow>
          (case InitializeHvmContext e m of
             None \<Rightarrow> Status = STATUS_UNSUCCESSFUL \<and> Hvm' = Hvm \<and> g' = g\<lparr>ds_mem := None\<rparr>
           | Some (False, C, m) \<Rightarrow> Status = STATUS_UNSUCCESSFUL \<and> Hvm' = Hvm \<and>
               DsDeleteHvmContexts e (g\<lparr>ds_mem := Some m, gHvmContext := Some (p, C)\<rparr>) g'
           | Some (True, C, m) \<Rightarrow> \<exists>ok g1.
               init_vcpu_contexts e (HvmSetHvmContext p Hvm) (g\<lparr>ds_mem := Some m, gHvmContext := Some (p, C)\<rparr>) ok Hvm' g1 \<and>
               (if ok then Status = STATUS_SUCCESS \<and> g' = g1
                else Status = STATUS_UNSUCCESSFUL \<and> DsDeleteHvmContexts e g1 g')))"

section \<open>Loading and unloading\<close>

definition DsIsHvmInitialized :: "ds_globals \<Rightarrow> bool" where
  "DsIsHvmInitialized g \<longleftrightarrow> gHvm g \<noteq> None"

definition DsIsHvmLaunched :: "ds_globals \<Rightarrow> bool" where
  "DsIsHvmLaunched g \<longleftrightarrow> DsIsHvmInitialized g \<and> hs_Launched (the (gHvm g))"

text \<open>\<open>DS_HVM_STACK_PAGES\<close> is 3.\<close>

definition DS_HVM_STACK_PAGES :: u32 where "DS_HVM_STACK_PAGES = 3"

definition DsInitializeHvm :: "create_env \<Rightarrow> ntstatus \<Rightarrow> ds_globals \<Rightarrow> ntstatus \<Rightarrow> ds_globals \<Rightarrow> bool" where
  "DsInitializeHvm e Verify g Status g' \<longleftrightarrow>
     (case Option.bind (ds_mem g) (HvmInitialize e Verify DS_HVM_STACK_PAGES) of
        None \<Rightarrow> Status = STATUS_UNSUCCESSFUL \<and> g' = g\<lparr>ds_mem := None\<rparr>
      | Some (St, None, m) \<Rightarrow> Status = St \<and> g' = g\<lparr>ds_mem := Some m\<rparr>
      | Some (St, Some Hvm, m) \<Rightarrow> \<exists>Hvm' g1.
          DsInitializeHvmContexts e Hvm (g\<lparr>ds_mem := Some m\<rparr>) Status Hvm' g1 \<and>
          g' = (if NT_SUCCESS Status then g1\<lparr>gHvm := Some Hvm'\<rparr>
                else g1\<lparr>ds_mem := Option.bind (ds_mem g1) (HvmFinalize Hvm')\<rparr>))"

definition DsFinalizeHvm :: "create_env \<Rightarrow> ds_globals \<Rightarrow> ntstatus \<Rightarrow> ds_globals \<Rightarrow> bool" where
  "DsFinalizeHvm e g Status g' \<longleftrightarrow> Status = STATUS_SUCCESS \<and>
     DsDeleteHvmContexts e
       (case gHvm g of None \<Rightarrow> g | Some Hvm \<Rightarrow> g\<lparr>gHvm := None, ds_mem := Option.bind (ds_mem g) (HvmFinalize Hvm)\<rparr>) g'"

end
