(* ===== verification/Hvm_Memory.thy ===== *)
theory Hvm_Memory
  imports Hvm_Create
begin

text \<open>
  The allocator as the creation code uses it: what it takes is aligned, separate from what
  others hold and given back without a trace.
\<close>

section \<open>The driver's allocator\<close>

definition mem_inv :: "mem_state \<Rightarrow> nat set \<Rightarrow> bool" where
  "mem_inv m U \<longleftrightarrow> (\<exists>h. gHeap m = Some h \<and> heap_inv h U \<and> 4096 dvd hp_memory h \<and> hp_memory h + hp_size h < 2 ^ 64)"

definition mem_extent :: "mem_state \<Rightarrow> nat \<Rightarrow> nat" where
  "mem_extent m p = extent (the (gHeap m)) p"

fun mem_request :: "mem_state \<Rightarrow> heap_req \<Rightarrow> (nat option \<times> mem_state) option" where
  "mem_request m (Plain n) = MemAlloc m n"
| "mem_request m (Aligned n al) = MemAllocAligned m n al"

definition mem_release :: "mem_state \<Rightarrow> nat \<Rightarrow> mem_state" where
  "mem_release m p = the (MemFree m p)"

lemma mem_request_eq:
  "gHeap m = Some h \<Longrightarrow> mem_request m q = map_option (\<lambda>(r, g). (r, m\<lparr>gHeap := Some g\<rparr>)) (heap_request h q)"
  by (cases q) (simp_all add: MemAlloc_def MemAllocAligned_def)

definition req_aligned :: "heap_req \<Rightarrow> nat \<Rightarrow> bool" where
  "req_aligned q p \<longleftrightarrow> (case q of Plain n \<Rightarrow> True | Aligned n al \<Rightarrow> unat al dvd 4096 \<longrightarrow> unat al dvd p)"

lemma mem_request_result:
  assumes "mem_inv m U" "heap_legal q"
  shows "\<exists>r m'. mem_request m q = Some (r, m') \<and> (case r of None \<Rightarrow> mem_inv m' U
      | Some p \<Rightarrow> p \<notin> U \<and> mem_inv m' (insert p U) \<and> heap_wants q \<le> mem_extent m' p \<and> req_aligned q p) \<and>
    (\<forall>p \<in> U. mem_extent m p \<le> mem_extent m' p) \<and> (\<forall>a. mem_byte m' a = mem_byte m a)"
proof -
  obtain h where h: "gHeap m = Some h" "heap_inv h U" "4096 dvd hp_memory h" "hp_memory h + hp_size h < 2 ^ 64"
    using assms(1) by (auto simp: mem_inv_def)
  have "\<exists>r g. heap_request h q = Some (r, g) \<and> request_result h U (heap_wants q) (r, g) \<and>
      (case r of None \<Rightarrow> True | Some p \<Rightarrow> req_aligned q p)"
  proof (cases q)
    case (Plain n)
    then show ?thesis using heap_request_inv [OF h(2) assms(2)] by (auto simp: req_aligned_def split: option.splits)
  next
    case (Aligned n al)
    then have "unat al \<le> 4096" using assms(2) by simp
    from aligned_heap_inv [OF h(2) this, of n] obtain r g where
      a: "HeapAllocAligned h n al = Some (r, g)" "request_result h U n (r, g)"
        "case r of None \<Rightarrow> True | Some p \<Rightarrow> unat al dvd p - hp_memory h" by blast
    have "req_aligned q p" if "r = Some p" for p
    proof -
      have "hp_memory h \<le> p" using a(2) that by (auto simp: request_result_def)
      moreover have "unat al dvd p - hp_memory h" using a(3) that by simp
      moreover have "unat al dvd 4096 \<Longrightarrow> unat al dvd hp_memory h" using h(3) by (rule dvd_trans [rotated])
      ultimately have "unat al dvd 4096 \<Longrightarrow> unat al dvd p" using dvd_diffD by blast
      then show ?thesis using Aligned by (simp add: req_aligned_def)
    qed
    then show ?thesis using a Aligned by (auto split: option.splits)
  qed
  then obtain r g where r: "heap_request h q = Some (r, g)" "request_result h U (heap_wants q) (r, g)"
    "case r of None \<Rightarrow> True | Some p \<Rightarrow> req_aligned q p" by blast
  let ?m = "m\<lparr>gHeap := Some g\<rparr>"
  have g: "hp_memory g = hp_memory h" "hp_size g = hp_size h" "hp_data g = hp_data h" "\<forall>p \<in> U. extent h p \<le> extent g p"
    using r(2) by (simp_all add: request_result_def)
  have i: "mem_inv ?m V" if "heap_inv g V" for V using that h g by (simp add: mem_inv_def)
  show ?thesis
  proof (intro exI conjI)
    show "mem_request m q = Some (r, ?m)" by (simp add: mem_request_eq [OF h(1)] r(1))
    show "case r of None \<Rightarrow> mem_inv ?m U
      | Some p \<Rightarrow> p \<notin> U \<and> mem_inv ?m (insert p U) \<and> heap_wants q \<le> mem_extent ?m p \<and> req_aligned q p"
      using r(2,3) i by (auto simp: request_result_def mem_extent_def split: option.splits)
    show "\<forall>p \<in> U. mem_extent m p \<le> mem_extent ?m p" using g(4) h(1) by (simp add: mem_extent_def)
    show "\<forall>a. mem_byte ?m a = mem_byte m a" using g(1,3) h(1) by (simp add: mem_byte_def)
  qed
qed

lemma mem_release_result:
  assumes "mem_inv m U" "p \<in> U"
  shows "\<exists>m'. MemFree m p = Some m' \<and> mem_inv m' (U - {p}) \<and> (\<forall>q \<in> U - {p}. mem_extent m' q = mem_extent m q) \<and>
    (\<forall>a. mem_byte m' a = mem_byte m a)"
proof -
  obtain h where h: "gHeap m = Some h" "heap_inv h U" "4096 dvd hp_memory h" "hp_memory h + hp_size h < 2 ^ 64"
    using assms(1) by (auto simp: mem_inv_def)
  note F = heapp_free_inv [OF h(2) assms(2) HeapFree_live [OF h(2) assms(2)]]
  show ?thesis using F h by (intro exI [of _ "m\<lparr>gHeap := Some (HeapFree h p)\<rparr>"])
      (simp add: MemFree_def mem_inv_def mem_extent_def mem_byte_def)
qed

lemma mem_apart:
  assumes "mem_inv m U" "p \<in> U" "p' \<in> U" "p \<noteq> p'"
  shows "p + mem_extent m p \<le> p' \<or> p' + mem_extent m p' \<le> p"
proof -
  obtain h where h: "gHeap m = Some h" "heap_inv h U" using assms(1) by (auto simp: mem_inv_def)
  show ?thesis using heap_apart [OF h(2) assms(2-4)] by (simp add: mem_extent_def h(1))
qed

interpretation driver_mem: allocator mem_inv mem_extent heap_legal heap_wants mem_request mem_release
proof (unfold_locales, goal_cases)
  case (1 m U q)
  from mem_request_result [OF this] obtain r m' where
    "mem_request m q = Some (r, m')" "case r of None \<Rightarrow> mem_inv m' U
      | Some p \<Rightarrow> p \<notin> U \<and> mem_inv m' (insert p U) \<and> heap_wants q \<le> mem_extent m' p \<and> req_aligned q p"
    "\<forall>p \<in> U. mem_extent m p \<le> mem_extent m' p" by blast
  then show ?case by (intro exI [of _ r] exI [of _ m']) (auto split: option.splits)
next
  case (2 m U p)
  then show ?case using mem_release_result [OF 2] by (auto simp: mem_release_def)
next
  case (3 m U p p')
  then show ?case by (rule mem_apart)
qed

lemma mem_inside:
  assumes "mem_inv m U" "p \<in> U"
  shows "0 < p" "p + mem_extent m p < 2 ^ 64" "0 < mem_extent m p"
  using assms heap_inv_inside by (fastforce simp: mem_inv_def mem_extent_def)+

section \<open>What an operation takes\<close>

text \<open>
  \<open>takes m U O m'\<close>: from \<open>m\<close>, where others hold \<open>U\<close>, an operation has taken the blocks \<open>O\<close>, and
  has not touched a byte of \<open>U\<close>.
\<close>

definition takes :: "mem_state \<Rightarrow> nat set \<Rightarrow> nat list \<Rightarrow> mem_state \<Rightarrow> bool" where
  "takes m U ps m' \<longleftrightarrow> distinct ps \<and> set ps \<inter> U = {} \<and> mem_inv m' (U \<union> set ps) \<and>
     (\<forall>p \<in> U. mem_extent m p \<le> mem_extent m' p \<and> (\<forall>i < mem_extent m p. mem_byte m' (p + i) = mem_byte m (p + i)))"

lemma takes_refl: "mem_inv m U \<Longrightarrow> takes m U [] m"
  by (simp add: takes_def)

lemma takesD:
  assumes "takes m U ps m'"
  shows "mem_inv m' (U \<union> set ps)" "distinct ps" "set ps \<inter> U = {}" "\<forall>p \<in> U. mem_extent m p \<le> mem_extent m' p"
  using assms by (simp_all add: takes_def)

lemma takes_trans:
  assumes "takes m U ps m'" "takes m' (U \<union> set ps) qs m''"
  shows "takes m U (ps @ qs) m''"
  using assms unfolding takes_def by (auto simp: Un_assoc) (meson UnCI le_trans order_less_le_trans)+

lemma takes_permuted:
  assumes "takes m U ps m'" "distinct qs" "set qs = set ps"
  shows "takes m U qs m'"
  using assms by (simp add: takes_def)

lemma heap_inv_data: "heap_inv (h\<lparr>hp_data := d\<rparr>) U = heap_inv h U"
  by (simp add: heap_inv_def heap_rep_data)

lemma mem_write_sel:
  assumes "mem_inv m U"
  shows "mem_inv (mem_write p bs m) U" "mem_extent (mem_write p bs m) q = mem_extent m q"
    "hpm \<le> a \<Longrightarrow> gHeap m = Some h \<Longrightarrow> hpm = hp_memory h \<Longrightarrow>
       mem_byte (mem_write p bs m) a = (if p \<le> a \<and> a < p + List.length bs then bs ! (a - p) else mem_byte m a)"
  using assms
  by (auto simp: mem_inv_def mem_write_def mem_extent_def mem_byte_def extent_def heap_inv_data)

text \<open>Writes into a block that the operation took.\<close>

lemma mem_write_byte:
  assumes "mem_inv m U" "q \<in> U"
  shows "mem_byte (mem_write p bs m) (q + i) = (if p \<le> q + i \<and> q + i < p + List.length bs then bs ! (q + i - p) else mem_byte m (q + i))"
proof -
  obtain h where h: "gHeap m = Some h" "heap_inv h U" using assms(1) by (auto simp: mem_inv_def)
  then have "hp_memory h \<le> q + i" using heap_inv_inside(1) [OF h(2) assms(2)] by simp
  from mem_write_sel(3) [OF assms(1) this h(1) refl] show ?thesis .
qed

lemma takes_write:
  assumes "takes m U ps m'" "p \<in> set ps" "off + List.length bs \<le> mem_extent m' p"
  shows "takes m U ps (mem_write (p + off) bs m')"
proof -
  note T = takesD [OF assms(1)]
  have "mem_byte (mem_write (p + off) bs m') (q + i) = mem_byte m' (q + i)" if "q \<in> U" "i < mem_extent m q" for q i
  proof -
    have "q \<noteq> p" using that assms(2) T(3) by auto
    then have "p + mem_extent m' p \<le> q \<or> q + mem_extent m' q \<le> p" using mem_apart [OF T(1)] that(1) assms(2) by auto
    moreover have "mem_extent m q \<le> mem_extent m' q" using T(4) that(1) by simp
    ultimately show ?thesis using mem_write_byte [OF T(1), of q "p + off" bs i] that assms(3) by auto
  qed
  then show ?thesis using assms(1) mem_write_sel(1,2) [OF T(1)] by (simp add: takes_def)
qed

definition holds :: "mem_state \<Rightarrow> nat \<Rightarrow> nat \<Rightarrow> u8 list \<Rightarrow> bool" where
  "holds m p off bs \<longleftrightarrow> off + List.length bs \<le> mem_extent m p \<and> (\<forall>i < List.length bs. mem_byte m (p + off + i) = bs ! i)"

lemma holds_write:
  assumes "mem_inv m U" "p \<in> U" "off + List.length bs \<le> mem_extent m p"
  shows "holds (mem_write (p + off) bs m) p off bs"
  using assms mem_write_sel(2) [OF assms(1)] mem_write_byte [OF assms(1,2), where p = "p + off"]
  by (simp add: holds_def add.assoc)

lemma holds_write_other:
  assumes "mem_inv m U" "p \<in> U" "holds m p off bs" "off + List.length bs \<le> off' \<or> off' + List.length bs' \<le> off"
  shows "holds (mem_write (p + off') bs' m) p off bs"
  using assms(3,4) mem_write_sel(2) [OF assms(1)] mem_write_byte [OF assms(1,2), where p = "p + off'"]
  by (auto simp: holds_def add.assoc)

lemma holds_takes:
  assumes "takes m U ps m'" "p \<in> U" "holds m p off bs"
  shows "holds m' p off bs"
proof -
  have "mem_extent m p \<le> mem_extent m' p" "\<forall>i < mem_extent m p. mem_byte m' (p + i) = mem_byte m (p + i)"
    using assms(1,2) by (auto simp: takes_def)
  then show ?thesis using assms(3) by (auto simp: holds_def add.assoc)
qed

lemma holds_bytes: "holds m p off bs \<Longrightarrow> mem_bytes m (p + off) (List.length bs) = bs"
  by (auto simp: holds_def mem_bytes_def intro: nth_equalityI)

section \<open>Requests\<close>

definition taken :: "nat option \<Rightarrow> nat list" where
  "taken r = (case r of None \<Rightarrow> [] | Some p \<Rightarrow> [p])"

lemma taken_simps [simp]: "taken None = []" "taken (Some p) = [p]"
  by (simp_all add: taken_def)

lemma request_takes:
  assumes "mem_inv m U" "heap_legal q"
  obtains r m' where "mem_request m q = Some (r, m')" "takes m U (taken r) m'"
    "\<forall>p. r = Some p \<longrightarrow> heap_wants q \<le> mem_extent m' p \<and> req_aligned q p"
proof -
  obtain r m' where r: "mem_request m q = Some (r, m')" "case r of None \<Rightarrow> mem_inv m' U
      | Some p \<Rightarrow> p \<notin> U \<and> mem_inv m' (insert p U) \<and> heap_wants q \<le> mem_extent m' p \<and> req_aligned q p"
    "\<forall>p \<in> U. mem_extent m p \<le> mem_extent m' p" "\<forall>a. mem_byte m' a = mem_byte m a"
    using mem_request_result [OF assms] by blast
  show thesis
    by (rule that [OF r(1)]) (use r(2-4) in \<open>auto simp: takes_def split: option.splits\<close>)
qed

lemma aligned_takes:
  assumes "mem_inv m U" "unat al dvd 4096"
  obtains r m' where "MemAllocAligned m n al = Some (r, m')" "takes m U (taken r) m'"
    "\<forall>p. r = Some p \<longrightarrow> n \<le> mem_extent m' p \<and> unat al dvd p"
proof -
  have "heap_legal (Aligned n al)" using dvd_imp_le [OF assms(2)] by simp
  from request_takes [OF assms(1) this] obtain r m' where r: "mem_request m (Aligned n al) = Some (r, m')" "takes m U (taken r) m'"
    "\<forall>p. r = Some p \<longrightarrow> heap_wants (Aligned n al) \<le> mem_extent m' p \<and> req_aligned (Aligned n al) p" by blast
  show thesis by (rule that [of r m']) (use r assms(2) in \<open>simp_all add: req_aligned_def\<close>)
qed

lemma plain_takes:
  assumes "mem_inv m U"
  obtains r m' where "MemAlloc m n = Some (r, m')" "takes m U (taken r) m'" "\<forall>p. r = Some p \<longrightarrow> n \<le> mem_extent m' p"
proof -
  have "heap_legal (Plain n)" by simp
  from request_takes [OF assms this] obtain r m' where r: "mem_request m (Plain n) = Some (r, m')" "takes m U (taken r) m'"
    "\<forall>p. r = Some p \<longrightarrow> heap_wants (Plain n) \<le> mem_extent m' p \<and> req_aligned (Plain n) p" by blast
  show thesis by (rule that [of r m']) (use r in simp_all)
qed

section \<open>Releases\<close>

text \<open>\<open>gives m ps U m'\<close>: from \<open>m\<close>, where the blocks \<open>ps\<close> and \<open>U\<close> are held, \<open>ps\<close> have been given back.\<close>

definition gives :: "mem_state \<Rightarrow> nat list \<Rightarrow> nat set \<Rightarrow> mem_state \<Rightarrow> bool" where
  "gives m ps U m' \<longleftrightarrow> mem_inv m' U \<and> (\<forall>p \<in> U. mem_extent m' p = mem_extent m p) \<and> (\<forall>a. mem_byte m' a = mem_byte m a)"

lemma gives_trans: "gives m ps (U \<union> set qs) m' \<Longrightarrow> gives m' qs U m'' \<Longrightarrow> gives m (ps @ qs) U m''"
  by (auto simp: gives_def)

lemma takes_gives:
  assumes "takes m U ps m'" "gives m' ps U m''"
  shows "takes m U [] m''"
  using assms by (auto simp: takes_def gives_def)

fun free_all :: "nat list \<Rightarrow> mem_state \<Rightarrow> mem_state option" where
  "free_all [] m = Some m"
| "free_all (p # ps) m = Option.bind (MemFree m p) (free_all ps)"

lemma free_all_append: "free_all (ps @ qs) m = Option.bind (free_all ps m) (free_all qs)"
  by (induction ps arbitrary: m) (auto split: Option.bind_splits)

lemma free_all_append_fun: "free_all (ps @ qs) = (\<lambda>m. Option.bind (free_all ps m) (free_all qs))"
  by (simp add: fun_eq_iff free_all_append)

lemma free_all_gives:
  "mem_inv m (U \<union> set ps) \<Longrightarrow> distinct ps \<Longrightarrow> set ps \<inter> U = {} \<Longrightarrow> \<exists>m'. free_all ps m = Some m' \<and> gives m ps U m'"
proof (induction ps arbitrary: m)
  case Nil
  then show ?case by (simp add: gives_def)
next
  case (Cons p ps)
  obtain m1 where m1: "MemFree m p = Some m1" "mem_inv m1 ((U \<union> set (p # ps)) - {p})"
    "\<forall>q \<in> (U \<union> set (p # ps)) - {p}. mem_extent m1 q = mem_extent m q" "\<forall>a. mem_byte m1 a = mem_byte m a"
    using mem_release_result [OF Cons.prems(1), of p] by auto
  have s: "(U \<union> set (p # ps)) - {p} = U \<union> set ps" using Cons.prems(2,3) by auto
  have g: "gives m [p] (U \<union> set ps) m1" using m1(2-4) unfolding s by (simp add: gives_def)
  obtain m2 where m2: "free_all ps m1 = Some m2" "gives m1 ps U m2"
    using Cons.IH [of m1] m1(2) Cons.prems(2,3) unfolding s by auto
  show ?case using gives_trans [OF g m2(2)] m1(1) m2(1) by simp
qed

lemma free_if_all: "free_if r m = free_all (taken r) m"
  by (cases r) (auto simp: free_if_def split: Option.bind_splits)

lemma takes_free_all:
  assumes "takes m U ps m'"
  obtains m'' where "free_all ps m' = Some m''" "takes m U [] m''"
  using free_all_gives [OF takesD(1-3) [OF assms]] takes_gives [OF assms] by blast

end
