(* ===== verification/Hvm_Created.thy ===== *)
theory Hvm_Created
  imports Hvm_Memory
begin

text \<open>
  What creation promises: a hypervisor with all its parts, which the exit stub finds again from
  its stack, or nothing taken at all; and what is taken is what finalisation gives back.
\<close>

section \<open>One virtual processor\<close>

definition owned_vcpu :: "hvm_vcpu \<Rightarrow> nat list" where
  "owned_vcpu v = taken (vc_Stack v) @ taken (vc_VmcsHva v) @ taken (vc_VmxOnHva v)"

definition vcpu_ok :: "create_env \<Rightarrow> nat \<Rightarrow> nat \<Rightarrow> nat \<Rightarrow> hvm_vcpu \<Rightarrow> mem_state \<Rightarrow> bool" where
  "vcpu_ok e pages self i v m \<longleftrightarrow> vc_Index v = i \<and> \<not> vc_Launched v \<and>
     (\<exists>x c s. vc_VmxOnHva v = Some x \<and> vc_VmcsHva v = Some c \<and> vc_Stack v = Some s \<and>
        4096 dvd x \<and> 4096 dvd c \<and> 4096 dvd s \<and> vc_VmxOnHpa v = ce_pa e x \<and> vc_VmcsHpa v = ce_pa e c \<and>
        4096 \<le> mem_extent m x \<and> unat (VMCS_REGION_SIZE (ce_vm e)) \<le> mem_extent m c \<and> pages * 4096 \<le> mem_extent m s \<and>
        vc_Rsp v = of_nat (s + pages * 4096 - 64) \<and> 0 < pages \<and>
        holds m x 0 (le32 (VMCS_REVISION (ce_vm e))) \<and> holds m c 0 (le32 (VMCS_REVISION (ce_vm e))) \<and> holds m c 4 (le32 0) \<and>
        holds m s (pages * 4096 - 8) (le64 (of_nat self)))"

lemma vcpu_ok_takes:
  assumes "vcpu_ok e pages self i v m" "takes m U ps m'" "set (owned_vcpu v) \<subseteq> U"
  shows "vcpu_ok e pages self i v m'"
proof -
  have h: "holds m' p off bs" if "holds m p off bs" "p \<in> U" for p off bs
    using holds_takes [OF assms(2) that(2,1)] .
  have x: "mem_extent m p \<le> mem_extent m' p" if "p \<in> U" for p
    using takesD(4) [OF assms(2)] that by simp
  obtain x c s where v: "vc_VmxOnHva v = Some x" "vc_VmcsHva v = Some c" "vc_Stack v = Some s"
    using assms(1) by (auto simp: vcpu_ok_def)
  then have "x \<in> U" "c \<in> U" "s \<in> U" using assms(3) by (simp_all add: owned_vcpu_def)
  then show ?thesis using assms(1) h x unfolding vcpu_ok_def v
    by (auto intro: le_trans)
qed

lemma revision_masked: "VMCS_REVISION (ce_vm e) AND 0x7FFFFFFF = VMCS_REVISION (ce_vm e)"
  by (intro bit_word_eqI) (auto simp: VMCS_REVISION_def bit_simps)

lemma NT_NO_MEMORY: "\<not> NT_SUCCESS STATUS_NO_MEMORY" by simp

lemma vmxon_result:
  assumes "mem_inv m U"
  obtains r m' where "HvmInitializeVmxOn e v m =
      Some (case r of None \<Rightarrow> (STATUS_NO_MEMORY, v\<lparr>vc_VmxOnHva := None\<rparr>, m')
                    | Some p \<Rightarrow> (STATUS_SUCCESS, v\<lparr>vc_VmxOnHva := Some p, vc_VmxOnHpa := ce_pa e p\<rparr>, m'))"
    "takes m U (taken r) m'"
    "\<forall>p. r = Some p \<longrightarrow> 4096 dvd p \<and> 4096 \<le> mem_extent m' p \<and> holds m' p 0 (le32 (VMCS_REVISION (ce_vm e)))"
proof -
  obtain r m1 where a: "MemAllocAligned m 4096 4096 = Some (r, m1)" "takes m U (taken r) m1"
    "\<forall>p. r = Some p \<longrightarrow> 4096 \<le> mem_extent m1 p \<and> unat (4096 :: u32) dvd p"
    by (rule aligned_takes [OF assms, of 4096 4096]) simp
  show thesis
  proof (cases r)
    case None
    then show ?thesis using a by (intro that [of m1 None]) (simp_all add: HvmInitializeVmxOn_def)
  next
    case (Some p)
    let ?m = "mem_write p (le32 (VMCS_REVISION (ce_vm e))) m1"
    have t: "takes m U [p] m1" "4096 \<le> mem_extent m1 p" "4096 dvd p" using a Some by simp_all
    note i = takesD(1) [OF t(1)]
    have "takes m U (taken r) ?m" using takes_write [OF t(1), of p 0 "le32 (VMCS_REVISION (ce_vm e))"] t(2) Some by simp
    moreover have "holds ?m p 0 (le32 (VMCS_REVISION (ce_vm e)))"
      using holds_write [OF i, of p 0 "le32 (VMCS_REVISION (ce_vm e))"] t(2) by simp
    ultimately show ?thesis using a(1) t(2,3) Some mem_write_sel(2) [OF i]
      by (intro that [of ?m r]) (simp_all add: HvmInitializeVmxOn_def)
  qed
qed

lemma vmcs_result:
  assumes "mem_inv m U" "8 \<le> unat (VMCS_REGION_SIZE (ce_vm e))"
  obtains r m' where "HvmInitializeVmcs e v m =
      Some (case r of None \<Rightarrow> (STATUS_NO_MEMORY, v\<lparr>vc_VmcsHva := None\<rparr>, m')
                    | Some p \<Rightarrow> (STATUS_SUCCESS, v\<lparr>vc_VmcsHva := Some p, vc_VmcsHpa := ce_pa e p\<rparr>, m'))"
    "takes m U (taken r) m'"
    "\<forall>p. r = Some p \<longrightarrow> 4096 dvd p \<and> unat (VMCS_REGION_SIZE (ce_vm e)) \<le> mem_extent m' p \<and>
       holds m' p 0 (le32 (VMCS_REVISION (ce_vm e))) \<and> holds m' p 4 (le32 0)"
proof -
  let ?n = "unat (VMCS_REGION_SIZE (ce_vm e))" and ?R = "le32 (VMCS_REVISION (ce_vm e))"
  obtain r m1 where a: "MemAllocAligned m ?n 4096 = Some (r, m1)" "takes m U (taken r) m1"
    "\<forall>p. r = Some p \<longrightarrow> ?n \<le> mem_extent m1 p \<and> unat (4096 :: u32) dvd p"
    by (rule aligned_takes [OF assms(1), of 4096 ?n]) simp
  show thesis
  proof (cases r)
    case None
    then show ?thesis using a
      by (intro that [of m1 None]) (simp_all add: HvmInitializeVmcs_def VmcsAllocateRegion_def)
  next
    case (Some p)
    let ?m1 = "mem_write p ?R m1" and ?m = "mem_write (p + 4) (le32 0) (mem_write p ?R m1)"
    have t: "takes m U [p] m1" "?n \<le> mem_extent m1 p" "4096 dvd p" using a Some by simp_all
    have t1: "takes m U [p] ?m1" using takes_write [OF t(1), of p 0 ?R] t(2) assms(2) by simp
    note i = takesD(1) [OF t(1)] and i1 = takesD(1) [OF t1]
    have e: "mem_extent ?m1 p = mem_extent m1 p" "mem_extent ?m p = mem_extent m1 p"
      using mem_write_sel(2) [OF i] mem_write_sel(2) [OF i1] by simp_all
    have "takes m U (taken r) ?m" using takes_write [OF t1, of p 4 "le32 0"] t(2) assms(2) e Some by simp
    moreover have "holds ?m1 p 0 ?R" using holds_write [OF i, of p 0 ?R] t(2) assms(2) by simp
    then have "holds ?m p 0 ?R" using holds_write_other [OF i1, of p 0 ?R 4 "le32 0"] by simp
    moreover have "holds ?m p 4 (le32 0)" using holds_write [OF i1, of p 4 "le32 0"] t(2) assms(2) e by simp
    ultimately show ?thesis using a(1) t(2,3) Some e
      by (intro that [of ?m r]) (simp_all add: HvmInitializeVmcs_def VmcsAllocateRegion_def revision_masked)
  qed
qed

text \<open>The size of the stack fits in 32 bits.\<close>

lemma stack_size:
  fixes SP :: u32
  assumes "unat SP < 2 ^ 20"
  shows "unat (SP * 4096) = unat SP * 4096" "SP \<noteq> 0 \<Longrightarrow> unat (SP * 4096 - 8) = unat SP * 4096 - 8"
proof -
  show m: "unat (SP * 4096) = unat SP * 4096" using assms by (simp add: unat_mult_lem [THEN iffD1])
  show "unat (SP * 4096 - 8) = unat SP * 4096 - 8" if "SP \<noteq> 0"
  proof -
    have "0 < unat SP" using that by (simp add: unat_gt_0)
    then have "(8 :: u32) \<le> SP * 4096" using m by (simp add: word_le_nat_alt)
    then show ?thesis using m by (simp add: unat_sub)
  qed
qed

lemma stack_result:
  assumes "mem_inv m U" "unat SP < 2 ^ 20"
  obtains r m' where "HvmInitializeStack self (SP * 4096) v m =
      Some (case r of None \<Rightarrow> (STATUS_NO_MEMORY, v, m') | Some p \<Rightarrow> (STATUS_SUCCESS, v\<lparr>vc_Stack := Some p\<rparr>, m'))"
    "takes m U (taken r) m'"
    "\<forall>p. r = Some p \<longrightarrow> 4096 dvd p \<and> 0 < unat SP \<and> unat SP * 4096 \<le> mem_extent m' p \<and>
       holds m' p (unat SP * 4096 - 8) (le64 (of_nat self))"
proof -
  let ?n = "unat SP * 4096" and ?w = "le64 (of_nat self)"
  obtain r m1 where a: "MemAllocAligned m ?n 4096 = Some (r, m1)" "takes m U (taken r) m1"
    "\<forall>p. r = Some p \<longrightarrow> ?n \<le> mem_extent m1 p \<and> unat (4096 :: u32) dvd p"
    by (rule aligned_takes [OF assms(1), of 4096 ?n]) simp
  show thesis
  proof (cases r)
    case None
    then show ?thesis using a stack_size(1) [OF assms(2)]
      by (intro that [of m1 None]) (simp_all add: HvmInitializeStack_def)
  next
    case (Some p)
    then have z: "SP \<noteq> 0" using a(1) assms(1) by (auto simp: MemAllocAligned_def HeapAllocAligned_def mem_inv_def)
    let ?m = "mem_write (p + (?n - 8)) ?w m1"
    have t: "takes m U [p] m1" "?n \<le> mem_extent m1 p" "4096 dvd p" using a Some by simp_all
    note i = takesD(1) [OF t(1)]
    have n: "0 < unat SP" using z by (simp add: unat_gt_0)
    then have b: "?n - 8 + List.length ?w \<le> mem_extent m1 p" using t(2) by simp
    have "takes m U (taken r) ?m" using takes_write [OF t(1) _ b] Some by simp
    moreover have "holds ?m p (?n - 8) ?w" using holds_write [OF i _ b] by simp
    ultimately show ?thesis using a(1) t(2,3) Some mem_write_sel(2) [OF i] n stack_size [OF assms(2)] z
      by (intro that [of ?m r]) (simp_all add: HvmInitializeStack_def)
  qed
qed

definition blank :: "hvm_vcpu \<Rightarrow> bool" where
  "blank v \<longleftrightarrow> vc_Stack v = None \<and> vc_VmcsHva v = None \<and> vc_VmxOnHva v = None"

lemma init_vcpu_result:
  assumes "mem_inv m U" "8 \<le> unat (VMCS_REGION_SIZE (ce_vm e))" "unat SP < 2 ^ 20" "blank v"
  obtains Status v' m' where "init_vcpu e SP self i v m = Some (Status, v', m')" "takes m U (owned_vcpu v') m'"
    "Status = STATUS_SUCCESS \<and> vcpu_ok e (unat SP) self i v' m' \<or> Status = STATUS_NO_MEMORY"
proof -
  let ?v = "v\<lparr>vc_Index := i, vc_Launched := False\<rparr>"
  have b: "vc_Stack v = None" "vc_VmcsHva v = None" "vc_VmxOnHva v = None" using assms(4) by (simp_all add: blank_def)
  obtain r1 m1 where x: "HvmInitializeVmxOn e ?v m =
      Some (case r1 of None \<Rightarrow> (STATUS_NO_MEMORY, ?v\<lparr>vc_VmxOnHva := None\<rparr>, m1)
                    | Some p \<Rightarrow> (STATUS_SUCCESS, ?v\<lparr>vc_VmxOnHva := Some p, vc_VmxOnHpa := ce_pa e p\<rparr>, m1))"
    "takes m U (taken r1) m1"
    "\<forall>p. r1 = Some p \<longrightarrow> 4096 dvd p \<and> 4096 \<le> mem_extent m1 p \<and> holds m1 p 0 (le32 (VMCS_REVISION (ce_vm e)))"
    by (rule vmxon_result [OF assms(1)])
  show thesis
  proof (cases r1)
    case None
    then show ?thesis using x b by (intro that [of STATUS_NO_MEMORY "?v\<lparr>vc_VmxOnHva := None\<rparr>" m1])
        (simp_all add: init_vcpu_def owned_vcpu_def)
  next
    case (Some p)
    let ?v1 = "?v\<lparr>vc_VmxOnHva := Some p, vc_VmxOnHpa := ce_pa e p\<rparr>"
    have t1: "takes m U [p] m1" using x(2) Some by simp
    obtain r2 m2 where c: "HvmInitializeVmcs e ?v1 m1 =
        Some (case r2 of None \<Rightarrow> (STATUS_NO_MEMORY, ?v1\<lparr>vc_VmcsHva := None\<rparr>, m2)
                      | Some q \<Rightarrow> (STATUS_SUCCESS, ?v1\<lparr>vc_VmcsHva := Some q, vc_VmcsHpa := ce_pa e q\<rparr>, m2))"
      "takes m1 (U \<union> set [p]) (taken r2) m2"
      "\<forall>q. r2 = Some q \<longrightarrow> 4096 dvd q \<and> unat (VMCS_REGION_SIZE (ce_vm e)) \<le> mem_extent m2 q \<and>
         holds m2 q 0 (le32 (VMCS_REVISION (ce_vm e))) \<and> holds m2 q 4 (le32 0)"
      by (rule vmcs_result [OF takesD(1) [OF t1] assms(2)])
    note t2 = takes_trans [OF t1 c(2)]
    show ?thesis
    proof (cases r2)
      case None
      then show ?thesis using x(1) c t2 b \<open>r1 = Some p\<close>
        by (intro that [of STATUS_NO_MEMORY "?v1\<lparr>vc_VmcsHva := None\<rparr>" m2]) (simp_all add: init_vcpu_def owned_vcpu_def)
    next
      case (Some q)
      let ?v2 = "?v1\<lparr>vc_VmcsHva := Some q, vc_VmcsHpa := ce_pa e q\<rparr>"
      have t2': "takes m U [p, q] m2" using t2 Some by simp
      obtain r3 m3 where s: "HvmInitializeStack self (SP * 4096) ?v2 m2 =
          Some (case r3 of None \<Rightarrow> (STATUS_NO_MEMORY, ?v2, m3) | Some s \<Rightarrow> (STATUS_SUCCESS, ?v2\<lparr>vc_Stack := Some s\<rparr>, m3))"
        "takes m2 (U \<union> set [p, q]) (taken r3) m3"
        "\<forall>s. r3 = Some s \<longrightarrow> 4096 dvd s \<and> 0 < unat SP \<and> unat SP * 4096 \<le> mem_extent m3 s \<and>
           holds m3 s (unat SP * 4096 - 8) (le64 (of_nat self))"
        by (rule stack_result [OF takesD(1) [OF t2'] assms(3)])
      note t3 = takes_trans [OF t2' s(2)]
      show ?thesis
      proof (cases r3)
        case None
        have "takes m U [q, p] m3" by (rule takes_permuted [OF t3]) (use takesD(2) [OF t3] None in auto)
        then show ?thesis using x(1) c(1) s(1) b \<open>r1 = Some p\<close> \<open>r2 = Some q\<close> None
          by (intro that [of STATUS_NO_MEMORY ?v2 m3]) (simp_all add: init_vcpu_def owned_vcpu_def)
      next
        case (Some s)
        let ?v3 = "?v2\<lparr>vc_Stack := Some s, vc_Rsp := of_nat s + ucast (SP * 4096) - 0x40\<rparr>"
        have d: "takes m U [s, q, p] m3" by (rule takes_permuted [OF t3]) (use takesD(2) [OF t3] Some in auto)
        have S: "4096 dvd s" "0 < unat SP" "unat SP * 4096 \<le> mem_extent m3 s"
          "holds m3 s (unat SP * 4096 - 8) (le64 (of_nat self))" using s(3) Some by simp_all
        have C: "4096 dvd q" "unat (VMCS_REGION_SIZE (ce_vm e)) \<le> mem_extent m2 q"
          "holds m2 q 0 (le32 (VMCS_REVISION (ce_vm e)))" "holds m2 q 4 (le32 0)" using c(3) \<open>r2 = Some q\<close> by simp_all
        have X: "4096 dvd p" "4096 \<le> mem_extent m1 p" "holds m1 p 0 (le32 (VMCS_REVISION (ce_vm e)))"
          using x(3) \<open>r1 = Some p\<close> by simp_all
        have h: "holds m3 q 0 (le32 (VMCS_REVISION (ce_vm e)))" "holds m3 q 4 (le32 0)" "holds m3 p 0 (le32 (VMCS_REVISION (ce_vm e)))"
          using holds_takes [OF s(2), of q] holds_takes [OF s(2), of p] holds_takes [OF c(2), of p] C X by simp_all
        have n: "unat (VMCS_REGION_SIZE (ce_vm e)) \<le> mem_extent m3 q" "4096 \<le> mem_extent m3 p"
          using takesD(4) [OF s(2)] takesD(4) [OF c(2)] C(2) X(2) by (auto intro: le_trans)
        have "(of_nat s + ucast (SP * 4096) - 0x40 :: u64) = of_nat (s + unat SP * 4096 - 64)"
        proof -
          have "(ucast (SP * 4096) :: u64) = of_nat (unat SP * 4096)"
            using stack_size(1) [OF assms(3)] by (metis of_nat_unat)
          then show ?thesis using S(2) by (simp add: of_nat_diff)
        qed
        then have "vcpu_ok e (unat SP) self i ?v3 m3" using S C(1) X(1) h n by (simp add: vcpu_ok_def)
        then show ?thesis using x(1) c(1) s(1) d \<open>r1 = Some p\<close> \<open>r2 = Some q\<close> Some
          by (intro that [of STATUS_SUCCESS ?v3 m3]) (simp_all add: init_vcpu_def owned_vcpu_def)
      qed
    qed
  qed
qed

section \<open>All virtual processors\<close>

definition owned_vcpus :: "hvm_vcpu list \<Rightarrow> nat list" where
  "owned_vcpus vs = concat (map owned_vcpu vs)"

lemma owned_blank: "blank v \<Longrightarrow> owned_vcpu v = []"
  by (simp add: blank_def owned_vcpu_def)

lemma owned_vcpus_blank: "\<forall>v \<in> set vs. blank v \<Longrightarrow> owned_vcpus vs = []"
  by (simp add: owned_vcpus_def owned_blank)

lemma delete_vcpus_all: "delete_vcpus vs m = free_all (owned_vcpus vs) m"
proof (induction vs arbitrary: m)
  case (Cons v vs)
  have "delete_vcpus vs = free_all (owned_vcpus vs)" using Cons by (simp add: fun_eq_iff)
  then show ?case by (simp add: owned_vcpus_def owned_vcpu_def free_if_all free_all_append_fun)
qed (simp add: owned_vcpus_def)

lemma init_vcpus_result:
  assumes "8 \<le> unat (VMCS_REGION_SIZE (ce_vm e))" "unat SP < 2 ^ 20"
  shows "takes m0 U (owned_vcpus (take i vs)) m \<Longrightarrow> List.length vs = i + k \<Longrightarrow> \<forall>v \<in> set (drop i vs). blank v \<Longrightarrow>
      \<forall>j<i. vcpu_ok e (unat SP) (vcpu_at e A j) j (vs ! j) m \<Longrightarrow>
    \<exists>Status vs' m'. init_vcpus e SP A i k vs m = Some (Status, vs', m') \<and> List.length vs' = i + k \<and>
      takes m0 U (owned_vcpus vs') m' \<and>
      (Status = STATUS_SUCCESS \<and> (\<forall>j<i + k. vcpu_ok e (unat SP) (vcpu_at e A j) j (vs' ! j) m') \<or> Status = STATUS_NO_MEMORY)"
proof (induction k arbitrary: i vs m)
  case 0
  then show ?case by simp
next
  case (Suc k)
  let ?self = "vcpu_at e A i"
  have d: "drop i vs = vs ! i # drop (i + 1) vs" using Suc.prems(2) by (simp add: Cons_nth_drop_Suc)
  then have b: "blank (vs ! i)" "\<forall>v \<in> set (drop (i + 1) vs). blank v" using Suc.prems(3) by simp_all
  obtain St v m1 where v: "init_vcpu e SP ?self i (vs ! i) m = Some (St, v, m1)"
    "takes m (U \<union> set (owned_vcpus (take i vs))) (owned_vcpu v) m1"
    "St = STATUS_SUCCESS \<and> vcpu_ok e (unat SP) ?self i v m1 \<or> St = STATUS_NO_MEMORY"
    by (rule init_vcpu_result [OF takesD(1) [OF Suc.prems(1)] assms b(1)])
  let ?vs = "vs[i := v]"
  have t: "take (i + 1) ?vs = take i vs @ [v]" using Suc.prems(2) by (simp add: take_Suc_conv_app_nth)
  have o: "owned_vcpus (take (i + 1) ?vs) = owned_vcpus (take i vs) @ owned_vcpu v"
    unfolding t by (simp add: owned_vcpus_def)
  have T: "takes m0 U (owned_vcpus (take (i + 1) ?vs)) m1" unfolding o by (rule takes_trans [OF Suc.prems(1) v(2)])
  have D: "drop (i + 1) ?vs = drop (i + 1) vs" by simp
  have all: "?vs = take (i + 1) ?vs @ drop (i + 1) vs" using D by (metis append_take_drop_id)
  show ?case
  proof (cases "St = STATUS_SUCCESS")
    case False
    then have "owned_vcpus ?vs = owned_vcpus (take (i + 1) ?vs)"
      using owned_vcpus_blank [OF b(2)] by (subst all) (simp add: owned_vcpus_def)
    then show ?thesis using v(1,3) T False Suc.prems(2) by simp
  next
    case True
    have ok: "\<forall>j<i + 1. vcpu_ok e (unat SP) (vcpu_at e A j) j (?vs ! j) m1"
    proof (intro allI impI)
      fix j assume j: "j < i + 1"
      show "vcpu_ok e (unat SP) (vcpu_at e A j) j (?vs ! j) m1"
      proof (cases "j = i")
        case True
        then show ?thesis using v(3) \<open>St = STATUS_SUCCESS\<close> Suc.prems(2) by auto
      next
        case False
        then have "j < i" using j by simp
        then have "vs ! j \<in> set (take i vs)" using nth_mem [of j "take i vs"] Suc.prems(2) by simp
        then have "set (owned_vcpu (vs ! j)) \<subseteq> U \<union> set (owned_vcpus (take i vs))" by (auto simp: owned_vcpus_def)
        moreover have "vcpu_ok e (unat SP) (vcpu_at e A j) j (vs ! j) m" using Suc.prems(4) j False by simp
        ultimately show ?thesis using vcpu_ok_takes [OF _ v(2)] False by simp
      qed
    qed
    have "\<forall>v \<in> set (drop (i + 1) ?vs). blank v" using b(2) D by simp
    from Suc.IH [OF T _ this ok] Suc.prems(2) v(1) True show ?thesis by simp
  qed
qed

section \<open>The hypervisor\<close>

definition owned_hvm :: "hvm_struct \<Rightarrow> nat list" where
  "owned_hvm Hvm = owned_vcpus (hs_Vcpus Hvm) @ taken (hs_VcpuArray Hvm) @ [hs_self Hvm]"

text \<open>All parts of the hypervisor are there.\<close>

definition hvm_ok :: "create_env \<Rightarrow> nat \<Rightarrow> hvm_struct \<Rightarrow> mem_state \<Rightarrow> bool" where
  "hvm_ok e pages Hvm m \<longleftrightarrow> \<not> hs_Launched Hvm \<and> List.length (hs_Vcpus Hvm) = ce_count e \<and> hs_VmState Hvm = Some (ce_vm e) \<and>
     ce_sizeof_hvm e \<le> mem_extent m (hs_self Hvm) \<and>
     (\<exists>A. hs_VcpuArray Hvm = Some A \<and> 16 dvd A \<and> ce_count e * ce_sizeof_vcpu e \<le> mem_extent m A \<and>
        (\<forall>i < ce_count e. vcpu_ok e pages (vcpu_at e A i) i (hs_Vcpus Hvm ! i) m))"

text \<open>The sizes do not wrap, and a control structure has room for its header.\<close>

definition env_ok :: "create_env \<Rightarrow> bool" where
  "env_ok e \<longleftrightarrow> 8 \<le> unat (VMCS_REGION_SIZE (ce_vm e)) \<and> ce_count e * ce_sizeof_vcpu e < 2 ^ 32 \<and>
     ce_count e * ce_sizeof_vcpu_context e < 2 ^ 32 \<and> ce_sizeof_tsc_entry e * MAX_TSC_HITS < 2 ^ 32"

lemma initialize_result:
  assumes "mem_inv m U" "env_ok e" "unat SP < 2 ^ 20"
  obtains Status Hvm m' where "HvmInitialize e Verify SP m = Some (Status, Hvm, m')"
    "case Hvm of None \<Rightarrow> \<not> NT_SUCCESS Status \<and> takes m U [] m'
     | Some Hvm \<Rightarrow> Status = STATUS_SUCCESS \<and> NT_SUCCESS Verify \<and> takes m U (owned_hvm Hvm) m' \<and> hvm_ok e (unat SP) Hvm m'"
proof (cases "NT_SUCCESS Verify")
  case False
  then show ?thesis using takes_refl [OF assms(1)]
    by (intro that [of STATUS_NOT_SUPPORTED None m]) (simp_all add: HvmInitialize_def)
next
  case True
  let ?n = "ce_count e * ce_sizeof_vcpu e"
  have E: "8 \<le> unat (VMCS_REGION_SIZE (ce_vm e))" "?n mod 2 ^ 32 = ?n" using assms(2) by (simp_all add: env_ok_def)
  obtain r m1 where a: "MemAlloc m (ce_sizeof_hvm e) = Some (r, m1)" "takes m U (taken r) m1"
    "\<forall>p. r = Some p \<longrightarrow> ce_sizeof_hvm e \<le> mem_extent m1 p"
    by (rule plain_takes [OF assms(1)])
  show ?thesis
  proof (cases r)
    case None
    then show ?thesis using a(1,2) True by (intro that [of STATUS_NO_MEMORY None m1]) (simp_all add: HvmInitialize_def)
  next
    case (Some p)
    let ?H = "\<lparr>hs_self = p, hs_VcpuArray = None, hs_Vcpus = [], hs_HvmContext = None, hs_VmState = None, hs_Launched = False\<rparr>"
    have t: "takes m U [p] m1" using a(2) Some by simp
    obtain r2 m2 where b: "MemAllocAligned m1 ?n 16 = Some (r2, m2)" "takes m1 (U \<union> set [p]) (taken r2) m2"
      "\<forall>A. r2 = Some A \<longrightarrow> ?n \<le> mem_extent m2 A \<and> unat (16 :: u32) dvd A"
      by (rule aligned_takes [OF takesD(1) [OF t], of 16 ?n]) simp
    note t2 = takes_trans [OF t b(2)]
    show ?thesis
    proof (cases r2)
      case None
      then have "takes m U [p] m2" using t2 by simp
      from takes_free_all [OF this] obtain m3 where "free_all [p] m2 = Some m3" "takes m U [] m3" by blast
      then show ?thesis using a(1) b(1) None True Some E(2)
        by (intro that [of STATUS_NO_MEMORY None m3]) (simp_all add: HvmInitialize_def HvmInitializePerCpu_def split: Option.bind_splits)
    next
      case (Some A)
      have t2': "takes m U [p, A] m2" using t2 Some by simp
      let ?vs = "replicate (ce_count e) zero_vcpu"
      have bl: "\<forall>v \<in> set (drop 0 ?vs). blank v" by (simp add: blank_def zero_vcpu_def)
      obtain St vs m3 where v: "init_vcpus e SP A 0 (ce_count e) ?vs m2 = Some (St, vs, m3)" "List.length vs = 0 + ce_count e"
        "takes m2 (U \<union> set [p, A]) (owned_vcpus vs) m3"
        "St = STATUS_SUCCESS \<and> (\<forall>j<0 + ce_count e. vcpu_ok e (unat SP) (vcpu_at e A j) j (vs ! j) m3) \<or> St = STATUS_NO_MEMORY"
        using init_vcpus_result [OF E(1) assms(3), where i = 0 and vs = ?vs and k = "ce_count e" and m = m2 and
            U = "U \<union> set [p, A]" and ?m0.0 = m2 and A = A]
          takes_refl [OF takesD(1) [OF t2']] bl by (auto simp: owned_vcpus_def)
      note t3 = takes_trans [OF t2' v(3)]
      have own: "takes m U (owned_vcpus vs @ [A, p]) m3"
        by (rule takes_permuted [OF t3]) (use takesD(2) [OF t3] in auto)
      let ?H1 = "?H\<lparr>hs_VcpuArray := Some A, hs_Vcpus := vs\<rparr>"
      have P: "HvmInitializePerCpu e SP ?H m1 =
          (if NT_SUCCESS St then Some (St, ?H1, m3) else do { m \<leftarrow> HvmDeletePerCpu ?H1 m3; Some (St, ?H1, m) })"
        using b(1) Some v(1) E(2) by (simp add: HvmInitializePerCpu_def Let_def)
      show ?thesis
      proof (cases "St = STATUS_SUCCESS")
        case True
        let ?H2 = "?H1\<lparr>hs_VmState := Some (ce_vm e)\<rparr>"
        have "ce_sizeof_hvm e \<le> mem_extent m3 p" "?n \<le> mem_extent m3 A" "16 dvd A"
          using takesD(4) [OF v(3)] takesD(4) [OF b(2)] a(3) b(3) \<open>r = Some p\<close> Some by (auto intro: le_trans)
        then have "hvm_ok e (unat SP) ?H2 m3" using v(2,4) True by (simp add: hvm_ok_def)
        moreover have "takes m U (owned_hvm ?H2) m3" using own by (simp add: owned_hvm_def)
        ultimately show ?thesis using a(1) \<open>r = Some p\<close> P True \<open>NT_SUCCESS Verify\<close>
          by (intro that [of St "Some ?H2" m3]) (simp_all add: HvmInitialize_def)
      next
        case False
        then have S: "St = STATUS_NO_MEMORY" using v(4) by simp
        obtain m4 where f: "free_all (owned_vcpus vs @ [A, p]) m3 = Some m4" "takes m U [] m4"
          by (rule takes_free_all [OF own])
        then show ?thesis using a(1) \<open>r = Some p\<close> P S \<open>NT_SUCCESS Verify\<close>
          by (intro that [of St None m4])
            (auto simp: HvmInitialize_def HvmDeletePerCpu_def delete_vcpus_all free_all_append split: Option.bind_splits)
      qed
    qed
  qed
qed

lemma finalize_all:
  "hs_VcpuArray Hvm = Some A \<Longrightarrow> HvmFinalize Hvm m = free_all (owned_hvm Hvm) m"
  by (auto simp: HvmFinalize_def HvmDeletePerCpu_def owned_hvm_def delete_vcpus_all free_all_append Option.bind_assoc
      split: Option.bind_splits)

section \<open>Finding the processor from its stack\<close>

lemma stack_top:
  fixes s :: nat
  assumes "4096 dvd s" "0 < pages" "s + pages * 4096 < 2 ^ 64"
  shows "(of_nat (s + pages * 4096 - 64) :: u64) OR 0xFF8 = of_nat (s + pages * 4096 - 8)"
    "(of_nat (s + pages * 4096 - 64) :: u64) + 0x38 = of_nat (s + pages * 4096 - 8)"
proof -
  obtain j where j: "s + pages * 4096 = (j + 1) * 4096"
  proof -
    have "4096 dvd s + pages * 4096" using assms(1) by simp
    then obtain i where i: "s + pages * 4096 = 4096 * i" by blast
    then have "i \<noteq> 0" using assms(2) by (cases i) auto
    then show ?thesis using that [of "i - 1"] i by (cases i) simp_all
  qed
  define a :: u64 where "a = push_bit 12 (of_nat j)"
  have a: "a = of_nat (j * 4096)" by (simp add: a_def push_bit_eq_mult)
  have d: "a + x = a OR x" if "x AND 0xFFF = x" for x
  proof -
    have m: "(0xFFF :: u64) = mask 12" by (simp add: mask_eq_exp_minus_1)
    have "a AND 0xFFF = 0" unfolding m a_def by (intro bit_word_eqI) (auto simp: bit_simps)
    then have "(a AND 0xFFF) AND x = 0" by (simp only: bit.conj_zero_left)
    moreover have "(a AND 0xFFF) AND x = a AND (x AND 0xFFF)" by (simp only: ac_simps)
    ultimately have "a AND x = 0" by (simp only: that)
    then show ?thesis by (rule disjunctive_add_eq_or)
  qed
  have e: "(of_nat (s + pages * 4096 - 64) :: u64) = a + 0xFC0" "(of_nat (s + pages * 4096 - 8) :: u64) = a + 0xFF8"
    unfolding j a by (simp_all add: algebra_simps)
  show "(of_nat (s + pages * 4096 - 64) :: u64) OR 0xFF8 = of_nat (s + pages * 4096 - 8)"
    unfolding e using d [of "0xFC0"] d [of "0xFF8"] by (simp add: or.assoc)
  show "(of_nat (s + pages * 4096 - 64) :: u64) + 0x38 = of_nat (s + pages * 4096 - 8)"
    unfolding e by simp
qed

end
