(* ===== verification/Hvm_Contexts.thy ===== *)
theory Hvm_Contexts
  imports Hvm_Created
begin

text \<open>
  The driver's contexts: one allocation per processor, made and undone by callbacks that run on
  all of them, and the contexts' part of initialising and finalising the hypervisor.
\<close>

section \<open>Callbacks that share a state\<close>

lemma run_in_order_inv:
  assumes "\<And>ds t x w st x' c. J ds x w \<Longrightarrow> t \<in> T \<Longrightarrow> t \<notin> set ds \<Longrightarrow> f t x (w t) = (st, x', c) \<Longrightarrow>
      J (ds @ [t]) x' (w(t := c)) \<and> Q t st c"
  shows "run_in_order (per_cpu f) order (x, w) = (log, x', w') \<Longrightarrow> J ds x w \<Longrightarrow> distinct (ds @ order) \<Longrightarrow> set order \<subseteq> T \<Longrightarrow>
    J (ds @ order) x' w' \<and> map fst log = order \<and> (\<forall>(t, st) \<in> set log. Q t st (w' t)) \<and> (\<forall>t. t \<notin> set order \<longrightarrow> w' t = w t)"
proof (induction order arbitrary: ds x w log)
  case (Cons t ts)
  obtain st x1 c where f: "f t x (w t) = (st, x1, c)" by (metis prod_cases3)
  have r1: "per_cpu f t (x, w) = (st, x1, w(t := c))" using f by (simp add: per_cpu_def)
  obtain log1 where r: "run_in_order (per_cpu f) ts (x1, w(t := c)) = (log1, x', w')" "log = (t, st) # log1"
    using Cons.prems(1) by (cases "run_in_order (per_cpu f) ts (x1, w(t := c))") (simp add: r1)
  have "t \<in> T" "t \<notin> set ds" using Cons.prems(3,4) by auto
  then have j: "J (ds @ [t]) x1 (w(t := c))" "Q t st c" using assms [OF Cons.prems(2) _ _ f] by blast+
  have d: "distinct ((ds @ [t]) @ ts)" "set ts \<subseteq> T" "t \<notin> set ts" using Cons.prems(3,4) by auto
  have I: "J ((ds @ [t]) @ ts) x' w' \<and> map fst log1 = ts \<and> (\<forall>(t, st) \<in> set log1. Q t st (w' t)) \<and>
      (\<forall>u. u \<notin> set ts \<longrightarrow> w' u = (w(t := c)) u)"
    by (rule Cons.IH [OF r(1) j(1) d(1,2)])
  then have "w' t = c" using d(3) by simp
  then show ?case using I j(2) r(2) by simp
qed simp

lemma smp_returns_inv:
  assumes "smp_returns (per_cpu f) n (x, w) Status (x', w')" "J [] x w"
    "\<forall>ds t x w st x' c. J ds x w \<longrightarrow> t \<in> {..<n} \<longrightarrow> t \<notin> set ds \<longrightarrow> f t x (w t) = (st, x', c) \<longrightarrow>
       J (ds @ [t]) x' (w(t := c)) \<and> Q t st c"
  obtains order where "distinct order" "set order = {..<n}" "J order x' w'"
    "Status = STATUS_SUCCESS \<longrightarrow> (\<forall>t<n. Q t STATUS_SUCCESS (w' t))"
    "Status \<noteq> STATUS_SUCCESS \<longrightarrow> (\<exists>t<n. Q t Status (w' t))"
proof -
  obtain order log where o: "distinct order" "set order = {..<n}" "run_in_order (per_cpu f) order (x, w) = (log, x', w')"
    and st: "if \<forall>st \<in> snd ` set log. st = STATUS_SUCCESS then Status = STATUS_SUCCESS
         else Status \<noteq> STATUS_SUCCESS \<and> Status \<in> snd ` set log"
    using assms(1) by (auto simp: smp_returns_def)
  have R: "J ([] @ order) x' w' \<and> map fst log = order \<and> (\<forall>(t, st) \<in> set log. Q t st (w' t)) \<and> (\<forall>t. t \<notin> set order \<longrightarrow> w' t = w t)"
    by (rule run_in_order_inv [where J = J and Q = Q and T = "{..<n}" and f = f and x = x and w = w and ds = "[]", OF _ o(3) assms(2)])
      (use o(1,2) assms(3) in \<open>blast, simp_all\<close>)
  have a: "Q t st (w' t)" if "(t, st) \<in> set log" for t st using R that by blast
  have m: "fst ` set log = {..<n}" using R o(2) by (metis list.set_map)
  have l: "\<exists>st. (t, st) \<in> set log" if "t < n" for t
  proof -
    have "t \<in> fst ` set log" using that m by simp
    then show ?thesis by force
  qed
  show thesis
  proof (rule that [OF o(1,2)])
    show "J order x' w'" using R by simp
    show "Status = STATUS_SUCCESS \<longrightarrow> (\<forall>t<n. Q t STATUS_SUCCESS (w' t))"
    proof (intro allI impI)
      fix t assume s: "Status = STATUS_SUCCESS" and "t < n"
      then obtain u where u: "(t, u) \<in> set log" using l by blast
      then have "u \<in> snd ` set log" by force
      then have "u = STATUS_SUCCESS" using st s by (metis (full_types))
      then show "Q t STATUS_SUCCESS (w' t)" using a [OF u] by simp
    qed
    show "Status \<noteq> STATUS_SUCCESS \<longrightarrow> (\<exists>t<n. Q t Status (w' t))"
    proof
      assume s: "Status \<noteq> STATUS_SUCCESS"
      have "Status \<in> snd ` set log" using st s by (metis (full_types))
      then obtain t where t: "(t, Status) \<in> set log" by force
      then have "t \<in> fst ` set log" by force
      then have "t < n" using m by simp
      then show "\<exists>t<n. Q t Status (w' t)" using a [OF t] by blast
    qed
  qed
qed

section \<open>One context per processor\<close>

definition hits_of :: "(nat \<Rightarrow> vcpu_context) \<Rightarrow> nat list \<Rightarrow> nat list" where
  "hits_of w ts = concat (map (\<lambda>t. taken (vx_TscHits (w t))) ts)"

lemma hits_of_append: "hits_of w (ts @ us) = hits_of w ts @ hits_of w us"
  by (simp add: hits_of_def)

lemma hits_of_cong: "\<forall>t \<in> set ts. w t = w' t \<Longrightarrow> hits_of w ts = hits_of w' ts"
  by (simp add: hits_of_def cong: map_cong)

lemma set_hits_of: "set (hits_of w ts) = (\<Union>t \<in> set ts. set (taken (vx_TscHits (w t))))"
  by (simp add: hits_of_def)

lemma distinct_hits_of:
  "distinct ts \<Longrightarrow> distinct us \<Longrightarrow> set us \<subseteq> set ts \<Longrightarrow> distinct (hits_of w ts) \<Longrightarrow> distinct (hits_of w us)"
proof (induction us)
  case (Cons u us)
  have "set (taken (vx_TscHits (w u))) \<inter> set (taken (vx_TscHits (w v))) = {}" if "v \<in> set us" for v
  proof -
    have v: "v \<in> set ts" "u \<in> set ts" "u \<noteq> v" using that Cons.prems(2,3) by auto
    obtain as bs where a: "ts = as @ u # bs" using v(2) by (meson split_list)
    then have "v \<in> set as \<or> v \<in> set bs" using v by auto
    then show ?thesis using Cons.prems(4) by (auto simp: a hits_of_append hits_of_def)
  qed
  moreover have "distinct (hits_of w us)" by (rule Cons.IH) (use Cons.prems in auto)
  moreover have "distinct (taken r)" for r by (cases r) simp_all
  ultimately show ?case by (auto simp: hits_of_def)
qed (simp add: hits_of_def)

lemma init_vcpu_context_takes:
  assumes "mem_inv m U" "env_ok e"
  obtains ok C m' where "InitializeVcpuContext e m = Some (ok, C, m')" "takes m U (taken (vx_TscHits C)) m'"
    "ok \<longleftrightarrow> vx_TscHits C \<noteq> None" "vx_TscOffset C = 0"
proof -
  let ?n = "ce_sizeof_tsc_entry e * MAX_TSC_HITS"
  have n: "?n mod 2 ^ 32 = ?n" using assms(2) by (simp add: env_ok_def)
  obtain r m1 where a: "MemAlloc m ?n = Some (r, m1)" "takes m U (taken r) m1" "\<forall>p. r = Some p \<longrightarrow> ?n \<le> mem_extent m1 p"
    by (rule plain_takes [OF assms(1)])
  show thesis
  proof (cases r)
    case None
    then show ?thesis using a n by (intro that [of False "\<lparr>vx_TscHits = None, vx_TscOffset = 0\<rparr>" m1])
        (simp_all add: InitializeVcpuContext_def Let_def)
  next
    case (Some p)
    have "takes m U [p] (mem_write (p + 0) (replicate ?n 0) m1)"
      by (rule takes_write) (use a Some in simp_all)
    then show ?thesis using a n Some
      by (intro that [of True "\<lparr>vx_TscHits = Some p, vx_TscOffset = 0\<rparr>" "mem_write p (replicate ?n 0) m1"])
        (simp_all add: InitializeVcpuContext_def Let_def)
  qed
qed

lemma init_contexts_result:
  assumes "smp_returns (per_cpu (InitVcpuContextPerCpu e)) n (Some m, \<lambda>_. zero_vcpu_context) Status (x, w)"
    "mem_inv m U" "env_ok e"
  obtains m' where "x = Some m'" "takes m U (hits_of w [0..<n]) m'"
    "Status = STATUS_SUCCESS \<and> (\<forall>t<n. vx_TscHits (w t) \<noteq> None) \<or> \<not> NT_SUCCESS Status"
proof -
  define J where "J ds x w \<longleftrightarrow> (\<exists>m'. x = Some m' \<and> takes m U (hits_of w ds) m')"
    for ds and x :: "mem_state option" and w
  define Q where "Q (t :: nat) st C \<longleftrightarrow> (if st = STATUS_SUCCESS then vx_TscHits C \<noteq> None else \<not> NT_SUCCESS st)"
    for t st and C :: vcpu_context
  have 0: "J [] (Some m) (\<lambda>_. zero_vcpu_context)" using takes_refl [OF assms(2)] by (simp add: J_def hits_of_def)
  have s: "J (ds @ [t]) x' (w(t := c)) \<and> Q t st c"
    if "J ds x w" "t \<in> {..<n}" "t \<notin> set ds" "InitVcpuContextPerCpu e t x (w t) = (st, x', c)" for ds t x w st x' c
  proof -
    note j = that(1)
    obtain m1 where m1: "x = Some m1" "takes m U (hits_of w ds) m1" using j by (auto simp: J_def)
    obtain ok C m2 where i: "InitializeVcpuContext e m1 = Some (ok, C, m2)"
      "takes m1 (U \<union> set (hits_of w ds)) (taken (vx_TscHits C)) m2" "ok \<longleftrightarrow> vx_TscHits C \<noteq> None"
      by (rule init_vcpu_context_takes [OF takesD(1) [OF m1(2)] assms(3)])
    have e: "x' = Some m2" "c = C" "st = (if ok then STATUS_SUCCESS else STATUS_UNSUCCESSFUL)"
      using that(4) m1(1) i(1) by (simp_all add: InitVcpuContextPerCpu_def)
    have "hits_of (w(t := c)) ds = hits_of w ds" by (rule hits_of_cong) (use that(3) in auto)
    then have "hits_of (w(t := c)) (ds @ [t]) = hits_of w ds @ taken (vx_TscHits C)"
      unfolding hits_of_append by (simp add: hits_of_def e(2))
    then have "J (ds @ [t]) x' (w(t := c))" using takes_trans [OF m1(2) i(2)] e(1) by (simp add: J_def)
    then show ?thesis using i(3) e by (simp add: Q_def)
  qed
  have s': "\<forall>ds t x w st x' c. J ds x w \<longrightarrow> t \<in> {..<n} \<longrightarrow> t \<notin> set ds \<longrightarrow> InitVcpuContextPerCpu e t x (w t) = (st, x', c) \<longrightarrow>
      J (ds @ [t]) x' (w(t := c)) \<and> Q t st c"
    by (intro allI impI) (rule s)
  obtain order where o: "distinct order" "set order = {..<n}" "J order x w"
    "Status = STATUS_SUCCESS \<longrightarrow> (\<forall>t<n. Q t STATUS_SUCCESS (w t))" "Status \<noteq> STATUS_SUCCESS \<longrightarrow> (\<exists>t<n. Q t Status (w t))"
    by (rule smp_returns_inv [where J = J and Q = Q, OF assms(1) 0 s'])
  obtain m' where m': "x = Some m'" "takes m U (hits_of w order) m'" using o(3) by (auto simp: J_def)
  have "takes m U (hits_of w [0..<n]) m'"
  proof (rule takes_permuted [OF m'(2)])
    show "distinct (hits_of w [0..<n])" by (rule distinct_hits_of [OF o(1) _ _ takesD(2) [OF m'(2)]]) (simp_all add: o(2) atLeast0LessThan)
    show "set (hits_of w [0..<n]) = set (hits_of w order)" by (simp add: set_hits_of o(2) atLeast0LessThan)
  qed
  moreover have "Status = STATUS_SUCCESS \<and> (\<forall>t<n. vx_TscHits (w t) \<noteq> None) \<or> \<not> NT_SUCCESS Status"
    using o(4,5) by (auto simp: Q_def)
  ultimately show thesis by (rule that [OF m'(1)])
qed

lemma reset_contexts_result:
  assumes "smp_returns (per_cpu ResetVcpuContextPerCpu) n (Some m, w) Status (x, w')"
    "mem_inv m (U \<union> set (hits_of w [0..<n]))" "distinct (hits_of w [0..<n])" "set (hits_of w [0..<n]) \<inter> U = {}"
  obtains m' where "x = Some m'" "gives m (hits_of w [0..<n]) U m'"
proof -
  define rest where "rest ds = filter (\<lambda>t. t \<notin> set ds) [0..<n]" for ds
  define J where "J ds x w' \<longleftrightarrow> (\<exists>m'. x = Some m' \<and> gives m [] (U \<union> set (hits_of w (rest ds))) m' \<and> (\<forall>t. t \<notin> set ds \<longrightarrow> w' t = w t))"
    for ds and x :: "mem_state option" and w'
  have 0: "J [] (Some m) w" using assms(2) by (simp add: J_def gives_def rest_def)
  have s: "J (ds @ [t]) x' (v(t := c)) \<and> True"
    if "J ds x v" "t \<in> {..<n}" "t \<notin> set ds" "ResetVcpuContextPerCpu t x (v t) = (st, x', c)" for ds t x v st x' c
  proof -
    note j = that(1)
    obtain m1 where m1: "x = Some m1" "gives m [] (U \<union> set (hits_of w (rest ds))) m1" "\<forall>t. t \<notin> set ds \<longrightarrow> v t = w t"
      using j by (auto simp: J_def)
    let ?p = "taken (vx_TscHits (w t))"
    have d: "distinct (hits_of w (t # rest (ds @ [t])))"
      by (rule distinct_hits_of [OF _ _ _ assms(3)]) (use that(2) in \<open>auto simp: rest_def\<close>)
    have sub: "set (hits_of w (rest ds)) \<subseteq> set (hits_of w [0..<n])" by (auto simp: set_hits_of rest_def)
    have set: "set (hits_of w (rest ds)) = set (hits_of w (rest (ds @ [t]))) \<union> set ?p"
      using that(2,3) by (auto simp: set_hits_of rest_def)
    have f: "mem_inv m1 ((U \<union> set (hits_of w (rest (ds @ [t])))) \<union> set ?p)"
      using m1(2) unfolding set by (simp add: gives_def Un_assoc)
    have dis: "set ?p \<inter> (U \<union> set (hits_of w (rest (ds @ [t])))) = {}" "distinct ?p"
      using d sub assms(4) unfolding set by (auto simp: hits_of_def)
    obtain m2 where m2: "free_all ?p m1 = Some m2" "gives m1 ?p (U \<union> set (hits_of w (rest (ds @ [t])))) m2"
      using free_all_gives [OF f dis(2,1)] by blast
    have "gives m [] (U \<union> set (hits_of w (rest (ds @ [t])))) m2"
      using m1(2) m2(2) unfolding set gives_def by auto
    moreover have "x' = Some m2"
      using that(4) m1(1,3) that(3) m2(1) by (simp add: ResetVcpuContextPerCpu_def ResetVcpuContext_def free_if_all)
    ultimately show ?thesis using m1(3) by (simp add: J_def)
  qed
  have s': "\<forall>ds t x v st x' c. J ds x v \<longrightarrow> t \<in> {..<n} \<longrightarrow> t \<notin> set ds \<longrightarrow> ResetVcpuContextPerCpu t x (v t) = (st, x', c) \<longrightarrow>
      J (ds @ [t]) x' (v(t := c)) \<and> True"
    by (intro allI impI) (rule s)
  obtain order where o: "distinct order" "set order = {..<n}" "J order x w'"
    by (rule smp_returns_inv [where J = J and Q = "\<lambda>_ _ _. True", OF assms(1) 0 s'])
  have "rest order = []" using o(2) by (auto simp: rest_def filter_empty_conv)
  then obtain m' where "x = Some m'" "gives m [] U m'" using o(3) by (auto simp: J_def hits_of_def)
  then show thesis using that by (simp add: gives_def)
qed

section \<open>What the contexts own\<close>

definition owned_context :: "ds_globals \<Rightarrow> nat list" where
  "owned_context g = (case gHvmContext g of None \<Rightarrow> [] | Some (p, C) \<Rightarrow> taken (hcs_MsrBitmap C) @ [p])"

definition owned_contexts :: "nat \<Rightarrow> ds_globals \<Rightarrow> nat list" where
  "owned_contexts n g = (case gVcpuContexts g of None \<Rightarrow> [] | Some (p, w) \<Rightarrow> hits_of w [0..<n] @ [p]) @ owned_context g"

lemma gives_split:
  assumes "mem_inv m (U \<union> set (ps @ qs))" "distinct (ps @ qs)" "set (ps @ qs) \<inter> U = {}"
  shows "mem_inv m ((U \<union> set qs) \<union> set ps)" "distinct ps" "set ps \<inter> (U \<union> set qs) = {}" "distinct qs" "set qs \<inter> U = {}"
proof -
  have "U \<union> set (ps @ qs) = (U \<union> set qs) \<union> set ps" by auto
  then show "mem_inv m ((U \<union> set qs) \<union> set ps)" using assms(1) by simp
qed (use assms(2,3) in auto)

lemma delete_context_result:
  assumes "ds_mem g = Some m" "mem_inv m (U \<union> set (owned_context g))" "distinct (owned_context g)" "set (owned_context g) \<inter> U = {}"
  shows "\<exists>m'. delete_hvm_context g = g\<lparr>gHvmContext := None, ds_mem := Some m'\<rparr> \<and> gives m (owned_context g) U m'"
proof (cases "gHvmContext g")
  case None
  then have "delete_hvm_context g = g\<lparr>gHvmContext := None, ds_mem := Some m\<rparr>" using assms(1) by (simp add: delete_hvm_context_def)
  then show ?thesis using None assms(2) by (intro exI [of _ m]) (simp add: gives_def owned_context_def)
next
  case (Some pC)
  obtain p C where C: "gHvmContext g = Some (p, C)" using Some by (cases pC) simp
  obtain m' where m': "free_all (owned_context g) m = Some m'" "gives m (owned_context g) U m'"
    using free_all_gives [OF assms(2-4)] by blast
  have "delete_hvm_context g = g\<lparr>gHvmContext := None, ds_mem := Some m'\<rparr>"
    using m'(1) assms(1) C
    by (auto simp: delete_hvm_context_def ResetHvmContext_def free_if_all owned_context_def free_all_append split: Option.bind_splits)
  then show ?thesis using m'(2) by blast
qed

lemma delete_contexts_result:
  assumes "DsDeleteHvmContexts e g g'" "ds_mem g = Some m" "mem_inv m (U \<union> set (owned_contexts (ce_count e) g))"
    "distinct (owned_contexts (ce_count e) g)" "set (owned_contexts (ce_count e) g) \<inter> U = {}"
  obtains m' where "g' = g\<lparr>ds_mem := Some m', gHvmContext := None, gVcpuContexts := None\<rparr>"
    "gives m (owned_contexts (ce_count e) g) U m'"
proof (cases "gVcpuContexts g")
  case None
  then have o: "owned_contexts (ce_count e) g = owned_context g" by (simp add: owned_contexts_def)
  obtain m' where m': "delete_hvm_context g = g\<lparr>gHvmContext := None, ds_mem := Some m'\<rparr>" "gives m (owned_context g) U m'"
    using delete_context_result [OF assms(2)] assms(3-5) o by auto
  then show ?thesis using assms(1) None o by (intro that [of m']) (auto simp: DsDeleteHvmContexts_def)
next
  case (Some pw)
  obtain p w where g: "gVcpuContexts g = Some (p, w)" using Some by (cases pw) simp
  let ?H = "hits_of w [0..<ce_count e]"
  have o: "owned_contexts (ce_count e) g = ?H @ (p # owned_context g)" using g by (simp add: owned_contexts_def)
  note S = gives_split [where ps = ?H and qs = "p # owned_context g", OF assms(3-5) [unfolded o]]
  obtain St x w' where r: "smp_returns (per_cpu ResetVcpuContextPerCpu) (ce_count e) (Some m, w) St (x, w')"
    "g' = delete_hvm_context (g\<lparr>gVcpuContexts := None, ds_mem := Option.bind x (\<lambda>m. MemFree m p)\<rparr>)"
    using assms(1,2) g by (auto simp: DsDeleteHvmContexts_def)
  obtain m1 where m1: "x = Some m1" "gives m ?H (U \<union> set (p # owned_context g)) m1"
    by (rule reset_contexts_result [OF r(1) S(1-3)])
  have i1: "mem_inv m1 ((U \<union> set (owned_context g)) \<union> set [p])" using m1(2) by (simp add: gives_def)
  have d1: "set [p] \<inter> (U \<union> set (owned_context g)) = {}" using S(4,5) by auto
  obtain m2 where m2: "free_all [p] m1 = Some m2" "gives m1 [p] (U \<union> set (owned_context g)) m2"
    using free_all_gives [OF i1 _ d1] by auto
  let ?g = "g\<lparr>gVcpuContexts := None, ds_mem := Some m2\<rparr>"
  have F: "MemFree m1 p = Some m2" using m2(1) by (auto split: Option.bind_splits)
  have oc: "owned_context ?g = owned_context g" by (simp add: owned_context_def)
  have "mem_inv m2 (U \<union> set (owned_context ?g))" "distinct (owned_context ?g)" "set (owned_context ?g) \<inter> U = {}"
    using m2(2) S(4,5) by (auto simp: gives_def oc)
  from delete_context_result [OF _ this] obtain m3 where
    m3: "delete_hvm_context ?g = ?g\<lparr>gHvmContext := None, ds_mem := Some m3\<rparr>" "gives m2 (owned_context g) U m3"
    by (auto simp: oc)
  have G: "g' = g\<lparr>ds_mem := Some m3, gHvmContext := None, gVcpuContexts := None\<rparr>"
    using r(2) m1(1) F m3(1) by simp
  have "gives m (owned_contexts (ce_count e) g) U m3" using m1(2) m2(2) m3(2) by (auto simp: gives_def)
  then show ?thesis using that G by blast
qed

lemma delete_contexts_exists: "\<exists>g'. DsDeleteHvmContexts e g g'"
proof (cases "gVcpuContexts g")
  case (Some pw)
  obtain p w where g: "gVcpuContexts g = Some (p, w)" using Some by (cases pw) simp
  obtain St x where "smp_returns (per_cpu ResetVcpuContextPerCpu) (ce_count e) (ds_mem g, w) St x"
    using smp_returns_exists [of "per_cpu ResetVcpuContextPerCpu" "ce_count e" "(ds_mem g, w)"] by blast
  then show ?thesis using g by (cases x) (auto simp: DsDeleteHvmContexts_def)
qed (simp add: DsDeleteHvmContexts_def)

section \<open>Initialising the contexts\<close>

text \<open>The contexts that belong to the driver's state, all there.\<close>

definition contexts_ok :: "create_env \<Rightarrow> ds_globals \<Rightarrow> mem_state \<Rightarrow> bool" where
  "contexts_ok e g m \<longleftrightarrow> (\<exists>p C A w b. gHvmContext g = Some (p, C) \<and> gVcpuContexts g = Some (A, w) \<and>
     hcs_SystemCr3 C = ce_system_cr3 e \<and> hcs_MsrBitmap C = Some b \<and> 4096 dvd b \<and> holds m b 0 (replicate 4096 0) \<and>
     (\<forall>t < ce_count e. vx_TscHits (w t) \<noteq> None))"

lemma hvm_context_takes:
  assumes "mem_inv m U"
  obtains ok C m' where "InitializeHvmContext e m = Some (ok, C, m')" "takes m U (taken (hcs_MsrBitmap C)) m'"
    "ok \<longleftrightarrow> hcs_MsrBitmap C \<noteq> None" "hcs_SystemCr3 C = ce_system_cr3 e"
    "\<forall>b. hcs_MsrBitmap C = Some b \<longrightarrow> 4096 dvd b \<and> holds m' b 0 (replicate 4096 0)"
proof -
  obtain r m1 where a: "MemAllocAligned m 4096 4096 = Some (r, m1)" "takes m U (taken r) m1"
    "\<forall>p. r = Some p \<longrightarrow> 4096 \<le> mem_extent m1 p \<and> unat (4096 :: u32) dvd p"
    by (rule aligned_takes [OF assms, of 4096 4096]) simp
  show thesis
  proof (cases r)
    case None
    then show ?thesis using a by (intro that [of False "\<lparr>hcs_SystemCr3 = ce_system_cr3 e, hcs_MsrBitmap = None\<rparr>" m1])
        (simp_all add: InitializeHvmContext_def Let_def)
  next
    case (Some p)
    let ?m = "mem_write (p + 0) (replicate 4096 (0 :: u8)) m1"
    have t: "takes m U [p] m1" "4096 \<le> mem_extent m1 p" "4096 dvd p" using a Some by simp_all
    have "takes m U [p] ?m" by (rule takes_write) (use t in simp_all)
    moreover have "holds ?m p 0 (replicate 4096 0)" by (rule holds_write [OF takesD(1) [OF t(1)]]) (use t in simp_all)
    ultimately show ?thesis using a(1) t(3) Some
      by (intro that [of True "\<lparr>hcs_SystemCr3 = ce_system_cr3 e, hcs_MsrBitmap = Some p\<rparr>" ?m])
        (simp_all add: InitializeHvmContext_def Let_def)
  qed
qed

lemma set_contexts_sel:
  "hs_self (set_vcpu_contexts e A i k Hvm) = hs_self Hvm" "hs_VcpuArray (set_vcpu_contexts e A i k Hvm) = hs_VcpuArray Hvm"
  "hs_HvmContext (set_vcpu_contexts e A i k Hvm) = hs_HvmContext Hvm" "hs_VmState (set_vcpu_contexts e A i k Hvm) = hs_VmState Hvm"
  "hs_Launched (set_vcpu_contexts e A i k Hvm) = hs_Launched Hvm"
  by (induction k arbitrary: i Hvm) (simp_all add: HvmSetVcpuContext_def)

lemma set_contexts_vcpus:
  "i + k \<le> List.length (hs_Vcpus Hvm) \<Longrightarrow> hs_Vcpus (set_vcpu_contexts e A i k Hvm) =
     map (\<lambda>j. if i \<le> j \<and> j < i + k then (hs_Vcpus Hvm ! j)\<lparr>vc_Context := Some (A + j * ce_sizeof_vcpu_context e)\<rparr> else hs_Vcpus Hvm ! j)
       [0..<List.length (hs_Vcpus Hvm)]"
proof (induction k arbitrary: i Hvm)
  case 0
  then show ?case by (auto intro!: nth_equalityI)
next
  case (Suc k)
  let ?H = "HvmSetVcpuContext i (A + i * ce_sizeof_vcpu_context e) Hvm"
  have l: "List.length (hs_Vcpus ?H) = List.length (hs_Vcpus Hvm)" by (simp add: HvmSetVcpuContext_def)
  have "i + 1 + k \<le> List.length (hs_Vcpus ?H)" using Suc.prems l by simp
  from Suc.IH [OF this] show ?case using Suc.prems l
    by (auto simp: HvmSetVcpuContext_def nth_list_update intro!: nth_equalityI)
qed

lemma owned_with_context: "owned_vcpu (v\<lparr>vc_Context := c\<rparr>) = owned_vcpu v"
  "vcpu_ok e pages self i (v\<lparr>vc_Context := c\<rparr>) m = vcpu_ok e pages self i v m"
  by (simp_all add: owned_vcpu_def vcpu_ok_def)

lemma owned_vcpus_cong: "\<forall>v \<in> set vs. owned_vcpu (f v) = owned_vcpu v \<Longrightarrow> owned_vcpus (map f vs) = owned_vcpus vs"
  by (induction vs) (simp_all add: owned_vcpus_def)

lemma set_contexts_ok:
  assumes "hvm_ok e pages Hvm m"
  shows "hvm_ok e pages (set_vcpu_contexts e A 0 (ce_count e) Hvm) m"
    "owned_hvm (set_vcpu_contexts e A 0 (ce_count e) Hvm) = owned_hvm Hvm"
    "\<forall>t < ce_count e. vc_Context (hs_Vcpus (set_vcpu_contexts e A 0 (ce_count e) Hvm) ! t) = Some (A + t * ce_sizeof_vcpu_context e)"
proof -
  have l: "List.length (hs_Vcpus Hvm) = ce_count e" using assms by (simp add: hvm_ok_def)
  have v: "hs_Vcpus (set_vcpu_contexts e A 0 (ce_count e) Hvm) =
      map (\<lambda>j. (hs_Vcpus Hvm ! j)\<lparr>vc_Context := Some (A + j * ce_sizeof_vcpu_context e)\<rparr>) [0..<ce_count e]"
    using set_contexts_vcpus [of 0 "ce_count e" Hvm] by (simp add: l)
  show "hvm_ok e pages (set_vcpu_contexts e A 0 (ce_count e) Hvm) m"
    using assms by (simp add: hvm_ok_def set_contexts_sel v owned_with_context)
  have "owned_vcpus (map (\<lambda>j. (hs_Vcpus Hvm ! j)\<lparr>vc_Context := Some (A + j * ce_sizeof_vcpu_context e)\<rparr>) [0..<ce_count e]) =
      owned_vcpus (map (\<lambda>j. hs_Vcpus Hvm ! j) [0..<ce_count e])"
    by (simp add: owned_vcpus_def owned_with_context comp_def)
  then show "owned_hvm (set_vcpu_contexts e A 0 (ce_count e) Hvm) = owned_hvm Hvm"
    using l map_nth [of "hs_Vcpus Hvm"] by (simp add: owned_hvm_def set_contexts_sel v)
  show "\<forall>t < ce_count e. vc_Context (hs_Vcpus (set_vcpu_contexts e A 0 (ce_count e) Hvm) ! t) = Some (A + t * ce_sizeof_vcpu_context e)"
    by (simp add: v)
qed

lemma hvm_ok_context: "hvm_ok e pages (HvmSetHvmContext p Hvm) m = hvm_ok e pages Hvm m"
  "owned_hvm (HvmSetHvmContext p Hvm) = owned_hvm Hvm" "hs_VcpuArray (HvmSetHvmContext p Hvm) = hs_VcpuArray Hvm"
  by (simp_all add: hvm_ok_def HvmSetHvmContext_def owned_hvm_def)

lemma hvm_ok_takes:
  assumes "hvm_ok e pages Hvm m" "takes m U ps m'" "set (owned_hvm Hvm) \<subseteq> U"
  shows "hvm_ok e pages Hvm m'"
proof -
  have l: "List.length (hs_Vcpus Hvm) = ce_count e" using assms by (simp add: hvm_ok_def)
  have s: "hs_self Hvm \<in> U" "\<And>A. hs_VcpuArray Hvm = Some A \<Longrightarrow> A \<in> U" using assms(3) by (auto simp: owned_hvm_def)
  have v: "set (owned_vcpu (hs_Vcpus Hvm ! t)) \<subseteq> U" if "t < ce_count e" for t
  proof -
    have "hs_Vcpus Hvm ! t \<in> set (hs_Vcpus Hvm)" using that l by simp
    then show ?thesis using assms(3) by (fastforce simp: owned_hvm_def owned_vcpus_def)
  qed
  have x: "mem_extent m p \<le> mem_extent m' p" if "p \<in> U" for p using takesD(4) [OF assms(2)] that by simp
  show ?thesis using assms(1) s x v vcpu_ok_takes [OF _ assms(2)] unfolding hvm_ok_def
    by (auto intro: order_trans [OF _ x])
qed

lemma array_takes:
  assumes "mem_inv m U" "k * n < 2 ^ 32"
  obtains r m' where "MemAllocArray m k n = Some (r, m')" "takes m U (taken r) m'" "\<forall>p. r = Some p \<longrightarrow> k * n \<le> mem_extent m' p"
proof -
  have N: "(k * n) mod 2 ^ 32 = k * n" using assms(2) by simp
  obtain h where h: "gHeap m = Some h" using assms(1) by (auto simp: mem_inv_def)
  obtain r m1 where a: "MemAlloc m (k * n) = Some (r, m1)" "takes m U (taken r) m1" "\<forall>p. r = Some p \<longrightarrow> k * n \<le> mem_extent m1 p"
    by (rule plain_takes [OF assms(1)])
  then obtain g where g: "HeapAlloc h (k * n) = Some (r, g)" "m1 = m\<lparr>gHeap := Some g\<rparr>"
    using h by (auto simp: MemAlloc_def)
  show thesis
  proof (cases r)
    case None
    then show ?thesis using a g h N by (intro that [of None m1]) (simp_all add: MemAllocArray_def HeapAllocArray_def)
  next
    case (Some p)
    let ?m = "mem_write (p + 0) (replicate (k * n) 0) m1"
    have t: "takes m U [p] m1" "k * n \<le> mem_extent m1 p" using a Some by simp_all
    have "p \<in> U \<union> set [p]" by simp
    then have "hp_memory g \<le> p" using takesD(1) [OF t(1)] heap_inv_inside(1) g(2) by (fastforce simp: mem_inv_def)
    then have "zero_data g (p - hp_memory g) (k * n) = the (gHeap ?m)"
      by (simp add: zero_data_def mem_write_def g(2)) (rule arg_cong [where f = "\<lambda>d. g\<lparr>hp_data := d\<rparr>"], auto simp: fun_eq_iff)
    then have z: "m\<lparr>gHeap := Some (zero_data g (p - hp_memory g) (k * n))\<rparr> = ?m" by (simp add: mem_write_def g(2))
    have "takes m U [p] ?m" by (rule takes_write) (use t in simp_all)
    then show ?thesis using g h N Some z t(2) mem_write_sel(2) [OF takesD(1) [OF t(1)]]
      by (intro that [of "Some p" ?m]) (simp_all add: MemAllocArray_def HeapAllocArray_def)
  qed
qed

text \<open>A failure gives everything back; what \<open>Hvm\<close> owns and its parts do not change.\<close>

definition no_contexts :: "ds_globals \<Rightarrow> bool" where
  "no_contexts g \<longleftrightarrow> gHvmContext g = None \<and> gVcpuContexts g = None"

lemma failed_contexts:
  assumes "DsDeleteHvmContexts e g g'" "ds_mem g = Some m1" "takes m U (owned_contexts (ce_count e) g) m1"
  shows "\<exists>m'. ds_mem g' = Some m' \<and> takes m U [] m' \<and> no_contexts g' \<and> gHvm g' = gHvm g"
proof -
  note T = takesD [OF assms(3)]
  obtain m' where "g' = g\<lparr>ds_mem := Some m', gHvmContext := None, gVcpuContexts := None\<rparr>"
    "gives m1 (owned_contexts (ce_count e) g) U m'"
    by (rule delete_contexts_result [OF assms(1,2) T(1-3)])
  then show ?thesis using takes_gives [OF assms(3)] by (auto simp: no_contexts_def)
qed

lemma initialize_contexts_result:
  assumes "DsInitializeHvmContexts e Hvm g Status Hvm' g'" "ds_mem g = Some m" "no_contexts g" "mem_inv m U" "env_ok e"
    "hvm_ok e pages Hvm m" "set (owned_hvm Hvm) \<subseteq> U"
  shows "\<exists>m'. ds_mem g' = Some m' \<and> gHvm g' = gHvm g \<and> owned_hvm Hvm' = owned_hvm Hvm \<and> hs_VcpuArray Hvm' = hs_VcpuArray Hvm \<and>
    (if Status = STATUS_SUCCESS
     then takes m U (owned_contexts (ce_count e) g') m' \<and> contexts_ok e g' m' \<and> hvm_ok e pages Hvm' m'
     else Status = STATUS_UNSUCCESSFUL \<and> takes m U [] m' \<and> no_contexts g')"
proof -
  let ?n = "ce_count e"
  have n: "?n * ce_sizeof_vcpu_context e < 2 ^ 32" using assms(5) by (simp add: env_ok_def)
  have nc: "gVcpuContexts g = None" "gHvmContext g = None" using assms(3) by (simp_all add: no_contexts_def)
  obtain r m1 where a: "MemAlloc m (ce_sizeof_hvm_context e) = Some (r, m1)" "takes m U (taken r) m1"
    by (rule plain_takes [OF assms(4)])
  show ?thesis
  proof (cases r)
    case None
    then have d: "Status = STATUS_UNSUCCESSFUL" "Hvm' = Hvm" "DsDeleteHvmContexts e (g\<lparr>ds_mem := Some m1, gHvmContext := None\<rparr>) g'"
      using assms(1,2) a(1) by (simp_all add: DsInitializeHvmContexts_def)
    show ?thesis using failed_contexts [OF d(3), of m1 m U] a(2) None d(1,2) nc by (auto simp: owned_contexts_def owned_context_def)
  next
    case (Some p)
    have t1: "takes m U [p] m1" using a(2) Some by simp
    obtain ok C m2 where i: "InitializeHvmContext e m1 = Some (ok, C, m2)" "takes m1 (U \<union> set [p]) (taken (hcs_MsrBitmap C)) m2"
      "ok \<longleftrightarrow> hcs_MsrBitmap C \<noteq> None" "hcs_SystemCr3 C = ce_system_cr3 e"
      "\<forall>b. hcs_MsrBitmap C = Some b \<longrightarrow> 4096 dvd b \<and> holds m2 b 0 (replicate 4096 0)"
      by (rule hvm_context_takes [OF takesD(1) [OF t1]])
    let ?g = "g\<lparr>ds_mem := Some m2, gHvmContext := Some (p, C)\<rparr>"
    note t2 = takes_trans [OF t1 i(2)]
    have t2': "takes m U (taken (hcs_MsrBitmap C) @ [p]) m2" by (rule takes_permuted [OF t2]) (use takesD(2) [OF t2] in auto)
    show ?thesis
    proof (cases ok)
      case False
      then have d: "Status = STATUS_UNSUCCESSFUL" "Hvm' = Hvm" "DsDeleteHvmContexts e ?g g'"
        using assms(1,2) a(1) Some i(1) by (simp_all add: DsInitializeHvmContexts_def)
      show ?thesis using failed_contexts [OF d(3), of m2 m U] t2' d(1,2) nc by (auto simp: owned_contexts_def owned_context_def)
    next
      case True
      obtain b where b: "hcs_MsrBitmap C = Some b" "4096 dvd b" "holds m2 b 0 (replicate 4096 0)" using i(3,5) True by auto
      let ?H = "HvmSetHvmContext p Hvm"
      obtain ok1 g1 where c: "init_vcpu_contexts e ?H ?g ok1 Hvm' g1"
        "if ok1 then Status = STATUS_SUCCESS \<and> g' = g1 else Status = STATUS_UNSUCCESSFUL \<and> DsDeleteHvmContexts e g1 g'"
        using assms(1,2) a(1) Some i(1) True by (auto simp: DsInitializeHvmContexts_def)
      have t2b: "takes m U [b, p] m2" using t2' b(1) by simp
      obtain r3 m3 where q: "MemAllocArray m2 ?n (ce_sizeof_vcpu_context e) = Some (r3, m3)"
        "takes m2 (U \<union> set [b, p]) (taken r3) m3"
        by (rule array_takes [OF takesD(1) [OF t2b] n])
      note t3 = takes_trans [OF t2b q(2)]
      show ?thesis
      proof (cases r3)
        case None
        then have d: "\<not> ok1" "Hvm' = ?H" "g1 = ?g\<lparr>ds_mem := Some m3, gVcpuContexts := None\<rparr>"
          using c(1) q(1) by (simp_all add: init_vcpu_contexts_def)
        have D: "Status = STATUS_UNSUCCESSFUL" "DsDeleteHvmContexts e g1 g'" using c(2) d(1) by simp_all
        show ?thesis using failed_contexts [OF D(2), of m3 m U] t3 None b(1) D(1)
          by (auto simp: d(2,3) owned_contexts_def owned_context_def hvm_ok_context)
      next
        case (Some A)
        obtain St x w where s: "smp_returns (per_cpu (InitVcpuContextPerCpu e)) ?n (Some m3, \<lambda>_. zero_vcpu_context) St (x, w)"
          "g1 = ?g\<lparr>ds_mem := x, gVcpuContexts := Some (A, w)\<rparr>" "ok1 = NT_SUCCESS St"
          "Hvm' = (if ok1 then set_vcpu_contexts e A 0 ?n ?H else ?H)"
          using c(1) q(1) Some by (auto simp: init_vcpu_contexts_def)
        have t3': "takes m U [b, p, A] m3" using t3 Some by simp
        obtain m4 where m4: "x = Some m4" "takes m3 (U \<union> set [b, p, A]) (hits_of w [0..<?n]) m4"
          "St = STATUS_SUCCESS \<and> (\<forall>t<?n. vx_TscHits (w t) \<noteq> None) \<or> \<not> NT_SUCCESS St"
          by (rule init_contexts_result [OF s(1) takesD(1) [OF t3'] assms(5)])
        note t4 = takes_trans [OF t3' m4(2)]
        have o: "owned_contexts ?n g1 = hits_of w [0..<?n] @ [A, b, p]"
          by (simp add: s(2) owned_contexts_def owned_context_def b(1))
        have t5: "takes m U (owned_contexts ?n g1) m4" unfolding o
          by (rule takes_permuted [OF t4]) (use takesD(2) [OF t4] in auto)
        have keep: "owned_hvm Hvm' = owned_hvm Hvm" "hs_VcpuArray Hvm' = hs_VcpuArray Hvm"
          using set_contexts_ok(2) [of e pages ?H m A] assms(6)
          by (simp_all add: s(4) hvm_ok_context set_contexts_sel)
        show ?thesis
        proof (cases ok1)
          case False
          then have D: "Status = STATUS_UNSUCCESSFUL" "DsDeleteHvmContexts e g1 g'" using c(2) by simp_all
          have "ds_mem g1 = Some m4" "gHvm g1 = gHvm g" by (simp_all add: s(2) m4(1))
          then show ?thesis using failed_contexts [OF D(2) _ t5] D(1) keep by auto
        next
          case True
          then have G: "g' = g1" "Status = STATUS_SUCCESS" "\<forall>t<?n. vx_TscHits (w t) \<noteq> None"
            using c(2) m4(3) s(3) by auto
          have "holds m4 b 0 (replicate 4096 0)"
            using holds_takes [OF m4(2), of b] holds_takes [OF q(2), of b] b(3) by simp
          then have "contexts_ok e g' m4" using G(1,3) b(1,2) i(4) by (simp add: contexts_ok_def s(2))
          moreover have "hvm_ok e pages Hvm' m4"
            using hvm_ok_takes [OF _ t5 assms(7)] set_contexts_ok(1) [of e pages ?H m4 A] assms(6) True s(4) by (simp add: hvm_ok_context)
          ultimately show ?thesis using G keep t5 m4(1) by (auto simp: s(2))
        qed
      qed
    qed
  qed
qed

end
