(* ===== verification/Hvm_Load.thy ===== *)
theory Hvm_Load
  imports Hvm_Contexts
begin

text \<open>
  Loading and unloading the hypervisor (\<open>dshvm.c\<close>): its structures are created, every processor
  is started, and on the way out everything is stopped and given back.
\<close>

section \<open>The operations\<close>

text \<open>
  The hypervisor that \<open>HvmStart\<close> and \<open>HvmStop\<close> work on is the driver's: its virtual
  processors, the page of its bitmap, and the processors themselves.
\<close>

definition bitmap_of :: "ds_globals \<Rightarrow> nat" where
  "bitmap_of g = the (hcs_MsrBitmap (snd (the (gHvmContext g))))"

definition hvm_view :: "create_env \<Rightarrow> ds_globals \<Rightarrow> (nat \<Rightarrow> hv_state) \<Rightarrow> hvm" where
  "hvm_view e g cpus =
     \<lparr>hm_Launched = hs_Launched (the (gHvm g)),
      hm_context = \<lparr>hx_SystemCr3 = hcs_SystemCr3 (snd (the (gHvmContext g))),
         hx_MsrBitmap = mem_bytes (the (ds_mem g)) (bitmap_of g) 4096, hx_MsrBitmapHpa = ce_pa e (bitmap_of g)\<rparr>,
      hm_cpus = (\<lambda>t. (cpus t)\<lparr>hv_vcpu := hs_Vcpus (the (gHvm g)) ! t, hv_vm := ce_vm e\<rparr>)\<rparr>"

definition hvm_store :: "create_env \<Rightarrow> hvm \<Rightarrow> ds_globals \<Rightarrow> ds_globals" where
  "hvm_store e h g =
     g\<lparr>gHvm := Some ((the (gHvm g))\<lparr>hs_Launched := hm_Launched h, hs_Vcpus := map (\<lambda>t. hv_vcpu (hm_cpus h t)) [0..<ce_count e]\<rparr>),
       ds_mem := map_option (mem_write (bitmap_of g) (hx_MsrBitmap (hm_context h))) (ds_mem g)\<rparr>"

record machine =
  mc_vmcall :: "nat \<Rightarrow> hv_state \<Rightarrow> hv_state"
  mc_vmx :: "nat \<Rightarrow> vmx_env"
  mc_env :: "nat \<Rightarrow> hv_env"

definition DsLoadHvm ::
  "create_env \<Rightarrow> machine \<Rightarrow> ntstatus \<Rightarrow> ds_globals \<times> (nat \<Rightarrow> hv_state) \<Rightarrow> ntstatus \<Rightarrow> ds_globals \<times> (nat \<Rightarrow> hv_state) \<Rightarrow> bool" where
  "DsLoadHvm e M Verify s Status s' \<longleftrightarrow>
     (case s of (g, cpus) \<Rightarrow> \<exists>St g1. DsInitializeHvm e Verify g St g1 \<and>
        (if \<not> NT_SUCCESS St then Status = St \<and> s' = (g1, cpus)
         else \<exists>h. HvmStart (mc_vmx M) (ce_count e) (hvm_view e g1 cpus) Status h \<and>
           (if NT_SUCCESS Status then s' = (hvm_store e h g1, hm_cpus h)
            else \<exists>St2 h2 St3 g2. HvmStop (mc_vmcall M) (mc_vmx M) (mc_env M) (ce_count e) h St2 h2 \<and>
              DsFinalizeHvm e (hvm_store e h2 g1) St3 g2 \<and> s' = (g2, hm_cpus h2))))"

text \<open>With no hypervisor initialised \<open>HvmStop\<close> dereferences a null pointer.\<close>

definition DsUnloadHvm ::
  "create_env \<Rightarrow> machine \<Rightarrow> ds_globals \<times> (nat \<Rightarrow> hv_state) \<Rightarrow> ntstatus \<Rightarrow> ds_globals \<times> (nat \<Rightarrow> hv_state) \<Rightarrow> bool" where
  "DsUnloadHvm e M s Status s' \<longleftrightarrow>
     (case s of (g, cpus) \<Rightarrow> DsIsHvmInitialized g \<and>
        (\<exists>h. HvmStop (mc_vmcall M) (mc_vmx M) (mc_env M) (ce_count e) (hvm_view e g cpus) Status h \<and>
          (if NT_SUCCESS Status
           then \<exists>St g2. DsFinalizeHvm e (hvm_store e h g) St g2 \<and> s' = (g2, hm_cpus h)
           else s' = (hvm_store e h g, hm_cpus h))))"

section \<open>What starting and stopping leave of a virtual processor\<close>

definition vcpu_base :: "hvm_vcpu \<Rightarrow> hvm_vcpu" where
  "vcpu_base v = v\<lparr>vc_HostState := zero_host_state, vc_Launched := False\<rparr>"

lemma vcpu_base_sel:
  assumes "vcpu_base v = vcpu_base v'"
  shows "vc_VmxOnHva v = vc_VmxOnHva v'" "vc_VmcsHva v = vc_VmcsHva v'" "vc_Stack v = vc_Stack v'" "vc_VmcsHpa v = vc_VmcsHpa v'"
    "vc_VmxOnHpa v = vc_VmxOnHpa v'" "vc_Rsp v = vc_Rsp v'" "vc_Index v = vc_Index v'" "vc_Context v = vc_Context v'"
    "owned_vcpu v = owned_vcpu v'"
  using assms by (cases v; cases v'; simp add: vcpu_base_def owned_vcpu_def)+

lemma length_policy:
  "List.length b = 4096 \<Longrightarrow> List.length (fst (VmcsSetGuestMsrExitPolicy p b c)) = 4096"
  by (simp add: VmcsSetGuestMsrExitPolicy_def Let_def VmSetMsrBitsConfig_def msr_round_def BITARRAY_SET_def BITARRAY_CLR_def
      split: option.splits)

lemma set_fields_vcpu:
  assumes "set_fields e Code Stack Flags ctx s = (ctx', s')"
  shows "hv_vcpu s' = (hv_vcpu s)\<lparr>vc_Launched := True\<rparr>"
    "List.length (hx_MsrBitmap ctx) = 4096 \<Longrightarrow> List.length (hx_MsrBitmap ctx') = 4096"
proof -
  define c3 where "c3 = VmSetPrivilegedTimeStamp (VmcsSetGuestField (hv_vm (VmcsSetControlField (VmcsSetHostField (hx_SystemCr3 ctx) s)))
    (VmcsSetControlField (VmcsSetHostField (hx_SystemCr3 ctx) s)))"
  define c5 where "c5 = snd (VmcsSetGuestMsrExitPolicy (hx_MsrBitmapHpa ctx) (hx_MsrBitmap ctx) c3)"
  define c6 where "c6 = VmcsSetCommonField (ve_exit_handler e) (vc_Rsp (hv_vcpu c5)) Code Stack Flags c5"
  have m: "cpu.more c6 = cpu.more s"
    by (simp add: c6_def c5_def c3_def VmcsSetHostField_def VmcsSetControlField_def VmcsSetGuestField_def VmcsSetCommonField_def)
  have e: "s' = set_launched True c6" "ctx' = ctx\<lparr>hx_MsrBitmap := fst (VmcsSetGuestMsrExitPolicy (hx_MsrBitmapHpa ctx) (hx_MsrBitmap ctx) c3)\<rparr>"
    using assms by (simp_all add: set_fields_def DsHvmSetupVmcs_def Let_def split_def c3_def c5_def c6_def)
  show "hv_vcpu s' = (hv_vcpu s)\<lparr>vc_Launched := True\<rparr>" using hv_more(3) [OF m] by (simp add: e(1) set_launched_def)
  show "List.length (hx_MsrBitmap ctx') = 4096" if "List.length (hx_MsrBitmap ctx) = 4096"
    using length_policy [OF that] by (simp add: e(2))
qed

lemma vmx_ops_vcpu:
  "hv_vcpu (snd (VmxpEnable e p s)) = hv_vcpu s" "hv_vcpu (snd (AsmVmxClear e p s)) = hv_vcpu s"
  "hv_vcpu (snd (AsmVmxPtrLoad e p s)) = hv_vcpu s"
  by (simp_all add: VmxpEnable_def AsmVmxOn_def AsmVmxClear_def AsmVmxPtrLoad_def RestoreHostCr4Vmxe_def split: prod.splits)

lemma enter_vcpu:
  assumes "HvmpEnterRoot e Code Stack Flags ctx s = (St, ctx', s')"
  shows "vcpu_base (hv_vcpu s') = vcpu_base (hv_vcpu s)"
    "List.length (hx_MsrBitmap ctx) = 4096 \<Longrightarrow> List.length (hx_MsrBitmap ctx') = 4096"
proof -
  define s0 where "s0 = s\<lparr>hv_vcpu := (hv_vcpu s)\<lparr>vc_HostState := HvmpSaveHostState s\<rparr>\<rparr>"
  obtain S1 s1 where 1: "VmxpEnable e (vc_VmxOnHpa (hv_vcpu s0)) s0 = (S1, s1)" by (metis prod.exhaust)
  have v1: "hv_vcpu s1 = hv_vcpu s0" using vmx_ops_vcpu(1) [of e "vc_VmxOnHpa (hv_vcpu s0)" s0] 1 by simp
  have b: "vcpu_base (hv_vcpu s0) = vcpu_base (hv_vcpu s)" "\<And>v. vcpu_base (v\<lparr>vc_Launched := True\<rparr>) = vcpu_base v"
    by (simp_all add: s0_def vcpu_base_def)
  obtain k2 s2 where 2: "AsmVmxClear e (vc_VmcsHpa (hv_vcpu s0)) s1 = (k2, s2)" by (metis prod.exhaust)
  have v2: "hv_vcpu s2 = hv_vcpu s0" using vmx_ops_vcpu(2) [of e "vc_VmcsHpa (hv_vcpu s0)" s1] 2 v1 by simp
  obtain k3 s3 where 3: "AsmVmxPtrLoad e (vc_VmcsHpa (hv_vcpu s0)) s2 = (k3, s3)" by (metis prod.exhaust)
  have v3: "hv_vcpu s3 = hv_vcpu s0" using vmx_ops_vcpu(3) [of e "vc_VmcsHpa (hv_vcpu s0)" s2] 3 v2 by simp
  obtain c4 s4 where 4: "set_fields e Code Stack Flags ctx s3 = (c4, s4)" by (metis prod.exhaust)
  note f = set_fields_vcpu [OF 4]
  have r: "(St, ctx', s') \<in> {(S1, ctx, s1), (S1, ctx, s2), (S1, ctx, s3), (S1, c4, s4)} \<or> (\<exists>t \<in> {s2, s3, s4}. s' = VmxpDisable e (vc_VmcsHpa (hv_vcpu s0)) t \<and> ctx' \<in> {ctx, c4})"
    using assms 1 2 3 4 unfolding HvmpEnterRoot_def Let_def s0_def [symmetric]
    by (auto simp: split: if_splits bool.splits)
  then show "vcpu_base (hv_vcpu s') = vcpu_base (hv_vcpu s)"
    using v1 v2 v3 f(1) b VmxpDisable_sel by auto
  show "List.length (hx_MsrBitmap ctx') = 4096" if "List.length (hx_MsrBitmap ctx) = 4096"
    using r f(2) [OF that] that by auto
qed

lemma start_keeps:
  assumes "HvmpStartVcpu e ctx s = (St, ctx', s')"
  shows "vcpu_base (hv_vcpu s') = vcpu_base (hv_vcpu s)"
    "List.length (hx_MsrBitmap ctx) = 4096 \<Longrightarrow> List.length (hx_MsrBitmap ctx') = 4096"
proof -
  let ?s = "AsmDisableInterrupts s"
  obtain S1 c1 s1 where 1: "HvmpEnterRoot e (ve_code e) (reg ?s RSP - 40) (gr_Rflags (hv_regs ?s)) ctx ?s = (S1, c1, s1)"
    by (metis prod_cases3)
  have f: "vcpu_base (hv_vcpu (snd (HvmpStartFailure e b s1))) = vcpu_base (hv_vcpu s1)" for b
    using VmxpDisable_sel by (simp add: HvmpStartFailure_def Let_def set_launched_def vcpu_base_def)
  have r: "ctx' = c1 \<and> (\<exists>t. s' = AsmEnableInterrupts t \<and> vcpu_base (hv_vcpu t) = vcpu_base (hv_vcpu s1))"
    using assms 1 f [of True] f [of False]
    by (auto simp: HvmpStartVcpu_def AsmHvmLaunch_def Let_def split: if_splits vm_entry.splits prod.splits)
  then show "vcpu_base (hv_vcpu s') = vcpu_base (hv_vcpu s)" using enter_vcpu(1) [OF 1] by auto
  show "List.length (hx_MsrBitmap ctx') = 4096" if "List.length (hx_MsrBitmap ctx) = 4096"
    using enter_vcpu(2) [OF 1 that] r by simp
qed

lemma start_mode:
  assumes "vmx_laws e" "ready s" "HvmpStartVcpu e ctx s = (STATUS_SUCCESS, ctx', s')"
  shows "vmx_mode s' = VmxGuest (vc_VmcsHpa (hv_vcpu s))"
proof -
  obtain u where u: "AsmHvmLaunch e ctx (AsmDisableInterrupts s) = (STATUS_SUCCESS, ctx', u)" "s' = AsmEnableInterrupts u"
    using assms(3) by (auto simp: HvmpStartVcpu_def split: prod.splits)
  have l: "\<forall>t. vmx_mode t = VmxRoot None \<longrightarrow> ve_entry e t = FailInvalid"
    "vmx_mode (AsmDisableInterrupts s) = VmxOff" "\<not> bit (cpu_cr4 (AsmDisableInterrupts s)) 13"
    "\<forall>f. ve_region e (vc_VmcsHpa (hv_vcpu (AsmDisableInterrupts s))) f \<noteq> None"
    "\<not> vc_Launched (hv_vcpu (AsmDisableInterrupts s))"
    using assms(1,2) by (simp_all add: vmx_laws_def ready_def)
  show ?thesis using launch_result [OF l(1) u(1) l(2-5)] by (simp add: u(2))
qed

definition vcpu_started :: "vmx_env \<Rightarrow> hv_state \<Rightarrow> ntstatus \<Rightarrow> hv_state \<Rightarrow> bool" where
  "vcpu_started e s St s' \<longleftrightarrow> started e s St s' \<and> vcpu_base (hv_vcpu s') = vcpu_base (hv_vcpu s) \<and>
     (St = STATUS_SUCCESS \<longrightarrow> vmx_mode s' = VmxGuest (vc_VmcsHpa (hv_vcpu s)))"

lemma start_machine:
  assumes "HvmStart e n Hvm Status Hvm'" "\<not> hm_Launched Hvm" "\<forall>t<n. vmx_laws (e t) \<and> ready (hm_cpus Hvm t)"
    "List.length (hx_MsrBitmap (hm_context Hvm)) = 4096"
  shows "hm_Launched Hvm' = NT_SUCCESS Status" "\<forall>t<n. \<exists>st. vcpu_started (e t) (hm_cpus Hvm t) st (hm_cpus Hvm' t)"
    "Status = STATUS_SUCCESS \<Longrightarrow> \<forall>t<n. vcpu_started (e t) (hm_cpus Hvm t) STATUS_SUCCESS (hm_cpus Hvm' t)"
    "Status \<noteq> STATUS_SUCCESS \<Longrightarrow> \<not> NT_SUCCESS Status" "List.length (hx_MsrBitmap (hm_context Hvm')) = 4096"
proof -
  let ?I = "\<lambda>ctx. List.length (hx_MsrBitmap ctx) = 4096"
  obtain ctx cpus where r: "smp_returns (per_cpu (\<lambda>t. HvmpStartVcpu (e t))) n (hm_context Hvm, hm_cpus Hvm) Status (ctx, cpus)"
    and H: "Hvm' = \<lparr>hm_Launched = NT_SUCCESS Status, hm_context = ctx, hm_cpus = cpus\<rparr>"
    using assms(1,2) by (auto simp: HvmStart_def)
  have s: "\<forall>t x st x' c. t < n \<longrightarrow> ?I x \<longrightarrow> HvmpStartVcpu (e t) x (hm_cpus Hvm t) = (st, x', c) \<longrightarrow>
      ?I x' \<and> vcpu_started (e t) (hm_cpus Hvm t) st c"
  proof (intro allI impI)
    fix t x st x' c
    assume a: "t < n" "?I x" "HvmpStartVcpu (e t) x (hm_cpus Hvm t) = (st, x', c)"
    have l: "vmx_laws (e t)" "ready (hm_cpus Hvm t)" using assms(3) a(1) by simp_all
    show "?I x' \<and> vcpu_started (e t) (hm_cpus Hvm t) st c"
      using start_vcpu [OF l a(3)] start_keeps [OF a(3)] start_mode [OF l] a(2,3) by (auto simp: vcpu_started_def)
  qed
  note R = smp_returns_shared [where I = ?I and P = "\<lambda>t. vcpu_started (e t) (hm_cpus Hvm t)", OF r assms(4) s]
  show "hm_Launched Hvm' = NT_SUCCESS Status" "List.length (hx_MsrBitmap (hm_context Hvm')) = 4096" using R(1) by (simp_all add: H)
  show "\<forall>t<n. \<exists>st. vcpu_started (e t) (hm_cpus Hvm t) st (hm_cpus Hvm' t)"
    "Status = STATUS_SUCCESS \<Longrightarrow> \<forall>t<n. vcpu_started (e t) (hm_cpus Hvm t) STATUS_SUCCESS (hm_cpus Hvm' t)"
    using R(2,3) by (simp_all add: H)
  show "\<not> NT_SUCCESS Status" if "Status \<noteq> STATUS_SUCCESS"
    using R(4) [OF that] that by (auto simp: vcpu_started_def started_def)
qed

section \<open>Initialising and finalising\<close>

definition owned_ds :: "nat \<Rightarrow> ds_globals \<Rightarrow> nat list" where
  "owned_ds n g = (case gHvm g of None \<Rightarrow> [] | Some H \<Rightarrow> owned_hvm H) @ owned_contexts n g"

text \<open>A driver with a hypervisor and its contexts, none launched.\<close>

definition ds_ok :: "create_env \<Rightarrow> ds_globals \<Rightarrow> mem_state \<Rightarrow> bool" where
  "ds_ok e g m \<longleftrightarrow> (\<exists>H. gHvm g = Some H \<and> hvm_ok e (unat DS_HVM_STACK_PAGES) H m) \<and> contexts_ok e g m"

definition fresh :: "ds_globals \<Rightarrow> bool" where
  "fresh g \<longleftrightarrow> gHvm g = None \<and> no_contexts g"

lemma stack_pages: "unat DS_HVM_STACK_PAGES < 2 ^ 20" by (simp add: DS_HVM_STACK_PAGES_def)

lemma takes_idle: "takes m U [] m1 \<Longrightarrow> takes m1 U ps m2 \<Longrightarrow> takes m U ps m2"
  using takes_trans [of m U "[]" m1 ps m2] by simp

lemma initialize_hvm_result:
  assumes "DsInitializeHvm e Verify g Status g'" "ds_mem g = Some m" "fresh g" "mem_inv m U" "env_ok e"
  shows "\<exists>m'. ds_mem g' = Some m' \<and>
    (if NT_SUCCESS Status then Status = STATUS_SUCCESS \<and> takes m U (owned_ds (ce_count e) g') m' \<and> ds_ok e g' m'
     else takes m U [] m' \<and> fresh g')"
proof -
  have f: "gHvm g = None" "no_contexts g" using assms(3) by (simp_all add: fresh_def)
  obtain St H m1 where i: "HvmInitialize e Verify DS_HVM_STACK_PAGES m = Some (St, H, m1)"
    "case H of None \<Rightarrow> \<not> NT_SUCCESS St \<and> takes m U [] m1
     | Some H \<Rightarrow> St = STATUS_SUCCESS \<and> NT_SUCCESS Verify \<and> takes m U (owned_hvm H) m1 \<and> hvm_ok e (unat DS_HVM_STACK_PAGES) H m1"
    by (rule initialize_result [OF assms(4,5) stack_pages])
  show ?thesis
  proof (cases H)
    case None
    then show ?thesis using assms(1,2,3) i by (auto simp: DsInitializeHvm_def fresh_def no_contexts_def)
  next
    case (Some Hvm)
    let ?g = "g\<lparr>ds_mem := Some m1\<rparr>"
    have I: "takes m U (owned_hvm Hvm) m1" "hvm_ok e (unat DS_HVM_STACK_PAGES) Hvm m1" using i(2) Some by simp_all
    obtain H2 g1 where c: "DsInitializeHvmContexts e Hvm ?g Status H2 g1"
      "g' = (if NT_SUCCESS Status then g1\<lparr>gHvm := Some H2\<rparr> else g1\<lparr>ds_mem := Option.bind (ds_mem g1) (HvmFinalize H2)\<rparr>)"
      using assms(1,2) i(1) Some by (auto simp: DsInitializeHvm_def)
    have nc: "ds_mem ?g = Some m1" "no_contexts ?g" using f(2) by (simp_all add: no_contexts_def)
    obtain m2 where m2: "ds_mem g1 = Some m2" "gHvm g1 = gHvm ?g" "owned_hvm H2 = owned_hvm Hvm" "hs_VcpuArray H2 = hs_VcpuArray Hvm"
      "if Status = STATUS_SUCCESS
       then takes m1 (U \<union> set (owned_hvm Hvm)) (owned_contexts (ce_count e) g1) m2 \<and> contexts_ok e g1 m2 \<and> hvm_ok e (unat DS_HVM_STACK_PAGES) H2 m2
       else Status = STATUS_UNSUCCESSFUL \<and> takes m1 (U \<union> set (owned_hvm Hvm)) [] m2 \<and> no_contexts g1"
      using initialize_contexts_result [OF c(1) nc takesD(1) [OF I(1)] assms(5) I(2)] by auto
    show ?thesis
    proof (cases "Status = STATUS_SUCCESS")
      case True
      then have g': "g' = g1\<lparr>gHvm := Some H2\<rparr>" using c(2) by simp
      have o: "owned_ds (ce_count e) g' = owned_hvm Hvm @ owned_contexts (ce_count e) g1"
        using m2(3) by (simp add: g' owned_ds_def owned_contexts_def owned_context_def)
      have "takes m U (owned_ds (ce_count e) g') m2" unfolding o using takes_trans [OF I(1)] m2(5) True by simp
      moreover have "ds_ok e g' m2" using m2(5) True by (simp add: g' ds_ok_def contexts_ok_def)
      ultimately show ?thesis using True m2(1) g' by simp
    next
      case False
      then have F: "Status = STATUS_UNSUCCESSFUL" "takes m1 (U \<union> set (owned_hvm Hvm)) [] m2" "no_contexts g1" using m2(5) by simp_all
      obtain A where A: "hs_VcpuArray H2 = Some A" using I(2) m2(4) by (auto simp: hvm_ok_def)
      have t: "takes m U (owned_hvm H2) m2" using takes_trans [OF I(1) F(2)] m2(3) by simp
      obtain m3 where m3: "free_all (owned_hvm H2) m2 = Some m3" "takes m U [] m3" by (rule takes_free_all [OF t])
      have "ds_mem g' = Some m3" using c(2) F(1) m2(1) m3(1) finalize_all [OF A] by simp
      moreover have "fresh g'" using c(2) F(1,3) m2(2) f(1) by (simp add: fresh_def no_contexts_def)
      ultimately show ?thesis using m3(2) F(1) by simp
    qed
  qed
qed

lemma finalize_hvm_result:
  assumes "DsFinalizeHvm e g Status g'" "ds_mem g = Some m1" "takes m U (owned_ds (ce_count e) g) m1"
    "gHvm g = Some H" "hs_VcpuArray H = Some A"
  shows "Status = STATUS_SUCCESS \<and> fresh g' \<and> (\<exists>m'. ds_mem g' = Some m' \<and> takes m U [] m')"
proof -
  let ?n = "ce_count e"
  have o: "owned_ds ?n g = owned_hvm H @ owned_contexts ?n g" using assms(4) by (simp add: owned_ds_def)
  note T = takesD [OF assms(3) [unfolded o]]
  note S = gives_split [OF T(1-3)]
  obtain m2 where m2: "free_all (owned_hvm H) m1 = Some m2" "gives m1 (owned_hvm H) (U \<union> set (owned_contexts ?n g)) m2"
    using free_all_gives [OF S(1-3)] by blast
  let ?g = "g\<lparr>gHvm := None, ds_mem := Some m2\<rparr>"
  have oc: "owned_contexts ?n ?g = owned_contexts ?n g" by (simp add: owned_contexts_def owned_context_def)
  have d: "Status = STATUS_SUCCESS" "DsDeleteHvmContexts e ?g g'"
    using assms(1,2,4) m2(1) finalize_all [OF assms(5)] by (simp_all add: DsFinalizeHvm_def)
  have k: "ds_mem ?g = Some m2" "mem_inv m2 (U \<union> set (owned_contexts ?n ?g))" "distinct (owned_contexts ?n ?g)"
    "set (owned_contexts ?n ?g) \<inter> U = {}"
    using m2(2) S(4,5) by (simp_all add: gives_def oc)
  obtain m3 where m3: "g' = ?g\<lparr>ds_mem := Some m3, gHvmContext := None, gVcpuContexts := None\<rparr>"
    "gives m2 (owned_contexts ?n ?g) U m3"
    by (rule delete_contexts_result [OF d(2) k])
  have "gives m1 (owned_ds ?n g) U m3" using m2(2) m3(2) by (auto simp: gives_def)
  then have "takes m U [] m3" using takes_gives [OF assms(3)] by blast
  then show ?thesis using d(1) by (simp add: m3(1) fresh_def no_contexts_def)
qed

section \<open>Loading\<close>

lemma store_owned:
  assumes "gHvm g = Some H" "List.length (hs_Vcpus H) = ce_count e"
    "\<forall>t<ce_count e. vcpu_base (hv_vcpu (hm_cpus h t)) = vcpu_base (hs_Vcpus H ! t)"
  shows "owned_ds (ce_count e) (hvm_store e h g) = owned_ds (ce_count e) g"
proof -
  have "map owned_vcpu (map (\<lambda>t. hv_vcpu (hm_cpus h t)) [0..<ce_count e]) = map owned_vcpu (hs_Vcpus H)"
  proof (rule nth_equalityI)
    fix i assume "i < List.length (map owned_vcpu (map (\<lambda>t. hv_vcpu (hm_cpus h t)) [0..<ce_count e]))"
    then have "i < ce_count e" by simp
    then show "map owned_vcpu (map (\<lambda>t. hv_vcpu (hm_cpus h t)) [0..<ce_count e]) ! i = map owned_vcpu (hs_Vcpus H) ! i"
      using vcpu_base_sel(9) [of "hv_vcpu (hm_cpus h i)" "hs_Vcpus H ! i"] assms(2,3) by simp
  qed (simp add: assms(2))
  then have "owned_vcpus (map (\<lambda>t. hv_vcpu (hm_cpus h t)) [0..<ce_count e]) = owned_vcpus (hs_Vcpus H)"
    unfolding owned_vcpus_def by (rule arg_cong)
  then show ?thesis using assms(1)
    by (simp add: owned_ds_def hvm_store_def owned_hvm_def owned_contexts_def owned_context_def)
qed

lemma bitmap_owned:
  assumes "contexts_ok e g m"
  shows "bitmap_of g \<in> set (owned_ds n g)" "holds m (bitmap_of g) 0 (replicate 4096 0)"
proof -
  obtain p C A w b where c: "gHvmContext g = Some (p, C)" "gVcpuContexts g = Some (A, w)" "hcs_MsrBitmap C = Some b"
    "holds m b 0 (replicate 4096 0)"
    using assms unfolding contexts_ok_def by blast
  have b: "bitmap_of g = b" by (simp add: bitmap_of_def c)
  show "bitmap_of g \<in> set (owned_ds n g)" by (simp add: b owned_ds_def owned_contexts_def owned_context_def c)
  show "holds m (bitmap_of g) 0 (replicate 4096 0)" unfolding b by (rule c(4))
qed

lemma store_takes:
  assumes "takes m U (owned_ds (ce_count e) g) m1" "ds_mem g = Some m1" "gHvm g = Some H" "List.length (hs_Vcpus H) = ce_count e"
    "\<forall>t<ce_count e. vcpu_base (hv_vcpu (hm_cpus h t)) = vcpu_base (hs_Vcpus H ! t)"
    "bitmap_of g \<in> set (owned_ds (ce_count e) g)" "4096 \<le> mem_extent m1 (bitmap_of g)"
    "List.length (hx_MsrBitmap (hm_context h)) = 4096"
  shows "\<exists>m'. ds_mem (hvm_store e h g) = Some m' \<and> takes m U (owned_ds (ce_count e) (hvm_store e h g)) m' \<and>
    mem_extent m' (bitmap_of g) = mem_extent m1 (bitmap_of g)"
proof -
  let ?m = "mem_write (bitmap_of g + 0) (hx_MsrBitmap (hm_context h)) m1"
  have "takes m U (owned_ds (ce_count e) g) ?m" by (rule takes_write [OF assms(1,6)]) (use assms(7,8) in simp)
  then show ?thesis using assms(2) store_owned [OF assms(3-5)] mem_write_sel(2) [OF takesD(1) [OF assms(1)]]
    by (intro exI [of _ ?m]) (simp add: hvm_store_def)
qed

text \<open>The hypervisor loaded: every processor runs on its own control structure.\<close>

definition loaded :: "create_env \<Rightarrow> ds_globals \<Rightarrow> (nat \<Rightarrow> hv_state) \<Rightarrow> mem_state \<Rightarrow> bool" where
  "loaded e g cpus m \<longleftrightarrow> bitmap_of g \<in> set (owned_ds (ce_count e) g) \<and> 4096 \<le> mem_extent m (bitmap_of g) \<and>
     (\<exists>H A. gHvm g = Some H \<and> hs_VcpuArray H = Some A \<and> hs_Launched H \<and> List.length (hs_Vcpus H) = ce_count e \<and>
       (\<forall>t < ce_count e. \<exists>c. vc_VmcsHva (hs_Vcpus H ! t) = Some c \<and> vmx_mode (cpus t) = VmxGuest (ce_pa e c) \<and>
          hv_vcpu (cpus t) = hs_Vcpus H ! t))"

definition off :: "hv_state \<Rightarrow> bool" where
  "off s \<longleftrightarrow> vmx_mode s = VmxOff \<and> \<not> bit (cpu_cr4 s) 13"

definition able :: "vmx_env \<Rightarrow> bool" where
  "able v \<longleftrightarrow> (\<forall>p. ve_on v p \<and> ve_clear v p \<and> ve_load v p) \<and> (\<forall>t p. vmx_mode t = VmxRoot (Some p) \<longrightarrow> ve_entry v t = EntryOk)"

lemma load_result:
  assumes "DsLoadHvm e M Verify (g, cpus) Status (g', cpus')" "ds_mem g = Some m" "fresh g" "mem_inv m U" "env_ok e"
    "\<forall>t<ce_count e. vmx_laws (mc_vmx M t) \<and> off (cpus t)"
  shows "\<exists>m'. ds_mem g' = Some m' \<and>
    (if NT_SUCCESS Status
     then Status = STATUS_SUCCESS \<and> takes m U (owned_ds (ce_count e) g') m' \<and> loaded e g' cpus' m'
     else takes m U [] m' \<and> fresh g' \<and>
       (cpus' = cpus \<or> (\<forall>t<ce_count e. (off (cpus' t) \<or> (\<exists>c. c \<notin> U \<and> vmx_mode (cpus' t) = VmxGuest (ce_pa e c))) \<and>
          (able (mc_vmx M t) \<longrightarrow> vmx_mode (cpus' t) \<noteq> VmxOff))) \<and>
       (cpus' \<noteq> cpus \<or> (\<exists>St g1. DsInitializeHvm e Verify g St g1 \<and> \<not> NT_SUCCESS St) \<or> (\<forall>t<ce_count e. \<not> able (mc_vmx M t))))"
proof -
  let ?n = "ce_count e"
  obtain St g1 where i: "DsInitializeHvm e Verify g St g1"
    "if \<not> NT_SUCCESS St then Status = St \<and> (g', cpus') = (g1, cpus)
     else \<exists>h. HvmStart (mc_vmx M) ?n (hvm_view e g1 cpus) Status h \<and>
           (if NT_SUCCESS Status then (g', cpus') = (hvm_store e h g1, hm_cpus h)
            else \<exists>St2 h2 St3 g2. HvmStop (mc_vmcall M) (mc_vmx M) (mc_env M) ?n h St2 h2 \<and>
              DsFinalizeHvm e (hvm_store e h2 g1) St3 g2 \<and> (g', cpus') = (g2, hm_cpus h2))"
    using assms(1) unfolding DsLoadHvm_def by (simp only: prod.case) blast
  obtain m1 where m1: "ds_mem g1 = Some m1" "if NT_SUCCESS St then St = STATUS_SUCCESS \<and> takes m U (owned_ds ?n g1) m1 \<and> ds_ok e g1 m1
     else takes m U [] m1 \<and> fresh g1"
    using initialize_hvm_result [OF i(1) assms(2-5)] by blast
  show ?thesis
  proof (cases "NT_SUCCESS St")
    case False
    then have q: "Status = St" "g' = g1" "cpus' = cpus" "takes m U [] m1" "fresh g1" using i(2) m1(2) by simp_all
    have x: "\<exists>St g1. DsInitializeHvm e Verify g St g1 \<and> \<not> NT_SUCCESS St" using i(1) False by blast
    show ?thesis unfolding q(1-3)
      by (intro exI [of _ m1]) (use q(4,5) m1(1) False x in simp)
  next
    case True
    then have I: "takes m U (owned_ds ?n g1) m1" "ds_ok e g1 m1" using m1(2) by simp_all
    obtain H where H: "gHvm g1 = Some H" "hvm_ok e (unat DS_HVM_STACK_PAGES) H m1" "contexts_ok e g1 m1"
      using I(2) by (auto simp: ds_ok_def)
    obtain A where A: "hs_VcpuArray H = Some A" "List.length (hs_Vcpus H) = ?n" "\<not> hs_Launched H"
      "\<forall>i<?n. vcpu_ok e (unat DS_HVM_STACK_PAGES) (vcpu_at e A i) i (hs_Vcpus H ! i) m1"
      using H(2) by (auto simp: hvm_ok_def)
    let ?h0 = "hvm_view e g1 cpus"
    have v: "\<not> hm_Launched ?h0" "hv_vcpu (hm_cpus ?h0 t) = hs_Vcpus H ! t" "vmx_mode (hm_cpus ?h0 t) = vmx_mode (cpus t)"
      "cpu_cr4 (hm_cpus ?h0 t) = cpu_cr4 (cpus t)" for t
      using A(3) H(1) by (simp_all add: hvm_view_def vmx_mode_def)
    have rd: "\<forall>t<?n. vmx_laws (mc_vmx M t) \<and> ready (hm_cpus ?h0 t)"
      using assms(6) v A(4) by (auto simp: ready_def off_def vcpu_ok_def)
    have bm: "List.length (hx_MsrBitmap (hm_context ?h0)) = 4096" by (simp add: hvm_view_def mem_bytes_def)
    note b = bitmap_owned [OF H(3)]
    have be: "4096 \<le> mem_extent m1 (bitmap_of g1)" using b(2) by (simp add: holds_def)
    obtain h where h: "HvmStart (mc_vmx M) ?n ?h0 Status h"
      "if NT_SUCCESS Status then (g', cpus') = (hvm_store e h g1, hm_cpus h)
            else \<exists>St2 h2 St3 g2. HvmStop (mc_vmcall M) (mc_vmx M) (mc_env M) ?n h St2 h2 \<and>
              DsFinalizeHvm e (hvm_store e h2 g1) St3 g2 \<and> (g', cpus') = (g2, hm_cpus h2)"
      using i(2) True by auto
    note S = start_machine [OF h(1) v(1) rd bm]
    have vb: "\<forall>t<?n. vcpu_base (hv_vcpu (hm_cpus h t)) = vcpu_base (hs_Vcpus H ! t)"
      using S(2) v(2) by (auto simp: vcpu_started_def)
    have hp: "\<exists>c. vc_VmcsHva (hs_Vcpus H ! t) = Some c \<and> vc_VmcsHpa (hs_Vcpus H ! t) = ce_pa e c" if "t < ?n" for t
      using A(4) that by (auto simp: vcpu_ok_def)
    obtain m2 where m2: "ds_mem (hvm_store e h g1) = Some m2" "takes m U (owned_ds ?n (hvm_store e h g1)) m2"
      "mem_extent m2 (bitmap_of g1) = mem_extent m1 (bitmap_of g1)"
      using store_takes [OF I(1) m1(1) H(1) A(2) vb b(1) be S(5)] by blast
    show ?thesis
    proof (cases "NT_SUCCESS Status")
      case True
      then have ok: "Status = STATUS_SUCCESS" using S(4) by blast
      have q: "g' = hvm_store e h g1" "cpus' = hm_cpus h" using h(2) True by simp_all
      have bq: "bitmap_of g' = bitmap_of g1" by (simp add: q(1) hvm_store_def bitmap_of_def)
      have r: "\<forall>t<?n. vcpu_started (mc_vmx M t) (hm_cpus ?h0 t) STATUS_SUCCESS (hm_cpus h t)" using S(3) [OF ok] .
      have md: "vmx_mode (hm_cpus h t) = VmxGuest (vc_VmcsHpa (hs_Vcpus H ! t))" if "t < ?n" for t
        using r that v(2) by (simp add: vcpu_started_def)
      have "loaded e g' cpus' m2" unfolding loaded_def
      proof (intro conjI exI)
        show "bitmap_of g' \<in> set (owned_ds ?n g')" unfolding bq
          using b(1) [of ?n] store_owned [OF H(1) A(2) vb] by (simp add: q(1))
        show "4096 \<le> mem_extent m2 (bitmap_of g')" using be m2(3) by (simp add: bq)
        show "gHvm g' = Some (H\<lparr>hs_Launched := hm_Launched h, hs_Vcpus := map (\<lambda>t. hv_vcpu (hm_cpus h t)) [0..<?n]\<rparr>)"
          by (simp add: q(1) hvm_store_def H(1))
        show "hs_VcpuArray (H\<lparr>hs_Launched := hm_Launched h, hs_Vcpus := map (\<lambda>t. hv_vcpu (hm_cpus h t)) [0..<?n]\<rparr>) = Some A"
          using A(1) by simp
        show "hs_Launched (H\<lparr>hs_Launched := hm_Launched h, hs_Vcpus := map (\<lambda>t. hv_vcpu (hm_cpus h t)) [0..<?n]\<rparr>)"
          using S(1) True by simp
        show "List.length (hs_Vcpus (H\<lparr>hs_Launched := hm_Launched h, hs_Vcpus := map (\<lambda>t. hv_vcpu (hm_cpus h t)) [0..<?n]\<rparr>)) = ?n" by simp
        show "\<forall>t<?n. \<exists>c. vc_VmcsHva (hs_Vcpus (H\<lparr>hs_Launched := hm_Launched h, hs_Vcpus := map (\<lambda>t. hv_vcpu (hm_cpus h t)) [0..<?n]\<rparr>) ! t) = Some c \<and>
            vmx_mode (cpus' t) = VmxGuest (ce_pa e c) \<and>
            hv_vcpu (cpus' t) = hs_Vcpus (H\<lparr>hs_Launched := hm_Launched h, hs_Vcpus := map (\<lambda>t. hv_vcpu (hm_cpus h t)) [0..<?n]\<rparr>) ! t"
        proof (intro allI impI)
          fix t assume t: "t < ?n"
          obtain c where c: "vc_VmcsHva (hs_Vcpus H ! t) = Some c" "vc_VmcsHpa (hs_Vcpus H ! t) = ce_pa e c" using hp [OF t] by blast
          have "vc_VmcsHva (hv_vcpu (hm_cpus h t)) = Some c" using vcpu_base_sel(2) vb t c(1) by metis
          then show "\<exists>c. vc_VmcsHva (hs_Vcpus (H\<lparr>hs_Launched := hm_Launched h, hs_Vcpus := map (\<lambda>t. hv_vcpu (hm_cpus h t)) [0..<?n]\<rparr>) ! t) = Some c \<and>
            vmx_mode (cpus' t) = VmxGuest (ce_pa e c) \<and>
            hv_vcpu (cpus' t) = hs_Vcpus (H\<lparr>hs_Launched := hm_Launched h, hs_Vcpus := map (\<lambda>t. hv_vcpu (hm_cpus h t)) [0..<?n]\<rparr>) ! t"
            using md [OF t] t c(2) by (simp add: q(2))
        qed
      qed
      then show ?thesis using m2 ok q(1) by (intro exI [of _ m2]) simp
    next
      case False
      then have nl: "\<not> hm_Launched h" using S(1) by simp
      obtain St2 h2 St3 g2 where z: "HvmStop (mc_vmcall M) (mc_vmx M) (mc_env M) ?n h St2 h2"
        "DsFinalizeHvm e (hvm_store e h2 g1) St3 g2" "g' = g2" "cpus' = hm_cpus h2"
        using h(2) False by auto
      have h2: "h2 = h" using z(1) nl by (simp add: HvmStop_def)
      have gs: "gHvm (hvm_store e h g1) = Some (H\<lparr>hs_Launched := hm_Launched h, hs_Vcpus := map (\<lambda>t. hv_vcpu (hm_cpus h t)) [0..<?n]\<rparr>)"
        by (simp add: hvm_store_def H(1))
      have "hs_VcpuArray (H\<lparr>hs_Launched := hm_Launched h, hs_Vcpus := map (\<lambda>t. hv_vcpu (hm_cpus h t)) [0..<?n]\<rparr>) = Some A"
        using A(1) by simp
      from finalize_hvm_result [OF z(2) [unfolded h2] m2(1,2) gs this] obtain m3 where
        m3: "fresh g'" "ds_mem g' = Some m3" "takes m U [] m3" using z(3) by blast
      have own: "vc_VmcsHva (hs_Vcpus H ! t) = Some c \<Longrightarrow> t < ?n \<Longrightarrow> c \<notin> U" for t c
      proof -
        assume "vc_VmcsHva (hs_Vcpus H ! t) = Some c" "t < ?n"
        then have "c \<in> set (owned_vcpu (hs_Vcpus H ! t))" "hs_Vcpus H ! t \<in> set (hs_Vcpus H)"
          using A(2) by (simp_all add: owned_vcpu_def)
        then have "c \<in> (\<Union>v \<in> set (hs_Vcpus H). set (owned_vcpu v))" by (rule UN_I [rotated])
        then have "c \<in> set (owned_vcpus (hs_Vcpus H))" by (simp add: owned_vcpus_def)
        then have "c \<in> set (owned_ds ?n g1)" using H(1) by (simp add: owned_ds_def owned_hvm_def)
        then show "c \<notin> U" using takesD(3) [OF I(1)] by blast
      qed
      have each: "(off (cpus' t) \<or> (\<exists>c. c \<notin> U \<and> vmx_mode (cpus' t) = VmxGuest (ce_pa e c))) \<and>
          (able (mc_vmx M t) \<longrightarrow> vmx_mode (cpus' t) \<noteq> VmxOff)" if t: "t < ?n" for t
      proof -
        obtain st where s: "vcpu_started (mc_vmx M t) (hm_cpus ?h0 t) st (cpus' t)" using S(2) t z(4) h2 by auto
        obtain c where c: "vc_VmcsHva (hs_Vcpus H ! t) = Some c" "vc_VmcsHpa (hs_Vcpus H ! t) = ce_pa e c" using hp [OF t] by blast
        have ab: "able (mc_vmx M t) \<Longrightarrow> st = STATUS_SUCCESS"
          using s by (auto simp: vcpu_started_def started_def capable_def able_def)
        show ?thesis
        proof (cases "st = STATUS_SUCCESS")
          case True
          then have "vmx_mode (cpus' t) = VmxGuest (ce_pa e c)" using s v(2) c(2) by (simp add: vcpu_started_def)
          then show ?thesis using own [OF c(1) t] by auto
        next
          case False
          then have "off (cpus' t)" using s v(4) assms(6) t by (auto simp: vcpu_started_def started_def ready_def off_def)
          then show ?thesis using ab False by blast
        qed
      qed
      then have "cpus' \<noteq> cpus \<or> (\<forall>t<?n. \<not> able (mc_vmx M t))" using assms(6) by (metis off_def)
      then show ?thesis using m3 each False by (intro exI [of _ m3]) simp
    qed
  qed
qed

section \<open>Unloading\<close>

definition quiet_laws :: "(hv_state \<Rightarrow> hv_state) \<Rightarrow> bool" where
  "quiet_laws vmcall \<longleftrightarrow> vmcall_laws vmcall \<and> (\<forall>s. hv_vcpu (vmcall s) = hv_vcpu s)"

lemma stop_keeps:
  assumes "quiet_laws vmcall" "HvmpStopVcpu vmcall e w s = Some (St, t)"
  shows "hv_vcpu t = hv_vcpu s"
proof -
  let ?s = "vmcall (set_reg RAX HVM_CALL_MAGIC (set_reg RCX HVM_INTERNAL_SERVICE_STOP (set_reg RDX 0 s)))"
  have l: "vmcall_laws vmcall" "hv_vcpu ?s = hv_vcpu s" using assms(1) by (simp_all add: quiet_laws_def set_reg_def)
  have "stop_call ?s" using l(1) by (simp add: stop_call_def vmcall_laws_def)
  then have H: "HvmpExitHandler e w ?s =
      Some (Stopped (HvmpStop e (set_reg RAX (ucast STATUS_SUCCESS) (InstrRipAdvance (HvmpExitEventLog (read_guest_registers ?s))))))"
    by (simp add: stop_call_def HvmpExitHandler_def HvmHandleService_def Let_def)
  have v: "hv_vcpu (set_reg n x u) = hv_vcpu u" for n x u by (simp add: set_reg_def)
  have S: "hv_vcpu (HvmpStop e u) = hv_vcpu u" for u
    using restore_host(9) [of u] VmxpDisable_sel by (simp add: HvmpStop_def Let_def)
  show ?thesis using assms(2) l(2) by (simp add: HvmpStopVcpu_def AsmHvmHyperCall_def H) (auto simp: S v)
qed

lemma unload_result:
  assumes "DsUnloadHvm e M (g, cpus) Status (g', cpus')" "ds_mem g = Some m1" "takes m U (owned_ds (ce_count e) g) m1"
    "loaded e g cpus m1" "\<forall>t<ce_count e. quiet_laws (mc_vmcall M t)"
  shows "Status = STATUS_SUCCESS \<and> fresh g' \<and> (\<forall>t<ce_count e. vmx_mode (cpus' t) = VmxOff) \<and>
    (\<exists>m'. ds_mem g' = Some m' \<and> takes m U [] m')"
proof -
  let ?n = "ce_count e" and ?h = "hvm_view e g cpus"
  obtain H A where H: "gHvm g = Some H" "hs_VcpuArray H = Some A" "hs_Launched H" "List.length (hs_Vcpus H) = ?n"
    using assms(4) by (auto simp: loaded_def)
  have b: "bitmap_of g \<in> set (owned_ds ?n g)" "4096 \<le> mem_extent m1 (bitmap_of g)" using assms(4) by (simp_all add: loaded_def)
  have l: "hm_Launched ?h" "\<forall>t<?n. vmcall_laws (mc_vmcall M t)" using H assms(5) by (simp_all add: hvm_view_def quiet_laws_def)
  obtain h where h: "HvmStop (mc_vmcall M) (mc_vmx M) (mc_env M) ?n ?h Status h"
    "if NT_SUCCESS Status then \<exists>St g2. DsFinalizeHvm e (hvm_store e h g) St g2 \<and> (g', cpus') = (g2, hm_cpus h)
     else (g', cpus') = (hvm_store e h g, hm_cpus h)"
    using assms(1) by (auto simp: DsUnloadHvm_def)
  note S = h(1) [unfolded stop_all [OF l]]
  obtain St g2 where z: "DsFinalizeHvm e (hvm_store e h g) St g2" "g' = g2" "cpus' = hm_cpus h" using h(2) S by auto
  have each: "vmx_mode (hm_cpus h t) = VmxOff \<and> hv_vcpu (hm_cpus h t) = hs_Vcpus H ! t" if t: "t < ?n" for t
  proof -
    have q: "quiet_laws (mc_vmcall M t)" using assms(5) t by simp
    obtain u where u: "HvmpStopVcpu (mc_vmcall M t) (mc_vmx M t) (mc_env M t) (hm_cpus ?h t) = Some (STATUS_SUCCESS, u)" "vmx_mode u = VmxOff"
      using stop_vcpu l(2) t by blast
    have "hm_cpus h t = u" using S t u(1) by simp
    then show ?thesis using u(2) stop_keeps [OF q u(1)] H(1) by (simp add: hvm_view_def)
  qed
  have vb: "\<forall>t<?n. vcpu_base (hv_vcpu (hm_cpus h t)) = vcpu_base (hs_Vcpus H ! t)" using each by simp
  have bl: "List.length (hx_MsrBitmap (hm_context h)) = 4096" using S by (simp add: hvm_view_def mem_bytes_def)
  obtain m2 where m2: "ds_mem (hvm_store e h g) = Some m2" "takes m U (owned_ds ?n (hvm_store e h g)) m2"
    using store_takes [OF assms(3,2) H(1,4) vb b bl] by blast
  have gs: "gHvm (hvm_store e h g) = Some (H\<lparr>hs_Launched := hm_Launched h, hs_Vcpus := map (\<lambda>t. hv_vcpu (hm_cpus h t)) [0..<?n]\<rparr>)"
    by (simp add: hvm_store_def H(1))
  have "hs_VcpuArray (H\<lparr>hs_Launched := hm_Launched h, hs_Vcpus := map (\<lambda>t. hv_vcpu (hm_cpus h t)) [0..<?n]\<rparr>) = Some A"
    using H(2) by simp
  from finalize_hvm_result [OF z(1) m2 gs this] show ?thesis using S z(2,3) each by blast
qed

end
