(* ===== verification/Load_Room.thy ===== *)
theory Load_Room
  imports Heap_Room Hvm_Load
begin

text \<open>
  Enough memory: when one free block of the heap is as large as all the structures of the
  hypervisor together with what their headers and alignments can cost, no request of a load
  fails, in whatever order the processors make theirs.
\<close>

definition mem_room :: "mem_state \<Rightarrow> nat \<Rightarrow> bool" where
  "mem_room m S \<longleftrightarrow> (\<exists>h. gHeap m = Some h \<and> room h S)"

lemma mem_request_room:
  assumes "mem_inv m U" "mem_room m S" "req_proper q" "req_cost q \<le> S" "mem_request m q = Some (r, m')"
  shows "r \<noteq> None \<and> mem_room m' (S - req_cost q)"
proof -
  obtain h where h: "gHeap m = Some h" "room h S" "heap_inv h U" using assms(1,2) by (auto simp: mem_room_def mem_inv_def)
  obtain g where g: "heap_request h q = Some (r, g)" "m' = m\<lparr>gHeap := Some g\<rparr>"
    using assms(5) by (auto simp: mem_request_eq [OF h(1)])
  show ?thesis using hpr.request_spare [OF h(3,2) assms(3,4) g(1)] by (simp add: g(2) mem_room_def)
qed

interpretation driver_room: roomy_allocator mem_inv mem_extent heap_legal heap_wants mem_request mem_release mem_room req_cost req_proper
proof (unfold_locales, goal_cases)
  case (1 q) then show ?case by (rule hpr.proper_legal)
next
  case (2 m U S q r m') then show ?case by (rule mem_request_room)
qed

definition has_room :: "mem_state \<Rightarrow> nat \<Rightarrow> bool" where
  "has_room m S \<longleftrightarrow> (\<exists>U. mem_inv m U) \<and> mem_room m S"

lemma has_room_less: "has_room m S \<Longrightarrow> S' \<le> S \<Longrightarrow> has_room m S'"
  using room_less by (auto simp: has_room_def mem_room_def)

lemma has_room_request:
  assumes "has_room m S" "req_proper q" "req_cost q \<le> S"
  shows "\<exists>p m'. mem_request m q = Some (Some p, m') \<and> has_room m' (S - req_cost q)"
proof -
  obtain U where U: "mem_inv m U" "mem_room m S" using assms(1) by (auto simp: has_room_def)
  obtain p m' where "mem_request m q = Some (Some p, m')" "mem_inv m' (insert p U)" "mem_room m' (S - req_cost q)"
    by (rule driver_room.request_gets [OF U assms(2,3)])
  then show ?thesis by (auto simp: has_room_def)
qed

lemma has_room_plain:
  assumes "has_room m S" "0 < n" "n + 40 \<le> S"
  obtains p m' where "MemAlloc m n = Some (Some p, m')" "has_room m' (S - (n + 40))"
  using has_room_request [OF assms(1), of "Plain n"] assms(2,3) by auto

lemma has_room_aligned:
  assumes "has_room m S" "0 < n" "al = 16 \<or> al = 4096" "n + unat al + 80 \<le> S"
  obtains p m' where "MemAllocAligned m n al = Some (Some p, m')" "has_room m' (S - (n + unat al + 80))"
proof -
  have "req_proper (Aligned n al)" using assms(2,3) by auto
  from has_room_request [OF assms(1) this] assms(4) show thesis using that by auto
qed

lemma has_room_array:
  assumes "has_room m S" "0 < k * n" "k * n < 2 ^ 32" "k * n + 40 \<le> S"
  obtains p m' where "MemAllocArray m k n = Some (Some p, m')" "has_room m' (S - (k * n + 40))"
proof -
  obtain p m' where a: "MemAlloc m (k * n) = Some (Some p, m')" "has_room m' (S - (k * n + 40))"
    by (rule has_room_plain [OF assms(1,2,4)])
  obtain h g where h: "gHeap m = Some h" "HeapAlloc h (k * n) = Some (Some p, g)" "m' = m\<lparr>gHeap := Some g\<rparr>"
    using a(1) by (auto simp: MemAlloc_def bind_eq_Some_conv)
  let ?g = "zero_data g (p - hp_memory g) (k * n)"
  have "MemAllocArray m k n = Some (Some p, m\<lparr>gHeap := Some ?g\<rparr>)"
    using h(1,2) assms(3) by (simp add: MemAllocArray_def HeapAllocArray_def Let_def)
  moreover have "has_room (m\<lparr>gHeap := Some ?g\<rparr>) (S - (k * n + 40))"
    using a(2) by (auto simp: h(3) has_room_def mem_room_def mem_inv_def zero_data_def heap_inv_data)
  ultimately show thesis by (rule that)
qed

lemma has_room_write [simp]: "has_room (mem_write p bs m) S = has_room m S"
  by (cases "gHeap m") (auto simp: has_room_def mem_room_def mem_inv_def mem_write_def heap_inv_data)

section \<open>The virtual processors\<close>

definition vcpu_bytes :: "create_env \<Rightarrow> nat \<Rightarrow> nat" where
  "vcpu_bytes e pages = 4096 + 4176 + (unat (VMCS_REGION_SIZE (ce_vm e)) + 4176) + (pages * 4096 + 4176)"

lemma init_vcpu_room:
  assumes "has_room m S" "vcpu_bytes e (unat SP) \<le> S" "0 < unat (VMCS_REGION_SIZE (ce_vm e))" "0 < unat SP" "unat SP < 2 ^ 20"
  shows "\<exists>v' m'. init_vcpu e SP self i v m = Some (STATUS_SUCCESS, v', m') \<and> has_room m' (S - vcpu_bytes e (unat SP))"
proof -
  have k: "unat (SP * 4096) = unat SP * 4096" by (rule stack_size(1) [OF assms(5)])
  obtain p m1 where x: "MemAllocAligned m 4096 4096 = Some (Some p, m1)" "has_room m1 (S - (4096 + unat (4096 :: u32) + 80))"
    by (rule has_room_aligned [OF assms(1), of 4096 4096]) (use assms(2) in \<open>simp_all add: vcpu_bytes_def\<close>)
  let ?m1 = "mem_write p (le32 (VMCS_REVISION (ce_vm e))) m1"
  obtain q m2 where c: "MemAllocAligned ?m1 (unat (VMCS_REGION_SIZE (ce_vm e))) 4096 = Some (Some q, m2)"
    "has_room m2 (S - 8272 - (unat (VMCS_REGION_SIZE (ce_vm e)) + unat (4096 :: u32) + 80))"
    by (rule has_room_aligned [of ?m1 "S - 8272" "unat (VMCS_REGION_SIZE (ce_vm e))" 4096])
      (use assms(2,3) x(2) in \<open>simp_all add: vcpu_bytes_def\<close>)
  let ?m2 = "mem_write (q + 4) (le32 0) (mem_write q (le32 (VMCS_REVISION (ce_vm e) AND 0x7FFFFFFF)) m2)"
  obtain s m3 where s: "MemAllocAligned ?m2 (unat (SP * 4096)) 4096 = Some (Some s, m3)"
    "has_room m3 (S - 8272 - (unat (VMCS_REGION_SIZE (ce_vm e)) + 4176) - (unat (SP * 4096) + unat (4096 :: u32) + 80))"
    by (rule has_room_aligned [of ?m2 "S - 8272 - (unat (VMCS_REGION_SIZE (ce_vm e)) + 4176)" "unat (SP * 4096)" 4096])
      (use assms(2,4) c(2) k in \<open>simp_all add: vcpu_bytes_def\<close>)
  have "has_room m3 (S - vcpu_bytes e (unat SP))" using s(2) by (rule has_room_less) (simp add: vcpu_bytes_def k)
  then show ?thesis using x(1) c(1) s(1)
    by (simp add: init_vcpu_def HvmInitializeVmxOn_def HvmInitializeVmcs_def VmcsAllocateRegion_def HvmInitializeStack_def Let_def)
qed

lemma init_vcpus_room:
  assumes "0 < unat (VMCS_REGION_SIZE (ce_vm e))" "0 < unat SP" "unat SP < 2 ^ 20"
  shows "has_room m S \<Longrightarrow> k * vcpu_bytes e (unat SP) \<le> S \<Longrightarrow>
    \<exists>vs' m'. init_vcpus e SP A i k vs m = Some (STATUS_SUCCESS, vs', m') \<and> has_room m' (S - k * vcpu_bytes e (unat SP))"
proof (induction k arbitrary: i vs m S)
  case (Suc k)
  let ?c = "vcpu_bytes e (unat SP)"
  have "?c \<le> S" using Suc.prems(2) by simp
  from init_vcpu_room [OF Suc.prems(1) this assms] obtain v m1 where
    v: "init_vcpu e SP (vcpu_at e A i) i (vs ! i) m = Some (STATUS_SUCCESS, v, m1)" "has_room m1 (S - ?c)" by blast
  have "k * ?c \<le> S - ?c" using Suc.prems(2) by simp
  from Suc.IH [OF v(2) this, of "i + 1" "vs[i := v]"] show ?case using v(1) by (auto simp: diff_diff_eq)
qed simp

section \<open>The hypervisor and its contexts\<close>

definition hvm_bytes :: "create_env \<Rightarrow> nat \<Rightarrow> nat" where
  "hvm_bytes e pages = ce_sizeof_hvm e + 40 + (ce_count e * ce_sizeof_vcpu e + 96) + ce_count e * vcpu_bytes e pages"

text \<open>The structures are not empty, and there is a processor.\<close>

definition sizes_ok :: "create_env \<Rightarrow> bool" where
  "sizes_ok e \<longleftrightarrow> 0 < ce_count e \<and> 0 < ce_sizeof_vcpu e \<and> 0 < ce_sizeof_hvm e \<and> 0 < ce_sizeof_hvm_context e \<and>
     0 < ce_sizeof_vcpu_context e \<and> 0 < ce_sizeof_tsc_entry e"

lemma initialize_room:
  assumes "has_room m S" "hvm_bytes e (unat SP) \<le> S" "env_ok e" "sizes_ok e" "0 < unat SP" "unat SP < 2 ^ 20" "NT_SUCCESS Verify"
  shows "\<exists>H m'. HvmInitialize e Verify SP m = Some (STATUS_SUCCESS, Some H, m') \<and> has_room m' (S - hvm_bytes e (unat SP))"
proof -
  let ?n = "ce_count e * ce_sizeof_vcpu e"
  have E: "0 < unat (VMCS_REGION_SIZE (ce_vm e))" "?n mod 2 ^ 32 = ?n" "0 < ?n" using assms(3,4) by (simp_all add: env_ok_def sizes_ok_def)
  obtain p m1 where a: "MemAlloc m (ce_sizeof_hvm e) = Some (Some p, m1)" "has_room m1 (S - (ce_sizeof_hvm e + 40))"
    by (rule has_room_plain [OF assms(1), of "ce_sizeof_hvm e"]) (use assms(2,4) in \<open>simp_all add: hvm_bytes_def sizes_ok_def\<close>)
  obtain A m2 where b: "MemAllocAligned m1 ?n 16 = Some (Some A, m2)" "has_room m2 (S - (ce_sizeof_hvm e + 40) - (?n + unat (16 :: u32) + 80))"
    by (rule has_room_aligned [OF a(2) E(3), of 16]) (use assms(2) in \<open>simp_all add: hvm_bytes_def\<close>)
  have "ce_count e * vcpu_bytes e (unat SP) \<le> S - (ce_sizeof_hvm e + 40) - (?n + unat (16 :: u32) + 80)"
    using assms(2) by (simp add: hvm_bytes_def)
  from init_vcpus_room [OF E(1) assms(5,6) b(2) this] obtain vs m3 where
    c: "init_vcpus e SP A 0 (ce_count e) (replicate (ce_count e) zero_vcpu) m2 = Some (STATUS_SUCCESS, vs, m3)"
    "has_room m3 (S - (ce_sizeof_hvm e + 40) - (?n + unat (16 :: u32) + 80) - ce_count e * vcpu_bytes e (unat SP))" by blast
  have "has_room m3 (S - hvm_bytes e (unat SP))" using c(2) by (rule has_room_less) (simp add: hvm_bytes_def)
  then show ?thesis using a(1) b(1) c(1) E(2) assms(7)
    by (simp add: HvmInitialize_def HvmInitializePerCpu_def Let_def)
qed

definition context_bytes :: "create_env \<Rightarrow> nat" where
  "context_bytes e = ce_sizeof_hvm_context e + 40 + 8272 + (ce_count e * ce_sizeof_vcpu_context e + 40) +
     ce_count e * (ce_sizeof_tsc_entry e * MAX_TSC_HITS + 40)"

lemma init_contexts_room:
  assumes "smp_returns (per_cpu (InitVcpuContextPerCpu e)) n (Some m, \<lambda>_. zero_vcpu_context) Status (x, w)"
    "has_room m S" "n * (ce_sizeof_tsc_entry e * MAX_TSC_HITS + 40) \<le> S" "env_ok e" "sizes_ok e"
  shows "Status = STATUS_SUCCESS"
proof -
  let ?k = "ce_sizeof_tsc_entry e * MAX_TSC_HITS"
  have k: "0 < ?k" "?k mod 2 ^ 32 = ?k" using assms(4,5) by (simp_all add: env_ok_def sizes_ok_def MAX_TSC_HITS_def)
  define J where "J ds x (w :: nat \<Rightarrow> vcpu_context) \<longleftrightarrow> distinct ds \<and> set ds \<subseteq> {..<n} \<and> (\<exists>m'. x = Some m' \<and> has_room m' (S - List.length ds * (?k + 40)))"
    for ds x w
  have 0: "J [] (Some m) (\<lambda>_. zero_vcpu_context)" using assms(2) by (simp add: J_def)
  have s: "J (ds @ [t]) x' (w(t := c)) \<and> st = STATUS_SUCCESS"
    if "J ds x w" "t \<in> {..<n}" "t \<notin> set ds" "InitVcpuContextPerCpu e t x (w t) = (st, x', c)" for ds t x w st x' c
  proof -
    note j = that(1)
    obtain m1 where m1: "x = Some m1" "has_room m1 (S - List.length ds * (?k + 40))" using j unfolding J_def by blast
    have d: "distinct (ds @ [t])" "set (ds @ [t]) \<subseteq> {..<n}" using that(1-3) by (simp_all add: J_def)
    have "List.length (ds @ [t]) \<le> n" using card_mono [OF _ d(2)] distinct_card [OF d(1)] by simp
    then have "(List.length ds + 1) * (?k + 40) \<le> n * (?k + 40)" by (intro mult_le_mono1) simp
    then have r: "?k + 40 \<le> S - List.length ds * (?k + 40)" using assms(3) by simp
    obtain p m2 where p: "MemAlloc m1 ?k = Some (Some p, m2)" "has_room m2 (S - List.length ds * (?k + 40) - (?k + 40))"
      by (rule has_room_plain [OF m1(2) k(1) r])
    have "InitVcpuContextPerCpu e t x (w t) = (STATUS_SUCCESS, Some (mem_write p (replicate ?k 0) m2), \<lparr>vx_TscHits = Some p, vx_TscOffset = 0\<rparr>)"
      using p(1) k(2) by (simp add: InitVcpuContextPerCpu_def InitializeVcpuContext_def m1(1) Let_def)
    then have "x' = Some (mem_write p (replicate ?k 0) m2)" "st = STATUS_SUCCESS" using that(4) by simp_all
    then show ?thesis using d p(2) by (auto simp: J_def diff_diff_eq add.commute)
  qed
  have s': "\<forall>ds t x w st x' c. J ds x w \<longrightarrow> t \<in> {..<n} \<longrightarrow> t \<notin> set ds \<longrightarrow> InitVcpuContextPerCpu e t x (w t) = (st, x', c) \<longrightarrow>
      J (ds @ [t]) x' (w(t := c)) \<and> st = STATUS_SUCCESS"
    by (intro allI impI) (rule s)
  show ?thesis by (rule smp_returns_inv [where J = J and Q = "\<lambda>_ st _. st = STATUS_SUCCESS", OF assms(1) 0 s']) blast
qed

lemma initialize_contexts_room:
  assumes "DsInitializeHvmContexts e Hvm g Status Hvm' g'" "ds_mem g = Some m" "has_room m S" "context_bytes e \<le> S" "env_ok e" "sizes_ok e"
  shows "Status = STATUS_SUCCESS"
proof -
  let ?n = "ce_count e" and ?c = "ce_sizeof_vcpu_context e"
  obtain p m1 where a: "MemAlloc m (ce_sizeof_hvm_context e) = Some (Some p, m1)" "has_room m1 (S - (ce_sizeof_hvm_context e + 40))"
    by (rule has_room_plain [OF assms(3), of "ce_sizeof_hvm_context e"]) (use assms(4,6) in \<open>simp_all add: context_bytes_def sizes_ok_def\<close>)
  obtain b m2 where b: "MemAllocAligned m1 4096 4096 = Some (Some b, m2)" "has_room m2 (S - (ce_sizeof_hvm_context e + 40) - (4096 + unat (4096 :: u32) + 80))"
    by (rule has_room_aligned [OF a(2), of 4096 4096]) (use assms(4) in \<open>simp_all add: context_bytes_def\<close>)
  let ?m2 = "mem_write b (replicate 4096 0) m2"
  let ?S = "S - (ce_sizeof_hvm_context e + 40) - 8272"
  have k: "0 < ?n * ?c" "?n * ?c < 2 ^ 32" using assms(5,6) by (simp_all add: env_ok_def sizes_ok_def)
  have f2: "has_room ?m2 ?S" using b(2) by simp
  obtain q m3 where q: "MemAllocArray ?m2 ?n ?c = Some (Some q, m3)" "has_room m3 (?S - (?n * ?c + 40))"
    by (rule has_room_array [OF f2 k]) (use assms(4) in \<open>simp_all add: context_bytes_def\<close>)
  have i: "InitializeHvmContext e m1 = Some (True, \<lparr>hcs_SystemCr3 = ce_system_cr3 e, hcs_MsrBitmap = Some b\<rparr>, ?m2)"
    using b(1) by (simp add: InitializeHvmContext_def Let_def)
  obtain ok g1 where c: "init_vcpu_contexts e (HvmSetHvmContext p Hvm)
      (g\<lparr>ds_mem := Some ?m2, gHvmContext := Some (p, \<lparr>hcs_SystemCr3 = ce_system_cr3 e, hcs_MsrBitmap = Some b\<rparr>)\<rparr>) ok Hvm' g1"
    "if ok then Status = STATUS_SUCCESS \<and> g' = g1 else Status = STATUS_UNSUCCESSFUL \<and> DsDeleteHvmContexts e g1 g'"
    using assms(1,2) a(1) i by (auto simp: DsInitializeHvmContexts_def)
  obtain St x w where s: "smp_returns (per_cpu (InitVcpuContextPerCpu e)) ?n (Some m3, \<lambda>_. zero_vcpu_context) St (x, w)" "ok = NT_SUCCESS St"
    using c(1) q(1) by (auto simp: init_vcpu_contexts_def)
  have "St = STATUS_SUCCESS"
    by (rule init_contexts_room [OF s(1) q(2) _ assms(5,6)]) (use assms(4) in \<open>simp add: context_bytes_def\<close>)
  then show ?thesis using c(2) s(2) by simp
qed

text \<open>The bytes of one free block that are enough for a load.\<close>

definition load_size :: "create_env \<Rightarrow> nat" where
  "load_size e = hvm_bytes e (unat DS_HVM_STACK_PAGES) + context_bytes e"

lemma initialize_hvm_room:
  assumes "DsInitializeHvm e Verify g Status g'" "ds_mem g = Some m" "has_room m (load_size e)" "env_ok e" "sizes_ok e" "NT_SUCCESS Verify"
  shows "Status = STATUS_SUCCESS"
proof -
  obtain H m1 where h: "HvmInitialize e Verify DS_HVM_STACK_PAGES m = Some (STATUS_SUCCESS, Some H, m1)"
    "has_room m1 (load_size e - hvm_bytes e (unat DS_HVM_STACK_PAGES))"
    using initialize_room [OF assms(3) _ assms(4,5) _ stack_pages assms(6)] by (auto simp: load_size_def DS_HVM_STACK_PAGES_def)
  obtain H' g1 where c: "DsInitializeHvmContexts e H (g\<lparr>ds_mem := Some m1\<rparr>) Status H' g1"
    using assms(1,2) h(1) by (auto simp: DsInitializeHvm_def)
  have "has_room m1 (context_bytes e)" using h(2) by (simp add: load_size_def)
  from initialize_contexts_room [OF c _ this _ assms(4,5)] show ?thesis by simp
qed

lemma load_room:
  assumes "DsLoadHvm e M Verify (g, cpus) Status s'" "ds_mem g = Some m" "fresh g" "mem_inv m U" "env_ok e" "sizes_ok e"
    "has_room m (load_size e)" "NT_SUCCESS Verify" "\<forall>t<ce_count e. vmx_laws (mc_vmx M t) \<and> off (cpus t) \<and> able (mc_vmx M t)"
  shows "Status = STATUS_SUCCESS"
proof -
  let ?n = "ce_count e"
  obtain St g1 where i: "DsInitializeHvm e Verify g St g1"
    "NT_SUCCESS St \<longrightarrow> (\<exists>h. HvmStart (mc_vmx M) ?n (hvm_view e g1 cpus) Status h)"
    using assms(1) unfolding DsLoadHvm_def prod.case by (elim exE conjE) (auto split: if_splits)
  have St: "St = STATUS_SUCCESS" by (rule initialize_hvm_room [OF i(1) assms(2,7,5,6,8)])
  then obtain h where h: "HvmStart (mc_vmx M) ?n (hvm_view e g1 cpus) Status h" using i(2) by auto
  obtain H m1 where H: "gHvm g1 = Some H" "hvm_ok e (unat DS_HVM_STACK_PAGES) H m1"
    using initialize_hvm_result [OF i(1) assms(2-5)] St by (auto simp: ds_ok_def)
  let ?h = "hvm_view e g1 cpus"
  have nl: "\<not> hm_Launched ?h" using H by (simp add: hvm_view_def hvm_ok_def)
  have v: "hv_vcpu (hm_cpus ?h t) = hs_Vcpus H ! t" "vmx_mode (hm_cpus ?h t) = vmx_mode (cpus t)"
      "cpu_cr4 (hm_cpus ?h t) = cpu_cr4 (cpus t)" for t
    using H(1) by (simp_all add: hvm_view_def vmx_mode_def)
  have rd: "\<forall>t<?n. vmx_laws (mc_vmx M t) \<and> ready (hm_cpus ?h t)"
    using assms(9) v H(2) by (auto simp: ready_def off_def vcpu_ok_def hvm_ok_def)
  have "capable (mc_vmx M t) s" if "t < ?n" for t s using assms(9) that by (auto simp: capable_def able_def)
  then show ?thesis using start_all(4) [OF h nl rd] by (auto simp: started_def)
qed

end
