(* ===== verification/Load_Props.thy ===== *)
theory Load_Props
  imports Load_Room
begin

text \<open>
  What creating, loading and unloading the hypervisor promise: nothing is lost on a failure,
  the exit stub finds its virtual processor, and unloading undoes loading.
\<close>

section \<open>The words above the stack\<close>

text \<open>
  The exit stub computes \<open>RSP OR 0xFF8\<close> (\<open>amd64/hvm_a.asm\<close>) and the entry \<open>RSP + 0x38\<close>; both are
  addresses of a word that holds the address of the virtual processor.
\<close>

definition stub_finds :: "mem_state \<Rightarrow> u64 \<Rightarrow> nat \<Rightarrow> bool" where
  "stub_finds m rsp self \<longleftrightarrow> mem_bytes m (unat (rsp OR 0xFF8)) 8 = le64 (of_nat self) \<and>
     mem_bytes m (unat (rsp + 0x38)) 8 = le64 (of_nat self)"

lemma vcpu_ok_stub:
  assumes "vcpu_ok e pages self i v m" "mem_inv m U" "set (owned_vcpu v) \<subseteq> U"
  shows "stub_finds m (vc_Rsp v) self"
proof -
  obtain s where s: "vc_Stack v = Some s" "4096 dvd s" "pages * 4096 \<le> mem_extent m s" "0 < pages"
    "vc_Rsp v = of_nat (s + pages * 4096 - 64)" "holds m s (pages * 4096 - 8) (le64 (of_nat self))"
    using assms(1) by (auto simp: vcpu_ok_def)
  have "s \<in> U" using assms(3) s(1) by (auto simp: owned_vcpu_def)
  then have "s + mem_extent m s < 2 ^ 64" using mem_inside(2) [OF assms(2)] by blast
  then have b: "s + pages * 4096 < 2 ^ 64" using s(3) by linarith
  have a: "s + pages * 4096 - 8 = s + (pages * 4096 - 8)" using s(4) by simp
  have u: "unat (of_nat (s + pages * 4096 - 8) :: u64) = s + (pages * 4096 - 8)" unfolding a using b
    by (subst unat_of_nat) (simp add: take_bit_eq_mod mod_less)
  have "mem_bytes m (s + (pages * 4096 - 8)) 8 = le64 (of_nat self)" using holds_bytes [OF s(6)] by simp
  then show ?thesis by (simp only: stub_finds_def s(5) stack_top [OF s(2,4) b] u simp_thms)
qed

section \<open>Every call returns\<close>

lemma init_vcpu_contexts_exists: "\<exists>ok H' g'. init_vcpu_contexts e Hvm g ok H' g'"
proof (cases "Option.bind (ds_mem g) (\<lambda>m. MemAllocArray m (ce_count e) (ce_sizeof_vcpu_context e))")
  case (Some r)
  obtain p m where r: "r = (p, m)" by (cases r)
  show ?thesis
  proof (cases p)
    case P: (Some a)
    obtain St m' w where "smp_returns (per_cpu (InitVcpuContextPerCpu e)) (ce_count e) (Some m, \<lambda>_. zero_vcpu_context) St (m', w)"
      using smp_returns_exists [of "per_cpu (InitVcpuContextPerCpu e)" "ce_count e" "(Some m, \<lambda>_. zero_vcpu_context)"] by auto
    then show ?thesis using Some r P by (auto simp: init_vcpu_contexts_def)
  qed (use Some r in \<open>auto simp: init_vcpu_contexts_def\<close>)
qed (auto simp: init_vcpu_contexts_def)

lemma initialize_contexts_exists: "\<exists>St H' g'. DsInitializeHvmContexts e Hvm g St H' g'"
proof (cases "Option.bind (ds_mem g) (\<lambda>m. MemAlloc m (ce_sizeof_hvm_context e))")
  case (Some r)
  obtain p m where r: "r = (p, m)" by (cases r)
  note d = delete_contexts_exists [of e]
  show ?thesis
  proof (cases p)
    case None
    then show ?thesis using Some r d by (simp add: DsInitializeHvmContexts_def)
  next
    case P: (Some a)
    show ?thesis
    proof (cases "InitializeHvmContext e m")
      case None
      then show ?thesis using Some r P by (simp add: DsInitializeHvmContexts_def)
    next
      case (Some c)
      obtain b C m2 where c: "c = (b, C, m2)" by (cases c)
      obtain ok H' g1 where v: "init_vcpu_contexts e (HvmSetHvmContext a Hvm) (g\<lparr>ds_mem := Some m2, gHvmContext := Some (a, C)\<rparr>) ok H' g1"
        using init_vcpu_contexts_exists by blast
      obtain g2 where g2: "DsDeleteHvmContexts e g1 g2" using d by blast
      obtain g3 where g3: "DsDeleteHvmContexts e (g\<lparr>ds_mem := Some m2, gHvmContext := Some (a, C)\<rparr>) g3" using d by blast
      have E: "DsInitializeHvmContexts e Hvm g St H'' g' \<longleftrightarrow>
          (if b then \<exists>ok g1. init_vcpu_contexts e (HvmSetHvmContext a Hvm) (g\<lparr>ds_mem := Some m2, gHvmContext := Some (a, C)\<rparr>) ok H'' g1 \<and>
               (if ok then St = STATUS_SUCCESS \<and> g' = g1 else St = STATUS_UNSUCCESSFUL \<and> DsDeleteHvmContexts e g1 g')
           else St = STATUS_UNSUCCESSFUL \<and> H'' = Hvm \<and> DsDeleteHvmContexts e (g\<lparr>ds_mem := Some m2, gHvmContext := Some (a, C)\<rparr>) g')"
        for St H'' g'
        using Some P r c \<open>Option.bind (ds_mem g) (\<lambda>m. MemAlloc m (ce_sizeof_hvm_context e)) = Some r\<close>
        by (simp add: DsInitializeHvmContexts_def split: bool.split)
      show ?thesis
      proof (cases b)
        case True
        have "\<exists>St g'. if ok then St = STATUS_SUCCESS \<and> g' = g1 else St = STATUS_UNSUCCESSFUL \<and> DsDeleteHvmContexts e g1 g'"
          using g2 by (cases ok) auto
        then obtain St g' where "if ok then St = STATUS_SUCCESS \<and> g' = g1 else St = STATUS_UNSUCCESSFUL \<and> DsDeleteHvmContexts e g1 g'"
          by blast
        then have "DsInitializeHvmContexts e Hvm g St H' g'" unfolding E if_P [OF True] using v by (intro exI conjI)
        then show ?thesis by (intro exI)
      next
        case False
        then show ?thesis unfolding E using g3 by auto
      qed
    qed
  qed
qed (simp add: DsInitializeHvmContexts_def)

lemma initialize_hvm_exists: "\<exists>St g'. DsInitializeHvm e Verify g St g'"
proof (cases "Option.bind (ds_mem g) (HvmInitialize e Verify DS_HVM_STACK_PAGES)")
  case (Some r)
  obtain St H m where r: "r = (St, H, m)" by (cases r)
  show ?thesis
  proof (cases H)
    case None
    then show ?thesis using Some r by (simp add: DsInitializeHvm_def)
  next
    case H: (Some Hvm)
    obtain St2 H2 g1 where "DsInitializeHvmContexts e Hvm (g\<lparr>ds_mem := Some m\<rparr>) St2 H2 g1"
      using initialize_contexts_exists by blast
    then show ?thesis using Some r H by (simp add: DsInitializeHvm_def) blast
  qed
qed (simp add: DsInitializeHvm_def)

lemma finalize_hvm_exists: "\<exists>g'. DsFinalizeHvm e g STATUS_SUCCESS g'"
  using delete_contexts_exists by (simp add: DsFinalizeHvm_def)

lemma hvm_start_exists: "\<exists>St h'. HvmStart v n h St h'"
  using smp_returns_exists [of "per_cpu (\<lambda>t. HvmpStartVcpu (v t))" n "(hm_context h, hm_cpus h)"]
  by (cases "hm_Launched h") (simp_all add: HvmStart_def)

lemma started_or_not: "HvmStart v n h St h' \<Longrightarrow> \<not> hm_Launched h \<Longrightarrow> hm_Launched h' = NT_SUCCESS St"
  by (auto simp: HvmStart_def)

text \<open>A load of a driver without a hypervisor returns, whatever happens on the way.\<close>

lemma load_exists:
  assumes "ds_mem g = Some m" "fresh g" "mem_inv m U" "env_ok e"
  shows "\<exists>Status s'. DsLoadHvm e M Verify (g, cpus) Status s'"
proof -
  obtain St g1 where i: "DsInitializeHvm e Verify g St g1" using initialize_hvm_exists by blast
  show ?thesis
  proof (cases "NT_SUCCESS St")
    case False
    then show ?thesis using i unfolding DsLoadHvm_def prod.case by (intro exI conjI) (rule i, simp)
  next
    case True
    then obtain H m1 where "gHvm g1 = Some H" "hvm_ok e (unat DS_HVM_STACK_PAGES) H m1"
      using initialize_hvm_result [OF i assms] by (auto simp: ds_ok_def)
    then have nl: "\<not> hm_Launched (hvm_view e g1 cpus)" by (simp add: hvm_view_def hvm_ok_def)
    obtain Status h where h: "HvmStart (mc_vmx M) (ce_count e) (hvm_view e g1 cpus) Status h" using hvm_start_exists by blast
    obtain g2 where f: "DsFinalizeHvm e (hvm_store e h g1) STATUS_SUCCESS g2" using finalize_hvm_exists by blast
    have s: "\<not> NT_SUCCESS Status \<Longrightarrow>
        HvmStop (mc_vmcall M) (mc_vmx M) (mc_env M) (ce_count e) h STATUS_UNSUCCESSFUL h"
      using started_or_not [OF h nl] by (simp add: HvmStop_def)
    have "DsLoadHvm e M Verify (g, cpus) Status
        (if NT_SUCCESS Status then (hvm_store e h g1, hm_cpus h) else (g2, hm_cpus h))"
      unfolding DsLoadHvm_def prod.case using True f s
      by (intro exI [of _ St] exI [of _ g1] conjI i) (auto intro!: exI [of _ h] h)
    then show ?thesis by blast
  qed
qed

lemma unload_exists:
  assumes "loaded e g cpus m1" "\<forall>t<ce_count e. quiet_laws (mc_vmcall M t)"
  shows "\<exists>Status s'. DsUnloadHvm e M (g, cpus) Status s'"
proof -
  obtain H where H: "gHvm g = Some H" "hs_Launched H" using assms(1) by (auto simp: loaded_def)
  have l: "hm_Launched (hvm_view e g cpus)" "\<forall>t<ce_count e. vmcall_laws (mc_vmcall M t)"
    using H assms(2) by (simp_all add: hvm_view_def quiet_laws_def)
  obtain h where h: "HvmStop (mc_vmcall M) (mc_vmx M) (mc_env M) (ce_count e) (hvm_view e g cpus) STATUS_SUCCESS h"
    unfolding stop_all [OF l] by simp
  obtain g2 where f: "DsFinalizeHvm e (hvm_store e h g) STATUS_SUCCESS g2" using finalize_hvm_exists by blast
  have "DsUnloadHvm e M (g, cpus) STATUS_SUCCESS (g2, hm_cpus h)"
    unfolding DsUnloadHvm_def prod.case using H(1) h f by (auto simp: DsIsHvmInitialized_def intro!: exI [of _ h])
  then show ?thesis by blast
qed

text \<open>A processor that refuses every control structure keeps the load from succeeding.\<close>

lemma load_needs:
  assumes "DsLoadHvm e M Verify (g, cpus) Status (g', cpus')" "ds_mem g = Some m" "fresh g" "mem_inv m U" "env_ok e"
    "\<forall>t<ce_count e. vmx_laws (mc_vmx M t) \<and> off (cpus t)" "NT_SUCCESS Status" "t < ce_count e"
  shows "\<exists>p. ve_load (mc_vmx M t) p"
proof -
  let ?n = "ce_count e"
  obtain St g1 h where i: "DsInitializeHvm e Verify g St g1" "NT_SUCCESS St"
    "HvmStart (mc_vmx M) ?n (hvm_view e g1 cpus) Status h"
    using assms(1,7) unfolding DsLoadHvm_def by (auto split: if_splits)
  then obtain H m1 where H: "gHvm g1 = Some H" "hvm_ok e (unat DS_HVM_STACK_PAGES) H m1"
    using initialize_hvm_result [OF i(1) assms(2-5)] by (auto simp: ds_ok_def)
  let ?h = "hvm_view e g1 cpus"
  have nl: "\<not> hm_Launched ?h" using H by (simp add: hvm_view_def hvm_ok_def)
  have v: "hv_vcpu (hm_cpus ?h t) = hs_Vcpus H ! t" "vmx_mode (hm_cpus ?h t) = vmx_mode (cpus t)"
      "cpu_cr4 (hm_cpus ?h t) = cpu_cr4 (cpus t)" for t
    using H(1) by (simp_all add: hvm_view_def vmx_mode_def)
  have rd: "\<forall>t<?n. vmx_laws (mc_vmx M t) \<and> ready (hm_cpus ?h t)"
    using assms(6) v H(2) by (auto simp: ready_def off_def vcpu_ok_def hvm_ok_def)
  have "Status = STATUS_SUCCESS" using start_all(4) [OF i(3) nl rd] assms(7) by (auto simp: started_def)
  then show ?thesis using start_all(3) [OF i(3) nl rd] assms(8) by (auto simp: started_def)
qed

section \<open>Properties\<close>

text \<open>
  C30: \<open>HvmInitialize\<close> always returns.  On success every part of every virtual processor is
  there, aligned and separate from what others hold, the exit stub and the entry find the
  virtual processor of their stack, and \<open>HvmFinalize\<close> gives everything back; on a failure
  everything taken has been given back.  No block of another owner is touched.\<close>

theorem hvm_initialize_correct:
  assumes "mem_inv m U" "env_ok e" "unat StackPages < 2 ^ 20"
  shows "\<exists>Status Hvm m'. HvmInitialize e Verify StackPages m = Some (Status, Hvm, m') \<and>
    NT_SUCCESS Status = (Hvm \<noteq> None) \<and>
    (case Hvm of None \<Rightarrow> takes m U [] m'
     | Some Hvm \<Rightarrow> NT_SUCCESS Verify \<and> takes m U (owned_hvm Hvm) m' \<and> hvm_ok e (unat StackPages) Hvm m' \<and>
         (\<forall>i<ce_count e. stub_finds m' (vc_Rsp (hs_Vcpus Hvm ! i)) (vcpu_at e (the (hs_VcpuArray Hvm)) i)) \<and>
         (\<exists>m''. HvmFinalize Hvm m' = Some m'' \<and> takes m U [] m''))"
proof -
  obtain Status Hvm m' where r: "HvmInitialize e Verify StackPages m = Some (Status, Hvm, m')"
    "case Hvm of None \<Rightarrow> \<not> NT_SUCCESS Status \<and> takes m U [] m'
     | Some Hvm \<Rightarrow> Status = STATUS_SUCCESS \<and> NT_SUCCESS Verify \<and> takes m U (owned_hvm Hvm) m' \<and> hvm_ok e (unat StackPages) Hvm m'"
    by (rule initialize_result [OF assms])
  show ?thesis
  proof (cases Hvm)
    case None
    then show ?thesis using r by (intro exI [of _ Status] exI [of _ None] exI [of _ m']) simp
  next
    case (Some H)
    then have I: "Status = STATUS_SUCCESS" "NT_SUCCESS Verify" "takes m U (owned_hvm H) m'" "hvm_ok e (unat StackPages) H m'"
      using r(2) by simp_all
    obtain A where A: "hs_VcpuArray H = Some A" "List.length (hs_Vcpus H) = ce_count e"
      "\<forall>i<ce_count e. vcpu_ok e (unat StackPages) (vcpu_at e A i) i (hs_Vcpus H ! i) m'"
      using I(4) by (auto simp: hvm_ok_def)
    have "stub_finds m' (vc_Rsp (hs_Vcpus H ! i)) (vcpu_at e A i)" if i: "i < ce_count e" for i
    proof (rule vcpu_ok_stub [OF _ takesD(1) [OF I(3)]])
      show "vcpu_ok e (unat StackPages) (vcpu_at e A i) i (hs_Vcpus H ! i) m'" using A(3) i by simp
      have "hs_Vcpus H ! i \<in> set (hs_Vcpus H)" using A(2) i by simp
      then show "set (owned_vcpu (hs_Vcpus H ! i)) \<subseteq> U \<union> set (owned_hvm H)" by (auto simp: owned_hvm_def owned_vcpus_def)
    qed
    moreover obtain m'' where "free_all (owned_hvm H) m' = Some m''" "takes m U [] m''" by (rule takes_free_all [OF I(3)])
    ultimately show ?thesis using r(1) Some I A(1) finalize_all [OF A(1), of m']
      by (intro exI [of _ Status] exI [of _ Hvm] exI [of _ m']) simp
  qed
qed

text \<open>
  C6: Loading a driver without a hypervisor always returns.  On success all processors run
  their guests, each on its own control structure, which lies in memory the driver holds; on a
  failure the driver holds nothing and has no hypervisor.  And it does succeed, in whatever order
  the processors go, when each of them is able to and one free block is as large as
  \<open>load_size\<close>.\<close>

theorem load_correct:
  assumes "ds_mem g = Some m" "fresh g" "mem_inv m U" "env_ok e" "\<forall>t<ce_count e. vmx_laws (mc_vmx M t) \<and> off (cpus t)"
  shows "(\<exists>Status s'. DsLoadHvm e M Verify (g, cpus) Status s') \<and>
    (\<forall>Status g' cpus'. DsLoadHvm e M Verify (g, cpus) Status (g', cpus') \<longrightarrow>
      (\<exists>m'. ds_mem g' = Some m' \<and>
        (if NT_SUCCESS Status then DsIsHvmLaunched g' \<and> takes m U (owned_ds (ce_count e) g') m' \<and> loaded e g' cpus' m'
         else \<not> DsIsHvmInitialized g' \<and> fresh g' \<and> takes m U [] m')) \<and>
      (NT_SUCCESS Verify \<and> sizes_ok e \<and> has_room m (load_size e) \<and> (\<forall>t<ce_count e. able (mc_vmx M t)) \<longrightarrow> Status = STATUS_SUCCESS))"
proof (intro conjI allI impI)
  show "\<exists>Status s'. DsLoadHvm e M Verify (g, cpus) Status s'" by (rule load_exists [OF assms(1-4)])
  fix Status g' cpus'
  assume r: "DsLoadHvm e M Verify (g, cpus) Status (g', cpus')"
  show "\<exists>m'. ds_mem g' = Some m' \<and>
      (if NT_SUCCESS Status then DsIsHvmLaunched g' \<and> takes m U (owned_ds (ce_count e) g') m' \<and> loaded e g' cpus' m'
       else \<not> DsIsHvmInitialized g' \<and> fresh g' \<and> takes m U [] m')"
    using load_result [OF r assms]
    by (fastforce simp: DsIsHvmLaunched_def DsIsHvmInitialized_def loaded_def fresh_def split: if_splits)
  assume "NT_SUCCESS Verify \<and> sizes_ok e \<and> has_room m (load_size e) \<and> (\<forall>t<ce_count e. able (mc_vmx M t))"
  then show "Status = STATUS_SUCCESS" using load_room [OF r assms(1-4)] assms(5) by blast
qed

text \<open>
  C31: A load that fails once its structures were created leaves every processor that could
  enter its guest running on a control structure that \<open>DsFinalizeHvm\<close> has released: \<open>HvmStop\<close>
  refuses to stop a hypervisor that is not marked launched.\<close>

theorem failed_load_frees_running:
  assumes "DsLoadHvm e M Verify (g, cpus) Status (g', cpus')" "\<not> NT_SUCCESS Status" "ds_mem g = Some m" "fresh g" "mem_inv m U"
    "env_ok e" "\<forall>t<ce_count e. vmx_laws (mc_vmx M t) \<and> off (cpus t)" "t < ce_count e" "able (mc_vmx M t)"
  shows "(cpus' = cpus \<and> (\<exists>St g1. DsInitializeHvm e Verify g St g1 \<and> \<not> NT_SUCCESS St)) \<or>
    (\<exists>m' c. ds_mem g' = Some m' \<and> takes m U [] m' \<and> c \<notin> U \<and> vmx_mode (cpus' t) = VmxGuest (ce_pa e c))"
proof -
  obtain m' where m': "ds_mem g' = Some m'" "takes m U [] m'"
    "cpus' = cpus \<or> (\<forall>t<ce_count e. (off (cpus' t) \<or> (\<exists>c. c \<notin> U \<and> vmx_mode (cpus' t) = VmxGuest (ce_pa e c))) \<and>
          (able (mc_vmx M t) \<longrightarrow> vmx_mode (cpus' t) \<noteq> VmxOff))"
    "cpus' \<noteq> cpus \<or> (\<exists>St g1. DsInitializeHvm e Verify g St g1 \<and> \<not> NT_SUCCESS St) \<or> (\<forall>t<ce_count e. \<not> able (mc_vmx M t))"
    using load_result [OF assms(1,3-7)] assms(2) by (metis (no_types, lifting))
  show ?thesis
  proof (cases "cpus' = cpus")
    case True
    then show ?thesis using m'(4) assms(8,9) by blast
  next
    case False
    then have "(off (cpus' t) \<or> (\<exists>c. c \<notin> U \<and> vmx_mode (cpus' t) = VmxGuest (ce_pa e c))) \<and> vmx_mode (cpus' t) \<noteq> VmxOff"
      using m'(3) assms(8,9) by blast
    then show ?thesis using m'(1,2) by (auto simp: off_def)
  qed
qed

text \<open>
  C7: Unloading after a load can be carried out and undoes it: the hypervisor is stopped on
  every processor, the driver has no hypervisor and holds no memory, and what others hold is
  untouched.\<close>

theorem load_unload_roundtrip:
  assumes "DsLoadHvm e M Verify (g, cpus) Status (g1, cpus1)" "NT_SUCCESS Status" "ds_mem g = Some m" "fresh g" "mem_inv m U"
    "env_ok e" "\<forall>t<ce_count e. vmx_laws (mc_vmx M t) \<and> off (cpus t)" "\<forall>t<ce_count e. quiet_laws (mc_vmcall M t)"
  shows "(\<exists>Status s'. DsUnloadHvm e M (g1, cpus1) Status s') \<and>
    (\<forall>Status g2 cpus2. DsUnloadHvm e M (g1, cpus1) Status (g2, cpus2) \<longrightarrow> Status = STATUS_SUCCESS \<and> fresh g2 \<and>
      (\<forall>t<ce_count e. vmx_mode (cpus2 t) = VmxOff) \<and> (\<exists>m'. ds_mem g2 = Some m' \<and> takes m U [] m'))"
proof -
  obtain m1 where m1: "ds_mem g1 = Some m1" "takes m U (owned_ds (ce_count e) g1) m1" "loaded e g1 cpus1 m1"
    using load_result [OF assms(1,3-7)] assms(2) by auto
  show ?thesis using unload_exists [OF m1(3) assms(8)] unload_result [OF _ m1 assms(8)] by blast
qed

section \<open>Examples\<close>

definition example_create :: create_env where
  "example_create = \<lparr>ce_pa = (\<lambda>a. of_nat a), ce_count = 2,
     ce_vm = VmInitializeVmState (example_fixed_msr(IA32_VMX_BASIC := 0x00DA040000000004)),
     ce_system_cr3 = 0x1AD000, ce_sizeof_vcpu = 4096, ce_sizeof_hvm = 512, ce_sizeof_hvm_context = 16,
     ce_sizeof_vcpu_context = 16, ce_sizeof_tsc_entry = 32\<rparr>"

definition example_memory :: mem_state where
  "example_memory = \<lparr>gMemoryArena = zero_arena, gHeap = HeapCreate zero_headers (\<lambda>_. 0) 0x100000 0x400000\<rparr>"

definition example_driver :: ds_globals where
  "example_driver = \<lparr>ds_mem = Some example_memory, gHvm = None, gHvmContext = None, gVcpuContexts = None\<rparr>"

text \<open>The second processor refuses control structures unless \<open>ok\<close>.\<close>

definition example_machine :: "bool \<Rightarrow> machine" where
  "example_machine ok = \<lparr>mc_vmcall = (\<lambda>_. example_vmcall), mc_vmx = example_envs ok, mc_env = (\<lambda>_. example_hv_env)\<rparr>"

lemma example_driver_laws:
  "ds_mem example_driver = Some example_memory" "fresh example_driver" "mem_inv example_memory {}"
proof -
  show "ds_mem example_driver = Some example_memory" "fresh example_driver"
    by (simp_all add: example_driver_def fresh_def no_contexts_def)
  obtain h where h: "HeapCreate zero_headers (\<lambda>_. 0) 0x100000 0x400000 = Some h" "hp_memory h = 0x101000" "hp_size h = 0x3FF000"
    by (simp add: HeapCreate_def)
  then show "mem_inv example_memory {}" using HeapCreate_inv [OF h(1)] by (simp add: mem_inv_def example_memory_def)
qed

lemma example_create_ok: "env_ok example_create" "ce_count example_create = 2"
  by (simp_all add: env_ok_def example_create_def VMCS_REGION_SIZE_def VmInitializeVmState_def Let_def MAX_TSC_HITS_def vm_capabilities_def
    unsigned_take_bit_eq take_bit_eq_mod drop_bit_eq_div unat_drop_bit_eq)

lemma example_driver_room: "sizes_ok example_create" "has_room example_memory (load_size example_create)"
proof -
  show "sizes_ok example_create" by (simp add: sizes_ok_def example_create_def)
  obtain h where h: "HeapCreate zero_headers (\<lambda>_. 0) 0x100000 0x400000 = Some h" by (simp add: HeapCreate_def)
  have "room h (0x400000 - 4096 - 24)" by (rule create_room [OF h])
  then have "has_room example_memory (0x400000 - 4096 - 24)"
    using example_driver_laws(3) h by (auto simp: has_room_def mem_room_def example_memory_def)
  moreover have "unat (VMCS_REGION_SIZE (ce_vm example_create)) \<le> 8192"
    by (simp add: example_create_def VMCS_REGION_SIZE_def VmInitializeVmState_def Let_def vm_capabilities_def
        unsigned_take_bit_eq take_bit_eq_mod drop_bit_eq_div unat_drop_bit_eq)
  then have "load_size example_create \<le> 0x400000 - 4096 - 24"
    by (simp add: load_size_def hvm_bytes_def vcpu_bytes_def context_bytes_def DS_HVM_STACK_PAGES_def MAX_TSC_HITS_def)
      (simp add: example_create_def)
  ultimately show "has_room example_memory (load_size example_create)" by (rule has_room_less)
qed

lemma example_machine_laws:
  "\<forall>t<n. vmx_laws (mc_vmx (example_machine ok) t) \<and> off ((\<lambda>_. example_off) t)" "able (mc_vmx (example_machine ok) 0)"
  "\<forall>t<n. quiet_laws (mc_vmcall (example_machine ok) t)" "\<not> ve_load (mc_vmx (example_machine False) 1) p"
  "able (mc_vmx (example_machine True) t)"
  using example_vmx_laws example_off_laws(1,2) example_vmcall_laws
  by (simp_all add: example_machine_def example_envs_def vmx_laws_def off_def able_def quiet_laws_def)
    (simp add: example_vmcall_def)

theorem hvm_initialize_correct_witness:
  "\<exists>Hvm m'. HvmInitialize example_create STATUS_SUCCESS 3 example_memory = Some (STATUS_SUCCESS, Some Hvm, m') \<and>
     stub_finds m' (vc_Rsp (hs_Vcpus Hvm ! 1)) (vcpu_at example_create (the (hs_VcpuArray Hvm)) 1)"
proof -
  have "hvm_bytes example_create (unat (3 :: u32)) \<le> load_size example_create"
    by (simp add: load_size_def hvm_bytes_def vcpu_bytes_def DS_HVM_STACK_PAGES_def)
  from initialize_room [OF example_driver_room(2) this example_create_ok(1) example_driver_room(1), of STATUS_SUCCESS]
  obtain H m' where h: "HvmInitialize example_create STATUS_SUCCESS 3 example_memory = Some (STATUS_SUCCESS, Some H, m')" by auto
  then show ?thesis
    using hvm_initialize_correct [OF example_driver_laws(3) example_create_ok(1), of 3 STATUS_SUCCESS] example_create_ok(2) by auto
qed

theorem load_correct_witness:
  "\<exists>g' cpus'. DsLoadHvm example_create (example_machine True) STATUS_SUCCESS (example_driver, \<lambda>_. example_off) STATUS_SUCCESS (g', cpus') \<and>
     DsIsHvmLaunched g'"
proof -
  note L = load_correct [OF example_driver_laws example_create_ok(1) example_machine_laws(1) [of "ce_count example_create" True], of STATUS_SUCCESS]
  obtain Status g' cpus' where r: "DsLoadHvm example_create (example_machine True) STATUS_SUCCESS (example_driver, \<lambda>_. example_off) Status (g', cpus')"
    using L by auto
  then have "Status = STATUS_SUCCESS" using L example_driver_room example_machine_laws(5) by simp
  then have s: "DsLoadHvm example_create (example_machine True) STATUS_SUCCESS (example_driver, \<lambda>_. example_off) STATUS_SUCCESS (g', cpus')"
    using r by simp
  then have "DsIsHvmLaunched g'" using L by fastforce
  then show ?thesis using s by blast
qed

theorem failed_load_frees_running_witness:
  "\<exists>Status g' cpus' c. DsLoadHvm example_create (example_machine False) STATUS_SUCCESS (example_driver, \<lambda>_. example_off) Status (g', cpus') \<and>
     \<not> NT_SUCCESS Status \<and> vmx_mode (cpus' 0) = VmxGuest (ce_pa example_create c)"
proof -
  note l = example_driver_laws example_create_ok(1)
  note v = example_machine_laws(1) [of "ce_count example_create" False]
  obtain Status g' cpus' where r: "DsLoadHvm example_create (example_machine False) STATUS_SUCCESS (example_driver, \<lambda>_. example_off) Status (g', cpus')"
    using load_exists [OF l] by fastforce
  have f: "\<not> NT_SUCCESS Status"
    using load_needs [OF r l v, of 1] example_machine_laws(4) example_create_ok(2) by auto
  have i: "NT_SUCCESS St" if "DsInitializeHvm example_create STATUS_SUCCESS example_driver St g1" for St g1
    using initialize_hvm_room [OF that l(1) example_driver_room(2) l(4) example_driver_room(1)] by simp
  have "0 < ce_count example_create" using example_create_ok(2) by simp
  from failed_load_frees_running [OF r f l v this example_machine_laws(2)] obtain c where "vmx_mode (cpus' 0) = VmxGuest (ce_pa example_create c)"
    using i by blast
  then show ?thesis using r f by blast
qed

theorem load_unload_roundtrip_witness:
  "\<exists>g1 cpus1 g2 cpus2. DsLoadHvm example_create (example_machine True) STATUS_SUCCESS (example_driver, \<lambda>_. example_off) STATUS_SUCCESS (g1, cpus1) \<and>
     DsUnloadHvm example_create (example_machine True) (g1, cpus1) STATUS_SUCCESS (g2, cpus2) \<and> fresh g2 \<and> vmx_mode (cpus2 1) = VmxOff"
proof -
  note l = example_driver_laws example_create_ok(1)
  note v = example_machine_laws(1) [of "ce_count example_create" True]
  obtain Status g1 cpus1 where r: "DsLoadHvm example_create (example_machine True) STATUS_SUCCESS (example_driver, \<lambda>_. example_off) Status (g1, cpus1)"
    using load_exists [OF l] by fastforce
  have s: "Status = STATUS_SUCCESS"
    by (rule load_room [OF r l example_driver_room]) (use v example_machine_laws(5) in simp_all)
  note R = load_unload_roundtrip [OF r [unfolded s] _ l v example_machine_laws(3)]
  obtain St g2 cpus2 where u: "DsUnloadHvm example_create (example_machine True) (g1, cpus1) St (g2, cpus2)" using R by auto
  then have "St = STATUS_SUCCESS" "fresh g2" "vmx_mode (cpus2 1) = VmxOff" using R example_create_ok(2) by auto
  then show ?thesis using r s u by blast
qed

end
