(* ===== verification/Channel.thy ===== *)
theory Channel
  imports Prelude Transition
begin

text \<open>
  The channel to the helper process (\<open>channel.c\<close>): a page range of buckets shared with user
  mode, two events per bucket, and a bitmap from which senders take buckets without a lock.
  Handles and objects are numbers, 0 being null; the calls of the kernel are recorded in order.
\<close>

section \<open>Data\<close>

definition DS_MAX_BUCKETS :: nat where "DS_MAX_BUCKETS = 16"
definition DS_BUCKET_DATA_SIZE :: nat where "DS_BUCKET_DATA_SIZE = 1008"

datatype ds_event = LowEvent | HighEvent

definition NotificationMessage :: u32 where "NotificationMessage = 2"
definition TerminateMessage :: u32 where "TerminateMessage = 3"

definition TeardownReason :: u32 where "TeardownReason = 1"
definition NoOpenDeviceReason :: u32 where "NoOpenDeviceReason = 2"
definition UnloadDriverReason :: u32 where "UnloadDriverReason = 3"
definition InitErrorReason :: u32 where "InitErrorReason = 4"

record bucket_client =
  bk_EventHandle :: "ds_event \<Rightarrow> nat"
  bk_Data :: "u8 list"

type_synonym bucket_server = "ds_event \<Rightarrow> nat"

record ds_channel =
  ch_ChannelId :: u32
  ch_Mdl :: nat
  ch_UserVa :: nat
  ch_UserSize :: nat
  ch_BucketsBitMap :: u32
  ch_BucketCount :: nat
  ch_ServerBuckets :: "bucket_server list"
  ch_Buckets :: "bucket_client list"

datatype ch_call =
    ChAllocPool
  | ChFreePool
  | ChAllocMdl nat
  | ChFreeMdl nat
  | ChMap nat
  | ChUnmap nat
  | ChCreateEvent nat
  | ChClose nat
  | ChReference nat
  | ChDereference nat
  | ChSetEvent nat
  | ChWaitAll "nat list"
  | ChResetUniqueId

text \<open>What the kernel answers, per bucket and event.\<close>

record ch_env =
  ck_pool :: bool
  ck_mdl :: nat
  ck_map :: nat
  ck_tick :: u32
  ck_create :: "nat \<Rightarrow> ds_event \<Rightarrow> ntstatus \<times> nat"
  ck_reference :: "nat \<Rightarrow> ds_event \<Rightarrow> ntstatus \<times> nat"

section \<open>The events of a bucket\<close>

text \<open>
  A handle that cannot be created is not assigned; a reference that fails leaves a null
  object.  No handle or object is cleared on the failing paths.  The numbering of messages starts
  over.
\<close>

definition DsInitializeBucketEvents ::
  "ch_env \<Rightarrow> nat \<Rightarrow> bucket_client \<Rightarrow> bucket_server \<Rightarrow> ntstatus \<times> bucket_client \<times> bucket_server \<times> ch_call list" where
  "DsInitializeBucketEvents k i Bucket Server =
     (let (Status, low) = ck_create k i LowEvent
      in if \<not> NT_SUCCESS Status then (Status, Bucket, Server, [ChResetUniqueId]) else
      let Bucket = Bucket\<lparr>bk_EventHandle := (bk_EventHandle Bucket)(LowEvent := low)\<rparr>;
          (Status, obj) = ck_reference k i LowEvent
      in if \<not> NT_SUCCESS Status then (Status, Bucket, Server(LowEvent := 0), [ChResetUniqueId, ChCreateEvent low, ChClose low]) else
      let Server = Server(LowEvent := obj);
          (Status, high) = ck_create k i HighEvent
      in if \<not> NT_SUCCESS Status
         then (Status, Bucket, Server, [ChResetUniqueId, ChCreateEvent low, ChReference obj, ChDereference obj, ChClose low]) else
      let Bucket = Bucket\<lparr>bk_EventHandle := (bk_EventHandle Bucket)(HighEvent := high)\<rparr>;
          (Status, obj2) = ck_reference k i HighEvent
      in if \<not> NT_SUCCESS Status
         then (Status, Bucket, Server(HighEvent := 0),
               [ChResetUniqueId, ChCreateEvent low, ChReference obj, ChCreateEvent high, ChClose high, ChDereference obj, ChClose low])
         else (Status, Bucket, Server(HighEvent := obj2),
               [ChResetUniqueId, ChCreateEvent low, ChReference obj, ChCreateEvent high, ChReference obj2]))"

definition cleanup_event :: "bucket_client \<Rightarrow> bucket_server \<Rightarrow> ds_event \<Rightarrow> ch_call list" where
  "cleanup_event Bucket Server ev =
     (if bk_EventHandle Bucket ev = 0 then []
      else (if Server ev = 0 then [] else [ChDereference (Server ev)]) @ [ChClose (bk_EventHandle Bucket ev)])"

definition DsCleanupBucketEvents :: "bucket_client \<Rightarrow> bucket_server \<Rightarrow> ch_call list" where
  "DsCleanupBucketEvents Bucket Server = cleanup_event Bucket Server HighEvent @ cleanup_event Bucket Server LowEvent"

section \<open>Setting the channel up and taking it down\<close>

definition le_message :: "u64 \<Rightarrow> u32 \<Rightarrow> u32 \<Rightarrow> u8 list" where
  "le_message UniqueId ControlFlags MessageType = le64 UniqueId @ le32 ControlFlags @ le32 MessageType"

definition terminate_message :: "u32 \<Rightarrow> u8 list" where
  "terminate_message Reason = le_message 0 0 TerminateMessage @ le32 Reason @ le32 0"

definition write_data :: "u8 list \<Rightarrow> bucket_client \<Rightarrow> bucket_client" where
  "write_data bs Bucket = Bucket\<lparr>bk_Data := bs @ drop (List.length bs) (bk_Data Bucket)\<rparr>"

text \<open>
  Signals every bucket's helper, waits for all acknowledgements (at most three seconds) and
  gives everything back.  The channel's memory is gone afterwards.
\<close>

definition DsDestroyChannel :: "u32 \<Rightarrow> ds_channel \<Rightarrow> ch_call list" where
  "DsDestroyChannel Reason Channel =
     (let n = ch_BucketCount Channel;
          Buckets = map (write_data (terminate_message Reason)) (take n (ch_Buckets Channel));
          Server = take n (ch_ServerBuckets Channel)
      in map (\<lambda>s. ChSetEvent (s HighEvent)) Server @
         [ChWaitAll (map (\<lambda>s. s LowEvent) Server)] @
         concat (map2 DsCleanupBucketEvents Buckets Server) @
         (if ch_Mdl Channel = 0 then []
          else (if ch_UserVa Channel = 0 then [] else [ChUnmap (ch_UserVa Channel)]) @ [ChFreeMdl (ch_Mdl Channel)]) @
         [ChFreePool])"

text \<open>The loop over the buckets, from bucket \<open>i\<close> on with \<open>j\<close> to go; it stops at the first failure.\<close>

fun init_buckets :: "ch_env \<Rightarrow> nat \<Rightarrow> nat \<Rightarrow> ntstatus \<Rightarrow> ds_channel \<Rightarrow> ntstatus \<times> ds_channel \<times> ch_call list" where
  "init_buckets k i 0 Status Channel = (Status, Channel, [])"
| "init_buckets k i (Suc j) Status Channel =
     (let (Status, b, s, calls) = DsInitializeBucketEvents k i (ch_Buckets Channel ! i) (ch_ServerBuckets Channel ! i);
          Channel = Channel\<lparr>ch_Buckets := (ch_Buckets Channel)[i := b], ch_ServerBuckets := (ch_ServerBuckets Channel)[i := s]\<rparr>
      in if \<not> NT_SUCCESS Status then (Status, Channel, calls)
         else let (Status, Channel, calls') = init_buckets k (i + 1) j Status Channel in (Status, Channel, calls @ calls'))"

definition zero_channel :: ds_channel where
  "zero_channel = \<lparr>ch_ChannelId = 0, ch_Mdl = 0, ch_UserVa = 0, ch_UserSize = 0, ch_BucketsBitMap = 0, ch_BucketCount = 0,
     ch_ServerBuckets = replicate DS_MAX_BUCKETS (\<lambda>_. 0),
     ch_Buckets = replicate DS_MAX_BUCKETS \<lparr>bk_EventHandle = (\<lambda>_. 0), bk_Data = replicate DS_BUCKET_DATA_SIZE 0\<rparr>\<rparr>"

text \<open>\<open>Status\<close> is still that of missing resources when there is no bucket.\<close>

definition DsInitializeChannel :: "ch_env \<Rightarrow> nat \<Rightarrow> ntstatus \<times> ds_channel option \<times> ch_call list" where
  "DsInitializeChannel k BucketCount =
     (if \<not> ck_pool k then (STATUS_INSUFFICIENT_RESOURCES, None, []) else
      let Channel = zero_channel\<lparr>ch_ChannelId := ck_tick k, ch_BucketsBitMap := push_bit DS_MAX_BUCKETS 1 - 1,
            ch_BucketCount := BucketCount\<rparr>;
          Status = STATUS_INSUFFICIENT_RESOURCES
      in if ck_mdl k = 0 then (Status, None, ChAllocPool # DsDestroyChannel InitErrorReason Channel) else
      let Channel = Channel\<lparr>ch_Mdl := ck_mdl k\<rparr>;
          calls = [ChAllocPool, ChAllocMdl (ck_mdl k)]
      in if ck_map k = 0 then (STATUS_NONE_MAPPED, None, calls @ DsDestroyChannel InitErrorReason Channel) else
      let Channel = Channel\<lparr>ch_UserVa := ck_map k, ch_UserSize := 1024 * BucketCount\<rparr>;
          calls = calls @ [ChMap (ck_map k)];
          (Status, Channel, calls') = init_buckets k 0 BucketCount Status Channel
      in if NT_SUCCESS Status then (Status, Some Channel, calls @ calls')
         else (Status, None, calls @ calls' @ DsDestroyChannel InitErrorReason Channel))"

section \<open>Taking a bucket\<close>

definition NO_BUCKET_FOUND :: u32 where "NO_BUCKET_FOUND = 0xFFFFFFFF"

text \<open>The bitmap is a signed \<open>LONG\<close>, widened to 64 bits for the search.\<close>

definition RtlFindMostSignificantBit :: "u64 \<Rightarrow> nat option" where
  "RtlFindMostSignificantBit w = (case filter (bit w) (rev [0..<64]) of [] \<Rightarrow> None | i # is \<Rightarrow> Some i)"

definition find_free :: "u32 \<Rightarrow> nat option" where
  "find_free bm = RtlFindMostSignificantBit (scast bm)"

text \<open>
  \<open>DsAcquireChannelBucket\<close> of one thread, step by step.  \<open>AcqTest i\<close> has read the bitmap and
  chosen \<open>i\<close>; the interlocked instruction then tests and clears it, and a lost race starts over.
\<close>

datatype bucket_pc = AcqRead | AcqTest nat | AcqNone | AcqHolds nat | AcqIdle

datatype bucket_step = Begin | Advance | Release

fun bucket_next :: "bucket_step \<Rightarrow> u32 \<Rightarrow> bucket_pc \<Rightarrow> (u32 \<times> bucket_pc) option" where
  "bucket_next Begin bm AcqIdle = Some (bm, AcqRead)"
| "bucket_next Begin bm AcqNone = Some (bm, AcqRead)"
| "bucket_next Advance bm AcqRead = Some (bm, case find_free bm of None \<Rightarrow> AcqNone | Some i \<Rightarrow> AcqTest i)"
| "bucket_next Advance bm (AcqTest i) = Some (if bit bm i then (unset_bit i bm, AcqHolds i) else (bm, AcqRead))"
| "bucket_next Release bm (AcqHolds i) = Some (set_bit i bm, AcqIdle)"
| "bucket_next _ bm _ = None"

record bucket_state =
  bs_map :: u32
  bs_pc :: "nat \<Rightarrow> bucket_pc"

inductive bucket_trans :: "bucket_state \<Rightarrow> bucket_state \<Rightarrow> bool" where
  "bucket_next a (bs_map s) (bs_pc s t) = Some (bm, pc) \<Longrightarrow>
     bucket_trans s \<lparr>bs_map = bm, bs_pc = (bs_pc s)(t := pc)\<rparr>"

definition bucket_init :: "bucket_state \<Rightarrow> bool" where
  "bucket_init s \<longleftrightarrow> bs_map s = push_bit DS_MAX_BUCKETS 1 - 1 \<and> (\<forall>t. bs_pc s t = AcqIdle)"

text \<open>The call as a whole, when no other thread interferes.\<close>

definition DsAcquireChannelBucket :: "ds_channel \<Rightarrow> ntstatus \<times> u32 \<times> ds_channel" where
  "DsAcquireChannelBucket Channel =
     (case find_free (ch_BucketsBitMap Channel) of
        None \<Rightarrow> (STATUS_INSUFFICIENT_RESOURCES, NO_BUCKET_FOUND, Channel)
      | Some i \<Rightarrow> (STATUS_SUCCESS, of_nat i, Channel\<lparr>ch_BucketsBitMap := unset_bit i (ch_BucketsBitMap Channel)\<rparr>))"

definition DsReleaseChannelBucket :: "u32 \<Rightarrow> ds_channel \<Rightarrow> ds_channel" where
  "DsReleaseChannelBucket BucketIndex Channel = Channel\<lparr>ch_BucketsBitMap := set_bit (unat BucketIndex) (ch_BucketsBitMap Channel)\<rparr>"

section \<open>Sending\<close>

text \<open>
  \<open>EX_RUNDOWN_REF\<close>: the references held, and whether the protection has been run down.
  \<open>ce_reply\<close> of the helper: what it leaves in the bucket and how the wait ends.
\<close>

record rundown =
  rd_refs :: nat
  rd_closed :: bool

record sender =
  sd_channel :: ds_channel
  sd_rundown :: rundown
  sd_UniqueId :: u64

definition DSH_GFL_CHANNEL_SETUP :: u32 where "DSH_GFL_CHANNEL_SETUP = 8"

definition ExAcquireRundownProtection :: "rundown \<Rightarrow> bool \<times> rundown" where
  "ExAcquireRundownProtection r = (if rd_closed r then (False, r) else (True, r\<lparr>rd_refs := rd_refs r + 1\<rparr>))"

definition ExReleaseRundownProtection :: "rundown \<Rightarrow> rundown" where
  "ExReleaseRundownProtection r = r\<lparr>rd_refs := rd_refs r - 1\<rparr>"

definition notification_message :: "u64 \<Rightarrow> u64 \<Rightarrow> u64 \<Rightarrow> u32 \<Rightarrow> u8 list \<Rightarrow> u8 list \<Rightarrow> u8 list" where
  "notification_message UniqueId ProcessId ThreadId Type Data old =
     le_message UniqueId 0 NotificationMessage @ le64 ProcessId @ le64 ThreadId @ le32 Type @ take 4 (drop 36 old) @ Data"

text \<open>
  The helper sees the bucket's data when \<open>HighEvent\<close> is signalled.  The action it chose is the
  word at offset 36 of the message.
\<close>

definition DsSendNotificationMessage ::
  "(u8 list \<Rightarrow> ntstatus \<times> u8 list) \<Rightarrow> u32 \<Rightarrow> u64 \<Rightarrow> u64 \<Rightarrow> u32 \<Rightarrow> u8 list \<Rightarrow> sender \<Rightarrow> ntstatus \<times> u32 option \<times> sender \<times> ch_call list" where
  "DsSendNotificationMessage helper flags ProcessId ThreadId Type Data s =
     (if flags AND DSH_GFL_CHANNEL_SETUP = 0 then (STATUS_NOT_SUPPORTED, None, s, []) else
      let (valid, r) = ExAcquireRundownProtection (sd_rundown s);
          s = s\<lparr>sd_rundown := r\<rparr>
      in if \<not> valid then (STATUS_DELETE_PENDING, None, s, []) else
      let (Status, BucketIndex, Channel) = DsAcquireChannelBucket (sd_channel s);
          s = s\<lparr>sd_channel := Channel\<rparr>;
          (Action, s, calls) =
            (if \<not> NT_SUCCESS Status then (None, s, [])
             else let i = unat BucketIndex;
                      Bucket = ch_Buckets Channel ! i;
                      PairEvent = ch_ServerBuckets Channel ! i;
                      UniqueId = sd_UniqueId s + 1;
                      Bucket = write_data (notification_message UniqueId ProcessId ThreadId Type Data (bk_Data Bucket)) Bucket;
                      (WaitStatus, reply) = helper (bk_Data Bucket);
                      Bucket = Bucket\<lparr>bk_Data := reply\<rparr>;
                      Action = (if WaitStatus = STATUS_SUCCESS then Some (of_le (take 4 (drop 36 reply))) else None);
                      Channel = Channel\<lparr>ch_Buckets := (ch_Buckets Channel)[i := Bucket]\<rparr>;
                      Channel = DsReleaseChannelBucket BucketIndex Channel
                  in (Action, s\<lparr>sd_channel := Channel, sd_UniqueId := UniqueId\<rparr>, [ChSetEvent (PairEvent HighEvent), ChWaitAll [PairEvent LowEvent]]))
      in (Status, Action, s\<lparr>sd_rundown := ExReleaseRundownProtection (sd_rundown s)\<rparr>, calls))"

section \<open>The bitmap\<close>

fun_cases bucket_nextE: "bucket_next a bm pc = Some r"

lemma bit_search: "\<not> bit bm 31 \<Longrightarrow> bit (scast (bm :: u32) :: u64) n \<longleftrightarrow> bit bm n"
  using bit_imp_le_length [of bm n] by (cases "n = 31") (auto simp: bit_signed_iff min_def)

lemma RtlFind_Some: "RtlFindMostSignificantBit w = Some i \<Longrightarrow> bit w i \<and> (\<forall>j>i. \<not> bit w j)"
proof -
  assume a: "RtlFindMostSignificantBit w = Some i"
  then obtain js where f: "filter (bit w) (rev [0..<64]) = i # js"
    by (auto simp: RtlFindMostSignificantBit_def split: list.splits)
  then have "i \<in> set (filter (bit w) (rev [0..<64]))" by (simp only: list.set_intros)
  then have i: "bit w i" "i < 64" by simp_all
  have "sorted_wrt (\<lambda>x y. y < x) (i # js)" unfolding f [symmetric]
    by (rule sorted_wrt_filter) (simp add: sorted_wrt_rev)
  moreover have "j \<in> set (i # js)" if "bit w j" for j
    using that bit_imp_le_length [OF that] unfolding f [symmetric] by simp
  ultimately show ?thesis using i by fastforce
qed

lemma RtlFind_None: "RtlFindMostSignificantBit w = None \<longleftrightarrow> w = 0"
proof -
  have "RtlFindMostSignificantBit w = None \<longleftrightarrow> (\<forall>j<64. \<not> bit w j)"
    by (auto simp: RtlFindMostSignificantBit_def filter_empty_conv split: list.split) (metis filter_empty_conv list.distinct(1) atLeastLessThan_iff le0 set_rev set_upt)
  also have "\<dots> \<longleftrightarrow> w = 0" by (auto simp: bit_eq_iff dest: bit_imp_le_length)
  finally show ?thesis .
qed

lemma find_free_Some: "\<not> bit bm 31 \<Longrightarrow> find_free bm = Some i \<Longrightarrow> bit bm i \<and> (\<forall>j>i. \<not> bit bm j)"
  using RtlFind_Some [of "scast bm" i] by (simp add: find_free_def bit_search)

lemma find_free_None:
  assumes "\<not> bit bm 31" shows "find_free bm = None \<longleftrightarrow> bm = 0"
proof -
  have z: "w = 0 \<longleftrightarrow> (\<forall>n. \<not> bit w n)" for w :: "'a::len word" by (auto intro: bit_word_eqI)
  have "(scast bm :: u64) = 0 \<longleftrightarrow> bm = 0" unfolding z using bit_search [OF assms] by simp
  then show ?thesis by (simp add: find_free_def RtlFind_None)
qed

definition bucket_inv :: "bucket_state \<Rightarrow> bool" where
  "bucket_inv s \<longleftrightarrow> (\<forall>n. bit (bs_map s) n \<longleftrightarrow> n < DS_MAX_BUCKETS \<and> (\<forall>t. bs_pc s t \<noteq> AcqHolds n)) \<and>
     (\<forall>t u i. bs_pc s t = AcqHolds i \<longrightarrow> bs_pc s u = AcqHolds i \<longrightarrow> t = u) \<and>
     (\<forall>t i. bs_pc s t = AcqTest i \<or> bs_pc s t = AcqHolds i \<longrightarrow> i < DS_MAX_BUCKETS)"

lemma all_buckets: "bit (push_bit DS_MAX_BUCKETS 1 - 1 :: u32) n \<longleftrightarrow> n < DS_MAX_BUCKETS"
proof -
  have "(push_bit DS_MAX_BUCKETS 1 - 1 :: u32) = mask DS_MAX_BUCKETS" by (simp add: mask_eq_exp_minus_1 push_bit_eq_mult)
  then have "bit (push_bit DS_MAX_BUCKETS 1 - 1 :: u32) n \<longleftrightarrow> n < 32 \<and> n < DS_MAX_BUCKETS"
    by (simp only: bit_mask_iff possible_bit_word)  simp
  then show ?thesis by (auto simp: DS_MAX_BUCKETS_def)
qed

interpretation buckets: invariant_system bucket_init bucket_trans bucket_inv
proof
  fix s assume "bucket_init s"
  then show "bucket_inv s" by (simp add: bucket_init_def bucket_inv_def all_buckets del: push_bit_of_1)
next
  fix s s' assume i: "bucket_inv s" and "bucket_trans s s'"
  then obtain a t bm pc where n: "bucket_next a (bs_map s) (bs_pc s t) = Some (bm, pc)"
    "s' = \<lparr>bs_map = bm, bs_pc = (bs_pc s)(t := pc)\<rparr>" by (auto elim: bucket_trans.cases)
  have b: "\<not> bit (bs_map s) 31" using i by (simp add: bucket_inv_def DS_MAX_BUCKETS_def)
  have m: "bit (bs_map s) n \<longleftrightarrow> n < DS_MAX_BUCKETS \<and> (\<forall>t. bs_pc s t \<noteq> AcqHolds n)" for n
    using i by (simp add: bucket_inv_def)
  have u: "t = u" if "bs_pc s t = AcqHolds i" "bs_pc s u = AcqHolds i" for t u i
    using i that by (simp add: bucket_inv_def)
  have l: "bs_pc s t = AcqTest i \<Longrightarrow> i < DS_MAX_BUCKETS" "bs_pc s t = AcqHolds i \<Longrightarrow> i < DS_MAX_BUCKETS" for t i
    using i unfolding bucket_inv_def by blast+
  have d: "DS_MAX_BUCKETS \<le> 32" by (simp add: DS_MAX_BUCKETS_def)
  have keep: "bucket_inv s'" if "bm = bs_map s" "\<forall>i. bs_pc s t \<noteq> AcqHolds i" "\<forall>i. pc \<noteq> AcqHolds i"
    "\<forall>i. pc = AcqTest i \<longrightarrow> i < DS_MAX_BUCKETS"
  proof -
    have h: "((bs_pc s)(t := pc)) v = AcqHolds i \<longleftrightarrow> bs_pc s v = AcqHolds i" for v i using that(2,3) by simp
    have "i < DS_MAX_BUCKETS" if "((bs_pc s)(t := pc)) v = AcqTest i" for v i
      using that \<open>\<forall>i. pc = AcqTest i \<longrightarrow> i < DS_MAX_BUCKETS\<close> l(1) [of v i] by (cases "v = t") auto
    then show ?thesis unfolding bucket_inv_def n(2) bucket_state.simps h using that(1) m u l(2) by blast
  qed
  from n(1) show "bucket_inv s'"
  proof (elim bucket_nextE, goal_cases)
    case (4 i)
    show ?case
    proof (cases "bit (bs_map s) i")
      case True
      then have e: "bm = unset_bit i (bs_map s)" "pc = AcqHolds i" "\<forall>v. bs_pc s v \<noteq> AcqHolds i" using 4 m by simp_all
      have h: "((bs_pc s)(t := pc)) v = AcqHolds j \<longleftrightarrow> (if v = t then j = i else bs_pc s v = AcqHolds j)" for v j
        using e(2) by auto
      have i: "i < DS_MAX_BUCKETS" using True m by blast
      have "bit bm j \<longleftrightarrow> j < DS_MAX_BUCKETS \<and> (\<forall>v. ((bs_pc s)(t := pc)) v \<noteq> AcqHolds j)" for j
      proof (cases "j = i")
        case True
        then have "\<not> (\<forall>v. ((bs_pc s)(t := pc)) v \<noteq> AcqHolds j)" using e(2) by auto
        then show ?thesis using True by (simp add: e(1) bit_unset_bit_iff)
      next
        case False
        have "bs_pc s t \<noteq> AcqHolds j" using 4(2) by simp
        then have "(\<forall>v. ((bs_pc s)(t := pc)) v \<noteq> AcqHolds j) \<longleftrightarrow> (\<forall>v. bs_pc s v \<noteq> AcqHolds j)"
          unfolding h using False by metis
        then show ?thesis using m [of j] False by (simp add: e(1) bit_unset_bit_iff)
      qed
      moreover have "v = w" if "((bs_pc s)(t := pc)) v = AcqHolds j" "((bs_pc s)(t := pc)) w = AcqHolds j" for v w j
        using that e(3) u [of v j w] unfolding h by (auto split: if_splits)
      moreover have "j < DS_MAX_BUCKETS" if "((bs_pc s)(t := pc)) v = AcqTest j \<or> ((bs_pc s)(t := pc)) v = AcqHolds j" for v j
        using that l [of v j] i e(2) by (auto split: if_splits)
      ultimately show ?thesis unfolding bucket_inv_def n(2) bucket_state.simps by blast
    next
      case False
      show ?thesis by (rule keep) (use 4 False in auto)
    qed
  next
    case (5 i)
    then have e: "bm = set_bit i (bs_map s)" "pc = AcqIdle" by simp_all
    have h: "((bs_pc s)(t := pc)) v = AcqHolds j \<longleftrightarrow> v \<noteq> t \<and> bs_pc s v = AcqHolds j" for v j using e(2) by simp
    have i: "i < DS_MAX_BUCKETS" using l(2) 5(2) by blast
    have "bit bm j \<longleftrightarrow> j < DS_MAX_BUCKETS \<and> (\<forall>v. ((bs_pc s)(t := pc)) v \<noteq> AcqHolds j)" for j
    proof (cases "j = i")
      case True
      have "\<not> (v \<noteq> t \<and> bs_pc s v = AcqHolds i)" for v using u [of t i v] 5(2) by blast
      moreover have "i < 32" using i d by linarith
      ultimately show ?thesis unfolding h using True i by (simp add: e(1) bit_set_bit_iff)
    next
      case False
      have "bs_pc s t \<noteq> AcqHolds j" using 5(2) False by simp
      then have "(\<forall>v. \<not> (v \<noteq> t \<and> bs_pc s v = AcqHolds j)) \<longleftrightarrow> (\<forall>v. bs_pc s v \<noteq> AcqHolds j)" by metis
      then show ?thesis unfolding h using m [of j] False by (simp add: e(1) bit_set_bit_iff)
    qed
    moreover have "j < DS_MAX_BUCKETS" if "((bs_pc s)(t := pc)) v = AcqTest j \<or> ((bs_pc s)(t := pc)) v = AcqHolds j" for v j
      using that l [of v j] e(2) by (auto split: if_splits)
    moreover have "v = w" if "((bs_pc s)(t := pc)) v = AcqHolds j" "((bs_pc s)(t := pc)) w = AcqHolds j" for v w j
      using that u [of v j w] unfolding h by blast
    ultimately show ?case unfolding bucket_inv_def n(2) bucket_state.simps by blast
  next
    case 3
    have "i < DS_MAX_BUCKETS" if "find_free (bs_map s) = Some i" for i using find_free_Some [OF b that] m by blast
    then show ?case by (intro keep) (use 3 in \<open>auto split: option.splits\<close>)
  qed (rule keep; simp)+
qed

text \<open>
  C24: Whatever the interleaving of senders, a bucket belongs to at most one of them, and the
  bitmap marks exactly the buckets that belong to nobody.  A sender is told that there is no
  bucket only when all sixteen were taken at the moment it looked.\<close>

theorem buckets_exclusive:
  assumes "reach bucket_init bucket_trans s"
  shows "(\<forall>t u i. bs_pc s t = AcqHolds i \<and> bs_pc s u = AcqHolds i \<longrightarrow> t = u) \<and>
    (\<forall>i. bit (bs_map s) i \<longleftrightarrow> i < DS_MAX_BUCKETS \<and> (\<nexists>t. bs_pc s t = AcqHolds i)) \<and>
    (\<forall>bm. bucket_next Advance (bs_map s) AcqRead = Some (bm, AcqNone) \<longleftrightarrow>
       bm = bs_map s \<and> (\<forall>i<DS_MAX_BUCKETS. \<exists>t. bs_pc s t = AcqHolds i))"
proof -
  have i: "bucket_inv s" by (rule buckets.reach_inv [OF assms])
  then have m: "bit (bs_map s) n \<longleftrightarrow> n < DS_MAX_BUCKETS \<and> (\<forall>t. bs_pc s t \<noteq> AcqHolds n)" for n
    by (simp add: bucket_inv_def)
  have b: "\<not> bit (bs_map s) 31" using m by (simp add: DS_MAX_BUCKETS_def)
  have z: "bs_map s = 0 \<longleftrightarrow> (\<forall>n. \<not> bit (bs_map s) n)" by (auto intro: bit_word_eqI)
  have z: "bs_map s = 0 \<longleftrightarrow> (\<forall>i<DS_MAX_BUCKETS. \<exists>t. bs_pc s t = AcqHolds i)"
    using m z by (auto intro: bit_word_eqI)
  have "bucket_next Advance (bs_map s) AcqRead = Some (bm, AcqNone) \<longleftrightarrow> bm = bs_map s \<and> bs_map s = 0" for bm
    using find_free_None [OF b] by (auto split: option.split)
  then show ?thesis using i m z by (auto simp: bucket_inv_def)
qed

lemma bucket_move:
  "reach bucket_init bucket_trans \<lparr>bs_map = bm, bs_pc = f\<rparr> \<Longrightarrow> bucket_next a bm (f t) = Some (bm', pc) \<Longrightarrow>
   reach bucket_init bucket_trans \<lparr>bs_map = bm', bs_pc = f(t := pc)\<rparr>"
  using reach.reach_step bucket_trans.intros [of a "\<lparr>bs_map = bm, bs_pc = f\<rparr>" t bm' pc] by force

text \<open>Thread 5 has taken the last bucket.\<close>

theorem buckets_exclusive_witness:
  "\<exists>s. reach bucket_init bucket_trans s \<and> bs_pc s 5 = AcqHolds 15 \<and> bs_pc s 6 \<noteq> AcqHolds 15 \<and> \<not> bit (bs_map s) 15 \<and> bit (bs_map s) 14"
proof -
  have 0: "reach bucket_init bucket_trans \<lparr>bs_map = 0xFFFF, bs_pc = \<lambda>_. AcqIdle\<rparr>"
    by (intro reach.reach_init) (simp add: bucket_init_def DS_MAX_BUCKETS_def)
  have 1: "reach bucket_init bucket_trans \<lparr>bs_map = 0xFFFF, bs_pc = (\<lambda>_. AcqIdle)(5 := AcqRead)\<rparr>"
    by (rule bucket_move [OF 0, of Begin]) simp
  have f: "find_free 0xFFFF = Some 15" by code_simp
  have 2: "reach bucket_init bucket_trans \<lparr>bs_map = 0xFFFF, bs_pc = ((\<lambda>_. AcqIdle)(5 := AcqRead))(5 := AcqTest 15)\<rparr>"
    by (rule bucket_move [OF 1, of Advance]) (simp add: f)
  have "unset_bit 15 (0xFFFF :: u32) = 0x7FFF" "bit (0xFFFF :: u32) 15" by code_simp+
  then have "reach bucket_init bucket_trans \<lparr>bs_map = 0x7FFF, bs_pc = (((\<lambda>_. AcqIdle)(5 := AcqRead))(5 := AcqTest 15))(5 := AcqHolds 15)\<rparr>"
    by (intro bucket_move [OF 2, of Advance]) simp
  then obtain s where r: "reach bucket_init bucket_trans s" and s_def: "s = \<lparr>bs_map = 0x7FFF, bs_pc = (\<lambda>_. AcqIdle)(5 := AcqHolds 15)\<rparr>"
    unfolding fun_upd_upd by blast
  have h: "bs_pc s 5 = AcqHolds 15" by (simp add: s_def)
  have n: "\<nexists>t. bs_pc s t = AcqHolds 14" by (auto simp: s_def split: if_splits)
  note B = buckets_exclusive [OF r]
  have "\<not> bit (bs_map s) 15" using B h by blast
  moreover have "bit (bs_map s) 14" using B n by (simp add: DS_MAX_BUCKETS_def)
  moreover have "bs_pc s 6 \<noteq> AcqHolds 15" using B h by (metis numeral_eq_iff num.distinct(1) num.inject(1) semiring_norm(85) semiring_norm(87) semiring_norm(88) semiring_norm(89))
  ultimately show ?thesis using r h by blast
qed

end
