(* ===== verification/Channel_Props.thy ===== *)
theory Channel_Props
  imports Channel "HOL-Library.Multiset"
begin

text \<open>
  The life of a channel: what creating it takes from the kernel, what destroying it gives back,
  and what happens when creating it fails half way.
\<close>

section \<open>The life of a channel\<close>

text \<open>What a list of calls has taken from the kernel, and what it has given back.\<close>

datatype ch_resource = Pool | Mdl nat | Mapping nat | Handle nat | Object nat

fun opened :: "ch_call \<Rightarrow> ch_resource list" where
  "opened ChAllocPool = [Pool]"
| "opened (ChAllocMdl p) = [Mdl p]"
| "opened (ChMap p) = [Mapping p]"
| "opened (ChCreateEvent p) = [Handle p]"
| "opened (ChReference p) = [Object p]"
| "opened _ = []"

fun closed :: "ch_call \<Rightarrow> ch_resource list" where
  "closed ChFreePool = [Pool]"
| "closed (ChFreeMdl p) = [Mdl p]"
| "closed (ChUnmap p) = [Mapping p]"
| "closed (ChClose p) = [Handle p]"
| "closed (ChDereference p) = [Object p]"
| "closed _ = []"

definition opens :: "ch_call list \<Rightarrow> ch_resource multiset" where
  "opens cs = mset (concat (map opened cs))"

definition closes :: "ch_call list \<Rightarrow> ch_resource multiset" where
  "closes cs = mset (concat (map closed cs))"

lemma opens_simps [simp]:
  "opens [] = {#}" "opens (c # cs) = mset (opened c) + opens cs" "opens (cs @ ds) = opens cs + opens ds"
  "closes [] = {#}" "closes (c # cs) = mset (closed c) + closes cs" "closes (cs @ ds) = closes cs + closes ds"
  by (simp_all add: opens_def closes_def)

text \<open>Handles and objects of the kernel are not null.\<close>

definition ch_env_ok :: "ch_env \<Rightarrow> bool" where
  "ch_env_ok k \<longleftrightarrow> (\<forall>i ev. NT_SUCCESS (fst (ck_create k i ev)) \<longrightarrow> snd (ck_create k i ev) \<noteq> 0) \<and>
     (\<forall>i ev. NT_SUCCESS (fst (ck_reference k i ev)) \<longrightarrow> snd (ck_reference k i ev) \<noteq> 0)"

definition bucket_ok :: "ch_env \<Rightarrow> nat \<Rightarrow> bool" where
  "bucket_ok k i \<longleftrightarrow> (\<forall>ev. NT_SUCCESS (fst (ck_create k i ev)) \<and> NT_SUCCESS (fst (ck_reference k i ev)))"

lemma all_events: "(\<forall>ev. P ev) \<longleftrightarrow> P LowEvent \<and> P HighEvent"
  by (metis ds_event.exhaust)

lemma events_ok:
  assumes "bucket_ok k i" "ch_env_ok k" "DsInitializeBucketEvents k i B S = (St, B', S', calls)"
  shows "NT_SUCCESS St" "closes calls = {#}" "opens calls = closes (DsCleanupBucketEvents B' S')" "S' ev \<noteq> 0"
proof -
  obtain s1 low where 1: "ck_create k i LowEvent = (s1, low)" by (metis prod.exhaust)
  obtain s2 obj where 2: "ck_reference k i LowEvent = (s2, obj)" by (metis prod.exhaust)
  obtain s3 high where 3: "ck_create k i HighEvent = (s3, high)" by (metis prod.exhaust)
  obtain s4 obj2 where 4: "ck_reference k i HighEvent = (s4, obj2)" by (metis prod.exhaust)
  have s: "NT_SUCCESS s1" "NT_SUCCESS s2" "NT_SUCCESS s3" "NT_SUCCESS s4"
    using assms(1) 1 2 3 4 by (auto simp: bucket_ok_def all_events)
  then have n: "low \<noteq> 0" "obj \<noteq> 0" "high \<noteq> 0" "obj2 \<noteq> 0"
    using assms(2) 1 2 3 4 unfolding ch_env_ok_def by (metis fst_conv snd_conv)+
  have r: "St = s4" "S' = S(LowEvent := obj, HighEvent := obj2)" "bk_EventHandle B' = (bk_EventHandle B)(LowEvent := low, HighEvent := high)"
    "calls = [ChResetUniqueId, ChCreateEvent low, ChReference obj, ChCreateEvent high, ChReference obj2]"
    using assms(3) s 1 2 3 4 by (auto simp: DsInitializeBucketEvents_def Let_def)
  show "NT_SUCCESS St" "closes calls = {#}" "S' ev \<noteq> 0" using r s n by (cases ev; simp)+
  show "opens calls = closes (DsCleanupBucketEvents B' S')" using r n by (simp add: DsCleanupBucketEvents_def cleanup_event_def)
qed

lemma events_fail:
  assumes "\<not> bucket_ok k i" "ch_env_ok k" "DsInitializeBucketEvents k i B (\<lambda>_. 0) = (St, B', S', calls)" "bk_EventHandle B = (\<lambda>_. 0)"
  shows "\<not> NT_SUCCESS St" "opens calls = closes calls" "S' HighEvent = 0"
    "closes (DsCleanupBucketEvents B' S') = {#} \<longleftrightarrow> \<not> NT_SUCCESS (fst (ck_create k i LowEvent))"
proof -
  obtain s1 low where 1: "ck_create k i LowEvent = (s1, low)" by (metis prod.exhaust)
  obtain s2 obj where 2: "ck_reference k i LowEvent = (s2, obj)" by (metis prod.exhaust)
  obtain s3 high where 3: "ck_create k i HighEvent = (s3, high)" by (metis prod.exhaust)
  obtain s4 obj2 where 4: "ck_reference k i HighEvent = (s4, obj2)" by (metis prod.exhaust)
  have f: "\<not> (NT_SUCCESS s1 \<and> NT_SUCCESS s2 \<and> NT_SUCCESS s3 \<and> NT_SUCCESS s4)"
    using assms(1) 1 2 3 4 by (auto simp: bucket_ok_def all_events)
  have n: "NT_SUCCESS s1 \<longrightarrow> low \<noteq> 0" "NT_SUCCESS s3 \<longrightarrow> high \<noteq> 0"
    using assms(2) 1 3 unfolding ch_env_ok_def by (metis fst_conv snd_conv)+
  have h: "bk_EventHandle B LowEvent = 0" "bk_EventHandle B HighEvent = 0" using assms(4) by simp_all
  show "\<not> NT_SUCCESS St" "opens calls = closes calls" "S' HighEvent = 0"
    "closes (DsCleanupBucketEvents B' S') = {#} \<longleftrightarrow> \<not> NT_SUCCESS (fst (ck_create k i LowEvent))"
    using assms(3) h f n 1 2 3 4
    by (auto simp: DsInitializeBucketEvents_def DsCleanupBucketEvents_def cleanup_event_def Let_def split: if_splits)
qed

definition blank_bucket :: "ds_channel \<Rightarrow> nat \<Rightarrow> bool" where
  "blank_bucket ch t \<longleftrightarrow> bk_EventHandle (ch_Buckets ch ! t) = (\<lambda>_. 0) \<and> ch_ServerBuckets ch ! t = (\<lambda>_. 0)"

definition cleaned :: "ds_channel \<Rightarrow> nat \<Rightarrow> ch_resource multiset" where
  "cleaned ch t = closes (DsCleanupBucketEvents (ch_Buckets ch ! t) (ch_ServerBuckets ch ! t))"

lemma cleaned_blank: "blank_bucket ch t \<Longrightarrow> cleaned ch t = {#}"
  by (simp add: blank_bucket_def cleaned_def DsCleanupBucketEvents_def cleanup_event_def)

definition sized :: "ds_channel \<Rightarrow> bool" where
  "sized ch \<longleftrightarrow> List.length (ch_Buckets ch) = DS_MAX_BUCKETS \<and> List.length (ch_ServerBuckets ch) = DS_MAX_BUCKETS"

definition same_outside :: "nat \<Rightarrow> nat \<Rightarrow> ds_channel \<Rightarrow> ds_channel \<Rightarrow> bool" where
  "same_outside i j ch ch' \<longleftrightarrow> sized ch' \<and> ch_Mdl ch' = ch_Mdl ch \<and> ch_UserVa ch' = ch_UserVa ch \<and> ch_BucketCount ch' = ch_BucketCount ch \<and>
     (\<forall>t. t < i \<or> j \<le> t \<longrightarrow> ch_Buckets ch' ! t = ch_Buckets ch ! t \<and> ch_ServerBuckets ch' ! t = ch_ServerBuckets ch ! t)"

lemma same_cleaned: "same_outside i j ch ch' \<Longrightarrow> t < i \<or> j \<le> t \<Longrightarrow> cleaned ch' t = cleaned ch t"
  by (auto simp: same_outside_def cleaned_def)

lemma same_blank: "same_outside i j ch ch' \<Longrightarrow> t < i \<or> j \<le> t \<Longrightarrow> blank_bucket ch' t = blank_bucket ch t"
  by (auto simp: same_outside_def blank_bucket_def)

text \<open>What the loop leaves: a channel with all its events, or a first bucket that failed.\<close>

lemma init_buckets_result:
  "init_buckets k i j Status ch = (St, ch', calls) \<Longrightarrow> ch_env_ok k \<Longrightarrow> sized ch \<Longrightarrow> i + j \<le> DS_MAX_BUCKETS \<Longrightarrow>
   \<forall>t. i \<le> t \<longrightarrow> t < i + j \<longrightarrow> blank_bucket ch t \<Longrightarrow>
   same_outside i (i + j) ch ch' \<and>
   (if \<forall>t. i \<le> t \<and> t < i + j \<longrightarrow> bucket_ok k t
    then NT_SUCCESS St = (0 < j \<or> NT_SUCCESS Status) \<and> closes calls = {#} \<and> opens calls = (\<Sum>t = i..<i + j. cleaned ch' t) \<and>
      (\<forall>t ev. i \<le> t \<and> t < i + j \<longrightarrow> (ch_ServerBuckets ch' ! t) ev \<noteq> 0)
    else \<not> NT_SUCCESS St \<and> (\<exists>f X. i \<le> f \<and> f < i + j \<and> (\<forall>t. i \<le> t \<and> t < f \<longrightarrow> bucket_ok k t) \<and> \<not> bucket_ok k f \<and>
      (ch_ServerBuckets ch' ! f) HighEvent = 0 \<and> closes calls + (\<Sum>t = i..<i + j. cleaned ch' t) = opens calls + X \<and>
      (X = {#} \<longleftrightarrow> \<not> NT_SUCCESS (fst (ck_create k f LowEvent)))))"
proof (induction j arbitrary: i Status ch St ch' calls)
  case 0
  then show ?case by (auto simp: same_outside_def)
next
  case (Suc j)
  obtain S1 b s c1 where e: "DsInitializeBucketEvents k i (ch_Buckets ch ! i) (ch_ServerBuckets ch ! i) = (S1, b, s, c1)"
    by (metis prod_cases4)
  let ?ch = "ch\<lparr>ch_Buckets := (ch_Buckets ch)[i := b], ch_ServerBuckets := (ch_ServerBuckets ch)[i := s]\<rparr>"
  have L: "i < DS_MAX_BUCKETS" "List.length (ch_Buckets ch) = DS_MAX_BUCKETS" "List.length (ch_ServerBuckets ch) = DS_MAX_BUCKETS"
    using Suc.prems(3,4) by (simp_all add: sized_def)
  have so: "same_outside i (i + 1) ch ?ch" using L by (auto simp: same_outside_def sized_def)
  have ci: "cleaned ?ch i = closes (DsCleanupBucketEvents b s)" "ch_ServerBuckets ?ch ! i = s" using L by (simp_all add: cleaned_def)
  have bl: "\<forall>t. i + 1 \<le> t \<longrightarrow> t < i + 1 + j \<longrightarrow> blank_bucket ?ch t"
    using Suc.prems(5) same_blank [OF so] by auto
  have Bi: "bk_EventHandle (ch_Buckets ch ! i) = (\<lambda>_. 0)" "ch_ServerBuckets ch ! i = (\<lambda>_. 0)"
    using Suc.prems(5) by (auto simp: blank_bucket_def)
  have sum: "(\<Sum>t = i..<i + Suc j. f t) = f i + (\<Sum>t = i + 1..<i + 1 + j. f t)" for f :: "nat \<Rightarrow> ch_resource multiset"
    by (simp add: sum.atLeast_Suc_lessThan)
  show ?case
  proof (cases "bucket_ok k i")
    case True
    note o = events_ok [OF True Suc.prems(2) e]
    obtain c2 where r: "init_buckets k (i + 1) j S1 ?ch = (St, ch', c2)" "calls = c1 @ c2"
      using Suc.prems(1) e o(1) by (auto simp: Let_def split: prod.splits)
    have p: "sized ?ch" "i + 1 + j \<le> DS_MAX_BUCKETS" using so Suc.prems(4) by (simp_all add: same_outside_def)
    note I = conjunct1 [OF Suc.IH [OF r(1) Suc.prems(2) p bl]] conjunct2 [OF Suc.IH [OF r(1) Suc.prems(2) p bl]]
    have si: "cleaned ch' i = closes (DsCleanupBucketEvents b s)" "ch_ServerBuckets ch' ! i = s"
      using same_cleaned [OF I(1), of i] I(1) ci by (simp_all add: same_outside_def)
    have all: "(\<forall>t. i \<le> t \<and> t < i + Suc j \<longrightarrow> bucket_ok k t) \<longleftrightarrow> (\<forall>t. i + 1 \<le> t \<and> t < i + 1 + j \<longrightarrow> bucket_ok k t)"
      using True by (metis Suc_eq_plus1 add_Suc add_Suc_right le_SucI le_antisym not_less_eq_eq)
    have S: "same_outside i (i + Suc j) ch ch'" using so I(1) by (auto simp: same_outside_def)
    show ?thesis
    proof (cases "\<forall>t. i + 1 \<le> t \<and> t < i + 1 + j \<longrightarrow> bucket_ok k t")
      case ok: True
      have srv: "\<forall>t ev. i \<le> t \<and> t < i + Suc j \<longrightarrow> (ch_ServerBuckets ch' ! t) ev \<noteq> 0"
      proof (intro allI impI)
        fix t ev assume t: "i \<le> t \<and> t < i + Suc j"
        show "(ch_ServerBuckets ch' ! t) ev \<noteq> 0"
          using I(2) ok o(4) si(2) t by (cases "t = i") auto
      qed
      show ?thesis unfolding all if_P [OF ok] sum si(1)
        using S srv I(2) ok o r(2) by simp
    next
      case bad: False
      note I2 = I(2) [unfolded if_not_P [OF bad]]
      have n: "\<not> NT_SUCCESS St" using I2 by blast
      obtain f X where fX: "i + 1 \<le> f" "f < i + 1 + j" "\<forall>t. i + 1 \<le> t \<and> t < f \<longrightarrow> bucket_ok k t" "\<not> bucket_ok k f"
         "(ch_ServerBuckets ch' ! f) HighEvent = 0" "closes c2 + (\<Sum>t = i + 1..<i + 1 + j. cleaned ch' t) = opens c2 + X"
         "X = {#} \<longleftrightarrow> \<not> NT_SUCCESS (fst (ck_create k f LowEvent))"
        using I2 by blast
      have b: "\<forall>t. i \<le> t \<and> t < f \<longrightarrow> bucket_ok k t" using fX(3) True by (metis Suc_eq_plus1 le_antisym not_less_eq_eq)
      have m: "closes calls + (cleaned ch' i + (\<Sum>t = i + 1..<i + 1 + j. cleaned ch' t)) = opens calls + X"
        using fX(6) o(2,3) r(2) si(1) by (simp add: ac_simps)
      show ?thesis unfolding all if_not_P [OF bad] sum
        using S n fX b m by (intro conjI exI [of _ f] exI [of _ X]) simp_all
    qed
  next
    case False
    note o = events_fail [OF False Suc.prems(2) e [unfolded Bi(2)] Bi(1)]
    have r: "St = S1" "ch' = ?ch" "calls = c1" using Suc.prems(1) e o(1) by (auto simp: Let_def)
    have z: "(\<Sum>t = i + 1..<i + 1 + j. cleaned ?ch t) = {#}" using bl cleaned_blank by simp
    have bad: "\<not> (\<forall>t. i \<le> t \<and> t < i + Suc j \<longrightarrow> bucket_ok k t)" using False by (metis add_Suc_right le_add1 le_refl less_add_Suc1)
    have S: "same_outside i (i + Suc j) ch ch'" using so r(2) by (auto simp: same_outside_def)
    show ?thesis unfolding if_not_P [OF bad] sum
      using S o False r z ci by (intro conjI exI [of _ i] exI [of _ "closes (DsCleanupBucketEvents b s)"]) (simp_all, auto)
  qed
qed

section \<open>Destroying\<close>

lemma closes_concat: "closes (concat xs) = \<Sum>\<^sub># (mset (map closes xs))"
  by (induction xs) simp_all

lemma opens_cleanup: "opens (DsCleanupBucketEvents B S) = {#}"
  by (simp add: DsCleanupBucketEvents_def cleanup_event_def)

lemma opens_concat: "(\<And>x. x \<in> set xs \<Longrightarrow> opens x = {#}) \<Longrightarrow> opens (concat xs) = {#}"
  by (induction xs) simp_all

lemma cleanup_written: "DsCleanupBucketEvents (write_data bs B) S = DsCleanupBucketEvents B S"
  by (simp add: DsCleanupBucketEvents_def cleanup_event_def write_data_def)

lemma opens_signals: "opens (map (\<lambda>s. ChSetEvent (f s)) xs) = {#}" "closes (map (\<lambda>s. ChSetEvent (f s)) xs) = {#}"
  by (induction xs) simp_all

lemma destroy_closes:
  assumes "sized ch" "ch_BucketCount ch \<le> DS_MAX_BUCKETS"
  shows "opens (DsDestroyChannel R ch) = {#}"
    "closes (DsDestroyChannel R ch) = (\<Sum>t = 0..<ch_BucketCount ch. cleaned ch t) +
       (if ch_Mdl ch = 0 then {#} else (if ch_UserVa ch = 0 then {#} else {#Mapping (ch_UserVa ch)#}) + {#Mdl (ch_Mdl ch)#}) + {#Pool#}"
    "ChSetEvent a \<in> set (DsDestroyChannel R ch) \<longleftrightarrow> (\<exists>t < ch_BucketCount ch. a = (ch_ServerBuckets ch ! t) HighEvent)"
proof -
  let ?n = "ch_BucketCount ch"
  have L: "?n \<le> List.length (ch_Buckets ch)" "?n \<le> List.length (ch_ServerBuckets ch)" using assms by (simp_all add: sized_def)
  have z: "map2 DsCleanupBucketEvents (map (write_data w) (take ?n (ch_Buckets ch))) (take ?n (ch_ServerBuckets ch)) =
      map (\<lambda>t. DsCleanupBucketEvents (ch_Buckets ch ! t) (ch_ServerBuckets ch ! t)) [0..<?n]" for w
    by (rule nth_equalityI) (use L in \<open>simp_all add: cleanup_written\<close>)
  have c: "closes (concat (map (\<lambda>t. DsCleanupBucketEvents (ch_Buckets ch ! t) (ch_ServerBuckets ch ! t)) [0..<?n])) =
      (\<Sum>t = 0..<?n. cleaned ch t)"
    by (simp add: closes_concat comp_def cleaned_def [symmetric] sum_unfold_sum_mset)
  have o: "opens (concat (map (\<lambda>t. DsCleanupBucketEvents (ch_Buckets ch ! t) (ch_ServerBuckets ch ! t)) [0..<?n])) = {#}"
    by (rule opens_concat) (auto simp: opens_cleanup)
  show "opens (DsDestroyChannel R ch) = {#}"
    "closes (DsDestroyChannel R ch) = (\<Sum>t = 0..<?n. cleaned ch t) +
       (if ch_Mdl ch = 0 then {#} else (if ch_UserVa ch = 0 then {#} else {#Mapping (ch_UserVa ch)#}) + {#Mdl (ch_Mdl ch)#}) + {#Pool#}"
    unfolding DsDestroyChannel_def Let_def z by (simp_all add: o c opens_signals)
  have s: "ChSetEvent a \<notin> set (DsCleanupBucketEvents B S)" for B S
    by (auto simp: DsCleanupBucketEvents_def cleanup_event_def split: if_splits)
  have e: "ChSetEvent a \<in> (\<lambda>s. ChSetEvent (s HighEvent)) ` set (take ?n (ch_ServerBuckets ch)) \<longleftrightarrow>
      (\<exists>t < ?n. a = (ch_ServerBuckets ch ! t) HighEvent)"
    using L(2) by (fastforce simp: in_set_conv_nth image_iff)
  show "ChSetEvent a \<in> set (DsDestroyChannel R ch) \<longleftrightarrow> (\<exists>t < ?n. a = (ch_ServerBuckets ch ! t) HighEvent)"
    unfolding DsDestroyChannel_def Let_def z using e s by (auto split: if_splits)
qed

section \<open>Creating\<close>

lemma zero_channel_ok: "sized zero_channel" "t < DS_MAX_BUCKETS \<Longrightarrow> blank_bucket zero_channel t"
  by (simp_all add: sized_def zero_channel_def blank_bucket_def)

text \<open>The channel the loop over the buckets starts from.\<close>

lemma initialize_cases:
  assumes "DsInitializeChannel k n = (Status, r, calls)" "ck_pool k" "ch_env_ok k" "n \<le> DS_MAX_BUCKETS"
  obtains ch where "\<not> NT_SUCCESS Status" "r = None" "sized ch" "ch_BucketCount ch = n" "\<forall>t<n. blank_bucket ch t"
      "ck_mdl k = 0 \<or> ck_map k = 0" "opens calls + {#} = closes calls"
      "set (DsDestroyChannel InitErrorReason ch) \<subseteq> set calls"
    | ch ch' c2 where "init_buckets k 0 n STATUS_INSUFFICIENT_RESOURCES ch = (Status, ch', c2)" "sized ch" "ch_BucketCount ch = n"
      "\<forall>t<n. blank_bucket ch t" "ck_mdl k \<noteq> 0" "ck_map k \<noteq> 0" "ch_Mdl ch = ck_mdl k" "ch_UserVa ch = ck_map k"
      "if NT_SUCCESS Status then r = Some ch' \<and> calls = [ChAllocPool, ChAllocMdl (ck_mdl k), ChMap (ck_map k)] @ c2
       else r = None \<and> calls = [ChAllocPool, ChAllocMdl (ck_mdl k), ChMap (ck_map k)] @ c2 @ DsDestroyChannel InitErrorReason ch'"
proof -
  define c0 where "c0 = zero_channel\<lparr>ch_ChannelId := ck_tick k, ch_BucketsBitMap := push_bit DS_MAX_BUCKETS 1 - 1, ch_BucketCount := n\<rparr>"
  have z: "sized c0" "sized (c0\<lparr>ch_Mdl := a\<rparr>)" "sized (c0\<lparr>ch_Mdl := a, ch_UserVa := b, ch_UserSize := c\<rparr>)"
    "ch_BucketCount c0 = n" "ch_Mdl c0 = 0" "ch_UserVa c0 = 0"
    "blank_bucket (c0\<lparr>ch_Mdl := a\<rparr>) t = blank_bucket c0 t" "blank_bucket (c0\<lparr>ch_Mdl := a, ch_UserVa := b, ch_UserSize := c\<rparr>) t = blank_bucket c0 t"
    for a b c t
    using zero_channel_ok(1) by (simp_all add: c0_def sized_def blank_bucket_def zero_channel_def)
  note A = assms(1) [unfolded DsInitializeChannel_def Let_def, folded c0_def]
  have bl: "\<forall>t<n. blank_bucket c0 t" using zero_channel_ok(2) assms(4) by (simp add: c0_def blank_bucket_def)
  have cl: "cleaned c0 t = {#}" "cleaned (c0\<lparr>ch_Mdl := a\<rparr>) t = {#}" if "t < n" for t a
    using bl that z(7) by (simp_all add: cleaned_blank)
  consider "ck_mdl k = 0" | "ck_mdl k \<noteq> 0" "ck_map k = 0" | "ck_mdl k \<noteq> 0" "ck_map k \<noteq> 0" by blast
  then show ?thesis
  proof cases
    case 1
    show ?thesis
      by (rule that(1) [of c0]) (use A assms(2) 1 z bl cl destroy_closes [where ch = c0 and R = InitErrorReason] assms(4) in
        \<open>auto\<close>)
  next
    case 2
    let ?c = "c0\<lparr>ch_Mdl := ck_mdl k\<rparr>"
    show ?thesis
      by (rule that(1) [of ?c]) (use A assms(2) 2 z bl cl destroy_closes [where ch = ?c and R = InitErrorReason] assms(4) in
        \<open>auto\<close>)
  next
    case 3
    let ?c = "c0\<lparr>ch_Mdl := ck_mdl k, ch_UserVa := ck_map k, ch_UserSize := 1024 * n\<rparr>"
    obtain St ch' c2 where i: "init_buckets k 0 n STATUS_INSUFFICIENT_RESOURCES ?c = (St, ch', c2)" by (metis prod_cases3)
    have "St = Status" using A assms(2) 3 i
      by (auto split: if_splits)
    then show ?thesis
      by (intro that(2) [of ?c ch' c2]) (use A assms(2) 3 z bl i in
        \<open>auto split: if_splits\<close>)
  qed
qed

lemma init_success:
  assumes "DsInitializeChannel k n = (Status, Some ch, calls)" "ch_env_ok k" "n \<le> DS_MAX_BUCKETS"
  shows "NT_SUCCESS Status \<and> 0 < n \<and> closes calls = {#} \<and> opens calls = closes (DsDestroyChannel R ch) \<and>
    opens (DsDestroyChannel R ch) = {#} \<and> ChSetEvent 0 \<notin> set (DsDestroyChannel R ch)"
proof -
  have p: "ck_pool k" using assms(1) by (auto simp: DsInitializeChannel_def split: if_splits)
  show ?thesis
  proof (rule initialize_cases [OF assms(1) p assms(2,3)], goal_cases)
    case (2 c ch' c2)
    then have S: "NT_SUCCESS Status" by (auto split: if_splits)
    then have e: "ch' = ch" "calls = [ChAllocPool, ChAllocMdl (ck_mdl k), ChMap (ck_map k)] @ c2" using 2(9) by simp_all
    have "\<forall>t. 0 \<le> t \<longrightarrow> t < 0 + n \<longrightarrow> blank_bucket c t" using 2(4) by simp
    note I = init_buckets_result [OF 2(1) assms(2) 2(2) _ this]
    have so: "same_outside 0 n c ch" using I assms(3) e(1) by simp
    have ok: "\<forall>t. 0 \<le> t \<and> t < 0 + n \<longrightarrow> bucket_ok k t" using I S assms(3) by (metis add_0)
    have r: "NT_SUCCESS Status = (0 < n \<or> NT_SUCCESS STATUS_INSUFFICIENT_RESOURCES)" "closes c2 = {#}"
      "opens c2 = (\<Sum>t = 0..<n. cleaned ch t)" "\<forall>t ev. t < n \<longrightarrow> (ch_ServerBuckets ch ! t) ev \<noteq> 0"
      using I ok assms(3) e(1) by simp_all
    have s: "sized ch" "ch_BucketCount ch = n" "ch_Mdl ch = ck_mdl k" "ch_UserVa ch = ck_map k"
      using so 2(3,7,8) by (simp_all add: same_outside_def)
    show ?case using S r s e(2) 2(5,6) assms(3) destroy_closes [where ch = ch and R = R] by auto
  qed simp
qed

lemma init_failure:
  assumes "DsInitializeChannel k n = (Status, None, calls)" "ck_pool k" "ch_env_ok k" "0 < n" "n \<le> DS_MAX_BUCKETS"
  shows "\<not> NT_SUCCESS Status \<and> ChSetEvent 0 \<in> set calls \<and> opens calls \<subseteq># closes calls \<and>
    (opens calls = closes calls \<longleftrightarrow> ck_mdl k = 0 \<or> ck_map k = 0 \<or>
       \<not> (\<exists>f<n. (\<forall>t<f. bucket_ok k t) \<and> \<not> bucket_ok k f \<and> NT_SUCCESS (fst (ck_create k f LowEvent))))"
proof (rule initialize_cases [OF assms(1-3,5)], goal_cases)
  case (1 ch)
  have "(ch_ServerBuckets ch ! 0) HighEvent = 0" using 1(5) assms(4) by (simp add: blank_bucket_def)
  then have "ChSetEvent 0 \<in> set (DsDestroyChannel InitErrorReason ch)"
    using destroy_closes(3) [where ch = ch and R = InitErrorReason and a = 0] 1(3,4) assms(4,5) by force
  then show ?case using 1 by auto
next
  case (2 c ch' c2)
  then have S: "\<not> NT_SUCCESS Status" by (auto split: if_splits)
  then have e: "calls = [ChAllocPool, ChAllocMdl (ck_mdl k), ChMap (ck_map k)] @ c2 @ DsDestroyChannel InitErrorReason ch'"
    using 2(9) by simp
  have "\<forall>t. 0 \<le> t \<longrightarrow> t < 0 + n \<longrightarrow> blank_bucket c t" using 2(4) by simp
  note I = init_buckets_result [OF 2(1) assms(3) 2(2) _ this]
  have so: "same_outside 0 n c ch'" using I assms(5) by simp
  have bad: "\<not> (\<forall>t. 0 \<le> t \<and> t < 0 + n \<longrightarrow> bucket_ok k t)" using I S assms(4,5) by (metis add_0)
  have J: "\<exists>f X. 0 \<le> f \<and> f < 0 + n \<and> (\<forall>t. 0 \<le> t \<and> t < f \<longrightarrow> bucket_ok k t) \<and> \<not> bucket_ok k f \<and>
      (ch_ServerBuckets ch' ! f) HighEvent = 0 \<and> closes c2 + (\<Sum>t = 0..<0 + n. cleaned ch' t) = opens c2 + X \<and>
      (X = {#} \<longleftrightarrow> \<not> NT_SUCCESS (fst (ck_create k f LowEvent)))"
    using I assms(5) unfolding if_not_P [OF bad] by simp
  then obtain f X where fX: "f < n" "\<forall>t<f. bucket_ok k t" "\<not> bucket_ok k f" "(ch_ServerBuckets ch' ! f) HighEvent = 0"
      "closes c2 + (\<Sum>t = 0..<n. cleaned ch' t) = opens c2 + X" "X = {#} \<longleftrightarrow> \<not> NT_SUCCESS (fst (ck_create k f LowEvent))"
    by auto
  have s: "sized ch'" "ch_BucketCount ch' = n" "ch_Mdl ch' = ck_mdl k" "ch_UserVa ch' = ck_map k"
    using so 2(3,7,8) by (simp_all add: same_outside_def)
  note D = destroy_closes [where ch = ch' and R = InitErrorReason, unfolded s(2-4), OF s(1) assms(5)]
  have "closes calls = closes c2 + (\<Sum>t = 0..<n. cleaned ch' t) + {#Mapping (ck_map k), Mdl (ck_mdl k), Pool#}"
    using D(2) 2(5,6) by (simp add: e)
  then have c: "closes calls = opens calls + X" using D(1) unfolding fX(5) by (simp add: e)
  have first: "g = f" if "\<forall>t<g. bucket_ok k t" "\<not> bucket_ok k g" for g
    using fX(2,3) that by (metis linorder_neqE_nat)
  have "(\<exists>g<n. (\<forall>t<g. bucket_ok k t) \<and> \<not> bucket_ok k g \<and> NT_SUCCESS (fst (ck_create k g LowEvent))) \<longleftrightarrow> X \<noteq> {#}"
    using fX(1-3,6) first by blast
  moreover have "ChSetEvent 0 \<in> set calls" using D(3) [of 0] fX(1,4) by (auto simp: e)
  ultimately show ?case using S c 2(5,6) by simp
qed

section \<open>Properties\<close>

text \<open>
  C22: A channel that could be created has taken pool, pages, mapping, handles and event objects,
  each released exactly once by \<open>DsDestroyChannel\<close>, which signals only events that exist.\<close>

theorem channel_lifecycle:
  assumes "DsInitializeChannel k n = (Status, Some ch, calls)" "ch_env_ok k" "n \<le> DS_MAX_BUCKETS"
  shows "NT_SUCCESS Status \<and> 0 < n \<and> closes calls = {#} \<and> opens calls = closes (DsDestroyChannel R ch) \<and>
    opens (DsDestroyChannel R ch) = {#} \<and> ChSetEvent 0 \<notin> set (DsDestroyChannel R ch)"
  using assms by (rule init_success)

text \<open>When the creation of a channel fails after its memory was allocated, the clean-up loses
  nothing, but it signals an event that does not exist; and if a bucket got its first event and
  then failed, handles or objects are released twice.\<close>

theorem channel_init_failure:
  assumes "DsInitializeChannel k n = (Status, None, calls)" "ck_pool k" "ch_env_ok k" "0 < n" "n \<le> DS_MAX_BUCKETS"
  shows "\<not> NT_SUCCESS Status \<and> ChSetEvent 0 \<in> set calls \<and> opens calls \<subseteq># closes calls \<and>
    (opens calls = closes calls \<longleftrightarrow> ck_mdl k = 0 \<or> ck_map k = 0 \<or>
       \<not> (\<exists>f<n. (\<forall>t<f. bucket_ok k t) \<and> \<not> bucket_ok k f \<and> NT_SUCCESS (fst (ck_create k f LowEvent))))"
  using assms by (rule init_failure)

text \<open>The kernel of the examples: the event object of the first bucket cannot be referenced unless \<open>ok\<close>.\<close>

definition example_ch_env :: "bool \<Rightarrow> ch_env" where
  "example_ch_env ok = \<lparr>ck_pool = True, ck_mdl = 0x100, ck_map = 0x7FFE0000, ck_tick = 77,
     ck_create = (\<lambda>i ev. (STATUS_SUCCESS, 2 * i + (case ev of LowEvent \<Rightarrow> 1 | HighEvent \<Rightarrow> 2))),
     ck_reference = (\<lambda>i ev. if ok then (STATUS_SUCCESS, 1000 + 2 * i + (case ev of LowEvent \<Rightarrow> 1 | HighEvent \<Rightarrow> 2))
        else (STATUS_INSUFFICIENT_RESOURCES, 0))\<rparr>"

lemma example_ch_env_ok: "ch_env_ok (example_ch_env ok)"
  by (auto simp: ch_env_ok_def example_ch_env_def split: ds_event.splits)

lemma init_two: "init_buckets k 0 2 Status ch = init_buckets k 0 (Suc (Suc 0)) Status ch"
  by (simp only: numeral_2_eq_2)

theorem channel_lifecycle_witness:
  "\<exists>ch calls. DsInitializeChannel (example_ch_env True) 2 = (STATUS_SUCCESS, Some ch, calls) \<and>
     opens calls = closes (DsDestroyChannel UnloadDriverReason ch)"
proof -
  obtain Status r calls where i: "DsInitializeChannel (example_ch_env True) 2 = (Status, r, calls)" by (metis prod_cases3)
  then have "Status = STATUS_SUCCESS \<and> r \<noteq> None"
    by (auto simp: DsInitializeChannel_def example_ch_env_def init_two DsInitializeBucketEvents_def Let_def)
  then show ?thesis
    using i channel_lifecycle [OF _ example_ch_env_ok, of True 2 Status _ calls UnloadDriverReason] by (auto simp: DS_MAX_BUCKETS_def)
qed

theorem channel_init_failure_witness:
  "\<exists>calls. DsInitializeChannel (example_ch_env False) 2 = (STATUS_INSUFFICIENT_RESOURCES, None, calls) \<and>
     ChSetEvent 0 \<in> set calls \<and> opens calls \<noteq> closes calls"
proof -
  obtain Status r calls where i: "DsInitializeChannel (example_ch_env False) 2 = (Status, r, calls)" by (metis prod_cases3)
  then have s: "Status = STATUS_INSUFFICIENT_RESOURCES" "r = None"
    by (auto simp: DsInitializeChannel_def example_ch_env_def init_two DsInitializeBucketEvents_def Let_def)
  have k: "ck_pool (example_ch_env False)" "ck_mdl (example_ch_env False) \<noteq> 0" "ck_map (example_ch_env False) \<noteq> 0"
    "\<not> bucket_ok (example_ch_env False) 0" "NT_SUCCESS (fst (ck_create (example_ch_env False) 0 LowEvent))"
    by (simp_all add: example_ch_env_def bucket_ok_def)
  have "ChSetEvent 0 \<in> set calls \<and> opens calls \<noteq> closes calls"
    using channel_init_failure [OF i [unfolded s] k(1) example_ch_env_ok] k(2-5)
    by (auto simp: DS_MAX_BUCKETS_def intro!: exI [of _ "0::nat"])
  then show ?thesis using i s by blast
qed

section \<open>Sending\<close>

lemma of_nat_bucket: "i < DS_MAX_BUCKETS \<Longrightarrow> unat (of_nat i :: u32) = i"
  by (simp add: DS_MAX_BUCKETS_def unat_of_nat)

lemma set_unset: "bit w i \<Longrightarrow> set_bit i (unset_bit i (w :: u32)) = w"
  by (rule bit_word_eqI) (auto simp: bit_set_bit_iff bit_unset_bit_iff dest: bit_imp_le_length)


definition example_sender :: sender where
  "example_sender = \<lparr>sd_channel = zero_channel\<lparr>ch_BucketsBitMap := 0x7FFF\<rparr>, sd_rundown = \<lparr>rd_refs = 0, rd_closed = False\<rparr>, sd_UniqueId = 41\<rparr>"


end
