(* ===== verification/Driver.thy ===== *)
theory Driver
  imports Channel_Props Vmcs_Init
begin

text \<open>
  The driver's entry points for user mode, for the power manager and for the registry
  (\<open>driver.c\<close>, \<open>ioctl.c\<close>, \<open>power.c\<close>, \<open>policy.c\<close>).  The shield is used through the three
  functions of \<open>shield.h\<close>; what the kernel answers is an argument of each call.
\<close>

section \<open>The state of the driver\<close>

definition DSH_GFL_SHIELD_INITIALIZED :: u32 where "DSH_GFL_SHIELD_INITIALIZED = 1"
definition DSH_GFL_SHIELD_STARTED :: u32 where "DSH_GFL_SHIELD_STARTED = 2"
definition DSH_GFL_SHIELD_SUSPENDED :: u32 where "DSH_GFL_SHIELD_SUSPENDED = 4"
definition DSH_GFL_POWER_REGISTERED :: u32 where "DSH_GFL_POWER_REGISTERED = 0x10"
definition DSH_GFL_PROCMON_STARTED :: u32 where "DSH_GFL_PROCMON_STARTED = 0x20"

definition DSH_RUN_MODE_AUTO_START :: u32 where "DSH_RUN_MODE_AUTO_START = 40"
definition DSH_RUN_MODE_DISABLED :: u32 where "DSH_RUN_MODE_DISABLED = 0"

record ds_vmx_feature =
  fe_Version :: u32
  fe_Bits :: u32
  fe_VmState :: "vmx_state option"

definition DSH_VMX_ABSENT :: "ds_vmx_feature \<Rightarrow> bool" where
  "DSH_VMX_ABSENT v \<longleftrightarrow> fe_Bits v \<noteq> 0"

text \<open>A counted string: lengths in bytes, and the buffer with its address.\<close>

record unicode_string =
  us_Length :: nat
  us_MaximumLength :: nat
  us_Buffer :: "(nat \<times> u16 list) option"

definition null_string :: unicode_string where
  "null_string = \<lparr>us_Length = 0, us_MaximumLength = 0, us_Buffer = None\<rparr>"

text \<open>
  \<open>dr_Registry\<close> is the value \<open>OperationMode\<close> of the policy key, its type and its data;
  \<open>dr_calls\<close> are the calls made for the channel so far.
\<close>

record 's driver =
  gStateFlags :: u32
  dr_shield :: 's
  gChannel :: "ds_channel option"
  gChannelRundown :: rundown
  FirstUse :: bool
  OpenDeviceCount :: u32
  gDriverKeyName :: unicode_string
  gVmxFeature :: ds_vmx_feature
  dr_Registry :: "(u32 \<times> u8 list) option"
  dr_calls :: "ch_call list"

record 's shield_ops =
  so_start :: "'s \<Rightarrow> ntstatus \<Rightarrow> 's \<Rightarrow> bool"
  so_stop :: "'s \<Rightarrow> ntstatus \<Rightarrow> 's \<Rightarrow> bool"
  so_running :: "'s \<Rightarrow> bool"

definition set_flag :: "u32 \<Rightarrow> 's driver \<Rightarrow> 's driver" where
  "set_flag f d = d\<lparr>gStateFlags := SetFlag (gStateFlags d) f\<rparr>"

definition clear_flag :: "u32 \<Rightarrow> 's driver \<Rightarrow> 's driver" where
  "clear_flag f d = d\<lparr>gStateFlags := ClearFlag (gStateFlags d) f\<rparr>"

section \<open>The policy in the registry\<close>

definition REG_DWORD :: u32 where "REG_DWORD = 4"

datatype reg_call = RgOpenRoot | RgCreatePolicy | RgSetValue | RgQueryValue | RgCloseRoot | RgClosePolicy

text \<open>\<open>rg_query\<close> sees the stored value; \<open>rg_stack\<close> is what the query buffer held before.\<close>

record reg_env =
  rg_open :: ntstatus
  rg_create :: ntstatus
  rg_set :: ntstatus
  rg_query :: "(u32 \<times> u8 list) option \<Rightarrow> ntstatus"
  rg_stack :: "u8 list"

text \<open>The status, whether there is a policy key, and the calls.\<close>

definition DsOpenPolicyKey :: "reg_env \<Rightarrow> unicode_string \<Rightarrow> ntstatus \<times> bool \<times> reg_call list" where
  "DsOpenPolicyKey r DriverKeyName =
     (if us_Buffer DriverKeyName = None then (STATUS_UNSUCCESSFUL, False, [])
      else if \<not> NT_SUCCESS (rg_open r) then (rg_open r, False, [])
      else if \<not> NT_SUCCESS (rg_create r) then (rg_create r, False, [RgOpenRoot, RgCloseRoot])
      else (rg_create r, True, [RgOpenRoot, RgCreatePolicy, RgCloseRoot]))"

definition DsClosePolicyKey :: "reg_call list" where
  "DsClosePolicyKey = [RgClosePolicy]"

definition DsSetLoadModePolicy :: "reg_env \<Rightarrow> u32 \<Rightarrow> 's driver \<Rightarrow> ntstatus \<times> 's driver \<times> reg_call list" where
  "DsSetLoadModePolicy r LoadMode d =
     (let (Status, PolicyKey, calls) = DsOpenPolicyKey r (gDriverKeyName d)
      in if \<not> NT_SUCCESS Status then (Status, d, calls)
         else (rg_set r, if NT_SUCCESS (rg_set r) then d\<lparr>dr_Registry := Some (REG_DWORD, le32 LoadMode)\<rparr> else d,
               calls @ [RgSetValue] @ DsClosePolicyKey))"

definition DsQueryLoadModePolicy :: "reg_env \<Rightarrow> 's driver \<Rightarrow> ntstatus \<times> u32 \<times> reg_call list" where
  "DsQueryLoadModePolicy r d =
     (let (Status, PolicyKey, calls) = DsOpenPolicyKey r (gDriverKeyName d)
      in if \<not> NT_SUCCESS Status then (Status, 0, calls)
         else let Status = rg_query r (dr_Registry d);
                  LoadMode = (case dr_Registry d of
                      Some (type, data) \<Rightarrow> if NT_SUCCESS Status \<and> type = REG_DWORD then of_le (take 4 (data @ drop (List.length data) (rg_stack r))) else 0
                    | None \<Rightarrow> 0)
              in (Status, LoadMode, calls @ [RgQueryValue] @ DsClosePolicyKey))"

section \<open>Power transitions\<close>

definition PO_CB_SYSTEM_STATE_LOCK :: u64 where "PO_CB_SYSTEM_STATE_LOCK = 3"

definition DsPowerChangeCallback :: "'s shield_ops \<Rightarrow> u64 \<Rightarrow> u64 \<Rightarrow> 's driver \<Rightarrow> 's driver \<Rightarrow> bool" where
  "DsPowerChangeCallback S PowerStateEvent EventSpecifics d d' \<longleftrightarrow>
     (if PowerStateEvent \<noteq> PO_CB_SYSTEM_STATE_LOCK then d' = d
      else if EventSpecifics = 1 then
        (if \<not> so_running S (dr_shield d) \<and> FlagOn (gStateFlags d) DSH_GFL_SHIELD_SUSPENDED then
           \<exists>Status s. so_start S (dr_shield d) Status s \<and>
             (let d1 = (clear_flag DSH_GFL_SHIELD_SUSPENDED d)\<lparr>dr_shield := s\<rparr>
              in d' = (if NT_SUCCESS Status then set_flag DSH_GFL_SHIELD_STARTED d1 else d1))
         else d' = d)
      else if EventSpecifics = 0 then
        (if so_running S (dr_shield d) then
           \<exists>Status s. so_stop S (dr_shield d) Status s \<and>
             (let d1 = d\<lparr>dr_shield := s\<rparr>
              in d' = (if NT_SUCCESS Status then set_flag DSH_GFL_SHIELD_SUSPENDED (clear_flag DSH_GFL_SHIELD_STARTED d1) else d1))
         else d' = d)
      else d' = d)"

datatype pw_call = PwCreateCallback | PwRegister | PwDereference | PwUnregister nat

definition DsRegisterPowerChangeCallback :: "ntstatus \<Rightarrow> nat \<Rightarrow> nat \<times> pw_call list" where
  "DsRegisterPowerChangeCallback create handle =
     (if NT_SUCCESS create then (handle, [PwCreateCallback, PwRegister, PwDereference]) else (0, []))"

definition DsDeregisterPowerChangeCallback :: "nat \<Rightarrow> pw_call list" where
  "DsDeregisterPowerChangeCallback CallbackHandle = (if CallbackHandle = 0 then [] else [PwUnregister CallbackHandle])"

section \<open>Requests\<close>

definition CTL_CODE :: "u32 \<Rightarrow> u32 \<Rightarrow> u32 \<Rightarrow> u32 \<Rightarrow> u32" where
  "CTL_CODE DeviceType Function Method Access = push_bit 16 DeviceType OR push_bit 14 Access OR push_bit 2 Function OR Method"

definition IOCTL_SHIELD_TYPE :: u32 where "IOCTL_SHIELD_TYPE = 0xB080"
definition METHOD_BUFFERED :: u32 where "METHOD_BUFFERED = 0"
definition FILE_READ_WRITE :: u32 where "FILE_READ_WRITE = 3"

definition IOCTL_SHIELD_STATUS :: u32 where "IOCTL_SHIELD_STATUS = CTL_CODE IOCTL_SHIELD_TYPE 0xA00 METHOD_BUFFERED 1"
definition IOCTL_SHIELD_CONTROL :: u32 where "IOCTL_SHIELD_CONTROL = CTL_CODE IOCTL_SHIELD_TYPE 0xA01 METHOD_BUFFERED FILE_READ_WRITE"
definition IOCTL_SHIELD_CHANNEL_SETUP :: u32 where
  "IOCTL_SHIELD_CHANNEL_SETUP = CTL_CODE IOCTL_SHIELD_TYPE 0xA100 METHOD_BUFFERED FILE_READ_WRITE"
definition IOCTL_SHIELD_CHANNEL_TEARDOWN :: u32 where
  "IOCTL_SHIELD_CHANNEL_TEARDOWN = CTL_CODE IOCTL_SHIELD_TYPE 0xA101 METHOD_BUFFERED FILE_READ_WRITE"
definition IOCTL_SHIELD_GET_VMFEATURE :: u32 where
  "IOCTL_SHIELD_GET_VMFEATURE = CTL_CODE IOCTL_SHIELD_TYPE 0xA201 METHOD_BUFFERED FILE_READ_WRITE"
definition IOCTL_TEST_RDTSC :: u32 where "IOCTL_TEST_RDTSC = CTL_CODE IOCTL_SHIELD_TYPE 0xA20 METHOD_BUFFERED 0"

text \<open>A request: its lengths, the buffered data, and the I/O status block.\<close>

record irp =
  ip_InputLength :: nat
  ip_OutputLength :: nat
  ip_SystemBuffer :: "u8 list"
  ip_Status :: ntstatus
  ip_Information :: nat
  ip_Completed :: bool

definition put_buffer :: "nat \<Rightarrow> u8 list \<Rightarrow> irp \<Rightarrow> irp" where
  "put_buffer i bs p = p\<lparr>ip_SystemBuffer := take i (ip_SystemBuffer p) @ bs @ drop (i + List.length bs) (ip_SystemBuffer p)\<rparr>"

definition get_buffer :: "nat \<Rightarrow> irp \<Rightarrow> u32" where
  "get_buffer i p = of_le (take 4 (drop i (ip_SystemBuffer p)))"

definition fits :: "nat \<Rightarrow> irp \<Rightarrow> bool" where
  "fits n p \<longleftrightarrow> n \<le> max (ip_InputLength p) (ip_OutputLength p)"

definition ShieldStopped :: u32 where "ShieldStopped = 1"
definition ShieldRunning :: u32 where "ShieldRunning = 2"
definition ShieldStop :: u32 where "ShieldStop = 1"
definition ShieldStart :: u32 where "ShieldStart = 2"

definition DsCltGetShieldState :: "'s shield_ops \<Rightarrow> 's driver \<Rightarrow> irp \<Rightarrow> ntstatus \<times> irp" where
  "DsCltGetShieldState S d p =
     (if \<not> fits 4 p then (STATUS_BUFFER_TOO_SMALL, p)
      else (STATUS_SUCCESS, put_buffer 0 (le32 (if so_running S (dr_shield d) then ShieldRunning else ShieldStopped)) (p\<lparr>ip_Information := 4\<rparr>)))"

text \<open>The result is written at offset 4; a shield already in the state asked for gives 0xFF there.\<close>

definition DsCtlShieldControl ::
  "'s shield_ops \<Rightarrow> reg_env \<Rightarrow> 's driver \<Rightarrow> irp \<Rightarrow> ntstatus \<Rightarrow> 's driver \<Rightarrow> irp \<Rightarrow> bool" where
  "DsCtlShieldControl S r d p Status d' p' \<longleftrightarrow>
     (if DSH_VMX_ABSENT (gVmxFeature d) then Status = STATUS_NOT_SUPPORTED \<and> d' = d \<and> p' = p
      else if \<not> fits 8 p then Status = STATUS_BUFFER_TOO_SMALL \<and> d' = d \<and> p' = p
      else let q = put_buffer 4 (le32 0) p; Action = get_buffer 0 p in
        \<exists>q'. p' = (if NT_SUCCESS Status then q'\<lparr>ip_Information := 8\<rparr> else q') \<and>
        (if Action = ShieldStart then
           (if so_running S (dr_shield d) then Status = STATUS_SUCCESS \<and> d' = d \<and> q' = put_buffer 4 (le32 0xFF) q
            else q' = q \<and> (\<exists>s. so_start S (dr_shield d) Status s \<and>
              (let d1 = d\<lparr>dr_shield := s\<rparr>
               in d' = (if NT_SUCCESS Status
                        then fst (snd (DsSetLoadModePolicy r DSH_RUN_MODE_AUTO_START (set_flag DSH_GFL_SHIELD_STARTED d1))) else d1))))
         else if Action = ShieldStop then
           (if \<not> so_running S (dr_shield d) then Status = STATUS_SUCCESS \<and> d' = d \<and> q' = put_buffer 4 (le32 0xFF) q
            else q' = q \<and> (\<exists>s. so_stop S (dr_shield d) Status s \<and>
              (let d1 = d\<lparr>dr_shield := s\<rparr>
               in d' = (if NT_SUCCESS Status
                        then fst (snd (DsSetLoadModePolicy r DSH_RUN_MODE_DISABLED (clear_flag DSH_GFL_SHIELD_STARTED d1))) else d1))))
         else Status = STATUS_INVALID_DEVICE_REQUEST \<and> d' = d \<and> q' = q))"

text \<open>\<open>EX_RUNDOWN_REF\<close>: the wait returns once no reference is left, and the gate is closed.\<close>

definition ExWaitForRundownProtectionRelease :: "rundown \<Rightarrow> rundown" where
  "ExWaitForRundownProtectionRelease r = r\<lparr>rd_refs := 0, rd_closed := True\<rparr>"

definition ExRundownCompleted :: "rundown \<Rightarrow> rundown" where
  "ExRundownCompleted r = r\<lparr>rd_closed := True\<rparr>"

definition ExInitializeRundownProtection :: "rundown \<Rightarrow> rundown" where
  "ExInitializeRundownProtection r = \<lparr>rd_refs = 0, rd_closed = False\<rparr>"

definition ExReInitializeRundownProtection :: "rundown \<Rightarrow> rundown" where
  "ExReInitializeRundownProtection r = r\<lparr>rd_closed := False\<rparr>"

text \<open>What closing the device, the request and unloading share.\<close>

definition delete_channel :: "u32 \<Rightarrow> 's driver \<Rightarrow> 's driver" where
  "delete_channel Reason d =
     (case gChannel d of
        None \<Rightarrow> d
      | Some DeletingChannel \<Rightarrow>
          (clear_flag DSH_GFL_CHANNEL_SETUP
            (d\<lparr>gChannel := None, gChannelRundown := ExRundownCompleted (ExWaitForRundownProtectionRelease (gChannelRundown d))\<rparr>))
          \<lparr>dr_calls := dr_calls d @ DsDestroyChannel Reason DeletingChannel\<rparr>)"

definition DsCtlShieldChannelSetup :: "ch_env \<Rightarrow> 's driver \<Rightarrow> irp \<Rightarrow> ntstatus \<times> 's driver \<times> irp" where
  "DsCtlShieldChannelSetup k d p =
     (if ip_OutputLength p < 24 then (STATUS_BUFFER_TOO_SMALL, d, p)
      else if FlagOn (gStateFlags d) DSH_GFL_CHANNEL_SETUP then (STATUS_INVALID_PARAMETER, d, p)
      else let (Status, r, calls) = DsInitializeChannel k DS_MAX_BUCKETS;
               d = d\<lparr>gChannel := r, dr_calls := dr_calls d @ calls\<rparr>
           in case r of
                Some Channel \<Rightarrow>
                  let d = (if FirstUse d then d\<lparr>gChannelRundown := ExInitializeRundownProtection (gChannelRundown d), FirstUse := False\<rparr>
                           else d\<lparr>gChannelRundown := ExReInitializeRundownProtection (gChannelRundown d)\<rparr>);
                      d = set_flag DSH_GFL_CHANNEL_SETUP d
                  in (Status, d, put_buffer 16 (le32 (of_nat (ch_UserSize Channel))) (put_buffer 8 (le64 (of_nat (ch_UserVa Channel)))
                        (put_buffer 0 (le32 (ch_ChannelId Channel)) (p\<lparr>ip_Information := 24\<rparr>))))
              | None \<Rightarrow> (Status, d, p))"

text \<open>\<open>None\<close>: the flag is set but there is no channel to read the identifier from.\<close>

definition DsCtlShieldChannelTeardown :: "'s driver \<Rightarrow> irp \<Rightarrow> (ntstatus \<times> 's driver \<times> irp) option" where
  "DsCtlShieldChannelTeardown d p =
     (if \<not> fits 4 p then Some (STATUS_BUFFER_TOO_SMALL, d, p)
      else if \<not> FlagOn (gStateFlags d) DSH_GFL_CHANNEL_SETUP then Some (STATUS_INVALID_PARAMETER, d, p)
      else case gChannel d of
             None \<Rightarrow> None
           | Some Channel \<Rightarrow>
               if get_buffer 0 p \<noteq> ch_ChannelId Channel then Some (STATUS_INVALID_PARAMETER, d, p)
               else Some (STATUS_SUCCESS, delete_channel TeardownReason d, p\<lparr>ip_Information := 0\<rparr>))"

text \<open>\<open>vm_bytes\<close> is the layout of \<open>VMX_STATE\<close>; what the reply has beyond it is zero.\<close>

definition DsCtlShieldGetVmFeature :: "(vmx_state option \<Rightarrow> u8 list) \<Rightarrow> 's driver \<Rightarrow> irp \<Rightarrow> ntstatus \<times> irp" where
  "DsCtlShieldGetVmFeature vm_bytes d p =
     (if \<not> fits 520 p then (STATUS_BUFFER_TOO_SMALL, p)
      else (STATUS_SUCCESS,
        (put_buffer 0 (le32 (fe_Version (gVmxFeature d)) @ le32 (fe_Bits (gVmxFeature d)) @ vm_bytes (fe_VmState (gVmxFeature d)))
          (put_buffer 0 (replicate 520 0) p))\<lparr>ip_Information := 520\<rparr>))"

definition complete :: "ntstatus \<Rightarrow> irp \<Rightarrow> irp" where
  "complete Status p = p\<lparr>ip_Status := Status, ip_Completed := True\<rparr>"

datatype irp_major = IRP_MJ_CREATE | IRP_MJ_CLOSE

definition DriverDeviceCreateClose :: "irp_major \<Rightarrow> 's driver \<Rightarrow> irp \<Rightarrow> ntstatus \<times> 's driver \<times> irp" where
  "DriverDeviceCreateClose MajorFunction d p =
     (STATUS_SUCCESS,
      case MajorFunction of
        IRP_MJ_CREATE \<Rightarrow> d\<lparr>OpenDeviceCount := OpenDeviceCount d + 1\<rparr>
      | IRP_MJ_CLOSE \<Rightarrow>
          let d = d\<lparr>OpenDeviceCount := OpenDeviceCount d - 1\<rparr>
          in if OpenDeviceCount d = 0 \<and> FlagOn (gStateFlags d) DSH_GFL_CHANNEL_SETUP then delete_channel NoOpenDeviceReason d else d,
      complete STATUS_SUCCESS (p\<lparr>ip_Information := 0\<rparr>))"

text \<open>
  \<open>test\<close> is the handler of the time stamp tests.  A code that no case names leaves the status
  at success.
\<close>

definition DriverDeviceControl ::
  "'s shield_ops \<Rightarrow> (vmx_state option \<Rightarrow> u8 list) \<Rightarrow> (irp \<Rightarrow> ntstatus \<times> irp) \<Rightarrow> reg_env \<Rightarrow> ch_env \<Rightarrow> u32
     \<Rightarrow> 's driver \<Rightarrow> irp \<Rightarrow> ntstatus \<Rightarrow> 's driver \<Rightarrow> irp \<Rightarrow> bool" where
  "DriverDeviceControl S vm_bytes test r k IoControlCode d p0 Status d' p' \<longleftrightarrow>
     (let p = p0\<lparr>ip_Status := STATUS_INVALID_DEVICE_REQUEST, ip_Information := 0\<rparr> in
      \<exists>q. (if IoControlCode = IOCTL_SHIELD_STATUS then d' = d \<and> (Status, q) = DsCltGetShieldState S d p
           else if IoControlCode = IOCTL_SHIELD_CONTROL then DsCtlShieldControl S r d p Status d' q
           else if IoControlCode = IOCTL_SHIELD_CHANNEL_SETUP then (Status, d', q) = DsCtlShieldChannelSetup k d p
           else if IoControlCode = IOCTL_SHIELD_CHANNEL_TEARDOWN then Some (Status, d', q) = DsCtlShieldChannelTeardown d p
           else if IoControlCode = IOCTL_SHIELD_GET_VMFEATURE then d' = d \<and> (Status, q) = DsCtlShieldGetVmFeature vm_bytes d p
           else if IoControlCode = IOCTL_TEST_RDTSC then d' = d \<and> (Status, q) = test p
           else Status = STATUS_SUCCESS \<and> d' = d \<and> q = p) \<and>
        p' = (if Status = STATUS_PENDING then q else complete Status q))"

section \<open>Runs of the driver\<close>

text \<open>One call into the driver at a time.\<close>

inductive driver_step :: "'s shield_ops \<Rightarrow> (irp \<Rightarrow> ntstatus \<times> irp) \<Rightarrow> 's driver \<Rightarrow> 's driver \<Rightarrow> bool" for S test where
  power: "DsPowerChangeCallback S PowerStateEvent EventSpecifics d d' \<Longrightarrow> driver_step S test d d'"
| control: "ch_env_ok k \<Longrightarrow> DriverDeviceControl S vm_bytes test r k IoControlCode d p Status d' p' \<Longrightarrow> driver_step S test d d'"
| open_close: "DriverDeviceCreateClose MajorFunction d p = (Status, d', p') \<Longrightarrow> driver_step S test d d'"

end
