(* ===== verification/Shield.thy ===== *)
theory Shield
  imports Load_Props Mmu_Map Driver
begin

text \<open>
  The shield (\<open>shield.c\<close>): memory mapping when the driver is initialised, and the hypervisor,
  which starts and stops on demand.  It meets the contract the driver relies on.
\<close>

definition DsInitializeShield ::
  "(slot \<Rightarrow> slot_env) \<Rightarrow> bool \<Rightarrow> mmu_globals \<Rightarrow> nat \<Rightarrow> mmu_state \<Rightarrow> (ntstatus \<times> mmu_state) option" where
  "DsInitializeShield = MmuInitialize"

definition DsFinalizeShield :: "nat \<Rightarrow> mmu_state \<Rightarrow> mmu_state option" where
  "DsFinalizeShield = MmuFinalize"

type_synonym shield_state = "ds_globals \<times> (nat \<Rightarrow> hv_state)"

definition DsStartShield :: "create_env \<Rightarrow> machine \<Rightarrow> ntstatus \<Rightarrow> shield_state \<Rightarrow> ntstatus \<Rightarrow> shield_state \<Rightarrow> bool" where
  "DsStartShield e M Verify s Status s' = DsLoadHvm e M Verify s Status s'"

definition DsStopShield :: "create_env \<Rightarrow> machine \<Rightarrow> shield_state \<Rightarrow> ntstatus \<Rightarrow> shield_state \<Rightarrow> bool" where
  "DsStopShield e M s Status s' = DsUnloadHvm e M s Status s'"

definition DsIsShieldRunning :: "shield_state \<Rightarrow> bool" where
  "DsIsShieldRunning s = DsIsHvmLaunched (fst s)"

definition hv_shield :: "create_env \<Rightarrow> machine \<Rightarrow> ntstatus \<Rightarrow> shield_state shield_ops" where
  "hv_shield e M Verify = \<lparr>so_start = DsStartShield e M Verify, so_stop = DsStopShield e M, so_running = DsIsShieldRunning\<rparr>"

section \<open>The contract of the driver with the shield\<close>

locale shield_contract =
  fixes S :: "'s shield_ops"
  assumes start_law: "\<not> so_running S s \<Longrightarrow> so_start S s Status s' \<Longrightarrow> so_running S s' = NT_SUCCESS Status"
    and stop_law: "so_running S s \<Longrightarrow> so_stop S s Status s' \<Longrightarrow> so_running S s' = (\<not> NT_SUCCESS Status)"

section \<open>The hypervisor meets it\<close>

lemma initialize_launched:
  "HvmInitialize e Verify SP m = Some (St, r, m') \<Longrightarrow> (case r of None \<Rightarrow> \<not> NT_SUCCESS St | Some H \<Rightarrow> \<not> hs_Launched H)"
  by (auto simp: HvmInitialize_def HvmInitializePerCpu_def Let_def NT_SUCCESS_not_zero split: Option.bind_splits option.splits if_splits)

lemma delete_gHvm: "DsDeleteHvmContexts e g g' \<Longrightarrow> gHvm g' = gHvm g"
  by (auto simp: DsDeleteHvmContexts_def delete_hvm_context_def split: option.splits prod.splits)

lemma finalize_gHvm: "DsFinalizeHvm e g St g' \<Longrightarrow> gHvm g' = None"
  by (auto simp: DsFinalizeHvm_def dest!: delete_gHvm split: option.splits)

lemma init_vcpu_contexts_launched:
  "init_vcpu_contexts e Hvm g ok Hvm' g' \<Longrightarrow> hs_Launched Hvm' = hs_Launched Hvm \<and> gHvm g' = gHvm g"
  by (auto simp: init_vcpu_contexts_def set_contexts_sel split: option.splits prod.splits if_splits)

lemma contexts_launched:
  assumes "DsInitializeHvmContexts e Hvm g St Hvm' g'"
  shows "hs_Launched Hvm' = hs_Launched Hvm \<and> gHvm g' = gHvm g"
proof (cases "Option.bind (ds_mem g) (\<lambda>m. MemAlloc m (ce_sizeof_hvm_context e))")
  case None
  then show ?thesis using assms by (simp add: DsInitializeHvmContexts_def)
next
  case (Some r)
  obtain q m where r: "r = (q, m)" by (cases r)
  note d = delete_gHvm [of e]
  show ?thesis
  proof (cases q)
    case None
    then show ?thesis using assms Some r by (auto simp: DsInitializeHvmContexts_def dest: d)
  next
    case q: (Some p)
    show ?thesis
    proof (cases "InitializeHvmContext e m")
      case None
      then show ?thesis using assms Some r q by (simp add: DsInitializeHvmContexts_def)
    next
      case c: (Some t)
      obtain b C m2 where t: "t = (b, C, m2)" by (cases t)
      show ?thesis
      proof (cases b)
        case True
        then obtain ok g1 where "init_vcpu_contexts e (HvmSetHvmContext p Hvm) (g\<lparr>ds_mem := Some m2, gHvmContext := Some (p, C)\<rparr>) ok Hvm' g1"
          "if ok then g' = g1 else DsDeleteHvmContexts e g1 g'"
          using assms Some r q c t by (auto simp: DsInitializeHvmContexts_def split: if_splits)
        then show ?thesis by (auto simp: HvmSetHvmContext_def dest!: init_vcpu_contexts_launched d split: if_splits)
      next
        case False
        then show ?thesis using assms Some r q c t by (auto simp: DsInitializeHvmContexts_def dest: d)
      qed
    qed
  qed
qed

lemma initialize_hvm_launched:
  assumes "DsInitializeHvm e Verify g St g'" "\<not> DsIsHvmLaunched g"
  shows "\<not> DsIsHvmLaunched g' \<and> (NT_SUCCESS St \<longrightarrow> gHvm g' \<noteq> None)"
proof (cases "Option.bind (ds_mem g) (HvmInitialize e Verify DS_HVM_STACK_PAGES)")
  case None
  then show ?thesis using assms by (simp add: DsInitializeHvm_def DsIsHvmLaunched_def DsIsHvmInitialized_def)
next
  case (Some r)
  obtain s H m where r: "r = (s, H, m)" by (cases r)
  have l: "case H of None \<Rightarrow> \<not> NT_SUCCESS s | Some H \<Rightarrow> \<not> hs_Launched H"
    using Some r by (auto split: Option.bind_splits dest: initialize_launched)
  show ?thesis using assms Some r l contexts_launched
    by (auto simp: DsInitializeHvm_def DsIsHvmLaunched_def DsIsHvmInitialized_def split: option.splits if_splits)
qed

lemma load_running:
  assumes "DsLoadHvm e M Verify (g, cpus) Status (g', cpus')" "\<not> DsIsHvmLaunched g"
  shows "DsIsHvmLaunched g' = NT_SUCCESS Status"
proof -
  obtain St g1 where i: "DsInitializeHvm e Verify g St g1"
    "if \<not> NT_SUCCESS St then Status = St \<and> (g', cpus') = (g1, cpus)
     else \<exists>h. HvmStart (mc_vmx M) (ce_count e) (hvm_view e g1 cpus) Status h \<and>
           (if NT_SUCCESS Status then (g', cpus') = (hvm_store e h g1, hm_cpus h)
            else \<exists>St2 h2 St3 g2. HvmStop (mc_vmcall M) (mc_vmx M) (mc_env M) (ce_count e) h St2 h2 \<and>
              DsFinalizeHvm e (hvm_store e h2 g1) St3 g2 \<and> (g', cpus') = (g2, hm_cpus h2))"
    using assms(1) unfolding DsLoadHvm_def by (simp only: prod.case) blast
  note l = initialize_hvm_launched [OF i(1) assms(2)]
  show ?thesis
  proof (cases "NT_SUCCESS St")
    case False
    then show ?thesis using i(2) l by auto
  next
    case True
    then obtain H where H: "gHvm g1 = Some H" "\<not> hs_Launched H" using l by (auto simp: DsIsHvmLaunched_def DsIsHvmInitialized_def)
    obtain h where h: "HvmStart (mc_vmx M) (ce_count e) (hvm_view e g1 cpus) Status h"
      "if NT_SUCCESS Status then (g', cpus') = (hvm_store e h g1, hm_cpus h)
       else \<exists>St2 h2 St3 g2. HvmStop (mc_vmcall M) (mc_vmx M) (mc_env M) (ce_count e) h St2 h2 \<and>
              DsFinalizeHvm e (hvm_store e h2 g1) St3 g2 \<and> (g', cpus') = (g2, hm_cpus h2)"
      using i(2) True by auto
    have "hm_Launched h = NT_SUCCESS Status" by (rule started_or_not [OF h(1)]) (simp add: hvm_view_def H)
    then show ?thesis using h(2) finalize_gHvm
      by (auto simp: DsIsHvmLaunched_def DsIsHvmInitialized_def hvm_store_def split: if_splits)
  qed
qed

lemma unload_running:
  assumes "DsUnloadHvm e M (g, cpus) Status (g', cpus')" "DsIsHvmLaunched g"
  shows "DsIsHvmLaunched g' = (\<not> NT_SUCCESS Status)"
proof -
  obtain h where h: "HvmStop (mc_vmcall M) (mc_vmx M) (mc_env M) (ce_count e) (hvm_view e g cpus) Status h"
    "if NT_SUCCESS Status then \<exists>St g2. DsFinalizeHvm e (hvm_store e h g) St g2 \<and> (g', cpus') = (g2, hm_cpus h)
     else (g', cpus') = (hvm_store e h g, hm_cpus h)"
    using assms(1) by (auto simp: DsUnloadHvm_def)
  have "hm_Launched (hvm_view e g cpus)" using assms(2) by (simp add: hvm_view_def DsIsHvmLaunched_def)
  then have "hm_Launched h = (\<not> NT_SUCCESS Status)" using h(1) by (auto simp: HvmStop_def)
  then show ?thesis using h(2) finalize_gHvm
    by (auto simp: DsIsHvmLaunched_def DsIsHvmInitialized_def hvm_store_def split: if_splits)
qed

interpretation hv: shield_contract "hv_shield e M Verify" for e M Verify
proof
  fix s s' :: shield_state and Status
  obtain g cpus g' cpus' where s: "s = (g, cpus)" "s' = (g', cpus')" by (metis prod.exhaust)
  show "\<not> so_running (hv_shield e M Verify) s \<Longrightarrow> so_start (hv_shield e M Verify) s Status s' \<Longrightarrow>
      so_running (hv_shield e M Verify) s' = NT_SUCCESS Status"
    using load_running by (auto simp: hv_shield_def DsIsShieldRunning_def DsStartShield_def s)
  show "so_running (hv_shield e M Verify) s \<Longrightarrow> so_stop (hv_shield e M Verify) s Status s' \<Longrightarrow>
      so_running (hv_shield e M Verify) s' = (\<not> NT_SUCCESS Status)"
    using unload_running by (auto simp: hv_shield_def DsIsShieldRunning_def DsStopShield_def s)
qed

end
