(* ===== verification/Driver_Props.thy ===== *)
theory Driver_Props
  imports Shield Transition
begin

text \<open>
  What the driver's flags mean: the shield runs exactly when it is marked started, the channel
  exists exactly when it is marked set up, and a sleep and a wake-up restore the shield.
\<close>

section \<open>The flags\<close>

lemmas flag_defs = DSH_GFL_SHIELD_STARTED_def DSH_GFL_SHIELD_SUSPENDED_def DSH_GFL_CHANNEL_SETUP_def

lemma flags_apart [simp]:
  "DSH_GFL_SHIELD_STARTED AND DSH_GFL_SHIELD_SUSPENDED = 0" "DSH_GFL_SHIELD_SUSPENDED AND DSH_GFL_SHIELD_STARTED = 0"
  "DSH_GFL_SHIELD_STARTED AND DSH_GFL_CHANNEL_SETUP = 0" "DSH_GFL_CHANNEL_SETUP AND DSH_GFL_SHIELD_STARTED = 0"
  "DSH_GFL_SHIELD_SUSPENDED AND DSH_GFL_CHANNEL_SETUP = 0" "DSH_GFL_CHANNEL_SETUP AND DSH_GFL_SHIELD_SUSPENDED = 0"
  "DSH_GFL_SHIELD_STARTED \<noteq> 0" "DSH_GFL_SHIELD_SUSPENDED \<noteq> 0" "DSH_GFL_CHANNEL_SETUP \<noteq> 0"
  by (simp_all add: flag_defs)

lemma flag_sel [simp]:
  "gStateFlags (set_flag f d) = SetFlag (gStateFlags d) f" "dr_shield (set_flag f d) = dr_shield d" "gChannel (set_flag f d) = gChannel d"
  "gChannelRundown (set_flag f d) = gChannelRundown d" "FirstUse (set_flag f d) = FirstUse d" "dr_calls (set_flag f d) = dr_calls d"
  "gStateFlags (clear_flag f d) = ClearFlag (gStateFlags d) f" "dr_shield (clear_flag f d) = dr_shield d" "gChannel (clear_flag f d) = gChannel d"
  "gChannelRundown (clear_flag f d) = gChannelRundown d" "FirstUse (clear_flag f d) = FirstUse d" "dr_calls (clear_flag f d) = dr_calls d"
  by (simp_all add: set_flag_def clear_flag_def)

section \<open>The invariant\<close>

text \<open>The channel is one that was created; its resources are the ones not given back yet.\<close>

definition channel_inv :: "'s driver \<Rightarrow> bool" where
  "channel_inv d \<longleftrightarrow>
     (case gChannel d of
        None \<Rightarrow> \<not> FlagOn (gStateFlags d) DSH_GFL_CHANNEL_SETUP \<and> (FirstUse d \<or> rd_closed (gChannelRundown d)) \<and>
          opens (dr_calls d) \<subseteq># closes (dr_calls d)
      | Some Channel \<Rightarrow> FlagOn (gStateFlags d) DSH_GFL_CHANNEL_SETUP \<and> \<not> FirstUse d \<and> \<not> rd_closed (gChannelRundown d) \<and>
          (\<forall>Reason. opens (DsDestroyChannel Reason Channel) = {#} \<and> ChSetEvent 0 \<notin> set (DsDestroyChannel Reason Channel) \<and>
             opens (dr_calls d) \<subseteq># closes (dr_calls d) + closes (DsDestroyChannel Reason Channel)))"

definition shield_inv :: "'s shield_ops \<Rightarrow> 's driver \<Rightarrow> bool" where
  "shield_inv S d \<longleftrightarrow> (FlagOn (gStateFlags d) DSH_GFL_SHIELD_STARTED \<longleftrightarrow> so_running S (dr_shield d))"

definition driver_init :: "'s shield_ops \<Rightarrow> 's driver \<Rightarrow> bool" where
  "driver_init S d \<longleftrightarrow> gStateFlags d AND (DSH_GFL_SHIELD_STARTED OR DSH_GFL_SHIELD_SUSPENDED OR DSH_GFL_CHANNEL_SETUP) = 0 \<and>
     \<not> so_running S (dr_shield d) \<and> gChannel d = None \<and> FirstUse d \<and> dr_calls d = []"

lemma channel_inv_cong:
  "gChannel d' = gChannel d \<Longrightarrow> FlagOn (gStateFlags d') DSH_GFL_CHANNEL_SETUP = FlagOn (gStateFlags d) DSH_GFL_CHANNEL_SETUP \<Longrightarrow>
   FirstUse d' = FirstUse d \<Longrightarrow> gChannelRundown d' = gChannelRundown d \<Longrightarrow> dr_calls d' = dr_calls d \<Longrightarrow> channel_inv d' = channel_inv d"
  by (simp add: channel_inv_def split: option.split)

lemma mode_policy_sel:
  "gStateFlags (fst (snd (DsSetLoadModePolicy r m d))) = gStateFlags d" "dr_shield (fst (snd (DsSetLoadModePolicy r m d))) = dr_shield d"
  "gChannel (fst (snd (DsSetLoadModePolicy r m d))) = gChannel d" "FirstUse (fst (snd (DsSetLoadModePolicy r m d))) = FirstUse d"
  "gChannelRundown (fst (snd (DsSetLoadModePolicy r m d))) = gChannelRundown d" "dr_calls (fst (snd (DsSetLoadModePolicy r m d))) = dr_calls d"
  by (simp_all add: DsSetLoadModePolicy_def split: prod.splits)

text \<open>Taking the channel down.\<close>

lemma delete_channel_sel:
  "dr_shield (delete_channel R d) = dr_shield d"
  "FlagOn (gStateFlags (delete_channel R d)) DSH_GFL_SHIELD_STARTED = FlagOn (gStateFlags d) DSH_GFL_SHIELD_STARTED"
  "FlagOn (gStateFlags (delete_channel R d)) DSH_GFL_SHIELD_SUSPENDED = FlagOn (gStateFlags d) DSH_GFL_SHIELD_SUSPENDED"
  "gChannel (delete_channel R d) = None"
  by (simp_all add: delete_channel_def split: option.split)

lemma delete_channel_inv: "channel_inv d \<Longrightarrow> channel_inv (delete_channel R d)"
  by (auto simp: delete_channel_def channel_inv_def ExRundownCompleted_def split: option.splits)

lemma setup_channel:
  assumes "ch_env_ok k" "DsCtlShieldChannelSetup k d p = (Status, d', p')"
  shows "channel_inv d \<Longrightarrow> channel_inv d'" "dr_shield d' = dr_shield d"
    "FlagOn (gStateFlags d') DSH_GFL_SHIELD_STARTED = FlagOn (gStateFlags d) DSH_GFL_SHIELD_STARTED"
    "FlagOn (gStateFlags d') DSH_GFL_SHIELD_SUSPENDED = FlagOn (gStateFlags d) DSH_GFL_SHIELD_SUSPENDED"
proof -
  obtain St r calls where i: "DsInitializeChannel k DS_MAX_BUCKETS = (St, r, calls)" by (rule prod_cases3)
  show "dr_shield d' = dr_shield d"
    "FlagOn (gStateFlags d') DSH_GFL_SHIELD_STARTED = FlagOn (gStateFlags d) DSH_GFL_SHIELD_STARTED"
    "FlagOn (gStateFlags d') DSH_GFL_SHIELD_SUSPENDED = FlagOn (gStateFlags d) DSH_GFL_SHIELD_SUSPENDED"
    using assms(2) i by (auto simp: DsCtlShieldChannelSetup_def Let_def split: if_splits option.splits)
  assume inv: "channel_inv d"
  show "channel_inv d'"
  proof (cases "ip_OutputLength p < 24 \<or> FlagOn (gStateFlags d) DSH_GFL_CHANNEL_SETUP")
    case True
    then show ?thesis using assms(2) inv by (auto simp: DsCtlShieldChannelSetup_def split: if_splits)
  next
    case False
    then have n: "gChannel d = None" "opens (dr_calls d) \<subseteq># closes (dr_calls d)" "FirstUse d \<or> rd_closed (gChannelRundown d)"
      using inv by (auto simp: channel_inv_def split: option.splits)
    show ?thesis
    proof (cases r)
      case None
      have "opens calls \<subseteq># closes calls"
      proof (cases "ck_pool k")
        case True
        show ?thesis using init_failure [OF i [unfolded None] True assms(1)] by (simp add: DS_MAX_BUCKETS_def)
      next
        case f: False
        then show ?thesis using i by (simp add: DsInitializeChannel_def)
      qed
      then show ?thesis using assms(2) i None False n
        by (auto simp: DsCtlShieldChannelSetup_def channel_inv_def subset_mset.add_mono)
    next
      case (Some ch)
      have c: "closes calls = {#}" "opens calls = closes (DsDestroyChannel R ch)" "opens (DsDestroyChannel R ch) = {#}"
        "ChSetEvent 0 \<notin> set (DsDestroyChannel R ch)" for R
        using init_success [OF i [unfolded Some] assms(1), of R] by simp_all
      have "opens (dr_calls d @ calls) \<subseteq># closes (dr_calls d @ calls) + closes (DsDestroyChannel R ch)" for R
        using n(2) c(1) c(2) [of R] by (simp add: subset_mset.add_mono)
      then show ?thesis using assms(2) i Some False c(3,4)
        by (auto simp: DsCtlShieldChannelSetup_def Let_def channel_inv_def ExInitializeRundownProtection_def ExReInitializeRundownProtection_def
            split: if_splits)
    qed
  qed
qed

context shield_contract
begin

lemma start_shield_keeps:
  assumes "\<not> so_running S (dr_shield d)" "so_start S (dr_shield d) Status s"
    "gStateFlags d' = (if NT_SUCCESS Status then SetFlag f DSH_GFL_SHIELD_STARTED else f)" "dr_shield d' = s"
    "\<not> FlagOn f DSH_GFL_SHIELD_STARTED"
  shows "shield_inv S d'"
  using assms(5) by (simp add: shield_inv_def start_law [OF assms(1,2)] assms(3,4))

lemma stop_shield_keeps:
  assumes "so_running S (dr_shield d)" "so_stop S (dr_shield d) Status s" "shield_inv S d" "dr_shield d' = s"
    "FlagOn (gStateFlags d') DSH_GFL_SHIELD_STARTED = (if NT_SUCCESS Status then False else FlagOn (gStateFlags d) DSH_GFL_SHIELD_STARTED)"
  shows "shield_inv S d'"
  using assms(1,3) by (simp add: shield_inv_def stop_law [OF assms(1,2)] assms(4,5))

lemma power_keeps:
  assumes "DsPowerChangeCallback S e p d d'" "shield_inv S d" "channel_inv d"
  shows "shield_inv S d' \<and> channel_inv d'"
proof -
  consider "d' = d"
    | (resume) Status s where "\<not> so_running S (dr_shield d)" "FlagOn (gStateFlags d) DSH_GFL_SHIELD_SUSPENDED"
      "so_start S (dr_shield d) Status s" "d' = (let d1 = (clear_flag DSH_GFL_SHIELD_SUSPENDED d)\<lparr>dr_shield := s\<rparr>
              in if NT_SUCCESS Status then set_flag DSH_GFL_SHIELD_STARTED d1 else d1)"
    | (suspend) Status s where "so_running S (dr_shield d)" "so_stop S (dr_shield d) Status s" "d' = (let d1 = d\<lparr>dr_shield := s\<rparr>
              in if NT_SUCCESS Status then set_flag DSH_GFL_SHIELD_SUSPENDED (clear_flag DSH_GFL_SHIELD_STARTED d1) else d1)"
    using assms(1) unfolding DsPowerChangeCallback_def Let_def by (auto split: if_splits)
  then show ?thesis
  proof cases
    case resume
    have n: "\<not> FlagOn (gStateFlags d) DSH_GFL_SHIELD_STARTED" using resume(1) assms(2) by (simp add: shield_inv_def)
    have "shield_inv S d'"
      by (rule start_shield_keeps [OF resume(1,3), where f = "ClearFlag (gStateFlags d) DSH_GFL_SHIELD_SUSPENDED"])
        (use n in \<open>simp_all add: resume(4) Let_def\<close>)
    moreover have "channel_inv d' = channel_inv d" by (rule channel_inv_cong) (simp_all add: resume(4) Let_def)
    ultimately show ?thesis using assms(3) by simp
  next
    case suspend
    have "shield_inv S d'" by (rule stop_shield_keeps [OF suspend(1,2) assms(2)]) (simp_all add: suspend(3) Let_def)
    moreover have "channel_inv d' = channel_inv d" by (rule channel_inv_cong) (simp_all add: suspend(3) Let_def)
    ultimately show ?thesis using assms(3) by simp
  qed (use assms in simp)
qed

lemma control_keeps:
  assumes "DsCtlShieldControl S r d p Status d' p'" "shield_inv S d" "channel_inv d"
  shows "shield_inv S d' \<and> channel_inv d'"
proof -
  have x: "d' = d \<or>
      (\<exists>s. \<not> so_running S (dr_shield d) \<and> so_start S (dr_shield d) Status s \<and>
         d' = (let d1 = d\<lparr>dr_shield := s\<rparr> in if NT_SUCCESS Status
           then fst (snd (DsSetLoadModePolicy r DSH_RUN_MODE_AUTO_START (set_flag DSH_GFL_SHIELD_STARTED d1))) else d1)) \<or>
      (\<exists>s. so_running S (dr_shield d) \<and> so_stop S (dr_shield d) Status s \<and>
         d' = (let d1 = d\<lparr>dr_shield := s\<rparr> in if NT_SUCCESS Status
           then fst (snd (DsSetLoadModePolicy r DSH_RUN_MODE_DISABLED (clear_flag DSH_GFL_SHIELD_STARTED d1))) else d1))"
    using assms(1) unfolding DsCtlShieldControl_def Let_def by (auto split: if_splits)
  have c: "channel_inv d' = channel_inv d" if "dr_calls d' = dr_calls d" "gChannel d' = gChannel d" "FirstUse d' = FirstUse d"
    "gChannelRundown d' = gChannelRundown d" "FlagOn (gStateFlags d') DSH_GFL_CHANNEL_SETUP = FlagOn (gStateFlags d) DSH_GFL_CHANNEL_SETUP"
    using that by (intro channel_inv_cong)
  from x show ?thesis
  proof (elim disjE exE conjE)
    assume "d' = d"
    then show ?thesis using assms(2,3) by simp
  next
    fix s
    assume s: "\<not> so_running S (dr_shield d)" "so_start S (dr_shield d) Status s" and d': "d' = (let d1 = d\<lparr>dr_shield := s\<rparr> in if NT_SUCCESS Status
           then fst (snd (DsSetLoadModePolicy r DSH_RUN_MODE_AUTO_START (set_flag DSH_GFL_SHIELD_STARTED d1))) else d1)"
    have "\<not> FlagOn (gStateFlags d) DSH_GFL_SHIELD_STARTED" using assms(2) s(1) by (simp add: shield_inv_def)
    then show ?thesis using start_law [OF s] assms(3) c by (simp add: d' Let_def mode_policy_sel shield_inv_def)
  next
    fix s
    assume s: "so_running S (dr_shield d)" "so_stop S (dr_shield d) Status s" and d': "d' = (let d1 = d\<lparr>dr_shield := s\<rparr> in if NT_SUCCESS Status
           then fst (snd (DsSetLoadModePolicy r DSH_RUN_MODE_DISABLED (clear_flag DSH_GFL_SHIELD_STARTED d1))) else d1)"
    have "FlagOn (gStateFlags d) DSH_GFL_SHIELD_STARTED" using assms(2) s(1) by (simp add: shield_inv_def)
    then show ?thesis using stop_law [OF s] assms(3) c by (simp add: d' Let_def mode_policy_sel shield_inv_def)
  qed
qed

lemma step_keeps:
  assumes "driver_step S test d d'" "shield_inv S d" "channel_inv d"
  shows "shield_inv S d' \<and> channel_inv d'"
  using assms(1)
proof cases
  case (power e p)
  then show ?thesis using power_keeps assms(2,3) by blast
next
  case (control k vm_bytes r code p Status p')
  let ?p = "p\<lparr>ip_Status := STATUS_INVALID_DEVICE_REQUEST, ip_Information := 0\<rparr>"
  obtain q where "d' = d \<or> DsCtlShieldControl S r d ?p Status d' q \<or> (Status, d', q) = DsCtlShieldChannelSetup k d ?p \<or>
      Some (Status, d', q) = DsCtlShieldChannelTeardown d ?p"
    using control(2) unfolding DriverDeviceControl_def Let_def by (auto split: if_splits)
  then consider "d' = d" | "DsCtlShieldControl S r d ?p Status d' q" | "DsCtlShieldChannelSetup k d ?p = (Status, d', q)"
    | "DsCtlShieldChannelTeardown d ?p = Some (Status, d', q)" by metis
  then show ?thesis
  proof cases
    case 2
    then show ?thesis using control_keeps assms(2,3) by blast
  next
    case 3
    show ?thesis using setup_channel(1-3) [OF control(1) 3] assms(2,3) by (simp add: shield_inv_def)
  next
    case 4
    then have "d' = d \<or> d' = delete_channel TeardownReason d"
      by (auto simp: DsCtlShieldChannelTeardown_def split: if_splits option.splits)
    then show ?thesis using assms(2,3) delete_channel_inv by (auto simp: shield_inv_def delete_channel_sel)
  qed (use assms in simp)
next
  case (open_close m p Status p')
  have c: "channel_inv (d\<lparr>OpenDeviceCount := n\<rparr>) = channel_inv d" for n by (rule channel_inv_cong) simp_all
  show ?thesis using open_close assms(2,3) delete_channel_inv c
    by (cases m) (auto simp: DriverDeviceCreateClose_def Let_def shield_inv_def delete_channel_sel split: if_splits)
qed

lemma init_keeps: "driver_init S d \<Longrightarrow> shield_inv S d \<and> channel_inv d"
proof -
  assume i: "driver_init S d"
  have z: "f AND (a OR b OR c) = 0 \<Longrightarrow> f AND a = 0 \<and> f AND b = 0 \<and> f AND c = 0" for f a b c :: u32
    by (simp add: bit.conj_disj_distrib or_eq_0_iff)
  show ?thesis using i z [of "gStateFlags d" DSH_GFL_SHIELD_STARTED DSH_GFL_SHIELD_SUSPENDED DSH_GFL_CHANNEL_SETUP]
    by (auto simp: driver_init_def shield_inv_def channel_inv_def FlagOn_def)
qed

end

interpretation drv: invariant_system "driver_init (hv_shield e M Verify)" "driver_step (hv_shield e M Verify) test"
    "\<lambda>d. shield_inv (hv_shield e M Verify) d \<and> channel_inv d" for e M Verify test
proof
  fix d :: "shield_state driver"
  show "driver_init (hv_shield e M Verify) d \<Longrightarrow> shield_inv (hv_shield e M Verify) d \<and> channel_inv d"
    by (rule hv.init_keeps)
  fix d' :: "shield_state driver"
  show "shield_inv (hv_shield e M Verify) d \<and> channel_inv d \<Longrightarrow> driver_step (hv_shield e M Verify) test d d' \<Longrightarrow>
      shield_inv (hv_shield e M Verify) d' \<and> channel_inv d'"
    using hv.step_keeps by blast
qed

section \<open>Power transitions\<close>

lemma flags_restored:
  assumes "FlagOn f DSH_GFL_SHIELD_STARTED" "\<not> FlagOn f DSH_GFL_SHIELD_SUSPENDED"
  shows "SetFlag (ClearFlag (SetFlag (ClearFlag f DSH_GFL_SHIELD_STARTED) DSH_GFL_SHIELD_SUSPENDED) DSH_GFL_SHIELD_SUSPENDED)
    DSH_GFL_SHIELD_STARTED = f"
proof -
  have n: "DSH_GFL_SHIELD_STARTED = 2 ^ 1" "DSH_GFL_SHIELD_SUSPENDED = 2 ^ 2" by (simp_all add: flag_defs)
  have "bit f 1" "\<not> bit f 2" using assms unfolding FlagOn_def n and_exp_eq_0_iff_not_bit by simp_all
  moreover have e: "bit (2 ^ k :: u32) i \<longleftrightarrow> i < 32 \<and> i = k" for k i by (auto simp: bit_exp_iff)
  ultimately show ?thesis unfolding SetFlag_def ClearFlag_def n
    by (intro bit_word_eqI) (simp only: bit_or_iff bit_and_iff bit_not_iff e, auto)
qed

context shield_contract
begin

lemma sleep_cases:
  assumes "DsPowerChangeCallback S PO_CB_SYSTEM_STATE_LOCK 0 d d1"
  obtains "\<not> so_running S (dr_shield d)" "d1 = d"
    | Status s where "so_running S (dr_shield d)" "so_running S s = (\<not> NT_SUCCESS Status)"
      "d1 = (if NT_SUCCESS Status then set_flag DSH_GFL_SHIELD_SUSPENDED (clear_flag DSH_GFL_SHIELD_STARTED (d\<lparr>dr_shield := s\<rparr>))
             else d\<lparr>dr_shield := s\<rparr>)"
proof (cases "so_running S (dr_shield d)")
  case True
  then obtain Status s where s: "so_stop S (dr_shield d) Status s"
    "d1 = (if NT_SUCCESS Status then set_flag DSH_GFL_SHIELD_SUSPENDED (clear_flag DSH_GFL_SHIELD_STARTED (d\<lparr>dr_shield := s\<rparr>))
           else d\<lparr>dr_shield := s\<rparr>)"
    using assms by (auto simp: DsPowerChangeCallback_def Let_def)
  show ?thesis by (rule that(2) [OF True stop_law [OF True s(1)] s(2)])
next
  case False
  then show ?thesis using assms that(1) by (simp add: DsPowerChangeCallback_def)
qed

lemma wake_cases:
  assumes "DsPowerChangeCallback S PO_CB_SYSTEM_STATE_LOCK 1 d d1"
  obtains "so_running S (dr_shield d) \<or> \<not> FlagOn (gStateFlags d) DSH_GFL_SHIELD_SUSPENDED" "d1 = d"
    | Status s where "\<not> so_running S (dr_shield d)" "FlagOn (gStateFlags d) DSH_GFL_SHIELD_SUSPENDED" "so_running S s = NT_SUCCESS Status"
      "d1 = (if NT_SUCCESS Status then set_flag DSH_GFL_SHIELD_STARTED ((clear_flag DSH_GFL_SHIELD_SUSPENDED d)\<lparr>dr_shield := s\<rparr>)
             else (clear_flag DSH_GFL_SHIELD_SUSPENDED d)\<lparr>dr_shield := s\<rparr>)"
proof (cases "\<not> so_running S (dr_shield d) \<and> FlagOn (gStateFlags d) DSH_GFL_SHIELD_SUSPENDED")
  case True
  then obtain Status s where s: "so_start S (dr_shield d) Status s"
    "d1 = (if NT_SUCCESS Status then set_flag DSH_GFL_SHIELD_STARTED ((clear_flag DSH_GFL_SHIELD_SUSPENDED d)\<lparr>dr_shield := s\<rparr>)
             else (clear_flag DSH_GFL_SHIELD_SUSPENDED d)\<lparr>dr_shield := s\<rparr>)"
    using assms by (auto simp: DsPowerChangeCallback_def Let_def)
  show ?thesis using that(2) [OF _ _ start_law [OF _ s(1)] s(2)] True by blast
next
  case False
  then show ?thesis using assms that(1) by (auto simp: DsPowerChangeCallback_def)
qed

end

text \<open>
  C27: what a sleep followed by a wake-up leaves: a shield that could not be stopped keeps
  running with its flags as they were; one that was stopped is marked suspended while the
  machine sleeps, and when it starts again flags and everything else are as before the sleep.  A
  start that fails leaves it stopped and no longer suspended.  Nothing but the shield and the
  flags changes.
\<close>

theorem suspend_resume_roundtrip:
  assumes "reach (driver_init (hv_shield e M Verify)) (driver_step (hv_shield e M Verify) test) d"
    "DsPowerChangeCallback (hv_shield e M Verify) PO_CB_SYSTEM_STATE_LOCK 0 d d1"
    "DsPowerChangeCallback (hv_shield e M Verify) PO_CB_SYSTEM_STATE_LOCK 1 d1 d2"
  shows "d2 = d\<lparr>gStateFlags := gStateFlags d2, dr_shield := dr_shield d2\<rparr> \<and>
    (DsIsShieldRunning (dr_shield d1) \<longrightarrow> d2 = d1 \<and> gStateFlags d1 = gStateFlags d) \<and>
    (DsIsShieldRunning (dr_shield d) \<and> \<not> DsIsShieldRunning (dr_shield d1) \<longrightarrow>
       FlagOn (gStateFlags d1) DSH_GFL_SHIELD_SUSPENDED \<and> \<not> FlagOn (gStateFlags d1) DSH_GFL_SHIELD_STARTED \<and>
       \<not> FlagOn (gStateFlags d2) DSH_GFL_SHIELD_SUSPENDED \<and>
       FlagOn (gStateFlags d2) DSH_GFL_SHIELD_STARTED = DsIsShieldRunning (dr_shield d2) \<and>
       (DsIsShieldRunning (dr_shield d2) \<and> \<not> FlagOn (gStateFlags d) DSH_GFL_SHIELD_SUSPENDED \<longrightarrow> gStateFlags d2 = gStateFlags d)) \<and>
    (\<not> DsIsShieldRunning (dr_shield d) \<longrightarrow> d1 = d \<and>
       (if FlagOn (gStateFlags d) DSH_GFL_SHIELD_SUSPENDED
        then \<not> FlagOn (gStateFlags d2) DSH_GFL_SHIELD_SUSPENDED \<and> FlagOn (gStateFlags d2) DSH_GFL_SHIELD_STARTED = DsIsShieldRunning (dr_shield d2)
        else d2 = d))"
proof -
  let ?S = "hv_shield e M Verify"
  have r: "so_running ?S = DsIsShieldRunning" by (simp add: hv_shield_def)
  have i: "FlagOn (gStateFlags d) DSH_GFL_SHIELD_STARTED = DsIsShieldRunning (dr_shield d)"
    using drv.reach_inv [OF assms(1)] by (simp add: shield_inv_def r)
  note sleep = hv.sleep_cases [OF assms(2), unfolded r] and wake = hv.wake_cases [OF assms(3), unfolded r]
  show ?thesis
  proof (rule sleep)
    assume off: "\<not> DsIsShieldRunning (dr_shield d)" "d1 = d"
    show ?thesis by (rule wake) (use i off in \<open>auto simp: set_flag_def clear_flag_def\<close>)
  next
    fix Status s
    assume on: "DsIsShieldRunning (dr_shield d)" "DsIsShieldRunning s = (\<not> NT_SUCCESS Status)"
      "d1 = (if NT_SUCCESS Status then set_flag DSH_GFL_SHIELD_SUSPENDED (clear_flag DSH_GFL_SHIELD_STARTED (d\<lparr>dr_shield := s\<rparr>))
             else d\<lparr>dr_shield := s\<rparr>)"
    show ?thesis by (rule wake) (use i on flags_restored [of "gStateFlags d"] in \<open>auto simp: set_flag_def clear_flag_def\<close>)
  qed
qed

section \<open>Requests\<close>

text \<open>
  C11: in every state the driver can reach, the shield is marked started exactly when the
  hypervisor is launched, and the channel exists exactly when it is marked set up; what was
  opened for channels so far has been closed, except what destroying the present one will close.
\<close>

theorem driver_flags_agree:
  assumes "reach (driver_init (hv_shield e M Verify)) (driver_step (hv_shield e M Verify) test) d"
  shows "FlagOn (gStateFlags d) DSH_GFL_SHIELD_STARTED = DsIsShieldRunning (dr_shield d) \<and>
    FlagOn (gStateFlags d) DSH_GFL_CHANNEL_SETUP = (gChannel d \<noteq> None) \<and>
    (case gChannel d of
       None \<Rightarrow> opens (dr_calls d) \<subseteq># closes (dr_calls d)
     | Some Channel \<Rightarrow> \<forall>Reason. opens (dr_calls d) \<subseteq># closes (dr_calls d) + closes (DsDestroyChannel Reason Channel))"
  using drv.reach_inv [OF assms] by (auto simp: shield_inv_def channel_inv_def hv_shield_def split: option.splits)

lemma ioctl_codes:
  "IOCTL_SHIELD_STATUS = 0xB0806800" "IOCTL_SHIELD_CONTROL = 0xB080E804" "IOCTL_SHIELD_CHANNEL_SETUP = 0xB082C400"
  "IOCTL_SHIELD_CHANNEL_TEARDOWN = 0xB082C404" "IOCTL_SHIELD_GET_VMFEATURE = 0xB082C804" "IOCTL_TEST_RDTSC = 0xB0802880"
  by (simp_all add: IOCTL_SHIELD_STATUS_def IOCTL_SHIELD_CONTROL_def IOCTL_SHIELD_CHANNEL_SETUP_def IOCTL_SHIELD_CHANNEL_TEARDOWN_def
      IOCTL_SHIELD_GET_VMFEATURE_def IOCTL_TEST_RDTSC_def CTL_CODE_def IOCTL_SHIELD_TYPE_def METHOD_BUFFERED_def FILE_READ_WRITE_def)

text \<open>
  A request whose buffer is too short for its code is refused with its buffer, the driver
  and the number of bytes untouched; so is a control request without VMX.  A code the driver does
  not know is completed with success, and nothing is done.
\<close>

theorem refused_requests:
  assumes "DriverDeviceControl S vm_bytes test r k code d p Status d' p'"
  shows "(code \<notin> {IOCTL_SHIELD_STATUS, IOCTL_SHIELD_CONTROL, IOCTL_SHIELD_CHANNEL_SETUP, IOCTL_SHIELD_CHANNEL_TEARDOWN,
             IOCTL_SHIELD_GET_VMFEATURE, IOCTL_TEST_RDTSC} \<longrightarrow>
           Status = STATUS_SUCCESS \<and> d' = d \<and> p' = p\<lparr>ip_Status := STATUS_SUCCESS, ip_Information := 0, ip_Completed := True\<rparr>) \<and>
    (code = IOCTL_SHIELD_CONTROL \<and> DSH_VMX_ABSENT (gVmxFeature d) \<longrightarrow>
       Status = STATUS_NOT_SUPPORTED \<and> d' = d \<and> p' = p\<lparr>ip_Status := STATUS_NOT_SUPPORTED, ip_Information := 0, ip_Completed := True\<rparr>) \<and>
    (code = IOCTL_SHIELD_STATUS \<and> \<not> fits 4 p \<or> code = IOCTL_SHIELD_CONTROL \<and> \<not> DSH_VMX_ABSENT (gVmxFeature d) \<and> \<not> fits 8 p \<or>
     code = IOCTL_SHIELD_CHANNEL_SETUP \<and> ip_OutputLength p < 24 \<or> code = IOCTL_SHIELD_CHANNEL_TEARDOWN \<and> \<not> fits 4 p \<or>
     code = IOCTL_SHIELD_GET_VMFEATURE \<and> \<not> fits 520 p \<longrightarrow>
       Status = STATUS_BUFFER_TOO_SMALL \<and> d' = d \<and> p' = p\<lparr>ip_Status := STATUS_BUFFER_TOO_SMALL, ip_Information := 0, ip_Completed := True\<rparr>)"
proof -
  let ?p = "p\<lparr>ip_Status := STATUS_INVALID_DEVICE_REQUEST, ip_Information := 0\<rparr>"
  have f: "fits n ?p = fits n p" for n by (simp add: fits_def)
  note D = assms [unfolded DriverDeviceControl_def Let_def]
  show ?thesis
  proof (intro conjI impI)
    assume "code \<notin> {IOCTL_SHIELD_STATUS, IOCTL_SHIELD_CONTROL, IOCTL_SHIELD_CHANNEL_SETUP, IOCTL_SHIELD_CHANNEL_TEARDOWN,
             IOCTL_SHIELD_GET_VMFEATURE, IOCTL_TEST_RDTSC}"
    then show "Status = STATUS_SUCCESS" "d' = d" "p' = p\<lparr>ip_Status := STATUS_SUCCESS, ip_Information := 0, ip_Completed := True\<rparr>"
      using D by (simp_all add: complete_def)
  next
    assume "code = IOCTL_SHIELD_CONTROL \<and> DSH_VMX_ABSENT (gVmxFeature d)"
    then show "Status = STATUS_NOT_SUPPORTED" "d' = d" "p' = p\<lparr>ip_Status := STATUS_NOT_SUPPORTED, ip_Information := 0, ip_Completed := True\<rparr>"
      using D by (simp_all add: complete_def DsCtlShieldControl_def ioctl_codes)
  next
    assume s: "code = IOCTL_SHIELD_STATUS \<and> \<not> fits 4 p \<or> code = IOCTL_SHIELD_CONTROL \<and> \<not> DSH_VMX_ABSENT (gVmxFeature d) \<and> \<not> fits 8 p \<or>
     code = IOCTL_SHIELD_CHANNEL_SETUP \<and> ip_OutputLength p < 24 \<or> code = IOCTL_SHIELD_CHANNEL_TEARDOWN \<and> \<not> fits 4 p \<or>
     code = IOCTL_SHIELD_GET_VMFEATURE \<and> \<not> fits 520 p"
    have "Status = STATUS_BUFFER_TOO_SMALL \<and> d' = d \<and> p' = p\<lparr>ip_Status := STATUS_BUFFER_TOO_SMALL, ip_Information := 0, ip_Completed := True\<rparr>"
      using s D by (elim disjE conjE) (simp_all add: f ioctl_codes complete_def DsCltGetShieldState_def DsCtlShieldControl_def
        DsCtlShieldChannelSetup_def DsCtlShieldChannelTeardown_def DsCtlShieldGetVmFeature_def)
    then show "Status = STATUS_BUFFER_TOO_SMALL" "d' = d" "p' = p\<lparr>ip_Status := STATUS_BUFFER_TOO_SMALL, ip_Information := 0, ip_Completed := True\<rparr>"
      by simp_all
  qed
qed

section \<open>The policy\<close>

text \<open>
  A load mode that was stored is the one that is read back, whenever the registry answers;
  a mode that could not be stored leaves the registry as it was, and every key that was opened
  is closed.
\<close>

theorem policy_roundtrip:
  assumes "DsSetLoadModePolicy r LoadMode d = (Status, d', calls)"
  shows "(if NT_SUCCESS Status
          then \<forall>r2. NT_SUCCESS (fst (DsQueryLoadModePolicy r2 d')) \<longrightarrow> fst (snd (DsQueryLoadModePolicy r2 d')) = LoadMode
          else d' = d) \<and>
    (\<forall>cs \<in> {calls, snd (snd (DsQueryLoadModePolicy r d'))}. count_list cs RgOpenRoot = count_list cs RgCloseRoot \<and>
       count_list cs RgCreatePolicy = count_list cs RgClosePolicy)"
  using assms by (auto simp: DsSetLoadModePolicy_def DsQueryLoadModePolicy_def DsOpenPolicyKey_def DsClosePolicyKey_def Let_def REG_DWORD_def
      split: if_splits prod.splits)

section \<open>Control requests\<close>

definition policy_ready :: "reg_env \<Rightarrow> 's driver \<Rightarrow> bool" where
  "policy_ready r d \<longleftrightarrow> us_Buffer (gDriverKeyName d) \<noteq> None \<and> NT_SUCCESS (rg_open r) \<and> NT_SUCCESS (rg_create r) \<and> NT_SUCCESS (rg_set r)"

lemma policy_stored:
  "policy_ready r d \<Longrightarrow> dr_Registry (fst (snd (DsSetLoadModePolicy r m d))) = Some (REG_DWORD, le32 m)"
  by (auto simp: policy_ready_def DsSetLoadModePolicy_def DsOpenPolicyKey_def)

lemma policy_ready_sel: "policy_ready r (d\<lparr>dr_shield := s\<rparr>) = policy_ready r d" "policy_ready r (set_flag f d) = policy_ready r d"
  "policy_ready r (clear_flag f d) = policy_ready r d"
  by (simp_all add: policy_ready_def set_flag_def clear_flag_def)

lemma put_buffer_sel [simp]:
  "ip_Status (put_buffer i bs p) = ip_Status p" "ip_Information (put_buffer i bs p) = ip_Information p"
  "ip_Completed (put_buffer i bs p) = ip_Completed p" "ip_InputLength (put_buffer i bs p) = ip_InputLength p"
  "ip_OutputLength (put_buffer i bs p) = ip_OutputLength p"
  by (simp_all add: put_buffer_def)

lemma get_put_buffer: "i \<le> List.length (ip_SystemBuffer p) \<Longrightarrow> get_buffer i (put_buffer i (le32 w) p) = w"
  by (simp add: get_buffer_def put_buffer_def)

lemma get_buffer_cong: "ip_SystemBuffer p = ip_SystemBuffer q \<Longrightarrow> get_buffer i p = get_buffer i q"
  by (simp add: get_buffer_def)

context shield_contract
begin

lemma control_result:
  assumes "DsCtlShieldControl S r d p Status d' p'" "shield_inv S d" "\<not> DSH_VMX_ABSENT (gVmxFeature d)" "fits 8 p"
    "8 \<le> List.length (ip_SystemBuffer p)"
  shows "gChannel d' = gChannel d" "get_buffer 0 p \<notin> {ShieldStart, ShieldStop} \<Longrightarrow> Status = STATUS_INVALID_DEVICE_REQUEST \<and> d' = d"
    "get_buffer 0 p = (if so_running S (dr_shield d) then ShieldStart else ShieldStop) \<Longrightarrow>
       Status = STATUS_SUCCESS \<and> d' = d \<and> get_buffer 4 p' = 0xFF"
    "get_buffer 0 p = (if so_running S (dr_shield d) then ShieldStop else ShieldStart) \<Longrightarrow>
       so_running S (dr_shield d') = (if NT_SUCCESS Status then get_buffer 0 p = ShieldStart else so_running S (dr_shield d)) \<and>
       FlagOn (gStateFlags d') DSH_GFL_SHIELD_STARTED = so_running S (dr_shield d') \<and> get_buffer 4 p' = 0 \<and>
       (NT_SUCCESS Status \<and> policy_ready r d \<longrightarrow>
          dr_Registry d' = Some (REG_DWORD, le32 (if get_buffer 0 p = ShieldStart then DSH_RUN_MODE_AUTO_START else DSH_RUN_MODE_DISABLED)))"
proof -
  have i: "FlagOn (gStateFlags d) DSH_GFL_SHIELD_STARTED = so_running S (dr_shield d)" using assms(2) by (simp add: shield_inv_def)
  have ne: "ShieldStart \<noteq> ShieldStop" by (simp add: ShieldStart_def ShieldStop_def)
  have g: "get_buffer 4 (put_buffer 4 (le32 w) q) = w" if "ip_SystemBuffer q = ip_SystemBuffer p \<or> q = put_buffer 4 (le32 v) p" for w v q
    using that assms(5) by (intro get_put_buffer) (auto simp: put_buffer_def)
  have gi: "get_buffer 4 (q\<lparr>ip_Information := n\<rparr>) = get_buffer 4 q" for q :: irp and n by (rule get_buffer_cong) simp
  note c = assms(1) [unfolded DsCtlShieldControl_def Let_def]
  show "gChannel d' = gChannel d" using c by (auto simp: mode_policy_sel split: if_splits)
  show "get_buffer 0 p \<notin> {ShieldStart, ShieldStop} \<Longrightarrow> Status = STATUS_INVALID_DEVICE_REQUEST \<and> d' = d" using c assms(3,4) by simp
  show "get_buffer 0 p = (if so_running S (dr_shield d) then ShieldStart else ShieldStop) \<Longrightarrow>
       Status = STATUS_SUCCESS \<and> d' = d \<and> get_buffer 4 p' = 0xFF"
    using c assms(3,4) ne g gi by (auto split: if_splits)
  assume a: "get_buffer 0 p = (if so_running S (dr_shield d) then ShieldStop else ShieldStart)"
  have p': "get_buffer 4 p' = 0" using c assms(3,4) ne g [of p] gi a by (auto split: if_splits)
  show "so_running S (dr_shield d') = (if NT_SUCCESS Status then get_buffer 0 p = ShieldStart else so_running S (dr_shield d)) \<and>
       FlagOn (gStateFlags d') DSH_GFL_SHIELD_STARTED = so_running S (dr_shield d') \<and> get_buffer 4 p' = 0 \<and>
       (NT_SUCCESS Status \<and> policy_ready r d \<longrightarrow>
          dr_Registry d' = Some (REG_DWORD, le32 (if get_buffer 0 p = ShieldStart then DSH_RUN_MODE_AUTO_START else DSH_RUN_MODE_DISABLED)))"
  proof (cases "so_running S (dr_shield d)")
    case True
    then obtain s where s: "so_stop S (dr_shield d) Status s" "d' = (if NT_SUCCESS Status
         then fst (snd (DsSetLoadModePolicy r DSH_RUN_MODE_DISABLED (clear_flag DSH_GFL_SHIELD_STARTED (d\<lparr>dr_shield := s\<rparr>)))) else d\<lparr>dr_shield := s\<rparr>)"
      using c assms(3,4) ne a by auto
    show ?thesis using s(2) stop_law [OF True s(1)] True i ne a p'
      by (simp add: mode_policy_sel policy_stored policy_ready_sel)
  next
    case False
    then obtain s where s: "so_start S (dr_shield d) Status s" "d' = (if NT_SUCCESS Status
         then fst (snd (DsSetLoadModePolicy r DSH_RUN_MODE_AUTO_START (set_flag DSH_GFL_SHIELD_STARTED (d\<lparr>dr_shield := s\<rparr>)))) else d\<lparr>dr_shield := s\<rparr>)"
      using c assms(3,4) ne a by auto
    show ?thesis using s(2) start_law [OF False s(1)] False i ne a p'
      by (simp add: mode_policy_sel policy_stored policy_ready_sel)
  qed
qed

end

text \<open>
  C26: a control request in a reachable state: asking for the state the shield is in changes
  nothing and reports 0xFF; otherwise the shield is running afterwards exactly when a start
  succeeded or a stop failed, the flag says so, and the policy for the next boot follows what
  the user asked for, when the registry can be written.  Other actions are refused.
\<close>

theorem control_request_correct:
  assumes "reach (driver_init (hv_shield e M Verify)) (driver_step (hv_shield e M Verify) test) d"
    "DriverDeviceControl (hv_shield e M Verify) vm_bytes test r k IOCTL_SHIELD_CONTROL d p Status d' p'"
    "\<not> DSH_VMX_ABSENT (gVmxFeature d)" "fits 8 p" "8 \<le> List.length (ip_SystemBuffer p)"
  shows "gChannel d' = gChannel d \<and>
    (if get_buffer 0 p \<notin> {ShieldStart, ShieldStop} then Status = STATUS_INVALID_DEVICE_REQUEST \<and> d' = d
     else if get_buffer 0 p = (if DsIsShieldRunning (dr_shield d) then ShieldStart else ShieldStop)
     then Status = STATUS_SUCCESS \<and> d' = d \<and> get_buffer 4 p' = 0xFF
     else DsIsShieldRunning (dr_shield d') = (if NT_SUCCESS Status then get_buffer 0 p = ShieldStart else DsIsShieldRunning (dr_shield d)) \<and>
       FlagOn (gStateFlags d') DSH_GFL_SHIELD_STARTED = DsIsShieldRunning (dr_shield d') \<and> get_buffer 4 p' = 0 \<and>
       (NT_SUCCESS Status \<and> policy_ready r d \<longrightarrow>
          dr_Registry d' = Some (REG_DWORD, le32 (if get_buffer 0 p = ShieldStart then DSH_RUN_MODE_AUTO_START else DSH_RUN_MODE_DISABLED))))"
proof -
  let ?S = "hv_shield e M Verify" and ?p = "p\<lparr>ip_Status := STATUS_INVALID_DEVICE_REQUEST, ip_Information := 0\<rparr>"
  have r: "so_running ?S = DsIsShieldRunning" by (simp add: hv_shield_def)
  obtain q where q: "DsCtlShieldControl ?S r d ?p Status d' q" "ip_SystemBuffer p' = ip_SystemBuffer q"
    using assms(2) by (auto simp: DriverDeviceControl_def ioctl_codes complete_def Let_def)
  have b: "get_buffer i p' = get_buffer i q" "get_buffer i ?p = get_buffer i p" for i using q(2) by (simp_all add: get_buffer_def)
  have "shield_inv ?S d" using drv.reach_inv [OF assms(1)] by simp
  moreover have "fits 8 ?p" "8 \<le> List.length (ip_SystemBuffer ?p)" using assms(4,5) by (simp_all add: fits_def)
  ultimately show ?thesis
    using hv.control_result [OF q(1) _ assms(3)] unfolding r b by (auto split: if_splits)
qed

section \<open>Examples\<close>

definition example_dr :: "u32 \<Rightarrow> shield_state driver" where
  "example_dr flags = \<lparr>gStateFlags = flags, dr_shield = (example_driver, \<lambda>_. example_off), gChannel = None,
     gChannelRundown = \<lparr>rd_refs = 0, rd_closed = False\<rparr>, FirstUse = True, OpenDeviceCount = 0,
     gDriverKeyName = \<lparr>us_Length = 2, us_MaximumLength = 2, us_Buffer = Some (0x8000, [0x53])\<rparr>,
     gVmxFeature = \<lparr>fe_Version = 0, fe_Bits = 0, fe_VmState = None\<rparr>, dr_Registry = None, dr_calls = []\<rparr>"

definition example_reg :: reg_env where
  "example_reg = \<lparr>rg_open = STATUS_SUCCESS, rg_create = STATUS_SUCCESS, rg_set = STATUS_SUCCESS,
     rg_query = (\<lambda>v. if v = None then STATUS_NOT_FOUND else STATUS_SUCCESS), rg_stack = replicate 4 0xCC\<rparr>"

definition example_irp :: "u8 list \<Rightarrow> irp" where
  "example_irp bs = \<lparr>ip_InputLength = List.length bs, ip_OutputLength = List.length bs, ip_SystemBuffer = bs,
     ip_Status = STATUS_SUCCESS, ip_Information = 0, ip_Completed = False\<rparr>"

abbreviation example_shield :: "shield_state shield_ops" where
  "example_shield \<equiv> hv_shield example_create (example_machine True) STATUS_SUCCESS"

lemma example_dr_reach: "reach (driver_init example_shield) (driver_step example_shield test) (example_dr 0)"
  by (rule reach_init) (simp add: driver_init_def example_dr_def hv_shield_def DsIsShieldRunning_def DsIsHvmLaunched_def
      DsIsHvmInitialized_def example_driver_def)

lemma example_stopped [simp]: "\<not> DsIsShieldRunning (dr_shield (example_dr f))" "gStateFlags (example_dr f) = f"
  by (simp_all add: example_dr_def DsIsShieldRunning_def DsIsHvmLaunched_def DsIsHvmInitialized_def example_driver_def)

lemma example_start: "\<exists>Status s. so_start example_shield (dr_shield (example_dr f)) Status s"
  using load_exists [OF example_driver_laws example_create_ok(1)]
  by (simp add: hv_shield_def DsStartShield_def example_dr_def)

lemma example_setup:
  "\<exists>d'. driver_step example_shield test (example_dr 0) d' \<and> gChannel d' \<noteq> None"
proof -
  let ?k = "example_ch_env True" and ?p = "(example_irp (replicate 24 0))\<lparr>ip_Status := STATUS_INVALID_DEVICE_REQUEST, ip_Information := 0\<rparr>"
  obtain St r calls where i: "DsInitializeChannel ?k DS_MAX_BUCKETS = (St, r, calls)" by (rule prod_cases3)
  have k: "ck_pool ?k" "ck_mdl ?k \<noteq> 0" "ck_map ?k \<noteq> 0" "\<forall>t. bucket_ok ?k t"
    by (simp_all add: example_ch_env_def bucket_ok_def all_events)
  have "r \<noteq> None"
  proof (rule initialize_cases [OF i k(1) example_ch_env_ok])
    fix ch ch' c2
    assume l: "init_buckets ?k 0 DS_MAX_BUCKETS STATUS_INSUFFICIENT_RESOURCES ch = (St, ch', c2)" "sized ch" "\<forall>t<DS_MAX_BUCKETS. blank_bucket ch t"
      and c: "if NT_SUCCESS St then r = Some ch' \<and> calls = [ChAllocPool, ChAllocMdl (ck_mdl ?k), ChMap (ck_map ?k)] @ c2
       else r = None \<and> calls = [ChAllocPool, ChAllocMdl (ck_mdl ?k), ChMap (ck_map ?k)] @ c2 @ DsDestroyChannel InitErrorReason ch'"
    have "NT_SUCCESS St" using init_buckets_result [OF l(1) example_ch_env_ok l(2)] l(3) k(4) by (simp add: DS_MAX_BUCKETS_def)
    then show "r \<noteq> None" using c by simp
  qed (use k in simp_all)
  then obtain ch where r: "r = Some ch" by blast
  obtain d' q where s: "DsCtlShieldChannelSetup ?k (example_dr 0) ?p = (St, d', q)" "gChannel d' = Some ch"
    using i r by (auto simp: DsCtlShieldChannelSetup_def example_dr_def example_irp_def Let_def FlagOn_def)
  have "DriverDeviceControl example_shield vb test example_reg ?k IOCTL_SHIELD_CHANNEL_SETUP (example_dr 0) (example_irp (replicate 24 0)) St d'
      (if St = STATUS_PENDING then q else complete St q)" for vb
    using s(1) by (auto simp: DriverDeviceControl_def ioctl_codes Let_def)
  then show ?thesis using driver_step.control [OF example_ch_env_ok] s(2) by blast
qed

theorem driver_flags_agree_witness:
  "\<exists>d Channel. reach (driver_init example_shield) (driver_step example_shield (\<lambda>p. (STATUS_SUCCESS, p))) d \<and> gChannel d = Some Channel \<and>
     FlagOn (gStateFlags d) DSH_GFL_CHANNEL_SETUP \<and>
     opens (dr_calls d) \<subseteq># closes (dr_calls d) + closes (DsDestroyChannel TeardownReason Channel)"
proof -
  obtain d Channel where d: "driver_step example_shield (\<lambda>p. (STATUS_SUCCESS, p)) (example_dr 0) d" "gChannel d = Some Channel"
    using example_setup by blast
  note r = reach_step [OF example_dr_reach d(1)]
  show ?thesis using driver_flags_agree [OF r] r d(2) by auto
qed

theorem refused_requests_witness:
  "\<exists>Status d' p'. DriverDeviceControl example_shield (\<lambda>_. []) (\<lambda>p. (STATUS_SUCCESS, p)) example_reg (example_ch_env True) 0x22DEAD
     (example_dr 0) (example_irp [1, 2]) Status d' p' \<and> Status = STATUS_SUCCESS \<and> d' = example_dr 0"
proof -
  have x: "\<exists>Status d' p'. DriverDeviceControl example_shield (\<lambda>_. []) (\<lambda>p. (STATUS_SUCCESS, p)) example_reg (example_ch_env True) 0x22DEAD
     (example_dr 0) (example_irp [1, 2]) Status d' p'" by (auto simp: DriverDeviceControl_def ioctl_codes Let_def)
  then obtain Status d' p' where r: "DriverDeviceControl example_shield (\<lambda>_. []) (\<lambda>p. (STATUS_SUCCESS, p)) example_reg (example_ch_env True) 0x22DEAD
     (example_dr 0) (example_irp [1, 2]) Status d' p'" by blast
  show ?thesis using refused_requests [OF r] r by (auto simp: ioctl_codes)
qed

theorem policy_roundtrip_witness:
  "fst (snd (DsQueryLoadModePolicy example_reg (fst (snd (DsSetLoadModePolicy example_reg 40 (example_dr 0)))))) = 40"
proof -
  obtain Status d' calls where s: "DsSetLoadModePolicy example_reg 40 (example_dr 0) = (Status, d', calls)" by (rule prod_cases3)
  then have "NT_SUCCESS Status" "NT_SUCCESS (fst (DsQueryLoadModePolicy example_reg d'))"
    by (auto simp: DsSetLoadModePolicy_def DsQueryLoadModePolicy_def DsOpenPolicyKey_def example_reg_def example_dr_def)
  then show ?thesis using policy_roundtrip [OF s] s by auto
qed

lemma example_started:
  assumes "so_start example_shield (dr_shield (example_dr 0)) Status (g, cpus)"
  shows "\<exists>d'. driver_step example_shield test (example_dr 0) d' \<and> dr_shield d' = (g, cpus)"
proof -
  let ?p = "(example_irp [2, 0, 0, 0, 0, 0, 0, 0])\<lparr>ip_Status := STATUS_INVALID_DEVICE_REQUEST, ip_Information := 0\<rparr>" and ?d = "example_dr 0"
  have n: "\<not> so_running example_shield (dr_shield ?d)" by (simp add: hv_shield_def)
  have a: "get_buffer 0 ?p = ShieldStart" "fits 8 ?p" "\<not> DSH_VMX_ABSENT (gVmxFeature ?d)"
    by (simp_all add: get_buffer_def example_irp_def ShieldStart_def fits_def DSH_VMX_ABSENT_def example_dr_def)
  define d' where "d' = (if NT_SUCCESS Status
     then fst (snd (DsSetLoadModePolicy example_reg DSH_RUN_MODE_AUTO_START (set_flag DSH_GFL_SHIELD_STARTED (?d\<lparr>dr_shield := (g, cpus)\<rparr>))))
     else ?d\<lparr>dr_shield := (g, cpus)\<rparr>)"
  obtain q where c: "DsCtlShieldControl example_shield example_reg ?d ?p Status d' q"
    unfolding DsCtlShieldControl_def Let_def d'_def using assms n a by auto
  have "DriverDeviceControl example_shield vb test example_reg (example_ch_env True) IOCTL_SHIELD_CONTROL ?d
      (example_irp [2, 0, 0, 0, 0, 0, 0, 0]) Status d' (if Status = STATUS_PENDING then q else complete Status q)" for vb
    using c by (auto simp: DriverDeviceControl_def ioctl_codes Let_def)
  then have "driver_step example_shield test ?d d'" by (rule driver_step.control [OF example_ch_env_ok])
  moreover have "dr_shield d' = (g, cpus)" by (simp add: d'_def mode_policy_sel)
  ultimately show ?thesis by blast
qed

lemma example_start_ok:
  assumes "so_start example_shield (dr_shield (example_dr f)) Status s"
  shows "Status = STATUS_SUCCESS"
proof -
  have "DsLoadHvm example_create (example_machine True) STATUS_SUCCESS (example_driver, \<lambda>_. example_off) Status s"
    using assms by (simp add: hv_shield_def DsStartShield_def example_dr_def)
  from load_room [OF this example_driver_laws example_create_ok(1) example_driver_room] show ?thesis
    using example_machine_laws(1) [of _ True] example_machine_laws(5) by simp
qed

text \<open>A machine whose shield was started sleeps and wakes.\<close>

theorem suspend_resume_roundtrip_witness:
  "\<exists>d d1 d2. reach (driver_init example_shield) (driver_step example_shield (\<lambda>p. (STATUS_SUCCESS, p))) d \<and> DsIsShieldRunning (dr_shield d) \<and>
     DsPowerChangeCallback example_shield PO_CB_SYSTEM_STATE_LOCK 0 d d1 \<and>
     DsPowerChangeCallback example_shield PO_CB_SYSTEM_STATE_LOCK 1 d1 d2 \<and> \<not> DsIsShieldRunning (dr_shield d1) \<and>
     FlagOn (gStateFlags d1) DSH_GFL_SHIELD_SUSPENDED \<and> \<not> FlagOn (gStateFlags d2) DSH_GFL_SHIELD_SUSPENDED"
proof -
  let ?S = example_shield and ?M = "example_machine True"
  obtain Status g cpus where s: "so_start ?S (dr_shield (example_dr 0)) Status (g, cpus)" using example_start by (metis surj_pair)
  have ok: "Status = STATUS_SUCCESS" by (rule example_start_ok [OF s])
  have run: "so_running ?S (g, cpus) = NT_SUCCESS Status" by (rule hv.start_law [OF _ s]) (simp add: hv_shield_def)
  obtain d where d: "driver_step ?S (\<lambda>p. (STATUS_SUCCESS, p)) (example_dr 0) d" "dr_shield d = (g, cpus)" using example_started [OF s] by blast
  note r = reach_step [OF example_dr_reach d(1)]
  have l: "DsLoadHvm example_create ?M STATUS_SUCCESS (example_driver, \<lambda>_. example_off) Status (g, cpus)"
    using s by (simp add: hv_shield_def DsStartShield_def example_dr_def)
  obtain m1 where m1: "ds_mem g = Some m1" "takes example_memory {} (owned_ds (ce_count example_create) g) m1" "loaded example_create g cpus m1"
    using load_result [OF l example_driver_laws example_create_ok(1) example_machine_laws(1)] ok by auto
  obtain St g2 cpus2 where u: "DsUnloadHvm example_create ?M (g, cpus) St (g2, cpus2)"
    using unload_exists [OF m1(3) example_machine_laws(3) [of _ True]] by (metis surj_pair)
  obtain m2 where m2: "St = STATUS_SUCCESS" "fresh g2" "ds_mem g2 = Some m2" "takes example_memory {} [] m2"
    using unload_result [OF u m1 example_machine_laws(3)] by auto
  have off: "\<not> DsIsShieldRunning (g2, cpus2)" using m2(2) by (simp add: fresh_def DsIsShieldRunning_def DsIsHvmLaunched_def DsIsHvmInitialized_def)
  define d1 where "d1 = set_flag DSH_GFL_SHIELD_SUSPENDED (clear_flag DSH_GFL_SHIELD_STARTED (d\<lparr>dr_shield := (g2, cpus2)\<rparr>))"
  have p1: "DsPowerChangeCallback ?S PO_CB_SYSTEM_STATE_LOCK 0 d d1"
    using u m2(1) run ok d(2) by (auto simp: DsPowerChangeCallback_def hv_shield_def DsStopShield_def d1_def Let_def
      intro!: exI [of _ STATUS_SUCCESS] exI [of _ g2] exI [of _ cpus2])
  obtain St3 g3 cpus3 where l3: "DsLoadHvm example_create ?M STATUS_SUCCESS (g2, cpus2) St3 (g3, cpus3)"
    using load_exists [OF m2(3,2) _ example_create_ok(1)] takesD(1) [OF m2(4)] by (metis surj_pair)
  obtain d2 where p2: "DsPowerChangeCallback ?S PO_CB_SYSTEM_STATE_LOCK 1 d1 d2"
    using l3 off by (fastforce simp: DsPowerChangeCallback_def hv_shield_def DsStartShield_def d1_def Let_def)
  have R: "DsIsShieldRunning (dr_shield d)" "\<not> DsIsShieldRunning (dr_shield d1)" using run ok off d(2) by (simp_all add: d1_def hv_shield_def)
  then have "FlagOn (gStateFlags d1) DSH_GFL_SHIELD_SUSPENDED" "\<not> FlagOn (gStateFlags d2) DSH_GFL_SHIELD_SUSPENDED"
    using suspend_resume_roundtrip [OF r p1 p2] by simp_all
  then show ?thesis using r p1 p2 R by blast
qed

theorem control_request_correct_witness:
  "\<exists>Status d' p'. DriverDeviceControl example_shield (\<lambda>_. []) (\<lambda>p. (STATUS_SUCCESS, p)) example_reg (example_ch_env True)
     IOCTL_SHIELD_CONTROL (example_dr 0) (example_irp ([2, 0, 0, 0, 0, 0, 0, 0])) Status d' p' \<and>
     DsIsShieldRunning (dr_shield d') = NT_SUCCESS Status \<and> FlagOn (gStateFlags d') DSH_GFL_SHIELD_STARTED = NT_SUCCESS Status"
proof -
  let ?p = "example_irp [2, 0, 0, 0, 0, 0, 0, 0]" and ?d = "example_dr 0"
  obtain Status g cpus where s: "so_start example_shield (dr_shield ?d) Status (g, cpus)" using example_start by (metis surj_pair)
  have a: "get_buffer 0 ?p = ShieldStart" "ShieldStart \<noteq> ShieldStop" by (simp_all add: get_buffer_def example_irp_def ShieldStart_def ShieldStop_def)
  have n: "\<not> so_running example_shield (dr_shield ?d)" by (simp add: hv_shield_def)
  have c: "\<exists>d' q. DsCtlShieldControl example_shield example_reg ?d (?p\<lparr>ip_Status := STATUS_INVALID_DEVICE_REQUEST, ip_Information := 0\<rparr>) Status d' q"
    using s n a by (auto simp: DsCtlShieldControl_def DSH_VMX_ABSENT_def fits_def example_irp_def get_buffer_def Let_def example_dr_def)
  then obtain d' p' where r: "DriverDeviceControl example_shield (\<lambda>_. []) (\<lambda>p. (STATUS_SUCCESS, p)) example_reg (example_ch_env True)
     IOCTL_SHIELD_CONTROL ?d ?p Status d' p'" by (auto simp: DriverDeviceControl_def ioctl_codes Let_def)
  have "\<not> DSH_VMX_ABSENT (gVmxFeature ?d)" "fits 8 ?p" "8 \<le> List.length (ip_SystemBuffer ?p)"
    by (simp_all add: DSH_VMX_ABSENT_def fits_def example_irp_def example_dr_def)
  then show ?thesis using control_request_correct [OF example_dr_reach r] r a
    by (intro exI [of _ Status] exI [of _ d'] exI [of _ p']) (auto split: if_splits)
qed

end
