(* ===== verification/Features.thy ===== *)
theory Features
  imports Driver
begin

text \<open>
  What the driver asks the processor and the system when it is loaded: whether VMX can be used
  and why not (\<open>driver.c\<close>), the side channel mitigations on offer (\<open>mitigation.c\<close>), the version
  of the system and its debugger data (\<open>os.c\<close>), and the copies of counted strings.
\<close>

section \<open>The processor\<close>

text \<open>A constant of several characters has its first one in the highest byte.\<close>

definition multichar :: "string \<Rightarrow> u32" where
  "multichar s = foldl (\<lambda>w c. push_bit 8 w OR of_char c) 0 s"

definition cpuid_eax :: "'c cpu_scheme \<Rightarrow> u32 \<Rightarrow> u32" where
  "cpuid_eax c leaf = (case cpu_id c leaf 0 of (a, b, c, d) \<Rightarrow> a)"

definition CPUID_BASIC_INFORMATION :: u32 where "CPUID_BASIC_INFORMATION = 0"
definition CPUID_VMM_VENDOR_SIGNATURE :: u32 where "CPUID_VMM_VENDOR_SIGNATURE = 0x40000000"
definition CPUID_VMM_INTERFACE_SIGNATURE :: u32 where "CPUID_VMM_INTERFACE_SIGNATURE = 0x40000001"

definition DsCheckCpuFamilyIntel :: "cpu \<Rightarrow> bool" where
  "DsCheckCpuFamilyIntel c \<longleftrightarrow>
     cpuid_ecx c CPUID_BASIC_INFORMATION = multichar ''letn'' \<and>
     cpuid_edx c CPUID_BASIC_INFORMATION = multichar ''Ieni'' \<and>
     cpuid_ebx c CPUID_BASIC_INFORMATION = multichar ''uneG''"

definition DsCheckCpuVmxCapable :: "cpu \<Rightarrow> bool" where
  "DsCheckCpuVmxCapable c =
     (if cpuid_ecx c CPUID_FEATURE_INFORMATION AND CPUID_LEAF_1H_ECX_VMX = 0 then False else True)"

definition DsCheckVmxFirmwareState :: "cpu \<Rightarrow> bool \<times> cpu" where
  "DsCheckVmxFirmwareState c =
     (let RequiredFeature = IA32_FC_LOCK OR IA32_FC_ENABLE_VMXON_OUTSMX;
          FeatureControl = cpu_msr c IA32_FEATURE_CONTROL
      in if cpu_msr c IA32_FEATURE_CONTROL AND RequiredFeature \<noteq> RequiredFeature
         then if FeatureControl AND IA32_FC_LOCK = 0
              then (True, c\<lparr>cpu_msr := (cpu_msr c)(IA32_FEATURE_CONTROL := FeatureControl OR RequiredFeature)\<rparr>)
              else (False, c)
         else (True, c))"

definition DsCheckMicrosoftHyperV :: "cpu \<Rightarrow> bool" where
  "DsCheckMicrosoftHyperV c =
     (if cpuid_ebx c CPUID_VMM_VENDOR_SIGNATURE = multichar ''Micr'' \<and>
         cpuid_ecx c CPUID_VMM_VENDOR_SIGNATURE = multichar ''osof'' \<and>
         cpuid_edx c CPUID_VMM_VENDOR_SIGNATURE = multichar ''t Hv'' \<and>
         cpuid_eax c CPUID_VMM_VENDOR_SIGNATURE \<ge> 0x40000005
      then if cpuid_eax c CPUID_VMM_INTERFACE_SIGNATURE = multichar ''1#vH'' then False else True
      else True)"

definition CODEINTEGRITY_OPTION_HVCI_KMCI_ENABLED :: u32 where "CODEINTEGRITY_OPTION_HVCI_KMCI_ENABLED = 0x400"
definition CODEINTEGRITY_OPTION_HVCI_KMCI_AUDITMODE_ENABLED :: u32 where "CODEINTEGRITY_OPTION_HVCI_KMCI_AUDITMODE_ENABLED = 0x800"
definition CODEINTEGRITY_OPTION_HVCI_KMCI_STRICTMODE_ENABLED :: u32 where "CODEINTEGRITY_OPTION_HVCI_KMCI_STRICTMODE_ENABLED = 0x1000"
definition CODEINTEGRITY_OPTION_HVCI_IUM_ENABLED :: u32 where "CODEINTEGRITY_OPTION_HVCI_IUM_ENABLED = 0x2000"

text \<open>\<open>win10\<close> is what the system answers about its version, \<open>query\<close> the status and the options
  of \<open>ZwQuerySystemInformation\<close>.\<close>

definition DsCheckHvciCompliance :: "bool \<Rightarrow> ntstatus \<times> u32 \<Rightarrow> bool" where
  "DsCheckHvciCompliance win10 query =
     (if \<not> win10 then True
      else let (Status, CodeIntegrityOptions) = query
           in if \<not> NT_SUCCESS Status then True
              else if CodeIntegrityOptions AND (CODEINTEGRITY_OPTION_HVCI_KMCI_ENABLED OR CODEINTEGRITY_OPTION_HVCI_KMCI_AUDITMODE_ENABLED OR
                        CODEINTEGRITY_OPTION_HVCI_KMCI_STRICTMODE_ENABLED OR CODEINTEGRITY_OPTION_HVCI_IUM_ENABLED) \<noteq> 0
              then False else True)"

text \<open>The bits of \<open>DS_VMX_FEATURE\<close>; \<open>None\<close> is the zeroed \<open>VmState\<close>.\<close>

definition NoIntelCpu :: u32 where "NoIntelCpu = 1"
definition HvciEnabled :: u32 where "HvciEnabled = 2"
definition NoVtxExtension :: u32 where "NoVtxExtension = 4"
definition FirmwareDisabled :: u32 where "FirmwareDisabled = 8"

definition zero_feature :: ds_vmx_feature where
  "zero_feature = \<lparr>fe_Version = 0, fe_Bits = 0, fe_VmState = None\<rparr>"

definition DsInitializeVmxFeature :: "bool \<Rightarrow> ntstatus \<times> u32 \<Rightarrow> cpu \<Rightarrow> ds_vmx_feature \<times> cpu" where
  "DsInitializeVmxFeature win10 query c =
     (if \<not> DsCheckCpuFamilyIntel c then (zero_feature\<lparr>fe_Bits := NoIntelCpu\<rparr>, c)
      else if \<not> DsCheckHvciCompliance win10 query \<or> \<not> DsCheckMicrosoftHyperV c then (zero_feature\<lparr>fe_Bits := HvciEnabled\<rparr>, c)
      else if \<not> DsCheckCpuVmxCapable c then (zero_feature\<lparr>fe_Bits := NoVtxExtension\<rparr>, c)
      else let (enabled, c) = DsCheckVmxFirmwareState c
           in if \<not> enabled then (zero_feature\<lparr>fe_Bits := FirmwareDisabled\<rparr>, c)
              else (zero_feature\<lparr>fe_VmState := Some (VmInitializeVmState (cpu_msr c))\<rparr>, c))"

section \<open>Mitigations\<close>

definition CPUID_LEAF_7H_0H_EDX_IBRS :: u32 where "CPUID_LEAF_7H_0H_EDX_IBRS = push_bit 26 1"
definition CPUID_LEAF_7H_0H_EDX_L1D_FLUSH :: u32 where "CPUID_LEAF_7H_0H_EDX_L1D_FLUSH = push_bit 28 1"
definition CPUID_LEAF_7H_0H_EDX_ARCH_CAPS :: u32 where "CPUID_LEAF_7H_0H_EDX_ARCH_CAPS = push_bit 29 1"
definition CPUID_LEAF_7H_0H_EDX_SSBD :: u32 where "CPUID_LEAF_7H_0H_EDX_SSBD = push_bit 31 1"
definition IA32_PRED_CMD :: u32 where "IA32_PRED_CMD = 0x49"
definition PRED_CMD_FEATURE_SET_IBPB :: u64 where "PRED_CMD_FEATURE_SET_IBPB = 1"
definition IA32_ARCH_CAPABILITIES :: u32 where "IA32_ARCH_CAPABILITIES = 0x10A"

definition DsCheckCpuSpeculationControlCapable :: "cpu \<Rightarrow> bool" where
  "DsCheckCpuSpeculationControlCapable c =
     (if cpuid_edx c CPUID_EXTENDED_FEATURE_FLAGS AND CPUID_LEAF_7H_0H_EDX_IBRS \<noteq> 0 then True else False)"

definition DsSetIndirectBranchPredictorBarrier :: "cpu \<Rightarrow> cpu" where
  "DsSetIndirectBranchPredictorBarrier c = c\<lparr>cpu_msr := (cpu_msr c)(IA32_PRED_CMD := PRED_CMD_FEATURE_SET_IBPB)\<rparr>"

definition DsCheckCpuFlushCommandCapable :: "cpu \<Rightarrow> bool" where
  "DsCheckCpuFlushCommandCapable c =
     (if cpuid_edx c CPUID_EXTENDED_FEATURE_FLAGS AND CPUID_LEAF_7H_0H_EDX_L1D_FLUSH \<noteq> 0 then True else False)"

text \<open>The result and what is stored through the argument, if anything.\<close>

definition DsQueryCpuArchCapabilities :: "cpu \<Rightarrow> bool \<times> u64 option" where
  "DsQueryCpuArchCapabilities c =
     (if cpuid_edx c CPUID_EXTENDED_FEATURE_FLAGS AND CPUID_LEAF_7H_0H_EDX_ARCH_CAPS \<noteq> 0
      then (True, Some (cpu_msr c IA32_ARCH_CAPABILITIES)) else (False, None))"

definition DsCheckCpuSsbdCapable :: "cpu \<Rightarrow> bool" where
  "DsCheckCpuSsbdCapable c =
     (if cpuid_edx c CPUID_EXTENDED_FEATURE_FLAGS AND CPUID_LEAF_7H_0H_EDX_SSBD \<noteq> 0 then True else False)"

section \<open>The system\<close>

record os_version =
  ov_major :: u8
  ov_minor :: u8
  ov_servicePack :: u16
  ov_buildNumber :: u32

record osversioninfo =
  dwMajorVersion :: u32
  dwMinorVersion :: u32
  wServicePackMajor :: u16
  dwBuildNumber :: u32

definition OsVersion :: "ntstatus \<times> osversioninfo \<Rightarrow> ntstatus \<times> os_version option" where
  "OsVersion get =
     (let (Status, verInfo) = get
      in if \<not> NT_SUCCESS Status then (Status, None)
         else (Status, Some \<lparr>ov_major = ucast (dwMajorVersion verInfo), ov_minor = ucast (dwMinorVersion verInfo),
                 ov_servicePack = wServicePackMajor verInfo, ov_buildNumber = dwBuildNumber verInfo\<rparr>))"

text \<open>\<open>verify\<close> is \<open>RtlVerifyVersionInfo\<close> for \<open>VER_GREATER_EQUAL\<close> on the build number.\<close>

definition OsVerifyBuildNumber :: "(u32 \<Rightarrow> ntstatus) \<Rightarrow> u32 \<Rightarrow> bool" where
  "OsVerifyBuildNumber verify BuildNumber = (if NT_SUCCESS (verify BuildNumber) then True else False)"

datatype os_call = OsAllocate nat | OsFree nat

record dump_header =
  dh_KdDebuggerDataBlock :: u64
  dh_PfnDataBase :: u64

text \<open>\<open>pool\<close> is the buffer found, \<open>header\<close> the status and the contents of the dump header.\<close>

definition OsGetDebuggerDataBlock :: "nat option \<Rightarrow> ntstatus \<times> dump_header \<Rightarrow> ntstatus \<times> u64 \<times> os_call list" where
  "OsGetDebuggerDataBlock pool header =
     (case pool of
        None \<Rightarrow> (STATUS_NO_MEMORY, 0, [])
      | Some Buffer \<Rightarrow>
          let (Status, DumpHeader) = header
          in (Status, if NT_SUCCESS Status then dh_KdDebuggerDataBlock DumpHeader else 0, [OsAllocate Buffer, OsFree Buffer]))"

definition OsGetPfnDatabase :: "nat option \<Rightarrow> ntstatus \<times> dump_header \<Rightarrow> ntstatus \<times> u64 \<times> os_call list" where
  "OsGetPfnDatabase pool header =
     (case pool of
        None \<Rightarrow> (STATUS_NO_MEMORY, 0, [])
      | Some Buffer \<Rightarrow>
          let (Status, DumpHeader) = header
          in (Status, if NT_SUCCESS Status then dh_PfnDataBase DumpHeader else 0, [OsAllocate Buffer, OsFree Buffer]))"

section \<open>Counted strings\<close>

text \<open>\<open>pool\<close> is the buffer that is found, with what it holds.\<close>

definition DsAllocateUnicodeString :: "(nat \<times> u16 list) option \<Rightarrow> unicode_string \<Rightarrow> ntstatus \<times> unicode_string" where
  "DsAllocateUnicodeString pool String =
     (let String = String\<lparr>us_Buffer := pool\<rparr>
      in if us_Buffer String = None then (STATUS_INSUFFICIENT_RESOURCES, String)
         else (STATUS_SUCCESS, String\<lparr>us_Length := 0\<rparr>))"

text \<open>The string and the buffers given back.\<close>

definition DsFreeUnicodeString :: "unicode_string \<Rightarrow> unicode_string \<times> nat list" where
  "DsFreeUnicodeString String =
     (String\<lparr>us_Length := 0, us_MaximumLength := 0, us_Buffer := None\<rparr>,
      case us_Buffer String of None \<Rightarrow> [] | Some (p, xs) \<Rightarrow> [p])"

text \<open>The library's copy: what fits, and a final zero when there is room for it.\<close>

definition RtlCopyUnicodeString :: "unicode_string \<Rightarrow> unicode_string \<Rightarrow> unicode_string" where
  "RtlCopyUnicodeString Dst Src =
     (case (us_Buffer Dst, us_Buffer Src) of
        (Some (p, old), Some (q, xs)) \<Rightarrow>
          let n = min (us_Length Src) (us_MaximumLength Dst);
              new = take (n div 2) xs @ drop (n div 2) old;
              new = (if n + 2 \<le> us_MaximumLength Dst then new[n div 2 := 0] else new)
          in Dst\<lparr>us_Length := n, us_Buffer := Some (p, new)\<rparr>
      | _ \<Rightarrow> Dst\<lparr>us_Length := 0\<rparr>)"

definition DsCloneUnicodeString :: "(nat \<times> u16 list) option \<Rightarrow> unicode_string \<Rightarrow> ntstatus \<times> unicode_string" where
  "DsCloneUnicodeString pool SourceString =
     (let DestinationString = null_string\<lparr>us_MaximumLength := us_Length SourceString\<rparr>;
          (Status, DestinationString) = DsAllocateUnicodeString pool DestinationString
      in if NT_SUCCESS Status then (Status, RtlCopyUnicodeString DestinationString SourceString)
         else (Status, DestinationString))"

section \<open>Signatures\<close>

lemma genuine_intel:
  "le32 (multichar ''uneG'') @ le32 (multichar ''Ieni'') @ le32 (multichar ''letn'') = map of_char ''GenuineIntel''"
  by (simp add: le32_def multichar_def upt_conv_Cons)

text \<open>
  The vendor test accepts a processor exactly when leaf 0 spells \<open>GenuineIntel\<close> in
  \<open>EBX\<close>, \<open>EDX\<close> and \<open>ECX\<close>; but the test for Hyper-V has the characters of its constants in the
  opposite order, so a processor whose vendor leaf spells \<open>Microsoft Hv\<close> passes for one
  without Hyper-V.
\<close>

theorem vendor_checks:
  "(DsCheckCpuFamilyIntel c \<longleftrightarrow>
     le32 (cpuid_ebx c CPUID_BASIC_INFORMATION) @ le32 (cpuid_edx c CPUID_BASIC_INFORMATION) @ le32 (cpuid_ecx c CPUID_BASIC_INFORMATION) =
       map of_char ''GenuineIntel'') \<and>
   (le32 (cpuid_ebx c CPUID_VMM_VENDOR_SIGNATURE) @ le32 (cpuid_ecx c CPUID_VMM_VENDOR_SIGNATURE) @
      le32 (cpuid_edx c CPUID_VMM_VENDOR_SIGNATURE) = map of_char ''Microsoft Hv'' \<longrightarrow> DsCheckMicrosoftHyperV c)"
proof -
  have i: "inj (le32 :: u32 \<Rightarrow> u8 list)" by (rule inj_on_inverseI [of _ of_le]) simp
  have 1: "le32 b @ le32 d @ le32 c = map of_char ''GenuineIntel'' \<longleftrightarrow>
      c = multichar ''letn'' \<and> d = multichar ''Ieni'' \<and> b = multichar ''uneG''" for b c d
    unfolding genuine_intel [symmetric] by (auto simp: inj_eq [OF i])
  have "le32 (multichar ''Micr'') \<noteq> map of_char ''Micr''" by (simp add: le32_def multichar_def upt_conv_Cons)
  then have 2: "le32 b @ ys = map of_char ''Microsoft Hv'' \<Longrightarrow> b \<noteq> multichar ''Micr''" for b ys
    by (auto simp: le32_def upt_conv_Cons)
  show ?thesis using 1 2 by (auto simp: DsCheckCpuFamilyIntel_def DsCheckMicrosoftHyperV_def)
qed

section \<open>Which processors are accepted\<close>

lemma bit_push_one: "bit (push_bit k (1 :: 'a::len word)) i \<longleftrightarrow> i < LENGTH('a) \<and> i = k"
  by (auto simp: bit_exp_iff)

lemma and_push_one: "(w AND push_bit k (1 :: 'a::len word) = 0) = (k < LENGTH('a) \<longrightarrow> \<not> bit w k)"
  by (auto simp: and_exp_eq_0_iff_not_bit dest: bit_imp_le_length)

lemma firmware_state:
  assumes "DsCheckVmxFirmwareState c = (ok, c')"
  shows "ok = (bit (cpu_msr c IA32_FEATURE_CONTROL) 0 \<longrightarrow> bit (cpu_msr c IA32_FEATURE_CONTROL) 2)"
    "cpu_id c' = cpu_id c" "\<not> ok \<Longrightarrow> c' = c"
    "ok \<Longrightarrow> bit (cpu_msr c' IA32_FEATURE_CONTROL) 0 \<and> bit (cpu_msr c' IA32_FEATURE_CONTROL) 2"
    "m \<noteq> IA32_FEATURE_CONTROL \<Longrightarrow> cpu_msr c' m = cpu_msr c m"
proof -
  let ?f = "cpu_msr c IA32_FEATURE_CONTROL" and ?r = "IA32_FC_LOCK OR IA32_FC_ENABLE_VMXON_OUTSMX"
  have e: "bit (IA32_FC_LOCK) i \<longleftrightarrow> i = 0" "bit IA32_FC_ENABLE_VMXON_OUTSMX i \<longleftrightarrow> i = 2" for i
    unfolding IA32_FC_LOCK_def IA32_FC_ENABLE_VMXON_OUTSMX_def bit_push_one bit_1_iff by auto
  have b: "(?f AND ?r = ?r) = (bit ?f 0 \<and> bit ?f 2)"
  proof
    assume "?f AND ?r = ?r"
    then have "bit (?f AND ?r) i = bit ?r i" for i by simp
    from this [of 0] this [of 2] show "bit ?f 0 \<and> bit ?f 2" by (simp add: bit_and_iff bit_or_iff e)
  qed (auto simp: bit_and_iff bit_or_iff e intro!: bit_word_eqI)
  have z: "(?f AND IA32_FC_LOCK = 0) = (\<not> bit ?f 0)" using and_push_one [of ?f 0] by (simp add: IA32_FC_LOCK_def)
  have u: "bit (?f OR ?r) 0" "bit (?f OR ?r) 2" by (simp_all add: bit_or_iff e)
  note D = assms [unfolded DsCheckVmxFirmwareState_def Let_def b z]
  show "ok = (bit ?f 0 \<longrightarrow> bit ?f 2)" "cpu_id c' = cpu_id c" "\<not> ok \<Longrightarrow> c' = c"
    "m \<noteq> IA32_FEATURE_CONTROL \<Longrightarrow> cpu_msr c' m = cpu_msr c m"
    using D by (auto split: if_splits)
  show "ok \<Longrightarrow> bit (cpu_msr c' IA32_FEATURE_CONTROL) 0 \<and> bit (cpu_msr c' IA32_FEATURE_CONTROL) 2"
    using D u by (auto split: if_splits)
qed

lemma verify_accepts:
  assumes "bit (cpuid_ecx c CPUID_FEATURE_INFORMATION) 5" "bit (cpu_msr c IA32_FEATURE_CONTROL) 0" "bit (cpu_msr c IA32_FEATURE_CONTROL) 2"
  shows "VmxpVerifyFeatureControl c = (STATUS_SUCCESS, c)"
proof -
  have n: "w AND x \<noteq> 0" if "bit w i" "bit x i" for w x :: "'a::len word" and i
    using that by (metis bit_and_iff bit_0_eq bot_apply bot_bool_def)
  have "cpuid_ecx c CPUID_FEATURE_INFORMATION AND CPUID_LEAF_1H_ECX_VMX \<noteq> 0"
    by (rule n [OF assms(1)]) (simp add: CPUID_LEAF_1H_ECX_VMX_def bit_simps)
  moreover have "cpu_msr c IA32_FEATURE_CONTROL AND IA32_FC_LOCK \<noteq> 0"
    by (rule n [OF assms(2)]) (simp add: IA32_FC_LOCK_def)
  moreover have "cpu_msr c IA32_FEATURE_CONTROL AND IA32_FC_ENABLE_VMXON_OUTSMX \<noteq> 0"
    by (rule n [OF assms(3)]) (simp add: IA32_FC_ENABLE_VMXON_OUTSMX_def bit_simps)
  ultimately show ?thesis by (simp add: VmxpVerifyFeatureControl_def)
qed

lemma vmx_capable: "DsCheckCpuVmxCapable c = bit (cpuid_ecx c CPUID_FEATURE_INFORMATION) 5"
  unfolding DsCheckCpuVmxCapable_def CPUID_LEAF_1H_ECX_VMX_def and_push_one by simp

text \<open>
  C29: the driver accepts a processor exactly when it is a Genuine Intel with VMX whose
  firmware has not locked it out, no code integrity is enforced by a hypervisor and Hyper-V is
  not recognised.  Then the capabilities are read, VMX is enabled, and the later check of each
  processor succeeds and changes nothing.  Otherwise exactly one reason is recorded and the
  processor is as it was.
\<close>

theorem vmx_feature_classified:
  assumes "DsInitializeVmxFeature win10 query c = (F, c')"
  shows "(\<not> DSH_VMX_ABSENT F \<longleftrightarrow> DsCheckCpuFamilyIntel c \<and> DsCheckHvciCompliance win10 query \<and> DsCheckMicrosoftHyperV c \<and>
       bit (cpuid_ecx c CPUID_FEATURE_INFORMATION) 5 \<and>
       (bit (cpu_msr c IA32_FEATURE_CONTROL) 0 \<longrightarrow> bit (cpu_msr c IA32_FEATURE_CONTROL) 2)) \<and>
    (if DSH_VMX_ABSENT F
     then fe_Bits F \<in> {NoIntelCpu, HvciEnabled, NoVtxExtension, FirmwareDisabled} \<and> fe_VmState F = None \<and> c' = c
     else fe_VmState F = Some (VmInitializeVmState (cpu_msr c')) \<and> VmxpVerifyFeatureControl c' = (STATUS_SUCCESS, c') \<and>
       (\<forall>m. m \<noteq> IA32_FEATURE_CONTROL \<longrightarrow> cpu_msr c' m = cpu_msr c m))"
proof -
  obtain ok c1 where f: "DsCheckVmxFirmwareState c = (ok, c1)" by fastforce
  note F = firmware_state [OF f]
  have i: "cpuid_ecx c1 CPUID_FEATURE_INFORMATION = cpuid_ecx c CPUID_FEATURE_INFORMATION" using F(2) by (simp add: cpuid_ecx_def)
  note D = assms [unfolded DsInitializeVmxFeature_def f Let_def prod.case vmx_capable]
  have nz: "NoIntelCpu \<noteq> 0" "HvciEnabled \<noteq> 0" "NoVtxExtension \<noteq> 0" "FirmwareDisabled \<noteq> 0"
    by (simp_all add: NoIntelCpu_def HvciEnabled_def NoVtxExtension_def FirmwareDisabled_def)
  show ?thesis
  proof (cases "DsCheckCpuFamilyIntel c \<and> DsCheckHvciCompliance win10 query \<and> DsCheckMicrosoftHyperV c \<and>
      bit (cpuid_ecx c CPUID_FEATURE_INFORMATION) 5 \<and> ok")
    case True
    then have r: "F = zero_feature\<lparr>fe_VmState := Some (VmInitializeVmState (cpu_msr c1))\<rparr>" "c' = c1" using D by auto
    have "VmxpVerifyFeatureControl c1 = (STATUS_SUCCESS, c1)" using verify_accepts [of c1] F(4) True i by simp
    then show ?thesis using r True F(1,5) by (simp add: DSH_VMX_ABSENT_def zero_feature_def)
  next
    case False
    then have "DSH_VMX_ABSENT F \<and> fe_Bits F \<in> {NoIntelCpu, HvciEnabled, NoVtxExtension, FirmwareDisabled} \<and> fe_VmState F = None \<and> c' = c"
      using D nz F(3) by (auto simp: DSH_VMX_ABSENT_def zero_feature_def split: if_splits)
    then show ?thesis using False F(1) by auto
  qed
qed

section \<open>Copies of strings\<close>

text \<open>
  A clone has the contents of its source in a buffer of its own, which freeing it gives
  back; without memory there is no buffer and nothing to give back.
\<close>

theorem clone_free_roundtrip:
  assumes "us_Buffer Src = Some (q, xs)" "us_Length Src = 2 * n" "n \<le> List.length xs"
    "DsCloneUnicodeString pool Src = (Status, Dst)" "pool = None \<or> pool = Some (p, old) \<and> List.length old = n"
  shows "(if pool = None then Status = STATUS_INSUFFICIENT_RESOURCES \<and> us_Buffer Dst = None \<and> us_Length Dst = 0
      else Status = STATUS_SUCCESS \<and> us_Length Dst = us_Length Src \<and> us_MaximumLength Dst = us_Length Src \<and>
        us_Buffer Dst = Some (p, take n xs)) \<and>
    DsFreeUnicodeString Dst = (null_string, if pool = None then [] else [p])"
  using assms by (auto simp: DsCloneUnicodeString_def DsAllocateUnicodeString_def RtlCopyUnicodeString_def DsFreeUnicodeString_def
      null_string_def Let_def)

section \<open>Examples\<close>

text \<open>An Intel processor with VMX that is not locked, which runs under Hyper-V when \<open>hv\<close>.\<close>

definition example_cpu :: "bool \<Rightarrow> cpu" where
  "example_cpu hv = \<lparr>cpu_vmcs = (\<lambda>_. None), cpu_msr = (\<lambda>_. 0),
     cpu_id = (\<lambda>leaf _. if leaf = 0 then (22, multichar ''uneG'', multichar ''letn'', multichar ''Ieni'')
       else if leaf = 0x40000000 \<and> hv then (0x4000000B, of_le (map of_char ''Micr''), of_le (map of_char ''osof''), of_le (map of_char ''t Hv''))
       else if leaf = 0x40000001 \<and> hv then (multichar ''1#vH'', 0, 0, 0) else (0, 0, 0x20, 0)),
     cpu_cr0 = 0, cpu_cr3 = 0, cpu_cr4 = 0, cpu_dr7 = 0\<rparr>"

lemmas example_cpu_simps = example_cpu_def cpuid_eax_def cpuid_ebx_def cpuid_ecx_def cpuid_edx_def CPUID_BASIC_INFORMATION_def
  CPUID_VMM_VENDOR_SIGNATURE_def CPUID_FEATURE_INFORMATION_def

theorem vendor_checks_witness: "DsCheckCpuFamilyIntel (example_cpu True) \<and> DsCheckMicrosoftHyperV (example_cpu True)"
proof -
  have "le32 (of_le (map of_char ''Micr'')) @ le32 (of_le (map of_char ''osof'')) @ le32 (of_le (map of_char ''t Hv'')) = map of_char ''Microsoft Hv''"
    by (simp add: le32_def upt_conv_Cons)
  moreover have "DsCheckCpuFamilyIntel (example_cpu True)" by (simp add: DsCheckCpuFamilyIntel_def example_cpu_simps)
  ultimately show ?thesis using vendor_checks [of "example_cpu True"] by (simp add: example_cpu_simps)
qed

theorem vmx_feature_classified_witness:
  "\<exists>F c'. DsInitializeVmxFeature True (STATUS_SUCCESS, 1) (example_cpu True) = (F, c') \<and> \<not> DSH_VMX_ABSENT F \<and>
     VmxpVerifyFeatureControl c' = (STATUS_SUCCESS, c')"
proof -
  obtain F c' where r: "DsInitializeVmxFeature True (STATUS_SUCCESS, 1) (example_cpu True) = (F, c')" by fastforce
  have "DsCheckCpuFamilyIntel (example_cpu True)" "bit (cpuid_ecx (example_cpu True) CPUID_FEATURE_INFORMATION) 5"
    "\<not> bit (cpu_msr (example_cpu True) IA32_FEATURE_CONTROL) 0"
    by (simp_all add: DsCheckCpuFamilyIntel_def example_cpu_simps)
  moreover have "DsCheckMicrosoftHyperV (example_cpu True)"
    by (simp add: DsCheckMicrosoftHyperV_def example_cpu_simps multichar_def)
  moreover have "DsCheckHvciCompliance True (STATUS_SUCCESS, 1)"
    by (simp add: DsCheckHvciCompliance_def CODEINTEGRITY_OPTION_HVCI_KMCI_ENABLED_def CODEINTEGRITY_OPTION_HVCI_KMCI_AUDITMODE_ENABLED_def
      CODEINTEGRITY_OPTION_HVCI_KMCI_STRICTMODE_ENABLED_def CODEINTEGRITY_OPTION_HVCI_IUM_ENABLED_def)
  ultimately show ?thesis using vmx_feature_classified [OF r] r by auto
qed

theorem clone_free_roundtrip_witness:
  "\<exists>Dst. DsCloneUnicodeString (Some (0x9000, [7, 7])) \<lparr>us_Length = 4, us_MaximumLength = 8, us_Buffer = Some (0x8000, [0x44, 0x53, 0])\<rparr> =
     (STATUS_SUCCESS, Dst) \<and> us_Buffer Dst = Some (0x9000, [0x44, 0x53])"
proof -
  let ?s = "\<lparr>us_Length = 4, us_MaximumLength = 8, us_Buffer = Some (0x8000, [0x44, 0x53, 0 :: u16])\<rparr> :: unicode_string"
  obtain St Dst where r: "DsCloneUnicodeString (Some (0x9000, [7, 7])) ?s = (St, Dst)" by fastforce
  show ?thesis using clone_free_roundtrip [OF _ _ _ r, where n = 2 and p = "0x9000" and old = "[7, 7]"] r by simp
qed

end
