(* ===== verification/Mail_Dispatch.thy ===== *)
theory Mail_Dispatch
  imports Tsc Channel
begin

text \<open>
  The reader's side of the mailbox (\<open>mailbox.c\<close>): the worker thread takes the records one by
  one and hands each to the trace, to the list of excluded threads of a process, or to the
  helper process at the other end of the channel.
\<close>

section \<open>Dispatching a record\<close>

text \<open>
  The state the worker changes, with the trace events it produced (level and area, and the text,
  up to its end).
\<close>

record worker =
  wk_mailbox :: mailbox
  wk_monitor :: pm_state
  wk_sender :: sender
  wk_traces :: "(u32 \<times> u32 \<times> u8 list) list"

text \<open>
  What the kernel and the helper answer to one dispatch: the pool block for an exclusion entry,
  the thread of an identifier, the pages of the index list, the helper's reply; and the state
  flags, and what the record on the stack held before.
\<close>

record dispatch_env =
  de_block :: "(pointer \<times> exclusion_entry) option"
  de_thread :: "u32 \<Rightarrow> ntstatus \<times> thread"
  de_pages :: "nat \<Rightarrow> pointer idx_node list option"
  de_helper :: "u8 list \<Rightarrow> ntstatus \<times> u8 list"
  de_flags :: u32
  de_stack :: mailbox_record

definition TRACE_LEVEL_ERROR :: u32 where "TRACE_LEVEL_ERROR = 2"
definition TRACE_IOA :: u32 where "TRACE_IOA = 0x40"
definition TRACE_MSR :: u32 where "TRACE_MSR = 0x100"
definition TRACE_MAILBOX :: u32 where "TRACE_MAILBOX = 0x1000"

definition sizeof_DS_TSC_INFORMATION :: nat where "sizeof_DS_TSC_INFORMATION = 344"

text \<open>The fields of the \<open>DS_NOTIFICATION_MESSAGE\<close> that lies at the start of the data.\<close>

definition message_ProcessId :: "u8 list \<Rightarrow> u64" where "message_ProcessId d = of_le (slice 16 8 d)"
definition message_ThreadId :: "u8 list \<Rightarrow> u64" where "message_ThreadId d = of_le (slice 24 8 d)"
definition message_Type :: "u8 list \<Rightarrow> u32" where "message_Type d = of_le (slice 32 4 d)"
definition message_Tsc :: "u8 list \<Rightarrow> u8 list" where "message_Tsc d = slice 40 sizeof_DS_TSC_INFORMATION d"

text \<open>The level of the trace event for a trace record; \<open>None\<close> for an area without one.\<close>

definition trace_event :: "mailbox_record \<Rightarrow> (u32 \<times> u32 \<times> u8 list) option" where
  "trace_event r =
     (let text = takeWhile (\<lambda>b. b \<noteq> 0) (mr_Data r);
          Level = (if mr_u1 r = TRACE_LEVEL_VERBOSE then TRACE_LEVEL_VERBOSE
                   else if mr_u1 r = TRACE_LEVEL_INFORMATION then TRACE_LEVEL_INFORMATION else TRACE_LEVEL_WARNING)
      in if mr_u0 r = TRACE_IOA_ROOT then Some (Level, TRACE_IOA, text)
         else if mr_u0 r = TRACE_MSR_ROOT then Some (Level, TRACE_MSR, text)
         else None)"

text \<open>The exclusion list of a process lives in its entry of the table.\<close>

definition set_thread_list :: "u64 \<Rightarrow> exclusion_table \<Rightarrow> pm_objects \<Rightarrow> pm_state \<Rightarrow> pm_state" where
  "set_thread_list pid l objs m =
     m\<lparr>pm_objs := objs,
       gProcessTree := map_option (map (\<lambda>e. if pe_ProcessId e = pid then e\<lparr>pe_ThreadList := l\<rparr> else e)) (gProcessTree m)\<rparr>"

definition dispatch_false_positive :: "dispatch_env \<Rightarrow> u8 list \<Rightarrow> worker \<Rightarrow> ntstatus \<times> worker" where
  "dispatch_false_positive e d w =
     (case PmLookupProcessEntryById (wk_monitor w) (take_bit 32 (message_ProcessId d)) of
        None \<Rightarrow> (STATUS_SUCCESS, w)
      | Some ProcessEntry \<Rightarrow>
          let (Status, objs, l) = PmExcludeThread (de_block e) (de_thread e) (de_pages e) (pm_objs (wk_monitor w))
                (pe_ThreadList ProcessEntry) (message_ThreadId d);
              w = w\<lparr>wk_monitor := set_thread_list (pe_ProcessId ProcessEntry) l objs (wk_monitor w)\<rparr>
          in (Status, if NT_SUCCESS Status then w
              else w\<lparr>wk_traces := wk_traces w @ [(TRACE_LEVEL_WARNING, TRACE_MAILBOX, [])]\<rparr>))"

definition dispatch_record :: "dispatch_env \<Rightarrow> mailbox_record \<Rightarrow> worker \<Rightarrow> ntstatus \<times> worker" where
  "dispatch_record e r w =
     (if mr_Type r = MailboxTrace then
        (STATUS_SUCCESS, case trace_event r of None \<Rightarrow> w | Some t \<Rightarrow> w\<lparr>wk_traces := wk_traces w @ [t]\<rparr>)
      else if mr_Type r = MailboxNotification then
        (let d = mr_Data r
         in if message_Type d = TimerFalsePositive then dispatch_false_positive e d w
            else let (Status, Action, s, calls) = DsSendNotificationMessage (de_helper e) (de_flags e)
                       (message_ProcessId d) (message_ThreadId d) (message_Type d) (message_Tsc d) (wk_sender w)
                 in (Status, w\<lparr>wk_sender := s\<rparr>))
      else (STATUS_SUCCESS, w\<lparr>wk_traces := wk_traces w @ [(TRACE_LEVEL_ERROR, TRACE_MAILBOX, [])]\<rparr>))"

definition RtlDispatchMailboxData :: "dispatch_env \<Rightarrow> worker \<Rightarrow> ntstatus \<times> worker" where
  "RtlDispatchMailboxData e w =
     (let (Status, mb, MailboxEntry) = RtlRetrieveMailboxData (wk_mailbox w) (de_stack e);
          w = w\<lparr>wk_mailbox := mb\<rparr>
      in if \<not> NT_SUCCESS Status then (Status, w) else dispatch_record e MailboxEntry w)"

section \<open>The worker thread\<close>

text \<open>
  \<open>env k\<close> answers the dispatch number \<open>k\<close>.  The inner loop empties the mailbox; it ends only if
  no one posts faster than it reads.
\<close>

partial_function (option) drain :: "(nat \<Rightarrow> dispatch_env) \<Rightarrow> nat \<Rightarrow> worker \<Rightarrow> (nat \<times> worker) option" where
  "drain env k w =
     (if RtlIsMailboxEmpty (wk_mailbox w) then Some (k, w)
      else drain env (k + 1) (snd (RtlDispatchMailboxData (env k) w)))"

text \<open>What ends a wait: the shutdown event, the semaphore (nobody releases it), or 360 ms.\<close>

datatype wait_result = WaitShutdown | WaitSemaphore | WaitTimeout

text \<open>
  Between two waits others post: \<open>posts\<close> are the records they add before the wait ends.  The
  worker returns when it is told to shut down; without that it goes on, and the list ends.
\<close>

fun RtlMailboxWorkerThread ::
  "(nat \<Rightarrow> dispatch_env) \<Rightarrow> (mailbox_record list \<times> wait_result) list \<Rightarrow> nat \<Rightarrow> worker \<Rightarrow> (bool \<times> nat \<times> worker) option" where
  "RtlMailboxWorkerThread env [] k w = Some (False, k, w)"
| "RtlMailboxWorkerThread env ((posts, Status) # waits) k w =
     (let w = w\<lparr>wk_mailbox := fst (mbox_run (wk_mailbox w) (map Post posts))\<rparr>
      in case Status of
           WaitShutdown \<Rightarrow> Some (True, k, w)
         | WaitTimeout \<Rightarrow> Option.bind (drain env k w) (\<lambda>(k, w). RtlMailboxWorkerThread env waits k w)
         | WaitSemaphore \<Rightarrow> RtlMailboxWorkerThread env waits k w)"

section \<open>The worker as a consumer of a queue\<close>

text \<open>The specification: each record is handed out once, in the order of the queue.\<close>

fun dispatch_all :: "(nat \<Rightarrow> dispatch_env) \<Rightarrow> nat \<Rightarrow> mailbox_record list \<Rightarrow> worker \<Rightarrow> worker" where
  "dispatch_all env k [] w = w"
| "dispatch_all env k (r # rs) w = dispatch_all env (k + 1) rs (snd (dispatch_record (env k) r w))"

lemma dispatch_mailbox:
  "wk_mailbox (snd (dispatch_record e r w)) = wk_mailbox w"
  "snd (dispatch_record e r (w\<lparr>wk_mailbox := mb\<rparr>)) = (snd (dispatch_record e r w))\<lparr>wk_mailbox := mb\<rparr>"
  by (auto simp: dispatch_record_def dispatch_false_positive_def Let_def split: option.splits prod.splits)

lemma dispatch_all_mailbox:
  "wk_mailbox (dispatch_all env k rs w) = wk_mailbox w"
  "dispatch_all env k rs (w\<lparr>wk_mailbox := mb\<rparr>) = (dispatch_all env k rs w)\<lparr>wk_mailbox := mb\<rparr>"
  by (induction rs arbitrary: w k) (simp_all add: dispatch_mailbox)

lemma dispatch_all_append:
  "dispatch_all env k (rs @ qs) w = dispatch_all env (k + List.length rs) qs (dispatch_all env k rs w)"
  by (induction rs arbitrary: k w) simp_all

lemma dispatch_queue:
  assumes "mailbox_queue (wk_mailbox w) (r # rs)"
  shows "\<exists>mb. mailbox_queue mb rs \<and> mailbox_capacity mb = mailbox_capacity (wk_mailbox w) \<and>
    RtlDispatchMailboxData e w = (fst (dispatch_record e r w), (snd (dispatch_record e r w))\<lparr>wk_mailbox := mb\<rparr>)"
proof -
  obtain St mb r' where g: "RtlRetrieveMailboxData (wk_mailbox w) (de_stack e) = (St, mb, r')" by (rule prod_cases3)
  note G = retrieve_queue [OF assms g]
  have "RtlDispatchMailboxData e w = dispatch_record e r (w\<lparr>wk_mailbox := mb\<rparr>)"
    using g G(1,2) by (simp add: RtlDispatchMailboxData_def)
  moreover have "fst (dispatch_record e r (w\<lparr>wk_mailbox := mb\<rparr>)) = fst (dispatch_record e r w)"
    by (auto simp: dispatch_record_def dispatch_false_positive_def Let_def split: option.splits prod.splits)
  ultimately have "RtlDispatchMailboxData e w = (fst (dispatch_record e r w), (snd (dispatch_record e r w))\<lparr>wk_mailbox := mb\<rparr>)"
    by (simp add: dispatch_mailbox(2) prod_eq_iff)
  then show ?thesis using G(3,4) by blast
qed

lemma drain_queue:
  "mailbox_queue (wk_mailbox w) rs \<Longrightarrow>
     \<exists>mb. mailbox_queue mb [] \<and> mailbox_capacity mb = mailbox_capacity (wk_mailbox w) \<and>
       drain env k w = Some (k + List.length rs, (dispatch_all env k rs w)\<lparr>wk_mailbox := mb\<rparr>)"
proof (induction rs arbitrary: k w)
  case Nil
  then show ?case using empty_iff_queue [OF Nil] by (intro exI [of _ "wk_mailbox w"]) (simp add: drain.simps)
next
  case (Cons r rs)
  obtain mb where m: "mailbox_queue mb rs" "mailbox_capacity mb = mailbox_capacity (wk_mailbox w)"
    "RtlDispatchMailboxData (env k) w = (fst (dispatch_record (env k) r w), (snd (dispatch_record (env k) r w))\<lparr>wk_mailbox := mb\<rparr>)"
    using dispatch_queue [OF Cons.prems] by blast
  let ?w = "(snd (dispatch_record (env k) r w))\<lparr>wk_mailbox := mb\<rparr>"
  obtain mb' where m': "mailbox_queue mb' []" "mailbox_capacity mb' = mailbox_capacity mb"
    "drain env (k + 1) ?w = Some (k + 1 + List.length rs, (dispatch_all env (k + 1) rs ?w)\<lparr>wk_mailbox := mb'\<rparr>)"
    using Cons.IH [of ?w "k + 1"] m(1) by auto
  have "drain env k w = drain env (k + 1) ?w"
    using empty_iff_queue [OF Cons.prems] m(3) by (subst drain.simps) simp
  then show ?case using m(2) m' by (intro exI [of _ mb']) (simp add: dispatch_all_mailbox)
qed

fun worker_spec ::
  "nat \<Rightarrow> (nat \<Rightarrow> dispatch_env) \<Rightarrow> (mailbox_record list \<times> wait_result) list \<Rightarrow> nat \<Rightarrow> mailbox_record list \<Rightarrow> worker
     \<Rightarrow> bool \<times> nat \<times> mailbox_record list \<times> worker" where
  "worker_spec cap env [] k q w = (False, k, q, w)"
| "worker_spec cap env ((posts, Status) # waits) k q w =
     (let q = fst (mspec_run cap q (map Post posts))
      in case Status of
           WaitShutdown \<Rightarrow> (True, k, q, w)
         | WaitTimeout \<Rightarrow> worker_spec cap env waits (k + List.length q) [] (dispatch_all env k q w)
         | WaitSemaphore \<Rightarrow> worker_spec cap env waits k q w)"

lemma posts_queue:
  assumes "mailbox_queue mb q" "list_all record_ok posts"
  shows "mailbox_queue (fst (mbox_run mb (map Post posts))) (fst (mspec_run (mailbox_capacity mb) q (map Post posts))) \<and>
    mailbox_capacity (fst (mbox_run mb (map Post posts))) = mailbox_capacity mb"
  using assms
proof (induction posts arbitrary: mb q)
  case (Cons r posts)
  obtain St m where p: "put_record mb r = (St, m)" by fastforce
  from put_record_queue [OF Cons.prems(1) _ p] Cons.prems(2) Cons.IH [of m] p
  show ?case by (simp add: Let_def split_beta)
qed simp

lemma worker_refines:
  "mailbox_queue (wk_mailbox w) q \<Longrightarrow> \<forall>x \<in> set waits. list_all record_ok (fst x) \<Longrightarrow>
     \<exists>stop k' q' w' mb. RtlMailboxWorkerThread env waits k w = Some (stop, k', w'\<lparr>wk_mailbox := mb\<rparr>) \<and>
       worker_spec (mailbox_capacity (wk_mailbox w)) env waits k q w = (stop, k', q', w') \<and> mailbox_queue mb q'"
proof (induction waits arbitrary: k w q)
  case Nil
  then show ?case by (intro exI [of _ False] exI [of _ k] exI [of _ q] exI [of _ w] exI [of _ "wk_mailbox w"]) simp
next
  case (Cons x waits)
  obtain posts Status where x: "x = (posts, Status)" by fastforce
  let ?cap = "mailbox_capacity (wk_mailbox w)"
  define mb q1 w1 where "mb = fst (mbox_run (wk_mailbox w) (map Post posts))" and "q1 = fst (mspec_run ?cap q (map Post posts))"
    and "w1 = w\<lparr>wk_mailbox := mb\<rparr>"
  have P: "mailbox_queue mb q1" "mailbox_capacity mb = ?cap" "mailbox_queue (wk_mailbox w1) q1"
    using posts_queue [OF Cons.prems(1), of posts] Cons.prems(2) x by (simp_all add: mb_def q1_def w1_def)
  have spec: "worker_spec c env ws k q (v\<lparr>wk_mailbox := m\<rparr>) = (a, b, c', v') \<Longrightarrow>
      \<exists>v''. worker_spec c env ws k q v = (a, b, c', v'') \<and> v''\<lparr>wk_mailbox := m'\<rparr> = v'\<lparr>wk_mailbox := m'\<rparr>" for c ws k q v m a b c' v' m'
  proof (induction ws arbitrary: k q v)
    case (Cons y ws)
    obtain ps s where y: "y = (ps, s)" by fastforce
    show ?case
    proof (cases s)
      case WaitTimeout
      then show ?thesis using Cons.prems Cons.IH y by (simp add: Let_def dispatch_all_mailbox)
    qed (use Cons y in \<open>auto simp: Let_def\<close>)
  qed auto
  have run: "RtlMailboxWorkerThread env (x # waits) k w = (case Status of WaitShutdown \<Rightarrow> Some (True, k, w1)
       | WaitTimeout \<Rightarrow> Option.bind (drain env k w1) (\<lambda>(k, w). RtlMailboxWorkerThread env waits k w)
       | WaitSemaphore \<Rightarrow> RtlMailboxWorkerThread env waits k w1)"
    by (cases Status) (simp_all add: x Let_def mb_def w1_def)
  have specx: "worker_spec ?cap env (x # waits) k q w = (case Status of WaitShutdown \<Rightarrow> (True, k, q1, w)
       | WaitTimeout \<Rightarrow> worker_spec ?cap env waits (k + List.length q1) [] (dispatch_all env k q1 w)
       | WaitSemaphore \<Rightarrow> worker_spec ?cap env waits k q1 w)"
    by (cases Status) (simp_all add: x Let_def q1_def)
  have fin: "?case" if "RtlMailboxWorkerThread env (x # waits) k w = Some (stop, k', w'\<lparr>wk_mailbox := m\<rparr>)"
    "worker_spec ?cap env (x # waits) k q w = (stop, k', q', v)" "v\<lparr>wk_mailbox := m\<rparr> = w'\<lparr>wk_mailbox := m\<rparr>" "mailbox_queue m q'"
    for stop k' q' w' v m
    using that(1,2,4) unfolding that(3) [symmetric] by blast
  show ?case
  proof (cases Status)
    case WaitShutdown
    show ?thesis
      by (rule fin [where m = mb and v = w and w' = w]) (use run specx WaitShutdown P(1) in \<open>simp_all add: w1_def\<close>)
  next
    case WaitSemaphore
    obtain stop k' q' w' m where I: "RtlMailboxWorkerThread env waits k w1 = Some (stop, k', w'\<lparr>wk_mailbox := m\<rparr>)"
      "worker_spec ?cap env waits k q1 w1 = (stop, k', q', w')" "mailbox_queue m q'"
      using Cons.IH [OF P(3), of k] Cons.prems(2) P(2) by (auto simp: w1_def)
    from spec [OF I(2) [unfolded w1_def], of m] obtain v where
      v: "worker_spec ?cap env waits k q1 w = (stop, k', q', v)" "v\<lparr>wk_mailbox := m\<rparr> = w'\<lparr>wk_mailbox := m\<rparr>" by blast
    show ?thesis by (rule fin [OF _ _ v(2) I(3)]) (use run specx WaitSemaphore I(1) v(1) in simp_all)
  next
    case WaitTimeout
    obtain m2 where D: "mailbox_queue m2 []" "mailbox_capacity m2 = ?cap"
      "drain env k w1 = Some (k + List.length q1, (dispatch_all env k q1 w1)\<lparr>wk_mailbox := m2\<rparr>)"
      using drain_queue [OF P(3), of env k] P(2) by (auto simp: w1_def)
    have D3: "drain env k w1 = Some (k + List.length q1, (dispatch_all env k q1 w)\<lparr>wk_mailbox := m2\<rparr>)"
      using D(3) by (simp add: w1_def dispatch_all_mailbox)
    let ?w = "(dispatch_all env k q1 w)\<lparr>wk_mailbox := m2\<rparr>"
    obtain stop k' q' w' m where I: "RtlMailboxWorkerThread env waits (k + List.length q1) ?w = Some (stop, k', w'\<lparr>wk_mailbox := m\<rparr>)"
      "worker_spec ?cap env waits (k + List.length q1) [] ?w = (stop, k', q', w')" "mailbox_queue m q'"
      using Cons.IH [of ?w "[]" "k + List.length q1"] Cons.prems(2) D(1,2) by auto
    from spec [OF I(2), of m] obtain v where
      v: "worker_spec ?cap env waits (k + List.length q1) [] (dispatch_all env k q1 w) = (stop, k', q', v)"
      "v\<lparr>wk_mailbox := m\<rparr> = w'\<lparr>wk_mailbox := m\<rparr>" by blast
    show ?thesis by (rule fin [OF _ _ v(2) I(3)]) (use run specx WaitTimeout I(1) v(1) D3 in simp_all)
  qed
qed

section \<open>A false positive makes a thread trusted\<close>

text \<open>Excluding a thread touches the new block only.\<close>

lemma exclude_frame:
  "PmExcludeThread (Some (p, block)) lookup pages s l tid = (st, s', l') \<Longrightarrow> q \<noteq> p \<Longrightarrow> po_entries s' q = po_entries s q"
  by (auto simp: PmExcludeThread_def Let_def split: if_splits prod.splits)

lemma exclusion_list_cong:
  "exclusion_list s l cs \<Longrightarrow> (\<And>c. c \<in> set cs \<Longrightarrow> po_entries s' (snd c) = po_entries s (snd c)) \<Longrightarrow>
     exclusion_list s' l cs \<and> excluded s' cs = excluded s cs"
  by (fastforce simp: exclusion_list_def excluded_def)

lemma set_thread_list_wf:
  "table_wf es \<Longrightarrow> table_wf (map (\<lambda>e. if pe_ProcessId e = pid then e\<lparr>pe_ThreadList := l\<rparr> else e) es)"
  unfolding table_wf_def by (induction es) auto

lemma set_thread_list_tracked:
  assumes "gProcessTree m = Some es"
  shows "tracked (set_thread_list pid l objs m) = tracked m"
proof -
  define f where "f e = (if pe_ProcessId e = pid then e\<lparr>pe_ThreadList := l\<rparr> else e)" for e :: process_entry
  have "set_thread_list pid l objs m = m\<lparr>pm_objs := objs, gProcessTree := Some (map f es)\<rparr>"
    using assms by (simp add: set_thread_list_def f_def [abs_def])
  moreover have "pe_ProcessId (f e) = pe_ProcessId e" for e by (simp add: f_def)
  ultimately show ?thesis using assms by (simp add: tracked_def image_image)
qed

text \<open>The invariant with the new block at the head of the list of \<open>pid\<close>, and who is excluded.\<close>

lemma exclude_monitor:
  assumes inv: "monitor_inv m B" and e: "PmLookupProcessEntryById m pid = Some e"
    and fresh: "po_entries (pm_objs m) p = None" and pages: "pool_ok pages" "it_Size (ex_Table (pe_ThreadList e)) + NODES_PER_PAGE < 2 ^ 32"
    and lk: "lookup (ucast tid) = (st, th)" "NT_SUCCESS st"
    and x: "PmExcludeThread (Some (p, block)) lookup pages (pm_objs m) (pe_ThreadList e) tid = (Status, objs, l)" "NT_SUCCESS Status"
  shows "\<exists>i. monitor_inv (set_thread_list pid l objs m) (B(pid := (i, p) # B pid)) \<and>
    excluded objs ((i, p) # B pid) = th # excluded (pm_objs m) (B pid) \<and>
    (\<forall>q \<in> tracked m. q \<noteq> pid \<longrightarrow> excluded objs (B q) = excluded (pm_objs m) (B q))"
proof -
  obtain es where t: "gProcessTree m = Some es" using monitor_inv_tree [OF inv] by blast
  note I = monitor_invD [OF inv t]
  have e': "e \<in> set es" "pe_ProcessId e = pid" using e t entry_of_SomeD [of es pid e] by (simp_all add: lookup_entry)
  have L: "exclusion_list (pm_objs m) (pe_ThreadList e) (B pid)" using I(2) [OF e'(1)] e'(2) by simp
  obtain i where i: "exclusion_list objs l ((i, p) # B pid)" "excluded objs ((i, p) # B pid) = th # excluded (pm_objs m) (B pid)"
    using exclude_thread(2) [OF L fresh pages lk x(1)] x(2) by blast
  have out: "snd c \<noteq> p" if "f \<in> set es" "c \<in> set (B (pe_ProcessId f))" for f c
    using I(2) [OF that(1)] that(2) fresh by (fastforce simp: exclusion_list_def)
  have other: "exclusion_list objs (pe_ThreadList f) (B (pe_ProcessId f)) \<and> excluded objs (B (pe_ProcessId f)) = excluded (pm_objs m) (B (pe_ProcessId f))"
    if "f \<in> set es" for f
    by (rule exclusion_list_cong [OF I(2) [OF that]]) (use out [OF that] exclude_frame [OF x(1)] in blast)
  let ?g = "\<lambda>f. if pe_ProcessId f = pid then f\<lparr>pe_ThreadList := l\<rparr> else f"
  have "monitor_inv (set_thread_list pid l objs m) (B(pid := (i, p) # B pid))"
    unfolding monitor_inv_def
  proof (intro exI [of _ "map ?g es"] conjI ballI impI)
    show "gProcessTree (set_thread_list pid l objs m) = Some (map ?g es)" by (simp add: set_thread_list_def t)
    show "table_wf (map ?g es)" using I(1) by (rule set_thread_list_wf)
    fix f assume "f \<in> set (map ?g es)"
    then obtain f0 where f: "f0 \<in> set es" "f = ?g f0" by auto
    show "exclusion_list (pm_objs (set_thread_list pid l objs m)) (pe_ThreadList f) ((B(pid := (i, p) # B pid)) (pe_ProcessId f))"
      using f i(1) other [OF f(1)] by (simp add: set_thread_list_def)
    fix h assume "h \<in> set (map ?g es)" and n: "pe_ProcessId f \<noteq> pe_ProcessId h"
    then obtain h0 where h: "h0 \<in> set es" "h = ?g h0" by auto
    have d: "snd ` set (B (pe_ProcessId f0)) \<inter> snd ` set (B (pe_ProcessId h0)) = {}"
      using I(3) [OF f(1) h(1)] n f(2) h(2) by (simp split: if_splits)
    have "p \<notin> snd ` set (B (pe_ProcessId f0))" "p \<notin> snd ` set (B (pe_ProcessId h0))" using out f(1) h(1) by blast+
    then show "snd ` set ((B(pid := (i, p) # B pid)) (pe_ProcessId f)) \<inter> snd ` set ((B(pid := (i, p) # B pid)) (pe_ProcessId h)) = {}"
      using d n f(2) h(2) by (auto split: if_splits)
  qed
  moreover have "\<forall>q \<in> tracked m. q \<noteq> pid \<longrightarrow> excluded objs (B q) = excluded (pm_objs m) (B q)"
    using other t by (auto simp: tracked_def)
  ultimately show ?thesis using i(2) by blast
qed

section \<open>Properties\<close>



section \<open>Examples\<close>

definition example_dispatch :: dispatch_env where
  "example_dispatch = \<lparr>de_block = Some (64, \<lparr>ee_Thread = 0, ee_UniqueId = 0\<rparr>), de_thread = (\<lambda>_. (STATUS_SUCCESS, 7)),
     de_pages = pool_example, de_helper = (\<lambda>d. (STATUS_SUCCESS, d)), de_flags = 0, de_stack = record_example\<rparr>"

text \<open>A monitor that tracks process 8.\<close>

definition example_monitor :: pm_state where
  "example_monitor = mon_example\<lparr>gProcessTree := Some [zero_entry\<lparr>pe_ProcessId := 8, pe_ThreadList := excl_example\<rparr>]\<rparr>"

definition example_worker :: worker where
  "example_worker = \<lparr>wk_mailbox = mailbox_example, wk_monitor = example_monitor,
     wk_sender = \<lparr>sd_channel = zero_channel, sd_rundown = \<lparr>rd_refs = 0, rd_closed = False\<rparr>, sd_UniqueId = 0\<rparr>, wk_traces = []\<rparr>"

lemma example_monitor_laws: "monitor_inv example_monitor (\<lambda>_. [])"
  "PmLookupProcessEntryById example_monitor 8 = Some (zero_entry\<lparr>pe_ProcessId := 8, pe_ThreadList := excl_example\<rparr>)"
  using excl_example_list by (simp_all add: monitor_inv_def example_monitor_def mon_example_def table_wf_def lookup_entry entry_of_def)

text \<open>A report on thread 5 of process 8.\<close>

definition report_example :: mailbox_record where
  "report_example = record_example\<lparr>mr_Type := MailboxNotification,
     mr_Data := replicate 16 0 @ le64 8 @ le64 5 @ le32 TimerFalsePositive @ replicate 988 0\<rparr>"

lemma report_example_fields: "message_ProcessId (mr_Data report_example) = 8" "message_ThreadId (mr_Data report_example) = 5"
  "message_Type (mr_Data report_example) = TimerFalsePositive" "record_ok report_example"
  using record_example_ok by (simp_all add: report_example_def message_ProcessId_def message_ThreadId_def message_Type_def slice_def
    record_ok_def MAILBOX_BUFFER_SIZE_def)



end
