(* ===== verification/Driver_Entry.thy ===== *)
theory Driver_Entry
  imports Driver_Props Features Mail_Dispatch
begin

text \<open>
  Loading and unloading the driver (\<open>driver.c\<close>): \<open>DriverEntry\<close> starts the private pool, the
  mailbox, the device, the power callback, the process monitor and the memory mapping in turn,
  and \<open>DriverUnload\<close> stops them in the opposite order.
\<close>

section \<open>The whole driver\<close>

datatype entry_event =
    ArenaEvent arena_event
  | MailboxEvent mailbox_effect
  | StringFree nat
  | PowerEvent pw_call
  | CreateDevice
  | DeleteDevice
  | CreateLink
  | DeleteLink

text \<open>
  The state of all components; \<open>sy_events\<close> are the calls to the kernel of loading and
  unloading.  The pointer to \<open>MmMapIoSpaceEx\<close> is left out: nothing uses it.
\<close>

record system =
  sy_cpu :: cpu
  gSystemPageDirectoryTable :: u64
  gVmState :: "vmx_state option"
  sy_driver :: "shield_state driver"
  gSecureMailbox :: mailbox
  sy_monitor :: pm_state
  sy_mmu :: mmu_state
  gPowerRegistration :: nat
  sy_device :: bool
  sy_link :: bool
  sy_memory :: memory
  sy_events :: "entry_event list"

text \<open>What the kernel answers while the driver is loaded.\<close>

record entry_env =
  en_win10 :: bool
  en_integrity :: "ntstatus \<times> u32"
  en_pages :: "nat \<Rightarrow> mdl option"
  en_base :: u64
  en_protect :: ntstatus
  en_blocks :: blocks
  en_data :: "nat \<Rightarrow> u8"
  en_pool :: "nat option"
  en_poolmem :: memory
  en_thread :: ntstatus
  en_reference :: "ntstatus \<times> nat"
  en_string :: "(nat \<times> u16 list) option"
  en_device :: ntstatus
  en_link :: ntstatus
  en_callback :: ntstatus
  en_handle :: nat
  en_table :: bool
  en_register :: ntstatus
  en_alloc :: "nat \<Rightarrow> bool"
  en_query :: "nat \<Rightarrow> ntstatus \<times> nat \<times> (nat \<Rightarrow> process_info)"
  en_creation :: "u64 \<Rightarrow> creation_env"
  en_slots :: "slot \<Rightarrow> slot_env"
  en_array :: bool
  en_globals :: mmu_globals
  en_count :: nat

definition upd_driver :: "(shield_state driver \<Rightarrow> shield_state driver) \<Rightarrow> system \<Rightarrow> system" where
  "upd_driver f s = s\<lparr>sy_driver := f (sy_driver s)\<rparr>"

definition log_events :: "entry_event list \<Rightarrow> system \<Rightarrow> system" where
  "log_events ev s = s\<lparr>sy_events := sy_events s @ ev\<rparr>"

definition set_pool :: "mem_state \<Rightarrow> system \<Rightarrow> system" where
  "set_pool m = upd_driver (\<lambda>d. d\<lparr>dr_shield := ((fst (dr_shield d))\<lparr>ds_mem := Some m\<rparr>, snd (dr_shield d))\<rparr>)"

definition flag_on :: "system \<Rightarrow> u32 \<Rightarrow> bool" where
  "flag_on s f \<longleftrightarrow> FlagOn (gStateFlags (sy_driver s)) f"

section \<open>Stopping the parts\<close>

text \<open>The blocks that \<open>DriverEntry\<close> and \<open>DriverUnload\<close> share.  \<open>None\<close> is a fault.\<close>

definition finalize_shield :: "entry_env \<Rightarrow> system \<Rightarrow> system option" where
  "finalize_shield e s =
     (if flag_on s DSH_GFL_SHIELD_INITIALIZED
      then let s = upd_driver (clear_flag DSH_GFL_SHIELD_INITIALIZED) s
           in map_option (\<lambda>m. s\<lparr>sy_mmu := m\<rparr>) (DsFinalizeShield (en_count e) (sy_mmu s))
      else Some s)"

definition finalize_monitor :: "system \<Rightarrow> system option" where
  "finalize_monitor s =
     (if flag_on s DSH_GFL_PROCMON_STARTED
      then let s = upd_driver (clear_flag DSH_GFL_PROCMON_STARTED) s
           in map_option (\<lambda>m. s\<lparr>sy_monitor := m\<rparr>) (PmFinalizeProcessMonitor (sy_monitor s))
      else Some s)"

definition deregister_power :: "system \<Rightarrow> system" where
  "deregister_power s =
     (if flag_on s DSH_GFL_POWER_REGISTERED
      then log_events (map PowerEvent (DsDeregisterPowerChangeCallback (gPowerRegistration s)))
             (upd_driver (clear_flag DSH_GFL_POWER_REGISTERED) s)
      else s)"

definition delete_link :: "system \<Rightarrow> system" where
  "delete_link s = log_events [DeleteLink] (s\<lparr>sy_link := False\<rparr>)"

definition delete_device :: "system \<Rightarrow> system" where
  "delete_device s = log_events [DeleteDevice] (s\<lparr>sy_device := False\<rparr>)"

definition free_key_name :: "system \<Rightarrow> system" where
  "free_key_name s =
     (let (str, freed) = DsFreeUnicodeString (gDriverKeyName (sy_driver s))
      in log_events (map StringFree freed) (upd_driver (\<lambda>d. d\<lparr>gDriverKeyName := str\<rparr>) s))"

definition destroy_mailbox :: "system \<Rightarrow> system" where
  "destroy_mailbox s =
     (let (mb, fx) = RtlMailboxDestroy (gSecureMailbox s)
      in log_events (map MailboxEvent fx) (s\<lparr>gSecureMailbox := mb\<rparr>))"

definition delete_pool :: "system \<Rightarrow> system option" where
  "delete_pool s =
     Option.bind (ds_mem (fst (dr_shield (sy_driver s)))) (\<lambda>m.
       map_option (\<lambda>(m', memory, ev). log_events (map ArenaEvent ev) (set_pool m' (s\<lparr>sy_memory := memory\<rparr>)))
         (MemDone m (sy_memory s)))"

text \<open>The end of \<open>DriverEntry\<close> when a step has failed.\<close>

definition entry_cleanup :: "entry_env \<Rightarrow> bool \<Rightarrow> bool \<Rightarrow> bool \<Rightarrow> system \<Rightarrow> system option" where
  "entry_cleanup e MailboxInitialized SymbolicLink DeviceObject s =
     Option.bind (finalize_shield e s) (\<lambda>s.
     Option.bind (finalize_monitor s) (\<lambda>s.
       let s = deregister_power s;
           s = (if SymbolicLink then delete_link s else s);
           s = (if DeviceObject then delete_device s else s);
           s = (if us_Length (gDriverKeyName (sy_driver s)) \<noteq> 0 then free_key_name s else s);
           s = (if MailboxInitialized then destroy_mailbox s else s)
       in delete_pool s))"

section \<open>Loading\<close>

definition entry_exit :: "entry_env \<Rightarrow> bool \<Rightarrow> bool \<Rightarrow> bool \<Rightarrow> ntstatus \<Rightarrow> system \<Rightarrow> (ntstatus \<times> system) option" where
  "entry_exit e MailboxInitialized SymbolicLink DeviceObject Status s =
     (if \<not> NT_SUCCESS Status then map_option (Pair Status) (entry_cleanup e MailboxInitialized SymbolicLink DeviceObject s)
      else Some (Status, s))"

text \<open>From the creation of the device on.\<close>

definition entry_device :: "entry_env \<Rightarrow> system \<Rightarrow> (ntstatus \<times> system) option" where
  "entry_device e s =
     (if \<not> NT_SUCCESS (en_device e) then entry_exit e True False False (en_device e) s else
      let s = log_events [CreateDevice] (s\<lparr>sy_device := True\<rparr>)
      in if \<not> NT_SUCCESS (en_link e) then entry_exit e True False True (en_link e) s else
      let s = log_events [CreateLink] (s\<lparr>sy_link := True\<rparr>);
          (handle, ev) = DsRegisterPowerChangeCallback (en_callback e) (en_handle e);
          s = log_events (map PowerEvent ev) (s\<lparr>gPowerRegistration := handle\<rparr>);
          s = (if gPowerRegistration s \<noteq> 0 then upd_driver (set_flag DSH_GFL_POWER_REGISTERED) s else s)
      in Option.bind (PmInitializeProcessMonitor (en_table e) (en_register e) (en_alloc e) (en_query e) (en_creation e) (sy_monitor s))
        (\<lambda>(Status, m).
          let s = s\<lparr>sy_monitor := m\<rparr>
          in if \<not> NT_SUCCESS Status then entry_exit e True True True Status s else
          let s = upd_driver (set_flag DSH_GFL_PROCMON_STARTED) s
          in Option.bind (DsInitializeShield (en_slots e) (en_array e) (en_globals e) (en_count e) (sy_mmu s))
            (\<lambda>(Status, m).
              let s = s\<lparr>sy_mmu := m\<rparr>
              in if \<not> NT_SUCCESS Status then entry_exit e True True True STATUS_SUCCESS s
                 else entry_exit e True True True Status (upd_driver (set_flag DSH_GFL_SHIELD_INITIALIZED) s))))"

definition DriverEntry :: "entry_env \<Rightarrow> unicode_string \<Rightarrow> system \<Rightarrow> (ntstatus \<times> system) option" where
  "DriverEntry e RegistryPath s =
     (let s = upd_driver (\<lambda>d. d\<lparr>gStateFlags := 0, gDriverKeyName := null_string\<rparr>) s;
          s = s\<lparr>gSystemPageDirectoryTable := cpu_cr3 (sy_cpu s)\<rparr>;
          (VmxFeature, c) = DsInitializeVmxFeature (en_win10 e) (en_integrity e) (sy_cpu s);
          s = (upd_driver (\<lambda>d. d\<lparr>gVmxFeature := VmxFeature\<rparr>) s)\<lparr>sy_cpu := c, gVmState := fe_VmState VmxFeature\<rparr>;
          (Status, m, ev) = MemInit (en_pages e) (en_base e) (en_protect e) (en_blocks e) (en_data e)
             (case ds_mem (fst (dr_shield (sy_driver s))) of None \<Rightarrow> \<lparr>gMemoryArena = zero_arena, gHeap = None\<rparr> | Some m \<Rightarrow> m) (256 * 4096);
          s = log_events (map ArenaEvent ev) (set_pool m s)
      in if \<not> NT_SUCCESS Status then Some (Status, s) else
      let (Status, mb, fx) = RtlMailboxInitialize (en_pool e) (en_poolmem e) (en_thread e) (en_reference e) MAILBOX_POOL_DEFAULT_SIZE;
          s = log_events (map MailboxEvent fx) (s\<lparr>gSecureMailbox := mb\<rparr>)
      in if \<not> NT_SUCCESS Status then entry_exit e False False False Status s else
      let (Status, str) = DsCloneUnicodeString (en_string e) RegistryPath;
          s = upd_driver (\<lambda>d. d\<lparr>gDriverKeyName := str\<rparr>) s
      in if \<not> NT_SUCCESS Status then entry_exit e True False False Status s
         else entry_device e s)"

section \<open>Unloading\<close>

definition unload_rest :: "entry_env \<Rightarrow> system \<Rightarrow> system option" where
  "unload_rest e s =
     Option.bind (finalize_shield e s) (\<lambda>s.
     Option.bind (finalize_monitor s) (\<lambda>s.
       let s = deregister_power s;
           s = (if flag_on s DSH_GFL_CHANNEL_SETUP then upd_driver (delete_channel UnloadDriverReason) s else s);
           s = delete_device (delete_link s)
       in delete_pool (destroy_mailbox (free_key_name s))))"

text \<open>\<open>S\<close> is the shield; the status of its stop is ignored.\<close>

definition DriverUnload :: "shield_state shield_ops \<Rightarrow> entry_env \<Rightarrow> system \<Rightarrow> system option \<Rightarrow> bool" where
  "DriverUnload S e s r \<longleftrightarrow>
     (if so_running S (dr_shield (sy_driver s))
      then \<exists>Status sh. so_stop S (dr_shield (sy_driver s)) Status sh \<and>
             r = unload_rest e (upd_driver (\<lambda>d. (clear_flag DSH_GFL_SHIELD_STARTED d)\<lparr>dr_shield := sh\<rparr>) s)
      else r = unload_rest e s)"

section \<open>What a failed load leaves\<close>

lemma sy_sel [simp]:
  "sy_driver (upd_driver f s) = f (sy_driver s)" "sy_device (upd_driver f s) = sy_device s" "sy_link (upd_driver f s) = sy_link s"
  "gSecureMailbox (upd_driver f s) = gSecureMailbox s" "sy_monitor (upd_driver f s) = sy_monitor s" "sy_mmu (upd_driver f s) = sy_mmu s"
  "gPowerRegistration (upd_driver f s) = gPowerRegistration s" "sy_memory (upd_driver f s) = sy_memory s" "sy_events (upd_driver f s) = sy_events s"
  "sy_driver (log_events ev s) = sy_driver s" "sy_device (log_events ev s) = sy_device s" "sy_link (log_events ev s) = sy_link s"
  "gSecureMailbox (log_events ev s) = gSecureMailbox s" "sy_monitor (log_events ev s) = sy_monitor s" "sy_mmu (log_events ev s) = sy_mmu s"
  "gPowerRegistration (log_events ev s) = gPowerRegistration s" "sy_memory (log_events ev s) = sy_memory s" "sy_events (log_events ev s) = sy_events s @ ev"
  "sy_cpu (upd_driver f s) = sy_cpu s" "sy_cpu (log_events ev s) = sy_cpu s"
  by (simp_all add: upd_driver_def log_events_def)

lemma set_pool_sel [simp]:
  "sy_device (set_pool m s) = sy_device s" "sy_link (set_pool m s) = sy_link s" "gSecureMailbox (set_pool m s) = gSecureMailbox s"
  "sy_events (set_pool m s) = sy_events s" "gStateFlags (sy_driver (set_pool m s)) = gStateFlags (sy_driver s)"
  "gDriverKeyName (sy_driver (set_pool m s)) = gDriverKeyName (sy_driver s)" "ds_mem (fst (dr_shield (sy_driver (set_pool m s)))) = Some m"
  "gHvm (fst (dr_shield (sy_driver (set_pool m s)))) = gHvm (fst (dr_shield (sy_driver s)))" "gChannel (sy_driver (set_pool m s)) = gChannel (sy_driver s)"
  "FirstUse (sy_driver (set_pool m s)) = FirstUse (sy_driver s)" "dr_calls (sy_driver (set_pool m s)) = dr_calls (sy_driver s)"
  "gVmxFeature (sy_driver (set_pool m s)) = gVmxFeature (sy_driver s)" "sy_monitor (set_pool m s) = sy_monitor s" "sy_mmu (set_pool m s) = sy_mmu s"
  "gPowerRegistration (set_pool m s) = gPowerRegistration s" "sy_cpu (set_pool m s) = sy_cpu s"
  by (simp_all add: set_pool_def)

lemma flag_sel2 [simp]:
  "gDriverKeyName (set_flag f d) = gDriverKeyName d" "gDriverKeyName (clear_flag f d) = gDriverKeyName d"
  "gVmxFeature (set_flag f d) = gVmxFeature d" "gVmxFeature (clear_flag f d) = gVmxFeature d"
  by (simp_all add: set_flag_def clear_flag_def)

definition pool_ready :: "system \<Rightarrow> bool" where
  "pool_ready s \<longleftrightarrow> (\<exists>m h. ds_mem (fst (dr_shield (sy_driver s))) = Some m \<and> gHeap m = Some h)"

definition pool_gone :: "system \<Rightarrow> bool" where
  "pool_gone s \<longleftrightarrow> (\<exists>m. ds_mem (fst (dr_shield (sy_driver s))) = Some m \<and> gMemoryArena m = zero_arena)"

lemma delete_pool_gone:
  assumes "pool_ready s"
  shows "\<exists>s'. delete_pool s = Some s' \<and> pool_gone s' \<and> sy_device s' = sy_device s \<and> sy_link s' = sy_link s \<and>
    gSecureMailbox s' = gSecureMailbox s \<and> gStateFlags (sy_driver s') = gStateFlags (sy_driver s) \<and>
    gDriverKeyName (sy_driver s') = gDriverKeyName (sy_driver s) \<and> gChannel (sy_driver s') = gChannel (sy_driver s) \<and>
    dr_calls (sy_driver s') = dr_calls (sy_driver s) \<and> sy_monitor s' = sy_monitor s"
proof -
  obtain m h where m: "ds_mem (fst (dr_shield (sy_driver s))) = Some m" "gHeap m = Some h" using assms by (auto simp: pool_ready_def)
  show ?thesis by (auto simp: delete_pool_def m MemDone_def pool_gone_def ArenaDone_def set_pool_def upd_driver_def log_events_def)
qed

lemma destroy_mailbox_sel [simp]:
  "mb_Thread (gSecureMailbox (destroy_mailbox s)) = None" "sy_driver (destroy_mailbox s) = sy_driver s" "sy_device (destroy_mailbox s) = sy_device s"
  "sy_link (destroy_mailbox s) = sy_link s" "sy_monitor (destroy_mailbox s) = sy_monitor s"
  by (auto simp: destroy_mailbox_def RtlMailboxDestroy_def RtlMailboxStopWorker_def Let_def log_events_def split: option.split)

lemma free_key_name_sel [simp]:
  "gDriverKeyName (sy_driver (free_key_name s)) = null_string" "gStateFlags (sy_driver (free_key_name s)) = gStateFlags (sy_driver s)"
  "dr_shield (sy_driver (free_key_name s)) = dr_shield (sy_driver s)" "sy_device (free_key_name s) = sy_device s" "sy_link (free_key_name s) = sy_link s"
  "gSecureMailbox (free_key_name s) = gSecureMailbox s" "gChannel (sy_driver (free_key_name s)) = gChannel (sy_driver s)"
  "dr_calls (sy_driver (free_key_name s)) = dr_calls (sy_driver s)" "sy_monitor (free_key_name s) = sy_monitor s"
  by (simp_all add: free_key_name_def DsFreeUnicodeString_def null_string_def)

lemma ClearFlag_off: "\<not> FlagOn f m \<Longrightarrow> ClearFlag f m = f"
proof -
  assume "\<not> FlagOn f m"
  then have "bit (f AND m) n = False" for n by (simp add: FlagOn_def)
  then show ?thesis unfolding ClearFlag_def by (intro bit_word_eqI) (auto simp: bit_and_iff bit_not_iff)
qed

lemma deregister_power_sel [simp]:
  "gStateFlags (sy_driver (deregister_power s)) = ClearFlag (gStateFlags (sy_driver s)) DSH_GFL_POWER_REGISTERED"
  "dr_shield (sy_driver (deregister_power s)) = dr_shield (sy_driver s)" "sy_device (deregister_power s) = sy_device s"
  "sy_link (deregister_power s) = sy_link s" "gSecureMailbox (deregister_power s) = gSecureMailbox s"
  "gDriverKeyName (sy_driver (deregister_power s)) = gDriverKeyName (sy_driver s)" "gChannel (sy_driver (deregister_power s)) = gChannel (sy_driver s)"
  "dr_calls (sy_driver (deregister_power s)) = dr_calls (sy_driver s)" "sy_monitor (deregister_power s) = sy_monitor s"
  by (simp_all add: deregister_power_def flag_on_def ClearFlag_off)

lemma link_device_sel [simp]:
  "sy_driver (delete_link s) = sy_driver s" "sy_device (delete_link s) = sy_device s" "\<not> sy_link (delete_link s)"
  "gSecureMailbox (delete_link s) = gSecureMailbox s" "sy_monitor (delete_link s) = sy_monitor s"
  "sy_driver (delete_device s) = sy_driver s" "\<not> sy_device (delete_device s)" "sy_link (delete_device s) = sy_link s"
  "gSecureMailbox (delete_device s) = gSecureMailbox s" "sy_monitor (delete_device s) = sy_monitor s"
  by (simp_all add: delete_link_def delete_device_def)

text \<open>Everything \<open>DriverEntry\<close> acquires one after the other has been given back.\<close>

definition nothing_left :: "system \<Rightarrow> bool" where
  "nothing_left s \<longleftrightarrow> \<not> sy_device s \<and> \<not> sy_link s \<and> mb_Thread (gSecureMailbox s) = None \<and>
     us_Buffer (gDriverKeyName (sy_driver s)) = None \<and> pool_gone s \<and> \<not> flag_on s DSH_GFL_POWER_REGISTERED \<and>
     \<not> flag_on s DSH_GFL_PROCMON_STARTED \<and> \<not> flag_on s DSH_GFL_SHIELD_INITIALIZED"

lemma cleanup_all:
  assumes "pool_ready s" "\<not> flag_on s DSH_GFL_PROCMON_STARTED" "\<not> flag_on s DSH_GFL_SHIELD_INITIALIZED" "sy_link s \<longrightarrow> lk" "sy_device s \<longrightarrow> dv"
    "mb_Thread (gSecureMailbox s) \<noteq> None \<longrightarrow> mb" "us_Buffer (gDriverKeyName (sy_driver s)) = None \<or> us_Length (gDriverKeyName (sy_driver s)) \<noteq> 0"
  shows "\<exists>s'. entry_cleanup e mb lk dv s = Some s' \<and> nothing_left s' \<and> gStateFlags (sy_driver s') = ClearFlag (gStateFlags (sy_driver s)) DSH_GFL_POWER_REGISTERED"
proof -
  define s1 where "s1 = (let s = deregister_power s;
      s = (if lk then delete_link s else s); s = (if dv then delete_device s else s);
      s = (if us_Length (gDriverKeyName (sy_driver s)) \<noteq> 0 then free_key_name s else s) in if mb then destroy_mailbox s else s)"
  have c: "entry_cleanup e mb lk dv s = delete_pool s1"
    using assms(2,3) by (simp add: entry_cleanup_def finalize_shield_def finalize_monitor_def s1_def Let_def)
  have f: "gStateFlags (sy_driver s1) = ClearFlag (gStateFlags (sy_driver s)) DSH_GFL_POWER_REGISTERED"
    "pool_ready s1" "\<not> sy_link s1" "\<not> sy_device s1" "mb_Thread (gSecureMailbox s1) = None" "us_Buffer (gDriverKeyName (sy_driver s1)) = None"
    using assms(1,4-7) by (auto simp: s1_def Let_def pool_ready_def null_string_def)
  have "\<not> FlagOn (ClearFlag g DSH_GFL_POWER_REGISTERED) x" if "\<not> FlagOn g x" for g x
  proof -
    have "(g AND NOT DSH_GFL_POWER_REGISTERED) AND x = (g AND x) AND NOT DSH_GFL_POWER_REGISTERED" by (simp only: and.assoc and.commute and.left_commute)
    then show ?thesis using that by (simp add: FlagOn_def ClearFlag_def)
  qed
  then show ?thesis using delete_pool_gone [OF f(2)] f assms(2,3) unfolding c by (auto simp: nothing_left_def flag_on_def)
qed

lemma mailbox_failed: "RtlMailboxInitialize pool mem create ref n = (St, mb, fx) \<Longrightarrow> NT_SUCCESS St = (mb_Thread mb \<noteq> None)"
  by (auto simp: RtlMailboxInitialize_def RtlMailboxStartWorker_def RtlMailboxDestroy_def RtlMailboxStopWorker_def Let_def split: option.splits if_splits prod.splits)

section \<open>What a load does\<close>

text \<open>The state before the driver's first load; what the kernel set to zero.\<close>

definition unloaded :: "system \<Rightarrow> bool" where
  "unloaded s \<longleftrightarrow> \<not> sy_device s \<and> \<not> sy_link s \<and> mb_Thread (gSecureMailbox s) = None \<and> ds_mem (fst (dr_shield (sy_driver s))) = None \<and>
     gHvm (fst (dr_shield (sy_driver s))) = None \<and> gChannel (sy_driver s) = None \<and> FirstUse (sy_driver s) \<and> dr_calls (sy_driver s) = []"

definition monitor_init :: "entry_env \<Rightarrow> pm_state \<Rightarrow> (ntstatus \<times> pm_state) option" where
  "monitor_init e = PmInitializeProcessMonitor (en_table e) (en_register e) (en_alloc e) (en_query e) (en_creation e)"

definition mapping_init :: "entry_env \<Rightarrow> mmu_state \<Rightarrow> (ntstatus \<times> mmu_state) option" where
  "mapping_init e = DsInitializeShield (en_slots e) (en_array e) (en_globals e) (en_count e)"

lemmas state_flag_defs = DSH_GFL_SHIELD_INITIALIZED_def DSH_GFL_SHIELD_STARTED_def DSH_GFL_SHIELD_SUSPENDED_def DSH_GFL_CHANNEL_SETUP_def
  DSH_GFL_POWER_REGISTERED_def DSH_GFL_PROCMON_STARTED_def

text \<open>The flags of a driver that is loaded.\<close>

definition loaded_flags :: "bool \<Rightarrow> bool \<Rightarrow> u32" where
  "loaded_flags Registered Mapped = DSH_GFL_PROCMON_STARTED OR (if Registered then DSH_GFL_POWER_REGISTERED else 0) OR (if Mapped then DSH_GFL_SHIELD_INITIALIZED else 0)"

lemma entry_device_result:
  assumes s: "pool_ready s" "gStateFlags (sy_driver s) = 0" "\<not> sy_device s" "\<not> sy_link s" "us_Length (gDriverKeyName (sy_driver s)) \<noteq> 0"
    and m: "monitor_init e (sy_monitor s) = Some (Pst, P)" and g: "mapping_init e (sy_mmu s) = Some (Gst, G)"
  shows "\<exists>St s'. entry_device e s = Some (St, s') \<and>
    (if NT_SUCCESS St
     then NT_SUCCESS (en_device e) \<and> NT_SUCCESS (en_link e) \<and> NT_SUCCESS Pst \<and> sy_device s' \<and> sy_link s' \<and> gSecureMailbox s' = gSecureMailbox s \<and>
       sy_monitor s' = P \<and> sy_mmu s' = G \<and> sy_cpu s' = sy_cpu s \<and>
       sy_driver s' = (sy_driver s)\<lparr>gStateFlags := loaded_flags (gPowerRegistration s' \<noteq> 0) (NT_SUCCESS Gst)\<rparr>
     else nothing_left s')"
proof -
  have off: "\<not> flag_on s f" for f by (simp add: flag_on_def FlagOn_def s(2))
  note c = cleanup_all [where e = e]
  define s1 where "s1 = log_events [CreateDevice] (s\<lparr>sy_device := True\<rparr>)"
  obtain h ev where h: "DsRegisterPowerChangeCallback (en_callback e) (en_handle e) = (h, ev)" by fastforce
  define s2 where "s2 = log_events [CreateLink] (s1\<lparr>sy_link := True\<rparr>)"
  define s3 where "s3 = log_events (map PowerEvent ev) (s2\<lparr>gPowerRegistration := h\<rparr>)"
  define s4 where "s4 = (if h \<noteq> 0 then upd_driver (set_flag DSH_GFL_POWER_REGISTERED) s3 else s3)"
  have d: "sy_driver s1 = sy_driver s" "sy_driver s2 = sy_driver s" "sy_driver s3 = sy_driver s" "sy_monitor s4 = sy_monitor s" "sy_mmu s4 = sy_mmu s"
    "gPowerRegistration s4 = h" "sy_cpu s4 = sy_cpu s" "sy_device s4" "sy_link s4" "gSecureMailbox s4 = gSecureMailbox s" "gPowerRegistration s3 = h"
    "sy_driver s4 = (sy_driver s)\<lparr>gStateFlags := (if h \<noteq> 0 then DSH_GFL_POWER_REGISTERED else 0)\<rparr>"
    by (simp_all add: s1_def s2_def s3_def s4_def set_flag_def SetFlag_def s(2))
  have pr: "pool_ready s1" "pool_ready (s4\<lparr>sy_monitor := P\<rparr>)" using s(1) by (simp_all add: pool_ready_def d)
  have k: "us_Length (gDriverKeyName (sy_driver s1)) \<noteq> 0" "us_Length (gDriverKeyName (sy_driver s4)) \<noteq> 0" using s(5) by (simp_all add: d)
  have o1: "\<not> flag_on s1 f" for f using off [of f] by (simp add: flag_on_def d)
  have o4: "\<not> flag_on (s4\<lparr>sy_monitor := P\<rparr>) DSH_GFL_PROCMON_STARTED" "\<not> flag_on (s4\<lparr>sy_monitor := P\<rparr>) DSH_GFL_SHIELD_INITIALIZED"
    by (simp_all add: flag_on_def FlagOn_def d state_flag_defs)
  note E = entry_device_def [of e s, unfolded h Let_def prod.case, folded s1_def, folded s2_def, folded s3_def, unfolded d(11), folded s4_def]
  have e: "entry_device e s =
     (if \<not> NT_SUCCESS (en_device e) then entry_exit e True False False (en_device e) s
      else if \<not> NT_SUCCESS (en_link e) then entry_exit e True False True (en_link e) s1
      else if \<not> NT_SUCCESS Pst then entry_exit e True True True Pst (s4\<lparr>sy_monitor := P\<rparr>)
      else if \<not> NT_SUCCESS Gst then entry_exit e True True True STATUS_SUCCESS ((upd_driver (set_flag DSH_GFL_PROCMON_STARTED) (s4\<lparr>sy_monitor := P\<rparr>))\<lparr>sy_mmu := G\<rparr>)
      else entry_exit e True True True Gst (upd_driver (set_flag DSH_GFL_SHIELD_INITIALIZED)
        ((upd_driver (set_flag DSH_GFL_PROCMON_STARTED) (s4\<lparr>sy_monitor := P\<rparr>))\<lparr>sy_mmu := G\<rparr>)))"
    using m g by (simp add: E monitor_init_def mapping_init_def d(4,5))
  consider "\<not> NT_SUCCESS (en_device e)" | "NT_SUCCESS (en_device e)" "\<not> NT_SUCCESS (en_link e)"
    | "NT_SUCCESS (en_device e)" "NT_SUCCESS (en_link e)" "\<not> NT_SUCCESS Pst" | "NT_SUCCESS (en_device e)" "NT_SUCCESS (en_link e)" "NT_SUCCESS Pst" by blast
  then show ?thesis
  proof cases
    case 1
    then show ?thesis using c [OF s(1) off off, where mb = True and lk = False and dv = False] s(3-5) by (auto simp: e entry_exit_def)
  next
    case 2
    moreover have "\<not> sy_link s1" using s(4) by (simp add: s1_def)
    ultimately show ?thesis using c [OF pr(1) o1 o1, where mb = True and lk = False and dv = True] k by (auto simp: e entry_exit_def)
  next
    case 3
    then show ?thesis using c [OF pr(2) o4, where mb = True and lk = True and dv = True] k by (auto simp: e entry_exit_def)
  next
    case 4
    have fl: "SetFlag DSH_GFL_POWER_REGISTERED DSH_GFL_PROCMON_STARTED = loaded_flags True False"
      "SetFlag 0 DSH_GFL_PROCMON_STARTED = loaded_flags False False"
      "SetFlag (loaded_flags b False) DSH_GFL_SHIELD_INITIALIZED = loaded_flags b True" for b
      by (simp_all add: loaded_flags_def SetFlag_def state_flag_defs)
    show ?thesis
    proof (cases "NT_SUCCESS Gst")
      case True
      then show ?thesis using 4 by (auto simp: e entry_exit_def d set_flag_def fl)
    next
      case False
      then show ?thesis using 4 by (auto simp: e entry_exit_def d set_flag_def fl)
    qed
  qed
qed

lemma clone_result:
  assumes "DsCloneUnicodeString pool R = (St, str)" "us_Buffer R \<noteq> None" "us_Length R \<noteq> 0"
  shows "if NT_SUCCESS St then us_Length str \<noteq> 0 \<and> us_Length str = us_Length R \<and> us_Buffer str \<noteq> None else us_Buffer str = None"
  using assms by (auto simp: DsCloneUnicodeString_def DsAllocateUnicodeString_def RtlCopyUnicodeString_def null_string_def Let_def
      split: if_splits option.splits prod.splits)

lemma mem_init_result:
  assumes "MemInit pages base protect B data s n = (St, m, ev)"
  shows "if NT_SUCCESS St then gHeap m \<noteq> None else gMemoryArena m = zero_arena"
  using assms by (auto simp: MemInit_def ArenaInit_def ArenaDone_def zero_arena_def Let_def split: option.splits if_splits prod.splits)

text \<open>The stages before the device: a failure gives everything back, otherwise \<open>entry_device\<close> goes on.\<close>

lemma entry_stages:
  assumes "unloaded s" "us_Buffer RegistryPath \<noteq> None" "us_Length RegistryPath \<noteq> 0"
    and f: "DsInitializeVmxFeature (en_win10 e) (en_integrity e) (sy_cpu s) = (F, c2)"
  shows "(\<exists>Status s'. DriverEntry e RegistryPath s = Some (Status, s') \<and> \<not> NT_SUCCESS Status \<and> nothing_left s') \<or>
    (\<exists>d. DriverEntry e RegistryPath s = entry_device e d \<and> pool_ready d \<and> \<not> sy_device d \<and> \<not> sy_link d \<and>
       gStateFlags (sy_driver d) = 0 \<and> sy_monitor d = sy_monitor s \<and> sy_mmu d = sy_mmu s \<and> sy_cpu d = c2 \<and>
       mb_Thread (gSecureMailbox d) \<noteq> None \<and> gVmxFeature (sy_driver d) = F \<and> gHvm (fst (dr_shield (sy_driver d))) = None \<and>
       gChannel (sy_driver d) = None \<and> FirstUse (sy_driver d) \<and> dr_calls (sy_driver d) = [] \<and>
       us_Length (gDriverKeyName (sy_driver d)) = us_Length RegistryPath)"
proof -
  define d where "d = (upd_driver (\<lambda>d. d\<lparr>gVmxFeature := F\<rparr>) ((upd_driver (\<lambda>d. d\<lparr>gStateFlags := 0, gDriverKeyName := null_string\<rparr>) s)
      \<lparr>gSystemPageDirectoryTable := cpu_cr3 (sy_cpu s)\<rparr>))\<lparr>sy_cpu := c2, gVmState := fe_VmState F\<rparr>"
  have n: "ds_mem (fst (dr_shield (sy_driver s))) = None" using assms(1) by (simp add: unloaded_def)
  obtain St m ev where mi: "MemInit (en_pages e) (en_base e) (en_protect e) (en_blocks e) (en_data e)
      \<lparr>gMemoryArena = zero_arena, gHeap = None\<rparr> (256 * 4096) = (St, m, ev)" by (rule prod_cases3)
  define d2 where "d2 = log_events (map ArenaEvent ev) (set_pool m d)"
  obtain Mst mb fx where mb: "RtlMailboxInitialize (en_pool e) (en_poolmem e) (en_thread e) (en_reference e) MAILBOX_POOL_DEFAULT_SIZE = (Mst, mb, fx)"
    by (rule prod_cases3)
  define d3 where "d3 = log_events (map MailboxEvent fx) (d2\<lparr>gSecureMailbox := mb\<rparr>)"
  obtain Cst str where cl: "DsCloneUnicodeString (en_string e) RegistryPath = (Cst, str)" by fastforce
  define d4 where "d4 = upd_driver (\<lambda>d. d\<lparr>gDriverKeyName := str\<rparr>) d3"
  have h: "sy_cpu ((upd_driver (\<lambda>d. d\<lparr>gStateFlags := 0, gDriverKeyName := null_string\<rparr>) s)\<lparr>gSystemPageDirectoryTable := cpu_cr3 x\<rparr>) = sy_cpu s"
    "sy_cpu (upd_driver (\<lambda>d. d\<lparr>gStateFlags := 0, gDriverKeyName := null_string\<rparr>) s) = sy_cpu s" for x by simp_all
  have h2: "ds_mem (fst (dr_shield (sy_driver d))) = None" using n by (simp add: d_def)
  have E: "DriverEntry e RegistryPath s = (if \<not> NT_SUCCESS St then Some (St, d2) else if \<not> NT_SUCCESS Mst then entry_exit e False False False Mst d3
      else if \<not> NT_SUCCESS Cst then entry_exit e True False False Cst d4 else entry_device e d4)"
    by (rule DriverEntry_def [of e RegistryPath s, unfolded Let_def h f prod.case, folded d_def, unfolded h2 option.case mi prod.case, folded d2_def,
        unfolded mb prod.case, folded d3_def, unfolded cl prod.case, folded d4_def])
  have S: "sy_device d4 = False" "sy_link d4 = False" "gStateFlags (sy_driver d4) = 0" "sy_monitor d4 = sy_monitor s" "sy_mmu d4 = sy_mmu s"
    "gSecureMailbox d4 = mb" "gDriverKeyName (sy_driver d4) = str" "sy_cpu d4 = c2" "gVmxFeature (sy_driver d4) = F"
    "gHvm (fst (dr_shield (sy_driver d4))) = None" "gChannel (sy_driver d4) = None" "FirstUse (sy_driver d4)" "dr_calls (sy_driver d4) = []"
    "ds_mem (fst (dr_shield (sy_driver d4))) = Some m"
    "sy_device d3 = False" "sy_link d3 = False" "gStateFlags (sy_driver d3) = 0" "gSecureMailbox d3 = mb" "gDriverKeyName (sy_driver d3) = null_string"
    "ds_mem (fst (dr_shield (sy_driver d3))) = Some m"
    "sy_device d2 = False" "sy_link d2 = False" "gStateFlags (sy_driver d2) = 0" "mb_Thread (gSecureMailbox d2) = None"
    "gDriverKeyName (sy_driver d2) = null_string" "ds_mem (fst (dr_shield (sy_driver d2))) = Some m"
    using assms(1) by (simp_all add: d_def d2_def d3_def d4_def unloaded_def)
  have fl: "\<not> flag_on d2 x" "\<not> flag_on d3 x" "\<not> flag_on d4 x" for x using S by (simp_all add: flag_on_def FlagOn_def)
  note M = mem_init_result [OF mi] and B = mailbox_failed [OF mb] and C = clone_result [OF cl assms(2,3)]
  consider "\<not> NT_SUCCESS St" | "NT_SUCCESS St" "\<not> NT_SUCCESS Mst" | "NT_SUCCESS St" "NT_SUCCESS Mst" "\<not> NT_SUCCESS Cst"
    | "NT_SUCCESS St" "NT_SUCCESS Mst" "NT_SUCCESS Cst" by blast
  then show ?thesis
  proof cases
    case 1
    then show ?thesis using M S fl by (auto simp: E nothing_left_def pool_gone_def null_string_def)
  next
    case 2
    have "pool_ready d3" using M 2(1) S by (auto simp: pool_ready_def)
    then show ?thesis using cleanup_all [where s = d3 and mb = False and lk = False and dv = False and e = e] 2 B S fl
      by (auto simp: E entry_exit_def null_string_def)
  next
    case 3
    have "pool_ready d4" using M 3(1) S by (auto simp: pool_ready_def)
    then show ?thesis using cleanup_all [where s = d4 and mb = True and lk = False and dv = False and e = e] 3 C S fl
      by (auto simp: E entry_exit_def)
  next
    case 4
    then have "pool_ready d4" using M S by (auto simp: pool_ready_def)
    then show ?thesis using 4 B C S by (intro disjI2 exI [of _ d4]) (simp add: E)
  qed
qed

lemma loaded_driver_init:
  assumes "gHvm (fst (dr_shield d)) = None" "gChannel d = None" "FirstUse d" "dr_calls d = []"
  shows "driver_init (hv_shield c M Verify) (d\<lparr>gStateFlags := loaded_flags x y\<rparr>)"
proof -
  have "loaded_flags x y AND (DSH_GFL_SHIELD_STARTED OR DSH_GFL_SHIELD_SUSPENDED OR DSH_GFL_CHANNEL_SETUP) = 0"
    by (simp add: loaded_flags_def state_flag_defs)
  then show ?thesis using assms
    by (simp add: driver_init_def hv_shield_def DsIsShieldRunning_def DsIsHvmLaunched_def DsIsHvmInitialized_def)
qed


section \<open>What an unload does\<close>

lemma monitor_finalized:
  assumes "monitor_inv m B"
  shows "\<exists>m'. PmFinalizeProcessMonitor m = Some m'"
proof -
  have "monitor_inv (m\<lparr>pm_notify := False\<rparr>) B" using assms by (simp add: monitor_inv_def)
  from clear_table [OF this] show ?thesis by (simp add: PmFinalizeProcessMonitor_def PmDeleteProcessTable_def)
qed

lemma FlagOn_ClearFlag: "FlagOn (ClearFlag f m) x \<Longrightarrow> FlagOn f x"
proof -
  assume a: "FlagOn (ClearFlag f m) x"
  have "(f AND NOT m) AND x = (f AND x) AND NOT m" by (simp only: and.assoc and.commute and.left_commute)
  then show "FlagOn f x" using a by (auto simp: FlagOn_def ClearFlag_def)
qed

lemma FlagOn_ClearFlag_apart: "m AND x = 0 \<Longrightarrow> FlagOn (ClearFlag f m) x = FlagOn f x"
proof -
  assume a: "m AND x = 0"
  have "bit (m AND x) n = False" for n using a by simp
  then have "f AND NOT m AND x = f AND x" by (intro bit_word_eqI) (auto simp: bit_and_iff bit_not_iff)
  then show ?thesis by (simp add: FlagOn_def ClearFlag_def and.assoc)
qed

lemma delete_channel_keeps:
  "dr_shield (delete_channel R d) = dr_shield d" "gDriverKeyName (delete_channel R d) = gDriverKeyName d"
  "m AND DSH_GFL_CHANNEL_SETUP = 0 \<Longrightarrow> FlagOn (gStateFlags (delete_channel R d)) m = FlagOn (gStateFlags d) m"
  by (auto simp: delete_channel_def clear_flag_def FlagOn_ClearFlag_apart and.commute split: option.split)

lemma unload_rest_result:
  assumes "channel_inv (sy_driver s)" "pool_ready s" "flag_on s DSH_GFL_SHIELD_INITIALIZED \<longrightarrow> ms_maps (sy_mmu s) \<noteq> None"
    "flag_on s DSH_GFL_PROCMON_STARTED \<longrightarrow> monitor_inv (sy_monitor s) B"
  shows "\<exists>s'. unload_rest e s = Some s' \<and> nothing_left s' \<and> gChannel (sy_driver s') = None \<and>
    opens (dr_calls (sy_driver s')) \<subseteq># closes (dr_calls (sy_driver s'))"
proof -
  have ne: "DSH_GFL_SHIELD_INITIALIZED AND DSH_GFL_PROCMON_STARTED = 0" "DSH_GFL_SHIELD_INITIALIZED AND DSH_GFL_CHANNEL_SETUP = 0"
    "DSH_GFL_PROCMON_STARTED AND DSH_GFL_CHANNEL_SETUP = 0" "DSH_GFL_POWER_REGISTERED AND DSH_GFL_CHANNEL_SETUP = 0"
    by (simp_all add: state_flag_defs)
  obtain s1 where s1: "finalize_shield e s = Some s1" "\<not> flag_on s1 DSH_GFL_SHIELD_INITIALIZED" "sy_monitor s1 = sy_monitor s"
    "flag_on s1 DSH_GFL_PROCMON_STARTED = flag_on s DSH_GFL_PROCMON_STARTED" "channel_inv (sy_driver s1)" "pool_ready s1"
  proof (cases "flag_on s DSH_GFL_SHIELD_INITIALIZED")
    case True
    then obtain m where m: "DsFinalizeShield (en_count e) (sy_mmu s) = Some m" using assms(3) by (auto simp: DsFinalizeShield_def MmuFinalize_def Let_def)
    let ?s = "(upd_driver (clear_flag DSH_GFL_SHIELD_INITIALIZED) s)\<lparr>sy_mmu := m\<rparr>"
    have "channel_inv (clear_flag DSH_GFL_SHIELD_INITIALIZED (sy_driver s)) = channel_inv (sy_driver s)"
      by (rule channel_inv_cong) (simp_all add: FlagOn_ClearFlag_apart ne)
    then show ?thesis using that [of ?s] m True assms(1,2)
      by (simp add: finalize_shield_def flag_on_def FlagOn_ClearFlag_apart ne pool_ready_def)
  next
    case False
    then show ?thesis using that [of s] assms by (simp add: finalize_shield_def)
  qed
  obtain s2 where s2: "finalize_monitor s1 = Some s2" "\<not> flag_on s2 DSH_GFL_SHIELD_INITIALIZED" "\<not> flag_on s2 DSH_GFL_PROCMON_STARTED"
    "channel_inv (sy_driver s2)" "pool_ready s2"
  proof (cases "flag_on s1 DSH_GFL_PROCMON_STARTED")
    case True
    then obtain m where m: "PmFinalizeProcessMonitor (sy_monitor s1) = Some m" using assms(4) s1(3,4) monitor_finalized by auto
    let ?s = "(upd_driver (clear_flag DSH_GFL_PROCMON_STARTED) s1)\<lparr>sy_monitor := m\<rparr>"
    have "channel_inv (clear_flag DSH_GFL_PROCMON_STARTED (sy_driver s1)) = channel_inv (sy_driver s1)"
      by (rule channel_inv_cong) (simp_all add: FlagOn_ClearFlag_apart ne)
    then show ?thesis using that [of ?s] m True s1(2,5,6)
      by (auto simp: finalize_monitor_def flag_on_def pool_ready_def dest: FlagOn_ClearFlag)
  next
    case False
    then show ?thesis using that [of s1] s1 by (simp add: finalize_monitor_def)
  qed
  define s3 where "s3 = deregister_power s2"
  have i3: "channel_inv (sy_driver s3)"
    using s2(4) channel_inv_cong [of "sy_driver s3" "sy_driver s2"]
    by (auto simp: s3_def deregister_power_def FlagOn_ClearFlag_apart ne)
  define s4 where "s4 = (if flag_on s3 DSH_GFL_CHANNEL_SETUP then upd_driver (delete_channel UnloadDriverReason) s3 else s3)"
  have i4: "channel_inv (sy_driver s4)" using i3 delete_channel_inv [OF i3] by (simp add: s4_def)
  have c4: "gChannel (sy_driver s4) = None" using i3 by (auto simp: s4_def delete_channel_sel channel_inv_def flag_on_def split: option.splits)
  have f4: "\<not> flag_on s4 DSH_GFL_SHIELD_INITIALIZED" "\<not> flag_on s4 DSH_GFL_PROCMON_STARTED" "\<not> flag_on s4 DSH_GFL_POWER_REGISTERED"
    using s2(2,3) by (auto simp: s4_def s3_def flag_on_def delete_channel_keeps ne dest: FlagOn_ClearFlag)
  have p4: "pool_ready (destroy_mailbox (free_key_name (delete_device (delete_link s4))))"
    using s2(5) by (auto simp: pool_ready_def s4_def s3_def delete_channel_keeps)
  have "unload_rest e s = delete_pool (destroy_mailbox (free_key_name (delete_device (delete_link s4))))"
    using s1(1) s2(1) by (simp add: unload_rest_def Let_def s3_def s4_def)
  then show ?thesis using delete_pool_gone [OF p4] f4 c4 i4
    by (auto simp: nothing_left_def flag_on_def null_string_def channel_inv_def)
qed


section \<open>Examples\<close>

definition example_system :: "u32 \<Rightarrow> mem_state option \<Rightarrow> system" where
  "example_system flags pool = \<lparr>sy_cpu = example_cpu False, gSystemPageDirectoryTable = 0, gVmState = None,
     sy_driver = (example_dr flags)\<lparr>dr_shield := (example_driver\<lparr>ds_mem := pool\<rparr>, \<lambda>_. example_off)\<rparr>,
     gSecureMailbox = mailbox_example\<lparr>mb_Thread := (if pool = None then None else Some 99)\<rparr>,
     sy_monitor = mon_example, sy_mmu = example_mmu\<lparr>ms_maps := Some (\<lambda>_. zero_mapping)\<rparr>, gPowerRegistration = 7,
     sy_device = (pool \<noteq> None), sy_link = (pool \<noteq> None), sy_memory = (\<lambda>_. 0), sy_events = []\<rparr>"

text \<open>The table of processes is refused unless \<open>ok\<close>.\<close>

definition example_entry :: "bool \<Rightarrow> entry_env" where
  "example_entry ok = \<lparr>en_win10 = True, en_integrity = (STATUS_SUCCESS, 1),
     en_pages = (\<lambda>k. Some \<lparr>mdl_pfns = replicate 256 5, mdl_ByteCount = k, mdl_VirtualAddress = 0\<rparr>), en_base = 0x100000, en_protect = STATUS_SUCCESS,
     en_blocks = zero_headers, en_data = (\<lambda>_. 0), en_pool = Some 4096, en_poolmem = (\<lambda>_. 0), en_thread = STATUS_SUCCESS, en_reference = (STATUS_SUCCESS, 99),
     en_string = Some (0x9000, [0]), en_device = STATUS_SUCCESS, en_link = STATUS_SUCCESS, en_callback = STATUS_SUCCESS, en_handle = 7,
     en_table = ok, en_register = STATUS_SUCCESS, en_alloc = (\<lambda>_. True),
     en_query = (\<lambda>_. (STATUS_SUCCESS, 0, snapshot_example)), en_creation = (\<lambda>_. env_example),
     en_slots = (\<lambda>_. \<lparr>se_mdl = True, se_lock = True, se_va = 0\<rparr>), en_array = False, en_globals = example_globals, en_count = 1\<rparr>"



end
