(* ===== verification/Rdtsc_Tests.thy ===== *)
theory Rdtsc_Tests
  imports Tsc_Props Driver
begin

text \<open>
  The test cases that the driver runs on request (\<open>tests.c\<close>): they drive the detection of
  \<open>tsc.c\<close> with a table of their own.  The virtual machine control structure and the mailbox that
  the detection uses are those of the processor the request runs on.
\<close>

section \<open>The state of a test\<close>

text \<open>\<open>tv_rdtsc k\<close> is the time stamp read number \<open>k\<close>, \<open>tv_pool k\<close> whether allocation number \<open>k\<close> succeeds.\<close>

record test_env =
  tv_hv :: hv_env
  tv_rdtsc :: "nat \<Rightarrow> u64"
  tv_pool :: "nat \<Rightarrow> bool"

text \<open>\<open>ts_table\<close> is \<open>Context->TscHits\<close>, \<open>ts_live\<close> the number of pool blocks the tests hold.\<close>

record test_state =
  ts_hv :: hv_state
  ts_table :: "tsc_entry list"
  gCurrentTsc :: u64
  ts_clock :: nat
  ts_pools :: nat
  ts_live :: nat

definition rdtsc :: "test_env \<Rightarrow> test_state \<Rightarrow> u64 \<times> test_state" where
  "rdtsc e s = (tv_rdtsc e (ts_clock s), s\<lparr>ts_clock := ts_clock s + 1\<rparr>)"

definition RandomInt :: "test_env \<Rightarrow> test_state \<Rightarrow> u64 \<times> test_state" where
  "RandomInt e s =
     (let (TimeStampA, s) = rdtsc e s;
          (TimeStampB, s) = rdtsc e s
      in (TimeStampA * NOT TimeStampB, s))"

definition CreateTscHash :: "test_env \<Rightarrow> test_state \<Rightarrow> u64 \<times> test_state" where
  "CreateTscHash e s =
     (let (ProcessId, s) = RandomInt e s;
          (ThreadId, s) = RandomInt e s
      in (push_bit 32 ProcessId OR ThreadId, s))"

definition CreateLocalContext :: "test_env \<Rightarrow> test_state \<Rightarrow> bool \<times> test_state" where
  "CreateLocalContext e s =
     (if \<not> tv_pool e (ts_pools s) then (False, s\<lparr>ts_pools := ts_pools s + 1\<rparr>)
      else if \<not> tv_pool e (ts_pools s + 1) then (False, s\<lparr>ts_pools := ts_pools s + 2\<rparr>)
      else (True, s\<lparr>ts_pools := ts_pools s + 2, ts_live := ts_live s + 2, ts_table := replicate MAX_TSC_HITS zero_tsc_entry\<rparr>))"

definition DestroyLocalContext :: "test_state \<Rightarrow> test_state" where
  "DestroyLocalContext s = s\<lparr>ts_live := ts_live s - 2, ts_table := []\<rparr>"

section \<open>Hits\<close>

definition CONSTANT_TSC :: u64 where "CONSTANT_TSC = 0x600"

definition AddGlobalTsc :: "u64 \<Rightarrow> test_state \<Rightarrow> test_state" where
  "AddGlobalTsc Value s = s\<lparr>gCurrentTsc := gCurrentTsc s + Value\<rparr>"

text \<open>The registers that receive the time stamp belong to the test and are not read.\<close>

definition RdtscEmulateTester :: "test_env \<Rightarrow> u64 \<Rightarrow> test_state \<Rightarrow> test_state option" where
  "RdtscEmulateTester e Rip s =
     map_option (\<lambda>(attack, h). s\<lparr>ts_hv := h\<lparr>hv_tsc := hv_tsc (ts_hv s)\<rparr>, ts_table := hv_tsc h\<rparr>)
       (TdProcessTscEvent (tv_hv e) Rip (gCurrentTsc s) ((ts_hv s)\<lparr>hv_tsc := ts_table s\<rparr>))"

text \<open>The hash is only replaced when it is zero; nothing else reads it.\<close>

definition AddTimeStampHit :: "test_env \<Rightarrow> u64 \<Rightarrow> u64 \<Rightarrow> u64 \<Rightarrow> test_state \<Rightarrow> test_state option" where
  "AddTimeStampHit e TscHash Address Delta s =
     (let s = (if TscHash = 0 then snd (CreateTscHash e s) else s)
      in RdtscEmulateTester e Address (AddGlobalTsc Delta s))"

fun FillWithSiblings :: "test_env \<Rightarrow> nat list \<Rightarrow> test_state \<Rightarrow> test_state option" where
  "FillWithSiblings e [] s = Some s"
| "FillWithSiblings e (i # is) s =
     (let (TscHash, s) = CreateTscHash e s
      in Option.bind (AddTimeStampHit e TscHash (0x7F0093E0 OR push_bit 16 (of_nat i)) CONSTANT_TSC s) (\<lambda>s.
         Option.bind (AddTimeStampHit e TscHash (0x7F0093E6 OR push_bit 16 (of_nat i)) CONSTANT_TSC s) (FillWithSiblings e is)))"

section \<open>The test cases\<close>

definition TestSuccess :: u32 where "TestSuccess = 0"
definition TestErrorNoMemory :: u32 where "TestErrorNoMemory = 1"
definition TestErrorRequestInvalid :: u32 where "TestErrorRequestInvalid = 2"
definition TestErrorDetectionFailed :: u32 where "TestErrorDetectionFailed = 3"
definition TestErrorReuse :: u32 where "TestErrorReuse = 4"
definition TestErrorSkipping :: u32 where "TestErrorSkipping = 5"
definition TestErrorDifference :: u32 where "TestErrorDifference = 6"

lemmas test_result_defs = TestSuccess_def TestErrorNoMemory_def TestErrorRequestInvalid_def TestErrorDetectionFailed_def
  TestErrorReuse_def TestErrorSkipping_def TestErrorDifference_def

fun check_siblings :: "tsc_entry list \<Rightarrow> u32 option" where
  "check_siblings [] = None"
| "check_siblings (Entry # Es) =
     (if th_Address (te_Before Entry) = 0 \<or> th_Address (te_After Entry) = 0 then Some TestErrorReuse
      else if 0 < te_Skips Entry then Some TestErrorSkipping
      else if te_Difference Entry \<noteq> CONSTANT_TSC then Some TestErrorDifference
      else check_siblings Es)"

definition find_hash :: "tsc_entry list \<Rightarrow> u64 \<Rightarrow> u32" where
  "find_hash TscHits TscHash =
     (case List.find (\<lambda>i. te_TscHash (TscHits ! i) = TscHash) [0..<MAX_TSC_HITS] of
        None \<Rightarrow> TestErrorDetectionFailed
      | Some i \<Rightarrow> if i \<noteq> 0 then TestErrorReuse else TestSuccess)"

text \<open>The three returns of the first loop do not free the context.\<close>

definition TestBasicTimeStampDetectionReuse :: "test_env \<Rightarrow> test_state \<Rightarrow> (u32 \<times> test_state) option" where
  "TestBasicTimeStampDetectionReuse e s =
     (let (Context, s) = CreateLocalContext e s
      in if \<not> Context then Some (TestErrorNoMemory, s)
         else let (t, s) = rdtsc e s; s = s\<lparr>gCurrentTsc := t\<rparr>
              in Option.bind (FillWithSiblings e [0..<MAX_TSC_HITS] s) (\<lambda>s.
                 case check_siblings (ts_table s) of
                   Some Result \<Rightarrow> Some (Result, s)
                 | None \<Rightarrow>
                     let (TscHash, s) = CreateTscHash e s
                     in map_option (\<lambda>s. (find_hash (ts_table s) TscHash, DestroyLocalContext s))
                          (AddTimeStampHit e TscHash 0x7FF6AEE0 0x600 s)))"

text \<open>The loop that looks for a candidate in the table.\<close>

fun find_candidate :: "test_env \<Rightarrow> nat list \<Rightarrow> test_state \<Rightarrow> u32 \<times> test_state" where
  "find_candidate e [] s = (TestErrorDetectionFailed, s)"
| "find_candidate e (i # is) s =
     (let (b, h) = TdIsTimingCandidate (tv_hv e) i ((ts_hv s)\<lparr>hv_tsc := ts_table s\<rparr>);
          s = s\<lparr>ts_hv := h\<lparr>hv_tsc := hv_tsc (ts_hv s)\<rparr>, ts_table := hv_tsc h\<rparr>
      in if b then (TestSuccess, s) else find_candidate e is s)"

definition finish_test :: "test_env \<Rightarrow> test_state \<Rightarrow> u32 \<times> test_state" where
  "finish_test e s = (let (Result, s) = find_candidate e [0..<MAX_TSC_HITS] s in (Result, DestroyLocalContext s))"

text \<open>\<open>Addition\<close> has 32 bits.\<close>

definition skip_addition :: "test_env \<Rightarrow> nat \<Rightarrow> test_state \<Rightarrow> u32 \<times> test_state" where
  "skip_addition e i s =
     (let (t, s) = rdtsc e s
      in (ucast ((if 0 < i \<and> i mod 30 = 0 then CONSTANT_TSC * 9 else CONSTANT_TSC) + (t AND 0xFF)), s))"

fun skip_loop :: "test_env \<Rightarrow> nat list \<Rightarrow> test_state \<Rightarrow> test_state option" where
  "skip_loop e [] s = Some s"
| "skip_loop e (i # is) s =
     (let (Addition, s) = skip_addition e i s
      in Option.bind (RdtscEmulateTester e 0x7FF6AEE0 (AddGlobalTsc (ucast Addition) s)) (\<lambda>s.
         let (Addition, s) = skip_addition e i s
         in Option.bind (RdtscEmulateTester e 0x7FF6AEE6 (AddGlobalTsc (ucast Addition) s)) (skip_loop e is)))"

definition TestBasicTimeStampDetectionWithSkip :: "test_env \<Rightarrow> test_state \<Rightarrow> (u32 \<times> test_state) option" where
  "TestBasicTimeStampDetectionWithSkip e s =
     (let (Context, s) = CreateLocalContext e s
      in if \<not> Context then Some (TestErrorNoMemory, s)
         else let (t, s) = rdtsc e s; (TscHash, s) = CreateTscHash e (s\<lparr>gCurrentTsc := t\<rparr>)
              in map_option (finish_test e) (skip_loop e [0..<256] s))"

fun boundary_loop :: "test_env \<Rightarrow> nat \<Rightarrow> test_state \<Rightarrow> test_state option" where
  "boundary_loop e 0 s = Some s"
| "boundary_loop e (Suc n) s =
     Option.bind (RdtscEmulateTester e 0x7F7FFFFE (AddGlobalTsc 300 s)) (\<lambda>s.
     Option.bind (RdtscEmulateTester e 0x7F800003 (AddGlobalTsc 300 s)) (boundary_loop e n))"

definition TestRdtscInstructionBoundaries :: "test_env \<Rightarrow> test_state \<Rightarrow> (u32 \<times> test_state) option" where
  "TestRdtscInstructionBoundaries e s =
     (let (Context, s) = CreateLocalContext e s
      in if \<not> Context then Some (TestErrorNoMemory, s)
         else let (TscHash, s) = CreateTscHash e s
              in map_option (finish_test e) (boundary_loop e 256 s))"

fun basic_loop :: "test_env \<Rightarrow> nat list \<Rightarrow> test_state \<Rightarrow> test_state option" where
  "basic_loop e [] s = Some s"
| "basic_loop e (i # is) s =
     Option.bind (if i mod 6 = 0
        then Option.bind (RdtscEmulateTester e 0x7FF6AEE0 (AddGlobalTsc 300 s)) (\<lambda>s.
             RdtscEmulateTester e 0x7FF6AEE6 (AddGlobalTsc 300 s))
        else Some s) (\<lambda>s.
     let (t, s) = rdtsc e s; Low = t AND 0xFFFF
     in Option.bind (RdtscEmulateTester e (0x7FF70000 OR Low) (AddGlobalTsc Low s)) (basic_loop e is))"

definition TestBasicTimeStampDetection :: "test_env \<Rightarrow> test_state \<Rightarrow> (u32 \<times> test_state) option" where
  "TestBasicTimeStampDetection e s =
     (let (Context, s) = CreateLocalContext e s
      in if \<not> Context then Some (TestErrorNoMemory, s)
         else let (TscHash, s) = CreateTscHash e s
              in map_option (finish_test e) (basic_loop e [0..<256 * 6] s))"

section \<open>The request\<close>

definition TestBasicRdtscDetection :: u32 where "TestBasicRdtscDetection = 1"
definition TestBasicRdtscDetectionWithSkip :: u32 where "TestBasicRdtscDetectionWithSkip = 2"
definition TestRdtscDetectionReuse :: u32 where "TestRdtscDetectionReuse = 3"
definition TestInstructionBoundaries :: u32 where "TestInstructionBoundaries = 5"

lemmas test_request_defs = TestBasicRdtscDetection_def TestBasicRdtscDetectionWithSkip_def TestRdtscDetectionReuse_def
  TestInstructionBoundaries_def

text \<open>The buffer holds the request and then the result.\<close>

definition run_test :: "test_env \<Rightarrow> u32 \<Rightarrow> test_state \<Rightarrow> (u32 \<times> test_state) option" where
  "run_test e Req s =
     (if Req = TestBasicRdtscDetection then TestBasicTimeStampDetection e s
      else if Req = TestBasicRdtscDetectionWithSkip then TestBasicTimeStampDetectionWithSkip e s
      else if Req = TestRdtscDetectionReuse then TestBasicTimeStampDetectionReuse e s
      else if Req = TestInstructionBoundaries then TestRdtscInstructionBoundaries e s
      else Some (TestErrorRequestInvalid, s))"

definition DsCtlTestRdtscDetection :: "test_env \<Rightarrow> irp \<Rightarrow> test_state \<Rightarrow> (ntstatus \<times> irp \<times> test_state) option" where
  "DsCtlTestRdtscDetection e p s =
     (if \<not> fits 8 p then Some (STATUS_BUFFER_TOO_SMALL, p, s)
      else map_option (\<lambda>(Result, s). (STATUS_SUCCESS, (put_buffer 4 (le32 Result) p)\<lparr>ip_Information := 8\<rparr>, s))
             (run_test e (get_buffer 0 p) s))"

section \<open>What the detection leaves in the table\<close>

definition candidate_entry :: "tsc_entry \<Rightarrow> bool" where
  "candidate_entry E \<longleftrightarrow> te_Difference E \<noteq> 0 \<and> \<not> IS_ORPHAN_SIBLING E \<and> te_Difference E \<le> 0x50000 \<and>
     sync_ok E \<and> skips_ok E \<and> count_ok E"

lemma candidate_entry: "TdIsTimingCandidate e i s = (b, s') \<Longrightarrow> b = candidate_entry (hv_tsc s ! i)"
  by (auto simp: TdIsTimingCandidate_def candidate_entry_def Let_def not_less split: if_splits)

definition settled :: "u64 \<Rightarrow> tsc_entry \<Rightarrow> bool" where
  "settled h E \<longleftrightarrow> (\<exists>n. slot_inv n E) \<and> (te_TscHash E = 0 \<or> te_TscHash E = h)"

lemma settled_zero: "settled h zero_tsc_entry \<and> \<not> candidate_entry zero_tsc_entry"
  using slot_inv_zero [of 0] by (auto simp: settled_def candidate_entry_def zero_tsc_entry_def)

lemma update_hash: "TdUpdateSibling E off ts = Some E' \<Longrightarrow> te_TscHash E' = te_TscHash E"
  by (auto simp: TdUpdateSibling_def choose_hit_def update_difference_def Let_def split: if_splits)

lemma record_hit_slot:
  assumes "record_hit e off ts T = Some (i, T')"
  shows "\<exists>X. T' = T[i := X]"
  using assms
  by (auto simp: record_hit_def TdCreateSibling_def TdGetSiblingSlot_def Let_def split: option.splits sum.splits prod.splits)

lemma record_hit_settled:
  assumes "record_hit e off ts T = Some (i, T')" "List.length T = MAX_TSC_HITS" "\<forall>E \<in> set T. settled (tsc_hash e) E"
    "off \<noteq> 0" "tsc_hash e \<noteq> 0"
  shows "i < MAX_TSC_HITS \<and> List.length T' = MAX_TSC_HITS \<and> (\<forall>E \<in> set T'. settled (tsc_hash e) E)"
proof (rule record_hit_keeps [OF assms(1,2,3)])
  show "settled (tsc_hash e) E'" if E: "settled (tsc_hash e) E" "te_TscHash E = tsc_hash e" "TdUpdateSibling E off ts = Some E'" for E E'
  proof -
    obtain n where "slot_inv n E" using E(1) by (auto simp: settled_def)
    then show ?thesis using slot_inv_update [OF _ _ E(3) assms(4)] update_hash [OF E(3)] E(2) assms(5) by (auto simp: settled_def)
  qed
  show "settled (tsc_hash e) (new_sibling off (tsc_hash e) ts)"
    using slot_inv_new [OF assms(4)] by (auto simp: settled_def new_sibling_def)
qed (auto simp: settled_def slot_inv_def)

text \<open>After every event no slot holds a candidate: it has been reported or dropped, and cleared.\<close>

definition settled_table :: "u64 \<Rightarrow> tsc_entry list \<Rightarrow> bool" where
  "settled_table h T \<longleftrightarrow> List.length T = MAX_TSC_HITS \<and> (\<forall>E \<in> set T. settled h E \<and> \<not> candidate_entry E)"

lemma settled_new: "settled_table h (replicate MAX_TSC_HITS zero_tsc_entry)"
  using settled_zero by (simp add: settled_table_def)

lemma settled_clear: "settled_table h T \<Longrightarrow> settled_table h (T[i := zero_tsc_entry])"
  using settled_zero set_update_subset_insert [of T i zero_tsc_entry] by (auto simp: settled_table_def)

lemma process_event_settled:
  assumes "TdProcessTscEvent e off ts s = Some (b, s')" "settled_table (tsc_hash e) (hv_tsc s)" "off \<noteq> 0" "tsc_hash e \<noteq> 0"
  shows "settled_table (tsc_hash e) (hv_tsc s')"
proof -
  obtain i T where h: "record_hit e off ts (hv_tsc s) = Some (i, T)" using record_hit_total by blast
  obtain X where X: "T = (hv_tsc s)[i := X]" using record_hit_slot [OF h] by blast
  have I: "i < MAX_TSC_HITS" "List.length T = MAX_TSC_HITS" "\<forall>E \<in> set T. settled (tsc_hash e) E"
    using record_hit_settled [OF h _ _ assms(3,4)] assms(2) by (simp_all add: settled_table_def)
  obtain c s1 where c: "TdIsTimingCandidate e i (s\<lparr>hv_tsc := T\<rparr>) = (c, s1)" by fastforce
  have cl: "settled_table (tsc_hash e) (T[i := zero_tsc_entry])" unfolding X list_update_overwrite by (rule settled_clear [OF assms(2)])
  have keep: "settled_table (tsc_hash e) T" if "\<not> candidate_entry (T ! i)"
    unfolding settled_table_def
  proof (intro conjI ballI)
    show "List.length T = MAX_TSC_HITS" by (rule I(2))
    fix E assume E: "E \<in> set T"
    then show "settled (tsc_hash e) E" using I(3) by blast
    obtain j where j: "j < List.length T" "E = T ! j" using E by (metis in_set_conv_nth)
    show "\<not> candidate_entry E"
    proof (cases "j = i")
      case True
      then show ?thesis using that j by simp
    next
      case False
      then have "E = hv_tsc s ! j" "j < List.length (hv_tsc s)" using j by (simp_all add: X)
      then show ?thesis using assms(2) by (simp add: settled_table_def)
    qed
  qed
  show ?thesis
  proof (cases c)
    case False
    then have "s' = s1" using assms(1) by (simp add: TdProcessTscEvent_def h c)
    moreover have "\<not> candidate_entry (T ! i)" using candidate_entry [OF c] False by simp
    ultimately show ?thesis using candidate(1) [OF c] keep cl by auto
  next
    case True
    then have "hv_tsc s1 = T" using candidate(2) [OF c] by simp
    then have "hv_tsc s' = T[i := zero_tsc_entry]" using assms(1) True
      by (auto simp: TdProcessTscEvent_def h c set_entry_def TdClearSibling_def Let_def
          dest!: timing_attack_tsc split: option.splits prod.splits if_splits)
    then show ?thesis using cl by simp
  qed
qed

section \<open>What the tests find\<close>

lemma tester_settled:
  assumes "RdtscEmulateTester e Rip s = Some s'" "settled_table (tsc_hash (tv_hv e)) (ts_table s)" "Rip \<noteq> 0" "tsc_hash (tv_hv e) \<noteq> 0"
  shows "settled_table (tsc_hash (tv_hv e)) (ts_table s')"
  using assms process_event_settled [OF _ _ assms(3,4)] by (auto simp: RdtscEmulateTester_def)

lemma clock_sel [simp]:
  "ts_table (snd (rdtsc e s)) = ts_table s" "ts_table (snd (CreateTscHash e s)) = ts_table s"
  "ts_table (AddGlobalTsc v s) = ts_table s" "ts_table (snd (skip_addition e i s)) = ts_table s"
  by (simp_all add: rdtsc_def CreateTscHash_def RandomInt_def AddGlobalTsc_def skip_addition_def Let_def split_beta)

lemma or_nonzero: "a \<noteq> 0 \<Longrightarrow> a OR b \<noteq> (0 :: 'a::len word)"
  by (simp add: or_eq_0_iff)

lemma hit_settled:
  assumes "AddTimeStampHit e h off d s = Some s'" "settled_table (tsc_hash (tv_hv e)) (ts_table s)" "off \<noteq> 0" "tsc_hash (tv_hv e) \<noteq> 0"
  shows "settled_table (tsc_hash (tv_hv e)) (ts_table s')"
  using assms(1) tester_settled [OF _ _ assms(3,4)] assms(2) by (simp add: AddTimeStampHit_def Let_def split: if_splits)

lemma siblings_settled:
  "FillWithSiblings e js s = Some s' \<Longrightarrow> settled_table (tsc_hash (tv_hv e)) (ts_table s) \<Longrightarrow> tsc_hash (tv_hv e) \<noteq> 0 \<Longrightarrow>
     settled_table (tsc_hash (tv_hv e)) (ts_table s')"
proof (induction js arbitrary: s)
  case (Cons i js)
  obtain h s1 where h: "CreateTscHash e s = (h, s1)" by fastforce
  then have t: "ts_table s1 = ts_table s" using clock_sel(2) [of e s] by simp
  obtain s2 s3 where r: "AddTimeStampHit e h (0x7F0093E0 OR push_bit 16 (of_nat i)) CONSTANT_TSC s1 = Some s2"
    "AddTimeStampHit e h (0x7F0093E6 OR push_bit 16 (of_nat i)) CONSTANT_TSC s2 = Some s3" "FillWithSiblings e js s3 = Some s'"
    using Cons.prems(1) by (auto simp: h bind_eq_Some_conv)
  have A: "settled_table (tsc_hash (tv_hv e)) (ts_table s2)"
    by (rule hit_settled [OF r(1) _ or_nonzero Cons.prems(3)]) (simp_all add: t Cons.prems(2))
  have "settled_table (tsc_hash (tv_hv e)) (ts_table s3)"
    by (rule hit_settled [OF r(2) A or_nonzero Cons.prems(3)]) simp
  then show ?case by (rule Cons.IH [OF r(3) _ Cons.prems(3)])
qed simp

lemma skip_loop_settled:
  "skip_loop e js s = Some s' \<Longrightarrow> settled_table (tsc_hash (tv_hv e)) (ts_table s) \<Longrightarrow> tsc_hash (tv_hv e) \<noteq> 0 \<Longrightarrow>
     settled_table (tsc_hash (tv_hv e)) (ts_table s')"
proof (induction js arbitrary: s)
  case (Cons i js)
  obtain a s1 where a: "skip_addition e i s = (a, s1)" by fastforce
  obtain s2 where s2: "RdtscEmulateTester e 0x7FF6AEE0 (AddGlobalTsc (ucast a) s1) = Some s2"
    using Cons.prems(1) by (auto simp: a bind_eq_Some_conv)
  obtain b s3 where b: "skip_addition e i s2 = (b, s3)" by fastforce
  obtain s4 where s4: "RdtscEmulateTester e 0x7FF6AEE6 (AddGlobalTsc (ucast b) s3) = Some s4" "skip_loop e js s4 = Some s'"
    using Cons.prems(1) by (auto simp: a s2 b bind_eq_Some_conv)
  have t: "ts_table s1 = ts_table s" "ts_table s3 = ts_table s2"
    using clock_sel(4) [of e i s] clock_sel(4) [of e i s2] by (simp_all add: a b)
  have "settled_table (tsc_hash (tv_hv e)) (ts_table s2)" by (rule tester_settled [OF s2 _ _ Cons.prems(3)]) (simp_all add: t Cons.prems(2))
  then have "settled_table (tsc_hash (tv_hv e)) (ts_table s4)" by (intro tester_settled [OF s4(1) _ _ Cons.prems(3)]) (simp_all add: t)
  then show ?case by (rule Cons.IH [OF s4(2) _ Cons.prems(3)])
qed simp

lemma boundary_loop_settled:
  "boundary_loop e n s = Some s' \<Longrightarrow> settled_table (tsc_hash (tv_hv e)) (ts_table s) \<Longrightarrow> tsc_hash (tv_hv e) \<noteq> 0 \<Longrightarrow>
     settled_table (tsc_hash (tv_hv e)) (ts_table s')"
proof (induction n arbitrary: s)
  case (Suc n)
  obtain s1 s2 where r: "RdtscEmulateTester e 0x7F7FFFFE (AddGlobalTsc 300 s) = Some s1"
    "RdtscEmulateTester e 0x7F800003 (AddGlobalTsc 300 s1) = Some s2" "boundary_loop e n s2 = Some s'"
    using Suc.prems(1) by (auto simp: bind_eq_Some_conv)
  have "settled_table (tsc_hash (tv_hv e)) (ts_table s1)" by (rule tester_settled [OF r(1) _ _ Suc.prems(3)]) (simp_all add: Suc.prems(2))
  then have "settled_table (tsc_hash (tv_hv e)) (ts_table s2)" by (intro tester_settled [OF r(2) _ _ Suc.prems(3)]) simp_all
  then show ?case by (rule Suc.IH [OF r(3) _ Suc.prems(3)])
qed simp

lemma basic_loop_settled:
  "basic_loop e js s = Some s' \<Longrightarrow> settled_table (tsc_hash (tv_hv e)) (ts_table s) \<Longrightarrow> tsc_hash (tv_hv e) \<noteq> 0 \<Longrightarrow>
     settled_table (tsc_hash (tv_hv e)) (ts_table s')"
proof (induction js arbitrary: s)
  case (Cons i js)
  let ?S = "\<lambda>s. settled_table (tsc_hash (tv_hv e)) (ts_table s)"
  let ?first = "if i mod 6 = 0
        then Option.bind (RdtscEmulateTester e 0x7FF6AEE0 (AddGlobalTsc 300 s)) (\<lambda>s. RdtscEmulateTester e 0x7FF6AEE6 (AddGlobalTsc 300 s))
        else Some s"
  obtain s1 where s1: "?first = Some s1" using Cons.prems(1) by (cases ?first) simp_all
  have S1: "?S s1"
  proof (cases "i mod 6 = 0")
    case True
    then obtain s0 where r: "RdtscEmulateTester e 0x7FF6AEE0 (AddGlobalTsc 300 s) = Some s0"
      "RdtscEmulateTester e 0x7FF6AEE6 (AddGlobalTsc 300 s0) = Some s1" using s1 by (auto simp: bind_eq_Some_conv)
    have "?S s0" by (rule tester_settled [OF r(1) _ _ Cons.prems(3)]) (simp_all add: Cons.prems(2))
    then show ?thesis by (intro tester_settled [OF r(2) _ _ Cons.prems(3)]) simp_all
  qed (use s1 Cons.prems(2) in simp)
  obtain t s2 where t: "rdtsc e s1 = (t, s2)" by fastforce
  obtain s3 where s3: "RdtscEmulateTester e (0x7FF70000 OR t AND 0xFFFF) (AddGlobalTsc (t AND 0xFFFF) s2) = Some s3" "basic_loop e js s3 = Some s'"
    using Cons.prems(1) by (auto simp: s1 t Let_def bind_eq_Some_conv simp del: if_splits)
  have "ts_table s2 = ts_table s1" using clock_sel(1) [of e s1] by (simp add: t)
  then have "?S s3" by (intro tester_settled [OF s3(1) _ or_nonzero Cons.prems(3)]) (simp_all add: S1)
  then show ?case by (rule Cons.IH [OF s3(2) _ Cons.prems(3)])
qed simp

lemma find_candidate_settled:
  "settled_table h (ts_table s) \<Longrightarrow> \<forall>i \<in> set js. i < MAX_TSC_HITS \<Longrightarrow> fst (find_candidate e js s) = TestErrorDetectionFailed"
proof (induction js arbitrary: s)
  case (Cons i js)
  obtain b s1 where b: "TdIsTimingCandidate (tv_hv e) i ((ts_hv s)\<lparr>hv_tsc := ts_table s\<rparr>) = (b, s1)" by fastforce
  have "ts_table s ! i \<in> set (ts_table s)" using Cons.prems by (simp add: settled_table_def)
  then have "\<not> b" using candidate_entry [OF b] Cons.prems(1) by (simp add: settled_table_def)
  moreover have "settled_table h (hv_tsc s1)" using candidate(1) [OF b] Cons.prems(1) settled_clear [of h "ts_table s" i] by auto
  ultimately show ?case using Cons.IH Cons.prems(2) by (simp add: b Let_def)
qed simp

lemma finish_test_settled: "settled_table h (ts_table s) \<Longrightarrow> fst (finish_test e s) = TestErrorDetectionFailed"
  using find_candidate_settled [of h s "[0..<MAX_TSC_HITS]" e] by (simp add: finish_test_def split_beta)

lemma finish_fails: "(R, s') = finish_test e s \<Longrightarrow> settled_table h (ts_table s) \<Longrightarrow> R \<noteq> TestSuccess"
  using finish_test_settled [of h s e] by (auto simp: test_result_defs dest: arg_cong [where f = fst])

lemma find_hash_settled:
  assumes "settled_table h T" "k \<noteq> 0" "k \<noteq> h"
  shows "find_hash T k = TestErrorDetectionFailed"
proof -
  have "te_TscHash (T ! i) \<noteq> k" if "i < MAX_TSC_HITS" for i
    using assms nth_mem [of i T] that by (auto simp: settled_table_def settled_def)
  then have "List.find (\<lambda>i. te_TscHash (T ! i) = k) [0..<MAX_TSC_HITS] = None" by (auto simp: find_None_iff)
  then show ?thesis by (simp add: find_hash_def)
qed

lemma check_siblings_fails: "check_siblings Es = Some R \<Longrightarrow> R \<noteq> TestSuccess"
  by (induction Es) (auto simp: test_result_defs split: if_splits)

text \<open>What holds of the table holds of the context that a test makes for itself.\<close>

lemma test_fails:
  assumes h: "tsc_hash (tv_hv e) \<noteq> 0"
    and other: "\<And>s. fst (CreateTscHash e s) \<noteq> 0 \<and> fst (CreateTscHash e s) \<noteq> tsc_hash (tv_hv e)"
    and run: "run_test e Req s = Some (R, s')"
  shows "R \<noteq> TestSuccess"
proof -
  let ?S = "\<lambda>s. settled_table (tsc_hash (tv_hv e)) (ts_table s)"
  obtain ok s0 where c: "CreateLocalContext e s = (ok, s0)" by fastforce
  have S0: "?S s0" if ok using c that settled_new by (auto simp: CreateLocalContext_def split: if_splits)
  obtain k s1 where k: "CreateTscHash e s0 = (k, s1)" by fastforce
  have S1: "?S s1" if ok using clock_sel(2) [of e s0] S0 [OF that] by (simp add: k)
  consider (none) "\<not> ok" | (basic) "Req = 1" ok | (skip) "Req = 2" ok | (reuse) "Req = 3" ok | (bounds) "Req = 5" ok
    | (bad) "Req \<notin> {1, 2, 3, 5}" ok by blast
  then show ?thesis
  proof cases
    case none
    then show ?thesis using run
      by (auto simp: run_test_def test_request_defs c test_result_defs TestBasicTimeStampDetection_def TestBasicTimeStampDetectionWithSkip_def
          TestBasicTimeStampDetectionReuse_def TestRdtscInstructionBoundaries_def split: if_splits)
  next
    case basic
    then obtain s2 where "basic_loop e [0..<256 * 6] s1 = Some s2" "(R, s') = finish_test e s2"
      using run by (auto simp: run_test_def test_request_defs TestBasicTimeStampDetection_def c k simp del: upt.simps)
    then show ?thesis using finish_fails basic_loop_settled [OF _ S1 [OF basic(2)] h] by blast
  next
    case bounds
    then obtain s2 where "boundary_loop e 256 s1 = Some s2" "(R, s') = finish_test e s2"
      using run by (auto simp: run_test_def test_request_defs TestRdtscInstructionBoundaries_def c k)
    then show ?thesis using finish_fails boundary_loop_settled [OF _ S1 [OF bounds(2)] h] by blast
  next
    case skip
    obtain t s2 where t: "rdtsc e s0 = (t, s2)" by fastforce
    obtain k' s3 where k': "CreateTscHash e (s2\<lparr>gCurrentTsc := t\<rparr>) = (k', s3)" by fastforce
    have S3: "?S s3" using clock_sel(1) [of e s0] clock_sel(2) [of e "s2\<lparr>gCurrentTsc := t\<rparr>"] S0 [OF skip(2)] by (simp add: t k')
    obtain s4 where "skip_loop e [0..<256] s3 = Some s4" "(R, s') = finish_test e s4"
      using run skip by (auto simp: run_test_def test_request_defs TestBasicTimeStampDetectionWithSkip_def c t k' simp del: upt.simps)
    then show ?thesis using finish_fails skip_loop_settled [OF _ S3 h] by blast
  next
    case reuse
    obtain t s2 where t: "rdtsc e s0 = (t, s2)" by fastforce
    have S2: "?S (s2\<lparr>gCurrentTsc := t\<rparr>)" using clock_sel(1) [of e s0] S0 [OF reuse(2)] by (simp add: t)
    obtain s3 where s3: "FillWithSiblings e [0..<MAX_TSC_HITS] (s2\<lparr>gCurrentTsc := t\<rparr>) = Some s3"
      using run reuse by (auto simp: run_test_def test_request_defs TestBasicTimeStampDetectionReuse_def c t Let_def bind_eq_Some_conv)
    have S3: "?S s3" by (rule siblings_settled [OF s3 S2 h])
    show ?thesis
    proof (cases "check_siblings (ts_table s3)")
      case (Some R')
      then have "R = R'" using run reuse by (simp add: run_test_def test_request_defs TestBasicTimeStampDetectionReuse_def c t Let_def s3)
      then show ?thesis using check_siblings_fails [OF Some] by simp
    next
      case None
      obtain k' s4 where k': "CreateTscHash e s3 = (k', s4)" by fastforce
      have S4: "?S s4" using clock_sel(2) [of e s3] S3 by (simp add: k')
      obtain s5 where s5: "AddTimeStampHit e k' 0x7FF6AEE0 0x600 s4 = Some s5" "R = find_hash (ts_table s5) k'"
        using run reuse by (auto simp: run_test_def test_request_defs TestBasicTimeStampDetectionReuse_def c t Let_def s3 None k')
      have "?S s5" by (rule hit_settled [OF s5(1) S4 _ h]) simp
      then show ?thesis using find_hash_settled other [of s3] s5(2) by (simp add: k' test_result_defs)
    qed
  next
    case bad
    then show ?thesis using run by (simp add: run_test_def test_request_defs test_result_defs)
  qed
qed

section \<open>A request that always returns\<close>

text \<open>
  A test of fewer than 256 events reads no guest code.  The others can: their tables see hundreds of
  events for one pair of addresses.
\<close>

lemma tester_returns:
  assumes "table_inv n (ts_table s)" "n < 255" "Rip \<noteq> 0" "tsc_hash (tv_hv e) \<noteq> 0"
  shows "\<exists>s'. RdtscEmulateTester e Rip s = Some s' \<and> table_inv (Suc n) (ts_table s')"
proof -
  obtain h where "TdProcessTscEvent (tv_hv e) Rip (gCurrentTsc s) ((ts_hv s)\<lparr>hv_tsc := ts_table s\<rparr>) = Some (False, h)"
    "table_inv (Suc n) (hv_tsc h)"
    using process_event_quiet [of n "(ts_hv s)\<lparr>hv_tsc := ts_table s\<rparr>" Rip "tv_hv e" "gCurrentTsc s"] assms by auto
  then show ?thesis by (simp add: RdtscEmulateTester_def)
qed

lemma hit_returns:
  assumes "table_inv n (ts_table s)" "n < 255" "off \<noteq> 0" "tsc_hash (tv_hv e) \<noteq> 0"
  shows "\<exists>s'. AddTimeStampHit e h off d s = Some s' \<and> table_inv (Suc n) (ts_table s')"
  using tester_returns [OF _ assms(2,3,4)] assms(1) by (simp add: AddTimeStampHit_def Let_def)

lemma siblings_return:
  "table_inv n (ts_table s) \<Longrightarrow> n + 2 * List.length js \<le> 255 \<Longrightarrow> tsc_hash (tv_hv e) \<noteq> 0 \<Longrightarrow>
     \<exists>s'. FillWithSiblings e js s = Some s' \<and> table_inv (n + 2 * List.length js) (ts_table s')"
proof (induction js arbitrary: n s)
  case (Cons i js)
  obtain h s1 where h: "CreateTscHash e s = (h, s1)" by fastforce
  have t: "table_inv n (ts_table s1)" using Cons.prems(1) clock_sel(2) [of e s] by (simp add: h)
  have n: "n < 255" "Suc n < 255" "Suc (Suc n) + 2 * List.length js \<le> 255" using Cons.prems(2) by simp_all
  have z: "0x7F0093E0 OR push_bit 16 (of_nat i) \<noteq> (0 :: u64)" "0x7F0093E6 OR push_bit 16 (of_nat i) \<noteq> (0 :: u64)"
    by (rule or_nonzero, simp)+
  obtain s2 where s2: "AddTimeStampHit e h (0x7F0093E0 OR push_bit 16 (of_nat i)) CONSTANT_TSC s1 = Some s2" "table_inv (Suc n) (ts_table s2)"
    using hit_returns [OF t n(1) z(1) Cons.prems(3)] by blast
  obtain s3 where s3: "AddTimeStampHit e h (0x7F0093E6 OR push_bit 16 (of_nat i)) CONSTANT_TSC s2 = Some s3" "table_inv (Suc (Suc n)) (ts_table s3)"
    using hit_returns [OF s2(2) n(2) z(2) Cons.prems(3)] by blast
  show ?case using Cons.IH [OF s3(2) n(3) Cons.prems(3)] by (simp add: h s2(1) s3(1))
qed simp

lemma reuse_returns:
  assumes "tsc_hash (tv_hv e) \<noteq> 0"
  shows "TestBasicTimeStampDetectionReuse e s \<noteq> None"
proof -
  obtain ok s0 where c: "CreateLocalContext e s = (ok, s0)" by fastforce
  show ?thesis
  proof (cases ok)
    case False
    then show ?thesis by (simp add: TestBasicTimeStampDetectionReuse_def c)
  next
    case True
    obtain t s1 where t: "rdtsc e s0 = (t, s1)" by fastforce
    have "table_inv 0 (ts_table s0)" using c True zero_table_inv by (auto simp: CreateLocalContext_def split: if_splits)
    then have t0: "table_inv 0 (ts_table (s1\<lparr>gCurrentTsc := t\<rparr>))" using clock_sel(1) [of e s0] by (simp add: t)
    have m: "2 * MAX_TSC_HITS < 255" by (simp add: MAX_TSC_HITS_def)
    obtain s2 where s2: "FillWithSiblings e [0..<MAX_TSC_HITS] (s1\<lparr>gCurrentTsc := t\<rparr>) = Some s2"
      "table_inv (2 * MAX_TSC_HITS) (ts_table s2)"
      using siblings_return [OF t0, of "[0..<MAX_TSC_HITS]" e] assms m by auto
    obtain k s3 where k: "CreateTscHash e s2 = (k, s3)" by fastforce
    have t3: "table_inv (2 * MAX_TSC_HITS) (ts_table s3)" using s2(2) clock_sel(2) [of e s2] by (simp add: k)
    obtain s4 where "AddTimeStampHit e k 0x7FF6AEE0 0x600 s3 = Some s4"
      using hit_returns [OF t3 m _ assms, of "0x7FF6AEE0"] by auto
    then show ?thesis
      using True by (simp add: TestBasicTimeStampDetectionReuse_def c t Let_def s2(1) k del: upt.simps split: option.split)
  qed
qed

text \<open>
  C38: The self tests of the detection cannot report success, whatever the processor and the clock
  do, as long as the made-up hash is not that of the calling thread: every event empties the slot it
  has judged, so no candidate is left for the test to find, and the made-up hash never reaches the
  table.  The request answers with its eight bytes, or refuses a buffer that is too small, and all
  but the three long tests are known to return.
\<close>

theorem rdtsc_tests_cannot_succeed:
  assumes "tsc_hash (tv_hv e) \<noteq> 0"
    and "\<And>s. fst (CreateTscHash e s) \<noteq> 0 \<and> fst (CreateTscHash e s) \<noteq> tsc_hash (tv_hv e)"
    and "8 \<le> List.length (ip_SystemBuffer p)"
  shows "case DsCtlTestRdtscDetection e p s of
      None \<Rightarrow> fits 8 p \<and> get_buffer 0 p \<in> {TestBasicRdtscDetection, TestBasicRdtscDetectionWithSkip, TestInstructionBoundaries}
    | Some (Status, p', s') \<Rightarrow>
        if fits 8 p then Status = STATUS_SUCCESS \<and> ip_Information p' = 8 \<and> get_buffer 4 p' \<noteq> TestSuccess
        else Status = STATUS_BUFFER_TOO_SMALL \<and> p' = p \<and> s' = s"
proof (cases "fits 8 p")
  case False
  then show ?thesis by (simp add: DsCtlTestRdtscDetection_def)
next
  case True
  show ?thesis
  proof (cases "run_test e (get_buffer 0 p) s")
    case None
    then show ?thesis using True reuse_returns [OF assms(1), of s]
      by (auto simp: DsCtlTestRdtscDetection_def run_test_def test_request_defs split: if_splits)
  next
    case (Some r)
    obtain R s' where r: "r = (R, s')" by fastforce
    have "R \<noteq> TestSuccess" by (rule test_fails [OF assms(1,2) Some [unfolded r]])
    moreover have "get_buffer 4 ((put_buffer 4 (le32 R) p)\<lparr>ip_Information := 8\<rparr>) = R"
      using assms(3) by (simp add: get_buffer_def put_buffer_def)
    ultimately show ?thesis using True by (simp add: DsCtlTestRdtscDetection_def Some r)
  qed
qed

lemma rdtsc_tests_cannot_succeed_witness:
  "\<exists>p' s'. DsCtlTestRdtscDetection \<lparr>tv_hv = example_hv_env, tv_rdtsc = (\<lambda>_. 1), tv_pool = (\<lambda>_. True)\<rparr>
      \<lparr>ip_InputLength = 8, ip_OutputLength = 8, ip_SystemBuffer = le32 3 @ le32 0, ip_Status = STATUS_SUCCESS,
        ip_Information = 0, ip_Completed = False\<rparr>
      \<lparr>ts_hv = example_hv, ts_table = [], gCurrentTsc = 0, ts_clock = 0, ts_pools = 0, ts_live = 0\<rparr> = Some (STATUS_SUCCESS, p', s') \<and>
    ip_Information p' = 8 \<and> get_buffer 4 p' \<noteq> TestSuccess"
proof -
  let ?e = "\<lparr>tv_hv = example_hv_env, tv_rdtsc = (\<lambda>_. 1), tv_pool = (\<lambda>_. True)\<rparr>"
  let ?p = "\<lparr>ip_InputLength = 8, ip_OutputLength = 8, ip_SystemBuffer = le32 3 @ le32 0, ip_Status = STATUS_SUCCESS,
        ip_Information = 0, ip_Completed = False\<rparr>"
  let ?s = "\<lparr>ts_hv = example_hv, ts_table = [], gCurrentTsc = 0, ts_clock = 0, ts_pools = 0, ts_live = 0\<rparr>"
  have "tsc_hash (tv_hv ?e) \<noteq> 0" by (simp add: tsc_hash_def example_hv_env_def)
  moreover have "fst (CreateTscHash ?e s) \<noteq> 0 \<and> fst (CreateTscHash ?e s) \<noteq> tsc_hash (tv_hv ?e)" for s
    by (simp add: CreateTscHash_def RandomInt_def rdtsc_def tsc_hash_def example_hv_env_def)
  moreover have "8 \<le> List.length (ip_SystemBuffer ?p)" by simp
  moreover have "get_buffer 0 ?p = 3" by (simp add: get_buffer_def)
  moreover have "fits 8 ?p" by (simp add: fits_def)
  ultimately show ?thesis using rdtsc_tests_cannot_succeed [of ?e ?p ?s]
    by (auto simp: test_request_defs split: option.splits prod.splits)
qed

end
